(* ===== verification/Prelude.thy ===== *)
theory Prelude
  imports Complex_Main "HOL-Library.Word" "HOL-Library.AList"
begin

text \<open>
  What the components share: error-carrying results as sums, the Python string
  operations the sources use on lists, and the named collections of simp and
  introduction rules the component proofs draw from.
\<close>

named_theorems err_simps
  \<open>unfolding rules for results that carry an error\<close>

named_theorems inv_intros
  \<open>preservation of the component invariants by the operations\<close>

subsection \<open>Results with an error\<close>

text \<open>
  A raised exception is \<open>Inl\<close>, a returned value \<open>Inr\<close>. \<open>bindE\<close> is the
  sequencing of statements of which the first may raise, and \<open>guardE\<close> an
  \<^verbatim>\<open>if not cond: raise\<close> statement.
\<close>

fun bindE :: "'e + 'a \<Rightarrow> ('a \<Rightarrow> 'e + 'b) \<Rightarrow> 'e + 'b" where
  "bindE (Inl e) k = Inl e"
| "bindE (Inr x) k = k x"

definition guardE :: "bool \<Rightarrow> 'e \<Rightarrow> 'e + unit" where
  "guardE b e = (if b then Inr () else Inl e)"

fun mapE :: "('a \<Rightarrow> 'e + 'b) \<Rightarrow> 'a list \<Rightarrow> 'e + 'b list" where
  "mapE f [] = Inr []"
| "mapE f (x # xs) = bindE (f x) (\<lambda>y. bindE (mapE f xs) (\<lambda>ys. Inr (y # ys)))"

lemma bindE_Inr_iff [err_simps]: "bindE m k = Inr y \<longleftrightarrow> (\<exists>x. m = Inr x \<and> k x = Inr y)"
  by (cases m) auto

lemma bindE_Inl_iff [err_simps]:
  "bindE m k = Inl e \<longleftrightarrow> m = Inl e \<or> (\<exists>x. m = Inr x \<and> k x = Inl e)"
  by (cases m) auto

lemma guardE_simps [err_simps, simp]:
  "guardE b e = Inr u \<longleftrightarrow> b"
  "guardE b e = Inl e' \<longleftrightarrow> \<not> b \<and> e' = e"
  by (auto simp: guardE_def)

lemma guardE_bind [simp]: "bindE (guardE b e) k = (if b then k () else Inl e)"
  by (simp add: guardE_def)

lemma bindE_assoc: "bindE (bindE m f) g = bindE m (\<lambda>x. bindE (f x) g)"
  by (cases m) auto

lemma mapE_length: "mapE f xs = Inr ys \<Longrightarrow> length ys = length xs"
  by (induction xs arbitrary: ys) (auto simp: bindE_Inr_iff)

lemma mapE_nth: "mapE f xs = Inr ys \<Longrightarrow> i < length xs \<Longrightarrow> f (xs ! i) = Inr (ys ! i)"
proof (induction xs arbitrary: ys i)
  case (Cons x xs)
  then show ?case by (cases i) (auto simp: bindE_Inr_iff)
qed simp

lemma mapE_mem: "mapE f xs = Inr ys \<Longrightarrow> y \<in> set ys \<Longrightarrow> \<exists>x\<in>set xs. f x = Inr y"
  by (induction xs arbitrary: ys) (auto simp: bindE_Inr_iff)

subsection \<open>Unicode text\<close>

text \<open>
  A Python \<^verbatim>\<open>str\<close> is a list of code points. \<open>ascii\<close> embeds a literal.
\<close>

type_synonym ustr = "nat list"

definition ascii :: "string \<Rightarrow> ustr" where
  "ascii s = map of_char s"

lemma ascii_append: "ascii (a @ b) = ascii a @ ascii b"
  by (simp add: ascii_def)

lemma ascii_Nil [simp]: "ascii [] = []"
  by (simp add: ascii_def)

lemma ascii_eq_Nil [simp]: "ascii s = [] \<longleftrightarrow> s = []"
  by (simp add: ascii_def)

text \<open>\<^verbatim>\<open>str.isspace\<close> of one character: the fixed set of CPython's tables.\<close>

definition py_isspace :: "nat \<Rightarrow> bool" where
  "py_isspace c \<longleftrightarrow> (9 \<le> c \<and> c \<le> 13) \<or> (28 \<le> c \<and> c \<le> 32) \<or> c = 133 \<or> c = 160 \<or> c = 5760 \<or>
     (8192 \<le> c \<and> c \<le> 8202) \<or> c = 8232 \<or> c = 8233 \<or> c = 8239 \<or> c = 8287 \<or> c = 12288"

text \<open>\<^verbatim>\<open>lstrip\<close>, \<^verbatim>\<open>rstrip\<close> and \<^verbatim>\<open>strip\<close> over a predicate on characters.\<close>

definition lstripP :: "('a \<Rightarrow> bool) \<Rightarrow> 'a list \<Rightarrow> 'a list" where
  "lstripP P s = dropWhile P s"

definition rstripP :: "('a \<Rightarrow> bool) \<Rightarrow> 'a list \<Rightarrow> 'a list" where
  "rstripP P s = rev (dropWhile P (rev s))"

definition stripP :: "('a \<Rightarrow> bool) \<Rightarrow> 'a list \<Rightarrow> 'a list" where
  "stripP P s = rstripP P (lstripP P s)"

abbreviation strip :: "ustr \<Rightarrow> ustr" where
  "strip \<equiv> stripP py_isspace"

fun endswith :: "'a list \<Rightarrow> 'a list \<Rightarrow> bool" where
  "endswith s suf \<longleftrightarrow> length suf \<le> length s \<and> drop (length s - length suf) s = suf"

fun startswith :: "'a list \<Rightarrow> 'a list \<Rightarrow> bool" where
  "startswith s pre \<longleftrightarrow> take (length pre) s = pre"

text \<open>\<^verbatim>\<open>sub in s\<close> on strings.\<close>

fun contains :: "'a list \<Rightarrow> 'a list \<Rightarrow> bool" where
  "contains [] sub \<longleftrightarrow> sub = []"
| "contains (x # xs) sub \<longleftrightarrow> startswith (x # xs) sub \<or> contains xs sub"

text \<open>\<^verbatim>\<open>s.split(sep)\<close> for a one-character separator: always at least one piece.\<close>

fun split_on :: "'a \<Rightarrow> 'a list \<Rightarrow> 'a list list" where
  "split_on c [] = [[]]"
| "split_on c (x # xs) =
     (if x = c then [] # split_on c xs
      else (case split_on c xs of [] \<Rightarrow> [[x]] | p # ps \<Rightarrow> (x # p) # ps))"

text \<open>\<^verbatim>\<open>sep.join(parts)\<close>.\<close>

fun join :: "'a list \<Rightarrow> 'a list list \<Rightarrow> 'a list" where
  "join sep [] = []"
| "join sep [p] = p"
| "join sep (p # q # ps) = p @ sep @ join sep (q # ps)"

lemma endswith_append [simp]: "endswith (s @ t) t"
  by simp

lemma endswith_iff: "endswith s t \<longleftrightarrow> (\<exists>p. s = p @ t)"
  by (auto intro: exI [of _ "take (length s - length t) s"] simp: append_eq_conv_conj)
    (metis append_take_drop_id)

lemma startswith_iff: "startswith s t \<longleftrightarrow> (\<exists>q. s = t @ q)"
  by (auto simp: append_eq_conv_conj) (metis append_eq_conv_conj append_take_drop_id)

lemma lstripP_id: "(s = [] \<or> \<not> P (hd s)) \<Longrightarrow> lstripP P s = s"
  by (cases s) (auto simp: lstripP_def)

lemma rstripP_id: "(s = [] \<or> \<not> P (last s)) \<Longrightarrow> rstripP P s = s"
  by (cases s rule: rev_cases) (auto simp: rstripP_def)

lemma split_on_ne [simp]: "split_on c xs \<noteq> []"
  by (induction xs) (auto split: list.splits)

lemma split_on_append:
  "c \<notin> set p \<Longrightarrow> split_on c (p @ c # xs) = p # split_on c xs"
  by (induction p) auto

lemma split_on_no: "c \<notin> set p \<Longrightarrow> split_on c p = [p]"
  by (induction p) auto

lemma split_on_join:
  "ps \<noteq> [] \<Longrightarrow> (\<forall>p\<in>set ps. c \<notin> set p) \<Longrightarrow> split_on c (join [c] ps) = ps"
proof (induction ps)
  case (Cons p ps)
  then show ?case
    by (cases ps) (auto simp: split_on_no split_on_append)
qed simp

lemma set_join: "set (join sep ps) \<subseteq> set sep \<union> \<Union> (set ` set ps)"
  by (induction sep ps rule: join.induct) auto

text \<open>\<^verbatim>\<open>s.split()\<close> without a separator: the maximal runs of non-space characters.\<close>

function words :: "ustr \<Rightarrow> ustr list" where
  "words s =
     (let t = dropWhile py_isspace s in
      if t = [] then []
      else takeWhile (\<lambda>c. \<not> py_isspace c) t # words (dropWhile (\<lambda>c. \<not> py_isspace c) t))"
  by pat_completeness auto
termination
proof (relation "measure length")
  fix s t :: ustr
  assume t: "t = dropWhile py_isspace s" "t \<noteq> []"
  then have "\<not> py_isspace (hd t)" using hd_dropWhile by blast
  then have "length (dropWhile (\<lambda>c. \<not> py_isspace c) t) < length t"
    using t(2) by (cases t) (auto intro: le_less_trans [OF length_dropWhile_le])
  also have "\<dots> \<le> length s" using t(1) by (simp add: length_dropWhile_le)
  finally show "(dropWhile (\<lambda>c. \<not> py_isspace c) t, s) \<in> measure length" by simp
qed simp

declare words.simps [simp del]

lemma words_no_space: "w \<in> set (words s) \<Longrightarrow> c \<in> set w \<Longrightarrow> \<not> py_isspace c \<and> c \<in> set s"
proof (induction s rule: words.induct)
  case (1 s)
  then show ?case
    by (subst (asm) (2) words.simps)
      (auto simp: Let_def split: if_splits dest!: set_takeWhileD dest: set_dropWhileD)
qed

subsection \<open>The Unicode character database\<close>

text \<open>
  The tables behind \<^verbatim>\<open>unicodedata\<close>, \<^verbatim>\<open>str.lower\<close> and \<^verbatim>\<open>str.casefold\<close> are
  data of the interpreter, not code of this repository: a parameter of what uses them.
\<close>

record unidb =
  ucategory :: "nat \<Rightarrow> string"
  unfc :: "ustr \<Rightarrow> ustr"
  unfkc :: "ustr \<Rightarrow> ustr"
  ulower :: "ustr \<Rightarrow> ustr"
  ucasefold :: "ustr \<Rightarrow> ustr"

definition ascii_lower_char :: "nat \<Rightarrow> nat" where
  "ascii_lower_char c = (if 65 \<le> c \<and> c \<le> 90 then c + 32 else c)"

definition ascii_lower :: "ustr \<Rightarrow> ustr" where
  "ascii_lower s = map ascii_lower_char s"

definition ascii_category :: "nat \<Rightarrow> string" where
  "ascii_category c =
     (if c < 32 \<or> c = 127 then ''Cc''
      else if c = 32 then ''Zs''
      else if 48 \<le> c \<and> c \<le> 57 then ''Nd''
      else if 65 \<le> c \<and> c \<le> 90 then ''Lu''
      else if 97 \<le> c \<and> c \<le> 122 then ''Ll''
      else ''Po'')"

text \<open>
  The database restricted to ASCII, for evaluating the model: normalisation is the
  identity there and both foldings are ASCII lower case.
\<close>

definition ascii_db :: unidb where
  "ascii_db = \<lparr>ucategory = ascii_category, unfc = id, unfkc = id,
     ulower = ascii_lower, ucasefold = ascii_lower\<rparr>"

lemma ascii_lower_idem [simp]: "ascii_lower (ascii_lower s) = ascii_lower s"
  by (auto simp: ascii_lower_def ascii_lower_char_def)

subsection \<open>JSON values\<close>

text \<open>
  What \<^verbatim>\<open>json.loads\<close> makes of a request: object keys are given by their UTF-8 bytes,
  string values by their code points.
\<close>

datatype json =
    JNull
  | JBool bool
  | JInt int
  | JFloat real
  | JStr ustr
  | JList "json list"
  | JObj "(string \<times> json) list"

definition jget :: "(string \<times> json) list \<Rightarrow> string \<Rightarrow> json option" where
  "jget obj k = map_of (rev obj) k"

subsection \<open>Dictionaries\<close>

lemma option_eqI: "(\<And>v. x = Some v \<longleftrightarrow> y = Some v) \<Longrightarrow> x = y"
  by (cases x; cases y) auto

text \<open>
  A Python dict is its list of items in insertion order: assigning to a new key appends,
  assigning to a present one keeps its place, exactly as \<open>AList.update\<close> does.
\<close>

definition dget :: "('k \<times> 'v) list \<Rightarrow> 'k \<Rightarrow> 'v option" where
  "dget d k = map_of d k"

definition dset :: "'k \<Rightarrow> 'v \<Rightarrow> ('k \<times> 'v) list \<Rightarrow> ('k \<times> 'v) list" where
  "dset k v d = AList.update k v d"

definition ddel :: "'k \<Rightarrow> ('k \<times> 'v) list \<Rightarrow> ('k \<times> 'v) list" where
  "ddel k d = AList.delete k d"

lemma dget_dset [simp]: "dget (dset k v d) k' = (if k' = k then Some v else dget d k')"
  by (simp add: dget_def dset_def update_conv')

lemma dget_ddel [simp]: "dget (ddel k d) k' = (if k' = k then None else dget d k')"
  by (simp add: dget_def ddel_def delete_conv')

lemma dget_Nil [simp]: "dget [] k = None"
  by (simp add: dget_def)

lemma dkeys_dset: "fst ` set (dset k v d) = insert k (fst ` set d)"
  by (simp add: dset_def dom_update)

lemma dkeys_ddel: "fst ` set (ddel k d) = fst ` set d - {k}"
  using arg_cong [OF delete_keys [of k d], of set] by (simp add: ddel_def)

lemma dkeys_dget: "k \<in> fst ` set d \<longleftrightarrow> dget d k \<noteq> None"
  by (simp add: dget_def map_of_eq_None_iff)

definition dict_ok :: "('k \<times> 'v) list \<Rightarrow> bool" where
  "dict_ok d \<longleftrightarrow> distinct (map fst d)"

lemma dict_ok_simps [simp]:
  "dict_ok []" "dict_ok d \<Longrightarrow> dict_ok (dset k v d)" "dict_ok d \<Longrightarrow> dict_ok (ddel k d)"
  by (simp_all add: dict_ok_def dset_def ddel_def distinct_update distinct_delete)

lemma dict_ok_items: "dict_ok d \<Longrightarrow> (k, v) \<in> set d \<longleftrightarrow> dget d k = Some v"
  by (simp add: dict_ok_def dget_def)

end
