(* ===== verification/Codec.thy ===== *)
theory Codec
  imports Prelude
begin

text \<open>
  The protobuf wire codec of \<^verbatim>\<open>backend/icp/proto/codec.py\<close>: variable-length
  integers, the field writer (its buffer is the byte list it has accumulated) and
  \<^verbatim>\<open>decode_fields\<close>, whose cursor is the part of the data not read yet.
\<close>

unbundle bit_operations_syntax

type_synonym bytes = "8 word list"

datatype proto_error = TruncatedVarint | TruncatedLen | UnsupportedWire int int

definition WT_VARINT :: int where "WT_VARINT = 0"
definition WT_LEN :: int where "WT_LEN = 2"
definition WT_I64 :: int where "WT_I64 = 1"
definition WT_I32 :: int where "WT_I32 = 5"

lemmas wire_types = WT_VARINT_def WT_LEN_def WT_I64_def WT_I32_def

subsection \<open>Variable-length integers\<close>

text \<open>The loop of \<^verbatim>\<open>encode_varint\<close>, on the masked value.\<close>

function varint_loop :: "int \<Rightarrow> bytes" where
  "varint_loop v =
     (let b = v AND 0x7F; v' = drop_bit 7 v in
      if v' \<le> 0 then [word_of_int b]
      else word_of_int (b OR 0x80) # varint_loop v')"
  by pat_completeness auto
termination
  by (relation "measure nat") (auto simp: drop_bit_eq_div)

declare varint_loop.simps [simp del]

definition encode_varint :: "int \<Rightarrow> bytes" where
  "encode_varint v = varint_loop (if v < 0 then v AND (push_bit 64 1 - 1) else v)"

text \<open>\<^verbatim>\<open>read_varint\<close>: the value and what is left of the data.\<close>

fun read_varint :: "nat \<Rightarrow> int \<Rightarrow> bytes \<Rightarrow> proto_error + (int \<times> bytes)" where
  "read_varint shift val [] = Inl TruncatedVarint"
| "read_varint shift val (b # bs) =
     (let val' = val OR push_bit shift (uint b AND 0x7F) in
      if uint b AND 0x80 = 0 then Inr (val', bs)
      else read_varint (shift + 7) val' bs)"

subsection \<open>The writer\<close>

definition tag_bytes :: "int \<Rightarrow> int \<Rightarrow> bytes" where
  "tag_bytes fld wire = encode_varint (push_bit 3 fld OR wire)"

definition w_uint64 :: "int \<Rightarrow> int option \<Rightarrow> bytes \<Rightarrow> bytes" where
  "w_uint64 fld value buf =
     (case value of None \<Rightarrow> buf
      | Some v \<Rightarrow> buf @ tag_bytes fld WT_VARINT @ encode_varint v)"

definition w_bool :: "int \<Rightarrow> bool option \<Rightarrow> bytes \<Rightarrow> bytes" where
  "w_bool fld value buf =
     (case value of None \<Rightarrow> buf
      | Some v \<Rightarrow> buf @ tag_bytes fld WT_VARINT @ encode_varint (if v then 1 else 0))"

definition w_bytes :: "int \<Rightarrow> bytes option \<Rightarrow> bytes \<Rightarrow> bytes" where
  "w_bytes fld value buf =
     (case value of None \<Rightarrow> buf
      | Some v \<Rightarrow> buf @ tag_bytes fld WT_LEN @ encode_varint (int (length v)) @ v)"

text \<open>
  \<^verbatim>\<open>double\<close> takes the IEEE-754 bit pattern of the value; \<open>pack_le\<close> is
  \<^verbatim>\<open>struct.pack\<close>'s little-endian layout.
\<close>

fun pack_le :: "nat \<Rightarrow> int \<Rightarrow> bytes" where
  "pack_le 0 n = []"
| "pack_le (Suc k) n = word_of_int (n AND 0xFF) # pack_le k (drop_bit 8 n)"

definition w_double :: "int \<Rightarrow> 64 word option \<Rightarrow> bytes \<Rightarrow> bytes" where
  "w_double fld value buf =
     (case value of None \<Rightarrow> buf
      | Some v \<Rightarrow> buf @ tag_bytes fld WT_I64 @ pack_le 8 (uint v))"

text \<open>A sub-message is the finished bytes of its own writer.\<close>

definition w_message :: "int \<Rightarrow> bytes option \<Rightarrow> bytes \<Rightarrow> bytes" where
  "w_message fld value buf = (case value of None \<Rightarrow> buf | Some raw \<Rightarrow> w_bytes fld (Some raw) buf)"

subsection \<open>The reader\<close>

datatype pval = PInt int | PBytes bytes

fun from_bytes_le :: "bytes \<Rightarrow> int" where
  "from_bytes_le [] = 0"
| "from_bytes_le (b # bs) = uint b OR push_bit 8 (from_bytes_le bs)"

definition read_value :: "int \<Rightarrow> int \<Rightarrow> bytes \<Rightarrow> proto_error + (pval \<times> bytes)" where
  "read_value fld wire bs =
     (if wire = WT_VARINT then
        bindE (read_varint 0 0 bs) (\<lambda>(v, r). Inr (PInt v, r))
      else if wire = WT_LEN then
        bindE (read_varint 0 0 bs) (\<lambda>(ln, r).
          if int (length (take (nat ln) r)) \<noteq> ln then Inl TruncatedLen
          else Inr (PBytes (take (nat ln) r), drop (nat ln) r))
      else if wire = WT_I64 then Inr (PInt (from_bytes_le (take 8 bs)), drop 8 bs)
      else if wire = WT_I32 then Inr (PInt (from_bytes_le (take 4 bs)), drop 4 bs)
      else Inl (UnsupportedWire wire fld))"

text \<open>\<^verbatim>\<open>out.setdefault(field, []).append(val)\<close>.\<close>

definition append_field ::
  "(int \<rightharpoonup> pval list) \<Rightarrow> int \<Rightarrow> pval \<Rightarrow> (int \<rightharpoonup> pval list)" where
  "append_field out fld v =
     out(fld \<mapsto> (case out fld of None \<Rightarrow> [v] | Some vs \<Rightarrow> vs @ [v]))"

lemma read_varint_shorter: "read_varint s v bs = Inr (w, r) \<Longrightarrow> length r < length bs"
  by (induction s v bs rule: read_varint.induct) (auto simp: Let_def split: if_splits)

lemma read_value_le: "read_value f w bs = Inr (v, r) \<Longrightarrow> length r \<le> length bs"
  by (auto simp: read_value_def bindE_Inr_iff dest!: read_varint_shorter split: if_splits)

function decode_loop ::
  "bytes \<Rightarrow> (int \<rightharpoonup> pval list) \<Rightarrow> proto_error + (int \<rightharpoonup> pval list)" where
  "decode_loop bs out =
     (if bs = [] then Inr out
      else (case read_varint 0 0 bs of
          Inl e \<Rightarrow> Inl e
        | Inr (tag, r) \<Rightarrow>
            (case read_value (drop_bit 3 tag) (tag AND 7) r of
              Inl e \<Rightarrow> Inl e
            | Inr (v, r') \<Rightarrow> decode_loop r' (append_field out (drop_bit 3 tag) v))))"
  by pat_completeness auto
termination
  by (relation "measure (\<lambda>(bs, out). length bs)")
    (auto dest!: read_varint_shorter read_value_le)

declare decode_loop.simps [simp del]

definition decode_fields :: "bytes \<Rightarrow> proto_error + (int \<rightharpoonup> pval list)" where
  "decode_fields data = decode_loop data Map.empty"

definition first :: "(int \<rightharpoonup> pval list) \<Rightarrow> int \<Rightarrow> pval option \<Rightarrow> pval option" where
  "first flds fld d =
     (case flds fld of None \<Rightarrow> d | Some [] \<Rightarrow> d | Some (v # _) \<Rightarrow> Some v)"

subsection \<open>Round trip of integers\<close>

lemma and_127: "(v::int) AND 127 = v mod 128"
  using take_bit_eq_mask [of 7 v] by (simp add: take_bit_eq_mod mask_eq_exp_minus_1)

lemma and_7: "(v::int) AND 7 = v mod 8"
  using take_bit_eq_mask [of 3 v] by (simp add: take_bit_eq_mod mask_eq_exp_minus_1)

lemma and_255: "(v::int) AND 255 = v mod 256"
  using take_bit_eq_mask [of 8 v] by (simp add: take_bit_eq_mod mask_eq_exp_minus_1)

lemma drop_bit_7: "drop_bit 7 (v::int) = v div 128"
  by (simp add: drop_bit_eq_div)

lemma or_disjoint:
  fixes a b :: int
  assumes "0 \<le> a" and "a < 2 ^ s"
  shows "a OR push_bit s b = a + b * 2 ^ s"
proof -
  have low: "take_bit s a = a"
    using assms by (simp add: take_bit_int_eq_self_iff)
  have "bit (a AND push_bit s b) n = bit 0 n" for n
    by (subst low [symmetric]) (auto simp: bit_simps)
  then have "a AND push_bit s b = 0" by (rule bit_eqI)
  then have "a + push_bit s b = a OR push_bit s b"
    by (rule disjunctive_add_eq_or)
  then show ?thesis
    by (simp add: push_bit_eq_mult)
qed

lemma or_128: "0 \<le> b \<Longrightarrow> b < 128 \<Longrightarrow> b OR 128 = b + (128::int)"
  using or_disjoint [of b 7 1] by simp

lemma and_128: "(b::int) AND 128 = 0 \<longleftrightarrow> even (b div 128)"
  using and_exp_eq_0_iff_not_bit [of b 7] by (simp add: bit_iff_odd)

lemma uint_byte: "0 \<le> n \<Longrightarrow> n < 256 \<Longrightarrow> uint (word_of_int n :: 8 word) = n"
  by (simp add: uint_word_of_int)

lemma uint_byte_lt: "uint (w :: 8 word) < 256"
  using uint_lt2p [of w] by simp

lemma varint_loop_small: "0 \<le> v \<Longrightarrow> v < 128 \<Longrightarrow> varint_loop v = [word_of_int v]"
  by (subst varint_loop.simps) (simp add: and_127 drop_bit_7 Let_def)

lemma varint_loop_big:
  "128 \<le> v \<Longrightarrow> varint_loop v = word_of_int (v mod 128 + 128) # varint_loop (v div 128)"
  by (subst varint_loop.simps) (simp add: and_127 drop_bit_7 or_128 Let_def)

lemma read_varint_loop:
  assumes "0 \<le> v" and "0 \<le> acc" and "acc < 2 ^ s"
  shows "read_varint s acc (varint_loop v @ rest) = Inr (acc + v * 2 ^ s, rest)"
  using assms
proof (induction v arbitrary: s acc rule: varint_loop.induct)
  case (1 v)
  show ?case
  proof (cases "v < 128")
    case True
    with 1 have "(v AND 128) = 0" and "v AND 127 = v"
      by (simp_all add: and_128 and_127)
    with True 1 show ?thesis
      by (simp add: varint_loop_small uint_byte or_disjoint)
  next
    case False
    define b where "b = v mod 128"
    have b: "0 \<le> b" "b < 128" "(b + 128) AND 127 = b"
      by (simp_all add: b_def and_127)
    then have "(b + 128) div 128 = 1" by simp
    then have b_high: "(b + 128) AND 128 \<noteq> 0" by (simp add: and_128)
    have acc': "acc + b * 2 ^ s < 2 ^ (s + 7)"
    proof -
      have "acc + b * 2 ^ s < 2 ^ s + b * 2 ^ s" using 1 by simp
      also have "\<dots> \<le> 128 * 2 ^ s" using b by (simp add: algebra_simps)
      finally show ?thesis by (simp add: power_add)
    qed
    have IH: "read_varint (s + 7) (acc + b * 2 ^ s) (varint_loop (v div 128) @ rest) =
        Inr (acc + b * 2 ^ s + (v div 128) * 2 ^ (s + 7), rest)"
      using "1.IH" [OF refl, of "v div 128" "acc + b * 2 ^ s" "s + 7"] False 1 acc' b
      by (simp add: drop_bit_7 pos_imp_zdiv_pos_iff)
    have "b * 2 ^ s + (v div 128) * 2 ^ (s + 7) = (b + 128 * (v div 128)) * 2 ^ s"
      by (simp add: power_add algebra_simps)
    also have "b + 128 * (v div 128) = v" by (simp add: b_def)
    finally have "acc + b * 2 ^ s + (v div 128) * 2 ^ (s + 7) = acc + v * 2 ^ s" by simp
    have u: "uint (word_of_int (b + 128) :: 8 word) = b + 128"
      using b by (intro uint_byte) auto
    have "read_varint s acc (word_of_int (b + 128) # varint_loop (v div 128) @ rest) =
        read_varint (s + 7) (acc + b * 2 ^ s) (varint_loop (v div 128) @ rest)"
      by (simp only: read_varint.simps Let_def u b b_high or_disjoint [OF 1(3,4)] if_False)
    with IH \<open>acc + b * 2 ^ s + (v div 128) * 2 ^ (s + 7) = acc + v * 2 ^ s\<close> False
    show ?thesis
      by (simp only: varint_loop_big not_less append_Cons b_def [symmetric])
  qed
qed

text \<open>The value a varint stands for: negatives as 64-bit two's complement.\<close>

definition varint_value :: "int \<Rightarrow> int" where
  "varint_value v = (if v < 0 then v mod 2 ^ 64 else v)"

lemma mask_64: "(v::int) AND (push_bit 64 1 - 1) = v mod 2 ^ 64"
proof -
  have "push_bit 64 1 - 1 = (mask 64 :: int)" by (simp add: mask_eq_exp_minus_1)
  then show ?thesis by (simp only: take_bit_eq_mask [symmetric] take_bit_eq_mod)
qed

lemma encode_varint_value: "encode_varint v = varint_loop (varint_value v)"
  by (simp only: encode_varint_def mask_64 varint_value_def)

lemma varint_value_nonneg: "0 \<le> varint_value v"
  by (simp add: varint_value_def)

lemma read_encode_varint:
  "read_varint 0 0 (encode_varint v @ rest) = Inr (varint_value v, rest)"
  using read_varint_loop [of "varint_value v" 0 0 rest]
  by (simp add: encode_varint_value varint_value_nonneg)

lemma varint_loop_ne [simp]: "varint_loop v \<noteq> []"
  by (subst varint_loop.simps) (simp add: Let_def)

lemma encode_varint_ne [simp]: "encode_varint v \<noteq> []"
  by (simp add: encode_varint_def)

subsection \<open>Round trip of messages\<close>

text \<open>A field as a caller of the writer hands it over.\<close>

datatype pfield = FUint int | FBool bool | FBytes bytes | FDouble "64 word"

definition write_field :: "int \<times> pfield \<Rightarrow> bytes \<Rightarrow> bytes" where
  "write_field nf buf =
     (case nf of (n, FUint v) \<Rightarrow> w_uint64 n (Some v) buf
      | (n, FBool b) \<Rightarrow> w_bool n (Some b) buf
      | (n, FBytes bs) \<Rightarrow> w_bytes n (Some bs) buf
      | (n, FDouble d) \<Rightarrow> w_double n (Some d) buf)"

fun field_value :: "pfield \<Rightarrow> pval" where
  "field_value (FUint v) = PInt (varint_value v)"
| "field_value (FBool b) = PInt (if b then 1 else 0)"
| "field_value (FBytes bs) = PBytes bs"
| "field_value (FDouble d) = PInt (uint d)"

fun write_all :: "(int \<times> pfield) list \<Rightarrow> bytes \<Rightarrow> bytes" where
  "write_all [] buf = buf"
| "write_all (f # fs) buf = write_all fs (write_field f buf)"

fun collect :: "(int \<times> pfield) list \<Rightarrow> (int \<rightharpoonup> pval list) \<Rightarrow> (int \<rightharpoonup> pval list)" where
  "collect [] out = out"
| "collect ((n, f) # fs) out = collect fs (append_field out n (field_value f))"

lemma write_field_append: "write_field f buf = buf @ write_field f []"
  by (cases f; cases "snd f")
    (auto simp: write_field_def w_uint64_def w_bool_def w_bytes_def w_double_def)

lemma write_all_append: "write_all fs buf = buf @ write_all fs []"
proof (induction fs arbitrary: buf)
  case (Cons f fs)
  show ?case
    using Cons.IH [of "write_field f buf"] Cons.IH [of "write_field f []"]
      write_field_append [of f buf] by simp
qed simp

lemma length_pack_le [simp]: "length (pack_le k n) = k"
  by (induction k arbitrary: n) auto

lemma from_pack_le: "0 \<le> n \<Longrightarrow> n < 256 ^ k \<Longrightarrow> from_bytes_le (pack_le k n) = n"
proof (induction k arbitrary: n)
  case (Suc k)
  have "n div 256 < 256 ^ k"
    using Suc.prems by (simp add: div_less_iff_less_mult mult.commute)
  then have "from_bytes_le (pack_le k (n div 256)) = n div 256"
    using Suc by (simp add: pos_imp_zdiv_nonneg_iff)
  moreover have "n mod 256 OR push_bit 8 (n div 256) = n mod 256 + (n div 256) * 256"
    using or_disjoint [of "n mod 256" 8] by simp
  ultimately show ?case
    by (simp add: and_255 drop_bit_eq_div uint_byte)
qed simp

lemma tag_value:
  fixes n w :: int
  assumes "0 \<le> n" and "0 \<le> w" and "w < 8"
  shows "push_bit 3 n OR w = n * 8 + w" and "drop_bit 3 (n * 8 + w) = n"
    and "(n * 8 + w) AND 7 = w"
  using or_disjoint [of w 3 n] assms
  by (simp_all add: or.commute drop_bit_eq_div and_7)

lemma read_tag:
  assumes "0 \<le> n" and "0 \<le> w" and "w < 8"
  shows "read_varint 0 0 (tag_bytes n w @ rest) = Inr (n * 8 + w, rest)"
  using assms by (simp add: tag_bytes_def tag_value read_encode_varint varint_value_def)

lemma decode_one:
  assumes "0 \<le> n" and "0 \<le> w" and "w < 8"
    and "read_value n w body = Inr (v, rest)"
  shows "decode_loop (tag_bytes n w @ body) out = decode_loop rest (append_field out n v)"
proof -
  have "tag_bytes n w \<noteq> []" by (simp add: tag_bytes_def)
  then show ?thesis
    by (subst decode_loop.simps) (use assms in \<open>simp add: read_tag tag_value\<close>)
qed

lemma read_varint_value:
  "read_value n WT_VARINT (encode_varint v @ rest) = Inr (PInt (varint_value v), rest)"
  by (simp add: read_value_def read_encode_varint)

lemma read_len_value:
  "read_value n WT_LEN (encode_varint (int (length bs)) @ bs @ rest) = Inr (PBytes bs, rest)"
  by (simp add: read_value_def read_encode_varint varint_value_def wire_types)

lemma read_double_value:
  "read_value n WT_I64 (pack_le 8 (uint (d :: 64 word)) @ rest) = Inr (PInt (uint d), rest)"
  using uint_lt2p [of d] by (simp add: read_value_def wire_types from_pack_le)

lemma decode_field:
  assumes "0 \<le> n"
  shows "decode_loop (write_field (n, f) [] @ rest) out =
     decode_loop rest (append_field out n (field_value f))"
proof (cases f)
  case (FUint v)
  then show ?thesis
    using decode_one [OF assms _ _ read_varint_value]
    by (simp add: write_field_def w_uint64_def wire_types)
next
  case (FBool b)
  then show ?thesis
    using decode_one [OF assms _ _ read_varint_value]
    by (simp add: write_field_def w_bool_def wire_types varint_value_def)
next
  case (FBytes bs)
  then show ?thesis
    using decode_one [OF assms _ _ read_len_value]
    by (simp add: write_field_def w_bytes_def wire_types)
next
  case (FDouble d)
  then show ?thesis
    using decode_one [OF assms _ _ read_double_value]
    by (simp add: write_field_def w_double_def wire_types)
qed

lemma decode_write_all:
  "(\<forall>(n, f)\<in>set fs. 0 \<le> n) \<Longrightarrow>
   decode_loop (write_all fs [] @ rest) out = decode_loop rest (collect fs out)"
proof (induction fs arbitrary: out)
  case (Cons nf fs)
  obtain n f where nf: "nf = (n, f)" by fastforce
  have "write_all (nf # fs) [] @ rest = write_field (n, f) [] @ write_all fs [] @ rest"
    using write_all_append [of fs "write_field nf []"] nf by simp
  with Cons nf show ?case by (simp add: decode_field)
qed simp

text \<open>
  Round trip of the wire format. Whatever sequence of fields is written, decoding the
  finished bytes gives back exactly those fields: each field number holds its values in the
  order they were written (repeats kept), a negative integer reads back as its 64-bit two's
  complement, and nothing is left over or misread.
\<close>

theorem decode_fields_write_all:
  assumes "\<forall>(n, f)\<in>set fs. 0 \<le> n"
  shows "decode_fields (write_all fs []) = Inr (collect fs Map.empty)"
  using decode_write_all [OF assms, of "[]" Map.empty]
  by (simp add: decode_fields_def decode_loop.simps [of "[]"])

theorem decode_fields_write_all_witness:
  "decode_fields (write_all [(1, FUint 300), (2, FBytes [7, 8]), (1, FUint (-1))] []) =
     Inr (collect [(1, FUint 300), (2, FBytes [7, 8]), (1, FUint (-1))] Map.empty)"
  by (rule decode_fields_write_all) simp

subsection \<open>Truncated input\<close>

lemma decode_loop_Inl:
  assumes "0 \<le> n" and "0 \<le> w" and "w < 8" and "read_value n w body = Inl e"
  shows "decode_loop (tag_bytes n w @ body) out = Inl e"
proof -
  have "tag_bytes n w \<noteq> []" by (simp add: tag_bytes_def)
  then show ?thesis
    by (subst decode_loop.simps) (use assms in \<open>simp add: read_tag tag_value\<close>)
qed

text \<open>
  Truncation of a length-delimited field. A message cut anywhere inside the payload of its
  last length-delimited field is refused, never read as a shorter value.
\<close>

theorem decode_truncated_len:
  assumes "0 \<le> n" and "k < length bs"
  shows "decode_fields (tag_bytes n WT_LEN @ encode_varint (int (length bs)) @ take k bs) =
     Inl TruncatedLen"
proof -
  have "read_value n WT_LEN (encode_varint (int (length bs)) @ take k bs) = Inl TruncatedLen"
    using assms by (simp add: read_value_def read_encode_varint varint_value_def wire_types)
  with assms show ?thesis
    by (simp add: decode_fields_def decode_loop_Inl wire_types)
qed

theorem decode_truncated_len_witness:
  "decode_fields (tag_bytes 2 WT_LEN @ encode_varint (int (length [7::8 word, 8, 9])) @
     take 2 [7, 8, 9]) = Inl TruncatedLen"
  by (rule decode_truncated_len) simp_all

text \<open>
  The fixed-width wire types have no such check: fewer than eight bytes are read as a smaller
  number and the message is accepted.
\<close>

lemma decode_truncated_fixed_accepted:
  assumes "0 \<le> n" and "length bs < 8"
  shows "decode_fields (tag_bytes n WT_I64 @ bs) = Inr [n \<mapsto> [PInt (from_bytes_le bs)]]"
proof -
  have "read_value n WT_I64 bs = Inr (PInt (from_bytes_le bs), [])"
    using assms by (simp add: read_value_def wire_types)
  then have "decode_loop (tag_bytes n WT_I64 @ bs) Map.empty =
      decode_loop [] (append_field Map.empty n (PInt (from_bytes_le bs)))"
    using assms by (intro decode_one) (simp_all add: wire_types)
  then show ?thesis
    by (simp add: decode_fields_def decode_loop.simps [of "[]"] append_field_def)
qed

end
