(* ===== verification/Tagline.thy ===== *)
theory Tagline
  imports Prelude
begin

text \<open>
  Per-entry tags kept as the last line of an entry's notes:
  \<^verbatim>\<open>backend/icp/keychain/tagline.py\<close>. Notes are code-point lists; the Unicode
  database is the parameter \<open>db\<close>.
\<close>

definition MAX_TAGS :: nat where "MAX_TAGS = 16"
definition MAX_TAG_CHARS :: nat where "MAX_TAG_CHARS = 32"

abbreviation (input) LF :: nat where "LF \<equiv> 10"
abbreviation (input) CR :: nat where "CR \<equiv> 13"
abbreviation (input) SP :: nat where "SP \<equiv> 32"
abbreviation (input) TAB :: nat where "TAB \<equiv> 9"
abbreviation (input) HASH :: nat where "HASH \<equiv> 35"

definition WS :: "nat \<Rightarrow> bool" where
  "WS c \<longleftrightarrow> c = SP \<or> c = TAB"

definition LABEL :: ustr where
  "LABEL = ascii ''Tags''"

subsection \<open>One tag\<close>

definition fold_tag :: "unidb \<Rightarrow> ustr \<Rightarrow> ustr" where
  "fold_tag db tag = ucasefold db (unfkc db tag)"

definition tagchar :: "unidb \<Rightarrow> nat \<Rightarrow> bool" where
  "tagchar db ch \<longleftrightarrow> ch = 95 \<or> ch = 45 \<or>
     (case ucategory db ch of [] \<Rightarrow> False | k # _ \<Rightarrow> k \<in> {CHR ''L'', CHR ''M'', CHR ''N''})"

definition canon :: "unidb \<Rightarrow> ustr \<Rightarrow> ustr option" where
  "canon db tag =
     (if tag = [] then None
      else if \<not> list_all (tagchar db) tag then None
      else (let out = unfc db (ulower db (unfc db tag)) in
        if \<not> (1 \<le> length out \<and> length out \<le> MAX_TAG_CHARS) \<or> \<not> list_all (tagchar db) out
        then None else Some out))"

text \<open>The accumulating loop both \<^verbatim>\<open>canon_list\<close> and \<^verbatim>\<open>parse_line\<close> end with.\<close>

definition add_tag :: "unidb \<Rightarrow> ustr \<Rightarrow> ustr list \<times> ustr set \<Rightarrow> ustr list \<times> ustr set" where
  "add_tag db c acc =
     (case acc of (out, seen) \<Rightarrow>
        if fold_tag db c \<in> seen then (out, seen)
        else (out @ [c], insert (fold_tag db c) seen))"

datatype tag_error = TagsNotList | TagNotString | TagGrammar

fun canon_loop ::
  "unidb \<Rightarrow> json list \<Rightarrow> ustr list \<times> ustr set \<Rightarrow> tag_error + ustr list" where
  "canon_loop db [] acc = Inr (fst acc)"
| "canon_loop db (t # ts) acc =
     (case t of
        JStr s \<Rightarrow>
          (case canon db (if startswith s [HASH] then tl s else s) of
             None \<Rightarrow> Inl TagGrammar
           | Some c \<Rightarrow> canon_loop db ts (add_tag db c acc))
      | _ \<Rightarrow> Inl TagNotString)"

definition canon_list :: "unidb \<Rightarrow> json \<Rightarrow> tag_error + ustr list" where
  "canon_list db tags =
     (case tags of
        JList ts \<Rightarrow> if length ts > MAX_TAGS then Inl TagsNotList else canon_loop db ts ([], {})
      | _ \<Rightarrow> Inl TagsNotList)"

subsection \<open>The tag line\<close>

definition line :: "ustr list \<Rightarrow> ustr" where
  "line tags =
     (if tags = [] then [] else LABEL @ ascii '': '' @ join [SP] (map (\<lambda>t. HASH # t) tags))"

fun parse_tokens ::
  "unidb \<Rightarrow> ustr list \<Rightarrow> ustr list \<times> ustr set \<Rightarrow> ustr list option" where
  "parse_tokens db [] acc = Some (fst acc)"
| "parse_tokens db (tok # toks) acc =
     (if \<not> startswith tok [HASH] then None
      else (case canon db (tl tok) of
          None \<Rightarrow> None
        | Some c \<Rightarrow> parse_tokens db toks (add_tag db c acc)))"

text \<open>\<open>chop c s\<close> is \<^verbatim>\<open>s[:-1] if s.endswith(c) else s\<close>.\<close>

definition chop :: "nat \<Rightarrow> ustr \<Rightarrow> ustr" where
  "chop c s = (if s \<noteq> [] \<and> last s = c then butlast s else s)"

definition parse_line :: "unidb \<Rightarrow> ustr \<Rightarrow> ustr list option" where
  "parse_line db txt =
     (let s = lstripP WS (chop CR txt);
          head = take (length LABEL + 1) s;
          rest = drop (length LABEL + 1) s in
      if \<not> list_all (\<lambda>c. c < 128) head \<or> ascii_lower head \<noteq> ascii_lower LABEL @ ascii '':''
      then None
      else if rest = [] \<or> \<not> WS (hd rest) then None
      else (let tokens = filter (\<lambda>t. t \<noteq> [])
                  (split_on SP (map (\<lambda>c. if c = TAB then SP else c) (stripP WS rest))) in
        if tokens = [] \<or> length tokens > MAX_TAGS then None
        else parse_tokens db tokens ([], {})))"

subsection \<open>Body, separator and line\<close>

definition last_line :: "ustr \<Rightarrow> ustr" where
  "last_line raw = rev (takeWhile (\<lambda>c. c \<noteq> LF) (rev raw))"

text \<open>The index of the last newline, \<open>None\<close> for \<^verbatim>\<open>rfind\<close>'s -1.\<close>

definition rfind_lf :: "ustr \<Rightarrow> nat option" where
  "rfind_lf raw = (if LF \<in> set raw then Some (length raw - length (last_line raw) - 1) else None)"

definition trim_break :: "ustr \<Rightarrow> ustr" where
  "trim_break body =
     (let b = chop CR body in
      if b \<noteq> [] \<and> last b = LF then chop CR (butlast b) else b)"

definition parts :: "unidb \<Rightarrow> ustr \<Rightarrow> (ustr \<times> ustr \<times> ustr \<times> ustr list) option" where
  "parts db raw =
     (let cand = last_line raw in
      case parse_line db cand of
        None \<Rightarrow> None
      | Some tags \<Rightarrow>
          (case rfind_lf raw of
             None \<Rightarrow> Some ([], [], cand, tags)
           | Some idx \<Rightarrow>
               (let body = trim_break (take idx raw) in
                Some (body, drop (length body) (take (idx + 1) raw), cand, tags))))"

definition split :: "unidb \<Rightarrow> ustr \<Rightarrow> ustr \<times> ustr list" where
  "split db raw = (case parts db raw of None \<Rightarrow> (raw, []) | Some (b, _, _, tags) \<Rightarrow> (b, tags))"

fun del_crlf :: "ustr \<Rightarrow> ustr" where
  "del_crlf (a # b # s) = (if a = CR \<and> b = LF then del_crlf s else a # del_crlf (b # s))"
| "del_crlf s = s"

definition sep_of :: "ustr \<Rightarrow> ustr" where
  "sep_of body =
     (if body \<noteq> [] \<and> last body = CR then [CR, LF]
      else if contains body [CR, LF] \<and> LF \<notin> set (del_crlf body) then [CR, LF] else [LF])"

definition compose :: "ustr \<Rightarrow> ustr list \<Rightarrow> ustr" where
  "compose body tags =
     (if tags = [] then body
      else if body = [] then line tags
      else body @ sep_of body @ sep_of body @ line tags)"

definition hold_open :: "unidb \<Rightarrow> ustr \<Rightarrow> ustr" where
  "hold_open db body =
     (if parts db body = None then body
      else body @ (if sep_of body = [CR, LF] then [CR, LF] else [LF]))"

definition replace_tags :: "unidb \<Rightarrow> ustr \<Rightarrow> ustr list \<Rightarrow> ustr" where
  "replace_tags db raw tags =
     (case parts db raw of
        None \<Rightarrow> compose raw tags
      | Some (body, sep, _, _) \<Rightarrow>
          if tags = [] then hold_open db body else body @ sep @ line tags)"

definition stored_last_line :: "unidb \<Rightarrow> ustr \<Rightarrow> ustr option" where
  "stored_last_line db body =
     (case parts db (rstripP (\<lambda>c. c = CR \<or> c = LF) body) of
        None \<Rightarrow> None | Some (_, _, l, _) \<Rightarrow> Some (rstripP (\<lambda>c. c = CR) l))"

fun merge_loop :: "unidb \<Rightarrow> ustr list \<Rightarrow> ustr list \<times> ustr set \<Rightarrow> ustr list" where
  "merge_loop db [] acc = fst acc"
| "merge_loop db (t # ts) acc = merge_loop db ts (add_tag db t acc)"

definition merge :: "unidb \<Rightarrow> ustr list \<Rightarrow> ustr list \<Rightarrow> ustr list option" where
  "merge db tags typed =
     (let out = merge_loop db typed (tags, fold_tag db ` set tags) in
      if length out \<le> MAX_TAGS then Some out else None)"

text \<open>
  The end of \<^verbatim>\<open>replace_body\<close>: the line \<open>cand\<close> holding \<open>tags\<close> is put back after
  \<open>body\<close>, over the kept separator when that reads back.
\<close>

definition put_line :: "unidb \<Rightarrow> ustr \<Rightarrow> ustr \<Rightarrow> ustr \<Rightarrow> ustr list \<Rightarrow> ustr" where
  "put_line db body sep cand tags =
     (if body = [] then cand
      else if sep \<noteq> [] \<and> split db (body @ sep @ cand) = (body, tags) then body @ sep @ cand
      else body @ sep_of body @ sep_of body @ cand)"

definition replace_body :: "unidb \<Rightarrow> ustr \<Rightarrow> ustr \<Rightarrow> ustr" where
  "replace_body db raw body =
     (let p = parts db raw;
          typed = (if body = [] then None else parts db body);
          stored = stored_last_line db (case p of None \<Rightarrow> raw | Some (b, _) \<Rightarrow> b);
          same = (case typed of None \<Rightarrow> False
                  | Some (_, _, l, _) \<Rightarrow> stored = Some (rstripP (\<lambda>c. c = CR) l)) in
      case p of
        None \<Rightarrow>
          if same then (if body = stripP (\<lambda>c. c = LF) raw then raw else hold_open db body)
          else body
      | Some (_, sep, cand, tags) \<Rightarrow>
          (case (if same then None else typed) of
             None \<Rightarrow> put_line db body sep cand tags
           | Some (tbody, _, _, ttags) \<Rightarrow>
               (case merge db tags ttags of
                  None \<Rightarrow> put_line db body sep cand tags
                | Some merged \<Rightarrow> put_line db tbody sep (line merged) merged)))"

subsection \<open>What the Unicode database must guarantee\<close>

text \<open>
  Two documented facts about the tables: white space and control characters are in none of
  the categories L, M and N, and NFC lower casing is stable (a second pass changes nothing).
\<close>

locale unicode_tables =
  fixes db :: unidb
  assumes no_tag_space: "c \<in> {TAB, LF, CR, SP} \<Longrightarrow> \<not> tagchar db c"
    and lower_stable: "unfc db (ulower db (unfc db (unfc db (ulower db (unfc db t))))) =
      unfc db (ulower db (unfc db t))"

definition canonical :: "unidb \<Rightarrow> ustr list \<Rightarrow> bool" where
  "canonical db tags \<longleftrightarrow> (\<forall>t\<in>set tags. canon db t = Some t) \<and>
     distinct (map (fold_tag db) tags) \<and> length tags \<le> MAX_TAGS"

definition tag_acc :: "unidb \<Rightarrow> ustr list \<times> ustr set \<Rightarrow> bool" where
  "tag_acc db acc \<longleftrightarrow> snd acc = fold_tag db ` set (fst acc) \<and>
     distinct (map (fold_tag db) (fst acc)) \<and> (\<forall>t\<in>set (fst acc). canon db t = Some t)"

lemma canon_chars: "canon db t = Some c \<Longrightarrow> c \<noteq> [] \<and> list_all (tagchar db) c"
  by (auto simp: canon_def Let_def split: if_splits)

lemma tag_acc_empty [simp]: "tag_acc db ([], {})"
  by (simp add: tag_acc_def)

lemma tag_acc_add: "tag_acc db acc \<Longrightarrow> canon db c = Some c \<Longrightarrow> tag_acc db (add_tag db c acc)"
  by (cases acc) (auto simp: tag_acc_def add_tag_def)

lemma add_tag_prefix: "\<exists>ys. fst (add_tag db c acc) = fst acc @ ys \<and> length ys \<le> 1"
  by (cases acc) (auto simp: add_tag_def)

lemma add_tag_ne: "tag_acc db acc \<Longrightarrow> fst (add_tag db c acc) \<noteq> []"
  by (cases acc) (auto simp: add_tag_def tag_acc_def)

lemma merge_loop_tag_acc:
  assumes "tag_acc db acc" and "\<forall>t\<in>set ts. canon db t = Some t"
  shows "\<exists>ys. merge_loop db ts acc = fst acc @ ys \<and>
    tag_acc db (fst acc @ ys, fold_tag db ` set (fst acc @ ys))"
  using assms
proof (induction ts arbitrary: acc)
  case Nil
  then show ?case by (auto simp: tag_acc_def)
next
  case (Cons t ts)
  then have "tag_acc db (add_tag db t acc)" by (simp add: tag_acc_add)
  moreover obtain ys where ys: "fst (add_tag db t acc) = fst acc @ ys"
    using add_tag_prefix by blast
  ultimately obtain zs where "merge_loop db ts (add_tag db t acc) = (fst acc @ ys) @ zs"
    "tag_acc db ((fst acc @ ys) @ zs, fold_tag db ` set ((fst acc @ ys) @ zs))"
    using Cons.IH [of "add_tag db t acc"] Cons.prems by (auto simp: ys)
  then show ?case by (intro exI [of _ "ys @ zs"]) simp
qed

lemma merge_canonical:
  assumes "canonical db tags" and "canonical db typed" and "merge db tags typed = Some m"
  shows "canonical db m \<and> (\<exists>ys. m = tags @ ys)"
proof -
  have "tag_acc db (tags, fold_tag db ` set tags)"
    using assms(1) by (simp add: tag_acc_def canonical_def)
  then obtain ys where ys: "merge_loop db typed (tags, fold_tag db ` set tags) = tags @ ys"
    "tag_acc db (tags @ ys, fold_tag db ` set (tags @ ys))"
    using merge_loop_tag_acc [of db "(tags, fold_tag db ` set tags)" typed] assms(2)
    by (auto simp: canonical_def)
  with assms(3) have "m = tags @ ys" and "length (tags @ ys) \<le> MAX_TAGS"
    by (auto simp: merge_def Let_def split: if_splits)
  with ys(2) show ?thesis
    by (simp add: tag_acc_def canonical_def)
qed

lemma parse_tokens_line:
  assumes "tag_acc db (out, seen)" and "\<forall>t\<in>set tags. canon db t = Some t"
    and "distinct (map (fold_tag db) (out @ tags))"
  shows "parse_tokens db (map (\<lambda>t. HASH # t) tags) (out, seen) = Some (out @ tags)"
  using assms
proof (induction tags arbitrary: out seen)
  case (Cons t tags)
  have seen: "seen = fold_tag db ` set out" using Cons.prems(1) by (simp add: tag_acc_def)
  then have "add_tag db t (out, seen) = (out @ [t], insert (fold_tag db t) seen)"
    using Cons.prems(3) by (auto simp: add_tag_def)
  moreover have "tag_acc db (out @ [t], insert (fold_tag db t) seen)"
    using tag_acc_add [OF Cons.prems(1), of t] Cons.prems(2) calculation by simp
  ultimately show ?case using Cons by simp
qed simp

subsection \<open>Newlines and separators\<close>

lemma last_line_id:
  assumes "LF \<notin> set l"
  shows "last_line l = l"
proof -
  from assms have "takeWhile (\<lambda>c. c \<noteq> LF) (rev l) = rev l" by auto
  then show ?thesis by (simp only: last_line_def rev_rev_ident)
qed

lemma last_line_append: "LF \<notin> set l \<Longrightarrow> last_line (x @ LF # l) = l"
  using last_line_id [of l] by (simp add: last_line_def takeWhile_tail)

lemma last_line_no_lf: "LF \<notin> set (last_line raw)"
  by (auto simp: last_line_def dest: set_takeWhileD)

lemma last_line_split: "LF \<in> set raw \<Longrightarrow> \<exists>x. raw = x @ LF # last_line raw"
proof -
  assume "LF \<in> set raw"
  then obtain x l where "raw = x @ LF # l" "LF \<notin> set l" by (metis split_list_last)
  then show ?thesis by (auto simp: last_line_append)
qed

lemma parts_break:
  assumes "parse_line db l = Some tags" and "LF \<notin> set l"
  shows "parts db (x @ LF # l) =
    Some (trim_break x, drop (length (trim_break x)) (x @ [LF]), l, tags)"
  using assms by (simp add: parts_def last_line_append rfind_lf_def Let_def)

lemma parts_single:
  "parse_line db l = Some tags \<Longrightarrow> LF \<notin> set l \<Longrightarrow> parts db l = Some ([], [], l, tags)"
  by (simp add: parts_def last_line_id rfind_lf_def)

lemma chop_prefix: "\<exists>r. s = chop c s @ r"
  by (cases s rule: rev_cases) (auto simp: chop_def)

lemma trim_break_prefix: "\<exists>r. x = trim_break x @ r"
proof -
  obtain r where r: "x = chop CR x @ r" using chop_prefix by blast
  show ?thesis
  proof (cases "chop CR x \<noteq> [] \<and> last (chop CR x) = LF")
    case True
    obtain q where "butlast (chop CR x) = chop CR (butlast (chop CR x)) @ q"
      using chop_prefix by blast
    then have "x = chop CR (butlast (chop CR x)) @ q @ [LF] @ r"
      using r True by (metis append.assoc append_butlast_last_id)
    with True show ?thesis by (auto simp: trim_break_def Let_def)
  next
    case False
    with r show ?thesis by (auto simp: trim_break_def Let_def)
  qed
qed

lemma parts_shape:
  assumes "parts db raw = Some (body, sep, cand, tags)"
  shows "raw = body @ sep @ cand" and "parse_line db cand = Some tags" and "LF \<notin> set cand"
    and "(body = [] \<and> sep = []) \<or> (\<exists>x. body = trim_break x \<and> body @ sep = x @ [LF])"
proof -
  let ?c = "last_line raw"
  have c: "parse_line db ?c = Some tags" "cand = ?c"
    using assms by (auto simp: parts_def Let_def split: option.splits)
  then show "parse_line db cand = Some tags" "LF \<notin> set cand"
    by (simp_all add: last_line_no_lf)
  have "raw = body @ sep @ cand \<and>
     ((body = [] \<and> sep = []) \<or> (\<exists>x. body = trim_break x \<and> body @ sep = x @ [LF]))"
  proof (cases "LF \<in> set raw")
    case True
    then obtain x where x: "raw = x @ LF # ?c" using last_line_split by blast
    obtain r where r: "x = trim_break x @ r" using trim_break_prefix by blast
    have "parts db raw = Some (trim_break x, drop (length (trim_break x)) (x @ [LF]), ?c, tags)"
      using parts_break [OF c(1) last_line_no_lf, of x] x by simp
    then have body: "body = trim_break x" and sep: "sep = drop (length (trim_break x)) (x @ [LF])"
      using assms by (simp_all only: option.inject prod.inject)
    have "trim_break x @ drop (length (trim_break x)) (x @ [LF]) = x @ [LF]"
      by (metis r append.assoc append_eq_conv_conj)
    then have bs: "body @ sep = x @ [LF]" by (simp only: body sep)
    then have "raw = body @ sep @ cand" using x c(2) by (metis append.assoc append_Cons append_Nil)
    with body bs show ?thesis by blast
  next
    case False
    then have "parts db raw = Some ([], [], raw, tags)"
      using c by (simp add: parts_single last_line_id)
    with assms show ?thesis by auto
  qed
  then show "raw = body @ sep @ cand"
    "(body = [] \<and> sep = []) \<or> (\<exists>x. body = trim_break x \<and> body @ sep = x @ [LF])"
    by blast+
qed

lemma sep_of_cases:
  "sep_of body = [LF] \<and> (body = [] \<or> last body \<noteq> CR) \<or> sep_of body = [CR, LF]"
  by (simp add: sep_of_def)

lemma parts_double_break:
  assumes "parse_line db l = Some tags" and "LF \<notin> set l"
  shows "parts db (body @ sep_of body @ sep_of body @ l) =
    Some (body, sep_of body @ sep_of body, l, tags)"
proof -
  consider "sep_of body = [LF]" "body = [] \<or> last body \<noteq> CR" | "sep_of body = [CR, LF]"
    using sep_of_cases by blast
  then show ?thesis
  proof cases
    case 1
    then have "trim_break (body @ [LF]) = body" by (auto simp: trim_break_def chop_def)
    with parts_break [OF assms, of "body @ [LF]"] 1 show ?thesis by simp
  next
    case 2
    have "trim_break (body @ [CR, LF, CR]) = body"
      by (simp add: trim_break_def chop_def butlast_append)
    with parts_break [OF assms, of "body @ [CR, LF, CR]"] 2 show ?thesis by simp
  qed
qed

lemma split_double_break:
  "parse_line db l = Some tags \<Longrightarrow> LF \<notin> set l \<Longrightarrow>
   split db (body @ sep_of body @ sep_of body @ l) = (body, tags)"
  by (simp add: split_def parts_double_break)

lemma split_put_line:
  "parse_line db l = Some tags \<Longrightarrow> LF \<notin> set l \<Longrightarrow> split db (put_line db body sep l tags) = (body, tags)"
  by (simp add: put_line_def split_double_break split_def [of db l] parts_single)

lemma parse_line_Nil [simp]: "parse_line db [] = None"
  by (simp add: parse_line_def chop_def lstripP_def LABEL_def ascii_def ascii_lower_def)

lemma hold_open_no_tags: "snd (split db (hold_open db body)) = []"
proof (cases "parts db body")
  case None
  then show ?thesis by (simp add: hold_open_def split_def)
next
  case (Some p)
  have "last_line (hold_open db body) = []"
    using Some last_line_append [of "[]" body] last_line_append [of "[]" "body @ [CR]"]
    by (auto simp: hold_open_def)
  then show ?thesis by (simp add: split_def parts_def)
qed

subsection \<open>Reading back a canonical line\<close>

context unicode_tables
begin

lemma tag_no_space: "list_all (tagchar db) t \<Longrightarrow> c \<in> {TAB, LF, CR, SP} \<Longrightarrow> c \<notin> set t"
  using no_tag_space by (auto simp: list_all_iff)

lemma canon_stable: "canon db t = Some c \<Longrightarrow> canon db c = Some c"
  using canon_chars [of db t c]
  by (auto simp: canon_def Let_def lower_stable split: if_splits)

lemma joined_tags:
  assumes "\<forall>t\<in>set tags. canon db t = Some t" and "tags \<noteq> []"
  defines "J \<equiv> join [SP] (map (\<lambda>t. HASH # t) tags)"
  shows "split_on SP J = map (\<lambda>t. HASH # t) tags" and "c \<in> {TAB, LF, CR} \<Longrightarrow> c \<notin> set J"
    and "hd J = HASH" and "J \<noteq> []" and "last J \<notin> {SP, TAB, CR}"
proof -
  have tags: "\<forall>t\<in>set tags. list_all (tagchar db) t \<and> t \<noteq> []"
    using assms(1) canon_chars by blast
  then have "\<forall>t\<in>set tags. SP \<notin> set t"
    using tag_no_space by blast
  then show "split_on SP J = map (\<lambda>t. HASH # t) tags"
    unfolding J_def using assms(2) by (intro split_on_join) auto
  show "c \<notin> set J" if "c \<in> {TAB, LF, CR}"
  proof
    assume "c \<in> set J"
    then have "c = SP \<or> (\<exists>t\<in>set tags. c = HASH \<or> c \<in> set t)"
      using set_join [of "[SP]" "map (\<lambda>t. HASH # t) tags"] assms(2) unfolding J_def by auto
    with that obtain t where "t \<in> set tags" "c \<in> set t" by auto
    with tags that tag_no_space [of t c] show False by auto
  qed
  obtain t ts where ts: "tags = t # ts" using assms(2) by (cases tags) auto
  then show "hd J = HASH" and "J \<noteq> []" unfolding J_def by (cases ts; simp)+
  obtain us u where us: "tags = us @ [u]" using assms(2) by (metis append_butlast_last_id)
  have "join [SP] (map (\<lambda>t. HASH # t) us @ [HASH # u]) \<noteq> [] \<and>
      last (join [SP] (map (\<lambda>t. HASH # t) us @ [HASH # u])) = last (HASH # u)"
  proof (induction us)
    case (Cons a us)
    then show ?case by (cases us) auto
  qed simp
  moreover have "u \<noteq> []" "list_all (tagchar db) u" using us tags by auto
  ultimately have "last J \<in> set u" unfolding J_def us by (simp add: last_in_set)
  then show "last J \<notin> {SP, TAB, CR}"
    using tag_no_space \<open>list_all (tagchar db) u\<close> by fastforce
qed

lemma line_no_lf: "canonical db tags \<Longrightarrow> LF \<notin> set (line tags)"
  using joined_tags(2) [of tags LF] by (auto simp: line_def canonical_def LABEL_def ascii_def)

lemma parse_line_line:
  assumes "canonical db tags" and "tags \<noteq> []"
  shows "parse_line db (line tags) = Some tags"
proof -
  define J where "J = join [SP] (map (\<lambda>t. HASH # t) tags)"
  have can: "\<forall>t\<in>set tags. canon db t = Some t" using assms(1) by (simp add: canonical_def)
  note J = joined_tags [OF can assms(2), folded J_def]
  have line: "line tags = [84, 97, 103, 115, 58, SP] @ J"
    using assms(2) by (simp add: line_def J_def LABEL_def ascii_def)
  have "chop CR (line tags) = line tags"
    using J(4,5) by (simp add: line chop_def)
  moreover have "lstripP WS (line tags) = line tags"
    by (rule lstripP_id) (simp add: line WS_def)
  moreover have "stripP WS (SP # J) = J"
  proof -
    have "dropWhile WS J = J" using J(3) by (simp add: dropWhile_eq_self_iff WS_def)
    moreover have "rstripP WS J = J" using J(5) by (intro rstripP_id) (simp add: WS_def)
    ultimately show ?thesis by (simp add: stripP_def lstripP_def WS_def)
  qed
  moreover have "map (\<lambda>c. if c = TAB then SP else c) J = J"
    using J(2) [of TAB] by (intro map_idI) auto
  moreover have "filter (\<lambda>t. t \<noteq> []) (map (\<lambda>t. HASH # t) tags) = map (\<lambda>t. HASH # t) tags"
    by (induction tags) auto
  moreover have "parse_tokens db (map (\<lambda>t. HASH # t) tags) ([], {}) = Some tags"
    using parse_tokens_line [of db "[]" "{}" tags] assms(1) by (simp add: canonical_def)
  ultimately show ?thesis
    using assms by (simp add: parse_line_def line LABEL_def ascii_def ascii_lower_def
        ascii_lower_char_def WS_def J(1) canonical_def Let_def)
qed

lemma parse_tokens_acc:
  assumes "parse_tokens db toks acc = Some tags" and "tag_acc db acc"
  shows "tag_acc db (tags, fold_tag db ` set tags) \<and>
    length tags \<le> length (fst acc) + length toks \<and> (toks \<noteq> [] \<longrightarrow> tags \<noteq> []) \<and>
    (fst acc \<noteq> [] \<longrightarrow> tags \<noteq> [])"
  using assms
proof (induction toks arbitrary: acc)
  case Nil
  then show ?case by (auto simp: tag_acc_def)
next
  case (Cons tok toks)
  then obtain c where c: "canon db (tl tok) = Some c"
      "parse_tokens db toks (add_tag db c acc) = Some tags"
    by (auto split: if_splits option.splits)
  have acc: "tag_acc db (add_tag db c acc)"
    using Cons.prems(2) c(1) canon_stable tag_acc_add by blast
  obtain ys where "fst (add_tag db c acc) = fst acc @ ys" "length ys \<le> 1"
    using add_tag_prefix by blast
  with Cons.IH [OF c(2) acc] add_tag_ne [OF Cons.prems(2), of c] show ?case by auto
qed

lemma parse_line_canonical:
  assumes "parse_line db l = Some tags"
  shows "canonical db tags \<and> tags \<noteq> []"
proof -
  obtain toks where "toks \<noteq> []" "length toks \<le> MAX_TAGS"
      "parse_tokens db toks ([], {}) = Some tags"
    using assms by (auto simp: parse_line_def Let_def split: if_splits)
  with parse_tokens_acc [of toks "([], {})" tags] show ?thesis
    by (auto simp: tag_acc_def canonical_def)
qed

lemma split_compose:
  assumes "canonical db tags" and "tags \<noteq> []"
  shows "split db (compose body tags) = (body, tags)"
  using assms parse_line_line line_no_lf
  by (simp add: compose_def split_double_break split_def [of db "line tags"] parts_single)

lemma split_replace_tags:
  assumes "canonical db tags"
  shows "split db (replace_tags db raw tags) = (fst (split db raw), tags) \<or>
    (tags = [] \<and> snd (split db (replace_tags db raw tags)) = [])"
proof (cases "tags = []")
  case True
  then show ?thesis
    by (auto simp: replace_tags_def compose_def hold_open_no_tags split_def [of db raw]
        split: option.splits)
next
  case False
  note pl = parse_line_line [OF assms False] line_no_lf [OF assms]
  show ?thesis
  proof (cases "parts db raw")
    case None
    with False show ?thesis
      by (simp add: replace_tags_def split_compose assms split_def [of db raw])
  next
    case (Some p)
    then obtain body sep cand old where p: "parts db raw = Some (body, sep, cand, old)"
      by (cases p) auto
    have "parts db (body @ sep @ line tags) = Some (body, sep, line tags, tags)"
      using parts_shape(4) [OF p]
    proof
      assume "\<exists>x. body = trim_break x \<and> body @ sep = x @ [LF]"
      then obtain x where x: "body = trim_break x" "body @ sep = x @ [LF]" by blast
      have "drop (length (trim_break x)) (x @ [LF]) = sep"
        by (metis x append_eq_conv_conj)
      then have "parts db (x @ LF # line tags) = Some (body, sep, line tags, tags)"
        using parts_break [OF pl, of x] x(1) by (simp only:)
      moreover have "body @ sep @ line tags = x @ LF # line tags"
        using x(2) by (metis append.assoc append_Cons append_Nil)
      ultimately show ?thesis by (simp only:)
    qed (use parts_single [OF pl] in auto)
    with False p show ?thesis by (simp add: replace_tags_def split_def)
  qed
qed

lemma split_replace_body:
  assumes "parts db raw = Some (b, sep, cand, tags)"
  shows "split db (replace_body db raw body) = (body, tags) \<or>
    (\<exists>tb more. split db (replace_body db raw body) = (tb, tags @ more) \<and>
       split db body = (tb, snd (split db body)))"
proof -
  note cand = parts_shape(2,3) [OF assms]
  have can: "canonical db tags" using parse_line_canonical cand(1) by blast
  have keep: "split db (put_line db body sep cand tags) = (body, tags)"
    by (rule split_put_line [OF cand])
  have joined: "split db (put_line db tb sep (line m) m) = (tb, m) \<and> (\<exists>ys. m = tags @ ys)"
    if "parts db body = Some (tb, ts, tl, tt)" "merge db tags tt = Some m" for tb ts tl tt m
  proof -
    have "canonical db tt" using parse_line_canonical parts_shape(2) [OF that(1)] by blast
    then have m: "canonical db m" "\<exists>ys. m = tags @ ys"
      using merge_canonical [OF can _ that(2)] by blast+
    moreover have "m \<noteq> []" using m(2) parse_line_canonical cand(1) by blast
    ultimately show ?thesis by (simp add: split_put_line parse_line_line line_no_lf)
  qed
  show ?thesis
  proof (cases "parts db body")
    case None
    then have "replace_body db raw body = put_line db body sep cand tags"
      using assms by (simp add: replace_body_def Let_def)
    with keep show ?thesis by simp
  next
    case (Some q)
    then obtain tb ts tl tt where q: "parts db body = Some (tb, ts, tl, tt)" by (cases q) auto
    then have "split db body = (tb, tt)" by (simp add: split_def)
    moreover have "replace_body db raw body = put_line db body sep cand tags \<or>
        (\<exists>m. merge db tags tt = Some m \<and>
           replace_body db raw body = put_line db tb sep (line m) m)"
      using assms q by (auto simp: replace_body_def Let_def split: option.splits)
    ultimately show ?thesis using keep joined [OF q] by fastforce
  qed
qed

end

interpretation ascii: unicode_tables ascii_db
proof
  show "\<not> tagchar ascii_db c" if "c \<in> {TAB, LF, CR, SP}" for c
    using that by (auto simp: tagchar_def ascii_db_def ascii_category_def)
qed (simp add: ascii_db_def)

subsection \<open>Properties\<close>

text \<open>
  Tags round trip. For every body and every list of canonical tags, composing the notes and
  splitting them again gives exactly that body and those tags, whatever line breaks the body
  ends in (including a lone carriage return) and whatever separator was chosen.
\<close>

theorem compose_split_roundtrip:
  assumes "unicode_tables db" and "canonical db tags" and "tags \<noteq> []"
  shows "split db (compose body tags) = (body, tags)"
  using assms by (rule unicode_tables.split_compose)

lemma ascii_work_canonical: "canonical ascii_db [ascii ''work'', ascii ''side-1'']"
  by (simp add: canonical_def canon_def ascii_db_def ascii_def tagchar_def ascii_category_def
      ascii_lower_def ascii_lower_char_def fold_tag_def MAX_TAG_CHARS_def MAX_TAGS_def Let_def)

theorem compose_split_roundtrip_witness:
  "split ascii_db (compose [120, 13] [ascii ''work'', ascii ''side-1'']) =
     ([120, 13], [ascii ''work'', ascii ''side-1''])"
  by (rule compose_split_roundtrip [OF ascii.unicode_tables_axioms ascii_work_canonical]) simp

text \<open>
  Setting the tags. \<^verbatim>\<open>replace_tags\<close> sets the tags to exactly the given canonical
  ones; the body is untouched when tags remain, and removing every tag never lets a line of the
  body be read as the tag line.
\<close>

theorem replace_tags_sets:
  assumes "unicode_tables db" and "canonical db tags"
  shows "snd (split db (replace_tags db raw tags)) = tags \<and>
    (tags \<noteq> [] \<longrightarrow> fst (split db (replace_tags db raw tags)) = fst (split db raw))"
  using unicode_tables.split_replace_tags [OF assms, of raw] by auto

theorem replace_tags_sets_witness:
  "snd (split ascii_db (replace_tags ascii_db (ascii ''note'') [ascii ''work'', ascii ''side-1''])) =
     [ascii ''work'', ascii ''side-1'']"
  using replace_tags_sets [OF ascii.unicode_tables_axioms ascii_work_canonical, of "ascii ''note''"]
  by (rule conjunct1)

text \<open>
  A body edit never drops the tags. Whatever body is saved over notes that carry a tag line,
  all of the old tags are still there, in order and first; the notes read back either as the
  saved body with the old tags, or, when the saved body itself ended in a tag line, as what that
  body holds without its line, with the typed tags joined to the old ones.
\<close>

theorem replace_body_keeps_tags:
  assumes "unicode_tables db" and "parts db raw = Some (b, sep, cand, tags)"
  shows "split db (replace_body db raw body) = (body, tags) \<or>
    (\<exists>more. split db (replace_body db raw body) = (fst (split db body), tags @ more))"
  using unicode_tables.split_replace_body [OF assms, of body] by (metis fst_conv)

lemma ascii_tagged_note:
  "parts ascii_db (ascii ''a'' @ [10, 10] @ line [ascii ''work'', ascii ''side-1'']) =
     Some (ascii ''a'', [10, 10], line [ascii ''work'', ascii ''side-1''],
       [ascii ''work'', ascii ''side-1''])"
  using parts_double_break [OF ascii.parse_line_line ascii.line_no_lf,
      OF ascii_work_canonical _ ascii_work_canonical, of "ascii ''a''"]
  by (simp add: sep_of_def ascii_def)

theorem replace_body_keeps_tags_witness:
  "let raw = ascii ''a'' @ [10, 10] @ line [ascii ''work'', ascii ''side-1'']; body = ascii ''b'' in
   split ascii_db (replace_body ascii_db raw body) = (body, [ascii ''work'', ascii ''side-1'']) \<or>
    (\<exists>more. split ascii_db (replace_body ascii_db raw body) =
       (fst (split ascii_db body), [ascii ''work'', ascii ''side-1''] @ more))"
  unfolding Let_def
  by (rule replace_body_keeps_tags [OF ascii.unicode_tables_axioms ascii_tagged_note])

end
