(* ===== verification/Protocol.thy ===== *)
theory Protocol
  imports Prelude
begin

text \<open>
  The frozen numbers and names of the daemon protocol, \<^verbatim>\<open>backend/icp/daemon/protocol.py\<close>:
  roles and their operations, the polkit action each operation asks for, the error codes, and
  the validation of settings and feature flags of \<^verbatim>\<open>daemon/sessions.py\<close>.
\<close>

subsection \<open>Numbers\<close>

definition MAX_REQUEST_LINE :: nat where "MAX_REQUEST_LINE = 64 * 1024"
definition MAX_REPLY_LINE :: nat where "MAX_REPLY_LINE = 8 * 1024 * 1024"
definition MAX_INFLIGHT :: nat where "MAX_INFLIGHT = 16"
definition MAX_RID :: int where "MAX_RID = 2 ^ 53 - 1"
definition TICKET_TTL_S :: real where "TICKET_TTL_S = 10"
definition GRANT_S_DEFAULT :: int where "GRANT_S_DEFAULT = 120"
definition AUTOFILL_OPEN_S :: real where "AUTOFILL_OPEN_S = 120"
definition GRANT_S_RANGE :: "int \<times> int" where "GRANT_S_RANGE = (0, 600)"
definition CLIP_TIMEOUT_S_DEFAULT :: int where "CLIP_TIMEOUT_S_DEFAULT = 30"
definition CLIP_TIMEOUT_S_RANGE :: "int \<times> int" where "CLIP_TIMEOUT_S_RANGE = (5, 60)"
definition IDLE_LOCK_S_DEFAULT :: int where "IDLE_LOCK_S_DEFAULT = 300"
definition IDLE_LOCK_S_CHOICES :: "int list" where "IDLE_LOCK_S_CHOICES = [0, 300, 900, 1800]"
definition PROMPT_ANSWERED_PER_MIN :: nat where "PROMPT_ANSWERED_PER_MIN = 3"
definition NO_AGENT_FAST_FAIL_S :: real where "NO_AGENT_FAST_FAIL_S = 3 / 10"
definition MAX_AUTOFILL_CONNS :: nat where "MAX_AUTOFILL_CONNS = 4"
definition SYNC_INTERVAL_S :: real where "SYNC_INTERVAL_S = 2 * 3600"
definition SYNC_JITTER_S :: real where "SYNC_JITTER_S = 60"
definition DETAIL_MAX_CHARS :: nat where "DETAIL_MAX_CHARS = 64"
definition BAD_TICKETS_PER_MIN :: nat where "BAD_TICKETS_PER_MIN = 5"
definition COPY_TEXT_MAX :: nat where "COPY_TEXT_MAX = 16 * 1024"
definition COPY_TEXT_PER_MIN :: nat where "COPY_TEXT_PER_MIN = 10"

definition REVEAL_HIDE_AFTER_S :: int where "REVEAL_HIDE_AFTER_S = 20"
definition IMPORT_FILE_MAX :: nat where "IMPORT_FILE_MAX = 4 * 1024 * 1024"
definition IMPORT_CHUNK_MAX :: nat where "IMPORT_CHUNK_MAX = 32 * 1024"

subsection \<open>Roles, operations, actions\<close>

datatype role = UI | Clip | Migrate | Autofill

datatype action = Act_unlock | Act_manage | Act_autofill | Act_autofill_names

definition TICKET_ROLES :: "role list" where
  "TICKET_ROLES = [Clip, Migrate]"

fun ROLE_OPS :: "role \<Rightarrow> string list" where
  "ROLE_OPS UI = [''unlock'', ''lock'', ''release'', ''grant'', ''reveal'', ''totp'',
      ''history'', ''copy'', ''set'', ''create'', ''delete'', ''totp-preview'',
      ''signin'', ''answer'', ''signout'', ''sync'', ''settings'', ''migrate-begin'',
      ''migrate-abandon'', ''reset'', ''purge-old-copy'', ''clip-history-check'', ''cancel'', ''tpm-move'',
      ''autofill-enable'', ''copy-text'', ''features'', ''diag-items'']"
| "ROLE_OPS Clip = [''redeem'', ''clip-result'']"
| "ROLE_OPS Migrate = [''import-file'', ''import-key'', ''import-commit'', ''purge-result'']"
| "ROLE_OPS Autofill = [''autofill-query'', ''autofill-names'', ''autofill-fill'']"

definition ALL_OPS :: "string list" where
  "ALL_OPS = ''hello'' # concat (map ROLE_OPS [UI, Clip, Migrate, Autofill])"

definition PROMPT_ACTION :: "string \<Rightarrow> action option" where
  "PROMPT_ACTION op =
     (if op = ''unlock'' then Some Act_unlock
      else if op \<in> set [''create'', ''delete'', ''signin'', ''signout'', ''migrate-begin'', ''reset'',
      ''purge-old-copy'', ''clip-history-check'', ''autofill-enable'', ''tpm-move'', ''features'', ''diag-items''] then Some Act_manage
      else if op = ''autofill-fill'' then Some Act_autofill
      else if op = ''autofill-names'' then Some Act_autofill_names
      else None)"

fun PROMPT_BUCKET :: "role \<Rightarrow> string option" where
  "PROMPT_BUCKET UI = Some ''ui''"
| "PROMPT_BUCKET Autofill = Some ''autofill''"
| "PROMPT_BUCKET Clip = None"
| "PROMPT_BUCKET Migrate = None"

definition GRANT_OPS :: "string list" where
  "GRANT_OPS = [''reveal'', ''totp'', ''history'', ''set'']"

definition REVEAL_FIELDS :: "string list" where
  "REVEAL_FIELDS = [''password'', ''notes'']"

definition COPY_FIELDS :: "string list" where
  "COPY_FIELDS = [''username'', ''domain'', ''password'', ''code'', ''notes'']"

definition COPY_FIELDS_NEED_GRANT :: "string list" where
  "COPY_FIELDS_NEED_GRANT = [''password'', ''code'', ''notes'']"

definition SET_FIELDS :: "string list" where
  "SET_FIELDS = [''password'', ''notes'', ''sites'', ''nickname'', ''totp'', ''tags'']"

definition CREATE_FIELDS :: "string list" where
  "CREATE_FIELDS = [''domain'', ''username'', ''password'', ''title'', ''notes'', ''sites'',
     ''totp'', ''tags'']"

definition COPY_TEXT_SOURCES_GRANT :: "string list" where
  "COPY_TEXT_SOURCES_GRANT = [''notes-edit'', ''totp-setup-edit'', ''new-password'']"

definition COPY_TEXT_SOURCES_CREATE :: "string list" where
  "COPY_TEXT_SOURCES_CREATE = [''create-password'', ''create-notes'', ''create-totp-setup'']"

definition CLIP_OUTCOMES :: "string list" where
  "CLIP_OUTCOMES = [''pasted'', ''expired'', ''replaced'', ''withdrawn'', ''failed'']"

definition IMPORT_FILES :: "string list" where
  "IMPORT_FILES = [''session.enc'', ''vault.enc'', ''history.enc'', ''nicknames.enc'', ''aliases.enc'',
     ''kdf.json'', ''check.enc'', ''device.json'']"

definition IMPORT_REQUIRED :: "string list" where
  "IMPORT_REQUIRED = [''vault.enc'']"

definition FEATURES :: "string list" where
  "FEATURES = [''passkeys'', ''apple_deleted'']"

subsection \<open>Error codes\<close>

text \<open>
  Exactly the keys of \<^verbatim>\<open>ERRORS\<close>: the check in \<^verbatim>\<open>OpError.__init__\<close> that a code is
  one of them is the type of the constructor's argument.
\<close>

datatype err_code =
    E_bad_request | E_too_large | E_hello_required | E_proto | E_unknown_op
  | E_forbidden | E_too_many | E_already_running | E_bad_ticket | E_peer
  | E_internal | E_locked | E_not_locked | E_no_grant | E_grant_expired
  | E_not_found | E_no_match | E_not_signed_in | E_migration_pending | E_needs_login
  | E_empty | E_tpm_missing | E_tpm_cleared | E_damaged | E_seal_unavailable
  | E_seal_refused | E_dismissed | E_denied | E_no_agent | E_busy
  | E_rate_limited | E_prompt_pending | E_cancelled | E_busy_sync | E_anisette_unavailable
  | E_network | E_apple | E_invalid | E_wrong_passphrase | E_mismatch
  | E_incomplete | E_bad_origin | E_insecure_origin

fun code_name :: "err_code \<Rightarrow> string" where
  "code_name E_bad_request = ''bad-request''"
| "code_name E_too_large = ''too-large''"
| "code_name E_hello_required = ''hello-required''"
| "code_name E_proto = ''proto''"
| "code_name E_unknown_op = ''unknown-op''"
| "code_name E_forbidden = ''forbidden''"
| "code_name E_too_many = ''too-many''"
| "code_name E_already_running = ''already-running''"
| "code_name E_bad_ticket = ''bad-ticket''"
| "code_name E_peer = ''peer''"
| "code_name E_internal = ''internal''"
| "code_name E_locked = ''locked''"
| "code_name E_not_locked = ''not-locked''"
| "code_name E_no_grant = ''no-grant''"
| "code_name E_grant_expired = ''grant-expired''"
| "code_name E_not_found = ''not-found''"
| "code_name E_no_match = ''no-match''"
| "code_name E_not_signed_in = ''not-signed-in''"
| "code_name E_migration_pending = ''migration-pending''"
| "code_name E_needs_login = ''needs-login''"
| "code_name E_empty = ''empty''"
| "code_name E_tpm_missing = ''tpm-missing''"
| "code_name E_tpm_cleared = ''tpm-cleared''"
| "code_name E_damaged = ''damaged''"
| "code_name E_seal_unavailable = ''seal-unavailable''"
| "code_name E_seal_refused = ''seal-refused''"
| "code_name E_dismissed = ''dismissed''"
| "code_name E_denied = ''denied''"
| "code_name E_no_agent = ''no-agent''"
| "code_name E_busy = ''busy''"
| "code_name E_rate_limited = ''rate-limited''"
| "code_name E_prompt_pending = ''prompt-pending''"
| "code_name E_cancelled = ''cancelled''"
| "code_name E_busy_sync = ''busy-sync''"
| "code_name E_anisette_unavailable = ''anisette-unavailable''"
| "code_name E_network = ''network''"
| "code_name E_apple = ''apple''"
| "code_name E_invalid = ''invalid''"
| "code_name E_wrong_passphrase = ''wrong-passphrase''"
| "code_name E_mismatch = ''mismatch''"
| "code_name E_incomplete = ''incomplete''"
| "code_name E_bad_origin = ''bad-origin''"
| "code_name E_insecure_origin = ''insecure-origin''"

definition UNLOCK_REFUSALS :: "err_code list" where
  "UNLOCK_REFUSALS = [E_dismissed, E_denied, E_no_agent, E_busy, E_rate_limited, E_empty,
     E_tpm_missing, E_tpm_cleared, E_damaged]"

datatype extra = X_field string | X_retry_after int | X_detail ustr | X_reason string

datatype op_error = OpError err_code "extra list"

subsection \<open>Settings and features\<close>

record settings =
  grant_s :: int
  idle_lock_s :: int
  clip_timeout_s :: int
  window_mode :: ustr

definition WINDOW_MODES :: "ustr list" where
  "WINDOW_MODES = [ascii ''floating'', ascii ''regular'']"

definition DEFAULT_SETTINGS :: settings where
  "DEFAULT_SETTINGS =
     \<lparr>grant_s = GRANT_S_DEFAULT, idle_lock_s = IDLE_LOCK_S_DEFAULT,
      clip_timeout_s = CLIP_TIMEOUT_S_DEFAULT, window_mode = ascii ''floating''\<rparr>"

definition in_range :: "int \<times> int \<Rightarrow> int \<Rightarrow> bool" where
  "in_range r v \<longleftrightarrow> fst r \<le> v \<and> v \<le> snd r"

definition setting_ok :: "string \<Rightarrow> json \<Rightarrow> bool" where
  "setting_ok key value =
     (if key = ''window_mode'' then
        (case value of JStr s \<Rightarrow> s \<in> set WINDOW_MODES | _ \<Rightarrow> False)
      else (case value of
          JInt v \<Rightarrow>
            if key = ''grant_s'' then in_range GRANT_S_RANGE v
            else if key = ''clip_timeout_s'' then in_range CLIP_TIMEOUT_S_RANGE v
            else if key = ''idle_lock_s'' then v \<in> set IDLE_LOCK_S_CHOICES
            else False
        | _ \<Rightarrow> False))"

text \<open>\<open>setting_value\<close> is \<^verbatim>\<open>out[key] = d[key]\<close> on the typed record.\<close>

definition put_setting :: "string \<Rightarrow> json \<Rightarrow> settings \<Rightarrow> settings" where
  "put_setting key value s =
     (case value of
        JInt v \<Rightarrow>
          if key = ''grant_s'' then s\<lparr>grant_s := v\<rparr>
          else if key = ''idle_lock_s'' then s\<lparr>idle_lock_s := v\<rparr>
          else if key = ''clip_timeout_s'' then s\<lparr>clip_timeout_s := v\<rparr>
          else s
      | JStr v \<Rightarrow> if key = ''window_mode'' then s\<lparr>window_mode := v\<rparr> else s
      | _ \<Rightarrow> s)"

definition SETTINGS_KEYS :: "string list" where
  "SETTINGS_KEYS = [''grant_s'', ''idle_lock_s'', ''clip_timeout_s'', ''window_mode'']"

fun take_settings :: "(string \<times> json) list \<Rightarrow> string list \<Rightarrow> settings \<Rightarrow> settings" where
  "take_settings d [] out = out"
| "take_settings d (k # ks) out =
     take_settings d ks
       (case jget d k of
          Some v \<Rightarrow> if setting_ok k v then put_setting k v out else out
        | None \<Rightarrow> out)"

definition validate_settings :: "(string \<times> json) list \<Rightarrow> settings" where
  "validate_settings d = take_settings d SETTINGS_KEYS DEFAULT_SETTINGS"

record features =
  passkeys :: bool
  apple_deleted :: bool

definition DEFAULT_FEATURES :: features where
  "DEFAULT_FEATURES = \<lparr>passkeys = False, apple_deleted = False\<rparr>"

definition validate_features :: "json option \<Rightarrow> features" where
  "validate_features d =
     (case d of
        Some (JObj obj) \<Rightarrow>
          \<lparr>passkeys = (jget obj ''passkeys'' = Some (JBool True)),
           apple_deleted = (jget obj ''apple_deleted'' = Some (JBool True))\<rparr>
      | _ \<Rightarrow> DEFAULT_FEATURES)"

definition settings_ok :: "settings \<Rightarrow> bool" where
  "settings_ok s \<longleftrightarrow> in_range GRANT_S_RANGE (grant_s s) \<and> idle_lock_s s \<in> set IDLE_LOCK_S_CHOICES \<and>
     in_range CLIP_TIMEOUT_S_RANGE (clip_timeout_s s) \<and> window_mode s \<in> set WINDOW_MODES"

lemma default_settings_ok: "settings_ok DEFAULT_SETTINGS"
  by (simp add: settings_ok_def DEFAULT_SETTINGS_def in_range_def GRANT_S_RANGE_def
      GRANT_S_DEFAULT_def IDLE_LOCK_S_CHOICES_def IDLE_LOCK_S_DEFAULT_def
      CLIP_TIMEOUT_S_RANGE_def CLIP_TIMEOUT_S_DEFAULT_def WINDOW_MODES_def)

lemma put_setting_ok: "settings_ok s \<Longrightarrow> setting_ok k v \<Longrightarrow> settings_ok (put_setting k v s)"
  by (auto simp: settings_ok_def setting_ok_def put_setting_def split: json.splits if_splits)

lemma take_settings_ok: "settings_ok s \<Longrightarrow> settings_ok (take_settings d ks s)"
  by (induction ks arbitrary: s) (auto split: option.splits intro: put_setting_ok)

text \<open>
  Settings are always in range. Whatever was read from \<^verbatim>\<open>state.json\<close>, the settings
  a session runs with are within the documented ranges.
\<close>

theorem validate_settings_in_range: "settings_ok (validate_settings d)"
  unfolding validate_settings_def by (rule take_settings_ok [OF default_settings_ok])

end
