(* ===== verification/Grants.thy ===== *)
theory Grants
  imports Prelude Protocol
begin

text \<open>
  Per-entry grants: \<^verbatim>\<open>backend/icp/daemon/grants.py\<close>. A \<open>Secrets\<close> object is shared
  between the grant and whoever read it from the grant, so it lives in an explicit heap of
  objects and the grant holds its address; wiping a grant empties the object itself. The table's
  two dictionaries are maps. Clocks are arguments of the operation that reads them.
\<close>

subsection \<open>Secrets objects\<close>

text \<open>
  A TOTP seed is immutable \<^verbatim>\<open>bytes\<close> or a \<^verbatim>\<open>bytearray\<close>, a buffer of its own that can
  be zeroed in place.
\<close>

type_synonym addr = nat

datatype seed = Bytes_seed "nat list" | Bytearray_seed addr

record secrets =
  password :: ustr
  s_notes :: ustr
  totp_secret :: "seed option"
  apple_history :: "(ustr \<times> ustr) list"
  totp_params :: "(string \<times> int) list"

record heap =
  objs :: "addr \<rightharpoonup> secrets"
  bufs :: "addr \<rightharpoonup> nat list"

definition emptied :: "secrets \<Rightarrow> secrets" where
  "emptied s = s\<lparr>password := [], s_notes := [], totp_secret := None, apple_history := [],
     totp_params := []\<rparr>"

definition zero_seed :: "seed option \<Rightarrow> heap \<Rightarrow> heap" where
  "zero_seed sd h =
     (case sd of
        Some (Bytearray_seed b) \<Rightarrow>
          h\<lparr>bufs := (bufs h)(b := map_option (\<lambda>bs. replicate (length bs) 0) (bufs h b))\<rparr>
      | _ \<Rightarrow> h)"

definition wipe_secrets :: "addr option \<Rightarrow> heap \<Rightarrow> heap" where
  "wipe_secrets ref h =
     (case ref of
        None \<Rightarrow> h
      | Some a \<Rightarrow>
          (case objs h a of
             None \<Rightarrow> h
           | Some s \<Rightarrow>
               (let h1 = zero_seed (totp_secret s) h in
                h1\<lparr>objs := (objs h1)(a \<mapsto> emptied s)\<rparr>)))"

subsection \<open>Grants and their table\<close>

record grant =
  g_ref :: nat \<comment> \<open>the object's identity\<close>
  g_uid :: int
  g_id :: string
  g_secrets :: "addr option"
  single_use :: bool
  expires_mono :: "real option"
  expires_wall :: "real option"
  used :: bool

record grant_table =
  gheap :: heap
  grants :: "(int \<times> grant) list"
  last_ended :: "(int \<times> string) list"
  next_ref :: nat

definition GrantTable_init :: "heap \<Rightarrow> grant_table" where
  "GrantTable_init h = \<lparr>gheap = h, grants = [], last_ended = [], next_ref = 0\<rparr>"

text \<open>\<^verbatim>\<open>Grant.wipe\<close>, for a grant already taken out of the table.\<close>

definition wipe_grant :: "grant \<Rightarrow> grant_table \<Rightarrow> grant_table" where
  "wipe_grant g t = t\<lparr>gheap := wipe_secrets (g_secrets g) (gheap t)\<rparr>"

definition drop_g :: "int \<Rightarrow> grant_table \<Rightarrow> grant_table \<times> string option" where
  "drop_g uid t =
     (let t1 = t\<lparr>last_ended := ddel uid (last_ended t)\<rparr> in
      case dget (grants t1) uid of
        None \<Rightarrow> (t1, None)
      | Some g \<Rightarrow> (wipe_grant g (t1\<lparr>grants := ddel uid (grants t1)\<rparr>), Some (g_id g)))"

definition end_g :: "int \<Rightarrow> grant_table \<Rightarrow> grant_table \<times> string option" where
  "end_g uid t =
     (case dget (grants t) uid of
        None \<Rightarrow> (t, None)
      | Some g \<Rightarrow>
          (wipe_grant g (t\<lparr>grants := ddel uid (grants t),
             last_ended := dset uid (g_id g) (last_ended t)\<rparr>), Some (g_id g)))"

definition put_g ::
  "real \<Rightarrow> real \<Rightarrow> int \<Rightarrow> string \<Rightarrow> addr \<Rightarrow> int \<Rightarrow> grant_table \<Rightarrow> grant_table \<times> grant" where
  "put_g now0 wall uid i a secs t =
     (let t1 = fst (drop_g uid t);
          single = (secs \<le> 0);
          g = \<lparr>g_ref = next_ref t1, g_uid = uid, g_id = i, g_secrets = Some a,
               single_use = single,
               expires_mono = (if single then None else Some (now0 + of_int secs)),
               expires_wall = (if single then None else Some (wall + of_int secs)),
               used = False\<rparr> in
      (t1\<lparr>last_ended := ddel uid (last_ended t1), grants := dset uid g (grants t1),
          next_ref := Suc (next_ref t1)\<rparr>, g))"

definition current_g :: "int \<Rightarrow> grant_table \<Rightarrow> grant option" where
  "current_g uid t = dget (grants t) uid"

definition past_expiry :: "real \<Rightarrow> grant \<Rightarrow> bool" where
  "past_expiry now g \<longleftrightarrow> (case expires_mono g of None \<Rightarrow> False | Some e \<Rightarrow> now \<ge> e)"

definition check_g ::
  "real \<Rightarrow> int \<Rightarrow> string \<Rightarrow> grant_table \<Rightarrow> grant_table \<times> (op_error + grant)" where
  "check_g now uid i t =
     (let g0 = dget (grants t) uid;
          expired = (case g0 of None \<Rightarrow> False | Some g \<Rightarrow> past_expiry now g);
          t1 = (if expired then fst (end_g uid t) else t);
          g1 = (if expired then None else g0) in
      case g1 of
        None \<Rightarrow>
          (t1, Inl (OpError
             (if dget (last_ended t1) uid = Some i then E_grant_expired else E_no_grant) []))
      | Some g \<Rightarrow>
          if g_id g \<noteq> i \<or> used g then (t1, Inl (OpError E_no_grant [])) else (t1, Inr g))"

definition use_g ::
  "real \<Rightarrow> int \<Rightarrow> string \<Rightarrow> grant_table \<Rightarrow> grant_table \<times> (op_error + grant \<times> bool)" where
  "use_g now uid i t =
     (case check_g now uid i t of
        (t1, Inl e) \<Rightarrow> (t1, Inl e)
      | (t1, Inr g) \<Rightarrow>
          if single_use g
          then (let g' = g\<lparr>used := True\<rparr> in
                (t1\<lparr>grants := dset uid g' (grants t1)\<rparr>, Inr (g', True)))
          else (t1, Inr (g, False)))"

definition due_g :: "real \<Rightarrow> grant_table \<Rightarrow> (int \<times> string) list" where
  "due_g now t = map (\<lambda>(uid, g). (uid, g_id g)) (filter (\<lambda>(uid, g). past_expiry now g) (grants t))"

subsection \<open>The abstract service\<close>

text \<open>
  What the registry relies on: at every moment a uid has at most one usable entry id. \<open>live\<close>
  is that id; the laws say how each operation changes it and that \<open>check\<close> accepts it and
  nothing else.
\<close>

definition live_id :: "real \<Rightarrow> grant_table \<Rightarrow> int \<Rightarrow> string option" where
  "live_id now t uid =
     (case dget (grants t) uid of
        None \<Rightarrow> None
      | Some g \<Rightarrow> if past_expiry now g \<or> used g then None else Some (g_id g))"

locale grant_service =
  fixes live :: "real \<Rightarrow> 't \<Rightarrow> int \<Rightarrow> string option"
    and put :: "real \<Rightarrow> real \<Rightarrow> int \<Rightarrow> string \<Rightarrow> addr \<Rightarrow> int \<Rightarrow> 't \<Rightarrow> 't"
    and check :: "real \<Rightarrow> int \<Rightarrow> string \<Rightarrow> 't \<Rightarrow> 't \<times> (op_error + 'g)"
    and expire :: "int \<Rightarrow> 't \<Rightarrow> 't"
    and release :: "int \<Rightarrow> 't \<Rightarrow> 't"
  assumes live_put: "now0 + of_int (max secs 0) > now \<or> secs \<le> 0 \<Longrightarrow>
      live now (put now0 wall uid i a secs t) u = (if u = uid then Some i else live now t u)"
    and live_put_late: "0 < secs \<Longrightarrow> now0 + of_int secs \<le> now \<Longrightarrow>
      live now (put now0 wall uid i a secs t) uid = None"
    and live_expire: "live now (expire uid t) u = (if u = uid then None else live now t u)"
    and live_drop: "live now (release uid t) u = (if u = uid then None else live now t u)"
    and live_check: "u \<noteq> uid \<or> live now' t uid \<noteq> None \<Longrightarrow>
      live now (fst (check now' uid i t)) u = live now t u"
    and check_iff: "(\<exists>g. snd (check now uid i t) = Inr g) \<longleftrightarrow> live now t uid = Some i"
begin

text \<open>One account and no other: a grant on \<open>i\<close> lets no other id of that uid through.\<close>

lemma one_account:
  assumes "snd (check now uid i (put now0 wall uid j a secs t)) = Inr g"
  shows "i = j"
proof (cases "now0 + of_int (max secs 0) > now \<or> secs \<le> 0")
  case True
  then have "live now (put now0 wall uid j a secs t) uid = Some j"
    using live_put [of now now0 secs wall uid j a t uid] by simp
  with assms check_iff [of now uid i "put now0 wall uid j a secs t"]
  show ?thesis by auto
next
  case False
  then have "0 < secs" "now0 + of_int secs \<le> now" by auto
  with assms check_iff [of now uid i "put now0 wall uid j a secs t"] live_put_late
  show ?thesis by auto
qed

lemma refused_after_drop: "snd (check now uid i (release uid t)) \<noteq> Inr g"
  using check_iff [of now uid i "release uid t"] live_drop [of now uid t uid] by auto

lemma refused_after_expire: "snd (check now uid i (expire uid t)) \<noteq> Inr g"
  using check_iff [of now uid i "expire uid t"] live_expire [of now uid t uid] by auto

end

lemma grants_wipe [simp]: "grants (wipe_grant g t) = grants t" "last_ended (wipe_grant g t) = last_ended t"
  "next_ref (wipe_grant g t) = next_ref t"
  by (simp_all add: wipe_grant_def)

lemma grants_drop: "dget (grants (fst (drop_g uid t))) u = (if u = uid then None else dget (grants t) u)"
  by (auto simp: drop_g_def Let_def split: option.splits)

lemma grants_end: "dget (grants (fst (end_g uid t))) u = (if u = uid then None else dget (grants t) u)"
  by (auto simp: end_g_def split: option.splits)

lemma grants_check: "dget (grants (fst (check_g now uid i t))) u =
    (if u = uid \<and> (\<exists>g. dget (grants t) uid = Some g \<and> past_expiry now g) then None
     else dget (grants t) u)"
  by (auto simp: check_g_def Let_def grants_end split: option.splits)

lemma check_g_Inr:
  "snd (check_g now uid i t) = Inr g \<longleftrightarrow>
     dget (grants t) uid = Some g \<and> \<not> past_expiry now g \<and> g_id g = i \<and> \<not> used g"
  by (auto simp: check_g_def Let_def split: option.splits if_splits)

interpretation gs: grant_service live_id
  "\<lambda>now0 wall uid i a secs t. fst (put_g now0 wall uid i a secs t)" check_g
  "\<lambda>uid t. fst (end_g uid t)" "\<lambda>uid t. fst (drop_g uid t)"
proof unfold_locales
  fix now now0 wall :: real and uid u secs :: int and i :: string and a :: addr and t now'
  show "live_id now (fst (put_g now0 wall uid i a secs t)) u =
      (if u = uid then Some i else live_id now t u)"
    if "now0 + of_int (max secs 0) > now \<or> secs \<le> 0"
    using that by (auto simp: live_id_def put_g_def Let_def grants_drop past_expiry_def)
  show "live_id now (fst (put_g now0 wall uid i a secs t)) uid = None"
    if "0 < secs" "now0 + of_int secs \<le> now"
    using that by (auto simp: live_id_def put_g_def Let_def past_expiry_def)
  show "live_id now (fst (end_g uid t)) u = (if u = uid then None else live_id now t u)"
    by (simp add: live_id_def grants_end)
  show "live_id now (fst (drop_g uid t)) u = (if u = uid then None else live_id now t u)"
    by (simp add: live_id_def grants_drop)
  show "live_id now (fst (check_g now' uid i t)) u = live_id now t u"
    if "u \<noteq> uid \<or> live_id now' t uid \<noteq> None"
    using that by (auto simp: live_id_def grants_check split: option.splits if_splits)
  show "(\<exists>g. snd (check_g now uid i t) = Inr g) \<longleftrightarrow> live_id now t uid = Some i"
    by (auto simp: live_id_def check_g_Inr split: option.splits)
qed

subsection \<open>No plaintext outlives its grant\<close>

definition is_emptied :: "secrets \<Rightarrow> bool" where
  "is_emptied s \<longleftrightarrow> password s = [] \<and> s_notes s = [] \<and> totp_secret s = None \<and>
     apple_history s = [] \<and> totp_params s = []"

text \<open>
  The operations a caller can make, as data; a fresh grant takes an object no earlier grant
  held. \<open>grun\<close> runs a sequence of them.
\<close>

datatype gop =
    GPut real real int string addr int
  | GCheck real int string
  | GUse real int string
  | GEnd int
  | GDrop int

fun gstep :: "gop \<Rightarrow> grant_table \<Rightarrow> grant_table" where
  "gstep (GPut m w uid i a n) t = fst (put_g m w uid i a n t)"
| "gstep (GCheck now uid i) t = fst (check_g now uid i t)"
| "gstep (GUse now uid i) t = fst (use_g now uid i t)"
| "gstep (GEnd uid) t = fst (end_g uid t)"
| "gstep (GDrop uid) t = fst (drop_g uid t)"

fun grun :: "gop list \<Rightarrow> grant_table \<Rightarrow> grant_table" where
  "grun [] t = t"
| "grun (x # xs) t = grun xs (gstep x t)"

fun put_addrs :: "gop list \<Rightarrow> addr list" where
  "put_addrs [] = []"
| "put_addrs (GPut _ _ _ _ a _ # xs) = a # put_addrs xs"
| "put_addrs (_ # xs) = put_addrs xs"

definition held :: "grant_table \<Rightarrow> addr \<Rightarrow> bool" where
  "held t a \<longleftrightarrow> (\<exists>uid g. dget (grants t) uid = Some g \<and> g_secrets g = Some a)"

text \<open>
  The invariant over the addresses \<open>A\<close> granted so far: a granted object is held by the table
  or empty, and every address the table holds is one of them.
\<close>

definition ginv :: "addr set \<Rightarrow> grant_table \<Rightarrow> bool" where
  "ginv A t \<longleftrightarrow> (\<forall>a. held t a \<longrightarrow> a \<in> A) \<and>
     (\<forall>a\<in>A. \<not> held t a \<longrightarrow> (\<forall>s. objs (gheap t) a = Some s \<longrightarrow> is_emptied s))"

lemma objs_wipe: "objs (wipe_secrets r h) a =
    (if r = Some a then map_option emptied (objs h a) else objs h a)"
  by (auto simp: wipe_secrets_def zero_seed_def Let_def split: option.splits seed.splits)

lemma is_emptied_emptied [simp]: "is_emptied (emptied s)"
  by (simp add: is_emptied_def emptied_def)

lemma objs_gheap_wipe_grant:
  "objs (gheap (wipe_grant g t)) a =
     (if g_secrets g = Some a then map_option emptied (objs (gheap t) a) else objs (gheap t) a)"
  by (simp add: wipe_grant_def objs_wipe)

lemma held_cong: "(\<And>u. dget (grants t) u = dget (grants t') u) \<Longrightarrow> held t a = held t' a"
  by (simp add: held_def)

lemma ginv_remove:
  assumes "ginv A t" and "\<And>u. dget (grants t') u = (if u = uid then None else dget (grants t) u)"
    and "\<And>a. objs (gheap t') a = (case dget (grants t) uid of
           Some g \<Rightarrow> if g_secrets g = Some a then map_option emptied (objs (gheap t) a)
             else objs (gheap t) a
         | None \<Rightarrow> objs (gheap t) a)"
  shows "ginv A t'"
proof -
  have sub: "held t' a \<Longrightarrow> held t a" for a
    using assms(2) by (auto simp: held_def split: if_splits)
  have "is_emptied s" if "a \<in> A" "\<not> held t' a" "objs (gheap t') a = Some s" for a s
  proof (cases "held t a")
    case True
    then obtain u g where ug: "dget (grants t) u = Some g" "g_secrets g = Some a"
      by (auto simp: held_def)
    with that(2) assms(2) have "u = uid" by (metis held_def)
    with that(3) ug assms(3) [of a] show ?thesis by auto
  next
    case False
    with assms(1) that have "\<forall>s. objs (gheap t) a = Some s \<longrightarrow> is_emptied s"
      by (auto simp: ginv_def)
    with that(3) assms(3) [of a] show ?thesis by (auto split: option.splits if_splits)
  qed
  with sub assms(1) show ?thesis by (auto simp: ginv_def)
qed

lemma ginv_drop [inv_intros]: "ginv A t \<Longrightarrow> ginv A (fst (drop_g uid t))"
  by (rule ginv_remove [where uid = uid])
    (auto simp: grants_drop, auto simp: drop_g_def Let_def objs_gheap_wipe_grant split: option.splits)

lemma ginv_end [inv_intros]: "ginv A t \<Longrightarrow> ginv A (fst (end_g uid t))"
  by (rule ginv_remove [where uid = uid])
    (auto simp: grants_end, auto simp: end_g_def objs_gheap_wipe_grant split: option.splits)

lemma ginv_check [inv_intros]: "ginv A t \<Longrightarrow> ginv A (fst (check_g now uid i t))"
  using ginv_end [of A t uid] by (auto simp: check_g_def Let_def split: option.splits)

lemma ginv_use [inv_intros]:
  assumes "ginv A t"
  shows "ginv A (fst (use_g now uid i t))"
proof (cases "check_g now uid i t")
  case (Pair t1 r)
  have t1: "ginv A t1" using ginv_check [OF assms, of now uid i] Pair by simp
  show ?thesis
  proof (cases r)
    case (Inl e)
    with Pair t1 show ?thesis by (simp add: use_g_def)
  next
    case (Inr g)
    then have "dget (grants t1) uid = Some g"
      using check_g_Inr [of now uid i t g] grants_check [of now uid i t uid] Pair by auto
    then have "held (t1\<lparr>grants := dset uid (g\<lparr>used := True\<rparr>) (grants t1)\<rparr>) a = held t1 a" for a
      by (auto simp: held_def split: if_splits) (metis option.inject)+
    with t1 Pair Inr show ?thesis by (auto simp: use_g_def ginv_def Let_def)
  qed
qed

lemma ginv_put [inv_intros]:
  assumes "ginv A t" and "a \<notin> A"
  shows "ginv (insert a A) (fst (put_g m w uid i a n t))"
proof -
  let ?t = "fst (drop_g uid t)" and ?t' = "fst (put_g m w uid i a n t)"
  have d: "ginv A ?t" using assms(1) by (rule ginv_drop)
  have h: "gheap ?t' = gheap ?t" by (simp add: put_g_def Let_def)
  have "held ?t' b \<longleftrightarrow> b = a \<or> held ?t b" for b
    by (auto simp: held_def put_g_def Let_def grants_drop)
  with d h assms(2) show ?thesis by (auto simp: ginv_def)
qed

lemma ginv_run:
  "ginv A t \<Longrightarrow> distinct (put_addrs xs) \<Longrightarrow> A \<inter> set (put_addrs xs) = {} \<Longrightarrow>
   ginv (A \<union> set (put_addrs xs)) (grun xs t)"
proof (induction xs arbitrary: A t rule: put_addrs.induct)
  case (2 m w u i a n xs)
  then have "ginv (insert a A) (gstep (GPut m w u i a n) t)"
    by (simp add: ginv_put)
  from "2.IH" [OF this] "2.prems" show ?case by (simp add: insert_commute Un_commute)
qed (simp_all add: ginv_check ginv_use ginv_end ginv_drop)

text \<open>
  No plaintext outlives its grant. After any sequence of grants, checks, uses, expiries and
  drops, started on an empty table with a fresh \<open>Secrets\<close> object per grant, every object ever
  granted is either held by a grant still in the table or emptied: password, notes, seed,
  history and parameters are gone.
\<close>

theorem granted_secrets_held_or_emptied:
  assumes "distinct (put_addrs xs)" and "a \<in> set (put_addrs xs)"
    and "objs (gheap (grun xs (GrantTable_init h))) a = Some s"
  shows "held (grun xs (GrantTable_init h)) a \<or> is_emptied s"
proof -
  have "ginv {} (GrantTable_init h)" by (simp add: ginv_def held_def GrantTable_init_def)
  from ginv_run [OF this assms(1)] assms(2,3) show ?thesis by (auto simp: ginv_def)
qed

text \<open>
  One account and no other. A grant put on one entry is accepted for that entry only:
  whatever the clocks say, checking any other id after it fails.
\<close>

theorem grant_opens_one_account:
  assumes "snd (check_g now uid i (fst (put_g now0 wall uid j a secs t))) = Inr g"
  shows "i = j"
  using assms by (rule gs.one_account)

text \<open>
  What a check accepts. A check succeeds exactly when the uid holds a grant on that very id
  which is unspent and whose time is not up; a late timer changes nothing, the clock is compared
  on every check.
\<close>

theorem check_accepts_iff:
  "(\<exists>g. snd (check_g now uid i t) = Inr g) \<longleftrightarrow>
     (\<exists>g. dget (grants t) uid = Some g \<and> g_id g = i \<and> \<not> used g \<and>
        (case expires_mono g of None \<Rightarrow> True | Some e \<Rightarrow> now < e))"
  by (auto simp: check_g_Inr past_expiry_def split: option.splits)

definition example_secrets :: secrets where
  "example_secrets = \<lparr>password = ascii ''pw'', s_notes = [], totp_secret = Some (Bytearray_seed 9),
     apple_history = [], totp_params = []\<rparr>"

definition example_heap :: heap where
  "example_heap = \<lparr>objs = [0 \<mapsto> example_secrets], bufs = [9 \<mapsto> [1, 2, 3]]\<rparr>"

theorem granted_secrets_held_or_emptied_witness:
  "held (grun [GPut 0 0 1000 ''k'' 0 120, GDrop 1000] (GrantTable_init example_heap)) 0 \<or>
     is_emptied (emptied example_secrets)"
  by (rule granted_secrets_held_or_emptied [where h = example_heap])
    (simp_all add: put_g_def drop_g_def GrantTable_init_def Let_def objs_gheap_wipe_grant
      example_heap_def)

theorem grant_opens_one_account_witness:
  "\<exists>g. snd (check_g 5 1000 ''k'' (fst (put_g 0 0 1000 ''k'' 0 120 (GrantTable_init example_heap))))
     = Inr g \<and> ''k'' = ''k''"
proof -
  let ?t = "GrantTable_init example_heap"
  have "\<exists>g. snd (check_g 5 1000 ''k'' (fst (put_g 0 0 1000 ''k'' 0 120 ?t))) = Inr g"
    using gs.check_iff by (simp add: live_id_def put_g_def Let_def past_expiry_def)
  then obtain g where g: "snd (check_g 5 1000 ''k'' (fst (put_g 0 0 1000 ''k'' 0 120 ?t))) = Inr g"
    by blast
  from grant_opens_one_account [OF g] g show ?thesis by blast
qed

end
