(* ===== verification/Tickets.thy ===== *)
theory Tickets
  imports Prelude Protocol
begin

text \<open>
  Single-use tickets: \<^verbatim>\<open>backend/icp/daemon/tickets.py\<close>. A window connection is a
  connection id; whether it is closed, and the start time of a parent process, are what the
  surroundings answer at the moment of the call. The clock is read once per operation. The
  random token is an argument of \<open>issue\<close>.
\<close>

datatype ticket_error =
    Too_many_bad
  | Unknown_ticket
  | Ticket_expired
  | Other_uid
  | Other_role
  | Window_gone
  | Wrong_parent
  | Pid_recycled

record ticket =
  token :: string
  t_uid :: int
  t_role :: role
  purpose :: string
  ui_conn :: nat
  ui_pid :: int
  ui_start_time :: int
  issued :: real
  t_id :: "string option"
  t_field :: "string option"
  t_value :: "ustr option"
  sensitive :: bool
  t_extra :: "(string \<times> json) list"

definition wipe_ticket :: "ticket \<Rightarrow> ticket" where
  "wipe_ticket t = t\<lparr>t_value := None, t_extra := []\<rparr>"

record book =
  ttl :: real
  tickets :: "(string \<times> ticket) list"
  bad :: "(int \<times> real list) list"

definition TicketBook_init :: book where
  "TicketBook_init = \<lparr>ttl = TICKET_TTL_S, tickets = [], bad = []\<rparr>"

definition sweep :: "real \<Rightarrow> book \<Rightarrow> book" where
  "sweep now b = b\<lparr>tickets := filter (\<lambda>(k, t). \<not> (now - issued t > ttl b)) (tickets b)\<rparr>"

text \<open>What a caller asks a ticket for; the window connection gives pid and start time.\<close>

record request =
  rq_uid :: int
  rq_role :: role
  rq_purpose :: string
  rq_conn :: nat
  rq_pid :: int
  rq_start :: int
  rq_id :: "string option"
  rq_field :: "string option"
  rq_value :: "ustr option"
  rq_sensitive :: bool
  rq_extra :: "(string \<times> json) list"

definition make_ticket :: "real \<Rightarrow> request \<Rightarrow> string \<Rightarrow> ticket" where
  "make_ticket now r tok =
     \<lparr>token = tok, t_uid = rq_uid r, t_role = rq_role r, purpose = rq_purpose r,
      ui_conn = rq_conn r, ui_pid = rq_pid r, ui_start_time = rq_start r, issued = now,
      t_id = rq_id r, t_field = rq_field r, t_value = rq_value r,
      sensitive = rq_sensitive r, t_extra = rq_extra r\<rparr>"

text \<open>\<open>None\<close> is the \<^verbatim>\<open>ValueError\<close> for a role that has no tickets.\<close>

definition issue :: "real \<Rightarrow> request \<Rightarrow> string \<Rightarrow> book \<Rightarrow> book option" where
  "issue now r tok b =
     (if rq_role r \<notin> set TICKET_ROLES then None
      else (let b1 = sweep now b in
        Some (b1\<lparr>tickets := dset tok (make_ticket now r tok) (tickets b1)\<rparr>)))"

text \<open>\<^verbatim>\<open>_throttled\<close>: also drops the refusals older than a minute.\<close>

definition throttled :: "real \<Rightarrow> int \<Rightarrow> book \<Rightarrow> book \<times> bool" where
  "throttled now uid b =
     (case dget (bad b) uid of
        None \<Rightarrow> (b, False)
      | Some q \<Rightarrow>
          if q = [] then (b, False)
          else (let q' = dropWhile (\<lambda>x. now - x \<ge> 60) q in
            (b\<lparr>bad := dset uid q' (bad b)\<rparr>, length q' \<ge> BAD_TICKETS_PER_MIN)))"

record hello_env =
  h_now :: real
  h_uid :: int
  h_role :: role
  h_ppid :: int
  h_closed :: "nat \<Rightarrow> bool"
  h_parent_start :: "int \<Rightarrow> int option"

definition ticket_refusal :: "hello_env \<Rightarrow> real \<Rightarrow> bool \<Rightarrow> ticket option \<Rightarrow> ticket_error option" where
  "ticket_refusal h life thr tk =
     (if thr then Some Too_many_bad
      else (case tk of
          None \<Rightarrow> Some Unknown_ticket
        | Some t \<Rightarrow>
            if h_now h - issued t > life then Some Ticket_expired
            else if t_uid t \<noteq> h_uid h then Some Other_uid
            else if t_role t \<noteq> h_role h then Some Other_role
            else if h_closed h (ui_conn t) then Some Window_gone
            else if h_ppid h \<noteq> ui_pid t then Some Wrong_parent
            else if h_parent_start h (h_ppid h) \<noteq> Some (ui_start_time t) then Some Pid_recycled
            else None))"

definition redeem :: "hello_env \<Rightarrow> string option \<Rightarrow> book \<Rightarrow> book \<times> (ticket_error + ticket)" where
  "redeem h tok b =
     (let tk = (case tok of None \<Rightarrow> None | Some k \<Rightarrow> dget (tickets b) k);
          b1 = (case tok of None \<Rightarrow> b | Some k \<Rightarrow> b\<lparr>tickets := ddel k (tickets b)\<rparr>);
          (b2, thr) = throttled (h_now h) (h_uid h) b1 in
      case ticket_refusal h (ttl b2) thr tk of
        Some e \<Rightarrow>
          (b2\<lparr>bad := dset (h_uid h)
             ((case dget (bad b2) (h_uid h) of None \<Rightarrow> [] | Some q \<Rightarrow> q) @ [h_now h]) (bad b2)\<rparr>,
           Inl e)
      | None \<Rightarrow> (b2, case tk of Some t \<Rightarrow> Inr t | None \<Rightarrow> Inl Unknown_ticket))"

definition revoke_uid :: "int \<Rightarrow> role option \<Rightarrow> book \<Rightarrow> book \<times> nat" where
  "revoke_uid uid r b =
     (let gone = filter (\<lambda>(k, t). t_uid t = uid \<and> (r = None \<or> r = Some (t_role t))) (tickets b) in
      (b\<lparr>tickets := filter (\<lambda>(k, t). \<not> (t_uid t = uid \<and> (r = None \<or> r = Some (t_role t))))
           (tickets b)\<rparr>, length gone))"

definition pending :: "real \<Rightarrow> int option \<Rightarrow> book \<Rightarrow> book \<times> nat" where
  "pending now uid b =
     (let b1 = sweep now b in
      (b1, length (filter (\<lambda>(k, t). uid = None \<or> uid = Some (t_uid t)) (tickets b1))))"

subsection \<open>The contract of single use\<close>

text \<open>Events of any service that hands out tokens and takes them back.\<close>

datatype ('i, 'r) tevent = Issue 'i string | Redeem 'r "string option" | Revoke int "role option"

locale token_service =
  fixes peek :: "'b \<Rightarrow> string \<Rightarrow> 't option"
    and iss :: "'i \<Rightarrow> string \<Rightarrow> 'b \<Rightarrow> 'b"
    and red :: "'r \<Rightarrow> string option \<Rightarrow> 'b \<Rightarrow> 'b \<times> ('e + 't)"
    and rvk :: "int \<Rightarrow> role option \<Rightarrow> 'b \<Rightarrow> 'b"
  assumes issue_other: "k' \<noteq> k \<Longrightarrow> peek (iss i k b) k' = Some t \<Longrightarrow> peek b k' \<noteq> None"
    and redeem_gone: "peek (fst (red r (Some k) b)) k = None"
    and redeem_other: "peek (fst (red r tok b)) k = Some t \<Longrightarrow> peek b k \<noteq> None"
    and redeem_Inr: "snd (red r tok b) = Inr t \<Longrightarrow> \<exists>k. tok = Some k \<and> peek b k = Some t"
    and revoke_other: "peek (rvk u ro b) k = Some t \<Longrightarrow> peek b k \<noteq> None"

text \<open>The state after an event, and how often a token was redeemed successfully in a run.\<close>

fun tstep ::
  "('i \<Rightarrow> string \<Rightarrow> 'b \<Rightarrow> 'b) \<Rightarrow> ('r \<Rightarrow> string option \<Rightarrow> 'b \<Rightarrow> 'b \<times> ('e + 't)) \<Rightarrow>
   (int \<Rightarrow> role option \<Rightarrow> 'b \<Rightarrow> 'b) \<Rightarrow> ('i, 'r) tevent \<Rightarrow> 'b \<Rightarrow> 'b" where
  "tstep i r v (Issue x k) b = i x k b"
| "tstep i r v (Redeem x tok) b = fst (r x tok b)"
| "tstep i r v (Revoke u ro) b = v u ro b"

fun redeemed ::
  "('i \<Rightarrow> string \<Rightarrow> 'b \<Rightarrow> 'b) \<Rightarrow> ('r \<Rightarrow> string option \<Rightarrow> 'b \<Rightarrow> 'b \<times> ('e + 't)) \<Rightarrow>
   (int \<Rightarrow> role option \<Rightarrow> 'b \<Rightarrow> 'b) \<Rightarrow> string \<Rightarrow> ('i, 'r) tevent list \<Rightarrow> 'b \<Rightarrow> nat" where
  "redeemed i r v k [] b = 0"
| "redeemed i r v k (e # es) b =
     (case e of Redeem x tok \<Rightarrow> if tok = Some k \<and> \<not> isl (snd (r x tok b)) then 1 else 0 | _ \<Rightarrow> 0) +
     redeemed i r v k es (tstep i r v e b)"

fun issued_times :: "string \<Rightarrow> ('i, 'r) tevent list \<Rightarrow> nat" where
  "issued_times k [] = 0"
| "issued_times k (Issue x k' # es) = (if k' = k then 1 else 0) + issued_times k es"
| "issued_times k (_ # es) = issued_times k es"

context token_service
begin

lemma redeemed_le_issued:
  "redeemed iss red rvk k es b \<le> issued_times k es + (if peek b k = None then 0 else 1)"
proof (induction es arbitrary: b)
  case (Cons e es)
  show ?case
  proof (cases e)
    case (Issue x k')
    then show ?thesis
      using Cons.IH [of "iss x k' b"] issue_other [of k k' x b] by (fastforce split: if_splits)
  next
    case (Redeem x tok)
    show ?thesis
    proof (cases "tok = Some k")
      case True
      then have "peek (fst (red x tok b)) k = None" using redeem_gone by simp
      moreover have "\<not> isl (snd (red x tok b)) \<Longrightarrow> peek b k \<noteq> None"
        using redeem_Inr [of x tok b] True by (cases "snd (red x tok b)") auto
      ultimately show ?thesis using Cons.IH [of "fst (red x tok b)"] Redeem True by auto
    next
      case False
      then show ?thesis
        using Cons.IH [of "fst (red x tok b)"] redeem_other [of x tok b k] Redeem
        by (fastforce split: if_splits)
    qed
  next
    case (Revoke u ro)
    then show ?thesis
      using Cons.IH [of "rvk u ro b"] revoke_other [of u ro b k] by (fastforce split: if_splits)
  qed
qed simp

end

subsection \<open>The book keeps the contract\<close>

definition peek :: "book \<Rightarrow> string \<Rightarrow> ticket option" where
  "peek b k = dget (tickets b) k"

definition issue_step :: "real \<times> request \<Rightarrow> string \<Rightarrow> book \<Rightarrow> book" where
  "issue_step x k b = (case issue (fst x) (snd x) k b of None \<Rightarrow> b | Some b' \<Rightarrow> b')"

lemma tickets_throttled [simp]: "tickets (fst (throttled now uid b)) = tickets b"
  "ttl (fst (throttled now uid b)) = ttl b"
  by (auto simp: throttled_def Let_def split: option.splits)

lemma dget_filter: "dget (filter P d) k = Some v \<Longrightarrow> dget d k \<noteq> None"
  by (auto simp: dget_def map_of_eq_None_iff dest!: map_of_SomeD) force

lemma tickets_redeem:
  "tickets (fst (redeem h tok b)) = (case tok of None \<Rightarrow> tickets b | Some k \<Rightarrow> ddel k (tickets b))"
  by (auto simp: redeem_def Let_def split_beta split: option.splits)

lemma redeem_ticket:
  assumes "snd (redeem h tok b) = Inr t"
  obtains k where "tok = Some k" "peek b k = Some t"
    "ticket_refusal h (ttl b) (snd (throttled (h_now h) (h_uid h)
       (b\<lparr>tickets := ddel k (tickets b)\<rparr>))) (Some t) = None"
proof (cases tok)
  case None
  with assms show ?thesis
    by (auto simp: redeem_def Let_def split_beta ticket_refusal_def split: option.splits if_splits)
next
  case (Some k)
  with assms that [OF Some] show ?thesis
    by (auto simp: redeem_def Let_def split_beta peek_def ticket_refusal_def
        split: option.splits if_splits)
qed

interpretation tks: token_service peek issue_step redeem "\<lambda>u ro b. fst (revoke_uid u ro b)"
proof unfold_locales
  show "peek b k' \<noteq> None" if "k' \<noteq> k" "peek (issue_step i k b) k' = Some t" for k' k i b t
    using that dget_filter
    by (fastforce simp: peek_def issue_step_def issue_def sweep_def Let_def split: option.splits if_splits)
  show "peek (fst (redeem r (Some k) b)) k = None" for r k b
    by (simp add: peek_def tickets_redeem)
  show "peek b k \<noteq> None" if "peek (fst (redeem r tok b)) k = Some t" for r tok b k t
    using that by (auto simp: peek_def tickets_redeem split: option.splits if_splits)
  show "\<exists>k. tok = Some k \<and> peek b k = Some t" if "snd (redeem r tok b) = Inr t" for r tok b t
    using that by (auto elim: redeem_ticket)
  show "peek b k \<noteq> None" if "peek (fst (revoke_uid u ro b)) k = Some t" for u ro b k t
    using that dget_filter by (fastforce simp: peek_def revoke_uid_def Let_def)
qed

text \<open>
  A ticket is good for one hello. In any run of issues, hellos and revocations, a token is
  accepted at most as often as it was issued: replaying a token, guessing an unissued one or
  presenting a revoked one never succeeds.
\<close>

theorem redeemed_at_most_issued:
  "redeemed issue_step redeem (\<lambda>u ro b. fst (revoke_uid u ro b)) k es TicketBook_init
     \<le> issued_times k es"
  using tks.redeemed_le_issued [of k es TicketBook_init]
  by (simp add: peek_def TicketBook_init_def)

text \<open>
  What a hello must prove. A redeemed ticket was in the book under the presented token, is
  not older than its lifetime, is of this uid and role, its window connection is open, and the
  process's parent is the window's pid with the window's start time.
\<close>

theorem redeem_sound:
  assumes "snd (redeem h tok b) = Inr t"
  shows "\<exists>k. tok = Some k \<and> peek b k = Some t \<and> h_now h - issued t \<le> ttl b \<and>
    t_uid t = h_uid h \<and> t_role t = h_role h \<and> \<not> h_closed h (ui_conn t) \<and>
    h_ppid h = ui_pid t \<and> h_parent_start h (h_ppid h) = Some (ui_start_time t)"
  using assms
  by (elim redeem_ticket) (auto simp: ticket_refusal_def split: if_splits)

text \<open>
  Throttling. Once a uid has \<^verbatim>\<open>BAD_TICKETS_PER_MIN\<close> refusals within the last
  minute, every further hello of that uid is refused, whatever it presents.
\<close>

theorem throttled_refuses:
  assumes "dget (bad b) (h_uid h) = Some q"
    and "BAD_TICKETS_PER_MIN \<le> length (dropWhile (\<lambda>x. h_now h - x \<ge> 60) q)"
  shows "snd (redeem h tok b) = Inl Too_many_bad"
proof -
  have "q \<noteq> []" using assms(2) by (auto simp: BAD_TICKETS_PER_MIN_def)
  then have "snd (throttled (h_now h) (h_uid h) b') = True" if "bad b' = bad b" for b'
    using that assms by (simp add: throttled_def Let_def)
  then show ?thesis
    by (auto simp: redeem_def Let_def split_beta ticket_refusal_def split: option.splits)
qed

text \<open>
  A lock revokes everything. After \<^verbatim>\<open>revoke_uid\<close> without a role no ticket of the
  uid is left to redeem, and no ticket of another uid is touched.
\<close>

theorem revoke_uid_exact:
  assumes "dict_ok (tickets b)"
  shows "peek (fst (revoke_uid uid None b)) k =
    (case peek b k of Some t \<Rightarrow> if t_uid t = uid then None else Some t | None \<Rightarrow> None)"
proof -
  let ?P = "\<lambda>(k, t). t_uid t \<noteq> uid"
  have eq: "tickets (fst (revoke_uid uid None b)) = filter ?P (tickets b)"
    by (simp add: revoke_uid_def Let_def)
  have d: "dict_ok (filter ?P (tickets b))"
    using assms by (simp add: dict_ok_def distinct_map_filter)
  have "peek (fst (revoke_uid uid None b)) k = Some t \<longleftrightarrow> peek b k = Some t \<and> t_uid t \<noteq> uid" for t
    unfolding peek_def eq dict_ok_items [OF d, symmetric] dict_ok_items [OF assms, symmetric] by simp
  then show ?thesis
    by (intro option_eqI) (auto split: option.splits if_splits)
qed

definition example_request :: request where
  "example_request = \<lparr>rq_uid = 1000, rq_role = Clip, rq_purpose = ''copy'', rq_conn = 1,
     rq_pid = 42, rq_start = 7, rq_id = Some ''k'', rq_field = Some ''password'',
     rq_value = Some [112], rq_sensitive = True, rq_extra = []\<rparr>"

definition example_hello :: hello_env where
  "example_hello = \<lparr>h_now = 5, h_uid = 1000, h_role = Clip, h_ppid = 42,
     h_closed = (\<lambda>c. False), h_parent_start = (\<lambda>p. Some 7)\<rparr>"

definition example_book :: book where
  "example_book = TicketBook_init\<lparr>tickets := [(''t'', make_ticket 0 example_request ''t'')]\<rparr>"

theorem redeem_sound_witness:
  "\<exists>t k. snd (redeem example_hello (Some ''t'') example_book) = Inr t \<and> Some ''t'' = Some k \<and>
     peek example_book k = Some t \<and> t_role t = Clip"
proof -
  have r: "snd (redeem example_hello (Some ''t'') example_book) =
      Inr (make_ticket 0 example_request ''t'')"
    by (simp add: redeem_def throttled_def ticket_refusal_def example_hello_def example_book_def
        TicketBook_init_def dget_def make_ticket_def example_request_def TICKET_TTL_S_def Let_def)
  from redeem_sound [OF r] r show ?thesis by (auto simp: example_hello_def)
qed

theorem throttled_refuses_witness:
  "snd (redeem example_hello (Some ''t'') (example_book\<lparr>bad := [(1000, [1, 2, 3, 4, 4.5])]\<rparr>)) =
     Inl Too_many_bad"
  by (rule throttled_refuses [where q = "[1, 2, 3, 4, 4.5]"])
    (simp_all add: example_hello_def dget_def BAD_TICKETS_PER_MIN_def)

theorem revoke_uid_exact_witness:
  "peek (fst (revoke_uid 1000 None example_book)) ''t'' = None"
proof -
  have "dict_ok (tickets example_book)" by (simp add: example_book_def dict_ok_def)
  from revoke_uid_exact [OF this, of 1000 "''t''"] show ?thesis
    by (simp add: example_book_def peek_def dget_def make_ticket_def example_request_def)
qed

end
