(* ===== verification/Polkit.thy ===== *)
theory Polkit
  imports Protocol
begin

text \<open>
  Asking polkit: \<^verbatim>\<open>backend/icp/daemon/polkit.py\<close>. The D-Bus exchange itself is outside;
  what is modelled is what the daemon makes of it: the text a dialog may show, the subject a
  check names, and the outcome a reply stands for.
\<close>

datatype outcome =
    AUTHORIZED | DISMISSED | DENIED | NO_AGENT | BUSY | CANCELLED | INTERNAL | DENIED_UNANSWERED

definition COUNTED :: "outcome list" where
  "COUNTED = [DISMISSED, DENIED]"

text \<open>The error code the registry raises for an outcome that is not an approval.\<close>

fun outcome_code :: "outcome \<Rightarrow> err_code option" where
  "outcome_code AUTHORIZED = None"
| "outcome_code DISMISSED = Some E_dismissed"
| "outcome_code DENIED = Some E_denied"
| "outcome_code NO_AGENT = Some E_no_agent"
| "outcome_code BUSY = Some E_busy"
| "outcome_code CANCELLED = Some E_cancelled"
| "outcome_code INTERNAL = Some E_internal"
| "outcome_code DENIED_UNANSWERED = None"

subsection \<open>Texts\<close>

definition STRIP_CATEGORIES :: "string list" where
  "STRIP_CATEGORIES = [''Cc'', ''Cf'', ''Cs'', ''Co'', ''Cn'', ''Zl'', ''Zp'']"

definition ELLIPSIS :: nat where
  "ELLIPSIS = 8230"

definition sanitize_char :: "unidb \<Rightarrow> nat \<Rightarrow> ustr" where
  "sanitize_char db ch =
     (if ucategory db ch \<in> set STRIP_CATEGORIES
      then (if ch \<in> {9, 10, 13, 11, 12, 8232, 8233, 133} then [32] else [])
      else if ucategory db ch = ''Zs'' then [32] else [ch])"

definition sanitize :: "unidb \<Rightarrow> ustr \<Rightarrow> ustr" where
  "sanitize db value =
     (let txt = join [32] (words (concat (map (sanitize_char db) value))) in
      if length txt > DETAIL_MAX_CHARS
      then rstripP py_isspace (take (DETAIL_MAX_CHARS - 1) txt) @ [ELLIPSIS]
      else txt)"

lemma set_rstripP: "c \<in> set (rstripP P s) \<Longrightarrow> c \<in> set s"
  by (auto simp: rstripP_def dest: set_dropWhileD)

lemma length_rstripP: "length (rstripP P s) \<le> length s"
  using length_dropWhile_le [of P "rev s"] by (simp add: rstripP_def)

lemma sanitize_char_ok:
  "c \<in> set (concat (map (sanitize_char db) v)) \<Longrightarrow>
   c = 32 \<or> (ucategory db c \<notin> set STRIP_CATEGORIES \<and> ucategory db c \<noteq> ''Zs'')"
  by (auto simp: sanitize_char_def split: if_splits)

text \<open>
  What a dialog can show. A details value is at most \<^verbatim>\<open>DETAIL_MAX_CHARS\<close> characters,
  and each of them is a plain space, the ellipsis of a cut, or a printable character: never a
  control, a format character such as a bidi override, a surrogate or a line separator.
\<close>

theorem sanitize_safe:
  "length (sanitize db v) \<le> DETAIL_MAX_CHARS \<and>
   list_all (\<lambda>c. c = 32 \<or> c = ELLIPSIS \<or>
      (ucategory db c \<notin> set STRIP_CATEGORIES \<and> ucategory db c \<noteq> ''Zs'')) (sanitize db v)"
proof -
  let ?txt = "join [32] (words (concat (map (sanitize_char db) v)))"
  have ok: "c = 32 \<or> (ucategory db c \<notin> set STRIP_CATEGORIES \<and> ucategory db c \<noteq> ''Zs'')"
    if "c \<in> set ?txt" for c
  proof -
    have "c = 32 \<or> (\<exists>w\<in>set (words (concat (map (sanitize_char db) v))). c \<in> set w)"
      using that set_join [of "[32]" "words (concat (map (sanitize_char db) v))"] by auto
    then show ?thesis using words_no_space sanitize_char_ok by blast
  qed
  have len: "length (rstripP py_isspace (take (DETAIL_MAX_CHARS - 1) ?txt)) \<le> DETAIL_MAX_CHARS - 1"
    by (rule order_trans [OF length_rstripP]) simp
  have mem: "c \<in> set ?txt \<or> c = ELLIPSIS" if "c \<in> set (sanitize db v)" for c
    using that by (auto simp: sanitize_def Let_def dest!: set_rstripP in_set_takeD split: if_splits)
  have "length (sanitize db v) \<le> DETAIL_MAX_CHARS"
    using len by (auto simp: sanitize_def Let_def DETAIL_MAX_CHARS_def)
  with ok mem show ?thesis by (auto simp: list_all_iff)
qed

subsection \<open>The subject of a check\<close>

datatype variant = V_uint32 int | V_uint64 int | V_handle int | V_int32 int

record subject =
  su_pid :: int
  su_pidfd :: int
  su_uid :: int
  su_start_time :: int

datatype subject_mode = SUBJECT_PIDFD | SUBJECT_PID_START_TIME

definition subject_mode_of :: "string option \<Rightarrow> subject_mode" where
  "subject_mode_of env = (if env = Some ''pid-start-time'' then SUBJECT_PID_START_TIME else SUBJECT_PIDFD)"

definition subject_struct :: "subject \<Rightarrow> subject_mode \<Rightarrow> string \<times> (string \<times> variant) list" where
  "subject_struct s mode =
     (if mode = SUBJECT_PID_START_TIME
      then (''unix-process'', [(''pid'', V_uint32 (su_pid s)),
             (''start-time'', V_uint64 (su_start_time s)), (''uid'', V_int32 (su_uid s))])
      else (''unix-process'', [(''pidfd'', V_handle (su_pidfd s)), (''uid'', V_int32 (su_uid s))]))"

subsection \<open>Classifying an answer\<close>

definition TRANSPORT_ERRORS :: "string list" where
  "TRANSPORT_ERRORS =
     [''transport'', ''org.freedesktop.DBus.Error.ServiceUnknown'',
      ''org.freedesktop.DBus.Error.NameHasNoOwner'',
      ''org.freedesktop.DBus.Error.NoReply'', ''org.freedesktop.DBus.Error.Timeout'',
      ''org.freedesktop.DBus.Error.TimedOut'', ''org.freedesktop.DBus.Error.Disconnected'',
      ''org.freedesktop.DBus.Error.NoServer'',
      ''org.freedesktop.DBus.Error.Spawn.ChildExited'']"

definition NOT_A_REPLY :: string where
  "NOT_A_REPLY = ''io.github.dragosol.pearpasswords.Error.NotAReply''"

record check_result =
  is_authorized :: bool
  is_challenge :: bool
  details :: "(string \<times> ustr) list"

datatype message_type = Method_return | Error_msg | Other_msg

text \<open>\<^verbatim>\<open>_unwrap\<close>: the error name, or the body of a method return.\<close>

definition unwrap ::
  "message_type \<Rightarrow> string option \<Rightarrow> 'b \<Rightarrow> string option \<times> 'b option" where
  "unwrap mt err_name body =
     (case mt of
        Error_msg \<Rightarrow> (Some (case err_name of None \<Rightarrow> ''error'' | Some n \<Rightarrow> n), Some body)
      | Other_msg \<Rightarrow> (Some NOT_A_REPLY, None)
      | Method_return \<Rightarrow> (None, Some body))"

definition dismissed_flag :: "check_result \<Rightarrow> bool" where
  "dismissed_flag r =
     (case map_of (details r) ''polkit.dismissed'' of
        None \<Rightarrow> False
      | Some v \<Rightarrow> ascii_lower v = ascii ''true'' \<or> ascii_lower v = ascii ''1'')"

definition classify :: "check_result \<Rightarrow> string option \<Rightarrow> real \<Rightarrow> bool \<Rightarrow> outcome" where
  "classify r err elapsed cancelled =
     (if cancelled then CANCELLED
      else (case err of
          Some e \<Rightarrow>
            if endswith e ''.Cancelled'' then BUSY
            else if e \<in> set TRANSPORT_ERRORS then NO_AGENT
            else INTERNAL
        | None \<Rightarrow>
            if is_authorized r then AUTHORIZED
            else if elapsed < NO_AGENT_FAST_FAIL_S \<and> is_challenge r
              then (if dismissed_flag r then BUSY else NO_AGENT)
            else if dismissed_flag r then DISMISSED
            else if is_challenge r then DENIED
            else DENIED_UNANSWERED))"

text \<open>
  No forged approval. Whatever message comes back, the outcome is an approval only for a
  method return whose body says so and whose check was not cancelled meanwhile; an error reply or
  a signal never is.
\<close>

theorem approval_only_from_reply:
  "classify r (fst (unwrap mt err_name b)) elapsed cancelled = AUTHORIZED \<longleftrightarrow>
     mt = Method_return \<and> is_authorized r \<and> \<not> cancelled"
  by (cases mt) (auto simp: classify_def unwrap_def)

end
