(* ===== verification/Wire.thy ===== *)
theory Wire
  imports Prelude Protocol "HOL-Library.List_Lexorder" "HOL-Library.Product_Lexorder"
    "HOL-Library.Multiset"
begin

text \<open>
  The list the window receives: \<^verbatim>\<open>backend/icp/daemon/wire.py\<close>, over the non-secret part of an
  entry, the class \<^verbatim>\<open>Meta\<close> of \<^verbatim>\<open>backend/icp/vstore/__init__.py\<close>. The rows are records; the
  private key \<^verbatim>\<open>_real_title\<close>, removed before the list leaves, is the option field \<open>real_title\<close>.
\<close>

record meta =
  m_id :: string
  title :: ustr
  domain :: ustr
  sites :: "ustr list"
  username :: ustr
  nickname :: ustr
  has_totp :: bool
  has_notes :: bool
  mdat :: real
  history_count :: int
  apple_title :: ustr
  aliases :: "ustr list"
  tags :: "ustr list"
  has_passkey :: bool
  m_kind :: string
  has_password :: bool
  recently_deleted :: bool

definition is_hex :: "nat \<Rightarrow> bool" where
  "is_hex c \<longleftrightarrow> (48 \<le> c \<and> c \<le> 57) \<or> (65 \<le> c \<and> c \<le> 70) \<or> (97 \<le> c \<and> c \<le> 102)"

definition is_digit :: "nat \<Rightarrow> bool" where
  "is_digit c \<longleftrightarrow> 48 \<le> c \<and> c \<le> 57"

text \<open>\<^verbatim>\<open>_UUIDISH.match\<close>: eight, four and four hex digits, each group followed by a hyphen.\<close>

definition UUIDISH :: "ustr \<Rightarrow> bool" where
  "UUIDISH s \<longleftrightarrow> length s \<ge> 19 \<and>
     list_all is_hex (take 8 s) \<and> s ! 8 = 45 \<and>
     list_all is_hex (take 4 (drop 9 s)) \<and> s ! 13 = 45 \<and>
     list_all is_hex (take 4 (drop 14 s)) \<and> s ! 18 = 45"

definition id_char :: "nat \<Rightarrow> bool" where
  "id_char c \<longleftrightarrow> (48 \<le> c \<and> c \<le> 57) \<or> (65 \<le> c \<and> c \<le> 90) \<or> (97 \<le> c \<and> c \<le> 122) \<or>
     c = 46 \<or> c = 95 \<or> c = 58 \<or> c = 45"

text \<open>
  \<^verbatim>\<open>ID_RE.match\<close> with a final \<^verbatim>\<open>$\<close>, which in Python also matches before one newline that
  ends the string.
\<close>

definition chop_newline :: "ustr \<Rightarrow> ustr" where
  "chop_newline s = (if s \<noteq> [] \<and> last s = 10 then butlast s else s)"

definition valid_id :: "json \<Rightarrow> bool" where
  "valid_id v =
     (case v of
        JStr s \<Rightarrow> (let b = chop_newline s in
          1 \<le> length b \<and> length b \<le> 128 \<and> list_all id_char b)
      | _ \<Rightarrow> False)"

subsection \<open>The display fields\<close>

record display =
  d_primary :: ustr
  d_secondary :: ustr
  d_no_site :: bool

definition paren :: "ustr \<Rightarrow> ustr" where
  "paren u = ascii ''('' @ u @ ascii '')''"

definition UNTITLED :: ustr where
  "UNTITLED = ascii ''(untitled)''"

text \<open>\<^verbatim>\<open>x or y\<close> on strings.\<close>

definition or_str :: "ustr \<Rightarrow> ustr \<Rightarrow> ustr" where
  "or_str a b = (if a \<noteq> [] then a else b)"

definition display :: "ustr \<Rightarrow> ustr \<Rightarrow> ustr \<Rightarrow> display" where
  "display ti us dm =
     (let t0 = strip ti; user = strip us; d = strip dm;
          t = (if user \<noteq> [] \<and> endswith t0 (paren user)
               then strip (take (length t0 - length (paren user)) t0) else t0) in
      if t = [] \<or> UUIDISH t
      then \<lparr>d_primary = or_str user (or_str d UNTITLED), d_secondary = [], d_no_site = True\<rparr>
      else \<lparr>d_primary = t, d_secondary = user, d_no_site = False\<rparr>)"

definition visible :: "meta \<Rightarrow> features \<Rightarrow> bool" where
  "visible m f =
     (if recently_deleted m \<and> \<not> apple_deleted f then False
      else if m_kind m = ''passkey'' \<and> \<not> passkeys f then False
      else True)"

record wire_entry =
  e_id :: string
  e_title :: ustr
  e_domain :: ustr
  e_sites :: "ustr list"
  e_username :: ustr
  e_nickname :: ustr
  e_apple_title :: ustr
  e_aliases :: "ustr list"
  e_has_totp :: bool
  e_has_notes :: bool
  e_mdat :: real
  e_history_count :: int
  primary :: ustr
  secondary :: ustr
  no_site :: bool
  is_wifi :: bool
  ambiguous :: bool
  e_tags :: "ustr list"
  e_has_passkey :: bool
  e_kind :: string
  e_has_password :: bool
  e_recently_deleted :: bool
  real_title :: "ustr option"

definition meta_to_wire :: "meta \<Rightarrow> features \<Rightarrow> wire_entry" where
  "meta_to_wire m f =
     (let d = display (title m) (username m) (domain m);
          local = strip (nickname m);
          apple = strip (apple_title m);
          name = or_str local apple;
          sec = (if d_no_site d \<and> name \<noteq> [] \<and> username m \<noteq> [] \<and> d_secondary d = []
                 then username m else d_secondary d) in
      \<lparr>e_id = m_id m, e_title = title m, e_domain = domain m, e_sites = sites m,
       e_username = username m, e_nickname = nickname m, e_apple_title = apple,
       e_aliases = aliases m, e_has_totp = has_totp m, e_has_notes = has_notes m,
       e_mdat = mdat m, e_history_count = history_count m,
       primary = or_str name (d_primary d), secondary = sec, no_site = d_no_site d,
       is_wifi = (domain m = ascii ''AirPort''), ambiguous = False, e_tags = tags m,
       e_has_passkey = (has_passkey m \<and> passkeys f),
       e_kind = (if m_kind m = ''passkey'' then ''passkey'' else ''login''),
       e_has_password = has_password m, e_recently_deleted = recently_deleted m,
       real_title = Some (d_primary d)\<rparr>)"

datatype internal_rule =
    Apple_service_account | Chip_plugin | Apple_private | Long_username | Numeric_id
  | No_site_no_name

definition long_number :: "ustr \<Rightarrow> bool" where
  "long_number s \<longleftrightarrow> 6 \<le> length s \<and> list_all is_digit s"

definition internal_reason :: "wire_entry \<Rightarrow> internal_rule option" where
  "internal_reason e =
     (let user = e_username e; dm = e_domain e;
          ti = (case real_title e of None \<Rightarrow> [] | Some t \<Rightarrow> t);
          real_site = (dm = ascii ''AirPort'' \<or> (contains dm (ascii ''.'') \<and> \<not> UUIDISH dm)) in
      if strip (e_apple_title e) \<noteq> [] \<or> strip (e_nickname e) \<noteq> [] \<or> e_tags e \<noteq> [] then None
      else if startswith user (ascii ''PCSBoundaryKey'') \<or> startswith user (ascii ''com.apple.'')
        then Some Apple_service_account
      else if contains user (ascii ''CHIPPlugin'') \<or> contains ti (ascii ''CHIPPlugin'')
        then Some Chip_plugin
      else if startswith user (ascii ''_Apple'') \<or> startswith ti (ascii ''_Apple'')
        then Some Apple_private
      else if real_site then None
      else if length user > 60 then Some Long_username
      else if long_number user \<or> long_number ti then Some Numeric_id
      else if dm = [] \<and> primary e = [] then Some No_site_no_name
      else None)"

definition is_internal :: "wire_entry \<Rightarrow> bool" where
  "is_internal e \<longleftrightarrow> internal_reason e \<noteq> None"

subsection \<open>The sorted list\<close>

definition row_key :: "unidb \<Rightarrow> wire_entry \<Rightarrow> ustr \<times> ustr" where
  "row_key db e = (ulower db (primary e), ulower db (secondary e))"

definition row_name :: "wire_entry \<Rightarrow> ustr \<times> ustr" where
  "row_name e = (primary e, secondary e)"

text \<open>\<^verbatim>\<open>seen\<close>: how often each pair of display lines occurs.\<close>

definition seen :: "wire_entry list \<Rightarrow> ustr \<times> ustr \<Rightarrow> nat" where
  "seen out k = length (filter (\<lambda>e. row_name e = k) out)"

definition mark :: "wire_entry list \<Rightarrow> wire_entry \<Rightarrow> wire_entry" where
  "mark out e = e\<lparr>ambiguous := (seen out (row_name e) > 1), real_title := None\<rparr>"

definition shown :: "meta list \<Rightarrow> bool \<Rightarrow> features \<Rightarrow> wire_entry list" where
  "shown ms show_all f =
     filter (\<lambda>e. show_all \<or> \<not> is_internal e)
       (map (\<lambda>m. meta_to_wire m f) (filter (\<lambda>m. visible m f) ms))"

definition entries :: "unidb \<Rightarrow> meta list \<Rightarrow> bool \<Rightarrow> features \<Rightarrow> wire_entry list" where
  "entries db ms show_all f =
     (let out = sort_key (row_key db) (shown ms show_all f) in map (mark out) out)"

text \<open>\<^verbatim>\<open>account_label\<close>, for the dialog's text.\<close>

definition EM_DASH :: nat where
  "EM_DASH = 8212"

definition account_label :: "meta \<Rightarrow> ustr" where
  "account_label m =
     (let d = display (title m) (username m) (domain m);
          name = or_str (strip (nickname m)) (or_str (strip (apple_title m))
            (or_str (if d_no_site d then [] else d_primary d) (strip (domain m))));
          user = strip (username m) in
      if name \<noteq> [] \<and> user \<noteq> [] \<and> name \<noteq> user
      then name @ [32, EM_DASH, 32] @ user
      else or_str name (or_str user UNTITLED))"

subsection \<open>What the list shows\<close>

definition listed :: "bool \<Rightarrow> features \<Rightarrow> meta \<Rightarrow> bool" where
  "listed show_all f m \<longleftrightarrow> visible m f \<and> (show_all \<or> \<not> is_internal (meta_to_wire m f))"

lemma row_key_mark [simp]: "row_key db (mark out e) = row_key db e"
  by (simp add: row_key_def mark_def)

lemma e_id_mark [simp]: "e_id (mark out e) = e_id e" "row_name (mark out e) = row_name e"
  "real_title (mark out e) = None" "ambiguous (mark out e) = (seen out (row_name e) > 1)"
  by (simp_all add: mark_def row_name_def)

lemma e_id_meta_to_wire [simp]: "e_id (meta_to_wire m f) = m_id m"
  by (simp add: meta_to_wire_def Let_def)

lemma or_str_ne [simp]: "or_str a b \<noteq> [] \<longleftrightarrow> a \<noteq> [] \<or> b \<noteq> []"
  by (simp add: or_str_def)

lemma display_primary_ne [simp]: "d_primary (display t u d) \<noteq> []"
  by (simp add: display_def Let_def UNTITLED_def or_str_def)

lemma meta_to_wire_primary_ne [simp]: "primary (meta_to_wire m f) \<noteq> []"
  by (simp add: meta_to_wire_def Let_def or_str_def)

lemma seen_map_mark [simp]: "seen (map (mark out) xs) k = seen xs k"
  by (simp add: seen_def filter_map comp_def)

lemma shown_ids:
  "map e_id (shown ms show_all f) =
     map m_id (filter (listed show_all f) ms)"
  by (simp add: shown_def filter_map comp_def conj_commute listed_def [abs_def])

text \<open>
  The window's list. The rows are the visible metas, internal records left out unless asked
  for, each exactly once; they are in the order of their lower-cased display lines; no row
  carries its private title; and a row is flagged ambiguous exactly when another row shows the
  same two lines.
\<close>

theorem entries_exact:
  "mset (map e_id (entries db ms show_all f)) =
     mset (map m_id (filter (listed show_all f) ms)) \<and>
   sorted (map (row_key db) (entries db ms show_all f)) \<and>
   list_all (\<lambda>e. real_title e = None \<and>
      (ambiguous e \<longleftrightarrow> seen (entries db ms show_all f) (row_name e) > 1)) (entries db ms show_all f)"
proof -
  let ?out = "sort_key (row_key db) (shown ms show_all f)"
  have e: "entries db ms show_all f = map (mark ?out) ?out"
    by (simp add: entries_def Let_def)
  have "mset (map e_id (entries db ms show_all f)) = mset (map e_id (shown ms show_all f))"
    by (simp add: e comp_def mset_map [symmetric] del: mset_map) (simp add: mset_map)
  moreover have "sorted (map (row_key db) (entries db ms show_all f))"
    by (simp add: e comp_def)
  moreover have "list_all (\<lambda>x. real_title x = None \<and>
      (ambiguous x \<longleftrightarrow> seen (entries db ms show_all f) (row_name x) > 1)) (entries db ms show_all f)"
    by (simp add: e list_all_iff)
  ultimately show ?thesis by (simp add: shown_ids)
qed

text \<open>
  What a person named is never hidden. An entry with a Passwords-app title, a nickname or
  tags is in the list whenever its category is on, whatever its username or site look like.
\<close>

theorem named_never_internal:
  assumes "strip (nickname m) \<noteq> [] \<or> strip (strip (apple_title m)) \<noteq> [] \<or> tags m \<noteq> []"
    and "m \<in> set ms" and "visible m f"
  shows "m_id m \<in> e_id ` set (entries db ms show_all f)"
proof -
  have "\<not> is_internal (meta_to_wire m f)"
    using assms(1) by (auto simp: is_internal_def internal_reason_def meta_to_wire_def Let_def)
  with assms(2,3) have "m_id m \<in> set (map e_id (shown ms show_all f))"
    unfolding shown_ids by (auto simp: listed_def)
  then show ?thesis by (auto simp: entries_def Let_def image_image)
qed

definition example_meta :: meta where
  "example_meta = \<lparr>m_id = ''a1'', title = [], domain = [], sites = [],
     username = replicate 70 65, nickname = [77, 97, 105, 108], has_totp = False,
     has_notes = False, mdat = 0, history_count = 0, apple_title = [], aliases = [], tags = [],
     has_passkey = False, m_kind = ''login'', has_password = True, recently_deleted = False\<rparr>"

theorem named_never_internal_witness:
  "''a1'' \<in> e_id ` set (entries ascii_db [example_meta] False DEFAULT_FEATURES)"
  using named_never_internal [of example_meta "[example_meta]" DEFAULT_FEATURES ascii_db False]
  by (simp add: example_meta_def visible_def DEFAULT_FEATURES_def stripP_def rstripP_def
      lstripP_def py_isspace_def)

text \<open>
  The identifier check lets one trailing newline through: \<^verbatim>\<open>$\<close> is not the end of the string.
\<close>

lemma valid_id_accepts_newline: "valid_id (JStr [97, 10])"
  by (simp add: valid_id_def chop_newline_def id_char_def)

lemma valid_id_chars: "valid_id (JStr s) \<Longrightarrow> c \<in> set s \<Longrightarrow> id_char c \<or> c = 10"
  by (cases s rule: rev_cases)
    (auto simp: valid_id_def chop_newline_def Let_def list_all_iff split: if_splits)

end
