(* ===== verification/Ids.thy ===== *)
theory Ids
  imports Prelude Wire
begin

text \<open>
  Entry identifiers: \<^verbatim>\<open>backend/icp/vstore/ids.py\<close>. The pair is serialised as a JSON array and
  encoded in UTF-8 exactly as the code does; SHA-256 itself is a parameter.
\<close>

subsection \<open>Serialising\<close>

text \<open>\<^verbatim>\<open>json.dumps(s, ensure_ascii=False)\<close> on one character of a string.\<close>

definition hexd :: "nat \<Rightarrow> nat" where
  "hexd n = (if n < 10 then 48 + n else 87 + n)"

definition json_char :: "nat \<Rightarrow> ustr" where
  "json_char c =
     (if c = 34 then [92, 34] else if c = 92 then [92, 92]
      else if c = 8 then [92, 98] else if c = 12 then [92, 102] else if c = 10 then [92, 110]
      else if c = 13 then [92, 114] else if c = 9 then [92, 116]
      else if c < 32 then [92, 117, 48, 48, hexd (c div 16), hexd (c mod 16)]
      else [c])"

definition json_str :: "ustr \<Rightarrow> ustr" where
  "json_str s = [34] @ concat (map json_char s) @ [34]"

definition json_array :: "ustr list \<Rightarrow> ustr" where
  "json_array ps = [91] @ join [44] (map json_str ps) @ [93]"

text \<open>UTF-8 with \<^verbatim>\<open>surrogatepass\<close>: surrogates are encoded like any other code point.\<close>

definition utf8_char :: "nat \<Rightarrow> nat list" where
  "utf8_char c =
     (if c < 128 then [c]
      else if c < 2048 then [192 + c div 64, 128 + c mod 64]
      else if c < 65536 then [224 + c div 4096, 128 + c div 64 mod 64, 128 + c mod 64]
      else [240 + c div 262144, 128 + c div 4096 mod 64, 128 + c div 64 mod 64, 128 + c mod 64])"

definition utf8 :: "ustr \<Rightarrow> nat list" where
  "utf8 s = concat (map utf8_char s)"

subsection \<open>Identifiers\<close>

definition ID_PREFIX :: string where
  "ID_PREFIX = ''k1-''"

definition HEX_CHARS :: nat where
  "HEX_CHARS = 40"

definition RECENTLY_DELETED :: ustr where
  "RECENTLY_DELETED = ascii ''rd:''"

definition id_parts :: "ustr \<Rightarrow> ustr \<Rightarrow> ustr \<Rightarrow> ustr list" where
  "id_parts dm us salt = (if salt \<noteq> [] then [salt, dm, us] else [dm, us])"

definition id_preimage :: "ustr \<Rightarrow> ustr \<Rightarrow> ustr \<Rightarrow> nat list" where
  "id_preimage dm us salt =
     ascii ''pear/v2/entry'' @ [0] @ utf8 (json_array (id_parts dm us salt))"

definition entry_id :: "(nat list \<Rightarrow> string) \<Rightarrow> ustr \<Rightarrow> ustr \<Rightarrow> ustr \<Rightarrow> string" where
  "entry_id sha256_hex dm us salt = ID_PREFIX @ take HEX_CHARS (sha256_hex (id_preimage dm us salt))"

text \<open>\<^verbatim>\<open>valid_id\<close> and \<^verbatim>\<open>check_id\<close> of the store; the first character is not a dot.\<close>

definition store_valid_id :: "json \<Rightarrow> bool" where
  "store_valid_id v = (valid_id v \<and> (case v of JStr (c # s) \<Rightarrow> c \<noteq> 46 | _ \<Rightarrow> False))"

definition check_id :: "json \<Rightarrow> string + json" where
  "check_id v = (if store_valid_id v then Inr v else Inl ''bad entry id'')"

subsection \<open>One item per id\<close>

fun collapse_loop ::
  "('t \<Rightarrow> string) \<Rightarrow> ('t \<Rightarrow> real) \<Rightarrow> 't list \<Rightarrow> (string \<times> 't) list \<Rightarrow> (string \<times> 't) list \<Rightarrow>
   (string \<times> 't) list \<times> (string \<times> 't) list" where
  "collapse_loop key md [] kept dropped = (kept, dropped)"
| "collapse_loop key md (it # its) kept dropped =
     (let k = key it in
      case dget kept k of
        None \<Rightarrow> collapse_loop key md its (dset k it kept) dropped
      | Some prev \<Rightarrow>
          if md it > md prev
          then collapse_loop key md its (dset k it kept) (dropped @ [(k, prev)])
          else collapse_loop key md its kept (dropped @ [(k, it)]))"

definition collapse ::
  "('t \<Rightarrow> string) \<Rightarrow> ('t \<Rightarrow> real) \<Rightarrow> 't list \<Rightarrow> (string \<times> 't) list \<times> (string \<times> 't) list" where
  "collapse key md its = collapse_loop key md its [] []"

subsection \<open>The serialisation is injective\<close>

text \<open>Readers that undo one character, the means of the proof.\<close>

definition unhexd :: "nat \<Rightarrow> nat" where
  "unhexd d = (if d < 58 then d - 48 else d - 87)"

fun unescape :: "ustr \<Rightarrow> nat \<times> ustr" where
  "unescape (e # r) =
     (if e = 98 then (8, r) else if e = 102 then (12, r) else if e = 110 then (10, r)
      else if e = 114 then (13, r) else if e = 116 then (9, r)
      else if e = 117 then
        (case r of a # b # x # y # r' \<Rightarrow> (unhexd x * 16 + unhexd y, r') | _ \<Rightarrow> (0, []))
      else (e, r))"
| "unescape [] = (0, [])"

fun unjson :: "ustr \<Rightarrow> nat \<times> ustr" where
  "unjson (c # r) = (if c = 92 then unescape r else (c, r))"
| "unjson [] = (0, [])"

lemma unhexd_hexd [simp]: "n < 16 \<Longrightarrow> unhexd (hexd n) = n"
  by (simp add: unhexd_def hexd_def)

lemma unjson_json_char: "unjson (json_char c @ r) = (c, r)"
proof -
  have "c div 16 < 16" if "c < 32" using that by (simp add: div_less_iff_less_mult)
  then show ?thesis by (simp add: json_char_def)
qed

lemma json_char_inj: "json_char c @ r = json_char c' @ r' \<Longrightarrow> c = c' \<and> r = r'"
  by (metis unjson_json_char prod.inject)

lemma json_char_quote: "34 # r \<noteq> json_char c @ r'" "json_char c @ r' \<noteq> 34 # r"
  by (auto simp: json_char_def)

lemma json_char_ne [simp]: "json_char c \<noteq> []"
  by (simp add: json_char_def)

lemma json_body_inj:
  "concat (map json_char s) @ 34 # r = concat (map json_char t) @ 34 # r' \<Longrightarrow> s = t \<and> r = r'"
proof (induction s arbitrary: t)
  case Nil
  then show ?case
    by (cases t) (simp_all add: json_char_quote)
next
  case (Cons c s)
  show ?case
  proof (cases t)
    case Nil
    with Cons.prems show ?thesis by (simp add: json_char_quote)
  next
    case (Cons c' t')
    with Cons.prems have "json_char c @ (concat (map json_char s) @ 34 # r) =
        json_char c' @ (concat (map json_char t') @ 34 # r')" by simp
    from json_char_inj [OF this] Cons.IH [of t'] Cons show ?thesis by simp
  qed
qed

lemma json_str_inj: "json_str s @ r = json_str t @ r' \<Longrightarrow> s = t \<and> r = r'"
  using json_body_inj [of s r t r'] by (simp add: json_str_def)

lemma json_tail_inj:
  "concat (map (\<lambda>p. 44 # json_str p) ps) @ [93] = concat (map (\<lambda>p. 44 # json_str p) qs) @ [93] \<Longrightarrow>
   ps = qs"
proof (induction ps arbitrary: qs)
  case Nil
  then show ?case by (cases qs) auto
next
  case (Cons p ps)
  then obtain q qs' where q: "qs = q # qs'" by (cases qs) auto
  with Cons.prems have "json_str p @ (concat (map (\<lambda>p. 44 # json_str p) ps) @ [93]) =
      json_str q @ (concat (map (\<lambda>p. 44 # json_str p) qs') @ [93])" by simp
  from json_str_inj [OF this] Cons.IH [of qs'] q show ?case by simp
qed

lemma join_json: "join [44] (map json_str (p # ps)) = json_str p @ concat (map (\<lambda>p. 44 # json_str p) ps)"
  by (induction ps arbitrary: p) simp_all

lemma json_array_inj: "json_array (p # ps) = json_array (q # qs) \<Longrightarrow> p # ps = q # qs"
  using json_str_inj [of p "concat (map (\<lambda>p. 44 # json_str p) ps) @ [93]" q
      "concat (map (\<lambda>p. 44 # json_str p) qs) @ [93]"] json_tail_inj [of ps qs]
  by (simp only: json_array_def join_json append_assoc same_append_eq)

definition unutf8 :: "nat list \<Rightarrow> nat" where
  "unutf8 bs =
     (if hd bs < 128 then hd bs
      else if hd bs < 224 then (hd bs - 192) * 64 + (bs ! 1 - 128)
      else if hd bs < 240 then (hd bs - 224) * 4096 + (bs ! 1 - 128) * 64 + (bs ! 2 - 128)
      else (hd bs - 240) * 262144 + (bs ! 1 - 128) * 4096 + (bs ! 2 - 128) * 64 + (bs ! 3 - 128))"

lemma div_mod_4096: "(c::nat) div 4096 * 4096 + c div 64 mod 64 * 64 + c mod 64 = c"
proof -
  have "c div 4096 = c div 64 div 64" by (simp add: div_mult2_eq [symmetric])
  then show ?thesis using div_mult_mod_eq [of "c div 64" 64] div_mult_mod_eq [of c 64] by linarith
qed

lemma div_mod_262144:
  "(c::nat) div 262144 * 262144 + c div 4096 mod 64 * 4096 + c div 64 mod 64 * 64 + c mod 64 = c"
proof -
  have "c div 262144 = c div 4096 div 64" by (simp add: div_mult2_eq [symmetric])
  then show ?thesis
    using div_mult_mod_eq [of "c div 4096" 64] div_mod_4096 [of c] by linarith
qed

lemma unutf8_char: "unutf8 (utf8_char c @ r) = c"
proof -
  consider "c < 128" | "128 \<le> c" "c < 2048" | "2048 \<le> c" "c < 65536" | "65536 \<le> c" by linarith
  then show ?thesis
  proof cases
    case 2
    then have "c div 64 < 32" by (simp add: div_less_iff_less_mult)
    with 2 show ?thesis by (simp add: unutf8_def utf8_char_def)
  next
    case 3
    then have "c div 4096 < 16" by (simp add: div_less_iff_less_mult)
    with 3 show ?thesis by (simp add: unutf8_def utf8_char_def div_mod_4096)
  next
    case 4
    then show ?thesis by (simp add: unutf8_def utf8_char_def div_mod_262144)
  qed (simp add: unutf8_def utf8_char_def)
qed

lemma utf8_char_inj: "utf8_char c @ r = utf8_char c' @ r' \<Longrightarrow> c = c' \<and> r = r'"
  using unutf8_char [of c r] unutf8_char [of c' r'] by simp

lemma utf8_char_ne [simp]: "utf8_char c \<noteq> []"
  by (simp add: utf8_char_def)

lemma utf8_inj: "utf8 s = utf8 t \<Longrightarrow> s = t"
proof (induction s arbitrary: t)
  case Nil
  then show ?case by (cases t) (auto simp: utf8_def)
next
  case (Cons c s)
  then obtain c' t' where t: "t = c' # t'" by (cases t) (auto simp: utf8_def)
  from Cons.prems t have "utf8_char c @ utf8 s = utf8_char c' @ utf8 t'"
    by (simp add: utf8_def)
  from utf8_char_inj [OF this] Cons.IH [of t'] t show ?case by simp
qed

text \<open>
  Two accounts never share a hash input. The bytes an identifier is the hash of determine
  the domain, the username and the salt: no choice of them, separators and control characters
  included, collides with another, and a salted identifier never with an unsalted one.
\<close>

theorem id_preimage_injective:
  "id_preimage dm us salt = id_preimage dm' us' salt' \<longleftrightarrow> dm = dm' \<and> us = us' \<and> salt = salt'"
proof
  assume "id_preimage dm us salt = id_preimage dm' us' salt'"
  then have "json_array (id_parts dm us salt) = json_array (id_parts dm' us' salt')"
    by (simp add: id_preimage_def utf8_inj)
  then have "id_parts dm us salt = id_parts dm' us' salt'"
    unfolding id_parts_def
    using json_array_inj [of salt "[dm, us]" salt' "[dm', us']"] json_array_inj [of dm "[us]" dm' "[us']"]
      json_array_inj [of salt "[dm, us]" dm' "[us']"] json_array_inj [of dm "[us]" salt' "[dm', us']"]
    by (auto simp del: append_Cons split: if_splits)
  then show "dm = dm' \<and> us = us' \<and> salt = salt'"
    by (auto simp: id_parts_def split: if_splits)
qed simp

subsection \<open>Collapsing keeps everything and the newest\<close>

lemma mset_dset_new: "dict_ok d \<Longrightarrow> dget d k = None \<Longrightarrow> mset (dset k v d) = add_mset (k, v) (mset d)"
  by (induction d) (auto simp: dict_ok_def dget_def dset_def split: if_splits)

lemma mset_dset_old:
  "dict_ok d \<Longrightarrow> dget d k = Some w \<Longrightarrow>
   add_mset (k, w) (mset (dset k v d)) = add_mset (k, v) (mset d)"
  by (induction d) (auto simp: dict_ok_def dget_def dset_def split: if_splits)

lemma collapse_loop_mset:
  "dict_ok kept \<Longrightarrow> collapse_loop key md its kept dropped = (k', d') \<Longrightarrow>
   mset k' + mset d' = mset kept + mset dropped + mset (map (\<lambda>x. (key x, x)) its) \<and> dict_ok k'"
proof (induction key md its kept dropped rule: collapse_loop.induct)
  case (2 key md it its kept dropped)
  then show ?case
    using mset_dset_new [of kept "key it" it] mset_dset_old [of kept "key it" _ it]
    by (fastforce simp: Let_def split: option.splits if_splits)
qed simp

lemma collapse_loop_newest:
  assumes "collapse_loop key md its kept dropped = (k', d')"
    and "\<forall>(k, y) \<in> set dropped. \<exists>x. dget kept k = Some x \<and> md y \<le> md x"
  shows "\<forall>(k, y) \<in> set d'. \<exists>x. dget k' k = Some x \<and> md y \<le> md x"
  using assms
proof (induction key md its kept dropped rule: collapse_loop.induct)
  case (2 key md it its kept dropped)
  show ?case
  proof (cases "dget kept (key it)")
    case None
    with 2(4,5) show ?thesis
      by (intro 2(1) [OF refl None]) (fastforce simp: Let_def)+
  next
    case (Some prev)
    show ?thesis
    proof (cases "md it > md prev")
      case True
      with Some 2(4,5) show ?thesis
        by (intro 2(2) [OF refl Some True]) (fastforce simp: Let_def)+
    next
      case False
      with Some 2(4,5) show ?thesis
        by (intro 2(3) [OF refl Some False]) (fastforce simp: Let_def)+
    qed
  qed
qed simp

text \<open>
  A batch loses nothing. Collapsing a batch splits it, as a multiset, into one kept item per
  id and the dropped ones, each filed under its own id; no dropped item is newer than the kept
  one of its id.
\<close>

theorem collapse_partition:
  "mset (fst (collapse key md its)) + mset (snd (collapse key md its)) =
     mset (map (\<lambda>x. (key x, x)) its) \<and>
   distinct (map fst (fst (collapse key md its))) \<and>
   list_all (\<lambda>(k, y). case dget (fst (collapse key md its)) k of None \<Rightarrow> False | Some x \<Rightarrow> md y \<le> md x)
     (snd (collapse key md its))"
proof -
  obtain k d where c: "collapse_loop key md its [] [] = (k, d)" by fastforce
  from collapse_loop_mset [OF _ c] have "mset k + mset d = mset (map (\<lambda>x. (key x, x)) its)" "dict_ok k"
    by simp_all
  moreover have "list_all (\<lambda>(i, y). case dget k i of None \<Rightarrow> False | Some x \<Rightarrow> md y \<le> md x) d"
    using collapse_loop_newest [OF c] by (fastforce simp: list_all_iff)
  ultimately show ?thesis by (simp add: collapse_def c dict_ok_def)
qed

end
