(* ===== verification/Totp.thy ===== *)
theory Totp
  imports Prelude Codec Wire
begin

text \<open>
  Verification codes: \<^verbatim>\<open>backend/icp/totp.py\<close>. HMAC is a parameter, from the algorithm number,
  key and message to the digest; the clock is an argument, a real number where the code has a
  float. What \<^verbatim>\<open>urllib\<close>, \<^verbatim>\<open>int\<close> and \<^verbatim>\<open>str.upper\<close> answer about the text of a setup
  link is the record \<open>stdlib\<close>.
\<close>

definition DEFAULT_PERIOD :: int where "DEFAULT_PERIOD = 30"
definition DEFAULT_DIGITS :: nat where "DEFAULT_DIGITS = 6"

subsection \<open>Base 32\<close>

text \<open>\<^verbatim>\<open>base64.b32decode\<close>: the value of a letter, eight letters to five bytes.\<close>

definition b32_value :: "nat \<Rightarrow> nat option" where
  "b32_value c =
     (if 65 \<le> c \<and> c \<le> 90 then Some (c - 65)
      else if 50 \<le> c \<and> c \<le> 55 then Some (c - 24)
      else None)"

fun b32_acc :: "ustr \<Rightarrow> nat \<Rightarrow> nat option" where
  "b32_acc [] acc = Some acc"
| "b32_acc (c # cs) acc =
     (case b32_value c of None \<Rightarrow> None | Some v \<Rightarrow> b32_acc cs (acc * 32 + v))"

definition be_bytes :: "nat \<Rightarrow> nat \<Rightarrow> bytes" where
  "be_bytes n v = map (\<lambda>i. word_of_nat (v div 256 ^ (n - Suc i))) [0..<n]"

text \<open>The whole quanta; the last one may be short, then it stands for its leftover bytes.\<close>

function b32_quanta :: "ustr \<Rightarrow> bytes option" where
  "b32_quanta s =
     (if s = [] then Some []
      else (case b32_acc (take 8 s) 0 of
          None \<Rightarrow> None
        | Some acc \<Rightarrow>
            if length s < 8
            then (let pad = 8 - length s in
                  Some (take ((43 - 5 * pad) div 8) (be_bytes 5 (acc * 32 ^ pad))))
            else map_option (\<lambda>r. be_bytes 5 acc @ r) (b32_quanta (drop 8 s))))"
  by pat_completeness auto
termination by (relation "measure length") auto

declare b32_quanta.simps [simp del]

text \<open>\<^verbatim>\<open>b32decode(s + "=" * (-len(s) % 8))\<close> for a text without trailing padding.\<close>

definition b32decode_padded :: "ustr \<Rightarrow> bytes option" where
  "b32decode_padded s =
     (if (8 - length s mod 8) mod 8 \<notin> {0, 1, 3, 4, 6} then None else b32_quanta s)"

subsection \<open>The code\<close>

datatype totp_key = Key_bytes bytes | Key_text ustr

record stdlib =
  upper :: "ustr \<Rightarrow> ustr"
  to_int :: "ustr \<Rightarrow> int option"
  utf8_encode :: "ustr \<Rightarrow> bytes"
  url_netloc :: "ustr \<Rightarrow> ustr"
  url_label :: "ustr \<Rightarrow> ustr"
  url_query :: "ustr \<Rightarrow> (ustr \<times> ustr) list"
  py_lower :: "ustr \<Rightarrow> ustr"

definition key_bytes :: "stdlib \<Rightarrow> totp_key \<Rightarrow> bytes" where
  "key_bytes L secret =
     (case secret of
        Key_bytes b \<Rightarrow> b
      | Key_text t \<Rightarrow>
          (case b32decode_padded (upper L (rstripP (\<lambda>c. c = 61) (strip t))) of
             Some b \<Rightarrow> b
           | None \<Rightarrow> utf8_encode L t))"

definition counter_of :: "int \<Rightarrow> real \<Rightarrow> int" where
  "counter_of period at_time = \<lfloor>at_time / of_int period\<rfloor>"

text \<open>\<^verbatim>\<open>str\<close> of a natural number and \<^verbatim>\<open>zfill\<close>.\<close>

fun dec :: "nat \<Rightarrow> ustr" where
  "dec n = (if n < 10 then [48 + n] else dec (n div 10) @ [48 + n mod 10])"

declare dec.simps [simp del]

definition zfill :: "nat \<Rightarrow> ustr \<Rightarrow> ustr" where
  "zfill w s = replicate (w - length s) 48 @ s"

text \<open>\<^verbatim>\<open>struct.unpack(">I", ...)[0] & 0x7FFFFFFF\<close> of the four bytes at the offset.\<close>

definition dynamic_truncate :: "bytes \<Rightarrow> nat option" where
  "dynamic_truncate mac =
     (if mac = [] then None
      else (let off = unat (last mac) mod 16; four = take 4 (drop off mac) in
        if length four \<noteq> 4 then None
        else Some ((((unat (four ! 0) * 256 + unat (four ! 1)) * 256 + unat (four ! 2)) * 256
                   + unat (four ! 3)) mod 2 ^ 31)))"

definition algorithm_of :: "int \<Rightarrow> int" where
  "algorithm_of a = (if a \<in> {0, 1, 2} then a else 0)"

text \<open>\<open>None\<close> is the \<^verbatim>\<open>struct.error\<close> of a counter that does not fit eight bytes.\<close>

definition code ::
  "stdlib \<Rightarrow> (int \<Rightarrow> bytes \<Rightarrow> bytes \<Rightarrow> bytes) \<Rightarrow> totp_key \<Rightarrow> nat \<Rightarrow> int \<Rightarrow> int \<Rightarrow> real \<Rightarrow> ustr option" where
  "code L hmac secret digits period alg at_time =
     (let per = (if period = 0 then DEFAULT_PERIOD else period);
          dig = (if digits = 0 then DEFAULT_DIGITS else digits);
          ctr = counter_of per at_time in
      if ctr < 0 \<or> ctr \<ge> 2 ^ 64 then None
      else map_option (\<lambda>v. zfill dig (dec (v mod 10 ^ dig)))
        (dynamic_truncate (hmac (algorithm_of alg) (key_bytes L secret) (be_bytes 8 (nat ctr)))))"

definition fmod :: "real \<Rightarrow> int \<Rightarrow> real" where
  "fmod x p = x - of_int p * of_int \<lfloor>x / of_int p\<rfloor>"

definition seconds_remaining :: "int \<Rightarrow> real \<Rightarrow> int" where
  "seconds_remaining period now0 =
     (let per = (if period = 0 then DEFAULT_PERIOD else period);
          r = \<lceil>of_int per - fmod now0 per\<rceil> in
      if r = 0 then per else r)"

subsection \<open>Setup texts\<close>

datatype setup_error =
    Empty_setup | Not_totp | Not_a_number | Bad_algorithm | Not_a_key | Not_base32 | Too_short
  | Unusual

record totp_cfg =
  cfg_secret :: bytes
  cfg_digits :: int
  cfg_period :: int
  cfg_algorithm :: int
  cfg_issuer :: ustr
  cfg_account :: ustr
  cfg_url :: "ustr option"

definition qget :: "(ustr \<times> ustr) list \<Rightarrow> string \<Rightarrow> ustr option" where
  "qget q k = dget q (ascii k)"

definition alg_number :: "ustr \<Rightarrow> int option" where
  "alg_number n =
     (if n = ascii ''SHA1'' then Some 0 else if n = ascii ''SHA256'' then Some 1
      else if n = ascii ''SHA512'' then Some 2 else None)"

text \<open>\<^verbatim>\<open>issuer, _, account = label.partition(":") if ":" in label else ("", "", label)\<close>.\<close>

definition split_label :: "ustr \<Rightarrow> ustr \<times> ustr" where
  "split_label l =
     (if 58 \<in> set l then (takeWhile (\<lambda>c. c \<noteq> 58) l, tl (dropWhile (\<lambda>c. c \<noteq> 58) l)) else ([], l))"

definition link_cfg :: "stdlib \<Rightarrow> ustr \<Rightarrow> setup_error + ustr \<times> totp_cfg" where
  "link_cfg L raw =
     (if py_lower L (url_netloc L raw) \<noteq> ascii ''totp'' then Inl Not_totp
      else (let q = url_query L raw; (iss, acc) = split_label (url_label L raw) in
        case ((case qget q ''digits'' of None \<Rightarrow> Some (int DEFAULT_DIGITS) | Some d \<Rightarrow> to_int L d),
              (case qget q ''period'' of None \<Rightarrow> Some DEFAULT_PERIOD | Some p \<Rightarrow> to_int L p)) of
          (Some dig, Some per) \<Rightarrow>
            (case alg_number (upper L (case qget q ''algorithm'' of None \<Rightarrow> ascii ''SHA1'' | Some a \<Rightarrow> a)) of
               None \<Rightarrow> Inl Bad_algorithm
             | Some alg \<Rightarrow>
                 Inr (case qget q ''secret'' of None \<Rightarrow> [] | Some s \<Rightarrow> s,
                      \<lparr>cfg_secret = [], cfg_digits = dig, cfg_period = per, cfg_algorithm = alg,
                       cfg_issuer = or_str (case qget q ''issuer'' of None \<Rightarrow> [] | Some i \<Rightarrow> i) (strip iss),
                       cfg_account = strip acc, cfg_url = Some raw\<rparr>))
        | _ \<Rightarrow> Inl Not_a_number))"

definition finish_setup :: "stdlib \<Rightarrow> ustr \<times> totp_cfg \<Rightarrow> setup_error + totp_cfg" where
  "finish_setup L p =
     (case p of (secret_text, cfg) \<Rightarrow>
       (let compact = upper L (rstripP (\<lambda>c. c = 61) (concat (words secret_text))) in
        if compact = [] \<or> \<not> list_all (\<lambda>c. b32_value c \<noteq> None) compact then Inl Not_a_key
        else (case b32decode_padded compact of
            None \<Rightarrow> Inl Not_base32
          | Some key \<Rightarrow>
              if length key < 10 then Inl Too_short
              else if cfg_digits cfg \<notin> {6, 7, 8} \<or> \<not> (10 \<le> cfg_period cfg \<and> cfg_period cfg \<le> 300)
                then Inl Unusual
              else Inr (cfg\<lparr>cfg_secret := key\<rparr>))))"

definition parse_setup :: "stdlib \<Rightarrow> ustr \<Rightarrow> setup_error + totp_cfg" where
  "parse_setup L txt =
     (let raw = strip txt in
      if raw = [] then Inl Empty_setup
      else bindE
        (if startswith (py_lower L raw) (ascii ''otpauth://'') then link_cfg L raw
         else Inr (raw, \<lparr>cfg_secret = [], cfg_digits = int DEFAULT_DIGITS,
                cfg_period = DEFAULT_PERIOD, cfg_algorithm = 0, cfg_issuer = [], cfg_account = [],
                cfg_url = None\<rparr>))
        (finish_setup L))"

subsection \<open>Codes have their length\<close>

lemma length_dec: "n < 10 ^ Suc d \<Longrightarrow> length (dec n) \<le> Suc d"
proof (induction d arbitrary: n)
  case (Suc d)
  then show ?case
    by (cases "n < 10") (simp_all add: dec.simps [of n] less_mult_imp_div_less)
qed (simp add: dec.simps)

lemma dec_digits: "c \<in> set (dec n) \<Longrightarrow> is_digit c"
proof (induction n rule: dec.induct)
  case (1 n)
  show ?case
  proof (cases "n < 10")
    case True
    with 1(2) show ?thesis by (simp add: dec.simps is_digit_def)
  next
    case False
    with 1 show ?thesis by (auto simp: dec.simps [of n] is_digit_def)
  qed
qed

lemma zfill_dec: "0 < d \<Longrightarrow> length (zfill d (dec (v mod 10 ^ d))) = d"
  using length_dec [of "v mod 10 ^ d" "d - 1"] by (simp add: zfill_def)

text \<open>
  A code is its digits. Whatever the key, the digest and the moment, a code that comes out
  consists of decimal digits only and has exactly the asked length, leading zeros kept; and with
  a digest of at least twenty bytes, as every HMAC of the table has, a code does come out for
  every time from the epoch on within range.
\<close>

theorem code_shape:
  assumes "\<forall>a k m. length (hmac a k m) \<ge> 20" and "0 < period" and "0 \<le> t" and "t < 2 ^ 63"
  shows "\<exists>c. code L hmac secret digits period alg t = Some c \<and>
    length c = (if digits = 0 then 6 else digits) \<and> list_all is_digit c"
proof -
  let ?d = "if digits = 0 then DEFAULT_DIGITS else digits"
  have "(1::real) \<le> of_int period" using assms(2) by simp
  from mult_left_mono [OF this assms(3)] have "t / of_int period \<le> t"
    using assms(2) by (simp add: divide_le_eq)
  with assms(4) have "t / of_int period < 2 ^ 63" by linarith
  then have "counter_of period t < 2 ^ 64" "0 \<le> counter_of period t"
    using assms(2,3) by (auto simp: counter_of_def floor_less_iff)
  moreover have "\<exists>v. dynamic_truncate m = Some v" if "length m \<ge> 20" for m
  proof -
    have "unat (last m) mod 16 < 16" by simp
    then have "unat (last m) mod 16 + 4 \<le> length m" using that by linarith
    then show ?thesis using that by (auto simp: dynamic_truncate_def Let_def min_def)
  qed
  ultimately obtain v where "code L hmac secret digits period alg t = Some (zfill ?d (dec (v mod 10 ^ ?d)))"
    using assms(1,2) by (fastforce simp: code_def Let_def)
  moreover have "list_all is_digit (zfill ?d (dec n))" for n
    using dec_digits [of _ n] by (auto simp: list_all_iff zfill_def is_digit_def)
  ultimately show ?thesis using zfill_dec [of ?d v] by (auto simp: DEFAULT_DIGITS_def)
qed

definition example_lib :: stdlib where
  "example_lib = \<lparr>upper = map (\<lambda>c. if 97 \<le> c \<and> c \<le> 122 then c - 32 else c), to_int = (\<lambda>_. None),
     utf8_encode = map word_of_nat, url_netloc = (\<lambda>_. []), url_label = (\<lambda>_. []),
     url_query = (\<lambda>_. []), py_lower = ascii_lower\<rparr>"

theorem code_shape_witness:
  "\<exists>c. code example_lib (\<lambda>a k m. replicate 20 7) (Key_bytes [1, 2]) 6 30 0 59 = Some c \<and>
     length c = (if (6::nat) = 0 then 6 else 6) \<and> list_all is_digit c"
  by (rule code_shape) simp_all

text \<open>
  The countdown. The seconds shown are between one and the period, and until that much
  time has passed the code is the same one.
\<close>

theorem seconds_remaining_valid:
  assumes "0 < period" and "0 \<le> dt" and "dt < of_int period - fmod t period"
  shows "1 \<le> seconds_remaining period t \<and> seconds_remaining period t \<le> period \<and>
    of_int period - fmod t period \<le> of_int (seconds_remaining period t) \<and>
    code L hmac secret digits period alg (t + dt) = code L hmac secret digits period alg t"
proof -
  let ?q = "\<lfloor>t / of_int period\<rfloor>"
  have p: "(0::real) < of_int period" using assms(1) by simp
  have q: "of_int period * of_int ?q \<le> t" "t < of_int period * (of_int ?q + 1)"
    using p floor_divide_lower [OF p, of t] floor_divide_upper [OF p, of t]
    by (simp_all add: mult.commute)
  have lo: "0 < of_int period - fmod t period" "of_int period - fmod t period \<le> of_int period"
    using q by (simp_all add: fmod_def algebra_simps)
  have "counter_of period (t + dt) = ?q"
    using q assms(2,3) p unfolding counter_of_def
    by (intro floor_unique) (simp_all add: fmod_def field_simps)
  then have "counter_of period (t + dt) = counter_of period t" by (simp add: counter_of_def)
  with assms(1) have same: "code L hmac secret digits period alg (t + dt) =
      code L hmac secret digits period alg t"
    by (simp add: code_def Let_def)
  have r: "1 \<le> \<lceil>of_int period - fmod t period\<rceil>" "\<lceil>of_int period - fmod t period\<rceil> \<le> period"
    using lo by (simp_all add: ceiling_le_iff one_le_ceiling)
  from r(1) have "\<lceil>of_int period - fmod t period\<rceil> \<noteq> 0" by linarith
  with assms(1) have "seconds_remaining period t = \<lceil>of_int period - fmod t period\<rceil>"
    by (simp add: seconds_remaining_def Let_def)
  with r same show ?thesis by simp
qed

theorem seconds_remaining_valid_witness:
  "1 \<le> seconds_remaining 30 0 \<and> seconds_remaining 30 0 \<le> 30 \<and>
    of_int 30 - fmod 0 30 \<le> of_int (seconds_remaining 30 0) \<and>
    code example_lib (\<lambda>a k m. replicate 20 7) (Key_bytes [1, 2]) 6 30 0 (0 + 1) =
    code example_lib (\<lambda>a k m. replicate 20 7) (Key_bytes [1, 2]) 6 30 0 0"
  by (rule seconds_remaining_valid) (simp_all add: fmod_def)

lemma link_cfg_Inr:
  "link_cfg L raw = Inr (s, cfg) \<Longrightarrow>
   cfg_algorithm cfg \<in> {0, 1, 2} \<and> py_lower L (url_netloc L raw) = ascii ''totp''"
  by (auto simp: link_cfg_def alg_number_def Let_def
      simp del: insert_iff split: if_splits option.splits prod.splits)

lemma finish_setup_Inr:
  "finish_setup L (s, cfg) = Inr cfg' \<Longrightarrow>
   (\<exists>key. cfg' = cfg\<lparr>cfg_secret := key\<rparr> \<and> 10 \<le> length key) \<and> cfg_digits cfg \<in> {6, 7, 8} \<and>
   10 \<le> cfg_period cfg \<and> cfg_period cfg \<le> 300"
  by (auto simp: finish_setup_def Let_def split: if_splits option.splits)

text \<open>
  A setup that is accepted can be used. A parsed setup has a key of at least ten bytes, six
  to eight digits, a period between ten seconds and five minutes and a known digest, and the
  link, if there was one, named a time-based code.
\<close>

theorem parse_setup_usable:
  assumes "parse_setup L txt = Inr cfg"
  shows "10 \<le> length (cfg_secret cfg) \<and> cfg_digits cfg \<in> {6, 7, 8} \<and> 10 \<le> cfg_period cfg \<and>
    cfg_period cfg \<le> 300 \<and> cfg_algorithm cfg \<in> {0, 1, 2} \<and>
    (cfg_url cfg = None \<or> py_lower L (url_netloc L (strip txt)) = ascii ''totp'')"
proof -
  from assms obtain st c0 where c: "finish_setup L (st, c0) = Inr cfg" and
      "(cfg_algorithm c0 \<in> {0, 1, 2} \<and> py_lower L (url_netloc L (strip txt)) = ascii ''totp'') \<or>
       (cfg_algorithm c0 = 0 \<and> cfg_url c0 = None)"
    by (auto simp: parse_setup_def Let_def bindE_Inr_iff dest: link_cfg_Inr split: if_splits)
  with finish_setup_Inr [OF c] show ?thesis by auto
qed

lemma words_one:
  assumes "s \<noteq> []" and "list_all (\<lambda>c. \<not> py_isspace c) s"
  shows "words s = [s]"
proof -
  have d: "dropWhile py_isspace s = s" "takeWhile (\<lambda>c. \<not> py_isspace c) s = s"
    "dropWhile (\<lambda>c. \<not> py_isspace c) s = []"
    using assms by (simp_all add: list_all_iff dropWhile_eq_self_iff takeWhile_eq_all_conv
        dropWhile_eq_Nil_conv)
  have e: "words [] = []" by (simp add: words.simps)
  show ?thesis unfolding words.simps [of s] Let_def d e using assms(1) by simp
qed

lemma example_setup:
  "\<exists>cfg. parse_setup example_lib (replicate 16 65) = Inr cfg"
proof -
  have sp: "\<not> py_isspace 65" "words (replicate 16 65) = [replicate 16 65]"
    by (simp add: py_isspace_def) (rule words_one, simp_all add: list_all_iff py_isspace_def)
  have st: "strip (replicate 16 65) = replicate 16 65"
    by (simp add: stripP_def lstripP_id rstripP_id sp)
  have up: "upper example_lib (replicate 16 65) = replicate 16 65"
    by (simp add: example_lib_def)
  have acc: "b32_acc (replicate n 65) 0 = Some 0" for n
    by (induction n) (simp_all add: b32_value_def)
  have q: "b32decode_padded (replicate 16 65) = Some (be_bytes 5 0 @ be_bytes 5 0)"
    by (simp add: b32decode_padded_def b32_quanta.simps acc)
  have "\<not> startswith (py_lower example_lib (replicate 16 65)) (ascii ''otpauth://'')"
    by (simp add: example_lib_def ascii_lower_def ascii_lower_char_def ascii_def)
  then show ?thesis
    by (simp add: parse_setup_def st finish_setup_def sp rstripP_id up q be_bytes_def
        b32_value_def list_all_iff DEFAULT_DIGITS_def DEFAULT_PERIOD_def)
qed

theorem parse_setup_usable_witness:
  "\<exists>cfg. parse_setup example_lib (replicate 16 65) = Inr cfg \<and> 10 \<le> length (cfg_secret cfg)"
proof -
  obtain cfg where c: "parse_setup example_lib (replicate 16 65) = Inr cfg"
    using example_setup by blast
  with parse_setup_usable [OF c] show ?thesis by blast
qed

end
