(* ===== verification/StoreLock.thy ===== *)
theory StoreLock
  imports Prelude
begin

text \<open>
  The mutex protocol of a store: \<^verbatim>\<open>_serialized\<close>, \<^verbatim>\<open>lock\<close>, \<^verbatim>\<open>try_lock\<close>,
  \<^verbatim>\<open>lock_pending\<close> and \<^verbatim>\<open>_wipe_now\<close> of \<^verbatim>\<open>UserStore\<close> in
  \<^verbatim>\<open>backend/icp/vstore/__init__.py\<close>. A worker thread runs store calls; the event loop locks.
  The statements of the worker are separate steps, because the loop may run between any two of
  them; a step of the loop is what it does without releasing the interpreter to the worker
  in the middle of a mutex operation.
\<close>

subsection \<open>The store's lock state\<close>

text \<open>
  \<open>mx_held\<close>: a worker holds \<^verbatim>\<open>_mx\<close>; \<open>depth\<close> its nesting; \<open>has_keys\<close>: \<^verbatim>\<open>_rk\<close>
  and everything derived from it is in memory.
\<close>

record ustore =
  mx_held :: bool
  depth :: nat
  wipe_req :: bool
  has_keys :: bool

definition UserStore_init :: ustore where
  "UserStore_init = \<lparr>mx_held = False, depth = 0, wipe_req = False, has_keys = False\<rparr>"

definition wipe_now :: "ustore \<Rightarrow> ustore" where
  "wipe_now u = u\<lparr>has_keys := False\<rparr>"

text \<open>
  \<^verbatim>\<open>_serialized\<close>, entering: the outermost call is refused, and the keys wiped, when a wipe is
  requested; the mutex is released on the way out of a refusal.
\<close>

definition serialized_enter :: "ustore \<Rightarrow> ustore \<times> bool" where
  "serialized_enter u =
     (if depth u = 0 \<and> wipe_req u then ((wipe_now u)\<lparr>mx_held := False\<rparr>, False)
      else (u\<lparr>mx_held := True, depth := Suc (depth u)\<rparr>, True))"

text \<open>\<^verbatim>\<open>_serialized\<close>, its \<^verbatim>\<open>finally\<close>; the release of the mutex is the next step.\<close>

definition serialized_finally :: "ustore \<Rightarrow> ustore" where
  "serialized_finally u =
     (let u1 = u\<lparr>depth := depth u - 1\<rparr> in
      if depth u1 = 0 \<and> wipe_req u1 then wipe_now u1 else u1)"

definition mx_release :: "ustore \<Rightarrow> ustore" where
  "mx_release u = u\<lparr>mx_held := False\<rparr>"

text \<open>\<^verbatim>\<open>try_lock\<close> on the event loop, which never is inside a store call itself.\<close>

definition try_lock :: "ustore \<Rightarrow> ustore \<times> bool" where
  "try_lock u =
     (let u1 = u\<lparr>wipe_req := True\<rparr> in
      if mx_held u1 then (u1, False)
      else if depth u1 > 0 then (u1, False)
      else ((wipe_now u1)\<lparr>wipe_req := False\<rparr>, True))"

text \<open>
  \<^verbatim>\<open>lock\<close>: it waits for the mutex, so it is defined where the mutex is free or the caller's
  own (\<open>inside\<close>); \<open>None\<close> is waiting.
\<close>

definition lock_store :: "bool \<Rightarrow> ustore \<Rightarrow> ustore option" where
  "lock_store inside u =
     (if mx_held u \<and> \<not> inside then None
      else (let u1 = wipe_now (u\<lparr>wipe_req := True\<rparr>) in
        Some (if depth u1 = 0 then u1\<lparr>wipe_req := False\<rparr> else u1)))"

definition lock_pending :: "ustore \<Rightarrow> bool" where
  "lock_pending u \<longleftrightarrow> wipe_req u \<or> \<not> has_keys u"

subsection \<open>The two threads\<close>

text \<open>
  Where the worker is: between calls, in the body of a call, or past its \<^verbatim>\<open>finally\<close> with the
  mutex not yet released. \<open>asked\<close> remembers, for the statements, that a lock was asked for since
  the running call began.
\<close>

datatype worker_pc = Idle | Body | Leaving

record lock_state =
  us :: ustore
  pc :: worker_pc
  asked :: bool

datatype lock_act =
    W_call_refused | W_call | W_unlock_keys | W_finally | W_release | L_try_ok | L_try_busy

inductive lstep :: "lock_state \<Rightarrow> lock_act \<Rightarrow> lock_state \<Rightarrow> bool" where
  call: "pc s = Idle \<Longrightarrow> serialized_enter (us s) = (u, True) \<Longrightarrow>
    lstep s W_call (s\<lparr>us := u, pc := Body, asked := False\<rparr>)"
| refused: "pc s = Idle \<Longrightarrow> serialized_enter (us s) = (u, False) \<Longrightarrow>
    lstep s W_call_refused (s\<lparr>us := u\<rparr>)"
| keys: "pc s = Body \<Longrightarrow> lstep s W_unlock_keys (s\<lparr>us := (us s)\<lparr>has_keys := True\<rparr>\<rparr>)"
| ending: "pc s = Body \<Longrightarrow> lstep s W_finally (s\<lparr>us := serialized_finally (us s), pc := Leaving\<rparr>)"
| release: "pc s = Leaving \<Longrightarrow> lstep s W_release (s\<lparr>us := mx_release (us s), pc := Idle\<rparr>)"
| try_ok: "try_lock (us s) = (u, True) \<Longrightarrow> lstep s L_try_ok (s\<lparr>us := u, asked := False\<rparr>)"
| try_busy: "try_lock (us s) = (u, False) \<Longrightarrow>
    lstep s L_try_busy (s\<lparr>us := u, asked := True\<rparr>)"

inductive lreach :: "lock_state \<Rightarrow> bool" where
  init: "lreach \<lparr>us = UserStore_init, pc = Idle, asked = False\<rparr>"
| step: "lreach s \<Longrightarrow> lstep s a s' \<Longrightarrow> lreach s'"

inductive_cases lstep_callE: "lstep s W_call s'"
inductive_cases lstep_tryE: "lstep s L_try_ok s'"
inductive_cases lstep_finallyE: "lstep s W_finally s'"

definition linv :: "lock_state \<Rightarrow> bool" where
  "linv s \<longleftrightarrow>
     (mx_held (us s) \<longleftrightarrow> pc s \<noteq> Idle) \<and>
     (depth (us s) = (if pc s = Body then 1 else 0)) \<and>
     (asked s \<longrightarrow> wipe_req (us s))"

lemma linv_init: "linv \<lparr>us = UserStore_init, pc = Idle, asked = False\<rparr>"
  by (simp add: linv_def UserStore_init_def)

lemma linv_step: "lstep s a s' \<Longrightarrow> linv s \<Longrightarrow> linv s'"
  by (induction rule: lstep.induct)
    (auto simp: linv_def serialized_enter_def serialized_finally_def mx_release_def try_lock_def
      wipe_now_def Let_def split: if_splits)

lemma linv_reach: "lreach s \<Longrightarrow> linv s"
  by (induction rule: lreach.induct) (auto intro: linv_init linv_step)

text \<open>
  A lock is never undone. Where a lock was asked for while a call was running, no later
  call gets past the mutex until a lock has found the store free and wiped it.
\<close>

theorem no_call_after_lock:
  assumes "lreach s" and "lstep s W_call s'"
  shows "\<not> wipe_req (us s)"
  using assms linv_reach [OF assms(1)]
  by (auto elim!: lstep_callE simp: linv_def serialized_enter_def split: if_splits)

text \<open>
  A wipe is a wipe. A \<^verbatim>\<open>try_lock\<close> that answers yes has left no key in memory, no call is
  running, and none was let in by it.
\<close>

theorem try_lock_wipes:
  assumes "lreach s" and "lstep s L_try_ok s'"
  shows "\<not> has_keys (us s') \<and> pc s' = Idle \<and> \<not> wipe_req (us s')"
  using assms(2) linv_reach [OF assms(1)]
  by (auto elim!: lstep_tryE simp: linv_def try_lock_def wipe_now_def Let_def split: if_splits)

text \<open>
  A call that ends after the lock takes the keys with it. When the wipe was asked for before
  the call's \<^verbatim>\<open>finally\<close>, that statement leaves no key, whatever the body unlocked.
\<close>

theorem finally_wipes:
  assumes "lreach s" and "wipe_req (us s)" and "lstep s W_finally s'"
  shows "\<not> has_keys (us s')"
  using assms(2,3) linv_reach [OF assms(1)]
  by (auto elim!: lstep_finallyE simp: linv_def serialized_finally_def wipe_now_def Let_def)

text \<open>
  The way out always works. With no call running, a \<^verbatim>\<open>try_lock\<close> succeeds: what the
  registry relies on when it wipes on the way out of \<^verbatim>\<open>run_store\<close>.
\<close>

theorem try_lock_succeeds_when_idle:
  assumes "lreach s" and "pc s = Idle"
  shows "\<exists>s'. lstep s L_try_ok s' \<and> \<not> has_keys (us s')"
proof -
  have "snd (try_lock (us s))" "\<not> has_keys (fst (try_lock (us s)))"
    using linv_reach [OF assms(1)] assms(2) by (simp_all add: linv_def try_lock_def wipe_now_def)
  then have "lstep s L_try_ok (s\<lparr>us := fst (try_lock (us s)), asked := False\<rparr>)"
    by (intro lstep.try_ok) (metis prod.collapse)
  with \<open>\<not> has_keys _\<close> show ?thesis by force
qed

subsection \<open>A run of each kind\<close>

definition st_idle :: lock_state where
  "st_idle = \<lparr>us = UserStore_init, pc = Idle, asked = False\<rparr>"

definition st_body :: lock_state where
  "st_body = \<lparr>us = \<lparr>mx_held = True, depth = 1, wipe_req = False, has_keys = True\<rparr>, pc = Body, asked = False\<rparr>"

definition st_asked :: lock_state where
  "st_asked = \<lparr>us = \<lparr>mx_held = True, depth = 1, wipe_req = True, has_keys = True\<rparr>, pc = Body, asked = True\<rparr>"

definition st_late :: lock_state where
  "st_late = \<lparr>us = \<lparr>mx_held = False, depth = 0, wipe_req = True, has_keys = True\<rparr>, pc = Idle, asked = True\<rparr>"

lemma step_call: "lstep st_idle W_call
    \<lparr>us = \<lparr>mx_held = True, depth = 1, wipe_req = False, has_keys = False\<rparr>, pc = Body, asked = False\<rparr>"
  using lstep.call [of st_idle] by (simp add: st_idle_def serialized_enter_def UserStore_init_def)

lemma reach_idle: "lreach st_idle"
  unfolding st_idle_def by (rule lreach.init)

lemma reach_body: "lreach st_body"
proof -
  have "lstep \<lparr>us = \<lparr>mx_held = True, depth = 1, wipe_req = False, has_keys = False\<rparr>, pc = Body, asked = False\<rparr>
      W_unlock_keys st_body"
    using lstep.keys [of "\<lparr>us = \<lparr>mx_held = True, depth = 1, wipe_req = False, has_keys = False\<rparr>,
        pc = Body, asked = False\<rparr>"] by (simp add: st_body_def)
  then show ?thesis using lreach.step [OF reach_idle step_call] lreach.step by blast
qed

lemma reach_asked: "lreach st_asked"
  using lreach.step [OF reach_body lstep.try_busy [of st_body]]
  by (simp add: st_body_def st_asked_def try_lock_def)

text \<open>
  The window the doc string of \<^verbatim>\<open>try_lock\<close> leaves out: a lock that lands between a call's
  \<^verbatim>\<open>finally\<close> and its release of the mutex is told that a call is running, and that call no
  longer wipes; the keys stay until the next call or \<^verbatim>\<open>try_lock\<close>, which here is the one of
  \<^verbatim>\<open>run_store\<close>.
\<close>

lemma reach_late: "lreach st_late"
proof -
  let ?l = "\<lparr>us = \<lparr>mx_held = True, depth = 0, wipe_req = False, has_keys = True\<rparr>, pc = Leaving, asked = False\<rparr>"
  have "lreach ?l"
    using lreach.step [OF reach_body lstep.ending [of st_body]]
    by (simp add: st_body_def serialized_finally_def)
  from lreach.step [OF this lstep.try_busy [of ?l]]
  have l: "lreach \<lparr>us = \<lparr>mx_held = True, depth = 0, wipe_req = True, has_keys = True\<rparr>, pc = Leaving, asked = True\<rparr>"
    (is "lreach ?m")
    by (simp add: try_lock_def)
  from lreach.step [OF l lstep.release [of ?m]] show ?thesis
    by (simp add: mx_release_def st_late_def)
qed

theorem no_call_after_lock_witness: "\<not> wipe_req (us st_idle)"
  by (rule no_call_after_lock [OF reach_idle step_call])

theorem try_lock_wipes_witness:
  "\<exists>s'. lstep st_late L_try_ok s' \<and> \<not> has_keys (us s') \<and> pc s' = Idle \<and> \<not> wipe_req (us s')"
proof -
  have "lstep st_late L_try_ok (st_late\<lparr>us := UserStore_init, asked := False\<rparr>)"
    by (rule lstep.try_ok) (simp add: st_late_def try_lock_def wipe_now_def UserStore_init_def)
  with try_lock_wipes [OF reach_late this] show ?thesis by blast
qed

theorem finally_wipes_witness:
  "\<exists>s'. lstep st_asked W_finally s' \<and> \<not> has_keys (us s')"
proof -
  have st: "lstep st_asked W_finally (st_asked\<lparr>us := serialized_finally (us st_asked), pc := Leaving\<rparr>)"
    by (rule lstep.ending) (simp add: st_asked_def)
  moreover have "wipe_req (us st_asked)" by (simp add: st_asked_def)
  ultimately show ?thesis using finally_wipes [OF reach_asked] by blast
qed

theorem try_lock_succeeds_when_idle_witness:
  "\<exists>s'. lstep st_late L_try_ok s' \<and> \<not> has_keys (us s')"
  by (rule try_lock_succeeds_when_idle [OF reach_late]) (simp add: st_late_def)

end
