(* ===== verification/Frontend.thy ===== *)
theory Frontend
  imports Prelude
begin

text \<open>
  The sign-in frontend that draws in the window: \<^verbatim>\<open>backend/icp/daemon/frontend.py\<close>, class
  \<^verbatim>\<open>SocketFrontend\<close>. A question is a future, waiting (\<open>None\<close>) or settled; the worker that
  asked blocks on it. What \<^verbatim>\<open>_post\<close> sends is the list of questions drawn so far.
\<close>

datatype reply = Cancel_reply | Value_reply ustr

record frontend =
  fe_conn :: nat
  fe_rid :: int
  fe_next :: int
  fe_asks :: "(int \<times> reply option) list"
  fe_cancelled :: bool
  fe_posted :: "(int \<times> string) list"

definition SocketFrontend_init :: "nat \<Rightarrow> int \<Rightarrow> frontend" where
  "SocketFrontend_init c rid = \<lparr>fe_conn = c, fe_rid = rid, fe_next = 1, fe_asks = [],
     fe_cancelled = False, fe_posted = []\<rparr>"

text \<open>\<^verbatim>\<open>_await\<close> up to the wait; \<open>None\<close> is \<^verbatim>\<open>Cancelled\<close>.\<close>

definition await_begin :: "string \<Rightarrow> frontend \<Rightarrow> frontend \<times> int option" where
  "await_begin need fe =
     (if fe_cancelled fe then (fe, None)
      else (fe\<lparr>fe_next := fe_next fe + 1, fe_asks := dset (fe_next fe) None (fe_asks fe),
              fe_posted := fe_posted fe @ [(fe_next fe, need)]\<rparr>, Some (fe_next fe)))"

datatype waited = Still_waiting | Was_cancelled | Got ustr

text \<open>\<^verbatim>\<open>_await\<close> after the wait: the settled future is taken out and read.\<close>

definition await_end :: "int \<Rightarrow> frontend \<Rightarrow> frontend \<times> waited" where
  "await_end i fe =
     (case dget (fe_asks fe) i of
        Some (Some r) \<Rightarrow> (fe\<lparr>fe_asks := ddel i (fe_asks fe)\<rparr>,
            case r of Cancel_reply \<Rightarrow> Was_cancelled | Value_reply v \<Rightarrow> Got v)
      | _ \<Rightarrow> (fe, Still_waiting))"

definition settle_all :: "(int \<times> reply option) list \<Rightarrow> (int \<times> reply option) list" where
  "settle_all d = map (\<lambda>(i, f). (i, case f of None \<Rightarrow> Some Cancel_reply | Some r \<Rightarrow> Some r)) d"

definition fe_cancel :: "frontend \<Rightarrow> frontend" where
  "fe_cancel fe = fe\<lparr>fe_cancelled := True, fe_asks := settle_all (fe_asks fe)\<rparr>"

definition fe_answer :: "int \<Rightarrow> ustr option \<Rightarrow> bool \<Rightarrow> frontend \<Rightarrow> frontend \<times> bool" where
  "fe_answer i v cancelling fe =
     (case dget (fe_asks fe) i of
        Some None \<Rightarrow>
          if cancelling then (fe_cancel fe, True)
          else (fe\<lparr>fe_asks := dset i (Some (Value_reply (case v of None \<Rightarrow> [] | Some s \<Rightarrow> s)))
                  (fe_asks fe)\<rparr>, True)
      | _ \<Rightarrow> (fe, False))"

text \<open>What \<^verbatim>\<open>ask\<close>, \<^verbatim>\<open>confirm_yn\<close> and \<^verbatim>\<open>choose\<close> make of a reply.\<close>

definition read_ask :: "ustr \<Rightarrow> ustr" where
  "read_ask r = strip r"

definition read_confirm :: "unidb \<Rightarrow> ustr \<Rightarrow> bool" where
  "read_confirm db r = (ulower db (strip r) \<in> {ascii ''y'', ascii ''yes'', ascii ''true''})"

text \<open>\<open>Inl ()\<close> is the \<^verbatim>\<open>ValueError\<close> of \<^verbatim>\<open>int\<close> on a digit that is no decimal one.\<close>

definition read_choice ::
  "(ustr \<Rightarrow> bool) \<Rightarrow> (ustr \<Rightarrow> int option) \<Rightarrow> nat \<Rightarrow> ustr \<Rightarrow> unit + int option" where
  "read_choice isdigit to_int n r =
     (let t = strip r in
      if \<not> isdigit t then Inr None
      else (case to_int t of
          None \<Rightarrow> Inl ()
        | Some k \<Rightarrow> Inr (if k < int n then Some k else None)))"

subsection \<open>Questions end\<close>

lemma dget_settle_all [simp]: "dget (settle_all d) i =
    map_option (\<lambda>f. case f of None \<Rightarrow> Some Cancel_reply | Some r \<Rightarrow> Some r) (dget d i)"
  by (induction d) (auto simp: dget_def settle_all_def)

text \<open>
  A cancel reaches every question. After a cancel - the window's, a lock's or the
  connection's - no worker stays blocked on a question, no new question is drawn, and a later
  answer is refused.
\<close>

theorem cancel_ends_questions:
  "(snd (await_end i (fe_cancel fe)) = Still_waiting \<longleftrightarrow> dget (fe_asks fe) i = None) \<and>
   await_begin need (fe_cancel fe) = (fe_cancel fe, None) \<and>
   fe_answer i v c (fe_cancel fe) = (fe_cancel fe, False)"
  by (auto simp: await_end_def fe_cancel_def await_begin_def fe_answer_def
      split: option.splits reply.splits)

text \<open>
  One answer per question. An answer is taken only for a question still waiting, reaches
  that question and no other, and a second answer to it is refused.
\<close>

theorem answer_once:
  assumes "snd (fe_answer i v False fe)"
  shows "dget (fe_asks fe) i = Some None \<and>
    snd (await_end i (fst (fe_answer i v False fe))) = Got (case v of None \<Rightarrow> [] | Some s \<Rightarrow> s) \<and>
    \<not> snd (fe_answer i v' False (fst (fe_answer i v False fe))) \<and>
    dget (fe_asks (fst (fe_answer i v False fe))) = (dget (fe_asks fe))(i \<mapsto>
      Some (Value_reply (case v of None \<Rightarrow> [] | Some s \<Rightarrow> s)))"
  using assms
  by (auto simp: fe_answer_def await_end_def fun_eq_iff split: option.splits if_splits)

theorem answer_once_witness:
  "let fe = fst (await_begin ''text'' (SocketFrontend_init 3 7)) in
   snd (await_end 1 (fst (fe_answer 1 (Some [65]) False fe))) = Got [65]"
  using answer_once [of 1 "Some [65]" "fst (await_begin ''text'' (SocketFrontend_init 3 7))"]
  by (simp add: await_begin_def SocketFrontend_init_def fe_answer_def)

end
