(* ===== verification/FieldRules.thy ===== *)
theory FieldRules
  imports Protocol Tagline Totp
begin

text \<open>
  What a request's values must look like: the small helpers and the validation of
  \<^verbatim>\<open>set\<close> and \<^verbatim>\<open>create\<close> fields at the top of \<^verbatim>\<open>backend/icp/daemon/handlers.py\<close>.
  A JSON object is the list of its members as they came; as a Python dict the last value of a key
  wins and the first occurrence gives its place. The error of a refused value is an \<open>OpError\<close>.
\<close>

definition MAX_PASSWORD :: nat where "MAX_PASSWORD = 1024"
definition MAX_NOTES :: nat where "MAX_NOTES = 16 * 1024"
definition MAX_TEXT :: nat where "MAX_TEXT = 256"
definition MAX_SITES :: nat where "MAX_SITES = 32"
definition MAX_CHECK_ITEMS :: nat where "MAX_CHECK_ITEMS = 1000"
definition MAX_CHECK_ITEM :: nat where "MAX_CHECK_ITEM = 1024"
definition MAX_PASSPHRASE :: nat where "MAX_PASSPHRASE = 1024"
definition MAX_SETUP :: nat where "MAX_SETUP = 4096"

definition bad_request :: "op_error + 'a" where
  "bad_request = Inl (OpError E_bad_request [])"

definition invalid :: "string \<Rightarrow> op_error + 'a" where
  "invalid f = Inl (OpError E_invalid [X_field f])"

type_synonym req = "(string \<times> json) list"

subsection \<open>Reading a request\<close>

text \<open>\<^verbatim>\<open>_need\<close> for each type it is called with; \<open>None\<close> as default means not optional.\<close>

definition need_str :: "req \<Rightarrow> string \<Rightarrow> op_error + ustr" where
  "need_str q k = (case jget q k of Some (JStr s) \<Rightarrow> Inr s | _ \<Rightarrow> bad_request)"

definition need_int :: "req \<Rightarrow> string \<Rightarrow> op_error + int" where
  "need_int q k = (case jget q k of Some (JInt i) \<Rightarrow> Inr i | _ \<Rightarrow> bad_request)"

definition need_bool :: "req \<Rightarrow> string \<Rightarrow> bool option \<Rightarrow> op_error + bool" where
  "need_bool q k dflt =
     (case jget q k of
        Some (JBool b) \<Rightarrow> Inr b
      | None \<Rightarrow> (case dflt of Some b \<Rightarrow> Inr b | None \<Rightarrow> bad_request)
      | _ \<Rightarrow> bad_request)"

definition need_dict :: "req \<Rightarrow> string \<Rightarrow> op_error + (string \<times> json) list" where
  "need_dict q k = (case jget q k of Some (JObj d) \<Rightarrow> Inr d | _ \<Rightarrow> bad_request)"

definition need_list :: "req \<Rightarrow> string \<Rightarrow> op_error + json list" where
  "need_list q k = (case jget q k of Some (JList l) \<Rightarrow> Inr l | _ \<Rightarrow> bad_request)"

definition text_id :: "ustr \<Rightarrow> string" where
  "text_id s = map char_of s"

definition need_id :: "req \<Rightarrow> op_error + string" where
  "need_id q = bindE (need_str q ''id'')
     (\<lambda>s. if valid_id (JStr s) then Inr (text_id s) else Inl (OpError E_not_found []))"

text \<open>The items of an object as Python's dict has them.\<close>

definition dict_items :: "(string \<times> json) list \<Rightarrow> (string \<times> json) list" where
  "dict_items obj = fold (\<lambda>(k, v) d. dset k v d) obj []"

subsection \<open>Text\<close>

definition control_char :: "nat \<Rightarrow> bool" where
  "control_char c \<longleftrightarrow> c < 32 \<or> (127 \<le> c \<and> c \<le> 159) \<or> c = 8232 \<or> c = 8233 \<or>
     (8234 \<le> c \<and> c \<le> 8238) \<or> (8294 \<le> c \<and> c \<le> 8297)"

text \<open>\<^verbatim>\<open>_detail\<close>: control characters to spaces, runs of space collapsed, at most 200 characters.\<close>

definition clean_detail :: "ustr \<Rightarrow> ustr" where
  "clean_detail s = take 200 (join [32] (words (map (\<lambda>c. if control_char c then 32 else c) s)))"

definition clean_text :: "json \<Rightarrow> string \<Rightarrow> nat \<Rightarrow> bool \<Rightarrow> op_error + ustr" where
  "clean_text v f max_len newlines =
     (case v of
        JStr s \<Rightarrow>
          if length s > max_len \<or> 0 \<in> set s then invalid f
          else if \<not> newlines \<and> list_ex control_char s then invalid f
          else Inr s
      | _ \<Rightarrow> bad_request)"

text \<open>\<^verbatim>\<open>_HOST_RE\<close>: labels of letters, digits and inner hyphens, separated by dots.\<close>

definition host_char :: "nat \<Rightarrow> bool" where
  "host_char c \<longleftrightarrow> is_digit c \<or> (97 \<le> c \<and> c \<le> 122)"

definition host_label :: "ustr \<Rightarrow> bool" where
  "host_label l \<longleftrightarrow> 1 \<le> length l \<and> length l \<le> 63 \<and> host_char (hd l) \<and> host_char (last l) \<and>
     list_all (\<lambda>c. host_char c \<or> c = 45) l"

definition host_ok :: "ustr \<Rightarrow> bool" where
  "host_ok h \<longleftrightarrow> 1 \<le> length h \<and> length h \<le> 253 \<and> list_all host_label (split_on 46 h)"

definition clean_host :: "unidb \<Rightarrow> json \<Rightarrow> string \<Rightarrow> op_error + ustr" where
  "clean_host u v f =
     (case v of
        JStr s \<Rightarrow> (let h = ulower u (strip s) in if host_ok h then Inr h else invalid f)
      | _ \<Rightarrow> bad_request)"

subsection \<open>The fields of an edit\<close>

datatype field_value =
    F_text ustr
  | F_sites "ustr list"
  | F_tags "ustr list"
  | F_totp_remove
  | F_totp_setup ustr

definition clean_totp :: "stdlib \<Rightarrow> json \<Rightarrow> op_error + field_value" where
  "clean_totp L v =
     (case v of
        JObj d \<Rightarrow>
          if jget d ''remove'' = Some (JBool True) \<and> jget d ''setup'' = None then Inr F_totp_remove
          else (case jget d ''setup'' of
              Some (JStr s) \<Rightarrow>
                if length s > MAX_SETUP then invalid ''totp''
                else (case parse_setup L s of Inl _ \<Rightarrow> invalid ''totp'' | Inr _ \<Rightarrow> Inr (F_totp_setup s))
            | _ \<Rightarrow> invalid ''totp'')
      | _ \<Rightarrow> bad_request)"

definition clean_field ::
  "unidb \<Rightarrow> stdlib \<Rightarrow> string list \<Rightarrow> string \<Rightarrow> json \<Rightarrow> op_error + field_value option" where
  "clean_field u L allowed k v =
     (if k \<notin> set allowed then invalid (take 64 k)
      else if k = ''password'' then
        bindE (clean_text v k MAX_PASSWORD True) (\<lambda>s. if s = [] then invalid k else Inr (Some (F_text s)))
      else if k = ''notes'' then
        bindE (clean_text v k MAX_NOTES True) (\<lambda>s. Inr (Some (F_text s)))
      else if k \<in> {''nickname'', ''title'', ''username''} then
        bindE (clean_text v k MAX_TEXT False) (\<lambda>s. Inr (Some (F_text (strip s))))
      else if k = ''domain'' then
        (if v = JStr [] then Inr (Some (F_text [])) else bindE (clean_host u v k) (\<lambda>h. Inr (Some (F_text h))))
      else if k = ''sites'' then
        (case v of
           JList vs \<Rightarrow>
             if length vs > MAX_SITES then invalid k
             else bindE (mapE (\<lambda>x. clean_host u x k) vs) (\<lambda>hs. Inr (Some (F_sites hs)))
         | _ \<Rightarrow> invalid k)
      else if k = ''totp'' then bindE (clean_totp L v) (\<lambda>x. Inr (Some x))
      else if k = ''tags'' then
        (case canon_list u v of Inl _ \<Rightarrow> invalid k | Inr ts \<Rightarrow> Inr (Some (F_tags ts)))
      else Inr None)"

fun clean_fields ::
  "unidb \<Rightarrow> stdlib \<Rightarrow> string list \<Rightarrow> (string \<times> json) list \<Rightarrow> (string \<times> field_value) list \<Rightarrow>
   op_error + (string \<times> field_value) list" where
  "clean_fields u L allowed [] out = Inr out"
| "clean_fields u L allowed ((k, v) # kvs) out =
     bindE (clean_field u L allowed k v)
       (\<lambda>x. clean_fields u L allowed kvs (case x of None \<Rightarrow> out | Some y \<Rightarrow> dset k y out))"

text \<open>\<^verbatim>\<open>validate_fields\<close>; \<open>made\<close> is what the password generator returns.\<close>

definition validate_fields ::
  "unidb \<Rightarrow> stdlib \<Rightarrow> ustr \<Rightarrow> (string \<times> json) list \<Rightarrow> json option \<Rightarrow> string list \<Rightarrow>
   op_error + (string \<times> field_value) list" where
  "validate_fields u L made fds gen allowed =
     (case gen of
        None \<Rightarrow> clean_fields u L allowed (dict_items fds) []
      | Some JNull \<Rightarrow> clean_fields u L allowed (dict_items fds) []
      | Some (JObj _) \<Rightarrow>
          bindE (clean_fields u L allowed (dict_items fds) [])
            (\<lambda>out. if dget out ''password'' \<noteq> None then invalid ''generate''
              else Inr (dset ''password'' (F_text made) out))
      | _ \<Rightarrow> bad_request)"

subsection \<open>What an accepted edit holds\<close>

definition text_ok :: "nat \<Rightarrow> bool \<Rightarrow> ustr \<Rightarrow> bool" where
  "text_ok n newlines s \<longleftrightarrow> length s \<le> n \<and> 0 \<notin> set s \<and> (newlines \<or> \<not> list_ex control_char s)"

definition field_ok :: "stdlib \<Rightarrow> string \<Rightarrow> field_value \<Rightarrow> bool" where
  "field_ok L k x =
     (case x of
        F_text s \<Rightarrow>
          if k = ''password'' then text_ok MAX_PASSWORD True s \<and> s \<noteq> []
          else if k = ''notes'' then text_ok MAX_NOTES True s
          else if k = ''domain'' then s = [] \<or> host_ok s
          else k \<in> {''nickname'', ''title'', ''username''} \<and> text_ok MAX_TEXT False s
      | F_sites hs \<Rightarrow> k = ''sites'' \<and> length hs \<le> MAX_SITES \<and> list_all host_ok hs
      | F_tags ts \<Rightarrow> k = ''tags'' \<and> length ts \<le> MAX_TAGS
      | F_totp_remove \<Rightarrow> k = ''totp''
      | F_totp_setup s \<Rightarrow> k = ''totp'' \<and> length s \<le> MAX_SETUP \<and> \<not> isl (parse_setup L s))"

definition fields_ok :: "stdlib \<Rightarrow> string list \<Rightarrow> (string \<times> field_value) list \<Rightarrow> bool" where
  "fields_ok L allowed out \<longleftrightarrow>
     list_all (\<lambda>(k, x). (k \<in> set allowed \<or> k = ''password'') \<and> field_ok L k x) out"

lemma clean_text_Inr: "clean_text v f n b = Inr s \<Longrightarrow> text_ok n b s"
  by (auto simp: clean_text_def text_ok_def invalid_def bad_request_def split: json.splits if_splits)

lemma clean_host_Inr: "clean_host u v f = Inr h \<Longrightarrow> host_ok h"
  by (auto simp: clean_host_def Let_def invalid_def bad_request_def split: json.splits if_splits)

lemma set_stripP: "set (stripP P s) \<subseteq> set s"
  by (auto simp: stripP_def rstripP_def lstripP_def dest!: set_dropWhileD)

lemma length_stripP: "length (stripP P s) \<le> length s"
  using length_dropWhile_le [of P "rev (dropWhile P s)"] length_dropWhile_le [of P s]
  by (simp add: stripP_def rstripP_def lstripP_def)

lemma text_ok_strip: "text_ok n b s \<Longrightarrow> text_ok n b (strip s)"
  using set_stripP [of py_isspace s] length_stripP [of py_isspace s]
  by (auto simp: text_ok_def list_ex_iff)

lemma canon_loop_length: "canon_loop u ts acc = Inr out \<Longrightarrow> length out \<le> length (fst acc) + length ts"
proof (induction ts arbitrary: acc)
  case (Cons t ts)
  obtain c where "canon_loop u ts (add_tag u c acc) = Inr out"
    using Cons.prems by (auto split: json.splits option.splits)
  from Cons.IH [OF this] have "length out \<le> length (fst (add_tag u c acc)) + length ts" .
  moreover have "length (fst (add_tag u c acc)) \<le> length (fst acc) + 1"
    by (cases acc) (auto simp: add_tag_def)
  ultimately show ?case by simp
qed simp

lemma canon_list_length: "canon_list u v = Inr ts \<Longrightarrow> length ts \<le> MAX_TAGS"
  using canon_loop_length [of u _ "([], {})" ts]
  by (fastforce simp: canon_list_def split: json.splits if_splits)

lemma clean_totp_Inr: "clean_totp L v = Inr x \<Longrightarrow> field_ok L ''totp'' x"
  by (auto simp: clean_totp_def field_ok_def invalid_def bad_request_def
      split: json.splits if_splits option.splits sum.splits)

lemma clean_field_Inr:
  assumes "clean_field u L allowed k v = Inr (Some x)"
  shows "k \<in> set allowed \<and> field_ok L k x"
proof -
  have a: "k \<in> set allowed" using assms by (auto simp: clean_field_def invalid_def split: if_splits)
  have "k = ''password'' \<or> k = ''notes'' \<or> k \<in> {''nickname'', ''title'', ''username''} \<or>
      k = ''domain'' \<or> k = ''sites'' \<or> k = ''totp'' \<or> k = ''tags''"
    using assms unfolding clean_field_def by (simp only: split: if_splits) (simp_all add: invalid_def)
  then have "field_ok L k x"
  proof (elim disjE)
    assume k: "k = ''password''"
    have "bindE (clean_text v k MAX_PASSWORD True) (\<lambda>s. if s = [] then invalid k else Inr (Some (F_text s)))
        = Inr (Some x)" using assms a unfolding k clean_field_def by simp
    then show ?thesis unfolding k
      by (auto simp: bindE_Inr_iff invalid_def field_ok_def dest!: clean_text_Inr split: if_splits)
  next
    assume k: "k = ''notes''"
    have "bindE (clean_text v k MAX_NOTES True) (\<lambda>s. Inr (Some (F_text s))) = Inr (Some x)"
      using assms a unfolding k clean_field_def by simp
    then show ?thesis unfolding k by (auto simp: bindE_Inr_iff field_ok_def dest!: clean_text_Inr)
  next
    assume k: "k \<in> {''nickname'', ''title'', ''username''}"
    have "bindE (clean_text v k MAX_TEXT False) (\<lambda>s. Inr (Some (F_text (strip s)))) = Inr (Some x)"
      using assms a k unfolding clean_field_def by auto
    then show ?thesis using k by (auto simp: bindE_Inr_iff field_ok_def text_ok_strip dest!: clean_text_Inr)
  next
    assume k: "k = ''domain''"
    have "(if v = JStr [] then Inr (Some (F_text []))
        else bindE (clean_host u v k) (\<lambda>h. Inr (Some (F_text h)))) = Inr (Some x)"
      using assms a unfolding k clean_field_def by simp
    then show ?thesis unfolding k
      by (auto simp: bindE_Inr_iff field_ok_def dest!: clean_host_Inr split: if_splits)
  next
    assume k: "k = ''sites''"
    have "(case v of JList vs \<Rightarrow> if length vs > MAX_SITES then invalid k
             else bindE (mapE (\<lambda>x. clean_host u x k) vs) (\<lambda>hs. Inr (Some (F_sites hs)))
         | _ \<Rightarrow> invalid k) = Inr (Some x)"
      using assms a unfolding k clean_field_def by simp
    then obtain vs hs where m: "mapE (\<lambda>x. clean_host u x k) vs = Inr hs" "length vs \<le> MAX_SITES"
      "x = F_sites hs"
      by (auto simp: bindE_Inr_iff invalid_def split: json.splits if_splits)
    have "host_ok h" if "h \<in> set hs" for h
      using mapE_mem [OF m(1) that] by (auto dest: clean_host_Inr)
    then show ?thesis using m mapE_length [OF m(1)] k by (simp add: field_ok_def list_all_iff)
  next
    assume k: "k = ''totp''"
    have "bindE (clean_totp L v) (\<lambda>x. Inr (Some x)) = Inr (Some x)"
      using assms a unfolding k clean_field_def by simp
    then show ?thesis unfolding k by (auto simp: bindE_Inr_iff dest: clean_totp_Inr)
  next
    assume k: "k = ''tags''"
    have "(case canon_list u v of Inl _ \<Rightarrow> invalid k | Inr ts \<Rightarrow> Inr (Some (F_tags ts))) = Inr (Some x)"
      using assms a unfolding k clean_field_def by simp
    then show ?thesis unfolding k
      by (auto simp: invalid_def field_ok_def canon_list_length split: sum.splits)
  qed
  with a show ?thesis ..
qed

lemma set_dset: "(k', x) \<in> set (dset k v d) \<Longrightarrow> (k' = k \<and> x = v) \<or> (k', x) \<in> set d"
  by (induction d) (auto simp: dset_def split: if_splits)

lemma fields_ok_dset:
  "fields_ok L allowed d \<Longrightarrow> k \<in> set allowed \<or> k = ''password'' \<Longrightarrow> field_ok L k x \<Longrightarrow>
   fields_ok L allowed (dset k x d)"
  by (auto simp: fields_ok_def list_all_iff dest!: set_dset)

lemma clean_fields_Inr:
  "clean_fields u L allowed kvs out = Inr out' \<Longrightarrow> fields_ok L allowed out \<Longrightarrow> fields_ok L allowed out'"
proof (induction u L allowed kvs out rule: clean_fields.induct)
  case (2 u L allowed k v kvs out)
  from 2(2) obtain x where x: "clean_field u L allowed k v = Inr x"
    "clean_fields u L allowed kvs (case x of None \<Rightarrow> out | Some y \<Rightarrow> dset k y out) = Inr out'"
    by (auto simp: bindE_Inr_iff)
  have "fields_ok L allowed (case x of None \<Rightarrow> out | Some y \<Rightarrow> dset k y out)"
    using 2(3) x(1) clean_field_Inr [of u L allowed k v]
    by (auto intro: fields_ok_dset split: option.splits)
  then show ?case by (rule 2(1) [OF x(2)])
qed simp

text \<open>
  Only clean values reach the vault. Whatever a window sends, an accepted edit holds only
  allowed fields, each within its bounds: passwords and notes without a NUL and not too long, one-
  line texts without control or direction characters, well-formed host names, at most the allowed
  number of sites and tags, and a code setup that parses.
\<close>

theorem accepted_fields_clean:
  assumes "validate_fields u L made fds gen allowed = Inr out"
    and "text_ok MAX_PASSWORD True made" and "made \<noteq> []"
  shows "fields_ok L allowed out"
proof -
  have base: "fields_ok L allowed out'" if "clean_fields u L allowed (dict_items fds) [] = Inr out'" for out'
    using clean_fields_Inr [OF that] by (simp add: fields_ok_def)
  have add: "fields_ok L allowed (dset ''password'' (F_text made) out')" if "fields_ok L allowed out'" for out'
    by (rule fields_ok_dset [OF that]) (simp_all add: field_ok_def assms(2,3))
  show ?thesis
    using assms(1) base add
    by (auto simp: validate_fields_def bindE_Inr_iff bad_request_def invalid_def
        split: option.splits json.splits if_splits)
qed

theorem accepted_fields_clean_witness:
  "\<exists>out. validate_fields ascii_db example_lib [120] [(''title'', JStr [72, 105])] (Some (JObj [])) CREATE_FIELDS = Inr out \<and>
     fields_ok example_lib CREATE_FIELDS out"
proof -
  have "\<exists>out. validate_fields ascii_db example_lib [120] [(''title'', JStr [72, 105])] (Some (JObj [])) CREATE_FIELDS = Inr out"
    by (simp add: validate_fields_def dict_items_def dset_def dget_def clean_field_def CREATE_FIELDS_def
        clean_text_def MAX_TEXT_def control_char_def)
  then obtain out where o: "validate_fields ascii_db example_lib [120] [(''title'', JStr [72, 105])]
      (Some (JObj [])) CREATE_FIELDS = Inr out" by blast
  from accepted_fields_clean [OF o] o show ?thesis
    by (auto simp: text_ok_def MAX_PASSWORD_def)
qed

end
