(* ===== verification/Sessions.thy ===== *)
theory Sessions
  imports Protocol Grants Tickets Polkit StoreLock Wire Frontend FieldRules
begin

text \<open>
  The registry: \<^verbatim>\<open>backend/icp/daemon/sessions.py\<close>. Connections, stores and dialogs are objects
  with an identity, so they live in heaps addressed by numbers; a session names its store and its
  connections by those numbers. Every method that does not await is a function on the registry.
\<close>

subsection \<open>Connections and events\<close>

datatype event =
    Ev_focus
  | Ev_locked string
  | Ev_grant_expired string
  | Ev_withdraw
  | Ev_state string
  | Ev_hosts nat
  | Ev_needs_login
  | Ev_sync_failed string "ustr option"
  | Ev_synced "wire_entry list" "real option" "(string \<times> int) list" features
  | Ev_clip "string option" "string option" string
  | Ev_migrated "(string \<times> int) list"
  | Ev_autofill string ustr string

record import_file =
  f_buf :: "nat list"
  f_seq :: int
  f_done :: bool
  f_sha256 :: string

record conn =
  c_uid :: int
  c_pid :: int
  c_pidfd :: int
  c_start :: int
  c_ppid :: int
  c_role :: role
  c_closed :: bool
  c_out :: "event list"
  c_ticket :: "ticket option"
  c_redeemed :: bool
  c_result :: "string option"
  c_files :: "(string \<times> import_file) list"
  c_key :: "nat list option"
  c_names :: "(nat \<times> ustr list) option"
  c_fill :: "nat option"

definition SEAL_STATES :: "string list" where
  "SEAL_STATES = [''tpm-missing'', ''tpm-cleared'', ''damaged'']"

subsection \<open>Sessions\<close>

type_synonym item_shape = "((ustr \<times> ustr) \<times> int \<times> ustr list \<times> ustr list) list"

record session =
  s_uid :: int
  s_store :: nat
  s_ui :: "nat option"
  tier1 :: "nat option"
  s_settings :: settings
  old_copy :: "(string \<times> json) list option"
  settings_loaded :: bool
  show_all :: bool
  grant_serial :: nat
  epoch :: nat
  busy :: "string option"
  signin :: "frontend option"
  migrating :: bool
  autofill_enabled :: bool
  s_features :: features
  s_shape :: "item_shape option"
  copy_texts :: "real list"
  autofill_key :: "nat option"
  autofill_conn :: "nat option"
  autofill_until :: real
  autofill_timer :: "real option"
  last_ui_request :: real
  next_sync_at :: "real option"
  wipe_after :: bool
  replacing :: bool
  created_ids :: "string list"

definition Session_init :: "int \<Rightarrow> nat \<Rightarrow> session" where
  "Session_init uid st =
     \<lparr>s_uid = uid, s_store = st, s_ui = None, tier1 = None, s_settings = DEFAULT_SETTINGS,
      old_copy = None, settings_loaded = False, show_all = False, grant_serial = 0, epoch = 0,
      busy = None, signin = None, migrating = False, autofill_enabled = False,
      s_features = DEFAULT_FEATURES, s_shape = None, copy_texts = [], autofill_key = None,
      autofill_conn = None, autofill_until = 0, autofill_timer = None, last_ui_request = 0,
      next_sync_at = None, wipe_after = False, replacing = False, created_ids = []\<rparr>"

text \<open>A dialog on screen; its cancellation id is its own number.\<close>

record prompt =
  p_conn :: nat
  p_rid :: "int option"
  p_action :: action
  p_cancelled :: bool
  p_key :: "int \<times> string"

text \<open>What a request leaves to be done after its reply.\<close>

datatype after_act =
    Notify_after int event
  | Sync_after int
  | List_after int nat "string option"

subsection \<open>What a coroutine waits for\<close>

text \<open>
  An exception a worker or a call raises, the statements of the event loop that can run while a
  coroutine is suspended, and the value it is resumed with. A run of a handler is given the list
  of its awaits; the theorems hold for every such list.
\<close>

datatype exn =
    X_op op_error
  | X_worker_cancelled
  | X_store_locked
  | X_not_found
  | X_seal err_code
  | X_seal_refused string
  | X_seal_unavailable
  | X_import_mismatch
  | X_wrong_passphrase
  | X_needs_login
  | X_not_signed_in
  | X_field_error ustr ustr
  | X_anisette
  | X_network
  | X_apple_error ustr
  | X_value_error
  | X_other
  | X_task_cancelled
  | X_blocked

datatype store_step = S_enter | S_unlock_keys | S_finally | S_release

datatype rev_event =
    R_lock int "string option" bool
  | R_detach nat
  | R_close nat
  | R_attach nat
  | R_touch nat
  | R_clock real
  | R_release int
  | R_grant_timer int nat
  | R_autofill_timer int nat
  | R_cancel nat int
  | R_check_expiry
  | R_store nat store_step
  | R_put_grant nat string nat
  | R_open_tier1 nat bool
  | R_open_autofill nat
  | R_new_window nat
  | R_busy int "string option"
  | R_prompt_begin nat int action
  | R_prompt_end nat
  | R_disk nat "string option"

record store_status =
  st_state :: string
  st_signed_in :: bool
  st_needs_login :: bool
  st_synced_at :: "real option"
  st_sealed_with :: "string option"

datatype 'm answer_value =
    V_unit
  | V_bool bool
  | V_str string
  | V_outcome outcome
  | V_status store_status
  | V_metas "'m list"
  | V_meta 'm
  | V_secrets addr
  | V_history "(ustr \<times> ustr \<times> string option) list"
  | V_json "(string \<times> json) list"
  | V_names "(string \<times> ustr) list"
  | V_store nat
  | V_counts "(string \<times> int) list" "real option" "item_shape option"
  | V_imported "(string \<times> int) list" string
  | V_indices "int list"
  | V_key "nat list"

type_synonym answer = "exn + meta answer_value"

record await =
  aw_events :: "rev_event list"
  aw_result :: answer
  aw_made :: "nat option"

text \<open>What a worker is asked to run: the name of the function and what it is given.\<close>

datatype call_arg =
    A_id string
  | A_fields "(string \<times> field_value) list"
  | A_settings "(string \<times> json) list"
  | A_names "(string \<times> ustr) list"
  | A_items "ustr list"
  | A_files "(string \<times> nat list) list"
  | A_key "nat list"
  | A_flag bool

type_synonym call = "string \<times> call_arg list"

subsection \<open>The registry\<close>

record reg =
  clock :: real
  wall :: real
  sessions :: "(int \<times> session) list"
  cobj :: "nat \<Rightarrow> conn"
  conns :: "nat list"
  stores :: "nat \<Rightarrow> ustore"
  disk_state :: "nat \<Rightarrow> string option"
  next_store :: nat
  book :: book
  gtab :: grant_table
  prompts :: "nat \<Rightarrow> prompt"
  next_prompt :: nat
  pend :: "((int \<times> string) \<times> nat) list"
  answered :: "((int \<times> string \<times> action) \<times> real list) list"
  grant_timers :: "(int \<times> real \<times> nat) list"
  cancels :: "nat list"
  next_key :: nat
  request :: "(nat \<times> int) option"
  after :: "after_act list"
  spawned :: "after_act list"
  script :: "await list"
  checks :: "(nat \<times> action \<times> (string \<times> ustr) list) list"
  db :: unidb
  awaiting :: "nat list"
  calls :: "(string \<times> call_arg list) list"

definition Conn_init :: "int \<Rightarrow> int \<Rightarrow> int \<Rightarrow> int \<Rightarrow> int \<Rightarrow> role \<Rightarrow> conn" where
  "Conn_init uid pid pidfd start ppid ro =
     \<lparr>c_uid = uid, c_pid = pid, c_pidfd = pidfd, c_start = start, c_ppid = ppid, c_role = ro,
      c_closed = False, c_out = [], c_ticket = None, c_redeemed = False, c_result = None,
      c_files = [], c_key = None, c_names = None, c_fill = None\<rparr>"

definition Registry_init :: reg where
  "Registry_init =
     \<lparr>clock = 0, wall = 0, sessions = [], cobj = (\<lambda>_. Conn_init 0 0 0 0 0 UI), conns = [],
      stores = (\<lambda>_. UserStore_init), disk_state = (\<lambda>_. Some ''locked''), next_store = 0,
      book = TicketBook_init, gtab = GrantTable_init \<lparr>objs = (\<lambda>_. None), bufs = (\<lambda>_. None)\<rparr>,
      prompts = (\<lambda>_. \<lparr>p_conn = 0, p_rid = None, p_action = Act_unlock, p_cancelled = True, p_key = (0, [])\<rparr>),
      next_prompt = 0, pend = [], answered = [], grant_timers = [], cancels = [], next_key = 0,
      request = None, after = [], spawned = [], script = [], checks = [],
      db = ascii_db,
      awaiting = [], calls = []\<rparr>"

definition get_s :: "int \<Rightarrow> reg \<Rightarrow> session option" where
  "get_s uid r = dget (sessions r) uid"

text \<open>Assigning attributes of the uid's session, of a connection and of a store object.\<close>

definition upd_s :: "int \<Rightarrow> (session \<Rightarrow> session) \<Rightarrow> reg \<Rightarrow> reg" where
  "upd_s uid f r =
     (case dget (sessions r) uid of
        None \<Rightarrow> r
      | Some s \<Rightarrow> r\<lparr>sessions := dset uid (f s) (sessions r)\<rparr>)"

definition upd_c :: "nat \<Rightarrow> (conn \<Rightarrow> conn) \<Rightarrow> reg \<Rightarrow> reg" where
  "upd_c c f r = r\<lparr>cobj := (cobj r)(c := f (cobj r c))\<rparr>"

definition upd_store :: "nat \<Rightarrow> (ustore \<Rightarrow> ustore) \<Rightarrow> reg \<Rightarrow> reg" where
  "upd_store n f r = r\<lparr>stores := (stores r)(n := f (stores r n))\<rparr>"

subsection \<open>Events out\<close>

definition send_event :: "nat \<Rightarrow> event \<Rightarrow> reg \<Rightarrow> reg" where
  "send_event c ev r =
     (if c_closed (cobj r c) then r else upd_c c (\<lambda>x. x\<lparr>c_out := c_out x @ [ev]\<rparr>) r)"

definition close_conn :: "nat \<Rightarrow> reg \<Rightarrow> reg" where
  "close_conn c r = upd_c c (\<lambda>x. x\<lparr>c_closed := True\<rparr>) r"

definition unlocked :: "reg \<Rightarrow> session \<Rightarrow> bool" where
  "unlocked r s =
     (case tier1 s of None \<Rightarrow> False | Some t \<Rightarrow> s_ui s = Some t \<and> \<not> c_closed (cobj r t))"

definition connections :: "int \<Rightarrow> role \<Rightarrow> reg \<Rightarrow> nat list" where
  "connections uid ro r =
     filter (\<lambda>c. c_uid (cobj r c) = uid \<and> c_role (cobj r c) = ro \<and> \<not> c_closed (cobj r c)) (conns r)"

definition notify_ui :: "int \<Rightarrow> event \<Rightarrow> reg \<Rightarrow> reg" where
  "notify_ui uid ev r =
     (case get_s uid r of
        None \<Rightarrow> r
      | Some s \<Rightarrow> (case s_ui s of
          None \<Rightarrow> r
        | Some c \<Rightarrow> if c_closed (cobj r c) then r else send_event c ev r))"

text \<open>\<^verbatim>\<open>after_reply\<close>: queued inside a request, done at once outside one.\<close>

definition run_after :: "after_act \<Rightarrow> reg \<Rightarrow> reg" where
  "run_after a r =
     (case a of
        Notify_after uid ev \<Rightarrow> notify_ui uid ev r
      | _ \<Rightarrow> r\<lparr>spawned := spawned r @ [a]\<rparr>)"

definition after_reply :: "after_act \<Rightarrow> reg \<Rightarrow> reg" where
  "after_reply a r =
     (if request r = None then run_after a r else r\<lparr>after := after r @ [a]\<rparr>)"

text \<open>\<^verbatim>\<open>_run_after\<close> of the server.\<close>

definition flush_after :: "reg \<Rightarrow> reg" where
  "flush_after r = fold run_after (after r) (r\<lparr>after := []\<rparr>)"

subsection \<open>Autofill hosts\<close>

definition autofill_state :: "reg \<Rightarrow> session option \<Rightarrow> string" where
  "autofill_state r so =
     (case so of
        None \<Rightarrow> ''locked''
      | Some s \<Rightarrow>
          if unlocked r s then ''unlocked''
          else (case disk_state r (s_store s) of
              None \<Rightarrow> ''unavailable''
            | Some st \<Rightarrow>
                if st = ''empty'' \<or> st \<in> set SEAL_STATES then ''unavailable'' else ''locked''))"

definition notify_autofill_hosts :: "int \<Rightarrow> reg \<Rightarrow> reg" where
  "notify_autofill_hosts uid r =
     notify_ui uid (Ev_hosts (length (connections uid Autofill r))) r"

definition notify_autofill :: "int \<Rightarrow> reg \<Rightarrow> reg" where
  "notify_autofill uid r =
     (let st = autofill_state r (get_s uid r) in
      fold (\<lambda>c. send_event c (Ev_state st)) (connections uid Autofill r) r)"

definition withdraw_one :: "int \<Rightarrow> role list \<Rightarrow> nat \<Rightarrow> reg \<Rightarrow> reg" where
  "withdraw_one uid ros c r =
     (if c_uid (cobj r c) = uid \<and> c_role (cobj r c) \<in> set ros \<and> \<not> c_closed (cobj r c)
      then close_conn c (if c_role (cobj r c) \<noteq> Autofill then send_event c Ev_withdraw r else r)
      else r)"

definition withdraw :: "int \<Rightarrow> role list \<Rightarrow> reg \<Rightarrow> reg" where
  "withdraw uid ros r = fold (withdraw_one uid ros) (conns r) r"

subsection \<open>Grants\<close>

definition cancel_timer :: "int \<Rightarrow> reg \<Rightarrow> reg" where
  "cancel_timer uid r = r\<lparr>grant_timers := ddel uid (grant_timers r)\<rparr>"

definition drop_grant :: "int \<Rightarrow> bool \<Rightarrow> reg \<Rightarrow> reg" where
  "drop_grant uid ev r =
     (let r1 = cancel_timer uid r; (t, gid) = drop_g uid (gtab r1); r2 = r1\<lparr>gtab := t\<rparr> in
      case gid of
        None \<Rightarrow> r2
      | Some i \<Rightarrow> if ev then after_reply (Notify_after uid (Ev_grant_expired i)) r2 else r2)"

definition end_grant :: "int \<Rightarrow> reg \<Rightarrow> reg" where
  "end_grant uid r =
     (let r1 = cancel_timer uid r; (t, gid) = end_g uid (gtab r1); r2 = r1\<lparr>gtab := t\<rparr> in
      case gid of
        None \<Rightarrow> r2
      | Some i \<Rightarrow> after_reply (Notify_after uid (Ev_grant_expired i)) r2)"

definition put_grant :: "session \<Rightarrow> string \<Rightarrow> addr \<Rightarrow> reg \<Rightarrow> reg \<times> grant" where
  "put_grant s i a r =
     (let r1 = drop_grant (s_uid s) True r;
          (t, g) = put_g (clock r1) (wall r1) (s_uid s) i a (grant_s (s_settings s)) (gtab r1);
          r2 = r1\<lparr>gtab := t\<rparr> in
      (if single_use g then r2
       else r2\<lparr>grant_timers := dset (s_uid s)
              (clock r2 + of_int (grant_s (s_settings s)), g_ref g) (grant_timers r2)\<rparr>, g))"

definition grant_timeout :: "int \<Rightarrow> nat \<Rightarrow> reg \<Rightarrow> reg" where
  "grant_timeout uid ref r =
     (case current_g uid (gtab r) of
        None \<Rightarrow> r
      | Some g \<Rightarrow> if g_ref g = ref then end_grant uid r else r)"

definition release_grant :: "int \<Rightarrow> reg \<Rightarrow> reg" where
  "release_grant uid r =
     drop_grant uid True (upd_s uid (\<lambda>s. s\<lparr>grant_serial := grant_serial s + 1\<rparr>) r)"

definition check_grant_expiry :: "reg \<Rightarrow> reg" where
  "check_grant_expiry r = fold (\<lambda>(uid, _). end_grant uid) (due_g (clock r) (gtab r)) r"

definition grant_check :: "int \<Rightarrow> string \<Rightarrow> reg \<Rightarrow> reg \<times> (op_error + grant)" where
  "grant_check uid i r =
     (let r1 = check_grant_expiry r; (t, res) = check_g (clock r1) uid i (gtab r1) in
      (r1\<lparr>gtab := t\<rparr>, res))"

definition grant_use :: "int \<Rightarrow> string \<Rightarrow> reg \<Rightarrow> reg \<times> (op_error + grant \<times> bool)" where
  "grant_use uid i r =
     (let r1 = check_grant_expiry r; (t, res) = use_g (clock r1) uid i (gtab r1) in
      (r1\<lparr>gtab := t\<rparr>, res))"

subsection \<open>Dialogs\<close>

definition cancel_one :: "nat \<Rightarrow> reg \<Rightarrow> reg" where
  "cancel_one p r =
     (if p_cancelled (prompts r p) then r
      else (let r1 = r\<lparr>prompts := (prompts r)(p := (prompts r p)\<lparr>p_cancelled := True\<rparr>)\<rparr>;
                k = p_key (prompts r p) in
        (if dget (pend r1) k = Some p then r1\<lparr>pend := ddel k (pend r1)\<rparr> else r1)
          \<lparr>cancels := cancels r @ [p]\<rparr>))"

definition prompt_matches ::
  "int option \<Rightarrow> nat option \<Rightarrow> int option \<Rightarrow> action option \<Rightarrow> reg \<Rightarrow> nat \<Rightarrow> bool" where
  "prompt_matches uid c rid act r p \<longleftrightarrow>
     (uid = None \<or> uid = Some (c_uid (cobj r (p_conn (prompts r p))))) \<and>
     (c = None \<or> c = Some (p_conn (prompts r p))) \<and>
     (rid = None \<or> p_rid (prompts r p) = rid) \<and>
     (act = None \<or> act = Some (p_action (prompts r p)))"

definition cancel_prompts ::
  "int option \<Rightarrow> nat option \<Rightarrow> int option \<Rightarrow> action option \<Rightarrow> reg \<Rightarrow> reg \<times> nat" where
  "cancel_prompts uid c rid act r =
     (let ps = filter (prompt_matches uid c rid act r) (map snd (pend r)) in
      (fold cancel_one ps r, length ps))"

definition prompt_pending :: "int \<Rightarrow> string \<Rightarrow> reg \<Rightarrow> bool" where
  "prompt_pending uid bucket r \<longleftrightarrow> dget (pend r) (uid, bucket) \<noteq> None"

subsection \<open>Locking\<close>

definition clear_autofill :: "int \<Rightarrow> reg \<Rightarrow> reg" where
  "clear_autofill uid r =
     upd_s uid (\<lambda>s. s\<lparr>autofill_conn := None, autofill_until := 0, autofill_timer := None\<rparr>) r"

text \<open>\<^verbatim>\<open>_wipe_store\<close>: never waits; a busy store is left flagged.\<close>

definition wipe_store :: "int \<Rightarrow> reg \<Rightarrow> reg" where
  "wipe_store uid r =
     (case get_s uid r of
        None \<Rightarrow> r
      | Some s \<Rightarrow>
          (let (u, ok) = try_lock (stores r (s_store s)); r1 = upd_store (s_store s) (\<lambda>_. u) r in
           if ok \<and> \<not> replacing s then upd_s uid (\<lambda>s. s\<lparr>wipe_after := False\<rparr>) r1
           else upd_s uid (\<lambda>s. s\<lparr>wipe_after := True\<rparr>) r1))"

definition lock_session :: "session \<Rightarrow> session" where
  "lock_session s = s\<lparr>tier1 := None, show_all := False, autofill_key := None, s_shape := None,
     epoch := epoch s + 1, next_sync_at := None\<rparr>"

definition cancel_signin :: "int \<Rightarrow> reg \<Rightarrow> reg" where
  "cancel_signin uid r = upd_s uid (\<lambda>s. s\<lparr>signin := map_option fe_cancel (signin s)\<rparr>) r"

definition lock_core :: "int \<Rightarrow> reg \<Rightarrow> reg" where
  "lock_core uid r =
     (let r1 = upd_s uid lock_session (clear_autofill uid r);
          r2 = drop_grant uid False r1;
          r3 = r2\<lparr>book := fst (revoke_uid uid None (book r2))\<rparr>;
          r4 = withdraw uid [Clip, Migrate] r3;
          r5 = fst (cancel_prompts (Some uid) None None None r4);
          r6 = cancel_signin uid r5 in
      wipe_store uid r6)"

definition lock :: "int \<Rightarrow> string option \<Rightarrow> bool \<Rightarrow> reg \<Rightarrow> reg \<times> bool" where
  "lock uid reason notify r =
     (case get_s uid r of
        None \<Rightarrow> (r, False)
      | Some s \<Rightarrow>
          (let was = (tier1 s \<noteq> None); was_af = (autofill_conn s \<noteq> None);
               r7 = lock_core uid r;
               r8 = (case reason of
                   Some why \<Rightarrow> if notify \<and> (was \<or> why = ''user'') then notify_ui uid (Ev_locked why) r7 else r7
                 | None \<Rightarrow> r7);
               r9 = (if was \<or> was_af then notify_autofill uid r8 else r8) in
           (r9, was)))"

definition lock_all :: "string \<Rightarrow> reg \<Rightarrow> reg" where
  "lock_all reason r = fold (\<lambda>uid r. fst (lock uid (Some reason) True r)) (map fst (sessions r)) r"

definition wipes_pending :: "reg \<Rightarrow> bool" where
  "wipes_pending r \<longleftrightarrow> list_ex (\<lambda>(_, s). wipe_after s) (sessions r)"

definition active :: "reg \<Rightarrow> bool" where
  "active r \<longleftrightarrow> conns r \<noteq> [] \<or> list_ex (\<lambda>(_, s). unlocked r s) (sessions r)"

subsection \<open>Tier 1 and the browser's unlock\<close>

definition touch_autofill :: "int \<Rightarrow> nat \<Rightarrow> reg \<Rightarrow> reg" where
  "touch_autofill uid c r =
     upd_s uid (\<lambda>s. if autofill_conn s \<noteq> Some c then s
       else s\<lparr>autofill_until := clock r + AUTOFILL_OPEN_S,
              autofill_timer := Some (clock r + AUTOFILL_OPEN_S)\<rparr>) r"

definition open_tier1 :: "int \<Rightarrow> nat \<Rightarrow> bool \<Rightarrow> reg \<Rightarrow> reg" where
  "open_tier1 uid c all r =
     notify_autofill uid
       ((upd_s uid (\<lambda>s. s\<lparr>tier1 := Some c, show_all := all, autofill_key := Some (next_key r),
           next_sync_at := None, last_ui_request := clock r\<rparr>) r)\<lparr>next_key := Suc (next_key r)\<rparr>)"

definition open_autofill :: "int \<Rightarrow> nat \<Rightarrow> reg \<Rightarrow> reg" where
  "open_autofill uid c r =
     (let r1 = (upd_s uid (\<lambda>s. s\<lparr>autofill_conn := Some c,
             autofill_key := (case autofill_key s of None \<Rightarrow> Some (next_key r) | Some k \<Rightarrow> Some k)\<rparr>) r)
           \<lparr>next_key := Suc (next_key r)\<rparr> in
      notify_autofill uid (touch_autofill uid c r1))"

definition autofill_open :: "reg \<Rightarrow> session option \<Rightarrow> nat \<Rightarrow> bool" where
  "autofill_open r so c =
     (case so of
        None \<Rightarrow> False
      | Some s \<Rightarrow> autofill_conn s = Some c \<and> \<not> c_closed (cobj r c) \<and> clock r < autofill_until s)"

definition close_autofill :: "int \<Rightarrow> reg \<Rightarrow> reg" where
  "close_autofill uid r =
     (case get_s uid r of
        None \<Rightarrow> r
      | Some s \<Rightarrow>
          if autofill_conn s = None then r
          else if unlocked r s then clear_autofill uid r
          else fst (lock uid (Some ''autofill-timeout'') False r))"

definition autofill_timeout :: "int \<Rightarrow> nat \<Rightarrow> reg \<Rightarrow> reg" where
  "autofill_timeout uid c r =
     (case get_s uid r of
        None \<Rightarrow> r
      | Some s \<Rightarrow>
          if autofill_conn s \<noteq> Some c then r
          else if clock r < autofill_until s then r
          else close_autofill uid r)"

subsection \<open>Connections come and go\<close>

definition attach :: "nat \<Rightarrow> reg \<Rightarrow> reg" where
  "attach c r =
     (let r1 = r\<lparr>conns := (if c \<in> set (conns r) then conns r else conns r @ [c])\<rparr> in
      if c_role (cobj r1 c) = Autofill then notify_autofill_hosts (c_uid (cobj r1 c)) r1 else r1)"

definition detach_ui :: "nat \<Rightarrow> int \<Rightarrow> reg \<Rightarrow> reg" where
  "detach_ui c uid r =
     (case get_s uid r of
        None \<Rightarrow> r
      | Some s \<Rightarrow>
          if c_role (cobj r c) = UI \<and> s_ui s = Some c
          then upd_s uid (\<lambda>s. s\<lparr>s_ui := None\<rparr>) (fst (lock uid None False r))
          else r)"

definition detach :: "nat \<Rightarrow> reg \<Rightarrow> reg" where
  "detach c r =
     (let uid = c_uid (cobj r c); was = (c \<in> set (conns r));
          r1 = r\<lparr>conns := filter (\<lambda>x. x \<noteq> c) (conns r)\<rparr>;
          r2 = fst (cancel_prompts None (Some c) None None r1);
          r3 = (if was \<and> c_role (cobj r c) = Autofill then notify_autofill_hosts uid r2 else r2) in
      case get_s uid r3 of
        None \<Rightarrow> r3
      | Some s \<Rightarrow>
          detach_ui c uid
            (if c_role (cobj r c) = Autofill \<and> autofill_conn s = Some c
             then close_autofill uid r3 else r3))"

definition touch :: "nat \<Rightarrow> reg \<Rightarrow> reg" where
  "touch c r =
     (if c_role (cobj r c) = UI
      then upd_s (c_uid (cobj r c))
             (\<lambda>s. if s_ui s = Some c then s\<lparr>last_ui_request := clock r\<rparr> else s) r
      else r)"

subsection \<open>What the operations leave alone\<close>

lemma fold_frame: "(\<And>x r. P (f x r) = P r) \<Longrightarrow> P (fold f xs r) = P r"
  by (induction xs arbitrary: r) simp_all

lemma send_event_frame [simp]:
  "clock (send_event d ev r) = clock r"
  "wall (send_event d ev r) = wall r"
  "sessions (send_event d ev r) = sessions r"
  "conns (send_event d ev r) = conns r"
  "stores (send_event d ev r) = stores r"
  "disk_state (send_event d ev r) = disk_state r"
  "next_store (send_event d ev r) = next_store r"
  "book (send_event d ev r) = book r"
  "gtab (send_event d ev r) = gtab r"
  "prompts (send_event d ev r) = prompts r"
  "next_prompt (send_event d ev r) = next_prompt r"
  "pend (send_event d ev r) = pend r"
  "answered (send_event d ev r) = answered r"
  "grant_timers (send_event d ev r) = grant_timers r"
  "cancels (send_event d ev r) = cancels r"
  "next_key (send_event d ev r) = next_key r"
  "request (send_event d ev r) = request r"
  "script (send_event d ev r) = script r"
  "checks (send_event d ev r) = checks r"
  "db (send_event d ev r) = db r"
  "calls (send_event d ev r) = calls r"
  "awaiting (send_event d ev r) = awaiting r"
  "c_uid (cobj (send_event d ev r) c) = c_uid (cobj r c)"
  "c_role (cobj (send_event d ev r) c) = c_role (cobj r c)"
  "c_closed (cobj (send_event d ev r) c) = c_closed (cobj r c)"
  "c_ticket (cobj (send_event d ev r) c) = c_ticket (cobj r c)"
  "after (send_event d ev r) = after r"
  "spawned (send_event d ev r) = spawned r"
  by (simp_all add: send_event_def upd_c_def)

lemma close_conn_frame [simp]:
  "clock (close_conn d r) = clock r"
  "wall (close_conn d r) = wall r"
  "sessions (close_conn d r) = sessions r"
  "conns (close_conn d r) = conns r"
  "stores (close_conn d r) = stores r"
  "disk_state (close_conn d r) = disk_state r"
  "next_store (close_conn d r) = next_store r"
  "book (close_conn d r) = book r"
  "gtab (close_conn d r) = gtab r"
  "prompts (close_conn d r) = prompts r"
  "next_prompt (close_conn d r) = next_prompt r"
  "pend (close_conn d r) = pend r"
  "answered (close_conn d r) = answered r"
  "grant_timers (close_conn d r) = grant_timers r"
  "cancels (close_conn d r) = cancels r"
  "next_key (close_conn d r) = next_key r"
  "request (close_conn d r) = request r"
  "script (close_conn d r) = script r"
  "checks (close_conn d r) = checks r"
  "db (close_conn d r) = db r"
  "calls (close_conn d r) = calls r"
  "awaiting (close_conn d r) = awaiting r"
  "c_uid (cobj (close_conn d r) c) = c_uid (cobj r c)"
  "c_role (cobj (close_conn d r) c) = c_role (cobj r c)"
  "after (close_conn d r) = after r"
  "spawned (close_conn d r) = spawned r"
  by (simp_all add: close_conn_def upd_c_def)

lemma notify_ui_frame [simp]:
  "clock (notify_ui uid ev r) = clock r"
  "wall (notify_ui uid ev r) = wall r"
  "sessions (notify_ui uid ev r) = sessions r"
  "conns (notify_ui uid ev r) = conns r"
  "stores (notify_ui uid ev r) = stores r"
  "disk_state (notify_ui uid ev r) = disk_state r"
  "next_store (notify_ui uid ev r) = next_store r"
  "book (notify_ui uid ev r) = book r"
  "gtab (notify_ui uid ev r) = gtab r"
  "prompts (notify_ui uid ev r) = prompts r"
  "next_prompt (notify_ui uid ev r) = next_prompt r"
  "pend (notify_ui uid ev r) = pend r"
  "answered (notify_ui uid ev r) = answered r"
  "grant_timers (notify_ui uid ev r) = grant_timers r"
  "cancels (notify_ui uid ev r) = cancels r"
  "next_key (notify_ui uid ev r) = next_key r"
  "request (notify_ui uid ev r) = request r"
  "script (notify_ui uid ev r) = script r"
  "checks (notify_ui uid ev r) = checks r"
  "db (notify_ui uid ev r) = db r"
  "calls (notify_ui uid ev r) = calls r"
  "awaiting (notify_ui uid ev r) = awaiting r"
  "c_uid (cobj (notify_ui uid ev r) c) = c_uid (cobj r c)"
  "c_role (cobj (notify_ui uid ev r) c) = c_role (cobj r c)"
  "c_closed (cobj (notify_ui uid ev r) c) = c_closed (cobj r c)"
  "c_ticket (cobj (notify_ui uid ev r) c) = c_ticket (cobj r c)"
  "after (notify_ui uid ev r) = after r"
  "spawned (notify_ui uid ev r) = spawned r"
  by (simp_all add: notify_ui_def split: option.splits)

lemma run_after_frame [simp]:
  "clock (run_after a r) = clock r"
  "wall (run_after a r) = wall r"
  "sessions (run_after a r) = sessions r"
  "conns (run_after a r) = conns r"
  "stores (run_after a r) = stores r"
  "disk_state (run_after a r) = disk_state r"
  "next_store (run_after a r) = next_store r"
  "book (run_after a r) = book r"
  "gtab (run_after a r) = gtab r"
  "prompts (run_after a r) = prompts r"
  "next_prompt (run_after a r) = next_prompt r"
  "pend (run_after a r) = pend r"
  "answered (run_after a r) = answered r"
  "grant_timers (run_after a r) = grant_timers r"
  "cancels (run_after a r) = cancels r"
  "next_key (run_after a r) = next_key r"
  "request (run_after a r) = request r"
  "script (run_after a r) = script r"
  "checks (run_after a r) = checks r"
  "db (run_after a r) = db r"
  "calls (run_after a r) = calls r"
  "awaiting (run_after a r) = awaiting r"
  "c_uid (cobj (run_after a r) c) = c_uid (cobj r c)"
  "c_role (cobj (run_after a r) c) = c_role (cobj r c)"
  "c_closed (cobj (run_after a r) c) = c_closed (cobj r c)"
  "c_ticket (cobj (run_after a r) c) = c_ticket (cobj r c)"
  "after (run_after a r) = after r"
  by (simp_all add: run_after_def split: after_act.splits)

lemma after_reply_frame [simp]:
  "clock (after_reply a r) = clock r"
  "wall (after_reply a r) = wall r"
  "sessions (after_reply a r) = sessions r"
  "conns (after_reply a r) = conns r"
  "stores (after_reply a r) = stores r"
  "disk_state (after_reply a r) = disk_state r"
  "next_store (after_reply a r) = next_store r"
  "book (after_reply a r) = book r"
  "gtab (after_reply a r) = gtab r"
  "prompts (after_reply a r) = prompts r"
  "next_prompt (after_reply a r) = next_prompt r"
  "pend (after_reply a r) = pend r"
  "answered (after_reply a r) = answered r"
  "grant_timers (after_reply a r) = grant_timers r"
  "cancels (after_reply a r) = cancels r"
  "next_key (after_reply a r) = next_key r"
  "request (after_reply a r) = request r"
  "script (after_reply a r) = script r"
  "checks (after_reply a r) = checks r"
  "db (after_reply a r) = db r"
  "calls (after_reply a r) = calls r"
  "awaiting (after_reply a r) = awaiting r"
  "c_uid (cobj (after_reply a r) c) = c_uid (cobj r c)"
  "c_role (cobj (after_reply a r) c) = c_role (cobj r c)"
  "c_closed (cobj (after_reply a r) c) = c_closed (cobj r c)"
  "c_ticket (cobj (after_reply a r) c) = c_ticket (cobj r c)"
  by (simp_all add: after_reply_def)

lemma notify_autofill_hosts_frame [simp]:
  "clock (notify_autofill_hosts uid r) = clock r"
  "wall (notify_autofill_hosts uid r) = wall r"
  "sessions (notify_autofill_hosts uid r) = sessions r"
  "conns (notify_autofill_hosts uid r) = conns r"
  "stores (notify_autofill_hosts uid r) = stores r"
  "disk_state (notify_autofill_hosts uid r) = disk_state r"
  "next_store (notify_autofill_hosts uid r) = next_store r"
  "book (notify_autofill_hosts uid r) = book r"
  "gtab (notify_autofill_hosts uid r) = gtab r"
  "prompts (notify_autofill_hosts uid r) = prompts r"
  "next_prompt (notify_autofill_hosts uid r) = next_prompt r"
  "pend (notify_autofill_hosts uid r) = pend r"
  "answered (notify_autofill_hosts uid r) = answered r"
  "grant_timers (notify_autofill_hosts uid r) = grant_timers r"
  "cancels (notify_autofill_hosts uid r) = cancels r"
  "next_key (notify_autofill_hosts uid r) = next_key r"
  "request (notify_autofill_hosts uid r) = request r"
  "script (notify_autofill_hosts uid r) = script r"
  "checks (notify_autofill_hosts uid r) = checks r"
  "db (notify_autofill_hosts uid r) = db r"
  "calls (notify_autofill_hosts uid r) = calls r"
  "awaiting (notify_autofill_hosts uid r) = awaiting r"
  "c_uid (cobj (notify_autofill_hosts uid r) c) = c_uid (cobj r c)"
  "c_role (cobj (notify_autofill_hosts uid r) c) = c_role (cobj r c)"
  "c_closed (cobj (notify_autofill_hosts uid r) c) = c_closed (cobj r c)"
  "c_ticket (cobj (notify_autofill_hosts uid r) c) = c_ticket (cobj r c)"
  "after (notify_autofill_hosts uid r) = after r"
  "spawned (notify_autofill_hosts uid r) = spawned r"
  by (simp_all add: notify_autofill_hosts_def)

lemma withdraw_frame [simp]:
  "clock (withdraw uid ros r) = clock r"
  "wall (withdraw uid ros r) = wall r"
  "sessions (withdraw uid ros r) = sessions r"
  "conns (withdraw uid ros r) = conns r"
  "stores (withdraw uid ros r) = stores r"
  "disk_state (withdraw uid ros r) = disk_state r"
  "next_store (withdraw uid ros r) = next_store r"
  "book (withdraw uid ros r) = book r"
  "gtab (withdraw uid ros r) = gtab r"
  "prompts (withdraw uid ros r) = prompts r"
  "next_prompt (withdraw uid ros r) = next_prompt r"
  "pend (withdraw uid ros r) = pend r"
  "answered (withdraw uid ros r) = answered r"
  "grant_timers (withdraw uid ros r) = grant_timers r"
  "cancels (withdraw uid ros r) = cancels r"
  "next_key (withdraw uid ros r) = next_key r"
  "request (withdraw uid ros r) = request r"
  "script (withdraw uid ros r) = script r"
  "checks (withdraw uid ros r) = checks r"
  "db (withdraw uid ros r) = db r"
  "calls (withdraw uid ros r) = calls r"
  "awaiting (withdraw uid ros r) = awaiting r"
  "c_uid (cobj (withdraw uid ros r) c) = c_uid (cobj r c)"
  "c_role (cobj (withdraw uid ros r) c) = c_role (cobj r c)"
  "after (withdraw uid ros r) = after r"
  "spawned (withdraw uid ros r) = spawned r"
  unfolding withdraw_def
  apply (rule fold_frame [of "\<lambda>r. clock r"], simp add: withdraw_one_def)
  apply (rule fold_frame [of "\<lambda>r. wall r"], simp add: withdraw_one_def)
  apply (rule fold_frame [of "\<lambda>r. sessions r"], simp add: withdraw_one_def)
  apply (rule fold_frame [of "\<lambda>r. conns r"], simp add: withdraw_one_def)
  apply (rule fold_frame [of "\<lambda>r. stores r"], simp add: withdraw_one_def)
  apply (rule fold_frame [of "\<lambda>r. disk_state r"], simp add: withdraw_one_def)
  apply (rule fold_frame [of "\<lambda>r. next_store r"], simp add: withdraw_one_def)
  apply (rule fold_frame [of "\<lambda>r. book r"], simp add: withdraw_one_def)
  apply (rule fold_frame [of "\<lambda>r. gtab r"], simp add: withdraw_one_def)
  apply (rule fold_frame [of "\<lambda>r. prompts r"], simp add: withdraw_one_def)
  apply (rule fold_frame [of "\<lambda>r. next_prompt r"], simp add: withdraw_one_def)
  apply (rule fold_frame [of "\<lambda>r. pend r"], simp add: withdraw_one_def)
  apply (rule fold_frame [of "\<lambda>r. answered r"], simp add: withdraw_one_def)
  apply (rule fold_frame [of "\<lambda>r. grant_timers r"], simp add: withdraw_one_def)
  apply (rule fold_frame [of "\<lambda>r. cancels r"], simp add: withdraw_one_def)
  apply (rule fold_frame [of "\<lambda>r. next_key r"], simp add: withdraw_one_def)
  apply (rule fold_frame [of "\<lambda>r. request r"], simp add: withdraw_one_def)
  apply (rule fold_frame [of "\<lambda>r. script r"], simp add: withdraw_one_def)
  apply (rule fold_frame [of "\<lambda>r. checks r"], simp add: withdraw_one_def)
  apply (rule fold_frame [of "\<lambda>r. db r"], simp add: withdraw_one_def)
  apply (rule fold_frame [of "\<lambda>r. calls r"], simp add: withdraw_one_def)
  apply (rule fold_frame [of "\<lambda>r. awaiting r"], simp add: withdraw_one_def)
  apply (rule fold_frame [of "\<lambda>r. c_uid (cobj r c)"], simp add: withdraw_one_def)
  apply (rule fold_frame [of "\<lambda>r. c_role (cobj r c)"], simp add: withdraw_one_def)
  apply (rule fold_frame [of "\<lambda>r. after r"], simp add: withdraw_one_def)
  apply (rule fold_frame [of "\<lambda>r. spawned r"], simp add: withdraw_one_def)
  done

lemma notify_autofill_frame [simp]:
  "clock (notify_autofill uid r) = clock r"
  "wall (notify_autofill uid r) = wall r"
  "sessions (notify_autofill uid r) = sessions r"
  "conns (notify_autofill uid r) = conns r"
  "stores (notify_autofill uid r) = stores r"
  "disk_state (notify_autofill uid r) = disk_state r"
  "next_store (notify_autofill uid r) = next_store r"
  "book (notify_autofill uid r) = book r"
  "gtab (notify_autofill uid r) = gtab r"
  "prompts (notify_autofill uid r) = prompts r"
  "next_prompt (notify_autofill uid r) = next_prompt r"
  "pend (notify_autofill uid r) = pend r"
  "answered (notify_autofill uid r) = answered r"
  "grant_timers (notify_autofill uid r) = grant_timers r"
  "cancels (notify_autofill uid r) = cancels r"
  "next_key (notify_autofill uid r) = next_key r"
  "request (notify_autofill uid r) = request r"
  "script (notify_autofill uid r) = script r"
  "checks (notify_autofill uid r) = checks r"
  "db (notify_autofill uid r) = db r"
  "calls (notify_autofill uid r) = calls r"
  "awaiting (notify_autofill uid r) = awaiting r"
  "c_uid (cobj (notify_autofill uid r) c) = c_uid (cobj r c)"
  "c_role (cobj (notify_autofill uid r) c) = c_role (cobj r c)"
  "c_closed (cobj (notify_autofill uid r) c) = c_closed (cobj r c)"
  "c_ticket (cobj (notify_autofill uid r) c) = c_ticket (cobj r c)"
  "after (notify_autofill uid r) = after r"
  "spawned (notify_autofill uid r) = spawned r"
  unfolding notify_autofill_def Let_def
  apply (rule fold_frame [of "\<lambda>r. clock r"], simp)
  apply (rule fold_frame [of "\<lambda>r. wall r"], simp)
  apply (rule fold_frame [of "\<lambda>r. sessions r"], simp)
  apply (rule fold_frame [of "\<lambda>r. conns r"], simp)
  apply (rule fold_frame [of "\<lambda>r. stores r"], simp)
  apply (rule fold_frame [of "\<lambda>r. disk_state r"], simp)
  apply (rule fold_frame [of "\<lambda>r. next_store r"], simp)
  apply (rule fold_frame [of "\<lambda>r. book r"], simp)
  apply (rule fold_frame [of "\<lambda>r. gtab r"], simp)
  apply (rule fold_frame [of "\<lambda>r. prompts r"], simp)
  apply (rule fold_frame [of "\<lambda>r. next_prompt r"], simp)
  apply (rule fold_frame [of "\<lambda>r. pend r"], simp)
  apply (rule fold_frame [of "\<lambda>r. answered r"], simp)
  apply (rule fold_frame [of "\<lambda>r. grant_timers r"], simp)
  apply (rule fold_frame [of "\<lambda>r. cancels r"], simp)
  apply (rule fold_frame [of "\<lambda>r. next_key r"], simp)
  apply (rule fold_frame [of "\<lambda>r. request r"], simp)
  apply (rule fold_frame [of "\<lambda>r. script r"], simp)
  apply (rule fold_frame [of "\<lambda>r. checks r"], simp)
  apply (rule fold_frame [of "\<lambda>r. db r"], simp)
  apply (rule fold_frame [of "\<lambda>r. calls r"], simp)
  apply (rule fold_frame [of "\<lambda>r. awaiting r"], simp)
  apply (rule fold_frame [of "\<lambda>r. c_uid (cobj r c)"], simp)
  apply (rule fold_frame [of "\<lambda>r. c_role (cobj r c)"], simp)
  apply (rule fold_frame [of "\<lambda>r. c_closed (cobj r c)"], simp)
  apply (rule fold_frame [of "\<lambda>r. c_ticket (cobj r c)"], simp)
  apply (rule fold_frame [of "\<lambda>r. after r"], simp)
  apply (rule fold_frame [of "\<lambda>r. spawned r"], simp)
  done

lemma drop_grant_frame [simp]:
  "clock (drop_grant uid ev r) = clock r"
  "wall (drop_grant uid ev r) = wall r"
  "sessions (drop_grant uid ev r) = sessions r"
  "conns (drop_grant uid ev r) = conns r"
  "stores (drop_grant uid ev r) = stores r"
  "disk_state (drop_grant uid ev r) = disk_state r"
  "next_store (drop_grant uid ev r) = next_store r"
  "book (drop_grant uid ev r) = book r"
  "prompts (drop_grant uid ev r) = prompts r"
  "next_prompt (drop_grant uid ev r) = next_prompt r"
  "pend (drop_grant uid ev r) = pend r"
  "answered (drop_grant uid ev r) = answered r"
  "cancels (drop_grant uid ev r) = cancels r"
  "next_key (drop_grant uid ev r) = next_key r"
  "request (drop_grant uid ev r) = request r"
  "script (drop_grant uid ev r) = script r"
  "checks (drop_grant uid ev r) = checks r"
  "db (drop_grant uid ev r) = db r"
  "calls (drop_grant uid ev r) = calls r"
  "awaiting (drop_grant uid ev r) = awaiting r"
  "c_uid (cobj (drop_grant uid ev r) c) = c_uid (cobj r c)"
  "c_role (cobj (drop_grant uid ev r) c) = c_role (cobj r c)"
  "c_closed (cobj (drop_grant uid ev r) c) = c_closed (cobj r c)"
  "c_ticket (cobj (drop_grant uid ev r) c) = c_ticket (cobj r c)"
  by (simp_all add: drop_grant_def cancel_timer_def Let_def split: prod.splits option.splits)

lemma end_grant_frame [simp]:
  "clock (end_grant uid r) = clock r"
  "wall (end_grant uid r) = wall r"
  "sessions (end_grant uid r) = sessions r"
  "conns (end_grant uid r) = conns r"
  "stores (end_grant uid r) = stores r"
  "disk_state (end_grant uid r) = disk_state r"
  "next_store (end_grant uid r) = next_store r"
  "book (end_grant uid r) = book r"
  "prompts (end_grant uid r) = prompts r"
  "next_prompt (end_grant uid r) = next_prompt r"
  "pend (end_grant uid r) = pend r"
  "answered (end_grant uid r) = answered r"
  "cancels (end_grant uid r) = cancels r"
  "next_key (end_grant uid r) = next_key r"
  "request (end_grant uid r) = request r"
  "script (end_grant uid r) = script r"
  "checks (end_grant uid r) = checks r"
  "db (end_grant uid r) = db r"
  "calls (end_grant uid r) = calls r"
  "awaiting (end_grant uid r) = awaiting r"
  "c_uid (cobj (end_grant uid r) c) = c_uid (cobj r c)"
  "c_role (cobj (end_grant uid r) c) = c_role (cobj r c)"
  "c_closed (cobj (end_grant uid r) c) = c_closed (cobj r c)"
  "c_ticket (cobj (end_grant uid r) c) = c_ticket (cobj r c)"
  by (simp_all add: end_grant_def cancel_timer_def Let_def split: prod.splits option.splits)

lemma gtab_drop_grant [simp]: "gtab (drop_grant uid ev r) = fst (drop_g uid (gtab r))"
  by (simp add: drop_grant_def cancel_timer_def Let_def split: prod.splits option.splits)

lemma gtab_end_grant [simp]: "gtab (end_grant uid r) = fst (end_g uid (gtab r))"
  by (simp add: end_grant_def cancel_timer_def Let_def split: prod.splits option.splits)

lemma cancel_one_frame [simp]:
  "clock (cancel_one p r) = clock r"
  "wall (cancel_one p r) = wall r"
  "sessions (cancel_one p r) = sessions r"
  "conns (cancel_one p r) = conns r"
  "stores (cancel_one p r) = stores r"
  "disk_state (cancel_one p r) = disk_state r"
  "next_store (cancel_one p r) = next_store r"
  "book (cancel_one p r) = book r"
  "gtab (cancel_one p r) = gtab r"
  "next_prompt (cancel_one p r) = next_prompt r"
  "answered (cancel_one p r) = answered r"
  "grant_timers (cancel_one p r) = grant_timers r"
  "next_key (cancel_one p r) = next_key r"
  "request (cancel_one p r) = request r"
  "script (cancel_one p r) = script r"
  "checks (cancel_one p r) = checks r"
  "db (cancel_one p r) = db r"
  "calls (cancel_one p r) = calls r"
  "awaiting (cancel_one p r) = awaiting r"
  "cobj (cancel_one p r) = cobj r"
  "after (cancel_one p r) = after r"
  "spawned (cancel_one p r) = spawned r"
  by (simp_all add: cancel_one_def Let_def)

lemma cancel_prompts_frame [simp]:
  "clock (fst (cancel_prompts u c rid act r)) = clock r"
  "wall (fst (cancel_prompts u c rid act r)) = wall r"
  "sessions (fst (cancel_prompts u c rid act r)) = sessions r"
  "conns (fst (cancel_prompts u c rid act r)) = conns r"
  "stores (fst (cancel_prompts u c rid act r)) = stores r"
  "disk_state (fst (cancel_prompts u c rid act r)) = disk_state r"
  "next_store (fst (cancel_prompts u c rid act r)) = next_store r"
  "book (fst (cancel_prompts u c rid act r)) = book r"
  "gtab (fst (cancel_prompts u c rid act r)) = gtab r"
  "next_prompt (fst (cancel_prompts u c rid act r)) = next_prompt r"
  "answered (fst (cancel_prompts u c rid act r)) = answered r"
  "grant_timers (fst (cancel_prompts u c rid act r)) = grant_timers r"
  "next_key (fst (cancel_prompts u c rid act r)) = next_key r"
  "request (fst (cancel_prompts u c rid act r)) = request r"
  "script (fst (cancel_prompts u c rid act r)) = script r"
  "checks (fst (cancel_prompts u c rid act r)) = checks r"
  "db (fst (cancel_prompts u c rid act r)) = db r"
  "calls (fst (cancel_prompts u c rid act r)) = calls r"
  "awaiting (fst (cancel_prompts u c rid act r)) = awaiting r"
  "cobj (fst (cancel_prompts u c rid act r)) = cobj r"
  "after (fst (cancel_prompts u c rid act r)) = after r"
  "spawned (fst (cancel_prompts u c rid act r)) = spawned r"
  unfolding cancel_prompts_def Let_def fst_conv
  apply (rule fold_frame [of "\<lambda>r. clock r"], simp)
  apply (rule fold_frame [of "\<lambda>r. wall r"], simp)
  apply (rule fold_frame [of "\<lambda>r. sessions r"], simp)
  apply (rule fold_frame [of "\<lambda>r. conns r"], simp)
  apply (rule fold_frame [of "\<lambda>r. stores r"], simp)
  apply (rule fold_frame [of "\<lambda>r. disk_state r"], simp)
  apply (rule fold_frame [of "\<lambda>r. next_store r"], simp)
  apply (rule fold_frame [of "\<lambda>r. book r"], simp)
  apply (rule fold_frame [of "\<lambda>r. gtab r"], simp)
  apply (rule fold_frame [of "\<lambda>r. next_prompt r"], simp)
  apply (rule fold_frame [of "\<lambda>r. answered r"], simp)
  apply (rule fold_frame [of "\<lambda>r. grant_timers r"], simp)
  apply (rule fold_frame [of "\<lambda>r. next_key r"], simp)
  apply (rule fold_frame [of "\<lambda>r. request r"], simp)
  apply (rule fold_frame [of "\<lambda>r. script r"], simp)
  apply (rule fold_frame [of "\<lambda>r. checks r"], simp)
  apply (rule fold_frame [of "\<lambda>r. db r"], simp)
  apply (rule fold_frame [of "\<lambda>r. calls r"], simp)
  apply (rule fold_frame [of "\<lambda>r. awaiting r"], simp)
  apply (rule fold_frame [of "\<lambda>r. cobj r"], simp)
  apply (rule fold_frame [of "\<lambda>r. after r"], simp)
  apply (rule fold_frame [of "\<lambda>r. spawned r"], simp)
  done

lemma upd_s_frame [simp]:
  "clock (upd_s uid f r) = clock r"
  "wall (upd_s uid f r) = wall r"
  "conns (upd_s uid f r) = conns r"
  "stores (upd_s uid f r) = stores r"
  "disk_state (upd_s uid f r) = disk_state r"
  "next_store (upd_s uid f r) = next_store r"
  "book (upd_s uid f r) = book r"
  "gtab (upd_s uid f r) = gtab r"
  "prompts (upd_s uid f r) = prompts r"
  "next_prompt (upd_s uid f r) = next_prompt r"
  "pend (upd_s uid f r) = pend r"
  "answered (upd_s uid f r) = answered r"
  "grant_timers (upd_s uid f r) = grant_timers r"
  "cancels (upd_s uid f r) = cancels r"
  "next_key (upd_s uid f r) = next_key r"
  "request (upd_s uid f r) = request r"
  "script (upd_s uid f r) = script r"
  "checks (upd_s uid f r) = checks r"
  "db (upd_s uid f r) = db r"
  "calls (upd_s uid f r) = calls r"
  "awaiting (upd_s uid f r) = awaiting r"
  "cobj (upd_s uid f r) = cobj r"
  "after (upd_s uid f r) = after r"
  "spawned (upd_s uid f r) = spawned r"
  by (simp_all add: upd_s_def split: option.splits)

lemma get_upd_s [simp]: "get_s u (upd_s uid f r) =
    (if u = uid then map_option f (get_s uid r) else get_s u r)"
  by (auto simp: get_s_def upd_s_def split: option.splits)

lemma get_s_cong: "sessions r' = sessions r \<Longrightarrow> get_s u r' = get_s u r"
  by (simp add: get_s_def)

end
