(* ===== verification/SessionLocks.thy ===== *)
theory SessionLocks
  imports Sessions
begin

text \<open>
  What the registry's operations do to the state they are about: which dialogs a cancellation
  ends, which connections a withdrawal closes, and everything a lock closes.
\<close>

lemma get_s_frames [simp]:
  "get_s u (send_event d ev r) = get_s u r"
  "get_s u (close_conn d r) = get_s u r"
  "get_s u (notify_ui uid ev r) = get_s u r"
  "get_s u (run_after a r) = get_s u r"
  "get_s u (after_reply a r) = get_s u r"
  "get_s u (notify_autofill_hosts uid r) = get_s u r"
  "get_s u (withdraw uid ros r) = get_s u r"
  "get_s u (notify_autofill uid r) = get_s u r"
  "get_s u (drop_grant uid evb r) = get_s u r"
  "get_s u (end_grant uid r) = get_s u r"
  "get_s u (fst (cancel_prompts u0 c0 rid act r)) = get_s u r"
  by (simp_all add: get_s_def)

lemma get_s_updates [simp]:
  "get_s u (r\<lparr>gtab := t\<rparr>) = get_s u r" "get_s u (r\<lparr>book := b\<rparr>) = get_s u r"
  "get_s u (r\<lparr>conns := cs\<rparr>) = get_s u r" "get_s u (r\<lparr>cobj := co\<rparr>) = get_s u r"
  "get_s u (r\<lparr>next_key := nk\<rparr>) = get_s u r" "get_s u (r\<lparr>grant_timers := gt\<rparr>) = get_s u r"
  "get_s u (r\<lparr>stores := sts\<rparr>) = get_s u r" "get_s u (r\<lparr>clock := cl\<rparr>) = get_s u r"
  "get_s u (r\<lparr>script := sc\<rparr>) = get_s u r" "get_s u (r\<lparr>after := af\<rparr>) = get_s u r"
  "get_s u (r\<lparr>request := rq\<rparr>) = get_s u r" "get_s u (r\<lparr>pend := pd\<rparr>) = get_s u r"
  "get_s u (r\<lparr>prompts := ps\<rparr>) = get_s u r" "get_s u (r\<lparr>next_prompt := np\<rparr>) = get_s u r"
  "get_s u (r\<lparr>answered := an\<rparr>) = get_s u r" "get_s u (r\<lparr>disk_state := ds\<rparr>) = get_s u r"
  "get_s u (r\<lparr>next_store := ns\<rparr>) = get_s u r" "get_s u (r\<lparr>cancels := ca\<rparr>) = get_s u r"
  "get_s u (r\<lparr>awaiting := aw\<rparr>) = get_s u r" "get_s u (r\<lparr>checks := ch\<rparr>) = get_s u r"
  "get_s u (r\<lparr>answered := an, checks := ch\<rparr>) = get_s u r" "get_s u (r\<lparr>db := dbx\<rparr>) = get_s u r"
  "get_s u (r\<lparr>calls := cll\<rparr>) = get_s u r"
  "get_s u (r\<lparr>wall := wa\<rparr>) = get_s u r" "get_s u (r\<lparr>spawned := sp\<rparr>) = get_s u r"
  by (simp_all add: get_s_def)

subsection \<open>Withdrawing\<close>

lemma c_closed_send [simp]: "c_closed (cobj (send_event d ev r) c) = c_closed (cobj r c)"
  by (simp add: send_event_def upd_c_def)

lemma c_closed_close [simp]: "c_closed (cobj (close_conn d r) c) = (c = d \<or> c_closed (cobj r c))"
  by (simp add: close_conn_def upd_c_def)

lemma c_closed_fold_withdraw:
  "c_closed (cobj (fold (withdraw_one uid ros) cs r) c) \<longleftrightarrow>
     c_closed (cobj r c) \<or>
     (c \<in> set cs \<and> c_uid (cobj r c) = uid \<and> c_role (cobj r c) \<in> set ros)"
proof (induction cs arbitrary: r)
  case (Cons d cs)
  have "c_uid (cobj (withdraw_one uid ros d r) c) = c_uid (cobj r c)"
    "c_role (cobj (withdraw_one uid ros d r) c) = c_role (cobj r c)"
    "c_closed (cobj (withdraw_one uid ros d r) c) \<longleftrightarrow> c_closed (cobj r c) \<or>
       (c = d \<and> c_uid (cobj r c) = uid \<and> c_role (cobj r c) \<in> set ros)"
    by (auto simp: withdraw_one_def)
  then show ?case by (auto simp: Cons.IH)
qed simp

lemma c_closed_withdraw:
  "c_closed (cobj (withdraw uid ros r) c) \<longleftrightarrow>
     c_closed (cobj r c) \<or>
     (c \<in> set (conns r) \<and> c_uid (cobj r c) = uid \<and> c_role (cobj r c) \<in> set ros)"
  by (simp add: withdraw_def c_closed_fold_withdraw)

subsection \<open>Cancelling dialogs\<close>

text \<open>
  The table of dialogs on screen: one per key, each filed under its own key, none of them
  cancelled, and the key is the uid and bucket of the dialog's connection.
\<close>

definition pend_ok :: "reg \<Rightarrow> bool" where
  "pend_ok r \<longleftrightarrow> dict_ok (pend r) \<and>
     (\<forall>k p. dget (pend r) k = Some p \<longrightarrow>
        p_key (prompts r p) = k \<and> \<not> p_cancelled (prompts r p) \<and> p < next_prompt r \<and>
        fst k = c_uid (cobj r (p_conn (prompts r p))) \<and>
        PROMPT_BUCKET (c_role (cobj r (p_conn (prompts r p)))) = Some (snd k))"

lemma pend_okD:
  assumes "pend_ok r" and "dget (pend r) k = Some p"
  shows "p_key (prompts r p) = k" and "\<not> p_cancelled (prompts r p)" and "p < next_prompt r"
    and "fst k = c_uid (cobj r (p_conn (prompts r p)))"
    and "PROMPT_BUCKET (c_role (cobj r (p_conn (prompts r p)))) = Some (snd k)"
  using assms unfolding pend_ok_def by blast+

lemma pend_ok_inj: "pend_ok r \<Longrightarrow> dget (pend r) k = Some p \<Longrightarrow> dget (pend r) k' = Some p \<Longrightarrow> k = k'"
  using pend_okD(1) by metis

lemma pend_ok_cong:
  "pend r' = pend r \<Longrightarrow> prompts r' = prompts r \<Longrightarrow> next_prompt r' = next_prompt r \<Longrightarrow>
   (\<And>c. c_uid (cobj r' c) = c_uid (cobj r c)) \<Longrightarrow> (\<And>c. c_role (cobj r' c) = c_role (cobj r c)) \<Longrightarrow>
   pend_ok r' = pend_ok r"
  by (simp add: pend_ok_def)

lemma cancel_one_pend:
  assumes "pend_ok r" and "dget (pend r) k0 = Some p"
  shows "dget (pend (cancel_one p r)) k = (if k = k0 then None else dget (pend r) k)"
    and "prompts (cancel_one p r) = (prompts r)(p := (prompts r p)\<lparr>p_cancelled := True\<rparr>)"
    and "next_prompt (cancel_one p r) = next_prompt r"
    and "dict_ok (pend (cancel_one p r))"
proof -
  have d: "dict_ok (pend r)" using assms(1) by (simp add: pend_ok_def)
  have k: "p_key (prompts r p) = k0" "\<not> p_cancelled (prompts r p)"
    using pend_okD [OF assms] by simp_all
  show "dget (pend (cancel_one p r)) k = (if k = k0 then None else dget (pend r) k)"
    "prompts (cancel_one p r) = (prompts r)(p := (prompts r p)\<lparr>p_cancelled := True\<rparr>)"
    "next_prompt (cancel_one p r) = next_prompt r" "dict_ok (pend (cancel_one p r))"
    using k d assms(2) by (simp_all add: cancel_one_def Let_def)
qed

lemma cancel_one_ok:
  assumes "pend_ok r" and "dget (pend r) k0 = Some p"
  shows "pend_ok (cancel_one p r)"
  unfolding pend_ok_def
proof (intro conjI allI impI cancel_one_pend(4) [OF assms])
  fix k q
  assume q: "dget (pend (cancel_one p r)) k = Some q"
  then have k: "k \<noteq> k0" "dget (pend r) k = Some q"
    using cancel_one_pend(1) [OF assms, of k] by (auto split: if_splits)
  have "q \<noteq> p" using pend_ok_inj [OF assms(1) k(2), of k0] assms(2) k(1) by metis
  then have e: "prompts (cancel_one p r) q = prompts r q"
    by (simp add: cancel_one_pend(2) [OF assms])
  show "p_key (prompts (cancel_one p r) q) = k" "\<not> p_cancelled (prompts (cancel_one p r) q)"
    "q < next_prompt (cancel_one p r)"
    "fst k = c_uid (cobj (cancel_one p r) (p_conn (prompts (cancel_one p r) q)))"
    "PROMPT_BUCKET (c_role (cobj (cancel_one p r) (p_conn (prompts (cancel_one p r) q)))) = Some (snd k)"
    using pend_okD [OF assms(1) k(2)] e by (simp_all add: cancel_one_pend(3) [OF assms])
qed

lemma fold_cancel:
  assumes "pend_ok r" and "distinct ps" and "\<forall>p\<in>set ps. \<exists>k. dget (pend r) k = Some p"
  shows "pend_ok (fold cancel_one ps r) \<and>
    (\<forall>k p. dget (pend (fold cancel_one ps r)) k = Some p \<longleftrightarrow> dget (pend r) k = Some p \<and> p \<notin> set ps) \<and>
    (\<forall>p. prompts (fold cancel_one ps r) p =
       (if p \<in> set ps then (prompts r p)\<lparr>p_cancelled := True\<rparr> else prompts r p))"
  using assms
proof (induction ps arbitrary: r)
  case (Cons p ps)
  then obtain k0 where k0: "dget (pend r) k0 = Some p" by auto
  note c1 = cancel_one_pend [OF Cons.prems(1) k0] and c2 = cancel_one_ok [OF Cons.prems(1) k0]
  have "\<forall>q\<in>set ps. \<exists>k. dget (pend (cancel_one p r)) k = Some q"
  proof
    fix q assume "q \<in> set ps"
    with Cons.prems(2,3) have "\<exists>k. dget (pend r) k = Some q" "q \<noteq> p" by auto
    then obtain k where "dget (pend r) k = Some q" "q \<noteq> p" by blast
    with k0 show "\<exists>k. dget (pend (cancel_one p r)) k = Some q"
      using c1(1) by (metis option.inject)
  qed
  with Cons.prems(2) have IH: "pend_ok (fold cancel_one ps (cancel_one p r)) \<and>
    (\<forall>k q. dget (pend (fold cancel_one ps (cancel_one p r))) k = Some q \<longleftrightarrow>
       dget (pend (cancel_one p r)) k = Some q \<and> q \<notin> set ps) \<and>
    (\<forall>q. prompts (fold cancel_one ps (cancel_one p r)) q =
       (if q \<in> set ps then (prompts (cancel_one p r) q)\<lparr>p_cancelled := True\<rparr>
        else prompts (cancel_one p r) q))"
    by (intro Cons.IH [OF c2]) simp_all
  have e: "dget (pend (cancel_one p r)) k = Some q \<longleftrightarrow> dget (pend r) k = Some q \<and> q \<noteq> p" for k q
  proof (cases "k = k0")
    case True
    then show ?thesis using c1(1) [of k] k0 by simp
  next
    case False
    then have "dget (pend r) k \<noteq> Some p" using pend_ok_inj [OF Cons.prems(1) k0, of k] by blast
    with False show ?thesis using c1(1) [of k] by (simp only: if_False) blast
  qed
  show ?case
  proof (intro conjI allI)
    show "pend_ok (fold cancel_one (p # ps) r)" using IH by simp
    fix k q
    show "dget (pend (fold cancel_one (p # ps) r)) k = Some q \<longleftrightarrow>
        dget (pend r) k = Some q \<and> q \<notin> set (p # ps)"
      using IH e [of k q] by (simp only: fold_simps list.set insert_iff) blast
    show "prompts (fold cancel_one (p # ps) r) q =
        (if q \<in> set (p # ps) then (prompts r q)\<lparr>p_cancelled := True\<rparr> else prompts r q)"
      using IH Cons.prems(2) by (simp add: c1(2))
  qed
qed simp

lemma cancel_prompts_effect:
  assumes "pend_ok r"
  shows "pend_ok (fst (cancel_prompts u c rid act r))"
    and "dget (pend (fst (cancel_prompts u c rid act r))) k = Some p \<longleftrightarrow>
      dget (pend r) k = Some p \<and> \<not> prompt_matches u c rid act r p"
    and "prompts (fst (cancel_prompts u c rid act r)) p =
      (if (\<exists>k. dget (pend r) k = Some p) \<and> prompt_matches u c rid act r p
       then (prompts r p)\<lparr>p_cancelled := True\<rparr> else prompts r p)"
proof -
  let ?ps = "filter (prompt_matches u c rid act r) (map snd (pend r))"
  have d: "dict_ok (pend r)" using assms by (simp add: pend_ok_def)
  have mem: "p \<in> set (map snd (pend r)) \<longleftrightarrow> (\<exists>k. dget (pend r) k = Some p)" for p
  proof
    assume "p \<in> set (map snd (pend r))"
    then obtain k where "(k, p) \<in> set (pend r)" by auto
    then show "\<exists>k. dget (pend r) k = Some p" using dict_ok_items [OF d, of k p] by blast
  next
    assume "\<exists>k. dget (pend r) k = Some p"
    then obtain k where "(k, p) \<in> set (pend r)" using dict_ok_items [OF d] by blast
    then show "p \<in> set (map snd (pend r))" by force
  qed
  have inj: "x = y" if "x \<in> set (pend r)" "y \<in> set (pend r)" "snd x = snd y" for x y
  proof -
    obtain k p k' p' where xy: "x = (k, p)" "y = (k', p')" by (cases x, cases y)
    with that have "dget (pend r) k = Some p" "dget (pend r) k' = Some p" "p' = p"
      using dict_ok_items [OF d, of k p] dict_ok_items [OF d, of k' p'] by simp_all
    then show ?thesis using pend_ok_inj [OF assms, of k p k'] xy by simp
  qed
  have "distinct (pend r)" using d by (simp add: dict_ok_def distinct_map)
  then have "distinct (map snd (pend r))"
    unfolding distinct_map inj_on_def using inj by blast
  then have "distinct ?ps" by simp
  moreover have "\<forall>p\<in>set ?ps. \<exists>k. dget (pend r) k = Some p" using mem by auto
  ultimately have f: "pend_ok (fold cancel_one ?ps r)"
    "\<forall>k p. dget (pend (fold cancel_one ?ps r)) k = Some p \<longleftrightarrow> dget (pend r) k = Some p \<and> p \<notin> set ?ps"
    "\<forall>p. prompts (fold cancel_one ?ps r) p =
       (if p \<in> set ?ps then (prompts r p)\<lparr>p_cancelled := True\<rparr> else prompts r p)"
    using fold_cancel [OF assms, of ?ps] by (simp_all only: simp_thms)
  show "pend_ok (fst (cancel_prompts u c rid act r))"
    using f(1) by (simp add: cancel_prompts_def)
  show "dget (pend (fst (cancel_prompts u c rid act r))) k = Some p \<longleftrightarrow>
      dget (pend r) k = Some p \<and> \<not> prompt_matches u c rid act r p"
  proof -
    have "(p \<in> set ?ps) = (p \<in> set (map snd (pend r)) \<and> prompt_matches u c rid act r p)" by simp
    with f(2) [rule_format, of k p] mem [of p] show ?thesis
      unfolding cancel_prompts_def Let_def fst_conv by blast
  qed
  show "prompts (fst (cancel_prompts u c rid act r)) p =
      (if (\<exists>k. dget (pend r) k = Some p) \<and> prompt_matches u c rid act r p
       then (prompts r p)\<lparr>p_cancelled := True\<rparr> else prompts r p)"
  proof -
    have "(p \<in> set ?ps) = ((\<exists>k. dget (pend r) k = Some p) \<and> prompt_matches u c rid act r p)"
      using mem [of p] by simp
    with f(3) [rule_format, of p] show ?thesis
      unfolding cancel_prompts_def Let_def fst_conv by (simp only:)
  qed
qed

subsection \<open>Wiping the store\<close>

lemma wipe_store_frame [simp]:
  "clock (wipe_store uid r) = clock r"
  "wall (wipe_store uid r) = wall r"
  "conns (wipe_store uid r) = conns r"
  "disk_state (wipe_store uid r) = disk_state r"
  "next_store (wipe_store uid r) = next_store r"
  "book (wipe_store uid r) = book r"
  "gtab (wipe_store uid r) = gtab r"
  "prompts (wipe_store uid r) = prompts r"
  "next_prompt (wipe_store uid r) = next_prompt r"
  "pend (wipe_store uid r) = pend r"
  "answered (wipe_store uid r) = answered r"
  "grant_timers (wipe_store uid r) = grant_timers r"
  "cancels (wipe_store uid r) = cancels r"
  "next_key (wipe_store uid r) = next_key r"
  "request (wipe_store uid r) = request r"
  "script (wipe_store uid r) = script r"
  "checks (wipe_store uid r) = checks r"
  "db (wipe_store uid r) = db r"
  "calls (wipe_store uid r) = calls r"
  "awaiting (wipe_store uid r) = awaiting r"
  "cobj (wipe_store uid r) = cobj r"
  "after (wipe_store uid r) = after r"
  "spawned (wipe_store uid r) = spawned r"
  by (simp_all add: wipe_store_def upd_store_def Let_def split: option.splits prod.splits)

lemma upd_store_frame [simp]:
  "clock (upd_store n g r) = clock r"
  "wall (upd_store n g r) = wall r"
  "conns (upd_store n g r) = conns r"
  "disk_state (upd_store n g r) = disk_state r"
  "next_store (upd_store n g r) = next_store r"
  "book (upd_store n g r) = book r"
  "gtab (upd_store n g r) = gtab r"
  "prompts (upd_store n g r) = prompts r"
  "next_prompt (upd_store n g r) = next_prompt r"
  "pend (upd_store n g r) = pend r"
  "answered (upd_store n g r) = answered r"
  "grant_timers (upd_store n g r) = grant_timers r"
  "cancels (upd_store n g r) = cancels r"
  "next_key (upd_store n g r) = next_key r"
  "request (upd_store n g r) = request r"
  "script (upd_store n g r) = script r"
  "checks (upd_store n g r) = checks r"
  "db (upd_store n g r) = db r"
  "calls (upd_store n g r) = calls r"
  "awaiting (upd_store n g r) = awaiting r"
  "cobj (upd_store n g r) = cobj r"
  "after (upd_store n g r) = after r"
  "spawned (upd_store n g r) = spawned r"
  "sessions (upd_store n g r) = sessions r"
  by (simp_all add: upd_store_def)

lemma get_s_upd_store [simp]: "get_s u (upd_store n g r) = get_s u r"
  by (simp add: get_s_def)

lemma stores_upd_store [simp]:
  "stores (upd_store n g r) m = (if m = n then g (stores r n) else stores r m)"
  by (simp add: upd_store_def)

text \<open>Whether the wipe is left to the running call.\<close>

definition wipe_left :: "reg \<Rightarrow> session \<Rightarrow> bool" where
  "wipe_left r s \<longleftrightarrow> \<not> snd (try_lock (stores r (s_store s))) \<or> replacing s"

lemma get_s_wipe_store:
  "get_s u (wipe_store uid r) =
     (if u = uid then map_option (\<lambda>s. s\<lparr>wipe_after := wipe_left r s\<rparr>) (get_s uid r) else get_s u r)"
  by (auto simp: wipe_store_def wipe_left_def Let_def split: option.splits prod.splits)

lemma stores_wipe_store:
  "get_s uid r = Some s \<Longrightarrow> stores (wipe_store uid r) n =
     (if n = s_store s then fst (try_lock (stores r n)) else stores r n)"
  by (auto simp: wipe_store_def Let_def split: prod.splits)

lemma try_lock_keys: "snd (try_lock u) \<Longrightarrow> \<not> has_keys (fst (try_lock u))"
  "\<not> snd (try_lock u) \<Longrightarrow> wipe_req (fst (try_lock u))"
  by (auto simp: try_lock_def wipe_now_def Let_def split: if_splits)

subsection \<open>What a lock does\<close>

lemma get_s_lock_core:
  assumes "get_s uid r = Some s"
  shows "get_s u (lock_core uid r) =
    (if u = uid then Some (s\<lparr>autofill_conn := None, autofill_until := 0, autofill_timer := None,
         tier1 := None, show_all := False, autofill_key := None, s_shape := None,
         epoch := epoch s + 1, next_sync_at := None,
         signin := map_option fe_cancel (signin s), wipe_after := wipe_left r s\<rparr>)
     else get_s u r)"
  using assms
  by (simp add: lock_core_def Let_def get_s_wipe_store clear_autofill_def cancel_signin_def
      lock_session_def wipe_left_def)

lemma stores_lock_core:
  assumes "get_s uid r = Some s"
  shows "stores (lock_core uid r) n =
    (if n = s_store s then fst (try_lock (stores r n)) else stores r n)"
proof -
  let ?r6 = "cancel_signin uid (fst (cancel_prompts (Some uid) None None None
     (withdraw uid [Clip, Migrate] ((drop_grant uid False (upd_s uid lock_session (clear_autofill uid r)))
        \<lparr>book := fst (revoke_uid uid None (book (drop_grant uid False (upd_s uid lock_session (clear_autofill uid r)))))\<rparr>))))"
  have "\<exists>s'. get_s uid ?r6 = Some s' \<and> s_store s' = s_store s"
    using assms by (simp add: cancel_signin_def lock_session_def clear_autofill_def)
  then obtain s' where s': "get_s uid ?r6 = Some s'" "s_store s' = s_store s" by blast
  have "stores ?r6 = stores r"
    by (simp add: cancel_signin_def clear_autofill_def)
  with stores_wipe_store [OF s'(1), of n] s'(2) show ?thesis
    by (simp add: lock_core_def Let_def)
qed

lemma lock_core_fields:
  "gtab (lock_core uid r) = fst (drop_g uid (gtab r))"
  "book (lock_core uid r) = fst (revoke_uid uid None (book r))"
  "conns (lock_core uid r) = conns r" "c_uid (cobj (lock_core uid r) c) = c_uid (cobj r c)"
  "c_role (cobj (lock_core uid r) c) = c_role (cobj r c)"
  "clock (lock_core uid r) = clock r" "wall (lock_core uid r) = wall r"
  "script (lock_core uid r) = script r" "request (lock_core uid r) = request r"
  "next_prompt (lock_core uid r) = next_prompt r" "next_key (lock_core uid r) = next_key r"
  "next_store (lock_core uid r) = next_store r" "answered (lock_core uid r) = answered r"
  "disk_state (lock_core uid r) = disk_state r"
  by (simp_all add: lock_core_def Let_def clear_autofill_def cancel_signin_def)

lemma c_closed_lock_core:
  "c_closed (cobj (lock_core uid r) c) \<longleftrightarrow> c_closed (cobj r c) \<or>
     (c \<in> set (conns r) \<and> c_uid (cobj r c) = uid \<and> c_role (cobj r c) \<in> {Clip, Migrate})"
  by (auto simp: lock_core_def Let_def clear_autofill_def cancel_signin_def c_closed_withdraw)

lemma pend_lock_core:
  assumes "pend_ok r"
  shows "pend_ok (lock_core uid r)"
    and "dget (pend (lock_core uid r)) k = Some p \<longleftrightarrow> dget (pend r) k = Some p \<and> fst k \<noteq> uid"
    and "prompts (lock_core uid r) p = (if (\<exists>k. dget (pend r) k = Some p \<and> fst k = uid)
      then (prompts r p)\<lparr>p_cancelled := True\<rparr> else prompts r p)"
proof -
  let ?r3 = "(drop_grant uid False (upd_s uid lock_session (clear_autofill uid r)))
        \<lparr>book := fst (revoke_uid uid None (book (drop_grant uid False (upd_s uid lock_session (clear_autofill uid r)))))\<rparr>"
  let ?r4 = "withdraw uid [Clip, Migrate] ?r3"
  have ok4: "pend_ok ?r4"
    using assms by (subst pend_ok_cong [of _ r]) (simp_all add: clear_autofill_def)
  have p4: "pend ?r4 = pend r" "prompts ?r4 = prompts r"
    by (simp_all add: clear_autofill_def)
  note c = cancel_prompts_effect [OF ok4, of "Some uid" None None None]
  let ?r5 = "fst (cancel_prompts (Some uid) None None None ?r4)"
  have r5: "pend (lock_core uid r) = pend ?r5" "prompts (lock_core uid r) = prompts ?r5"
    by (simp_all add: lock_core_def Let_def cancel_signin_def)
  have m: "prompt_matches (Some uid) None None None ?r4 p \<longleftrightarrow> fst k = uid"
    if "dget (pend r) k = Some p" for k p
    using pend_okD(4) [OF assms that] p4 by (auto simp: prompt_matches_def clear_autofill_def)
  show "pend_ok (lock_core uid r)"
    using c(1) by (subst pend_ok_cong [of _ ?r5])
      (simp_all add: lock_core_def Let_def cancel_signin_def clear_autofill_def)
  show "dget (pend (lock_core uid r)) k = Some p \<longleftrightarrow> dget (pend r) k = Some p \<and> fst k \<noteq> uid"
    using c(2) [of k p] m [of k p] unfolding r5 p4 by blast
  have "(\<exists>k. dget (pend r) k = Some p) \<and> prompt_matches (Some uid) None None None ?r4 p \<longleftrightarrow>
      (\<exists>k. dget (pend r) k = Some p \<and> fst k = uid)"
    using m by blast
  then show "prompts (lock_core uid r) p = (if (\<exists>k. dget (pend r) k = Some p \<and> fst k = uid)
      then (prompts r p)\<lparr>p_cancelled := True\<rparr> else prompts r p)"
    using c(3) [of p] unfolding r5 p4 by (simp only:)
qed

text \<open>The notifications at the end of \<^verbatim>\<open>lock\<close> change nothing but what connections were sent.\<close>

lemma lock_is_core:
  assumes "get_s uid r = Some s"
  shows "get_s u (fst (lock uid reason n r)) = get_s u (lock_core uid r)"
    and "stores (fst (lock uid reason n r)) = stores (lock_core uid r)"
    and "gtab (fst (lock uid reason n r)) = gtab (lock_core uid r)"
    and "book (fst (lock uid reason n r)) = book (lock_core uid r)"
    and "conns (fst (lock uid reason n r)) = conns (lock_core uid r)"
    and "pend (fst (lock uid reason n r)) = pend (lock_core uid r)"
    and "prompts (fst (lock uid reason n r)) = prompts (lock_core uid r)"
    and "next_prompt (fst (lock uid reason n r)) = next_prompt (lock_core uid r)"
    and "c_closed (cobj (fst (lock uid reason n r)) c) = c_closed (cobj (lock_core uid r) c)"
    and "c_uid (cobj (fst (lock uid reason n r)) c) = c_uid (cobj (lock_core uid r) c)"
    and "c_role (cobj (fst (lock uid reason n r)) c) = c_role (cobj (lock_core uid r) c)"
    and "script (fst (lock uid reason n r)) = script (lock_core uid r)"
    and "clock (fst (lock uid reason n r)) = clock (lock_core uid r)"
    and "request (fst (lock uid reason n r)) = request (lock_core uid r)"
    and "sessions (fst (lock uid reason n r)) = sessions (lock_core uid r)"
  using assms by (auto simp: lock_def Let_def split: option.splits)

lemma lock_none: "get_s uid r = None \<Longrightarrow> lock uid reason n r = (r, False)"
  by (simp add: lock_def)

lemma revoke_all: "(k, t) \<in> set (tickets (fst (revoke_uid uid None b))) \<Longrightarrow> t_uid t \<noteq> uid"
  by (auto simp: revoke_uid_def)

text \<open>
  C1 (a lock closes everything). Whatever the reason and whoever is told, after a lock of a uid
  with a session: no tier 1, no browser unlock and no autofill handle is left; the epoch has
  moved; the grant is gone; none of its tickets is left; every clipboard and import process of it
  is disconnected; no dialog of it is on screen; and its keys are out of memory, or the running
  store call has been told to wipe them and no other call is let in.
\<close>

theorem lock_closes_everything:
  assumes "get_s uid r = Some s" and "pend_ok r"
  shows "\<exists>s'. let r' = fst (lock uid reason n r) in
    get_s uid r' = Some s' \<and> tier1 s' = None \<and> autofill_conn s' = None \<and> autofill_key s' = None \<and>
    epoch s' = epoch s + 1 \<and> dget (grants (gtab r')) uid = None \<and>
    list_all (\<lambda>(k, t). t_uid t \<noteq> uid) (tickets (book r')) \<and>
    list_all (\<lambda>c. c_uid (cobj r' c) \<noteq> uid \<or> c_role (cobj r' c) \<in> {UI, Autofill} \<or> c_closed (cobj r' c))
      (conns r') \<and>
    list_all (\<lambda>(k, p). fst k \<noteq> uid) (pend r') \<and>
    (has_keys (stores r' (s_store s')) \<longrightarrow> wipe_after s' \<and> wipe_req (stores r' (s_store s')))"
proof -
  let ?r' = "fst (lock uid reason n r)"
  obtain s' where s': "get_s uid ?r' = Some s'" "s' = s\<lparr>autofill_conn := None, autofill_until := 0,
         autofill_timer := None, tier1 := None, show_all := False, autofill_key := None,
         s_shape := None, epoch := epoch s + 1, next_sync_at := None,
         signin := map_option fe_cancel (signin s), wipe_after := wipe_left r s\<rparr>"
    by (simp add: lock_is_core(1) [OF assms(1)] get_s_lock_core [OF assms(1)])
  have st: "stores ?r' (s_store s) = fst (try_lock (stores r (s_store s)))"
    by (simp add: lock_is_core(2) [OF assms(1)] stores_lock_core [OF assms(1)])
  have "dict_ok (pend ?r')"
    using pend_lock_core(1) [OF assms(2), of uid] by (simp add: pend_ok_def lock_is_core [OF assms(1)])
  then have "list_all (\<lambda>(k, p). fst k \<noteq> uid) (pend ?r')"
    using dict_ok_items [of "pend ?r'"] pend_lock_core(2) [OF assms(2), of uid]
    by (auto simp: list_all_iff lock_is_core [OF assms(1)])
  moreover have "list_all (\<lambda>(k, t). t_uid t \<noteq> uid) (tickets (book ?r'))"
    by (auto simp: list_all_iff lock_is_core [OF assms(1)] lock_core_fields dest: revoke_all)
  moreover have "c_uid (cobj ?r' c) \<noteq> uid \<or> c_role (cobj ?r' c) \<in> {UI, Autofill} \<or> c_closed (cobj ?r' c)"
    if "c \<in> set (conns ?r')" for c
    using that by (cases "c_role (cobj r c)")
      (simp_all add: lock_is_core [OF assms(1)] lock_core_fields c_closed_lock_core)
  moreover have "has_keys (stores ?r' (s_store s)) \<longrightarrow> wipe_after s' \<and> wipe_req (stores ?r' (s_store s))"
    using try_lock_keys [of "stores r (s_store s)"] s'(2) st by (auto simp: wipe_left_def)
  moreover have "dget (grants (gtab ?r')) uid = None"
    by (simp add: lock_is_core [OF assms(1)] lock_core_fields grants_drop)
  ultimately show ?thesis
    using s' by (intro exI [of _ s']) (simp add: Let_def list_all_iff)
qed

text \<open>
  And of nobody else. A lock of one uid leaves every other uid's session, grant, tickets,
  dialogs and connections as they were.
\<close>

theorem lock_touches_one_uid:
  assumes "get_s uid r = Some s" and "pend_ok r" and "u \<noteq> uid"
  shows "let r' = fst (lock uid reason n r) in
    get_s u r' = get_s u r \<and> dget (grants (gtab r')) u = dget (grants (gtab r)) u \<and>
    filter (\<lambda>(k, t). t_uid t = u) (tickets (book r')) = filter (\<lambda>(k, t). t_uid t = u) (tickets (book r)) \<and>
    dget (pend r') (u, b) = dget (pend r) (u, b) \<and>
    (c_uid (cobj r c) = u \<longrightarrow> c_closed (cobj r' c) = c_closed (cobj r c))"
proof -
  have "filter (\<lambda>(k, t). t_uid t = u) (tickets (fst (revoke_uid uid None bk))) =
      filter (\<lambda>(k, t). t_uid t = u) (tickets bk)" for bk
    using assms(3) by (auto simp: revoke_uid_def intro!: filter_cong)
  moreover have "dget (pend (lock_core uid r)) (u, b) = dget (pend r) (u, b)"
    using pend_lock_core(2) [OF assms(2), of uid "(u, b)"] assms(3) by (intro option_eqI) simp
  ultimately show ?thesis
    using assms(3)
    by (auto simp: Let_def lock_is_core [OF assms(1)] get_s_lock_core [OF assms(1)]
        lock_core_fields grants_drop c_closed_lock_core)
qed

subsection \<open>A registry to apply them to\<close>

text \<open>User 1000 has a window (connection 0) with tier 1 open, a grant and a dialog on screen.\<close>

definition example_reg :: reg where
  "example_reg = Registry_init
     \<lparr>sessions := [(1000, (Session_init 1000 0)\<lparr>s_ui := Some 0, tier1 := Some 0\<rparr>),
                   (1001, Session_init 1001 1)],
      cobj := (\<lambda>c. Conn_init 1000 4242 7 99 1 UI), conns := [0],
      stores := (\<lambda>_. \<lparr>mx_held = False, depth = 0, wipe_req = False, has_keys = True\<rparr>),
      next_store := 2, next_prompt := 1,
      prompts := (\<lambda>_. \<lparr>p_conn = 0, p_rid = Some 5, p_action = Act_manage, p_cancelled = False,
                       p_key = (1000, ''ui'')\<rparr>),
      pend := [((1000, ''ui''), 0)]\<rparr>"

lemma example_reg_ok:
  "get_s 1000 example_reg = Some ((Session_init 1000 0)\<lparr>s_ui := Some 0, tier1 := Some 0\<rparr>)"
  "get_s 1001 example_reg = Some (Session_init 1001 1)"
  "pend_ok example_reg"
  by (simp_all add: example_reg_def get_s_def dget_def pend_ok_def dict_ok_def Conn_init_def)

theorem lock_closes_everything_witness:
  "\<exists>s'. let r' = fst (lock 1000 (Some ''sleep'') True example_reg) in
    get_s 1000 r' = Some s' \<and> tier1 s' = None \<and> list_all (\<lambda>(k, p). fst k \<noteq> 1000) (pend r')"
  using lock_closes_everything [OF example_reg_ok(1,3), of "Some ''sleep''" True]
  by (auto simp: Let_def)

theorem lock_touches_one_uid_witness:
  "get_s 1001 (fst (lock 1000 (Some ''sleep'') True example_reg)) = Some (Session_init 1001 1)"
  using lock_touches_one_uid [OF example_reg_ok(1,3), of 1001 "Some ''sleep''" True "''ui''" 0]
  by (simp add: Let_def example_reg_ok(2))

end
