(* ===== verification/Coroutines.thy ===== *)
theory Coroutines
  imports SessionLocks
begin

text \<open>
  The awaiting methods of the registry, \<^verbatim>\<open>authorize\<close>, \<^verbatim>\<open>run_store\<close> and
  \<^verbatim>\<open>session_for\<close> of \<^verbatim>\<open>backend/icp/daemon/sessions.py\<close>, and what a coroutine is here.

  A coroutine is a function from the registry to a result, or the exception it raised, and the
  registry it left (\<open>awaiting\<close> are its own dialogs, which no other task ends). At an \<^verbatim>\<open>await\<close> it takes the next entry of the registry's script: first
  the statements other tasks of the event loop, timers and worker threads ran meanwhile, then the
  value or exception it is resumed with. A coroutine whose script ends is still suspended
  (\<open>X_blocked\<close>). Nothing is assumed of a script, so a theorem about a coroutine holds for every
  interleaving of it.
\<close>

type_synonym 'a act = "reg \<Rightarrow> (exn + 'a) \<times> reg"

definition ret :: "'a \<Rightarrow> 'a act" where
  "ret x = (\<lambda>r. (Inr x, r))"

definition raise :: "exn \<Rightarrow> 'a act" where
  "raise e = (\<lambda>r. (Inl e, r))"

abbreviation fail :: "err_code \<Rightarrow> extra list \<Rightarrow> 'a act" where
  "fail e xs \<equiv> raise (X_op (OpError e xs))"

definition bindA :: "'a act \<Rightarrow> ('a \<Rightarrow> 'b act) \<Rightarrow> 'b act" where
  "bindA m k = (\<lambda>r. case m r of (Inl e, r') \<Rightarrow> (Inl e, r') | (Inr x, r') \<Rightarrow> k x r')"

definition getA :: "(reg \<Rightarrow> 'a) \<Rightarrow> 'a act" where
  "getA f = (\<lambda>r. (Inr (f r), r))"

definition modA :: "(reg \<Rightarrow> reg) \<Rightarrow> unit act" where
  "modA f = (\<lambda>r. (Inr (), f r))"

definition doA :: "(reg \<Rightarrow> reg \<times> 'a) \<Rightarrow> 'a act" where
  "doA f = (\<lambda>r. case f r of (r', x) \<Rightarrow> (Inr x, r'))"

definition liftA :: "(reg \<Rightarrow> reg \<times> (op_error + 'a)) \<Rightarrow> 'a act" where
  "liftA f = (\<lambda>r. case f r of (r', Inl e) \<Rightarrow> (Inl (X_op e), r') | (r', Inr x) \<Rightarrow> (Inr x, r'))"

definition guardA :: "bool \<Rightarrow> err_code \<Rightarrow> extra list \<Rightarrow> unit act" where
  "guardA b e xs = (if b then ret () else fail e xs)"

text \<open>
  \<^verbatim>\<open>try ... except Exception\<close>: it catches neither the cancellation of the task, which is a
  \<^verbatim>\<open>BaseException\<close>, nor suspension; and \<^verbatim>\<open>try ... finally\<close>.
\<close>

definition catchA :: "'a act \<Rightarrow> (exn \<Rightarrow> 'a act) \<Rightarrow> 'a act" where
  "catchA m h = (\<lambda>r. case m r of
      (Inl e, r') \<Rightarrow> if e = X_blocked \<or> e = X_task_cancelled then (Inl e, r') else h e r'
    | (Inr x, r') \<Rightarrow> (Inr x, r'))"

definition finallyA :: "'a act \<Rightarrow> (reg \<Rightarrow> reg) \<Rightarrow> 'a act" where
  "finallyA m f = (\<lambda>r. case m r of
      (Inl e, r') \<Rightarrow> if e = X_blocked then (Inl e, r') else (Inl e, f r')
    | (Inr x, r') \<Rightarrow> (Inr x, f r'))"

subsection \<open>What runs while a coroutine is suspended\<close>

text \<open>A statement of another task: its events are not queued behind this request's reply.\<close>

definition elsewhere :: "(reg \<Rightarrow> reg) \<Rightarrow> reg \<Rightarrow> reg" where
  "elsewhere f r = (f (r\<lparr>request := None\<rparr>))\<lparr>request := request r\<rparr>"

fun store_do :: "store_step \<Rightarrow> ustore \<Rightarrow> ustore" where
  "store_do S_enter u = (if mx_held u \<or> depth u > 0 then u else fst (serialized_enter u))"
| "store_do S_unlock_keys u = (if mx_held u \<and> depth u > 0 then u\<lparr>has_keys := True\<rparr> else u)"
| "store_do S_finally u = (if mx_held u \<and> depth u > 0 then serialized_finally u else u)"
| "store_do S_release u = (if mx_held u \<and> depth u = 0 then mx_release u else u)"

definition new_prompt :: "nat \<Rightarrow> int option \<Rightarrow> action \<Rightarrow> int \<times> string \<Rightarrow> reg \<Rightarrow> reg \<times> nat" where
  "new_prompt c rid act key r =
     (let p = next_prompt r in
      (r\<lparr>prompts := (prompts r)(p := \<lparr>p_conn = c, p_rid = rid, p_action = act,
             p_cancelled = False, p_key = key\<rparr>),
         next_prompt := Suc p, pend := dset key p (pend r)\<rparr>, p))"

definition end_prompt :: "nat \<Rightarrow> reg \<Rightarrow> reg" where
  "end_prompt p r =
     (if dget (pend r) (p_key (prompts r p)) = Some p
      then r\<lparr>pend := ddel (p_key (prompts r p)) (pend r)\<rparr> else r)"

definition guard_s :: "int \<Rightarrow> (session \<Rightarrow> bool) \<Rightarrow> (session \<Rightarrow> reg \<Rightarrow> reg) \<Rightarrow> reg \<Rightarrow> reg" where
  "guard_s uid g f r =
     (case get_s uid r of None \<Rightarrow> r | Some s \<Rightarrow> if g s then f s r else r)"

text \<open>The synchronous part of a window's hello: it takes the place of none or a closed one.\<close>

definition new_window :: "int \<Rightarrow> nat \<Rightarrow> reg \<Rightarrow> reg" where
  "new_window uid c r =
     (case get_s uid r of
        None \<Rightarrow> r
      | Some s \<Rightarrow>
          if (case s_ui s of None \<Rightarrow> False | Some d \<Rightarrow> \<not> c_closed (cobj r d)) then r
          else upd_s uid (\<lambda>s. s\<lparr>s_ui := Some c\<rparr>)
                 (if tier1 s \<noteq> None then fst (lock uid None False r) else r))"

fun rev_step :: "rev_event \<Rightarrow> reg \<Rightarrow> reg" where
  "rev_step (R_lock uid reason n) r = elsewhere (\<lambda>r. fst (lock uid reason n r)) r"
| "rev_step (R_detach c) r = elsewhere (detach c) r"
| "rev_step (R_close c) r = close_conn c r"
| "rev_step (R_attach c) r = elsewhere (attach c) r"
| "rev_step (R_touch c) r = touch c r"
| "rev_step (R_clock d) r = r\<lparr>clock := clock r + max 0 d, wall := wall r + d\<rparr>"
| "rev_step (R_release uid) r = elsewhere (release_grant uid) r"
| "rev_step (R_grant_timer uid ref) r = elsewhere (grant_timeout uid ref) r"
| "rev_step (R_autofill_timer uid c) r = elsewhere (autofill_timeout uid c) r"
| "rev_step (R_cancel c rid) r = fst (cancel_prompts None (Some c) (Some rid) None r)"
| "rev_step R_check_expiry r = elsewhere check_grant_expiry r"
| "rev_step (R_store n st) r = upd_store n (store_do st) r"
| "rev_step (R_put_grant c i a) r =
     elsewhere (guard_s (c_uid (cobj r c)) (\<lambda>s. unlocked r s \<and> tier1 s = Some c)
       (\<lambda>s r. fst (put_grant s i a r))) r"
| "rev_step (R_open_tier1 c all) r =
     elsewhere (guard_s (c_uid (cobj r c)) (\<lambda>s. s_ui s = Some c \<and> \<not> c_closed (cobj r c))
       (\<lambda>s. open_tier1 (s_uid s) c all)) r"
| "rev_step (R_open_autofill c) r =
     elsewhere (guard_s (c_uid (cobj r c)) (\<lambda>s. c_role (cobj r c) = Autofill)
       (\<lambda>s. open_autofill (s_uid s) c)) r"
| "rev_step (R_new_window c) r =
     elsewhere (\<lambda>r. if c_role (cobj r c) = UI then new_window (c_uid (cobj r c)) c r else r) r"
| "rev_step (R_busy uid b) r = upd_s uid (\<lambda>s. s\<lparr>busy := b\<rparr>) r"
| "rev_step (R_prompt_begin c rid act) r =
     (case PROMPT_BUCKET (c_role (cobj r c)) of
        None \<Rightarrow> r
      | Some b \<Rightarrow> if dget (pend r) (c_uid (cobj r c), b) = None
          then fst (new_prompt c (Some rid) act (c_uid (cobj r c), b) r) else r)"
| "rev_step (R_prompt_end p) r = (if p \<in> set (awaiting r) then r else end_prompt p r)"
| "rev_step (R_disk n st) r = r\<lparr>disk_state := (disk_state r)(n := st)\<rparr>"

definition rev_run :: "rev_event list \<Rightarrow> reg \<Rightarrow> reg" where
  "rev_run es r = fold rev_step es r"

definition awaitA :: "meta answer_value act" where
  "awaitA = (\<lambda>r. case script r of
      [] \<Rightarrow> (Inl X_blocked, r)
    | a # rest \<Rightarrow> (aw_result a, rev_run (aw_events a) (r\<lparr>script := rest\<rparr>)))"

subsection \<open>Asking for approval\<close>

definition recent :: "real \<Rightarrow> real list \<Rightarrow> real list" where
  "recent now q = dropWhile (\<lambda>t. now - t \<ge> 60) q"

definition retry_after :: "real \<Rightarrow> real list \<Rightarrow> int" where
  "retry_after now q = max 1 \<lceil>60 - (now - hd q)\<rceil>"

text \<open>What becomes of the worker's answer after the wait.\<close>

definition settle :: "reg \<Rightarrow> nat \<Rightarrow> nat \<Rightarrow> outcome \<Rightarrow> outcome" where
  "settle r c p o0 =
     (let o1 = (if p_cancelled (prompts r p) then CANCELLED else o0);
          o2 = (if o1 = DENIED_UNANSWERED then DENIED else o1) in
      if o2 = AUTHORIZED \<and> c_closed (cobj r c) then CANCELLED else o2)"

definition counts :: "reg \<Rightarrow> nat \<Rightarrow> outcome \<Rightarrow> bool" where
  "counts r p o0 \<longleftrightarrow> \<not> p_cancelled (prompts r p) \<and> o0 \<in> set COUNTED"

definition answered_of :: "int \<times> string \<times> action \<Rightarrow> reg \<Rightarrow> real list" where
  "answered_of k r = (case dget (answered r) k of None \<Rightarrow> [] | Some q \<Rightarrow> q)"

definition sanitize_details :: "unidb \<Rightarrow> (string \<times> ustr) list \<Rightarrow> (string \<times> ustr) list" where
  "sanitize_details u ds = map (\<lambda>(k, v). (k, sanitize u v)) ds"

definition finish_prompt :: "int \<times> string \<times> action \<Rightarrow> nat \<Rightarrow> nat \<Rightarrow> outcome \<Rightarrow> unit act" where
  "finish_prompt akey c p o0 = (\<lambda>r.
     let r1 = (if counts r p o0
               then r\<lparr>answered := dset akey (answered_of akey r @ [clock r]) (answered r)\<rparr> else r) in
     case outcome_code (settle r c p o0) of
       None \<Rightarrow> (Inr (), r1)
     | Some e \<Rightarrow> (Inl (X_op (OpError e [])), r1))"

definition authorize :: "nat \<Rightarrow> action \<Rightarrow> (string \<times> ustr) list \<Rightarrow> unit act" where
  "authorize c act ds =
     bindA (getA (\<lambda>r. (c_uid (cobj r c), PROMPT_BUCKET (c_role (cobj r c)), c_closed (cobj r c))))
     (\<lambda>(uid, bk, closed).
       case bk of
         None \<Rightarrow> fail E_forbidden []
       | Some b \<Rightarrow>
           bindA (guardA (\<not> closed) E_cancelled [])
           (\<lambda>_. bindA (getA (\<lambda>r. dget (pend r) (uid, b)))
           (\<lambda>old. bindA (guardA (old = None) E_prompt_pending [])
           (\<lambda>_. bindA (doA (\<lambda>r. (let q = recent (clock r) (answered_of (uid, b, act) r) in
                     (r\<lparr>answered := dset (uid, b, act) q (answered r)\<rparr>, (clock r, q)))))
           (\<lambda>(now, q). bindA (guardA (length q < PROMPT_ANSWERED_PER_MIN) E_rate_limited
                         [X_retry_after (retry_after now q)])
           (\<lambda>_. bindA (getA (\<lambda>r. map_option snd (request r)))
           (\<lambda>rid. bindA (doA (new_prompt c rid act (uid, b)))
           (\<lambda>p. bindA (modA (\<lambda>r. r\<lparr>checks := checks r @ [(c, act, sanitize_details (db r) ds)],
                                        awaiting := p # awaiting r\<rparr>))
           (\<lambda>_. bindA (finallyA awaitA (\<lambda>r. (end_prompt p r)\<lparr>awaiting := removeAll p (awaiting r)\<rparr>))
           (\<lambda>v. case v of
               V_outcome o0 \<Rightarrow> finish_prompt (uid, b, act) c p o0
             | _ \<Rightarrow> raise X_blocked))))))))))"

subsection \<open>Running a store call\<close>

definition KEYLESS_STORE_CALLS :: "string list" where
  "KEYLESS_STORE_CALLS = [''status'', ''state'', ''load_settings'', ''holds_nothing'', ''create_blocked'']"

text \<open>
  The worker has returned, so every store method it called has been left: a script in which
  the mutex of the store is still held resumes too early and counts as suspended.
\<close>

definition store_idle :: "reg \<Rightarrow> nat \<Rightarrow> bool" where
  "store_idle r n \<longleftrightarrow> \<not> mx_held (stores r n) \<and> depth (stores r n) = 0"

definition store_of :: "int \<Rightarrow> reg \<Rightarrow> nat" where
  "store_of uid r = (case get_s uid r of None \<Rightarrow> 0 | Some s \<Rightarrow> s_store s)"

text \<open>The store object the worker made although the task waiting for it was cancelled.\<close>

definition made_of :: "bool \<Rightarrow> answer \<Rightarrow> nat option \<Rightarrow> nat option" where
  "made_of replaces res orphan =
     (if \<not> replaces then None
      else (case res of
          Inr (V_store n) \<Rightarrow> Some n
        | Inr _ \<Rightarrow> None
        | Inl e \<Rightarrow> if e = X_task_cancelled then orphan else None))"

definition next_made :: "reg \<Rightarrow> nat option" where
  "next_made r = (case script r of [] \<Rightarrow> None | a # _ \<Rightarrow> aw_made a)"

definition await_worker :: "int \<Rightarrow> meta answer_value act" where
  "await_worker uid = (\<lambda>r. case awaitA r of
      (res, r') \<Rightarrow> if store_idle r' (store_of uid r') then (res, r') else (Inl X_blocked, r'))"

text \<open>
  The \<^verbatim>\<open>finally\<close> block: \<open>made\<close> is the new store object a create or reset returned, wiped when
  a lock landed meanwhile or when nobody will ever hold it (\<open>returned\<close> is false).
\<close>

definition run_store_finally :: "int \<Rightarrow> nat \<Rightarrow> nat option \<Rightarrow> bool \<Rightarrow> reg \<Rightarrow> reg" where
  "run_store_finally uid e0 made returned r =
     (let r1 = upd_s uid (\<lambda>s. s\<lparr>replacing := False\<rparr>) r in
      case get_s uid r1 of
        None \<Rightarrow> r1
      | Some s \<Rightarrow>
          (let r2 = (case made of
               Some n \<Rightarrow> if epoch s \<noteq> e0 \<or> \<not> returned then upd_store n wipe_now r1 else r1
             | None \<Rightarrow> r1) in
           if wipe_after s \<or> (epoch s \<noteq> e0 \<and> \<not> unlocked r2 s) then wipe_store uid r2 else r2))"

text \<open>The part under the store lock, from where the epoch is noted.\<close>

definition submit :: "call \<Rightarrow> reg \<Rightarrow> reg" where
  "submit fn r = r\<lparr>calls := calls r @ [fn]\<rparr>"

definition store_call :: "int \<Rightarrow> call \<Rightarrow> bool \<Rightarrow> session \<Rightarrow> meta answer_value act" where
  "store_call uid fn replaces s = (\<lambda>r.
     let orphan = next_made r in
     case await_worker uid (submit fn (upd_s uid (\<lambda>s. s\<lparr>replacing := replaces\<rparr>) r)) of
       (res, r') \<Rightarrow>
         if res = Inl X_blocked then (res, r')
         else (res, run_store_finally uid (epoch s) (made_of replaces res orphan) (\<not> isl res) r'))"

definition run_store :: "int \<Rightarrow> call \<Rightarrow> bool \<Rightarrow> bool \<Rightarrow> meta answer_value act" where
  "run_store uid fn keyless replaces =
     bindA (getA (get_s uid))
     (\<lambda>so. case so of
         None \<Rightarrow> fail E_internal []
       | Some s \<Rightarrow>
           if keyless then
             (if fst fn \<notin> set KEYLESS_STORE_CALLS then fail E_internal []
              else bindA (modA (submit fn)) (\<lambda>_. awaitA))
           else if wipe_after s then fail E_locked []
           else bindA awaitA \<comment> \<open>the store lock\<close>
             (\<lambda>_. bindA (getA (get_s uid))
             (\<lambda>so'. case so' of
                 None \<Rightarrow> raise X_blocked
               | Some s' \<Rightarrow>
                   if wipe_after s' then fail E_locked [] else store_call uid fn replaces s')))"

subsection \<open>The session of a uid\<close>

definition apply_settings :: "(string \<times> json) list \<Rightarrow> session \<Rightarrow> session" where
  "apply_settings d s = s\<lparr>s_settings := validate_settings d,
     autofill_enabled := (jget d ''autofill_enabled'' = Some (JBool True)),
     s_features := validate_features (jget d ''features''),
     old_copy := (case jget d ''old_copy'' of Some (JObj oc) \<Rightarrow> Some oc | _ \<Rightarrow> None)\<rparr>"

definition session_for :: "int \<Rightarrow> unit act" where
  "session_for uid =
     bindA (modA (\<lambda>r. if get_s uid r = None
        then r\<lparr>sessions := dset uid (Session_init uid (next_store r)) (sessions r),
               stores := (stores r)(next_store r := UserStore_init),
               next_store := Suc (next_store r)\<rparr> else r))
     (\<lambda>_. bindA (getA (get_s uid))
     (\<lambda>so. case so of
         None \<Rightarrow> raise X_blocked
       | Some s \<Rightarrow>
           if settings_loaded s then ret ()
           else bindA (modA (upd_s uid (\<lambda>s. s\<lparr>settings_loaded := True\<rparr>)))
           (\<lambda>_. bindA (catchA
               (bindA (run_store uid (''load_settings'', []) True False)
                 (\<lambda>v. case v of V_json d \<Rightarrow> ret d | _ \<Rightarrow> raise X_blocked))
               (\<lambda>e. case e of
                   X_op _ \<Rightarrow> bindA (modA (upd_s uid (\<lambda>s. s\<lparr>settings_loaded := False\<rparr>))) (\<lambda>_. ret [])
                 | _ \<Rightarrow> ret []))
           (\<lambda>d. modA (upd_s uid (apply_settings d))))))"

end
