(* ===== verification/Invariants.thy ===== *)
theory Invariants
  imports Coroutines
begin

text \<open>
  The invariant of the registry and that everything which runs while a coroutine is suspended
  keeps it; the monotone facts a coroutine can rely on across an await.
\<close>

subsection \<open>The invariant\<close>

text \<open>
  Of one session: tier 1 is open on the window's connection only, which is a \<^verbatim>\<open>ui\<close> connection
  of this uid; the settings are in range; a locked session holds no list metadata of the last sync
  and no autofill handle.
\<close>

definition sess_ok :: "reg \<Rightarrow> int \<Rightarrow> session \<Rightarrow> bool" where
  "sess_ok r uid s \<longleftrightarrow>
     s_uid s = uid \<and> (tier1 s = None \<or> tier1 s = s_ui s) \<and>
     (\<forall>c. s_ui s = Some c \<longrightarrow> c_uid (cobj r c) = uid \<and> c_role (cobj r c) = UI) \<and>
     settings_ok (s_settings s) \<and> length (copy_texts s) \<le> COPY_TEXT_PER_MIN \<and>
     (tier1 s = None \<longrightarrow> s_shape s = None \<and> \<not> show_all s) \<and>
     (tier1 s = None \<and> autofill_conn s = None \<longrightarrow> autofill_key s = None)"

definition rinv :: "reg \<Rightarrow> bool" where
  "rinv r \<longleftrightarrow> pend_ok r \<and> (\<forall>uid s. get_s uid r = Some s \<longrightarrow> sess_ok r uid s) \<and>
     (\<forall>uid g. dget (grants (gtab r)) uid = Some g \<longrightarrow> (\<exists>s. get_s uid r = Some s \<and> tier1 s \<noteq> None))"

definition same_ids :: "reg \<Rightarrow> reg \<Rightarrow> bool" where
  "same_ids r r' \<longleftrightarrow> (\<forall>c. c_uid (cobj r' c) = c_uid (cobj r c) \<and> c_role (cobj r' c) = c_role (cobj r c))"

lemma rinvD:
  assumes "rinv r"
  shows "pend_ok r" and "get_s uid r = Some s \<Longrightarrow> sess_ok r uid s"
    and "dget (grants (gtab r)) uid = Some g \<Longrightarrow> \<exists>s. get_s uid r = Some s \<and> tier1 s \<noteq> None"
  using assms unfolding rinv_def by blast+

lemma sess_ok_ids: "same_ids r r' \<Longrightarrow> sess_ok r' = sess_ok r"
  by (simp add: sess_ok_def same_ids_def fun_eq_iff)

text \<open>An operation that leaves sessions, dialogs and identities alone and adds no grant.\<close>

lemma rinv_cong:
  assumes "rinv r" and "same_ids r r'" and "pend r' = pend r" "prompts r' = prompts r"
    "next_prompt r' = next_prompt r" and "\<And>u. get_s u r' = get_s u r"
    and "\<And>u g. dget (grants (gtab r')) u = Some g \<Longrightarrow> \<exists>g'. dget (grants (gtab r)) u = Some g'"
  shows "rinv r'"
proof -
  have "pend_ok r' = pend_ok r"
    using assms(2-5) by (intro pend_ok_cong) (simp_all add: same_ids_def)
  with assms sess_ok_ids [OF assms(2)] show ?thesis
    unfolding rinv_def by (metis (no_types))
qed

lemma rinv_upd_s:
  assumes "rinv r"
    and "\<And>s. get_s uid r = Some s \<Longrightarrow> sess_ok r uid s \<Longrightarrow>
      sess_ok r uid (f s) \<and> (tier1 (f s) = None \<longrightarrow> tier1 s = None)"
  shows "rinv (upd_s uid f r)"
proof -
  have "same_ids r (upd_s uid f r)" by (simp add: same_ids_def)
  then have ok: "sess_ok (upd_s uid f r) = sess_ok r" by (rule sess_ok_ids)
  have "pend_ok (upd_s uid f r) = pend_ok r" by (intro pend_ok_cong) simp_all
  with assms ok show ?thesis
    unfolding rinv_def by (auto split: if_splits)
qed

lemma rinv_cobj_only [inv_intros]:
  assumes "rinv r"
  shows "rinv (send_event c ev r)" "rinv (close_conn c r)" "rinv (notify_ui uid ev r)"
    "rinv (run_after a r)" "rinv (after_reply a r)" "rinv (notify_autofill_hosts uid r)"
    "rinv (withdraw uid ros r)" "rinv (notify_autofill uid r)"
  by (rule rinv_cong [OF assms]; simp add: same_ids_def)+

lemma rinv_drop_grant [inv_intros]: "rinv r \<Longrightarrow> rinv (drop_grant uid b r)"
  by (erule rinv_cong) (simp_all add: same_ids_def grants_drop split: if_splits)

lemma rinv_end_grant [inv_intros]: "rinv r \<Longrightarrow> rinv (end_grant uid r)"
  by (erule rinv_cong) (simp_all add: same_ids_def grants_end split: if_splits)

lemma rinv_fold: "(\<And>x r. rinv r \<Longrightarrow> rinv (f x r)) \<Longrightarrow> rinv r \<Longrightarrow> rinv (fold f xs r)"
  by (induction xs arbitrary: r) simp_all

lemma rinv_check_expiry [inv_intros]: "rinv r \<Longrightarrow> rinv (check_grant_expiry r)"
  unfolding check_grant_expiry_def
  by (rule rinv_fold) (auto intro: rinv_end_grant split: prod.splits)

lemma rinv_fields [inv_intros]:
  assumes "rinv r"
  shows "rinv (r\<lparr>request := rq\<rparr>)" "rinv (r\<lparr>script := sc\<rparr>)" "rinv (r\<lparr>clock := cl\<rparr>)"
    "rinv (r\<lparr>wall := wa\<rparr>)" "rinv (r\<lparr>disk_state := ds\<rparr>)" "rinv (r\<lparr>book := b\<rparr>)"
    "rinv (r\<lparr>conns := cs\<rparr>)" "rinv (r\<lparr>next_key := nk\<rparr>)" "rinv (r\<lparr>answered := an\<rparr>)"
    "rinv (r\<lparr>awaiting := aw\<rparr>)" "rinv (r\<lparr>checks := ch\<rparr>)" "rinv (r\<lparr>after := af\<rparr>)"
    "rinv (r\<lparr>stores := sts\<rparr>)" "rinv (r\<lparr>next_store := ns\<rparr>)" "rinv (r\<lparr>spawned := sp\<rparr>)"
  by (rule rinv_cong [OF assms]; simp add: same_ids_def)+

lemma rinv_upd_store [inv_intros]: "rinv r \<Longrightarrow> rinv (upd_store n f r)"
  by (erule rinv_cong) (simp_all add: same_ids_def)

lemma rinv_cancel_prompts [inv_intros]:
  assumes "rinv r" shows "rinv (fst (cancel_prompts u c rid act r))"
proof -
  have "same_ids r (fst (cancel_prompts u c rid act r))" by (simp add: same_ids_def)
  then have "sess_ok (fst (cancel_prompts u c rid act r)) = sess_ok r" by (rule sess_ok_ids)
  with assms cancel_prompts_effect(1) [OF rinvD(1) [OF assms]] show ?thesis
    by (simp add: rinv_def)
qed

lemma rinv_wipe_store [inv_intros]: "rinv r \<Longrightarrow> rinv (wipe_store uid r)"
proof -
  assume r: "rinv r"
  have "sess_ok r u (s\<lparr>wipe_after := b\<rparr>) = sess_ok r u s" for r u s b by (simp add: sess_ok_def)
  then show ?thesis
    using r by (auto simp: wipe_store_def Let_def split: option.splits prod.splits
        intro!: rinv_upd_s rinv_upd_store)
qed

lemma rinv_lock_core:
  assumes "rinv r" and s: "get_s uid r = Some s"
  shows "rinv (lock_core uid r)"
proof -
  have ids: "same_ids r (lock_core uid r)" by (simp add: same_ids_def lock_core_fields)
  have "sess_ok r uid s" using rinvD(2) [OF assms] .
  then show ?thesis
    using pend_lock_core(1) [OF rinvD(1) [OF assms(1)], of uid] rinvD(2,3) [OF assms(1)]
    unfolding rinv_def sess_ok_ids [OF ids] get_s_lock_core [OF s]
    by (auto simp: lock_core_fields grants_drop sess_ok_def split: if_splits)
qed

lemma rinv_lock [inv_intros]: "rinv r \<Longrightarrow> rinv (fst (lock uid reason n r))"
  by (auto simp: lock_def Let_def split: option.splits
      intro!: rinv_cobj_only rinv_lock_core)

lemma rinv_clear_autofill:
  assumes "rinv r" and "\<And>s. get_s uid r = Some s \<Longrightarrow> tier1 s \<noteq> None"
  shows "rinv (clear_autofill uid r)"
  unfolding clear_autofill_def
  by (rule rinv_upd_s [OF assms(1)]) (use assms(2) in \<open>auto simp: sess_ok_def\<close>)

lemma rinv_close_autofill [inv_intros]: "rinv r \<Longrightarrow> rinv (close_autofill uid r)"
  by (auto simp: close_autofill_def unlocked_def split: option.splits
      intro!: rinv_lock rinv_clear_autofill)

lemma rinv_touch_autofill [inv_intros]: "rinv r \<Longrightarrow> rinv (touch_autofill uid c r)"
  unfolding touch_autofill_def by (erule rinv_upd_s) (auto simp: sess_ok_def)

lemma rinv_open_autofill [inv_intros]: "rinv r \<Longrightarrow> rinv (open_autofill uid c r)"
  unfolding open_autofill_def Let_def
  by (intro inv_intros rinv_upd_s) (auto simp: sess_ok_def)

lemma rinv_open_tier1:
  assumes "rinv r" and "get_s uid r = Some s" and "s_ui s = Some c"
  shows "rinv (open_tier1 uid c all r)"
  unfolding open_tier1_def
  by (intro inv_intros rinv_upd_s assms) (use assms in \<open>auto simp: sess_ok_def\<close>)

lemma rinv_release_grant [inv_intros]: "rinv r \<Longrightarrow> rinv (release_grant uid r)"
  unfolding release_grant_def by (intro inv_intros rinv_upd_s) (auto simp: sess_ok_def)

lemma grants_put: "dget (grants (fst (put_g now0 wa uid i a secs t))) u =
    (if u = uid then Some (snd (put_g now0 wa uid i a secs t)) else dget (grants t) u)"
  by (simp add: put_g_def Let_def grants_drop)

lemma gtab_put_grant:
  "gtab (fst (put_grant s i a r)) =
     fst (put_g (clock r) (wall r) (s_uid s) i a (grant_s (s_settings s)) (fst (drop_g (s_uid s) (gtab r))))"
  by (auto simp: put_grant_def Let_def split: prod.splits)

lemma put_grant_frame [simp]:
  "get_s u (fst (put_grant s i a r)) = get_s u r"
  "pend (fst (put_grant s i a r)) = pend r" "prompts (fst (put_grant s i a r)) = prompts r"
  "next_prompt (fst (put_grant s i a r)) = next_prompt r"
  "c_uid (cobj (fst (put_grant s i a r)) c) = c_uid (cobj r c)"
  "c_role (cobj (fst (put_grant s i a r)) c) = c_role (cobj r c)"
  "c_closed (cobj (fst (put_grant s i a r)) c) = c_closed (cobj r c)"
  "stores (fst (put_grant s i a r)) = stores r" "script (fst (put_grant s i a r)) = script r"
  "clock (fst (put_grant s i a r)) = clock r" "request (fst (put_grant s i a r)) = request r"
  "awaiting (fst (put_grant s i a r)) = awaiting r" "book (fst (put_grant s i a r)) = book r"
  by (auto simp: put_grant_def Let_def get_s_def split: prod.splits)

lemma rinv_put_grant:
  assumes "rinv r" and "get_s (s_uid s) r = Some s'" and "tier1 s' \<noteq> None"
  shows "rinv (fst (put_grant s i a r))"
proof -
  have ids: "same_ids r (fst (put_grant s i a r))" by (simp add: same_ids_def)
  have "pend_ok (fst (put_grant s i a r)) = pend_ok r" by (intro pend_ok_cong) simp_all
  with rinvD [OF assms(1)] assms(2,3) show ?thesis
    unfolding rinv_def sess_ok_ids [OF ids]
    by (auto simp: gtab_put_grant grants_put grants_drop split: if_splits)
qed

lemma rinv_attach [inv_intros]: "rinv r \<Longrightarrow> rinv (attach c r)"
  by (auto simp: attach_def Let_def intro!: inv_intros)

lemma rinv_detach_ui [inv_intros]: "rinv r \<Longrightarrow> rinv (detach_ui c uid r)"
proof -
  assume r: "rinv r"
  have "rinv (upd_s uid (\<lambda>s. s\<lparr>s_ui := None\<rparr>) (fst (lock uid None False r)))"
    if "get_s uid r = Some s" for s
    by (rule rinv_upd_s [OF rinv_lock [OF r]])
      (auto simp: lock_is_core(1) [OF that] get_s_lock_core [OF that] sess_ok_def)
  then show ?thesis using r by (auto simp: detach_ui_def split: option.splits)
qed

lemma rinv_detach [inv_intros]: "rinv r \<Longrightarrow> rinv (detach c r)"
  by (auto simp: detach_def Let_def split: option.splits intro!: inv_intros)

lemma rinv_touch [inv_intros]: "rinv r \<Longrightarrow> rinv (touch c r)"
proof -
  assume r: "rinv r"
  have ok: "sess_ok r u (s\<lparr>last_ui_request := t\<rparr>) = sess_ok r u s" for u s t
    by (simp add: sess_ok_def)
  have "rinv (upd_s uid (\<lambda>s. if s_ui s = Some c then s\<lparr>last_ui_request := t\<rparr> else s) r)" for uid t
    by (rule rinv_upd_s [OF r]) (simp add: ok)
  then show ?thesis using r by (simp add: touch_def)
qed

lemma rinv_new_prompt:
  assumes "rinv r" and "dget (pend r) key = None" and "fst key = c_uid (cobj r c)"
    and "PROMPT_BUCKET (c_role (cobj r c)) = Some (snd key)"
  shows "rinv (fst (new_prompt c rid act key r))"
proof -
  let ?r' = "fst (new_prompt c rid act key r)"
  have ids: "same_ids r ?r'" by (simp add: same_ids_def new_prompt_def Let_def)
  have p: "p \<noteq> next_prompt r" if "dget (pend r) k = Some p" for k p
    using pend_okD(3) [OF rinvD(1) [OF assms(1)] that] by simp
  have "pend_ok ?r'"
    unfolding pend_ok_def
  proof (intro conjI allI impI)
    show "dict_ok (pend ?r')"
      using rinvD(1) [OF assms(1)] by (simp add: new_prompt_def Let_def pend_ok_def)
    fix k q assume "dget (pend ?r') k = Some q"
    then have "(k = key \<and> q = next_prompt r) \<or> (k \<noteq> key \<and> dget (pend r) k = Some q \<and> q \<noteq> next_prompt r)"
      using p by (auto simp: new_prompt_def Let_def split: if_splits)
    then show "p_key (prompts ?r' q) = k" "\<not> p_cancelled (prompts ?r' q)" "q < next_prompt ?r'"
      "fst k = c_uid (cobj ?r' (p_conn (prompts ?r' q)))"
      "PROMPT_BUCKET (c_role (cobj ?r' (p_conn (prompts ?r' q)))) = Some (snd k)"
      using assms(3,4) pend_okD [OF rinvD(1) [OF assms(1)], of k q]
      by (auto simp: new_prompt_def Let_def)
  qed
  with rinvD [OF assms(1)] show ?thesis
    unfolding rinv_def sess_ok_ids [OF ids] by (simp add: new_prompt_def Let_def)
qed

lemma rinv_end_prompt [inv_intros]: "rinv r \<Longrightarrow> rinv (end_prompt p r)"
proof -
  assume r: "rinv r"
  have ids: "same_ids r (end_prompt p r)" by (simp add: same_ids_def end_prompt_def)
  have "pend_ok (end_prompt p r)"
    using rinvD(1) [OF r] unfolding end_prompt_def pend_ok_def
    by (cases "dget (pend r) (p_key (prompts r p)) = Some p") (simp_all split: if_splits)
  with rinvD [OF r] show ?thesis
    unfolding rinv_def sess_ok_ids [OF ids] by (auto simp: end_prompt_def)
qed

lemma rinv_lock_new_ui:
  assumes "rinv r" and s: "get_s uid r = Some s" and "c_uid (cobj r c) = uid" and "c_role (cobj r c) = UI"
  shows "rinv (upd_s uid (\<lambda>s. s\<lparr>s_ui := Some c\<rparr>) (fst (lock uid None False r)))"
  by (rule rinv_upd_s [OF rinv_lock [OF assms(1)]])
    (use assms(3,4) in \<open>auto simp: lock_is_core [OF s] get_s_lock_core [OF s] sess_ok_def lock_core_fields\<close>)

lemma rinv_new_window:
  assumes "rinv r" and "c_uid (cobj r c) = uid" and "c_role (cobj r c) = UI"
  shows "rinv (new_window uid c r)"
proof -
  note 1 = rinv_lock_new_ui [OF assms(1) _ assms(2,3)]
  have 2: "rinv (upd_s uid (\<lambda>s. s\<lparr>s_ui := Some c\<rparr>) r)" if s: "get_s uid r = Some s" "tier1 s = None" for s
    by (rule rinv_upd_s [OF assms(1)]) (use assms(2,3) s in \<open>auto simp: sess_ok_def\<close>)
  show ?thesis using 1 2 assms(1) by (auto simp: new_window_def split: option.splits)
qed

lemma rinv_guard_s:
  "rinv r \<Longrightarrow> (\<And>s. get_s uid r = Some s \<Longrightarrow> g s \<Longrightarrow> rinv (f s r)) \<Longrightarrow> rinv (guard_s uid g f r)"
  by (simp add: guard_s_def split: option.splits)

lemma rinv_elsewhere: "rinv r \<Longrightarrow> (\<And>r. rinv r \<Longrightarrow> rinv (f r)) \<Longrightarrow> rinv (elsewhere f r)"
  by (simp add: elsewhere_def rinv_fields)

text \<open>Every statement of another task keeps the invariant.\<close>

lemma rinv_rev_step: "rinv r \<Longrightarrow> rinv (rev_step e r)"
proof (cases e)
  case (R_put_grant c i a)
  assume r: "rinv r"
  show ?thesis
    unfolding R_put_grant rev_step.simps
    by (intro rinv_elsewhere [OF r] rinv_guard_s)
      (auto intro!: rinv_put_grant dest: rinvD(2) simp: sess_ok_def)
next
  case (R_open_tier1 c all)
  assume r: "rinv r"
  show ?thesis
    unfolding R_open_tier1 rev_step.simps
    by (intro rinv_elsewhere [OF r] rinv_guard_s)
      (auto intro!: rinv_open_tier1 dest: rinvD(2) simp: sess_ok_def)
next
  case (R_prompt_begin c rid act)
  then show "rinv r \<Longrightarrow> ?thesis" by (auto split: option.splits intro!: rinv_new_prompt)
next
  case (R_busy uid b)
  then show "rinv r \<Longrightarrow> ?thesis" by (auto intro!: rinv_upd_s simp: sess_ok_def)
next
  case (R_new_window c)
  then show "rinv r \<Longrightarrow> ?thesis" by (auto intro!: rinv_elsewhere rinv_new_window)
next
  case (R_clock d)
  assume r: "rinv r"
  then show ?thesis using R_clock by (auto intro!: rinv_cong [OF r] simp: same_ids_def)
next
  case (R_grant_timer uid ref)
  then show "rinv r \<Longrightarrow> ?thesis"
    by (auto simp: grant_timeout_def split: option.splits intro!: rinv_elsewhere rinv_end_grant)
next
  case (R_autofill_timer uid c)
  then show "rinv r \<Longrightarrow> ?thesis"
    by (auto simp: autofill_timeout_def split: option.splits intro!: rinv_elsewhere rinv_close_autofill)
qed (auto intro!: rinv_elsewhere rinv_guard_s inv_intros)

lemma rinv_rev_run [inv_intros]: "rinv r \<Longrightarrow> rinv (rev_run es r)"
  unfolding rev_run_def by (rule rinv_fold) (rule rinv_rev_step)

end
