(* ===== verification/Evolution.thy ===== *)
theory Evolution
  imports Invariants
begin

text \<open>
  What a coroutine can rely on across an await, whatever ran meanwhile: sessions stay, epochs only
  grow, an unchanged epoch means tier 1 is still open where it was, connections stay closed, and a
  dialog of the coroutine's own is on screen until it is cancelled - which every lock of its uid
  does.
\<close>

definition on_screen :: "reg \<Rightarrow> nat \<Rightarrow> bool" where
  "on_screen r p \<longleftrightarrow> dget (pend r) (p_key (prompts r p)) = Some p"

definition session_evolves :: "reg \<Rightarrow> session \<Rightarrow> session \<Rightarrow> bool" where
  "session_evolves r' s s' \<longleftrightarrow> epoch s \<le> epoch s' \<and> s_store s' = s_store s \<and>
     (epoch s' = epoch s \<longrightarrow> (tier1 s = None \<or> tier1 s' = tier1 s) \<and>
        (\<forall>c. s_ui s = Some c \<longrightarrow> \<not> c_closed (cobj r' c) \<longrightarrow> s_ui s' = Some c))"

definition prompt_evolves :: "reg \<Rightarrow> reg \<Rightarrow> nat \<Rightarrow> bool" where
  "prompt_evolves r r' p \<longleftrightarrow>
     p_key (prompts r' p) = p_key (prompts r p) \<and>
     (p_cancelled (prompts r p) \<longrightarrow> p_cancelled (prompts r' p)) \<and>
     (p \<in> set (awaiting r) \<longrightarrow> on_screen r p \<longrightarrow> on_screen r' p \<or> p_cancelled (prompts r' p)) \<and>
     (\<forall>s s'. p \<in> set (awaiting r) \<longrightarrow> on_screen r p \<longrightarrow>
        get_s (fst (p_key (prompts r p))) r = Some s \<longrightarrow>
        get_s (fst (p_key (prompts r p))) r' = Some s' \<longrightarrow>
        epoch s' \<noteq> epoch s \<longrightarrow> p_cancelled (prompts r' p))"

definition evolves :: "reg \<Rightarrow> reg \<Rightarrow> bool" where
  "evolves r r' \<longleftrightarrow> same_ids r r' \<and> awaiting r' = awaiting r \<and> script r' = script r \<and>
     (\<forall>c. c_closed (cobj r c) \<longrightarrow> c_closed (cobj r' c)) \<and>
     next_prompt r \<le> next_prompt r' \<and>
     (\<forall>uid s. get_s uid r = Some s \<longrightarrow> (\<exists>s'. get_s uid r' = Some s' \<and> session_evolves r' s s')) \<and>
     (\<forall>p < next_prompt r. prompt_evolves r r' p)"

lemma evolvesD:
  assumes "evolves r r'"
  shows "same_ids r r'" and "awaiting r' = awaiting r" and "script r' = script r"
    and "c_closed (cobj r c) \<Longrightarrow> c_closed (cobj r' c)" and "next_prompt r \<le> next_prompt r'"
    and "get_s uid r = Some s \<Longrightarrow> \<exists>s'. get_s uid r' = Some s' \<and> session_evolves r' s s'"
    and "p < next_prompt r \<Longrightarrow> prompt_evolves r r' p"
  using assms by (auto simp: evolves_def)

text \<open>An operation that keeps the sessions' epoch, store and tier 1, and the dialogs.\<close>

lemma evolves_frame:
  assumes "same_ids r r'" "awaiting r' = awaiting r" "script r' = script r"
    and "\<And>c. c_closed (cobj r c) \<Longrightarrow> c_closed (cobj r' c)"
    and "pend r' = pend r" "prompts r' = prompts r" "next_prompt r' = next_prompt r"
    and "\<And>uid s. get_s uid r = Some s \<Longrightarrow> \<exists>s'. get_s uid r' = Some s' \<and> epoch s' = epoch s \<and>
      s_store s' = s_store s \<and> (tier1 s = None \<or> tier1 s' = tier1 s) \<and> s_ui s' = s_ui s"
  shows "evolves r r'"
  unfolding evolves_def
proof (intro conjI allI impI)
  fix uid s assume "get_s uid r = Some s"
  then show "\<exists>s'. get_s uid r' = Some s' \<and> session_evolves r' s s'"
    using assms(8) [of uid s] by (auto simp: session_evolves_def)
next
  fix p
  show "prompt_evolves r r' p"
    unfolding prompt_evolves_def on_screen_def assms(5,6)
  proof (intro conjI allI impI)
    fix s s' assume "get_s (fst (p_key (prompts r p))) r = Some s"
      "get_s (fst (p_key (prompts r p))) r' = Some s'" "epoch s' \<noteq> epoch s"
    then show "p_cancelled (prompts r p)" using assms(8) by fastforce
  qed simp_all
qed (use assms in simp_all)

lemma evolves_refl [simp]: "evolves r r"
  by (rule evolves_frame) (auto simp: same_ids_def)

lemma session_evolves_trans:
  "session_evolves r1 s s1 \<Longrightarrow> session_evolves r2 s1 s2 \<Longrightarrow>
   (\<And>c. c_closed (cobj r1 c) \<Longrightarrow> c_closed (cobj r2 c)) \<Longrightarrow> session_evolves r2 s s2"
  unfolding session_evolves_def by (metis le_antisym le_trans)

lemma evolves_trans:
  assumes a: "evolves r r1" and b: "evolves r1 r2"
  shows "evolves r r2"
  unfolding evolves_def
proof (intro conjI allI impI)
  show "same_ids r r2" using evolvesD(1) [OF a] evolvesD(1) [OF b] by (simp add: same_ids_def)
  show "awaiting r2 = awaiting r" "script r2 = script r"
    using evolvesD(2,3) [OF a] evolvesD(2,3) [OF b] by simp_all
  show "next_prompt r \<le> next_prompt r2" using evolvesD(5) [OF a] evolvesD(5) [OF b] by simp
  show "c_closed (cobj r2 c)" if "c_closed (cobj r c)" for c
    using that evolvesD(4) [OF a] evolvesD(4) [OF b] by blast
  show "\<exists>s'. get_s uid r2 = Some s' \<and> session_evolves r2 s s'" if "get_s uid r = Some s" for uid s
  proof -
    obtain s1 where s1: "get_s uid r1 = Some s1" "session_evolves r1 s s1"
      using evolvesD(6) [OF a \<open>get_s uid r = Some s\<close>] by blast
    obtain s2 where s2: "get_s uid r2 = Some s2" "session_evolves r2 s1 s2"
      using evolvesD(6) [OF b s1(1)] by blast
    show ?thesis using session_evolves_trans [OF s1(2) s2(2) evolvesD(4) [OF b]] s2(1) by blast
  qed
  fix p assume p: "p < next_prompt r"
  then have p1: "p < next_prompt r1" using evolvesD(5) [OF a] by simp
  note pa = evolvesD(7) [OF a p] and pb = evolvesD(7) [OF b p1]
  have k: "p_key (prompts r1 p) = p_key (prompts r p)" using pa by (simp add: prompt_evolves_def)
  show "prompt_evolves r r2 p"
    unfolding prompt_evolves_def
  proof (intro conjI allI impI)
    show "p_key (prompts r2 p) = p_key (prompts r p)" using pa pb by (simp add: prompt_evolves_def)
    show "p_cancelled (prompts r2 p)" if "p_cancelled (prompts r p)"
      using that pa pb by (simp add: prompt_evolves_def)
    assume aw: "p \<in> set (awaiting r)" and os: "on_screen r p"
    have aw1: "p \<in> set (awaiting r1)" using aw evolvesD(2) [OF a] by simp
    have os1: "on_screen r1 p \<or> p_cancelled (prompts r1 p)"
      using pa aw os unfolding prompt_evolves_def by blast
    then show "on_screen r2 p \<or> p_cancelled (prompts r2 p)"
      using pb aw1 unfolding prompt_evolves_def by blast
    fix s s2
    assume s: "get_s (fst (p_key (prompts r p))) r = Some s"
      and s2: "get_s (fst (p_key (prompts r p))) r2 = Some s2" and ne: "epoch s2 \<noteq> epoch s"
    obtain s1 where s1: "get_s (fst (p_key (prompts r p))) r1 = Some s1"
      using evolvesD(6) [OF a s] by blast
    show "p_cancelled (prompts r2 p)"
    proof (cases "epoch s1 = epoch s")
      case False
      then have "p_cancelled (prompts r1 p)"
        using pa aw os s s1 unfolding prompt_evolves_def by blast
      then show ?thesis using pb by (simp add: prompt_evolves_def)
    next
      case True
      from os1 show ?thesis
      proof
        assume "on_screen r1 p"
        with pb aw1 s1 s2 ne True show ?thesis unfolding prompt_evolves_def k by metis
      next
        assume "p_cancelled (prompts r1 p)"
        then show ?thesis using pb by (simp add: prompt_evolves_def)
      qed
    qed
  qed
qed

text \<open>Together with the invariant.\<close>

definition keeps :: "reg \<Rightarrow> reg \<Rightarrow> bool" where
  "keeps r r' \<longleftrightarrow> (rinv r \<longrightarrow> rinv r' \<and> evolves r r')"

lemma keepsI: "(rinv r \<Longrightarrow> rinv r') \<Longrightarrow> (rinv r \<Longrightarrow> evolves r r') \<Longrightarrow> keeps r r'"
  by (simp add: keeps_def)

lemma keeps_trans: "keeps r r1 \<Longrightarrow> keeps r1 r2 \<Longrightarrow> keeps r r2"
  unfolding keeps_def using evolves_trans by blast

lemma keeps_refl [simp]: "keeps r r"
  unfolding keeps_def by (auto intro: evolves_frame simp: same_ids_def)

lemma keeps_fold: "(\<And>x r. keeps r (f x r)) \<Longrightarrow> keeps r (fold f xs r)"
  by (induction xs arbitrary: r) (auto intro: keeps_trans)

lemma keeps_frames0:
  "keeps r (send_event c ev r)" "keeps r (close_conn c r)" "keeps r (notify_ui uid ev r)"
  "keeps r (run_after a r)" "keeps r (after_reply a r)" "keeps r (notify_autofill_hosts uid r)"
  "keeps r (withdraw uid ros r)" "keeps r (notify_autofill uid r)" "keeps r (drop_grant uid b r)"
  "keeps r (end_grant uid r)" "keeps r (upd_store n f r)" "keeps r (r\<lparr>request := rq\<rparr>)"
  "keeps r (r\<lparr>clock := cl\<rparr>)" "keeps r (r\<lparr>wall := wa\<rparr>)" "keeps r (r\<lparr>disk_state := ds\<rparr>)"
  "keeps r (r\<lparr>book := bk\<rparr>)" "keeps r (r\<lparr>conns := cs\<rparr>)" "keeps r (r\<lparr>next_key := nk\<rparr>)"
  "keeps r (r\<lparr>answered := an\<rparr>)" "keeps r (r\<lparr>checks := ch\<rparr>)" "keeps r (r\<lparr>after := af\<rparr>)"
  by (rule keepsI; (rule inv_intros | rule evolves_frame);
      simp add: same_ids_def c_closed_withdraw)+

text \<open>As introduction rules that peel one operation off.\<close>

lemmas keeps_frames [inv_intros] = keeps_frames0 [THEN keeps_trans [rotated]]

lemma evolves_upd_s:
  assumes "\<And>s. epoch (f s) = epoch s \<and> s_store (f s) = s_store s \<and>
    (tier1 s = None \<or> tier1 (f s) = tier1 s) \<and> s_ui (f s) = s_ui s"
  shows "evolves r (upd_s uid f r)"
  by (rule evolves_frame) (use assms in \<open>auto simp: same_ids_def split: if_splits\<close>)

lemma keeps_upd_s:
  assumes "\<And>s. epoch (f s) = epoch s \<and> s_store (f s) = s_store s \<and> tier1 (f s) = tier1 s \<and> s_ui (f s) = s_ui s"
    and "\<And>r s. sess_ok r uid s \<Longrightarrow> sess_ok r uid (f s)"
  shows "keeps r (upd_s uid f r)"
  using assms by (intro keepsI rinv_upd_s evolves_upd_s) auto

lemma keeps_cancel_prompts: "keeps r (fst (cancel_prompts u c rid act r))"
proof (rule keepsI)
  assume r: "rinv r"
  then show "rinv (fst (cancel_prompts u c rid act r))" by (rule inv_intros)
  note e = cancel_prompts_effect [OF rinvD(1) [OF r], of u c rid act]
  let ?r' = "fst (cancel_prompts u c rid act r)"
  have k: "p_key (prompts ?r' p) = p_key (prompts r p)" for p by (simp add: e(3))
  show "evolves r ?r'"
    unfolding evolves_def
  proof (intro conjI allI impI)
    fix p
    show "prompt_evolves r ?r' p"
      unfolding prompt_evolves_def on_screen_def k
    proof (intro conjI allI impI)
      assume os: "dget (pend r) (p_key (prompts r p)) = Some p"
      then have "\<exists>k. dget (pend r) k = Some p" by blast
      with os show "dget (pend ?r') (p_key (prompts r p)) = Some p \<or> p_cancelled (prompts ?r' p)"
        using e(2) [of "p_key (prompts r p)" p] e(3) [of p] by (simp split: if_splits)
    next
      fix s s' assume "get_s (fst (p_key (prompts r p))) r = Some s"
        "get_s (fst (p_key (prompts r p))) ?r' = Some s'" "epoch s' \<noteq> epoch s"
      then show "p_cancelled (prompts ?r' p)" by simp
    qed (simp_all add: e(3))
  qed (simp_all add: same_ids_def session_evolves_def)
qed

lemma keeps_lock_core:
  assumes s: "get_s uid r = Some s"
  shows "keeps r (lock_core uid r)"
proof (rule keepsI)
  assume r: "rinv r"
  then show "rinv (lock_core uid r)" by (rule rinv_lock_core [OF _ s])
  note e = pend_lock_core [OF rinvD(1) [OF r], of uid]
  have k: "p_key (prompts (lock_core uid r) p) = p_key (prompts r p)" for p by (simp add: e(3))
  show "evolves r (lock_core uid r)"
    unfolding evolves_def
  proof (intro conjI allI impI)
    show "awaiting (lock_core uid r) = awaiting r"
      by (simp add: lock_core_def Let_def clear_autofill_def cancel_signin_def)
    fix u t assume "get_s u r = Some t"
    then show "\<exists>s'. get_s u (lock_core uid r) = Some s' \<and> session_evolves (lock_core uid r) t s'"
      using s by (auto simp: get_s_lock_core [OF s] session_evolves_def)
  next
    fix p
    have key: "p_cancelled (prompts (lock_core uid r) p)"
      if "fst (p_key (prompts r p)) = uid" "on_screen r p"
    proof -
      have "\<exists>k. dget (pend r) k = Some p \<and> fst k = uid" using that unfolding on_screen_def by blast
      then show ?thesis using e(3) [of p] by simp
    qed
    show "prompt_evolves r (lock_core uid r) p"
      unfolding prompt_evolves_def k
    proof (intro conjI allI impI)
      assume os: "on_screen r p"
      then show "on_screen (lock_core uid r) p \<or> p_cancelled (prompts (lock_core uid r) p)"
        using key [OF _ os] e(2) [of "p_key (prompts r p)" p] by (auto simp: on_screen_def k)
      fix t t' assume "get_s (fst (p_key (prompts r p))) r = Some t"
        "get_s (fst (p_key (prompts r p))) (lock_core uid r) = Some t'" "epoch t' \<noteq> epoch t"
      then show "p_cancelled (prompts (lock_core uid r) p)"
        using key [OF _ os] by (auto simp: get_s_lock_core [OF s] split: if_splits)
    qed (simp_all add: e(3))
  qed (simp_all add: lock_core_fields same_ids_def c_closed_lock_core)
qed

lemma keeps_lock: "keeps r (fst (lock uid reason n r))"
proof (cases "get_s uid r")
  case (Some s)
  have "keeps r (lock_core uid r)" by (rule keeps_lock_core [OF Some])
  then show ?thesis
    using Some by (auto simp: lock_def Let_def split: option.splits intro!: inv_intros)
qed (simp add: lock_def)

lemma keeps_clear_autofill:
  "(\<And>s. get_s uid r = Some s \<Longrightarrow> tier1 s \<noteq> None) \<Longrightarrow> keeps r (clear_autofill uid r)"
  unfolding clear_autofill_def
  by (intro keepsI evolves_upd_s) (auto intro: rinv_clear_autofill [unfolded clear_autofill_def])

lemma keeps_close_autofill: "keeps r (close_autofill uid r)"
  by (auto simp: close_autofill_def unlocked_def split: option.splits
      intro!: keeps_lock keeps_clear_autofill)

lemma keeps_elsewhere: "(\<And>r. keeps r (f r)) \<Longrightarrow> keeps r (elsewhere f r)"
  unfolding elsewhere_def
  by (rule keeps_trans [OF keeps_trans [OF keeps_frames0(12) [of r None]] keeps_frames0(12)])

lemma keeps_wipe_store: "keeps r (wipe_store uid r)"
  by (rule keepsI [OF rinv_wipe_store evolves_frame])
    (auto simp: same_ids_def get_s_wipe_store wipe_store_def upd_store_def Let_def
      split: option.splits prod.splits if_splits)

lemma keeps_attach: "keeps r (attach c r)"
  by (auto simp: attach_def Let_def intro!: inv_intros)

lemma evolves_then_ui:
  assumes ev: "evolves r r'" and gt: "\<And>s s'. get_s uid r = Some s \<Longrightarrow> get_s uid r' = Some s' \<Longrightarrow> epoch s < epoch s'"
  shows "evolves r (upd_s uid (\<lambda>s. s\<lparr>s_ui := x\<rparr>) r')"
proof -
  let ?r2 = "upd_s uid (\<lambda>s. s\<lparr>s_ui := x\<rparr>) r'"
  note e = evolvesD [OF ev]
  have g: "get_s u ?r2 = (if u = uid then map_option (\<lambda>s. s\<lparr>s_ui := x\<rparr>) (get_s u r') else get_s u r')" for u
    by simp
  show ?thesis
    unfolding evolves_def
  proof (intro conjI allI impI)
    show "same_ids r ?r2" using e(1) by (simp add: same_ids_def)
    fix u s assume s: "get_s u r = Some s"
    then obtain s' where s': "get_s u r' = Some s'" "session_evolves r' s s'" using e(6) by blast
    show "\<exists>s'. get_s u ?r2 = Some s' \<and> session_evolves ?r2 s s'"
    proof (cases "u = uid")
      case True
      then have "epoch s < epoch s'" using gt s s'(1) by simp
      with True s' show ?thesis by (simp add: session_evolves_def)
    next
      case False
      with s' show ?thesis by (simp add: session_evolves_def)
    qed
  next
    fix p assume "p < next_prompt r"
    from e(7) [OF this] have pe: "prompt_evolves r r' p" .
    have ep: "\<exists>t. get_s u r' = Some t \<and> epoch t = epoch s2" if "get_s u ?r2 = Some s2" for u s2
      using that unfolding g by (auto split: if_splits)
    show "prompt_evolves r ?r2 p"
      unfolding prompt_evolves_def
    proof (intro conjI allI impI)
      show "p_key (prompts ?r2 p) = p_key (prompts r p)" using pe by (simp add: prompt_evolves_def)
      show "p_cancelled (prompts ?r2 p)" if "p_cancelled (prompts r p)"
        using that pe by (simp add: prompt_evolves_def)
      assume aw: "p \<in> set (awaiting r)" and os: "on_screen r p"
      show "on_screen ?r2 p \<or> p_cancelled (prompts ?r2 p)"
        using pe aw os by (auto simp: prompt_evolves_def on_screen_def)
      fix s s2 assume s: "get_s (fst (p_key (prompts r p))) r = Some s"
        and s2: "get_s (fst (p_key (prompts r p))) ?r2 = Some s2" and ne: "epoch s2 \<noteq> epoch s"
      from ep [OF s2] obtain t where "get_s (fst (p_key (prompts r p))) r' = Some t" "epoch t = epoch s2"
        by blast
      with ne pe aw os s have "p_cancelled (prompts r' p)" unfolding prompt_evolves_def by metis
      then show "p_cancelled (prompts ?r2 p)" by simp
    qed
  qed (use e(2-5) in simp_all)
qed

lemma keeps_lock_then_ui:
  assumes s: "get_s uid r = Some s"
    and "\<And>r'. rinv r \<Longrightarrow> r' = fst (lock uid None False r) \<Longrightarrow> rinv (upd_s uid (\<lambda>s. s\<lparr>s_ui := x\<rparr>) r')"
  shows "keeps r (upd_s uid (\<lambda>s. s\<lparr>s_ui := x\<rparr>) (fst (lock uid None False r)))"
proof (rule keepsI)
  assume r: "rinv r"
  then show "rinv (upd_s uid (\<lambda>s. s\<lparr>s_ui := x\<rparr>) (fst (lock uid None False r)))"
    using assms(2) by blast
  have "evolves r (fst (lock uid None False r))" using keeps_lock r by (simp add: keeps_def)
  then show "evolves r (upd_s uid (\<lambda>s. s\<lparr>s_ui := x\<rparr>) (fst (lock uid None False r)))"
    by (rule evolves_then_ui)
      (use s in \<open>auto simp: lock_is_core(1) [OF s] get_s_lock_core [OF s]\<close>)
qed

lemma keeps_detach_ui: "keeps r (detach_ui c uid r)"
proof (rule keepsI)
  show "rinv r \<Longrightarrow> rinv (detach_ui c uid r)" by (rule rinv_detach_ui)
  assume r: "rinv r"
  show "evolves r (detach_ui c uid r)"
  proof (cases "get_s uid r")
    case (Some s)
    have "keeps r (upd_s uid (\<lambda>s. s\<lparr>s_ui := None\<rparr>) (fst (lock uid None False r)))"
      by (rule keeps_lock_then_ui [OF Some])
        (auto intro!: rinv_upd_s rinv_lock simp: lock_is_core(1) [OF Some] get_s_lock_core [OF Some] sess_ok_def)
    then show ?thesis using Some r keeps_refl [of r] by (auto simp: detach_ui_def keeps_def)
  qed (use r keeps_refl [of r] in \<open>simp add: detach_ui_def keeps_def\<close>)
qed

lemma keeps_new_window:
  assumes "c_uid (cobj r c) = uid" and "c_role (cobj r c) = UI"
  shows "keeps r (new_window uid c r)"
proof (rule keepsI)
  show "rinv r \<Longrightarrow> rinv (new_window uid c r)" by (rule rinv_new_window [OF _ assms])
  assume r: "rinv r"
  show "evolves r (new_window uid c r)"
  proof (cases "get_s uid r")
    case (Some s)
    show ?thesis
    proof (cases "tier1 s")
      case None
      have "evolves r (upd_s uid (\<lambda>s. s\<lparr>s_ui := Some c\<rparr>) r)"
        if d: "\<And>d. s_ui s = Some d \<Longrightarrow> c_closed (cobj r d)"
        unfolding evolves_def
      proof (intro conjI allI impI)
        fix u t assume "get_s u r = Some t"
        then show "\<exists>s'. get_s u (upd_s uid (\<lambda>s. s\<lparr>s_ui := Some c\<rparr>) r) = Some s' \<and>
            session_evolves (upd_s uid (\<lambda>s. s\<lparr>s_ui := Some c\<rparr>) r) t s'"
          using None Some d by (auto simp: session_evolves_def)
      next
        fix p show "prompt_evolves r (upd_s uid (\<lambda>s. s\<lparr>s_ui := Some c\<rparr>) r) p"
          by (auto simp: prompt_evolves_def on_screen_def split: if_splits)
      qed (simp_all add: same_ids_def)
      then show ?thesis
        using Some None r keeps_refl [of r]
        by (auto simp: new_window_def keeps_def split: option.splits)
    next
      case (Some t)
      note g = \<open>get_s uid r = Some s\<close>
      have "keeps r (upd_s uid (\<lambda>s. s\<lparr>s_ui := Some c\<rparr>) (fst (lock uid None False r)))"
        by (rule keeps_lock_then_ui [OF g]) (simp add: rinv_lock_new_ui [OF _ g assms])
      then show ?thesis
        using g Some r keeps_refl [of r] by (auto simp: new_window_def keeps_def split: option.splits)
    qed
  qed (use r keeps_refl [of r] in \<open>simp add: new_window_def keeps_def\<close>)
qed

lemmas keeps_more [inv_intros] =
  keeps_trans [OF _ keeps_cancel_prompts] keeps_trans [OF _ keeps_lock]
  keeps_trans [OF _ keeps_close_autofill] keeps_trans [OF _ keeps_wipe_store]
  keeps_trans [OF _ keeps_attach] keeps_trans [OF _ keeps_detach_ui]

lemma keeps_detach: "keeps r (detach c r)"
  unfolding detach_def Let_def
  by (auto split: option.splits intro!: inv_intros)

lemma keeps_release_grant: "keeps r (release_grant uid r)"
  unfolding release_grant_def
  by (intro inv_intros keeps_upd_s) (auto simp: sess_ok_def)

lemma keeps_touch_autofill: "keeps r (touch_autofill uid c r)"
  unfolding touch_autofill_def by (rule keeps_upd_s) (auto simp: sess_ok_def)

lemma keeps_open_autofill: "keeps r (open_autofill uid c r)"
  unfolding open_autofill_def Let_def
  by (intro inv_intros keeps_trans [OF _ keeps_touch_autofill] keeps_upd_s) (auto simp: sess_ok_def)

lemma keeps_open_tier1:
  assumes "get_s uid r = Some s" and "s_ui s = Some c"
  shows "keeps r (open_tier1 uid c all r)"
proof (rule keepsI)
  assume r: "rinv r"
  then show "rinv (open_tier1 uid c all r)" by (rule rinv_open_tier1 [OF _ assms])
  have "sess_ok r uid s" using rinvD(2) [OF r assms(1)] .
  then show "evolves r (open_tier1 uid c all r)"
    by (intro evolves_frame) (use assms in \<open>auto simp: open_tier1_def same_ids_def sess_ok_def\<close>)
qed

lemma keeps_put_grant:
  assumes "get_s (s_uid s) r = Some s'" and "tier1 s' \<noteq> None"
  shows "keeps r (fst (put_grant s i a r))"
  by (intro keepsI rinv_put_grant assms evolves_frame) (use assms in \<open>auto simp: same_ids_def\<close>)

lemma keeps_new_prompt:
  assumes "dget (pend r) key = None" and "fst key = c_uid (cobj r c)"
    and "PROMPT_BUCKET (c_role (cobj r c)) = Some (snd key)"
  shows "keeps r (fst (new_prompt c rid act key r))"
proof (rule keepsI)
  assume r: "rinv r"
  then show "rinv (fst (new_prompt c rid act key r))" by (rule rinv_new_prompt [OF _ assms])
  show "evolves r (fst (new_prompt c rid act key r))"
    unfolding evolves_def
  proof (intro conjI allI impI)
    fix p assume "p < next_prompt r"
    then show "prompt_evolves r (fst (new_prompt c rid act key r)) p"
      using assms(1) by (auto simp: prompt_evolves_def on_screen_def new_prompt_def Let_def)
  qed (auto simp: new_prompt_def Let_def same_ids_def session_evolves_def)
qed

lemma keeps_end_prompt:
  assumes "p \<notin> set (awaiting r)" shows "keeps r (end_prompt p r)"
proof (rule keepsI)
  assume r: "rinv r"
  then show "rinv (end_prompt p r)" by (rule inv_intros)
  show "evolves r (end_prompt p r)"
    unfolding evolves_def
  proof (intro conjI allI impI)
    fix q
    show "prompt_evolves r (end_prompt p r) q"
      using assms by (auto simp: prompt_evolves_def on_screen_def end_prompt_def)
  qed (auto simp: end_prompt_def same_ids_def session_evolves_def)
qed

lemma keeps_guard_s:
  "(\<And>s. get_s uid r = Some s \<Longrightarrow> g s \<Longrightarrow> keeps r (f s r)) \<Longrightarrow> keeps r (guard_s uid g f r)"
  by (simp add: guard_s_def split: option.splits)

lemma keeps_touch: "keeps r (touch c r)"
proof -
  have ok: "sess_ok r u (s\<lparr>last_ui_request := t\<rparr>) = sess_ok r u s" for r u s t
    by (simp add: sess_ok_def)
  have "keeps r (upd_s uid (\<lambda>s. if s_ui s = Some c then s\<lparr>last_ui_request := t\<rparr> else s) r)" for uid t
    by (rule keeps_upd_s) (simp_all add: ok)
  then show ?thesis by (simp add: touch_def)
qed

lemma keeps_check_expiry: "keeps r (check_grant_expiry r)"
  unfolding check_grant_expiry_def by (rule keeps_fold) (auto intro!: inv_intros split: prod.splits)

lemma keeps_imp: "keeps r r' \<Longrightarrow> (rinv r \<Longrightarrow> keeps r r'') \<Longrightarrow> keeps r r''"
  by (simp add: keeps_def)

lemma keeps_rev_step: "keeps r (rev_step e r)"
proof (cases e)
  case (R_clock d)
  have "keeps r (r\<lparr>clock := clock r + max 0 d, wall := wall r + d\<rparr>)" by (intro inv_intros) simp
  then show ?thesis using R_clock by simp
next
  case (R_put_grant c i a)
  have "keeps r (guard_s uid (\<lambda>s. unlocked r0 s \<and> tier1 s = Some c) (\<lambda>s r. fst (put_grant s i a r)) r)"
    for r r0 uid
    by (rule keeps_guard_s, rule keeps_imp [OF keeps_refl])
      (auto intro!: keeps_put_grant dest: rinvD(2) simp: sess_ok_def)
  then show ?thesis unfolding R_put_grant rev_step.simps by (intro keeps_elsewhere)
next
  case (R_open_tier1 c all)
  have "keeps r (guard_s uid (\<lambda>s. s_ui s = Some c \<and> \<not> c_closed (cobj r0 c)) (\<lambda>s. open_tier1 (s_uid s) c all) r)"
    for r r0 uid
    by (rule keeps_guard_s, rule keeps_imp [OF keeps_refl])
      (auto intro!: keeps_open_tier1 dest: rinvD(2) simp: sess_ok_def)
  then show ?thesis unfolding R_open_tier1 rev_step.simps by (intro keeps_elsewhere)
next
  case (R_new_window c)
  have "keeps r (if c_role (cobj r c) = UI then new_window (c_uid (cobj r c)) c r else r)" for r
    by (simp add: keeps_new_window)
  then show ?thesis unfolding R_new_window rev_step.simps by (intro keeps_elsewhere)
next
  case (R_open_autofill c)
  then show ?thesis by (auto intro!: keeps_elsewhere keeps_guard_s keeps_open_autofill)
next
  case (R_prompt_begin c rid act)
  then show ?thesis by (auto split: option.splits intro!: keeps_new_prompt)
next
  case (R_prompt_end p)
  then show ?thesis by (auto intro: keeps_end_prompt)
next
  case (R_busy uid b)
  then show ?thesis by (auto intro!: keeps_upd_s simp: sess_ok_def)
next
  case (R_grant_timer uid ref)
  then show ?thesis
    by (auto simp: grant_timeout_def split: option.splits intro!: keeps_elsewhere inv_intros)
next
  case (R_autofill_timer uid c)
  then show ?thesis
    by (auto simp: autofill_timeout_def split: option.splits intro!: keeps_elsewhere inv_intros)
next
  case (R_release uid)
  then show ?thesis by (auto intro!: keeps_elsewhere keeps_release_grant)
next
  case (R_touch c)
  then show ?thesis by (simp add: keeps_touch)
next
  case R_check_expiry
  then show ?thesis by (auto intro!: keeps_elsewhere keeps_check_expiry)
next
  case (R_lock uid reason n)
  then show ?thesis by (auto intro!: keeps_elsewhere keeps_lock)
next
  case (R_detach c)
  then show ?thesis by (auto intro!: keeps_elsewhere keeps_detach)
next
  case (R_attach c)
  then show ?thesis by (auto intro!: keeps_elsewhere keeps_attach)
next
  case (R_close c)
  then show ?thesis by (simp add: keeps_frames0)
next
  case (R_cancel c rid)
  then show ?thesis by (simp add: keeps_cancel_prompts)
next
  case (R_store n st)
  then show ?thesis by (simp add: keeps_frames0)
next
  case (R_disk n st)
  then show ?thesis by (simp add: keeps_frames0)
qed

lemma keeps_rev_run: "keeps r (rev_run es r)"
  unfolding rev_run_def by (rule keeps_fold) (rule keeps_rev_step)

end
