(* ===== verification/Approvals.thy ===== *)
theory Approvals
  imports Evolution
begin

text \<open>
  What \<^verbatim>\<open>authorize\<close> and \<^verbatim>\<open>run_store\<close> promise the handlers, and the relation \<open>moves\<close>
  every coroutine of the daemon satisfies.
\<close>

subsection \<open>Coroutines move the registry\<close>

definition session_moves :: "reg \<Rightarrow> session \<Rightarrow> session \<Rightarrow> bool" where
  "session_moves r' s s' \<longleftrightarrow> epoch s \<le> epoch s' \<and>
     (epoch s' = epoch s \<longrightarrow> (tier1 s = None \<or> tier1 s' = tier1 s) \<and>
        (\<forall>c. s_ui s = Some c \<longrightarrow> \<not> c_closed (cobj r' c) \<longrightarrow> s_ui s' = Some c))"

definition sessions_move :: "reg \<Rightarrow> reg \<Rightarrow> bool" where
  "sessions_move r r' \<longleftrightarrow> same_ids r r' \<and> (\<forall>c. c_closed (cobj r c) \<longrightarrow> c_closed (cobj r' c)) \<and>
     (\<forall>uid s. get_s uid r = Some s \<longrightarrow> (\<exists>s'. get_s uid r' = Some s' \<and> session_moves r' s s'))"

definition moves :: "reg \<Rightarrow> reg \<Rightarrow> bool" where
  "moves r r' \<longleftrightarrow> (rinv r \<longrightarrow> rinv r' \<and> sessions_move r r')"

lemma session_moves_refl [simp]: "session_moves r s s"
  by (simp add: session_moves_def)

lemma session_moves_trans:
  assumes "session_moves r1 s s1" and "session_moves r2 s1 s2"
    and "\<And>c. c_closed (cobj r1 c) \<Longrightarrow> c_closed (cobj r2 c)"
  shows "session_moves r2 s s2"
proof -
  have "epoch s1 = epoch s \<and> epoch s2 = epoch s1" if "epoch s2 = epoch s"
    using assms(1,2) that by (simp add: session_moves_def)
  then show ?thesis
    using assms unfolding session_moves_def by (metis order_trans)
qed

lemma moves_refl [simp]: "moves r r"
  by (simp add: moves_def sessions_move_def same_ids_def)

lemma sessions_move_trans: "sessions_move r r1 \<Longrightarrow> sessions_move r1 r2 \<Longrightarrow> sessions_move r r2"
proof -
  assume a: "sessions_move r r1" and b: "sessions_move r1 r2"
  have ids: "same_ids r r2" using a b by (simp add: sessions_move_def same_ids_def)
  have cl: "c_closed (cobj r c) \<longrightarrow> c_closed (cobj r2 c)" for c
    using a b by (simp add: sessions_move_def)
  have "\<exists>s'. get_s uid r2 = Some s' \<and> session_moves r2 s s'" if g: "get_s uid r = Some s" for uid s
  proof -
    obtain s1 where s1: "get_s uid r1 = Some s1" "session_moves r1 s s1"
      using a g unfolding sessions_move_def by metis
    obtain s2 where s2: "get_s uid r2 = Some s2" "session_moves r2 s1 s2"
      using b s1(1) unfolding sessions_move_def by metis
    have "session_moves r2 s s2"
      by (rule session_moves_trans [OF s1(2) s2(2)]) (use b in \<open>simp add: sessions_move_def\<close>)
    with s2(1) show ?thesis by blast
  qed
  with ids cl show "sessions_move r r2" by (simp add: sessions_move_def)
qed

lemma moves_trans: "moves r r1 \<Longrightarrow> moves r1 r2 \<Longrightarrow> moves r r2"
  unfolding moves_def using sessions_move_trans by blast

lemma session_evolves_moves: "session_evolves r' s s' \<Longrightarrow> session_moves r' s s'"
  by (simp add: session_evolves_def session_moves_def)

lemma keeps_moves: "keeps r r' \<Longrightarrow> moves r r'"
  unfolding keeps_def moves_def sessions_move_def evolves_def using session_evolves_moves by blast

lemma movesD:
  assumes "moves r r'" and "rinv r"
  shows "rinv r'" and "same_ids r r'" and "c_closed (cobj r c) \<Longrightarrow> c_closed (cobj r' c)"
    and "get_s uid r = Some s \<Longrightarrow> \<exists>s'. get_s uid r' = Some s' \<and> session_moves r' s s'"
  using assms by (auto simp: moves_def sessions_move_def)

definition act_moves :: "'a act \<Rightarrow> bool" where
  "act_moves m \<longleftrightarrow> (\<forall>r. moves r (snd (m r)))"

named_theorems moves_intros
  \<open>coroutines keep the invariant\<close>

lemma act_movesI: "(\<And>r. moves r (snd (m r))) \<Longrightarrow> act_moves m"
  by (simp add: act_moves_def)

lemma act_movesD: "act_moves m \<Longrightarrow> m r = (res, r') \<Longrightarrow> moves r r'"
  unfolding act_moves_def by (metis snd_conv)

lemma act_moves_step: "act_moves m \<Longrightarrow> m r = (res, r') \<Longrightarrow> act_moves k \<Longrightarrow> moves r (snd (k r'))"
  unfolding act_moves_def by (metis moves_trans snd_conv)

lemma act_moves_bind [moves_intros]:
  "act_moves m \<Longrightarrow> (\<And>x. act_moves (k x)) \<Longrightarrow> act_moves (bindA m k)"
  by (rule act_movesI, subst bindA_def) (auto split: prod.splits sum.splits intro: act_moves_step act_movesD)

lemma act_moves_simple [moves_intros]:
  "act_moves (ret x)" "act_moves (raise e)" "act_moves (getA f)" "act_moves (guardA b ec xs)"
  by (simp_all add: act_moves_def ret_def raise_def getA_def guardA_def)

lemma act_moves_mod: "(\<And>r. moves r (f r)) \<Longrightarrow> act_moves (modA f)"
  by (simp add: act_moves_def modA_def)

lemma act_moves_do: "(\<And>r. moves r (fst (f r))) \<Longrightarrow> act_moves (doA f)"
  by (rule act_movesI) (simp add: doA_def case_prod_beta)

lemma act_moves_lift: "(\<And>r. moves r (fst (f r))) \<Longrightarrow> act_moves (liftA f)"
  by (rule act_movesI) (simp add: liftA_def case_prod_beta split: sum.splits)

lemma act_moves_catch [moves_intros]:
  "act_moves m \<Longrightarrow> (\<And>e. act_moves (h e)) \<Longrightarrow> act_moves (catchA m h)"
  by (rule act_movesI, subst catchA_def)
    (auto split: prod.splits sum.splits intro: act_moves_step act_movesD)

lemma act_moves_finally [moves_intros]:
  "act_moves m \<Longrightarrow> (\<And>r. moves r (f r)) \<Longrightarrow> act_moves (finallyA m f)"
  by (rule act_movesI, subst finallyA_def)
    (auto split: prod.splits sum.splits intro: act_movesD moves_trans)

lemma keeps_script: "rinv r \<Longrightarrow> rinv (r\<lparr>script := sc\<rparr>)" "sessions_move r (r\<lparr>script := sc\<rparr>)"
  by (auto intro: inv_intros simp: sessions_move_def same_ids_def)

lemma moves_script: "moves r (r\<lparr>script := sc\<rparr>)"
  by (simp add: moves_def keeps_script)

lemma act_moves_await [moves_intros]: "act_moves awaitA"
proof (rule act_movesI)
  fix r
  have "moves r (rev_run es (r\<lparr>script := sc\<rparr>))" for es sc
    by (rule moves_trans [OF moves_script keeps_moves [OF keeps_rev_run]])
  then show "moves r (snd (awaitA r))" by (simp add: awaitA_def split: list.splits)
qed

subsection \<open>Approvals\<close>

definition close_prompt :: "nat \<Rightarrow> reg \<Rightarrow> reg" where
  "close_prompt p r = (end_prompt p r)\<lparr>awaiting := removeAll p (awaiting r)\<rparr>"

definition raise_prompt :: "nat \<Rightarrow> action \<Rightarrow> string \<Rightarrow> (string \<times> ustr) list \<Rightarrow> reg \<Rightarrow> reg" where
  "raise_prompt c act b ds r =
     (let r2 = fst (new_prompt c (map_option snd (request r)) act (c_uid (cobj r c), b) r) in
      r2\<lparr>checks := checks r2 @ [(c, act, sanitize_details (db r2) ds)],
         awaiting := next_prompt r # awaiting r2\<rparr>)"

lemma authorize_eq:
  "authorize c act ds r =
    (let uid = c_uid (cobj r c) in
     case PROMPT_BUCKET (c_role (cobj r c)) of
       None \<Rightarrow> (Inl (X_op (OpError E_forbidden [])), r)
     | Some b \<Rightarrow>
         if c_closed (cobj r c) then (Inl (X_op (OpError E_cancelled [])), r)
         else if dget (pend r) (uid, b) \<noteq> None then (Inl (X_op (OpError E_prompt_pending [])), r)
         else (let q = recent (clock r) (answered_of (uid, b, act) r);
                   r1 = r\<lparr>answered := dset (uid, b, act) q (answered r)\<rparr> in
           if \<not> length q < PROMPT_ANSWERED_PER_MIN
           then (Inl (X_op (OpError E_rate_limited [X_retry_after (retry_after (clock r) q)])), r1)
           else (case awaitA (raise_prompt c act b ds r1) of
               (Inl e, r3) \<Rightarrow> (Inl e, if e = X_blocked then r3 else close_prompt (next_prompt r) r3)
             | (Inr (V_outcome o0), r3) \<Rightarrow>
                 finish_prompt (uid, b, act) c (next_prompt r) o0 (close_prompt (next_prompt r) r3)
             | (Inr _, r3) \<Rightarrow> (Inl X_blocked, close_prompt (next_prompt r) r3))))"
  by (auto simp: authorize_def bindA_def getA_def guardA_def ret_def raise_def doA_def modA_def
      finallyA_def new_prompt_def raise_prompt_def close_prompt_def Let_def
      split: option.splits prod.splits sum.splits answer_value.splits)

lemma raise_prompt_moves:
  assumes "PROMPT_BUCKET (c_role (cobj r c)) = Some b" and "dget (pend r) (c_uid (cobj r c), b) = None"
  shows "moves r (raise_prompt c act b ds r)"
proof -
  have "keeps r (fst (new_prompt c rid act (c_uid (cobj r c), b) r))" for rid
    by (rule keeps_new_prompt) (use assms in simp_all)
  moreover have "moves x (x\<lparr>checks := ch, awaiting := aw\<rparr>)" for x ch aw
    using rinv_fields(10) [OF rinv_fields(11)]
    by (auto simp: moves_def sessions_move_def same_ids_def)
  ultimately show ?thesis
    unfolding raise_prompt_def Let_def using keeps_moves moves_trans by blast
qed

lemma close_prompt_moves: "moves r (close_prompt p r)"
proof -
  have "rinv (close_prompt p r)" if "rinv r"
    unfolding close_prompt_def using that by (intro inv_intros)
  moreover have "sessions_move r (close_prompt p r)"
    by (auto simp: close_prompt_def end_prompt_def sessions_move_def same_ids_def)
  ultimately show ?thesis by (simp add: moves_def)
qed

lemma act_moves_authorize [moves_intros]: "act_moves (authorize c act ds)"
  unfolding act_moves_def
proof
  fix r
  have ans: "moves r (r\<lparr>answered := an\<rparr>)" for r an by (intro keeps_moves keeps_frames0)
  have fin: "moves r (snd (finish_prompt k c p o0 r))" for k c p o0 r
    by (auto simp: finish_prompt_def Let_def ans split: option.splits)
  show "moves r (snd (authorize c act ds r))"
  proof (cases "PROMPT_BUCKET (c_role (cobj r c)) = None \<or> c_closed (cobj r c)")
    case False
    then obtain b where b: "PROMPT_BUCKET (c_role (cobj r c)) = Some b" "\<not> c_closed (cobj r c)" by auto
    define an where "an = dset (c_uid (cobj r c), b, act)
      (recent (clock r) (answered_of (c_uid (cobj r c), b, act) r)) (answered r)"
    show ?thesis
    proof (cases "dget (pend r) (c_uid (cobj r c), b)")
      case None
      obtain res r3 where aw: "awaitA (raise_prompt c act b ds (r\<lparr>answered := an\<rparr>)) = (res, r3)"
        by fastforce
      have "moves (r\<lparr>answered := an\<rparr>) (raise_prompt c act b ds (r\<lparr>answered := an\<rparr>))"
        using b None by (intro raise_prompt_moves) simp_all
      from moves_trans [OF moves_trans [OF ans this] act_movesD [OF act_moves_await aw]]
      have 3: "moves r r3" .
      from moves_trans [OF 3 close_prompt_moves]
      have 4: "moves r (close_prompt (next_prompt r) r3)" .
      from moves_trans [OF 4 fin] 3 4 ans b None aw show ?thesis
        unfolding authorize_eq Let_def an_def
        by (simp split: sum.splits answer_value.splits)
    qed (use b in \<open>simp add: authorize_eq\<close>)
  qed (auto simp: authorize_eq Let_def split: option.splits)
qed

text \<open>What can go wrong without a dialog.\<close>

text \<open>
  Clipboard and import processes cannot prompt. A request of a \<^verbatim>\<open>clip\<close> or \<^verbatim>\<open>migrate\<close>
  connection to raise a dialog is refused and nothing at all happens.
\<close>

theorem only_window_and_browser_prompt:
  "c_role (cobj r c) \<in> {Clip, Migrate} \<Longrightarrow>
   authorize c act ds r = (Inl (X_op (OpError E_forbidden [])), r)"
  by (auto simp: authorize_eq)

text \<open>
  One dialog at a time. While a dialog of the same uid and bucket is on screen, another
  request is refused at once and raises nothing.
\<close>

theorem one_dialog_per_bucket:
  assumes "PROMPT_BUCKET (c_role (cobj r c)) = Some b" and "prompt_pending (c_uid (cobj r c)) b r"
    and "\<not> c_closed (cobj r c)"
  shows "authorize c act ds r = (Inl (X_op (OpError E_prompt_pending [])), r)"
  using assms by (simp add: authorize_eq prompt_pending_def Let_def)

text \<open>
  Refusals are limited. After three counted refusals of an action within the last minute the
  next request for it is refused without a dialog, with the whole number of seconds to wait.
\<close>

theorem refusals_rate_limited:
  assumes "PROMPT_BUCKET (c_role (cobj r c)) = Some b" and "\<not> prompt_pending (c_uid (cobj r c)) b r"
    and "\<not> c_closed (cobj r c)"
    and "PROMPT_ANSWERED_PER_MIN \<le> length (recent (clock r) (answered_of (c_uid (cobj r c), b, act) r))"
  shows "\<exists>n. fst (authorize c act ds r) = Inl (X_op (OpError E_rate_limited [X_retry_after n])) \<and>
    1 \<le> n \<and> checks (snd (authorize c act ds r)) = checks r"
  using assms by (auto simp: authorize_eq prompt_pending_def Let_def retry_after_def)

lemma outcome_code_None: "settle r c p o0 \<noteq> DENIED_UNANSWERED"
  by (auto simp: settle_def Let_def)

lemma settle_AUTHORIZED:
  "outcome_code (settle r c p o0) = None \<Longrightarrow>
   o0 = AUTHORIZED \<and> \<not> p_cancelled (prompts r p) \<and> \<not> c_closed (cobj r c)"
  using outcome_code_None [of r c p o0]
  by (cases "settle r c p o0") (auto simp: settle_def Let_def split: if_splits)

text \<open>
  C36 (an approval means no lock). When \<^verbatim>\<open>authorize\<close> returns, the polkit answer was an approval,
  the connection is still open, and no lock of the uid landed while the dialog was up: the epoch
  is the one before, and tier 1, if it was open, is open on the same connection.
\<close>

theorem approval_means_no_lock:
  assumes "authorize c act ds r = (Inr (), r')" and "rinv r" and "get_s (c_uid (cobj r c)) r = Some s"
  shows "(\<exists>a rest. script r = a # rest \<and> aw_result a = Inr (V_outcome AUTHORIZED)) \<and>
    \<not> c_closed (cobj r' c) \<and>
    (\<exists>s'. get_s (c_uid (cobj r c)) r' = Some s' \<and> epoch s' = epoch s \<and>
       (tier1 s = None \<or> tier1 s' = tier1 s))"
proof -
  let ?uid = "c_uid (cobj r c)" and ?p = "next_prompt r"
  obtain b where b: "PROMPT_BUCKET (c_role (cobj r c)) = Some b"
    using assms(1) by (auto simp: authorize_eq Let_def split: option.splits)
  define an where "an = dset (?uid, b, act) (recent (clock r) (answered_of (?uid, b, act) r)) (answered r)"
  define r2 where "r2 = raise_prompt c act b ds (r\<lparr>answered := an\<rparr>)"
  have none: "dget (pend r) (?uid, b) = None"
    using assms(1) b by (auto simp: authorize_eq Let_def split: if_splits)
  obtain o0 r3 where aw: "awaitA r2 = (Inr (V_outcome o0), r3)"
    and fin: "finish_prompt (?uid, b, act) c ?p o0 (close_prompt ?p r3) = (Inr (), r')"
    using assms(1) b unfolding r2_def an_def
    by (auto simp: authorize_eq Let_def split: if_splits prod.splits sum.splits answer_value.splits)
  have inv2: "rinv r2"
    using raise_prompt_moves [of "r\<lparr>answered := an\<rparr>" c b act ds] b none assms(2)
    unfolding r2_def by (simp add: moves_def rinv_fields)
  have r2: "?p < next_prompt r2" "?p \<in> set (awaiting r2)" "on_screen r2 ?p"
    "p_key (prompts r2 ?p) = (?uid, b)" "get_s ?uid r2 = Some s" "script r2 = script r"
    using assms(3) by (simp_all add: r2_def raise_prompt_def new_prompt_def Let_def on_screen_def get_s_def)
  from aw obtain a rest where a: "script r = a # rest" "aw_result a = Inr (V_outcome o0)"
    "r3 = rev_run (aw_events a) (r2\<lparr>script := rest\<rparr>)"
    unfolding awaitA_def by (auto simp: r2(6) split: list.splits)
  have "evolves (r2\<lparr>script := rest\<rparr>) r3"
    using keeps_rev_run [of "r2\<lparr>script := rest\<rparr>" "aw_events a"] rinv_fields(2) [OF inv2]
    by (simp add: keeps_def a(3))
  note ev = evolvesD [OF this]
  have pe: "prompt_evolves (r2\<lparr>script := rest\<rparr>) r3 ?p" using ev(7) r2(1) by simp
  obtain s3 where s3: "get_s ?uid r3 = Some s3" "session_evolves r3 s s3"
    using ev(6) [of ?uid s] r2(5) by auto
  have co: "outcome_code (settle (close_prompt ?p r3) c ?p o0) = None"
    using fin by (auto simp: finish_prompt_def Let_def split: option.splits)
  have cp: "prompts (close_prompt ?p r3) = prompts r3" "cobj (close_prompt ?p r3) = cobj r3"
    "get_s u (close_prompt ?p r3) = get_s u r3" for u
    by (simp_all add: close_prompt_def end_prompt_def)
  have nc: "\<not> p_cancelled (prompts r3 ?p)" "o0 = AUTHORIZED" "\<not> c_closed (cobj r3 c)"
    using settle_AUTHORIZED [OF co] cp by simp_all
  have "epoch s3 = epoch s"
    using pe nc(1) r2(2-5) s3(1) by (auto simp: prompt_evolves_def on_screen_def)
  moreover have "get_s ?uid r' = Some s3" "cobj r' = cobj r3"
    using fin s3(1) cp by (auto simp: finish_prompt_def Let_def split: option.splits if_splits)
  ultimately show ?thesis using a nc s3(2) by (auto simp: session_evolves_def)
qed

subsection \<open>Store calls\<close>

text \<open>
  Nothing starts while a wipe is pending. While a lock waits for the running call to end,
  another store call of the uid is refused as locked and never reaches a worker.
\<close>

theorem no_call_while_wipe_pending:
  assumes "get_s uid r = Some s" and "wipe_after s"
  shows "run_store uid fn False replaces r = (Inl (X_op (OpError E_locked [])), r)"
  using assms by (simp add: run_store_def bindA_def getA_def raise_def)

lemma try_lock_idle: "\<not> mx_held u \<Longrightarrow> depth u = 0 \<Longrightarrow>
    snd (try_lock u) \<and> \<not> has_keys (fst (try_lock u)) \<and> \<not> wipe_req (fst (try_lock u))"
  by (simp add: try_lock_def wipe_now_def)

lemma run_store_finally_wipes:
  assumes "get_s uid r = Some s" and "store_idle r (s_store s)"
  shows "\<exists>s'. get_s uid (run_store_finally uid e0 made returned r) = Some s' \<and>
    \<not> wipe_after s' \<and> \<not> replacing s' \<and> s_store s' = s_store s \<and> epoch s' = epoch s \<and>
    tier1 s' = tier1 s \<and> s_ui s' = s_ui s \<and>
    (epoch s \<noteq> e0 \<and> \<not> unlocked (run_store_finally uid e0 made returned r) s' \<longrightarrow>
       \<not> has_keys (stores (run_store_finally uid e0 made returned r) (s_store s'))) \<and>
    (\<forall>n. made = Some n \<and> (epoch s \<noteq> e0 \<or> \<not> returned) \<longrightarrow>
       \<not> has_keys (stores (run_store_finally uid e0 made returned r) n))"
proof -
  let ?s1 = "s\<lparr>replacing := False\<rparr>"
  let ?r1 = "upd_s uid (\<lambda>s. s\<lparr>replacing := False\<rparr>) r"
  define r2 where "r2 = (case made of
       Some n \<Rightarrow> if epoch ?s1 \<noteq> e0 \<or> \<not> returned then upd_store n wipe_now ?r1 else ?r1
     | None \<Rightarrow> ?r1)"
  have g1: "get_s uid ?r1 = Some ?s1" using assms(1) by simp
  have g2: "get_s uid r2 = Some ?s1" using assms(1) by (simp add: r2_def split: option.splits)
  have st2: "stores r2 n = (if made = Some n \<and> (epoch s \<noteq> e0 \<or> \<not> returned)
      then wipe_now (stores r n) else stores r n)" for n
    by (auto simp: r2_def split: option.splits)
  have idle2: "\<not> mx_held (stores r2 (s_store s))" "depth (stores r2 (s_store s)) = 0"
    using assms(2) unfolding st2 by (simp_all add: store_idle_def wipe_now_def)
  note tl = try_lock_idle [OF idle2]
  have eq: "run_store_finally uid e0 made returned r =
      (if wipe_after s \<or> (epoch s \<noteq> e0 \<and> \<not> unlocked r2 ?s1) then wipe_store uid r2 else r2)"
    unfolding run_store_finally_def Let_def g1 r2_def by simp
  have ul: "unlocked (wipe_store uid x) t = unlocked x t" "unlocked x (t\<lparr>wipe_after := b\<rparr>) = unlocked x t"
    for x t b by (simp_all add: unlocked_def split: option.splits)
  show ?thesis
  proof (cases "wipe_after s \<or> (epoch s \<noteq> e0 \<and> \<not> unlocked r2 ?s1)")
    case True
    then have w: "run_store_finally uid e0 made returned r = wipe_store uid r2" by (simp add: eq)
    have "get_s uid (wipe_store uid r2) = Some (?s1\<lparr>wipe_after := False\<rparr>)"
      using g2 tl by (simp add: get_s_wipe_store wipe_left_def)
    moreover have "\<not> has_keys (stores (wipe_store uid r2) (s_store s))"
      using tl by (simp add: stores_wipe_store [OF g2])
    moreover have "\<not> has_keys (stores (wipe_store uid r2) n)"
      if "made = Some n" "epoch s \<noteq> e0 \<or> \<not> returned" for n
      using tl that unfolding stores_wipe_store [OF g2] st2
      by (auto simp: wipe_now_def try_lock_def)
    ultimately show ?thesis unfolding w by (intro exI [of _ "?s1\<lparr>wipe_after := False\<rparr>"]) simp
  next
    case False
    then have w: "run_store_finally uid e0 made returned r = r2" unfolding eq by (rule if_not_P)
    have "\<not> has_keys (stores r2 n)" if "made = Some n" "epoch s \<noteq> e0 \<or> \<not> returned" for n
      using that unfolding st2 by (simp add: wipe_now_def)
    with False g2 show ?thesis unfolding w by (intro exI [of _ ?s1]) auto
  qed
qed

lemma rinv_submit: "rinv r \<Longrightarrow> rinv (submit fn r)"
  by (erule rinv_cong) (auto simp: submit_def same_ids_def)

lemma await_worker_get:
  assumes "await_worker uid r = (res, r')" and "res \<noteq> Inl X_blocked" and "get_s uid r = Some s"
    and "rinv r"
  shows "\<exists>s'. get_s uid r' = Some s' \<and> session_evolves r' s s' \<and> store_idle r' (s_store s') \<and> rinv r'"
proof -
  obtain a rest where a: "script r = a # rest" "r' = rev_run (aw_events a) (r\<lparr>script := rest\<rparr>)"
    "store_idle r' (store_of uid r')"
    using assms(1,2) by (auto simp: await_worker_def awaitA_def split: list.splits prod.splits if_splits)
  have "keeps (r\<lparr>script := rest\<rparr>) r'" unfolding a(2) by (rule keeps_rev_run)
  with assms(4) have "rinv r'" "evolves (r\<lparr>script := rest\<rparr>) r'"
    by (simp_all add: keeps_def rinv_fields)
  with evolvesD(6) [of "r\<lparr>script := rest\<rparr>" r' uid s] assms(3) a(3) show ?thesis
    by (auto simp: store_of_def split: option.splits)
qed

text \<open>
  C37 (a lock during a store call). When a store call has come back, with a value or an
  exception, no wipe is pending any more; if a lock landed while it ran and tier 1 is not open, the
  keys are out of memory; and so they are of the new store a create or reset built meanwhile, also
  when the task waiting for it was cancelled.
\<close>

theorem lock_during_store_call:
  assumes "store_call uid fn replaces s r = (res, r')" and "res \<noteq> Inl X_blocked"
    and "get_s uid r = Some s" and "rinv r"
  shows "\<exists>s'. get_s uid r' = Some s' \<and> \<not> wipe_after s' \<and> \<not> replacing s' \<and> epoch s \<le> epoch s' \<and>
    (epoch s' \<noteq> epoch s \<and> \<not> unlocked r' s' \<longrightarrow> \<not> has_keys (stores r' (s_store s'))) \<and>
    (\<forall>n. made_of replaces res (next_made r) = Some n \<and> (epoch s' \<noteq> epoch s \<or> isl res) \<longrightarrow>
       \<not> has_keys (stores r' n))"
proof -
  let ?r0 = "submit fn (upd_s uid (\<lambda>s. s\<lparr>replacing := replaces\<rparr>) r)"
  let ?s0 = "s\<lparr>replacing := replaces\<rparr>"
  obtain res1 r1 where w: "await_worker uid ?r0 = (res1, r1)" by fastforce
  have inv0: "rinv ?r0"
    by (rule rinv_submit, rule rinv_upd_s [OF assms(4)]) (auto simp: sess_ok_def)
  have g0: "get_s uid ?r0 = Some ?s0" using assms(3) by (simp add: submit_def)
  have res: "res = res1"
    using assms(1) w by (auto simp: store_call_def Let_def split: if_splits)
  obtain s1 where s1: "get_s uid r1 = Some s1" "session_evolves r1 ?s0 s1" "store_idle r1 (s_store s1)"
    using await_worker_get [OF w _ g0 inv0] assms(2) res by auto
  define made where "made = made_of replaces res (next_made r)"
  define returned where "returned = (\<not> isl res)"
  have r': "r' = run_store_finally uid (epoch s) made returned r1"
    using assms(1,2) w res unfolding made_def returned_def
    by (auto simp: store_call_def Let_def split: if_splits)
  obtain s' where s': "get_s uid r' = Some s'" "\<not> wipe_after s'" "\<not> replacing s'"
    "epoch s' = epoch s1"
    "epoch s1 \<noteq> epoch s \<and> \<not> unlocked r' s' \<longrightarrow> \<not> has_keys (stores r' (s_store s'))"
    "\<forall>n. made = Some n \<and> (epoch s1 \<noteq> epoch s \<or> \<not> returned) \<longrightarrow> \<not> has_keys (stores r' n)"
    using run_store_finally_wipes [OF s1(1,3), of "epoch s" made returned] unfolding r' by blast
  have "epoch s \<le> epoch s1" using s1(2) by (simp add: session_evolves_def)
  with s' show ?thesis unfolding made_def returned_def by (intro exI [of _ s']) simp
qed

subsection \<open>Both keep the invariant\<close>

lemma moves_upd_s:
  assumes "\<And>s. epoch (f s) = epoch s \<and> tier1 (f s) = tier1 s \<and> s_ui (f s) = s_ui s"
    and "\<And>r s. sess_ok r uid s \<Longrightarrow> sess_ok r uid (f s)"
  shows "moves r (upd_s uid f r)"
proof -
  have "rinv (upd_s uid f r)" if "rinv r" by (rule rinv_upd_s [OF that]) (use assms in simp)
  moreover have "sessions_move r (upd_s uid f r)"
    using assms(1) by (auto simp: sessions_move_def same_ids_def session_moves_def split: if_splits)
  ultimately show ?thesis by (simp add: moves_def)
qed

lemma moves_upd_store: "moves r (upd_store n f r)"
  by (rule keeps_moves) (rule keeps_frames0)

lemma moves_run_store_finally: "moves r (run_store_finally uid e0 made returned r)"
proof -
  have 1: "moves r (upd_s uid (\<lambda>s. s\<lparr>replacing := False\<rparr>) r)" for r
    by (rule moves_upd_s) (auto simp: sess_ok_def)
  have 2: "moves r (wipe_store u r)" for u r by (intro keeps_moves keeps_wipe_store)
  show ?thesis
    using moves_trans [OF 1 2] moves_trans [OF 1 moves_upd_store]
      moves_trans [OF moves_trans [OF 1 moves_upd_store] 2] 1
    by (auto simp: run_store_finally_def Let_def split: option.splits)
qed

lemma moves_submit: "moves r (submit fn r)"
  using rinv_submit by (simp add: moves_def sessions_move_def same_ids_def submit_def)

lemma act_moves_await_worker: "act_moves (await_worker uid)"
  by (rule act_movesI, subst await_worker_def)
    (auto split: prod.splits intro: act_movesD [OF act_moves_await])

lemma act_moves_store_call [moves_intros]: "act_moves (store_call uid fn replaces s)"
proof (rule act_movesI)
  fix r
  have 1: "moves r (upd_s uid (\<lambda>s. s\<lparr>replacing := replaces\<rparr>) r)" for r
    by (rule moves_upd_s) (auto simp: sess_ok_def)
  obtain res r1 where w: "await_worker uid (submit fn (upd_s uid (\<lambda>s. s\<lparr>replacing := replaces\<rparr>) r)) = (res, r1)"
    by fastforce
  from moves_trans [OF moves_trans [OF 1 moves_submit] act_movesD [OF act_moves_await_worker w]]
  have m: "moves r r1" .
  show "moves r (snd (store_call uid fn replaces s r))"
    using m moves_trans [OF m moves_run_store_finally]
    by (auto simp: store_call_def w Let_def)
qed

lemma act_moves_submit: "act_moves (modA (submit fn))"
  by (rule act_moves_mod) (simp add: moves_submit)

lemma act_moves_run_store [moves_intros]: "act_moves (run_store uid fn kl rp)"
  unfolding run_store_def
  by (intro moves_intros) (auto split: option.splits intro!: moves_intros act_moves_submit)

lemma moves_new_session: "moves r (if get_s uid r = None
     then r\<lparr>sessions := dset uid (Session_init uid (next_store r)) (sessions r),
            stores := (stores r)(next_store r := UserStore_init), next_store := Suc (next_store r)\<rparr> else r)"
proof (cases "get_s uid r")
  case None
  let ?r' = "r\<lparr>sessions := dset uid (Session_init uid (next_store r)) (sessions r),
     stores := (stores r)(next_store r := UserStore_init), next_store := Suc (next_store r)\<rparr>"
  have g: "get_s u ?r' = (if u = uid then Some (Session_init uid (next_store r)) else get_s u r)" for u
    by (simp add: get_s_def)
  have ids: "same_ids r ?r'" by (simp add: same_ids_def)
  have "rinv ?r'" if r: "rinv r"
  proof -
    have "pend_ok ?r' = pend_ok r" by (intro pend_ok_cong) simp_all
    moreover have "sess_ok r uid (Session_init uid (next_store r))"
      by (simp add: sess_ok_def Session_init_def default_settings_ok)
    moreover have "dget (grants (gtab r)) uid = None"
    proof (rule ccontr)
      assume "dget (grants (gtab r)) uid \<noteq> None"
      then obtain g where "dget (grants (gtab r)) uid = Some g" by blast
      with rinvD(3) [OF r this] None show False by simp
    qed
    ultimately show ?thesis
      using rinvD [OF r] unfolding rinv_def sess_ok_ids [OF ids] g by auto
  qed
  then show ?thesis using None ids g by (auto simp: moves_def sessions_move_def)
qed simp

lemma sess_ok_apply_settings: "sess_ok r uid s \<Longrightarrow> sess_ok r uid (apply_settings d s)"
  using validate_settings_in_range [of d] by (simp add: sess_ok_def apply_settings_def)

lemma act_moves_session_for [moves_intros]: "act_moves (session_for uid)"
proof -
  have 1: "act_moves (modA (upd_s uid (\<lambda>s. s\<lparr>settings_loaded := b\<rparr>)))" for b
    by (intro act_moves_mod moves_upd_s) (auto simp: sess_ok_def)
  have 2: "act_moves (modA (upd_s uid (apply_settings d)))" for d
    by (intro act_moves_mod moves_upd_s) (simp_all add: sess_ok_apply_settings, simp add: apply_settings_def)
  show ?thesis
    unfolding session_for_def
    by (intro moves_intros act_moves_mod moves_new_session)
      (auto split: option.splits answer_value.splits exn.splits intro!: moves_intros 1 2)
qed

subsection \<open>The theorems at work\<close>

text \<open>The example with an empty screen and a script of one dialog, approved.\<close>

definition example_approve :: reg where
  "example_approve = example_reg\<lparr>pend := [],
     script := [\<lparr>aw_events = [R_clock 3], aw_result = Inr (V_outcome AUTHORIZED),
       aw_made = None\<rparr>]\<rparr>"

lemma example_approve_ok:
  "rinv example_approve" "c_uid (cobj example_approve 0) = 1000" "c_role (cobj example_approve 0) = UI"
  "get_s 1000 example_approve = Some ((Session_init 1000 0)\<lparr>s_ui := Some 0, tier1 := Some 0\<rparr>)"
proof -
  have g: "get_s u example_approve = Some s \<Longrightarrow>
      (u = 1000 \<and> s = (Session_init 1000 0)\<lparr>s_ui := Some 0, tier1 := Some 0\<rparr>) \<or>
      (u = 1001 \<and> s = Session_init 1001 1)" for u s
    by (auto simp: example_approve_def example_reg_def get_s_def dget_def split: if_splits)
  show "rinv example_approve"
    unfolding rinv_def
  proof (intro conjI allI impI)
    show "pend_ok example_approve" by (simp add: example_approve_def pend_ok_def)
    fix uid s assume "get_s uid example_approve = Some s"
    with g [OF this] show "sess_ok example_approve uid s"
      by (auto simp: sess_ok_def Session_init_def default_settings_ok example_approve_def
          example_reg_def Conn_init_def)
  next
    fix uid gr assume "dget (grants (gtab example_approve)) uid = Some gr"
    then show "\<exists>s. get_s uid example_approve = Some s \<and> tier1 s \<noteq> None"
      by (simp add: example_approve_def example_reg_def Registry_init_def GrantTable_init_def)
  qed
  show "c_uid (cobj example_approve 0) = 1000" "c_role (cobj example_approve 0) = UI"
    "get_s 1000 example_approve = Some ((Session_init 1000 0)\<lparr>s_ui := Some 0, tier1 := Some 0\<rparr>)"
    by (simp_all add: example_approve_def example_reg_def Conn_init_def get_s_def dget_def)
qed

lemma example_approved: "\<exists>r'. authorize 0 Act_manage [] example_approve = (Inr (), r')"
  by (simp add: authorize_eq example_approve_def example_reg_def Conn_init_def Let_def recent_def
      answered_of_def Registry_init_def PROMPT_ANSWERED_PER_MIN_def awaitA_def raise_prompt_def
      new_prompt_def rev_run_def close_prompt_def end_prompt_def finish_prompt_def settle_def
      counts_def COUNTED_def)

theorem approval_means_no_lock_witness:
  "\<exists>r'. authorize 0 Act_manage [] example_approve = (Inr (), r') \<and> \<not> c_closed (cobj r' 0)"
proof -
  obtain r' where a: "authorize 0 Act_manage [] example_approve = (Inr (), r')"
    using example_approved by blast
  have "get_s (c_uid (cobj example_approve 0)) example_approve =
      Some ((Session_init 1000 0)\<lparr>s_ui := Some 0, tier1 := Some 0\<rparr>)"
    using example_approve_ok by simp
  from approval_means_no_lock [OF a example_approve_ok(1) this] a show ?thesis by blast
qed

theorem only_window_and_browser_prompt_witness:
  "authorize 0 Act_manage [] (example_approve\<lparr>cobj := (\<lambda>_. Conn_init 1000 1 2 3 4 Clip)\<rparr>) =
     (Inl (X_op (OpError E_forbidden [])), example_approve\<lparr>cobj := (\<lambda>_. Conn_init 1000 1 2 3 4 Clip)\<rparr>)"
  by (rule only_window_and_browser_prompt) (simp add: Conn_init_def)

theorem one_dialog_per_bucket_witness:
  "authorize 0 Act_unlock [] example_reg = (Inl (X_op (OpError E_prompt_pending [])), example_reg)"
  by (rule one_dialog_per_bucket [where b = "''ui''"])
    (simp_all add: example_reg_def Conn_init_def prompt_pending_def dget_def)

theorem refusals_rate_limited_witness:
  "\<exists>n. fst (authorize 0 Act_unlock [] (example_approve\<lparr>clock := 100,
      answered := [((1000, ''ui'', Act_unlock), [70, 80, 90])]\<rparr>)) =
      Inl (X_op (OpError E_rate_limited [X_retry_after n])) \<and> 1 \<le> n"
  using refusals_rate_limited [of "example_approve\<lparr>clock := 100,
      answered := [((1000, ''ui'', Act_unlock), [70, 80, 90])]\<rparr>" 0 "''ui''" Act_unlock "[]"]
  by (auto simp: example_approve_def example_reg_def Conn_init_def prompt_pending_def
      recent_def answered_of_def dget_def PROMPT_ANSWERED_PER_MIN_def)

definition example_pending :: reg where
  "example_pending = upd_s 1000 (\<lambda>s. s\<lparr>wipe_after := True\<rparr>) example_approve"

theorem no_call_while_wipe_pending_witness:
  "run_store 1000 (''list_meta'', []) False False example_pending = (Inl (X_op (OpError E_locked [])), example_pending)"
  by (rule no_call_while_wipe_pending
      [where s = "(Session_init 1000 0)\<lparr>s_ui := Some 0, tier1 := Some 0, wipe_after := True\<rparr>"])
    (simp_all add: example_pending_def example_approve_ok)

text \<open>A store call during which the uid is locked.\<close>

definition example_call :: reg where
  "example_call = example_approve\<lparr>script :=
     [\<lparr>aw_events = [R_store 0 S_enter, R_lock 1000 (Some ''sleep'') True, R_store 0 S_finally,
                     R_store 0 S_release], aw_result = Inr V_unit,
       aw_made = None\<rparr>]\<rparr>"

lemma example_call_done:
  "\<exists>r'. store_call 1000 (''list_meta'', []) False ((Session_init 1000 0)\<lparr>s_ui := Some 0, tier1 := Some 0\<rparr>) example_call =
     (Inr V_unit, r')"
proof -
  let ?s = "(Session_init 1000 0)\<lparr>s_ui := Some 0, tier1 := Some 0, replacing := False\<rparr>"
  define r1 where "r1 = (upd_store 0 (store_do S_enter)
    ((submit (''list_meta'', []) (upd_s 1000 (\<lambda>s. s\<lparr>replacing := False\<rparr>) example_call))\<lparr>script := []\<rparr>))\<lparr>request := None\<rparr>"
  have g: "get_s 1000 r1 = Some ?s"
    by (simp add: r1_def submit_def example_call_def example_approve_ok)
  have st: "stores r1 0 = \<lparr>mx_held = True, depth = 1, wipe_req = False, has_keys = True\<rparr>"
    by (simp add: r1_def submit_def example_call_def example_approve_def example_reg_def serialized_enter_def)
  have l: "stores (fst (lock 1000 (Some ''sleep'') True r1)) 0 =
      \<lparr>mx_held = True, depth = 1, wipe_req = True, has_keys = True\<rparr>"
    by (simp add: lock_is_core(2) [OF g] stores_lock_core [OF g] st try_lock_def Session_init_def)
  have gl: "store_of 1000 (fst (lock 1000 (Some ''sleep'') True r1)) = 0"
    by (simp add: store_of_def lock_is_core(1) [OF g] get_s_lock_core [OF g] Session_init_def)
  have so: "store_of u (upd_store n h x) = store_of u x" "store_of u (x\<lparr>request := q\<rparr>) = store_of u x"
    for u n h x q by (simp_all add: store_of_def)
  have "\<exists>r'. await_worker 1000 (submit (''list_meta'', []) (upd_s 1000 (\<lambda>s. s\<lparr>replacing := False\<rparr>) example_call)) = (Inr V_unit, r')"
    by (simp add: await_worker_def awaitA_def example_call_def submit_def rev_run_def elsewhere_def
        r1_def [unfolded example_call_def submit_def, simplified, symmetric] gl so store_idle_def l serialized_finally_def
        mx_release_def wipe_now_def)
  then show ?thesis by (auto simp: store_call_def Let_def)
qed

theorem lock_during_store_call_witness:
  "\<exists>r' s'. store_call 1000 (''list_meta'', []) False ((Session_init 1000 0)\<lparr>s_ui := Some 0, tier1 := Some 0\<rparr>) example_call =
     (Inr V_unit, r') \<and> get_s 1000 r' = Some s' \<and> \<not> wipe_after s'"
proof -
  obtain r' where c: "store_call 1000 (''list_meta'', []) False ((Session_init 1000 0)\<lparr>s_ui := Some 0, tier1 := Some 0\<rparr>)
      example_call = (Inr V_unit, r')"
    using example_call_done by blast
  have "rinv example_call" unfolding example_call_def by (intro inv_intros example_approve_ok)
  moreover have "get_s 1000 example_call = Some ((Session_init 1000 0)\<lparr>s_ui := Some 0, tier1 := Some 0\<rparr>)"
    using example_approve_ok by (simp add: example_call_def)
  ultimately show ?thesis using lock_during_store_call [OF c] c by blast
qed

end
