(* ===== verification/Traces.thy ===== *)
theory Traces
  imports Approvals
begin

text \<open>
  What a coroutine leaves behind: the dialogs it raised (\<open>checks\<close>), the calls it handed to
  a worker (\<open>calls\<close>) and the private data of the connections. Nothing another task does while it
  waits touches these, so they are a log of the coroutine itself.
\<close>

definition own :: "conn \<Rightarrow> conn" where
  "own x = x\<lparr>c_closed := False, c_out := []\<rparr>"

definition tracked :: "reg \<Rightarrow> (nat \<times> action \<times> (string \<times> ustr) list) list \<times> call list \<times> (nat \<Rightarrow> conn)" where
  "tracked r = (checks r, calls r, \<lambda>c. own (cobj r c))"

lemma own_simps [simp]:
  "own (x\<lparr>c_closed := b\<rparr>) = own x" "own (x\<lparr>c_out := es\<rparr>) = own x"
  by (simp_all add: own_def)

lemma tracked_upd_c: "(\<And>x. own (f x) = own x) \<Longrightarrow> tracked (upd_c c f r) = tracked r"
  by (auto simp: tracked_def upd_c_def)

lemma tracked_upd [simp]:
  "tracked (upd_s u f r) = tracked r" "tracked (upd_store n g r) = tracked r"
  "tracked (r\<lparr>book := b\<rparr>) = tracked r" "tracked (r\<lparr>gtab := t\<rparr>) = tracked r"
  "tracked (r\<lparr>conns := cs\<rparr>) = tracked r" "tracked (r\<lparr>request := q\<rparr>) = tracked r"
  "tracked (r\<lparr>spawned := sp\<rparr>) = tracked r" "tracked (r\<lparr>after := af\<rparr>) = tracked r"
  "tracked (r\<lparr>grant_timers := gt\<rparr>) = tracked r" "tracked (r\<lparr>prompts := pr\<rparr>) = tracked r"
  "tracked (r\<lparr>pend := pe\<rparr>) = tracked r" "tracked (r\<lparr>cancels := ca\<rparr>) = tracked r"
  "tracked (r\<lparr>next_key := nk\<rparr>) = tracked r" "tracked (r\<lparr>next_prompt := np\<rparr>) = tracked r"
  "tracked (r\<lparr>clock := cl\<rparr>) = tracked r" "tracked (r\<lparr>wall := wa\<rparr>) = tracked r"
  "tracked (r\<lparr>disk_state := ds\<rparr>) = tracked r" "tracked (r\<lparr>awaiting := aw\<rparr>) = tracked r"
  "tracked (r\<lparr>answered := an\<rparr>) = tracked r" "tracked (r\<lparr>script := sc\<rparr>) = tracked r"
  by (auto simp: tracked_def upd_s_def upd_store_def split: option.splits)

lemma tracked_fold: "(\<And>x r. tracked (f x r) = tracked r) \<Longrightarrow> tracked (fold f xs r) = tracked r"
  by (rule fold_frame)

lemma tracked_out [simp]: "tracked (send_event c ev r) = tracked r" "tracked (close_conn c r) = tracked r"
  by (auto simp: send_event_def close_conn_def intro: tracked_upd_c)

lemma tracked_notify [simp]:
  "tracked (notify_ui uid ev r) = tracked r" "tracked (run_after a r) = tracked r"
  by (auto simp: notify_ui_def run_after_def split: option.splits after_act.splits)

lemma tracked_ops [simp]:
  "tracked (after_reply a r) = tracked r" "tracked (notify_autofill_hosts uid r) = tracked r"
  "tracked (notify_autofill uid r) = tracked r" "tracked (withdraw uid ros r) = tracked r"
  by (simp_all add: after_reply_def notify_autofill_hosts_def notify_autofill_def Let_def withdraw_def
      withdraw_one_def tracked_fold)

lemma tracked_grants [simp]:
  "tracked (cancel_timer uid r) = tracked r" "tracked (drop_grant uid b r) = tracked r"
  "tracked (end_grant uid r) = tracked r" "tracked (release_grant uid r) = tracked r"
  "tracked (fst (put_grant s i a r)) = tracked r" "tracked (check_grant_expiry r) = tracked r"
  "tracked (grant_timeout uid ref r) = tracked r"
proof -
  show 1: "tracked (cancel_timer uid r) = tracked r" for uid r by (simp add: cancel_timer_def)
  show 2: "tracked (drop_grant uid b r) = tracked r" for uid b r
    by (simp add: drop_grant_def Let_def split_beta 1 split: option.splits)
  show 3: "tracked (end_grant uid r) = tracked r" for uid r
    by (simp add: end_grant_def Let_def split_beta 1 split: option.splits)
  show "tracked (release_grant uid r) = tracked r" by (simp add: release_grant_def 2)
  show "tracked (fst (put_grant s i a r)) = tracked r"
    by (simp add: put_grant_def Let_def split_beta 2)
  show "tracked (check_grant_expiry r) = tracked r"
    unfolding check_grant_expiry_def by (rule tracked_fold) (simp add: split_beta 3)
  show "tracked (grant_timeout uid ref r) = tracked r"
    by (simp add: grant_timeout_def 3 split: option.splits)
qed

lemma tracked_prompts [simp]:
  "tracked (fst (cancel_prompts u c rid act r)) = tracked r" "tracked (fst (new_prompt c0 rid' a k r)) = tracked r"
  "tracked (end_prompt p r) = tracked r"
proof -
  have "tracked (cancel_one p r) = tracked r" for p r by (simp add: cancel_one_def Let_def)
  then show "tracked (fst (cancel_prompts u c rid act r)) = tracked r"
    by (simp add: cancel_prompts_def Let_def tracked_fold)
qed (simp_all add: new_prompt_def end_prompt_def Let_def)

lemma tracked_locks [simp]:
  "tracked (clear_autofill uid r) = tracked r" "tracked (wipe_store uid r) = tracked r"
  "tracked (lock_core uid r) = tracked r" "tracked (fst (lock uid reason n r)) = tracked r"
proof -
  show 1: "tracked (clear_autofill uid r) = tracked r" by (simp add: clear_autofill_def)
  show 2: "tracked (wipe_store uid r) = tracked r" for r
    by (simp add: wipe_store_def Let_def split_beta split: option.splits)
  show 3: "tracked (lock_core uid r) = tracked r"
    by (simp add: lock_core_def Let_def cancel_signin_def clear_autofill_def 2)
  show "tracked (fst (lock uid reason n r)) = tracked r"
    by (simp add: lock_def Let_def 3 split: option.splits)
qed

lemma tracked_windows [simp]:
  "tracked (touch_autofill uid c r) = tracked r" "tracked (open_tier1 uid c all r) = tracked r"
  "tracked (open_autofill uid c r) = tracked r" "tracked (close_autofill uid r) = tracked r"
  "tracked (autofill_timeout uid c r) = tracked r" "tracked (attach c r) = tracked r"
  "tracked (detach_ui c uid r) = tracked r" "tracked (touch c r) = tracked r"
  "tracked (new_window uid c r) = tracked r"
proof -
  show 1: "tracked (touch_autofill uid c r) = tracked r" for r by (simp add: touch_autofill_def)
  show "tracked (open_tier1 uid c all r) = tracked r" by (simp add: open_tier1_def)
  show "tracked (open_autofill uid c r) = tracked r" by (simp add: open_autofill_def Let_def 1)
  show 2: "tracked (close_autofill uid r) = tracked r" by (simp add: close_autofill_def split: option.splits)
  show "tracked (autofill_timeout uid c r) = tracked r"
    by (simp add: autofill_timeout_def 2 split: option.splits)
  show "tracked (attach c r) = tracked r" by (simp add: attach_def Let_def)
  show "tracked (detach_ui c uid r) = tracked r" by (simp add: detach_ui_def split: option.splits)
  show "tracked (touch c r) = tracked r" by (simp add: touch_def)
  show "tracked (new_window uid c r) = tracked r" by (simp add: new_window_def split: option.splits)
qed

lemma tracked_detach [simp]: "tracked (detach c r) = tracked r"
  by (simp add: detach_def Let_def split: option.splits)

lemma tracked_elsewhere: "(\<And>r. tracked (f r) = tracked r) \<Longrightarrow> tracked (elsewhere f r) = tracked r"
  by (simp add: elsewhere_def)

lemma tracked_guard_s: "(\<And>s r. tracked (f s r) = tracked r) \<Longrightarrow> tracked (guard_s uid g f r) = tracked r"
  by (simp add: guard_s_def split: option.splits)

lemma tracked_rev_step [simp]: "tracked (rev_step e r) = tracked r"
  by (cases e) (auto intro!: tracked_elsewhere tracked_guard_s split: option.splits)

lemma tracked_rev_run [simp]: "tracked (rev_run es r) = tracked r"
  by (simp add: rev_run_def tracked_fold)

lemma tracked_await [simp]: "tracked (snd (awaitA r)) = tracked r"
  by (simp add: awaitA_def split: list.splits)

lemma trackedD:
  assumes "tracked r = tracked r'"
  shows "checks r = checks r'" and "calls r = calls r'" and "own (cobj r c) = own (cobj r' c)"
  using assms by (auto simp: tracked_def fun_eq_iff)

subsection \<open>Which calls a coroutine makes\<close>

definition new_calls :: "reg \<Rightarrow> reg \<Rightarrow> call list" where
  "new_calls r r' = drop (length (calls r)) (calls r')"

text \<open>\<open>only_calls F m\<close>: \<open>m\<close> appends to the log, and only calls of functions named in \<open>F\<close>.\<close>

definition only_calls :: "string set \<Rightarrow> 'a act \<Rightarrow> bool" where
  "only_calls F m \<longleftrightarrow> (\<forall>r. \<exists>cs. calls (snd (m r)) = calls r @ cs \<and> fst ` set cs \<subseteq> F)"

named_theorems call_intros \<open>the calls a coroutine makes\<close>

lemma only_callsI: "(\<And>r. calls (snd (m r)) = calls r) \<Longrightarrow> only_calls F m"
  by (simp add: only_calls_def)

lemma only_callsD: "only_calls F m \<Longrightarrow> m r = (res, r') \<Longrightarrow> \<exists>cs. calls r' = calls r @ cs \<and> fst ` set cs \<subseteq> F"
  unfolding only_calls_def by (metis snd_conv)

lemma only_calls_mono: "only_calls F m \<Longrightarrow> F \<subseteq> G \<Longrightarrow> only_calls G m"
  unfolding only_calls_def by (meson subset_trans)

lemma only_calls_tracked: "(\<And>r. tracked (snd (m r)) = tracked r) \<Longrightarrow> only_calls F m"
  by (rule only_callsI) (auto dest: trackedD)

lemma only_calls_step:
  assumes "only_calls F m" and "m r = (res, r1)" and "only_calls F k"
  shows "\<exists>cs. calls (snd (k r1)) = calls r @ cs \<and> fst ` set cs \<subseteq> F"
proof -
  obtain cs where "calls r1 = calls r @ cs" "fst ` set cs \<subseteq> F" using only_callsD [OF assms(1,2)] by blast
  moreover obtain ds where "calls (snd (k r1)) = calls r1 @ ds" "fst ` set ds \<subseteq> F"
    using assms(3) unfolding only_calls_def by metis
  ultimately show ?thesis by (intro exI [of _ "cs @ ds"]) auto
qed

lemma only_calls_bind [call_intros]:
  assumes "only_calls F m" and "\<And>x. only_calls F (k x)"
  shows "only_calls F (bindA m k)"
  unfolding only_calls_def
proof
  fix r
  obtain res r1 where m: "m r = (res, r1)" by fastforce
  show "\<exists>cs. calls (snd (bindA m k r)) = calls r @ cs \<and> fst ` set cs \<subseteq> F"
    using only_callsD [OF assms(1) m] only_calls_step [OF assms(1) m assms(2)]
    by (cases res) (auto simp: bindA_def m)
qed

lemma only_calls_simple [call_intros]:
  "only_calls F (ret x)" "only_calls F (raise e)" "only_calls F (getA f)" "only_calls F (guardA b ec xs)"
  "only_calls F awaitA"
  by (rule only_calls_tracked; simp add: ret_def raise_def getA_def guardA_def)+

lemma only_calls_mod: "(\<And>r. tracked (f r) = tracked r) \<Longrightarrow> only_calls F (modA f)"
  by (rule only_calls_tracked) (simp add: modA_def)

lemma only_calls_do: "(\<And>r. tracked (fst (f r)) = tracked r) \<Longrightarrow> only_calls F (doA f)"
  by (rule only_calls_tracked) (simp add: doA_def split_beta)

lemma only_calls_lift: "(\<And>r. tracked (fst (f r)) = tracked r) \<Longrightarrow> only_calls F (liftA f)"
  by (rule only_calls_tracked) (simp add: liftA_def split_beta split: sum.splits)

lemma only_calls_catch [call_intros]:
  assumes "only_calls F m" and "\<And>e. only_calls F (h e)"
  shows "only_calls F (catchA m h)"
  unfolding only_calls_def
proof
  fix r
  obtain res r1 where m: "m r = (res, r1)" by fastforce
  show "\<exists>cs. calls (snd (catchA m h r)) = calls r @ cs \<and> fst ` set cs \<subseteq> F"
    using only_callsD [OF assms(1) m] only_calls_step [OF assms(1) m assms(2)]
    by (cases res) (auto simp: catchA_def m)
qed

lemma only_calls_finally [call_intros]:
  assumes "only_calls F m" and "\<And>r. tracked (f r) = tracked r"
  shows "only_calls F (finallyA m f)"
  unfolding only_calls_def
proof
  fix r
  obtain res r1 where m: "m r = (res, r1)" by fastforce
  show "\<exists>cs. calls (snd (finallyA m f r)) = calls r @ cs \<and> fst ` set cs \<subseteq> F"
    using only_callsD [OF assms(1) m] trackedD(2) [OF assms(2) [of r1]]
    by (cases res) (auto simp: finallyA_def m)
qed

lemma calls_authorize: "calls (snd (authorize c act ds r)) = calls r"
proof -
  have c: "calls (close_prompt p r) = calls r" "calls (raise_prompt c act b ds r) = calls r"
    "calls (snd (finish_prompt k c p o0 r)) = calls r" for p b k o0 r
    by (auto simp: close_prompt_def end_prompt_def raise_prompt_def new_prompt_def Let_def finish_prompt_def
        split: option.splits)
  have w: "calls r3 = calls r1" if "awaitA r1 = (res, r3)" for r1 r3 res
    using trackedD(2) [OF tracked_await [of r1]] that by simp
  show ?thesis
    unfolding authorize_eq Let_def
    by (auto simp: c split: option.splits prod.splits sum.splits answer_value.splits dest!: w)
qed

lemma only_calls_authorize [call_intros]: "only_calls F (authorize c act ds)"
  by (rule only_callsI) (rule calls_authorize)

lemma only_calls_submit: "fst fn \<in> F \<Longrightarrow> only_calls F (modA (submit fn))"
  by (simp add: only_calls_def modA_def submit_def)

lemma tracked_run_store_finally: "tracked (run_store_finally uid e0 made b r) = tracked r"
  by (simp add: run_store_finally_def Let_def split: option.splits)

lemma only_calls_store_call: "fst fn \<in> F \<Longrightarrow> only_calls F (store_call uid fn rp s)"
  unfolding only_calls_def
proof
  fix r assume F: "fst fn \<in> F"
  let ?r0 = "submit fn (upd_s uid (\<lambda>s. s\<lparr>replacing := rp\<rparr>) r)"
  obtain res r1 where w: "await_worker uid ?r0 = (res, r1)" by fastforce
  have "tracked r1 = tracked ?r0"
  proof -
    obtain res' where "awaitA ?r0 = (res', r1)"
      using w by (auto simp: await_worker_def split: prod.splits if_splits)
    then show ?thesis using tracked_await [of ?r0] by (metis snd_conv)
  qed
  then have "calls r1 = calls r @ [fn]" by (auto dest!: trackedD(2) simp: submit_def)
  then show "\<exists>cs. calls (snd (store_call uid fn rp s r)) = calls r @ cs \<and> fst ` set cs \<subseteq> F"
    using F trackedD(2) [OF tracked_run_store_finally]
    by (intro exI [of _ "[fn]"]) (simp add: store_call_def Let_def w)
qed

lemma only_calls_run_store: "fst fn \<in> F \<Longrightarrow> only_calls F (run_store uid fn kl rp)"
  unfolding run_store_def
  by (intro call_intros)
    (auto split: option.splits intro!: call_intros only_calls_submit only_calls_store_call)

subsection \<open>Approved first\<close>

text \<open>
  \<open>approved_first c act F m\<close>: whenever a run of \<open>m\<close> has made a call named in \<open>F\<close>, it first got
  the approval of \<open>act\<close> for its connection, and up to there it had made no such call.
\<close>

definition approval :: "nat \<Rightarrow> action \<Rightarrow> reg \<Rightarrow> reg \<Rightarrow> bool" where
  "approval c act r r1 \<longleftrightarrow> (\<exists>ds r0 cs. authorize c act ds r0 = (Inr (), r1) \<and> moves r r0 \<and> calls r1 = calls r @ cs)"

definition approved_before :: "nat \<Rightarrow> action \<Rightarrow> string set \<Rightarrow> reg \<Rightarrow> reg \<Rightarrow> bool" where
  "approved_before c act F r r' \<longleftrightarrow> (\<exists>cs. calls r' = calls r @ cs \<and>
     (fst ` set cs \<inter> F = {} \<or>
      (\<exists>r1. approval c act r r1 \<and> fst ` set (new_calls r r1) \<inter> F = {} \<and> (\<exists>post. calls r' = calls r1 @ post))))"

definition approved_first :: "nat \<Rightarrow> action \<Rightarrow> string set \<Rightarrow> 'a act \<Rightarrow> bool" where
  "approved_first c act F m \<longleftrightarrow> (\<forall>r. approved_before c act F r (snd (m r)))"

named_theorems approved_intros \<open>calls wait for an approval\<close>

lemma approved_before_none: "calls r' = calls r @ cs \<Longrightarrow> fst ` set cs \<inter> F = {} \<Longrightarrow> approved_before c act F r r'"
  unfolding approved_before_def by blast

lemma approved_before_after:
  assumes "approval c act r r1" and "fst ` set (new_calls r r1) \<inter> F = {}" and "calls r' = calls r1 @ post"
  shows "approved_before c act F r r'"
proof -
  obtain cs where "calls r1 = calls r @ cs" using assms(1) unfolding approval_def by blast
  then show ?thesis unfolding approved_before_def using assms by (intro exI [of _ "cs @ post"]) auto
qed

lemma approved_beforeE:
  assumes "approved_before c act F r r'"
  obtains cs where "calls r' = calls r @ cs" and "fst ` set cs \<inter> F = {}"
  | r1 post where "approval c act r r1" and "fst ` set (new_calls r r1) \<inter> F = {}" and "calls r' = calls r1 @ post"
  using assms unfolding approved_before_def by metis

lemma approved_firstI: "only_calls (- F) m \<Longrightarrow> approved_first c act F m"
  unfolding approved_first_def
proof
  fix r assume "only_calls (- F) m"
  then obtain cs where "calls (snd (m r)) = calls r @ cs" "fst ` set cs \<subseteq> - F"
    unfolding only_calls_def by metis
  then show "approved_before c act F r (snd (m r))" by (intro approved_before_none) auto
qed

lemma approved_before_mono:
  assumes "approved_before c act F r1 r'" and "calls r1 = calls r @ cs" and "fst ` set cs \<inter> F = {}"
    and "moves r r1"
  shows "approved_before c act F r r'"
  using assms(1)
proof (cases rule: approved_beforeE)
  case (1 ds)
  then show ?thesis using assms(2,3) by (intro approved_before_none [of _ _ "cs @ ds"]) auto
next
  case (2 r2 post)
  obtain es r0 cs2 where e: "authorize c act es r0 = (Inr (), r2)" "moves r1 r0"
    "calls r2 = calls r1 @ cs2"
    using 2(1) unfolding approval_def by blast
  have "approval c act r r2"
    unfolding approval_def using e assms(2) moves_trans [OF assms(4) e(2)]
    by (intro exI [of _ es] exI [of _ r0] exI [of _ "cs @ cs2"]) simp
  moreover have "new_calls r r2 = cs @ new_calls r1 r2"
    using e assms(2) by (simp add: new_calls_def)
  then have "fst ` set (new_calls r r2) \<inter> F = {}" using 2(2) assms(3) by auto
  ultimately show ?thesis using 2(3) by (rule approved_before_after)
qed

lemma approved_bind:
  assumes "only_calls (- F) m" and "act_moves m" and "\<And>x. approved_first c act F (k x)"
  shows "approved_first c act F (bindA m k)"
  unfolding approved_first_def
proof
  fix r
  obtain res r1 where m: "m r = (res, r1)" by fastforce
  obtain cs where cs: "calls r1 = calls r @ cs" "fst ` set cs \<inter> F = {}"
    using only_callsD [OF assms(1) m] by blast
  show "approved_before c act F r (snd (bindA m k r))"
  proof (cases res)
    case (Inl e)
    then show ?thesis using approved_before_none [OF cs] by (simp add: bindA_def m)
  next
    case (Inr x)
    have "approved_before c act F r1 (snd (k x r1))"
      using assms(3) by (simp add: approved_first_def)
    from approved_before_mono [OF this cs act_movesD [OF assms(2) m]] Inr show ?thesis
      by (simp add: bindA_def m)
  qed
qed

lemma approved_authorize:
  assumes "\<And>x. only_calls UNIV (k x)"
  shows "approved_first c act F (bindA (authorize c act ds) k)"
  unfolding approved_first_def
proof
  fix r
  obtain res r1 where m: "authorize c act ds r = (res, r1)" by fastforce
  have c: "calls r1 = calls r" using calls_authorize [of c act ds r] m by simp
  show "approved_before c act F r (snd (bindA (authorize c act ds) k r))"
  proof (cases res)
    case (Inr x)
    then have a: "authorize c act ds r = (Inr (), r1)" using m by simp
    obtain post where post: "calls (snd (k x r1)) = calls r1 @ post"
      using assms [of x] by (auto simp: only_calls_def)
    have "approval c act r r1" unfolding approval_def using a c
      by (intro exI [of _ ds] exI [of _ r] exI [of _ "[]"]) simp
    from approved_before_after [OF this _ post] c Inr show ?thesis
      by (simp add: bindA_def m new_calls_def)
  next
    case (Inl e)
    then show ?thesis using c approved_before_none [of r1 r "[]"] by (simp add: bindA_def m)
  qed
qed

lemma approved_before_right:
  assumes "approved_before c act F r r1" and "calls r2 = calls r1 @ ds" and "fst ` set ds \<inter> F = {}"
  shows "approved_before c act F r r2"
  using assms(1)
proof (cases rule: approved_beforeE)
  case (1 cs)
  then show ?thesis using assms(2,3) by (intro approved_before_none [of _ _ "cs @ ds"]) auto
next
  case (2 r3 post)
  then show ?thesis using assms(2) by (intro approved_before_after [of c act r r3 F _ "post @ ds"]) simp_all
qed

lemma approved_finally:
  assumes "approved_first c act F m" and "\<And>r. tracked (f r) = tracked r"
  shows "approved_first c act F (finallyA m f)"
  unfolding approved_first_def
proof
  fix r
  obtain res r1 where m: "m r = (res, r1)" by fastforce
  have a: "approved_before c act F r r1"
    using assms(1) m unfolding approved_first_def by (metis snd_conv)
  have "approved_before c act F r (f r1)"
    by (rule approved_before_right [OF a, of _ "[]"]) (use trackedD(2) [OF assms(2)] in simp_all)
  with a show "approved_before c act F r (snd (finallyA m f r))"
    by (cases res) (simp_all add: finallyA_def m)
qed

lemma approved_catch:
  assumes "approved_first c act F m" and "\<And>e. only_calls (- F) (h e)"
  shows "approved_first c act F (catchA m h)"
  unfolding approved_first_def
proof
  fix r
  obtain res r1 where m: "m r = (res, r1)" by fastforce
  have a: "approved_before c act F r r1"
    using assms(1) m unfolding approved_first_def by (metis snd_conv)
  have "approved_before c act F r (snd (h e r1))" for e
  proof -
    obtain cs where "calls (snd (h e r1)) = calls r1 @ cs" "fst ` set cs \<subseteq> - F"
      using assms(2) unfolding only_calls_def by metis
    then show ?thesis by (intro approved_before_right [OF a, of _ cs]) auto
  qed
  with a show "approved_before c act F r (snd (catchA m h r))"
    by (cases res) (simp_all add: catchA_def m)
qed

end
