(* ===== verification/Hosts.thy ===== *)
theory Hosts
  imports FieldRules
begin

text \<open>
  Which saved account belongs to which page: \<^verbatim>\<open>parse_origin\<close>, \<^verbatim>\<open>match_rank\<close> and what they are
  made of, from \<^verbatim>\<open>backend/icp/daemon/autofill.py\<close>.
\<close>

definition MAX_ACCOUNTS :: nat where "MAX_ACCOUNTS = 20"
definition MAX_ORIGIN_CHARS :: nat where "MAX_ORIGIN_CHARS = 2048"
definition MAX_HOST_CHARS :: nat where "MAX_HOST_CHARS = 253"

definition PUBLIC_SUFFIX_GUARD :: "string list" where
  "PUBLIC_SUFFIX_GUARD = [
    ''ac.uk'', ''co.uk'', ''gov.uk'', ''ltd.uk'', ''me.uk'', ''net.uk'', ''nhs.uk'', ''org.uk'',
    ''plc.uk'', ''sch.uk'', ''police.uk'', ''asn.au'', ''com.au'', ''edu.au'', ''gov.au'',
    ''id.au'', ''net.au'', ''org.au'', ''ac.nz'', ''co.nz'', ''geek.nz'', ''gen.nz'',
    ''govt.nz'', ''net.nz'', ''org.nz'', ''school.nz'', ''ac.jp'', ''co.jp'', ''ed.jp'',
    ''go.jp'', ''gr.jp'', ''lg.jp'', ''ne.jp'', ''or.jp'', ''ac.kr'', ''co.kr'', ''go.kr'',
    ''ne.kr'', ''or.kr'', ''re.kr'', ''com.cn'', ''edu.cn'', ''gov.cn'', ''net.cn'', ''org.cn'',
    ''com.hk'', ''edu.hk'', ''gov.hk'', ''net.hk'', ''org.hk'', ''com.tw'', ''edu.tw'',
    ''gov.tw'', ''net.tw'', ''org.tw'', ''com.sg'', ''edu.sg'', ''gov.sg'', ''net.sg'',
    ''org.sg'', ''com.my'', ''edu.my'', ''gov.my'', ''net.my'', ''org.my'', ''ac.id'', ''co.id'',
    ''go.id'', ''or.id'', ''web.id'', ''ac.th'', ''co.th'', ''go.th'', ''in.th'', ''or.th'',
    ''com.ph'', ''com.vn'', ''com.pk'', ''com.bd'', ''com.np'', ''com.lk'', ''ac.in'', ''co.in'',
    ''firm.in'', ''gen.in'', ''gov.in'', ''ind.in'', ''net.in'', ''org.in'', ''ac.il'',
    ''co.il'', ''gov.il'', ''org.il'', ''net.il'', ''com.tr'', ''gov.tr'', ''org.tr'',
    ''net.tr'', ''com.sa'', ''com.eg'', ''com.qa'', ''com.kw'', ''com.lb'', ''ac.za'', ''co.za'',
    ''gov.za'', ''net.za'', ''org.za'', ''web.za'', ''co.ke'', ''or.ke'', ''com.ng'', ''co.ug'',
    ''co.tz'', ''com.br'', ''gov.br'', ''net.br'', ''org.br'', ''edu.br'', ''com.ar'',
    ''gob.ar'', ''com.mx'', ''gob.mx'', ''org.mx'', ''com.co'', ''com.pe'', ''com.uy'',
    ''com.ve'', ''com.ec'', ''cl.cl'', ''co.at'', ''or.at'', ''gv.at'', ''com.pl'', ''net.pl'',
    ''org.pl'', ''com.es'', ''org.es'', ''com.pt'', ''com.gr'', ''com.cy'', ''com.mt'',
    ''com.ua'', ''org.ua'', ''com.ru'', ''org.ru'', ''co.rs'', ''com.hr'', ''co.hu'', ''com.ro'',
    ''appspot.com'', ''azurewebsites.net'', ''blogspot.com'', ''cloudfront.net'',
    ''codeberg.page'', ''duckdns.org'', ''dyndns.org'', ''firebaseapp.com'', ''fly.dev'',
    ''github.io'', ''gitlab.io'', ''glitch.me'', ''herokuapp.com'', ''myshopify.com'',
    ''netlify.app'', ''ngrok-free.app'', ''ngrok.io'', ''no-ip.org'', ''onrender.com'',
    ''pages.dev'', ''readthedocs.io'', ''s3.amazonaws.com'', ''sourceforge.io'', ''vercel.app'',
    ''web.app'', ''workers.dev'']"

subsection \<open>Origins\<close>

text \<open>\<^verbatim>\<open>s.partition(sep)\<close> with a separator that is there: what is before and after its first place.\<close>

fun partition_at :: "'a list \<Rightarrow> 'a list \<Rightarrow> ('a list \<times> 'a list) option" where
  "partition_at sep [] = (if sep = [] then Some ([], []) else None)"
| "partition_at sep (x # xs) =
     (if startswith (x # xs) sep then Some ([], drop (length sep) (x # xs))
      else map_option (\<lambda>(a, b). (x # a, b)) (partition_at sep xs))"

definition is_ascii :: "ustr \<Rightarrow> bool" where
  "is_ascii s \<longleftrightarrow> list_all (\<lambda>c. c < 128) s"

definition scheme_ok :: "ustr \<Rightarrow> bool" where
  "scheme_ok s \<longleftrightarrow> s \<noteq> [] \<and> 97 \<le> hd s \<and> hd s \<le> 122 \<and> list_all (\<lambda>c. host_char c \<or> c \<in> {43, 46, 45}) s"

fun dec_value :: "nat list \<Rightarrow> nat \<Rightarrow> nat" where
  "dec_value [] acc = acc"
| "dec_value (c # cs) acc = dec_value cs (acc * 10 + (c - 48))"

definition port_ok :: "ustr \<Rightarrow> bool" where
  "port_ok p \<longleftrightarrow> 1 \<le> length p \<and> length p \<le> 5 \<and> list_all is_digit p \<and> 0 < dec_value p 0 \<and> dec_value p 0 \<le> 65535"

definition WWW :: ustr where "WWW = ascii ''www''"

definition strip_www :: "ustr list \<Rightarrow> ustr list" where
  "strip_www ls = (if hd ls = WWW \<and> length ls > 2 then tl ls else ls)"

definition canonical_host :: "ustr \<Rightarrow> ustr option" where
  "canonical_host h =
     (let labels = split_on 46 h in
      if h = [] \<or> length h > MAX_HOST_CHARS \<or> last h = 46 then None
      else if length labels < 2 \<or> \<not> list_all host_label labels then None
      else if list_all is_digit (last labels) then None
      else Some (join [46] (strip_www labels)))"

definition bad_origin :: "op_error + 'a" where
  "bad_origin = Inl (OpError E_bad_origin [])"

definition parse_origin :: "ustr \<Rightarrow> op_error + ustr" where
  "parse_origin s =
     (if s = [] \<or> length s > MAX_ORIGIN_CHARS \<or> \<not> is_ascii s then bad_origin
      else (case partition_at (ascii ''://'') (ascii_lower s) of
          None \<Rightarrow> bad_origin
        | Some (scheme, rest) \<Rightarrow>
            if \<not> scheme_ok scheme then bad_origin
            else if scheme \<noteq> ascii ''https'' then Inl (OpError E_insecure_origin [])
            else if list_ex (\<lambda>c. c \<in> {47, 63, 35, 64, 92, 91, 93}) rest then bad_origin
            else (let (host, port) = (case partition_at [58] rest of None \<Rightarrow> (rest, None) | Some (h, p) \<Rightarrow> (h, Some p)) in
              if (case port of None \<Rightarrow> False | Some p \<Rightarrow> \<not> port_ok p) then bad_origin
              else (case canonical_host host of None \<Rightarrow> bad_origin | Some h \<Rightarrow> Inr h))))"

subsection \<open>Stored sites\<close>

text \<open>
  The interpreter's IDNA codec and its table of digits.
\<close>

record weblib =
  idna :: "ustr \<Rightarrow> ustr option"
  isdigit :: "nat \<Rightarrow> bool"

definition after_last :: "'a \<Rightarrow> 'a list \<Rightarrow> 'a list" where
  "after_last c s = rev (takeWhile (\<lambda>x. x \<noteq> c) (rev s))"

definition before_last :: "'a \<Rightarrow> 'a list \<Rightarrow> 'a list" where
  "before_last c s = rev (tl (dropWhile (\<lambda>x. x \<noteq> c) (rev s)))"

definition drop_port :: "weblib \<Rightarrow> ustr \<Rightarrow> ustr" where
  "drop_port W v = (let p = after_last 58 v in
     if 58 \<in> set v \<and> p \<noteq> [] \<and> list_all (isdigit W) p then before_last 58 v else v)"

definition bare_host :: "weblib \<Rightarrow> ustr \<Rightarrow> ustr" where
  "bare_host W value =
     (let v0 = strip value;
          v1 = (case partition_at (ascii ''://'') v0 of None \<Rightarrow> v0 | Some (a, b) \<Rightarrow> b);
          v2 = takeWhile (\<lambda>c. c \<notin> {47, 63, 35}) v1;
          v3 = after_last 64 v2 in
      rstripP (\<lambda>c. c = 46) (drop_port W v3))"

definition entry_host :: "weblib \<Rightarrow> ustr \<Rightarrow> ustr option" where
  "entry_host W value =
     (let v = bare_host W value in
      case (if is_ascii v then Some v else idna W v) of
        None \<Rightarrow> None
      | Some a \<Rightarrow> canonical_host (ascii_lower a))"

subsection \<open>Matching\<close>

definition is_public_suffix :: "ustr \<Rightarrow> bool" where
  "is_public_suffix h \<longleftrightarrow> 46 \<notin> set h \<or> h \<in> ascii ` set PUBLIC_SUFFIX_GUARD"

definition related :: "ustr \<Rightarrow> ustr \<Rightarrow> bool" where
  "related a b =
     (if endswith a (46 # b) then \<not> is_public_suffix b
      else if endswith b (46 # a) then \<not> is_public_suffix a
      else False)"

definition INTERNAL_USER_PREFIXES :: "string list" where
  "INTERNAL_USER_PREFIXES = [''PCSBoundaryKey'', ''com.apple.'', ''_Apple'']"

definition INTERNAL_MARKS :: "string list" where
  "INTERNAL_MARKS = [''pcs '', ''pcs-'', ''website metadata'']"

definition is_service_record :: "unidb \<Rightarrow> meta \<Rightarrow> bool" where
  "is_service_record u m =
     (let user = username m; ti = or_str (apple_title m) (title m) in
      list_ex (\<lambda>p. startswith user (ascii p)) INTERNAL_USER_PREFIXES \<or> startswith ti (ascii ''_Apple'') \<or>
      contains user (ascii ''CHIPPlugin'') \<or> contains ti (ascii ''CHIPPlugin'') \<or>
      list_ex (\<lambda>t. list_ex (\<lambda>p. startswith (ulower u (strip t)) (ascii p)) INTERNAL_MARKS \<or>
                   contains (ulower u (strip t)) (ascii ''com.apple.'')) [domain m, ti])"

fun best_rank :: "ustr \<Rightarrow> ustr option list \<Rightarrow> nat option \<Rightarrow> nat option" where
  "best_rank page [] best = best"
| "best_rank page (None # vs) best = best_rank page vs best"
| "best_rank page (Some h # vs) best =
     (if h = page then Some 0 else best_rank page vs (if related page h then Some 1 else best))"

definition match_rank :: "unidb \<Rightarrow> weblib \<Rightarrow> ustr \<Rightarrow> meta \<Rightarrow> nat option" where
  "match_rank u W host m =
     (case (if is_ascii host then canonical_host host else None) of
        None \<Rightarrow> None
      | Some page \<Rightarrow>
          if is_service_record u m \<or> recently_deleted m \<or> m_kind m = ''passkey'' then None
          else best_rank page (map (entry_host W) (domain m # sites m)) None)"

definition page_label :: "meta \<Rightarrow> ustr" where
  "page_label m =
     (let name = strip (or_str (nickname m) (or_str (apple_title m) (or_str (title m) (domain m))));
          user = strip (username m) in
      if name \<noteq> [] \<and> user \<noteq> [] then name @ [32, EM_DASH, 32] @ user else or_str name user)"

subsection \<open>What a match means\<close>

definition site_hosts :: "weblib \<Rightarrow> meta \<Rightarrow> ustr list" where
  "site_hosts W m = [h. Some h <- map (entry_host W) (domain m # sites m)]"

definition never_offered :: "unidb \<Rightarrow> meta \<Rightarrow> bool" where
  "never_offered u m \<longleftrightarrow> is_service_record u m \<or> recently_deleted m \<or> m_kind m = ''passkey''"

lemma best_rank_eq:
  "best_rank page vs best =
     (if page \<in> set [h. Some h <- vs] then Some 0
      else if list_ex (related page) [h. Some h <- vs] then Some 1 else best)"
  by (induction page vs best rule: best_rank.induct) auto

lemma match_rank_eq:
  "match_rank u W host m =
     (case (if is_ascii host then canonical_host host else None) of
        None \<Rightarrow> None
      | Some page \<Rightarrow>
          if never_offered u m then None
          else if page \<in> set (site_hosts W m) then Some 0
          else if list_ex (related page) (site_hosts W m) then Some 1 else None)"
  unfolding match_rank_def site_hosts_def never_offered_def best_rank_eq
  by (simp split: option.splits)

text \<open>
  Matching. The loop with its early return gives what the documentation promises: an entry
  that is offered at all ranks 0 when one of its sites is the page's host, 1 when none is but one
  is related to it, and does not match otherwise.
\<close>

theorem match_rank_reference:
  "match_rank u W host m =
     (case (if is_ascii host then canonical_host host else None) of
        None \<Rightarrow> None
      | Some page \<Rightarrow>
          if never_offered u m then None
          else if page \<in> set (site_hosts W m) then Some 0
          else if list_ex (related page) (site_hosts W m) then Some 1 else None)"
  by (rule match_rank_eq)

lemma count_dots: "endswith a (46 # b) \<Longrightarrow> count_list b 46 < count_list a (46 :: nat)"
proof -
  assume "endswith a (46 # b)"
  then obtain p where "a = p @ 46 # b" unfolding endswith_iff by blast
  then show ?thesis by simp
qed

text \<open>
  Neighbours under a shared suffix. Two hosts that differ in the one label before the same
  rest are unrelated, so a password saved for one customer of a hosting platform, or for one site
  under a country registry, is never offered to its neighbour - whether or not the suffix is in
  the guard list.
\<close>

theorem siblings_never_match:
  assumes "x \<noteq> y" and "46 \<notin> set x" and "46 \<notin> set y"
    and "canonical_host host = Some (x @ 46 # p)" and "set (site_hosts W m) \<subseteq> {y @ 46 # p}"
  shows "match_rank u W host m = None"
proof -
  have c: "count_list (z @ 46 # p) 46 = Suc (count_list p 46)" if "46 \<notin> set z" for z :: ustr
    using that by (simp add: count_notin)
  have "\<not> endswith (x @ 46 # p) (46 # y @ 46 # p)" "\<not> endswith (y @ 46 # p) (46 # x @ 46 # p)"
    using count_dots c [OF assms(2)] c [OF assms(3)] by fastforce+
  then have "\<not> related (x @ 46 # p) (y @ 46 # p)" by (simp add: related_def del: endswith.simps)
  moreover have "x @ 46 # p \<noteq> y @ 46 # p" using assms(1) by simp
  ultimately have "x @ 46 # p \<notin> set (site_hosts W m)" "\<not> list_ex (related (x @ 46 # p)) (site_hosts W m)"
    using assms(5) by (auto simp: list_ex_iff)
  then show ?thesis unfolding match_rank_eq assms(4) by simp
qed

text \<open>Related hosts lie under a common host that is no public suffix.\<close>

lemma related_common:
  "related a b \<Longrightarrow> \<exists>s. \<not> is_public_suffix s \<and> (a = s \<or> endswith a (46 # s)) \<and> (b = s \<or> endswith b (46 # s))"
  unfolding related_def by (metis (full_types))

subsection \<open>What an origin is\<close>

lemma split_on_join_id: "join [c] (split_on c xs) = xs"
proof (induction xs)
  case (Cons x xs)
  show ?case
  proof (cases "split_on c xs")
    case (Cons p ps)
    then show ?thesis using Cons.IH by (cases ps) auto
  qed simp
qed simp

lemma set_strip_www: "set (strip_www ls) \<subseteq> set ls"
  by (cases ls) (auto simp: strip_www_def)

lemma strip_www_length: "length ls \<ge> 2 \<Longrightarrow> length (strip_www ls) \<ge> 2"
  by (auto simp: strip_www_def)

lemma strip_www_last: "last (strip_www ls) = last ls"
  by (cases ls) (auto simp: strip_www_def)

lemma split_on_nodot: "p \<in> set (split_on c xs) \<Longrightarrow> c \<notin> set p"
  by (induction xs arbitrary: p) (auto split: list.splits if_splits)

definition dns_name :: "ustr \<Rightarrow> bool" where
  "dns_name h \<longleftrightarrow> length (split_on 46 h) \<ge> 2 \<and> list_all host_label (split_on 46 h) \<and>
     \<not> list_all is_digit (last (split_on 46 h))"

lemma canonical_host_dns: "canonical_host h = Some c \<Longrightarrow> dns_name c"
proof -
  assume a: "canonical_host h = Some c"
  let ?l = "split_on 46 h"
  have h: "length ?l \<ge> 2" "list_all host_label ?l" "\<not> list_all is_digit (last ?l)"
    "c = join [46] (strip_www ?l)"
    using a by (auto simp: canonical_host_def Let_def split: if_splits)
  have "strip_www ?l \<noteq> []" using strip_www_length [OF h(1)] by auto
  then have s: "split_on 46 c = strip_www ?l"
    unfolding h(4) using set_strip_www [of ?l] split_on_nodot [of _ 46 h] by (intro split_on_join) auto
  show ?thesis
    using h strip_www_length [OF h(1)] set_strip_www [of ?l]
    unfolding dns_name_def s by (auto simp: list_all_iff strip_www_last)
qed

text \<open>
  Origins. An origin that is accepted is plain ASCII and has the https scheme, and the host
  taken from it is a DNS name of two or more labels of letters, digits and inner hyphens whose
  last label is no number - so neither an IP literal nor userinfo, a path or a look-alike letter
  gets through.
\<close>

theorem parse_origin_sound:
  assumes "parse_origin s = Inr h"
  shows "is_ascii s \<and> length s \<le> MAX_ORIGIN_CHARS \<and> dns_name h \<and>
    (\<exists>rest. partition_at (ascii ''://'') (ascii_lower s) = Some (ascii ''https'', rest))"
  using assms
  by (auto simp: parse_origin_def bad_origin_def Let_def dest: canonical_host_dns
      split: if_splits option.splits prod.splits)

subsection \<open>Examples\<close>

definition example_web :: weblib where
  "example_web = \<lparr>idna = (\<lambda>_. None), isdigit = is_digit\<rparr>"

definition example_site :: "string \<Rightarrow> meta" where
  "example_site d = example_meta\<lparr>domain := ascii d, username := ascii ''ann''\<rparr>"

lemmas host_evals = canonical_host_def host_label_def host_char_def is_digit_def strip_www_def WWW_def
  MAX_HOST_CHARS_def ascii_def Let_def is_ascii_def

lemma canonical_examples:
  "canonical_host (ascii ''a.github.io'') = Some (ascii ''a.github.io'')"
  "canonical_host (ascii ''b.github.io'') = Some (ascii ''b.github.io'')"
  by (simp_all add: host_evals)

lemma example_hosts: "site_hosts example_web (example_site ''b.github.io'') = [ascii ''b.github.io'']"
  by (simp add: site_hosts_def example_site_def example_meta_def entry_host_def bare_host_def drop_port_def
      host_evals stripP_def lstripP_def rstripP_def py_isspace_def after_last_def ascii_lower_def
      ascii_lower_char_def)

theorem siblings_never_match_witness:
  "match_rank ascii_db example_web (ascii ''a.github.io'') (example_site ''b.github.io'') = None"
  by (rule siblings_never_match [where x = "ascii ''a''" and y = "ascii ''b''" and p = "ascii ''github.io''"])
    (use canonical_examples example_hosts in \<open>simp_all add: ascii_def\<close>)

lemma origin_example: "parse_origin (ascii ''https://Www.www.b.Co'') = Inr (ascii ''www.b.co'')"
  by (simp add: parse_origin_def bad_origin_def host_evals MAX_ORIGIN_CHARS_def ascii_lower_def ascii_lower_char_def
      scheme_ok_def)

theorem parse_origin_sound_witness: "is_ascii (ascii ''https://Www.www.b.Co'') \<and> dns_name (ascii ''www.b.co'')"
  using parse_origin_sound [OF origin_example] by simp

text \<open>
  \<^verbatim>\<open>match_rank\<close> canonicalises the page's host a second time, so a second \<^verbatim>\<open>www.\<close> is removed as
  well and the entry counts as exact.
\<close>

lemma double_www: "match_rank ascii_db example_web (ascii ''www.b.co'') (example_site ''b.co'') = Some 0"
proof -
  have "site_hosts example_web (example_site ''b.co'') = [ascii ''b.co'']"
    by (simp add: site_hosts_def example_site_def example_meta_def entry_host_def bare_host_def drop_port_def
        host_evals stripP_def lstripP_def rstripP_def py_isspace_def after_last_def ascii_lower_def
        ascii_lower_char_def)
  moreover have "canonical_host (ascii ''www.b.co'') = Some (ascii ''b.co'')" "is_ascii (ascii ''www.b.co'')"
    by (simp_all add: host_evals)
  moreover have "\<not> never_offered ascii_db (example_site ''b.co'')"
    by (simp add: never_offered_def is_service_record_def example_site_def example_meta_def or_str_def
        INTERNAL_USER_PREFIXES_def INTERNAL_MARKS_def ascii_def ascii_db_def ascii_lower_def ascii_lower_char_def
        stripP_def lstripP_def rstripP_def py_isspace_def)
  ultimately show ?thesis unfolding match_rank_eq by simp
qed

end
