(* ===== verification/Requests.thy ===== *)
theory Requests
  imports Traces Hosts
begin

text \<open>
  What the handlers of \<^verbatim>\<open>backend/icp/daemon/handlers.py\<close> share: the small helpers at the top of
  the file, the replies to a verified hello, and the background sync. A handler is a coroutine of
  theory \<^theory_text>\<open>Coroutines\<close>; \<^verbatim>\<open>conn\<close> is the number of its connection.
\<close>

subsection \<open>Replies\<close>

datatype payload =
    P_null
  | P_bool bool
  | P_int int
  | P_real real
  | P_str string
  | P_text ustr
  | P_list "payload list"
  | P_obj "(string \<times> payload) list"
  | P_entries "wire_entry list"

type_synonym answer_obj = "(string \<times> payload) list"

definition opt_payload :: "('a \<Rightarrow> payload) \<Rightarrow> 'a option \<Rightarrow> payload" where
  "opt_payload f x = (case x of None \<Rightarrow> P_null | Some v \<Rightarrow> f v)"

definition payload_of_settings :: "settings \<Rightarrow> payload" where
  "payload_of_settings s = P_obj [(''grant_s'', P_int (grant_s s)),
     (''idle_lock_s'', P_int (idle_lock_s s)), (''clip_timeout_s'', P_int (clip_timeout_s s)),
     (''window_mode'', P_text (window_mode s))]"

definition payload_of_features :: "features \<Rightarrow> payload" where
  "payload_of_features f = P_obj [(''passkeys'', P_bool (passkeys f)),
     (''apple_deleted'', P_bool (apple_deleted f))]"

fun payload_of_json :: "json \<Rightarrow> payload" where
  "payload_of_json JNull = P_null"
| "payload_of_json (JBool b) = P_bool b"
| "payload_of_json (JInt i) = P_int i"
| "payload_of_json (JFloat x) = P_real x"
| "payload_of_json (JStr s) = P_text s"
| "payload_of_json (JList xs) = P_list (map payload_of_json xs)"
| "payload_of_json (JObj d) = P_obj (map (\<lambda>(k, v). (k, payload_of_json v)) d)"

definition payload_of_extra :: "extra \<Rightarrow> string \<times> payload" where
  "payload_of_extra x =
     (case x of
        X_field f \<Rightarrow> (''field'', P_str f)
      | X_retry_after n \<Rightarrow> (''retry_after'', P_int n)
      | X_detail d \<Rightarrow> (''detail'', P_text d)
      | X_reason t \<Rightarrow> (''reason'', P_str t))"

text \<open>
  What the daemon is given from outside: the parts of Python's standard library the handlers call
  on data (string case, number and link parsing, HMAC, SHA-256), the next random token and
  password, the start time of a process, and the hexadecimal HMAC-SHA256 of an entry id under the
  key an unlock made.
\<close>

record env =
  env_lib :: stdlib
  env_hmac :: "int \<Rightarrow> bytes \<Rightarrow> bytes \<Rightarrow> bytes"
  env_sha256 :: "nat list \<Rightarrow> string"
  env_made :: ustr
  env_token :: string
  env_start_time :: "int \<Rightarrow> int option"
  env_web :: weblib
  env_mac :: "nat \<Rightarrow> string \<Rightarrow> string"

subsection \<open>Reading the session\<close>

definition sessA :: "nat \<Rightarrow> session act" where
  "sessA c = (\<lambda>r. case get_s (c_uid (cobj r c)) r of
      None \<Rightarrow> (Inl (X_op (OpError E_internal [])), r)
    | Some s \<Rightarrow> (Inr s, r))"

definition uidA :: "nat \<Rightarrow> int act" where
  "uidA c = getA (\<lambda>r. c_uid (cobj r c))"

definition setS :: "nat \<Rightarrow> (session \<Rightarrow> session) \<Rightarrow> unit act" where
  "setS c f = modA (\<lambda>r. upd_s (c_uid (cobj r c)) f r)"

text \<open>The value of an attribute of the session, and a condition on it, at this moment.\<close>

definition testA :: "nat \<Rightarrow> (reg \<Rightarrow> session \<Rightarrow> bool) \<Rightarrow> err_code \<Rightarrow> extra list \<Rightarrow> unit act" where
  "testA c P e xs = (bindA (sessA c)
    (\<lambda>s. bindA (getA (\<lambda>r. P r s))
    (\<lambda>ok. guardA ok e xs)))"

definition open_on :: "nat \<Rightarrow> reg \<Rightarrow> session \<Rightarrow> bool" where
  "open_on c r s \<longleftrightarrow> unlocked r s \<and> tier1 s = Some c"

definition tier1A :: "nat \<Rightarrow> session act" where
  "tier1A c = (bindA (testA c (open_on c) E_locked [])
    (\<lambda>_. sessA c))"

definition stillA :: "nat \<Rightarrow> nat \<Rightarrow> unit act" where
  "stillA c e = testA c (\<lambda>r s. epoch s = e \<and> open_on c r s) E_locked []"

definition windowA :: "nat \<Rightarrow> session act" where
  "windowA c = (bindA (testA c (\<lambda>r s. s_ui s = Some c) E_forbidden [])
    (\<lambda>_. sessA c))"

definition idleA :: "nat \<Rightarrow> unit act" where
  "idleA c = testA c (\<lambda>r s. busy s = None) E_busy_sync []"

text \<open>\<^verbatim>\<open>if conn.closed or s.ui is not conn or s.epoch != epoch: raise OpError("cancelled")\<close>.\<close>

definition same_windowA :: "nat \<Rightarrow> nat \<Rightarrow> unit act" where
  "same_windowA c e =
     testA c (\<lambda>r s. \<not> c_closed (cobj r c) \<and> s_ui s = Some c \<and> epoch s = e) E_cancelled []"

definition liftR :: "op_error + 'a \<Rightarrow> 'a act" where
  "liftR x = (case x of Inl e \<Rightarrow> raise (X_op e) | Inr v \<Rightarrow> ret v)"

subsection \<open>Errors\<close>

definition store_error :: "exn \<Rightarrow> op_error option" where
  "store_error e =
     (case e of
        X_op err \<Rightarrow> Some err
      | X_worker_cancelled \<Rightarrow> Some (OpError E_cancelled [])
      | X_store_locked \<Rightarrow> Some (OpError E_locked [])
      | X_not_found \<Rightarrow> Some (OpError E_not_found [])
      | X_seal k \<Rightarrow> Some (OpError k [])
      | X_seal_refused why \<Rightarrow> Some (OpError E_seal_refused [X_reason why])
      | X_seal_unavailable \<Rightarrow> Some (OpError E_seal_unavailable [])
      | _ \<Rightarrow> None)"

definition apple_error :: "exn \<Rightarrow> op_error" where
  "apple_error e =
     (case store_error e of
        Some err \<Rightarrow> err
      | None \<Rightarrow> (case e of
            X_needs_login \<Rightarrow> OpError E_needs_login []
          | X_not_signed_in \<Rightarrow> OpError E_not_signed_in []
          | X_field_error f d \<Rightarrow>
              OpError E_invalid (X_field (text_id (take 64 (clean_detail f))) #
                (if d \<noteq> [] then [X_detail (take 64 (clean_detail d))] else []))
          | X_anisette \<Rightarrow> OpError E_anisette_unavailable []
          | X_network \<Rightarrow> OpError E_network []
          | X_apple_error d \<Rightarrow> OpError E_apple [X_detail (clean_detail d)]
          | _ \<Rightarrow> OpError E_internal []))"

fun err_code_of :: "op_error \<Rightarrow> err_code" where
  "err_code_of (OpError c xs) = c"

fun err_extra_of :: "op_error \<Rightarrow> extra list" where
  "err_extra_of (OpError c xs) = xs"

definition detail_of :: "op_error \<Rightarrow> ustr option" where
  "detail_of e = (case [d. X_detail d <- err_extra_of e] of [] \<Rightarrow> None | d # _ \<Rightarrow> if d = [] then None else Some d)"

subsection \<open>Store and Apple calls\<close>

definition as_store_error :: "meta answer_value act \<Rightarrow> meta answer_value act" where
  "as_store_error m = catchA m (\<lambda>e. case store_error e of
      Some err \<Rightarrow> raise (X_op err)
    | None \<Rightarrow> fail E_internal [])"

text \<open>\<^verbatim>\<open>_store\<close> with \<^verbatim>\<open>keyless\<close> and \<^verbatim>\<open>replaces\<close>; \<open>storeA\<close> is the plain call.\<close>

definition store_at :: "int \<Rightarrow> call \<Rightarrow> bool \<Rightarrow> bool \<Rightarrow> meta answer_value act" where
  "store_at uid fn keyless replaces = as_store_error (run_store uid fn keyless replaces)"

definition storeA :: "nat \<Rightarrow> call \<Rightarrow> meta answer_value act" where
  "storeA c fn = (bindA (uidA c)
    (\<lambda>uid. store_at uid fn False False))"

text \<open>The value of a call, of the type its function returns.\<close>

definition as_status :: "meta answer_value \<Rightarrow> store_status act" where
  "as_status v = (case v of V_status st \<Rightarrow> ret st | _ \<Rightarrow> raise X_blocked)"

definition as_str :: "meta answer_value \<Rightarrow> string act" where
  "as_str v = (case v of V_str s \<Rightarrow> ret s | _ \<Rightarrow> raise X_blocked)"

definition as_bool :: "meta answer_value \<Rightarrow> bool act" where
  "as_bool v = (case v of V_bool b \<Rightarrow> ret b | _ \<Rightarrow> raise X_blocked)"

definition as_metas :: "meta answer_value \<Rightarrow> meta list act" where
  "as_metas v = (case v of V_metas ms \<Rightarrow> ret ms | _ \<Rightarrow> raise X_blocked)"

definition as_meta :: "meta answer_value \<Rightarrow> meta act" where
  "as_meta v = (case v of V_meta m \<Rightarrow> ret m | _ \<Rightarrow> raise X_blocked)"

definition as_secrets :: "meta answer_value \<Rightarrow> addr act" where
  "as_secrets v = (case v of V_secrets a \<Rightarrow> ret a | _ \<Rightarrow> raise X_blocked)"

definition as_json :: "meta answer_value \<Rightarrow> (string \<times> json) list act" where
  "as_json v = (case v of V_json d \<Rightarrow> ret d | _ \<Rightarrow> raise X_blocked)"

definition as_names :: "meta answer_value \<Rightarrow> (string \<times> ustr) list act" where
  "as_names v = (case v of V_names d \<Rightarrow> ret d | _ \<Rightarrow> raise X_blocked)"

definition as_history :: "meta answer_value \<Rightarrow> (ustr \<times> ustr \<times> string option) list act" where
  "as_history v = (case v of V_history h \<Rightarrow> ret h | _ \<Rightarrow> raise X_blocked)"

definition as_indices :: "meta answer_value \<Rightarrow> int list act" where
  "as_indices v = (case v of V_indices h \<Rightarrow> ret h | _ \<Rightarrow> raise X_blocked)"

definition as_key :: "meta answer_value \<Rightarrow> nat list act" where
  "as_key v = (case v of V_key k \<Rightarrow> ret k | _ \<Rightarrow> raise X_blocked)"

definition statusA :: "nat \<Rightarrow> store_status act" where
  "statusA c = (bindA (storeA c (''status'', []))
    (\<lambda>v. as_status v))"

definition stateA :: "nat \<Rightarrow> string act" where
  "stateA c = (bindA (storeA c (''state'', []))
    (\<lambda>v. as_str v))"

definition mark_needs_login :: "int \<Rightarrow> unit act" where
  "mark_needs_login uid = (bindA (catchA ((bindA (run_store uid (''set_sync_status'', [A_flag True]) False False)
       (\<lambda>_. ret ()))) (\<lambda>e. ret ()))
    (\<lambda>_. modA (after_reply (Notify_after uid Ev_needs_login))))"

definition apple_call :: "nat \<Rightarrow> call \<Rightarrow> meta answer_value act" where
  "apple_call c fn = (bindA (uidA c)
    (\<lambda>uid. catchA (run_store uid fn False False) (\<lambda>e. (bindA (if err_code_of (apple_error e) = E_needs_login then mark_needs_login uid else ret ())
       (\<lambda>_. raise (X_op (apple_error e)))))))"

subsection \<open>The list\<close>

definition wire_list :: "int \<Rightarrow> (wire_entry list \<times> store_status) act" where
  "wire_list uid = (bindA (store_at uid (''list_meta'', []) False False)
    (\<lambda>v. bindA (as_metas v)
    (\<lambda>ms. bindA (store_at uid (''status'', []) False False)
    (\<lambda>w. bindA (as_status w)
    (\<lambda>st. bindA (getA (get_s uid))
    (\<lambda>so. case so of
       None \<Rightarrow> raise X_blocked
     | Some s \<Rightarrow> getA (\<lambda>r. (entries (db r) ms (show_all s) (s_features s), st))))))))"

definition list_counts :: "wire_entry list \<Rightarrow> (string \<times> int) list" where
  "list_counts es = [(''added'', 0), (''changed'', 0), (''deleted'', 0), (''unchanged'', int (length es))]"

definition at_epoch :: "int \<Rightarrow> nat \<Rightarrow> reg \<Rightarrow> bool" where
  "at_epoch uid e r = (case get_s uid r of None \<Rightarrow> False | Some s \<Rightarrow> epoch s = e \<and> unlocked r s)"

definition features_of :: "int \<Rightarrow> reg \<Rightarrow> features" where
  "features_of uid r = (case get_s uid r of None \<Rightarrow> DEFAULT_FEATURES | Some s \<Rightarrow> s_features s)"

text \<open>\<^verbatim>\<open>_notify_list_after\<close>: the task it queues, \<^verbatim>\<open>send\<close>, and queueing it.\<close>

definition send_list :: "int \<Rightarrow> nat \<Rightarrow> string option \<Rightarrow> unit act" where
  "send_list uid e watch = (bindA (getA (at_epoch uid e))
    (\<lambda>now. if \<not> now then ret ()
     else (bindA (catchA ((bindA (wire_list uid)
         (\<lambda>x. ret (Some x))))
                (\<lambda>x. case x of X_op _ \<Rightarrow> ret None | _ \<Rightarrow> raise x))
       (\<lambda>lst. case lst of
         None \<Rightarrow> ret ()
       | Some (es, st) \<Rightarrow> (bindA (if watch \<noteq> None then (bindA (store_at uid (''list_meta'', []) False False)
             (\<lambda>_. ret ())) else ret ())
         (\<lambda>_. bindA (getA (at_epoch uid e))
         (\<lambda>fin. if fin then modA (\<lambda>r. notify_ui uid
                 (Ev_synced es (st_synced_at st) (list_counts es) (features_of uid r)) r)
           else ret ())))))))"

definition notify_list_after :: "nat \<Rightarrow> string option \<Rightarrow> unit act" where
  "notify_list_after c watch = (bindA (sessA c)
    (\<lambda>s. modA (\<lambda>r. after_reply (List_after (c_uid (cobj r c)) (epoch s) watch) r)))"

subsection \<open>Settings kept in the store\<close>

text \<open>\<^verbatim>\<open>_save_setting_keys\<close>: a change to \<open>None\<close> removes the key.\<close>

definition change_keys :: "(string \<times> json option) list \<Rightarrow> (string \<times> json) list \<Rightarrow> (string \<times> json) list" where
  "change_keys chs d = fold (\<lambda>(k, v) d. case v of None \<Rightarrow> ddel k d | Some j \<Rightarrow> dset k j d) chs d"

definition save_setting_keys :: "nat \<Rightarrow> (string \<times> json option) list \<Rightarrow> unit act" where
  "save_setting_keys c chs = (bindA (storeA c (''load_settings'', []))
    (\<lambda>v. bindA (as_json v)
    (\<lambda>full. bindA (storeA c (''save_settings'', [A_settings (change_keys chs (dict_items full))]))
    (\<lambda>_. ret ()))))"

definition catch_op :: "unit act \<Rightarrow> unit act" where
  "catch_op m = catchA m (\<lambda>e. case e of X_op _ \<Rightarrow> ret () | _ \<Rightarrow> raise e)"

definition migration_pending :: "nat \<Rightarrow> bool act" where
  "migration_pending c = (bindA (sessA c)
    (\<lambda>s. bindA (uidA c)
    (\<lambda>uid. if migrating s then ret True
     else catchA ((bindA (store_at uid (''load_settings'', []) True False)
       (\<lambda>v. bindA (as_json v)
       (\<lambda>full. ret (jget full ''migration_pending'' = Some (JBool True))))))
       (\<lambda>e. case e of X_op _ \<Rightarrow> ret False | _ \<Rightarrow> raise e))))"

definition holds_nothing :: "nat \<Rightarrow> bool act" where
  "holds_nothing c = (bindA (uidA c)
    (\<lambda>uid. catchA ((bindA (store_at uid (''status'', []) True False)
       (\<lambda>v. bindA (as_status v)
       (\<lambda>st. if st_signed_in st then ret False
         else (bindA (store_at uid (''holds_nothing'', []) True False)
           (\<lambda>w. as_bool w))))))
       (\<lambda>e. case e of X_op _ \<Rightarrow> ret False | _ \<Rightarrow> raise e)))"

text \<open>\<^verbatim>\<open>_refuse_certain_seal_refusal\<close>: an empty reason is none.\<close>

definition refuse_certain_seal_refusal :: "nat \<Rightarrow> unit act" where
  "refuse_certain_seal_refusal c = (bindA (uidA c)
    (\<lambda>uid. bindA (catchA ((bindA (store_at uid (''create_blocked'', []) True False)
       (\<lambda>v. case v of V_str t \<Rightarrow> ret t | V_unit \<Rightarrow> ret [] | _ \<Rightarrow> raise X_blocked)))
              (\<lambda>e. case e of X_op _ \<Rightarrow> ret [] | _ \<Rightarrow> raise e))
    (\<lambda>why. if why \<noteq> [] then fail E_seal_refused [X_reason why] else ret ())))"

definition resettable :: "nat \<Rightarrow> bool act" where
  "resettable c = (bindA (stateA c)
    (\<lambda>st. if st = ''tpm-cleared'' \<or> st = ''damaged'' then ret True
     else if st = ''empty'' then ret False
     else (bindA (migration_pending c)
       (\<lambda>p. if p then ret True else holds_nothing c))))"

subsection \<open>A new store\<close>

definition not_locked_since :: "nat \<Rightarrow> nat \<Rightarrow> unit act" where
  "not_locked_since c e = (bindA (sessA c)
    (\<lambda>s. bindA (getA (\<lambda>r. epoch s \<noteq> e \<or> c_closed (cobj r c) \<or> s_ui s \<noteq> Some c))
    (\<lambda>gone. if gone then (bindA (modA (\<lambda>r. wipe_store (c_uid (cobj r c)) r))
       (\<lambda>_. fail E_cancelled [])) else ret ())))"

definition replace_store :: "nat \<Rightarrow> call \<Rightarrow> nat act" where
  "replace_store c fn = (bindA (sessA c)
    (\<lambda>s. bindA (uidA c)
    (\<lambda>uid. bindA (store_at uid fn False True)
    (\<lambda>v. case v of
       V_store n \<Rightarrow> (bindA (setS c (\<lambda>s. s\<lparr>s_store := n\<rparr>))
         (\<lambda>_. bindA (not_locked_since c (epoch s))
         (\<lambda>_. ret (epoch s))))
     | _ \<Rightarrow> raise X_blocked))))"

subsection \<open>Hello\<close>

definition PROTO :: int where "PROTO = 2"
definition VERSION :: string where "VERSION = ''2.0.3''"

definition hello_base :: answer_obj where
  "hello_base = [(''proto'', P_int PROTO), (''version'', P_str VERSION)]"

definition autofill_payload :: "int \<Rightarrow> bool \<Rightarrow> reg \<Rightarrow> payload" where
  "autofill_payload uid en r = P_obj [(''enabled'', P_bool en),
     (''hosts'', P_int (int (length (connections uid Autofill r))))]"

definition old_copy_payload :: "(string \<times> json) list option \<Rightarrow> payload" where
  "old_copy_payload oc = (case oc of
      None \<Rightarrow> P_null
    | Some d \<Rightarrow> if d = [] then P_null else
        P_obj [(''dir'', opt_payload payload_of_json (jget d ''dir'')),
               (''migrated_at'', opt_payload payload_of_json (jget d ''migrated_at''))])"

text \<open>Whether another live window holds the place.\<close>

definition window_taken :: "nat \<Rightarrow> reg \<Rightarrow> bool" where
  "window_taken c r = (case get_s (c_uid (cobj r c)) r of
      None \<Rightarrow> False
    | Some s \<Rightarrow> (case s_ui s of None \<Rightarrow> False | Some d \<Rightarrow> \<not> c_closed (cobj r d)))"

definition focus_window :: "nat \<Rightarrow> reg \<Rightarrow> reg" where
  "focus_window c r = (case get_s (c_uid (cobj r c)) r of
      None \<Rightarrow> r
    | Some s \<Rightarrow> (case s_ui s of None \<Rightarrow> r | Some d \<Rightarrow> send_event d Ev_focus r))"

text \<open>
  The role is the connection's own. \<open>new_window\<close> (theory \<^theory_text>\<open>Coroutines\<close>) locks what a closed
  window left open and takes its place.
\<close>

definition take_window :: "nat \<Rightarrow> reg \<Rightarrow> reg" where
  "take_window c r = (if c_role (cobj r c) = UI then new_window (c_uid (cobj r c)) c r else r)"

definition hello_ui :: "nat \<Rightarrow> answer_obj act" where
  "hello_ui c = (bindA (uidA c)
    (\<lambda>uid. bindA (getA (window_taken c))
    (\<lambda>taken. if taken then (bindA (modA (focus_window c))
       (\<lambda>_. fail E_already_running []))
     else (bindA (modA (take_window c))
       (\<lambda>_. bindA (store_at uid (''status'', []) True False)
       (\<lambda>v. bindA (as_status v)
       (\<lambda>st. let state = (if st_state st = [] then ''locked'' else st_state st) in
       bindA (if state = ''unlocked'' then modA (\<lambda>r. fst (lock uid None False r)) else ret ())
       (\<lambda>_. let state = (if state = ''unlocked'' then ''locked'' else state) in
       bindA (sessA c)
       (\<lambda>s0. bindA ((if state = ''empty'' then ret False else migration_pending c))
       (\<lambda>pending. bindA (sessA c)
       (\<lambda>s. bindA (getA (autofill_payload uid (autofill_enabled s)))
       (\<lambda>af. ret (hello_base @ [(''state'', P_str state), (''signed_in'', P_bool (st_signed_in st)),
         (''migration_pending'', P_bool pending),
         (''sealed_with'', opt_payload P_str (st_sealed_with st)), (''synced_at'', P_null),
         (''needs_login'', P_null), (''settings'', payload_of_settings (s_settings s)),
         (''autofill'', af), (''old_copy'', old_copy_payload (old_copy s0))])))))))))))))"

text \<open>The ticket of a hello: only a text can be the key of one.\<close>

definition ticket_token :: "json option \<Rightarrow> string option" where
  "ticket_token v = (case v of
      Some (JStr t) \<Rightarrow> if list_all (\<lambda>x. x < 128) t then Some (text_id t) else None
    | _ \<Rightarrow> None)"

definition hello_env_of :: "env \<Rightarrow> nat \<Rightarrow> reg \<Rightarrow> hello_env" where
  "hello_env_of E c r = \<lparr>h_now = clock r, h_uid = c_uid (cobj r c), h_role = c_role (cobj r c),
     h_ppid = c_ppid (cobj r c), h_closed = (\<lambda>d. c_closed (cobj r d)),
     h_parent_start = env_start_time E\<rparr>"

definition redeem_ticket :: "env \<Rightarrow> nat \<Rightarrow> string option \<Rightarrow> reg \<Rightarrow> reg \<times> (ticket_error + ticket)" where
  "redeem_ticket E c tok r =
     (let (b, res) = redeem (hello_env_of E c r) tok (book r) in (r\<lparr>book := b\<rparr>, res))"

definition hello_ticket :: "env \<Rightarrow> nat \<Rightarrow> req \<Rightarrow> answer_obj act" where
  "hello_ticket E c q = (bindA (doA (redeem_ticket E c (ticket_token (jget q ''ticket''))))
    (\<lambda>res. case res of
       Inl e \<Rightarrow> fail E_bad_ticket []
     | Inr t \<Rightarrow> (bindA (sessA c)
       (\<lambda>s. if s_ui s \<noteq> Some (ui_conn t) then fail E_bad_ticket []
         else (bindA (modA (upd_c c (\<lambda>x. x\<lparr>c_ticket := Some t\<rparr>)))
           (\<lambda>_. bindA (getA (\<lambda>r. c_role (cobj r c)))
           (\<lambda>ro. if ro = Clip then ret (hello_base @ [(''purpose'', P_str ''copy'')])
           else if purpose t = ''purge'' then ret (hello_base @ [(''purpose'', P_str ''purge''),
             (''files'', payload_of_json (case jget (t_extra t) ''files'' of None \<Rightarrow> JList [] | Some f \<Rightarrow> f)),
             (''dir'', opt_payload payload_of_json (jget (t_extra t) ''dir''))])
           else ret (hello_base @ [(''purpose'', P_str ''import'')]))))))))"

definition hello_autofill :: "nat \<Rightarrow> answer_obj act" where
  "hello_autofill c = (bindA (sessA c)
    (\<lambda>s. bindA (guardA (autofill_enabled s) E_forbidden [])
    (\<lambda>_. bindA (getA (\<lambda>r. length (connections (c_uid (cobj r c)) Autofill r)))
    (\<lambda>n. bindA (guardA (n < MAX_AUTOFILL_CONNS) E_too_many [])
    (\<lambda>_. bindA (getA (\<lambda>r. autofill_state r (Some s)))
    (\<lambda>st. ret (hello_base @ [(''state'', P_str st)])))))))"

definition hello :: "env \<Rightarrow> nat \<Rightarrow> req \<Rightarrow> answer_obj act" where
  "hello E c q = (bindA (uidA c)
    (\<lambda>uid. bindA (session_for uid)
    (\<lambda>_. bindA (getA (\<lambda>r. c_role (cobj r c)))
    (\<lambda>ro. if ro = UI then hello_ui c
     else if ro \<in> set TICKET_ROLES then hello_ticket E c q
     else hello_autofill c))))"

subsection \<open>Background sync\<close>

definition SYNC_FAILED_REASONS :: "err_code list" where
  "SYNC_FAILED_REASONS = [E_anisette_unavailable, E_network, E_needs_login, E_apple]"

definition count_of :: "(string \<times> int) list \<Rightarrow> string \<Rightarrow> string \<times> int" where
  "count_of cs k = (k, case dget cs k of None \<Rightarrow> 0 | Some n \<Rightarrow> n)"

definition sync_counts :: "(string \<times> int) list \<Rightarrow> (string \<times> int) list" where
  "sync_counts cs = map (count_of cs) [''added'', ''changed'', ''deleted'', ''unchanged'']"

text \<open>The sync failed with this error.\<close>

definition sync_failed :: "int \<Rightarrow> nat \<Rightarrow> op_error \<Rightarrow> string act" where
  "sync_failed uid e err = (bindA (getA (\<lambda>r. case get_s uid r of None \<Rightarrow> True | Some s \<Rightarrow> epoch s \<noteq> e))
    (\<lambda>moved. if moved then ret ''locked''
     else (let why = (if err_code_of err \<in> set SYNC_FAILED_REASONS then err_code_of err else E_apple) in
       bindA (if why = E_needs_login then mark_needs_login uid else ret ())
       (\<lambda>_. bindA (modA (notify_ui uid (Ev_sync_failed (code_name why) (detail_of err))))
       (\<lambda>_. ret ''failed'')))))"

text \<open>\<^verbatim>\<open>if s.epoch != epoch or not s.unlocked(): return "locked"\<close>, then keeping the item shape.\<close>

definition keep_shape :: "int \<Rightarrow> nat \<Rightarrow> item_shape option \<Rightarrow> reg \<Rightarrow> reg \<times> bool" where
  "keep_shape uid e shape r =
     (if at_epoch uid e r
      then (if shape = None then r else upd_s uid (\<lambda>s. s\<lparr>s_shape := shape\<rparr>) r, True) else (r, False))"

definition show_all_of :: "int \<Rightarrow> reg \<Rightarrow> bool" where
  "show_all_of uid r = (case get_s uid r of None \<Rightarrow> False | Some s \<Rightarrow> show_all s)"

definition sync_done :: "int \<Rightarrow> nat \<Rightarrow> (string \<times> int) list \<Rightarrow> real option \<Rightarrow> string act" where
  "sync_done uid e cs synced = (bindA (run_store uid (''list_meta'', []) False False)
    (\<lambda>v. bindA (as_metas v)
    (\<lambda>ms. bindA (run_store uid (''status'', []) False False)
    (\<lambda>w. bindA (as_status w)
    (\<lambda>st. bindA (getA (at_epoch uid e))
    (\<lambda>ok. if \<not> ok then ret ''locked''
     else (bindA (modA (\<lambda>r. notify_ui uid (Ev_synced (entries (db r) ms (show_all_of uid r) (features_of uid r))
         (if synced = None then st_synced_at st else synced) (sync_counts cs) (features_of uid r)) r))
       (\<lambda>_. ret ''synced''))))))))"

definition sync_body :: "int \<Rightarrow> nat \<Rightarrow> string act" where
  "sync_body uid e = (bindA (run_store uid (''status'', []) False False)
    (\<lambda>v. bindA (as_status v)
    (\<lambda>st. if \<not> st_signed_in st then ret ''signed-out''
     else if st_needs_login st then ret ''needs-login''
     else (bindA (catchA ((bindA (run_store uid (''apple.sync'', []) False False)
         (\<lambda>x. ret (Inr x))))
                (\<lambda>x. ret (Inl (apple_error x))))
       (\<lambda>res. case res of
         Inl err \<Rightarrow> sync_failed uid e err
       | Inr (V_counts cs synced shape) \<Rightarrow> (bindA (doA (keep_shape uid e shape))
         (\<lambda>ok. if \<not> ok then ret ''locked'' else sync_done uid e cs synced))
       | Inr _ \<Rightarrow> raise X_blocked)))))"

definition clear_busy :: "int \<Rightarrow> reg \<Rightarrow> reg" where
  "clear_busy uid r = upd_s uid (\<lambda>s. s\<lparr>busy := None\<rparr>) r"

definition background_sync :: "int \<Rightarrow> string act" where
  "background_sync uid = (bindA (getA (get_s uid))
    (\<lambda>so. case so of
       None \<Rightarrow> ret ''locked''
     | Some s \<Rightarrow> (bindA (getA (\<lambda>r. unlocked r s))
       (\<lambda>op. if \<not> op then ret ''locked''
         else if busy s \<noteq> None then ret ''running''
         else (bindA (modA (upd_s uid (\<lambda>s. s\<lparr>busy := Some ''sync''\<rparr>)))
           (\<lambda>_. finallyA (catchA (sync_body uid (epoch s)) (\<lambda>x. ret ''failed'')) (clear_busy uid)))))))"

subsection \<open>The helpers keep the registry's invariant\<close>

lemmas [moves_intros] = act_moves_mod act_moves_do

lemma moves_keeps0 [moves_intros]:
  "moves r (after_reply a r)" "moves r (notify_ui uid ev r)" "moves r (send_event d ev r)"
  "moves r (fst (lock uid why n r))" "moves r (wipe_store uid r)" "moves r (drop_grant uid b r)"
  "moves r (end_grant uid r)" "moves r (release_grant uid r)" "moves r (check_grant_expiry r)"
  "moves r (withdraw uid ros r)" "moves r (fst (cancel_prompts u c' rid act r))" "moves r (r\<lparr>book := b'\<rparr>)"
  by (intro keeps_moves keeps_frames0 keeps_lock keeps_wipe_store keeps_release_grant keeps_check_expiry
      keeps_cancel_prompts)+

lemma moves_busy [moves_intros]: "moves r (clear_busy uid r)"
  unfolding clear_busy_def by (rule moves_upd_s) (auto simp: sess_ok_def)

lemma act_moves_sess [moves_intros]: "act_moves (sessA c)" "act_moves (uidA c)"
  by (auto simp: act_moves_def sessA_def uidA_def getA_def split: option.splits)

lemma act_moves_test [moves_intros]: "act_moves (testA c P e xs)"
  unfolding testA_def by (intro moves_intros)

lemma act_moves_checks [moves_intros]:
  "act_moves (tier1A c)" "act_moves (stillA c e)" "act_moves (windowA c)" "act_moves (idleA c)"
  "act_moves (same_windowA c e)"
  unfolding tier1A_def stillA_def windowA_def idleA_def same_windowA_def by (intro moves_intros)+

lemma act_moves_liftR [moves_intros]: "act_moves (liftR x)"
  by (auto simp: liftR_def intro: moves_intros split: sum.splits)

lemma act_moves_as_store_error [moves_intros]: "act_moves m \<Longrightarrow> act_moves (as_store_error m)"
  unfolding as_store_error_def by (intro moves_intros) (auto intro: moves_intros split: option.splits)

lemma act_moves_store [moves_intros]: "act_moves (store_at uid fn kl rp)" "act_moves (storeA c fn)"
  unfolding storeA_def store_at_def by (intro moves_intros)+

lemma act_moves_as [moves_intros]:
  "act_moves (as_status v)" "act_moves (as_str v)" "act_moves (as_bool v)" "act_moves (as_metas v)"
  "act_moves (as_meta v)" "act_moves (as_secrets v)" "act_moves (as_json v)" "act_moves (as_names v)"
  "act_moves (as_history v)" "act_moves (as_indices v)" "act_moves (as_key v)"
  unfolding as_status_def as_str_def as_bool_def as_metas_def as_meta_def as_secrets_def as_json_def
    as_names_def as_history_def as_indices_def as_key_def
  by (cases v; simp add: act_moves_simple)+

lemma act_moves_if [moves_intros]: "(b \<Longrightarrow> act_moves m) \<Longrightarrow> (\<not> b \<Longrightarrow> act_moves k) \<Longrightarrow> act_moves (if b then m else k)"
  by simp

lemma act_moves_case_sum [moves_intros]:
  "(\<And>e. act_moves (f e)) \<Longrightarrow> (\<And>x. act_moves (g x)) \<Longrightarrow> act_moves (case x of Inl e \<Rightarrow> f e | Inr x \<Rightarrow> g x)"
  by (simp split: sum.splits)

lemma act_moves_case_option [moves_intros]:
  "act_moves m \<Longrightarrow> (\<And>x. act_moves (g x)) \<Longrightarrow> act_moves (case x of None \<Rightarrow> m | Some x \<Rightarrow> g x)"
  by (simp split: option.splits)

lemma act_moves_case_prod [moves_intros]: "(\<And>a b. act_moves (f a b)) \<Longrightarrow> act_moves (case p of (a, b) \<Rightarrow> f a b)"
  by (simp split: prod.splits)

lemma act_moves_let [moves_intros]: "(\<And>x. act_moves (f x)) \<Longrightarrow> act_moves (Let v f)"
  by (simp add: Let_def)

lemma act_moves_status [moves_intros]: "act_moves (statusA c)" "act_moves (stateA c)"
  unfolding statusA_def stateA_def by (intro moves_intros)+

lemma act_moves_needs_login [moves_intros]: "act_moves (mark_needs_login uid)"
  unfolding mark_needs_login_def by (intro moves_intros)

lemma act_moves_apple_call [moves_intros]: "act_moves (apple_call c fn)"
  unfolding apple_call_def by (intro moves_intros)

lemma act_moves_wire_list [moves_intros]: "act_moves (wire_list uid)"
  unfolding wire_list_def by (intro moves_intros)

lemma act_moves_case_exn [moves_intros]:
  "(\<And>e. act_moves (f e)) \<Longrightarrow> act_moves m \<Longrightarrow> act_moves (case x of X_op e \<Rightarrow> f e | _ \<Rightarrow> m)"
  by (simp split: exn.splits)

lemma act_moves_list [moves_intros]: "act_moves (send_list uid e watch)" "act_moves (notify_list_after c watch)"
  unfolding send_list_def notify_list_after_def by (intro moves_intros)+

lemma act_moves_settings [moves_intros]: "act_moves (save_setting_keys c chs)" "act_moves m' \<Longrightarrow> act_moves (catch_op m')"
  "act_moves (migration_pending c)" "act_moves (holds_nothing c)" "act_moves (resettable c)"
  unfolding save_setting_keys_def catch_op_def migration_pending_def holds_nothing_def resettable_def
  by (intro moves_intros; assumption?)+

lemma act_moves_refuse [moves_intros]: "act_moves (refuse_certain_seal_refusal c)"
  unfolding refuse_certain_seal_refusal_def
  by (intro moves_intros) (auto intro: moves_intros split: answer_value.splits)

lemma act_moves_setS:
  assumes "\<And>s. epoch (f s) = epoch s \<and> tier1 (f s) = tier1 s \<and> s_ui (f s) = s_ui s"
    and "\<And>r uid s. sess_ok r uid s \<Longrightarrow> sess_ok r uid (f s)"
  shows "act_moves (setS c f)"
  unfolding setS_def by (rule act_moves_mod) (rule moves_upd_s [OF assms])

lemma act_moves_new_store [moves_intros]: "act_moves (not_locked_since c e)" "act_moves (replace_store c fn)"
proof -
  have 1: "act_moves (setS c (\<lambda>s. s\<lparr>s_store := n\<rparr>))" for n
    by (rule act_moves_setS) (simp_all add: sess_ok_def)
  show 2: "act_moves (not_locked_since c e)" for e unfolding not_locked_since_def by (intro moves_intros)
  show "act_moves (replace_store c fn)"
    unfolding replace_store_def by (intro moves_intros) (auto split: answer_value.splits intro: 1 2 moves_intros)
qed

subsection \<open>Hello and the sync keep it\<close>

lemma act_moves_hello_ui [moves_intros]: "act_moves (hello_ui c)"
proof -
  have 1: "moves r (take_window c r)" for r
    unfolding take_window_def by (auto intro!: keeps_moves keeps_new_window)
  have 2: "moves r (focus_window c r)" for r
    unfolding focus_window_def by (auto split: option.splits intro: moves_intros)
  show ?thesis unfolding hello_ui_def by (intro moves_intros 1 2)
qed

lemma moves_conn_data: "(\<And>x. c_uid (f x) = c_uid x \<and> c_role (f x) = c_role x \<and> c_closed (f x) = c_closed x) \<Longrightarrow>
    moves r (upd_c c f r)"
proof -
  assume f: "\<And>x. c_uid (f x) = c_uid x \<and> c_role (f x) = c_role x \<and> c_closed (f x) = c_closed x"
  have "rinv (upd_c c f r)" if "rinv r"
    by (rule rinv_cong [OF that]) (auto simp: upd_c_def same_ids_def get_s_def f)
  then show ?thesis
    by (auto simp: moves_def sessions_move_def same_ids_def upd_c_def f get_s_def)
qed

lemma act_moves_hello [moves_intros]: "act_moves (hello E c q)"
proof -
  have 1: "moves r (fst (redeem_ticket E c tok r))" for r tok
    by (simp add: redeem_ticket_def split_beta moves_intros)
  have 2: "moves r (upd_c c (\<lambda>x. x\<lparr>c_ticket := t\<rparr>) r)" for r t by (rule moves_conn_data) simp
  show ?thesis unfolding hello_def hello_ticket_def hello_autofill_def by (intro moves_intros 1 2)
qed

lemma moves_keep_shape: "moves r (fst (keep_shape uid e shape r))"
proof -
  have "rinv (upd_s uid (\<lambda>s. s\<lparr>s_shape := shape\<rparr>) r)" if "rinv r" "at_epoch uid e r"
    by (rule rinv_upd_s [OF that(1)])
      (use that(2) in \<open>auto simp: sess_ok_def at_epoch_def unlocked_def split: option.splits\<close>)
  then show ?thesis
    by (auto simp: keep_shape_def moves_def sessions_move_def same_ids_def session_moves_def split: if_splits)
qed

lemma act_moves_sync [moves_intros]: "act_moves (background_sync uid)"
proof -
  have 1: "moves r (upd_s uid (\<lambda>s. s\<lparr>busy := b\<rparr>) r)" for r b by (rule moves_upd_s) (auto simp: sess_ok_def)
  have 2: "act_moves (sync_failed uid e err)" "act_moves (sync_done uid e cs synced)" for e err cs synced
    unfolding sync_failed_def sync_done_def by (intro moves_intros)+
  have "act_moves (sync_body uid e)" for e
    unfolding sync_body_def
    by (intro moves_intros moves_keep_shape) (auto split: sum.splits answer_value.splits intro!: moves_intros moves_keep_shape 2)
  then show ?thesis unfolding background_sync_def by (intro moves_intros 1)
qed

end
