(* ===== verification/Calls.thy ===== *)
theory Calls
  imports Requests
begin

text \<open>
  Which calls the shared helpers make and that they raise no dialog: the rules by which the
  handlers' theorems about approvals and silence are proved.
\<close>

subsection \<open>Silence\<close>

definition silent :: "'a act \<Rightarrow> bool" where
  "silent m \<longleftrightarrow> (\<forall>r. checks (snd (m r)) = checks r)"

named_theorems silent_intros \<open>coroutines that raise no dialog\<close>

lemma silentI: "(\<And>r. checks (snd (m r)) = checks r) \<Longrightarrow> silent m"
  by (simp add: silent_def)

lemma silentD: "silent m \<Longrightarrow> m r = (res, r') \<Longrightarrow> checks r' = checks r"
  unfolding silent_def by (metis snd_conv)

lemma silent_tracked: "(\<And>r. tracked (snd (m r)) = tracked r) \<Longrightarrow> silent m"
  by (rule silentI) (auto dest: trackedD)

lemma silent_step: "silent m \<Longrightarrow> m r = (res, r1) \<Longrightarrow> silent k \<Longrightarrow> checks (snd (k r1)) = checks r"
  by (auto simp: silent_def dest: silentD) (metis snd_conv)

lemma silent_bind [silent_intros]: "silent m \<Longrightarrow> (\<And>x. silent (k x)) \<Longrightarrow> silent (bindA m k)"
  by (rule silentI, subst bindA_def) (auto split: prod.splits sum.splits intro: silent_step silentD)

lemma silent_simple [silent_intros]:
  "silent (ret x)" "silent (raise e)" "silent (getA f)" "silent (guardA b ec xs)" "silent awaitA"
  by (rule silent_tracked; simp add: ret_def raise_def getA_def guardA_def)+

lemma silent_mod [silent_intros]: "(\<And>r. tracked (f r) = tracked r) \<Longrightarrow> silent (modA f)"
  by (rule silent_tracked) (simp add: modA_def)

lemma silent_do [silent_intros]: "(\<And>r. tracked (fst (f r)) = tracked r) \<Longrightarrow> silent (doA f)"
  by (rule silent_tracked) (simp add: doA_def split_beta)

lemma silent_catch [silent_intros]: "silent m \<Longrightarrow> (\<And>e. silent (h e)) \<Longrightarrow> silent (catchA m h)"
  by (rule silentI, subst catchA_def) (auto split: prod.splits sum.splits intro: silent_step silentD)

lemma silent_finally [silent_intros]:
  assumes "silent m" and "\<And>r. tracked (f r) = tracked r"
  shows "silent (finallyA m f)"
proof -
  have "checks (f r) = checks r" for r using trackedD(1) [OF assms(2)] .
  then show ?thesis
    by (intro silentI, subst finallyA_def)
      (auto split: prod.splits sum.splits dest: silentD [OF assms(1)])
qed

lemma silent_if [silent_intros]: "(b \<Longrightarrow> silent m) \<Longrightarrow> (\<not> b \<Longrightarrow> silent k) \<Longrightarrow> silent (if b then m else k)"
  by simp

lemma silent_cases [silent_intros]:
  "(\<And>e. silent (f e)) \<Longrightarrow> (\<And>x. silent (g x)) \<Longrightarrow> silent (case x of Inl e \<Rightarrow> f e | Inr x \<Rightarrow> g x)"
  "silent k \<Longrightarrow> (\<And>y. silent (h y)) \<Longrightarrow> silent (case z of None \<Rightarrow> k | Some y \<Rightarrow> h y)"
  "(\<And>a b. silent (i a b)) \<Longrightarrow> silent (case p of (a, b) \<Rightarrow> i a b)"
  "(\<And>x. silent (j x)) \<Longrightarrow> silent (Let v j)"
  "(\<And>e. silent (l e)) \<Longrightarrow> silent k \<Longrightarrow> silent (case w of X_op e \<Rightarrow> l e | _ \<Rightarrow> k)"
  by (simp_all split: sum.splits option.splits prod.splits exn.splits)

lemma silent_submit: "silent (modA (submit fn))"
  by (simp add: silent_def modA_def submit_def)

lemma silent_run_store [silent_intros]: "silent (run_store uid fn kl rp)"
proof -
  have sc: "silent (store_call uid fn rp s)" for s
  proof (rule silentI)
    fix r
    let ?r0 = "submit fn (upd_s uid (\<lambda>s. s\<lparr>replacing := rp\<rparr>) r)"
    obtain res r1 where w: "await_worker uid ?r0 = (res, r1)" by fastforce
    have "tracked r1 = tracked ?r0"
    proof -
      obtain res' where "awaitA ?r0 = (res', r1)"
        using w by (auto simp: await_worker_def split: prod.splits if_splits)
      then show ?thesis using tracked_await [of ?r0] by (metis snd_conv)
    qed
    then have "checks r1 = checks r" by (auto dest!: trackedD(1) simp: submit_def)
    then show "checks (snd (store_call uid fn rp s r)) = checks r"
      using trackedD(1) [OF tracked_run_store_finally] by (simp add: store_call_def Let_def w)
  qed
  show ?thesis unfolding run_store_def
    by (intro silent_bind silent_simple silent_cases silent_if silent_submit sc)
qed

subsection \<open>Helpers that make no call\<close>

lemma tracked_keep_shape [simp]: "tracked (fst (keep_shape uid e sh r)) = tracked r"
  by (simp add: keep_shape_def)

lemma tracked_clear_busy [simp]: "tracked (clear_busy uid r) = tracked r"
  by (simp add: clear_busy_def)

lemma tracked_hello [simp]: "tracked (take_window c r) = tracked r" "tracked (focus_window c r) = tracked r"
  "tracked (fst (redeem_ticket E c tok r)) = tracked r"
  by (auto simp: take_window_def focus_window_def redeem_ticket_def split_beta split: option.splits)

lemma tracked_reads:
  "tracked (snd (sessA c r)) = tracked r" "tracked (snd (uidA c r)) = tracked r"
  by (auto simp: sessA_def uidA_def getA_def split: option.splits)

lemma silent_checks [silent_intros]:
  "silent (sessA c)" "silent (uidA c)" "silent (testA c P e xs)" "silent (tier1A c)" "silent (stillA c n)"
  "silent (windowA c)" "silent (idleA c)" "silent (same_windowA c n)" "silent (setS c f)" "silent (liftR x)"
proof -
  show 1: "silent (sessA c)" "silent (uidA c)" by (rule silent_tracked, rule tracked_reads)+
  show 2: "silent (testA c P e xs)" for P e xs unfolding testA_def by (intro silent_intros 1)
  show "silent (tier1A c)" "silent (stillA c n)" "silent (windowA c)" "silent (idleA c)"
    "silent (same_windowA c n)"
    unfolding tier1A_def stillA_def windowA_def idleA_def same_windowA_def by (intro silent_intros 1 2)+
  show "silent (setS c f)" unfolding setS_def by (intro silent_intros) simp
  show "silent (liftR x)" by (auto simp: liftR_def intro: silent_intros split: sum.splits)
qed

lemma only_calls_checks [call_intros]:
  "only_calls F (sessA c)" "only_calls F (uidA c)" "only_calls F (testA c P e xs)" "only_calls F (tier1A c)"
  "only_calls F (stillA c n)" "only_calls F (windowA c)" "only_calls F (idleA c)"
  "only_calls F (same_windowA c n)" "only_calls F (setS c f)" "only_calls F (liftR x)"
proof -
  show 1: "only_calls F (sessA c)" "only_calls F (uidA c)" by (rule only_calls_tracked, rule tracked_reads)+
  show 2: "only_calls F (testA c P e xs)" for P e xs unfolding testA_def by (intro call_intros 1)
  show "only_calls F (tier1A c)" "only_calls F (stillA c n)" "only_calls F (windowA c)" "only_calls F (idleA c)"
    "only_calls F (same_windowA c n)"
    unfolding tier1A_def stillA_def windowA_def idleA_def same_windowA_def by (intro call_intros 1 2)+
  show "only_calls F (setS c f)" unfolding setS_def by (intro only_calls_mod) simp
  show "only_calls F (liftR x)" by (auto simp: liftR_def intro: call_intros split: sum.splits)
qed

lemmas [call_intros] = only_calls_mod only_calls_do only_calls_run_store

lemma only_calls_if [call_intros]:
  "(b \<Longrightarrow> only_calls F m) \<Longrightarrow> (\<not> b \<Longrightarrow> only_calls F k) \<Longrightarrow> only_calls F (if b then m else k)"
  by simp

lemma only_calls_cases [call_intros]:
  "(\<And>e. only_calls F (f e)) \<Longrightarrow> (\<And>x. only_calls F (g x)) \<Longrightarrow> only_calls F (case x of Inl e \<Rightarrow> f e | Inr x \<Rightarrow> g x)"
  "only_calls F k \<Longrightarrow> (\<And>y. only_calls F (h y)) \<Longrightarrow> only_calls F (case z of None \<Rightarrow> k | Some y \<Rightarrow> h y)"
  "(\<And>a b. only_calls F (i a b)) \<Longrightarrow> only_calls F (case p of (a, b) \<Rightarrow> i a b)"
  "(\<And>x. only_calls F (j x)) \<Longrightarrow> only_calls F (Let v j)"
  "(\<And>e. only_calls F (l e)) \<Longrightarrow> only_calls F k \<Longrightarrow> only_calls F (case w of X_op e \<Rightarrow> l e | _ \<Rightarrow> k)"
  by (simp_all split: sum.splits option.splits prod.splits exn.splits)

lemma only_calls_as [call_intros]:
  "only_calls F (as_status v)" "only_calls F (as_str v)" "only_calls F (as_bool v)" "only_calls F (as_metas v)"
  "only_calls F (as_meta v)" "only_calls F (as_secrets v)" "only_calls F (as_json v)" "only_calls F (as_names v)"
  "only_calls F (as_history v)" "only_calls F (as_indices v)" "only_calls F (as_key v)"
  unfolding as_status_def as_str_def as_bool_def as_metas_def as_meta_def as_secrets_def as_json_def
    as_names_def as_history_def as_indices_def as_key_def
  by (cases v; simp add: only_calls_simple)+

lemma silent_as [silent_intros]:
  "silent (as_status v)" "silent (as_str v)" "silent (as_bool v)" "silent (as_metas v)"
  "silent (as_meta v)" "silent (as_secrets v)" "silent (as_json v)" "silent (as_names v)"
  "silent (as_history v)" "silent (as_indices v)" "silent (as_key v)"
  unfolding as_status_def as_str_def as_bool_def as_metas_def as_meta_def as_secrets_def as_json_def
    as_names_def as_history_def as_indices_def as_key_def
  by (cases v; simp add: silent_simple)+

subsection \<open>Helpers that do\<close>

lemma only_calls_store [call_intros]:
  "fst fn \<in> F \<Longrightarrow> only_calls F (store_at uid fn kl rp)" "fst fn \<in> F \<Longrightarrow> only_calls F (storeA c fn)"
proof -
  show 1: "fst fn \<in> F \<Longrightarrow> only_calls F (store_at uid fn kl rp)" for uid kl rp
    unfolding store_at_def as_store_error_def by (intro call_intros) auto
  show "fst fn \<in> F \<Longrightarrow> only_calls F (storeA c fn)" unfolding storeA_def by (intro call_intros 1)
qed

lemma silent_store [silent_intros]: "silent (store_at uid fn kl rp)" "silent (storeA c fn)"
proof -
  show 1: "silent (store_at uid fn kl rp)" for uid kl rp
    unfolding store_at_def as_store_error_def by (intro silent_intros)
  show "silent (storeA c fn)" unfolding storeA_def by (intro silent_intros 1)
qed

text \<open>The reads the helpers do, none of which needs an approval.\<close>

definition READS :: "string set" where
  "READS = {''status'', ''state'', ''load_settings'', ''save_settings'', ''holds_nothing'', ''create_blocked'',
     ''list_meta'', ''set_sync_status''}"

lemma reads_mem: "READS \<subseteq> F \<Longrightarrow> fst (n, xs) \<in> READS \<Longrightarrow> fst (n, xs) \<in> F"
  by blast

lemma only_calls_helpers [call_intros]:
  assumes "READS \<subseteq> F"
  shows "only_calls F (statusA c)" "only_calls F (stateA c)" "only_calls F (mark_needs_login uid)"
    "fst fn \<in> F \<Longrightarrow> only_calls F (apple_call c fn)" "only_calls F (wire_list uid)"
    "only_calls F (save_setting_keys c chs)" "only_calls F (migration_pending c)"
    "only_calls F (holds_nothing c)" "only_calls F (refuse_certain_seal_refusal c)" "only_calls F (resettable c)"
    "only_calls F (notify_list_after c watch)" "only_calls F (not_locked_since c n)"
    "fst fn \<in> F \<Longrightarrow> only_calls F (replace_store c fn)"
proof -
  note rm = reads_mem [OF assms] and rd = READS_def
  show 1: "only_calls F (statusA c)" "only_calls F (stateA c)" "only_calls F (mark_needs_login uid)" for c uid
    unfolding statusA_def stateA_def mark_needs_login_def
    by (intro call_intros rm; simp add: rd)+
  show "fst fn \<in> F \<Longrightarrow> only_calls F (apple_call c fn)"
    unfolding apple_call_def by (intro call_intros 1)
  show "only_calls F (wire_list uid)" "only_calls F (save_setting_keys c chs)"
    unfolding wire_list_def save_setting_keys_def by (intro call_intros rm; simp add: rd)+
  show 2: "only_calls F (migration_pending c)" "only_calls F (holds_nothing c)"
    unfolding migration_pending_def holds_nothing_def by (intro call_intros rm; simp add: rd)+
  show "only_calls F (refuse_certain_seal_refusal c)"
    unfolding refuse_certain_seal_refusal_def
    by (intro call_intros rm; (simp add: rd)?) (auto split: answer_value.splits intro: call_intros)
  show "only_calls F (resettable c)" unfolding resettable_def by (intro call_intros 1 2)
  show "only_calls F (notify_list_after c watch)"
    unfolding notify_list_after_def by (intro call_intros) simp
  show 3: "only_calls F (not_locked_since c n)" for n
    unfolding not_locked_since_def by (intro call_intros) simp
  show "fst fn \<in> F \<Longrightarrow> only_calls F (replace_store c fn)"
    unfolding replace_store_def by (intro call_intros) (auto split: answer_value.splits intro: call_intros 3)
qed

lemma silent_helpers [silent_intros]:
  "silent (statusA c)" "silent (stateA c)" "silent (mark_needs_login uid)" "silent (apple_call c fn)"
  "silent (wire_list uid)" "silent (save_setting_keys c chs)" "silent (migration_pending c)"
  "silent (holds_nothing c)" "silent (refuse_certain_seal_refusal c)" "silent (resettable c)"
  "silent (notify_list_after c watch)" "silent (not_locked_since c n)"
proof -
  show 1: "silent (statusA c)" "silent (stateA c)" "silent (mark_needs_login uid)" for c uid
    unfolding statusA_def stateA_def mark_needs_login_def by (intro silent_intros tracked_ops)+
  show "silent (apple_call c fn)" "silent (wire_list uid)" "silent (save_setting_keys c chs)"
    unfolding apple_call_def wire_list_def save_setting_keys_def by (intro silent_intros 1)+
  show 2: "silent (migration_pending c)" "silent (holds_nothing c)"
    unfolding migration_pending_def holds_nothing_def by (intro silent_intros)+
  show "silent (refuse_certain_seal_refusal c)"
    unfolding refuse_certain_seal_refusal_def
    by (intro silent_intros) (auto split: answer_value.splits intro: silent_intros)
  show "silent (resettable c)" unfolding resettable_def by (intro silent_intros 1 2)
  show "silent (notify_list_after c watch)" "silent (not_locked_since c n)"
    unfolding notify_list_after_def not_locked_since_def by (intro silent_intros; simp)+
qed

subsection \<open>The background sync asks nobody\<close>

text \<open>
  The scheduler never prompts. A background sync raises no dialog, whatever the store, Apple
  and the other tasks do while it runs.
\<close>

theorem background_sync_never_prompts: "checks (snd (background_sync uid r)) = checks r"
proof -
  have 2: "silent (sync_failed uid e err)" "silent (sync_done uid e cs synced)" for e err cs synced
    unfolding sync_failed_def sync_done_def by (intro silent_intros; simp)+
  have "silent (sync_body uid e)" for e
    unfolding sync_body_def
    by (intro silent_intros) (auto split: sum.splits answer_value.splits intro!: silent_intros 2)
  then have "silent (background_sync uid)"
    unfolding background_sync_def by (intro silent_intros; simp)
  then show ?thesis by (simp add: silent_def)
qed

end
