(* ===== verification/WindowOps.thy ===== *)
theory WindowOps
  imports Calls
begin

text \<open>
  The window's operations on tier 1 and on one entry: \<^verbatim>\<open>op_unlock\<close> to \<^verbatim>\<open>op_copy_text\<close> of
  \<^verbatim>\<open>backend/icp/daemon/handlers.py\<close>.
\<close>

subsection \<open>Unlocking\<close>

text \<open>\<^verbatim>\<open>try: m; except ...: h; else: k\<close>, where \<open>k\<close> is outside the \<^verbatim>\<open>try\<close>.\<close>

definition tryA :: "'a act \<Rightarrow> (exn \<Rightarrow> 'b act) \<Rightarrow> ('a \<Rightarrow> 'b act) \<Rightarrow> 'b act" where
  "tryA m h k = (\<lambda>r. case m r of
      (Inr x, r') \<Rightarrow> k x r'
    | (Inl e, r') \<Rightarrow> if e = X_blocked \<or> e = X_task_cancelled then (Inl e, r') else h e r')"

definition sync_after_reply :: "nat \<Rightarrow> unit act" where
  "sync_after_reply c = modA (\<lambda>r. after_reply (Sync_after (c_uid (cobj r c))) r)"

definition unlocked_reply :: "nat \<Rightarrow> answer_obj act" where
  "unlocked_reply c = (bindA (uidA c)
    (\<lambda>uid. bindA (wire_list uid)
    (\<lambda>(es, st). bindA (getA (features_of uid))
    (\<lambda>f. ret [(''entries'', P_entries es), (''synced_at'', opt_payload P_real (st_synced_at st)),
          (''needs_login'', P_bool (st_needs_login st)), (''features'', payload_of_features f)]))))"

definition locked_reply :: "err_code \<Rightarrow> extra list \<Rightarrow> answer_obj" where
  "locked_reply k xs = [(''locked'', P_bool True), (''reason'', P_str (code_name k))] @ map payload_of_extra xs"

text \<open>Tier 1 is open on this connection already: only the filter of the list changes.\<close>

definition reopen :: "nat \<Rightarrow> bool \<Rightarrow> reg \<Rightarrow> reg \<times> bool" where
  "reopen c all r = (case get_s (c_uid (cobj r c)) r of
      None \<Rightarrow> (r, False)
    | Some s \<Rightarrow> if open_on c r s then (upd_s (c_uid (cobj r c)) (\<lambda>s. s\<lparr>show_all := all\<rparr>) r, True) else (r, False))"

text \<open>The second check, after the TPM state was read, and \<^verbatim>\<open>open_tier1\<close>.\<close>

definition open_unless_locked :: "nat \<Rightarrow> nat \<Rightarrow> bool \<Rightarrow> unit act" where
  "open_unless_locked c e all = (bindA (sessA c)
    (\<lambda>s. bindA (getA (\<lambda>r. epoch s \<noteq> e \<or> c_closed (cobj r c)))
    (\<lambda>gone. if gone then (bindA (modA (\<lambda>r. wipe_store (c_uid (cobj r c)) r))
       (\<lambda>_. fail E_cancelled []))
     else modA (\<lambda>r. open_tier1 (c_uid (cobj r c)) c all r))))"

definition tpm_available :: "nat \<Rightarrow> bool act" where
  "tpm_available c = catchA ((bindA (uidA c)
    (\<lambda>uid. bindA (run_store uid (''tpm_move_state'', []) False False)
    (\<lambda>v. bindA (as_str v)
    (\<lambda>t. ret (t = ''available''))))))
     (\<lambda>e. ret False)"

definition unlock_opened :: "nat \<Rightarrow> bool \<Rightarrow> nat \<Rightarrow> answer_obj act" where
  "unlock_opened c all e = (bindA (not_locked_since c e)
    (\<lambda>_. bindA (tpm_available c)
    (\<lambda>tpm. bindA (open_unless_locked c e all)
    (\<lambda>_. bindA (unlocked_reply c)
    (\<lambda>rep. bindA (sync_after_reply c)
    (\<lambda>_. ret (rep @ [(''tpm_move'', P_bool tpm)])))))))"

definition unlock_error :: "exn \<Rightarrow> answer_obj act" where
  "unlock_error x = (case x of
      X_seal k \<Rightarrow> ret (locked_reply k [])
    | _ \<Rightarrow> (case store_error x of Some err \<Rightarrow> raise (X_op err) | None \<Rightarrow> fail E_internal []))"

definition unlock_approved :: "nat \<Rightarrow> bool \<Rightarrow> answer_obj act" where
  "unlock_approved c all = (bindA (sessA c)
    (\<lambda>s. bindA (uidA c)
    (\<lambda>uid. tryA (run_store uid (''unlock'', []) False False)
       unlock_error
       (\<lambda>_. unlock_opened c all (epoch s)))))"

definition unlock_refused :: "exn \<Rightarrow> answer_obj act" where
  "unlock_refused x = (case x of
      X_op (OpError k xs) \<Rightarrow> if k \<in> set UNLOCK_REFUSALS then ret (locked_reply k xs) else raise x
    | _ \<Rightarrow> raise x)"

definition op_unlock :: "nat \<Rightarrow> req \<Rightarrow> answer_obj act" where
  "op_unlock c q = (bindA (sessA c)
    (\<lambda>_. bindA (liftR (need_bool q ''all'' (Some False)))
    (\<lambda>all. bindA (doA (reopen c all))
    (\<lambda>op. if op then unlocked_reply c
     else (bindA (windowA c)
       (\<lambda>s. bindA (guardA (\<not> wipe_after s) E_seal_unavailable [])
       (\<lambda>_. bindA (stateA c)
       (\<lambda>st. if st = ''empty'' then ret [(''locked'', P_bool True), (''reason'', P_str ''empty'')]
       else tryA (authorize c Act_unlock []) unlock_refused (\<lambda>_. unlock_approved c all)))))))))"

subsection \<open>Edits behind the management dialog\<close>

text \<open>
  \<^verbatim>\<open>epoch = s.epoch; authorize; _still; if s.busy\<close>, and \<^verbatim>\<open>s.busy = "edit"; try ... finally\<close>.
\<close>

definition manage :: "nat \<Rightarrow> unit act" where
  "manage c = (bindA (sessA c)
    (\<lambda>s. bindA (authorize c Act_manage [])
    (\<lambda>_. bindA (stillA c (epoch s))
    (\<lambda>_. idleA c))))"

definition editing :: "nat \<Rightarrow> 'a act \<Rightarrow> 'a act" where
  "editing c m = (bindA (setS c (\<lambda>s. s\<lparr>busy := Some ''edit''\<rparr>))
    (\<lambda>_. finallyA m (\<lambda>r. clear_busy (c_uid (cobj r c)) r)))"

definition op_tpm_move :: "nat \<Rightarrow> req \<Rightarrow> answer_obj act" where
  "op_tpm_move c q = (bindA (tier1A c)
    (\<lambda>_. bindA (storeA c (''tpm_move_state'', []))
    (\<lambda>v. bindA (as_str v)
    (\<lambda>st. if st = ''pcr-policy'' then fail E_seal_refused [X_reason ''pcr-policy'']
     else (bindA (guardA (st = ''available'') E_invalid [X_field ''tpm''])
       (\<lambda>_. bindA (idleA c)
       (\<lambda>_. bindA (manage c)
       (\<lambda>_. bindA (editing c ((bindA (storeA c (''reseal_if_tpm_available'', []))
         (\<lambda>w. as_bool w))))
       (\<lambda>moved. bindA (guardA moved E_seal_unavailable [])
       (\<lambda>_. ret [(''sealed_with'', P_str ''host+tpm2'')]))))))))))"

definition op_lock :: "nat \<Rightarrow> req \<Rightarrow> answer_obj act" where
  "op_lock c q = (bindA (uidA c)
    (\<lambda>uid. bindA (modA (\<lambda>r. fst (lock uid (Some ''user'') False r)))
    (\<lambda>_. bindA (modA (after_reply (Notify_after uid (Ev_locked ''user''))))
    (\<lambda>_. ret [(''locked'', P_bool True)]))))"

definition op_release :: "nat \<Rightarrow> req \<Rightarrow> answer_obj act" where
  "op_release c q = (bindA (uidA c)
    (\<lambda>uid. bindA (modA (release_grant uid))
    (\<lambda>_. ret [(''released'', P_bool True)])))"

text \<open>The running sign-in of this connection and request, cancelled.\<close>

definition cancel_signin_of :: "nat \<Rightarrow> int \<Rightarrow> reg \<Rightarrow> reg \<times> nat" where
  "cancel_signin_of c target r =
     (case get_s (c_uid (cobj r c)) r of
        None \<Rightarrow> (r, 0)
      | Some s \<Rightarrow> (case signin s of
          None \<Rightarrow> (r, 0)
        | Some fe \<Rightarrow>
            if fe_conn fe = c \<and> fe_rid fe = target \<and> \<not> fe_cancelled fe
            then (upd_s (c_uid (cobj r c)) (\<lambda>s. s\<lparr>signin := Some (fe_cancel fe)\<rparr>) r, 1) else (r, 0)))"

definition op_cancel :: "nat \<Rightarrow> req \<Rightarrow> answer_obj act" where
  "op_cancel c q = (bindA (liftR (need_int q ''target''))
    (\<lambda>target. bindA (doA (cancel_prompts None (Some c) (Some target) None))
    (\<lambda>n. bindA (doA (cancel_signin_of c target))
    (\<lambda>m. ret [(''cancelled'', P_bool (n + m > 0))]))))"

subsection \<open>The grant on one entry\<close>

definition as_meta_of :: "nat \<Rightarrow> string \<Rightarrow> meta act" where
  "as_meta_of c i = (bindA (storeA c (''get_meta'', [A_id i]))
    (\<lambda>v. as_meta v))"

definition wipe_buffer :: "addr \<Rightarrow> reg \<Rightarrow> reg" where
  "wipe_buffer a r = r\<lparr>gtab := (gtab r)\<lparr>gheap := wipe_secrets (Some a) (gheap (gtab r))\<rparr>\<rparr>"

definition put_grant_on :: "nat \<Rightarrow> string \<Rightarrow> addr \<Rightarrow> reg \<Rightarrow> reg \<times> (op_error + grant)" where
  "put_grant_on c i a r = (case get_s (c_uid (cobj r c)) r of
      None \<Rightarrow> (r, Inl (OpError E_internal []))
    | Some s \<Rightarrow> (let (r', g) = put_grant s i a r in (r', Inr g)))"

text \<open>
  The entry read before is granted if nothing locked, released or superseded the request, else
  its plaintext is wiped.
\<close>

definition grant_entry :: "nat \<Rightarrow> string \<Rightarrow> addr \<Rightarrow> nat \<Rightarrow> nat \<Rightarrow> grant act" where
  "grant_entry c i a e serial = (bindA (catchA ((bindA (stillA c e)
       (\<lambda>_. testA c (\<lambda>r s. grant_serial s = serial) E_cancelled [])))
       (\<lambda>x. (bindA (modA (wipe_buffer a))
         (\<lambda>_. raise x))))
    (\<lambda>_. liftA (put_grant_on c i a)))"

definition grant_fields :: "meta \<Rightarrow> string list" where
  "grant_fields m = (if has_password m then [''password''] else []) @ (if has_notes m then [''notes''] else []) @
     (if has_totp m then [''code''] else []) @ (if history_count m \<noteq> 0 then [''history''] else [])"

definition op_grant :: "nat \<Rightarrow> req \<Rightarrow> answer_obj act" where
  "op_grant c q = (bindA (liftR (need_id q))
    (\<lambda>i. bindA (tier1A c)
    (\<lambda>s. bindA (setS c (\<lambda>s. s\<lparr>grant_serial := grant_serial s + 1\<rparr>))
    (\<lambda>_. bindA (as_meta_of c i)
    (\<lambda>m. bindA (stillA c (epoch s))
    (\<lambda>_. bindA (testA c (\<lambda>r t. grant_serial t = grant_serial s + 1) E_cancelled [])
    (\<lambda>_. bindA (uidA c)
    (\<lambda>uid. bindA (modA (release_grant uid))
    (\<lambda>_. bindA (sessA c)
    (\<lambda>t. bindA (storeA c (''open_entry'', [A_id i]))
    (\<lambda>v. bindA (as_secrets v)
    (\<lambda>a. bindA (grant_entry c i a (epoch s) (grant_serial t))
    (\<lambda>g. bindA (sessA c)
    (\<lambda>u. ret [(''id'', P_str i), (''expires'', opt_payload P_real (expires_wall g)),
       (''grant_s'', P_int (grant_s (s_settings u))), (''single_use'', P_bool (single_use g)),
       (''fields'', P_list (map P_str (grant_fields m)))]))))))))))))))"

text \<open>The secrets a grant holds now; a wiped grant has none.\<close>

definition secretsA :: "grant \<Rightarrow> secrets act" where
  "secretsA g = (\<lambda>r. case g_secrets g of
      None \<Rightarrow> (Inl X_other, r)
    | Some a \<Rightarrow> (case objs (gheap (gtab r)) a of None \<Rightarrow> (Inl X_other, r) | Some s \<Rightarrow> (Inr s, r)))"

definition notes_body :: "unidb \<Rightarrow> secrets \<Rightarrow> ustr" where
  "notes_body u s = fst (split u (s_notes s))"

definition end_if :: "nat \<Rightarrow> bool \<Rightarrow> unit act" where
  "end_if c ended = (if ended then modA (\<lambda>r. end_grant (c_uid (cobj r c)) r) else ret ())"

definition check_grantA :: "nat \<Rightarrow> string \<Rightarrow> grant act" where
  "check_grantA c i = liftA (\<lambda>r. grant_check (c_uid (cobj r c)) i r)"

definition use_grantA :: "nat \<Rightarrow> string \<Rightarrow> (grant \<times> bool) act" where
  "use_grantA c i = liftA (\<lambda>r. grant_use (c_uid (cobj r c)) i r)"

text \<open>A field of the request that must be one of the names given.\<close>

definition name_in :: "string list \<Rightarrow> ustr \<Rightarrow> string option" where
  "name_in names t = find (\<lambda>n. ascii n = t) names"

definition op_reveal :: "nat \<Rightarrow> req \<Rightarrow> answer_obj act" where
  "op_reveal c q = (bindA (liftR (need_id q))
    (\<lambda>i. bindA (liftR (need_str q ''field''))
    (\<lambda>ft. case name_in REVEAL_FIELDS ft of
       None \<Rightarrow> fail E_invalid [X_field ''field'']
     | Some f \<Rightarrow> (bindA (tier1A c)
       (\<lambda>_. bindA (use_grantA c i)
       (\<lambda>(g, ended). bindA (secretsA g)
       (\<lambda>sec. bindA (getA db)
       (\<lambda>u. bindA (end_if c ended)
       (\<lambda>_. ret [(''id'', P_str i), (''field'', P_str f),
           (''value'', P_text (if f = ''password'' then password sec else notes_body u sec)),
           (''hide_after'', P_int REVEAL_HIDE_AFTER_S)])))))))))"

subsection \<open>Codes\<close>

definition seed_bytes :: "heap \<Rightarrow> seed \<Rightarrow> nat list" where
  "seed_bytes h sd = (case sd of Bytes_seed bs \<Rightarrow> bs | Bytearray_seed b \<Rightarrow> (case bufs h b of None \<Rightarrow> [] | Some bs \<Rightarrow> bs))"

definition seed_of :: "heap \<Rightarrow> secrets \<Rightarrow> nat list option" where
  "seed_of h s = (case totp_secret s of None \<Rightarrow> None
     | Some sd \<Rightarrow> if seed_bytes h sd = [] then None else Some (seed_bytes h sd))"

definition param :: "secrets \<Rightarrow> string \<Rightarrow> int \<Rightarrow> int" where
  "param s k dflt = (case dget (totp_params s) k of None \<Rightarrow> dflt | Some v \<Rightarrow> if v = 0 then dflt else v)"

text \<open>\<^verbatim>\<open>_totp_now\<close>; \<open>None\<close> is the \<^verbatim>\<open>struct.error\<close> of a counter out of range.\<close>

definition totp_now :: "env \<Rightarrow> real \<Rightarrow> heap \<Rightarrow> secrets \<Rightarrow> (ustr \<times> int) option" where
  "totp_now E now h s =
     (let period = param s ''period'' DEFAULT_PERIOD;
          key = Key_bytes (map word_of_nat (case seed_of h s of None \<Rightarrow> [] | Some bs \<Rightarrow> bs)) in
      map_option (\<lambda>v. (v, (\<lfloor>now / of_int period\<rfloor> + 1) * period))
        (code (env_lib E) (env_hmac E) key (nat (param s ''digits'' 6)) period (param s ''algorithm'' 0) now))"

definition totp_nowA :: "env \<Rightarrow> secrets \<Rightarrow> (ustr \<times> int) act" where
  "totp_nowA E s = (bindA (getA (\<lambda>r. totp_now E (wall r) (gheap (gtab r)) s))
    (\<lambda>x. case x of None \<Rightarrow> raise X_other | Some v \<Rightarrow> ret v))"

definition has_seedA :: "secrets \<Rightarrow> string \<Rightarrow> unit act" where
  "has_seedA s fld = (bindA (getA (\<lambda>r. seed_of (gheap (gtab r)) s))
    (\<lambda>x. guardA (x \<noteq> None) E_invalid [X_field fld]))"

definition op_totp :: "env \<Rightarrow> nat \<Rightarrow> req \<Rightarrow> answer_obj act" where
  "op_totp E c q = (bindA (liftR (need_id q))
    (\<lambda>i. bindA (tier1A c)
    (\<lambda>_. bindA (check_grantA c i)
    (\<lambda>g0. bindA (secretsA g0)
    (\<lambda>s0. bindA (has_seedA s0 ''id'')
    (\<lambda>_. bindA (use_grantA c i)
    (\<lambda>(g, ended). bindA (secretsA g)
    (\<lambda>sec. bindA (totp_nowA E sec)
    (\<lambda>(v, till). bindA (end_if c ended)
    (\<lambda>_. ret [(''id'', P_str i), (''code'', P_text v), (''valid_until'', P_int till)]))))))))))"

subsection \<open>History\<close>

definition history_item :: "(ustr \<times> ustr) list \<Rightarrow> ustr \<times> ustr \<times> string option \<Rightarrow> payload" where
  "history_item apple h = (case h of (d, v, src) \<Rightarrow>
     P_obj [(''date'', P_text d), (''value'', P_text v),
       (''source'', P_str (if src = Some ''apple'' \<or> src = Some ''local'' then the src
          else if (d, v) \<in> set apple then ''apple'' else ''local''))])"

definition same_grant :: "nat \<Rightarrow> grant \<Rightarrow> reg \<Rightarrow> bool" where
  "same_grant c g r = (case current_g (c_uid (cobj r c)) (gtab r) of None \<Rightarrow> False | Some h \<Rightarrow> g_ref h = g_ref g)"

definition op_history :: "nat \<Rightarrow> req \<Rightarrow> answer_obj act" where
  "op_history c q = (bindA (liftR (need_id q))
    (\<lambda>i. bindA (tier1A c)
    (\<lambda>_. bindA (use_grantA c i)
    (\<lambda>(g, ended). bindA (secretsA g)
    (\<lambda>sec. bindA (end_if c ended)
    (\<lambda>_. bindA (sessA c)
    (\<lambda>s. bindA (storeA c (''history'', [A_id i]))
    (\<lambda>v. bindA (as_history v)
    (\<lambda>items. bindA (stillA c (epoch s))
    (\<lambda>_. bindA (getA (same_grant c g))
    (\<lambda>same. bindA (guardA (ended \<or> same) E_no_grant [])
    (\<lambda>_. ret [(''id'', P_str i), (''items'', P_list (map (history_item (apple_history sec)) items))]))))))))))))"

subsection \<open>Copying\<close>

definition issue_ticket ::
  "env \<Rightarrow> nat \<Rightarrow> role \<Rightarrow> string \<Rightarrow> string option \<Rightarrow> string option \<Rightarrow> ustr option \<Rightarrow> bool \<Rightarrow>
   (string \<times> json) list \<Rightarrow> reg \<Rightarrow> reg \<times> string" where
  "issue_ticket E c ro why i f v sens ex r =
     (let rq = \<lparr>rq_uid = c_uid (cobj r c), rq_role = ro, rq_purpose = why, rq_conn = c,
          rq_pid = c_pid (cobj r c), rq_start = c_start (cobj r c), rq_id = i, rq_field = f, rq_value = v,
          rq_sensitive = sens, rq_extra = ex\<rparr> in
      case issue (clock r) rq (env_token E) (book r) of
        None \<Rightarrow> (r, [])
      | Some b \<Rightarrow> (r\<lparr>book := b\<rparr>, env_token E))"

definition ticket_reply :: "string \<Rightarrow> answer_obj" where
  "ticket_reply tok = [(''ticket'', P_str tok), (''ttl'', P_real TICKET_TTL_S)]"

text \<open>One offer at a time: a new copy withdraws the previous one.\<close>

definition withdraw_offer :: "nat \<Rightarrow> reg \<Rightarrow> reg" where
  "withdraw_offer c r = (let uid = c_uid (cobj r c) in
     withdraw uid [Clip] (r\<lparr>book := fst (revoke_uid uid (Some Clip) (book r))\<rparr>))"

definition offer :: "env \<Rightarrow> nat \<Rightarrow> string option \<Rightarrow> string \<Rightarrow> ustr \<Rightarrow> bool \<Rightarrow> answer_obj act" where
  "offer E c i f v sens = (bindA (modA (withdraw_offer c))
    (\<lambda>_. bindA (doA (issue_ticket E c Clip ''copy'' i (Some f) (Some v) sens []))
    (\<lambda>tok. ret (ticket_reply tok))))"

definition copied_secret :: "env \<Rightarrow> nat \<Rightarrow> string \<Rightarrow> string \<Rightarrow> ustr act" where
  "copied_secret E c i f = (bindA (check_grantA c i)
    (\<lambda>g. bindA (secretsA g)
    (\<lambda>sec. bindA (getA db)
    (\<lambda>u. bindA ((if f = ''code'' then (bindA (has_seedA sec ''field'')
       (\<lambda>_. bindA (totp_nowA E sec)
       (\<lambda>(x, t). ret x)))
           else if f = ''password'' then ret (password sec) else ret (notes_body u sec)))
    (\<lambda>v. bindA (use_grantA c i)
    (\<lambda>(g', ended). bindA (end_if c ended)
    (\<lambda>_. ret v)))))))"

definition copied_meta :: "nat \<Rightarrow> string \<Rightarrow> string \<Rightarrow> ustr act" where
  "copied_meta c i f = (bindA (sessA c)
    (\<lambda>s. bindA (as_meta_of c i)
    (\<lambda>m. bindA (stillA c (epoch s))
    (\<lambda>_. ret (if f = ''username'' then username m else domain m)))))"

definition op_copy :: "env \<Rightarrow> nat \<Rightarrow> req \<Rightarrow> answer_obj act" where
  "op_copy E c q = (bindA (liftR (need_id q))
    (\<lambda>i. bindA (liftR (need_str q ''field''))
    (\<lambda>ft. case name_in COPY_FIELDS ft of
       None \<Rightarrow> fail E_invalid [X_field ''field'']
     | Some f \<Rightarrow> (bindA (tier1A c)
       (\<lambda>_. bindA ((if f \<in> set COPY_FIELDS_NEED_GRANT then copied_secret E c i f else copied_meta c i f))
       (\<lambda>v. offer E c (Some i) f v (f \<in> set COPY_FIELDS_NEED_GRANT)))))))"

text \<open>At most ten copies of selected text in a minute.\<close>

definition copy_slot :: "nat \<Rightarrow> reg \<Rightarrow> reg \<times> (op_error + unit)" where
  "copy_slot c r =
     (let uid = c_uid (cobj r c) in case get_s uid r of
        None \<Rightarrow> (r, Inl (OpError E_internal []))
      | Some s \<Rightarrow>
          (let times = recent (clock r) (copy_texts s) in
           if length times \<ge> COPY_TEXT_PER_MIN
           then (upd_s uid (\<lambda>s. s\<lparr>copy_texts := times\<rparr>) r,
                 Inl (OpError E_rate_limited [X_retry_after (retry_after (clock r) times)]))
           else (upd_s uid (\<lambda>s. s\<lparr>copy_texts := times @ [clock r]\<rparr>) r, Inr ())))"

definition copy_text_id :: "req \<Rightarrow> string \<Rightarrow> op_error + string option" where
  "copy_text_id q src =
     (if src \<in> set COPY_TEXT_SOURCES_GRANT then bindE (need_id q) (\<lambda>i. Inr (Some i))
      else if jget q ''id'' \<noteq> None then invalid ''id'' else Inr None)"

definition op_copy_text :: "env \<Rightarrow> nat \<Rightarrow> req \<Rightarrow> answer_obj act" where
  "op_copy_text E c q = (bindA (liftR (need_str q ''source''))
    (\<lambda>source. bindA (liftR (need_str q ''text''))
    (\<lambda>txt. bindA (tier1A c)
    (\<lambda>_. case name_in (COPY_TEXT_SOURCES_GRANT @ COPY_TEXT_SOURCES_CREATE) source of
       None \<Rightarrow> fail E_invalid [X_field ''source'']
     | Some src \<Rightarrow> (bindA (liftR (copy_text_id q src))
       (\<lambda>i. bindA (getA (\<lambda>r. unfc (db r) txt))
       (\<lambda>t. bindA (guardA (1 \<le> length t \<and> length t \<le> COPY_TEXT_MAX \<and> 0 \<notin> set t) E_invalid [X_field ''text''])
       (\<lambda>_. bindA ((case i of None \<Rightarrow> ret () | Some j \<Rightarrow> (bindA (check_grantA c j)
           (\<lambda>_. ret ()))))
       (\<lambda>_. bindA (liftA (copy_slot c))
       (\<lambda>_. offer E c i ''text'' t True))))))))))"

subsection \<open>They keep the registry's invariant\<close>

lemmas [moves_intros] = act_moves_lift

lemma act_moves_try [moves_intros]:
  assumes "act_moves m" and "\<And>e. act_moves (h e)" and "\<And>x. act_moves (k x)"
  shows "act_moves (tryA m h k)"
  by (rule act_movesI, subst tryA_def)
    (auto split: prod.splits sum.splits intro: act_moves_step act_movesD assms)

text \<open>The continuation may use what the first part established.\<close>

lemma act_moves_bind_post:
  assumes "act_moves m" and "\<And>r x r1. m r = (Inr x, r1) \<Longrightarrow> rinv r \<Longrightarrow> rinv r1 \<Longrightarrow> moves r1 (snd (k x r1))"
  shows "act_moves (bindA m k)"
proof (rule act_movesI)
  fix r
  obtain res r1 where m: "m r = (res, r1)" by fastforce
  have mv: "moves r r1" by (rule act_movesD [OF assms(1) m])
  have "moves r (snd (k x r1))" if "res = Inr x" for x
  proof (cases "rinv r")
    case True
    then have "rinv r1" using mv by (simp add: moves_def)
    with assms(2) m that True have "moves r1 (snd (k x r1))" by blast
    with mv show ?thesis by (rule moves_trans)
  qed (simp add: moves_def)
  with mv show "moves r (snd (bindA m k r))" by (cases res) (simp_all add: bindA_def m)
qed

lemma testA_Inr: "testA c P e xs r = (Inr u, r') \<longleftrightarrow>
    r' = r \<and> (\<exists>s. get_s (c_uid (cobj r c)) r = Some s \<and> P r s)"
  by (auto simp: testA_def bindA_def sessA_def getA_def guardA_def ret_def raise_def split: option.splits)

lemma stillA_Inr: "stillA c e r = (Inr u, r') \<longleftrightarrow>
    r' = r \<and> (\<exists>s. get_s (c_uid (cobj r c)) r = Some s \<and> epoch s = e \<and> unlocked r s \<and> tier1 s = Some c)"
  unfolding stillA_def testA_Inr by (auto simp: open_on_def)

lemma sessA_Inr: "sessA c r = (Inr s, r') \<longleftrightarrow> r' = r \<and> get_s (c_uid (cobj r c)) r = Some s"
  by (auto simp: sessA_def split: option.splits)

lemma tier1A_Inr: "tier1A c r = (Inr s, r') \<longleftrightarrow>
    r' = r \<and> get_s (c_uid (cobj r c)) r = Some s \<and> unlocked r s \<and> tier1 s = Some c"
  by (auto simp: tier1A_def testA_def bindA_def sessA_def getA_def guardA_def ret_def raise_def open_on_def
      split: option.splits)

lemma not_locked_since_Inr: "not_locked_since c e r = (Inr u, r') \<longleftrightarrow>
    r' = r \<and> (\<exists>s. get_s (c_uid (cobj r c)) r = Some s \<and> epoch s = e \<and> \<not> c_closed (cobj r c) \<and> s_ui s = Some c)"
  by (auto simp: not_locked_since_def bindA_def sessA_def getA_def modA_def raise_def ret_def
      split: option.splits)

lemma moves_open_tier1:
  "get_s uid r = Some s \<Longrightarrow> s_ui s = Some c \<Longrightarrow> moves r (open_tier1 uid c all r)"
  by (rule keeps_moves) (rule keeps_open_tier1)

lemma act_moves_unlocked_reply [moves_intros]: "act_moves (unlocked_reply c)" "act_moves (sync_after_reply c)"
  "act_moves (tpm_available c)"
  unfolding unlocked_reply_def sync_after_reply_def tpm_available_def by (intro moves_intros)+

lemma open_unless_locked_moves:
  assumes "get_s (c_uid (cobj r c)) r = Some s" and "s_ui s = Some c"
  shows "moves r (snd (open_unless_locked c e all r))"
proof -
  have "moves r (wipe_store uid r)" for uid by (rule moves_intros)
  then show ?thesis
    using assms moves_open_tier1 [OF assms]
    by (simp add: open_unless_locked_def bindA_def sessA_def getA_def modA_def raise_def)
qed

lemma act_moves_unlock_opened [moves_intros]: "act_moves (unlock_opened c all e)"
  unfolding unlock_opened_def
proof (rule act_moves_bind_post)
  fix r u r1
  assume "not_locked_since c e r = (Inr u, r1)" and r: "rinv r1"
  then obtain s where s: "get_s (c_uid (cobj r1 c)) r1 = Some s" "epoch s = e" "s_ui s = Some c"
    by (auto simp: not_locked_since_Inr)
  let ?rest = "\<lambda>tpm. bindA (open_unless_locked c e all)
    (\<lambda>_. bindA (unlocked_reply c) (\<lambda>rep. bindA (sync_after_reply c)
      (\<lambda>_. ret (rep @ [(''tpm_move'', P_bool tpm)]))))"
  obtain res r2 where t: "tpm_available c r1 = (res, r2)" by fastforce
  have m12: "moves r1 r2" by (rule act_movesD [OF act_moves_unlocked_reply(3) t])
  have ids: "c_uid (cobj r2 c) = c_uid (cobj r1 c)"
    using movesD(2) [OF m12 r] by (simp add: same_ids_def)
  obtain s2 where s2: "get_s (c_uid (cobj r2 c)) r2 = Some s2" "session_moves r2 s s2"
    using movesD(4) [OF m12 r s(1)] ids by auto
  have rest: "moves r2 (snd (?rest tpm r2))" for tpm
  proof (cases "epoch s2 = e \<and> \<not> c_closed (cobj r2 c)")
    case True
    then have "s_ui s2 = Some c" using s2(2) s(2,3) by (simp add: session_moves_def)
    note om = open_unless_locked_moves [OF s2(1) this, of e all]
    obtain res3 r3 where o: "open_unless_locked c e all r2 = (res3, r3)" by fastforce
    have "act_moves (bindA (unlocked_reply c) (\<lambda>rep. bindA (sync_after_reply c)
      (\<lambda>_. ret (rep @ [(''tpm_move'', P_bool tpm)]))))" by (intro moves_intros)
    then have "moves r3 (snd (bindA (unlocked_reply c) (\<lambda>rep. bindA (sync_after_reply c)
      (\<lambda>_. ret (rep @ [(''tpm_move'', P_bool tpm)]))) r3))" by (simp add: act_moves_def)
    with om show ?thesis
      by (cases res3) (auto simp: bindA_def [of "open_unless_locked c e all"] o intro: moves_trans)
  next
    case False
    then have "open_unless_locked c e all r2 = (Inl (X_op (OpError E_cancelled [])), wipe_store (c_uid (cobj r2 c)) r2)"
      using s2(1) by (auto simp: open_unless_locked_def bindA_def sessA_def getA_def modA_def raise_def)
    then show ?thesis by (simp add: bindA_def moves_intros)
  qed
  show "moves r1 (snd (bindA (tpm_available c) ?rest r1))"
    using m12 moves_trans [OF m12 rest]
    by (cases res) (simp_all add: bindA_def [of "tpm_available c"] t)
qed (intro moves_intros)

lemma act_moves_edits [moves_intros]: "act_moves (manage c)" "act_moves m \<Longrightarrow> act_moves (editing c m)"
proof -
  show "act_moves (manage c)" unfolding manage_def by (intro moves_intros)
  have "act_moves (setS c (\<lambda>s. s\<lparr>busy := b\<rparr>))" for b by (rule act_moves_setS) (auto simp: sess_ok_def)
  then show "act_moves (editing c m)" if "act_moves m"
    unfolding editing_def using that by (intro moves_intros)
qed

lemma moves_reopen: "moves r (fst (reopen c all r))"
proof -
  have "moves r (upd_s u (\<lambda>s. s\<lparr>show_all := all\<rparr>) r)" if "get_s u r = Some s" "tier1 s \<noteq> None" for u s
  proof -
    have "rinv (upd_s u (\<lambda>s. s\<lparr>show_all := all\<rparr>) r)" if "rinv r"
      by (rule rinv_upd_s [OF that]) (use \<open>get_s u r = Some s\<close> \<open>tier1 s \<noteq> None\<close> in \<open>auto simp: sess_ok_def\<close>)
    then show ?thesis
      by (auto simp: moves_def sessions_move_def same_ids_def session_moves_def)
  qed
  then show ?thesis by (auto simp: reopen_def open_on_def split: option.splits)
qed

lemma act_moves_unlock [moves_intros]: "act_moves (op_unlock c q)"
proof -
  note 1 = moves_reopen
  have 2: "act_moves (unlock_refused x)" for x
    by (simp add: unlock_refused_def act_moves_simple split: exn.splits op_error.splits)
  have 4: "act_moves (unlock_error x)" for x
    unfolding unlock_error_def by (cases x; cases "store_error x") (simp_all add: act_moves_simple)
  have 3: "act_moves (unlock_approved c all)" for all
    unfolding unlock_approved_def by (intro moves_intros 4)
  show ?thesis unfolding op_unlock_def by (intro moves_intros 1 2 3)
qed

lemma act_moves_tier_ops [moves_intros]:
  "act_moves (op_tpm_move c q)" "act_moves (op_lock c q)" "act_moves (op_release c q)" "act_moves (op_cancel c q)"
proof -
  have "moves r (fst (cancel_signin_of c n r))" for n r
    by (auto simp: cancel_signin_of_def sess_ok_def split: option.splits intro!: moves_upd_s)
  then show "act_moves (op_cancel c q)" unfolding op_cancel_def by (intro moves_intros)
qed (unfold op_tpm_move_def op_lock_def op_release_def; intro moves_intros)+

lemma moves_gtab:
  "(\<And>u g. dget (grants t) u = Some g \<Longrightarrow> \<exists>g'. dget (grants (gtab r)) u = Some g') \<Longrightarrow> moves r (r\<lparr>gtab := t\<rparr>)"
proof -
  assume g: "\<And>u g. dget (grants t) u = Some g \<Longrightarrow> \<exists>g'. dget (grants (gtab r)) u = Some g'"
  have "rinv (r\<lparr>gtab := t\<rparr>)" if "rinv r"
    by (rule rinv_cong [OF that]) (use g in \<open>auto simp: same_ids_def get_s_def\<close>)
  then show ?thesis by (auto simp: moves_def sessions_move_def same_ids_def get_s_def)
qed

lemma grants_gtab_check_use:
  "dget (grants (fst (check_g n uid i t))) u = Some g \<Longrightarrow> \<exists>g'. dget (grants t) u = Some g'"
  "dget (grants (fst (use_g n uid i t))) u = Some g \<Longrightarrow> \<exists>g'. dget (grants t) u = Some g'"
proof -
  show 1: "\<exists>g'. dget (grants t) u = Some g'" if "dget (grants (fst (check_g n uid i t))) u = Some g" for g
    using that by (auto simp: grants_check split: if_splits option.splits)
  show "\<exists>g'. dget (grants t) u = Some g'" if "dget (grants (fst (use_g n uid i t))) u = Some g"
  proof (cases "check_g n uid i t")
    case (Pair t1 res)
    have old: "\<exists>g'. dget (grants t) u = Some g'" if "dget (grants t1) u = Some g" for g
      using 1 [of g] that Pair by simp
    have "\<exists>g'. dget (grants t) uid = Some g'" if "res = Inr h" for h
      using Pair that by (auto simp: check_g_def Let_def split: option.splits if_splits)
    with Pair \<open>dget (grants (fst (use_g n uid i t))) u = Some g\<close> old show ?thesis
      by (cases res) (auto simp: use_g_def Let_def split: if_splits)
  qed
qed

lemma act_moves_grants [moves_intros]:
  "act_moves (check_grantA c i)" "act_moves (use_grantA c i)" "act_moves (end_if c b)" "act_moves (secretsA g)"
  "act_moves (as_meta_of c i)" "moves r (wipe_buffer a r)"
proof -
  have 1: "moves r (fst (grant_check uid i r))" "moves r (fst (grant_use uid i r))" for uid r
    by (auto simp: grant_check_def grant_use_def Let_def split_beta
        intro!: moves_trans [OF moves_keeps0(9) moves_gtab] dest: grants_gtab_check_use)
  show "act_moves (check_grantA c i)" "act_moves (use_grantA c i)"
    unfolding check_grantA_def use_grantA_def by (intro moves_intros 1)+
  show "act_moves (end_if c b)" unfolding end_if_def by (intro moves_intros)
  show "act_moves (secretsA g)"
    by (auto simp: act_moves_def secretsA_def split: option.splits)
  show "act_moves (as_meta_of c i)" unfolding as_meta_of_def by (intro moves_intros)
  show "moves r (wipe_buffer a r)" unfolding wipe_buffer_def by (rule moves_gtab) auto
qed

lemma act_moves_grant_entry [moves_intros]: "act_moves (grant_entry c i a e serial)"
  unfolding grant_entry_def
proof (rule act_moves_bind_post)
  fix r u r1
  assume "catchA (bindA (stillA c e) (\<lambda>_. testA c (\<lambda>r s. grant_serial s = serial) E_cancelled []))
       (\<lambda>x. bindA (modA (wipe_buffer a)) (\<lambda>_. raise x)) r = (Inr u, r1)"
  then obtain s where "get_s (c_uid (cobj r1 c)) r1 = Some s" "tier1 s \<noteq> None"
    by (auto simp: catchA_def bindA_def modA_def raise_def stillA_Inr testA_Inr
        split: prod.splits sum.splits if_splits)
  moreover assume "rinv r1"
  ultimately have "moves r1 (fst (put_grant_on c i a r1))"
    using rinvD(2) by (auto simp: put_grant_on_def split_beta sess_ok_def intro!: keeps_moves keeps_put_grant)
  then show "moves r1 (snd (liftA (put_grant_on c i a) r1))"
    by (simp add: liftA_def split_beta split: sum.splits)
qed (intro moves_intros)

lemma moves_offer [moves_intros]: "moves r (withdraw_offer c r)"
  "moves r (fst (issue_ticket E c ro why i f v sens ex r))"
  unfolding withdraw_offer_def issue_ticket_def Let_def
  by (auto split: option.splits intro: moves_intros moves_trans [OF moves_keeps0(12) moves_keeps0(10)])

lemma act_moves_totp [moves_intros]: "act_moves (totp_nowA E s)" "act_moves (has_seedA s f)"
  unfolding totp_nowA_def has_seedA_def by (intro moves_intros)+

lemma act_moves_copy [moves_intros]: "act_moves (copied_secret E c i f)" "act_moves (copied_meta c i f)"
  "act_moves (offer E c j f v b)"
  unfolding copied_secret_def copied_meta_def offer_def by (intro moves_intros)+

lemma length_recent: "length (recent now q) \<le> length q"
  by (simp add: recent_def length_dropWhile_le)

lemma moves_copy_slot [moves_intros]: "moves r (fst (copy_slot c r))"
proof -
  have "moves r (upd_s uid (\<lambda>s. s\<lparr>copy_texts := ts\<rparr>) r)" if "length ts \<le> COPY_TEXT_PER_MIN" for ts uid r
    using that by (intro moves_upd_s) (auto simp: sess_ok_def)
  moreover have "moves r (upd_s uid (\<lambda>s. s\<lparr>copy_texts := recent n (copy_texts t)\<rparr>) r)"
    if "get_s uid r = Some t" for n t uid
  proof (cases "rinv r")
    case True
    from rinvD(2) [OF True that] have "length (copy_texts t) \<le> COPY_TEXT_PER_MIN" by (simp add: sess_ok_def)
    from le_trans [OF length_recent this] show ?thesis
      by (intro moves_upd_s) (auto simp: sess_ok_def)
  qed (simp add: moves_def)
  ultimately show ?thesis by (auto simp: copy_slot_def Let_def split: option.splits)
qed

lemma act_moves_entry_ops [moves_intros]:
  "act_moves (op_grant c q)" "act_moves (op_reveal c q)" "act_moves (op_totp E c q)" "act_moves (op_history c q)"
  "act_moves (op_copy E c q)" "act_moves (op_copy_text E c q)"
proof -
  have "act_moves (setS c (\<lambda>s. s\<lparr>grant_serial := grant_serial s + 1\<rparr>))"
    by (rule act_moves_setS) (auto simp: sess_ok_def)
  then show "act_moves (op_grant c q)" unfolding op_grant_def by (intro moves_intros)
qed (unfold op_reveal_def op_totp_def op_history_def op_copy_def op_copy_text_def; intro moves_intros)+

end
