(* ===== verification/EditOps.thy ===== *)
theory EditOps
  imports WindowOps
begin

text \<open>
  The window's operations that change something: edits, sign-in, settings, a new store, and the
  tickets of the import. \<^verbatim>\<open>op_set\<close> to \<^verbatim>\<open>op_clip_history_check\<close> of
  \<^verbatim>\<open>backend/icp/daemon/handlers.py\<close>.
\<close>

subsection \<open>Editing an entry\<close>

definition read_only :: "meta \<Rightarrow> bool" where
  "read_only m \<longleftrightarrow> recently_deleted m \<or> m_kind m = ''passkey''"

definition WIFI :: ustr where "WIFI = ascii ''AirPort''"

text \<open>A Wi-Fi network has nowhere to keep these.\<close>

definition wifi_refuses :: "meta \<Rightarrow> (string \<times> field_value) list \<Rightarrow> string option" where
  "wifi_refuses m clean =
     (if domain m = WIFI then find (\<lambda>k. dget clean k \<noteq> None) [''tags'', ''notes'', ''sites'', ''totp''] else None)"

definition is_rename :: "(string \<times> field_value) list \<Rightarrow> bool" where
  "is_rename clean \<longleftrightarrow> fst ` set clean = {''nickname''}"

definition new_name :: "(string \<times> field_value) list \<Rightarrow> ustr" where
  "new_name clean = (case dget clean ''nickname'' of Some (F_text t) \<Rightarrow> t | _ \<Rightarrow> [])"

definition namesA :: "nat \<Rightarrow> (string \<times> ustr) list act" where
  "namesA c = (bindA (storeA c (''load_nicknames'', []))
    (\<lambda>v. as_names v))"

definition set_local_name :: "nat \<Rightarrow> string \<Rightarrow> ustr \<Rightarrow> unit act" where
  "set_local_name c i n = (bindA (namesA c)
    (\<lambda>d. bindA (storeA c (''save_nicknames'', [A_names (if n \<noteq> [] then dset i n d else ddel i d)]))
    (\<lambda>_. ret ())))"

text \<open>The edit itself: what was pushed and whether iCloud has it.\<close>

definition push_edit :: "nat \<Rightarrow> string \<Rightarrow> (string \<times> field_value) list \<Rightarrow> ((string \<times> field_value) list \<times> bool) act" where
  "push_edit c i clean = (bindA (statusA c)
    (\<lambda>st. if is_rename clean \<and> \<not> st_signed_in st then (bindA (set_local_name c i (new_name clean))
       (\<lambda>_. ret ([], False)))
     else if clean = [] then ret ([], True)
     else (bindA (apple_call c (''apple.push_set'', [A_id i, A_fields clean]))
       (\<lambda>_. if is_rename clean \<and> new_name clean \<noteq> [] then (bindA (namesA c)
         (\<lambda>d. ret (clean, dget d i = None)))
       else ret (clean, True)))))"

text \<open>The grant's buffer is exchanged for the fresh one, and the loser is wiped.\<close>

definition refresh_grant :: "nat \<Rightarrow> nat \<Rightarrow> grant \<Rightarrow> addr \<Rightarrow> reg \<Rightarrow> reg" where
  "refresh_grant c e g a r =
     (let uid = c_uid (cobj r c) in
      case (get_s uid r, current_g uid (gtab r)) of
        (Some s, Some h) \<Rightarrow>
          if g_ref h = g_ref g \<and> epoch s = e
          then (let r1 = r\<lparr>gtab := (gtab r)\<lparr>grants := dset uid (h\<lparr>g_secrets := Some a\<rparr>) (grants (gtab r))\<rparr>\<rparr> in
                case g_secrets h of None \<Rightarrow> r1 | Some b \<Rightarrow> wipe_buffer b r1)
          else wipe_buffer a r
      | _ \<Rightarrow> wipe_buffer a r)"

definition after_edit :: "nat \<Rightarrow> string \<Rightarrow> nat \<Rightarrow> grant \<Rightarrow> bool \<Rightarrow> (string \<times> field_value) list \<Rightarrow> unit act" where
  "after_edit c i e g ended push =
     (if ended then end_if c True
      else (bindA (getA (\<lambda>r. push \<noteq> [] \<and> \<not> is_rename push \<and> same_grant c g r \<and>
          (case get_s (c_uid (cobj r c)) r of None \<Rightarrow> False | Some s \<Rightarrow> epoch s = e)))
        (\<lambda>live. if \<not> live then ret ()
        else (bindA (storeA c (''open_entry'', [A_id i]))
          (\<lambda>v. bindA (as_secrets v)
          (\<lambda>a. modA (refresh_grant c e g a)))))))"

definition op_set :: "env \<Rightarrow> nat \<Rightarrow> req \<Rightarrow> answer_obj act" where
  "op_set E c q = (bindA (liftR (need_id q))
    (\<lambda>i. bindA (liftR (need_dict q ''fields''))
    (\<lambda>fds. bindA (getA db)
    (\<lambda>u. bindA (liftR (validate_fields u (env_lib E) (env_made E) fds (jget q ''generate'') SET_FIELDS))
    (\<lambda>clean. bindA (tier1A c)
    (\<lambda>s. bindA (check_grantA c i)
    (\<lambda>_. bindA (as_meta_of c i)
    (\<lambda>m. bindA (stillA c (epoch s))
    (\<lambda>_. bindA (guardA (\<not> read_only m) E_invalid [X_field ''id''])
    (\<lambda>_. bindA ((case wifi_refuses m clean of None \<Rightarrow> ret () | Some k \<Rightarrow> fail E_invalid [X_field k]))
    (\<lambda>_. bindA (check_grantA c i)
    (\<lambda>_. bindA (idleA c)
    (\<lambda>_. bindA (use_grantA c i)
    (\<lambda>(g, ended). bindA (editing c (push_edit c i clean))
    (\<lambda>(push, synced). bindA (after_edit c i (epoch s) g ended push)
    (\<lambda>_. bindA (notify_list_after c None)
    (\<lambda>_. ret [(''id'', P_str i), (''synced'', P_bool synced)])))))))))))))))))"

definition created_id :: "meta answer_value \<Rightarrow> string option" where
  "created_id v = (case v of V_str t \<Rightarrow> Some t | _ \<Rightarrow> None)"

definition op_create :: "env \<Rightarrow> nat \<Rightarrow> req \<Rightarrow> answer_obj act" where
  "op_create E c q = (bindA (liftR (need_dict q ''fields''))
    (\<lambda>fds. bindA (getA db)
    (\<lambda>u. bindA (liftR (validate_fields u (env_lib E) (env_made E) fds (jget q ''generate'') CREATE_FIELDS))
    (\<lambda>clean. bindA (guardA (dget clean ''password'' \<noteq> None) E_invalid [X_field ''password''])
    (\<lambda>_. bindA (tier1A c)
    (\<lambda>_. bindA (idleA c)
    (\<lambda>_. bindA (manage c)
    (\<lambda>_. bindA (editing c (apple_call c (''apple.create'', [A_fields clean])))
    (\<lambda>v. case created_id v of
       Some t \<Rightarrow> (bindA (setS c (\<lambda>s. s\<lparr>created_ids := created_ids s @ [t]\<rparr>))
         (\<lambda>_. bindA (notify_list_after c (Some t))
         (\<lambda>_. ret [(''id'', P_str t)])))
     | None \<Rightarrow> (bindA (notify_list_after c None)
       (\<lambda>_. ret [(''id'', P_null)])))))))))))"

definition op_delete :: "nat \<Rightarrow> req \<Rightarrow> answer_obj act" where
  "op_delete c q = (bindA (liftR (need_id q))
    (\<lambda>i. bindA (tier1A c)
    (\<lambda>_. bindA (as_meta_of c i)
    (\<lambda>m. bindA (guardA (\<not> read_only m) E_invalid [X_field ''id''])
    (\<lambda>_. bindA (guardA (domain m \<noteq> WIFI) E_invalid [X_field ''id''])
    (\<lambda>_. bindA (idleA c)
    (\<lambda>_. bindA (manage c)
    (\<lambda>_. bindA (editing c (apple_call c (''apple.delete'', [A_id i])))
    (\<lambda>_. bindA (getA (\<lambda>r. case current_g (c_uid (cobj r c)) (gtab r) of None \<Rightarrow> False | Some g \<Rightarrow> g_id g = i))
    (\<lambda>mine. bindA (if mine then modA (\<lambda>r. release_grant (c_uid (cobj r c)) r) else ret ())
    (\<lambda>_. bindA (notify_list_after c None)
    (\<lambda>_. ret [(''deleted'', P_bool True)]))))))))))))"

definition op_totp_preview :: "env \<Rightarrow> nat \<Rightarrow> req \<Rightarrow> answer_obj act" where
  "op_totp_preview E c q = (bindA (liftR (need_str q ''setup''))
    (\<lambda>setup. bindA (tier1A c)
    (\<lambda>_. bindA (guardA (length setup \<le> MAX_SETUP) E_invalid [X_field ''setup''])
    (\<lambda>_. case parse_setup (env_lib E) setup of
       Inl e \<Rightarrow> fail E_invalid [X_field ''setup'']
     | Inr cfg \<Rightarrow> (bindA (getA wall)
       (\<lambda>now. case code (env_lib E) (env_hmac E) (Key_bytes (cfg_secret cfg)) (nat (cfg_digits cfg))
                (cfg_period cfg) (cfg_algorithm cfg) now of
           None \<Rightarrow> raise X_other
         | Some v \<Rightarrow> ret [(''code'', P_text v),
             (''seconds'', P_int (seconds_remaining (cfg_period cfg) now)),
             (''issuer'', P_text (cfg_issuer cfg)), (''account'', P_text (cfg_account cfg))]))))))"

subsection \<open>Signing in and out\<close>

text \<open>Whether the sign-in makes a new store, or why it is refused.\<close>

definition signin_kind :: "nat \<Rightarrow> bool \<Rightarrow> store_status \<Rightarrow> bool act" where
  "signin_kind c login st =
     (if login \<and> st_state st = ''empty'' then ret True
      else (bindA ((if login then migration_pending c else ret False))
        (\<lambda>p. bindA (guardA (\<not> p) E_migration_pending [])
        (\<lambda>_. bindA (testA c (open_on c) E_locked [])
        (\<lambda>_. bindA (if login then guardA (\<not> st_signed_in st) E_invalid [X_field ''mode'']
        else guardA (st_signed_in st) E_not_signed_in [])
        (\<lambda>_. ret False))))))"

definition rid_of :: "req \<Rightarrow> reg \<Rightarrow> int" where
  "rid_of q r = (case request r of Some (d, n) \<Rightarrow> n
     | None \<Rightarrow> (case jget q ''rid'' of Some (JInt n) \<Rightarrow> n | _ \<Rightarrow> 0))"

definition replace_and_open :: "nat \<Rightarrow> call \<Rightarrow> unit act" where
  "replace_and_open c fn = (bindA (replace_store c fn)
    (\<lambda>_. modA (\<lambda>r. open_tier1 (c_uid (cobj r c)) c False r)))"

definition fresh_store :: "nat \<Rightarrow> nat \<Rightarrow> unit act" where
  "fresh_store c e = (bindA (stateA c)
    (\<lambda>st. bindA (guardA (st = ''empty'') E_not_locked [])
    (\<lambda>_. bindA (testA c (\<lambda>r s. epoch s = e) E_cancelled [])
    (\<lambda>_. replace_and_open c (''create'', [])))))"

definition signin_run :: "nat \<Rightarrow> bool \<Rightarrow> bool \<Rightarrow> nat \<Rightarrow> int \<Rightarrow> item_shape option act" where
  "signin_run c login fresh e rid = (bindA (if fresh then fresh_store c e else ret ())
    (\<lambda>_. bindA (stillA c e)
    (\<lambda>_. bindA (setS c (\<lambda>s. s\<lparr>signin := Some (SocketFrontend_init c rid)\<rparr>))
    (\<lambda>_. bindA (apple_call c (if login then ''apple.login'' else ''apple.relogin'', []))
    (\<lambda>v. ret (case v of V_counts cs sy shape \<Rightarrow> shape | _ \<Rightarrow> None))))))"

definition end_signin :: "nat \<Rightarrow> reg \<Rightarrow> reg" where
  "end_signin c r = upd_s (c_uid (cobj r c)) (\<lambda>s. s\<lparr>signin := None, busy := None\<rparr>) r"

definition signin_done :: "nat \<Rightarrow> nat \<Rightarrow> item_shape option \<Rightarrow> answer_obj act" where
  "signin_done c e shape = (bindA (stillA c e)
    (\<lambda>_. bindA (doA (\<lambda>r. keep_shape (c_uid (cobj r c)) e shape r))
    (\<lambda>_. bindA (setS c (\<lambda>s. s\<lparr>next_sync_at := None\<rparr>))
    (\<lambda>_. bindA (notify_list_after c None)
    (\<lambda>_. ret [(''ok'', P_bool True)])))))"

definition op_signin :: "nat \<Rightarrow> req \<Rightarrow> answer_obj act" where
  "op_signin c q = (bindA (liftR (need_str q ''mode''))
    (\<lambda>mode. case name_in [''login'', ''relogin''] mode of
       None \<Rightarrow> fail E_invalid [X_field ''mode'']
     | Some md \<Rightarrow> (bindA (windowA c)
       (\<lambda>_. bindA (idleA c)
       (\<lambda>_. bindA (statusA c)
       (\<lambda>st. bindA (signin_kind c (md = ''login'') st)
       (\<lambda>fresh. bindA (sessA c)
       (\<lambda>s. bindA (authorize c Act_manage [])
       (\<lambda>_. bindA (same_windowA c (epoch s))
       (\<lambda>_. bindA (idleA c)
       (\<lambda>_. bindA (setS c (\<lambda>s. s\<lparr>busy := Some ''signin''\<rparr>))
       (\<lambda>_. bindA (getA (rid_of q))
       (\<lambda>rid. bindA (finallyA (signin_run c (md = ''login'') fresh (epoch s) rid) (end_signin c))
       (\<lambda>shape. signin_done c (epoch s) shape))))))))))))))"

text \<open>The answer reaches the running sign-in of this connection.\<close>

definition answer_signin :: "nat \<Rightarrow> int \<Rightarrow> ustr option \<Rightarrow> bool \<Rightarrow> reg \<Rightarrow> reg \<times> bool" where
  "answer_signin c ask v cancelling r =
     (let uid = c_uid (cobj r c) in
      case get_s uid r of
        None \<Rightarrow> (r, False)
      | Some s \<Rightarrow> (case signin s of
          None \<Rightarrow> (r, False)
        | Some fe \<Rightarrow>
            if fe_conn fe \<noteq> c then (r, False)
            else (let (fe', ok) = fe_answer ask v cancelling fe in
                  (upd_s uid (\<lambda>s. s\<lparr>signin := Some fe'\<rparr>) r, ok))))"

definition op_answer :: "nat \<Rightarrow> req \<Rightarrow> answer_obj act" where
  "op_answer c q = (bindA (liftR (need_int q ''ask_id''))
    (\<lambda>ask. bindA (liftR (need_bool q ''cancel'' (Some False)))
    (\<lambda>cancelling. let v = (case jget q ''value'' of Some (JStr t) \<Rightarrow> Some t | _ \<Rightarrow> None) in
    bindA (guardA (cancelling \<or> v \<noteq> None) E_bad_request [])
    (\<lambda>_. bindA (guardA (case v of None \<Rightarrow> True | Some t \<Rightarrow> length t \<le> MAX_PASSPHRASE) E_invalid [X_field ''value''])
    (\<lambda>_. bindA (sessA c)
    (\<lambda>_. bindA (doA (answer_signin c ask v cancelling))
    (\<lambda>ok. bindA (guardA ok E_invalid [X_field ''ask_id''])
    (\<lambda>_. ret [(''ok'', P_bool True)]))))))))"

definition op_signout :: "nat \<Rightarrow> req \<Rightarrow> answer_obj act" where
  "op_signout c q = (bindA (tier1A c)
    (\<lambda>_. bindA (idleA c)
    (\<lambda>_. bindA (manage c)
    (\<lambda>_. bindA (editing c (apple_call c (''apple.signout'', [])))
    (\<lambda>_. bindA (uidA c)
    (\<lambda>uid. bindA (modA (\<lambda>r. fst (lock uid (Some ''signout'') False r)))
    (\<lambda>_. bindA (modA (after_reply (Notify_after uid (Ev_locked ''signout''))))
    (\<lambda>_. ret [(''signed_out'', P_bool True)]))))))))"

subsection \<open>Sync and settings\<close>

definition skipped :: "string \<Rightarrow> answer_obj act" where
  "skipped why = ret [(''skipped'', P_str why)]"

definition op_sync :: "nat \<Rightarrow> req \<Rightarrow> answer_obj act" where
  "op_sync c q = (bindA (sessA c)
    (\<lambda>s. bindA (getA (\<lambda>r. open_on c r s))
    (\<lambda>op. if \<not> op then skipped ''locked''
     else if busy s \<noteq> None then skipped ''running''
     else (bindA (statusA c)
       (\<lambda>st. if \<not> st_signed_in st then skipped ''signed-out''
       else if st_needs_login st then skipped ''needs-login''
       else (bindA (sync_after_reply c)
         (\<lambda>_. ret [(''queued'', P_bool True)])))))))"

definition settings_json :: "settings \<Rightarrow> (string \<times> json) list" where
  "settings_json s = [(''grant_s'', JInt (grant_s s)), (''idle_lock_s'', JInt (idle_lock_s s)),
     (''clip_timeout_s'', JInt (clip_timeout_s s)), (''window_mode'', JStr (window_mode s))]"

definition bad_setting :: "(string \<times> json) list \<Rightarrow> string option" where
  "bad_setting new = map_option fst (find (\<lambda>(k, v). \<not> (k \<in> set SETTINGS_KEYS \<and> setting_ok k v)) new)"

definition merge_settings :: "(string \<times> json) list \<Rightarrow> settings \<Rightarrow> settings" where
  "merge_settings new s = fold (\<lambda>(k, v). put_setting k v) new s"

definition dict_update :: "(string \<times> json) list \<Rightarrow> (string \<times> json) list \<Rightarrow> (string \<times> json) list" where
  "dict_update d e = fold (\<lambda>(k, v). dset k v) e d"

definition set_settings :: "nat \<Rightarrow> session \<Rightarrow> (string \<times> json) list \<Rightarrow> unit act" where
  "set_settings c s new =
     (case bad_setting new of
        Some k \<Rightarrow> fail E_invalid [X_field (take 64 k)]
      | None \<Rightarrow> (let merged = merge_settings new (s_settings s) in
        bindA (storeA c (''load_settings'', []))
        (\<lambda>v. bindA (as_json v)
        (\<lambda>full. bindA (storeA c (''save_settings'', [A_settings (dict_update (dict_items full) (settings_json merged))]))
        (\<lambda>_. bindA (setS c (\<lambda>s. s\<lparr>s_settings := merged\<rparr>))
        (\<lambda>_. if dget new ''idle_lock_s'' \<noteq> None
          then modA (\<lambda>r. upd_s (c_uid (cobj r c)) (\<lambda>s. s\<lparr>last_ui_request := clock r\<rparr>) r) else ret ()))))))"

definition op_settings :: "nat \<Rightarrow> req \<Rightarrow> answer_obj act" where
  "op_settings c q = (bindA (sessA c)
    (\<lambda>s. bindA ((case jget q ''set'' of
        Some x \<Rightarrow> (bindA (liftR (need_dict q ''set''))
          (\<lambda>new. set_settings c s (dict_items new)))
      | None \<Rightarrow> guardA (jget q ''get'' = Some (JBool True)) E_bad_request []))
    (\<lambda>_. bindA (sessA c)
    (\<lambda>t. ret [(''settings'', payload_of_settings (s_settings t))]))))"

definition op_autofill_enable :: "nat \<Rightarrow> req \<Rightarrow> answer_obj act" where
  "op_autofill_enable c q = (bindA (windowA c)
    (\<lambda>s. bindA (liftR (need_bool q ''enabled'' None))
    (\<lambda>en. bindA (if en \<and> \<not> autofill_enabled s then authorize c Act_manage [] else ret ())
    (\<lambda>_. bindA (save_setting_keys c [(''autofill_enabled'', if en then Some (JBool True) else None)])
    (\<lambda>_. bindA (setS c (\<lambda>s. s\<lparr>autofill_enabled := en\<rparr>))
    (\<lambda>_. bindA (if \<not> en then modA (\<lambda>r. withdraw (c_uid (cobj r c)) [Autofill] r) else ret ())
    (\<lambda>_. bindA (uidA c)
    (\<lambda>uid. bindA (getA (autofill_payload uid en))
    (\<lambda>af. ret [(''autofill'', af)])))))))))"

definition bad_feature :: "(string \<times> json) list \<Rightarrow> string option" where
  "bad_feature new = map_option fst
     (find (\<lambda>(k, v). \<not> (k \<in> set FEATURES \<and> (case v of JBool b \<Rightarrow> True | _ \<Rightarrow> False))) new)"

definition put_feature :: "string \<times> json \<Rightarrow> features \<Rightarrow> features" where
  "put_feature kv f = (case snd kv of
      JBool b \<Rightarrow> if fst kv = ''passkeys'' then f\<lparr>passkeys := b\<rparr>
                else if fst kv = ''apple_deleted'' then f\<lparr>apple_deleted := b\<rparr> else f
    | _ \<Rightarrow> f)"

definition features_json :: "features \<Rightarrow> json" where
  "features_json f = JObj [(''passkeys'', JBool (passkeys f)), (''apple_deleted'', JBool (apple_deleted f))]"

definition set_features :: "nat \<Rightarrow> features \<Rightarrow> unit act" where
  "set_features c merged = (bindA (sessA c)
    (\<lambda>s. bindA (authorize c Act_manage [])
    (\<lambda>_. bindA (same_windowA c (epoch s))
    (\<lambda>_. bindA (save_setting_keys c [(''features'', Some (features_json merged))])
    (\<lambda>_. bindA (setS c (\<lambda>s. s\<lparr>s_features := merged\<rparr>))
    (\<lambda>_. bindA (sessA c)
    (\<lambda>t. bindA (getA (\<lambda>r. open_on c r t))
    (\<lambda>op. if op then notify_list_after c None else ret ()))))))))"

definition op_features :: "nat \<Rightarrow> req \<Rightarrow> answer_obj act" where
  "op_features c q = (bindA (windowA c)
    (\<lambda>s. bindA ((case jget q ''set'' of
        None \<Rightarrow> guardA (jget q ''get'' = Some (JBool True)) E_bad_request []
      | Some x \<Rightarrow> (bindA (liftR (need_dict q ''set''))
        (\<lambda>new. case bad_feature (dict_items new) of
            Some k \<Rightarrow> fail E_invalid [X_field (take 64 k)]
          | None \<Rightarrow> (let merged = fold put_feature (dict_items new) (s_features s) in
              if merged \<noteq> s_features s then set_features c merged else ret ())))))
    (\<lambda>_. bindA (sessA c)
    (\<lambda>t. ret [(''features'', payload_of_features (s_features t))]))))"

definition shape_item :: "(ustr \<times> ustr) \<times> int \<times> ustr list \<times> ustr list \<Rightarrow> payload" where
  "shape_item x = (case x of ((cls, agrp), n, ks, inner) \<Rightarrow> P_obj [(''class'', P_text cls), (''agrp'', P_text agrp),
     (''count'', P_int n), (''keys'', P_list (map P_text (sort ks))),
     (''inner_keys'', P_list (map P_text (sort inner)))])"

definition op_diag_items :: "nat \<Rightarrow> req \<Rightarrow> answer_obj act" where
  "op_diag_items c q = (bindA (tier1A c)
    (\<lambda>s. bindA (authorize c Act_manage [])
    (\<lambda>_. bindA (stillA c (epoch s))
    (\<lambda>_. bindA (sessA c)
    (\<lambda>t. case s_shape t of
       None \<Rightarrow> ret [(''available'', P_bool False), (''items'', P_list [])]
     | Some sh \<Rightarrow> ret [(''available'', P_bool True), (''items'', P_list (map shape_item (sort_key fst sh)))])))))"

subsection \<open>Migration, reset, the old copy\<close>

definition OPENS :: "string list" where
  "OPENS = [''locked'', ''unlocked'']"

text \<open>Recording or dropping the pending import, and opening tier 1 on the new store.\<close>

definition open_if_same :: "nat \<Rightarrow> nat \<Rightarrow> unit act" where
  "open_if_same c e = (bindA (not_locked_since c e)
    (\<lambda>_. modA (\<lambda>r. open_tier1 (c_uid (cobj r c)) c False r)))"

definition open_new_store :: "nat \<Rightarrow> nat \<Rightarrow> json option \<Rightarrow> unit act" where
  "open_new_store c e mk = (bindA (catch_op (save_setting_keys c [(''migration_pending'', mk)]))
    (\<lambda>_. open_if_same c e))"

definition op_migrate_begin :: "env \<Rightarrow> nat \<Rightarrow> req \<Rightarrow> answer_obj act" where
  "op_migrate_begin E c q = (bindA (windowA c)
    (\<lambda>_. bindA (stateA c)
    (\<lambda>st. bindA ((if st = ''empty'' then ret False
               else (bindA (migration_pending c)
                 (\<lambda>p. if p then ret True else holds_nothing c))))
    (\<lambda>retry. bindA (guardA (st = ''empty'' \<or> retry) E_not_locked [])
    (\<lambda>_. bindA (refuse_certain_seal_refusal c)
    (\<lambda>_. bindA (sessA c)
    (\<lambda>s. bindA (authorize c Act_manage [])
    (\<lambda>_. bindA (same_windowA c (epoch s))
    (\<lambda>_. bindA (sessA c)
    (\<lambda>t. bindA (getA (\<lambda>r. unlocked r t))
    (\<lambda>op. bindA (if op then modA (\<lambda>r. fst (lock (c_uid (cobj r c)) None False r)) else ret ())
    (\<lambda>_. bindA (replace_store c (if retry then (''reset'', [A_flag (st \<in> set OPENS)]) else (''create'', [])))
    (\<lambda>e. bindA (setS c (\<lambda>s. s\<lparr>migrating := True\<rparr>))
    (\<lambda>_. bindA (open_new_store c e (Some (JBool True)))
    (\<lambda>_. bindA (doA (issue_ticket E c Migrate ''import'' None None None False []))
    (\<lambda>tok. ret (ticket_reply tok)))))))))))))))))"

definition op_migrate_abandon :: "nat \<Rightarrow> req \<Rightarrow> answer_obj act" where
  "op_migrate_abandon c q = (bindA (windowA c)
    (\<lambda>_. bindA (stateA c)
    (\<lambda>st. bindA ((if st = ''empty'' then ret False else migration_pending c))
    (\<lambda>pending. bindA (if \<not> pending then ret ()
     else (bindA (modA (\<lambda>r. withdraw (c_uid (cobj r c)) [Migrate] r))
       (\<lambda>_. bindA (setS c (\<lambda>s. s\<lparr>migrating := False\<rparr>))
       (\<lambda>_. save_setting_keys c [(''migration_pending'', None)]))))
    (\<lambda>_. ret [(''migration_pending'', P_bool False)])))))"

definition op_reset :: "nat \<Rightarrow> req \<Rightarrow> answer_obj act" where
  "op_reset c q = (bindA (windowA c)
    (\<lambda>_. bindA (resettable c)
    (\<lambda>ok. bindA (guardA ok E_not_locked [])
    (\<lambda>_. bindA (refuse_certain_seal_refusal c)
    (\<lambda>_. bindA (sessA c)
    (\<lambda>s. bindA (authorize c Act_manage [])
    (\<lambda>_. bindA (same_windowA c (epoch s))
    (\<lambda>_. bindA (resettable c)
    (\<lambda>still_ok. bindA (guardA still_ok E_not_locked [])
    (\<lambda>_. bindA (stateA c)
    (\<lambda>st. bindA (same_windowA c (epoch s))
    (\<lambda>_. bindA (modA (\<lambda>r. fst (lock (c_uid (cobj r c)) None False r)))
    (\<lambda>_. bindA (modA (\<lambda>r. withdraw (c_uid (cobj r c)) [Migrate] r))
    (\<lambda>_. bindA (setS c (\<lambda>s. s\<lparr>migrating := False\<rparr>))
    (\<lambda>_. bindA (replace_store c (''reset'', [A_flag (st \<in> set OPENS)]))
    (\<lambda>e. bindA (open_new_store c e None)
    (\<lambda>_. ret [(''state'', P_str ''empty'')])))))))))))))))))"

fun json_true :: "json \<Rightarrow> bool" where
  "json_true JNull = False"
| "json_true (JBool b) = b"
| "json_true (JInt i) = (i \<noteq> 0)"
| "json_true (JFloat x) = (x \<noteq> 0)"
| "json_true (JStr s) = (s \<noteq> [])"
| "json_true (JList xs) = (xs \<noteq> [])"
| "json_true (JObj d) = (d \<noteq> [])"

definition old_copy_extra :: "(string \<times> json) list option \<Rightarrow> (string \<times> json) list option" where
  "old_copy_extra oc = (case oc of
      None \<Rightarrow> None
    | Some d \<Rightarrow> (case (jget d ''files'', jget d ''dir'') of
        (Some fs, Some dir) \<Rightarrow> if json_true fs \<and> json_true dir then Some [(''files'', fs), (''dir'', dir)] else None
      | _ \<Rightarrow> None))"

definition op_purge_old_copy :: "env \<Rightarrow> nat \<Rightarrow> req \<Rightarrow> answer_obj act" where
  "op_purge_old_copy E c q = (bindA (windowA c)
    (\<lambda>s. case old_copy_extra (old_copy s) of
       None \<Rightarrow> fail E_not_found []
     | Some ex \<Rightarrow> (bindA (authorize c Act_manage [])
       (\<lambda>_. bindA (same_windowA c (epoch s))
       (\<lambda>_. bindA (doA (issue_ticket E c Migrate ''purge'' None None None False ex))
       (\<lambda>tok. ret (ticket_reply tok)))))))"

definition check_items :: "json list \<Rightarrow> ustr list option" where
  "check_items vs =
     (if length vs \<le> MAX_CHECK_ITEMS \<and>
         list_all (\<lambda>v. case v of JStr t \<Rightarrow> length t \<le> MAX_CHECK_ITEM | _ \<Rightarrow> False) vs
      then Some (map (\<lambda>v. case v of JStr t \<Rightarrow> t | _ \<Rightarrow> []) vs) else None)"

definition op_clip_history_check :: "nat \<Rightarrow> req \<Rightarrow> answer_obj act" where
  "op_clip_history_check c q = (bindA (liftR (need_list q ''items''))
    (\<lambda>vs. case check_items vs of
       None \<Rightarrow> fail E_invalid [X_field ''items'']
     | Some ts \<Rightarrow> (bindA (tier1A c)
       (\<lambda>s. bindA (authorize c Act_manage [])
       (\<lambda>_. bindA (stillA c (epoch s))
       (\<lambda>_. bindA (storeA c (''pwmac_matches'', [A_items ts]))
       (\<lambda>v. bindA (as_indices v)
       (\<lambda>is. ret [(''matches'', P_list (map P_int (sort is)))]))))))))"

subsection \<open>They keep the registry's invariant\<close>

lemma replace_store_Inr:
  assumes "replace_store c fn r = (Inr e, r')"
  shows "\<exists>s. get_s (c_uid (cobj r' c)) r' = Some s \<and> epoch s = e \<and> \<not> c_closed (cobj r' c) \<and> s_ui s = Some c"
  using assms
  by (auto simp: replace_store_def bindA_def sessA_def uidA_def getA_def ret_def raise_def setS_def modA_def
      not_locked_since_Inr split: option.splits prod.splits sum.splits answer_value.splits)

lemma open_here_moves:
  "get_s (c_uid (cobj r c)) r = Some s \<Longrightarrow> s_ui s = Some c \<Longrightarrow>
   moves r (snd (modA (\<lambda>r. open_tier1 (c_uid (cobj r c)) c False r) r))"
  by (simp add: modA_def moves_open_tier1)

lemma act_moves_fresh_store [moves_intros]: "act_moves (fresh_store c e)"
proof -
  have "act_moves (replace_and_open c fn)" for fn
    unfolding replace_and_open_def
    by (rule act_moves_bind_post) (auto intro: moves_intros dest!: replace_store_Inr open_here_moves)
  then show ?thesis unfolding fresh_store_def by (intro moves_intros)
qed

lemma act_moves_open_new [moves_intros]: "act_moves (open_new_store c e p)"
proof -
  have "act_moves (open_if_same c e)"
    unfolding open_if_same_def
    by (rule act_moves_bind_post) (auto intro: moves_intros simp: not_locked_since_Inr dest!: open_here_moves)
  then show ?thesis unfolding open_new_store_def by (intro moves_intros)
qed

lemma act_moves_names [moves_intros]: "act_moves (namesA c)" "act_moves (set_local_name c i n)"
  "act_moves (push_edit c i cl)"
  unfolding namesA_def set_local_name_def push_edit_def by (intro moves_intros)+

lemma act_moves_after_edit [moves_intros]: "act_moves (after_edit c i e g b p)"
proof -
  have 1: "moves r (wipe_buffer b (r\<lparr>gtab := (gtab r)\<lparr>grants := dset uid h (grants (gtab r))\<rparr>\<rparr>))"
    "moves r (r\<lparr>gtab := (gtab r)\<lparr>grants := dset uid h (grants (gtab r))\<rparr>\<rparr>)"
    if "current_g uid (gtab r) = Some g" for r uid h b g
  proof -
    show 2: "moves r (r\<lparr>gtab := (gtab r)\<lparr>grants := dset uid h (grants (gtab r))\<rparr>\<rparr>)"
      by (rule moves_gtab) (use that in \<open>auto simp: current_g_def split: if_splits\<close>)
    show "moves r (wipe_buffer b (r\<lparr>gtab := (gtab r)\<lparr>grants := dset uid h (grants (gtab r))\<rparr>\<rparr>))"
      by (rule moves_trans [OF 2]) (rule act_moves_grants)
  qed
  have "moves r (refresh_grant c e g a r)" for a r
    by (auto simp: refresh_grant_def Let_def split: option.splits intro: 1 moves_intros)
  then show ?thesis unfolding after_edit_def by (intro moves_intros)
qed

lemma act_moves_set_create [moves_intros]: "act_moves (op_set E c q)" "act_moves (op_create E c q)"
  "act_moves (op_delete c q)" "act_moves (op_totp_preview E c q)"
proof -
  have "act_moves (setS c (\<lambda>s. s\<lparr>created_ids := created_ids s @ [t]\<rparr>))" for t
    by (rule act_moves_setS) (auto simp: sess_ok_def)
  then show "act_moves (op_create E c q)" unfolding op_create_def by (intro moves_intros)
qed (unfold op_set_def op_delete_def op_totp_preview_def; intro moves_intros)+

lemma act_moves_signin [moves_intros]: "act_moves (op_signin c q)" "act_moves (op_answer c q)"
  "act_moves (op_signout c q)" "act_moves (op_sync c q)"
proof -
  have b: "act_moves (setS c (\<lambda>s. s\<lparr>busy := b\<rparr>))" "act_moves (setS c (\<lambda>s. s\<lparr>signin := f\<rparr>))"
    "act_moves (setS c (\<lambda>s. s\<lparr>next_sync_at := n\<rparr>))" for b f n
    by (rule act_moves_setS; simp add: sess_ok_def)+
  have 1: "act_moves (signin_kind c lg st)" for lg st unfolding signin_kind_def by (intro moves_intros)
  have 2: "act_moves (signin_run c lg fr e rid)" for lg fr e rid
    unfolding signin_run_def by (intro moves_intros b)
  have 3: "moves r (end_signin c r)" for r
    unfolding end_signin_def by (rule moves_upd_s) (auto simp: sess_ok_def)
  have 4: "act_moves (signin_done c e sh)" for e sh
    unfolding signin_done_def by (intro moves_intros b moves_keep_shape)
  show "act_moves (op_signin c q)" unfolding op_signin_def by (intro moves_intros 1 2 3 4 b)
  have 5: "moves r (fst (answer_signin c ask v b r))" for ask v b r
    by (auto simp: answer_signin_def Let_def sess_ok_def split_beta split: option.splits intro!: moves_upd_s)
  show "act_moves (op_answer c q)" unfolding op_answer_def by (intro moves_intros 5)
  show "act_moves (op_signout c q)" unfolding op_signout_def by (intro moves_intros)
  show "act_moves (op_sync c q)" unfolding op_sync_def skipped_def by (intro moves_intros)
qed

lemma find_None_all: "find P xs = None \<longleftrightarrow> list_all (\<lambda>x. \<not> P x) xs"
  by (induction xs) auto

lemma merge_settings_ok:
  "settings_ok s \<Longrightarrow> bad_setting new = None \<Longrightarrow> settings_ok (merge_settings new s)"
proof (induction new arbitrary: s)
  case (Cons kv new)
  obtain k v where kv: "kv = (k, v)" by fastforce
  have "setting_ok k v" "bad_setting new = None"
    using Cons.prems(2) by (auto simp: kv bad_setting_def split: if_splits)
  from Cons.IH [OF put_setting_ok [OF Cons.prems(1) this(1)] this(2)] show ?case
    by (simp add: kv merge_settings_def)
qed (simp add: merge_settings_def)

lemma act_moves_sess_bind:
  assumes "\<And>s. settings_ok (s_settings s) \<Longrightarrow> act_moves (k s)"
  shows "act_moves (bindA (sessA c) k)"
proof (rule act_moves_bind_post)
  fix r s r1
  assume "sessA c r = (Inr s, r1)" and "rinv r1"
  then have "settings_ok (s_settings s)" using rinvD(2) by (auto simp: sessA_Inr sess_ok_def)
  then show "moves r1 (snd (k s r1))" using assms by (simp add: act_moves_def)
qed (intro moves_intros)

lemma act_moves_settings_ops [moves_intros]: "act_moves (op_settings c q)" "act_moves (op_autofill_enable c q)"
  "act_moves (op_features c q)" "act_moves (op_diag_items c q)"
proof -
  have 1: "act_moves (setS c (\<lambda>s. s\<lparr>s_settings := m\<rparr>))" if "settings_ok m" for m
    by (rule act_moves_setS) (use that in \<open>simp_all add: sess_ok_def\<close>)
  have 2: "moves r (upd_s u (\<lambda>s. s\<lparr>last_ui_request := n\<rparr>) r)" for r u n
    by (rule moves_upd_s) (auto simp: sess_ok_def)
  have 3: "act_moves (set_settings c s new)" if s: "settings_ok (s_settings s)" for s new
  proof (cases "bad_setting new")
    case None
    note ok = merge_settings_ok [OF s None]
    show ?thesis
      unfolding set_settings_def None Let_def option.case by (intro moves_intros 1 2 ok)
  qed (simp add: set_settings_def act_moves_simple)
  show "act_moves (op_settings c q)" unfolding op_settings_def
    by (rule act_moves_sess_bind) (intro moves_intros 3)
  have 4: "act_moves (setS c (\<lambda>s. s\<lparr>autofill_enabled := m\<rparr>))" "act_moves (setS c (\<lambda>s. s\<lparr>s_features := f\<rparr>))" for m f
    by (rule act_moves_setS; simp add: sess_ok_def)+
  show "act_moves (op_autofill_enable c q)" unfolding op_autofill_enable_def by (intro moves_intros 4)
  have 5: "act_moves (set_features c m)" for m unfolding set_features_def by (intro moves_intros 4)
  show "act_moves (op_features c q)" unfolding op_features_def by (intro moves_intros 5)
  show "act_moves (op_diag_items c q)" unfolding op_diag_items_def by (intro moves_intros)
qed

lemma act_moves_migration [moves_intros]: "act_moves (op_migrate_begin E c q)" "act_moves (op_migrate_abandon c q)"
  "act_moves (op_reset c q)" "act_moves (op_purge_old_copy E c q)" "act_moves (op_clip_history_check c q)"
proof -
  have 1: "act_moves (setS c (\<lambda>s. s\<lparr>migrating := b\<rparr>))" for b by (rule act_moves_setS) (auto simp: sess_ok_def)
  show "act_moves (op_migrate_begin E c q)" unfolding op_migrate_begin_def by (intro moves_intros 1)
  show "act_moves (op_migrate_abandon c q)" unfolding op_migrate_abandon_def by (intro moves_intros 1)
  show "act_moves (op_reset c q)" unfolding op_reset_def by (intro moves_intros 1)
  show "act_moves (op_purge_old_copy E c q)" unfolding op_purge_old_copy_def by (intro moves_intros)
  show "act_moves (op_clip_history_check c q)" unfolding op_clip_history_check_def by (intro moves_intros)
qed

end
