(* ===== verification/Base64.thy ===== *)
theory Base64
  imports Prelude
begin

text \<open>Python's \<^verbatim>\<open>base64.b64encode\<close> and \<^verbatim>\<open>base64.b64decode(s, validate=True)\<close>, on lists of byte values.\<close>

definition b64_value :: "nat \<Rightarrow> nat option" where
  "b64_value c =
     (if 65 \<le> c \<and> c \<le> 90 then Some (c - 65)
      else if 97 \<le> c \<and> c \<le> 122 then Some (c - 71)
      else if 48 \<le> c \<and> c \<le> 57 then Some (c + 4)
      else if c = 43 then Some 62
      else if c = 47 then Some 63
      else None)"

fun b64_quads :: "nat list \<Rightarrow> nat list" where
  "b64_quads (a # b # c # d # xs) = [a * 4 + b div 16, (b mod 16) * 16 + c div 4, (c mod 4) * 64 + d] @ b64_quads xs"
| "b64_quads [a, b, c] = [a * 4 + b div 16, (b mod 16) * 16 + c div 4]"
| "b64_quads [a, b] = [a * 4 + b div 16]"
| "b64_quads _ = []"

text \<open>\<^verbatim>\<open>b64decode\<close>; \<open>None\<close> is \<^verbatim>\<open>binascii.Error\<close> or \<^verbatim>\<open>ValueError\<close>.\<close>

definition b64decode :: "ustr \<Rightarrow> nat list option" where
  "b64decode s =
     (let body = takeWhile (\<lambda>x. x \<noteq> 61) s; pad = dropWhile (\<lambda>x. x \<noteq> 61) s in
      if list_all (\<lambda>x. x = 61) pad \<and> list_all (\<lambda>x. b64_value x \<noteq> None) body \<and>
         length body mod 4 \<noteq> 1 \<and> length pad = (4 - length body mod 4) mod 4
      then Some (b64_quads (map (\<lambda>x. the (b64_value x)) body)) else None)"

definition b64_char :: "nat \<Rightarrow> nat" where
  "b64_char v = (if v < 26 then v + 65 else if v < 52 then v + 71 else if v < 62 then v - 4 else if v = 62 then 43 else 47)"

fun b64_groups :: "nat list \<Rightarrow> nat list" where
  "b64_groups (a # b # c # xs) = [a div 4, (a mod 4) * 16 + b div 16, (b mod 16) * 4 + c div 64, c mod 64] @ b64_groups xs"
| "b64_groups [a, b] = [a div 4, (a mod 4) * 16 + b div 16, (b mod 16) * 4]"
| "b64_groups [a] = [a div 4, (a mod 4) * 16]"
| "b64_groups [] = []"

definition b64encode :: "nat list \<Rightarrow> ustr" where
  "b64encode bs = map b64_char (b64_groups bs) @ replicate ((3 - length bs mod 3) mod 3) 61"

subsection \<open>Round trip\<close>

lemma b64_value_char: "v < 64 \<Longrightarrow> b64_value (b64_char v) = Some v \<and> b64_char v \<noteq> 61"
  by (auto simp: b64_value_def b64_char_def)

lemma b64_groups_small: "list_all (\<lambda>b. b < 256) bs \<Longrightarrow> list_all (\<lambda>v. v < 64) (b64_groups bs)"
  by (induction bs rule: b64_groups.induct) auto

lemma b64_quads_groups: "list_all (\<lambda>b. b < 256) bs \<Longrightarrow> b64_quads (b64_groups bs) = bs"
proof (induction bs rule: b64_groups.induct)
  case (1 a b c xs)
  have "(a div 4) * 4 + (a mod 4 * 16 + b div 16) div 16 = a" "((a mod 4 * 16 + b div 16) mod 16) * 16 + (b mod 16 * 4 + c div 64) div 4 = b"
    "((b mod 16 * 4 + c div 64) mod 4) * 64 + c mod 64 = c"
    using 1(2) by auto
  then show ?case using 1 by simp
next
  case (2 a b)
  then show ?case by auto
next
  case (3 a)
  then show ?case by auto
qed simp

lemma length_b64_groups: "length (b64_groups bs) mod 4 = (if length bs mod 3 = 0 then 0 else length bs mod 3 + 1)"
  by (induction bs rule: b64_groups.induct) (auto simp: mod_Suc)

lemma b64_roundtrip: "list_all (\<lambda>b. b < 256) bs \<Longrightarrow> b64decode (b64encode bs) = Some bs"
proof -
  assume a: "list_all (\<lambda>b. b < 256) bs"
  let ?g = "b64_groups bs" and ?p = "replicate ((3 - length bs mod 3) mod 3) (61 :: nat)"
  have v: "b64_value (b64_char x) = Some x \<and> b64_char x \<noteq> 61" if "x \<in> set ?g" for x
    using b64_groups_small [OF a] that b64_value_char by (auto simp: list_all_iff)
  have t: "takeWhile (\<lambda>x. x \<noteq> 61) (b64encode bs) = map b64_char ?g" "dropWhile (\<lambda>x. x \<noteq> 61) (b64encode bs) = ?p"
    using v by (auto simp: b64encode_def takeWhile_append dropWhile_append)
  have n: "length ?g mod 4 \<noteq> 1 \<and> (3 - length bs mod 3) mod 3 = (4 - length ?g mod 4) mod 4"
  proof -
    have "length bs mod 3 = 0 \<or> length bs mod 3 = 1 \<or> length bs mod 3 = 2" by presburger
    then show ?thesis unfolding length_b64_groups by auto
  qed
  have m: "map (\<lambda>x. the (b64_value x)) (map b64_char ?g) = ?g"
    using v by (auto simp: map_idI)
  show ?thesis
    unfolding b64decode_def Let_def t
    using n v m b64_quads_groups [OF a] by (auto simp: list_all_iff)
qed

end
