(* ===== verification/ImportOps.thy ===== *)
theory ImportOps
  imports EditOps Base64
begin

text \<open>
  The operations of the clipboard and import processes, \<^verbatim>\<open>op_redeem\<close> to \<^verbatim>\<open>op_purge_result\<close> of
  \<^verbatim>\<open>backend/icp/daemon/handlers.py\<close>: the ticket's value goes out once, and the files of a 1.x
  vault come in as numbered chunks.
\<close>

subsection \<open>The clipboard process\<close>

definition take_value :: "nat \<Rightarrow> reg \<Rightarrow> reg \<times> (op_error + ustr option \<times> bool)" where
  "take_value c r =
     (case c_ticket (cobj r c) of
        None \<Rightarrow> (r, Inl (OpError E_bad_ticket []))
      | Some t \<Rightarrow>
          if c_redeemed (cobj r c) then (r, Inl (OpError E_bad_ticket []))
          else (upd_c c (\<lambda>x. x\<lparr>c_redeemed := True, c_ticket := Some (t\<lparr>t_value := None\<rparr>)\<rparr>) r,
                Inr (t_value t, sensitive t)))"

definition op_redeem :: "nat \<Rightarrow> req \<Rightarrow> answer_obj act" where
  "op_redeem c q = (bindA (liftA (take_value c))
    (\<lambda>(v, sens). bindA (sessA c)
    (\<lambda>s. ret [(''value'', P_text (case v of None \<Rightarrow> [] | Some t \<Rightarrow> t)), (''sensitive'', P_bool sens),
          (''timeout'', P_int (clip_timeout_s (s_settings s)))])))"

definition note_result :: "nat \<Rightarrow> string \<Rightarrow> reg \<Rightarrow> reg \<times> (op_error + event)" where
  "note_result c out r =
     (case c_ticket (cobj r c) of
        None \<Rightarrow> (r, Inl (OpError E_bad_ticket []))
      | Some t \<Rightarrow>
          if \<not> c_redeemed (cobj r c) then (r, Inl (OpError E_bad_ticket []))
          else if c_result (cobj r c) \<noteq> None then (r, Inl (OpError E_invalid [X_field ''outcome'']))
          else (upd_c c (\<lambda>x. x\<lparr>c_result := Some out\<rparr>) r, Inr (Ev_clip (t_id t) (t_field t) out)))"

definition op_clip_result :: "nat \<Rightarrow> req \<Rightarrow> answer_obj act" where
  "op_clip_result c q = (bindA (liftR (need_str q ''outcome''))
    (\<lambda>txt. case name_in CLIP_OUTCOMES txt of
       None \<Rightarrow> fail E_invalid [X_field ''outcome'']
     | Some out \<Rightarrow> (bindA (liftA (note_result c out))
       (\<lambda>ev. bindA (uidA c)
       (\<lambda>uid. bindA (modA (after_reply (Notify_after uid ev)))
       (\<lambda>_. ret [(''ok'', P_bool True)]))))))"

subsection \<open>Files of the import\<close>

definition ticket_for :: "string \<Rightarrow> conn \<Rightarrow> bool" where
  "ticket_for why x = (case c_ticket x of None \<Rightarrow> False | Some t \<Rightarrow> purpose t = why)"

definition import_ticketA :: "nat \<Rightarrow> string \<Rightarrow> unit act" where
  "import_ticketA c why = (bindA (getA (\<lambda>r. ticket_for why (cobj r c)))
    (\<lambda>ok. guardA ok E_forbidden []))"

type_synonym files = "(string \<times> import_file) list"

text \<open>
  One chunk of a file. Every refusal drops the file received so far (\<^verbatim>\<open>_discard\<close>); the sizes are
  checked before the chunk is kept.
\<close>

definition refuse_file :: "string \<Rightarrow> string \<Rightarrow> files \<Rightarrow> files \<times> (op_error + import_file)" where
  "refuse_file n fld fs = (ddel n fs, invalid fld)"

definition new_file :: import_file where
  "new_file = \<lparr>f_buf = [], f_seq = 0, f_done = False, f_sha256 = []\<rparr>"

definition put_chunk ::
  "(nat list \<Rightarrow> string) \<Rightarrow> string \<Rightarrow> int \<Rightarrow> ustr \<Rightarrow> bool \<Rightarrow> files \<Rightarrow> files \<times> (op_error + import_file)" where
  "put_chunk sha n sq b64 eof fs =
     (let old = dget fs n; f = (case old of None \<Rightarrow> new_file | Some f \<Rightarrow> f) in
      if old \<noteq> None \<and> f_done f then refuse_file n ''name'' fs
      else if sq \<noteq> f_seq f then refuse_file n ''seq'' fs
      else (case b64decode b64 of
          None \<Rightarrow> refuse_file n ''b64'' fs
        | Some chunk \<Rightarrow>
            if length chunk > IMPORT_CHUNK_MAX then refuse_file n ''b64'' fs
            else if length (f_buf f) + length chunk > IMPORT_FILE_MAX then refuse_file n ''name'' fs
            else (let buf = f_buf f @ chunk;
                      g = f\<lparr>f_buf := buf, f_seq := f_seq f + 1, f_done := eof,
                            f_sha256 := (if eof then sha buf else [])\<rparr> in
                  (dset n g fs, Inr g))))"

definition with_files :: "nat \<Rightarrow> (files \<Rightarrow> files \<times> 'a) \<Rightarrow> reg \<Rightarrow> reg \<times> 'a" where
  "with_files c f r = (let (fs, x) = f (c_files (cobj r c)) in (upd_c c (\<lambda>x. x\<lparr>c_files := fs\<rparr>) r, x))"

definition op_import_file :: "env \<Rightarrow> nat \<Rightarrow> req \<Rightarrow> answer_obj act" where
  "op_import_file E c q = (bindA (import_ticketA c ''import'')
    (\<lambda>_. bindA (liftR (need_str q ''name''))
    (\<lambda>nt. bindA (liftR (need_int q ''seq''))
    (\<lambda>sq. bindA (liftR (need_str q ''b64''))
    (\<lambda>b64. bindA (liftR (need_bool q ''eof'' (Some False)))
    (\<lambda>eof. case name_in IMPORT_FILES nt of
       None \<Rightarrow> fail E_invalid [X_field ''name'']
     | Some n \<Rightarrow> (bindA (liftA (with_files c (put_chunk (env_sha256 E) n sq b64 eof)))
       (\<lambda>g. ret (if \<not> eof then [(''ok'', P_bool True)]
              else [(''ok'', P_bool True), (''size'', P_int (int (length (f_buf g)))), (''sha256'', P_str (f_sha256 g))])))))))))"

definition done_file :: "files \<Rightarrow> string \<Rightarrow> nat list option" where
  "done_file fs n = (case dget fs n of None \<Rightarrow> None | Some f \<Rightarrow> if f_done f then Some (f_buf f) else None)"

subsection \<open>The key of the import\<close>

definition given_key :: "req \<Rightarrow> op_error + nat list" where
  "given_key q = bindE (need_str q ''key_b64'') (\<lambda>t. case b64decode t of
      None \<Rightarrow> invalid ''key_b64''
    | Some k \<Rightarrow> if length k \<noteq> 32 then invalid ''key_b64'' else Inr k)"

text \<open>The worker thread derives the key; a damaged \<^verbatim>\<open>kdf.json\<close> is the \<^verbatim>\<open>ValueError\<close>.\<close>

definition derived_key :: "nat \<Rightarrow> req \<Rightarrow> nat list act" where
  "derived_key c q = (bindA (liftR (need_str q ''passphrase''))
    (\<lambda>p. bindA (guardA (p \<noteq> [] \<and> length p \<le> MAX_PASSPHRASE) E_invalid [X_field ''passphrase''])
    (\<lambda>_. bindA (getA (\<lambda>r. done_file (c_files (cobj r c)) ''kdf.json''))
    (\<lambda>kdf. bindA (guardA (kdf \<noteq> None) E_incomplete [])
    (\<lambda>_. bindA (catchA awaitA (\<lambda>e. if e = X_value_error then fail E_invalid [X_field ''kdf.json''] else raise e))
    (\<lambda>v. as_key v))))))"

definition op_import_key :: "nat \<Rightarrow> req \<Rightarrow> answer_obj act" where
  "op_import_key c q = (bindA (import_ticketA c ''import'')
    (\<lambda>_. let has_key = (jget q ''key_b64'' \<noteq> None) in
    let has_pass = (jget q ''passphrase'' \<noteq> None) in
    bindA (guardA (has_key \<noteq> has_pass) E_bad_request [])
    (\<lambda>_. bindA (getA (\<lambda>r. c_files (cobj r c)))
    (\<lambda>fs. bindA (guardA (done_file fs ''check.enc'' \<noteq> None \<or> (done_file fs ''vault.enc'' \<noteq> None \<and> \<not> has_pass)) E_incomplete [])
    (\<lambda>_. bindA awaitA
    (\<lambda>_. bindA ((if has_key then liftR (given_key q) else derived_key c q))
    (\<lambda>key. bindA awaitA
    (\<lambda>v. bindA (as_bool v)
    (\<lambda>ok. bindA (guardA ok E_wrong_passphrase [])
    (\<lambda>_. bindA (modA (upd_c c (\<lambda>x. x\<lparr>c_key := Some key\<rparr>)))
    (\<lambda>_. ret [(''ok'', P_bool True)])))))))))))"

subsection \<open>Committing the import\<close>

definition backup_dir_ok :: "ustr option \<Rightarrow> bool" where
  "backup_dir_ok d = (case d of None \<Rightarrow> True
     | Some t \<Rightarrow> startswith t [47] \<and> 0 \<notin> set t \<and> length t \<le> 4096)"

definition opt_str :: "req \<Rightarrow> string \<Rightarrow> op_error + ustr option" where
  "opt_str q k = (if jget q k = None then Inr None else bindE (need_str q k) (\<lambda>t. Inr (Some t)))"

definition payload_files :: "files \<Rightarrow> (string \<times> nat list) list" where
  "payload_files fs = [(n, f_buf f). (n, f) <- fs, f_done f]"

definition digests :: "files \<Rightarrow> json" where
  "digests fs = JList (map (\<lambda>(n, f). JObj [(''name'', JStr (ascii n)), (''sha256'', JStr (ascii (f_sha256 f)))])
     (sort_key (\<lambda>(n, f). ascii n) [x <- fs. f_done (snd x)]))"

text \<open>The \<^verbatim>\<open>finally\<close> of the commit: key and files leave memory.\<close>

definition forget_import :: "nat \<Rightarrow> reg \<Rightarrow> reg" where
  "forget_import c r = upd_c c (\<lambda>x. x\<lparr>c_key := None, c_files := []\<rparr>) r"

definition import_error :: "exn \<Rightarrow> meta answer_value act" where
  "import_error e = (case e of
      X_import_mismatch \<Rightarrow> fail E_mismatch []
    | X_wrong_passphrase \<Rightarrow> fail E_wrong_passphrase []
    | _ \<Rightarrow> (case store_error e of Some err \<Rightarrow> raise (X_op err) | None \<Rightarrow> fail E_internal []))"

definition old_copy_of :: "ustr option \<Rightarrow> files \<Rightarrow> real \<Rightarrow> (string \<times> json) list option" where
  "old_copy_of dir fs now = (case dir of None \<Rightarrow> None
     | Some d \<Rightarrow> Some [(''dir'', JStr d), (''files'', digests fs), (''migrated_at'', JFloat now)])"

definition keep_old_copy :: "nat \<Rightarrow> (string \<times> json) list option \<Rightarrow> unit act" where
  "keep_old_copy c oc = (bindA (if oc \<noteq> None then setS c (\<lambda>s. s\<lparr>old_copy := oc\<rparr>) else ret ())
    (\<lambda>_. catch_op (save_setting_keys c [(''old_copy'', map_option JObj oc), (''migration_pending'', None)])))"

definition commit_done :: "nat \<Rightarrow> ustr option \<Rightarrow> files \<Rightarrow> meta answer_value \<Rightarrow> answer_obj act" where
  "commit_done c dir fs v = (case v of
      V_imported cs dig \<Rightarrow> (bindA (setS c (\<lambda>s. s\<lparr>migrating := False\<rparr>))
        (\<lambda>_. bindA (getA wall)
        (\<lambda>now. bindA (keep_old_copy c (old_copy_of dir fs now))
        (\<lambda>_. bindA (uidA c)
        (\<lambda>uid. bindA (modA (after_reply (Notify_after uid (Ev_migrated cs))))
        (\<lambda>_. bindA (sync_after_reply c)
        (\<lambda>_. ret [(''counts'', P_obj (map (\<lambda>(k, n). (k, P_int n)) cs)), (''digest'', P_str dig)])))))))
    | _ \<Rightarrow> raise X_blocked)"

definition op_import_commit :: "nat \<Rightarrow> req \<Rightarrow> answer_obj act" where
  "op_import_commit c q = (bindA (import_ticketA c ''import'')
    (\<lambda>_. bindA (liftR (opt_str q ''backup_dir''))
    (\<lambda>dir. bindA (guardA (backup_dir_ok dir) E_invalid [X_field ''backup_dir''])
    (\<lambda>_. bindA (getA (\<lambda>r. c_files (cobj r c)))
    (\<lambda>fs. bindA (getA (\<lambda>r. c_key (cobj r c)))
    (\<lambda>key. bindA (guardA (key \<noteq> None \<and> list_all (\<lambda>n. done_file fs n \<noteq> None) IMPORT_REQUIRED) E_incomplete [])
    (\<lambda>_. bindA (testA c unlocked E_locked [])
    (\<lambda>_. bindA (uidA c)
    (\<lambda>uid. bindA (finallyA (catchA (run_store uid (''import_v1'', [A_files (payload_files fs), A_key (the key)]) False False)
            import_error) (forget_import c))
    (\<lambda>v. commit_done c dir fs v))))))))))"

definition op_purge_result :: "nat \<Rightarrow> req \<Rightarrow> answer_obj act" where
  "op_purge_result c q = (bindA (import_ticketA c ''purge'')
    (\<lambda>_. bindA (liftR (need_list q ''removed''))
    (\<lambda>removed. bindA (liftR (need_list q ''kept''))
    (\<lambda>kept. bindA (guardA (list_all (\<lambda>v. case v of JStr t \<Rightarrow> True | _ \<Rightarrow> False) (removed @ kept)) E_bad_request [])
    (\<lambda>_. bindA (setS c (\<lambda>s. s\<lparr>old_copy := None\<rparr>))
    (\<lambda>_. bindA (save_setting_keys c [(''old_copy'', None)])
    (\<lambda>_. ret [(''ok'', P_bool True)])))))))"

subsection \<open>They keep the registry's invariant\<close>

lemma moves_take_value: "moves r (fst (take_value c r))"
  by (auto simp: take_value_def split: option.splits intro!: moves_conn_data)

lemma moves_note_result: "moves r (fst (note_result c out r))"
  by (auto simp: note_result_def split: option.splits intro!: moves_conn_data)

lemma moves_with_files: "moves r (fst (with_files c f r))"
  by (auto simp: with_files_def split_beta intro!: moves_conn_data)

lemma act_moves_clip [moves_intros]: "act_moves (op_redeem c q)" "act_moves (op_clip_result c q)"
  unfolding op_redeem_def op_clip_result_def
  by (intro moves_intros moves_take_value moves_note_result)+

lemma act_moves_import_ticket [moves_intros]: "act_moves (import_ticketA c why)"
  unfolding import_ticketA_def by (intro moves_intros)

lemma act_moves_import [moves_intros]: "act_moves (op_import_file E c q)" "act_moves (op_import_key c q)"
  "act_moves (op_import_commit c q)" "act_moves (op_purge_result c q)"
proof -
  show "act_moves (op_import_file E c q)"
    unfolding op_import_file_def by (intro moves_intros moves_with_files)
  have 1: "moves r (upd_c c (\<lambda>x. x\<lparr>c_key := k\<rparr>) r)" for r k by (rule moves_conn_data) simp
  have 2: "act_moves (derived_key c q)" unfolding derived_key_def by (intro moves_intros)
  show "act_moves (op_import_key c q)" unfolding op_import_key_def by (intro moves_intros 1 2)
  have 3: "moves r (forget_import c r)" for r unfolding forget_import_def by (rule moves_conn_data) simp
  have 4: "act_moves (setS c (\<lambda>s. s\<lparr>old_copy := oc\<rparr>))" "act_moves (setS c (\<lambda>s. s\<lparr>migrating := b\<rparr>))" for oc b
    by (rule act_moves_setS; simp add: sess_ok_def)+
  have 5: "act_moves (import_error e)" for e
    unfolding import_error_def by (cases e; cases "store_error e") (simp_all add: act_moves_simple)
  have 6: "act_moves (keep_old_copy c oc)" for oc unfolding keep_old_copy_def by (intro moves_intros 4)
  have 7: "act_moves (commit_done c dir fs v)" for dir fs v
  proof (cases v)
    case (V_imported cs dig)
    show ?thesis unfolding commit_done_def V_imported answer_value.case by (intro moves_intros 4 6)
  qed (simp_all add: commit_done_def act_moves_simple)
  show "act_moves (op_import_commit c q)" unfolding op_import_commit_def by (intro moves_intros 3 5 7)
  show "act_moves (op_purge_result c q)" unfolding op_purge_result_def by (intro moves_intros 4)
qed

end
