(* ===== verification/AutofillOps.thy ===== *)
theory AutofillOps
  imports ImportOps
begin

text \<open>
  The three operations of a browser's connection, from \<^verbatim>\<open>backend/icp/daemon/autofill.py\<close>:
  \<^verbatim>\<open>handle_autofill_query\<close>, \<^verbatim>\<open>handle_autofill_names\<close> and \<^verbatim>\<open>handle_autofill_fill\<close>.
\<close>

subsection \<open>The session, as a browser sees it\<close>

definition need_field :: "req \<Rightarrow> string \<Rightarrow> op_error + ustr" where
  "need_field q k = (case jget q k of Some (JStr t) \<Rightarrow> Inr t | _ \<Rightarrow> Inl (OpError E_bad_request [X_field k]))"

definition enabled_for :: "nat \<Rightarrow> reg \<Rightarrow> bool" where
  "enabled_for c r = (case get_s (c_uid (cobj r c)) r of None \<Rightarrow> True | Some s \<Rightarrow> autofill_enabled s)"

definition require_enabled :: "nat \<Rightarrow> unit act" where
  "require_enabled c = (bindA (getA (enabled_for c))
    (\<lambda>ok. guardA ok E_forbidden []))"

text \<open>\<^verbatim>\<open>_open_session\<close>: whether tier 1 is open, or the store is open for this connection.\<close>

definition open_for :: "nat \<Rightarrow> reg \<Rightarrow> reg \<times> bool" where
  "open_for c r = (let uid = c_uid (cobj r c) in
     case get_s uid r of
       None \<Rightarrow> (r, False)
     | Some s \<Rightarrow>
         if unlocked r s then (r, True)
         else if autofill_open r (Some s) c then (touch_autofill uid c r, True)
         else (r, False))"

definition closed_state :: "nat \<Rightarrow> reg \<Rightarrow> string" where
  "closed_state c r = (case get_s (c_uid (cobj r c)) r of
      None \<Rightarrow> ''locked''
    | Some s \<Rightarrow> (case disk_state r (s_store s) of
        None \<Rightarrow> ''unavailable''
      | Some st \<Rightarrow> if st = ''empty'' \<or> st \<in> set SEAL_STATES then ''unavailable'' else ''locked''))"

definition closed_reply :: "nat \<Rightarrow> answer_obj act" where
  "closed_reply c = (bindA (getA (closed_state c))
    (\<lambda>st. ret [(''state'', P_str st)]))"

definition names_approved :: "nat \<Rightarrow> ustr \<Rightarrow> reg \<Rightarrow> bool" where
  "names_approved c host r = (case (get_s (c_uid (cobj r c)) r, c_names (cobj r c)) of
      (Some s, Some (e, hosts)) \<Rightarrow> e = epoch s \<and> host \<in> set hosts
    | _ \<Rightarrow> False)"

definition fill_approved :: "nat \<Rightarrow> reg \<Rightarrow> bool" where
  "fill_approved c r = (case get_s (c_uid (cobj r c)) r of
      None \<Rightarrow> False | Some s \<Rightarrow> c_fill (cobj r c) = Some (epoch s))"

definition named_for :: "nat \<Rightarrow> ustr \<Rightarrow> reg \<Rightarrow> bool" where
  "named_for c host r \<longleftrightarrow> fill_approved c r \<or> names_approved c host r"

subsection \<open>Handles\<close>

definition HANDLE_HEX :: nat where "HANDLE_HEX = 32"

definition handle_for :: "env \<Rightarrow> nat \<Rightarrow> string \<Rightarrow> ustr" where
  "handle_for E k i = ascii (''h-'' @ take HANDLE_HEX (env_mac E k i))"

definition id_text_ok :: "ustr \<Rightarrow> bool" where
  "id_text_ok t \<longleftrightarrow> 1 \<le> length t \<and> length t \<le> 128 \<and> list_all id_char t"

text \<open>The two exceptions that mean the store went away, and the one for an unknown entry.\<close>

definition gone_as :: "'a act \<Rightarrow> exn \<Rightarrow> 'a act" where
  "gone_as m e = (case e of X_store_locked \<Rightarrow> m | X_seal k \<Rightarrow> m | _ \<Rightarrow> raise e)"

definition entry_gone_as :: "exn \<Rightarrow> 'a act" where
  "entry_gone_as e = (if e = X_not_found then fail E_no_match [] else gone_as (fail E_locked []) e)"

definition metasA :: "nat \<Rightarrow> meta list act" where
  "metasA c = (bindA (uidA c)
    (\<lambda>uid. bindA (run_store uid (''list_meta'', []) False False)
    (\<lambda>v. as_metas v)))"

definition resolve :: "env \<Rightarrow> nat \<Rightarrow> ustr \<Rightarrow> string act" where
  "resolve E c handle = (bindA (sessA c)
    (\<lambda>s. case autofill_key s of
       None \<Rightarrow> fail E_no_match []
     | Some k \<Rightarrow> (bindA (guardA (id_text_ok handle \<and> startswith handle (ascii ''h-'')) E_no_match [])
       (\<lambda>_. bindA (catchA (metasA c) (gone_as (fail E_locked [])))
       (\<lambda>ms. case find (\<lambda>m. handle_for E k (m_id m) = handle) ms of
           None \<Rightarrow> fail E_no_match []
         | Some m \<Rightarrow> ret (m_id m))))))"

definition matching_meta :: "env \<Rightarrow> nat \<Rightarrow> string \<Rightarrow> ustr \<Rightarrow> meta act" where
  "matching_meta E c i host = (bindA (guardA (id_text_ok (ascii i)) E_no_match [])
    (\<lambda>_. bindA (uidA c)
    (\<lambda>uid. bindA (catchA ((bindA (run_store uid (''get_meta'', [A_id i]) False False)
       (\<lambda>v. as_meta v))) entry_gone_as)
    (\<lambda>m. bindA (getA db)
    (\<lambda>u. bindA (guardA (match_rank u (env_web E) host m \<noteq> None) E_no_match [])
    (\<lambda>_. ret m))))))"

subsection \<open>Query\<close>

definition ranked :: "unidb \<Rightarrow> weblib \<Rightarrow> ustr \<Rightarrow> meta list \<Rightarrow> (nat \<times> meta) list" where
  "ranked u W host ms =
     sort_key (\<lambda>(k, m). (k, - mdat m, ucasefold u (page_label m)))
       (concat (map (\<lambda>m. case match_rank u W host m of None \<Rightarrow> [] | Some k \<Rightarrow> [(k, m)]) ms))"

definition account_row :: "env \<Rightarrow> nat \<Rightarrow> bool \<Rightarrow> nat \<times> meta \<Rightarrow> payload" where
  "account_row E k named x = (case x of (rank, m) \<Rightarrow>
     P_obj ([(''id'', P_text (handle_for E k (m_id m))),
             (''match'', P_str (if rank = 0 then ''exact'' else ''related''))] @
       (if named then [(''username'', P_text (username m)), (''label'', P_text (page_label m))] else [])))"

definition accounts_reply :: "env \<Rightarrow> ustr \<Rightarrow> nat \<Rightarrow> bool \<Rightarrow> (nat \<times> meta) list \<Rightarrow> answer_obj" where
  "accounts_reply E host k named rs =
     [(''state'', P_str ''unlocked''), (''host'', P_text host),
      (''accounts'', P_list (map (account_row E k named) (take MAX_ACCOUNTS rs)))]"

definition query_open :: "env \<Rightarrow> nat \<Rightarrow> ustr \<Rightarrow> meta list \<Rightarrow> answer_obj act" where
  "query_open E c host ms = (bindA (doA (open_for c))
    (\<lambda>op. if \<not> op then closed_reply c
     else (bindA (sessA c)
       (\<lambda>s. bindA (getA (named_for c host))
       (\<lambda>named. bindA (getA db)
       (\<lambda>u. case autofill_key s of
         None \<Rightarrow> closed_reply c
       | Some k \<Rightarrow> ret (accounts_reply E host k named (ranked u (env_web E) host ms))))))))"

definition query_host :: "env \<Rightarrow> nat \<Rightarrow> ustr \<Rightarrow> answer_obj act" where
  "query_host E c host = (bindA (doA (open_for c))
    (\<lambda>op. if \<not> op then closed_reply c
     else (bindA (catchA ((bindA (metasA c)
         (\<lambda>ms. ret (Some ms)))) (gone_as (ret None)))
       (\<lambda>lst. case lst of None \<Rightarrow> closed_reply c | Some ms \<Rightarrow> query_open E c host ms))))"

definition handle_autofill_query :: "env \<Rightarrow> nat \<Rightarrow> req \<Rightarrow> answer_obj act" where
  "handle_autofill_query E c q = (bindA (require_enabled c)
    (\<lambda>_. bindA (liftR (need_field q ''origin''))
    (\<lambda>orig. bindA (liftR (parse_origin orig))
    (\<lambda>host. query_host E c host))))"

subsection \<open>Names\<close>

definition unlocked_for_names :: "env \<Rightarrow> nat \<Rightarrow> ustr \<Rightarrow> nat \<Rightarrow> req \<Rightarrow> answer_obj act" where
  "unlocked_for_names E c host e q = (bindA (sessA c)
    (\<lambda>s. bindA (getA (\<lambda>r. epoch s \<noteq> e \<or> c_closed (cobj r c)))
    (\<lambda>gone. if gone then (bindA (modA (\<lambda>r. wipe_store (c_uid (cobj r c)) r))
       (\<lambda>_. fail E_cancelled []))
     else (bindA (modA (\<lambda>r. open_autofill (c_uid (cobj r c)) c r))
       (\<lambda>_. bindA (modA (upd_c c (\<lambda>x. x\<lparr>c_names := Some (epoch s, [host])\<rparr>)))
       (\<lambda>_. handle_autofill_query E c q))))))"

definition unlock_for_names :: "env \<Rightarrow> nat \<Rightarrow> ustr \<Rightarrow> req \<Rightarrow> answer_obj act" where
  "unlock_for_names E c host q = (bindA (getA (closed_state c))
    (\<lambda>st. bindA (getA (\<lambda>r. get_s (c_uid (cobj r c)) r))
    (\<lambda>so. if st \<noteq> ''locked'' \<or> (case so of None \<Rightarrow> True | Some s \<Rightarrow> wipe_after s) then ret [(''state'', P_str st)]
     else (bindA (authorize c Act_autofill_names [(''origin'', host)])
       (\<lambda>_. bindA (getA (\<lambda>r. c_closed (cobj r c)))
       (\<lambda>shut. bindA (guardA (\<not> shut) E_cancelled [])
       (\<lambda>_. bindA (sessA c)
       (\<lambda>s. bindA (getA (\<lambda>r. unlocked r s))
       (\<lambda>op. if op then (bindA (modA (upd_c c (\<lambda>x. x\<lparr>c_names := Some (epoch s, [host])\<rparr>)))
         (\<lambda>_. handle_autofill_query E c q))
       else (bindA (uidA c)
         (\<lambda>uid. tryA (run_store uid (''unlock'', []) False False) (gone_as (closed_reply c))
           (\<lambda>_. unlocked_for_names E c host (epoch s) q))))))))))))"

text \<open>The site joins those named since the last unlock.\<close>

definition add_name :: "nat \<Rightarrow> ustr \<Rightarrow> reg \<Rightarrow> reg" where
  "add_name c host r = (case get_s (c_uid (cobj r c)) r of
      None \<Rightarrow> r
    | Some s \<Rightarrow> upd_c c (\<lambda>x. x\<lparr>c_names := Some (epoch s,
        (case c_names x of Some (e, hs) \<Rightarrow> if e = epoch s then hs @ [host] else [host] | None \<Rightarrow> [host]))\<rparr>) r)"

definition handle_autofill_names :: "env \<Rightarrow> nat \<Rightarrow> req \<Rightarrow> answer_obj act" where
  "handle_autofill_names E c q = (bindA (require_enabled c)
    (\<lambda>_. bindA (liftR (need_field q ''origin''))
    (\<lambda>orig. bindA (liftR (parse_origin orig))
    (\<lambda>host. bindA (doA (open_for c))
    (\<lambda>op. if \<not> op then unlock_for_names E c host q
     else (bindA (getA (named_for c host))
       (\<lambda>named. if named then handle_autofill_query E c q
       else (bindA (authorize c Act_autofill_names [(''origin'', host)])
         (\<lambda>_. bindA (getA (\<lambda>r. c_closed (cobj r c)))
         (\<lambda>shut. bindA (guardA (\<not> shut) E_cancelled [])
         (\<lambda>_. bindA (doA (open_for c))
         (\<lambda>again. if \<not> again then closed_reply c
         else (bindA (modA (add_name c host))
           (\<lambda>_. handle_autofill_query E c q))))))))))))))"

subsection \<open>Fill\<close>

definition note_fill :: "nat \<Rightarrow> string \<Rightarrow> ustr \<Rightarrow> string \<Rightarrow> unit act" where
  "note_fill c i host out = modA (\<lambda>r. notify_ui (c_uid (cobj r c)) (Ev_autofill i host out) r)"

definition secrets_atA :: "addr \<Rightarrow> secrets act" where
  "secrets_atA a = (\<lambda>r. case objs (gheap (gtab r)) a of None \<Rightarrow> (Inl X_other, r) | Some s \<Rightarrow> (Inr s, r))"

definition fill_code :: "env \<Rightarrow> secrets \<Rightarrow> answer_obj act" where
  "fill_code E sec = (bindA (getA (\<lambda>r. seed_of (gheap (gtab r)) sec))
    (\<lambda>sd. if sd = None then ret []
     else (bindA (totp_nowA E sec)
       (\<lambda>(v, t). ret [(''code'', P_text v)]))))"

text \<open>What the approved fill checks again before and after it opens the entry.\<close>

definition fill_open :: "env \<Rightarrow> nat \<Rightarrow> string \<Rightarrow> ustr \<Rightarrow> ustr \<Rightarrow> answer_obj act" where
  "fill_open E c i handle host = (bindA (getA (\<lambda>r. c_closed (cobj r c)))
    (\<lambda>shut. bindA (guardA (\<not> shut) E_cancelled [])
    (\<lambda>_. bindA (doA (open_for c))
    (\<lambda>op. bindA (guardA op E_locked [])
    (\<lambda>_. bindA (matching_meta E c i host)
    (\<lambda>m. bindA (uidA c)
    (\<lambda>uid. bindA (catchA ((bindA (run_store uid (''open_entry'', [A_id i]) False False)
       (\<lambda>v. as_secrets v))) entry_gone_as)
    (\<lambda>a. bindA (doA (open_for c))
    (\<lambda>again. bindA (guardA again E_locked [])
    (\<lambda>_. bindA (secrets_atA a)
    (\<lambda>sec. bindA (fill_code E sec)
    (\<lambda>cd. bindA (sessA c)
    (\<lambda>s. bindA (modA (upd_c c (\<lambda>x. x\<lparr>c_fill := Some (epoch s)\<rparr>)))
    (\<lambda>_. ret ([(''id'', P_text handle), (''username'', P_text (username m)), (''password'', P_text (password sec))] @ cd)))))))))))))))"

definition fill_refused :: "nat \<Rightarrow> string \<Rightarrow> ustr \<Rightarrow> exn \<Rightarrow> answer_obj act" where
  "fill_refused c i host e = (bindA (if e = X_op (OpError E_dismissed []) then note_fill c i host ''dismissed''
     else if e = X_op (OpError E_denied []) then note_fill c i host ''denied'' else ret ())
    (\<lambda>_. raise e))"

definition fill_failed :: "nat \<Rightarrow> string \<Rightarrow> ustr \<Rightarrow> exn \<Rightarrow> answer_obj act" where
  "fill_failed c i host e = (bindA ((case e of X_op x \<Rightarrow> note_fill c i host ''failed'' | _ \<Rightarrow> ret ()))
    (\<lambda>_. raise e))"

definition handle_autofill_fill :: "env \<Rightarrow> nat \<Rightarrow> req \<Rightarrow> answer_obj act" where
  "handle_autofill_fill E c q = (bindA (require_enabled c)
    (\<lambda>_. bindA (liftR (need_field q ''origin''))
    (\<lambda>orig. bindA (liftR (need_field q ''id''))
    (\<lambda>handle. bindA (liftR (parse_origin orig))
    (\<lambda>host. bindA (doA (open_for c))
    (\<lambda>op. bindA (guardA op E_locked [])
    (\<lambda>_. bindA (resolve E c handle)
    (\<lambda>i. bindA (matching_meta E c i host)
    (\<lambda>m. tryA (authorize c Act_autofill [(''account'', page_label m), (''origin'', host)]) (fill_refused c i host)
       (\<lambda>_. tryA (fill_open E c i handle host) (fill_failed c i host)
         (\<lambda>rep. (bindA (note_fill c i host ''filled'')
           (\<lambda>_. ret rep)))))))))))))"

subsection \<open>They keep the registry's invariant\<close>

lemma moves_open_for [moves_intros]: "moves r (fst (open_for c r))"
  by (auto simp: open_for_def Let_def split: option.splits intro!: keeps_moves keeps_touch_autofill)

lemma act_moves_gone [moves_intros]: "act_moves m \<Longrightarrow> act_moves (gone_as m e)"
  by (cases e) (simp_all add: gone_as_def act_moves_simple)

lemma act_moves_entry_gone [moves_intros]: "act_moves (entry_gone_as e)"
  unfolding entry_gone_as_def by (intro moves_intros)

lemma act_moves_autofill_reads [moves_intros]: "act_moves (require_enabled c)" "act_moves (closed_reply c)"
  "act_moves (metasA c)" "act_moves (resolve E c h)" "act_moves (matching_meta E c i host)"
  "act_moves (query_host E c host)" "act_moves (note_fill c i host out)" "act_moves (fill_code E sec)"
proof -
  show 1: "act_moves (require_enabled c)" "act_moves (closed_reply c)" "act_moves (metasA c)"
    "act_moves (note_fill c i host out)" "act_moves (fill_code E sec)"
    unfolding require_enabled_def closed_reply_def metasA_def note_fill_def fill_code_def by (intro moves_intros)+
  show "act_moves (resolve E c h)" "act_moves (matching_meta E c i host)"
    unfolding resolve_def matching_meta_def by (intro moves_intros 1)+
  have "act_moves (query_open E c host ms)" for ms unfolding query_open_def by (intro moves_intros 1)
  then show "act_moves (query_host E c host)" unfolding query_host_def by (intro moves_intros 1)
qed

lemma act_moves_query [moves_intros]: "act_moves (handle_autofill_query E c q)"
  unfolding handle_autofill_query_def by (intro moves_intros)

lemma act_moves_autofill [moves_intros]: "act_moves (handle_autofill_names E c q)"
  "act_moves (handle_autofill_fill E c q)"
proof -
  have 1: "moves r (upd_c c (\<lambda>x. x\<lparr>c_names := n\<rparr>) r)" "moves r (upd_c c (\<lambda>x. x\<lparr>c_fill := f\<rparr>) r)" for r n f
    by (rule moves_conn_data; simp)+
  have 2: "moves r (add_name c host r)" for host r
    by (auto simp: add_name_def split: option.splits intro!: moves_conn_data)
  have 3: "moves r (open_autofill u c r)" for u r by (rule keeps_moves) (rule keeps_open_autofill)
  have 4: "act_moves (unlocked_for_names E c host e q)" for host e
    unfolding unlocked_for_names_def by (intro moves_intros 1 3)
  have 5: "act_moves (unlock_for_names E c host q)" for host
    unfolding unlock_for_names_def by (intro moves_intros 1 4)
  show "act_moves (handle_autofill_names E c q)"
    unfolding handle_autofill_names_def by (intro moves_intros 2 5)
  have 6: "act_moves (secrets_atA a)" for a by (auto simp: act_moves_def secrets_atA_def split: option.splits)
  have 7: "act_moves (fill_open E c i h host)" for i h host
    unfolding fill_open_def by (intro moves_intros 1 6)
  have 8: "act_moves (fill_refused c i host e)" "act_moves (fill_failed c i host e)" for i host e
    unfolding fill_refused_def fill_failed_def by (intro moves_intros)+
  show "act_moves (handle_autofill_fill E c q)"
    unfolding handle_autofill_fill_def by (intro moves_intros 7 8)
qed

end
