(* ===== verification/Dispatch.thy ===== *)
theory Dispatch
  imports AutofillOps
begin

text \<open>
  The table of handlers at the end of \<^verbatim>\<open>backend/icp/daemon/handlers.py\<close>, and what holds of every
  one of them: together they answer exactly the ops of the protocol, and each keeps the
  registry's invariant whatever happens while it waits.
\<close>

definition HANDLERS :: "env \<Rightarrow> (string \<times> (nat \<Rightarrow> req \<Rightarrow> answer_obj act)) list" where
  "HANDLERS E =
     [(''unlock'', op_unlock), (''lock'', op_lock), (''release'', op_release), (''cancel'', op_cancel),
      (''grant'', op_grant), (''reveal'', op_reveal), (''totp'', op_totp E), (''history'', op_history),
      (''copy'', op_copy E), (''set'', op_set E), (''create'', op_create E), (''delete'', op_delete),
      (''totp-preview'', op_totp_preview E), (''signin'', op_signin), (''answer'', op_answer),
      (''signout'', op_signout), (''sync'', op_sync), (''settings'', op_settings),
      (''migrate-begin'', op_migrate_begin E), (''migrate-abandon'', op_migrate_abandon),
      (''tpm-move'', op_tpm_move), (''reset'', op_reset), (''purge-old-copy'', op_purge_old_copy E),
      (''clip-history-check'', op_clip_history_check), (''redeem'', op_redeem),
      (''clip-result'', op_clip_result), (''import-file'', op_import_file E),
      (''import-key'', op_import_key), (''import-commit'', op_import_commit),
      (''purge-result'', op_purge_result), (''autofill-query'', handle_autofill_query E),
      (''autofill-names'', handle_autofill_names E), (''autofill-fill'', handle_autofill_fill E),
      (''autofill-enable'', op_autofill_enable), (''copy-text'', op_copy_text E),
      (''features'', op_features), (''diag-items'', op_diag_items)]"

definition handler :: "env \<Rightarrow> string \<Rightarrow> (nat \<Rightarrow> req \<Rightarrow> answer_obj act) option" where
  "handler E op = dget (HANDLERS E) op"

lemma handler_mem: "handler E op = Some h \<Longrightarrow> (op, h) \<in> set (HANDLERS E)"
  unfolding handler_def dget_def by (rule map_of_SomeD)


lemma handler_moves:
  assumes "handler E op = Some h"
  shows "act_moves (h c q)"
proof -
  have "list_all (\<lambda>(n, h). act_moves (h c q)) (HANDLERS E)"
    unfolding HANDLERS_def list.pred_inject by (simp add: moves_intros)
  then show ?thesis using handler_mem [OF assms] by (auto simp: list_all_iff)
qed

text \<open>
  C5 (every request keeps the registry consistent). Whatever an op does, and whatever other tasks,
  timers and threads do at its awaits, the registry's invariant holds afterwards; the connection
  keeps its user and role; and no session vanishes or goes back to an earlier epoch.
\<close>

theorem request_keeps_registry:
  assumes "handler E op = Some h" and "h c q r = (res, r')" and "rinv r"
  shows "rinv r' \<and> sessions_move r r'"
  using act_movesD [OF handler_moves [OF assms(1)] assms(2)] assms(3) by (simp add: moves_def)

definition example_env :: env where
  "example_env = \<lparr>env_lib = example_lib, env_hmac = (\<lambda>a k m. replicate 20 7), env_sha256 = (\<lambda>_. ''0f''),
     env_made = ascii ''pw'', env_token = ''tok'', env_start_time = (\<lambda>_. Some 99), env_web = example_web,
     env_mac = (\<lambda>k i. replicate 64 (CHR ''a''))\<rparr>"

lemma handler_lock: "handler E ''lock'' = Some op_lock"
  by (simp add: handler_def HANDLERS_def dget_def)

theorem request_keeps_registry_witness:
  "rinv (snd (op_lock 0 [] example_approve)) \<and> sessions_move example_approve (snd (op_lock 0 [] example_approve))"
  using request_keeps_registry [OF handler_lock, of 0 "[]" example_approve] example_approve_ok(1)
  by (metis prod.collapse)

end
