(* ===== verification/Consent.thy ===== *)
theory Consent
  imports Dispatch
begin

text \<open>
  Approvals: which dialogs a handler may raise, and what it may not do before the person has
  approved one.
\<close>

subsection \<open>Frames of the two logs\<close>

lemmas logs_frames = tracked_upd tracked_out tracked_notify tracked_ops tracked_grants tracked_prompts tracked_locks
  tracked_windows tracked_detach tracked_keep_shape tracked_clear_busy tracked_hello

lemmas calls_frames [simp] = logs_frames [THEN trackedD(2)]
lemmas checks_frames [simp] = logs_frames [THEN trackedD(1)]

lemma logs_upd_c [simp]: "calls (upd_c c f r) = calls r" "checks (upd_c c f r) = checks r"
  by (simp_all add: upd_c_def)

lemma logs_fields [simp]:
  "calls (wipe_buffer a r) = calls r" "checks (wipe_buffer a r) = checks r"
  "calls (end_signin c r) = calls r" "checks (end_signin c r) = checks r"
  "calls (add_name c host r) = calls r" "checks (add_name c host r) = checks r"
  "calls (withdraw_offer c r) = calls r" "checks (withdraw_offer c r) = checks r"
  "calls (forget_import c r) = calls r" "checks (forget_import c r) = checks r"
  by (simp_all add: wipe_buffer_def end_signin_def add_name_def withdraw_offer_def Let_def forget_import_def
      split: option.splits)

lemma logs_results [simp]:
  "calls (fst (reopen c all r)) = calls r" "checks (fst (reopen c all r)) = checks r"
  "calls (fst (open_for c r)) = calls r" "checks (fst (open_for c r)) = checks r"
  "calls (fst (cancel_signin_of c n r)) = calls r" "checks (fst (cancel_signin_of c n r)) = checks r"
  "calls (fst (issue_ticket E c ro why i fd v sens ex r)) = calls r"
  "checks (fst (issue_ticket E c ro why i fd v sens ex r)) = checks r"
  "calls (fst (answer_signin c ask w b r)) = calls r" "checks (fst (answer_signin c ask w b r)) = checks r"
  by (auto simp: reopen_def open_for_def Let_def cancel_signin_of_def issue_ticket_def answer_signin_def split_beta
      split: option.splits)

subsection \<open>Which dialogs a coroutine raises\<close>

definition asks :: "nat \<Rightarrow> action set \<Rightarrow> 'a act \<Rightarrow> bool" where
  "asks c A m \<longleftrightarrow> (\<forall>r. \<exists>ds. checks (snd (m r)) = checks r @ ds \<and> (\<forall>d \<in> set ds. fst d = c \<and> fst (snd d) \<in> A))"

named_theorems ask_intros \<open>the dialogs a coroutine raises\<close>

lemma asks_silent: "silent m \<Longrightarrow> asks c A m"
  by (simp add: silent_def asks_def)

lemma asks_step:
  assumes "asks c A m" and "m r = (res, r1)" and "asks c A k"
  shows "\<exists>ds. checks (snd (k r1)) = checks r @ ds \<and> (\<forall>d \<in> set ds. fst d = c \<and> fst (snd d) \<in> A)"
proof -
  obtain ds where "checks r1 = checks r @ ds" "\<forall>d \<in> set ds. fst d = c \<and> fst (snd d) \<in> A"
    using assms(1,2) unfolding asks_def by (metis snd_conv)
  moreover obtain es where "checks (snd (k r1)) = checks r1 @ es" "\<forall>d \<in> set es. fst d = c \<and> fst (snd d) \<in> A"
    using assms(3) unfolding asks_def by metis
  ultimately show ?thesis by (intro exI [of _ "ds @ es"]) auto
qed

lemma asks_seq:
  assumes "asks c A m" and "\<And>res r1. m r = (res, r1) \<Longrightarrow> m' r = k res r1" and "\<And>res. asks c A (k res)"
  shows "\<exists>ds. checks (snd (m' r)) = checks r @ ds \<and> (\<forall>d \<in> set ds. fst d = c \<and> fst (snd d) \<in> A)"
proof -
  obtain res r1 where m: "m r = (res, r1)" by fastforce
  show ?thesis using asks_step [OF assms(1) m assms(3)] assms(2) [OF m] by simp
qed

lemma asks_pure: "asks c A (\<lambda>r. (x, r))"
  by (simp add: asks_def)

lemma asks_bind [ask_intros]: "asks c A m \<Longrightarrow> (\<And>x. asks c A (k x)) \<Longrightarrow> asks c A (bindA m k)"
  unfolding asks_def [of c A "bindA m k"]
  by (rule allI, rule asks_seq [where k = "case_sum (\<lambda>e r. (Inl e, r)) k"])
    (auto simp: bindA_def asks_pure split: sum.splits)

lemma asks_catch [ask_intros]: "asks c A m \<Longrightarrow> (\<And>e. asks c A (h e)) \<Longrightarrow> asks c A (catchA m h)"
  unfolding asks_def [of c A "catchA m h"]
  by (rule allI, rule asks_seq [where k =
      "case_sum (\<lambda>e. if e = X_blocked \<or> e = X_task_cancelled then (\<lambda>r. (Inl e, r)) else h e) (\<lambda>x r. (Inr x, r))"])
    (auto simp: catchA_def asks_pure split: sum.splits)

lemma asks_try [ask_intros]:
  "asks c A m \<Longrightarrow> (\<And>e. asks c A (h e)) \<Longrightarrow> (\<And>x. asks c A (k x)) \<Longrightarrow> asks c A (tryA m h k)"
  unfolding asks_def [of c A "tryA m h k"]
  by (rule allI, rule asks_seq [where k =
      "case_sum (\<lambda>e. if e = X_blocked \<or> e = X_task_cancelled then (\<lambda>r. (Inl e, r)) else h e) k"])
    (auto simp: tryA_def asks_pure split: sum.splits)

lemma asks_finally [ask_intros]: "asks c A m \<Longrightarrow> (\<And>r. checks (f r) = checks r) \<Longrightarrow> asks c A (finallyA m f)"
  unfolding asks_def [of c A "finallyA m f"]
  by (rule allI, rule asks_seq [where k = "\<lambda>res r. if res = Inl X_blocked then (res, r) else (res, f r)"])
    (auto simp: finallyA_def asks_def split: sum.splits)

lemma asks_mod [ask_intros]: "(\<And>r. checks (f r) = checks r) \<Longrightarrow> asks c A (modA f)"
  by (simp add: asks_def modA_def)

lemma asks_do [ask_intros]: "(\<And>r. checks (fst (f r)) = checks r) \<Longrightarrow> asks c A (doA f)"
  by (simp add: asks_def doA_def split_beta)

lemma asks_lift [ask_intros]: "(\<And>r. checks (fst (f r)) = checks r) \<Longrightarrow> asks c A (liftA f)"
  by (simp add: asks_def liftA_def split_beta split: sum.splits)

lemma asks_if [ask_intros]: "(b \<Longrightarrow> asks c A m) \<Longrightarrow> (\<not> b \<Longrightarrow> asks c A k) \<Longrightarrow> asks c A (if b then m else k)"
  by simp

lemma asks_cases [ask_intros]:
  "(\<And>e. asks c A (f e)) \<Longrightarrow> (\<And>x. asks c A (g x)) \<Longrightarrow> asks c A (case x of Inl e \<Rightarrow> f e | Inr x \<Rightarrow> g x)"
  "asks c A k \<Longrightarrow> (\<And>y. asks c A (h y)) \<Longrightarrow> asks c A (case z of None \<Rightarrow> k | Some y \<Rightarrow> h y)"
  "(\<And>a b. asks c A (i a b)) \<Longrightarrow> asks c A (case p of (a, b) \<Rightarrow> i a b)"
  "(\<And>x. asks c A (j x)) \<Longrightarrow> asks c A (Let v j)"
  "(\<And>e. asks c A (l e)) \<Longrightarrow> asks c A k \<Longrightarrow> asks c A (case w of X_op e \<Rightarrow> l e | _ \<Rightarrow> k)"
  by (simp_all split: sum.splits option.splits prod.splits exn.splits)

lemmas [ask_intros] = silent_simple [THEN asks_silent] silent_checks [THEN asks_silent]
  silent_as [THEN asks_silent] silent_store [THEN asks_silent] silent_helpers [THEN asks_silent]
  silent_run_store [THEN asks_silent]

lemmas asks_simple = silent_simple [THEN asks_silent]

lemma asks_authorize [ask_intros]: "act \<in> A \<Longrightarrow> asks c A (authorize c act ds)"
proof -
  assume a: "act \<in> A"
  have c: "checks (close_prompt p r) = checks r" "checks (snd (finish_prompt k c p o0 r)) = checks r"
    "checks (raise_prompt c act b ds r) = checks r @ [(c, act, sanitize_details (db r) ds)]" for p b k o0 r
    by (auto simp: close_prompt_def end_prompt_def raise_prompt_def new_prompt_def Let_def finish_prompt_def
        split: option.splits)
  have w: "checks r3 = checks r1" if "awaitA r1 = (res, r3)" for r1 r3 res
    using trackedD(1) [OF tracked_await [of r1]] that by simp
  show ?thesis
    unfolding asks_def authorize_eq Let_def
    by (auto simp: c a split: option.splits prod.splits sum.splits answer_value.splits dest!: w)
qed

subsection \<open>The dialogs of each op\<close>

lemma logs_grants [simp]:
  "calls (fst (grant_check uid i r)) = calls r" "checks (fst (grant_check uid i r)) = checks r"
  "calls (fst (grant_use uid i r)) = calls r" "checks (fst (grant_use uid i r)) = checks r"
  "calls (fst (put_grant_on c i a r)) = calls r" "checks (fst (put_grant_on c i a r)) = checks r"
  "calls (fst (take_value c r)) = calls r" "checks (fst (take_value c r)) = checks r"
  "calls (fst (note_result c out r)) = calls r" "checks (fst (note_result c out r)) = checks r"
  "calls (fst (with_files c f' r)) = calls r" "checks (fst (with_files c f' r)) = checks r"
  "calls (fst (copy_slot c r)) = calls r" "checks (fst (copy_slot c r)) = checks r"
  "calls (refresh_grant c e g a r) = calls r" "checks (refresh_grant c e g a r) = checks r"
  by (auto simp: grant_check_def grant_use_def Let_def split_beta put_grant_on_def take_value_def note_result_def
      with_files_def copy_slot_def refresh_grant_def split: option.splits)

lemma asks_setS [ask_intros]: "asks c A (setS d f)"
  by (rule asks_silent) (rule silent_checks)

lemma asks_values [ask_intros]:
  "asks c A (case v of V_str t \<Rightarrow> f1 t | V_unit \<Rightarrow> f2 | _ \<Rightarrow> raise e)"
  if "\<And>t. asks c A (f1 t)" and "asks c A f2"
  using that by (auto split: answer_value.splits intro: ask_intros)

lemma asks_entry_helpers [ask_intros]:
  "asks c A (secretsA g)" "asks c A (secrets_atA a)" "asks c A (as_meta_of d i)" "asks c A (end_if d b)"
  "asks c A (check_grantA d i)" "asks c A (use_grantA d i)" "asks c A (totp_nowA E s)" "asks c A (has_seedA s f)"
  "asks c A (sync_after_reply d)" "asks c A (tpm_available d)" "asks c A (unlocked_reply d)"
  "asks c A (open_unless_locked d e all)" "asks c A (offer E d j f' v b)" "asks c A (import_ticketA d why)"
  "asks c A (grant_entry d i a e n)"
proof -
  show "asks c A (secretsA g)" "asks c A (secrets_atA a)"
    by (auto simp: asks_def secretsA_def secrets_atA_def split: option.splits)
  show "asks c A (as_meta_of d i)" "asks c A (end_if d b)" "asks c A (check_grantA d i)" "asks c A (use_grantA d i)"
    "asks c A (totp_nowA E s)" "asks c A (has_seedA s f)" "asks c A (sync_after_reply d)"
    "asks c A (tpm_available d)" "asks c A (unlocked_reply d)" "asks c A (open_unless_locked d e all)"
    "asks c A (offer E d j f' v b)" "asks c A (import_ticketA d why)" "asks c A (grant_entry d i a e n)"
    unfolding as_meta_of_def end_if_def check_grantA_def use_grantA_def totp_nowA_def has_seedA_def
      sync_after_reply_def tpm_available_def unlocked_reply_def open_unless_locked_def offer_def import_ticketA_def
      grant_entry_def
    by (intro ask_intros; simp)+
qed

lemma asks_replace [ask_intros]: "asks c A (replace_store d fn)"
  unfolding replace_store_def by (intro ask_intros) (auto split: answer_value.splits intro: ask_intros)

lemma asks_edits [ask_intros]:
  "asks c A m \<Longrightarrow> asks c A (editing d m)" "Act_manage \<in> A \<Longrightarrow> asks c A (manage c)"
  "asks c A (push_edit d i cl)" "asks c A (after_edit d i e g b ps)"
  "asks c A (open_new_store d e mk)" "asks c A (fresh_store d e)" "asks c A m' \<Longrightarrow> asks c A (catch_op m')"
proof -
  show 1: "asks c A m' \<Longrightarrow> asks c A (catch_op m')" for m' unfolding catch_op_def by (intro ask_intros)
  show "asks c A m \<Longrightarrow> asks c A (editing d m)" unfolding editing_def by (intro ask_intros) simp_all
  show "Act_manage \<in> A \<Longrightarrow> asks c A (manage c)" unfolding manage_def by (intro ask_intros)
  show "asks c A (push_edit d i cl)" unfolding push_edit_def namesA_def set_local_name_def by (intro ask_intros)
  show "asks c A (after_edit d i e g b ps)" unfolding after_edit_def by (intro ask_intros) simp
  show "asks c A (open_new_store d e mk)" "asks c A (fresh_store d e)"
    unfolding open_new_store_def open_if_same_def fresh_store_def replace_and_open_def
    by (intro ask_intros 1; simp)+
qed

lemma asks_window_ops:
  "asks c {Act_unlock} (op_unlock c q)" "asks c {} (op_lock c q)" "asks c {} (op_release c q)"
  "asks c {} (op_cancel c q)" "asks c {} (op_grant c q)" "asks c {} (op_reveal c q)" "asks c {} (op_totp E c q)"
  "asks c {} (op_history c q)" "asks c {} (op_copy E c q)" "asks c {} (op_copy_text E c q)"
  "asks c {Act_manage} (op_tpm_move c q)"
proof -
  have "asks c A (unlock_error x)" "asks c A (unlock_refused x)" for A x
    unfolding unlock_error_def unlock_refused_def
    by (cases x; cases "store_error x"; simp add: asks_simple split: op_error.splits)+
  then show "asks c {Act_unlock} (op_unlock c q)"
    unfolding op_unlock_def unlock_approved_def unlock_opened_def by (intro ask_intros; simp)
qed (unfold op_lock_def op_release_def op_cancel_def op_grant_def op_reveal_def op_totp_def op_history_def op_copy_def
    copied_secret_def copied_meta_def op_copy_text_def op_tpm_move_def; intro ask_intros; simp)+

lemma asks_edit_ops:
  "asks c {} (op_set E c q)" "asks c {Act_manage} (op_create E c q)" "asks c {Act_manage} (op_delete c q)"
  "asks c {} (op_totp_preview E c q)" "asks c {Act_manage} (op_signin c q)" "asks c {} (op_answer c q)"
  "asks c {Act_manage} (op_signout c q)" "asks c {} (op_sync c q)" "asks c {} (op_settings c q)"
  "asks c {Act_manage} (op_autofill_enable c q)" "asks c {Act_manage} (op_features c q)"
  "asks c {Act_manage} (op_diag_items c q)" "asks c {Act_manage} (op_migrate_begin E c q)"
  "asks c {} (op_migrate_abandon c q)" "asks c {Act_manage} (op_reset c q)"
  "asks c {Act_manage} (op_purge_old_copy E c q)" "asks c {Act_manage} (op_clip_history_check c q)"
  unfolding op_set_def op_create_def op_delete_def op_totp_preview_def op_signin_def op_answer_def op_signout_def
    op_sync_def op_settings_def op_autofill_enable_def op_features_def op_diag_items_def op_migrate_begin_def
    op_migrate_abandon_def op_reset_def op_purge_old_copy_def op_clip_history_check_def signin_kind_def signin_run_def
    signin_done_def skipped_def set_settings_def set_features_def
  by (intro ask_intros; simp)+

lemma asks_import_ops:
  "asks c {} (op_redeem c q)" "asks c {} (op_clip_result c q)" "asks c {} (op_import_file E c q)"
  "asks c {} (op_import_key c q)" "asks c {} (op_import_commit c q)" "asks c {} (op_purge_result c q)"
proof -
  have 1: "asks c A (import_error e)" for A e
    unfolding import_error_def by (cases e; cases "store_error e") (simp_all add: asks_simple)
  have 2: "asks c A (commit_done c dir fs v)" for A dir fs v
    unfolding commit_done_def keep_old_copy_def
    by (cases v) (auto intro!: ask_intros)
  show "asks c {} (op_import_commit c q)" unfolding op_import_commit_def by (intro ask_intros 1 2) simp
qed (unfold op_redeem_def op_clip_result_def op_import_file_def op_import_key_def derived_key_def op_purge_result_def;
    intro ask_intros; simp)+

lemma asks_autofill_ops:
  "asks c {} (handle_autofill_query E c q)" "asks c {Act_autofill_names} (handle_autofill_names E c q)"
  "asks c {Act_autofill} (handle_autofill_fill E c q)"
proof -
  have 1: "asks c A m \<Longrightarrow> asks c A (gone_as m e)" "asks c A (entry_gone_as e)" for A e m
    unfolding entry_gone_as_def gone_as_def by (cases e; simp add: asks_simple)+
  have 2: "asks c A (handle_autofill_query E c q)" for A q
    unfolding handle_autofill_query_def query_host_def query_open_def require_enabled_def closed_reply_def metasA_def
    by (intro ask_intros 1; simp)
  show "asks c {} (handle_autofill_query E c q)" by (rule 2)
  show "asks c {Act_autofill_names} (handle_autofill_names E c q)"
    unfolding handle_autofill_names_def unlock_for_names_def unlocked_for_names_def require_enabled_def closed_reply_def
    by (intro ask_intros 1 2; simp)
  show "asks c {Act_autofill} (handle_autofill_fill E c q)"
    unfolding handle_autofill_fill_def fill_open_def fill_refused_def fill_failed_def note_fill_def fill_code_def
      require_enabled_def resolve_def matching_meta_def metasA_def
    by (intro ask_intros 1; simp)
qed

lemma asks_handlers:
  assumes "handler E op = Some h"
  shows "asks c (set_option (PROMPT_ACTION op)) (h c q)"
proof -
  have "list_all (\<lambda>(n, h). asks c (set_option (PROMPT_ACTION n)) (h c q)) (HANDLERS E)"
    unfolding HANDLERS_def PROMPT_ACTION_def
    by (simp add: asks_window_ops asks_edit_ops asks_import_ops asks_autofill_ops)
  then show ?thesis using handler_mem [OF assms] by (auto simp: list_all_iff)
qed



subsection \<open>What waits for an approval\<close>

text \<open>The calls of an op that change the vault, unseal it or hand an entry to a browser.\<close>

definition GUARDED :: "string \<Rightarrow> string set" where
  "GUARDED op =
     (if op = ''unlock'' \<or> op = ''autofill-names'' then {''unlock''}
      else if op = ''create'' then {''apple.create''}
      else if op = ''delete'' then {''apple.delete''}
      else if op = ''signin'' then {''create'', ''apple.login'', ''apple.relogin''}
      else if op = ''signout'' then {''apple.signout''}
      else if op = ''migrate-begin'' then {''create'', ''reset''}
      else if op = ''reset'' then {''reset''}
      else if op = ''features'' then {''save_settings''}
      else if op = ''clip-history-check'' then {''pwmac_matches''}
      else if op = ''tpm-move'' then {''reseal_if_tpm_available''}
      else if op = ''autofill-fill'' then {''open_entry''}
      else {})"

lemma bindA_assoc: "bindA (bindA m k) l = bindA m (\<lambda>x. bindA (k x) l)"
  by (rule ext) (auto simp: bindA_def split: prod.splits sum.splits)

lemma approved_if: "(b \<Longrightarrow> approved_first c act F m) \<Longrightarrow> (\<not> b \<Longrightarrow> approved_first c act F k) \<Longrightarrow>
    approved_first c act F (if b then m else k)"
  by simp

lemma approved_cases:
  "approved_first c act F k \<Longrightarrow> (\<And>y. approved_first c act F (h y)) \<Longrightarrow> approved_first c act F (case z of None \<Rightarrow> k | Some y \<Rightarrow> h y)"
  "(\<And>a b. approved_first c act F (i a b)) \<Longrightarrow> approved_first c act F (case p of (a, b) \<Rightarrow> i a b)"
  "(\<And>x. approved_first c act F (j x)) \<Longrightarrow> approved_first c act F (Let v j)"
  by (simp_all split: option.splits prod.splits)

lemma approved_authorize_last: "approved_first c act F (authorize c act ds)"
  by (rule approved_firstI) (rule only_calls_authorize)

lemma approved_try:
  assumes "\<And>e. only_calls (- F) (h e)" and "\<And>x. only_calls UNIV (k x)"
  shows "approved_first c act F (tryA (authorize c act ds) h k)"
  unfolding approved_first_def
proof
  fix r
  obtain res r1 where m: "authorize c act ds r = (res, r1)" by fastforce
  have c: "calls r1 = calls r" using calls_authorize [of c act ds r] m by simp
  show "approved_before c act F r (snd (tryA (authorize c act ds) h k r))"
  proof (cases res)
    case (Inr x)
    have "approved_before c act F r (snd (bindA (authorize c act ds) k r))"
      using approved_authorize [OF assms(2)] by (simp add: approved_first_def)
    then show ?thesis by (simp add: bindA_def tryA_def m Inr)
  next
    case (Inl e)
    obtain ds where "calls (snd (h e r1)) = calls r1 @ ds" "fst ` set ds \<subseteq> - F"
      using assms(1) unfolding only_calls_def by metis
    then show ?thesis using Inl c
      by (auto simp: tryA_def m intro: approved_before_none [of _ _ "[]"] approved_before_none [of _ _ ds])
  qed
qed

subsection \<open>The calls of the helpers\<close>

lemma only_calls_log:
  "(\<And>r. calls (f r) = calls r) \<Longrightarrow> only_calls F (modA f)"
  "(\<And>r. calls (fst (g r)) = calls r) \<Longrightarrow> only_calls F (doA g)"
  "(\<And>r. calls (fst (l r)) = calls r) \<Longrightarrow> only_calls F (liftA l)"
  by (simp_all add: only_calls_def modA_def doA_def liftA_def split_beta split: sum.splits)

lemma only_calls_try [call_intros]:
  assumes "only_calls F m" and "\<And>e. only_calls F (h e)" and "\<And>x. only_calls F (k x)"
  shows "only_calls F (tryA m h k)"
  unfolding only_calls_def
proof
  fix r
  obtain res r1 where m: "m r = (res, r1)" by fastforce
  show "\<exists>cs. calls (snd (tryA m h k r)) = calls r @ cs \<and> fst ` set cs \<subseteq> F"
    using only_callsD [OF assms(1) m] only_calls_step [OF assms(1) m assms(2)] only_calls_step [OF assms(1) m assms(3)]
    by (cases res) (auto simp: tryA_def m)
qed

lemma only_calls_finally_log:
  assumes "only_calls F m" and "\<And>r. calls (f r) = calls r"
  shows "only_calls F (finallyA m f)"
  unfolding only_calls_def
proof
  fix r
  obtain res r1 where m: "m r = (res, r1)" by fastforce
  show "\<exists>cs. calls (snd (finallyA m f r)) = calls r @ cs \<and> fst ` set cs \<subseteq> F"
    using only_callsD [OF assms(1) m] assms(2) [of r1] by (cases res) (auto simp: finallyA_def m)
qed

lemma only_calls_entry_helpers [call_intros]:
  "only_calls F (secretsA g)" "only_calls F (secrets_atA a)" "only_calls F (end_if d b)"
  "only_calls F (totp_nowA E s)" "only_calls F (has_seedA s f)" "only_calls F (sync_after_reply d)"
  "only_calls F (open_unless_locked d e all)" "only_calls F m \<Longrightarrow> only_calls F (editing d m)"
  "only_calls F m' \<Longrightarrow> only_calls F (catch_op m')" "only_calls F (note_fill d i host out)" "only_calls F (fill_code E s)"
  "only_calls F (require_enabled d)" "only_calls F (closed_reply d)"
proof -
  show "only_calls F (secretsA g)" "only_calls F (secrets_atA a)"
    by (auto simp: only_calls_def secretsA_def secrets_atA_def split: option.splits)
  show 1: "only_calls F (totp_nowA E s)" unfolding totp_nowA_def by (intro call_intros)
  show "only_calls F (end_if d b)" "only_calls F (has_seedA s f)" "only_calls F (sync_after_reply d)"
    "only_calls F (open_unless_locked d e all)" "only_calls F (note_fill d i host out)"
    "only_calls F (fill_code E s)" "only_calls F (require_enabled d)" "only_calls F (closed_reply d)"
    unfolding end_if_def has_seedA_def sync_after_reply_def open_unless_locked_def note_fill_def
      fill_code_def require_enabled_def closed_reply_def
    by (intro only_calls_log call_intros 1; simp)+
  show "only_calls F (editing d m)" if "only_calls F m"
    unfolding editing_def using that by (intro call_intros only_calls_finally_log) simp_all
  show "only_calls F (catch_op m')" if "only_calls F m'" unfolding catch_op_def using that by (intro call_intros)
qed

lemma only_calls_autofill [call_intros]:
  assumes "''list_meta'' \<in> F" and "''get_meta'' \<in> F"
  shows "only_calls F (metasA d)" "only_calls F (resolve E d w)" "only_calls F (matching_meta E d i host)"
    "only_calls F (handle_autofill_query E d q)"
proof -
  have g: "only_calls F m \<Longrightarrow> only_calls F (gone_as m e)" "only_calls F (entry_gone_as e)" for e m
    unfolding entry_gone_as_def gone_as_def by (cases e; simp add: only_calls_simple)+
  show 1: "only_calls F (metasA d)" "only_calls F (matching_meta E d i host)"
    unfolding metasA_def matching_meta_def by (intro call_intros g; simp add: assms)+
  show "only_calls F (resolve E d w)" unfolding resolve_def by (intro call_intros g 1)
  show "only_calls F (handle_autofill_query E d q)"
    unfolding handle_autofill_query_def query_host_def query_open_def
    by (intro call_intros only_calls_log g 1; simp)
qed

lemma only_calls_meta [call_intros]: "''get_meta'' \<in> F \<Longrightarrow> only_calls F (as_meta_of d i)"
  unfolding as_meta_of_def by (intro call_intros) simp

text \<open>With no set to stay in, a coroutine only has to append to the log.\<close>

lemma calls_append [call_intros]:
  "only_calls UNIV (statusA d)" "only_calls UNIV (stateA d)" "only_calls UNIV (apple_call d fn)"
  "only_calls UNIV (save_setting_keys d chs)" "only_calls UNIV (replace_store d fn)"
  "only_calls UNIV (notify_list_after d w)" "only_calls UNIV (resettable d)" "only_calls UNIV (wire_list u)"
  "only_calls UNIV (not_locked_since d e)" "only_calls UNIV (storeA d fn)" "only_calls UNIV (run_store u fn kl rp)"
  "only_calls UNIV (open_new_store d e mk)" "only_calls UNIV (tpm_available d)" "only_calls UNIV (unlocked_reply d)"
  "only_calls UNIV (fresh_store d e)" "only_calls UNIV (metasA d)" "only_calls UNIV (matching_meta E d i host)"
  "only_calls UNIV (handle_autofill_query E d q)"
proof -
  have F: "READS \<subseteq> UNIV" by simp
  show 1: "only_calls UNIV (statusA d)" "only_calls UNIV (stateA d)" "only_calls UNIV (apple_call d fn)"
    "only_calls UNIV (save_setting_keys d chs)" "only_calls UNIV (replace_store d fn)"
    "only_calls UNIV (notify_list_after d w)" "only_calls UNIV (resettable d)" "only_calls UNIV (wire_list u)"
    "only_calls UNIV (not_locked_since d e)" for fn chs
    by (rule only_calls_helpers [OF F], simp?)+
  show "only_calls UNIV (storeA d fn)" "only_calls UNIV (run_store u fn kl rp)"
    "only_calls UNIV (metasA d)" "only_calls UNIV (matching_meta E d i host)"
    "only_calls UNIV (handle_autofill_query E d q)"
    by (intro call_intros; simp)+
  show "only_calls UNIV (open_new_store d e mk)" "only_calls UNIV (tpm_available d)" "only_calls UNIV (unlocked_reply d)"
    "only_calls UNIV (fresh_store d e)"
    unfolding open_new_store_def open_if_same_def tpm_available_def unlocked_reply_def fresh_store_def replace_and_open_def
    by (intro 1 call_intros; simp)+
qed

subsection \<open>Each op waits\<close>

lemma reads_minus [simp]: "READS \<subseteq> - F \<longleftrightarrow> F \<inter> READS = {}"
  by auto

lemma approved_simple: "approved_first c act F (ret x)" "approved_first c act F (raise e)"
  by (rule approved_firstI; rule only_calls_simple)+

lemma approved_guard: "approved_first c act F (guardA b e xs)"
  by (rule approved_firstI) (rule only_calls_simple)

lemma approved_bind_last:
  assumes "approved_first c act F m" and "\<And>x. only_calls (- F) (k x)"
  shows "approved_first c act F (bindA m k)"
  unfolding approved_first_def
proof
  fix r
  obtain res r1 where m: "m r = (res, r1)" by fastforce
  have a: "approved_before c act F r r1"
    using assms(1) m unfolding approved_first_def by (metis snd_conv)
  have "approved_before c act F r (snd (k x r1))" for x
  proof -
    obtain cs where "calls (snd (k x r1)) = calls r1 @ cs" "fst ` set cs \<subseteq> - F"
      using assms(2) unfolding only_calls_def by metis
    then show ?thesis by (intro approved_before_right [OF a, of _ cs]) auto
  qed
  with a show "approved_before c act F r (snd (bindA m k r))"
    by (cases res) (simp_all add: bindA_def m)
qed

lemmas approve = approved_simple approved_authorize approved_try approved_if approved_cases approved_bind

lemma approved_unlock: "approved_first c Act_unlock {''unlock''} (op_unlock c q)"
proof -
  have 1: "only_calls F (unlock_error x)" "only_calls F (unlock_refused x)" for F x
    unfolding unlock_error_def unlock_refused_def
    by (cases x; cases "store_error x"; simp add: only_calls_simple split: op_error.splits)+
  have 2: "only_calls UNIV (unlock_approved c all)" for all
    unfolding unlock_approved_def unlock_opened_def by (intro call_intros 1; simp)
  have 3: "only_calls (- {''unlock''}) (unlocked_reply c)"
    unfolding unlocked_reply_def by (intro call_intros; simp add: READS_def)
  show ?thesis
    unfolding op_unlock_def
    by (intro approve approved_firstI call_intros only_calls_log moves_intros moves_reopen 1 2 3; simp add: READS_def)
qed

lemma approved_manage_ops:
  "approved_first c Act_manage {''reseal_if_tpm_available''} (op_tpm_move c q)"
  "approved_first c Act_manage {''apple.create''} (op_create E c q)"
  "approved_first c Act_manage {''apple.delete''} (op_delete c q)"
  "approved_first c Act_manage {''apple.signout''} (op_signout c q)"
  unfolding op_tpm_move_def op_create_def op_delete_def op_signout_def manage_def bindA_assoc
  by (intro approve call_intros moves_intros; simp add: READS_def)+

lemma approved_signin: "approved_first c Act_manage {''create'', ''apple.login'', ''apple.relogin''} (op_signin c q)"
proof -
  have 1: "only_calls (- {''create'', ''apple.login'', ''apple.relogin''}) (signin_kind c lg st)"
    "act_moves (signin_kind c lg st)" for lg st
    unfolding signin_kind_def by (intro call_intros moves_intros; simp add: READS_def)+
  have 2: "only_calls UNIV (finallyA (signin_run c lg fr e rid) (end_signin c))"
    "only_calls UNIV (signin_done c e sh)" for lg fr e rid sh
    unfolding signin_run_def signin_done_def by (intro call_intros only_calls_finally_log only_calls_log; simp)+
  show ?thesis
    unfolding op_signin_def by (intro approve call_intros moves_intros 1 2; simp add: READS_def)
qed

lemma approved_more_manage_ops:
  "approved_first c Act_manage {''create'', ''reset''} (op_migrate_begin E c q)"
  "approved_first c Act_manage {''reset''} (op_reset c q)"
  "approved_first c Act_manage {''save_settings''} (op_features c q)"
  "approved_first c Act_manage {''pwmac_matches''} (op_clip_history_check c q)"
  "approved_first c Act_manage {} (op_purge_old_copy E c q)"
  "approved_first c Act_manage {} (op_diag_items c q)"
  "approved_first c Act_manage {} (op_autofill_enable c q)"
proof -
  have 1: "approved_first c Act_manage {''save_settings''} (set_features c m)" for m
    unfolding set_features_def by (intro approve call_intros moves_intros; simp add: READS_def)
  show "approved_first c Act_manage {''save_settings''} (op_features c q)"
    unfolding op_features_def
    by (rule approved_bind, (intro call_intros moves_intros)+, rule approved_bind_last)
      (intro approve 1 call_intros moves_intros approved_guard)+
  show "approved_first c Act_manage {''create'', ''reset''} (op_migrate_begin E c q)"
    "approved_first c Act_manage {''reset''} (op_reset c q)"
    "approved_first c Act_manage {''pwmac_matches''} (op_clip_history_check c q)"
    unfolding op_migrate_begin_def op_reset_def op_clip_history_check_def
    by (intro approve call_intros only_calls_log moves_intros; simp add: READS_def)+
  have "only_calls UNIV (op_purge_old_copy E c q)" "only_calls UNIV (op_diag_items c q)"
    "only_calls UNIV (op_autofill_enable c q)"
    unfolding op_purge_old_copy_def op_diag_items_def op_autofill_enable_def
    by (intro call_intros only_calls_log; simp)+
  then show "approved_first c Act_manage {} (op_purge_old_copy E c q)"
    "approved_first c Act_manage {} (op_diag_items c q)" "approved_first c Act_manage {} (op_autofill_enable c q)"
    by (auto intro: approved_firstI)
qed

lemma approved_browser_ops:
  "approved_first c Act_autofill {''open_entry''} (handle_autofill_fill E c q)"
  "approved_first c Act_autofill_names {''unlock''} (handle_autofill_names E c q)"
proof -
  have g: "only_calls F m \<Longrightarrow> only_calls F (gone_as m e)" "only_calls F (entry_gone_as e)"
    for e F and m :: "'x act" unfolding entry_gone_as_def gone_as_def by (cases e; simp add: only_calls_simple)+
  have 1: "only_calls F (fill_refused c i host e)" "only_calls F (fill_failed c i host e)" for F i host e
    unfolding fill_refused_def fill_failed_def by (intro call_intros)+
  have 2: "only_calls UNIV (fill_open E c i w host)" for i w host
    unfolding fill_open_def by (intro call_intros only_calls_log g; simp)
  show "approved_first c Act_autofill {''open_entry''} (handle_autofill_fill E c q)"
    unfolding handle_autofill_fill_def
    by (intro approve call_intros only_calls_log moves_intros 1 2; simp)
  have 3: "only_calls UNIV (unlocked_for_names E c host e q)" for host e
    unfolding unlocked_for_names_def by (intro call_intros only_calls_log; simp)
  have 4: "approved_first c Act_autofill_names {''unlock''} (unlock_for_names E c host q)" for host
    unfolding unlock_for_names_def
    by (intro approve call_intros only_calls_log moves_intros 3 g; simp)
  have 5: "approved_first c Act_autofill_names {''unlock''} (handle_autofill_query E c q)"
    by (rule approved_firstI) (intro call_intros; simp)
  show "approved_first c Act_autofill_names {''unlock''} (handle_autofill_names E c q)"
    unfolding handle_autofill_names_def
    by (intro approve call_intros only_calls_log moves_intros 4 5; simp)
qed

lemma approved_handlers:
  assumes "handler E op = Some h" and "PROMPT_ACTION op = Some act"
  shows "approved_first c act (GUARDED op) (h c q)"
proof -
  have "list_all (\<lambda>(n, h). \<forall>act. PROMPT_ACTION n = Some act \<longrightarrow> approved_first c act (GUARDED n) (h c q)) (HANDLERS E)"
    unfolding HANDLERS_def PROMPT_ACTION_def GUARDED_def
    by (simp add: approved_unlock approved_manage_ops approved_signin approved_more_manage_ops approved_browser_ops)
  then show ?thesis using handler_mem [OF assms(1)] assms(2) by (fastforce simp: list_all_iff)
qed



end
