(* ===== verification/Disclosure.thy ===== *)
theory Disclosure
  imports Consent
begin

text \<open>
  What a reply says. The rules of the first section read a successful run of a handler backwards,
  step by step; the theorems give, for each op that hands out a secret, what must have held.
\<close>

subsection \<open>Reading a successful run backwards\<close>

lemma bindA_Inr: "bindA m k r = (Inr y, r') \<longleftrightarrow> (\<exists>x r1. m r = (Inr x, r1) \<and> k x r1 = (Inr y, r'))"
  by (auto simp: bindA_def split: prod.splits sum.splits)

lemma simple_Inr:
  "ret x r = (Inr y, r') \<longleftrightarrow> y = x \<and> r' = r"
  "raise e r = (Inr y, r') \<longleftrightarrow> False"
  "getA f r = (Inr y, r') \<longleftrightarrow> y = f r \<and> r' = r"
  "guardA b ec xs r = (Inr u, r') \<longleftrightarrow> b \<and> r' = r"
  "modA g r = (Inr u, r') \<longleftrightarrow> r' = g r"
  "liftR v r = (Inr y, r') \<longleftrightarrow> v = Inr y \<and> r' = r"
  "doA d r = (Inr y, r') \<longleftrightarrow> d r = (r', y)"
  "liftA l r = (Inr y, r') \<longleftrightarrow> l r = (r', Inr y)"
  by (auto simp: ret_def raise_def getA_def guardA_def modA_def liftR_def doA_def liftA_def
      split: sum.splits prod.splits)

lemma catchA_Inr: "catchA m h r = (Inr y, r') \<longleftrightarrow> m r = (Inr y, r') \<or>
    (\<exists>e r1. m r = (Inl e, r1) \<and> e \<noteq> X_blocked \<and> e \<noteq> X_task_cancelled \<and> h e r1 = (Inr y, r'))"
  by (auto simp: catchA_def split: prod.splits sum.splits)

lemma tryA_Inr: "tryA m h k r = (Inr y, r') \<longleftrightarrow> (\<exists>x r1. m r = (Inr x, r1) \<and> k x r1 = (Inr y, r')) \<or>
    (\<exists>e r1. m r = (Inl e, r1) \<and> e \<noteq> X_blocked \<and> e \<noteq> X_task_cancelled \<and> h e r1 = (Inr y, r'))"
  by (auto simp: tryA_def split: prod.splits sum.splits)

lemma branch_Inr:
  "(if b then m else k) r = (Inr y, r') \<longleftrightarrow> (b \<and> m r = (Inr y, r') \<or> \<not> b \<and> k r = (Inr y, r'))"
  "(case z of None \<Rightarrow> m1 | Some w \<Rightarrow> m2 w) r = (Inr y, r') \<longleftrightarrow>
     (z = None \<and> m1 r = (Inr y, r') \<or> (\<exists>w. z = Some w \<and> m2 w r = (Inr y, r')))"
  "(case p of (a, b) \<Rightarrow> m3 a b) r = (Inr y, r') \<longleftrightarrow> m3 (fst p) (snd p) r = (Inr y, r')"
  by (auto split: option.splits prod.splits)

lemma secretsA_Inr: "secretsA g r = (Inr s, r') \<longleftrightarrow>
    r' = r \<and> (\<exists>a. g_secrets g = Some a \<and> objs (gheap (gtab r)) a = Some s)"
  by (auto simp: secretsA_def split: option.splits)

lemma secrets_atA_Inr: "secrets_atA a r = (Inr s, r') \<longleftrightarrow> r' = r \<and> objs (gheap (gtab r)) a = Some s"
  by (auto simp: secrets_atA_def split: option.splits)

lemma uidA_Inr: "uidA c r = (Inr u, r') \<longleftrightarrow> r' = r \<and> u = c_uid (cobj r c)"
  by (auto simp: uidA_def getA_def)

lemma as_Inr:
  "as_meta v r = (Inr m, r') \<longleftrightarrow> v = V_meta m \<and> r' = r"
  "as_secrets v r = (Inr a, r') \<longleftrightarrow> v = V_secrets a \<and> r' = r"
  "as_metas v r = (Inr ms, r') \<longleftrightarrow> v = V_metas ms \<and> r' = r"
  by (cases v; auto simp: as_meta_def as_secrets_def as_metas_def ret_def raise_def)+

lemmas runs = bindA_Inr simple_Inr branch_Inr tier1A_Inr stillA_Inr testA_Inr sessA_Inr uidA_Inr secretsA_Inr
  secrets_atA_Inr as_Inr

subsection \<open>A live grant\<close>

definition live_grant :: "nat \<Rightarrow> string \<Rightarrow> grant \<Rightarrow> reg \<Rightarrow> bool" where
  "live_grant c i g r \<longleftrightarrow> dget (grants (gtab r)) (c_uid (cobj r c)) = Some g \<and> g_id g = i \<and> \<not> used g \<and>
     \<not> past_expiry (clock r) g"

lemma expiry_frame [simp]:
  "clock (check_grant_expiry r) = clock r" "wall (check_grant_expiry r) = wall r"
  "sessions (check_grant_expiry r) = sessions r" "db (check_grant_expiry r) = db r"
  "c_uid (cobj (check_grant_expiry r) d) = c_uid (cobj r d)"
  "c_closed (cobj (check_grant_expiry r) d) = c_closed (cobj r d)"
  unfolding check_grant_expiry_def by (rule fold_frame; simp add: split_beta)+

lemma expiry_only_drops:
  "dget (grants (gtab (check_grant_expiry r))) u = Some g \<Longrightarrow> dget (grants (gtab r)) u = Some g"
proof -
  have "dget (grants (gtab (fold (\<lambda>(uid, _). end_grant uid) xs r))) u = Some g \<Longrightarrow>
      dget (grants (gtab r)) u = Some g" for xs :: "(int \<times> string) list" and r
    by (induction xs arbitrary: r) (fastforce simp: grants_end split: if_splits)+
  then show "dget (grants (gtab (check_grant_expiry r))) u = Some g \<Longrightarrow> dget (grants (gtab r)) u = Some g"
    by (simp add: check_grant_expiry_def)
qed

lemma use_grantA_Inr:
  assumes "use_grantA c i r = (Inr (g', ended), r')"
  shows "\<exists>g. live_grant c i g r \<and> g_secrets g' = g_secrets g \<and> ended = single_use g \<and>
    gheap (gtab r') = gheap (gtab (check_grant_expiry r)) \<and> sessions r' = sessions r \<and>
    (\<forall>d. c_uid (cobj r' d) = c_uid (cobj r d)) \<and> db r' = db r"
proof -
  define r1 where "r1 = check_grant_expiry r"
  obtain t res where u: "use_g (clock r) (c_uid (cobj r c)) i (gtab r1) = (t, res)" by fastforce
  have res: "res = Inr (g', ended)" and r': "r' = r1\<lparr>gtab := t\<rparr>"
    using assms by (auto simp: use_grantA_def liftA_def grant_use_def r1_def [symmetric] u Let_def split: sum.splits)
  obtain t1 res1 where ck: "check_g (clock r) (c_uid (cobj r c)) i (gtab r1) = (t1, res1)" by fastforce
  from u res obtain g where g: "res1 = Inr g" "ended = single_use g" "g_secrets g' = g_secrets g"
    "gheap t = gheap t1"
    by (auto simp: use_g_def ck Let_def split: sum.splits if_splits)
  have lv: "dget (grants (gtab r1)) (c_uid (cobj r c)) = Some g \<and> \<not> past_expiry (clock r) g \<and> g_id g = i \<and> \<not> used g"
    using check_g_Inr [of "clock r" "c_uid (cobj r c)" i "gtab r1" g] ck g(1) by simp
  then have "t1 = gtab r1" using ck by (auto simp: check_g_def Let_def split: if_splits)
  with lv g r' show ?thesis
    using expiry_only_drops [of r "c_uid (cobj r c)" g]
    by (auto simp: live_grant_def r1_def)
qed

subsection \<open>Revealing\<close>

text \<open>What the window is shown: a field of the granted entry's own secrets.\<close>

definition shows_field :: "unidb \<Rightarrow> string \<Rightarrow> secrets \<Rightarrow> answer_obj \<Rightarrow> bool" where
  "shows_field u i sec rep \<longleftrightarrow> (\<exists>f \<in> set REVEAL_FIELDS. rep = [(''id'', P_str i), (''field'', P_str f),
     (''value'', P_text (if f = ''password'' then password sec else notes_body u sec)),
     (''hide_after'', P_int REVEAL_HIDE_AFTER_S)])"

definition granted_secrets :: "grant \<Rightarrow> reg \<Rightarrow> secrets option" where
  "granted_secrets g r = (case g_secrets g of None \<Rightarrow> None | Some a \<Rightarrow> objs (gheap (gtab (check_grant_expiry r))) a)"

text \<open>A single-use grant is gone with the reply.\<close>

definition spent :: "nat \<Rightarrow> grant \<Rightarrow> reg \<Rightarrow> bool" where
  "spent c g r' \<longleftrightarrow> (single_use g \<longrightarrow> dget (grants (gtab r')) (c_uid (cobj r' c)) = None)"

lemma name_in_mem: "name_in ns t = Some n \<Longrightarrow> n \<in> set ns \<and> ascii n = t"
  by (auto simp: name_in_def find_Some_iff)

lemma end_if_spends:
  "end_if c b r = (Inr u, r') \<Longrightarrow> b \<longrightarrow> dget (grants (gtab r')) (c_uid (cobj r' c)) = None"
  by (auto simp: end_if_def simple_Inr grants_end)

text \<open>
  C26 (nothing is revealed without a live grant). A successful reveal means that tier 1 was open
  on this very connection and that its user held an unexpired, unused grant on the entry named;
  the value shown is that grant's secret, and a single-use grant is gone afterwards.
\<close>

theorem reveal_needs_live_grant:
  assumes "op_reveal c q r = (Inr rep, r')"
  shows "\<exists>i g s sec. need_id q = Inr i \<and> get_s (c_uid (cobj r c)) r = Some s \<and> open_on c r s \<and>
    live_grant c i g r \<and> granted_secrets g r = Some sec \<and> shows_field (db r) i sec rep \<and> spent c g r'"
proof -
  note h = assms [unfolded op_reveal_def runs split_paired_Ex prod.sel simp_thms]
  from h show ?thesis
  proof (elim exE conjE, goal_cases)
    case (1 i r0 ft r2 f s r3 g' ended r1 sec r4 a u r5 v r6)
    then have u: "use_grantA c i r = (Inr (g', ended), r1)" and e: "end_if c ended r1 = (Inr v, r')" by simp_all
    from use_grantA_Inr [OF u] obtain g where g: "live_grant c i g r" "g_secrets g' = g_secrets g"
      "ended = single_use g" "gheap (gtab r1) = gheap (gtab (check_grant_expiry r))" "db r1 = db r" by blast
    have "granted_secrets g r = Some sec" using 1 g(2,4) by (simp add: granted_secrets_def)
    moreover have "spent c g r'" using end_if_spends [OF e] g(3) by (simp add: spent_def)
    moreover have "shows_field (db r) i sec rep"
      unfolding shows_field_def using 1 g(5) name_in_mem [of REVEAL_FIELDS ft f]
      by (intro bexI [of _ f]) simp_all
    moreover have "need_id q = Inr i" "get_s (c_uid (cobj r c)) r = Some s" "open_on c r s"
      using 1 by (simp_all add: open_on_def)
    ultimately show ?thesis using g(1) by blast
  qed
qed

subsection \<open>Copying\<close>

lemma check_grantA_Inr:
  assumes "check_grantA c i r = (Inr g, r')"
  shows "live_grant c i g r"
proof -
  define r1 where "r1 = check_grant_expiry r"
  have "snd (check_g (clock r) (c_uid (cobj r c)) i (gtab r1)) = Inr g"
    using assms by (auto simp: check_grantA_def liftA_def grant_check_def r1_def [symmetric] Let_def
        split: prod.splits sum.splits)
  then show ?thesis
    using expiry_only_drops [of r "c_uid (cobj r c)" g] by (auto simp: check_g_Inr live_grant_def r1_def)
qed

definition backed_by_grant :: "nat \<Rightarrow> string \<Rightarrow> string \<Rightarrow> reg \<Rightarrow> bool" where
  "backed_by_grant c i f r \<longleftrightarrow> (f \<in> set COPY_FIELDS_NEED_GRANT \<longrightarrow> (\<exists>g. live_grant c i g r))"

lemma copied_secret_Inr: "copied_secret E c i f r = (Inr v, r') \<Longrightarrow> \<exists>g. live_grant c i g r"
  using check_grantA_Inr by (fastforce simp: copied_secret_def bindA_Inr)


subsection \<open>The clipboard process takes its value once\<close>

text \<open>
  C28 (a copied value is handed out once). After a successful redeem the connection's ticket holds
  no value any more, and whatever else runs in the meantime, a second redeem on the connection is
  refused and changes nothing.
\<close>

theorem value_handed_out_once:
  assumes "op_redeem c q r = (Inr rep, r1)"
  shows "map_option t_value (c_ticket (cobj r1 c)) = Some None \<and>
    op_redeem c q' (rev_run es r1) = (Inl (X_op (OpError E_bad_ticket [])), rev_run es r1)"
proof -
  obtain t where t: "c_redeemed (cobj r1 c)" "c_ticket (cobj r1 c) = Some t" "t_value t = None"
    using assms by (auto simp: op_redeem_def runs take_value_def upd_c_def split: option.splits if_splits)
  have "own (cobj (rev_run es r1) c) = own (cobj r1 c)" by (rule trackedD(3)) simp
  then have "c_redeemed (cobj (rev_run es r1) c)" "c_ticket (cobj (rev_run es r1) c) = Some t"
    using t by (auto simp: own_def intro: conn.equality dest: arg_cong [of _ _ c_redeemed] arg_cong [of _ _ c_ticket])
  then have "op_redeem c q' (rev_run es r1) = (Inl (X_op (OpError E_bad_ticket [])), rev_run es r1)"
    by (simp add: op_redeem_def bindA_def liftA_def take_value_def)
  with t show ?thesis by simp
qed

subsection \<open>A locked Pear tells a browser nothing\<close>

lemma browser_start:
  assumes "enabled_for c r" and "need_field q ''origin'' = Inr orig" and "parse_origin orig = Inr host"
    and "open_for c r = (r, False)"
  shows "handle_autofill_query E c q r = (Inr [(''state'', P_str (closed_state c r))], r)"
  using assms(4)
  by (simp add: handle_autofill_query_def require_enabled_def query_host_def closed_reply_def bindA_def getA_def
      guardA_def ret_def liftR_def doA_def assms(1-3))

lemma open_for_closed:
  "open_for c r = (r, False) \<longleftrightarrow> (case get_s (c_uid (cobj r c)) r of None \<Rightarrow> True
     | Some s \<Rightarrow> \<not> unlocked r s \<and> \<not> autofill_open r (Some s) c)"
  by (auto simp: open_for_def Let_def split: option.splits)

text \<open>
  A locked Pear tells a browser nothing. While tier 1 is closed and the store is not open
  for this connection, a query is answered from the keyless state alone, a fill is refused before
  its handle is even looked at, and neither changes anything, calls the store or raises a dialog.
\<close>

theorem closed_browser_learns_nothing:
  assumes "enabled_for c r" and "need_field q ''origin'' = Inr orig" and "parse_origin orig = Inr host"
    and "need_field q ''id'' = Inr w" and "open_for c r = (r, False)"
  shows "handle_autofill_query E c q r = (Inr [(''state'', P_str (closed_state c r))], r) \<and>
    handle_autofill_fill E c q r = (Inl (X_op (OpError E_locked [])), r)"
  using browser_start [OF assms(1-3,5), of E] assms
  by (simp add: handle_autofill_fill_def require_enabled_def bindA_def getA_def
      guardA_def ret_def raise_def liftR_def doA_def)

subsection \<open>Usernames only for a site that was approved\<close>

definition row_names :: "payload \<Rightarrow> bool" where
  "row_names p = (case p of P_obj ps \<Rightarrow> (\<exists>x \<in> set ps. fst x = ''username'' \<or> fst x = ''label'') | _ \<Rightarrow> False)"

definition names_accounts :: "answer_obj \<Rightarrow> bool" where
  "names_accounts rep \<longleftrightarrow> (\<exists>rows. (''accounts'', P_list rows) \<in> set rep \<and> (\<exists>x \<in> set rows. row_names x))"

lemma closed_reply_Inr: "closed_reply c r = (Inr rep, r') \<longleftrightarrow> rep = [(''state'', P_str (closed_state c r))] \<and> r' = r"
  by (auto simp: closed_reply_def runs)

lemma closed_names_nothing: "closed_reply c r = (Inr rep, r') \<Longrightarrow> \<not> names_accounts rep"
  by (simp add: closed_reply_Inr names_accounts_def)

lemma row_names_named: "row_names (account_row E k named x) \<Longrightarrow> named"
  by (auto simp: account_row_def row_names_def split: prod.splits if_splits)

lemma accounts_named: "names_accounts (accounts_reply E host k named rs) \<Longrightarrow> named"
  by (auto simp: names_accounts_def accounts_reply_def dest: row_names_named)


subsection \<open>A fill is for the entry the handle names\<close>

lemma find_in: "find P xs = Some x \<Longrightarrow> P x"
  by (auto simp: find_Some_iff)

lemma calls_await: "awaitA r = (res, r') \<Longrightarrow> calls r' = calls r"
  using trackedD(2) [OF tracked_await [of r]] by simp

lemma run_store_Inr_calls:
  assumes "run_store uid fn False rp r = (Inr v, r')"
  shows "calls r' = calls r @ [fn]"
proof -
  obtain s r1 where s: "store_call uid fn rp s r1 = (Inr v, r')" and c: "calls r1 = calls r"
    using assms by (auto simp: run_store_def bindA_Inr branch_Inr simple_Inr dest: calls_await split: if_splits)
  let ?r0 = "submit fn (upd_s uid (\<lambda>s. s\<lparr>replacing := rp\<rparr>) r1)"
  obtain res r2 where w: "await_worker uid ?r0 = (res, r2)" by fastforce
  then obtain res' where "awaitA ?r0 = (res', r2)" by (auto simp: await_worker_def split: prod.splits if_splits)
  from calls_await [OF this] have "calls r2 = calls r @ [fn]" by (simp add: submit_def c)
  then show ?thesis using s trackedD(2) [OF tracked_run_store_finally]
    by (auto simp: store_call_def Let_def w split: if_splits)
qed

lemma resolve_Inr: "resolve E c w r = (Inr i, r') \<Longrightarrow> \<exists>k. handle_for E k i = w"
  by (auto simp: resolve_def bindA_Inr branch_Inr simple_Inr dest!: find_in)

lemma entry_gone_never: "entry_gone_as e r = (Inr x, r') \<longleftrightarrow> False"
  by (cases e) (auto simp: entry_gone_as_def gone_as_def simple_Inr)

lemma matching_meta_Inr:
  assumes "matching_meta E c i host r = (Inr m, r')"
  shows "calls r' = calls r @ [(''get_meta'', [A_id i])] \<and> match_rank (db r') (env_web E) host m \<noteq> None"
  using assms
  by (auto simp: matching_meta_def bindA_Inr simple_Inr uidA_Inr as_Inr catchA_Inr entry_gone_never
      dest!: run_store_Inr_calls)

lemma open_for_calls: "open_for c r = (r', b) \<Longrightarrow> calls r' = calls r"
  using logs_results(3) [of c r] by simp

lemma fill_code_Inr: "fill_code E sec r = (Inr cd, r') \<Longrightarrow> calls r' = calls r \<and> fst ` set cd \<subseteq> {''code''}"
  by (auto simp: fill_code_def totp_nowA_def bindA_Inr branch_Inr simple_Inr)

definition browser_gets :: "ustr \<Rightarrow> meta \<Rightarrow> secrets \<Rightarrow> answer_obj \<Rightarrow> bool" where
  "browser_gets w m sec rep \<longleftrightarrow> (\<exists>cd. fst ` set cd \<subseteq> {''code''} \<and>
     rep = [(''id'', P_text w), (''username'', P_text (username m)), (''password'', P_text (password sec))] @ cd)"

lemma fill_open_Inr:
  assumes "fill_open E c i w host r = (Inr rep, r')"
  shows "\<exists>pre u m sec. calls r' = pre @ [(''get_meta'', [A_id i]), (''open_entry'', [A_id i])] \<and>
    match_rank u (env_web E) host m \<noteq> None \<and> browser_gets w m sec rep"
proof -
  note h = assms [unfolded fill_open_def runs catchA_Inr entry_gone_never split_paired_Ex prod.sel simp_thms]
  from h show ?thesis
  proof (elim exE conjE, goal_cases)
    case 1
    then show ?case
      by (auto dest!: matching_meta_Inr run_store_Inr_calls open_for_calls fill_code_Inr
          simp: browser_gets_def)
  qed
qed


end
