(* ===== verification/Scenarios.thy ===== *)
theory Scenarios
  imports Disclosure
begin

text \<open>
  Concrete runs of the handlers: a window of uid 1000 on connection 0 with tier 1 open, a browser
  on connection 3, and the scripts that resume their store calls and dialogs. They show that
  the hypotheses of the theorems of theory \<^theory_text>\<open>Disclosure\<close> can hold.
\<close>

subsection \<open>A browser next to an open window\<close>

definition example_window :: session where
  "example_window = (Session_init 1000 0)\<lparr>s_ui := Some 0, tier1 := Some 0, autofill_enabled := True,
     autofill_key := Some 7\<rparr>"

definition example_browser :: "await list \<Rightarrow> call list \<Rightarrow> reg" where
  "example_browser sc cs = example_approve\<lparr>sessions := [(1000, example_window)],
     cobj := (\<lambda>c. if c = 3 then (Conn_init 1000 4243 8 99 1 Autofill)\<lparr>c_fill := Some 0\<rparr>
       else Conn_init 1000 4242 7 99 1 UI), script := sc, calls := cs\<rparr>"

definition resumed :: "meta answer_value \<Rightarrow> await" where
  "resumed v = \<lparr>aw_events = [], aw_result = Inr v, aw_made = None\<rparr>"

definition example_origin :: req where
  "example_origin = [(''origin'', JStr (ascii ''https://Www.www.b.Co'')), (''id'', JStr (handle_for example_env 7 ''a1''))]"

lemma example_browser_reads [simp]:
  "get_s 1000 (example_browser sc cs) = Some example_window"
  "c_uid (cobj (example_browser sc cs) d) = 1000" "\<not> c_closed (cobj (example_browser sc cs) d)"
  "db (example_browser sc cs) = ascii_db" "script (example_browser sc cs) = sc"
  "c_fill (cobj (example_browser sc cs) 3) = Some 0"
  "store_idle (example_browser sc cs) n" "unlocked (example_browser sc cs) example_window"
  "(example_browser sc cs)\<lparr>script := sc'\<rparr> = example_browser sc' cs"
  "submit fn (example_browser sc cs) = example_browser sc (cs @ [fn])"
  "upd_s 1000 (replacing_update (\<lambda>_. False)) (example_browser sc cs) = example_browser sc cs"
  by (simp_all add: example_browser_def get_s_def dget_def Conn_init_def example_approve_def example_reg_def
      Registry_init_def store_idle_def unlocked_def example_window_def submit_def upd_s_def Session_init_def dset_def)

lemma example_window_reads [simp]: "epoch example_window = 0" "autofill_key example_window = Some 7"
  "autofill_enabled example_window" "\<not> wipe_after example_window"
  by (simp_all add: example_window_def Session_init_def)

lemma example_resume: "awaitA (example_browser (resumed v # sc) cs) = (Inr v, example_browser sc cs)"
  by (simp add: awaitA_def resumed_def rev_run_def)

lemma example_read:
  "run_store 1000 fn False False (example_browser (resumed V_unit # resumed v # sc) cs) =
     (Inr v, example_browser sc (cs @ [fn]))"
  by (simp add: run_store_def bindA_def getA_def example_resume store_call_def Let_def await_worker_def
      made_of_def run_store_finally_def)

lemma example_open: "open_for 3 (example_browser sc cs) = (example_browser sc cs, True)"
  by (simp add: open_for_def)

lemma example_field: "need_field example_origin ''origin'' = Inr (ascii ''https://Www.www.b.Co'')"
  "need_field example_origin ''id'' = Inr (handle_for example_env 7 ''a1'')"
  by (simp_all add: need_field_def example_origin_def jget_def)


lemma example_query: "\<exists>rep r'. handle_autofill_query example_env 3 example_origin
    (example_browser [resumed V_unit, resumed (V_metas [example_site ''b.co''])] []) = (Inr rep, r') \<and> names_accounts rep"
  by (simp add: handle_autofill_query_def bindA_def require_enabled_def getA_def enabled_for_def guardA_def ret_def
      example_field liftR_def origin_example query_host_def doA_def example_open catchA_def metasA_def uidA_def
      example_read as_metas_def query_open_def sessA_def)
    (simp add: named_for_def fill_approved_def ranked_def double_www example_env_def names_accounts_def
      accounts_reply_def MAX_ACCOUNTS_def account_row_def row_names_def)

definition example_secret :: secrets where
  "example_secret = \<lparr>password = ascii ''pw'', s_notes = [], totp_secret = None, apple_history = [], totp_params = []\<rparr>"

text \<open>What matters of the registry in the run: two idle awaits per store call, one for the dialog.\<close>

definition like_browser :: "await list \<Rightarrow> bool \<Rightarrow> reg \<Rightarrow> bool" where
  "like_browser sc fresh r \<longleftrightarrow> get_s 1000 r = Some example_window \<and>
     (\<forall>d. c_uid (cobj r d) = 1000 \<and> \<not> c_closed (cobj r d)) \<and> c_role (cobj r 3) = Autofill \<and>
     (\<forall>n. store_idle r n) \<and> script r = sc \<and> db r = ascii_db \<and>
     objs (gheap (gtab r)) 5 = Some example_secret \<and> (fresh \<longrightarrow> pend r = [] \<and> answered r = [])"

lemma like_upd:
  "like_browser sc f r \<Longrightarrow> like_browser sc' f (r\<lparr>script := sc'\<rparr>)"
  "like_browser sc f r \<Longrightarrow> like_browser sc f (submit fn r)"
  "like_browser sc f r \<Longrightarrow> like_browser sc f (upd_s 1000 (replacing_update (\<lambda>_. False)) r)"
proof -
  have "example_window\<lparr>replacing := False\<rparr> = example_window" by (simp add: example_window_def Session_init_def)
  then show "like_browser sc f r \<Longrightarrow> like_browser sc f (upd_s 1000 (replacing_update (\<lambda>_. False)) r)"
    by (simp add: like_browser_def store_idle_def)
qed (auto simp: like_browser_def submit_def store_idle_def get_s_def)

lemma like_await: "like_browser (resumed v # sc) f r \<Longrightarrow> \<exists>r'. awaitA r = (Inr v, r') \<and> like_browser sc f r'"
  using like_upd(1) [of "resumed v # sc" f r sc]
  by (auto simp: like_browser_def awaitA_def resumed_def rev_run_def store_idle_def get_s_def)

lemma like_sess: "like_browser sc f r \<Longrightarrow> get_s 1000 r = Some example_window"
  by (simp add: like_browser_def)

lemma like_conns: "like_browser sc f r \<Longrightarrow> c_uid (cobj r d) = 1000 \<and> \<not> c_closed (cobj r d)"
  by (simp add: like_browser_def)

lemma like_read:
  assumes "like_browser (resumed V_unit # resumed v # sc) f r"
  shows "\<exists>r'. run_store 1000 fn False False r = (Inr v, r') \<and> like_browser sc f r'"
proof -
  obtain r1 where r1: "awaitA r = (Inr V_unit, r1)" "like_browser (resumed v # sc) f r1"
    using like_await [OF assms] by blast
  let ?r2 = "submit fn (upd_s 1000 (replacing_update (\<lambda>_. False)) r1)"
  obtain r3 where r3: "awaitA ?r2 = (Inr v, r3)" "like_browser sc f r3"
    using like_await like_upd(2,3) r1(2) by meson
  have idle: "store_idle r3 n" for n using r3(2) by (simp add: like_browser_def)
  have fin: "like_browser sc f (run_store_finally 1000 0 None True r3)"
    using like_upd(3) [OF r3(2)] like_sess [OF r3(2)]
    by (simp add: run_store_finally_def Let_def)
  then show ?thesis
    using like_sess [OF assms] like_sess [OF r1(2)] r1 r3
    by (simp add: run_store_def bindA_def getA_def store_call_def Let_def await_worker_def made_of_def idle)
qed

lemma like_approve:
  assumes "like_browser (resumed (V_outcome AUTHORIZED) # sc) True r"
  shows "\<exists>r'. authorize 3 act ds r = (Inr (), r') \<and> like_browser sc False r'"
proof -
  let ?r1 = "raise_prompt 3 act ''autofill'' ds (r\<lparr>answered := dset (1000, ''autofill'', act) [] (answered r)\<rparr>)"
  have "like_browser (resumed (V_outcome AUTHORIZED) # sc) False ?r1"
    using assms by (auto simp: like_browser_def raise_prompt_def new_prompt_def Let_def store_idle_def get_s_def)
  from like_await [OF this] obtain r2 where r2: "awaitA ?r1 = (Inr (V_outcome AUTHORIZED), r2)"
    "like_browser sc False r2" by blast
  have "\<not> p_cancelled (prompts r2 (next_prompt r))"
    using r2(1) assms by (auto simp: awaitA_def like_browser_def raise_prompt_def new_prompt_def Let_def rev_run_def
        resumed_def)
  then show ?thesis
    using assms r2
    by (auto simp: authorize_eq like_browser_def Let_def recent_def answered_of_def PROMPT_ANSWERED_PER_MIN_def
        finish_prompt_def settle_def counts_def COUNTED_def close_prompt_def end_prompt_def store_idle_def get_s_def)
qed

lemma like_open: "like_browser sc f r \<Longrightarrow> open_for 3 r = (r, True)"
  by (auto simp: like_browser_def open_for_def unlocked_def example_window_def Let_def)

lemma like_metas:
  assumes "like_browser (resumed V_unit # resumed (V_metas ms) # sc) f r"
  shows "\<exists>r'. metasA 3 r = (Inr ms, r') \<and> like_browser sc f r'"
  using like_read [OF assms, of "(''list_meta'', [])"] assms
  by (auto simp: metasA_def bindA_Inr uidA_Inr as_Inr like_browser_def)

abbreviation example_entry :: meta where
  "example_entry \<equiv> example_site ''b.co''"

lemma like_match:
  assumes "like_browser (resumed V_unit # resumed (V_meta example_entry) # sc) f r"
  shows "\<exists>r'. matching_meta example_env 3 ''a1'' (ascii ''www.b.co'') r = (Inr example_entry, r') \<and> like_browser sc f r'"
proof -
  obtain r' where r': "run_store 1000 (''get_meta'', [A_id ''a1'']) False False r = (Inr (V_meta example_entry), r')"
    "like_browser sc f r'" using like_read [OF assms] by blast
  moreover have "id_text_ok (ascii ''a1'')"
    by (simp add: id_text_ok_def ascii_def id_char_def is_digit_def)
  moreover have "uidA 3 r = (Inr 1000, r)" using assms by (auto simp: uidA_Inr like_browser_def)
  moreover have "db r' = ascii_db" using r'(2) by (simp add: like_browser_def)
  ultimately show ?thesis
    using double_www by (auto simp: matching_meta_def bindA_Inr simple_Inr as_Inr catchA_Inr example_env_def)
qed

text \<open>A fill from query to reply: the list, the entry, the dialog, the entry again, its secrets.\<close>

definition example_fill_script :: "await list" where
  "example_fill_script =
     [resumed V_unit, resumed (V_metas [example_entry]), resumed V_unit, resumed (V_meta example_entry),
      resumed (V_outcome AUTHORIZED), resumed V_unit, resumed (V_meta example_entry), resumed V_unit,
      resumed (V_secrets 5)]"

definition example_fill :: reg where
  "example_fill = (example_browser example_fill_script [])\<lparr>gtab := (gtab Registry_init)\<lparr>gheap :=
     \<lparr>objs = [5 \<mapsto> example_secret], bufs = (\<lambda>_. None)\<rparr>\<rparr>\<rparr>"

lemma example_fill_like: "like_browser example_fill_script True example_fill"
  by (simp add: like_browser_def example_fill_def example_browser_def get_s_def dget_def Conn_init_def
      example_approve_def example_reg_def Registry_init_def store_idle_def)

lemma example_filled: "\<exists>rep r'. handle_autofill_fill example_env 3 example_origin example_fill = (Inr rep, r')"
proof -
  let ?h = "ascii ''www.b.co''" and ?w = "handle_for example_env 7 ''a1''"
  note scr = example_fill_script_def
  obtain r1 where r1: "metasA 3 example_fill = (Inr [example_entry], r1)"
    "like_browser (drop 2 example_fill_script) True r1"
    using like_metas example_fill_like unfolding scr by fastforce
  have w: "id_text_ok ?w \<and> startswith ?w (ascii ''h-'')"
    by (simp add: handle_for_def example_env_def HANDLE_HEX_def id_text_ok_def ascii_def id_char_def list_all_iff)
  have "m_id example_entry = ''a1''" by (simp add: example_site_def example_meta_def)
  then have res: "resolve example_env 3 ?w example_fill = (Inr ''a1'', r1)"
    using r1 w like_sess [OF example_fill_like] example_fill_like
    by (auto simp: resolve_def bindA_Inr sessA_Inr simple_Inr catchA_Inr branch_Inr like_browser_def)
  obtain r2 where r2: "matching_meta example_env 3 ''a1'' ?h r1 = (Inr example_entry, r2)"
    "like_browser (drop 4 example_fill_script) True r2"
    using like_match r1(2) unfolding scr by fastforce
  obtain r3 where r3: "authorize 3 Act_autofill [(''account'', page_label example_entry), (''origin'', ?h)] r2 = (Inr (), r3)"
    "like_browser (drop 5 example_fill_script) False r3"
    using like_approve r2(2) unfolding scr by fastforce
  obtain r4 where r4: "matching_meta example_env 3 ''a1'' ?h r3 = (Inr example_entry, r4)"
    "like_browser (drop 7 example_fill_script) False r4"
    using like_match r3(2) unfolding scr by fastforce
  obtain r5 where r5: "run_store 1000 (''open_entry'', [A_id ''a1'']) False False r4 = (Inr (V_secrets 5), r5)"
    "like_browser [] False r5"
    using like_read [of "V_secrets 5" "[]" False r4] r4(2) unfolding scr by fastforce
  have sec: "secrets_atA 5 r5 = (Inr example_secret, r5)" "fill_code example_env example_secret r5 = (Inr [], r5)"
    using r5(2) by (auto simp: secrets_atA_Inr like_browser_def fill_code_def bindA_Inr simple_Inr branch_Inr
        seed_of_def example_secret_def)
  have fo: "\<exists>rep r6. fill_open example_env 3 ''a1'' ?w ?h r3 = (Inr rep, r6)"
    using r4(1) r5(1) sec like_open [OF r3(2)] like_open [OF r5(2)] like_sess [OF r5(2)] like_conns [OF r3(2)]
      like_conns [OF r4(2)] like_conns [OF r5(2)]
    by (simp add: fill_open_def bindA_def getA_def guardA_def ret_def doA_def uidA_def catchA_def as_secrets_def
        sessA_def modA_def)
  from fo obtain rep r6 where r6: "fill_open example_env 3 ''a1'' ?w ?h r3 = (Inr rep, r6)" by blast
  have start: "open_for 3 example_fill = (example_fill, True)" "enabled_for 3 example_fill"
    using like_open [OF example_fill_like] like_sess [OF example_fill_like] example_fill_like
    by (auto simp: enabled_for_def like_browser_def)
  show ?thesis
    using start res r2(1) r3(1) r6
    by (auto simp: handle_autofill_fill_def bindA_Inr simple_Inr tryA_Inr require_enabled_def example_field
        origin_example note_fill_def)
qed

subsection \<open>The theorems at work\<close>



text \<open>The same browser before any window opened tier 1.\<close>

definition example_closed :: reg where
  "example_closed = (example_browser [] [])\<lparr>sessions := [(1000, (Session_init 1000 0)\<lparr>autofill_enabled := True\<rparr>)]\<rparr>"

theorem closed_browser_learns_nothing_witness:
  "handle_autofill_query example_env 3 example_origin example_closed = (Inr [(''state'', P_str ''locked'')], example_closed) \<and>
   handle_autofill_fill example_env 3 example_origin example_closed = (Inl (X_op (OpError E_locked [])), example_closed)"
proof -
  have "enabled_for 3 example_closed" "open_for 3 example_closed = (example_closed, False)"
    "closed_state 3 example_closed = ''locked''"
    by (simp_all add: example_closed_def enabled_for_def open_for_def closed_state_def get_s_def dget_def
        example_browser_def Conn_init_def Session_init_def unlocked_def autofill_open_def Let_def example_approve_def
        example_reg_def Registry_init_def SEAL_STATES_def)
  then show ?thesis
    using closed_browser_learns_nothing [of 3 example_closed example_origin _ _ _ example_env]
    by (simp add: example_field origin_example)
qed

definition example_granted :: reg where
  "example_granted = (example_browser [] [])\<lparr>gtab := \<lparr>gheap = \<lparr>objs = [5 \<mapsto> example_secret], bufs = (\<lambda>_. None)\<rparr>,
     grants = [(1000, \<lparr>g_ref = 0, g_uid = 1000, g_id = ''a1'', g_secrets = Some 5, single_use = True,
        expires_mono = None, expires_wall = None, used = False\<rparr>)], last_ended = [], next_ref = 2\<rparr>\<rparr>"

definition example_reveal :: req where
  "example_reveal = [(''id'', JStr (ascii ''a1'')), (''field'', JStr (ascii ''password''))]"

lemma example_reveal_fields:
  "need_id example_reveal = Inr ''a1''" "need_str example_reveal ''field'' = Inr (ascii ''password'')"
  "name_in REVEAL_FIELDS (ascii ''password'') = Some ''password''"
  "name_in COPY_FIELDS (ascii ''password'') = Some ''password''"
proof -
  have "text_id (ascii t) = t" for t by (simp add: text_id_def ascii_def comp_def)
  moreover have "valid_id (JStr (ascii ''a1''))"
    by (simp add: valid_id_def ascii_def id_char_def is_digit_def chop_newline_def Let_def)
  ultimately show "need_id example_reveal = Inr ''a1''"
    by (simp add: need_id_def need_str_def example_reveal_def jget_def)
qed (simp_all add: need_str_def example_reveal_def jget_def name_in_def REVEAL_FIELDS_def COPY_FIELDS_def ascii_def)

lemma example_granted_use:
  "check_grantA 0 ''a1'' example_granted = (Inr \<lparr>g_ref = 0, g_uid = 1000, g_id = ''a1'', g_secrets = Some 5, single_use = True,
        expires_mono = None, expires_wall = None, used = False\<rparr>, example_granted)"
  "\<exists>g r'. use_grantA 0 ''a1'' example_granted = (Inr (g, True), r') \<and> g_secrets g = Some 5 \<and>
     objs (gheap (gtab r')) 5 = Some example_secret"
  by (simp_all add: check_grantA_def use_grantA_def liftA_def grant_check_def grant_use_def Let_def
      check_grant_expiry_def due_g_def past_expiry_def check_g_def use_g_def example_granted_def dget_def)

lemma example_tier1: "tier1A 0 example_granted = (Inr example_window, example_granted)"
  by (simp add: tier1A_Inr example_granted_def get_s_def) (simp add: example_browser_def dget_def example_window_def unlocked_def Conn_init_def)

lemma example_revealed: "\<exists>rep r'. op_reveal 0 example_reveal example_granted = (Inr rep, r')"
proof -
  obtain g r' where u: "use_grantA 0 ''a1'' example_granted = (Inr (g, True), r')" "g_secrets g = Some 5"
    "objs (gheap (gtab r')) 5 = Some example_secret"
    using example_granted_use(2) by blast
  then have "secretsA g r' = (Inr example_secret, r')" by (simp add: secretsA_Inr)
  with u show ?thesis
    by (simp add: op_reveal_def bindA_def liftR_def example_reveal_fields ret_def example_tier1 getA_def end_if_def modA_def)
qed

theorem reveal_needs_live_grant_witness:
  "\<exists>rep r'. op_reveal 0 example_reveal example_granted = (Inr rep, r') \<and> (\<exists>g. live_grant 0 ''a1'' g example_granted)"
proof -
  obtain rep r' where h: "op_reveal 0 example_reveal example_granted = (Inr rep, r')" using example_revealed by blast
  from reveal_needs_live_grant [OF h] h show ?thesis by (auto simp: example_reveal_fields)
qed

lemma example_copied: "\<exists>rep r'. op_copy example_env 0 example_reveal example_granted = (Inr rep, r')"
proof -
  obtain g r' where u: "use_grantA 0 ''a1'' example_granted = (Inr (g, True), r')" using example_granted_use(2) by blast
  have "secretsA \<lparr>g_ref = 0, g_uid = 1000, g_id = ''a1'', g_secrets = Some 5, single_use = True,
        expires_mono = None, expires_wall = None, used = False\<rparr> example_granted = (Inr example_secret, example_granted)"
    by (simp add: secretsA_Inr) (simp add: example_granted_def)
  with u show ?thesis
    by (simp add: op_copy_def bindA_def liftR_def example_reveal_fields ret_def example_tier1 getA_def end_if_def modA_def
        copied_secret_def COPY_FIELDS_NEED_GRANT_def example_granted_use(1) offer_def doA_def split_beta)
qed


definition example_clip :: reg where
  "example_clip = upd_c 3 (\<lambda>x. x\<lparr>c_role := Clip, c_ticket := Some \<lparr>token = ''tok'', t_uid = 1000, t_role = Clip,
     purpose = ''copy'', ui_conn = 0, ui_pid = 4242, ui_start_time = 99, issued = 0, t_id = Some ''a1'',
     t_field = Some ''password'', t_value = Some (ascii ''pw''), sensitive = True, t_extra = []\<rparr>\<rparr>) (example_browser [] [])"

theorem value_handed_out_once_witness:
  "\<exists>rep r1. op_redeem 3 [] example_clip = (Inr rep, r1) \<and>
     op_redeem 3 [] (rev_run [R_clock 5] r1) = (Inl (X_op (OpError E_bad_ticket [])), rev_run [R_clock 5] r1)"
proof -
  have "\<exists>rep r1. op_redeem 3 [] example_clip = (Inr rep, r1)"
    by (simp add: op_redeem_def bindA_def liftA_def take_value_def example_clip_def upd_c_def sessA_def ret_def
        example_browser_def Conn_init_def get_s_def dget_def)
  then show ?thesis using value_handed_out_once by blast
qed

end
