(* ===== verification/Chunks.thy ===== *)
theory Chunks
  imports ImportOps
begin

text \<open>
  The receiving side of an import against its specification: a file is the list of the chunks
  accepted for it. The handler keeps one growing buffer, a counter and a flag (\<^verbatim>\<open>data["files"]\<close>);
  the specification keeps the chunks.
\<close>

subsection \<open>The specification\<close>

type_synonym chunk_log = "string \<rightharpoonup> nat list list \<times> bool"

definition accepts :: "int \<Rightarrow> ustr \<Rightarrow> nat list list \<times> bool \<Rightarrow> bool" where
  "accepts sq b64 f = (case b64decode b64 of None \<Rightarrow> False
     | Some chunk \<Rightarrow> \<not> snd f \<and> sq = int (length (fst f)) \<and> length chunk \<le> IMPORT_CHUNK_MAX \<and>
         length (concat (fst f)) + length chunk \<le> IMPORT_FILE_MAX)"

definition log_of :: "chunk_log \<Rightarrow> string \<Rightarrow> nat list list \<times> bool" where
  "log_of A n = (case A n of None \<Rightarrow> ([], False) | Some f \<Rightarrow> f)"

definition log_chunk :: "string \<Rightarrow> int \<Rightarrow> ustr \<Rightarrow> bool \<Rightarrow> chunk_log \<Rightarrow> chunk_log" where
  "log_chunk n sq b64 eof A =
     (if accepts sq b64 (log_of A n)
      then A(n \<mapsto> (fst (log_of A n) @ [the (b64decode b64)], eof)) else A(n := None))"

text \<open>What a file record stands for.\<close>

definition file_rep :: "(nat list \<Rightarrow> string) \<Rightarrow> import_file \<Rightarrow> nat list list \<times> bool \<Rightarrow> bool" where
  "file_rep sha f a \<longleftrightarrow> f_buf f = concat (fst a) \<and> f_seq f = int (length (fst a)) \<and> f_done f = snd a \<and>
     f_sha256 f = (if snd a then sha (concat (fst a)) else [])"

definition files_rep :: "(nat list \<Rightarrow> string) \<Rightarrow> files \<Rightarrow> chunk_log \<Rightarrow> bool" where
  "files_rep sha fs A \<longleftrightarrow> (\<forall>n. rel_option (file_rep sha) (dget fs n) (A n))"

lemma files_rep_get:
  assumes "files_rep sha fs A"
  shows "dget fs n = None \<longleftrightarrow> A n = None" and "dget fs n = Some f \<Longrightarrow> \<exists>a. A n = Some a \<and> file_rep sha f a"
  using assms unfolding files_rep_def by (metis option.rel_distinct option.exhaust option.rel_inject(2))+

lemma files_rep_put:
  "files_rep sha fs A \<Longrightarrow> file_rep sha f a \<Longrightarrow> files_rep sha (dset n f fs) (A(n \<mapsto> a))"
  by (simp add: files_rep_def)

lemma files_rep_del: "files_rep sha fs A \<Longrightarrow> files_rep sha (ddel n fs) (A(n := None))"
  by (simp add: files_rep_def)

text \<open>
  A file is its chunks. The handler of a chunk implements the log: it keeps exactly the chunks
  the specification accepts, drops the file on every other, and a finished file carries the
  digest of the concatenation.
\<close>

theorem put_chunk_refines:
  assumes "files_rep sha fs A"
  shows "files_rep sha (fst (put_chunk sha n sq b64 eof fs)) (log_chunk n sq b64 eof A) \<and>
    (isl (snd (put_chunk sha n sq b64 eof fs)) \<longleftrightarrow> \<not> accepts sq b64 (log_of A n))"
proof -
  define f where "f = (case dget fs n of None \<Rightarrow> new_file | Some f \<Rightarrow> f)"
  define a where "a = log_of A n"
  have "A n = None \<or> (\<exists>g a. dget fs n = Some g \<and> A n = Some a \<and> file_rep sha g a)"
    using files_rep_get [OF assms, of n] by (cases "dget fs n") auto
  then have fa: "file_rep sha f a"
    using files_rep_get(1) [OF assms, of n]
    by (auto simp: f_def a_def log_of_def new_file_def file_rep_def split: option.splits)
  have dn: "(dget fs n \<noteq> None \<and> f_done f) = snd a"
    using fa files_rep_get(1) [OF assms, of n]
    by (cases "dget fs n") (auto simp: f_def a_def file_rep_def log_of_def)
  have len: "length (f_buf f) = length (concat (fst a))" and seq: "f_seq f = int (length (fst a))"
    using fa by (simp_all add: file_rep_def)
  show ?thesis
  proof (cases "accepts sq b64 a")
    case True
    then obtain b where b: "b64decode b64 = Some b" "\<not> snd a" "sq = int (length (fst a))"
      "length b \<le> IMPORT_CHUNK_MAX" "length (concat (fst a)) + length b \<le> IMPORT_FILE_MAX"
      by (auto simp: accepts_def split: option.splits)
    let ?g = "f\<lparr>f_buf := f_buf f @ b, f_seq := f_seq f + 1, f_done := eof,
      f_sha256 := (if eof then sha (f_buf f @ b) else [])\<rparr>"
    have "put_chunk sha n sq b64 eof fs = (dset n ?g fs, Inr ?g)"
      unfolding put_chunk_def Let_def f_def [symmetric] dn using b by (simp add: len seq)
    moreover have "file_rep sha ?g (fst a @ [b], eof)" using fa by (simp add: file_rep_def)
    ultimately show ?thesis
      using True b(1) files_rep_put [OF assms] by (simp add: log_chunk_def a_def)
  next
    case False
    then have "b64decode b64 = None \<or> snd a \<or> sq \<noteq> int (length (fst a)) \<or>
        (\<exists>b. b64decode b64 = Some b \<and> (length b > IMPORT_CHUNK_MAX \<or>
          length (concat (fst a)) + length b > IMPORT_FILE_MAX))"
      by (auto simp: accepts_def split: option.splits)
    then have "\<exists>fld. put_chunk sha n sq b64 eof fs = refuse_file n fld fs"
      unfolding put_chunk_def Let_def f_def [symmetric] dn by (auto simp: len seq split: option.splits)
    then show ?thesis
      using False files_rep_del [OF assms] by (auto simp: log_chunk_def a_def refuse_file_def invalid_def)
  qed
qed

subsection \<open>Runs of chunks\<close>

type_synonym chunk_req = "string \<times> int \<times> ustr \<times> bool"

definition chunk_step :: "(nat list \<Rightarrow> string) \<Rightarrow> chunk_req \<Rightarrow> files \<Rightarrow> files" where
  "chunk_step sha x fs = (case x of (n, sq, b64, eof) \<Rightarrow> fst (put_chunk sha n sq b64 eof fs))"

definition chunk_run :: "(nat list \<Rightarrow> string) \<Rightarrow> chunk_req list \<Rightarrow> files \<Rightarrow> files" where
  "chunk_run sha qs fs = fold (chunk_step sha) qs fs"

definition files_ok :: "string set \<Rightarrow> files \<Rightarrow> bool" where
  "files_ok N fs \<longleftrightarrow> dict_ok fs \<and> (\<forall>x \<in> set fs. fst x \<in> N \<and> length (f_buf (snd x)) \<le> IMPORT_FILE_MAX)"

lemma files_ok_dset: "files_ok N fs \<Longrightarrow> n \<in> N \<Longrightarrow> length (f_buf f) \<le> IMPORT_FILE_MAX \<Longrightarrow> files_ok N (dset n f fs)"
proof -
  assume a: "files_ok N fs" "n \<in> N" "length (f_buf f) \<le> IMPORT_FILE_MAX"
  have "x \<in> set (dset n f fs) \<Longrightarrow> x = (n, f) \<or> x \<in> set fs" for x
    using a(1) by (cases x) (auto simp: files_ok_def dict_ok_items [of "dset n f fs"] dict_ok_items [of fs] split: if_splits)
  with a show "files_ok N (dset n f fs)" by (fastforce simp: files_ok_def)
qed

lemma files_ok_ddel: "files_ok N fs \<Longrightarrow> files_ok N (ddel n fs)"
  by (auto simp: files_ok_def dict_ok_items split: if_splits)

lemma files_ok_put:
  assumes "files_ok N fs" and "n \<in> N"
  shows "files_ok N (fst (put_chunk sha n sq b64 eof fs))"
  using files_ok_dset [OF assms] files_ok_ddel [OF assms(1), of n]
  by (simp add: put_chunk_def Let_def refuse_file_def split: option.splits)

lemma files_ok_run: "files_ok N fs \<Longrightarrow> fst ` set qs \<subseteq> N \<Longrightarrow> files_ok N (chunk_run sha qs fs)"
  by (induction qs arbitrary: fs) (auto simp: chunk_run_def chunk_step_def files_ok_put split: prod.splits)

lemma files_ok_total:
  assumes "files_ok (set ns) fs"
  shows "sum_list (map (\<lambda>x. length (f_buf (snd x))) fs) \<le> length ns * IMPORT_FILE_MAX"
proof -
  have "length fs = card (fst ` set fs)"
    using assms distinct_card [of "map fst fs"] by (simp add: files_ok_def dict_ok_def)
  also have "\<dots> \<le> card (set ns)" using assms by (intro card_mono) (auto simp: files_ok_def)
  also have "\<dots> \<le> length ns" by (rule card_length)
  finally have n: "length fs \<le> length ns" .
  have "sum_list (map (\<lambda>x. length (f_buf (snd x))) fs) \<le> length fs * IMPORT_FILE_MAX"
    using assms sum_list_mono [of fs "\<lambda>x. length (f_buf (snd x))" "\<lambda>_. IMPORT_FILE_MAX"]
    by (simp add: files_ok_def sum_list_triv)
  also have "\<dots> \<le> length ns * IMPORT_FILE_MAX" using n by (rule mult_le_mono1)
  finally show ?thesis .
qed

text \<open>
  An import cannot fill the daemon's memory. Whatever chunks an import process sends, in any order
  and number, the files kept for it are among the eight known names and take at most eight times the
  limit of a file together.
\<close>

theorem import_memory_bounded:
  assumes "fst ` set qs \<subseteq> set IMPORT_FILES"
  shows "sum_list (map (\<lambda>x. length (f_buf (snd x))) (chunk_run sha qs [])) \<le> 8 * IMPORT_FILE_MAX"
proof -
  have "files_ok (set IMPORT_FILES) (chunk_run sha qs [])"
    using assms by (intro files_ok_run) (simp_all add: files_ok_def)
  from files_ok_total [OF this] show ?thesis by (simp add: IMPORT_FILES_def)
qed

subsection \<open>Sending a whole file\<close>

definition file_chunks :: "string \<Rightarrow> ustr list \<Rightarrow> chunk_req list" where
  "file_chunks n ts = map (\<lambda>i. (n, int i, ts ! i, Suc i = length ts)) [0..<length ts]"

definition received :: "(nat list \<Rightarrow> string) \<Rightarrow> nat list list \<Rightarrow> bool \<Rightarrow> import_file" where
  "received sha bs d = \<lparr>f_buf = concat bs, f_seq = int (length bs), f_done = d,
     f_sha256 = (if d then sha (concat bs) else [])\<rparr>"

lemma put_next:
  assumes "dget fs n = (if bs = [] then None else Some (received sha bs False))" and "b64decode t = Some b"
    and "length b \<le> IMPORT_CHUNK_MAX" and "length (concat bs) + length b \<le> IMPORT_FILE_MAX"
  shows "dget (fst (put_chunk sha n (int (length bs)) t e fs)) n = Some (received sha (bs @ [b]) e)"
  using assms by (auto simp: put_chunk_def Let_def received_def new_file_def)

definition sends :: "ustr list \<Rightarrow> nat list list \<Rightarrow> bool" where
  "sends ts bs \<longleftrightarrow> list_all2 (\<lambda>t b. b64decode t = Some b \<and> length b \<le> IMPORT_CHUNK_MAX) ts bs \<and>
     length (concat bs) \<le> IMPORT_FILE_MAX"

lemma send_prefix:
  assumes "sends ts bs" and "dget fs n = None" and "k \<le> length ts"
  shows "dget (chunk_run sha (take k (file_chunks n ts)) fs) n =
    (if k = 0 then None else Some (received sha (take k bs) (k = length ts)))"
  using assms(3)
proof (induction k)
  case (Suc k)
  let ?fs = "chunk_run sha (take k (file_chunks n ts)) fs"
  have k: "k < length ts" "k < length bs" and b: "b64decode (ts ! k) = Some (bs ! k)"
    "length (bs ! k) \<le> IMPORT_CHUNK_MAX"
    using Suc.prems assms(1) by (auto simp: sends_def list_all2_conv_all_nth)
  have "concat bs = concat (take k bs) @ bs ! k @ concat (drop (Suc k) bs)"
    using id_take_nth_drop [OF k(2)] by (metis concat.simps(2) concat_append)
  then have sz: "length (concat (take k bs)) + length (bs ! k) \<le> IMPORT_FILE_MAX"
    using assms(1) by (simp add: sends_def)
  have "take (Suc k) (file_chunks n ts) = take k (file_chunks n ts) @ [(n, int k, ts ! k, Suc k = length ts)]"
    using k by (simp add: file_chunks_def take_Suc_conv_app_nth)
  then have "chunk_run sha (take (Suc k) (file_chunks n ts)) fs =
      fst (put_chunk sha n (int k) (ts ! k) (Suc k = length ts) ?fs)"
    by (simp add: chunk_run_def chunk_step_def)
  moreover have "dget ?fs n = (if take k bs = [] then None else Some (received sha (take k bs) False))"
    using Suc k by (cases "k = 0") auto
  ultimately show ?case
    using put_next [of ?fs n "take k bs" sha "ts ! k" "bs ! k" "Suc k = length ts"] b sz k
    by (simp add: take_Suc_conv_app_nth)
qed (simp add: chunk_run_def assms(2))

text \<open>
  A file sent in order arrives. Sending the encoded chunks of a file in order, numbered from
  zero and the last one marked, ends with that file complete, equal to the concatenation of the
  chunks and with its digest, however it was cut.
\<close>

theorem file_sent_arrives:
  assumes "sends ts bs" and "ts \<noteq> []" and "dget fs n = None"
  shows "dget (chunk_run sha (file_chunks n ts) fs) n =
    Some \<lparr>f_buf = concat bs, f_seq = int (length bs), f_done = True, f_sha256 = sha (concat bs)\<rparr>"
proof -
  have "length bs = length ts" using assms(1) by (auto simp: sends_def list_all2_lengthD)
  moreover have "take (length ts) (file_chunks n ts) = file_chunks n ts" by (simp add: file_chunks_def)
  ultimately show ?thesis
    using send_prefix [OF assms(1,3) le_refl, of sha] assms(2) by (simp add: received_def)
qed

subsection \<open>Examples\<close>

lemma example_b64: "b64decode (ascii ''SGk='') = Some [72, 105]" "b64decode (ascii ''IQ=='') = Some [33]"
  by (simp_all add: b64decode_def ascii_def b64_value_def Let_def)

theorem file_sent_arrives_witness:
  "dget (chunk_run (\<lambda>_. ''0f'') (file_chunks ''kdf.json'' [ascii ''SGk='', ascii ''IQ=='']) []) ''kdf.json'' =
     Some \<lparr>f_buf = [72, 105, 33], f_seq = 2, f_done = True, f_sha256 = ''0f''\<rparr>"
  using file_sent_arrives [of "[ascii ''SGk='', ascii ''IQ=='']" "[[72, 105], [33]]" "[]" "''kdf.json''" "\<lambda>_. ''0f''"]
  by (simp add: sends_def example_b64 IMPORT_CHUNK_MAX_def IMPORT_FILE_MAX_def)

theorem import_memory_bounded_witness:
  "sum_list (map (\<lambda>x. length (f_buf (snd x)))
     (chunk_run (\<lambda>_. ''0f'') [(''kdf.json'', 0, ascii ''SGk='', True), (''kdf.json'', 1, ascii ''IQ=='', True)] []))
   \<le> 8 * IMPORT_FILE_MAX"
  by (rule import_memory_bounded) (simp add: IMPORT_FILES_def)

theorem put_chunk_refines_witness:
  "files_rep (\<lambda>_. ''0f'') (fst (put_chunk (\<lambda>_. ''0f'') ''kdf.json'' 0 (ascii ''SGk='') True []))
     (log_chunk ''kdf.json'' 0 (ascii ''SGk='') True Map.empty) \<and> accepts 0 (ascii ''SGk='') ([], False)"
  using put_chunk_refines [of "\<lambda>_. ''0f''" "[]" Map.empty "''kdf.json''" 0 "ascii ''SGk=''" True]
  by (simp add: files_rep_def accepts_def example_b64 IMPORT_CHUNK_MAX_def IMPORT_FILE_MAX_def)

end
