(* ===== verification/Server.thy ===== *)
theory Server
  imports Dispatch
begin

text \<open>
  One client connection: \<^verbatim>\<open>backend/icp/daemon/server.py\<close>. A connection reads lines, answers some at
  once, and starts a task for each request it accepts; the tasks end in any order. \<^verbatim>\<open>json.loads\<close> of
  a line is a parameter (\<open>None\<close> is one of the exceptions \<^verbatim>\<open>parse_line\<close> catches).
\<close>

subsection \<open>Reading a line\<close>

datatype input = In_eof | In_overrun | In_line "nat list"

datatype 'a read = R_none | R_too_large | R_got 'a

definition read_line :: "input \<Rightarrow> nat list read" where
  "read_line i = (case i of
      In_eof \<Rightarrow> R_none
    | In_overrun \<Rightarrow> R_too_large
    | In_line bs \<Rightarrow> if length bs > MAX_REQUEST_LINE then R_too_large else R_got bs)"

text \<open>\<^verbatim>\<open>BadLine\<close>, with the request id it could read.\<close>

datatype bad_line = BadLine "int option"

definition server_parse_line :: "(nat list \<Rightarrow> json option) \<Rightarrow> nat list \<Rightarrow> bad_line + int \<times> ustr \<times> req" where
  "server_parse_line loads bs =
     (case loads bs of
        Some (JObj q) \<Rightarrow>
          (case jget q ''rid'' of
             Some (JInt rid) \<Rightarrow>
               if \<not> (0 \<le> rid \<and> rid \<le> MAX_RID) then Inl (BadLine None)
               else (case jget q ''op'' of
                   Some (JStr t) \<Rightarrow> Inr (rid, t, q)
                 | _ \<Rightarrow> Inl (BadLine (Some rid)))
           | _ \<Rightarrow> Inl (BadLine None))
      | _ \<Rightarrow> Inl (BadLine None))"

subsection \<open>What is sent\<close>

datatype sent =
    S_error "int option" op_error
  | S_proto int
  | S_reply int answer_obj

fun sent_rid :: "sent \<Rightarrow> int option" where
  "sent_rid (S_error rid e) = rid"
| "sent_rid (S_proto rid) = Some rid"
| "sent_rid (S_reply rid p) = Some rid"

definition without_rid :: "answer_obj \<Rightarrow> answer_obj" where
  "without_rid d = filter (\<lambda>kv. fst kv \<noteq> ''rid'') d"

abbreviation refusal :: "int option \<Rightarrow> err_code \<Rightarrow> sent" where
  "refusal rid k \<equiv> S_error rid (OpError k [])"

subsection \<open>A request\<close>

definition in_request :: "nat \<Rightarrow> int \<Rightarrow> reg \<Rightarrow> reg" where
  "in_request c rid r = r\<lparr>request := Some (c, rid), after := []\<rparr>"

definition run_request :: "env \<Rightarrow> nat \<Rightarrow> int \<Rightarrow> string \<Rightarrow> req \<Rightarrow> sent act" where
  "run_request E c rid op q = (\<lambda>r.
     case handler E op of
       None \<Rightarrow> (Inr (refusal (Some rid) E_internal), r)
     | Some h \<Rightarrow> (case h c q (in_request c rid r) of
           (Inr p, r1) \<Rightarrow> (Inr (S_reply rid (without_rid p)), (flush_after r1)\<lparr>request := None\<rparr>)
         | (Inl (X_op e), r1) \<Rightarrow> (Inr (S_error (Some rid) e), (flush_after r1)\<lparr>request := None\<rparr>)
         | (Inl e, r1) \<Rightarrow>
             if e = X_blocked \<or> e = X_task_cancelled then (Inl e, r1)
             else (Inr (refusal (Some rid) E_internal), (flush_after r1)\<lparr>request := None\<rparr>)))"

subsection \<open>The first line\<close>

datatype hello_gate = H_close "sent list" | H_hello int role req

definition json_is :: "json option \<Rightarrow> int \<Rightarrow> bool" where
  "json_is v n = (case v of Some (JInt i) \<Rightarrow> i = n | Some (JFloat x) \<Rightarrow> x = of_int n | _ \<Rightarrow> False)"

definition role_named :: "json option \<Rightarrow> role option" where
  "role_named v = (case v of
      Some (JStr t) \<Rightarrow>
        if t = ascii ''ui'' then Some UI else if t = ascii ''clip'' then Some Clip
        else if t = ascii ''migrate'' then Some Migrate else if t = ascii ''autofill'' then Some Autofill
        else None
    | _ \<Rightarrow> None)"

text \<open>\<open>None\<close> is the timeout.\<close>

definition hello_line :: "(nat list \<Rightarrow> json option) \<Rightarrow> input option \<Rightarrow> hello_gate" where
  "hello_line loads i =
     (case i of
        None \<Rightarrow> H_close [refusal None E_hello_required]
      | Some i' \<Rightarrow> (case read_line i' of
          R_none \<Rightarrow> H_close []
        | R_too_large \<Rightarrow> H_close [refusal None E_too_large]
        | R_got bs \<Rightarrow> (case server_parse_line loads bs of
            Inl b \<Rightarrow> H_close [refusal None E_hello_required]
          | Inr (rid, op, q) \<Rightarrow>
              if op \<noteq> ascii ''hello'' then H_close [refusal None E_hello_required]
              else if \<not> json_is (jget q ''proto'') PROTO then H_close [S_proto rid]
              else (case role_named (jget q ''role'') of
                  None \<Rightarrow> H_close []
                | Some ro \<Rightarrow> H_hello rid ro q))))"

text \<open>The greeting: its reply, and whether the connection goes on.\<close>

definition greet :: "env \<Rightarrow> nat \<Rightarrow> int \<Rightarrow> req \<Rightarrow> (sent \<times> bool) act" where
  "greet E c rid q = (\<lambda>r.
     case hello E c q (in_request c rid r) of
       (Inr p, r1) \<Rightarrow> (Inr (S_reply rid (without_rid p), True), flush_after (attach c (r1\<lparr>request := None\<rparr>)))
     | (Inl (X_op e), r1) \<Rightarrow> (Inr (S_error (Some rid) e, False), r1\<lparr>request := None, after := []\<rparr>)
     | (Inl e, r1) \<Rightarrow>
         if e = X_blocked \<or> e = X_task_cancelled then (Inl e, r1)
         else (Inr (refusal (Some rid) E_internal, False), r1\<lparr>request := None, after := []\<rparr>))"

subsection \<open>The loop\<close>

datatype gate = G_close "sent list" | G_answer sent | G_start int string req

definition loop_line :: "(nat list \<Rightarrow> json option) \<Rightarrow> role \<Rightarrow> nat \<Rightarrow> input \<Rightarrow> gate" where
  "loop_line loads ro running i =
     (case read_line i of
        R_none \<Rightarrow> G_close []
      | R_too_large \<Rightarrow> G_close [refusal None E_too_large]
      | R_got bs \<Rightarrow> (case server_parse_line loads bs of
          Inl (BadLine rid) \<Rightarrow> G_answer (refusal rid E_bad_request)
        | Inr (rid, t, q) \<Rightarrow> (case name_in ALL_OPS t of
            None \<Rightarrow> G_answer (refusal (Some rid) E_unknown_op)
          | Some op \<Rightarrow>
              if op \<notin> set (ROLE_OPS ro) then G_answer (refusal (Some rid) E_forbidden)
              else if running \<ge> MAX_INFLIGHT then G_answer (refusal (Some rid) E_too_many)
              else G_start rid op q)))"

lemma starts_iff:
  "loop_line loads ro running (In_line bs) = G_start rid op q \<longleftrightarrow>
     length bs \<le> MAX_REQUEST_LINE \<and> loads bs = Some (JObj q) \<and> jget q ''rid'' = Some (JInt rid) \<and>
     0 \<le> rid \<and> rid \<le> MAX_RID \<and> jget q ''op'' = Some (JStr (ascii op)) \<and> op \<in> set (ROLE_OPS ro) \<and>
     running < MAX_INFLIGHT"
proof -
  have parse: "server_parse_line loads bs = Inr (rid, t, q) \<longleftrightarrow> loads bs = Some (JObj q) \<and>
      jget q ''rid'' = Some (JInt rid) \<and> 0 \<le> rid \<and> rid \<le> MAX_RID \<and> jget q ''op'' = Some (JStr t)" for t rid q
    by (auto simp: server_parse_line_def split: option.splits json.splits)
  have mem: "op \<in> set (ROLE_OPS ro) \<Longrightarrow> op \<in> set ALL_OPS"
    by (cases ro) (auto simp: ALL_OPS_def)
  have "text_id (ascii t) = t" for t by (simp add: text_id_def ascii_def comp_def)
  then have inj: "ascii a = ascii b \<longleftrightarrow> a = b" for a b by metis
  have name: "name_in ALL_OPS t = Some op \<longleftrightarrow> op \<in> set ALL_OPS \<and> t = ascii op" for t
  proof
    assume "op \<in> set ALL_OPS \<and> t = ascii op"
    then have "find (\<lambda>n. ascii n = t) ALL_OPS \<noteq> None" by (auto simp: find_None_iff)
    then show "name_in ALL_OPS t = Some op"
      using \<open>op \<in> set ALL_OPS \<and> t = ascii op\<close> by (auto simp: name_in_def find_Some_iff inj)
  qed (auto simp: name_in_def find_Some_iff)
  show ?thesis
  proof
    assume "loop_line loads ro running (In_line bs) = G_start rid op q"
    then show "length bs \<le> MAX_REQUEST_LINE \<and> loads bs = Some (JObj q) \<and> jget q ''rid'' = Some (JInt rid) \<and>
        0 \<le> rid \<and> rid \<le> MAX_RID \<and> jget q ''op'' = Some (JStr (ascii op)) \<and> op \<in> set (ROLE_OPS ro) \<and>
        running < MAX_INFLIGHT"
      by (auto simp: loop_line_def read_line_def parse name
          split: sum.splits bad_line.splits option.splits if_splits)
  next
    assume a: "length bs \<le> MAX_REQUEST_LINE \<and> loads bs = Some (JObj q) \<and> jget q ''rid'' = Some (JInt rid) \<and>
        0 \<le> rid \<and> rid \<le> MAX_RID \<and> jget q ''op'' = Some (JStr (ascii op)) \<and> op \<in> set (ROLE_OPS ro) \<and>
        running < MAX_INFLIGHT"
    then have "server_parse_line loads bs = Inr (rid, ascii op, q)" by (simp add: parse)
    moreover have "name_in ALL_OPS (ascii op) = Some op" using a mem by (simp add: name)
    ultimately show "loop_line loads ro running (In_line bs) = G_start rid op q"
      using a by (simp add: loop_line_def read_line_def)
  qed
qed

text \<open>
  Which requests are served. A task is started for a line exactly when the line is within the size
  limit and is an object with a valid request id and an op the connection's role may send, while fewer
  than sixteen requests are running.
\<close>

theorem request_starts_iff:
  "loop_line loads ro running (In_line bs) = G_start rid op q \<longleftrightarrow>
     length bs \<le> MAX_REQUEST_LINE \<and> loads bs = Some (JObj q) \<and> jget q ''rid'' = Some (JInt rid) \<and>
     0 \<le> rid \<and> rid \<le> MAX_RID \<and> jget q ''op'' = Some (JStr (ascii op)) \<and> op \<in> set (ROLE_OPS ro) \<and>
     running < MAX_INFLIGHT"
  by (rule starts_iff)

subsection \<open>The state of a connection's loop\<close>

text \<open>
  \<open>tasks\<close> are the requests running (\<^verbatim>\<open>conn.tasks\<close>), \<open>read_rids\<close> the request ids of the lines read,
  \<open>outs\<close> the answers given to them (\<^verbatim>\<open>send\<close> drops an answer when the connection is closed) and
  \<open>farewell\<close> what is sent for the line that ends the loop.
\<close>

record loop =
  l_role :: role
  l_open :: bool
  tasks :: "(int \<times> string) list"
  outs :: "sent list"
  farewell :: "sent list"
  read_rids :: "int option list"

definition loop_init :: "role \<Rightarrow> loop" where
  "loop_init ro = \<lparr>l_role = ro, l_open = True, tasks = [], outs = [], farewell = [], read_rids = []\<rparr>"

inductive loop_step :: "(nat list \<Rightarrow> json option) \<Rightarrow> loop \<Rightarrow> loop \<Rightarrow> bool" for loads where
  Answer: "l_open s \<Longrightarrow> loop_line loads (l_role s) (length (tasks s)) i = G_answer o' \<Longrightarrow>
    loop_step loads s (s\<lparr>outs := outs s @ [o'], read_rids := read_rids s @ [sent_rid o']\<rparr>)"
| Start: "l_open s \<Longrightarrow> loop_line loads (l_role s) (length (tasks s)) i = G_start rid op q \<Longrightarrow>
    loop_step loads s (s\<lparr>tasks := tasks s @ [(rid, op)], read_rids := read_rids s @ [Some rid]\<rparr>)"
| Close: "l_open s \<Longrightarrow> loop_line loads (l_role s) (length (tasks s)) i = G_close os \<Longrightarrow>
    loop_step loads s (s\<lparr>l_open := False, farewell := os\<rparr>)"
| Finish: "(rid, op) \<in> set (tasks s) \<Longrightarrow> sent_rid o' = Some rid \<Longrightarrow>
    loop_step loads s (s\<lparr>tasks := remove1 (rid, op) (tasks s), outs := outs s @ [o']\<rparr>)"

inductive loop_reach :: "(nat list \<Rightarrow> json option) \<Rightarrow> role \<Rightarrow> loop \<Rightarrow> bool" for loads ro where
  Init: "loop_reach loads ro (loop_init ro)"
| Step: "loop_reach loads ro s \<Longrightarrow> loop_step loads s s' \<Longrightarrow> loop_reach loads ro s'"

lemma loop_line_start: "loop_line loads ro n i = G_start rid op q \<Longrightarrow> op \<in> set (ROLE_OPS ro) \<and> n < MAX_INFLIGHT"
  by (auto simp: loop_line_def split: read.splits sum.splits bad_line.splits option.splits if_splits)

definition loop_ok :: "role \<Rightarrow> loop \<Rightarrow> bool" where
  "loop_ok ro s \<longleftrightarrow> l_role s = ro \<and> length (tasks s) \<le> MAX_INFLIGHT \<and>
     list_all (\<lambda>t. snd t \<in> set (ROLE_OPS ro)) (tasks s) \<and>
     mset (map sent_rid (outs s)) + mset (map (Some \<circ> fst) (tasks s)) = mset (read_rids s)"

lemma loop_ok_reach: "loop_reach loads ro s \<Longrightarrow> loop_ok ro s"
proof (induction rule: loop_reach.induct)
  case (Step s s')
  from Step.hyps(2) show ?case
  proof (cases rule: loop_step.cases)
    case (Finish rid op o')
    have "mset (tasks s) = add_mset (rid, op) (mset (remove1 (rid, op) (tasks s)))" using Finish(2) by simp
    then have "mset (map (Some \<circ> fst) (tasks s)) =
        add_mset (Some rid) (mset (map (Some \<circ> fst) (remove1 (rid, op) (tasks s))))"
      by (simp only: mset_map image_mset_add_mset comp_apply fst_conv)
    then show ?thesis
      using Step.IH Finish by (auto simp: loop_ok_def length_remove1 list_all_iff dest: set_remove1_subset [THEN subsetD])
  qed (use Step.IH in \<open>auto simp: loop_ok_def dest: loop_line_start\<close>)
qed (simp add: loop_ok_def loop_init_def)

text \<open>
  Requests in flight. However lines and finishing tasks interleave, a connection never has more than
  sixteen requests running, and every one of them is an op its role may send.
\<close>

theorem requests_in_flight:
  assumes "loop_reach loads ro s"
  shows "length (tasks s) \<le> MAX_INFLIGHT \<and> list_all (\<lambda>t. snd t \<in> set (ROLE_OPS ro)) (tasks s)"
  using loop_ok_reach [OF assms] by (simp add: loop_ok_def)


text \<open>
  A request answers under its own id. Unless its task is cancelled or still waiting, a request ends in
  exactly one answer, with the request's own id and no other \<^verbatim>\<open>rid\<close> in its payload, whatever its handler
  raised; and the registry's invariant holds then.
\<close>

theorem request_answers_once:
  assumes "run_request E c rid op q r = (Inr out, r')" and "rinv r"
  shows "sent_rid out = Some rid \<and> (case out of S_reply _ p \<Rightarrow> dget p ''rid'' = None | _ \<Rightarrow> True) \<and>
    rinv r' \<and> request r' = (if handler E op = None then request r else None)"
proof (cases "handler E op")
  case None
  then show ?thesis using assms by (auto simp: run_request_def)
next
  case (Some h)
  obtain res r1 where h: "h c q (in_request c rid r) = (res, r1)" by fastforce
  have "rinv (in_request c rid r)" using assms(2) unfolding in_request_def by (intro inv_intros)
  then have r1: "rinv r1" using act_movesD [OF handler_moves [OF Some] h] movesD(1) by blast
  have w: "dget (without_rid p) ''rid'' = None" for p
    by (simp add: without_rid_def dget_def map_of_eq_None_iff image_iff)
  have "rinv ((fold run_after xs (r2\<lparr>after := []\<rparr>))\<lparr>request := None\<rparr>)" if "rinv r2" for xs r2
    by (intro inv_intros) (auto intro!: rinv_fold inv_intros that simp: run_after_def split: after_act.splits)
  then show ?thesis
    using assms(1) r1
    by (auto simp: run_request_def Some h w flush_after_def split: sum.splits exn.splits if_splits)
qed

subsection \<open>The theorems at work\<close>

text \<open>A line that is not JSON, then a request to lock, still running.\<close>

definition example_loads :: "nat list \<Rightarrow> json option" where
  "example_loads bs = (if bs = [123] then Some (JObj [(''rid'', JInt 7), (''op'', JStr (ascii ''lock''))]) else None)"

theorem request_starts_iff_witness:
  "loop_line example_loads UI 3 (In_line [123]) =
     G_start 7 ''lock'' [(''rid'', JInt 7), (''op'', JStr (ascii ''lock''))]"
  unfolding request_starts_iff
  by (simp add: example_loads_def MAX_REQUEST_LINE_def jget_def MAX_RID_def MAX_INFLIGHT_def)

lemma example_loop:
  "loop_reach example_loads UI \<lparr>l_role = UI, l_open = True, tasks = [], outs = [refusal None E_bad_request],
     farewell = [], read_rids = [None]\<rparr>"
proof -
  have "loop_step example_loads (loop_init UI) ((loop_init UI)\<lparr>outs := outs (loop_init UI) @ [refusal None E_bad_request],
      read_rids := read_rids (loop_init UI) @ [sent_rid (refusal None E_bad_request)]\<rparr>)"
    by (rule loop_step.Answer [where i = "In_line [125]"])
      (simp_all add: loop_init_def loop_line_def read_line_def MAX_REQUEST_LINE_def server_parse_line_def example_loads_def)
  from loop_reach.Step [OF loop_reach.Init this] show ?thesis by (simp add: loop_init_def)
qed

lemma example_loop_started:
  "loop_reach example_loads UI \<lparr>l_role = UI, l_open = True, tasks = [(7, ''lock'')], outs = [refusal None E_bad_request],
     farewell = [], read_rids = [None, Some 7]\<rparr>"
proof -
  let ?s = "\<lparr>l_role = UI, l_open = True, tasks = [], outs = [refusal None E_bad_request], farewell = [],
    read_rids = [None]\<rparr>"
  have "loop_step example_loads ?s (?s\<lparr>tasks := tasks ?s @ [(7, ''lock'')], read_rids := read_rids ?s @ [Some 7]\<rparr>)"
    by (rule loop_step.Start [where i = "In_line [123]" and q = "[(''rid'', JInt 7), (''op'', JStr (ascii ''lock''))]"]) (simp, simp only: loop.select_convs starts_iff,
        simp add: example_loads_def MAX_REQUEST_LINE_def jget_def MAX_RID_def MAX_INFLIGHT_def)
  from loop_reach.Step [OF example_loop this] show ?thesis by simp
qed

theorem requests_in_flight_witness: "length [(7 :: int, ''lock'')] \<le> MAX_INFLIGHT \<and> ''lock'' \<in> set (ROLE_OPS UI)"
  using requests_in_flight [OF example_loop_started] by simp


theorem request_answers_once_witness:
  "\<exists>out r'. run_request example_env 0 7 ''lock'' [] example_approve = (Inr out, r') \<and> sent_rid out = Some 7"
proof -
  have "\<exists>out r'. run_request example_env 0 7 ''lock'' [] example_approve = (Inr out, r')"
    by (simp add: run_request_def handler_lock op_lock_def bindA_def uidA_def getA_def modA_def ret_def)
  then show ?thesis using request_answers_once [OF _ example_approve_ok(1)] by blast
qed

end
