(* ===== verification/Scheduler.thy ===== *)
theory Scheduler
  imports Calls
begin

text \<open>
  The timer of \<^verbatim>\<open>backend/icp/daemon/scheduler.py\<close>: idle locks, due syncs and expired grants, every
  five seconds. The random interval is a parameter: \<open>iv uid\<close> is what \<^verbatim>\<open>interval()\<close> draws for the
  session of \<open>uid\<close> in this tick, which calls it at most once per session.
\<close>

datatype decision = Idle_lock int | Sync int

definition interval_ok :: "real \<Rightarrow> bool" where
  "interval_ok d \<longleftrightarrow> SYNC_INTERVAL_S - SYNC_JITTER_S \<le> d \<and> d \<le> SYNC_INTERVAL_S + SYNC_JITTER_S"

definition due :: "reg \<Rightarrow> session \<Rightarrow> bool" where
  "due r s \<longleftrightarrow> (case next_sync_at s of None \<Rightarrow> False | Some t \<Rightarrow> clock r \<ge> t)"

definition idle_too_long :: "reg \<Rightarrow> session \<Rightarrow> bool" where
  "idle_too_long r s \<longleftrightarrow> idle_lock_s (s_settings s) \<noteq> 0 \<and>
     clock r - last_ui_request s \<ge> of_int (idle_lock_s (s_settings s))"

definition schedule :: "int \<Rightarrow> real option \<Rightarrow> reg \<Rightarrow> reg" where
  "schedule uid t r = upd_s uid (\<lambda>s. s\<lparr>next_sync_at := t\<rparr>) r"

text \<open>The body of the loop over the sessions.\<close>

definition tick_one :: "(int \<Rightarrow> real) \<Rightarrow> int \<Rightarrow> reg \<Rightarrow> reg \<times> decision list" where
  "tick_one iv uid r = (case get_s uid r of
      None \<Rightarrow> (r, [])
    | Some s \<Rightarrow>
        if \<not> unlocked r s then (if due r s then schedule uid None r else r, [])
        else if idle_too_long r s then (fst (lock uid (Some ''idle'') True r), [Idle_lock uid])
        else if next_sync_at s = None then (schedule uid (Some (clock r + iv uid)) r, [])
        else if due r s then (schedule uid (Some (clock r + iv uid)) r, [Sync uid])
        else (r, []))"

fun tick_all :: "(int \<Rightarrow> real) \<Rightarrow> int list \<Rightarrow> reg \<Rightarrow> reg \<times> decision list" where
  "tick_all iv [] r = (r, [])"
| "tick_all iv (uid # uids) r =
     (let (r1, ds) = tick_one iv uid r; (r2, es) = tick_all iv uids r1 in (r2, ds @ es))"

definition tick :: "(int \<Rightarrow> real) \<Rightarrow> reg \<Rightarrow> reg \<times> decision list" where
  "tick iv r = (let (r1, ds) = tick_all iv (map fst (sessions r)) r in (check_grant_expiry r1, ds))"

subsection \<open>One session at a time\<close>

lemma keeps_schedule: "keeps r (schedule uid t r)"
  unfolding schedule_def by (rule keeps_upd_s) (auto simp: sess_ok_def)

lemma keeps_tick_one: "keeps r (fst (tick_one iv uid r))"
  by (auto simp: tick_one_def keeps_schedule keeps_lock intro: keeps_refl split: option.splits)

text \<open>A step for one uid is invisible to the others.\<close>

definition same_view :: "int \<Rightarrow> reg \<Rightarrow> reg \<Rightarrow> bool" where
  "same_view u r r' \<longleftrightarrow> get_s u r' = get_s u r \<and> clock r' = clock r \<and>
     (\<forall>s. get_s u r = Some s \<longrightarrow> unlocked r' s = unlocked r s)"

lemma same_view_refl: "same_view u r r"
  by (simp add: same_view_def)

lemma same_view_trans: "same_view u r r1 \<Longrightarrow> same_view u r1 r2 \<Longrightarrow> same_view u r r2"
  by (simp add: same_view_def)

lemma same_view_schedule: "u \<noteq> uid \<Longrightarrow> same_view u r (schedule uid t r)"
  by (auto simp: same_view_def schedule_def unlocked_def split: option.splits)

lemma same_view_lock:
  assumes "rinv r" and "u \<noteq> uid"
  shows "same_view u r (fst (lock uid why n r))"
proof (cases "get_s uid r")
  case None
  then show ?thesis by (simp add: lock_none same_view_refl)
next
  case (Some s)
  have "unlocked (fst (lock uid why n r)) t = unlocked r t" if "get_s u r = Some t" for t
  proof -
    have "c_role (cobj r c) = UI" if "s_ui t = Some c" for c
      using rinvD(2) [OF assms(1) \<open>get_s u r = Some t\<close>] that by (simp add: sess_ok_def)
    then show ?thesis
      by (auto simp: unlocked_def lock_is_core [OF Some] c_closed_lock_core split: option.splits)
  qed
  then show ?thesis
    using assms(2) by (simp add: same_view_def lock_is_core [OF Some] get_s_lock_core [OF Some] lock_core_fields)
qed

lemma same_view_tick: "rinv r \<Longrightarrow> u \<noteq> uid \<Longrightarrow> same_view u r (fst (tick_one iv uid r))"
  by (auto simp: tick_one_def same_view_refl same_view_schedule same_view_lock split: option.splits)

lemma tick_all_other:
  "rinv r \<Longrightarrow> u \<notin> set uids \<Longrightarrow> same_view u r (fst (tick_all iv uids r)) \<and> rinv (fst (tick_all iv uids r)) \<and>
     Idle_lock u \<notin> set (snd (tick_all iv uids r)) \<and> Sync u \<notin> set (snd (tick_all iv uids r))"
proof (induction uids arbitrary: r)
  case (Cons uid uids)
  obtain r1 ds where o: "tick_one iv uid r = (r1, ds)" by fastforce
  have r1: "rinv r1" "same_view u r r1"
    using keeps_tick_one [of r iv uid] same_view_tick [of r u uid iv] Cons.prems o by (auto simp: keeps_def)
  have "Idle_lock u \<notin> set ds" "Sync u \<notin> set ds"
    using Cons.prems(2) o by (auto simp: tick_one_def split: option.splits if_splits)
  then show ?case
    using Cons.IH [OF r1(1)] Cons.prems(2) r1(2) by (auto simp: o split_beta Let_def intro: same_view_trans)
qed (simp add: same_view_refl)

text \<open>What a tick does to a uid is what the body of its loop does to it, seen from the start.\<close>

lemma tick_all_self:
  assumes "rinv r" and "distinct uids" and "u \<in> set uids"
  shows "\<exists>r0. same_view u r r0 \<and> rinv r0 \<and> get_s u (fst (tick_all iv uids r)) = get_s u (fst (tick_one iv u r0)) \<and>
    (\<forall>d \<in> {Idle_lock u, Sync u}. d \<in> set (snd (tick_all iv uids r)) \<longleftrightarrow> d \<in> set (snd (tick_one iv u r0)))"
  using assms
proof (induction uids arbitrary: r)
  case (Cons uid uids)
  obtain r1 ds where o: "tick_one iv uid r = (r1, ds)" by fastforce
  have r1: "rinv r1" using keeps_tick_one [of r iv uid] Cons.prems(1) o by (simp add: keeps_def)
  show ?case
  proof (cases "u = uid")
    case True
    then have "same_view u r1 (fst (tick_all iv uids r1))" "Idle_lock u \<notin> set (snd (tick_all iv uids r1))"
      "Sync u \<notin> set (snd (tick_all iv uids r1))"
      using tick_all_other [OF r1, of u uids iv] Cons.prems(2) by auto
    then show ?thesis
      using True Cons.prems(1) o
      by (intro exI [of _ r]) (auto simp: same_view_refl same_view_def split_beta Let_def)
  next
    case False
    then have v: "same_view u r r1" using same_view_tick [OF Cons.prems(1), of u uid iv] o by simp
    have nd: "Idle_lock u \<notin> set ds" "Sync u \<notin> set ds"
      using False o by (auto simp: tick_one_def split: option.splits if_splits)
    obtain r0 where "same_view u r1 r0" "rinv r0"
      "get_s u (fst (tick_all iv uids r1)) = get_s u (fst (tick_one iv u r0))"
      "\<forall>d \<in> {Idle_lock u, Sync u}. d \<in> set (snd (tick_all iv uids r1)) \<longleftrightarrow> d \<in> set (snd (tick_one iv u r0))"
      using Cons.IH [OF r1] Cons.prems(2,3) False by auto
    then show ?thesis
      using v nd o by (intro exI [of _ r0]) (auto simp: split_beta Let_def intro: same_view_trans)
  qed
qed simp

lemma get_s_mem: "get_s u r = Some s \<Longrightarrow> u \<in> set (map fst (sessions r))"
  using dkeys_dget [of u "sessions r"] by (simp add: get_s_def)

lemma due_same: "same_view u r r0 \<Longrightarrow> due r0 s = due r s \<and> idle_too_long r0 s = idle_too_long r s"
  by (auto simp: due_def idle_too_long_def same_view_def split: option.splits)

lemma get_s_expiry: "get_s u (check_grant_expiry r) = get_s u r"
proof -
  have "sessions (check_grant_expiry r) = sessions r"
    unfolding check_grant_expiry_def by (rule fold_frame) (simp add: split_beta)
  then show ?thesis by (simp add: get_s_def)
qed

lemma tick_view:
  assumes "rinv r" and "dict_ok (sessions r)" and "get_s u r = Some s"
  obtains r0 where "same_view u r r0" and "rinv r0" and "get_s u r0 = Some s" and "unlocked r0 s = unlocked r s"
    and "get_s u (fst (tick iv r)) = get_s u (fst (tick_one iv u r0))"
    and "\<forall>d \<in> {Idle_lock u, Sync u}. d \<in> set (snd (tick iv r)) \<longleftrightarrow> d \<in> set (snd (tick_one iv u r0))"
proof -
  have "distinct (map fst (sessions r))" using assms(2) by (simp add: dict_ok_def)
  from tick_all_self [OF assms(1) this get_s_mem [OF assms(3)], of iv] obtain r0 where
    r0: "same_view u r r0" "rinv r0"
      "get_s u (fst (tick_all iv (map fst (sessions r)) r)) = get_s u (fst (tick_one iv u r0))"
      "\<forall>d \<in> {Idle_lock u, Sync u}. d \<in> set (snd (tick_all iv (map fst (sessions r)) r)) \<longleftrightarrow> d \<in> set (snd (tick_one iv u r0))"
    by blast
  have t: "tick iv r = (check_grant_expiry (fst (tick_all iv (map fst (sessions r)) r)),
      snd (tick_all iv (map fst (sessions r)) r))"
    by (simp add: tick_def split_beta Let_def)
  show ?thesis
    by (rule that [OF r0(1,2)]) (use r0 assms(3) in \<open>simp_all add: t get_s_expiry same_view_def\<close>)
qed

text \<open>
  What a tick decides. Among the sessions, exactly the open ones idle for longer than their setting
  are locked, and a sync is started for exactly the open ones that are due and not idle: never for
  a locked uid.
\<close>

theorem tick_exact:
  assumes "rinv r" and "dict_ok (sessions r)" and "get_s u r = Some s"
  shows "(Idle_lock u \<in> set (snd (tick iv r)) \<longleftrightarrow> unlocked r s \<and> idle_too_long r s) \<and>
    (Sync u \<in> set (snd (tick iv r)) \<longleftrightarrow> unlocked r s \<and> \<not> idle_too_long r s \<and> due r s)"
proof -
  obtain r0 where r0: "same_view u r r0" "get_s u r0 = Some s" "unlocked r0 s = unlocked r s"
    "\<forall>d \<in> {Idle_lock u, Sync u}. d \<in> set (snd (tick iv r)) \<longleftrightarrow> d \<in> set (snd (tick_one iv u r0))"
    using tick_view [OF assms] by metis
  have "next_sync_at s = None \<Longrightarrow> \<not> due r s" by (simp add: due_def)
  with r0 due_same [OF r0(1), of s] show ?thesis by (auto simp: tick_one_def)
qed

text \<open>
  Every tick leaves a window either locked or scheduled. After a tick, an open session that had been
  idle too long is locked in a new epoch, and any other open session has its next sync planned
  after now.
\<close>

definition planned :: "reg \<Rightarrow> session \<Rightarrow> bool" where
  "planned r s \<longleftrightarrow> (case next_sync_at s of None \<Rightarrow> False | Some t \<Rightarrow> clock r < t)"

theorem tick_locks_or_plans:
  assumes "rinv r" and "dict_ok (sessions r)" and "get_s u r = Some s" and "unlocked r s" and "interval_ok (iv u)"
  shows "\<exists>s'. get_s u (fst (tick iv r)) = Some s' \<and>
    (if idle_too_long r s then tier1 s' = None \<and> epoch s' = epoch s + 1
     else tier1 s' = tier1 s \<and> epoch s' = epoch s \<and> planned r s')"
proof -
  obtain r0 where r0: "same_view u r r0" "get_s u r0 = Some s" "unlocked r0 s = unlocked r s"
    "get_s u (fst (tick iv r)) = get_s u (fst (tick_one iv u r0))"
    using tick_view [OF assms(1-3)] by metis
  have iv: "0 < iv u" using assms(5) by (simp add: interval_ok_def SYNC_INTERVAL_S_def SYNC_JITTER_S_def)
  have c: "clock r0 = clock r" using r0(1) by (simp add: same_view_def)
  show ?thesis
    using due_same [OF r0(1), of s] assms(4) r0(2,3,4) iv c
    by (auto simp: tick_one_def lock_is_core(1) [OF r0(2)] get_s_lock_core [OF r0(2)] schedule_def planned_def due_def
        split: option.splits)
qed

text \<open>Two windows: one idle for ten minutes, one that is due.\<close>

definition example_clock :: reg where
  "example_clock = example_approve\<lparr>clock := 600, sessions :=
     [(1000, (Session_init 1000 0)\<lparr>s_ui := Some 0, tier1 := Some 0\<rparr>), (1001, Session_init 1001 2)]\<rparr>"

lemma example_clock_ok: "rinv example_clock" "dict_ok (sessions example_clock)"
  "get_s 1000 example_clock = Some ((Session_init 1000 0)\<lparr>s_ui := Some 0, tier1 := Some 0\<rparr>)"
  "unlocked example_clock ((Session_init 1000 0)\<lparr>s_ui := Some 0, tier1 := Some 0\<rparr>)"
proof -
  have "get_s u example_clock = Some s \<Longrightarrow>
      (u = 1000 \<and> s = (Session_init 1000 0)\<lparr>s_ui := Some 0, tier1 := Some 0\<rparr>) \<or> (u = 1001 \<and> s = Session_init 1001 2)" for u s
    by (auto simp: example_clock_def get_s_def dget_def split: if_splits)
  then show "rinv example_clock"
    by (fastforce simp: rinv_def example_clock_def example_approve_def example_reg_def pend_ok_def sess_ok_def
        Session_init_def default_settings_ok Conn_init_def Registry_init_def GrantTable_init_def)
qed (simp_all add: example_clock_def dict_ok_def get_s_def dget_def unlocked_def example_approve_def example_reg_def
    Session_init_def Conn_init_def)

lemma example_idle: "idle_too_long example_clock ((Session_init 1000 0)\<lparr>s_ui := Some 0, tier1 := Some 0\<rparr>)"
  by (simp add: idle_too_long_def example_clock_def Session_init_def DEFAULT_SETTINGS_def IDLE_LOCK_S_DEFAULT_def)

theorem tick_exact_witness: "Idle_lock 1000 \<in> set (snd (tick (\<lambda>_. 7200) example_clock))"
  using tick_exact [OF example_clock_ok(1-3), of "\<lambda>_. 7200"] example_clock_ok(4) example_idle by simp

theorem tick_locks_or_plans_witness:
  "\<exists>s'. get_s 1000 (fst (tick (\<lambda>_. 7200) example_clock)) = Some s' \<and> tier1 s' = None \<and> epoch s' = 1"
  using tick_locks_or_plans [OF example_clock_ok, of "\<lambda>_. 7200"] example_idle
  by (simp add: interval_ok_def SYNC_INTERVAL_S_def SYNC_JITTER_S_def Session_init_def)

end
