(* ===== verification/Generate.thy ===== *)
theory Generate
  imports Prelude
begin

text \<open>
  The password generator of \<^verbatim>\<open>backend/icp/vault/generate.py\<close>. What the random number generator
  draws is a parameter: one index per \<^verbatim>\<open>choice\<close> or \<^verbatim>\<open>randrange\<close>, in the order of the draws.
\<close>

definition CONSONANTS :: string where "CONSONANTS = ''bcdfghjkmnpqrstvwxz''"
definition VOWELS :: string where "VOWELS = ''aeiu''"
definition DIGITS :: string where "DIGITS = ''23456789''"
definition GROUPS :: nat where "GROUPS = 3"
definition PAIRS_PER_GROUP :: nat where "PAIRS_PER_GROUP = 3"

record draws =
  d_pairs :: "(nat \<times> nat) list"
  d_digit_at :: nat
  d_digit :: nat
  d_upper :: nat

definition draws_ok :: "draws \<Rightarrow> bool" where
  "draws_ok d \<longleftrightarrow> length (d_pairs d) = GROUPS * PAIRS_PER_GROUP \<and>
     list_all (\<lambda>(c, v). c < length CONSONANTS \<and> v < length VOWELS) (d_pairs d) \<and>
     d_digit_at d < 2 * GROUPS * PAIRS_PER_GROUP \<and> d_digit d < length DIGITS \<and>
     d_upper d < 2 * GROUPS * PAIRS_PER_GROUP - 1"

definition syllables :: "(nat \<times> nat) list \<Rightarrow> string" where
  "syllables ps = concat (map (\<lambda>(c, v). [CONSONANTS ! c, VOWELS ! v]) ps)"

definition to_upper :: "char \<Rightarrow> char" where
  "to_upper c = (if of_char c \<ge> (97 :: nat) \<and> of_char c \<le> (122 :: nat) then char_of (of_char c - (32 :: nat)) else c)"

definition in_groups :: "string \<Rightarrow> string" where
  "in_groups s = take 6 s @ ''-'' @ take 6 (drop 6 s) @ ''-'' @ drop 12 s"

definition generate_chars :: "draws \<Rightarrow> string" where
  "generate_chars d =
     (let s = syllables (d_pairs d); n = length s;
          t = s[d_digit_at d := DIGITS ! d_digit d];
          upper_at = filter (\<lambda>i. i \<noteq> d_digit_at d) [0..<n] ! d_upper d in
      t[upper_at := to_upper (t ! upper_at)])"

definition generate :: "draws \<Rightarrow> string" where
  "generate d = in_groups (generate_chars d)"

subsection \<open>Shape\<close>

definition is_low :: "char \<Rightarrow> bool" where "is_low c \<longleftrightarrow> c \<in> set CONSONANTS \<union> set VOWELS"
definition is_up :: "char \<Rightarrow> bool" where "is_up c \<longleftrightarrow> c \<in> to_upper ` (set CONSONANTS \<union> set VOWELS)"
definition is_num :: "char \<Rightarrow> bool" where "is_num c \<longleftrightarrow> c \<in> set DIGITS"

lemma alphabets: "list_all (\<lambda>c. 97 \<le> (of_char c :: nat)) (CONSONANTS @ VOWELS)"
  "list_all (\<lambda>c. 65 \<le> (of_char (to_upper c) :: nat) \<and> (of_char (to_upper c) :: nat) \<le> 90) (CONSONANTS @ VOWELS)"
  "list_all (\<lambda>c. 50 \<le> (of_char c :: nat) \<and> (of_char c :: nat) \<le> 57) DIGITS"
  by (simp_all add: CONSONANTS_def VOWELS_def DIGITS_def to_upper_def)

lemma char_codes: "is_low c \<Longrightarrow> 97 \<le> (of_char c :: nat)" "is_up c \<Longrightarrow> 65 \<le> (of_char c :: nat) \<and> (of_char c :: nat) \<le> 90"
  "is_num c \<Longrightarrow> 50 \<le> (of_char c :: nat) \<and> (of_char c :: nat) \<le> 57"
  using alphabets unfolding is_low_def is_up_def is_num_def by (auto simp: list_all_iff)

lemma chars_disjoint: "is_low c \<Longrightarrow> \<not> is_up c \<and> \<not> is_num c \<and> c \<noteq> CHR ''-''" "is_up c \<Longrightarrow> \<not> is_num c \<and> c \<noteq> CHR ''-''"
  "is_num c \<Longrightarrow> c \<noteq> CHR ''-''"
  using char_codes [of c] by fastforce+

lemma syllables_low: "list_all (\<lambda>(c, v). c < length CONSONANTS \<and> v < length VOWELS) ps \<Longrightarrow> list_all is_low (syllables ps)"
  by (induction ps) (auto simp: syllables_def is_low_def)

lemma length_syllables: "length (syllables ps) = 2 * length ps"
  by (induction ps) (auto simp: syllables_def)

text \<open>Of the letters, exactly the one at \<open>i\<close> is a digit and the one at \<open>j\<close> a capital.\<close>

lemma count_update:
  assumes "i < length xs" and "P x" and "\<forall>y \<in> set xs. \<not> P y"
  shows "length (filter P (xs[i := x])) = 1"
proof -
  have "xs[i := x] = take i xs @ x # drop (Suc i) xs" using assms(1) by (simp add: upd_conv_take_nth_drop)
  moreover have "filter P (take i xs) = []" "filter P (drop (Suc i) xs) = []"
    using assms(3) by (auto simp: filter_empty_conv dest: in_set_takeD in_set_dropD)
  ultimately show ?thesis using assms(2) by simp
qed

lemma other_index:
  assumes "k < n - 1" and "i < n"
  shows "filter (\<lambda>j. j \<noteq> i) [0..<n] ! k < n \<and> filter (\<lambda>j. j \<noteq> i) [0..<n] ! k \<noteq> i"
proof -
  have "length (filter (\<lambda>j. j \<noteq> i) [0..<n]) = n - 1"
  proof -
    have "set (filter (\<lambda>j. j \<noteq> i) [0..<n]) = {0..<n} - {i}" by auto
    then show ?thesis using distinct_card [of "filter (\<lambda>j. j \<noteq> i) [0..<n]"] assms(2) by simp
  qed
  then have "filter (\<lambda>j. j \<noteq> i) [0..<n] ! k \<in> set (filter (\<lambda>j. j \<noteq> i) [0..<n])" using assms(1) by (intro nth_mem) simp
  then show ?thesis by simp
qed

lemma all_update: "(\<And>y. y \<in> set xs \<Longrightarrow> P y) \<Longrightarrow> P x \<Longrightarrow> \<forall>y \<in> set (xs[i := x]). P y"
  using set_update_subset_insert [of xs i x] by (metis insertE subsetD)

lemma to_upper_up: "is_low c \<Longrightarrow> is_up (to_upper c)"
  by (auto simp: is_low_def is_up_def)

lemma generated:
  assumes "draws_ok d"
  shows "\<exists>i j s. generate_chars d = s[i := DIGITS ! d_digit d, j := to_upper (s ! j)] \<and> i < 18 \<and> j < 18 \<and> i \<noteq> j \<and>
    length s = 18 \<and> list_all is_low s"
proof -
  let ?s = "syllables (d_pairs d)" and ?i = "d_digit_at d"
  let ?j = "filter (\<lambda>i. i \<noteq> ?i) [0..<length ?s] ! d_upper d"
  have n: "length ?s = 18" "?i < 18" and low: "list_all is_low ?s"
    using assms syllables_low by (auto simp: draws_ok_def length_syllables GROUPS_def PAIRS_PER_GROUP_def)
  have j: "?j < 18 \<and> ?j \<noteq> ?i"
    using other_index [of "d_upper d" "length ?s" ?i] assms n
    by (simp add: draws_ok_def GROUPS_def PAIRS_PER_GROUP_def)
  then have "generate_chars d = ?s[?i := DIGITS ! d_digit d, ?j := to_upper (?s ! ?j)]"
    by (simp add: generate_chars_def Let_def)
  with j n low show ?thesis by (intro exI [of _ ?i] exI [of _ ?j] exI [of _ ?s]) simp
qed

lemma filter_in_groups:
  assumes "\<not> P (CHR ''-'')"
  shows "filter P (in_groups s) = filter P s"
proof -
  have "s = take 6 s @ take 6 (drop 6 s) @ drop 12 s"
    using append_take_drop_id [of 6 s] append_take_drop_id [of 6 "drop 6 s"] by simp
  then have "filter P s = filter P (take 6 s) @ filter P (take 6 (drop 6 s)) @ filter P (drop 12 s)"
    by (metis filter_append)
  then show ?thesis using assms by (simp add: in_groups_def)
qed

lemma filter_split:
  assumes "\<forall>c \<in> set xs. P c \<or> Q c \<or> R c" and "\<And>c. P c \<Longrightarrow> \<not> Q c \<and> \<not> R c" and "\<And>c. Q c \<Longrightarrow> \<not> R c"
  shows "length xs = length (filter P xs) + length (filter Q xs) + length (filter R xs)"
  using assms(1) by (induction xs) (use assms(2,3) in auto)

text \<open>
  The shape of a generated password. For every sequence of draws in range, the password has twenty
  characters: three groups of six joined by two hyphens, exactly one digit, exactly one capital,
  and otherwise lower-case letters of the two alphabets.
\<close>

theorem generate_shape:
  assumes "draws_ok d"
  shows "length (generate d) = 20 \<and> generate d ! 6 = CHR ''-'' \<and> generate d ! 13 = CHR ''-'' \<and>
    length (filter is_num (generate d)) = 1 \<and> length (filter is_up (generate d)) = 1 \<and>
    length (filter is_low (generate d)) = 16"
proof -
  obtain i j s where g: "generate_chars d = s[i := DIGITS ! d_digit d, j := to_upper (s ! j)]" "i < 18" "j < 18" "i \<noteq> j"
    "length s = 18" "list_all is_low s"
    using generated [OF assms] by blast
  let ?x = "DIGITS ! d_digit d" and ?y = "to_upper (s ! j)"
  have x: "is_num ?x" using assms by (auto simp: draws_ok_def is_num_def)
  have y: "is_up ?y" using g(3,5,6) by (auto simp: list_all_length to_upper_up)
  have low: "\<forall>c \<in> set s. is_low c" using g(6) by (simp add: list_all_iff)
  let ?c = "generate_chars d"
  have up1: "\<forall>c \<in> set (s[i := ?x]). \<not> is_up c"
    by (rule all_update) (use low x chars_disjoint in auto)
  have up: "length (filter is_up ?c) = 1"
    unfolding g(1) using count_update [of j "s[i := ?x]" is_up ?y] g(3,5) y up1 by simp
  have nm1: "\<forall>c \<in> set (s[j := ?y]). \<not> is_num c"
    by (rule all_update) (use low y chars_disjoint in simp_all)
  have "?c = s[j := ?y, i := ?x]" unfolding g(1) using g(4) by (simp add: list_update_swap)
  then have nm: "length (filter is_num ?c) = 1"
    using count_update [of i "s[j := ?y]" is_num ?x] g(2,5) x nm1 by simp
  have all: "\<forall>c \<in> set ?c. is_low c \<or> is_up c \<or> is_num c"
    unfolding g(1) by (intro all_update) (use low x y all_update [of s "\<lambda>c. is_low c \<or> is_up c \<or> is_num c" ?x i] in simp_all)
  have "length ?c = length (filter is_low ?c) + length (filter is_up ?c) + length (filter is_num ?c)"
    by (rule filter_split [OF all]) (use chars_disjoint in blast)+
  then have "length (filter is_low ?c) = 16" using up nm g(1,5) by simp
  moreover have "filter is_low (generate d) = filter is_low ?c" "filter is_up (generate d) = filter is_up ?c"
    "filter is_num (generate d) = filter is_num ?c"
    unfolding generate_def by (rule filter_in_groups; use chars_disjoint in blast)+
  moreover have "length (generate d) = 20 \<and> generate d ! 6 = CHR ''-'' \<and> generate d ! 13 = CHR ''-''"
    using g(1,5) by (simp add: generate_def in_groups_def nth_append)
  ultimately show ?thesis using up nm by simp
qed

subsection \<open>The digit overwrites a letter\<close>

definition example_draws :: "nat \<Rightarrow> draws" where
  "example_draws c = \<lparr>d_pairs = [(c, 0), (0, 0), (0, 0), (0, 0), (0, 0), (0, 0), (0, 0), (0, 0), (0, 0)], d_digit_at = 0, d_digit = 0, d_upper = 0\<rparr>"

text \<open>
  \<^verbatim>\<open>entropy_bits\<close> counts every letter of the nine pairs, but the digit replaces one of them: the
  nineteen consonants there give the same password.
\<close>

lemma digit_hides_letter: "draws_ok (example_draws 0) \<and> draws_ok (example_draws 7) \<and>
    generate (example_draws 0) = generate (example_draws 7)"
proof -
  have ok: "draws_ok (example_draws c)" if "c < 19" for c
    using that by (simp add: draws_ok_def example_draws_def GROUPS_def PAIRS_PER_GROUP_def CONSONANTS_def VOWELS_def DIGITS_def)
  have "generate_chars (example_draws c) = generate_chars (example_draws 0)" for c
    by (simp add: generate_chars_def example_draws_def Let_def syllables_def)
  from this [of 7] show ?thesis using ok [of 0] ok [of 7] by (simp add: generate_def)
qed

theorem generate_shape_witness: "length (generate (example_draws 0)) = 20"
  using generate_shape [of "example_draws 0"] digit_hides_letter by simp

end
