(* ===== verification/Peer.thy ===== *)
theory Peer
  imports Hosts Totp
begin

text \<open>
  Who is on the other end of a connection: \<^verbatim>\<open>backend/icp/daemon/peer.py\<close>. What the kernel says
  (the socket options, the files of \<^verbatim>\<open>/proc\<close>, the poll of the pidfd) and the passwd entry are
  inputs; \<^verbatim>\<open>int()\<close> is the parameter of \<^theory_text>\<open>Totp\<close>.
\<close>

subsection \<open>Reading /proc\<close>

definition line_break :: "nat \<Rightarrow> bool" where
  "line_break c \<longleftrightarrow> c \<in> {10, 11, 12, 13, 28, 29, 30, 133, 8232, 8233}"

text \<open>\<^verbatim>\<open>str.splitlines\<close>.\<close>

fun lines_from :: "ustr \<Rightarrow> ustr \<Rightarrow> ustr list" where
  "lines_from cur [] = (if cur = [] then [] else [cur])"
| "lines_from cur (c # s) =
     (if c = 13 \<and> s \<noteq> [] \<and> hd s = 10 then cur # lines_from [] (tl s)
      else if line_break c then cur # lines_from [] s
      else lines_from (cur @ [c]) s)"

definition splitlines :: "ustr \<Rightarrow> ustr list" where
  "splitlines s = lines_from [] s"

record status =
  st_Uid :: "int list option"
  st_Gid :: "int list option"
  st_PPid :: "int option"

datatype peer_error = No_cred | Wrong_gid | Low_uid | No_pid | No_pidfd | No_passwd | Unreadable | Uid_mismatch
  | Wrong_egid | Wrong_rgid | Recycled | Exited

fun ints :: "stdlib \<Rightarrow> ustr list \<Rightarrow> int list option" where
  "ints L [] = Some []"
| "ints L (w # ws) = (case (to_int L w, ints L ws) of (Some n, Some ns) \<Rightarrow> Some (n # ns) | _ \<Rightarrow> None)"

definition key_value :: "ustr \<Rightarrow> ustr \<times> ustr" where
  "key_value l = (takeWhile (\<lambda>c. c \<noteq> 58) l, tl (dropWhile (\<lambda>c. c \<noteq> 58) l))"

text \<open>One line; \<open>None\<close> is a \<^verbatim>\<open>ValueError\<close>.\<close>

definition status_line :: "stdlib \<Rightarrow> ustr \<Rightarrow> status \<Rightarrow> status option" where
  "status_line L l out = (case key_value l of (k, v) \<Rightarrow>
     if k = ascii ''Uid'' then map_option (\<lambda>ns. out\<lparr>st_Uid := Some ns\<rparr>) (ints L (words v))
     else if k = ascii ''Gid'' then map_option (\<lambda>ns. out\<lparr>st_Gid := Some ns\<rparr>) (ints L (words v))
     else if k = ascii ''PPid'' then map_option (\<lambda>n. out\<lparr>st_PPid := Some n\<rparr>) (to_int L (strip v))
     else Some out)"

fun status_lines :: "stdlib \<Rightarrow> ustr list \<Rightarrow> status \<Rightarrow> status option" where
  "status_lines L [] out = Some out"
| "status_lines L (l # ls) out = (case status_line L l out of None \<Rightarrow> None | Some o' \<Rightarrow> status_lines L ls o')"

definition four :: "int list option \<Rightarrow> bool" where
  "four x \<longleftrightarrow> (case x of None \<Rightarrow> False | Some ns \<Rightarrow> length ns = 4)"

definition parse_status :: "stdlib \<Rightarrow> ustr \<Rightarrow> peer_error + status" where
  "parse_status L body =
     (case status_lines L (splitlines body) \<lparr>st_Uid = None, st_Gid = None, st_PPid = None\<rparr> of
        None \<Rightarrow> Inl Unreadable
      | Some out \<Rightarrow> if four (st_Uid out) \<and> four (st_Gid out) \<and> st_PPid out \<noteq> None then Inr out else Inl Unreadable)"

text \<open>\<open>None\<close> is the \<^verbatim>\<open>ValueError\<close> or \<^verbatim>\<open>IndexError\<close> of a text without the field.\<close>

definition parse_start_time :: "stdlib \<Rightarrow> ustr \<Rightarrow> int option" where
  "parse_start_time L stat =
     (if 41 \<notin> set stat then None
      else (let rest = words (drop 1 (after_last 41 stat)) in
        if length rest \<le> 19 then None else to_int L (rest ! 19)))"

subsection \<open>The checks\<close>

definition check_status :: "status \<Rightarrow> int \<Rightarrow> int \<Rightarrow> int \<Rightarrow> peer_error option" where
  "check_status st uid user_gid client_gid =
     (let ruid = the (st_Uid st) ! 0; euid = the (st_Uid st) ! 1;
          rgid = the (st_Gid st) ! 0; egid = the (st_Gid st) ! 1 in
      if ruid \<noteq> uid \<or> euid \<noteq> uid then Some Uid_mismatch
      else if egid \<noteq> client_gid then Some Wrong_egid
      else if rgid = client_gid \<or> rgid \<noteq> user_gid then Some Wrong_rgid
      else None)"

record kernel =
  k_cred :: "(int \<times> int \<times> int) option"
  k_pidfd :: "int option"
  k_user_gid :: "int option"
  k_status :: "ustr option"
  k_stat :: "ustr option"
  k_fd_pid :: "int option"
  k_events :: "int list option"

definition POLL_GONE :: "int \<Rightarrow> bool" where
  "POLL_GONE ev \<longleftrightarrow> (ev div 1) mod 2 = 1 \<or> (ev div 8) mod 2 = 1 \<or> (ev div 16) mod 2 = 1 \<or> (ev div 32) mod 2 = 1"

definition alive :: "int list option \<Rightarrow> bool" where
  "alive evs = (case evs of None \<Rightarrow> False | Some es \<Rightarrow> list_all (\<lambda>e. \<not> POLL_GONE e) es)"

record peer_info =
  pi_pid :: int
  pi_uid :: int
  pi_gid :: int
  pi_pidfd :: int
  pi_start :: int
  pi_ppid :: int

definition read_status :: "stdlib \<Rightarrow> kernel \<Rightarrow> peer_error + status \<times> int" where
  "read_status L k =
     (case k_status k of
        None \<Rightarrow> Inl Unreadable
      | Some body \<Rightarrow> bindE (parse_status L body) (\<lambda>st.
          (case k_stat k of
             None \<Rightarrow> Inl Unreadable
           | Some stat \<Rightarrow> (case parse_start_time L stat of None \<Rightarrow> Inl Unreadable | Some t \<Rightarrow> Inr (st, t)))))"

text \<open>The part inside the \<^verbatim>\<open>try\<close> that owns the pidfd.\<close>

definition verify_opened :: "stdlib \<Rightarrow> kernel \<Rightarrow> int \<Rightarrow> int \<times> int \<times> int \<Rightarrow> int \<Rightarrow> peer_error + peer_info" where
  "verify_opened L k client_gid cred fd = (case cred of (pid, uid, gid) \<Rightarrow>
     (case k_user_gid k of
        None \<Rightarrow> Inl No_passwd
      | Some user_gid \<Rightarrow> bindE (read_status L k) (\<lambda>(st, start).
          (case check_status st uid user_gid client_gid of
             Some e \<Rightarrow> Inl e
           | None \<Rightarrow>
               if k_fd_pid k \<noteq> None \<and> k_fd_pid k \<noteq> Some pid then Inl Recycled
               else if \<not> alive (k_events k) then Inl Exited
               else Inr \<lparr>pi_pid = pid, pi_uid = uid, pi_gid = gid, pi_pidfd = fd, pi_start = start,
                 pi_ppid = the (st_PPid st)\<rparr>))))"

text \<open>The result, and the file descriptor that was closed again.\<close>

definition verify :: "stdlib \<Rightarrow> kernel \<Rightarrow> int \<Rightarrow> int \<Rightarrow> (peer_error + peer_info) \<times> int option" where
  "verify L k client_gid min_uid =
     (case k_cred k of
        None \<Rightarrow> (Inl No_cred, None)
      | Some (pid, uid, gid) \<Rightarrow>
          if gid \<noteq> client_gid then (Inl Wrong_gid, None)
          else if uid < min_uid then (Inl Low_uid, None)
          else if pid \<le> 0 then (Inl No_pid, None)
          else (case k_pidfd k of
              None \<Rightarrow> (Inl No_pidfd, None)
            | Some fd \<Rightarrow>
                if fd < 0 then (Inl No_pidfd, None)
                else (case verify_opened L k client_gid (pid, uid, gid) fd of
                    Inl e \<Rightarrow> (Inl e, Some fd)
                  | Inr p \<Rightarrow> (Inr p, None))))"

subsection \<open>What an accepted peer is\<close>

definition runs_as :: "status \<Rightarrow> int \<Rightarrow> int \<Rightarrow> int \<Rightarrow> bool" where
  "runs_as st uid user_gid client_gid \<longleftrightarrow> (\<exists>s f t g. st_Uid st = Some [uid, uid, s, f] \<and>
     st_Gid st = Some [user_gid, client_gid, t, g])"

lemma four_list: "four x \<Longrightarrow> \<exists>a b c d. x = Some [a, b, c, d]"
  by (auto simp: four_def length_Suc_conv numeral_eq_Suc split: option.splits)

text \<open>
  Who may connect. A peer is accepted only if the kernel's credentials of the socket give a live
  process of a normal user in the client group, whose \<^verbatim>\<open>/proc\<close> entry says it runs as that user
  throughout, with the user's own real group and the client group as effective one, and whose
  pidfd still names that process.
\<close>

theorem verify_sound:
  assumes "verify L k client_gid min_uid = (Inr p, reclosed)"
  shows "k_cred k = Some (pi_pid p, pi_uid p, client_gid) \<and> min_uid \<le> pi_uid p \<and> 0 < pi_pid p \<and>
    k_pidfd k = Some (pi_pidfd p) \<and> reclosed = None \<and> alive (k_events k) \<and> k_fd_pid k \<in> {None, Some (pi_pid p)} \<and>
    (\<exists>st user_gid body. k_status k = Some body \<and> parse_status L body = Inr st \<and> k_user_gid k = Some user_gid \<and>
       user_gid \<noteq> client_gid \<and> runs_as st (pi_uid p) user_gid client_gid)"
proof -
  obtain pid uid gid where c: "k_cred k = Some (pid, uid, gid)" "gid = client_gid" "min_uid \<le> uid" "0 < pid"
    using assms by (auto simp: verify_def split: option.splits if_splits)
  obtain fd where fd: "k_pidfd k = Some fd" "verify_opened L k client_gid (pid, uid, gid) fd = Inr p" "reclosed = None"
    using assms c by (auto simp: verify_def split: option.splits if_splits sum.splits)
  obtain ug body st t where s: "k_user_gid k = Some ug" "k_status k = Some body" "parse_status L body = Inr st"
    "check_status st uid ug client_gid = None" "k_fd_pid k = None \<or> k_fd_pid k = Some pid" "alive (k_events k)"
    "p = \<lparr>pi_pid = pid, pi_uid = uid, pi_gid = gid, pi_pidfd = fd, pi_start = t, pi_ppid = the (st_PPid st)\<rparr>"
    using fd(2) by (auto simp: verify_opened_def read_status_def bindE_Inr_iff split: option.splits if_splits)
  have "four (st_Uid st)" "four (st_Gid st)"
    using s(3) by (auto simp: parse_status_def split: option.splits if_splits)
  then have "runs_as st uid ug client_gid \<and> ug \<noteq> client_gid"
    using s(4) four_list [of "st_Uid st"] four_list [of "st_Gid st"]
    by (auto simp: check_status_def Let_def runs_as_def split: if_splits)
  then show ?thesis using c fd s by auto
qed

subsection \<open>The command name cannot shift the fields\<close>

lemma after_last_last: "41 \<notin> set xs \<Longrightarrow> after_last 41 (pre @ [41] @ xs) = xs"
  using takeWhile_append2 [of "rev xs" "\<lambda>x. x \<noteq> 41" "41 # rev pre"] by (fastforce simp: after_last_def)

text \<open>
  The start time is the kernel's. Whatever spaces, digits and parentheses a process puts into its own
  name, the start time read is the twentieth field after the name's closing parenthesis.
\<close>

theorem start_time_ignores_name:
  assumes "41 \<notin> set fds"
  shows "parse_start_time L (pid @ ascii '' ('' @ name @ ascii '') '' @ fds) =
    (if length (words fds) \<le> 19 then None else to_int L (words fds ! 19))"
proof -
  have "pid @ ascii '' ('' @ name @ ascii '') '' @ fds = (pid @ ascii '' ('' @ name) @ [41] @ (32 # fds)"
    by (simp add: ascii_def)
  moreover have "after_last 41 ((pid @ ascii '' ('' @ name) @ [41] @ (32 # fds)) = 32 # fds"
    using assms by (intro after_last_last) simp
  ultimately show ?thesis by (simp add: parse_start_time_def Let_def)
qed

theorem start_time_ignores_name_witness:
  "parse_start_time example_lib (ascii ''7'' @ ascii '' ('' @ ascii ''a) R 1 (b'' @ ascii '') '' @ ascii ''S 1'') = None"
proof -
  have "words (ascii ''S 1'') = [ascii ''S'', ascii ''1'']"
    by (simp add: words.simps [of "_ # _"] words.simps [of "[]"] ascii_def py_isspace_def Let_def)
  then show ?thesis
    using start_time_ignores_name [of "ascii ''S 1''" example_lib "ascii ''7''" "ascii ''a) R 1 (b''"]
    by (simp add: ascii_def)
qed

text \<open>A process of user 1000 started through the set-gid program.\<close>

definition example_ints :: stdlib where
  "example_ints = example_lib\<lparr>to_int := (\<lambda>w. if w = ascii ''900'' then Some 900 else Some 1000)\<rparr>"

definition example_status :: ustr where
  "example_status = ascii ''Uid:'' @ [9] @ ascii ''1000 1000 1000 1000'' @ [10] @ ascii ''Gid:'' @ [9] @
     ascii ''1000 900 900 900'' @ [10] @ ascii ''PPid: 1000'' @ [10]"

definition example_kernel :: kernel where
  "example_kernel = \<lparr>k_cred = Some (4242, 1000, 900), k_pidfd = Some 7, k_user_gid = Some 1000,
     k_status = Some example_status, k_stat = Some (ascii ''4242 (pear) S 1 2 3 4 5 6 7 8 9 10 11 12 13 14 15 16 17 18 99''),
     k_fd_pid = Some 4242, k_events = Some []\<rparr>"

lemma example_status_parsed: "parse_status example_ints example_status =
    Inr \<lparr>st_Uid = Some [1000, 1000, 1000, 1000], st_Gid = Some [1000, 900, 900, 900], st_PPid = Some 1000\<rparr>"
proof -
  have l: "splitlines example_status = [ascii ''Uid:'' @ [9] @ ascii ''1000 1000 1000 1000'',
      ascii ''Gid:'' @ [9] @ ascii ''1000 900 900 900'', ascii ''PPid: 1000'']"
    by (simp add: splitlines_def example_status_def ascii_def line_break_def)
  have w: "words (9 # ascii ''1000 1000 1000 1000'') = [ascii ''1000'', ascii ''1000'', ascii ''1000'', ascii ''1000'']"
    "words (9 # ascii ''1000 900 900 900'') = [ascii ''1000'', ascii ''900'', ascii ''900'', ascii ''900'']"
    by (simp_all add: words.simps [of "_ # _"] words.simps [of "[]"] ascii_def py_isspace_def Let_def)
  have k: "key_value (ascii ''Uid:'' @ 9 # s) = (ascii ''Uid'', 9 # s)" "key_value (ascii ''Gid:'' @ 9 # s) = (ascii ''Gid'', 9 # s)"
    "key_value (ascii ''PPid: 1000'') = (ascii ''PPid'', ascii '' 1000'')" for s
    by (simp_all add: key_value_def ascii_def)
  have ne: "ascii ''Gid'' \<noteq> ascii ''Uid''" "ascii ''PPid'' \<noteq> ascii ''Uid''" "ascii ''PPid'' \<noteq> ascii ''Gid''"
    "ascii ''1000'' \<noteq> ascii ''900''" "strip (ascii '' 1000'') \<noteq> ascii ''900''"
    by (simp_all add: ascii_def stripP_def lstripP_def rstripP_def py_isspace_def)
  show ?thesis
    using ne by (simp add: parse_status_def l status_line_def k w example_ints_def four_def)
qed

lemma example_start: "parse_start_time example_ints (ascii ''4242 (pear) S 1 2 3 4 5 6 7 8 9 10 11 12 13 14 15 16 17 18 99'') = Some 1000"
  by (simp add: parse_start_time_def after_last_def words.simps [of "_ # _"] words.simps [of "[]"] ascii_def
      py_isspace_def Let_def example_ints_def)

theorem verify_sound_witness:
  "\<exists>p. verify example_ints example_kernel 900 1000 = (Inr p, None) \<and> pi_uid p = 1000 \<and> pi_pidfd p = 7"
proof -
  obtain p where p: "verify example_ints example_kernel 900 1000 = (Inr p, None)" "pi_uid p = 1000"
    by (simp add: verify_def example_kernel_def verify_opened_def read_status_def example_status_parsed example_start
        check_status_def alive_def)
  from verify_sound [OF p(1)] p show ?thesis by (auto simp: example_kernel_def)
qed

end
