(* ===== verification/Logind.thy ===== *)
theory Logind
  imports Traces
begin

text \<open>
  Lock triggers from systemd-logind: \<^verbatim>\<open>backend/icp/daemon/logind.py\<close>, with the callbacks
  \<^verbatim>\<open>daemon/__main__.py\<close> gives the watcher. What the bus answers and whether the event loop ran a call
  in time are inputs. An exception out of \<^verbatim>\<open>handle\<close> is caught by \<^verbatim>\<open>_pump\<close>, so it is the state
  reached when it is raised.
\<close>

definition LOGIN1 :: string where "LOGIN1 = ''org.freedesktop.login1''"
definition MANAGER_IFACE :: string where "MANAGER_IFACE = ''org.freedesktop.login1.Manager''"
definition SESSION_IFACE :: string where "SESSION_IFACE = ''org.freedesktop.login1.Session''"
definition PROPS_IFACE :: string where "PROPS_IFACE = ''org.freedesktop.DBus.Properties''"

datatype dbus = D_bool bool | D_str string | D_int int | D_tuple "dbus list" | D_dict "(string \<times> dbus) list" | D_other nat

fun variant_value :: "dbus \<Rightarrow> dbus" where
  "variant_value (D_tuple [D_str s, v]) = v"
| "variant_value v = v"

record signal =
  sg_sender :: "string option"
  sg_iface :: "string option"
  sg_member :: "string option"
  sg_path :: "string option"
  sg_body :: "dbus list"

text \<open>A call handed to the event loop: \<^verbatim>\<open>registry.lock\<close> or \<^verbatim>\<open>registry.lock_all("sleep")\<close>.\<close>

datatype loop_call = C_lock int string | C_sleep

fun run_call :: "loop_call \<Rightarrow> reg \<Rightarrow> reg" where
  "run_call (C_lock uid why) r = fst (lock uid (Some why) True r)"
| "run_call C_sleep r = lock_all ''sleep'' r"

record watcher =
  w_owner :: "string option"
  w_sessions :: "(string \<times> int) list"
  w_inhibitor :: bool
  w_reg :: reg
  w_queued :: "loop_call list"

text \<open>
  What the outside answers while one signal is handled: \<^verbatim>\<open>GetNameOwner\<close> (\<open>None\<close>: no answer), the uid of
  a session, the inhibitor, Python's \<^verbatim>\<open>str\<close> of a value that is no string, and whether the event loop
  runs a call before the wait for it times out. A call it has not run stays queued.
\<close>

record bus =
  b_owner :: "string option"
  b_uid :: "string \<Rightarrow> int option"
  b_inhibitor :: bool
  b_show :: "dbus \<Rightarrow> string"
  b_in_time :: bool

definition call_in_loop :: "bus \<Rightarrow> loop_call \<Rightarrow> watcher \<Rightarrow> watcher" where
  "call_in_loop b c w =
     (if b_in_time b then w\<lparr>w_reg := run_call c (w_reg w)\<rparr> else w\<lparr>w_queued := w_queued w @ [c]\<rparr>)"

definition loop_catches_up :: "watcher \<Rightarrow> watcher" where
  "loop_catches_up w = w\<lparr>w_reg := fold run_call (w_queued w) (w_reg w), w_queued := []\<rparr>"

definition str_path :: "string option \<Rightarrow> string" where
  "str_path p = (case p of None \<Rightarrow> ''None'' | Some s \<Rightarrow> s)"

definition str_value :: "bus \<Rightarrow> dbus \<Rightarrow> string" where
  "str_value b v = (case v of D_str s \<Rightarrow> s | _ \<Rightarrow> b_show b v)"

text \<open>\<^verbatim>\<open>ListSessions\<close> rows: the uid and the path are what is read of each.\<close>

definition set_sessions :: "(int \<times> string) list \<Rightarrow> watcher \<Rightarrow> watcher" where
  "set_sessions rows w = w\<lparr>w_sessions := fold (\<lambda>(uid, path). dset path uid) rows []\<rparr>"

definition lock_session_path :: "bus \<Rightarrow> string option \<Rightarrow> watcher \<Rightarrow> watcher" where
  "lock_session_path b path w =
     (case dget (w_sessions w) (str_path path) of
        Some uid \<Rightarrow> call_in_loop b (C_lock uid ''screen-locked'') w
      | None \<Rightarrow> (case b_uid b (str_path path) of
          None \<Rightarrow> w
        | Some uid \<Rightarrow> call_in_loop b (C_lock uid ''screen-locked'')
            (w\<lparr>w_sessions := dset (str_path path) uid (w_sessions w)\<rparr>)))"

definition take_inhibitor :: "bus \<Rightarrow> watcher \<Rightarrow> watcher" where
  "take_inhibitor b w = (if w_inhibitor w then w else w\<lparr>w_inhibitor := b_inhibitor b\<rparr>)"

definition release_inhibitor :: "watcher \<Rightarrow> watcher" where
  "release_inhibitor w = w\<lparr>w_inhibitor := False\<rparr>"

text \<open>
  The wait for a store call that is still running only passes time, and the \<^verbatim>\<open>finally\<close> releases the
  inhibitor when the call into the loop times out too.
\<close>

definition before_sleep :: "bus \<Rightarrow> watcher \<Rightarrow> watcher" where
  "before_sleep b w = release_inhibitor (call_in_loop b C_sleep w)"

definition locked_hint :: "dbus list \<Rightarrow> bool" where
  "locked_hint body = (case body of
      D_str i # D_dict d # _ \<Rightarrow> i = SESSION_IFACE \<and>
        (case dget d ''LockedHint'' of None \<Rightarrow> False | Some v \<Rightarrow> variant_value v = D_bool True)
    | _ \<Rightarrow> False)"

definition refresh_owner :: "bus \<Rightarrow> watcher \<Rightarrow> watcher" where
  "refresh_owner b w = (case b_owner b of None \<Rightarrow> w | Some x \<Rightarrow> w\<lparr>w_owner := Some x\<rparr>)"

definition session_new :: "bus \<Rightarrow> dbus list \<Rightarrow> watcher \<Rightarrow> watcher" where
  "session_new b body w =
     (if length body < 2 then w
      else (let spath = str_value b (body ! 1) in
        (case b_uid b spath of None \<Rightarrow> w | Some uid \<Rightarrow> w\<lparr>w_sessions := dset spath uid (w_sessions w)\<rparr>)))"

definition session_removed :: "bus \<Rightarrow> dbus list \<Rightarrow> watcher \<Rightarrow> watcher" where
  "session_removed b body w =
     (if length body < 2 then w
      else (let spath = str_value b (body ! 1); w1 = w\<lparr>w_sessions := ddel spath (w_sessions w)\<rparr> in
        (case dget (w_sessions w) spath of
           None \<Rightarrow> w1
         | Some uid \<Rightarrow> if uid \<in> snd ` set (w_sessions w1) then w1
             else call_in_loop b (C_lock uid ''session-ended'') w1)))"

definition dispatch_signal :: "bus \<Rightarrow> signal \<Rightarrow> watcher \<Rightarrow> watcher" where
  "dispatch_signal b m w =
     (let iface = sg_iface m; member = sg_member m; body = sg_body m in
      if iface = Some SESSION_IFACE \<and> member = Some ''Lock'' then lock_session_path b (sg_path m) w
      else if iface = Some PROPS_IFACE \<and> member = Some ''PropertiesChanged'' then
        (if locked_hint body then lock_session_path b (sg_path m) w else w)
      else if iface = Some MANAGER_IFACE \<and> member = Some ''PrepareForSleep'' then
        (if body \<noteq> [] \<and> hd body = D_bool True then before_sleep b w else take_inhibitor b w)
      else if iface = Some MANAGER_IFACE \<and> member = Some ''SessionNew'' then session_new b body w
      else if iface = Some MANAGER_IFACE \<and> member = Some ''SessionRemoved'' then session_removed b body w
      else w)"

definition handle_signal :: "bus \<Rightarrow> signal \<Rightarrow> watcher \<Rightarrow> watcher" where
  "handle_signal b m w =
     (if w_owner w \<noteq> None \<and> sg_sender m \<noteq> w_owner w then
        (let w1 = refresh_owner b w in
         if sg_sender m \<noteq> w_owner w1 then w1 else dispatch_signal b m w1)
      else dispatch_signal b m w)"

subsection \<open>What a lock leaves of a uid\<close>

definition shut :: "int \<Rightarrow> reg \<Rightarrow> bool" where
  "shut uid r = (case get_s uid r of
      None \<Rightarrow> True
    | Some s \<Rightarrow> tier1 s = None \<and> autofill_conn s = None \<and> autofill_key s = None \<and>
        dget (grants (gtab r)) uid = None \<and>
        (if has_keys (stores r (s_store s)) then wipe_after s \<and> wipe_req (stores r (s_store s)) else True))"

lemma lock_keeps_pend_ok: "pend_ok r \<Longrightarrow> pend_ok (fst (lock uid reason n r))"
proof (cases "get_s uid r")
  case (Some s)
  assume "pend_ok r"
  then have "pend_ok (lock_core uid r)" by (rule pend_lock_core(1))
  then show ?thesis
    by (subst pend_ok_cong [of _ "lock_core uid r"]) (simp_all add: lock_is_core [OF Some])
qed (simp add: lock_none)

lemma try_lock_no_new_keys: "has_keys (fst (try_lock u)) \<Longrightarrow> has_keys u"
  by (auto simp: try_lock_def wipe_now_def Let_def split: if_splits)

text \<open>What \<^verbatim>\<open>lock\<close> of one uid does to whether another is shut, and to itself.\<close>

lemma shut_lock:
  assumes "pend_ok r" and "uid = u \<or> shut u r"
  shows "shut u (fst (lock uid reason n r))"
proof (cases "get_s uid r")
  case None
  with assms(2) show ?thesis by (cases "uid = u") (simp_all add: lock_none shut_def)
next
  case (Some s)
  show ?thesis
  proof (cases "uid = u")
    case True
    show ?thesis unfolding True [symmetric]
      using Some try_lock_keys [of "stores r (s_store s)"]
      by (auto simp: shut_def lock_is_core [OF Some] get_s_lock_core [OF Some] lock_core_fields grants_drop
          stores_lock_core [OF Some] wipe_left_def)
  next
    case False
    then show ?thesis
      using Some assms(2) try_lock_keys [of "stores r (s_store s)"]
      by (auto simp: shut_def lock_is_core [OF Some] get_s_lock_core [OF Some] lock_core_fields grants_drop
          stores_lock_core [OF Some] dest: try_lock_no_new_keys split: option.splits if_splits)
  qed
qed

lemma shut_locks:
  assumes "pend_ok r" and "u \<in> set uids \<or> shut u r"
  shows "shut u (fold (\<lambda>uid r. fst (lock uid reason n r)) uids r)"
  using assms
proof (induction uids arbitrary: r)
  case (Cons x xs)
  then show ?case using shut_lock [of r x u reason n] lock_keeps_pend_ok [of r x reason n] by auto
qed simp

lemma shut_none: "u \<notin> set (map fst (sessions r)) \<Longrightarrow> shut u r"
  using map_of_eq_None_iff [of "sessions r" u] by (simp add: shut_def get_s_def dget_def)

definition sleep_signal :: "string \<Rightarrow> signal" where
  "sleep_signal who = \<lparr>sg_sender = Some who, sg_iface = Some MANAGER_IFACE, sg_member = Some ''PrepareForSleep'',
     sg_path = None, sg_body = [D_bool True]\<rparr>"

lemma iface_names [simp]: "MANAGER_IFACE \<noteq> SESSION_IFACE" "MANAGER_IFACE \<noteq> PROPS_IFACE"
  by (simp_all add: MANAGER_IFACE_def SESSION_IFACE_def PROPS_IFACE_def)

lemma sleep_signal_handled:
  assumes "w_owner w = Some who"
  shows "handle_signal b (sleep_signal who) w = release_inhibitor (call_in_loop b C_sleep w)"
  using assms by (simp add: handle_signal_def sleep_signal_def dispatch_signal_def before_sleep_def)


definition example_watcher :: watcher where
  "example_watcher = \<lparr>w_owner = Some '':1.7'', w_sessions = [(''/s/c2'', 1000), (''/s/c3'', 1000)], w_inhibitor = True,
     w_reg = example_reg, w_queued = []\<rparr>"

definition example_bus :: bus where
  "example_bus = \<lparr>b_owner = Some '':1.7'', b_uid = (\<lambda>_. None), b_inhibitor = True, b_show = (\<lambda>_. []), b_in_time = True\<rparr>"


subsection \<open>When a session ends\<close>

definition removed_signal :: "string \<Rightarrow> string \<Rightarrow> signal" where
  "removed_signal who path = \<lparr>sg_sender = Some who, sg_iface = Some MANAGER_IFACE, sg_member = Some ''SessionRemoved'',
     sg_path = None, sg_body = [D_str ''id'', D_str path]\<rparr>"

text \<open>
  The last session. When logind reports that a user's last login session is gone, the user is locked;
  while another session of the same user is left, nothing is locked at all.
\<close>

theorem last_session_end_locks:
  assumes "w_owner w = Some who" and "dget (w_sessions w) path = Some uid" and "dict_ok (w_sessions w)"
    and "pend_ok (w_reg w)" and "b_in_time b"
  shows "let w' = handle_signal b (removed_signal who path) w in
    dget (w_sessions w') path = None \<and>
    (if \<exists>p. p \<noteq> path \<and> dget (w_sessions w) p = Some uid then w_reg w' = w_reg w
     else w_reg w' = fst (lock uid (Some ''session-ended'') True (w_reg w)) \<and> shut uid (w_reg w'))"
proof -
  have ok: "dict_ok (ddel path (w_sessions w))" using assms(3) by simp
  have "uid \<in> snd ` set (ddel path (w_sessions w)) \<longleftrightarrow> (\<exists>p. (p, uid) \<in> set (ddel path (w_sessions w)))"
    by force
  also have "\<dots> \<longleftrightarrow> (\<exists>p. p \<noteq> path \<and> dget (w_sessions w) p = Some uid)"
    by (simp add: dict_ok_items [OF ok]) metis
  finally show ?thesis
    using assms shut_lock [OF assms(4), of uid uid "Some ''session-ended''" True]
    by (cases "\<exists>p. p \<noteq> path \<and> dget (w_sessions w) p = Some uid")
      (auto simp: handle_signal_def removed_signal_def dispatch_signal_def session_removed_def Let_def str_value_def call_in_loop_def)
qed

theorem last_session_end_locks_witness:
  "w_reg (handle_signal example_bus (removed_signal '':1.7'' ''/s/c2'') example_watcher) = example_reg"
  using last_session_end_locks [of example_watcher "'':1.7''" "''/s/c2''" 1000 example_bus] example_reg_ok(3)
  by (auto simp: example_watcher_def example_bus_def dget_def dict_ok_def Let_def split: if_splits)

text \<open>
  Only logind. A signal whose sender is neither the owner the watcher knows nor the one the bus names
  now changes no session, no registry state and no inhibitor.
\<close>

theorem foreign_signal_ignored:
  assumes "w_owner w = Some who" and "sg_sender m \<noteq> Some who" and "b_owner b \<noteq> sg_sender m"
  shows "w_reg (handle_signal b m w) = w_reg w \<and> w_sessions (handle_signal b m w) = w_sessions w \<and>
    w_inhibitor (handle_signal b m w) = w_inhibitor w \<and> w_queued (handle_signal b m w) = w_queued w"
  using assms by (auto simp: handle_signal_def refresh_owner_def Let_def split: option.splits)

theorem foreign_signal_ignored_witness:
  "w_reg (handle_signal example_bus (sleep_signal '':1.99'') example_watcher) = example_reg"
  using foreign_signal_ignored [of example_watcher "'':1.7''" "sleep_signal '':1.99''" example_bus]
  by (simp add: example_watcher_def example_bus_def sleep_signal_def)

end
