(* ===== verification/Boxes.thy ===== *)
theory Boxes
  imports Ids Tagline Base64 "HOL-Library.Char_ord"
begin

text \<open>
  What a store keeps of one entry: the sealed box with its secrets
  (\<^verbatim>\<open>backend/icp/vstore/entries.py\<close> and the MACs of \<^verbatim>\<open>keys.py\<close>) and its record in the metadata
  (\<^verbatim>\<open>meta.py\<close>). libsodium, HMAC and \<^verbatim>\<open>json\<close> are parameters over an abstract type of byte strings.
\<close>

subsection \<open>What is called\<close>

text \<open>
  \<open>p_seal pk data r\<close>: a sealed box with the ephemeral randomness \<open>r\<close>; \<open>p_hmac key label msg\<close> the hex digest
  of \<^verbatim>\<open>label + msg\<close>; \<open>p_str\<close> and \<open>p_dict\<close> are Python's \<^verbatim>\<open>str\<close> and \<^verbatim>\<open>dict\<close> of a value that is no
  string, no object (\<open>None\<close>: an exception).
\<close>

record 'b boxlib =
  p_dumps :: "json \<Rightarrow> 'b"
  p_loads :: "'b \<Rightarrow> json option"
  p_pad :: "'b \<Rightarrow> 'b"
  p_unpad :: "'b \<Rightarrow> 'b option"
  p_seal :: "'b \<Rightarrow> 'b \<Rightarrow> nat \<Rightarrow> 'b"
  p_open :: "'b \<Rightarrow> 'b \<Rightarrow> 'b option"
  p_public :: "'b \<Rightarrow> 'b"
  p_hmac :: "'b \<Rightarrow> string \<Rightarrow> 'b \<Rightarrow> 'b"
  p_utf8 :: "ustr \<Rightarrow> 'b"
  p_str :: "json \<Rightarrow> ustr"
  p_dict :: "json \<Rightarrow> (string \<times> json) list option"

text \<open>Objects in key order, as \<^verbatim>\<open>sort_keys\<close> writes and \<^verbatim>\<open>loads\<close> then reads them.\<close>

fun sort_json :: "json \<Rightarrow> json" where
  "sort_json (JList xs) = JList (map sort_json xs)"
| "sort_json (JObj kv) = JObj (sort_key fst (map (\<lambda>(k, v). (k, sort_json v)) kv))"
| "sort_json j = j"

fun json_wf :: "json \<Rightarrow> bool" where
  "json_wf (JList xs) = list_all json_wf xs"
| "json_wf (JObj kv) = (distinct (map fst kv) \<and> list_all (\<lambda>(k, v). json_wf v) kv)"
| "json_wf j = True"

text \<open>
  What the code relies on: a sealed box opens with the secret key of its public key, and padding and
  JSON are undone.
\<close>

definition boxlib_ok :: "'b boxlib \<Rightarrow> bool" where
  "boxlib_ok C \<longleftrightarrow> (\<forall>sk d r. p_open C sk (p_seal C (p_public C sk) d r) = Some d) \<and>
     (\<forall>d. p_unpad C (p_pad C d) = Some d) \<and>
     (\<forall>j. json_wf j \<longrightarrow> p_loads C (p_dumps C j) = Some (sort_json j))"

subsection \<open>Secrets and their box\<close>

datatype store_exn = St_locked | St_not_found | St_value | St_damaged | St_exists

record sdata =
  sd_password :: ustr
  sd_notes :: ustr
  sd_totp :: "nat list option"
  sd_apple :: "json list"
  sd_params :: "(string \<times> json) list"

definition MAX_HISTORY :: nat where "MAX_HISTORY = 50"

definition has_seed :: "sdata \<Rightarrow> bool" where
  "has_seed s \<longleftrightarrow> (case sd_totp s of None \<Rightarrow> False | Some bs \<Rightarrow> bs \<noteq> [])"

definition seed_json :: "sdata \<Rightarrow> json" where
  "seed_json s = (case sd_totp s of None \<Rightarrow> JNull | Some bs \<Rightarrow> if bs = [] then JNull else JStr (b64encode bs))"

definition rest_json :: "sdata \<Rightarrow> (string \<times> json) list" where
  "rest_json s = [(''notes'', JStr (sd_notes s)), (''totp_secret'', seed_json s),
     (''totp_params'', JObj (if has_seed s then sd_params s else [])), (''apple_history'', JList (sd_apple s))]"

definition rest_canonical :: "'b boxlib \<Rightarrow> sdata \<Rightarrow> 'b" where
  "rest_canonical C s = p_dumps C (JObj (rest_json s))"

text \<open>The shapes Python checks at run time are types here, except that Apple's items are objects.\<close>

definition check_secrets :: "sdata \<Rightarrow> bool" where
  "check_secrets s \<longleftrightarrow> list_all (\<lambda>h. case h of JObj d \<Rightarrow> True | _ \<Rightarrow> False) (sd_apple s)"

definition to_payload :: "string \<Rightarrow> int \<Rightarrow> sdata \<Rightarrow> (string \<times> json) list" where
  "to_payload i v s = [(''id'', JStr (ascii i)), (''v'', JInt v), (''password'', JStr (sd_password s))] @ rest_json s"

text \<open>Python's truth of a JSON value.\<close>

fun truthy :: "json \<Rightarrow> bool" where
  "truthy JNull = False"
| "truthy (JBool b) = b"
| "truthy (JInt n) = (n \<noteq> 0)"
| "truthy (JFloat x) = (x \<noteq> 0)"
| "truthy (JStr s) = (s \<noteq> [])"
| "truthy (JList xs) = (xs \<noteq> [])"
| "truthy (JObj kv) = (kv \<noteq> [])"

definition or_null :: "json option \<Rightarrow> json" where
  "or_null v = (case v of None \<Rightarrow> JNull | Some j \<Rightarrow> if truthy j then j else JNull)"

definition py_str :: "'b boxlib \<Rightarrow> json \<Rightarrow> ustr" where
  "py_str C j = (case j of JStr s \<Rightarrow> s | _ \<Rightarrow> p_str C j)"

definition seed_from :: "json option \<Rightarrow> store_exn + nat list option" where
  "seed_from v = (case or_null v of
      JNull \<Rightarrow> Inr None
    | JStr s \<Rightarrow> (case b64decode s of None \<Rightarrow> Inl St_damaged | Some bs \<Rightarrow> Inr (Some bs))
    | _ \<Rightarrow> Inl St_damaged)"

definition list_from :: "json option \<Rightarrow> store_exn + json list" where
  "list_from v = (case or_null v of
      JNull \<Rightarrow> Inr []
    | JList xs \<Rightarrow> Inr xs
    | JStr s \<Rightarrow> Inr (map (\<lambda>c. JStr [c]) s)
    | JObj kv \<Rightarrow> Inr (map (\<lambda>(k, x). JStr (ascii k)) kv)
    | _ \<Rightarrow> Inl St_damaged)"

definition dict_from :: "'b boxlib \<Rightarrow> json option \<Rightarrow> store_exn + (string \<times> json) list" where
  "dict_from C v = (case or_null v of
      JNull \<Rightarrow> Inr []
    | JObj kv \<Rightarrow> Inr kv
    | j \<Rightarrow> (case p_dict C j of None \<Rightarrow> Inl St_damaged | Some kv \<Rightarrow> Inr kv))"

definition text_from :: "'b boxlib \<Rightarrow> json option \<Rightarrow> ustr" where
  "text_from C v = (case or_null v of JNull \<Rightarrow> [] | j \<Rightarrow> py_str C j)"

definition from_payload :: "'b boxlib \<Rightarrow> (string \<times> json) list \<Rightarrow> store_exn + sdata" where
  "from_payload C p =
     (case jget p ''password'' of
        None \<Rightarrow> Inl St_damaged
      | Some pw \<Rightarrow> bindE (seed_from (jget p ''totp_secret'')) (\<lambda>seed.
          bindE (list_from (jget p ''apple_history'')) (\<lambda>apple.
          bindE (dict_from C (jget p ''totp_params'')) (\<lambda>ps.
          Inr \<lparr>sd_password = py_str C pw, sd_notes = text_from C (jget p ''notes''), sd_totp = seed,
            sd_apple = apple, sd_params = ps\<rparr>))))"

definition seal :: "'b boxlib \<Rightarrow> 'b \<Rightarrow> (string \<times> json) list \<Rightarrow> nat \<Rightarrow> 'b" where
  "seal C pk payload r = p_seal C pk (p_pad C (p_dumps C (JObj payload))) r"

text \<open>\<^verbatim>\<open>True\<close> and \<^verbatim>\<open>False\<close> are integers too.\<close>

definition as_int :: "json option \<Rightarrow> int option" where
  "as_int v = (case v of Some (JInt n) \<Rightarrow> Some n | Some (JBool b) \<Rightarrow> Some (if b then 1 else 0) | _ \<Rightarrow> None)"

definition new_enough :: "int option \<Rightarrow> json option \<Rightarrow> bool" where
  "new_enough min_v v = (case min_v of None \<Rightarrow> True | Some m \<Rightarrow> (case as_int v of None \<Rightarrow> False | Some n \<Rightarrow> n \<ge> m))"

definition open_box :: "'b boxlib \<Rightarrow> 'b \<Rightarrow> 'b \<Rightarrow> string \<Rightarrow> int option \<Rightarrow> store_exn + (string \<times> json) list" where
  "open_box C sk blob i min_v =
     (case p_open C sk blob of
        None \<Rightarrow> Inl St_damaged
      | Some d \<Rightarrow> (case p_unpad C d of
          None \<Rightarrow> Inl St_damaged
        | Some t \<Rightarrow> (case p_loads C t of
            Some (JObj p) \<Rightarrow>
              if jget p ''id'' \<noteq> Some (JStr (ascii i)) then Inl St_damaged
              else if \<not> new_enough min_v (jget p ''v'') then Inl St_damaged
              else Inr p
          | _ \<Rightarrow> Inl St_damaged)))"

subsection \<open>MACs\<close>

definition pwmac :: "'b boxlib \<Rightarrow> 'b \<Rightarrow> ustr \<Rightarrow> 'b" where
  "pwmac C k pw = p_hmac C k ''pw'' (p_utf8 C pw)"

definition smac :: "'b boxlib \<Rightarrow> 'b \<Rightarrow> 'b \<Rightarrow> 'b" where
  "smac C k rest = p_hmac C k ''s'' rest"

subsection \<open>Opening what was sealed\<close>

lemma mset_map_sort: "mset (map h (sort_key g xs)) = mset (map h xs)"
  by simp

lemma jget_sort_key:
  assumes "distinct (map fst kv)"
  shows "jget (sort_key fst (map (\<lambda>(k, v). (k, f v)) kv)) k = map_option f (jget kv k)"
proof -
  let ?m = "map (\<lambda>(k, v). (k, f v)) kv"
  have d: "distinct (map fst ?m)" using assms by (simp add: comp_def split_beta)
  have s: "set (sort_key fst ?m) = set ?m" by simp
  have ds: "distinct (map fst (sort_key fst ?m))"
  proof -
    have "mset (map fst (sort_key fst ?m)) = mset (map fst ?m)" by (rule mset_map_sort)
    from mset_eq_imp_distinct_iff [OF this] d show ?thesis by blast
  qed
  have g: "jget xs k = Some v \<longleftrightarrow> (k, v) \<in> set xs" if "distinct (map fst xs)" for xs v
    using that map_of_eq_Some_iff [of "rev xs" k v] by (simp add: jget_def rev_map [symmetric])
  show ?thesis
  proof (cases "jget kv k")
    case None
    then have "(k, v) \<notin> set kv" for v using g [OF assms] by (metis option.distinct(1))
    then have "(k, v) \<notin> set ?m" for v by auto
    then have "jget (sort_key fst ?m) k \<noteq> Some v" for v unfolding g [OF ds] s .
    with None show ?thesis by (cases "jget (sort_key fst ?m) k") auto
  next
    case (Some v)
    then have "(k, f v) \<in> set ?m" using g [OF assms] by force
    with Some show ?thesis using g [OF ds] s by auto
  qed
qed

text \<open>What opening gives back: Apple's items and the parameters with their keys in order, and no parameters
  without a seed; a seed of no bytes is none.\<close>

definition norm_secrets :: "sdata \<Rightarrow> sdata" where
  "norm_secrets s = s\<lparr>sd_totp := (if has_seed s then sd_totp s else None), sd_apple := map sort_json (sd_apple s),
     sd_params := (if has_seed s then sort_key fst (map (\<lambda>(k, v). (k, sort_json v)) (sd_params s)) else [])\<rparr>"

definition secrets_wf :: "sdata \<Rightarrow> bool" where
  "secrets_wf s \<longleftrightarrow> check_secrets s \<and> list_all json_wf (sd_apple s) \<and> json_wf (JObj (sd_params s)) \<and>
     (case sd_totp s of None \<Rightarrow> True | Some bs \<Rightarrow> list_all (\<lambda>b. b < 256) bs)"

lemma payload_keys: "distinct (map fst (to_payload i v s))"
  by (simp add: to_payload_def rest_json_def)

lemma payload_wf: "secrets_wf s \<Longrightarrow> json_wf (JObj (to_payload i v s))"
  by (simp add: secrets_wf_def to_payload_def rest_json_def seed_json_def split: option.splits)

lemma open_sealed:
  assumes "boxlib_ok C" and "secrets_wf s"
  shows "open_box C sk (seal C (p_public C sk) (to_payload i v s) r) j min_v =
    (if ascii j = ascii i \<and> (case min_v of None \<Rightarrow> True | Some m \<Rightarrow> v \<ge> m)
     then Inr (sort_key fst (map (\<lambda>(k, v). (k, sort_json v)) (to_payload i v s))) else Inl St_damaged)"
proof -
  let ?p = "sort_key fst (map (\<lambda>(k, v). (k, sort_json v)) (to_payload i v s))"
  have "p_loads C (p_dumps C (JObj (to_payload i v s))) = Some (JObj ?p)"
    using assms(1) payload_wf [OF assms(2), of i v] unfolding boxlib_ok_def by (metis sort_json.simps(2))
  moreover have "jget ?p ''id'' = Some (JStr (ascii i))" "jget ?p ''v'' = Some (JInt v)"
    by (simp_all add: jget_sort_key [OF payload_keys]) (simp_all add: to_payload_def jget_def rest_json_def)
  ultimately show ?thesis
    using assms(1) by (auto simp: open_box_def seal_def boxlib_ok_def new_enough_def as_int_def split: option.splits)
qed

lemma b64encode_Nil: "b64encode bs = [] \<longleftrightarrow> bs = []"
  by (cases bs rule: b64_groups.cases) (auto simp: b64encode_def)

lemma from_sealed:
  assumes "secrets_wf s"
  shows "from_payload C (sort_key fst (map (\<lambda>(k, v). (k, sort_json v)) (to_payload i v s))) = Inr (norm_secrets s)"
proof -
  let ?p = "sort_key fst (map (\<lambda>(k, v). (k, sort_json v)) (to_payload i v s))"
  note g = jget_sort_key [OF payload_keys, of sort_json i v s]
  have gets: "jget ?p ''password'' = Some (JStr (sd_password s))" "jget ?p ''notes'' = Some (JStr (sd_notes s))"
    "jget ?p ''totp_secret'' = Some (sort_json (seed_json s))"
    "jget ?p ''totp_params'' = Some (sort_json (JObj (if has_seed s then sd_params s else [])))"
    "jget ?p ''apple_history'' = Some (JList (map sort_json (sd_apple s)))"
    unfolding g by (simp_all add: to_payload_def rest_json_def jget_def)
  have seed: "seed_from (Some (sort_json (seed_json s))) = Inr (if has_seed s then sd_totp s else None)"
    using assms b64_roundtrip
    by (auto simp: seed_json_def has_seed_def seed_from_def or_null_def b64encode_Nil secrets_wf_def split: option.splits)
  have apple: "list_from (Some (JList (map sort_json (sd_apple s)))) = Inr (map sort_json (sd_apple s))"
    by (simp add: list_from_def or_null_def)
  have ps: "dict_from C (Some (sort_json (JObj kv))) = Inr (sort_key fst (map (\<lambda>(k, v). (k, sort_json v)) kv))" for kv
    by (simp add: dict_from_def or_null_def)
  have nts: "text_from C (Some (JStr t)) = t" for t by (simp add: text_from_def or_null_def py_str_def)
  show ?thesis
    unfolding from_payload_def gets option.case seed apple ps nts bindE.simps norm_secrets_def
    by (simp add: py_str_def)
qed

lemma ascii_inj [simp]: "ascii a = ascii b \<longleftrightarrow> a = b"
  by (auto simp: ascii_def map_injective inj_on_def)

text \<open>
  C13 (a box serves its own entry). A box sealed for an entry gives back that entry's secrets, and only when it is
  opened as that entry and is at least as new as its record says: a box put in another entry's place,
  or an old one put back, is refused as damaged.
\<close>

theorem box_serves_its_entry:
  assumes "boxlib_ok C" and "secrets_wf s"
  shows "bindE (open_box C sk (seal C (p_public C sk) (to_payload i v s) r) j (Some m)) (from_payload C) =
    (if j = i \<and> m \<le> v then Inr (norm_secrets s) else Inl St_damaged)"
  by (simp add: open_sealed [OF assms] from_sealed [OF assms(2)])

text \<open>Byte strings as terms: an instance with the documented behaviour.\<close>

datatype sym = T_name nat | T_text ustr | T_json json | T_pad sym | T_public sym | T_sealed sym sym nat
  | T_mac sym string sym

definition sym_lib :: "sym boxlib" where
  "sym_lib = \<lparr>p_dumps = T_json, p_loads = (\<lambda>b. case b of T_json j \<Rightarrow> Some (sort_json j) | _ \<Rightarrow> None),
     p_pad = T_pad, p_unpad = (\<lambda>b. case b of T_pad d \<Rightarrow> Some d | _ \<Rightarrow> None), p_seal = T_sealed,
     p_open = (\<lambda>sk b. case b of T_sealed pk d r \<Rightarrow> if pk = T_public sk then Some d else None | _ \<Rightarrow> None),
     p_public = T_public, p_hmac = T_mac, p_utf8 = T_text, p_str = (\<lambda>j. []), p_dict = (\<lambda>j. None)\<rparr>"

lemma sym_lib_ok: "boxlib_ok sym_lib"
  by (simp add: boxlib_ok_def sym_lib_def)

definition example_secrets :: sdata where
  "example_secrets = \<lparr>sd_password = ascii ''hunter2'', sd_notes = [], sd_totp = Some [1, 2, 3], sd_apple = [],
     sd_params = [(''period'', JInt 30), (''digits'', JInt 6)]\<rparr>"

theorem box_serves_its_entry_witness:
  "bindE (open_box sym_lib (T_name 3) (seal sym_lib (T_public (T_name 3)) (to_payload ''e-7'' 4 example_secrets) 0) ''e-8'' (Some 4))
     (from_payload sym_lib) = Inl St_damaged"
  using box_serves_its_entry [OF sym_lib_ok, of example_secrets "T_name 3" "''e-7''" 4 0 "''e-8''" 4]
  by (simp add: secrets_wf_def check_secrets_def example_secrets_def sym_lib_def)

end
