(* ===== verification/Records.thy ===== *)
theory Records
  imports Boxes
begin

text \<open>
  The records of \<^verbatim>\<open>meta.v2\<close>: \<^verbatim>\<open>backend/icp/vstore/meta.py\<close>. The last five fields may be missing in
  a record written by an older version.
\<close>

record mfields =
  f_title :: ustr
  f_domain :: ustr
  f_sites :: "ustr list"
  f_username :: ustr
  f_apple_title :: ustr
  f_aliases :: "ustr list"
  f_has_totp :: bool
  f_has_notes :: bool
  f_mdat :: real
  f_tags :: "ustr list option"
  f_has_passkey :: "bool option"
  f_kind :: "string option"
  f_has_password :: "bool option"
  f_recently_deleted :: "bool option"

text \<open>One earlier password: the number of its box, when, and where it was seen.\<close>

record hist =
  h_n :: nat
  h_at :: real
  h_source :: string

record 'b mrec =
  r_fields :: mfields
  r_v :: int
  r_pwmac :: "'b option"
  r_smac :: "'b option"
  r_apple_n :: int
  r_hist :: "hist list"
  r_deleted :: bool
  r_deleted_at :: "real option"

record 'b doc =
  d_synced_at :: "real option"
  d_needs_login :: bool
  d_entries :: "(string \<times> 'b mrec) list"

definition empty_doc :: "'b doc" where
  "empty_doc = \<lparr>d_synced_at = None, d_needs_login = False, d_entries = []\<rparr>"

definition ROW_KINDS :: "string list" where "ROW_KINDS = [''login'', ''passkey'']"

definition row_kind :: "string \<Rightarrow> string" where
  "row_kind k = (if k \<in> set ROW_KINDS then k else ''login'')"

definition fields_from :: "meta \<Rightarrow> mfields" where
  "fields_from m =
     \<lparr>f_title = title m, f_domain = domain m, f_sites = sites m, f_username = username m,
      f_apple_title = apple_title m, f_aliases = aliases m, f_has_totp = has_totp m, f_has_notes = has_notes m,
      f_mdat = mdat m, f_tags = Some (take MAX_TAGS (tags m)), f_has_passkey = Some (has_passkey m),
      f_kind = Some (row_kind (m_kind m)), f_has_password = Some (has_password m),
      f_recently_deleted = Some (recently_deleted m)\<rparr>"

text \<open>\<^verbatim>\<open>fields.update(notes_fields(notes))\<close>.\<close>

definition notes_fields :: "unidb \<Rightarrow> ustr \<Rightarrow> mfields \<Rightarrow> mfields" where
  "notes_fields u nts f = (case split u nts of (body, ts) \<Rightarrow> f\<lparr>f_has_notes := strip body \<noteq> [], f_tags := Some ts\<rparr>)"

text \<open>\<^verbatim>\<open>rec.get(k, DEFAULTS.get(k))\<close> for every field.\<close>

definition with_defaults :: "mfields \<Rightarrow> mfields" where
  "with_defaults f = f\<lparr>f_tags := Some (case f_tags f of None \<Rightarrow> [] | Some ts \<Rightarrow> ts),
     f_has_passkey := Some (case f_has_passkey f of None \<Rightarrow> False | Some b \<Rightarrow> b),
     f_kind := Some (case f_kind f of None \<Rightarrow> ''login'' | Some k \<Rightarrow> k),
     f_has_password := Some (case f_has_password f of None \<Rightarrow> True | Some b \<Rightarrow> b),
     f_recently_deleted := Some (case f_recently_deleted f of None \<Rightarrow> False | Some b \<Rightarrow> b)\<rparr>"

definition same_fields :: "'b mrec \<Rightarrow> mfields \<Rightarrow> bool" where
  "same_fields rec f \<longleftrightarrow> with_defaults (r_fields rec) = f"

definition history_count_of :: "'b mrec \<Rightarrow> int" where
  "history_count_of rec = int (length (r_hist rec)) + r_apple_n rec"

definition to_meta :: "string \<Rightarrow> 'b mrec \<Rightarrow> ustr \<Rightarrow> meta" where
  "to_meta i rec nick = (let f = with_defaults (r_fields rec) in
     \<lparr>m_id = i, title = f_title f, domain = f_domain f, sites = f_sites f, username = f_username f,
      nickname = nick, has_totp = f_has_totp f, has_notes = f_has_notes f, mdat = f_mdat f,
      history_count = history_count_of rec, apple_title = f_apple_title f, aliases = f_aliases f,
      tags = the (f_tags f), has_passkey = the (f_has_passkey f), m_kind = row_kind (the (f_kind f)),
      has_password = the (f_has_password f), recently_deleted = the (f_recently_deleted f)\<rparr>)"

definition live :: "'b doc \<Rightarrow> (string \<times> 'b mrec) list" where
  "live d = filter (\<lambda>(i, r). \<not> r_deleted r) (d_entries d)"

definition live_record :: "'b doc \<Rightarrow> string \<Rightarrow> 'b mrec option" where
  "live_record d i = (case dget (d_entries d) i of None \<Rightarrow> None | Some r \<Rightarrow> if r_deleted r then None else Some r)"

text \<open>A row is shown as the meta it was stored from, but for what the store itself knows better.\<close>

lemma to_meta_fields:
  assumes "length (tags m) \<le> MAX_TAGS" and "m_kind m \<in> set ROW_KINDS"
  shows "to_meta (m_id m) (rec\<lparr>r_fields := fields_from m\<rparr>) (nickname m) =
    m\<lparr>history_count := history_count_of rec\<rparr>"
  using assms by (simp add: to_meta_def fields_from_def with_defaults_def row_kind_def history_count_of_def)

lemma with_defaults_from [simp]: "with_defaults (fields_from m) = fields_from m"
  by (simp add: with_defaults_def fields_from_def)

lemma with_defaults_notes [simp]: "with_defaults (notes_fields u t f) = notes_fields u t (with_defaults f)"
  by (simp add: with_defaults_def notes_fields_def split: prod.splits)

lemma live_record_live: "dict_ok (d_entries d) \<Longrightarrow> live_record d i = Some r \<longleftrightarrow> (i, r) \<in> set (live d)"
  by (auto simp: live_record_def live_def dict_ok_items split: option.splits if_splits)

end
