(* ===== verification/Vault.thy ===== *)
theory Vault
  imports Records
begin

text \<open>
  The entries of an unlocked store: \<^verbatim>\<open>UserStore\<close> of \<^verbatim>\<open>backend/icp/vstore/__init__.py\<close> from
  \<^verbatim>\<open>list_meta\<close> to \<^verbatim>\<open>save_nicknames\<close>, with \<^verbatim>\<open>EntryFiles\<close> of \<^verbatim>\<open>entries.py\<close>. Every change of the disk is
  also appended to a log, so that the state of the disk after any number of them - what a crash
  leaves - can be spoken of. The encryption of the small files is left to \<^verbatim>\<open>format.py\<close>: \<open>meta_file\<close>
  and \<open>nick_file\<close> are what they decrypt to. A failing write (a full disk) is not modelled.
\<close>

subsection \<open>The disk\<close>

datatype path = Box string | Hist string nat

record 'b disk =
  files :: "(path \<times> 'b) list"
  meta_file :: "'b doc option"
  nick_file :: "(string \<times> ustr) list option"

datatype 'b dop = W_box path 'b | Link path path | Unlink path | W_meta "'b doc" | W_nick "(string \<times> ustr) list"

text \<open>Each is atomic: a write is a rename over the target. \<^verbatim>\<open>link\<close> refuses an existing target.\<close>

fun do_op :: "'b dop \<Rightarrow> 'b disk \<Rightarrow> 'b disk" where
  "do_op (W_box p b) d = d\<lparr>files := dset p b (files d)\<rparr>"
| "do_op (Link p q) d = (case dget (files d) p of None \<Rightarrow> d
     | Some b \<Rightarrow> if dget (files d) q \<noteq> None then d else d\<lparr>files := dset q b (files d)\<rparr>)"
| "do_op (Unlink p) d = d\<lparr>files := ddel p (files d)\<rparr>"
| "do_op (W_meta m) d = d\<lparr>meta_file := Some m\<rparr>"
| "do_op (W_nick n) d = d\<lparr>nick_file := Some n\<rparr>"

record 'b keyset =
  ks_pwmac :: 'b
  ks_pk :: 'b

record 'b store =
  us_keys :: "'b keyset option"
  us_doc :: "'b doc"
  us_nick :: "(string \<times> ustr) list"
  us_disk :: "'b disk"
  us_log :: "'b dop list"
  us_unseals :: nat
  us_rand :: nat

definition emit :: "'b dop \<Rightarrow> 'b store \<Rightarrow> 'b store" where
  "emit op st = st\<lparr>us_disk := do_op op (us_disk st), us_log := us_log st @ [op]\<rparr>"

definition box_of :: "'b store \<Rightarrow> path \<Rightarrow> 'b option" where
  "box_of st p = dget (files (us_disk st)) p"

subsection \<open>Boxes and history\<close>

definition numbers :: "'b disk \<Rightarrow> string \<Rightarrow> nat list" where
  "numbers d i = sort (concat (map (\<lambda>(p, b). case p of Hist j n \<Rightarrow> if j = i then [n] else [] | Box j \<Rightarrow> []) (files d)))"

definition next_number :: "'b disk \<Rightarrow> string \<Rightarrow> nat list \<Rightarrow> nat" where
  "next_number d i known = Suc (foldr max (known @ numbers d i) 0)"

definition move_to_history :: "string \<Rightarrow> nat \<Rightarrow> 'b store \<Rightarrow> (store_exn + bool) \<times> 'b store" where
  "move_to_history i n st =
     (if box_of st (Box i) = None then (Inr False, st)
      else if box_of st (Hist i n) \<noteq> None then (Inl St_exists, st)
      else (Inr True, emit (Unlink (Box i)) (emit (Link (Box i) (Hist i n)) st)))"

text \<open>The loop that drops the oldest boxes past the limit.\<close>

function drop_old :: "string \<Rightarrow> hist list \<Rightarrow> 'b store \<Rightarrow> hist list \<times> 'b store" where
  "drop_old i hs st =
     (if length hs > MAX_HISTORY then drop_old i (tl hs) (emit (Unlink (Hist i (h_n (hd hs)))) st) else (hs, st))"
  by pat_completeness auto
termination by (relation "measure (\<lambda>(i, hs, st). length hs)") auto

definition keep_old :: "string \<Rightarrow> 'b mrec \<Rightarrow> string \<Rightarrow> real \<Rightarrow> 'b store \<Rightarrow> (store_exn + 'b mrec) \<times> 'b store" where
  "keep_old i rec source now st =
     (let n = next_number (us_disk st) i (map h_n (r_hist rec)) in
      case move_to_history i n st of
        (Inl e, st1) \<Rightarrow> (Inl e, st1)
      | (Inr moved, st1) \<Rightarrow>
          if moved then (case drop_old i (r_hist rec @ [\<lparr>h_n = n, h_at = now, h_source = source\<rparr>]) st1 of
              (hs, st2) \<Rightarrow> (Inr (rec\<lparr>r_hist := hs\<rparr>), st2))
          else (Inr rec, st1))"

definition holds_no_password :: "'b boxlib \<Rightarrow> 'b keyset \<Rightarrow> 'b mrec \<Rightarrow> bool" where
  "holds_no_password C ks rec \<longleftrightarrow> f_kind (r_fields rec) = Some ''passkey'' \<or> r_pwmac rec = Some (pwmac C (ks_pwmac ks) [])"

text \<open>Whether the box is history: another password, and one at all.\<close>

definition password_changes :: "'b boxlib \<Rightarrow> 'b keyset \<Rightarrow> 'b mrec \<Rightarrow> sdata \<Rightarrow> bool" where
  "password_changes C ks rec s \<longleftrightarrow> r_pwmac rec \<noteq> None \<and> r_pwmac rec \<noteq> Some (pwmac C (ks_pwmac ks) (sd_password s)) \<and>
     \<not> holds_no_password C ks rec"

definition write_box :: "'b boxlib \<Rightarrow> 'b keyset \<Rightarrow> string \<Rightarrow> int \<Rightarrow> sdata \<Rightarrow> 'b store \<Rightarrow> 'b store" where
  "write_box C ks i v s st =
     (emit (W_box (Box i) (seal C (ks_pk ks) (to_payload i v s) (us_rand st))) st)\<lparr>us_rand := Suc (us_rand st)\<rparr>"

definition sealed_rec :: "'b boxlib \<Rightarrow> unidb \<Rightarrow> 'b keyset \<Rightarrow> int \<Rightarrow> sdata \<Rightarrow> 'b mrec \<Rightarrow> 'b mrec" where
  "sealed_rec C u ks v s rec = rec\<lparr>r_v := v, r_pwmac := Some (pwmac C (ks_pwmac ks) (sd_password s)),
     r_smac := Some (smac C (ks_pwmac ks) (rest_canonical C s)), r_apple_n := int (length (sd_apple s)),
     r_fields := notes_fields u (sd_notes s) ((r_fields rec)\<lparr>f_has_totp := has_seed s\<rparr>)\<rparr>"

definition unchanged_secrets :: "'b boxlib \<Rightarrow> 'b keyset \<Rightarrow> 'b mrec \<Rightarrow> sdata \<Rightarrow> bool" where
  "unchanged_secrets C ks rec s \<longleftrightarrow> r_pwmac rec = Some (pwmac C (ks_pwmac ks) (sd_password s)) \<and>
     r_smac rec = Some (smac C (ks_pwmac ks) (rest_canonical C s))"

definition replace_secrets ::
  "'b boxlib \<Rightarrow> unidb \<Rightarrow> 'b keyset \<Rightarrow> string \<Rightarrow> 'b mrec \<Rightarrow> sdata \<Rightarrow> string \<Rightarrow> real \<Rightarrow> 'b store \<Rightarrow>
   (store_exn + bool \<times> 'b mrec) \<times> 'b store" where
  "replace_secrets C u ks i rec s source now st =
     (let has_box = (box_of st (Box i) \<noteq> None) in
      if has_box \<and> unchanged_secrets C ks rec s then (Inr (False, rec), st)
      else (case (if has_box \<and> password_changes C ks rec s then keep_old i rec source now st else (Inr rec, st)) of
          (Inl e, st1) \<Rightarrow> (Inl e, st1)
        | (Inr rec1, st1) \<Rightarrow>
            (let v = r_v rec1 + 1 in (Inr (True, sealed_rec C u ks v s rec1), write_box C ks i v s st1))))"

subsection \<open>Reading\<close>

definition with_keys :: "'b store \<Rightarrow> ('b keyset \<Rightarrow> (store_exn + 'a) \<times> 'b store) \<Rightarrow> (store_exn + 'a) \<times> 'b store" where
  "with_keys st f = (case us_keys st of None \<Rightarrow> (Inl St_locked, st) | Some ks \<Rightarrow> f ks)"

definition with_live :: "string \<Rightarrow> 'b store \<Rightarrow> ('b mrec \<Rightarrow> (store_exn + 'a) \<times> 'b store) \<Rightarrow> (store_exn + 'a) \<times> 'b store" where
  "with_live i st f = (case live_record (us_doc st) i of None \<Rightarrow> (Inl St_not_found, st) | Some rec \<Rightarrow> f rec)"

definition nick_of :: "'b store \<Rightarrow> string \<Rightarrow> ustr" where
  "nick_of st i = (case dget (us_nick st) i of None \<Rightarrow> [] | Some t \<Rightarrow> t)"

definition list_meta :: "unidb \<Rightarrow> 'b store \<Rightarrow> (store_exn + meta list) \<times> 'b store" where
  "list_meta u st = with_keys st (\<lambda>ks. (Inr (sort_key (\<lambda>m. (ulower u (title m), ulower u (username m), m_id m))
     (map (\<lambda>(i, r). to_meta i r (nick_of st i)) (live (us_doc st)))), st))"

definition get_meta :: "string \<Rightarrow> 'b store \<Rightarrow> (store_exn + meta) \<times> 'b store" where
  "get_meta i st = with_keys st (\<lambda>ks. with_live i st (\<lambda>rec. (Inr (to_meta i rec (nick_of st i)), st)))"

text \<open>
  \<^verbatim>\<open>_unseal_sk\<close>: \<open>cred\<close> is what the backend makes of \<^verbatim>\<open>secret.cred\<close> (\<open>None\<close>: there is no such file).
  The key is wiped by the caller's \<^verbatim>\<open>finally\<close>: it is not part of any state here.
\<close>

definition unseal_sk :: "'b boxlib \<Rightarrow> (store_exn + 'b) option \<Rightarrow> 'b keyset \<Rightarrow> 'b store \<Rightarrow> (store_exn + 'b) \<times> 'b store" where
  "unseal_sk C cred ks st =
     (case cred of
        None \<Rightarrow> (Inl St_damaged, st)
      | Some x \<Rightarrow> (let st1 = st\<lparr>us_unseals := Suc (us_unseals st)\<rparr> in
          case x of
            Inl e \<Rightarrow> (Inl e, st1)
          | Inr sk \<Rightarrow> if p_public C sk \<noteq> ks_pk ks then (Inl St_damaged, st1) else (Inr sk, st1)))"

definition open_entry ::
  "'b boxlib \<Rightarrow> (store_exn + 'b) option \<Rightarrow> string \<Rightarrow> 'b store \<Rightarrow> (store_exn + sdata) \<times> 'b store" where
  "open_entry C cred i st = with_keys st (\<lambda>ks. with_live i st (\<lambda>rec.
     (case box_of st (Box i) of
        None \<Rightarrow> (Inl St_damaged, st)
      | Some blob \<Rightarrow> (case unseal_sk C cred ks st of
          (Inl e, st1) \<Rightarrow> (Inl e, st1)
        | (Inr sk, st1) \<Rightarrow> (bindE (open_box C sk blob i (Some (r_v rec))) (from_payload C), st1)))))"

definition pwmac_matches :: "'b boxlib \<Rightarrow> ustr option list \<Rightarrow> 'b store \<Rightarrow> (store_exn + nat list) \<times> 'b store" where
  "pwmac_matches C texts st = with_keys st (\<lambda>ks.
     (Inr (filter (\<lambda>j. case texts ! j of None \<Rightarrow> False
         | Some t \<Rightarrow> Some (pwmac C (ks_pwmac ks) t) \<in> (\<lambda>(i, r). r_pwmac r) ` set (live (us_doc st))) [0..<length texts]), st))"

subsection \<open>Writing\<close>

definition write_meta :: "'b store \<Rightarrow> 'b store" where
  "write_meta st = emit (W_meta (us_doc st)) st"

definition put_rec :: "string \<Rightarrow> 'b mrec \<Rightarrow> 'b store \<Rightarrow> 'b store" where
  "put_rec i rec st = st\<lparr>us_doc := (us_doc st)\<lparr>d_entries := dset i rec (d_entries (us_doc st))\<rparr>\<rparr>"

definition set_sync_status :: "real option \<Rightarrow> bool option \<Rightarrow> 'b store \<Rightarrow> (store_exn + unit) \<times> 'b store" where
  "set_sync_status at_time login st = with_keys st (\<lambda>ks.
     (let d = us_doc st;
          d1 = (case at_time of None \<Rightarrow> d | Some t \<Rightarrow> d\<lparr>d_synced_at := Some t\<rparr>);
          d2 = (case login of None \<Rightarrow> d1 | Some b \<Rightarrow> d1\<lparr>d_needs_login := b\<rparr>) in
      (Inr (), write_meta (st\<lparr>us_doc := d2\<rparr>))))"

definition set_secrets ::
  "'b boxlib \<Rightarrow> unidb \<Rightarrow> string \<Rightarrow> sdata \<Rightarrow> real \<Rightarrow> 'b store \<Rightarrow> (store_exn + unit) \<times> 'b store" where
  "set_secrets C u i s now st = with_keys st (\<lambda>ks. with_live i st (\<lambda>rec.
     if \<not> check_secrets s then (Inl St_value, st)
     else (case replace_secrets C u ks i rec s ''local'' now st of
         (Inl e, st1) \<Rightarrow> (Inl e, st1)
       | (Inr (touched, rec1), st1) \<Rightarrow>
           (Inr (), write_meta (put_rec i (rec1\<lparr>r_fields := (r_fields rec1)\<lparr>f_mdat := now\<rparr>\<rparr>) st1)))))"

definition save_nicknames :: "(string \<times> ustr) list \<Rightarrow> 'b store \<Rightarrow> (store_exn + unit) \<times> 'b store" where
  "save_nicknames names st = with_keys st (\<lambda>ks. (Inr (), (emit (W_nick names) st)\<lparr>us_nick := names\<rparr>))"

subsection \<open>A sync\<close>

record sync_item =
  it_id :: string
  it_meta :: meta
  it_secrets :: sdata

record counts =
  n_added :: nat
  n_changed :: nat
  n_deleted :: nat
  n_unchanged :: nat

definition item_ok :: "sync_item \<Rightarrow> bool" where
  "item_ok it \<longleftrightarrow> store_valid_id (JStr (ascii (it_id it))) \<and> m_id (it_meta it) = it_id it \<and> check_secrets (it_secrets it)"

definition item_fields :: "unidb \<Rightarrow> sync_item \<Rightarrow> mfields" where
  "item_fields u it = notes_fields u (sd_notes (it_secrets it))
     ((fields_from (it_meta it))\<lparr>f_has_totp := has_seed (it_secrets it)\<rparr>)"

definition fresh_rec :: "mfields \<Rightarrow> 'b mrec" where
  "fresh_rec f = \<lparr>r_fields = f, r_v = 0, r_pwmac = None, r_smac = None, r_apple_n = 0, r_hist = [],
     r_deleted = False, r_deleted_at = None\<rparr>"

text \<open>A new entry, or one that was tombstoned: the record has the new fields before its box is replaced.\<close>

definition add_item ::
  "'b boxlib \<Rightarrow> unidb \<Rightarrow> 'b keyset \<Rightarrow> real \<Rightarrow> sync_item \<Rightarrow> 'b mrec \<Rightarrow> counts \<times> 'b store \<Rightarrow> (store_exn + counts) \<times> 'b store" where
  "add_item C u ks now it rec0 cst =
     (let st0 = put_rec (it_id it) rec0 (snd cst) in
      case replace_secrets C u ks (it_id it) rec0 (it_secrets it) ''local'' now st0 of
        (Inl e, st1) \<Rightarrow> (Inl e, st1)
      | (Inr (touched, rec1), st1) \<Rightarrow>
          (Inr ((fst cst)\<lparr>n_added := Suc (n_added (fst cst))\<rparr>), put_rec (it_id it) rec1 st1))"

definition note_history :: "'b mrec \<Rightarrow> 'b mrec \<Rightarrow> 'b store \<Rightarrow> 'b store" where
  "note_history rec rec1 st = (if map h_n (r_hist rec1) \<noteq> map h_n (r_hist rec) then write_meta st else st)"

definition update_item ::
  "'b boxlib \<Rightarrow> unidb \<Rightarrow> 'b keyset \<Rightarrow> real \<Rightarrow> sync_item \<Rightarrow> 'b mrec \<Rightarrow> counts \<times> 'b store \<Rightarrow> (store_exn + counts) \<times> 'b store" where
  "update_item C u ks now it rec cst =
     (case replace_secrets C u ks (it_id it) rec (it_secrets it) ''local'' now (snd cst) of
        (Inl e, st1) \<Rightarrow> (Inl e, st1)
      | (Inr (touched, rec1), st1) \<Rightarrow>
          if touched \<or> \<not> same_fields rec1 (item_fields u it)
          then (Inr ((fst cst)\<lparr>n_changed := Suc (n_changed (fst cst))\<rparr>),
                note_history rec rec1 (put_rec (it_id it) (rec1\<lparr>r_fields := item_fields u it\<rparr>) st1))
          else (Inr ((fst cst)\<lparr>n_unchanged := Suc (n_unchanged (fst cst))\<rparr>),
                note_history rec rec1 (put_rec (it_id it) rec1 st1)))"

definition sync_one ::
  "'b boxlib \<Rightarrow> unidb \<Rightarrow> 'b keyset \<Rightarrow> real \<Rightarrow> sync_item \<Rightarrow> counts \<times> 'b store \<Rightarrow> (store_exn + counts) \<times> 'b store" where
  "sync_one C u ks now it cst =
     (case dget (d_entries (us_doc (snd cst))) (it_id it) of
        None \<Rightarrow> add_item C u ks now it (fresh_rec (item_fields u it)) cst
      | Some rec \<Rightarrow>
          if r_deleted rec
          then add_item C u ks now it (rec\<lparr>r_deleted := False, r_deleted_at := None, r_fields := item_fields u it\<rparr>) cst
          else update_item C u ks now it rec cst)"

fun sync_all ::
  "'b boxlib \<Rightarrow> unidb \<Rightarrow> 'b keyset \<Rightarrow> real \<Rightarrow> sync_item list \<Rightarrow> counts \<times> 'b store \<Rightarrow> (store_exn + counts) \<times> 'b store" where
  "sync_all C u ks now [] cst = (Inr (fst cst), snd cst)"
| "sync_all C u ks now (it # its) cst = (case sync_one C u ks now it cst of
     (Inl e, st) \<Rightarrow> (Inl e, st) | (Inr cs, st) \<Rightarrow> sync_all C u ks now its (cs, st))"

definition tombstone :: "real \<Rightarrow> string \<Rightarrow> counts \<times> 'b store \<Rightarrow> counts \<times> 'b store" where
  "tombstone now i cst = (case live_record (us_doc (snd cst)) i of
      None \<Rightarrow> cst
    | Some rec \<Rightarrow> ((fst cst)\<lparr>n_deleted := Suc (n_deleted (fst cst))\<rparr>,
        put_rec i (rec\<lparr>r_deleted := True, r_deleted_at := Some now\<rparr>) (snd cst)))"

definition no_counts :: counts where
  "no_counts = \<lparr>n_added = 0, n_changed = 0, n_deleted = 0, n_unchanged = 0\<rparr>"

definition apply_sync ::
  "'b boxlib \<Rightarrow> unidb \<Rightarrow> sync_item list \<Rightarrow> string list \<Rightarrow> real \<Rightarrow> 'b store \<Rightarrow> (store_exn + counts) \<times> 'b store" where
  "apply_sync C u items gone now st = with_keys st (\<lambda>ks.
     if \<not> list_all item_ok items then (Inl St_value, st)
     else (case sync_all C u ks now items (no_counts, st) of
         (Inl e, st1) \<Rightarrow> (Inl e, st1)
       | (Inr cs, st1) \<Rightarrow> (case fold (tombstone now) gone (cs, st1) of (cs2, st2) \<Rightarrow> (Inr cs2, write_meta st2))))"

end
