(* ===== verification/VaultSync.thy ===== *)
theory VaultSync
  imports Vault
begin

text \<open>
  What a sync leaves in the store: every record fits the box it describes, the entries are those of the
  items, and a crash at any moment loses no password.
\<close>

subsection \<open>Changes of the disk\<close>

fun path_id :: "path \<Rightarrow> string" where
  "path_id (Box i) = i"
| "path_id (Hist i n) = i"

fun op_for :: "string \<Rightarrow> 'b dop \<Rightarrow> bool" where
  "op_for i (W_box p b) = (path_id p = i)"
| "op_for i (Link p q) = (path_id q = i)"
| "op_for i (Unlink p) = (path_id p = i)"
| "op_for i op = True"

lemma op_for_other: "op_for i op \<Longrightarrow> path_id p \<noteq> i \<Longrightarrow> dget (files (do_op op d)) p = dget (files d) p"
  by (cases op) (auto split: option.splits)

text \<open>\<open>K\<close> holds of the disk before, after and at every moment between two states.\<close>

definition along :: "('b disk \<Rightarrow> bool) \<Rightarrow> 'b store \<Rightarrow> 'b store \<Rightarrow> bool" where
  "along K st st' \<longleftrightarrow> (\<exists>ops. us_log st' = us_log st @ ops \<and> us_disk st' = fold do_op ops (us_disk st) \<and>
     (\<forall>n. K (fold do_op (take n ops) (us_disk st))))"

lemma along_refl: "K (us_disk st) \<Longrightarrow> us_log st' = us_log st \<Longrightarrow> us_disk st' = us_disk st \<Longrightarrow> along K st st'"
  by (auto simp: along_def)

lemma along_emit: "K (us_disk st) \<Longrightarrow> K (do_op op (us_disk st)) \<Longrightarrow> along K st (emit op st)"
  unfolding along_def emit_def
  by (rule exI [of _ "[op]"]) (auto simp: take_Cons split: nat.splits)

lemma along_trans:
  assumes "along K st st1" and "along K st1 st2"
  shows "along K st st2"
proof -
  obtain a b where a: "us_log st1 = us_log st @ a" "us_disk st1 = fold do_op a (us_disk st)"
      "\<And>n. K (fold do_op (take n a) (us_disk st))"
    and b: "us_log st2 = us_log st1 @ b" "us_disk st2 = fold do_op b (us_disk st1)"
      "\<And>n. K (fold do_op (take n b) (us_disk st1))"
    using assms unfolding along_def by metis
  have "K (fold do_op (take n (a @ b)) (us_disk st))" for n
  proof (cases "n \<le> length a")
    case True
    then show ?thesis using a(3) [of n] by simp
  next
    case False
    then have "take n (a @ b) = a @ take (n - length a) b" by simp
    then show ?thesis using b(3) [of "n - length a"] a(2) by simp
  qed
  moreover have "us_log st2 = us_log st @ (a @ b)" "us_disk st2 = fold do_op (a @ b) (us_disk st)"
    using a b by simp_all
  ultimately show ?thesis unfolding along_def by metis
qed

lemma along_cong: "along K st st1 \<Longrightarrow> us_log st2 = us_log st1 \<Longrightarrow> us_disk st2 = us_disk st1 \<Longrightarrow> along K st st2"
  by (simp add: along_def)

lemma along_cong_left: "along K st1 st2 \<Longrightarrow> us_log st = us_log st1 \<Longrightarrow> us_disk st = us_disk st1 \<Longrightarrow> along K st st2"
  by (simp add: along_def)

lemma along_start: "along K st st' \<Longrightarrow> K (us_disk st)"
  by (metis along_def fold_simps(1) take0)

lemma along_end: "along K st st' \<Longrightarrow> K (us_disk st')"
  unfolding along_def by (metis order_refl take_all)

text \<open>What is on disk if the machine stops after \<open>n\<close> of the changes made between two states.\<close>

definition after_crash :: "nat \<Rightarrow> 'b store \<Rightarrow> 'b store \<Rightarrow> 'b disk" where
  "after_crash n st st' = fold do_op (take n (drop (length (us_log st)) (us_log st'))) (us_disk st)"

lemma along_crash: "along K st st' \<Longrightarrow> K (after_crash n st st')"
  by (auto simp: along_def after_crash_def)

lemma emit_simps [simp]:
  "us_keys (emit op st) = us_keys st" "us_doc (emit op st) = us_doc st" "us_nick (emit op st) = us_nick st"
  "us_disk (emit op st) = do_op op (us_disk st)" "us_unseals (emit op st) = us_unseals st" "us_rand (emit op st) = us_rand st"
  by (simp_all add: emit_def)

subsection \<open>Dropping the oldest history\<close>

declare drop_old.simps [simp del]

definition same_memory :: "'b store \<Rightarrow> 'b store \<Rightarrow> bool" where
  "same_memory st st' \<longleftrightarrow> us_keys st' = us_keys st \<and> us_doc st' = us_doc st \<and> us_nick st' = us_nick st \<and> us_unseals st' = us_unseals st"

lemma same_memory_trans: "same_memory a b \<Longrightarrow> same_memory b c \<Longrightarrow> same_memory a c"
  by (simp add: same_memory_def)

lemma same_memory_refl [simp]: "same_memory a a"
  by (simp add: same_memory_def)

lemma same_memory_emit [simp]: "same_memory a (emit op a)"
  by (simp add: same_memory_def)

lemma drop_old_spec:
  "same_memory st (snd (drop_old i hs st)) \<and> fst (drop_old i hs st) = drop (length hs - MAX_HISTORY) hs \<and>
   box_of (snd (drop_old i hs st)) p =
     (if \<exists>h \<in> set (take (length hs - MAX_HISTORY) hs). p = Hist i (h_n h) then None else box_of st p)"
proof (induction i hs st rule: drop_old.induct)
  case (1 i hs st)
  show ?case
  proof (cases "length hs > MAX_HISTORY")
    case True
    then obtain h t where hs: "hs = h # t" by (cases hs) auto
    then have "length hs - MAX_HISTORY = Suc (length t - MAX_HISTORY)" using True by simp
    moreover have "drop_old i hs st = drop_old i t (emit (Unlink (Hist i (h_n h))) st)"
      using True by (subst drop_old.simps) (simp add: hs)
    ultimately show ?thesis
      using 1 [OF True] hs by (auto simp: box_of_def same_memory_def)
  next
    case False
    then show ?thesis by (simp add: drop_old.simps)
  qed
qed

lemma drop_old_along:
  assumes "K (us_disk st)"
    and "\<And>h d. h \<in> set (take (length hs - MAX_HISTORY) hs) \<Longrightarrow> K d \<Longrightarrow> K (do_op (Unlink (Hist i (h_n h))) d)"
  shows "along K st (snd (drop_old i hs st))"
  using assms
proof (induction i hs st rule: drop_old.induct)
  case (1 i hs st)
  show ?case
  proof (cases "length hs > MAX_HISTORY")
    case True
    then obtain h t where hs: "hs = h # t" by (cases hs) auto
    have n: "length hs - MAX_HISTORY = Suc (length t - MAX_HISTORY)" using True hs by simp
    let ?e = "emit (Unlink (Hist i (h_n h))) st"
    have k: "K (us_disk ?e)" using 1(2) 1(3) [of h "us_disk st"] hs n by simp
    have "along K ?e (snd (drop_old i t ?e))"
      using 1(1) [OF True] k 1(3) hs n by simp
    moreover have "along K st ?e" using 1(2) k by (intro along_emit) simp_all
    moreover have "drop_old i hs st = drop_old i t ?e" using True by (subst drop_old.simps) (simp add: hs)
    ultimately show ?thesis by (metis along_trans)
  next
    case False
    then show ?thesis using 1(2) by (simp add: drop_old.simps along_refl)
  qed
qed

text \<open>Only files of one entry, and the metadata, change between two states.\<close>

definition grows :: "string \<Rightarrow> 'b store \<Rightarrow> 'b store \<Rightarrow> bool" where
  "grows i st st' \<longleftrightarrow> (\<exists>ops. us_log st' = us_log st @ ops \<and> us_disk st' = fold do_op ops (us_disk st) \<and> list_all (op_for i) ops)"

lemma grows_refl: "us_log st' = us_log st \<Longrightarrow> us_disk st' = us_disk st \<Longrightarrow> grows i st st'"
  by (auto simp: grows_def)

lemma grows_emit: "op_for i op \<Longrightarrow> grows i st (emit op st)"
  unfolding grows_def emit_def by (rule exI [of _ "[op]"]) simp

lemma grows_trans: "grows i st st1 \<Longrightarrow> grows i st1 st2 \<Longrightarrow> grows i st st2"
  unfolding grows_def by (metis append.assoc fold_append comp_apply list_all_append)

lemma grows_cong: "grows i st st1 \<Longrightarrow> us_log st2 = us_log st1 \<Longrightarrow> us_disk st2 = us_disk st1 \<Longrightarrow> grows i st st2"
  by (simp add: grows_def)

lemma fold_closed: "K d \<Longrightarrow> list_all P ops \<Longrightarrow> (\<And>d op. K d \<Longrightarrow> P op \<Longrightarrow> K (do_op op d)) \<Longrightarrow> K (fold do_op ops d)"
  by (induction ops arbitrary: d) auto

lemma grows_along:
  assumes "grows i st st'" and "K (us_disk st)" and "\<And>d op. K d \<Longrightarrow> op_for i op \<Longrightarrow> K (do_op op d)"
  shows "along K st st'"
proof -
  obtain ops where ops: "us_log st' = us_log st @ ops" "us_disk st' = fold do_op ops (us_disk st)" "list_all (op_for i) ops"
    using assms(1) unfolding grows_def by blast
  have "list_all (op_for i) (take n ops)" for n using ops(3) by (metis append_take_drop_id list_all_append)
  then have "K (fold do_op (take n ops) (us_disk st))" for n
    using fold_closed [of K "us_disk st" "op_for i" "take n ops"] assms(2,3) by blast
  then show ?thesis using ops unfolding along_def by blast
qed

lemma grows_other: "grows i st st' \<Longrightarrow> path_id p \<noteq> i \<Longrightarrow> box_of st' p = box_of st p"
  using along_end [OF grows_along [of i st st' "\<lambda>d. dget (files d) p = box_of st p"]]
  by (simp add: box_of_def op_for_other)

lemma drop_old_grows: "grows i st (snd (drop_old i hs st))"
proof (induction i hs st rule: drop_old.induct)
  case (1 i hs st)
  show ?case
  proof (cases "length hs > MAX_HISTORY")
    case True
    then show ?thesis
      using 1 grows_trans [OF grows_emit [of i "Unlink (Hist i (h_n (hd hs)))" st]] by (subst drop_old.simps) simp
  next
    case False
    then show ?thesis by (subst drop_old.simps) (simp add: grows_refl)
  qed
qed

subsection \<open>Records that fit their boxes\<close>

definition sealed_for :: "'b boxlib \<Rightarrow> 'b keyset \<Rightarrow> string \<Rightarrow> int \<Rightarrow> sdata \<Rightarrow> 'b \<Rightarrow> bool" where
  "sealed_for C ks i v s b \<longleftrightarrow> secrets_wf s \<and> (\<exists>r. b = seal C (ks_pk ks) (to_payload i v s) r)"

definition box_fits :: "'b boxlib \<Rightarrow> 'b keyset \<Rightarrow> 'b disk \<Rightarrow> string \<Rightarrow> 'b mrec \<Rightarrow> bool" where
  "box_fits C ks d i rec \<longleftrightarrow> (\<exists>s b. dget (files d) (Box i) = Some b \<and> sealed_for C ks i (r_v rec) s b \<and> unchanged_secrets C ks rec s)"

definition hist_fits :: "'b boxlib \<Rightarrow> 'b keyset \<Rightarrow> 'b disk \<Rightarrow> string \<Rightarrow> 'b mrec \<Rightarrow> bool" where
  "hist_fits C ks d i rec \<longleftrightarrow> distinct (map h_n (r_hist rec)) \<and> length (r_hist rec) \<le> MAX_HISTORY \<and>
     (\<forall>h \<in> set (r_hist rec). \<exists>s v b. dget (files d) (Hist i (h_n h)) = Some b \<and> sealed_for C ks i v s b)"

lemma foldr_max_ge: "x \<in> set xs \<Longrightarrow> x \<le> foldr max xs (0 :: nat)"
  by (induction xs) auto

lemma next_number_fresh:
  "dget (files d) (Hist i (next_number d i known)) = None" "next_number d i known \<notin> set known"
proof -
  have "n \<in> set (numbers d i)" if "dget (files d) (Hist i n) = Some b" for n b
    using map_of_SomeD [of "files d" "Hist i n" b] that
    by (force simp: numbers_def dget_def)
  then have "n < next_number d i known" if "dget (files d) (Hist i n) = Some b \<or> n \<in> set known" for n b
    using that foldr_max_ge [of n "known @ numbers d i"] by (auto simp: next_number_def less_Suc_eq_le)
  then show "dget (files d) (Hist i (next_number d i known)) = None" "next_number d i known \<notin> set known"
    by (metis less_irrefl option.exhaust, metis less_irrefl)
qed

text \<open>The blob that was the entry's box is in one of its files.\<close>

definition blob_kept :: "string \<Rightarrow> 'b \<Rightarrow> 'b disk \<Rightarrow> bool" where
  "blob_kept i b d \<longleftrightarrow> (\<exists>p. path_id p = i \<and> dget (files d) p = Some b)"

lemma keep_old_spec:
  assumes "hist_fits C ks (us_disk (st :: 'b store)) i rec" and "box_of st (Box i) = Some b" and "sealed_for C ks i v s b"
  shows "\<exists>hs st1. keep_old i rec source now st = (Inr (rec\<lparr>r_hist := hs\<rparr>), st1) \<and> same_memory st st1 \<and>
    hist_fits C ks (us_disk st1) i (rec\<lparr>r_hist := hs\<rparr>) \<and> grows i st st1 \<and> along (blob_kept i b) st st1 \<and>
    (\<exists>h \<in> set hs. box_of st1 (Hist i (h_n h)) = Some b) \<and> hs \<noteq> r_hist rec \<and> map h_n hs \<noteq> map h_n (r_hist rec)"
proof -
  let ?n = "next_number (us_disk st) i (map h_n (r_hist rec))"
  note n = next_number_fresh [of "us_disk st" i "map h_n (r_hist rec)"]
  define new where "new = \<lparr>h_n = ?n, h_at = now, h_source = source\<rparr>"
  define l where "l = emit (Link (Box i) (Hist i ?n)) st"
  define m where "m = emit (Unlink (Box i)) l"
  define hs where "hs = r_hist rec @ [new]"
  define k where "k = length hs - MAX_HISTORY"
  define e where "e = snd (drop_old i hs m)"
  have b0: "dget (files (us_disk st)) (Box i) = Some b" using assms(2) by (simp add: box_of_def)
  have lb: "dget (files (us_disk l)) p = (if p = Hist i ?n then Some b else dget (files (us_disk st)) p)" for p
    using b0 n(1) by (simp add: l_def)
  have mb: "dget (files (us_disk m)) p = (if p = Box i then None else if p = Hist i ?n then Some b else dget (files (us_disk st)) p)" for p
    by (simp add: m_def lb)
  have len: "length (r_hist rec) \<le> MAX_HISTORY" "distinct (map h_n (r_hist rec))" using assms(1) by (simp_all add: hist_fits_def)
  then have k1: "k \<le> 1" "k = 1 \<Longrightarrow> r_hist rec \<noteq> []" by (auto simp: k_def hs_def MAX_HISTORY_def)
  have tk: "take k hs = (if k = 0 then [] else [hd (r_hist rec)])"
  proof (cases "r_hist rec")
    case Nil
    then have "k = 0" using k1 by (cases k) auto
    then show ?thesis by simp
  next
    case (Cons a t)
    then show ?thesis using k1(1) by (cases k) (auto simp: hs_def)
  qed
  have dist: "distinct (map h_n hs)" using len(2) n(2) by (simp add: hs_def new_def)
  have dropped: "h_n h \<noteq> ?n" if "h \<in> set (take k hs)" for h
  proof -
    have "k = 0 \<or> r_hist rec \<noteq> []" using k1 by (cases "k = 0") (auto simp: le_Suc_eq)
    then have "h \<in> set (r_hist rec)" using that tk by (auto split: if_splits)
    then show ?thesis using n(2) by (metis imageI set_map)
  qed
  have spec: "same_memory m e" "fst (drop_old i hs m) = drop k hs"
    "box_of e p = (if \<exists>h \<in> set (take k hs). p = Hist i (h_n h) then None else box_of m p)" for p
    using drop_old_spec [of m i hs p] by (simp_all add: e_def k_def)
  have run: "keep_old i rec source now st = (Inr (rec\<lparr>r_hist := drop k hs\<rparr>), e)"
  proof -
    have "drop_old i hs m = (drop k hs, e)" using spec(2) by (simp add: e_def prod_eq_iff)
    then show ?thesis
      using b0 n(1) by (simp add: keep_old_def Let_def move_to_history_def box_of_def hs_def new_def m_def l_def)
  qed
  have new_in: "new \<in> set (drop k hs)"
  proof -
    have "k \<le> length (r_hist rec)" by (simp add: k_def hs_def MAX_HISTORY_def)
    then show ?thesis by (simp add: hs_def)
  qed
  have disj: "h \<notin> set (take k hs)" "\<And>h'. h' \<in> set (take k hs) \<Longrightarrow> h_n h' \<noteq> h_n h" if "h \<in> set (drop k hs)" for h
  proof -
    have "distinct (map h_n (take k hs @ drop k hs))" using dist by simp
    then show "\<And>h'. h' \<in> set (take k hs) \<Longrightarrow> h_n h' \<noteq> h_n h" using that by (fastforce simp del: append_take_drop_id)
    then show "h \<notin> set (take k hs)" by blast
  qed
  have eb: "box_of e (Hist i (h_n h)) = box_of m (Hist i (h_n h))" if "h \<in> set (drop k hs)" for h
    using disj(2) [OF that] by (force simp: spec(3))
  have fits: "hist_fits C ks (us_disk e) i (rec\<lparr>r_hist := drop k hs\<rparr>)"
    unfolding hist_fits_def
  proof (intro conjI ballI)
    show "distinct (map h_n (r_hist (rec\<lparr>r_hist := drop k hs\<rparr>)))"
      using dist by (simp add: drop_map [symmetric])
    show "length (r_hist (rec\<lparr>r_hist := drop k hs\<rparr>)) \<le> MAX_HISTORY" by (simp add: k_def)
    fix h
    assume "h \<in> set (r_hist (rec\<lparr>r_hist := drop k hs\<rparr>))"
    then have h: "h \<in> set (drop k hs)" by simp
    then have "h = new \<or> h \<in> set (r_hist rec)" by (auto simp: hs_def dest: in_set_dropD)
    then have "\<exists>s v b. box_of m (Hist i (h_n h)) = Some b \<and> sealed_for C ks i v s b"
    proof
      assume "h = new"
      then show ?thesis using assms(3) by (auto simp: box_of_def mb new_def)
    next
      assume hr: "h \<in> set (r_hist rec)"
      then have "h_n h \<noteq> ?n" using n(2) by (metis imageI set_map)
      then show ?thesis using hr assms(1) by (simp add: box_of_def mb hist_fits_def)
    qed
    then show "\<exists>s v b. dget (files (us_disk e)) (Hist i (h_n h)) = Some b \<and> sealed_for C ks i v s b"
      using eb [OF h] by (simp add: box_of_def)
  qed
  have kept: "along (blob_kept i b) st e"
  proof -
    have 0: "blob_kept i b (us_disk st)" "blob_kept i b (us_disk l)" "blob_kept i b (us_disk m)"
      unfolding blob_kept_def lb mb using b0 by (metis path_id.simps(1), metis path_id.simps(2), metis path.distinct(1) path_id.simps(2))
    have 1: "along (blob_kept i b) st l" unfolding l_def using 0(1,2) by (intro along_emit) (simp_all add: l_def)
    have 2: "along (blob_kept i b) l m" unfolding m_def using 0(2,3) by (intro along_emit) (simp_all add: m_def)
    have 3: "along (\<lambda>d. dget (files d) (Hist i ?n) = Some b) m e"
      unfolding e_def
    proof (rule drop_old_along)
      show "dget (files (us_disk m)) (Hist i ?n) = Some b" by (simp add: mb)
      fix h and d :: "'b disk"
      assume "h \<in> set (take (length hs - MAX_HISTORY) hs)" "dget (files d) (Hist i ?n) = Some b"
      then show "dget (files (do_op (Unlink (Hist i (h_n h))) d)) (Hist i ?n) = Some b"
        using dropped [of h] by (auto simp: k_def)
    qed
    then have "along (blob_kept i b) m e"
      unfolding along_def blob_kept_def by (metis path_id.simps(2))
    with 1 2 show ?thesis by (metis along_trans)
  qed
  have g: "grows i st e"
  proof -
    have "grows i st m" unfolding m_def l_def by (intro grows_trans [OF grows_emit grows_emit]) simp_all
    then show ?thesis unfolding e_def using drop_old_grows by (metis grows_trans)
  qed
  have mem: "same_memory st e"
    using spec(1) by (metis m_def l_def same_memory_emit same_memory_trans)
  have "box_of e (Hist i (h_n new)) = Some b" using eb [OF new_in] by (simp add: box_of_def mb new_def)
  moreover have "map h_n (drop k hs) \<noteq> map h_n (r_hist rec)"
  proof
    assume "map h_n (drop k hs) = map h_n (r_hist rec)"
    then have "h_n new \<in> set (map h_n (r_hist rec))" using new_in by (metis imageI set_map)
    then show False using n(2) by (simp add: new_def)
  qed
  ultimately show ?thesis
    using run mem fits g kept new_in by (intro exI [of _ "drop k hs"] exI [of _ e]) auto
qed

lemma write_box_simps [simp]:
  "us_keys (write_box C ks i v s st) = us_keys st" "us_doc (write_box C ks i v s st) = us_doc st"
  "us_nick (write_box C ks i v s st) = us_nick st" "us_unseals (write_box C ks i v s st) = us_unseals st"
  "us_disk (write_box C ks i v s st) = do_op (W_box (Box i) (seal C (ks_pk ks) (to_payload i v s) (us_rand st))) (us_disk st)"
  "us_log (write_box C ks i v s st) = us_log st @ [W_box (Box i) (seal C (ks_pk ks) (to_payload i v s) (us_rand st))]"
  by (simp_all add: write_box_def emit_def)

lemma write_box_fits:
  assumes "secrets_wf s" and "hist_fits C ks (us_disk st) i rec"
  shows "box_fits C ks (us_disk (write_box C ks i v s st)) i (sealed_rec C u ks v s rec)"
    and "hist_fits C ks (us_disk (write_box C ks i v s st)) i (sealed_rec C u ks v s rec)"
    and "unchanged_secrets C ks (sealed_rec C u ks v s rec) s"
    and "grows i st (write_box C ks i v s st)" and "same_memory st (write_box C ks i v s st)"
  using assms
  by (auto simp: box_fits_def sealed_for_def sealed_rec_def unchanged_secrets_def hist_fits_def same_memory_def grows_def)

lemma along_write_box:
  assumes "K (us_disk st)" and "K (do_op (W_box (Box i) (seal C (ks_pk ks) (to_payload i v s) (us_rand st))) (us_disk st))"
  shows "along K st (write_box C ks i v s st)"
  unfolding write_box_def by (rule along_cong, rule along_emit, fact assms(1), fact assms(2)) simp_all

definition same_status :: "'b mrec \<Rightarrow> 'b mrec \<Rightarrow> bool" where
  "same_status rec rec1 \<longleftrightarrow> r_deleted rec1 = r_deleted rec \<and> r_deleted_at rec1 = r_deleted_at rec"

lemma sealed_rec_status:
  "same_status rec (sealed_rec C u ks v s (rec\<lparr>r_hist := hs\<rparr>))" "same_status rec (sealed_rec C u ks v s rec)"
  "r_fields (sealed_rec C u ks v s rec) = notes_fields u (sd_notes s) ((r_fields rec)\<lparr>f_has_totp := has_seed s\<rparr>)"
  by (simp_all add: sealed_rec_def same_status_def)

lemma replace_secrets_spec:
  assumes "hist_fits C ks (us_disk st) i rec" and "r_pwmac rec \<noteq> None \<Longrightarrow> box_fits C ks (us_disk st) i rec"
    and "secrets_wf s"
  shows "\<exists>touched rec1 st1. replace_secrets C u ks i rec s source now st = (Inr (touched, rec1), st1) \<and>
    same_memory st st1 \<and> grows i st st1 \<and> box_fits C ks (us_disk st1) i rec1 \<and> hist_fits C ks (us_disk st1) i rec1 \<and>
    unchanged_secrets C ks rec1 s \<and> same_status rec rec1 \<and>
    (if touched then r_fields rec1 = notes_fields u (sd_notes s) ((r_fields rec)\<lparr>f_has_totp := has_seed s\<rparr>)
     else rec1 = rec \<and> st1 = st) \<and> (touched \<longleftrightarrow> \<not> (box_of st (Box i) \<noteq> None \<and> unchanged_secrets C ks rec s))"
proof -
  let ?skip = "box_of st (Box i) \<noteq> None \<and> unchanged_secrets C ks rec s"
  let ?move = "box_of st (Box i) \<noteq> None \<and> password_changes C ks rec s"
  consider (skip) ?skip | (move) "\<not> ?skip" ?move | (reseal) "\<not> ?skip" "\<not> ?move" by blast
  then show ?thesis
  proof cases
    case skip
    then have "r_pwmac rec \<noteq> None" by (simp add: unchanged_secrets_def)
    with skip show ?thesis
      using assms by (intro exI [of _ False] exI [of _ rec] exI [of _ st])
        (simp add: replace_secrets_def Let_def same_memory_def grows_refl same_status_def)
  next
    case move
    then have "r_pwmac rec \<noteq> None" by (simp add: password_changes_def)
    from assms(2) [OF this] obtain s0 b where b: "box_of st (Box i) = Some b" "sealed_for C ks i (r_v rec) s0 b"
      by (auto simp: box_fits_def box_of_def)
    obtain hs st1 where k: "keep_old i rec source now st = (Inr (rec\<lparr>r_hist := hs\<rparr>), st1)" "same_memory st st1"
      "hist_fits C ks (us_disk st1) i (rec\<lparr>r_hist := hs\<rparr>)" "grows i st st1"
      using keep_old_spec [OF assms(1) b] by metis
    note w = write_box_fits [OF assms(3) k(3), where v = "r_v rec + 1"]
    have "replace_secrets C u ks i rec s source now st =
        (Inr (True, sealed_rec C u ks (r_v rec + 1) s (rec\<lparr>r_hist := hs\<rparr>)), write_box C ks i (r_v rec + 1) s st1)"
      using move k(1) by (simp add: replace_secrets_def Let_def)
    then show ?thesis
      using w grows_trans [OF k(4) w(4)] same_memory_trans [OF k(2) w(5)] move(1)
      by (intro exI [of _ True] exI [of _ "sealed_rec C u ks (r_v rec + 1) s (rec\<lparr>r_hist := hs\<rparr>)"]
          exI [of _ "write_box C ks i (r_v rec + 1) s st1"]) (simp add: sealed_rec_status del: write_box_simps)
  next
    case reseal
    note w = write_box_fits [OF assms(3,1), where v = "r_v rec + 1"]
    have "replace_secrets C u ks i rec s source now st =
        (Inr (True, sealed_rec C u ks (r_v rec + 1) s rec), write_box C ks i (r_v rec + 1) s st)"
      using reseal by (auto simp: replace_secrets_def Let_def)
    then show ?thesis
      using w reseal(1)
      by (intro exI [of _ True] exI [of _ "sealed_rec C u ks (r_v rec + 1) s rec"]
          exI [of _ "write_box C ks i (r_v rec + 1) s st"]) (simp add: sealed_rec_status del: write_box_simps)
  qed
qed

subsection \<open>A crash loses no password\<close>

text \<open>One of the entry's boxes holds the password.\<close>

definition pw_kept :: "'b boxlib \<Rightarrow> 'b keyset \<Rightarrow> string \<Rightarrow> ustr \<Rightarrow> 'b disk \<Rightarrow> bool" where
  "pw_kept C ks i pw d \<longleftrightarrow> (\<exists>p b v s. path_id p = i \<and> dget (files d) p = Some b \<and> sealed_for C ks i v s b \<and> sd_password s = pw)"

text \<open>HMAC tells the stored password from the new one and from none.\<close>

definition told_apart :: "'b boxlib \<Rightarrow> 'b keyset \<Rightarrow> ustr \<Rightarrow> ustr \<Rightarrow> bool" where
  "told_apart C ks pw new \<longleftrightarrow> list_all (\<lambda>x. pwmac C (ks_pwmac ks) pw = pwmac C (ks_pwmac ks) x \<longrightarrow> pw = x) [new, []]"

lemma along_mono: "along K st st' \<Longrightarrow> (\<And>d. K d \<Longrightarrow> K' d) \<Longrightarrow> along K' st st'"
  unfolding along_def by blast

lemma replace_secrets_kept:
  assumes "hist_fits C ks (us_disk st) i rec" and "secrets_wf s"
    and "box_of st (Box i) = Some b" and "sealed_for C ks i (r_v rec) s0 b" and "unchanged_secrets C ks rec s0"
    and "sd_password s0 \<noteq> []" and "f_kind (r_fields rec) \<noteq> Some ''passkey''"
    and "told_apart C ks (sd_password s0) (sd_password s)"
  shows "along (pw_kept C ks i (sd_password s0)) st (snd (replace_secrets C u ks i rec s source now st))"
proof -
  let ?K = "pw_kept C ks i (sd_password s0)"
  have m: "r_pwmac rec = Some (pwmac C (ks_pwmac ks) (sd_password s0))" using assms(5) by (simp add: unchanged_secrets_def)
  have t: "pwmac C (ks_pwmac ks) (sd_password s0) = pwmac C (ks_pwmac ks) (sd_password s) \<longleftrightarrow> sd_password s0 = sd_password s"
    "pwmac C (ks_pwmac ks) (sd_password s0) \<noteq> pwmac C (ks_pwmac ks) []"
    using assms(6,8) unfolding told_apart_def by auto
  then have "\<not> holds_no_password C ks rec"
    using assms(7) unfolding holds_no_password_def m by simp
  then have ch: "password_changes C ks rec s \<longleftrightarrow> sd_password s \<noteq> sd_password s0"
    using t(1) unfolding password_changes_def m by auto
  have blob: "?K d" if "blob_kept i b d" for d
    using that assms(4) unfolding blob_kept_def pw_kept_def by blast
  have start: "?K (us_disk st)" using assms(3) by (intro blob) (auto simp: blob_kept_def box_of_def intro: exI [of _ "Box i"])
  show ?thesis
  proof (cases "unchanged_secrets C ks rec s")
    case True
    then show ?thesis using assms(3) start by (simp add: replace_secrets_def Let_def along_refl)
  next
    case changed: False
    show ?thesis
    proof (cases "password_changes C ks rec s")
      case True
      obtain hs st1 where k: "keep_old i rec source now st = (Inr (rec\<lparr>r_hist := hs\<rparr>), st1)"
          "along (blob_kept i b) st st1" "\<exists>h \<in> set hs. box_of st1 (Hist i (h_n h)) = Some b"
        using keep_old_spec [OF assms(1,3,4)] by metis
      from k(3) obtain h :: hist where h: "box_of st1 (Hist i (h_n h)) = Some b" by (elim bexE) (rule that)
      have "along (\<lambda>d. dget (files d) (Hist i (h_n h)) = Some b) st1 (write_box C ks i (r_v rec + 1) s st1)"
        using h by (intro along_write_box) (simp_all add: box_of_def)
      then have "along (blob_kept i b) st1 (write_box C ks i (r_v rec + 1) s st1)"
        by (rule along_mono) (auto simp: blob_kept_def intro: exI [of _ "Hist i (h_n h)"])
      with k(2) have "along (blob_kept i b) st (write_box C ks i (r_v rec + 1) s st1)" by (rule along_trans)
      moreover have "snd (replace_secrets C u ks i rec s source now st) = write_box C ks i (r_v rec + 1) s st1"
        using True changed assms(3) k(1) by (simp add: replace_secrets_def Let_def)
      ultimately show ?thesis using along_mono [of "blob_kept i b" _ _ ?K] blob by simp
    next
      case False
      then have pw: "sd_password s = sd_password s0" using ch by blast
      let ?b = "seal C (ks_pk ks) (to_payload i (r_v rec + 1) s) (us_rand st)"
      have "sealed_for C ks i (r_v rec + 1) s ?b" using assms(2) by (auto simp: sealed_for_def)
      moreover have "dget (files (do_op (W_box (Box i) ?b) (us_disk st))) (Box i) = Some ?b" by simp
      ultimately have "?K (do_op (W_box (Box i) ?b) (us_disk st))"
        using pw unfolding pw_kept_def by (metis path_id.simps(1))
      then have "along ?K st (write_box C ks i (r_v rec + 1) s st)"
        using start by (intro along_write_box)
      moreover have "snd (replace_secrets C u ks i rec s source now st) = write_box C ks i (r_v rec + 1) s st"
        using False changed assms(3) by (simp add: replace_secrets_def Let_def)
      ultimately show ?thesis by simp
    qed
  qed
qed

end
