(* ===== verification/VaultSafe.thy ===== *)
theory VaultSafe
  imports VaultSync
begin

text \<open>The store as a whole: its invariant, what a sync stores, and that no crash loses a password.\<close>

subsection \<open>The invariant\<close>

definition rec_fits :: "'b boxlib \<Rightarrow> 'b keyset \<Rightarrow> 'b disk \<Rightarrow> string \<Rightarrow> 'b mrec \<Rightarrow> bool" where
  "rec_fits C ks d i rec \<longleftrightarrow> box_fits C ks d i rec \<and> hist_fits C ks d i rec"

definition entry_of :: "'b store \<Rightarrow> string \<Rightarrow> 'b mrec option" where
  "entry_of st i = dget (d_entries (us_doc st)) i"

definition store_ok :: "'b boxlib \<Rightarrow> 'b keyset \<Rightarrow> 'b store \<Rightarrow> bool" where
  "store_ok C ks st \<longleftrightarrow> us_keys st = Some ks \<and> dict_ok (d_entries (us_doc st)) \<and>
     (\<forall>i rec. entry_of st i = Some rec \<longrightarrow> rec_fits C ks (us_disk st) i rec)"

lemma rec_fits_other: "grows i st st' \<Longrightarrow> j \<noteq> i \<Longrightarrow> rec_fits C ks (us_disk st') j rec = rec_fits C ks (us_disk st) j rec"
  using grows_other [of i st st'] by (simp add: rec_fits_def box_fits_def hist_fits_def box_of_def)

lemma rec_fits_upd [simp]:
  "rec_fits C ks d i (rec\<lparr>r_fields := f\<rparr>) = rec_fits C ks d i rec"
  "rec_fits C ks d i (rec\<lparr>r_deleted := b\<rparr>) = rec_fits C ks d i rec"
  "rec_fits C ks d i (rec\<lparr>r_deleted_at := t\<rparr>) = rec_fits C ks d i rec"
  by (simp_all add: rec_fits_def box_fits_def hist_fits_def unchanged_secrets_def)

lemma rec_fits_meta [simp]:
  "rec_fits C ks (do_op (W_meta m) d) i rec = rec_fits C ks d i rec"
  "rec_fits C ks (do_op (W_nick n) d) i rec = rec_fits C ks d i rec"
  by (simp_all add: rec_fits_def box_fits_def hist_fits_def)

lemma put_rec_simps [simp]:
  "us_keys (put_rec i rec st) = us_keys st" "us_nick (put_rec i rec st) = us_nick st" "us_disk (put_rec i rec st) = us_disk st"
  "us_log (put_rec i rec st) = us_log st" "us_unseals (put_rec i rec st) = us_unseals st"
  "us_rand (put_rec i rec st) = us_rand st"
  "entry_of (put_rec i rec st) j = (if j = i then Some rec else entry_of st j)"
  "box_of (put_rec i rec st) p = box_of st p"
  "dict_ok (d_entries (us_doc (put_rec i rec st))) = dict_ok (dset i rec (d_entries (us_doc st)))"
  by (simp_all add: put_rec_def entry_of_def box_of_def)

lemma entry_of_emit [simp]: "entry_of (emit op st) j = entry_of st j" by (simp add: entry_of_def)

lemma entry_of_same: "same_memory st st' \<Longrightarrow> entry_of st' j = entry_of st j"
  by (simp add: entry_of_def same_memory_def)

lemma store_okD:
  assumes "store_ok C ks st"
  shows "us_keys st = Some ks" "dict_ok (d_entries (us_doc st))" "entry_of st i = Some rec \<Longrightarrow> rec_fits C ks (us_disk st) i rec"
  using assms by (simp_all add: store_ok_def)

text \<open>An entry is written: the others keep fitting.\<close>

lemma store_ok_put:
  assumes "store_ok C ks st" and "same_memory st st1" and "grows i st st1" and "rec_fits C ks (us_disk st1) i rec"
  shows "store_ok C ks (put_rec i rec st1)"
  using assms rec_fits_other [OF assms(3)] entry_of_same [OF assms(2)]
  by (auto simp: store_ok_def same_memory_def)

subsection \<open>One item of a sync\<close>

definition synced :: "'b boxlib \<Rightarrow> unidb \<Rightarrow> 'b keyset \<Rightarrow> sync_item \<Rightarrow> 'b mrec \<Rightarrow> bool" where
  "synced C u ks it rec \<longleftrightarrow> \<not> r_deleted rec \<and> unchanged_secrets C ks rec (it_secrets it) \<and>
     with_defaults (r_fields rec) = item_fields u it"

lemma item_fields_stable:
  "notes_fields u (sd_notes (it_secrets it)) ((item_fields u it)\<lparr>f_has_totp := has_seed (it_secrets it)\<rparr>) = item_fields u it"
  "with_defaults (item_fields u it) = item_fields u it"
  by (simp_all add: item_fields_def notes_fields_def fields_from_def with_defaults_def split: prod.splits)

definition done_items :: "counts \<Rightarrow> nat" where
  "done_items cs = n_added cs + n_changed cs + n_unchanged cs"

definition only_entry :: "string \<Rightarrow> 'b store \<Rightarrow> 'b store \<Rightarrow> bool" where
  "only_entry i st st' \<longleftrightarrow> grows i st st' \<and> us_nick st' = us_nick st \<and> us_unseals st' = us_unseals st \<and>
     us_keys st' = us_keys st \<and> (\<forall>j. j \<noteq> i \<longrightarrow> entry_of st' j = entry_of st j)"

lemma only_entry_put:
  "same_memory st st1 \<Longrightarrow> grows i st st1 \<Longrightarrow> only_entry i st (put_rec i rec st1)"
  using entry_of_same [of st st1] by (auto simp: only_entry_def same_memory_def intro: grows_cong)

lemma only_entry_meta: "only_entry i st st1 \<Longrightarrow> only_entry i st (write_meta st1)"
  using grows_trans [OF _ grows_emit [of i "W_meta (us_doc st1)" st1], of st]
  by (auto simp: only_entry_def write_meta_def)

lemma store_ok_meta: "store_ok C ks st \<Longrightarrow> store_ok C ks (write_meta st)"
  by (simp add: store_ok_def write_meta_def del: do_op.simps)

lemma note_history_ok:
  assumes "store_ok C ks st1" and "only_entry i st st1"
  shows "store_ok C ks (note_history rec rec1 st1)" and "only_entry i st (note_history rec rec1 st1)"
    and "entry_of (note_history rec rec1 st1) j = entry_of st1 j"
  using assms by (simp_all add: note_history_def store_ok_meta only_entry_meta) (simp add: write_meta_def)

lemma add_item_spec:
  assumes "store_ok C ks st" and "secrets_wf (it_secrets it)"
    and "hist_fits C ks (us_disk st) (it_id it) rec0" and "r_pwmac rec0 \<noteq> None \<Longrightarrow> box_fits C ks (us_disk st) (it_id it) rec0"
    and "r_fields rec0 = item_fields u it" and "\<not> r_deleted rec0"
  shows "\<exists>st' rec. add_item C u ks now it rec0 (cs, st) = (Inr (cs\<lparr>n_added := Suc (n_added cs)\<rparr>), st') \<and>
    store_ok C ks st' \<and> only_entry (it_id it) st st' \<and> entry_of st' (it_id it) = Some rec \<and> synced C u ks it rec"
proof -
  let ?i = "it_id it" and ?s = "it_secrets it"
  let ?st0 = "put_rec ?i rec0 st"
  obtain touched rec1 st1 where r: "replace_secrets C u ks ?i rec0 ?s ''local'' now ?st0 = (Inr (touched, rec1), st1)"
      "same_memory ?st0 st1" "grows ?i ?st0 st1" "box_fits C ks (us_disk st1) ?i rec1" "hist_fits C ks (us_disk st1) ?i rec1"
      "unchanged_secrets C ks rec1 ?s" "same_status rec0 rec1"
      "if touched then r_fields rec1 = notes_fields u (sd_notes ?s) ((r_fields rec0)\<lparr>f_has_totp := has_seed ?s\<rparr>) else rec1 = rec0 \<and> st1 = ?st0"
    using replace_secrets_spec [of C ks ?st0 ?i rec0 ?s u "''local''" now] assms(2-4) by auto
  have f: "r_fields rec1 = item_fields u it" using r(8) assms(5) item_fields_stable(1) by (cases touched) simp_all
  have g: "grows ?i st st1" using r(3) by (simp add: grows_def)
  have e: "entry_of st1 j = (if j = ?i then Some rec0 else entry_of st j)" for j using entry_of_same [OF r(2)] by simp
  have ok: "store_ok C ks (put_rec ?i rec1 st1)"
    using assms(1) r(2,4,5) rec_fits_other [OF g] e
    by (auto simp: store_ok_def same_memory_def rec_fits_def put_rec_def entry_of_def)
  moreover have "only_entry ?i st (put_rec ?i rec1 st1)"
    using g r(2) e by (auto simp: only_entry_def same_memory_def intro: grows_cong)
  moreover have "synced C u ks it rec1"
    using r(6,7) f assms(6) by (simp add: synced_def same_status_def item_fields_stable)
  ultimately show ?thesis
    using r(1) by (intro exI [of _ "put_rec ?i rec1 st1"] exI [of _ rec1]) (simp add: add_item_def Let_def)
qed

lemma update_item_spec:
  assumes "store_ok C ks st" and "secrets_wf (it_secrets it)" and "entry_of st (it_id it) = Some rec" and "\<not> r_deleted rec"
  shows "\<exists>st' rec1 cs'. update_item C u ks now it rec (cs, st) = (Inr cs', st') \<and>
    cs' \<in> {cs\<lparr>n_changed := Suc (n_changed cs)\<rparr>, cs\<lparr>n_unchanged := Suc (n_unchanged cs)\<rparr>} \<and>
    store_ok C ks st' \<and> only_entry (it_id it) st st' \<and> entry_of st' (it_id it) = Some rec1 \<and> synced C u ks it rec1"
proof -
  let ?i = "it_id it" and ?s = "it_secrets it"
  have fits: "box_fits C ks (us_disk st) ?i rec" "hist_fits C ks (us_disk st) ?i rec"
    using store_okD(3) [OF assms(1,3)] by (simp_all add: rec_fits_def)
  obtain touched rec1 st1 where r: "replace_secrets C u ks ?i rec ?s ''local'' now st = (Inr (touched, rec1), st1)"
      "same_memory st st1" "grows ?i st st1" "box_fits C ks (us_disk st1) ?i rec1" "hist_fits C ks (us_disk st1) ?i rec1"
      "unchanged_secrets C ks rec1 ?s" "same_status rec rec1"
    using replace_secrets_spec [of C ks st ?i rec ?s u "''local''" now] fits assms(2) by auto
  let ?ch = "touched \<or> \<not> same_fields rec1 (item_fields u it)"
  let ?rec2 = "if ?ch then rec1\<lparr>r_fields := item_fields u it\<rparr> else rec1"
  have rf: "rec_fits C ks (us_disk st1) ?i ?rec2" using r(4,5) by (simp add: rec_fits_def [of C ks "us_disk st1" ?i rec1])
  note ok = store_ok_put [OF assms(1) r(2,3) rf] and only = only_entry_put [OF r(2,3), of ?rec2]
  have "synced C u ks it ?rec2"
    using r(6,7) assms(4) by (auto simp: synced_def same_status_def item_fields_stable same_fields_def unchanged_secrets_def)
  moreover have "entry_of (note_history rec rec1 (put_rec ?i ?rec2 st1)) ?i = Some ?rec2"
    using note_history_ok(3) [OF ok only] by simp
  ultimately show ?thesis
    using r(1) note_history_ok(1,2) [OF ok only]
    by (intro exI [of _ "note_history rec rec1 (put_rec ?i ?rec2 st1)"] exI [of _ ?rec2]) (auto simp: update_item_def)
qed

lemma sync_one_spec:
  assumes "store_ok C ks st" and "secrets_wf (it_secrets it)"
  shows "\<exists>cs' st' rec. sync_one C u ks now it (cs, st) = (Inr cs', st') \<and> store_ok C ks st' \<and> only_entry (it_id it) st st' \<and>
    entry_of st' (it_id it) = Some rec \<and> synced C u ks it rec \<and> done_items cs' = Suc (done_items cs) \<and> n_deleted cs' = n_deleted cs"
proof (cases "entry_of st (it_id it)")
  case None
  have "hist_fits C ks (us_disk st) (it_id it) (fresh_rec (item_fields u it))" by (simp add: hist_fits_def fresh_rec_def)
  moreover have "sync_one C u ks now it (cs, st) = add_item C u ks now it (fresh_rec (item_fields u it)) (cs, st)"
    using None by (simp add: sync_one_def entry_of_def)
  ultimately show ?thesis
    using add_item_spec [OF assms, of "fresh_rec (item_fields u it)" u now cs] by (fastforce simp: fresh_rec_def done_items_def)
next
  case (Some rec)
  note fits = store_okD(3) [OF assms(1) Some]
  show ?thesis
  proof (cases "r_deleted rec")
    case True
    let ?rec = "rec\<lparr>r_deleted := False, r_deleted_at := None, r_fields := item_fields u it\<rparr>"
    have "hist_fits C ks (us_disk st) (it_id it) ?rec" "box_fits C ks (us_disk st) (it_id it) ?rec"
    proof -
      have "rec_fits C ks (us_disk st) (it_id it) ?rec" using fits by (simp only: rec_fits_upd)
      then show "hist_fits C ks (us_disk st) (it_id it) ?rec" "box_fits C ks (us_disk st) (it_id it) ?rec"
        by (simp_all only: rec_fits_def)
    qed
    moreover have "sync_one C u ks now it (cs, st) = add_item C u ks now it ?rec (cs, st)"
      using Some True by (simp add: sync_one_def entry_of_def)
    ultimately show ?thesis using add_item_spec [OF assms, of ?rec u now cs] by (fastforce simp: done_items_def)
  next
    case False
    moreover have "sync_one C u ks now it (cs, st) = update_item C u ks now it rec (cs, st)"
      using Some False by (simp add: sync_one_def entry_of_def)
    ultimately show ?thesis using update_item_spec [OF assms Some False, of u now cs] by (fastforce simp: done_items_def)
  qed
qed

subsection \<open>A whole sync\<close>

text \<open>Between two states only entries of \<open>is\<close> change, and no secret key is unsealed.\<close>

definition only_entries :: "string set \<Rightarrow> 'b store \<Rightarrow> 'b store \<Rightarrow> bool" where
  "only_entries is st st' \<longleftrightarrow> us_nick st' = us_nick st \<and> us_unseals st' = us_unseals st \<and> us_keys st' = us_keys st \<and>
     (\<forall>j. j \<notin> is \<longrightarrow> entry_of st' j = entry_of st j)"

lemma sync_all_spec:
  assumes "store_ok C ks st" and "list_all (\<lambda>it. secrets_wf (it_secrets it)) items" and "distinct (map it_id items)"
  shows "\<exists>cs' st'. sync_all C u ks now items (cs, st) = (Inr cs', st') \<and> store_ok C ks st' \<and>
    only_entries (it_id ` set items) st st' \<and> done_items cs' = done_items cs + length items \<and> n_deleted cs' = n_deleted cs \<and>
    (\<forall>it \<in> set items. \<exists>rec. entry_of st' (it_id it) = Some rec \<and> synced C u ks it rec)"
  using assms
proof (induction items arbitrary: cs st)
  case Nil
  then show ?case by (simp add: only_entries_def)
next
  case (Cons it items)
  have wf: "secrets_wf (it_secrets it)" "list_all (\<lambda>it. secrets_wf (it_secrets it)) items" "distinct (map it_id items)"
    using Cons.prems(2,3) by simp_all
  obtain cs1 st1 rec where 1: "sync_one C u ks now it (cs, st) = (Inr cs1, st1)" "store_ok C ks st1" "only_entry (it_id it) st st1"
      "entry_of st1 (it_id it) = Some rec" "synced C u ks it rec" "done_items cs1 = Suc (done_items cs)" "n_deleted cs1 = n_deleted cs"
    using sync_one_spec [OF Cons.prems(1) wf(1), of u now cs] by blast
  obtain cs2 st2 where 2: "sync_all C u ks now items (cs1, st1) = (Inr cs2, st2)" "store_ok C ks st2"
      "only_entries (it_id ` set items) st1 st2" "done_items cs2 = done_items cs1 + length items" "n_deleted cs2 = n_deleted cs1"
      "\<forall>it \<in> set items. \<exists>rec. entry_of st2 (it_id it) = Some rec \<and> synced C u ks it rec"
    using Cons.IH [OF 1(2) wf(2,3), of cs1] by blast
  have "entry_of st2 (it_id it) = Some rec" using 2(3) 1(4) Cons.prems(3) by (simp add: only_entries_def)
  moreover have "only_entries (it_id ` set (it # items)) st st2"
    using 1(3) 2(3) by (simp add: only_entries_def only_entry_def)
  ultimately show ?case using 1 2 by (intro exI [of _ cs2] exI [of _ st2]) auto
qed

definition gone_rec :: "real \<Rightarrow> 'b mrec \<Rightarrow> 'b mrec" where
  "gone_rec now rec = (if r_deleted rec then rec else rec\<lparr>r_deleted := True, r_deleted_at := Some now\<rparr>)"

lemma tombstone_spec:
  "entry_of (snd (tombstone now i (cs, st))) j = (if j = i then map_option (gone_rec now) (entry_of st j) else entry_of st j)"
  "store_ok C ks st \<Longrightarrow> store_ok C ks (snd (tombstone now i (cs, st)))"
  "only_entries {i} st (snd (tombstone now i (cs, st)))" "done_items (fst (tombstone now i (cs, st))) = done_items cs"
  "us_log (snd (tombstone now i (cs, st))) = us_log st" "us_disk (snd (tombstone now i (cs, st))) = us_disk st"
proof -
  have e: "dget (d_entries (us_doc st)) i = entry_of st i" by (simp add: entry_of_def)
  show "entry_of (snd (tombstone now i (cs, st))) j = (if j = i then map_option (gone_rec now) (entry_of st j) else entry_of st j)"
    "only_entries {i} st (snd (tombstone now i (cs, st)))" "done_items (fst (tombstone now i (cs, st))) = done_items cs"
    "us_log (snd (tombstone now i (cs, st))) = us_log st" "us_disk (snd (tombstone now i (cs, st))) = us_disk st"
    by (auto simp: tombstone_def live_record_def e gone_rec_def only_entries_def done_items_def split: option.splits)
  show "store_ok C ks st \<Longrightarrow> store_ok C ks (snd (tombstone now i (cs, st)))"
    using store_ok_put [of C ks st st i] by (auto simp: tombstone_def live_record_def e grows_refl dest: store_okD(3) split: option.splits)
qed

lemma gone_rec_idem [simp]: "gone_rec now (gone_rec now rec) = gone_rec now rec"
  by (simp add: gone_rec_def)

lemma tombstones_spec:
  "store_ok C ks st \<Longrightarrow> store_ok C ks (snd (fold (tombstone now) gone (cs, st))) \<and>
   only_entries (set gone) st (snd (fold (tombstone now) gone (cs, st))) \<and>
   done_items (fst (fold (tombstone now) gone (cs, st))) = done_items cs \<and>
   us_log (snd (fold (tombstone now) gone (cs, st))) = us_log st \<and> us_disk (snd (fold (tombstone now) gone (cs, st))) = us_disk st \<and>
   entry_of (snd (fold (tombstone now) gone (cs, st))) j =
     (if j \<in> set gone then map_option (gone_rec now) (entry_of st j) else entry_of st j)"
proof (induction gone arbitrary: cs st)
  case Nil
  then show ?case by (simp add: only_entries_def)
next
  case (Cons i gone)
  obtain cs1 st1 where t: "tombstone now i (cs, st) = (cs1, st1)" by fastforce
  note s = tombstone_spec [where now = now and i = i and cs = cs and st = st, unfolded t fst_conv snd_conv]
  have ok: "store_ok C ks st1" using s(2) Cons.prems by blast
  note r = Cons.IH [OF ok, of cs1]
  have "only_entries (set (i # gone)) st (snd (fold (tombstone now) gone (cs1, st1)))"
    using r s(3) by (simp add: only_entries_def)
  then show ?case using r s by (auto simp: t option.map_comp comp_def)
qed

lemma apply_sync_spec:
  assumes "store_ok C ks st" and "list_all item_ok items" and "list_all (\<lambda>it. secrets_wf (it_secrets it)) items"
    and "distinct (map it_id items)"
  shows "\<exists>cs st'. apply_sync C u items gone now st = (Inr cs, st') \<and> store_ok C ks st' \<and>
    us_unseals st' = us_unseals st \<and> done_items cs = length items \<and>
    list_all (\<lambda>it. \<exists>rec. entry_of st' (it_id it) = Some rec \<and>
      (if it_id it \<in> set gone then r_deleted rec else synced C u ks it rec)) items \<and>
    list_all (\<lambda>i. case entry_of st' i of None \<Rightarrow> True | Some rec \<Rightarrow> r_deleted rec) gone \<and>
    only_entries (it_id ` set items \<union> set gone) st st'"
proof -
  obtain cs1 st1 where 1: "sync_all C u ks now items (no_counts, st) = (Inr cs1, st1)" "store_ok C ks st1"
      "only_entries (it_id ` set items) st st1" "done_items cs1 = length items"
      "\<forall>it \<in> set items. \<exists>rec. entry_of st1 (it_id it) = Some rec \<and> synced C u ks it rec"
    using sync_all_spec [OF assms(1,3,4), of u now no_counts] by (auto simp: done_items_def no_counts_def)
  obtain cs2 st2 where t: "fold (tombstone now) gone (cs1, st1) = (cs2, st2)" by fastforce
  note r = tombstones_spec [OF 1(2), where now = now and gone = gone and cs = cs1, unfolded t fst_conv snd_conv]
  have run: "apply_sync C u items gone now st = (Inr cs2, write_meta st2)"
    using store_okD(1) [OF assms(1)] assms(2) 1(1) t by (simp add: apply_sync_def with_keys_def)
  have e: "entry_of (write_meta st2) j = (if j \<in> set gone then map_option (gone_rec now) (entry_of st1 j) else entry_of st1 j)" for j
    using r by (simp add: write_meta_def)
  have "list_all (\<lambda>it. \<exists>rec. entry_of (write_meta st2) (it_id it) = Some rec \<and>
      (if it_id it \<in> set gone then r_deleted rec else synced C u ks it rec)) items"
    unfolding list_all_iff
  proof
    fix it
    assume "it \<in> set items"
    then obtain rec where rec: "entry_of st1 (it_id it) = Some rec" "synced C u ks it rec" using 1(5) by blast
    show "\<exists>rec. entry_of (write_meta st2) (it_id it) = Some rec \<and>
      (if it_id it \<in> set gone then r_deleted rec else synced C u ks it rec)"
      using rec by (intro exI [of _ "if it_id it \<in> set gone then gone_rec now rec else rec"]) (simp add: e gone_rec_def)
  qed
  moreover have "list_all (\<lambda>i. case entry_of (write_meta st2) i of None \<Rightarrow> True | Some rec \<Rightarrow> r_deleted rec) gone"
    by (simp add: list_all_iff e gone_rec_def split: option.splits)
  moreover have "only_entries (it_id ` set items \<union> set gone) st (write_meta st2)"
    using r 1(3) e by (simp add: only_entries_def write_meta_def)
  ultimately show ?thesis
    using run r 1(4) store_ok_meta [of C ks st2] by (auto simp: only_entries_def)
qed

text \<open>
  C12 (a sync stores its items). For well-formed items with different ids a sync of an unlocked store never fails; it
  unseals no secret key, counts each item once, leaves every record fitting its box, stores each item - its
  fields and secrets - unless it was reported gone in the same sync, tombstones what is gone, and touches no
  other entry.
\<close>

theorem sync_stores_its_items:
  assumes "store_ok C ks st" and "list_all item_ok items" and "list_all (\<lambda>it. secrets_wf (it_secrets it)) items"
    and "distinct (map it_id items)"
  shows "\<exists>cs st'. apply_sync C u items gone now st = (Inr cs, st') \<and> store_ok C ks st' \<and>
    us_unseals st' = us_unseals st \<and> done_items cs = length items \<and>
    list_all (\<lambda>it. \<exists>rec. entry_of st' (it_id it) = Some rec \<and>
      (if it_id it \<in> set gone then r_deleted rec else synced C u ks it rec)) items \<and>
    list_all (\<lambda>i. case entry_of st' i of None \<Rightarrow> True | Some rec \<Rightarrow> r_deleted rec) gone \<and>
    only_entries (it_id ` set items \<union> set gone) st st'"
  by (rule apply_sync_spec) fact+

subsection \<open>Reading it back\<close>

lemma entry_reads:
  assumes "store_ok C ks st" and "boxlib_ok C" and "p_public C sk = ks_pk ks" and "entry_of st i = Some rec" and "\<not> r_deleted rec"
  shows "\<exists>s. open_entry C (Some (Inr sk)) i st = (Inr (norm_secrets s), st\<lparr>us_unseals := Suc (us_unseals st)\<rparr>) \<and>
    unchanged_secrets C ks rec s"
proof -
  obtain s b r where b: "box_of st (Box i) = Some b" "secrets_wf s" "b = seal C (ks_pk ks) (to_payload i (r_v rec) s) r"
      "unchanged_secrets C ks rec s"
    using store_okD(3) [OF assms(1,4)] by (auto simp: rec_fits_def box_fits_def box_of_def sealed_for_def)
  have "bindE (open_box C sk b i (Some (r_v rec))) (from_payload C) = Inr (norm_secrets s)"
    using open_sealed [OF assms(2) b(2), of sk i "r_v rec" r i "Some (r_v rec)"] from_sealed [OF b(2), of C i "r_v rec"]
    by (simp add: b(3) assms(3))
  moreover have "live_record (us_doc st) i = Some rec" using assms(4,5) by (simp add: live_record_def entry_of_def)
  ultimately show ?thesis
    using store_okD(1) [OF assms(1)] b assms(3)
    by (intro exI [of _ s]) (simp add: open_entry_def with_keys_def with_live_def unseal_sk_def Let_def)
qed

text \<open>
  What is stored is what opens. In a store whose records fit, a live entry opens - with the one unsealing that
  is counted - to secrets whose MACs are those of its record, whatever other entries there are.
\<close>

theorem live_entry_opens:
  assumes "store_ok C ks st" and "boxlib_ok C" and "p_public C sk = ks_pk ks" and "entry_of st i = Some rec" and "\<not> r_deleted rec"
  shows "\<exists>s. open_entry C (Some (Inr sk)) i st = (Inr (norm_secrets s), st\<lparr>us_unseals := Suc (us_unseals st)\<rparr>) \<and>
    unchanged_secrets C ks rec s"
  by (rule entry_reads) fact+

subsection \<open>Doing it again\<close>

lemma sync_one_again:
  assumes "store_ok C ks st" and "entry_of st (it_id it) = Some rec" and "synced C u ks it rec"
  shows "\<exists>st'. sync_one C u ks now it (cs, st) = (Inr (cs\<lparr>n_unchanged := Suc (n_unchanged cs)\<rparr>), st') \<and>
    store_ok C ks st' \<and> us_log st' = us_log st \<and> (\<forall>j. entry_of st' j = entry_of st j)"
proof -
  have "box_of st (Box (it_id it)) \<noteq> None"
    using store_okD(3) [OF assms(1,2)] by (auto simp: rec_fits_def box_fits_def box_of_def)
  then have "replace_secrets C u ks (it_id it) rec (it_secrets it) ''local'' now st = (Inr (False, rec), st)"
    using assms(3) by (simp add: replace_secrets_def Let_def synced_def)
  moreover have "store_ok C ks (put_rec (it_id it) rec st)"
    using store_ok_put [OF assms(1) same_memory_refl] store_okD(3) [OF assms(1,2)] by (simp add: grows_refl)
  ultimately show ?thesis
    using assms(2,3)
    by (simp add: sync_one_def entry_of_def [symmetric] synced_def update_item_def same_fields_def note_history_def)
qed

lemma sync_all_again:
  assumes "store_ok C ks st" and "\<forall>it \<in> set items. \<exists>rec. entry_of st (it_id it) = Some rec \<and> synced C u ks it rec"
  shows "\<exists>st'. sync_all C u ks now items (cs, st) = (Inr (cs\<lparr>n_unchanged := n_unchanged cs + length items\<rparr>), st') \<and>
    store_ok C ks st' \<and> us_log st' = us_log st \<and> (\<forall>j. entry_of st' j = entry_of st j)"
  using assms
proof (induction items arbitrary: cs st)
  case (Cons it items)
  obtain rec where rec: "entry_of st (it_id it) = Some rec" "synced C u ks it rec" using Cons.prems(2) by auto
  obtain st1 where 1: "sync_one C u ks now it (cs, st) = (Inr (cs\<lparr>n_unchanged := Suc (n_unchanged cs)\<rparr>), st1)"
      "store_ok C ks st1" "us_log st1 = us_log st" "\<forall>j. entry_of st1 j = entry_of st j"
    using sync_one_again [OF Cons.prems(1) rec, of now cs] by blast
  obtain st2 where "sync_all C u ks now items (cs\<lparr>n_unchanged := Suc (n_unchanged cs)\<rparr>, st1) =
        (Inr (cs\<lparr>n_unchanged := Suc (n_unchanged cs) + length items\<rparr>), st2)" "store_ok C ks st2" "us_log st2 = us_log st1"
      "\<forall>j. entry_of st2 j = entry_of st1 j"
    using Cons.IH [OF 1(2), of "cs\<lparr>n_unchanged := Suc (n_unchanged cs)\<rparr>"] Cons.prems(2) 1(4) by auto
  with 1 show ?case by (intro exI [of _ st2]) simp
qed simp

text \<open>
  A second sync changes nothing. Applying the same items again, with nothing gone, counts every one of them as
  unchanged and writes no box: only the metadata is written again.
\<close>

theorem sync_again_unchanged:
  assumes "store_ok C ks st" and "list_all item_ok items" and "list_all (\<lambda>it. secrets_wf (it_secrets it)) items"
    and "distinct (map it_id items)" and "apply_sync C u items [] now st = (Inr cs, st1)"
  shows "\<exists>st2. apply_sync C u items [] later st1 = (Inr (no_counts\<lparr>n_unchanged := length items\<rparr>), st2) \<and>
    us_log st2 = us_log st1 @ [W_meta (us_doc st2)]"
proof -
  obtain cs' st1' where r: "apply_sync C u items [] now st = (Inr cs', st1')" "store_ok C ks st1'"
      "list_all (\<lambda>it. \<exists>rec. entry_of st1' (it_id it) = Some rec \<and> synced C u ks it rec) items"
    using apply_sync_spec [OF assms(1-4), of u "[]" now] by auto
  then have s: "store_ok C ks st1" "\<forall>it \<in> set items. \<exists>rec. entry_of st1 (it_id it) = Some rec \<and> synced C u ks it rec"
    using assms(5) by (auto simp: list_all_iff)
  obtain st2 where "sync_all C u ks later items (no_counts, st1) = (Inr (no_counts\<lparr>n_unchanged := length items\<rparr>), st2)"
      "us_log st2 = us_log st1"
    using sync_all_again [OF s, of later no_counts] by (auto simp: no_counts_def)
  then show ?thesis
    using store_okD(1) [OF s(1)] assms(2)
    by (intro exI [of _ "write_meta st2"]) (simp add: apply_sync_def with_keys_def, simp add: write_meta_def emit_def)
qed

subsection \<open>A store with one entry\<close>

definition example_keys :: "sym keyset" where
  "example_keys = \<lparr>ks_pwmac = T_name 1, ks_pk = T_public (T_name 3)\<rparr>"

definition empty_store :: "sym store" where
  "empty_store = \<lparr>us_keys = Some example_keys, us_doc = empty_doc, us_nick = [],
     us_disk = \<lparr>files = [], meta_file = None, nick_file = None\<rparr>, us_log = [], us_unseals = 0, us_rand = 0\<rparr>"

definition example_item :: "string \<Rightarrow> string \<Rightarrow> sync_item" where
  "example_item k pw = \<lparr>it_id = ''a1'', it_meta = example_meta\<lparr>m_kind := k\<rparr>,
     it_secrets = \<lparr>sd_password = ascii pw, sd_notes = [], sd_totp = None, sd_apple = [], sd_params = []\<rparr>\<rparr>"

definition example_synced :: "sym store" where
  "example_synced = snd (apply_sync sym_lib ascii_db [example_item ''login'' ''hunter2''] [] 100 empty_store)"

lemma empty_store_ok: "store_ok sym_lib example_keys empty_store"
  by (simp add: store_ok_def empty_store_def empty_doc_def entry_of_def dict_ok_def)

lemma example_item_ok: "item_ok (example_item k pw)" "secrets_wf (it_secrets (example_item k pw))" "it_id (example_item k pw) = ''a1''"
  by (simp_all add: item_ok_def secrets_wf_def check_secrets_def example_item_def example_meta_def store_valid_id_def valid_id_def chop_newline_def id_char_def Let_def
      ascii_def)

lemma example_synced_ok:
  "store_ok sym_lib example_keys example_synced"
  "\<exists>rec. entry_of example_synced ''a1'' = Some rec \<and> synced sym_lib ascii_db example_keys (example_item ''login'' ''hunter2'') rec"
  using apply_sync_spec [OF empty_store_ok, of "[example_item ''login'' ''hunter2'']" ascii_db "[]" 100]
  by (auto simp: example_item_ok example_synced_def)

theorem sync_stores_its_items_witness:
  "\<exists>cs st'. apply_sync sym_lib ascii_db [example_item ''login'' ''hunter2''] [''b2''] 100 empty_store = (Inr cs, st') \<and>
    us_unseals st' = 0 \<and> done_items cs = 1 \<and>
    (\<exists>rec. entry_of st' ''a1'' = Some rec \<and> synced sym_lib ascii_db example_keys (example_item ''login'' ''hunter2'') rec)"
  using sync_stores_its_items [OF empty_store_ok, of "[example_item ''login'' ''hunter2'']" ascii_db "[''b2'']" 100]
  by (auto simp: example_item_ok empty_store_def)

theorem live_entry_opens_witness:
  "\<exists>s. open_entry sym_lib (Some (Inr (T_name 3))) ''a1'' example_synced =
       (Inr (norm_secrets s), example_synced\<lparr>us_unseals := Suc (us_unseals example_synced)\<rparr>) \<and> sd_password s = ascii ''hunter2''"
proof -
  obtain rec where rec: "entry_of example_synced ''a1'' = Some rec"
      "synced sym_lib ascii_db example_keys (example_item ''login'' ''hunter2'') rec"
    using example_synced_ok(2) by blast
  then obtain s where "open_entry sym_lib (Some (Inr (T_name 3))) ''a1'' example_synced =
      (Inr (norm_secrets s), example_synced\<lparr>us_unseals := Suc (us_unseals example_synced)\<rparr>)"
      "unchanged_secrets sym_lib example_keys rec s"
    using live_entry_opens [OF example_synced_ok(1) sym_lib_ok _ rec(1), of "T_name 3"]
    by (auto simp: synced_def example_keys_def sym_lib_def)
  then show ?thesis
    using rec(2) by (auto simp: synced_def unchanged_secrets_def pwmac_def sym_lib_def example_item_def)
qed

theorem sync_again_unchanged_witness:
  "\<exists>st2. apply_sync sym_lib ascii_db [example_item ''login'' ''hunter2''] [] 200 example_synced =
      (Inr (no_counts\<lparr>n_unchanged := 1\<rparr>), st2) \<and> us_log st2 = us_log example_synced @ [W_meta (us_doc st2)]"
proof -
  obtain cs where "apply_sync sym_lib ascii_db [example_item ''login'' ''hunter2''] [] 100 empty_store = (Inr cs, example_synced)"
    using apply_sync_spec [OF empty_store_ok, of "[example_item ''login'' ''hunter2'']" ascii_db "[]" 100]
    by (auto simp: example_item_ok example_synced_def)
  from sync_again_unchanged [OF empty_store_ok _ _ _ this, of 200] show ?thesis by (simp add: example_item_ok)
qed

end
