(* ===== verification/VaultCrash.thy ===== *)
theory VaultCrash
  imports VaultSafe
begin

text \<open>
  A machine that stops in the middle of a sync: whatever was written until then, the password a live entry had
  is still in one of the entry's boxes. The example at the end is the one kind of entry for which the
  code does not keep it.
\<close>

subsection \<open>Other entries\<close>

lemma pw_kept_other: "op_for j op \<Longrightarrow> j \<noteq> i \<Longrightarrow> pw_kept C ks i pw d \<Longrightarrow> pw_kept C ks i pw (do_op op d)"
  unfolding pw_kept_def using op_for_other by metis

lemma pw_kept_grows: "grows j st st' \<Longrightarrow> j \<noteq> i \<Longrightarrow> pw_kept C ks i pw (us_disk st) \<Longrightarrow> along (pw_kept C ks i pw) st st'"
  by (rule grows_along) (auto intro: pw_kept_other)

lemma pw_kept_meta: "pw_kept C ks i pw (us_disk st) \<Longrightarrow> along (pw_kept C ks i pw) st (write_meta st)"
  unfolding write_meta_def by (rule along_emit) (simp_all add: pw_kept_def)

lemma pw_kept_note: "pw_kept C ks i pw (us_disk st) \<Longrightarrow> along (pw_kept C ks i pw) st (note_history rec rec1 st)"
  by (simp add: note_history_def pw_kept_meta along_refl)

text \<open>The password a live entry has.\<close>

definition has_password_of :: "'b boxlib \<Rightarrow> 'b keyset \<Rightarrow> 'b store \<Rightarrow> string \<Rightarrow> ustr \<Rightarrow> bool" where
  "has_password_of C ks st i pw \<longleftrightarrow> (\<exists>rec b s. entry_of st i = Some rec \<and> \<not> r_deleted rec \<and>
     f_kind (r_fields rec) \<noteq> Some ''passkey'' \<and> box_of st (Box i) = Some b \<and> sealed_for C ks i (r_v rec) s b \<and>
     unchanged_secrets C ks rec s \<and> sd_password s = pw \<and> pw \<noteq> [])"

lemma has_password_kept: "has_password_of C ks st i pw \<Longrightarrow> pw_kept C ks i pw (us_disk st)"
  unfolding has_password_of_def pw_kept_def box_of_def by (metis path_id.simps(1))

lemma has_password_other:
  assumes "only_entry j st st'" and "j \<noteq> i"
  shows "has_password_of C ks st' i pw = has_password_of C ks st i pw"
proof -
  have "box_of st' (Box i) = box_of st (Box i)" using assms grows_other [of j st st' "Box i"] by (simp add: only_entry_def)
  then show ?thesis using assms by (simp add: has_password_of_def only_entry_def)
qed

subsection \<open>A whole sync\<close>

lemma sync_one_kept:
  assumes "has_password_of C ks st (it_id it) pw" and "store_ok C ks st" and "secrets_wf (it_secrets it)"
    and "told_apart C ks pw (sd_password (it_secrets it))"
  shows "along (pw_kept C ks (it_id it) pw) st (snd (sync_one C u ks now it (cs, st)))"
proof -
  let ?i = "it_id it" and ?s = "it_secrets it"
  obtain rec b s where o: "entry_of st ?i = Some rec" "\<not> r_deleted rec" "f_kind (r_fields rec) \<noteq> Some ''passkey''"
      "box_of st (Box ?i) = Some b" "sealed_for C ks ?i (r_v rec) s b" "unchanged_secrets C ks rec s" "sd_password s = pw" "pw \<noteq> []"
    using assms(1) unfolding has_password_of_def by blast
  have hf: "hist_fits C ks (us_disk st) ?i rec" using store_okD(3) [OF assms(2) o(1)] by (simp add: rec_fits_def)
  obtain r st1 where r: "replace_secrets C u ks ?i rec ?s ''local'' now st = (r, st1)" by fastforce
  have a: "along (pw_kept C ks ?i pw) st st1"
    using replace_secrets_kept [OF hf assms(3) o(4,5,6) _ o(3), of u "''local''" now] o(7,8) assms(4) r by simp
  have "along (pw_kept C ks ?i pw) st (note_history rec rec1 (put_rec ?i rec2 st1))" for rec1 rec2
    using along_trans [OF along_cong [OF a] pw_kept_note] along_end [OF a] by simp
  then show ?thesis
    using o(1,2) r a by (auto simp: sync_one_def entry_of_def [symmetric] update_item_def Let_def split: sum.splits)
qed

lemma sync_all_other_kept:
  assumes "store_ok C ks st" and "list_all (\<lambda>it. secrets_wf (it_secrets it)) items" and "i \<notin> it_id ` set items"
    and "pw_kept C ks i pw (us_disk st)"
  shows "along (pw_kept C ks i pw) st (snd (sync_all C u ks now items (cs, st)))"
  using assms
proof (induction items arbitrary: cs st)
  case Nil
  then show ?case by (simp add: along_refl)
next
  case (Cons it items)
  obtain cs1 st1 where 1: "sync_one C u ks now it (cs, st) = (Inr cs1, st1)" "store_ok C ks st1" "only_entry (it_id it) st st1"
    using sync_one_spec [OF Cons.prems(1), of it u now cs] Cons.prems(2) by auto
  have a: "along (pw_kept C ks i pw) st st1"
    using pw_kept_grows [of "it_id it" st st1] 1(3) Cons.prems(3,4) by (auto simp: only_entry_def)
  have "along (pw_kept C ks i pw) st1 (snd (sync_all C u ks now items (cs1, st1)))"
    using Cons.IH [OF 1(2)] Cons.prems(2,3) along_end [OF a] by simp
  then show ?case using along_trans [OF a] 1(1) by simp
qed

lemma sync_all_kept:
  assumes "store_ok C ks st" and "list_all (\<lambda>it. secrets_wf (it_secrets it)) items" and "distinct (map it_id items)"
    and "has_password_of C ks st i pw"
    and "list_all (\<lambda>it. it_id it = i \<longrightarrow> told_apart C ks pw (sd_password (it_secrets it))) items"
  shows "along (pw_kept C ks i pw) st (snd (sync_all C u ks now items (cs, st)))"
  using assms
proof (induction items arbitrary: cs st)
  case Nil
  then show ?case by (simp add: along_refl has_password_kept)
next
  case (Cons it items)
  obtain cs1 st1 where 1: "sync_one C u ks now it (cs, st) = (Inr cs1, st1)" "store_ok C ks st1" "only_entry (it_id it) st st1"
    using sync_one_spec [OF Cons.prems(1), of it u now cs] Cons.prems(2) by auto
  show ?case
  proof (cases "it_id it = i")
    case True
    then have a: "along (pw_kept C ks i pw) st st1"
      using sync_one_kept [of C ks st it pw u now cs] Cons.prems 1(1) by simp
    have "along (pw_kept C ks i pw) st1 (snd (sync_all C u ks now items (cs1, st1)))"
      using sync_all_other_kept [OF 1(2)] Cons.prems(2,3) True along_end [OF a] by simp
    then show ?thesis using along_trans [OF a] 1(1) by simp
  next
    case False
    have a: "along (pw_kept C ks i pw) st st1"
      using pw_kept_grows [of "it_id it" st st1] 1(3) False has_password_kept [OF Cons.prems(4)] by (auto simp: only_entry_def)
    have "along (pw_kept C ks i pw) st1 (snd (sync_all C u ks now items (cs1, st1)))"
      using Cons.IH [OF 1(2)] Cons.prems has_password_other [OF 1(3) False] by simp
    then show ?thesis using along_trans [OF a] 1(1) by simp
  qed
qed

text \<open>
  C11 (a crash loses no password). Whenever the machine stops during a sync - after any number of the changes the sync
  makes to the disk - the password a live entry had before it is still sealed in one of that entry's boxes,
  whatever the sync stores for it. The password must not be the empty one, the entry not a passkey row, and the MAC
  must tell the password from the new one.
\<close>

theorem crash_keeps_password:
  assumes "store_ok C ks st" and "list_all (\<lambda>it. secrets_wf (it_secrets it)) items" and "distinct (map it_id items)"
    and "has_password_of C ks st i pw"
    and "list_all (\<lambda>it. it_id it = i \<longrightarrow> told_apart C ks pw (sd_password (it_secrets it))) items"
  shows "pw_kept C ks i pw (after_crash n st (snd (apply_sync C u items gone now st)))"
proof (cases "list_all item_ok items")
  case False
  then have "snd (apply_sync C u items gone now st) = st"
    using store_okD(1) [OF assms(1)] by (simp add: apply_sync_def with_keys_def)
  then show ?thesis using has_password_kept [OF assms(4)] by (simp add: after_crash_def)
next
  case True
  obtain cs1 st1 where 1: "sync_all C u ks now items (no_counts, st) = (Inr cs1, st1)" "store_ok C ks st1"
    using sync_all_spec [OF assms(1-3), of u now no_counts] by auto
  have a: "along (pw_kept C ks i pw) st st1" using sync_all_kept [OF assms, of u now no_counts] 1(1) by simp
  obtain cs2 st2 where t: "fold (tombstone now) gone (cs1, st1) = (cs2, st2)" by fastforce
  have "us_log st2 = us_log st1" "us_disk st2 = us_disk st1"
    using tombstones_spec [OF 1(2), where now = now and gone = gone and cs = cs1] t by simp_all
  then have "along (pw_kept C ks i pw) st (write_meta st2)"
    using along_trans [OF along_cong [OF a] pw_kept_meta] along_end [OF a] by simp
  moreover have "snd (apply_sync C u items gone now st) = write_meta st2"
    using store_okD(1) [OF assms(1)] True 1(1) t by (simp add: apply_sync_def with_keys_def)
  ultimately show ?thesis using along_crash by metis
qed

subsection \<open>One entry\<close>

lemma example_has_password: "has_password_of sym_lib example_keys example_synced ''a1'' (ascii ''hunter2'')"
proof -
  obtain rec where rec: "entry_of example_synced ''a1'' = Some rec"
      "synced sym_lib ascii_db example_keys (example_item ''login'' ''hunter2'') rec"
    using example_synced_ok(2) by blast
  obtain s b where b: "box_of example_synced (Box ''a1'') = Some b" "sealed_for sym_lib example_keys ''a1'' (r_v rec) s b"
      "unchanged_secrets sym_lib example_keys rec s"
    using store_okD(3) [OF example_synced_ok(1) rec(1)] by (auto simp: rec_fits_def box_fits_def box_of_def)
  have "sd_password s = ascii ''hunter2''"
    using rec(2) b(3) by (auto simp: synced_def unchanged_secrets_def pwmac_def sym_lib_def example_item_def)
  moreover have "f_kind (r_fields rec) \<noteq> Some ''passkey''"
  proof
    assume "f_kind (r_fields rec) = Some ''passkey''"
    then have "f_kind (with_defaults (r_fields rec)) = Some ''passkey''" by (simp add: with_defaults_def)
    moreover have "f_kind (item_fields ascii_db (example_item ''login'' ''hunter2'')) = Some ''login''"
      by (simp add: item_fields_def notes_fields_def fields_from_def example_item_def row_kind_def ROW_KINDS_def split: prod.splits)
    ultimately show False using rec(2) by (simp add: synced_def)
  qed
  moreover have "\<not> r_deleted rec" using rec(2) by (simp add: synced_def)
  moreover have "ascii ''hunter2'' \<noteq> []" by (simp add: ascii_def)
  ultimately show ?thesis using rec(1) b unfolding has_password_of_def by blast
qed

theorem crash_keeps_password_witness:
  "pw_kept sym_lib example_keys ''a1'' (ascii ''hunter2'')
     (after_crash 2 example_synced (snd (apply_sync sym_lib ascii_db [example_item ''login'' ''hunter3''] [] 200 example_synced)))"
  using crash_keeps_password [OF example_synced_ok(1) _ _ example_has_password, of "[example_item ''login'' ''hunter3'']"]
  by (simp add: example_item_ok told_apart_def pwmac_def sym_lib_def)

subsection \<open>A password that is not kept\<close>

text \<open>
  A login that comes back as a passkey. A deleted login whose id comes back as a passkey-only row gets the new kind
  before its box is replaced, so the box is overwritten in place: its password is in no history box, unlike what
  the documentation of \<^verbatim>\<open>_replace_secrets\<close> says of a login that is gone while the passkey stays.
\<close>

theorem revived_passkey_overwrites:
  assumes "entry_of st (it_id it) = Some rec" and "r_deleted rec" and "m_kind (it_meta it) = ''passkey''"
    and "\<not> unchanged_secrets C ks rec (it_secrets it)"
  shows "us_disk (snd (sync_one C u ks now it (cs, st))) =
    do_op (W_box (Box (it_id it)) (seal C (ks_pk ks) (to_payload (it_id it) (r_v rec + 1) (it_secrets it)) (us_rand st))) (us_disk st)"
proof -
  let ?rec = "rec\<lparr>r_deleted := False, r_deleted_at := None, r_fields := item_fields u it\<rparr>"
  have "holds_no_password C ks ?rec"
    using assms(3) by (simp add: holds_no_password_def item_fields_def notes_fields_def fields_from_def row_kind_def ROW_KINDS_def
        split: prod.splits)
  then have "\<not> password_changes C ks ?rec (it_secrets it)" by (simp add: password_changes_def)
  moreover have "\<not> unchanged_secrets C ks ?rec (it_secrets it)" using assms(4) by (simp add: unchanged_secrets_def)
  ultimately show ?thesis
    using assms(1,2)
    by (simp add: sync_one_def entry_of_def add_item_def Let_def replace_secrets_def write_box_def put_rec_def del: do_op.simps)
qed

text \<open>The login of \<open>example_synced\<close> is deleted, then comes back as a passkey row: its password is gone.\<close>

definition example_deleted :: "sym store" where
  "example_deleted = snd (apply_sync sym_lib ascii_db [] [''a1''] 200 example_synced)"

lemma one_box: "dget (dset (Box i) b []) p = Some c \<Longrightarrow> c = b"
  by (auto simp: dset_def dget_def split: if_splits)

lemma example_files: "\<exists>b. files (us_disk example_synced) = [(Box ''a1'', b)]"
  by (simp add: example_synced_def apply_sync_def with_keys_def empty_store_def example_item_ok empty_doc_def sync_one_def add_item_def
      put_rec_def replace_secrets_def box_of_def Let_def fresh_rec_def example_keys_def write_meta_def password_changes_def dset_def
      split: prod.splits)

theorem revived_passkey_overwrites_witness:
  "\<not> pw_kept sym_lib example_keys ''a1'' (ascii ''hunter2'')
     (us_disk (snd (sync_one sym_lib ascii_db example_keys 300 (example_item ''passkey'' '''') (no_counts, example_deleted))))"
proof -
  let ?it = "example_item ''passkey'' ''''"
  obtain rec where rec: "entry_of example_synced ''a1'' = Some rec"
      "synced sym_lib ascii_db example_keys (example_item ''login'' ''hunter2'') rec"
    using example_synced_ok(2) by blast
  obtain b0 where b0: "files (us_disk example_synced) = [(Box ''a1'', b0)]" using example_files by blast
  note t = tombstones_spec [OF example_synced_ok(1), where now = 200 and gone = "[''a1'']" and cs = no_counts]
  have del: "files (us_disk example_deleted) = [(Box ''a1'', b0)]" "entry_of example_deleted ''a1'' = Some (gone_rec 200 rec)"
    using t [of "''a1''"] rec(1) store_okD(1) [OF example_synced_ok(1)] b0
    by (auto simp: example_deleted_def apply_sync_def with_keys_def write_meta_def split: prod.splits)
  have "\<not> unchanged_secrets sym_lib example_keys (gone_rec 200 rec) (it_secrets ?it)"
    using rec(2) by (auto simp: synced_def unchanged_secrets_def gone_rec_def pwmac_def sym_lib_def example_item_def ascii_def)
  then obtain r v where "us_disk (snd (sync_one sym_lib ascii_db example_keys 300 ?it (no_counts, example_deleted))) =
      do_op (W_box (Box ''a1'') (seal sym_lib (ks_pk example_keys) (to_payload ''a1'' v (it_secrets ?it)) r)) (us_disk example_deleted)"
    using revived_passkey_overwrites [of example_deleted ?it "gone_rec 200 rec" sym_lib example_keys ascii_db 300 no_counts] del(2) rec(2)
    by (simp add: example_item_ok gone_rec_def synced_def) (simp add: example_item_def)
  then show ?thesis
    using del(1) by (auto simp: pw_kept_def sealed_for_def dget_def dset_def seal_def sym_lib_def to_payload_def example_item_def
        ascii_def split: if_splits)
qed

end
