(* ===== verification/Utf8.thy ===== *)
theory Utf8
  imports Codec
begin

text \<open>
  \<^verbatim>\<open>str.encode("utf-8")\<close> and \<^verbatim>\<open>bytes.decode("utf-8")\<close>: a lone surrogate cannot be encoded, and only the
  shortest form of a character that may be encoded is decoded. What cannot be is \<open>None\<close>.
\<close>

definition scalar :: "nat \<Rightarrow> bool" where
  "scalar c \<longleftrightarrow> c < 0xD800 \<or> (0xE000 \<le> c \<and> c < 0x110000)"

definition char_bytes :: "nat \<Rightarrow> nat list" where
  "char_bytes c =
     (if c < 0x80 then [c]
      else if c < 0x800 then [0xC0 + c div 64, 0x80 + c mod 64]
      else if c < 0x10000 then [0xE0 + c div 4096, 0x80 + c div 64 mod 64, 0x80 + c mod 64]
      else [0xF0 + c div 262144, 0x80 + c div 4096 mod 64, 0x80 + c div 64 mod 64, 0x80 + c mod 64])"

definition utf8_encode :: "ustr \<Rightarrow> bytes option" where
  "utf8_encode s = (if list_all scalar s then Some (map word_of_nat (concat (map char_bytes s))) else None)"

definition cont :: "nat \<Rightarrow> bool" where
  "cont b \<longleftrightarrow> 0x80 \<le> b \<and> b < 0xC0"

fun decode_char :: "nat list \<Rightarrow> (nat \<times> nat list) option" where
  "decode_char (a # bs) =
     (if a < 0x80 then Some (a, bs)
      else if 0xC0 \<le> a \<and> a < 0xE0 then (case bs of
          b # r \<Rightarrow> (let c = (a - 0xC0) * 64 + (b - 0x80) in if cont b \<and> c \<ge> 0x80 then Some (c, r) else None) | _ \<Rightarrow> None)
      else if 0xE0 \<le> a \<and> a < 0xF0 then (case bs of
          b # b' # r \<Rightarrow> (let c = (a - 0xE0) * 4096 + (b - 0x80) * 64 + (b' - 0x80) in
            if cont b \<and> cont b' \<and> c \<ge> 0x800 \<and> scalar c then Some (c, r) else None) | _ \<Rightarrow> None)
      else if 0xF0 \<le> a \<and> a < 0xF8 then (case bs of
          b # b' # b'' # r \<Rightarrow> (let c = (a - 0xF0) * 262144 + (b - 0x80) * 4096 + (b' - 0x80) * 64 + (b'' - 0x80) in
            if cont b \<and> cont b' \<and> cont b'' \<and> c \<ge> 0x10000 \<and> scalar c then Some (c, r) else None) | _ \<Rightarrow> None)
      else None)"
| "decode_char [] = None"

lemma decode_char_shorter: "decode_char bs = Some (c, r) \<Longrightarrow> length r < length bs"
  by (cases bs) (auto simp: Let_def split: if_splits list.splits)

function decode_loop8 :: "nat list \<Rightarrow> ustr option" where
  "decode_loop8 bs = (if bs = [] then Some [] else (case decode_char bs of
      None \<Rightarrow> None | Some (c, r) \<Rightarrow> (case decode_loop8 r of None \<Rightarrow> None | Some s \<Rightarrow> Some (c # s))))"
  by pat_completeness auto
termination by (relation "measure length") (auto dest: decode_char_shorter)

declare decode_loop8.simps [simp del]

definition utf8_decode :: "bytes \<Rightarrow> ustr option" where
  "utf8_decode bs = decode_loop8 (map unat bs)"

lemma div_parts:
  fixes c :: nat
  shows "c div 64 * 64 + c mod 64 = c" "c div 4096 * 4096 + c div 64 mod 64 * 64 + c mod 64 = c"
    "c div 262144 * 262144 + c div 4096 mod 64 * 4096 + c div 64 mod 64 * 64 + c mod 64 = c"
proof -
  have 1: "c div 64 = c div 4096 * 64 + c div 64 mod 64" using div_mult_mod_eq [of "c div 64" 64] by (simp add: div_mult2_eq [symmetric])
  have 2: "c div 4096 = c div 262144 * 64 + c div 4096 mod 64"
    using div_mult_mod_eq [of "c div 4096" 64] by (simp add: div_mult2_eq [symmetric])
  show "c div 64 * 64 + c mod 64 = c" by simp
  then show "c div 4096 * 4096 + c div 64 mod 64 * 64 + c mod 64 = c" using 1 by linarith
  then show "c div 262144 * 262144 + c div 4096 mod 64 * 4096 + c div 64 mod 64 * 64 + c mod 64 = c" using 2 by linarith
qed

lemma cont_byte [simp]: "cont (128 + n mod 64)"
  by (simp add: cont_def)

lemma decode_char_bytes: "scalar c \<Longrightarrow> decode_char (char_bytes c @ r) = Some (c, r)"
proof -
  assume s: "scalar c"
  note p = div_parts [of c]
  consider "c < 0x80" | "0x80 \<le> c" "c < 0x800" | "0x800 \<le> c" "c < 0x10000" | "0x10000 \<le> c" "c < 0x110000"
    using s by (fastforce simp: scalar_def)
  then show ?thesis
  proof cases
    case 2
    have "c div 64 < 32" using 2 by simp
    then show ?thesis using 2 p by (simp add: char_bytes_def)
  next
    case 3
    have "c div 4096 < 16" using 3 by simp
    then show ?thesis using 3 p s by (simp add: char_bytes_def)
  next
    case 4
    have "c div 262144 < 8" using 4 by simp
    then show ?thesis using 4 p s by (simp add: char_bytes_def)
  qed (simp add: char_bytes_def)
qed

lemma char_bytes_ne [simp]: "char_bytes c \<noteq> []"
  by (simp add: char_bytes_def)

lemma char_bytes_lt: "scalar c \<Longrightarrow> b \<in> set (char_bytes c) \<Longrightarrow> b < 256"
proof -
  assume a: "scalar c" "b \<in> set (char_bytes c)"
  have m: "n mod 64 < 64" for n :: nat by simp
  have "c < 0x800 \<Longrightarrow> c div 64 < 32" "c < 0x10000 \<Longrightarrow> c div 4096 < 16" "c div 262144 < 5"
    using a(1) by (auto simp: scalar_def)
  with a(2) m [of c] m [of "c div 64"] m [of "c div 4096"] show ?thesis
    by (auto simp: char_bytes_def split: if_splits)
qed

lemma decode_loop8_concat: "list_all scalar s \<Longrightarrow> decode_loop8 (concat (map char_bytes s)) = Some s"
proof (induction s)
  case Nil
  then show ?case by (simp add: decode_loop8.simps)
next
  case (Cons c s)
  then show ?case by (subst decode_loop8.simps) (simp add: decode_char_bytes)
qed

lemma utf8_roundtrip: "utf8_encode s = Some bs \<Longrightarrow> utf8_decode bs = Some s"
proof -
  assume e: "utf8_encode s = Some bs"
  then have s: "list_all scalar s" and bs: "bs = map word_of_nat (concat (map char_bytes s))"
    by (auto simp: utf8_encode_def split: if_splits)
  have "map unat bs = concat (map char_bytes s)"
    unfolding bs map_map
  proof (rule map_idI)
    fix b
    assume "b \<in> set (concat (map char_bytes s))"
    then have "b < 256" using s char_bytes_lt by (auto simp: list_all_iff)
    then show "(unat \<circ> (word_of_nat :: nat \<Rightarrow> 8 word)) b = b" by (simp add: unat_of_nat)
  qed
  then show ?thesis using s by (simp add: utf8_decode_def decode_loop8_concat)
qed

lemma utf8_encode_inj: "utf8_encode s = Some bs \<Longrightarrow> utf8_encode t = Some bs \<Longrightarrow> s = t"
  using utf8_roundtrip [of s bs] utf8_roundtrip [of t bs] by simp

definition utf8_of :: "string \<Rightarrow> bytes" where
  "utf8_of s = map word_of_nat (ascii s)"

lemma utf8_ascii: "list_all (\<lambda>c. c < 128) s \<Longrightarrow> utf8_encode s = Some (map word_of_nat s)"
proof -
  assume a: "list_all (\<lambda>c. c < 128) s"
  then have "list_all scalar s" by (auto simp: list_all_iff scalar_def)
  moreover have "concat (map char_bytes s) = s" using a by (induction s) (simp_all add: char_bytes_def)
  ultimately show ?thesis by (simp add: utf8_encode_def)
qed

end
