(* ===== verification/Plist.thy ===== *)
theory Plist
  imports Utf8 "HOL-Library.Countable"
begin

text \<open>
  What \<^verbatim>\<open>plistlib\<close> reads and writes. The binary format itself is the library's: a parameter with the
  law that what was dumped loads back. Keys are given by their UTF-8 bytes, a real number is its 64-bit
  pattern and a date counts microseconds from 2001.
\<close>

datatype plist =
    PL_str ustr
  | PL_data bytes
  | PL_int int
  | PL_real "64 word"
  | PL_bool bool
  | PL_date int
  | PL_uid nat
  | PL_list "plist list"
  | PL_dict "(string \<times> plist) list"

instance plist :: countable
  by countable_datatype

record plib =
  pl_loads :: "bytes \<Rightarrow> plist option"
  pl_dumps :: "plist \<Rightarrow> bytes"

text \<open>
  The values the format holds exactly: texts without lone surrogates, integers of 64 bits, dates a
  double tells apart to the microsecond, and dictionaries without repeated keys.
\<close>

definition key_ok :: "string \<Rightarrow> bool" where
  "key_ok k \<longleftrightarrow> utf8_decode (utf8_of k) \<noteq> None"

fun plist_wf :: "plist \<Rightarrow> bool" where
  "plist_wf (PL_str s) = list_all scalar s"
| "plist_wf (PL_int n) = (- (2 ^ 63) \<le> n \<and> n < 2 ^ 64)"
| "plist_wf (PL_date t) = (abs t < 2 ^ 32 * 1000000)"
| "plist_wf (PL_uid n) = (n < 2 ^ 64)"
| "plist_wf (PL_list xs) = list_all plist_wf xs"
| "plist_wf (PL_dict kv) = (dict_ok kv \<and> list_all (\<lambda>(k, v). key_ok k \<and> plist_wf v) kv)"
| "plist_wf p = True"

definition plib_ok :: "plib \<Rightarrow> bool" where
  "plib_ok P \<longleftrightarrow> (\<forall>p. plist_wf p \<longrightarrow> pl_loads P (pl_dumps P p) = Some p)"

text \<open>Python's truth of a value; a double of either zero is false.\<close>

fun pl_truthy :: "plist \<Rightarrow> bool" where
  "pl_truthy (PL_str s) = (s \<noteq> [])"
| "pl_truthy (PL_data b) = (b \<noteq> [])"
| "pl_truthy (PL_int n) = (n \<noteq> 0)"
| "pl_truthy (PL_real x) = (x \<noteq> 0 \<and> x \<noteq> 0x8000000000000000)"
| "pl_truthy (PL_bool b) = b"
| "pl_truthy (PL_list xs) = (xs \<noteq> [])"
| "pl_truthy (PL_dict kv) = (kv \<noteq> [])"
| "pl_truthy _ = True"

text \<open>\<^verbatim>\<open>a or b\<close> where \<open>a\<close> may be missing.\<close>

definition or_else :: "plist option \<Rightarrow> plist \<Rightarrow> plist" where
  "or_else v d = (case v of None \<Rightarrow> d | Some p \<Rightarrow> if pl_truthy p then p else d)"

lemma dict_wf_set: "plist_wf (PL_dict d) \<Longrightarrow> plist_wf v \<Longrightarrow> key_ok k \<Longrightarrow> plist_wf (PL_dict (dset k v d))"
proof -
  assume a: "plist_wf (PL_dict d)" "plist_wf v" "key_ok k"
  then have ok: "dict_ok d" "dict_ok (dset k v d)" by simp_all
  have "key_ok j \<and> plist_wf w" if "(j, w) \<in> set (dset k v d)" for j w
  proof -
    have "dget (dset k v d) j = Some w" using that ok(2) by (simp add: dict_ok_items)
    then have "(j = k \<and> w = v) \<or> dget d j = Some w" by (auto split: if_splits)
    then show ?thesis using a ok(1) by (auto simp: dict_ok_items [symmetric] list_all_iff)
  qed
  then show ?thesis using ok by (auto simp: list_all_iff)
qed

lemma dict_wf_del: "plist_wf (PL_dict d) \<Longrightarrow> plist_wf (PL_dict (ddel k d))"
proof -
  assume a: "plist_wf (PL_dict d)"
  have "set (ddel k d) \<subseteq> set d" by (auto simp: ddel_def AList.delete_eq)
  then show ?thesis using a by (auto simp: list_all_iff)
qed

lemma dict_wf_get: "plist_wf (PL_dict d) \<Longrightarrow> dget d k = Some v \<Longrightarrow> plist_wf v"
  by (auto simp: dict_ok_items [symmetric] list_all_iff)

text \<open>A library with that law: values numbered, and the number written as a varint.\<close>

definition coded_plib :: plib where
  "coded_plib = \<lparr>pl_loads = (\<lambda>b. case read_varint 0 0 b of Inl e \<Rightarrow> None | Inr (n, r) \<Rightarrow> Some (from_nat (nat n))),
     pl_dumps = (\<lambda>p. encode_varint (int (to_nat p)))\<rparr>"

lemma coded_plib_loads: "pl_loads coded_plib (pl_dumps coded_plib p) = Some p"
  using read_encode_varint [of "int (to_nat p)" "[]"] by (simp add: coded_plib_def varint_value_def)

lemma coded_plib_ok: "plib_ok coded_plib"
  by (simp add: plib_ok_def coded_plib_loads)

end
