(* ===== verification/Endpoints.thy ===== *)
theory Endpoints
  imports Prelude
begin

text \<open>
  \<^verbatim>\<open>backend/icp/auth/endpoints.py\<close>: which service addresses of Apple's answers are used. \<^verbatim>\<open>urlsplit\<close> is
  the standard library's; a \<open>ValueError\<close> of it is \<open>None\<close>.
\<close>

record url_parts =
  u_scheme :: ustr
  u_hostname :: "ustr option"
  u_port :: "int option"
  u_username :: "ustr option"
  u_password :: "ustr option"
  u_query :: ustr
  u_fragment :: ustr

definition APPLE_SERVICE_DOMAIN :: ustr where
  "APPLE_SERVICE_DOMAIN = ascii ''icloud.com''"

definition label_char :: "nat \<Rightarrow> bool" where
  "label_char c \<longleftrightarrow> (97 \<le> c \<and> c \<le> 122) \<or> (48 \<le> c \<and> c \<le> 57)"

definition service_label :: "ustr \<Rightarrow> bool" where
  "service_label l \<longleftrightarrow> l \<noteq> [] \<and> length l \<le> 63 \<and> label_char (hd l) \<and> label_char (last l) \<and> list_all (\<lambda>c. label_char c \<or> c = 45) l"

definition bad_url_char :: "nat \<Rightarrow> bool" where
  "bad_url_char c \<longleftrightarrow> py_isspace c \<or> c < 0x20 \<or> c = 0x7F \<or> c = 92"

definition apple_host :: "ustr \<Rightarrow> bool" where
  "apple_host hostname =
     (let host = ascii_lower hostname; rooted = endswith host [46]; h = (if rooted then butlast host else host) in
      (if rooted \<and> (h = [] \<or> endswith h [46]) then False
       else list_all service_label (split_on 46 h) \<and>
         (h = APPLE_SERVICE_DOMAIN \<or> endswith h (46 # APPLE_SERVICE_DOMAIN))))"

definition is_apple_service_url :: "(ustr \<Rightarrow> url_parts option) \<Rightarrow> ustr \<Rightarrow> bool" where
  "is_apple_service_url urlsplit v =
     (if v = [] \<or> strip v \<noteq> v then False
      else if list_ex bad_url_char v then False
      else if 63 \<in> set v \<or> 35 \<in> set v then False
      else (case urlsplit v of
          None \<Rightarrow> False
        | Some p \<Rightarrow> (case u_hostname p of
            None \<Rightarrow> False
          | Some h \<Rightarrow>
              if ascii_lower (u_scheme p) \<noteq> ascii ''https'' \<or> h = [] then False
              else if u_username p \<noteq> None \<or> u_password p \<noteq> None then False
              else if u_port p \<notin> {None, Some 443} \<or> u_query p \<noteq> [] \<or> u_fragment p \<noteq> [] then False
              else if list_ex (\<lambda>c. c > 0x7F) h then False
              else apple_host h)))"

text \<open>Inside Apple's domain: the last two labels are \<^verbatim>\<open>icloud\<close> and \<^verbatim>\<open>com\<close>, and every label is one.\<close>

lemma apple_host_labels:
  assumes "apple_host h"
  shows "\<exists>ls. split_on 46 (if endswith (ascii_lower h) [46] then butlast (ascii_lower h) else ascii_lower h) =
    ls @ [ascii ''icloud'', ascii ''com''] \<and> list_all service_label ls"
proof -
  let ?h = "if endswith (ascii_lower h) [46] then butlast (ascii_lower h) else ascii_lower h"
  have l: "list_all service_label (split_on 46 ?h)" and d: "?h = APPLE_SERVICE_DOMAIN \<or> endswith ?h (46 # APPLE_SERVICE_DOMAIN)"
    using assms by (auto simp: apple_host_def Let_def split: if_splits)
  have dom: "split_on 46 APPLE_SERVICE_DOMAIN = [ascii ''icloud'', ascii ''com'']"
    by (simp add: APPLE_SERVICE_DOMAIN_def ascii_def)
  have sp: "split_on 46 (p @ 46 # q) = split_on 46 p @ split_on 46 q" for p q :: ustr
    by (induction p) (auto split: list.splits)
  from d have "\<exists>ls. split_on 46 ?h = ls @ [ascii ''icloud'', ascii ''com'']"
  proof
    assume "?h = APPLE_SERVICE_DOMAIN"
    then show ?thesis using dom by simp
  next
    assume "endswith ?h (46 # APPLE_SERVICE_DOMAIN)"
    then obtain p where "?h = p @ 46 # APPLE_SERVICE_DOMAIN" unfolding endswith_iff by blast
    then show ?thesis using sp [of p APPLE_SERVICE_DOMAIN] dom by simp
  qed
  then show ?thesis using l by (metis list_all_append)
qed

end
