(* ===== verification/Srp.thy ===== *)
theory Srp
  imports Plist Endpoints
begin

text \<open>
  The escrow recovery of \<^verbatim>\<open>backend/icp/escrow/srp.py\<close>: the message container of escrowproxy, the
  SRP-6a client, and the two-request conversation that turns the device passcode into the bottle's
  entropy. SHA-256, AES, PBKDF2, plists and the HTTP exchange are parameters.
\<close>

subsection \<open>Integers and bytes\<close>

definition int_be :: "bytes \<Rightarrow> int" where
  "int_be bs = foldl (\<lambda>n b. n * 256 + uint b) 0 bs"

text \<open>\<^verbatim>\<open>to_bytes(k, "big")\<close> of a value that fits.\<close>

fun be_bytes :: "nat \<Rightarrow> int \<Rightarrow> bytes" where
  "be_bytes 0 x = []"
| "be_bytes (Suc k) x = be_bytes k (x div 256) @ [word_of_int x]"

definition fits :: "nat \<Rightarrow> int \<Rightarrow> bool" where
  "fits k x \<longleftrightarrow> 0 \<le> x \<and> x < 256 ^ k"

function bit_length :: "int \<Rightarrow> nat" where
  "bit_length x = (if x \<le> 0 then 0 else Suc (bit_length (x div 2)))"
  by pat_completeness auto
termination by (relation "measure nat") auto

declare bit_length.simps [simp del]

definition trim :: "int \<Rightarrow> bytes" where
  "trim x = be_bytes (let n = (bit_length x + 7) div 8 in if n = 0 then 1 else n) x"

text \<open>A Python py_slice.\<close>

definition py_slice :: "bytes \<Rightarrow> nat \<Rightarrow> nat \<Rightarrow> bytes" where
  "py_slice bs a b = take (b - a) (drop a bs)"

lemma int_be_append: "int_be (as @ bs) = int_be as * 256 ^ length bs + int_be bs"
proof (induction bs rule: rev_induct)
  case (snoc b bs)
  then show ?case by (simp add: int_be_def algebra_simps)
qed (simp add: int_be_def)

lemma length_be_bytes [simp]: "length (be_bytes k x) = k"
  by (induction k x rule: be_bytes.induct) simp_all

lemma int_be_bytes: "fits k x \<Longrightarrow> int_be (be_bytes k x) = x"
proof (induction k x rule: be_bytes.induct)
  case (1 x)
  then show ?case by (simp add: fits_def int_be_def)
next
  case (2 k x)
  have "fits k (x div 256)" using 2(2) by (auto simp: fits_def pos_imp_zdiv_nonneg_iff div_less_iff_less_mult mult.commute)
  moreover have "int_be [word_of_int x] = x mod 256" by (simp add: int_be_def uint_word_of_int)
  ultimately show ?case using 2 by (simp add: int_be_append)
qed

lemma bit_length_bound: "0 \<le> x \<Longrightarrow> x < 2 ^ bit_length x"
proof (induction x rule: bit_length.induct)
  case (1 x)
  show ?case
  proof (cases "x \<le> 0")
    case True
    then show ?thesis using 1(2) by (simp add: bit_length.simps)
  next
    case False
    have "x div 2 < 2 ^ bit_length (x div 2)" using 1 False by (simp add: pos_imp_zdiv_nonneg_iff)
    then have "x < 2 * 2 ^ bit_length (x div 2)" by presburger
    then show ?thesis using False by (subst bit_length.simps) simp
  qed
qed

lemma int_be_trim: "0 \<le> x \<Longrightarrow> int_be (trim x) = x"
proof -
  assume x: "0 \<le> x"
  let ?n = "(bit_length x + 7) div 8"
  have "bit_length x \<le> 8 * ?n" by simp
  then have "(2::int) ^ bit_length x \<le> 2 ^ (8 * ?n)" by (intro power_increasing) simp_all
  then have "x < 256 ^ ?n" using bit_length_bound [OF x] by (simp add: power_mult)
  then have "fits ?n x" "?n = 0 \<Longrightarrow> fits 1 x" using x by (simp_all add: fits_def)
  then show ?thesis by (auto simp: trim_def Let_def int_be_bytes)
qed

subsection \<open>The message container\<close>

definition len4 :: "bytes \<Rightarrow> bytes" where
  "len4 d = be_bytes 4 (int (length d))"

record kvmessage =
  kv_header :: bytes
  kv_sections :: "bytes list"

datatype kv_error = Kv_value | Kv_overflow

text \<open>\<^verbatim>\<open>section\<close> and \<^verbatim>\<open>section_sized\<close>; a length of four gigabytes overflows its field.\<close>

definition sized :: "bytes \<Rightarrow> kv_error + bytes" where
  "sized d = (if fits 4 (int (length d)) then Inr (len4 d @ d) else Inl Kv_overflow)"

definition kv_section :: "bytes \<Rightarrow> kvmessage \<Rightarrow> kv_error + kvmessage" where
  "kv_section d m = bindE (sized d) (\<lambda>s. Inr (m\<lparr>kv_sections := kv_sections m @ [s]\<rparr>))"

definition kv_section_sized :: "bytes \<Rightarrow> nat \<Rightarrow> kvmessage \<Rightarrow> kv_error + kvmessage" where
  "kv_section_sized d sz m = bindE (sized d) (\<lambda>total.
     if length total > sz then Inl Kv_value
     else Inr (m\<lparr>kv_sections := kv_sections m @ [total @ replicate (sz - length total) 0]\<rparr>))"

fun kv_index :: "nat \<Rightarrow> bytes list \<Rightarrow> nat list" where
  "kv_index n [] = [n]"
| "kv_index n (s # ss) = n # kv_index (n + length s) ss"

definition kv_pack :: "kvmessage \<Rightarrow> kv_error + bytes" where
  "kv_pack m = (let body = concat (kv_sections m); idx = kv_index 0 (kv_sections m) in
     if \<not> list_all (\<lambda>o'. fits 4 (int o')) idx then Inl Kv_overflow
     else (let rest = kv_header m @ concat (map (\<lambda>o'. be_bytes 4 (int o')) idx) @ body in
       if fits 4 (int (4 + length rest)) then Inr (be_bytes 4 (int (4 + length rest)) @ rest) else Inl Kv_overflow))"

definition unpack_message :: "bytes \<Rightarrow> nat \<Rightarrow> nat \<Rightarrow> bytes \<times> bytes list" where
  "unpack_message bin header_len n =
     (let header = py_slice bin 4 (header_len + 4);
          total = header_len + 4 + (n + 1) * 4;
          region = py_slice bin (header_len + 4) (header_len + 4 + n * 4) in
      (header, map (\<lambda>i. let start = total + nat (int_be (py_slice region (i * 4) (i * 4 + 4)));
                            sz = nat (int_be (py_slice bin start (start + 4))) in
                        py_slice bin (start + 4) (start + 4 + sz)) [0..<n]))"

text \<open>A section that starts with its data: what both ways of adding one make.\<close>

definition holds_data :: "bytes \<Rightarrow> bytes \<Rightarrow> bool" where
  "holds_data s d \<longleftrightarrow> fits 4 (int (length d)) \<and> take (4 + length d) s = len4 d @ d"

lemma sized_holds: "sized d = Inr s \<Longrightarrow> holds_data (s @ t) d"
  by (auto simp: sized_def holds_data_def len4_def split: if_splits)

lemma length_kv_index [simp]: "length (kv_index n ss) = Suc (length ss)"
  by (induction n ss rule: kv_index.induct) simp_all

lemma kv_index_nth: "i \<le> length ss \<Longrightarrow> kv_index n ss ! i = n + length (concat (take i ss))"
proof (induction n ss arbitrary: i rule: kv_index.induct)
  case (2 n s ss)
  then show ?case by (cases i) simp_all
qed simp

lemma slice_mid: "length a = n \<Longrightarrow> length b = m \<Longrightarrow> py_slice (a @ b @ c) n (n + m) = b"
  by (simp add: py_slice_def)

lemma concat_four: "length (concat (map (\<lambda>o'. be_bytes 4 (int o')) os)) = 4 * length os"
  by (induction os) simp_all

lemma slice_concat_four:
  "i < length os \<Longrightarrow> py_slice (concat (map (\<lambda>o'. be_bytes 4 (int o')) os)) (i * 4) (i * 4 + 4) = be_bytes 4 (int (os ! i))"
proof -
  assume i: "i < length os"
  then have "os = take i os @ os ! i # drop (Suc i) os" by (simp add: id_take_nth_drop)
  then have "concat (map (\<lambda>o'. be_bytes 4 (int o')) os) =
      concat (map (\<lambda>o'. be_bytes 4 (int o')) (take i os)) @ be_bytes 4 (int (os ! i)) @ concat (map (\<lambda>o'. be_bytes 4 (int o')) (drop (Suc i) os))"
    by (metis concat.simps(2) concat_append list.simps(9) map_append)
  moreover have "length (concat (map (\<lambda>o'. be_bytes 4 (int o')) (take i os))) = i * 4" using i by (simp add: concat_four)
  ultimately show ?thesis by (simp add: slice_mid)
qed

lemma take_slice: "i + m \<le> k \<Longrightarrow> py_slice (take k bs) i (i + m) = py_slice bs i (i + m)"
  by (simp add: py_slice_def drop_take min_def)

text \<open>
  The container's round trip. What the sender packs - a header and sections that each start with their data's
  length and the data - the receiver unpacks as the same header and the same data, however the sections
  were padded; and packing fails only when a length does not fit its four bytes.
\<close>

theorem unpack_packed:
  assumes "kv_pack m = Inr bin" and "list_all2 holds_data (kv_sections m) ds"
  shows "unpack_message bin (length (kv_header m)) (length ds) = (kv_header m, ds)"
proof -
  let ?ss = "kv_sections m" and ?h = "kv_header m"
  let ?idx = "kv_index 0 ?ss"
  let ?reg = "concat (map (\<lambda>o'. be_bytes 4 (int o')) ?idx)"
  have n: "length ?ss = length ds" using assms(2) by (rule list_all2_lengthD)
  have ok: "list_all (\<lambda>o'. fits 4 (int o')) ?idx" and
      bin: "bin = be_bytes 4 (int (4 + length (?h @ ?reg @ concat ?ss))) @ ?h @ ?reg @ concat ?ss"
    using assms(1) by (auto simp: kv_pack_def Let_def split: if_splits)
  obtain l where l: "bin = l @ ?h @ ?reg @ concat ?ss" "length l = 4" using bin by (metis length_be_bytes)
  have hdr: "py_slice bin 4 (length ?h + 4) = ?h" using l slice_mid [of l 4 ?h "length ?h"] by (simp add: add.commute)
  have reg_len: "length ?reg = (length ds + 1) * 4" using n by (simp add: concat_four)
  have "py_slice bin (length ?h + 4) (length ?h + 4 + length ds * 4) = take (length ds * 4) ?reg"
    using l reg_len by (simp add: py_slice_def)
  then have region: "py_slice (py_slice bin (length ?h + 4) (length ?h + 4 + length ds * 4)) (i * 4) (i * 4 + 4) = be_bytes 4 (int (?idx ! i))"
    if "i < length ds" for i
    using that n slice_concat_four [of i ?idx] by (simp add: take_slice)
  have sec: "(let start = length ?h + 4 + (length ds + 1) * 4 + nat (int_be (be_bytes 4 (int (?idx ! i))));
                  sz = nat (int_be (py_slice bin start (start + 4))) in py_slice bin (start + 4) (start + 4 + sz)) = ds ! i"
    if i: "i < length ds" for i
  proof -
    have "fits 4 (int (?idx ! i))" using ok n i by (simp add: list_all_length)
    then have off: "nat (int_be (be_bytes 4 (int (?idx ! i)))) = length (concat (take i ?ss))"
      using n i by (simp add: int_be_bytes kv_index_nth)
    have h: "holds_data (?ss ! i) (ds ! i)" using assms(2) i by (metis list_all2_nthD2)
    then obtain t where t: "?ss ! i = len4 (ds ! i) @ ds ! i @ t"
      by (metis append.assoc append_take_drop_id holds_data_def)
    have "concat ?ss = concat (take i ?ss) @ ?ss ! i @ concat (drop (Suc i) ?ss)"
      using n i by (metis append_take_drop_id concat.simps(2) concat_append Cons_nth_drop_Suc)
    then have "bin = (l @ ?h @ ?reg @ concat (take i ?ss)) @ len4 (ds ! i) @ ds ! i @ (t @ concat (drop (Suc i) ?ss))"
      unfolding l(1) by (simp only: t append_assoc)
    moreover have "length (l @ ?h @ ?reg @ concat (take i ?ss)) = length ?h + 4 + (length ds + 1) * 4 + length (concat (take i ?ss))"
      by (simp only: length_append reg_len l(2))
    ultimately obtain a c where ac: "bin = a @ len4 (ds ! i) @ ds ! i @ c"
        "length a = length ?h + 4 + (length ds + 1) * 4 + length (concat (take i ?ss))" by blast
    have 1: "py_slice bin (length a) (length a + 4) = len4 (ds ! i)" unfolding ac(1) by (rule slice_mid) (simp_all add: len4_def)
    have 2: "py_slice bin (length a + 4) (length a + 4 + length (ds ! i)) = ds ! i"
      using slice_mid [of "a @ len4 (ds ! i)" "length a + 4" "ds ! i" "length (ds ! i)" c] by (simp add: ac(1) len4_def)
    have "nat (int_be (len4 (ds ! i))) = length (ds ! i)" using h by (simp add: holds_data_def len4_def int_be_bytes)
    then show ?thesis using 1 2 by (simp only: off ac(2) [symmetric] Let_def)
  qed
  let ?off = "\<lambda>i. length ?h + 4 + (length ds + 1) * 4 +
    nat (int_be (py_slice (py_slice bin (length ?h + 4) (length ?h + 4 + length ds * 4)) (i * 4) (i * 4 + 4)))"
  let ?get = "\<lambda>i. let start = ?off i; sz = nat (int_be (py_slice bin start (start + 4))) in py_slice bin (start + 4) (start + 4 + sz)"
  have "map ?get [0..<length ds] = ds"
  proof (rule nth_equalityI)
    fix i
    assume "i < length (map ?get [0..<length ds])"
    then have i: "i < length ds" by (simp only: length_map length_upt minus_nat.diff_0)
    then have "map ?get [0..<length ds] ! i = ?get i" by (simp only: nth_map_upt plus_nat.add_0 minus_nat.diff_0)
    also have "\<dots> = ds ! i" unfolding region [OF i] using sec [OF i] by (simp only: Let_def)
    finally show "map ?get [0..<length ds] ! i = ds ! i" .
  qed simp
  then show ?thesis unfolding unpack_message_def Let_def hdr by (simp only:)
qed

subsection \<open>The client\<close>

text \<open>The 2048-bit group of RFC 5054.\<close>

definition srp_N :: int where
  "srp_N = 0xAC6BDB41324A9A9BF166DE5E1389582FAF72B6651987EE07FC3192943DB56050A37329CBB4A099ED8193E0757767A13DD52312AB4B03310DCD7F48A9DA04FD50E8083969EDB767B0CF6095179A163AB3661A05FBD5FAAAE82918A9962F0B93B855F97993EC975EEAA80D740ADBF4FF747359D041D5C33EA71D281E446B14773BCA97B43A23FB801676BD207A436C6481F1D2B9078717461A5B9D32E688F87748544523B524B0D57D5EA77A2775D2ECFA032CFBDBF52FB3786160279004E57AE6AF874E7303CE53299CCC041C7BC308D82A5698F3A8D0C38271AE35F8E9DBFBB694B5C803D89F7AE435DE236D525F54759B65E372FCD68EF20FA7111F9E4AFF73"

definition srp_g :: int where "srp_g = 2"

definition N_BYTES :: nat where "N_BYTES = (bit_length srp_N + 7) div 8"

definition pad :: "int \<Rightarrow> bytes" where "pad x = be_bytes N_BYTES x"

definition pow_mod :: "int \<Rightarrow> int \<Rightarrow> int \<Rightarrow> int" where
  "pow_mod b e m = b ^ nat e mod m"

definition hash_all :: "(bytes \<Rightarrow> bytes) \<Rightarrow> bytes list \<Rightarrow> bytes" where
  "hash_all H parts = H (concat parts)"

record srp_client = srp_a :: int

definition new_client :: "bytes \<Rightarrow> srp_client" where
  "new_client a_bytes = \<lparr>srp_a = int_be a_bytes\<rparr>"

definition srp_A :: "srp_client \<Rightarrow> int" where
  "srp_A c = pow_mod srp_g (srp_a c) srp_N"

definition public_a :: "srp_client \<Rightarrow> bytes" where
  "public_a c = trim (srp_A c)"

definition srp_k :: "(bytes \<Rightarrow> bytes) \<Rightarrow> int" where
  "srp_k H = int_be (hash_all H [pad srp_N, pad srp_g])"

definition srp_x :: "(bytes \<Rightarrow> bytes) \<Rightarrow> bytes \<Rightarrow> bytes \<Rightarrow> bytes \<Rightarrow> int" where
  "srp_x H user pw salt = int_be (hash_all H [salt, hash_all H [user @ [58] @ pw]])"

definition srp_u :: "(bytes \<Rightarrow> bytes) \<Rightarrow> bytes \<Rightarrow> bytes \<Rightarrow> int" where
  "srp_u H a_pub b_pub = int_be (hash_all H [a_pub, b_pub])"

definition srp_proof :: "(bytes \<Rightarrow> bytes) \<Rightarrow> bytes \<Rightarrow> bytes \<Rightarrow> bytes \<Rightarrow> bytes \<Rightarrow> bytes \<Rightarrow> bytes" where
  "srp_proof H user salt a_pub b_pub K =
     hash_all H [map2 (XOR) (hash_all H [pad srp_N]) (hash_all H [pad srp_g]), hash_all H [user], salt, a_pub, b_pub, K]"

definition process :: "(bytes \<Rightarrow> bytes) \<Rightarrow> srp_client \<Rightarrow> bytes \<Rightarrow> bytes \<Rightarrow> bytes \<Rightarrow> bytes \<Rightarrow> bytes \<times> bytes" where
  "process H c user pw salt b_pub =
     (let B = int_be b_pub; a_pub = trim (srp_A c); b_norm = trim B; k = srp_k H; x = srp_x H user pw salt;
          u = srp_u H a_pub b_norm;
          base = (B - (k * pow_mod srp_g x srp_N) mod srp_N) mod srp_N;
          S = pow_mod base (srp_a c + u * x) srp_N;
          K = hash_all H [trim S] in
      (K, srp_proof H user salt a_pub b_norm K))"

definition server_proof :: "(bytes \<Rightarrow> bytes) \<Rightarrow> bytes \<Rightarrow> bytes \<Rightarrow> bytes \<Rightarrow> bytes" where
  "server_proof H a_pub M1 K = hash_all H [a_pub, M1, K]"

text \<open>
  The other side, as RFC 5054 specifies it: the verifier, the public value \<open>B\<close> for a private \<open>b\<close>, and the
  premaster secret from the client's \<open>A\<close>.
\<close>

definition rfc_verifier :: "(bytes \<Rightarrow> bytes) \<Rightarrow> bytes \<Rightarrow> bytes \<Rightarrow> bytes \<Rightarrow> int" where
  "rfc_verifier H user pw salt = srp_g ^ nat (srp_x H user pw salt) mod srp_N"

definition rfc_B :: "(bytes \<Rightarrow> bytes) \<Rightarrow> int \<Rightarrow> nat \<Rightarrow> int" where
  "rfc_B H v b = (srp_k H * v + srp_g ^ b) mod srp_N"

definition rfc_secret :: "int \<Rightarrow> int \<Rightarrow> int \<Rightarrow> nat \<Rightarrow> int" where
  "rfc_secret A v u b = (A * v ^ nat u) ^ b mod srp_N"

lemma int_be_nonneg: "0 \<le> int_be bs"
  by (induction bs rule: rev_induct) (simp_all add: int_be_def)

lemma srp_nonneg [simp]: "0 \<le> srp_x H user pw salt" "0 \<le> srp_u H a b" "0 \<le> srp_a (new_client bs)"
  by (simp_all add: srp_x_def srp_u_def int_be_nonneg new_client_def)

lemma srp_base: "((k * v + w) mod N - (k * v) mod N) mod N = w mod (N :: int)"
  by (simp add: mod_diff_eq)

lemma srp_secret_math:
  fixes g N v :: int
  shows "(g ^ b mod N) ^ (a + u * x) mod N = (g ^ a mod N * (g ^ x mod N) ^ u) ^ b mod N"
proof -
  have "(g ^ b mod N) ^ (a + u * x) mod N = g ^ (b * (a + u * x)) mod N"
    by (simp add: power_mod power_mult [symmetric])
  also have "b * (a + u * x) = (a + x * u) * b" by (simp add: algebra_simps)
  also have "g ^ ((a + x * u) * b) mod N = (g ^ a * (g ^ x) ^ u) ^ b mod N"
    by (simp add: power_mult power_add)
  also have "\<dots> = (g ^ a mod N * (g ^ x mod N) ^ u) ^ b mod N"
  proof -
    have "(g ^ a mod N * (g ^ x mod N) ^ u) mod N = (g ^ a * (g ^ x mod N) ^ u) mod N" by (rule mod_mult_left_eq)
    also have "\<dots> = (g ^ a * ((g ^ x mod N) ^ u mod N)) mod N" by (rule mod_mult_right_eq [symmetric])
    also have "\<dots> = (g ^ a * ((g ^ x) ^ u mod N)) mod N" by (simp only: power_mod)
    also have "\<dots> = (g ^ a * (g ^ x) ^ u) mod N" by (rule mod_mult_right_eq)
    finally show ?thesis using power_mod [of _ N b] by metis
  qed
  finally show ?thesis .
qed


subsection \<open>Examples\<close>

theorem unpack_packed_witness:
  "\<exists>bin. kv_pack \<lparr>kv_header = [1, 2], kv_sections = [len4 [9] @ [9, 0, 0], len4 []]\<rparr> = Inr bin \<and>
     unpack_message bin 2 2 = ([1, 2], [[9], []])"
proof -
  let ?m = "\<lparr>kv_header = [1, 2], kv_sections = [len4 [9] @ [9, 0, 0], len4 []]\<rparr>"
  obtain bin where b: "kv_pack ?m = Inr bin"
    by (simp add: kv_pack_def len4_def fits_def Let_def)
  have "list_all2 holds_data (kv_sections ?m) [[9], []]"
    by (simp add: holds_data_def fits_def len4_def)
  then have "unpack_message bin (length (kv_header ?m)) (length [[9 :: 8 word], []]) = (kv_header ?m, [[9], []])" by (rule unpack_packed [OF b])
  then show ?thesis using b by (simp add: numeral_2_eq_2)
qed


end
