(* ===== verification/Recovery.thy ===== *)
theory Recovery
  imports Srp Base64
begin

text \<open>
  \<^verbatim>\<open>EscrowRecovery\<close> of \<^verbatim>\<open>backend/icp/escrow/srp.py\<close>: the conversation that spends one of the ten attempts of an
  escrow record. The answers of the service may depend on everything sent so far; what was sent is the
  state.
\<close>

datatype esc_error = E_consent | E_url | E_redirect | E_http | E_proof | E_version | E_key | E_other

type_synonym sent = "(string \<times> plist) list"

record esc_env =
  e_plib :: plib
  e_hash :: "bytes \<Rightarrow> bytes"
  e_cbc :: "bytes \<Rightarrow> bytes \<Rightarrow> bytes \<Rightarrow> bytes option"
  e_gcm :: "bytes \<Rightarrow> bytes \<Rightarrow> bytes \<Rightarrow> bytes option"
  e_pbkdf2 :: "bytes \<Rightarrow> bytes \<Rightarrow> int \<Rightarrow> bytes option"
  e_b64 :: "plist \<Rightarrow> bytes option"
  e_urlsplit :: "ustr \<Rightarrow> url_parts option"
  e_post :: "sent \<Rightarrow> int \<times> bytes"

subsection \<open>Pieces\<close>

definition need :: "esc_error \<Rightarrow> 'a option \<Rightarrow> esc_error + 'a" where
  "need e x = (case x of None \<Rightarrow> Inl e | Some y \<Rightarrow> Inr y)"

definition field :: "plist \<Rightarrow> string \<Rightarrow> esc_error + plist" where
  "field p k = (case p of PL_dict kv \<Rightarrow> need E_key (dget kv k) | _ \<Rightarrow> Inl E_other)"

text \<open>\<^verbatim>\<open>_aes_cbc_decrypt\<close>: the padding is removed when it is one.\<close>

definition cbc_decrypt :: "esc_env \<Rightarrow> bytes \<Rightarrow> bytes \<Rightarrow> bytes \<Rightarrow> esc_error + bytes" where
  "cbc_decrypt V key iv ct = bindE (need E_other (e_cbc V key iv ct)) (\<lambda>out.
     if out = [] then Inl E_other
     else (let p = unat (last out) in
       if 1 \<le> p \<and> p \<le> 16 \<and> drop (length out - p) out = replicate p (last out)
       then Inr (take (length out - p) out) else Inr out))"

text \<open>\<^verbatim>\<open>bytes(entropy)\<close>.\<close>

definition py_bytes :: "plist \<Rightarrow> esc_error + bytes" where
  "py_bytes p = (case p of
      PL_data b \<Rightarrow> Inr b
    | PL_int n \<Rightarrow> if n \<ge> 0 then Inr (replicate (nat n) 0) else Inl E_other
    | PL_bool b \<Rightarrow> Inr (if b then [0] else [])
    | PL_list xs \<Rightarrow> mapE (\<lambda>x. case x of PL_int n \<Rightarrow> if 0 \<le> n \<and> n < 256 then Inr (word_of_int n) else Inl E_other
        | PL_bool b \<Rightarrow> Inr (if b then 1 else 0) | _ \<Rightarrow> Inl E_other) xs
    | PL_dict [] \<Rightarrow> Inr []
    | _ \<Rightarrow> Inl E_other)"

definition is_one :: "plist option \<Rightarrow> bool" where
  "is_one p \<longleftrightarrow> p = Some (PL_int 1) \<or> p = Some (PL_bool True) \<or> p = Some (PL_real 0x3FF0000000000000)"

definition COMMAND_VARIANT :: "(string \<times> string) list" where
  "COMMAND_VARIANT = [(''srp_init'', ''SRP_INIT''), (''recover'', ''RECOVER''), (''get_records'', ''GETRECORDS''),
     (''get_club_cert'', ''GETCLUB''), (''enroll'', ''ENROLL''), (''delete'', ''DELETE'')]"

definition USER_ACTION :: string where
  "USER_ACTION = ''com.apple.sbd: escrow recovery''"

definition esc_request :: "string \<Rightarrow> ustr \<Rightarrow> ustr \<Rightarrow> ustr option \<Rightarrow> plist" where
  "esc_request cmd label txn blob = PL_dict
     ([(''command'', PL_str (ascii (case dget COMMAND_VARIANT cmd of None \<Rightarrow> cmd | Some c \<Rightarrow> c))),
       (''label'', PL_str label), (''transactionUUID'', PL_str txn), (''userActionLabel'', PL_str (ascii USER_ACTION)),
       (''version'', PL_int 1)] @ (case blob of None \<Rightarrow> [] | Some b \<Rightarrow> [(''blob'', PL_str b)]))"

subsection \<open>One request\<close>

definition invoke :: "esc_env \<Rightarrow> ustr \<Rightarrow> string \<Rightarrow> plist \<Rightarrow> sent \<Rightarrow> (esc_error + plist) \<times> sent" where
  "invoke V host cmd req tr =
     (if \<not> is_apple_service_url (e_urlsplit V) host then (Inl E_url, tr)
      else (let tr1 = tr @ [(cmd, req)]; (status, content) = e_post V tr1 in
        if 300 \<le> status \<and> status < 400 then (Inl E_redirect, tr1)
        else (case pl_loads (e_plib V) content of
            None \<Rightarrow> (Inl E_other, tr1)
          | Some data \<Rightarrow> if 200 \<le> status \<and> status < 300 then (Inr data, tr1) else (Inl E_http, tr1))))"

text \<open>\<^verbatim>\<open>list_records\<close>: what identifies the backed-up devices; it spends no attempt.\<close>

definition record_entry :: "esc_env \<Rightarrow> plist \<Rightarrow> esc_error + (plist \<times> plist)" where
  "record_entry V entry = (case entry of
      PL_dict kv \<Rightarrow> bindE (case dget kv ''metadata'' of
          None \<Rightarrow> Inr (PL_dict [])
        | Some m \<Rightarrow> if pl_truthy m then bindE (need E_other (e_b64 V m)) (\<lambda>b. need E_other (pl_loads (e_plib V) b)) else Inr (PL_dict []))
        (\<lambda>meta. Inr (case dget kv ''label'' of None \<Rightarrow> PL_str [] | Some l \<Rightarrow> l, meta))
    | _ \<Rightarrow> Inl E_other)"

definition list_records :: "esc_env \<Rightarrow> ustr \<Rightarrow> ustr \<Rightarrow> ustr \<Rightarrow> sent \<Rightarrow> (esc_error + (plist \<times> plist) list) \<times> sent" where
  "list_records V host label txn tr =
     (case invoke V host ''get_records'' (esc_request ''get_records'' label txn None) tr of
        (Inl e, tr1) \<Rightarrow> (Inl e, tr1)
      | (Inr resp, tr1) \<Rightarrow> (case resp of
          PL_dict kv \<Rightarrow> (case or_else (dget kv ''metadataList'') (or_else (dget kv ''metadata_list'') (PL_list [])) of
              PL_list es \<Rightarrow> (mapE (record_entry V) es, tr1) | _ \<Rightarrow> (Inl E_other, tr1))
        | _ \<Rightarrow> (Inl E_other, tr1)))"

subsection \<open>The recovery\<close>

text \<open>What the answer to \<^verbatim>\<open>srp_init\<close> holds.\<close>

record srp_init =
  si_dsid :: bytes
  si_club :: bool
  si_header :: bytes
  si_id :: bytes
  si_salt :: bytes
  si_B :: bytes

definition parse_init :: "esc_env \<Rightarrow> plist \<Rightarrow> esc_error + srp_init" where
  "parse_init V init = bindE (field init ''dsid'') (\<lambda>dsid.
     bindE (field init ''respBlob'') (\<lambda>blob.
     bindE (need E_other (e_b64 V blob)) (\<lambda>bin.
     (let club = (case init of PL_dict kv \<Rightarrow> is_one (dget kv ''clubTypeID'') | _ \<Rightarrow> False);
          (header, sections) = unpack_message bin 24 3 in
      case dsid of
        PL_str s \<Rightarrow> bindE (need E_other (utf8_encode s)) (\<lambda>d.
          Inr \<lparr>si_dsid = d, si_club = club, si_header = header, si_id = sections ! 0, si_salt = sections ! 1,
            si_B = sections ! 2\<rparr>)
      | _ \<Rightarrow> Inl E_other))))"

text \<open>The second request: the header with its type and version, the id and the proof.\<close>

definition patched_header :: "bytes \<Rightarrow> int \<Rightarrow> bytes" where
  "patched_header h ver = (let h1 = be_bytes 4 165 @ drop 4 h in take 4 h1 @ be_bytes 4 ver @ drop 8 h1)"

definition recover_blob :: "srp_init \<Rightarrow> bytes \<Rightarrow> esc_error + bytes" where
  "recover_blob i M1 =
     (let hdr = patched_header (si_header i) (if si_club i then 2 else 0) in
      case bindE (kv_section_sized (si_id i) 20 \<lparr>kv_header = hdr, kv_sections = []\<rparr>) (\<lambda>m. bindE (kv_section M1 m) kv_pack) of
        Inl e \<Rightarrow> Inl E_other | Inr b \<Rightarrow> Inr b)"

text \<open>The answer: the server's proof, then the record under the session key and under the passcode.\<close>

definition open_bottle :: "esc_env \<Rightarrow> bytes \<Rightarrow> bytes \<Rightarrow> esc_error + bytes" where
  "open_bottle V passcode inner =
     (let (ih, ps) = unpack_message inner 16 6; rounds = int_be (py_slice ih 8 12); salt2 = ps ! 1 in
      bindE (need E_other (e_pbkdf2 V passcode salt2 rounds)) (\<lambda>derived.
      bindE (cbc_decrypt V derived (take 16 salt2) (ps ! 3)) (\<lambda>pl.
      bindE (need E_other (pl_loads (e_plib V) pl)) (\<lambda>bottle.
      bindE (field bottle ''BottledPeerEntropy'') py_bytes))))"

definition open_answer :: "esc_env \<Rightarrow> bytes \<Rightarrow> bool \<Rightarrow> bytes \<Rightarrow> bytes \<Rightarrow> bytes \<Rightarrow> plist \<Rightarrow> esc_error + bytes" where
  "open_answer V passcode club a_pub M1 K ans = bindE (field ans ''respBlob'') (\<lambda>blob.
     bindE (need E_other (e_b64 V blob)) (\<lambda>bin.
     (let (h, ps) = unpack_message bin (if club then 40 else 24) 3; version = int_be (py_slice h 4 8) in
      if server_proof (e_hash V) a_pub M1 K \<noteq> ps ! 0 then Inl E_proof
      else bindE (if version = 0 then cbc_decrypt V K (ps ! 1) (ps ! 2)
                  else if version = 2 then need E_other (e_gcm V K (ps ! 1) (ps ! 2)) else Inl E_version)
             (open_bottle V passcode))))"

definition b64_str :: "bytes \<Rightarrow> ustr" where
  "b64_str b = b64encode (map unat b)"

definition try_recover :: "esc_env \<Rightarrow> ustr \<Rightarrow> ustr \<Rightarrow> bytes \<Rightarrow> bool \<Rightarrow> ustr \<Rightarrow> bytes \<Rightarrow> sent \<Rightarrow> (esc_error + bytes) \<times> sent" where
  "try_recover V host label passcode confirm txn a_bytes tr =
     (if \<not> confirm then (Inl E_consent, tr)
      else (let c = new_client a_bytes in
        case invoke V host ''srp_init'' (esc_request ''srp_init'' label txn (Some (b64_str (public_a c)))) tr of
          (Inl e, tr1) \<Rightarrow> (Inl e, tr1)
        | (Inr init, tr1) \<Rightarrow> (case parse_init V init of
            Inl e \<Rightarrow> (Inl e, tr1)
          | Inr i \<Rightarrow> (let (K, M1) = process (e_hash V) c (si_dsid i) passcode (si_salt i) (si_B i) in
              case recover_blob i M1 of
                Inl e \<Rightarrow> (Inl e, tr1)
              | Inr b \<Rightarrow> (case invoke V host ''recover'' (esc_request ''recover'' label txn (Some (b64_str b))) tr1 of
                  (Inl e, tr2) \<Rightarrow> (Inl e, tr2)
                | (Inr ans, tr2) \<Rightarrow> (open_answer V passcode (si_club i) (public_a c) M1 K ans, tr2))))))"

subsection \<open>What a call may send, and what it returns\<close>

lemma invoke_sent:
  "invoke V host cmd req tr = (r, tr') \<Longrightarrow>
   tr' = (if is_apple_service_url (e_urlsplit V) host then tr @ [(cmd, req)] else tr) \<and>
   (is_apple_service_url (e_urlsplit V) host \<or> r = Inl E_url)"
  by (auto simp: invoke_def Let_def split: if_splits option.splits prod.splits)

text \<open>The attempts a list of requests spends.\<close>

definition attempts :: "sent \<Rightarrow> nat" where
  "attempts tr = length (filter (\<lambda>(cmd, req). cmd = ''recover'') tr)"

text \<open>
  The entropy was opened from an answer whose first section is the server's proof for the session key
  the passcode gave.
\<close>

definition proved :: "esc_env \<Rightarrow> bytes \<Rightarrow> bytes \<Rightarrow> bytes \<Rightarrow> bool" where
  "proved V passcode a_bytes entropy \<longleftrightarrow> (\<exists>(i :: srp_init) ans bin K M1.
     process (e_hash V) (new_client a_bytes) (si_dsid i) passcode (si_salt i) (si_B i) = (K, M1) \<and>
     bindE (field ans ''respBlob'') (\<lambda>blob. need E_other (e_b64 V blob)) = Inr bin \<and>
     snd (unpack_message bin (if si_club i then 40 else 24) 3) ! 0 = server_proof (e_hash V) (public_a (new_client a_bytes)) M1 K \<and>
     open_answer V passcode (si_club i) (public_a (new_client a_bytes)) M1 K ans = Inr entropy)"

lemma open_answer_proof:
  "open_answer V passcode club a_pub M1 K ans = Inr entropy \<Longrightarrow>
   \<exists>bin. bindE (field ans ''respBlob'') (\<lambda>blob. need E_other (e_b64 V blob)) = Inr bin \<and>
     snd (unpack_message bin (if club then 40 else 24) 3) ! 0 = server_proof (e_hash V) a_pub M1 K"
proof -
  assume a: "open_answer V passcode club a_pub M1 K ans = Inr entropy"
  then obtain blob bin where b: "field ans ''respBlob'' = Inr blob" "need E_other (e_b64 V blob) = Inr bin"
    by (auto simp: open_answer_def bindE_Inr_iff)
  obtain h ps where u: "unpack_message bin (if club then 40 else 24) 3 = (h, ps)" by fastforce
  have "server_proof (e_hash V) a_pub M1 K = ps ! 0"
    using a by (simp add: open_answer_def b u Let_def split: if_splits)
  then show ?thesis using b u by simp
qed

text \<open>
  C2 (one attempt at most, and only on consent). A recovery spends at most one of the record's attempts, none without
  the confirmation or for an address outside Apple's iCloud domain, and it sends nothing but one \<^verbatim>\<open>srp_init\<close> and
  then one \<^verbatim>\<open>recover\<close>. It returns an entropy only when the server proved, over the very session key that opened
  the record, that it knows the verifier.
\<close>

theorem recovery_spends_one_attempt:
  assumes "try_recover V host label passcode confirm txn a_bytes [] = (r, tr)"
  shows "attempts tr \<le> 1 \<and> map fst tr \<in> {[], [''srp_init''], [''srp_init'', ''recover'']} \<and>
    (\<not> confirm \<or> \<not> is_apple_service_url (e_urlsplit V) host \<longrightarrow> tr = []) \<and>
    (\<forall>entropy. r = Inr entropy \<longrightarrow> confirm \<and> attempts tr = 1 \<and> proved V passcode a_bytes entropy)"
proof (cases "confirm \<and> is_apple_service_url (e_urlsplit V) host")
  case False
  then have "tr = [] \<and> r \<in> {Inl E_consent, Inl E_url}"
    using assms by (auto simp: try_recover_def invoke_def Let_def split: if_splits)
  then show ?thesis by (auto simp: attempts_def)
next
  case True
  let ?c = "new_client a_bytes"
  let ?req1 = "esc_request ''srp_init'' label txn (Some (b64_str (public_a ?c)))"
  obtain r1 tr1 where 1: "invoke V host ''srp_init'' ?req1 [] = (r1, tr1)" by fastforce
  then have t1: "tr1 = [(''srp_init'', ?req1)]" using invoke_sent [OF 1] True by simp
  have c: "confirm" "is_apple_service_url (e_urlsplit V) host" using True by simp_all
  show ?thesis
  proof (cases "(\<exists>e. r1 = Inl e) \<or> (\<exists>init e. r1 = Inr init \<and> parse_init V init = Inl e)")
    case True
    then have "tr = tr1 \<and> (\<exists>e. r = Inl e)" using assms 1 c by (auto simp: try_recover_def Let_def)
    then show ?thesis using t1 c by (auto simp: attempts_def)
  next
    case False
    then obtain init i where i: "r1 = Inr init" "parse_init V init = Inr i" by (metis sum.exhaust)
    obtain K M1 where p: "process (e_hash V) ?c (si_dsid i) passcode (si_salt i) (si_B i) = (K, M1)" by fastforce
    show ?thesis
    proof (cases "recover_blob i M1")
      case (Inl e)
      then have "tr = tr1 \<and> r = Inl e" using assms 1 i p c by (auto simp: try_recover_def Let_def)
      then show ?thesis using t1 c by (auto simp: attempts_def)
    next
      case (Inr b)
      let ?req2 = "esc_request ''recover'' label txn (Some (b64_str b))"
      obtain r2 tr2 where 2: "invoke V host ''recover'' ?req2 tr1 = (r2, tr2)" by fastforce
      have t2: "tr2 = [(''srp_init'', ?req1), (''recover'', ?req2)]" using invoke_sent [OF 2] c t1 by simp
      have "tr = tr2" and r: "r = (case r2 of Inl e \<Rightarrow> Inl e | Inr ans \<Rightarrow> open_answer V passcode (si_club i) (public_a ?c) M1 K ans)"
        using assms 1 2 i p Inr c by (auto simp: try_recover_def Let_def split: sum.splits)
      then have a: "attempts tr = 1" "map fst tr = [''srp_init'', ''recover'']" using t2 by (simp_all add: attempts_def)
      have "proved V passcode a_bytes entropy" if rv: "r = Inr entropy" for entropy
      proof -
        obtain ans where ans: "open_answer V passcode (si_club i) (public_a ?c) M1 K ans = Inr entropy"
          using rv r by (cases r2) auto
        from open_answer_proof [OF this] show ?thesis using p ans unfolding proved_def by blast
      qed
      then show ?thesis using a c by simp
    qed
  qed
qed

text \<open>A service whose every answer is the same, with a hash that is always empty: the conversation runs to its end.\<close>

definition example_esc :: esc_env where
  "example_esc = \<lparr>e_plib = \<lparr>pl_loads = (\<lambda>b. Some (PL_dict [(''dsid'', PL_str []), (''respBlob'', PL_data []),
       (''BottledPeerEntropy'', PL_data [7])])), pl_dumps = (\<lambda>p. [])\<rparr>,
     e_hash = (\<lambda>b. []), e_cbc = (\<lambda>k iv ct. Some [0]), e_gcm = (\<lambda>k iv ct. None), e_pbkdf2 = (\<lambda>p s n. Some []),
     e_b64 = (\<lambda>p. Some (replicate 60 0)),
     e_urlsplit = (\<lambda>v. Some \<lparr>u_scheme = ascii ''https'', u_hostname = Some (ascii ''icloud.com''), u_port = None,
       u_username = None, u_password = None, u_query = [], u_fragment = []\<rparr>), e_post = (\<lambda>tr. (200, []))\<rparr>"

lemma example_host: "is_apple_service_url (e_urlsplit example_esc) (ascii ''https://icloud.com'')"
  by (simp add: is_apple_service_url_def example_esc_def apple_host_def APPLE_SERVICE_DOMAIN_def service_label_def label_char_def
      bad_url_char_def ascii_lower_def ascii_lower_char_def ascii_def stripP_def lstripP_def rstripP_def py_isspace_def Let_def)

lemma example_invoke:
  "invoke example_esc (ascii ''https://icloud.com'') cmd req tr =
    (Inr (PL_dict [(''dsid'', PL_str []), (''respBlob'', PL_data []), (''BottledPeerEntropy'', PL_data [7])]), tr @ [(cmd, req)])"
  using example_host by (simp add: invoke_def) (simp add: example_esc_def)

lemma example_unpack:
  "unpack_message (replicate 60 0) 24 3 = (replicate 24 0, [[], [], []])"
  "unpack_message [0] 16 6 = ([], [[], [], [], [], [], []])"
  by code_simp+

lemma int_be_zero [simp]: "int_be (replicate n 0) = 0" "int_be [] = 0"
  by (induction n) (simp_all add: int_be_def)

lemma example_answers:
  "parse_init example_esc (PL_dict [(''dsid'', PL_str []), (''respBlob'', PL_data []), (''BottledPeerEntropy'', PL_data [7])]) =
    Inr \<lparr>si_dsid = [], si_club = False, si_header = replicate 24 0, si_id = [], si_salt = [], si_B = []\<rparr>"
  "process (e_hash example_esc) c u p q b = ([], [])"
  "\<not> isl (recover_blob \<lparr>si_dsid = [], si_club = False, si_header = replicate 24 0, si_id = [], si_salt = [], si_B = []\<rparr> [])"
  "open_answer example_esc p False a [] [] (PL_dict [(''dsid'', PL_str []), (''respBlob'', PL_data []), (''BottledPeerEntropy'', PL_data [7])]) = Inr [7]"
proof -
  show "parse_init example_esc (PL_dict [(''dsid'', PL_str []), (''respBlob'', PL_data []), (''BottledPeerEntropy'', PL_data [7])]) =
      Inr \<lparr>si_dsid = [], si_club = False, si_header = replicate 24 0, si_id = [], si_salt = [], si_B = []\<rparr>"
    by (simp add: parse_init_def field_def need_def example_esc_def dget_def example_unpack is_one_def utf8_encode_def)
  show "process (e_hash example_esc) c u p q b = ([], [])"
    by (simp add: process_def example_esc_def hash_all_def srp_proof_def Let_def)
  show "\<not> isl (recover_blob \<lparr>si_dsid = [], si_club = False, si_header = replicate 24 0, si_id = [], si_salt = [], si_B = []\<rparr> [])"
    by code_simp
  show "open_answer example_esc p False a [] [] (PL_dict [(''dsid'', PL_str []), (''respBlob'', PL_data []), (''BottledPeerEntropy'', PL_data [7])]) = Inr [7]"
    by (simp add: open_answer_def field_def need_def example_esc_def dget_def example_unpack server_proof_def hash_all_def
        py_slice_def cbc_decrypt_def open_bottle_def py_bytes_def Let_def)
qed

theorem recovery_spends_one_attempt_witness:
  "\<exists>tr. try_recover example_esc (ascii ''https://icloud.com'') [] [1] True [] [] [] = (Inr [7], tr) \<and> attempts tr = 1 \<and>
     proved example_esc [1] [] [7]"
proof -
  obtain b where b: "recover_blob \<lparr>si_dsid = [], si_club = False, si_header = replicate 24 0, si_id = [], si_salt = [], si_B = []\<rparr> [] = Inr b"
    using example_answers(3) by (auto simp: isl_def intro: sum.exhaust)
  obtain tr where "try_recover example_esc (ascii ''https://icloud.com'') [] [1] True [] [] [] = (Inr [7], tr)"
    by (simp add: try_recover_def Let_def example_invoke example_answers(1,2,4) b)
  from recovery_spends_one_attempt [OF this] this show ?thesis by blast
qed

end
