(* ===== verification/ItemCrypto.thy ===== *)
theory ItemCrypto
  imports Srp
begin

text \<open>
  \<^verbatim>\<open>backend/icp/keychain/crypto.py\<close>: the key derivation, the padding and the sealing of a keychain item.
  AES-SIV, AES-GCM, SHA-256 and the curve are parameters.
\<close>

datatype kc_error = Kc_padding | Kc_pad_to | Kc_iv | Kc_overflow | Kc_refused

subsection \<open>X9.63 key derivation\<close>

text \<open>The loop of \<^verbatim>\<open>x963_kdf\<close>; its counter has four bytes.\<close>

function x963_loop :: "(bytes \<Rightarrow> bytes) \<Rightarrow> bytes \<Rightarrow> bytes \<Rightarrow> nat \<Rightarrow> nat \<Rightarrow> bytes \<Rightarrow> kc_error + bytes" where
  "x963_loop H secret info len counter out =
     (if length out < len then
        (if counter < 2 ^ 32 then x963_loop H secret info len (counter + 1) (out @ H (secret @ be_bytes 4 (int counter) @ info))
         else Inl Kc_overflow)
      else Inr (take len out))"
  by pat_completeness auto
termination
  by (relation "measure (\<lambda>(H, secret, info, len, counter, out). 2 ^ 32 - counter)") auto

declare x963_loop.simps [simp del]

definition x963_kdf :: "(bytes \<Rightarrow> bytes) \<Rightarrow> bytes \<Rightarrow> bytes \<Rightarrow> nat \<Rightarrow> kc_error + bytes" where
  "x963_kdf H secret info len = x963_loop H secret info len 1 []"

text \<open>The standard's formula: the first bytes of the blocks with counters one, two and so on.\<close>

definition x963_blocks :: "(bytes \<Rightarrow> bytes) \<Rightarrow> bytes \<Rightarrow> bytes \<Rightarrow> nat \<Rightarrow> bytes" where
  "x963_blocks H secret info k = concat (map (\<lambda>i. H (secret @ be_bytes 4 (int i) @ info)) [1..<k])"

lemma x963_blocks_Suc: "1 \<le> k \<Longrightarrow> x963_blocks H secret info (Suc k) = x963_blocks H secret info k @ H (secret @ be_bytes 4 (int k) @ info)"
  by (simp add: x963_blocks_def)

lemma length_x963_blocks: "(\<And>b. length (H b) = n) \<Longrightarrow> length (x963_blocks H secret info k) = (k - 1) * n"
  by (simp add: x963_blocks_def length_concat comp_def sum_list_triv)

lemma x963_loop_blocks:
  assumes "\<And>b. length (H b) = n" and "len \<le> (2 ^ 32 - 1) * n" and "1 \<le> k" and "k \<le> 2 ^ 32"
  shows "\<exists>m \<ge> k. x963_loop H secret info len k (x963_blocks H secret info k) = Inr (take len (x963_blocks H secret info m)) \<and>
    len \<le> length (x963_blocks H secret info m)"
  using assms
proof (induction "2 ^ 32 - k" arbitrary: k rule: less_induct)
  case less
  let ?b = "x963_blocks H secret info k"
  show ?case
  proof (cases "length ?b < len")
    case False
    then show ?thesis by (intro exI [of _ k]) (subst x963_loop.simps, simp)
  next
    case True
    have "k \<noteq> 2 ^ 32" using True less.prems(2) length_x963_blocks [of H n secret info k, OF less.prems(1)] by auto
    then have k: "k < 2 ^ 32" using less.prems(4) by simp
    have "\<exists>m \<ge> Suc k. x963_loop H secret info len (Suc k) (x963_blocks H secret info (Suc k)) = Inr (take len (x963_blocks H secret info m)) \<and>
        len \<le> length (x963_blocks H secret info m)"
      using less.hyps [of "Suc k"] less.prems k by simp
    then obtain m where m: "m \<ge> Suc k" "len \<le> length (x963_blocks H secret info m)"
        "x963_loop H secret info len (Suc k) (x963_blocks H secret info (Suc k)) = Inr (take len (x963_blocks H secret info m))" by blast
    have "x963_loop H secret info len k ?b = x963_loop H secret info len (Suc k) (x963_blocks H secret info (Suc k))"
      using True k less.prems(3) by (subst x963_loop.simps) (simp add: x963_blocks_Suc)
    then show ?thesis using m by (intro exI [of _ m]) simp
  qed
qed

lemma x963_blocks_prefix: "k \<le> m \<Longrightarrow> \<exists>t. x963_blocks H secret info m = x963_blocks H secret info k @ t"
proof (induction m rule: dec_induct)
  case (step m)
  then show ?case by (cases "m = 0") (auto simp: x963_blocks_def)
qed simp

text \<open>
  The key derivation returns. For a hash of 32 bytes and every length the four-byte counter can serve, the loop
  ends, and with exactly the first bytes of the standard's blocks.
\<close>

theorem x963_kdf_returns:
  assumes "\<forall>b. length (H b) = 32" and "len \<le> (2 ^ 32 - 1) * 32"
  shows "\<exists>m out. x963_kdf H secret info len = Inr out \<and> length out = len \<and> out = take len (x963_blocks H secret info m)"
proof -
  have "x963_blocks H secret info 1 = []" by (simp add: x963_blocks_def)
  then obtain m where "x963_loop H secret info len 1 [] = Inr (take len (x963_blocks H secret info m))"
      "len \<le> length (x963_blocks H secret info m)"
    using x963_loop_blocks [of H 32 len 1 secret info] assms by auto
  then show ?thesis unfolding x963_kdf_def by (intro exI [of _ m]) simp
qed

theorem x963_kdf_returns_witness:
  "\<exists>m out. x963_kdf (\<lambda>b. replicate 32 1) [1] [2] 48 = Inr out \<and> length out = 48 \<and>
     out = take 48 (x963_blocks (\<lambda>b. replicate 32 1) [1] [2] m)"
  by (rule x963_kdf_returns) simp_all

subsection \<open>ISO 7816-4 padding\<close>

text \<open>The scan from the end: \<^verbatim>\<open>ptr\<close> counts the bytes not looked at yet.\<close>

fun strip_scan :: "bytes \<Rightarrow> nat \<Rightarrow> kc_error + bytes" where
  "strip_scan data 0 = Inr data"
| "strip_scan data (Suc ptr) =
     (if data ! ptr = 0 then strip_scan data ptr
      else if data ! ptr = 0x80 then Inr (take ptr data)
      else Inl Kc_padding)"

definition strip_padding :: "bytes \<Rightarrow> kc_error + bytes" where
  "strip_padding data = strip_scan data (length data)"

definition ITEM_PAD_BLOCK :: nat where "ITEM_PAD_BLOCK = 20"

definition apply_padding :: "bytes \<Rightarrow> nat option \<Rightarrow> kc_error + bytes" where
  "apply_padding data pad_to =
     (case pad_to of
        Some n \<Rightarrow> if n \<le> length data then Inl Kc_pad_to else Inr (data @ [0x80] @ replicate (n - length data - 1) 0)
      | None \<Rightarrow> (let marked = length data + 1; blocks = max 2 ((marked + ITEM_PAD_BLOCK - 1) div ITEM_PAD_BLOCK) in
          Inr (data @ [0x80] @ replicate (blocks * ITEM_PAD_BLOCK - marked) 0)))"

lemma strip_scan_zeros:
  "strip_scan (data @ [0x80] @ replicate n 0) (Suc (length data) + m) = Inr data" if "m \<le> n"
  using that by (induction m) (auto simp: nth_append)

lemma strip_padded [simp]: "strip_padding (data @ [0x80] @ replicate n 0) = Inr data"
  using strip_scan_zeros [of n n data] by (simp add: strip_padding_def)

lemma strip_scan_Inr:
  "ptr \<le> length data \<Longrightarrow> strip_scan data ptr = Inr d \<Longrightarrow> (\<forall>i. ptr \<le> i \<and> i < length data \<longrightarrow> data ! i = 0) \<Longrightarrow>
   (\<exists>n. data = d @ [0x80] @ replicate n 0) \<or> (d = data \<and> data = replicate (length data) 0)"
proof (induction ptr)
  case 0
  then have "d = data" by simp
  moreover have "data = replicate (length data) 0" by (rule nth_equalityI) (use 0 in simp_all)
  ultimately show ?case by simp
next
  case (Suc ptr)
  show ?case
  proof (cases "data ! ptr = 0")
    case True
    then have "\<forall>i. ptr \<le> i \<and> i < length data \<longrightarrow> data ! i = 0" using Suc.prems(3) by (metis Suc_leI le_neq_implies_less)
    then show ?thesis using Suc True by simp
  next
    case False
    then have v: "data ! ptr = 0x80" "d = take ptr data" using Suc.prems(2) by (auto split: if_splits)
    have p: "ptr < length data" using Suc.prems(1) by simp
    have "drop (Suc ptr) data = replicate (length data - Suc ptr) 0"
      using Suc.prems(3) by (intro nth_equalityI) auto
    then have "data = d @ [0x80] @ replicate (length data - Suc ptr) 0"
      using v id_take_nth_drop [OF p] by simp
    then show ?thesis by blast
  qed
qed

text \<open>What the padding takes off is a marker and zeros, unless there was nothing but zeros.\<close>

lemma strip_padding_Inr:
  "strip_padding data = Inr d \<Longrightarrow> (\<exists>n. data = d @ [0x80] @ replicate n 0) \<or> (d = data \<and> data = replicate (length data) 0)"
  unfolding strip_padding_def by (rule strip_scan_Inr) auto

lemma apply_padding_length:
  assumes "apply_padding d None = Inr p"
  shows "length p mod 20 = 0 \<and> 40 \<le> length p \<and> length d < length p \<and> (length p = 40 \<or> length p \<le> length d + 20)"
proof -
  define b where "b = (length d + 20) div 20"
  have b: "length d + 1 \<le> b * 20" "b * 20 \<le> length d + 20" by (simp_all add: b_def)
  have "length p = length d + 1 + (max 2 b * 20 - (length d + 1))"
    using assms by (auto simp: apply_padding_def Let_def ITEM_PAD_BLOCK_def b_def)
  then show ?thesis using b by (cases "b \<le> 2") (simp_all add: max_def)
qed

subsection \<open>Items\<close>

record siv =
  siv_encrypt :: "bytes \<Rightarrow> bytes \<Rightarrow> bytes list \<Rightarrow> bytes option"
  siv_decrypt :: "bytes \<Rightarrow> bytes \<Rightarrow> bytes list \<Rightarrow> bytes option"

text \<open>AES-SIV is deterministic: a ciphertext opens to exactly the text that seals to it; its tag has 16 bytes.\<close>

definition siv_ok :: "siv \<Rightarrow> bool" where
  "siv_ok S \<longleftrightarrow> (\<forall>k p ad c. siv_encrypt S k p ad = Some c \<longleftrightarrow> siv_decrypt S k c ad = Some p) \<and>
     (\<forall>k p ad c. siv_encrypt S k p ad = Some c \<longrightarrow> length c = length p + 16)"

definition siv_wrap :: "siv \<Rightarrow> bytes \<Rightarrow> bytes \<Rightarrow> bytes list \<Rightarrow> kc_error + bytes" where
  "siv_wrap S key p ad = (case siv_encrypt S key p ad of None \<Rightarrow> Inl Kc_refused | Some c \<Rightarrow> Inr c)"

definition siv_unwrap :: "siv \<Rightarrow> bytes \<Rightarrow> bytes \<Rightarrow> bytes list \<Rightarrow> kc_error + bytes" where
  "siv_unwrap S key c ad = (case siv_decrypt S key c ad of None \<Rightarrow> Inl Kc_refused | Some p \<Rightarrow> Inr p)"

definition encrypt_item :: "siv \<Rightarrow> bytes \<Rightarrow> bytes \<Rightarrow> bytes list \<Rightarrow> bytes \<Rightarrow> nat option \<Rightarrow> kc_error + bytes" where
  "encrypt_item S key p aad iv pad_to =
     (if length iv \<noteq> 16 then Inl Kc_iv
      else bindE (apply_padding p pad_to) (\<lambda>padded. bindE (siv_wrap S key padded (iv # aad)) (\<lambda>c. Inr (iv @ c))))"

definition decrypt_item :: "siv \<Rightarrow> bytes \<Rightarrow> bytes \<Rightarrow> bytes list \<Rightarrow> kc_error + bytes" where
  "decrypt_item S key data aad =
     (let iv = take 16 data in bindE (siv_unwrap S key (drop 16 data) (iv # aad)) strip_padding)"

lemma siv_okD:
  assumes "siv_ok S"
  shows "siv_encrypt S k p ad = Some c \<longleftrightarrow> siv_decrypt S k c ad = Some p" "siv_encrypt S k p ad = Some c \<Longrightarrow> length c = length p + 16"
  using assms by (simp_all add: siv_ok_def)

lemma siv_unwrap_wrap: "siv_ok S \<Longrightarrow> siv_wrap S k p ad = Inr c \<longleftrightarrow> siv_unwrap S k c ad = Inr p"
  using siv_okD(1) [of S k p ad c] by (auto simp: siv_wrap_def siv_unwrap_def split: option.splits)

lemma siv_wrap_length: "siv_ok S \<Longrightarrow> siv_wrap S k p ad = Inr c \<Longrightarrow> length c = length p + 16"
  using siv_okD(2) [of S k p ad c] by (auto simp: siv_wrap_def split: option.splits)

lemma encrypted_item_opens:
  assumes "siv_ok S" and "encrypt_item S key p aad iv pad_to = Inr data"
  shows "decrypt_item S key data aad = Inr p"
proof -
  obtain padded c where c: "length iv = 16" "apply_padding p pad_to = Inr padded" "siv_wrap S key padded (iv # aad) = Inr c" "data = iv @ c"
    using assms(2) by (auto simp: encrypt_item_def bindE_Inr_iff split: if_splits)
  then obtain n where "padded = p @ [0x80] @ replicate n 0"
    by (auto simp: apply_padding_def Let_def split: option.splits if_splits)
  moreover have "siv_unwrap S key c (iv # aad) = Inr padded" using c(3) siv_unwrap_wrap [OF assms(1)] by simp
  ultimately show ?thesis using c(1,4) strip_padded [of p n] by (simp add: decrypt_item_def Let_def)
qed

text \<open>
  Rewriting reproduces the record. An item that opened, sealed again under the same key, the same leading IV and
  the padded length it had, is byte for byte the record Apple stored - unless it was not padded at all.
\<close>

theorem reencrypt_reproduces:
  assumes "siv_ok S" and "decrypt_item S key data aad = Inr p" and "16 \<le> length data"
    and "siv_unwrap S key (drop 16 data) (take 16 data # aad) \<noteq> Inr p"
  shows "encrypt_item S key p aad (take 16 data) (Some (length data - 32)) = Inr data"
proof -
  obtain padded where u: "siv_unwrap S key (drop 16 data) (take 16 data # aad) = Inr padded" "strip_padding padded = Inr p"
    using assms(2) by (auto simp: decrypt_item_def Let_def bindE_Inr_iff)
  then have "padded \<noteq> p" using assms(4) by auto
  then obtain n where n: "padded = p @ [0x80] @ replicate n 0" using strip_padding_Inr [OF u(2)] by blast
  have w: "siv_wrap S key padded (take 16 data # aad) = Inr (drop 16 data)" using u(1) siv_unwrap_wrap [OF assms(1)] by simp
  then have "length (drop 16 data) = length padded + 16" by (rule siv_wrap_length [OF assms(1)])
  then have "length data - 32 = length padded" by simp
  then have "apply_padding p (Some (length data - 32)) = Inr padded" by (simp add: apply_padding_def n)
  then show ?thesis using w assms(3) by (simp add: encrypt_item_def)
qed

text \<open>A sealing that only appends a tag is deterministic too.\<close>

definition tag_siv :: siv where
  "tag_siv = \<lparr>siv_encrypt = (\<lambda>k p ad. Some (p @ replicate 16 7)),
     siv_decrypt = (\<lambda>k c ad. if endswith c (replicate 16 7) then Some (take (length c - 16) c) else None)\<rparr>"

lemma tag_siv_ok: "siv_ok tag_siv"
proof -
  have "p @ replicate 16 7 = c \<longleftrightarrow> endswith c (replicate 16 7) \<and> take (length c - 16) c = p" for p c :: bytes
    unfolding endswith_iff by auto
  moreover have "endswith c (replicate 16 (7 :: 8 word)) \<Longrightarrow> 16 \<le> length c" for c by auto
  ultimately show ?thesis by (auto simp: siv_ok_def tag_siv_def simp del: endswith.simps)
qed

theorem reencrypt_reproduces_witness:
  "encrypt_item tag_siv [] [5, 6] [] (replicate 16 3) (Some 40) =
    Inr (replicate 16 3 @ [5, 6, 0x80] @ replicate 37 0 @ replicate 16 7)"
proof -
  let ?data = "replicate 16 3 @ [5, 6, 0x80] @ replicate 37 0 @ replicate 16 (7 :: 8 word)"
  have e: "encrypt_item tag_siv [] [5, 6] [] (replicate 16 3) None = Inr ?data"
    by (simp add: encrypt_item_def apply_padding_def ITEM_PAD_BLOCK_def siv_wrap_def tag_siv_def Let_def)
  have d: "decrypt_item tag_siv [] ?data [] = Inr [5, 6]" by (rule encrypted_item_opens [OF tag_siv_ok e])
  have u: "siv_unwrap tag_siv [] (drop 16 ?data) (take 16 ?data # []) \<noteq> Inr [5, 6]"
    by (auto simp: siv_unwrap_def tag_siv_def split: if_splits)
  have l: "length ?data - 32 = 40" "take 16 ?data = replicate 16 3" by simp_all
  show ?thesis using reencrypt_reproduces [OF tag_siv_ok d _ u] l by simp
qed

subsection \<open>Shares\<close>

record ecies =
  ec_exchange :: "bytes \<Rightarrow> bytes option"
  ec_gcm :: "bytes \<Rightarrow> bytes \<Rightarrow> bytes \<Rightarrow> bytes option"
  ec_hash :: "bytes \<Rightarrow> bytes"

definition ecies_decrypt :: "ecies \<Rightarrow> bytes \<Rightarrow> bytes \<Rightarrow> bytes \<Rightarrow> kc_error + bytes" where
  "ecies_decrypt E eph ct tag = (case ec_exchange E eph of
      None \<Rightarrow> Inl Kc_refused
    | Some secret \<Rightarrow> bindE (x963_kdf (ec_hash E) secret eph 48) (\<lambda>d.
        case ec_gcm E (take 32 d) (py_slice d 32 48) (ct @ tag) of None \<Rightarrow> Inl Kc_refused | Some p \<Rightarrow> Inr p))"

text \<open>SecurityFoundation appends 113 bytes of junk to the stored ciphertext.\<close>

definition ecies_decrypt_sf :: "ecies \<Rightarrow> bytes \<Rightarrow> bytes \<Rightarrow> bytes \<Rightarrow> kc_error + bytes" where
  "ecies_decrypt_sf E eph ct tag =
     ecies_decrypt E eph (if length ct > 97 + 16 then take (length ct - (97 + 16)) ct else ct) tag"

end
