(* ===== verification/Ckks.thy ===== *)
theory Ckks
  imports Utf8 "HOL-Library.List_Lexorder" "HOL-Library.Multiset"
begin

text \<open>
  The CloudKit records of \<^verbatim>\<open>backend/icp/transport/ckks.py\<close>: how a keychain record and its values are written and
  read over the wire codec. \<open>None\<close> is any exception. A double is its 64-bit pattern.
\<close>

datatype ckval = CK_bytes bytes | CK_date "64 word" | CK_str ustr | CK_bool bool | CK_int int | CK_double "64 word" | CK_null

record ckrec =
  rec_name :: ustr
  rec_type :: ustr
  rec_fields :: "(ustr \<times> ckval) list"
  rec_etag :: "ustr option"

definition ID_TYPE_RECORD :: int where "ID_TYPE_RECORD = 1"
definition ID_TYPE_RECORD_ZONE :: int where "ID_TYPE_RECORD_ZONE = 6"
definition ID_TYPE_USER :: int where "ID_TYPE_USER = 7"
definition VT_BYTES :: int where "VT_BYTES = 1"
definition VT_DATE :: int where "VT_DATE = 2"
definition VT_STRING :: int where "VT_STRING = 3"
definition VT_REFERENCE :: int where "VT_REFERENCE = 5"
definition VT_INT64 :: int where "VT_INT64 = 7"
definition VT_DOUBLE :: int where "VT_DOUBLE = 8"
definition SAVE_SEMANTICS_UPDATE :: int where "SAVE_SEMANTICS_UPDATE = 3"

subsection \<open>Writing\<close>

definition w_string :: "int \<Rightarrow> ustr option \<Rightarrow> bytes \<Rightarrow> bytes option" where
  "w_string fld v buf = (case v of None \<Rightarrow> Some buf
     | Some s \<Rightarrow> (case utf8_encode s of None \<Rightarrow> None | Some b \<Rightarrow> Some (w_bytes fld (Some b) buf)))"

definition ck_identifier :: "ustr \<Rightarrow> int \<Rightarrow> bytes option" where
  "ck_identifier name ty = Option.bind (w_string 1 (Some name) []) (\<lambda>b. Some (w_uint64 2 (Some ty) b))"

definition record_zone_identifier :: "ustr \<Rightarrow> ustr \<Rightarrow> bytes option" where
  "record_zone_identifier zone user =
     Option.bind (ck_identifier zone ID_TYPE_RECORD_ZONE) (\<lambda>z. Option.bind (ck_identifier user ID_TYPE_USER) (\<lambda>u.
       Some (w_message 2 (Some u) (w_message 1 (Some z) []))))"

definition record_identifier :: "ustr \<Rightarrow> ustr \<Rightarrow> ustr \<Rightarrow> bytes option" where
  "record_identifier name user zone =
     Option.bind (ck_identifier name ID_TYPE_RECORD) (\<lambda>i. Option.bind (record_zone_identifier zone user) (\<lambda>z.
       Some (w_message 2 (Some z) (w_message 1 (Some i) []))))"

definition serialize_value :: "ckval \<Rightarrow> bytes option" where
  "serialize_value v = (case v of
      CK_bytes b \<Rightarrow> Some (w_bytes 2 (Some b) (w_uint64 1 (Some VT_BYTES) []))
    | CK_date t \<Rightarrow> Some (w_message 6 (Some (w_double 1 (Some t) [])) (w_uint64 1 (Some VT_DATE) []))
    | CK_str s \<Rightarrow> w_string 7 (Some s) (w_uint64 1 (Some VT_STRING) [])
    | CK_bool b \<Rightarrow> Some (w_uint64 4 (Some (if b then 1 else 0)) (w_uint64 1 (Some VT_INT64) []))
    | CK_int n \<Rightarrow> Some (w_uint64 4 (Some n) (w_uint64 1 (Some VT_INT64) []))
    | CK_double d \<Rightarrow> Some (w_double 5 (Some d) (w_uint64 1 (Some VT_DOUBLE) []))
    | CK_null \<Rightarrow> None)"

definition serialize_reference :: "ckval \<Rightarrow> ustr \<Rightarrow> ustr \<Rightarrow> bytes option" where
  "serialize_reference v user zone = (case v of
      CK_str target \<Rightarrow> Option.bind (record_identifier target user zone) (\<lambda>r.
        Some (w_message 9 (Some (w_message 2 (Some r) [])) (w_uint64 1 (Some VT_REFERENCE) [])))
    | _ \<Rightarrow> None)"

text \<open>The fields in the order of their names; a field that holds nothing is left out.\<close>

fun write_fields :: "ustr list \<Rightarrow> ustr \<Rightarrow> ustr \<Rightarrow> (ustr \<times> ckval) list \<Rightarrow> bytes \<Rightarrow> bytes option" where
  "write_fields refs user zone [] w = Some w"
| "write_fields refs user zone ((name, v) # fs) w =
     (if v = CK_null then write_fields refs user zone fs w
      else Option.bind (if name \<in> set refs then serialize_reference v user zone else serialize_value v) (\<lambda>val.
        Option.bind (w_string 1 (Some name) []) (\<lambda>nm.
          write_fields refs user zone fs (w_message 7 (Some (w_message 2 (Some val) (w_message 1 (Some nm) []))) w))))"

definition serialize_record :: "ustr \<Rightarrow> ustr \<Rightarrow> (ustr \<times> ckval) list \<Rightarrow> ustr \<Rightarrow> ustr \<Rightarrow> ustr list \<Rightarrow> bytes option" where
  "serialize_record name ty flds user zone refs =
     Option.bind (record_identifier name user zone) (\<lambda>i. Option.bind (w_string 1 (Some ty) []) (\<lambda>t.
       write_fields refs user zone (sort_key fst flds) (w_message 3 (Some t) (w_message 2 (Some i) []))))"

definition build_record_save_request :: "bytes \<Rightarrow> bool \<Rightarrow> int \<Rightarrow> bytes" where
  "build_record_save_request rec merge semantics = w_uint64 6 (Some semantics) (w_bool 2 (Some merge) (w_message 1 (Some rec) []))"

definition build_retrieve_changes_request :: "bytes \<Rightarrow> bytes option \<Rightarrow> int \<Rightarrow> bytes" where
  "build_retrieve_changes_request zone token max_changes =
     w_uint64 4 (Some max_changes) (w_message 2 (Some zone) (w_bytes 1 token []))"

subsection \<open>Reading\<close>

type_synonym pfields = "int \<Rightarrow> pval list option"

text \<open>\<^verbatim>\<open>decode_fields(first(\<dots>))\<close>: a value that is no byte string cannot be decoded.\<close>

definition decode_sub :: "pval option \<Rightarrow> pfields option" where
  "decode_sub v = (case v of Some (PBytes b) \<Rightarrow> (case decode_fields b of Inl e \<Rightarrow> None | Inr f \<Rightarrow> Some f) | _ \<Rightarrow> None)"

text \<open>\<^verbatim>\<open>first_str\<close> without a default: \<open>Some None\<close> is Python's \<open>None\<close>.\<close>

definition first_str :: "pfields \<Rightarrow> int \<Rightarrow> ustr option option" where
  "first_str f k = (case first f k None of
      Some (PBytes b) \<Rightarrow> (case utf8_decode b of None \<Rightarrow> None | Some s \<Rightarrow> Some (Some s)) | _ \<Rightarrow> Some None)"

definition double_of :: "pval option \<Rightarrow> 64 word option" where
  "double_of v = (case v of Some (PInt n) \<Rightarrow> if 0 \<le> n \<and> n < 2 ^ 64 then Some (word_of_int n) else None | _ \<Rightarrow> None)"

definition has :: "pfields \<Rightarrow> int \<Rightarrow> bool" where "has f k \<longleftrightarrow> f k \<noteq> None"

definition str_or_null :: "ustr option \<Rightarrow> ckval" where
  "str_or_null s = (case s of None \<Rightarrow> CK_null | Some t \<Rightarrow> CK_str t)"

definition plain_value :: "pval option \<Rightarrow> ckval" where
  "plain_value v = (case v of None \<Rightarrow> CK_null | Some (PInt n) \<Rightarrow> CK_int n | Some (PBytes b) \<Rightarrow> CK_bytes b)"

text \<open>The name at the end of a reference.\<close>

definition parse_reference :: "pfields \<Rightarrow> ckval option" where
  "parse_reference v = Option.bind (decode_sub (first v 9 None)) (\<lambda>ref.
     case first ref 2 None of
       None \<Rightarrow> Some CK_null
     | Some rid \<Rightarrow> Option.bind (decode_sub (Some rid)) (\<lambda>r. case first r 1 None of
         None \<Rightarrow> Some CK_null
       | Some idv \<Rightarrow> Option.bind (decode_sub (Some idv)) (\<lambda>i. map_option str_or_null (first_str i 1))))"

definition parse_date_or_reference :: "pfields \<Rightarrow> ckval option" where
  "parse_date_or_reference v =
     (let reference = (if has v 9 then parse_reference v else Some CK_null) in
      if has v 6 then Option.bind (decode_sub (first v 6 None)) (\<lambda>d.
        if has d 1 then map_option CK_date (double_of (first d 1 None)) else reference)
      else reference)"

definition parse_value :: "bytes \<Rightarrow> ckval option" where
  "parse_value raw = Option.bind (decode_sub (Some (PBytes raw))) (\<lambda>v.
     if has v 2 then Some (plain_value (first v 2 None))
     else if has v 7 then map_option str_or_null (first_str v 7)
     else if has v 4 then Some (plain_value (first v 4 None))
     else if has v 5 then map_option CK_double (double_of (first v 5 None))
     else parse_date_or_reference v)"

definition as_bytes :: "pval \<Rightarrow> bytes option" where
  "as_bytes v = (case v of PBytes b \<Rightarrow> Some b | _ \<Rightarrow> None)"

definition parse_field :: "pval \<Rightarrow> (ustr \<times> ckval) list \<Rightarrow> (ustr \<times> ckval) list option" where
  "parse_field fld flds = Option.bind (decode_sub (Some fld)) (\<lambda>ff.
     Option.bind (case first ff 1 None of None \<Rightarrow> Some None
       | Some ident \<Rightarrow> Option.bind (decode_sub (Some ident)) (\<lambda>i. first_str i 1)) (\<lambda>fname.
     case (fname, first ff 2 None) of
       (Some n, Some val) \<Rightarrow> Option.bind (as_bytes val) (\<lambda>b. Option.bind (parse_value b) (\<lambda>v. Some (dset n v flds)))
     | _ \<Rightarrow> Some flds))"

fun parse_fields :: "pval list \<Rightarrow> (ustr \<times> ckval) list \<Rightarrow> (ustr \<times> ckval) list option" where
  "parse_fields [] flds = Some flds"
| "parse_fields (x # xs) flds = Option.bind (parse_field x flds) (parse_fields xs)"

definition parse_name :: "pfields \<Rightarrow> ustr option" where
  "parse_name f = (case first f 2 None of
      None \<Rightarrow> Some []
    | Some rec_id \<Rightarrow> Option.bind (decode_sub (Some rec_id)) (\<lambda>r. case first r 1 None of
        None \<Rightarrow> Some []
      | Some idv \<Rightarrow> Option.bind (decode_sub (Some idv)) (\<lambda>i. map_option (\<lambda>s. case s of None \<Rightarrow> [] | Some t \<Rightarrow> t) (first_str i 1))))"

definition parse_type :: "pfields \<Rightarrow> ustr option" where
  "parse_type f = (case first f 3 None of
      None \<Rightarrow> Some []
    | Some blob \<Rightarrow> Option.bind (decode_sub (Some blob)) (\<lambda>t. map_option (\<lambda>s. case s of None \<Rightarrow> [] | Some t \<Rightarrow> t) (first_str t 1)))"

definition parse_record :: "bytes \<Rightarrow> ckrec option" where
  "parse_record raw = Option.bind (decode_sub (Some (PBytes raw))) (\<lambda>f.
     Option.bind (parse_name f) (\<lambda>name. Option.bind (parse_type f) (\<lambda>ty.
     Option.bind (parse_fields (case f 7 of None \<Rightarrow> [] | Some vs \<Rightarrow> vs) []) (\<lambda>flds.
       Some \<lparr>rec_name = name, rec_type = ty, rec_fields = flds, rec_etag = None\<rparr>))))"

definition parse_record_save_response :: "bytes \<Rightarrow> ckrec option option" where
  "parse_record_save_response raw = Option.bind (decode_sub (Some (PBytes raw))) (\<lambda>f. case first f 4 None of
      None \<Rightarrow> Some None
    | Some v \<Rightarrow> Option.bind (as_bytes v) (\<lambda>b. map_option Some (parse_record b)))"

definition parse_change :: "pval \<Rightarrow> ckrec option option" where
  "parse_change change = Option.bind (decode_sub (Some change)) (\<lambda>cf. case first cf 5 None of
      None \<Rightarrow> Some None
    | Some v \<Rightarrow> Option.bind (as_bytes v) (\<lambda>b. Option.bind (parse_record b) (\<lambda>r.
        Option.bind (first_str cf 2) (\<lambda>etag. Some (Some (r\<lparr>rec_etag := etag\<rparr>))))))"

fun parse_changes :: "pval list \<Rightarrow> ckrec list option" where
  "parse_changes [] = Some []"
| "parse_changes (c # cs) = Option.bind (parse_change c) (\<lambda>r. Option.bind (parse_changes cs) (\<lambda>rs.
     Some (case r of None \<Rightarrow> rs | Some x \<Rightarrow> x # rs)))"

definition parse_retrieve_changes_response :: "bytes \<Rightarrow> (ckrec list \<times> pval option \<times> pval option) option" where
  "parse_retrieve_changes_response raw = Option.bind (decode_sub (Some (PBytes raw))) (\<lambda>f.
     Option.bind (parse_changes (case f 1 of None \<Rightarrow> [] | Some cs \<Rightarrow> cs)) (\<lambda>records.
       Some (records, first f 2 None, first f 4 None)))"

definition get_str :: "ckrec \<Rightarrow> ustr \<Rightarrow> ustr option" where
  "get_str r k = (case dget (rec_fields r) k of Some (CK_str s) \<Rightarrow> Some s | _ \<Rightarrow> None)"

definition get_bytes :: "ckrec \<Rightarrow> ustr \<Rightarrow> bytes option" where
  "get_bytes r k = (case dget (rec_fields r) k of Some (CK_bytes b) \<Rightarrow> Some b | _ \<Rightarrow> None)"

subsection \<open>Reading what was written\<close>

text \<open>A message written field by field decodes to its fields.\<close>

lemma decode_written:
  "(\<forall>(n, f) \<in> set fs. 0 \<le> n) \<Longrightarrow> decode_sub (Some (PBytes (write_all fs []))) = Some (collect fs Map.empty)"
  using decode_write_all [of fs "[]" Map.empty] by (simp add: decode_sub_def decode_fields_def decode_loop.simps [of "[]"])

lemma written:
  "w_uint64 n (Some v) buf = write_all [(n, FUint v)] buf" "w_bytes n (Some b) buf = write_all [(n, FBytes b)] buf"
  "w_message n (Some b) buf = write_all [(n, FBytes b)] buf" "w_double n (Some d) buf = write_all [(n, FDouble d)] buf"
  "write_all fs (write_all gs buf) = write_all (gs @ fs) buf"
  by (simp_all add: write_field_def w_message_def) (induction gs arbitrary: buf; simp)

declare write_all.simps [simp del]

lemmas read_simps = decode_written append_field_def first_def has_def first_str_def plain_value_def str_or_null_def double_of_def
  as_bytes_def

definition read_back :: "ckval \<Rightarrow> ckval" where
  "read_back v = (case v of CK_int n \<Rightarrow> CK_int (varint_value n) | CK_bool b \<Rightarrow> CK_int (if b then 1 else 0) | _ \<Rightarrow> v)"

lemma w_string_Some: "w_string n (Some s) buf = Some out \<longleftrightarrow> (\<exists>b. utf8_encode s = Some b \<and> out = write_all [(n, FBytes b)] buf)"
  by (auto simp: w_string_def written split: option.splits)

lemma read_string: "utf8_encode s = Some b \<Longrightarrow> utf8_decode b = Some s" by (rule utf8_roundtrip)

lemma parse_serialized_value: "serialize_value v = Some raw \<Longrightarrow> parse_value raw = Some (read_back v)"
  by (cases v) (auto simp: serialize_value_def parse_value_def w_string_Some written read_simps read_string read_back_def
      parse_date_or_reference_def uint_lt2p [of "_ :: 64 word", simplified] varint_value_def)

lemma read_identifier:
  assumes "ck_identifier name ty = Some raw"
  shows "\<exists>f. decode_sub (Some (PBytes raw)) = Some f \<and> first_str f 1 = Some (Some name)"
  using assms by (auto simp: ck_identifier_def w_string_Some written read_simps read_string bind_eq_Some_conv)

lemma read_record_identifier:
  assumes "record_identifier name user zone = Some raw"
  shows "\<exists>f i g. decode_sub (Some (PBytes raw)) = Some f \<and> first f 1 None = Some (PBytes i) \<and>
    decode_sub (Some (PBytes i)) = Some g \<and> first_str g 1 = Some (Some name)"
proof -
  obtain i z where iz: "ck_identifier name ID_TYPE_RECORD = Some i" "raw = write_all [(1, FBytes i), (2, FBytes z)] []"
    using assms by (auto simp: record_identifier_def written bind_eq_Some_conv)
  moreover have "decode_sub (Some (PBytes raw)) = Some (collect [(1, FBytes i), (2, FBytes z)] Map.empty)"
    unfolding iz(2) by (rule decode_written) simp
  ultimately show ?thesis using read_identifier [OF iz(1)] by (auto simp: append_field_def first_def)
qed

lemma parse_serialized_reference: "serialize_reference (CK_str t) user zone = Some raw \<Longrightarrow> parse_value raw = Some (CK_str t)"
proof -
  assume "serialize_reference (CK_str t) user zone = Some raw"
  then obtain r where r: "record_identifier t user zone = Some r"
      "raw = write_all [(1, FUint VT_REFERENCE), (9, FBytes (write_all [(2, FBytes r)] []))] []"
    by (auto simp: serialize_reference_def written bind_eq_Some_conv)
  obtain f i g where f: "decode_sub (Some (PBytes r)) = Some f" "first f 1 None = Some (PBytes i)"
      "decode_sub (Some (PBytes i)) = Some g" "first_str g 1 = Some (Some t)"
    using read_record_identifier [OF r(1)] by blast
  have 1: "decode_sub (Some (PBytes raw)) = Some (collect [(1, FUint VT_REFERENCE), (9, FBytes (write_all [(2, FBytes r)] []))] Map.empty)"
    unfolding r(2) by (rule decode_written) simp
  have 2: "decode_sub (Some (PBytes (write_all [(2, FBytes r)] []))) = Some (collect [(2, FBytes r)] Map.empty)"
    by (rule decode_written) simp
  have "parse_reference (collect [(1, FUint VT_REFERENCE), (9, FBytes (write_all [(2, FBytes r)] []))] Map.empty) = Some (CK_str t)"
    using 2 f by (simp add: parse_reference_def append_field_def first_def str_or_null_def)
  then show ?thesis
    by (simp add: parse_value_def 1 parse_date_or_reference_def has_def append_field_def)
qed

lemma collect_append: "collect (fs @ gs) out = collect gs (collect fs out)"
  by (induction fs out rule: collect.induct) simp_all

lemma collect_same:
  "collect (map (\<lambda>m. (k, FBytes m)) ms) out =
    (if ms = [] then out else out(k \<mapsto> (case out k of None \<Rightarrow> [] | Some vs \<Rightarrow> vs) @ map PBytes ms))"
  by (induction ms arbitrary: out) (auto simp: append_field_def split: option.splits)

text \<open>The fields as they read back: booleans and negative integers lose their type.\<close>

definition fields_back :: "(ustr \<times> ckval) list \<Rightarrow> (ustr \<times> ckval) list" where
  "fields_back fs = map (\<lambda>(n, v). (n, read_back v)) (filter (\<lambda>(n, v). v \<noteq> CK_null) fs)"

lemma parse_one_field:
  assumes "utf8_encode n = Some nb" and "parse_value val = Some v"
  shows "parse_field (PBytes (write_all [(1, FBytes (write_all [(1, FBytes nb)] [])), (2, FBytes val)] [])) acc = Some (dset n v acc)"
  using assms by (simp add: parse_field_def read_simps read_string)

lemma write_fields_spec:
  "write_fields refs user zone fs w = Some raw \<Longrightarrow>
   \<exists>ms. raw = write_all (map (\<lambda>m. (7, FBytes m)) ms) w \<and>
     (\<forall>acc. parse_fields (map PBytes ms) acc = Some (fold (\<lambda>(n, v). dset n v) (fields_back fs) acc))"
proof (induction refs user zone fs w arbitrary: raw rule: write_fields.induct)
  case (1 refs user zone w)
  then show ?case by (intro exI [of _ "[]"]) (simp add: write_all.simps fields_back_def)
next
  case (2 refs user zone name v fs w)
  show ?case
  proof (cases "v = CK_null")
    case True
    then show ?thesis using 2 by (simp add: fields_back_def)
  next
    case False
    then obtain val nb where f: "(if name \<in> set refs then serialize_reference v user zone else serialize_value v) = Some val"
        "utf8_encode name = Some nb"
        "write_fields refs user zone fs (write_all [(7, FBytes (write_all [(1, FBytes (write_all [(1, FBytes nb)] [])), (2, FBytes val)] []))] w) = Some raw"
      using 2(3) by (auto simp: bind_eq_Some_conv w_string_Some written split: if_splits)
    have val: "parse_value val = Some (read_back v)"
    proof (cases "name \<in> set refs")
      case True
      then obtain t where "v = CK_str t" using f(1) by (cases v) (auto simp: serialize_reference_def)
      then show ?thesis using f(1) True parse_serialized_reference by (simp add: read_back_def)
    next
      case False
      then show ?thesis using f(1) parse_serialized_value by simp
    qed
    let ?m = "write_all [(1, FBytes (write_all [(1, FBytes nb)] [])), (2, FBytes val)] []"
    have "w_message 7 (Some (w_message 2 (Some val) (w_message 1 (Some (write_all [(1, FBytes nb)] [])) []))) w = write_all [(7, FBytes ?m)] w"
      by (simp add: written)
    then obtain ms where ms: "raw = write_all (map (\<lambda>m. (7, FBytes m)) ms) (write_all [(7, FBytes ?m)] w)"
        "\<And>acc. parse_fields (map PBytes ms) acc = Some (fold (\<lambda>(n, v). dset n v) (fields_back fs) acc)"
      using 2(2) [OF False f(1), of "write_all [(1, FBytes nb)] []" raw] f(2,3) by (auto simp: w_string_Some)
    show ?thesis
      using False ms parse_one_field [OF f(2) val]
      by (intro exI [of _ "?m # ms"]) (simp add: written fields_back_def)
  qed
qed

lemma dset_new: "k \<notin> fst ` set d \<Longrightarrow> dset k v d = d @ [(k, v)]"
  by (induction d) (auto simp: dset_def)

lemma fold_dset: "distinct (map fst (acc @ xs)) \<Longrightarrow> fold (\<lambda>(n, v). dset n v) xs acc = acc @ xs"
proof (induction xs arbitrary: acc)
  case (Cons x xs)
  obtain k v where x: "x = (k, v)" by fastforce
  have "k \<notin> fst ` set acc" using Cons.prems x by auto
  then show ?case using Cons.IH [of "acc @ [x]"] Cons.prems x by (simp add: dset_new)
qed simp

lemma sorted_fields_mset: "mset (map h (sort_key g xs)) = mset (map h xs)"
  by simp

lemma distinct_back: "dict_ok fs \<Longrightarrow> distinct (map fst (fields_back (sort_key fst fs)))"
proof -
  assume d: "dict_ok fs"
  have "mset (map fst (sort_key fst fs)) = mset (map fst fs)" by (rule sorted_fields_mset)
  then have s: "distinct (map fst (sort_key fst fs))" using d mset_eq_imp_distinct_iff unfolding dict_ok_def by blast
  have "map fst (fields_back gs) = map fst (filter (\<lambda>(n, v). v \<noteq> CK_null) gs)" for gs
    by (simp add: fields_back_def comp_def split_beta)
  then show ?thesis using s by (simp add: distinct_map_filter)
qed

text \<open>
  Records survive the wire. A record that is sent and read again has its name, its type and its fields in the
  order of their names, references as the names they point at; only booleans and negative integers come back
  as the unsigned 64-bit numbers they are sent as. Sending fails only where a text has no UTF-8 form, a
  reference is no text or a name cannot be written.
\<close>

theorem record_round_trip:
  assumes "dict_ok flds" and "serialize_record name ty flds user zone refs = Some raw"
  shows "parse_record raw = Some \<lparr>rec_name = name, rec_type = ty, rec_fields = fields_back (sort_key fst flds), rec_etag = None\<rparr>"
proof -
  obtain i t where it: "record_identifier name user zone = Some i" "utf8_encode ty = Some t"
      "write_fields refs user zone (sort_key fst flds) (write_all [(2, FBytes i), (3, FBytes (write_all [(1, FBytes t)] []))] []) = Some raw"
    using assms(2) by (auto simp: serialize_record_def bind_eq_Some_conv w_string_Some written)
  obtain ms where ms: "raw = write_all (map (\<lambda>m. (7, FBytes m)) ms) (write_all [(2, FBytes i), (3, FBytes (write_all [(1, FBytes t)] []))] [])"
      "\<And>acc. parse_fields (map PBytes ms) acc = Some (fold (\<lambda>(n, v). dset n v) (fields_back (sort_key fst flds)) acc)"
    using write_fields_spec [OF it(3)] by blast
  have p: "parse_fields (map PBytes ms) [] = Some (fields_back (sort_key fst flds))"
    using ms(2) fold_dset [of "[]"] distinct_back [OF assms(1)] by simp
  let ?f = "collect ([(2, FBytes i), (3, FBytes (write_all [(1, FBytes t)] []))] @ map (\<lambda>m. (7, FBytes m)) ms) Map.empty"
  have d: "decode_sub (Some (PBytes raw)) = Some ?f"
    unfolding ms(1) written by (rule decode_written) auto
  have f: "first ?f 2 None = Some (PBytes i)" "first ?f 3 None = Some (PBytes (write_all [(1, FBytes t)] []))"
      "(case ?f 7 of None \<Rightarrow> [] | Some vs \<Rightarrow> vs) = map PBytes ms"
    by (auto simp: collect_append collect_same append_field_def first_def)
  have n: "parse_name ?f = Some name"
    using read_record_identifier [OF it(1)] unfolding parse_name_def f by auto
  have "parse_type ?f = Some ty"
    unfolding parse_type_def f by (simp add: read_simps read_string [OF it(2)])
  then show ?thesis unfolding parse_record_def d using n f(3) p by simp
qed

theorem record_round_trip_witness:
  "\<exists>raw. serialize_record (ascii ''A'') (ascii ''item'') [(ascii ''x'', CK_int 5), (ascii ''b'', CK_str (ascii ''k'')), (ascii ''n'', CK_null)]
      (ascii ''u'') (ascii ''z'') [ascii ''b''] = Some raw \<and>
    parse_record raw = Some \<lparr>rec_name = ascii ''A'', rec_type = ascii ''item'',
      rec_fields = [(ascii ''b'', CK_str (ascii ''k'')), (ascii ''x'', CK_int 5)], rec_etag = None\<rparr>"
proof -
  let ?fs = "[(ascii ''x'', CK_int 5), (ascii ''b'', CK_str (ascii ''k'')), (ascii ''n'', CK_null)]"
  have d: "dict_ok ?fs" by (simp add: dict_ok_def ascii_def)
  obtain raw where r: "serialize_record (ascii ''A'') (ascii ''item'') ?fs (ascii ''u'') (ascii ''z'') [ascii ''b''] = Some raw"
    by (simp add: serialize_record_def record_identifier_def record_zone_identifier_def ck_identifier_def w_string_def utf8_encode_def
        scalar_def ascii_def sort_key_simps insort_key.simps serialize_reference_def serialize_value_def)
  have "fields_back (sort_key fst ?fs) = [(ascii ''b'', CK_str (ascii ''k'')), (ascii ''x'', CK_int 5)]"
    by (simp add: fields_back_def read_back_def varint_value_def ascii_def)
  then show ?thesis using record_round_trip [OF d r] r by simp
qed

end
