(* ===== verification/ItemRecords.thy ===== *)
theory ItemRecords
  imports Ckks ItemCrypto Base64
begin

text \<open>
  Opening and rewriting one keychain record: \<^verbatim>\<open>authenticated_data_v2\<close> of
  \<^verbatim>\<open>backend/icp/keychain/pipeline.py\<close> and the record functions of \<^verbatim>\<open>backend/icp/keychain/update.py\<close>.
\<close>

datatype item_error = It_item | It_notes | It_value | It_refused

record item_env =
  k_siv :: siv
  k_plib :: plib
  k_b64 :: "ustr \<Rightarrow> bytes option"
  k_rfc3339 :: "64 word \<Rightarrow> bytes option"
  k_trunc :: "64 word \<Rightarrow> int option"
  k_int_str :: "ustr \<Rightarrow> int option"

definition b64_text :: "bytes \<Rightarrow> ustr" where
  "b64_text b = b64encode (map unat b)"

definition item_env_ok :: "item_env \<Rightarrow> bool" where
  "item_env_ok E \<longleftrightarrow> siv_ok (k_siv E) \<and> plib_ok (k_plib E) \<and> (\<forall>b. k_b64 E (b64_text b) = Some b)"

subsection \<open>What a record's ciphertext is bound to\<close>

definition AAD_EXCLUDED :: "string list" where
  "AAD_EXCLUDED = [''gen'', ''pcspublickey'', ''UUID'', ''data'', ''pcsservice'', ''pcspublicidentity'', ''parentkeyref'',
     ''uploadver'', ''wrappedkey'', ''encver'']"

definition excluded :: "ustr \<Rightarrow> bool" where
  "excluded name \<longleftrightarrow> name \<in> ascii ` set AAD_EXCLUDED \<or> startswith name (ascii ''server_'')"

definition le8 :: "int \<Rightarrow> bytes" where
  "le8 n = pack_le 8 (n mod 2 ^ 64)"

text \<open>\<^verbatim>\<open>int(\<dots>)\<close> of a field's value.\<close>

definition ck_int :: "item_env \<Rightarrow> ckval \<Rightarrow> int option" where
  "ck_int E v = (case v of CK_int n \<Rightarrow> Some n | CK_bool b \<Rightarrow> Some (if b then 1 else 0) | CK_double d \<Rightarrow> k_trunc E d
     | CK_str s \<Rightarrow> k_int_str E s | _ \<Rightarrow> None)"

definition aad_value :: "item_env \<Rightarrow> ckval \<Rightarrow> bytes option option" where
  "aad_value E v = (case v of
      CK_str s \<Rightarrow> map_option Some (utf8_encode s)
    | CK_bytes b \<Rightarrow> Some (Some b)
    | CK_date t \<Rightarrow> map_option Some (k_rfc3339 E t)
    | CK_bool b \<Rightarrow> Some (Some (le8 (if b then 1 else 0)))
    | CK_double d \<Rightarrow> map_option (\<lambda>n. Some (le8 n)) (k_trunc E d)
    | CK_int n \<Rightarrow> Some (Some (le8 n))
    | CK_null \<Rightarrow> Some None)"

fun aad_fields :: "item_env \<Rightarrow> (ustr \<times> ckval) list \<Rightarrow> (ustr \<times> bytes) list \<Rightarrow> (ustr \<times> bytes) list option" where
  "aad_fields E [] aad = Some aad"
| "aad_fields E ((name, v) # fs) aad =
     (if excluded name then aad_fields E fs aad
      else Option.bind (aad_value E v) (\<lambda>b. aad_fields E fs (case b of None \<Rightarrow> aad | Some x \<Rightarrow> dset name x aad)))"

definition add_pcs :: "item_env \<Rightarrow> (ustr \<times> ckval) list \<Rightarrow> (ustr \<times> bytes) list \<Rightarrow> (ustr \<times> bytes) list option" where
  "add_pcs E flds aad =
     Option.bind (case dget flds (ascii ''pcsservice'') of
         None \<Rightarrow> Some aad | Some CK_null \<Rightarrow> Some aad
       | Some v \<Rightarrow> map_option (\<lambda>n. dset (ascii ''pcsservice'') (le8 n) aad) (ck_int E v)) (\<lambda>aad1.
     Some (fold (\<lambda>name a. case dget flds name of Some (CK_bytes b) \<Rightarrow> dset name b a | _ \<Rightarrow> a)
       [ascii ''pcspublicidentity'', ascii ''pcspublickey''] aad1))"

definition authenticated_data_v2 ::
  "item_env \<Rightarrow> ustr \<Rightarrow> (ustr \<times> ckval) list \<Rightarrow> int \<Rightarrow> int \<Rightarrow> ustr \<Rightarrow> bytes list option" where
  "authenticated_data_v2 E uuid flds encver gen parent =
     Option.bind (utf8_encode uuid) (\<lambda>ub. Option.bind (utf8_encode parent) (\<lambda>pb.
     Option.bind (add_pcs E flds [(ascii ''UUID'', ub), (ascii ''encver'', le8 encver), (ascii ''gen'', le8 gen), (ascii ''wrappedkey'', pb)])
       (\<lambda>aad. map_option (\<lambda>a. map snd (sort_key fst a)) (aad_fields E flds aad))))"

definition int_field :: "item_env \<Rightarrow> ckrec \<Rightarrow> string \<Rightarrow> int \<Rightarrow> int option" where
  "int_field E r k d = (case dget (rec_fields r) (ascii k) of None \<Rightarrow> Some d | Some v \<Rightarrow> ck_int E v)"

definition record_aad :: "item_env \<Rightarrow> ckrec \<Rightarrow> ustr \<Rightarrow> bytes list option" where
  "record_aad E r parent = Option.bind (int_field E r ''encver'' 2) (\<lambda>ev. Option.bind (int_field E r ''gen'' 0) (\<lambda>g.
     authenticated_data_v2 E (rec_name r) (rec_fields r) ev g parent))"

subsection \<open>One record\<close>

definition opt :: "item_error \<Rightarrow> 'a option \<Rightarrow> item_error + 'a" where
  "opt e x = (case x of None \<Rightarrow> Inl e | Some y \<Rightarrow> Inr y)"

definition kc :: "kc_error + 'a \<Rightarrow> item_error + 'a" where
  "kc x = (case x of Inl e \<Rightarrow> Inl It_refused | Inr y \<Rightarrow> Inr y)"

definition decrypt_item_record :: "item_env \<Rightarrow> ckrec \<Rightarrow> bytes \<Rightarrow> item_error + plist" where
  "decrypt_item_record E r class_key =
     (case (get_bytes r (ascii ''data''), get_str r (ascii ''wrappedkey''), get_str r (ascii ''parentkeyref'')) of
        (Some data, Some wrapped, Some parent) \<Rightarrow>
          if wrapped = [] \<or> parent = [] then Inl It_item
          else bindE (opt It_value (k_b64 E wrapped)) (\<lambda>w.
            bindE (kc (siv_unwrap (k_siv E) class_key w [])) (\<lambda>item_key.
            bindE (opt It_value (record_aad E r parent)) (\<lambda>aad.
            bindE (kc (decrypt_item (k_siv E) item_key data aad)) (\<lambda>pl. opt It_value (pl_loads (k_plib E) pl)))))
      | _ \<Rightarrow> Inl It_item)"

text \<open>The fresh key and IV are arguments: production draws them at random.\<close>

definition encrypt_item_record ::
  "item_env \<Rightarrow> ckrec \<Rightarrow> bytes \<Rightarrow> plist \<Rightarrow> bytes \<Rightarrow> bytes \<Rightarrow> nat option \<Rightarrow> item_error + (ckval \<times> ckval)" where
  "encrypt_item_record E r class_key p iv item_key pad_to =
     (case get_str r (ascii ''parentkeyref'') of
        None \<Rightarrow> Inl It_item
      | Some parent \<Rightarrow>
          if parent = [] \<or> length item_key \<noteq> 64 then Inl It_item
          else bindE (opt It_value (record_aad E r parent)) (\<lambda>aad.
            bindE (kc (encrypt_item (k_siv E) item_key (pl_dumps (k_plib E) p) aad iv pad_to)) (\<lambda>data.
            bindE (kc (siv_wrap (k_siv E) class_key item_key [])) (\<lambda>w. Inr (CK_bytes data, CK_str (b64_text w))))))"

definition with_ciphertext :: "ckval \<times> ckval \<Rightarrow> (ustr \<times> ckval) list \<Rightarrow> (ustr \<times> ckval) list" where
  "with_ciphertext c flds = dset (ascii ''wrappedkey'') (snd c) (dset (ascii ''data'') (fst c) flds)"

text \<open>\<^verbatim>\<open>set_password\<close>: the record's new fields with the plist before and after.\<close>

definition set_password ::
  "item_env \<Rightarrow> ckrec \<Rightarrow> bytes \<Rightarrow> ustr \<Rightarrow> int \<Rightarrow> bytes \<Rightarrow> bytes \<Rightarrow>
   item_error + ((ustr \<times> ckval) list \<times> (string \<times> plist) list \<times> (string \<times> plist) list)" where
  "set_password E r class_key new now iv item_key =
     bindE (decrypt_item_record E r class_key) (\<lambda>p. case p of
       PL_dict before \<Rightarrow>
         if dget before ''v_Data'' = None then Inl It_item
         else bindE (opt It_value (utf8_encode new)) (\<lambda>pw.
           (let after = dset ''mdat'' (PL_date now) (dset ''v_Data'' (PL_data pw) before) in
            bindE (encrypt_item_record E r class_key (PL_dict after) iv item_key None) (\<lambda>c.
              Inr (with_ciphertext c (rec_fields r), before, after))))
     | _ \<Rightarrow> Inl It_item)"

definition new_item_fields ::
  "item_env \<Rightarrow> bytes \<Rightarrow> ustr \<Rightarrow> plist \<Rightarrow> ustr \<Rightarrow> ustr \<Rightarrow> bytes \<Rightarrow> bytes \<Rightarrow> item_error + (ustr \<times> ckval) list" where
  "new_item_fields E class_key parent p name uploadver iv item_key =
     (let flds = [(ascii ''parentkeyref'', CK_str parent), (ascii ''encver'', CK_int 2), (ascii ''gen'', CK_int 0),
                  (ascii ''uploadver'', CK_str uploadver)] in
      bindE (encrypt_item_record E \<lparr>rec_name = name, rec_type = ascii ''item'', rec_fields = flds, rec_etag = None\<rparr>
               class_key p iv item_key None) (\<lambda>c. Inr (with_ciphertext c flds)))"

subsection \<open>The ciphertext is not bound to itself\<close>

lemma aad_fields_filter: "aad_fields E fs aad = aad_fields E (filter (\<lambda>(n, v). \<not> excluded n) fs) aad"
  by (induction E fs aad rule: aad_fields.induct) (auto intro: Option.bind_cong)

lemma filter_dset: "\<not> P k \<Longrightarrow> filter (\<lambda>(n, v). P n) (dset k v d) = filter (\<lambda>(n, v). P n) d"
  by (induction d) (auto simp: dset_def)

lemma ascii_inj_on [simp]: "ascii a = ascii b \<longleftrightarrow> a = b"
  by (auto simp: ascii_def map_injective inj_on_def)

lemma excluded_own [simp]: "excluded (ascii ''data'')" "excluded (ascii ''wrappedkey'')"
  by (simp_all add: excluded_def AAD_EXCLUDED_def)

lemma record_aad_own:
  "record_aad E (r\<lparr>rec_fields := with_ciphertext c (rec_fields r)\<rparr>) parent = record_aad E r parent"
proof -
  have "aad_fields E (with_ciphertext c (rec_fields r)) aad = aad_fields E (rec_fields r) aad" for aad
    unfolding with_ciphertext_def
    by (subst (1 2) aad_fields_filter) (simp add: filter_dset [where P = "\<lambda>n. \<not> excluded n"])
  moreover have "add_pcs E (with_ciphertext c (rec_fields r)) aad = add_pcs E (rec_fields r) aad" for aad
    by (simp add: add_pcs_def with_ciphertext_def)
  ultimately show ?thesis
    by (simp add: record_aad_def int_field_def authenticated_data_v2_def with_ciphertext_def)
qed

lemma b64_wrapped_ne: "siv_ok S \<Longrightarrow> siv_wrap S k p a = Inr w \<Longrightarrow> b64_text w \<noteq> []"
proof -
  assume "siv_ok S" "siv_wrap S k p a = Inr w"
  then have "w \<noteq> []" using siv_wrap_length by fastforce
  then show ?thesis by (cases "map unat w" rule: b64_groups.cases) (auto simp: b64_text_def b64encode_def)
qed

lemma encrypt_own:
  "encrypt_item_record E (r\<lparr>rec_fields := with_ciphertext c (rec_fields r)\<rparr>) = encrypt_item_record E r"
  by (intro ext) (simp only: encrypt_item_record_def record_aad_own, simp add: get_str_def with_ciphertext_def)

lemma encrypted_record_opens:
  assumes "item_env_ok E" and "encrypt_item_record E r class_key p iv item_key pad_to = Inr c" and "plist_wf p"
  shows "decrypt_item_record E (r\<lparr>rec_fields := with_ciphertext c (rec_fields r)\<rparr>) class_key = Inr p"
proof -
  have S: "siv_ok (k_siv E)" "plib_ok (k_plib E)" "\<And>b. k_b64 E (b64_text b) = Some b" using assms(1) by (simp_all add: item_env_ok_def)
  obtain parent aad data w where e: "get_str r (ascii ''parentkeyref'') = Some parent" "parent \<noteq> []" "length item_key = 64"
      "record_aad E r parent = Some aad" "encrypt_item (k_siv E) item_key (pl_dumps (k_plib E) p) aad iv pad_to = Inr data"
      "siv_wrap (k_siv E) class_key item_key [] = Inr w" "c = (CK_bytes data, CK_str (b64_text w))"
    using assms(2) by (auto simp: encrypt_item_record_def bindE_Inr_iff opt_def kc_def split: option.splits if_splits sum.splits)
  let ?r = "r\<lparr>rec_fields := with_ciphertext c (rec_fields r)\<rparr>"
  have g: "get_bytes ?r (ascii ''data'') = Some data" "get_str ?r (ascii ''wrappedkey'') = Some (b64_text w)"
      "get_str ?r (ascii ''parentkeyref'') = Some parent"
    using e(1) by (simp_all add: get_bytes_def get_str_def with_ciphertext_def e(7))
  have u: "siv_unwrap (k_siv E) class_key w [] = Inr item_key" using siv_unwrap_wrap [OF S(1)] e(6) by simp
  have d: "decrypt_item (k_siv E) item_key data aad = Inr (pl_dumps (k_plib E) p)" by (rule encrypted_item_opens [OF S(1) e(5)])
  have "pl_loads (k_plib E) (pl_dumps (k_plib E) p) = Some p" using S(2) assms(3) by (simp add: plib_ok_def)
  moreover have "b64_text w \<noteq> []" by (rule b64_wrapped_ne [OF S(1) e(6)])
  ultimately show ?thesis
    unfolding decrypt_item_record_def g record_aad_own using e(2,4) u d S(3) by (simp add: opt_def kc_def)
qed

text \<open>
  C17 (a password edit is exact). After a password change the record opens under the same class key, to the old contents
  with the new password and the new date and nothing else changed; and of the record's own fields only the
  ciphertext and its wrapped key are new. (The new contents must be ones the format holds exactly.)
\<close>

theorem password_edit_exact:
  assumes "item_env_ok E" and "set_password E r class_key new now iv item_key = Inr (flds, before, after)"
    and "plist_wf (PL_dict after)"
  shows "decrypt_item_record E r class_key = Inr (PL_dict before) \<and>
    decrypt_item_record E (r\<lparr>rec_fields := flds\<rparr>) class_key = Inr (PL_dict after) \<and>
    (\<exists>pw. utf8_encode new = Some pw \<and> dget after ''v_Data'' = Some (PL_data pw)) \<and> dget after ''mdat'' = Some (PL_date now) \<and>
    (\<forall>k. k \<in> {''v_Data'', ''mdat''} \<or> dget after k = dget before k) \<and>
    (\<forall>k. k \<in> {ascii ''data'', ascii ''wrappedkey''} \<or> dget flds k = dget (rec_fields r) k)"
proof -
  obtain pw c where s: "decrypt_item_record E r class_key = Inr (PL_dict before)" "utf8_encode new = Some pw"
      "after = dset ''mdat'' (PL_date now) (dset ''v_Data'' (PL_data pw) before)"
      "encrypt_item_record E r class_key (PL_dict after) iv item_key None = Inr c" "flds = with_ciphertext c (rec_fields r)"
  proof -
    obtain p where p: "decrypt_item_record E r class_key = Inr p"
      using assms(2) unfolding set_password_def bindE_Inr_iff by blast
    show ?thesis
      using assms(2) that
      by (cases p) (auto simp: set_password_def p bindE_Inr_iff opt_def Let_def split: if_splits option.splits)
  qed
  have "decrypt_item_record E (r\<lparr>rec_fields := flds\<rparr>) class_key = Inr (PL_dict after)"
    unfolding s(5) by (rule encrypted_record_opens [OF assms(1) s(4) assms(3)])
  then show ?thesis using s by (simp add: with_ciphertext_def)
qed

subsection \<open>One edit\<close>

definition example_items :: item_env where
  "example_items = \<lparr>k_siv = tag_siv, k_plib = coded_plib, k_b64 = (\<lambda>s. map_option (map word_of_nat) (b64decode s)),
     k_rfc3339 = (\<lambda>t. None), k_trunc = (\<lambda>d. None), k_int_str = (\<lambda>s. None)\<rparr>"

lemma example_items_ok: "item_env_ok example_items"
proof -
  have "map_option (map word_of_nat) (b64decode (b64_text b)) = Some b" for b
  proof -
    have "list_all (\<lambda>n. n < 256) (map unat b)"
      using unsigned_less [of "_ :: 8 word"] by (auto simp: list_all_iff)
    then have "b64decode (b64_text b) = Some (map unat b)" by (simp add: b64_text_def b64_roundtrip)
    then show ?thesis by (simp add: comp_def)
  qed
  then show ?thesis by (simp add: item_env_ok_def example_items_def tag_siv_ok coded_plib_ok)
qed

definition example_login :: "(string \<times> plist) list" where
  "example_login = [(''acct'', PL_str (ascii ''ann'')), (''v_Data'', PL_data [104, 105]), (''mdat'', PL_date 5)]"

definition example_stub :: ckrec where
  "example_stub = \<lparr>rec_name = ascii ''R'', rec_type = ascii ''item'', rec_fields =
     [(ascii ''parentkeyref'', CK_str (ascii ''P'')), (ascii ''gen'', CK_int 0)], rec_etag = None\<rparr>"

lemma example_encrypts: "\<exists>c. encrypt_item_record example_items example_stub [1] (PL_dict d) (replicate 16 2) (replicate 64 3) None = Inr c"
  by (simp add: encrypt_item_record_def example_stub_def get_str_def dget_def ascii_def record_aad_def int_field_def ck_int_def
      authenticated_data_v2_def utf8_encode_def scalar_def add_pcs_def excluded_def AAD_EXCLUDED_def opt_def kc_def
      encrypt_item_def apply_padding_def siv_wrap_def example_items_def tag_siv_def Let_def)

definition example_record :: "ckval \<times> ckval \<Rightarrow> ckrec" where
  "example_record c = example_stub\<lparr>rec_fields := with_ciphertext c (rec_fields example_stub)\<rparr>"

definition example_edited :: "(string \<times> plist) list" where
  "example_edited = dset ''mdat'' (PL_date 9) (dset ''v_Data'' (PL_data [110, 101, 119]) example_login)"

lemma example_edits:
  "\<exists>c flds. set_password example_items (example_record c) [1] (ascii ''new'') 9 (replicate 16 2) (replicate 64 3) =
     Inr (flds, example_login, example_edited) \<and> plist_wf (PL_dict example_edited)"
proof -
  obtain c where c: "encrypt_item_record example_items example_stub [1] (PL_dict example_login) (replicate 16 2) (replicate 64 3) None = Inr c"
    using example_encrypts by blast
  have k: "key_ok ''acct''" "key_ok ''v_Data''" "key_ok ''mdat''"
    by (simp_all add: key_ok_def utf8_of_def utf8_decode_def decode_loop8.simps ascii_def Let_def)
  have wf: "plist_wf (PL_dict example_login)"
    by (simp add: example_login_def dict_ok_def k scalar_def ascii_def)
  have d: "decrypt_item_record example_items (example_record c) [1] = Inr (PL_dict example_login)"
    unfolding example_record_def by (rule encrypted_record_opens [OF example_items_ok c wf])
  obtain c' where c': "encrypt_item_record example_items (example_record c) [1] (PL_dict example_edited) (replicate 16 2) (replicate 64 3) None = Inr c'"
    using example_encrypts [of example_edited] unfolding example_record_def encrypt_own by blast
  have n: "utf8_encode (ascii ''new'') = Some [110, 101, 119]" by (simp add: ascii_def utf8_encode_def scalar_def char_bytes_def)
  have v: "dget example_login ''v_Data'' \<noteq> None" by (simp add: example_login_def dget_def)
  have "set_password example_items (example_record c) [1] (ascii ''new'') 9 (replicate 16 2) (replicate 64 3) =
      Inr (with_ciphertext c' (rec_fields (example_record c)), example_login, example_edited)"
    using v c' by (simp add: set_password_def d n opt_def Let_def example_edited_def)
  moreover have "plist_wf (PL_dict example_edited)"
    unfolding example_edited_def by (intro dict_wf_set wf k) simp_all
  ultimately show ?thesis by blast
qed

theorem password_edit_exact_witness:
  "\<exists>r flds. decrypt_item_record example_items r [1] = Inr (PL_dict example_login) \<and>
     decrypt_item_record example_items (r\<lparr>rec_fields := flds\<rparr>) [1] = Inr (PL_dict example_edited)"
proof -
  obtain c flds where e: "set_password example_items (example_record c) [1] (ascii ''new'') 9 (replicate 16 2) (replicate 64 3) =
     Inr (flds, example_login, example_edited) \<and> plist_wf (PL_dict example_edited)" using example_edits by (elim exE)
  note w = password_edit_exact [OF example_items_ok e [THEN conjunct1] e [THEN conjunct2]]
  show ?thesis
    by (rule exI [of _ "example_record c"], rule exI [of _ flds], rule conjI [OF w [THEN conjunct1] w [THEN conjunct2, THEN conjunct1]])
qed

end
