(* ===== verification/Details.thy ===== *)
theory Details
  imports ItemRecords Tagline
begin

text \<open>
  The second record of an entry: \<^verbatim>\<open>backend/icp/keychain/metadata.py\<close> reads the property list Apple's
  Passwords app keeps there, and \<^verbatim>\<open>backend/icp/keychain/update.py\<close> writes it: notes, further sites, the
  verification code, the title and the password history, and the property lists of new entries.
\<close>

record det_env =
  d_plib :: plib
  d_db :: unidb
  d_replace :: "bytes \<Rightarrow> ustr"
  d_str :: "plist \<Rightarrow> ustr"
  d_int :: "plist \<Rightarrow> int option"
  d_upper :: "ustr \<Rightarrow> ustr"
  d_local :: "int \<Rightarrow> real"
  d_real :: "64 word \<Rightarrow> real"

type_synonym pdict = "(string \<times> plist) list"

text \<open>\<^verbatim>\<open>str(\<dots>)\<close>, \<^verbatim>\<open>int(\<dots>)\<close>, \<^verbatim>\<open>list(\<dots>)\<close> and a decoding that never fails.\<close>

definition py_str :: "det_env \<Rightarrow> plist \<Rightarrow> ustr" where
  "py_str E p = (case p of PL_str s \<Rightarrow> s | _ \<Rightarrow> d_str E p)"

definition py_int :: "det_env \<Rightarrow> plist \<Rightarrow> int option" where
  "py_int E p = (case p of PL_int n \<Rightarrow> Some n | PL_bool b \<Rightarrow> Some (if b then 1 else 0) | _ \<Rightarrow> d_int E p)"

definition key_str :: "string \<Rightarrow> ustr" where
  "key_str k = (case utf8_decode (utf8_of k) of Some s \<Rightarrow> s | None \<Rightarrow> [])"

definition py_list :: "plist \<Rightarrow> plist list option" where
  "py_list p = (case p of
      PL_list xs \<Rightarrow> Some xs
    | PL_str s \<Rightarrow> Some (map (\<lambda>c. PL_str [c]) s)
    | PL_data b \<Rightarrow> Some (map (\<lambda>x. PL_int (uint x)) b)
    | PL_dict kv \<Rightarrow> Some (map (\<lambda>(k, _). PL_str (key_str k)) kv)
    | _ \<Rightarrow> None)"

definition decode_replace :: "det_env \<Rightarrow> bytes \<Rightarrow> ustr" where
  "decode_replace E b = (case utf8_decode b of Some s \<Rightarrow> s | None \<Rightarrow> d_replace E b)"

subsection \<open>Reading: metadata.py\<close>

definition MAGIC :: bytes where
  "MAGIC = utf8_of ''bplist00''"

definition is_metadata :: "plist option \<Rightarrow> bool" where
  "is_metadata v \<longleftrightarrow> (case v of Some (PL_data b) \<Rightarrow> startswith b MAGIC | _ \<Rightarrow> False)"

definition parse_meta :: "det_env \<Rightarrow> plist option \<Rightarrow> pdict option" where
  "parse_meta E v = (if \<not> is_metadata v then None else (case v of
      Some (PL_data b) \<Rightarrow> (case pl_loads (d_plib E) b of Some (PL_dict m) \<Rightarrow> Some m | _ \<Rightarrow> None)
    | _ \<Rightarrow> None))"

definition CARD_KEYS :: "string list" where
  "CARD_KEYS = [''CardNumber'', ''CardSecurityCode'', ''ExpirationDate'', ''CardholderName'', ''displayableLastFour'',
     ''FPANHash'', ''PrimaryAccountIdentifier'']"

definition has_card_data :: "pdict \<Rightarrow> bool" where
  "has_card_data m \<longleftrightarrow> list_ex (\<lambda>k. dget m k \<noteq> None) CARD_KEYS"

record totp_conf =
  tc_secret :: plist
  tc_digits :: int
  tc_period :: int
  tc_algorithm :: int
  tc_issuer :: ustr

text \<open>The outer option is an exception of \<^verbatim>\<open>int\<close>.\<close>

definition totp_config :: "det_env \<Rightarrow> pdict \<Rightarrow> totp_conf option option" where
  "totp_config E m = (case dget m ''totp'' of
      Some (PL_dict t) \<Rightarrow> (case dget t ''secret'' of
          Some s \<Rightarrow> if \<not> pl_truthy s then Some None
            else Option.bind (py_int E (or_else (dget t ''digits'') (PL_int 6))) (\<lambda>d.
              Option.bind (py_int E (or_else (dget t ''period'') (PL_int 30))) (\<lambda>p.
              Option.bind (py_int E (or_else (dget t ''algorithm'') (PL_int 0))) (\<lambda>a.
              Some (Some \<lparr>tc_secret = s, tc_digits = d, tc_period = p, tc_algorithm = a,
                tc_issuer = py_str E (or_else (dget t ''issuer'') (PL_str []))\<rparr>))))
        | None \<Rightarrow> Some None)
    | _ \<Rightarrow> Some None)"

definition notes_of :: "det_env \<Rightarrow> pdict \<Rightarrow> ustr" where
  "notes_of E m = (case dget m ''notes'' of Some (PL_data b) \<Rightarrow> decode_replace E b | Some (PL_str s) \<Rightarrow> s | _ \<Rightarrow> [])"

definition add_site :: "ustr list \<Rightarrow> plist \<Rightarrow> ustr list" where
  "add_site out item = (case item of
      PL_dict d \<Rightarrow> (case dget d ''s'' of
          Some (PL_str s) \<Rightarrow> if strip s \<noteq> [] \<and> strip s \<notin> set out then out @ [strip s] else out
        | _ \<Rightarrow> out)
    | _ \<Rightarrow> out)"

definition sites_of :: "pdict \<Rightarrow> ustr list option" where
  "sites_of m = map_option (foldl add_site []) (py_list (or_else (dget m ''s_as'') (PL_list [])))"

definition title_of :: "pdict \<Rightarrow> ustr" where
  "title_of m = (case dget m ''title'' of
      Some (PL_data b) \<Rightarrow> (case utf8_decode b of Some s \<Rightarrow> strip s | None \<Rightarrow> [])
    | Some (PL_str s) \<Rightarrow> strip s
    | _ \<Rightarrow> [])"

text \<open>A row of the history: when, and the password. \<^verbatim>\<open>timestamp()\<close> of a date without a zone is \<open>d_local\<close>.\<close>

definition history_row :: "det_env \<Rightarrow> plist \<Rightarrow> (real \<times> plist) list" where
  "history_row E h = (case h of
      PL_dict d \<Rightarrow> (case dget d ''p'' of
          None \<Rightarrow> []
        | Some pw \<Rightarrow> [((case dget d ''d'' of Some (PL_date t) \<Rightarrow> d_local E t | _ \<Rightarrow> 0), pw)])
    | _ \<Rightarrow> [])"

definition password_history :: "det_env \<Rightarrow> pdict \<Rightarrow> (real \<times> plist) list option" where
  "password_history E m = map_option (\<lambda>hs. rev (sort_key fst (rev (concat (map (history_row E) hs)))))
     (py_list (or_else (dget m ''s_hi'') (PL_list [])))"

subsection \<open>Writing: update.py\<close>

definition blob_of :: "pdict \<Rightarrow> item_error + bytes" where
  "blob_of meta = (case dget meta ''v_Data'' of Some (PL_data b) \<Rightarrow> Inr b | _ \<Rightarrow> Inl It_item)"

definition with_inner :: "det_env \<Rightarrow> pdict \<Rightarrow> plist \<Rightarrow> int \<Rightarrow> pdict" where
  "with_inner E meta inner stamp =
     dset ''mdat'' (PL_date stamp) (dset ''v_Data'' (PL_data (pl_dumps (d_plib E) inner)) meta)"

text \<open>\<^verbatim>\<open>prev_id == prev_id.upper()\<close>; a value without \<^verbatim>\<open>upper\<close> raises.\<close>

definition ascii_upper_byte :: "8 word \<Rightarrow> 8 word" where
  "ascii_upper_byte b = (if 97 \<le> b \<and> b \<le> 122 then b - 32 else b)"

definition is_upper :: "det_env \<Rightarrow> plist \<Rightarrow> bool option" where
  "is_upper E p = (case p of PL_str s \<Rightarrow> Some (s = d_upper E s) | PL_data b \<Rightarrow> Some (b = map ascii_upper_byte b) | _ \<Rightarrow> None)"

definition history_id :: "det_env \<Rightarrow> pdict \<Rightarrow> ustr \<Rightarrow> item_error + ustr" where
  "history_id E previous new_id = (case dget previous ''id'' of
      None \<Rightarrow> Inr new_id
    | Some i \<Rightarrow> if \<not> pl_truthy i then Inr new_id
        else (case is_upper E i of None \<Rightarrow> Inl It_value | Some up \<Rightarrow> Inr (if up then d_upper E new_id else new_id)))"

definition history_entry :: "det_env \<Rightarrow> plist list \<Rightarrow> ustr \<Rightarrow> ustr \<Rightarrow> int \<Rightarrow> item_error + plist" where
  "history_entry E hist new_id new stamp =
     (case (case hist of [] \<Rightarrow> Some [] | PL_dict d # _ \<Rightarrow> Some d | _ \<Rightarrow> None) of
        None \<Rightarrow> Inl It_value
      | Some previous \<Rightarrow> bindE (history_id E previous new_id) (\<lambda>i.
          Inr (PL_dict [(''d'', PL_date stamp), (''id'', PL_str i), (''p'', PL_str new),
            (''t'', case dget previous ''t'' of None \<Rightarrow> PL_str (ascii ''pass'') | Some t \<Rightarrow> t)])))"

definition history_inner :: "det_env \<Rightarrow> pdict \<Rightarrow> ustr \<Rightarrow> int \<Rightarrow> bool \<Rightarrow> ustr \<Rightarrow> item_error + pdict" where
  "history_inner E inner new stamp newest_first new_id =
     bindE (opt It_value (py_list (or_else (dget inner ''s_hi'') (PL_list [])))) (\<lambda>hist.
     bindE (history_entry E hist new_id new stamp) (\<lambda>entry.
       Inr (dset ''s_hi'' (PL_list (if newest_first then entry # hist else hist @ [entry])) inner)))"

text \<open>A property list that is not a dictionary fails at the first access.\<close>

definition load_inner :: "det_env \<Rightarrow> bytes \<Rightarrow> item_error + pdict" where
  "load_inner E b = (case pl_loads (d_plib E) b of Some (PL_dict m) \<Rightarrow> Inr m | _ \<Rightarrow> Inl It_value)"

definition set_password_history :: "det_env \<Rightarrow> pdict \<Rightarrow> ustr \<Rightarrow> int \<Rightarrow> bool \<Rightarrow> ustr \<Rightarrow> item_error + pdict" where
  "set_password_history E meta new stamp newest_first new_id =
     bindE (blob_of meta) (\<lambda>b. bindE (load_inner E b) (\<lambda>inner.
     bindE (history_inner E inner new stamp newest_first new_id) (\<lambda>inner'.
       Inr (with_inner E meta (PL_dict inner') stamp))))"

definition squash :: "ustr \<Rightarrow> ustr" where
  "squash s = join [32] (words s)"

definition put_text :: "string \<Rightarrow> ustr \<Rightarrow> pdict \<Rightarrow> item_error + pdict" where
  "put_text k s inner = (if s = [] then Inr (ddel k inner)
     else bindE (opt It_value (utf8_encode s)) (\<lambda>b. Inr (dset k (PL_data b) inner)))"

definition set_title :: "det_env \<Rightarrow> pdict \<Rightarrow> ustr \<Rightarrow> int \<Rightarrow> item_error + pdict" where
  "set_title E meta name stamp =
     bindE (blob_of meta) (\<lambda>b. bindE (load_inner E b) (\<lambda>inner.
     bindE (put_text ''title'' (squash name) inner) (\<lambda>inner'. Inr (with_inner E meta (PL_dict inner') stamp))))"

definition stored_notes :: "det_env \<Rightarrow> pdict \<Rightarrow> bool \<Rightarrow> item_error + ustr" where
  "stored_notes E inner strict = (case dget inner ''notes'' of
      Some (PL_data b) \<Rightarrow> (case utf8_decode b of
          Some s \<Rightarrow> Inr s | None \<Rightarrow> if strict then Inl It_notes else Inr (decode_replace E b))
    | Some (PL_str s) \<Rightarrow> Inr s
    | _ \<Rightarrow> Inr [])"

text \<open>The part after \<^verbatim>\<open>://\<close> of a text that has one.\<close>

fun after_scheme :: "ustr \<Rightarrow> ustr" where
  "after_scheme (a # b # c # s) = (if a = 58 \<and> b = 47 \<and> c = 47 then s else after_scheme (b # c # s))"
| "after_scheme s = s"

definition clean_site :: "unidb \<Rightarrow> ustr \<Rightarrow> ustr" where
  "clean_site db raw =
     (let s = strip raw; s1 = (if contains s (ascii ''://'') then after_scheme s else s) in
      ulower db (strip (takeWhile (\<lambda>c. c \<noteq> 35) (takeWhile (\<lambda>c. c \<noteq> 63) (takeWhile (\<lambda>c. c \<noteq> 47) s1)))))"

definition add_clean :: "unidb \<Rightarrow> ustr list \<Rightarrow> ustr \<Rightarrow> ustr list" where
  "add_clean db out raw = (let s = clean_site db raw in if s \<noteq> [] \<and> 32 \<notin> set s \<and> s \<notin> set out then out @ [s] else out)"

definition clean_sites :: "unidb \<Rightarrow> ustr list \<Rightarrow> ustr list" where
  "clean_sites db sites = foldl (add_clean db) [] sites"

definition put_known :: "det_env \<Rightarrow> pdict \<Rightarrow> string \<Rightarrow> pdict \<Rightarrow> pdict" where
  "put_known E cfg k out = (case dget cfg k of
      Some v \<Rightarrow> if pl_truthy v then dset k (PL_str (py_str E v)) out else out | None \<Rightarrow> out)"

definition totp_plist :: "det_env \<Rightarrow> pdict \<Rightarrow> int \<Rightarrow> item_error + pdict" where
  "totp_plist E cfg stamp = (case dget cfg ''secret'' of
      Some (PL_data b) \<Rightarrow> if b = [] then Inl It_item
        else bindE (opt It_value (py_int E (or_else (dget cfg ''digits'') (PL_int 6)))) (\<lambda>d.
          bindE (opt It_value (py_int E (or_else (dget cfg ''period'') (PL_int 30)))) (\<lambda>p.
          bindE (opt It_value (py_int E (or_else (dget cfg ''algorithm'') (PL_int 0)))) (\<lambda>a.
            Inr (fold (put_known E cfg) [''issuer'', ''accountName'', ''originalURL'']
              [(''secret'', PL_data b), (''digits'', PL_int d), (''period'', PL_int p), (''algorithm'', PL_int a),
               (''_initialDate'', PL_date stamp)]))))
    | _ \<Rightarrow> Inl It_item)"

text \<open>What an edit is asked to change; \<open>None\<close> keeps the stored value.\<close>

record edits =
  ed_notes :: "ustr option"
  ed_sites :: "ustr list option"
  ed_totp :: "pdict option"
  ed_body :: "ustr option"
  ed_tags :: "ustr list option"

abbreviation strip_nl :: "ustr \<Rightarrow> ustr" where
  "strip_nl s \<equiv> stripP (\<lambda>c. c = 10) s"

definition splice_notes :: "det_env \<Rightarrow> edits \<Rightarrow> pdict \<Rightarrow> item_error + pdict" where
  "splice_notes E e inner =
     (if ed_body e = None \<and> ed_tags e = None then Inr inner
      else bindE (stored_notes E inner (ed_tags e \<noteq> None)) (\<lambda>t0.
        (let t1 = (case ed_tags e of None \<Rightarrow> t0 | Some ts \<Rightarrow> replace_tags (d_db E) t0 ts);
             t2 = (case ed_body e of None \<Rightarrow> t1 | Some b \<Rightarrow> replace_body (d_db E) t1 (strip_nl b)) in
         put_text ''notes'' t2 inner)))"

definition site_list :: "ustr list \<Rightarrow> plist" where
  "site_list ss = PL_list (map (\<lambda>s. PL_dict [(''s'', PL_str s)]) ss)"

definition primary_site :: "det_env \<Rightarrow> pdict \<Rightarrow> ustr" where
  "primary_site E meta = py_str E (or_else (dget meta ''srvr'') (PL_str []))"

definition edit_inner :: "det_env \<Rightarrow> pdict \<Rightarrow> edits \<Rightarrow> int \<Rightarrow> pdict \<Rightarrow> item_error + pdict" where
  "edit_inner E meta e stamp inner =
     bindE (splice_notes E e inner) (\<lambda>i1.
     bindE (case ed_notes e of None \<Rightarrow> Inr i1 | Some n \<Rightarrow> put_text ''notes'' (strip_nl n) i1) (\<lambda>i2.
     (let i3 = (case ed_sites e of None \<Rightarrow> i2
          | Some ss \<Rightarrow> dset ''s_as'' (site_list (filter (\<lambda>s. s \<noteq> primary_site E meta) (clean_sites (d_db E) ss))) i2) in
      case ed_totp e of None \<Rightarrow> Inr i3
      | Some cfg \<Rightarrow> if cfg = [] then Inr (ddel ''totp'' i3)
          else bindE (totp_plist E cfg stamp) (\<lambda>t. Inr (dset ''totp'' (PL_dict t) i3)))))"

text \<open>\<^verbatim>\<open>time.time()\<close> is read a second time for the code's date; an edit of nothing keeps any property list.\<close>

definition edit_details :: "det_env \<Rightarrow> pdict \<Rightarrow> edits \<Rightarrow> int \<Rightarrow> int \<Rightarrow> item_error + pdict" where
  "edit_details E meta e now later =
     bindE (blob_of meta) (\<lambda>b.
     if ed_notes e \<noteq> None \<and> (ed_body e \<noteq> None \<or> ed_tags e \<noteq> None) then Inl It_item
     else bindE (opt It_value (pl_loads (d_plib E) b)) (\<lambda>p. case p of
         PL_dict inner \<Rightarrow> bindE (edit_inner E meta e later inner) (\<lambda>inner'. Inr (with_inner E meta (PL_dict inner') now))
       | _ \<Rightarrow> if e = \<lparr>ed_notes = None, ed_sites = None, ed_totp = None, ed_body = None, ed_tags = None\<rparr>
           then Inr (with_inner E meta p now) else Inl It_value))"

subsection \<open>New entries\<close>

definition AGRP_PASSWORD :: string where "AGRP_PASSWORD = ''com.apple.cfnetwork''"
definition AGRP_METADATA :: string where "AGRP_METADATA = ''com.apple.password-manager''"
definition METADATA_TYPE :: int where "METADATA_TYPE = 1835626085"

abbreviation lit :: "string \<Rightarrow> plist" where
  "lit s \<equiv> PL_str (ascii s)"

definition base_plist :: "ustr \<Rightarrow> ustr \<Rightarrow> ustr \<Rightarrow> int \<Rightarrow> pdict" where
  "base_plist site username ptcl stamp =
     [(''class'', lit ''inet''), (''atyp'', lit ''form''), (''ptcl'', PL_str ptcl), (''pdmn'', lit ''ak''), (''port'', PL_int 0),
      (''path'', PL_str []), (''sdmn'', PL_str []), (''srvr'', PL_str site), (''acct'', PL_str username),
      (''musr'', PL_data []), (''tomb'', PL_int 0), (''cdat'', PL_date stamp), (''mdat'', PL_date stamp)]"

definition label_for :: "ustr \<Rightarrow> ustr \<Rightarrow> ustr" where
  "label_for site username = site @ ascii '' ('' @ username @ ascii '')''"

definition new_password_plist :: "ustr \<Rightarrow> ustr \<Rightarrow> ustr \<Rightarrow> int \<Rightarrow> item_error + pdict" where
  "new_password_plist site username password stamp =
     bindE (opt It_value (utf8_encode password)) (\<lambda>pw. Inr (base_plist site username (ascii ''htps'') stamp @
       [(''agrp'', lit AGRP_PASSWORD), (''desc'', lit ''Web form password''), (''icmt'', lit ''default''),
        (''labl'', PL_str (label_for site username)), (''v_Data'', PL_data pw)]))"

definition new_inner :: "det_env \<Rightarrow> ustr \<Rightarrow> ustr \<Rightarrow> ustr \<Rightarrow> ustr list \<Rightarrow> pdict option \<Rightarrow> int \<Rightarrow> item_error + pdict" where
  "new_inner E site title notes sites totp stamp =
     (let i0 = [(''ctxt'', PL_dict [([], PL_dict [(''lUsed'', PL_date stamp)])]),
                (''s_as'', site_list (filter (\<lambda>s. s \<noteq> site) (clean_sites (d_db E) sites)))] in
      bindE (if squash title = [] then Inr i0 else put_text ''title'' (squash title) i0) (\<lambda>i1.
      bindE (if strip notes = [] then Inr i1
             else bindE (opt It_value (utf8_encode (strip_nl notes))) (\<lambda>b. Inr (dset ''notes'' (PL_data b) i1))) (\<lambda>i2.
      case totp of
        Some cfg \<Rightarrow> if cfg = [] then Inr i2 else bindE (totp_plist E cfg stamp) (\<lambda>t. Inr (dset ''totp'' (PL_dict t) i2))
      | None \<Rightarrow> Inr i2)))"

definition new_metadata_plist ::
  "det_env \<Rightarrow> ustr \<Rightarrow> ustr \<Rightarrow> ustr \<Rightarrow> ustr \<Rightarrow> ustr list \<Rightarrow> pdict option \<Rightarrow> ustr \<Rightarrow> int \<Rightarrow> item_error + pdict" where
  "new_metadata_plist E site username title notes sites totp ptcl stamp =
     bindE (new_inner E site title notes sites totp stamp) (\<lambda>inner. Inr (base_plist site username ptcl stamp @
       [(''agrp'', lit AGRP_METADATA), (''desc'', lit ''Password Manager Metadata''), (''type'', PL_int METADATA_TYPE),
        (''labl'', PL_str (ascii ''Password Manager Metadata: '' @ label_for site username)),
        (''v_Data'', PL_data (pl_dumps (d_plib E) (PL_dict inner)))]))"

definition new_wifi_plist :: "ustr \<Rightarrow> ustr \<Rightarrow> int \<Rightarrow> item_error + pdict" where
  "new_wifi_plist ssid password stamp =
     bindE (opt It_value (utf8_encode password)) (\<lambda>pw. Inr
       [(''class'', lit ''genp''), (''agrp'', lit ''apple''), (''svce'', lit ''AirPort''), (''acct'', PL_str ssid), (''labl'', PL_str ssid),
        (''desc'', lit ''AirPort network password''), (''pdmn'', lit ''ck''), (''musr'', PL_data []), (''tomb'', PL_int 0),
        (''cdat'', PL_date stamp), (''mdat'', PL_date stamp), (''v_Data'', PL_data pw)])"

subsection \<open>What was written reads back\<close>

definition plib_bin :: "plib \<Rightarrow> bool" where
  "plib_bin P \<longleftrightarrow> plib_ok P \<and> (\<forall>p. startswith (pl_dumps P p) MAGIC)"

text \<open>Lower case does not bring back white space at the ends.\<close>

definition lower_keeps_strip :: "unidb \<Rightarrow> bool" where
  "lower_keeps_strip db \<longleftrightarrow> (\<forall>s. strip (ulower db (strip s)) = ulower db (strip s))"

lemma parse_meta_dumped:
  "plib_bin (d_plib E) \<Longrightarrow> plist_wf (PL_dict m) \<Longrightarrow> parse_meta E (Some (PL_data (pl_dumps (d_plib E) (PL_dict m)))) = Some m"
  by (simp add: plib_bin_def plib_ok_def parse_meta_def is_metadata_def)

lemma with_inner_get:
  "dget (with_inner E meta p stamp) ''v_Data'' = Some (PL_data (pl_dumps (d_plib E) p))"
  "dget (with_inner E meta p stamp) ''mdat'' = Some (PL_date stamp)"
  "k \<in> {''v_Data'', ''mdat''} \<or> dget (with_inner E meta p stamp) k = dget meta k"
  by (auto simp: with_inner_def)

lemma put_text_Inr:
  "put_text k s d = Inr d' \<Longrightarrow>
   (\<forall>j. j = k \<or> dget d' j = dget d j) \<and> (if s = [] then dget d' k = None else (\<exists>b. utf8_encode s = Some b \<and> dget d' k = Some (PL_data b)))"
  by (auto simp: put_text_def opt_def split: if_splits option.splits)

lemma put_notes: "put_text ''notes'' s d = Inr d' \<Longrightarrow> notes_of E d' = s"
  using put_text_Inr [of "''notes''" s d d']
  by (auto simp: notes_of_def decode_replace_def utf8_roundtrip split: if_splits)

lemma drop_rstripP: "xs = [] \<or> \<not> P (hd xs) \<Longrightarrow> rstripP P xs = [] \<or> \<not> P (hd (rstripP P xs))"
proof -
  assume h: "xs = [] \<or> \<not> P (hd xs)"
  obtain zs where "xs = rstripP P xs @ zs"
    unfolding rstripP_def by (metis rev_append rev_rev_ident takeWhile_dropWhile_id)
  then show ?thesis using h by (metis append_is_Nil_conv hd_append2)
qed

lemma strip_idem [simp]: "stripP P (stripP P s) = stripP P s"
proof -
  have "lstripP P s = [] \<or> \<not> P (hd (lstripP P s))" using hd_dropWhile [of P s] by (auto simp: lstripP_def)
  then have "stripP P s = [] \<or> \<not> P (hd (stripP P s))" unfolding stripP_def by (rule drop_rstripP)
  then have l: "lstripP P (stripP P s) = stripP P s" by (rule lstripP_id)
  have "rstripP P (rstripP P xs) = rstripP P xs" for xs by (simp add: rstripP_def)
  then show ?thesis using l by (simp add: stripP_def)
qed

lemma strip_id: "s \<noteq> [] \<Longrightarrow> \<not> py_isspace (hd s) \<Longrightarrow> \<not> py_isspace (last s) \<Longrightarrow> strip s = s"
  by (simp add: stripP_def lstripP_id rstripP_id)

lemma words_shape: "w \<in> set (words s) \<Longrightarrow> w \<noteq> [] \<and> (\<forall>c\<in>set w. \<not> py_isspace c)"
proof (induction s rule: words.induct)
  case (1 s)
  show ?case
  proof (cases "dropWhile py_isspace s = []")
    case True
    then show ?thesis using 1(2) by (subst (asm) words.simps) simp
  next
    case False
    then have h: "\<not> py_isspace (hd (dropWhile py_isspace s))" by (rule hd_dropWhile)
    have "w = takeWhile (\<lambda>c. \<not> py_isspace c) (dropWhile py_isspace s) \<or>
        w \<in> set (words (dropWhile (\<lambda>c. \<not> py_isspace c) (dropWhile py_isspace s)))"
      using 1(2) by (subst (asm) words.simps) (simp only: Let_def False if_False list.set insert_iff)
    then show ?thesis
    proof
      assume "w = takeWhile (\<lambda>c. \<not> py_isspace c) (dropWhile py_isspace s)"
      then show ?thesis using False h by (cases "dropWhile py_isspace s") (auto dest: set_takeWhileD)
    qed (use 1(1) [OF refl False] in blast)
  qed
qed

lemma join_ends: "ws \<noteq> [] \<Longrightarrow> \<forall>w\<in>set ws. w \<noteq> [] \<Longrightarrow> join sep ws \<noteq> [] \<and> hd (join sep ws) = hd (hd ws) \<and> last (join sep ws) = last (last ws)"
  by (induction sep ws rule: join.induct) (auto simp: hd_append)

lemma strip_squash: "strip (squash s) = squash s"
proof (cases "words s = []")
  case True
  then show ?thesis by (simp add: squash_def stripP_def lstripP_def rstripP_def)
next
  case False
  have w: "w \<noteq> [] \<and> \<not> py_isspace (hd w) \<and> \<not> py_isspace (last w)" if "w \<in> set (words s)" for w
    using words_shape [OF that] by (metis hd_in_set last_in_set)
  have "squash s \<noteq> [] \<and> hd (squash s) = hd (hd (words s)) \<and> last (squash s) = last (last (words s))"
    unfolding squash_def by (rule join_ends [OF False]) (use w in blast)
  then show ?thesis using w [of "hd (words s)"] w [of "last (words s)"] False by (intro strip_id) simp_all
qed

lemma put_title: "put_text ''title'' (squash s) d = Inr d' \<Longrightarrow> title_of d' = squash s"
  using put_text_Inr [of "''title''" "squash s" d d']
  by (auto simp: title_of_def utf8_roundtrip strip_squash split: if_splits)

definition clean_list :: "ustr list \<Rightarrow> bool" where
  "clean_list ss \<longleftrightarrow> distinct ss \<and> list_all (\<lambda>s. s \<noteq> [] \<and> strip s = s) ss"

lemma clean_list_add: "lower_keeps_strip db \<Longrightarrow> clean_list out \<Longrightarrow> clean_list (add_clean db out raw)"
proof -
  assume a: "lower_keeps_strip db" "clean_list out"
  have "strip (clean_site db raw) = clean_site db raw"
    using a(1) by (simp add: clean_site_def lower_keeps_strip_def Let_def)
  then show ?thesis using a(2) by (simp add: add_clean_def clean_list_def Let_def)
qed

lemma clean_sites_shape: "lower_keeps_strip db \<Longrightarrow> clean_list (clean_sites db ss)"
proof -
  assume l: "lower_keeps_strip db"
  have "clean_list out \<Longrightarrow> clean_list (foldl (add_clean db) out ss)" for out
    by (induction ss arbitrary: out) (simp_all add: clean_list_add [OF l])
  then show ?thesis by (simp add: clean_sites_def clean_list_def)
qed

lemma clean_list_filter: "clean_list ss \<Longrightarrow> clean_list (filter P ss)"
  by (simp add: clean_list_def list_all_iff)

lemma foldl_add_site:
  "clean_list (out @ ss) \<Longrightarrow> foldl add_site out (map (\<lambda>s. PL_dict [(''s'', PL_str s)]) ss) = out @ ss"
proof (induction ss arbitrary: out)
  case (Cons s ss)
  then have "add_site out (PL_dict [(''s'', PL_str s)]) = out @ [s]"
    by (simp add: add_site_def dget_def clean_list_def)
  then show ?case using Cons by simp
qed simp

lemma sites_read: "dget m ''s_as'' = Some (site_list ss) \<Longrightarrow> clean_list ss \<Longrightarrow> sites_of m = Some ss"
  using foldl_add_site [of "[]" ss]
  by (cases ss) (simp_all add: sites_of_def site_list_def or_else_def py_list_def)

lemma put_known_other: "j \<noteq> k \<Longrightarrow> dget (put_known E cfg k out) j = dget out j"
  by (simp add: put_known_def split: option.split)

lemma totp_plist_Inr:
  assumes "totp_plist E cfg stamp = Inr t"
  shows "\<exists>b d p a. b \<noteq> [] \<and> dget cfg ''secret'' = Some (PL_data b) \<and> dget t ''secret'' = Some (PL_data b) \<and>
    dget t ''digits'' = Some (PL_int d) \<and> dget t ''period'' = Some (PL_int p) \<and> dget t ''algorithm'' = Some (PL_int a)"
proof -
  obtain b where b: "dget cfg ''secret'' = Some (PL_data b)" "b \<noteq> []"
    using assms by (auto simp: totp_plist_def split: option.splits plist.splits if_splits)
  then obtain d p a where t: "t = fold (put_known E cfg) [''issuer'', ''accountName'', ''originalURL'']
      [(''secret'', PL_data b), (''digits'', PL_int d), (''period'', PL_int p), (''algorithm'', PL_int a), (''_initialDate'', PL_date stamp)]"
    using assms unfolding totp_plist_def b by (simp add: bindE_Inr_iff) blast
  have "dget t ''secret'' = Some (PL_data b)" "dget t ''digits'' = Some (PL_int d)" "dget t ''period'' = Some (PL_int p)"
      "dget t ''algorithm'' = Some (PL_int a)"
    unfolding t fold_simps by (simp_all add: put_known_other) (simp_all add: dget_def)
  then show ?thesis using b by blast
qed

lemma totp_read:
  assumes "totp_plist E cfg stamp = Inr t" and "dget m ''totp'' = Some (PL_dict t)"
  shows "\<exists>tc. totp_config E m = Some (Some tc) \<and> dget cfg ''secret'' = Some (tc_secret tc)"
proof -
  obtain b d p a where t: "b \<noteq> []" "dget cfg ''secret'' = Some (PL_data b)" "dget t ''secret'' = Some (PL_data b)"
    "dget t ''digits'' = Some (PL_int d)" "dget t ''period'' = Some (PL_int p)" "dget t ''algorithm'' = Some (PL_int a)"
    using totp_plist_Inr [OF assms(1)] by blast
  have "py_int E (or_else (Some (PL_int x)) (PL_int y)) = Some (if x = 0 then y else x)" for x y
    by (simp add: or_else_def py_int_def)
  then show ?thesis using t assms(2) by (simp add: totp_config_def)
qed

subsection \<open>An edit of the details\<close>

definition edited_keys :: "edits \<Rightarrow> string set" where
  "edited_keys e = (if ed_notes e = None \<and> ed_body e = None \<and> ed_tags e = None then {} else {''notes''}) \<union>
     (if ed_sites e = None then {} else {''s_as''}) \<union> (if ed_totp e = None then {} else {''totp''})"

lemma splice_notes_Inr:
  assumes "splice_notes E e inner = Inr i1"
  shows "(\<forall>k. k \<in> edited_keys e \<or> dget i1 k = dget inner k) \<and>
    (ed_body e = None \<longrightarrow> (\<forall>ts. ed_tags e = Some ts \<longrightarrow> (\<exists>t0. notes_of E i1 = replace_tags (d_db E) t0 ts)))"
proof (cases "ed_body e = None \<and> ed_tags e = None")
  case True
  then show ?thesis using assms by (simp add: splice_notes_def)
next
  case False
  then obtain t0 where t0: "put_text ''notes'' (case ed_body e of
        None \<Rightarrow> (case ed_tags e of None \<Rightarrow> t0 | Some ts \<Rightarrow> replace_tags (d_db E) t0 ts)
      | Some b \<Rightarrow> replace_body (d_db E) (case ed_tags e of None \<Rightarrow> t0 | Some ts \<Rightarrow> replace_tags (d_db E) t0 ts) (strip_nl b)) inner = Inr i1"
    using assms unfolding splice_notes_def if_not_P [OF False] bindE_Inr_iff Let_def by blast
  have "''notes'' \<in> edited_keys e" using False by (simp add: edited_keys_def)
  then have "\<forall>k. k \<in> edited_keys e \<or> dget i1 k = dget inner k" using put_text_Inr [OF t0, THEN conjunct1] by metis
  moreover have "notes_of E i1 = replace_tags (d_db E) t0 ts" if "ed_body e = None" "ed_tags e = Some ts" for ts
    using put_notes [OF t0] that by simp
  ultimately show ?thesis by blast
qed

lemma notes_step_Inr:
  assumes "(case ed_notes e of None \<Rightarrow> Inr i1 | Some n \<Rightarrow> put_text ''notes'' (strip_nl n) i1) = Inr i2"
  shows "(\<forall>k. k \<in> edited_keys e \<or> dget i2 k = dget i1 k) \<and> (\<forall>n. ed_notes e = Some n \<longrightarrow> notes_of E i2 = strip_nl n) \<and>
    (ed_notes e = None \<longrightarrow> i2 = i1)"
proof (cases "ed_notes e")
  case (Some n)
  then have "put_text ''notes'' (strip_nl n) i1 = Inr i2" "''notes'' \<in> edited_keys e" using assms by (simp_all add: edited_keys_def)
  then have "\<forall>k. k \<in> edited_keys e \<or> dget i2 k = dget i1 k" "notes_of E i2 = strip_nl n"
    using put_text_Inr [of "''notes''" "strip_nl n" i1 i2] put_notes [of "strip_nl n" i1 i2 E] by metis+
  then show ?thesis using Some by simp
qed (use assms in simp)

definition cleaned_sites :: "det_env \<Rightarrow> pdict \<Rightarrow> ustr list \<Rightarrow> ustr list" where
  "cleaned_sites E meta ss = filter (\<lambda>s. s \<noteq> primary_site E meta) (clean_sites (d_db E) ss)"

lemma edit_inner_Inr:
  assumes "edit_inner E meta e stamp inner = Inr inner'"
  shows "\<exists>i1 i2. splice_notes E e inner = Inr i1 \<and>
    (case ed_notes e of None \<Rightarrow> Inr i1 | Some n \<Rightarrow> put_text ''notes'' (strip_nl n) i1) = Inr i2 \<and>
    (\<forall>k. k \<in> {''s_as'', ''totp''} \<or> dget inner' k = dget i2 k) \<and>
    dget inner' ''s_as'' = (case ed_sites e of None \<Rightarrow> dget i2 ''s_as'' | Some ss \<Rightarrow> Some (site_list (cleaned_sites E meta ss))) \<and>
    (case ed_totp e of None \<Rightarrow> dget inner' ''totp'' = dget i2 ''totp''
     | Some cfg \<Rightarrow> if cfg = [] then dget inner' ''totp'' = None
         else \<exists>t. totp_plist E cfg stamp = Inr t \<and> dget inner' ''totp'' = Some (PL_dict t))"
proof -
  obtain i1 i2 where i: "splice_notes E e inner = Inr i1"
      "(case ed_notes e of None \<Rightarrow> Inr i1 | Some n \<Rightarrow> put_text ''notes'' (strip_nl n) i1) = Inr i2"
    using assms unfolding edit_inner_def by (auto simp: bindE_Inr_iff)
  let ?i3 = "case ed_sites e of None \<Rightarrow> i2 | Some ss \<Rightarrow> dset ''s_as'' (site_list (cleaned_sites E meta ss)) i2"
  have r: "(case ed_totp e of None \<Rightarrow> Inr ?i3 | Some cfg \<Rightarrow> if cfg = [] then Inr (ddel ''totp'' ?i3)
      else bindE (totp_plist E cfg stamp) (\<lambda>t. Inr (dset ''totp'' (PL_dict t) ?i3))) = Inr inner'"
    using assms unfolding edit_inner_def i bindE.simps Let_def cleaned_sites_def by simp
  have s: "dget ?i3 k = (if k = ''s_as'' then (case ed_sites e of None \<Rightarrow> dget i2 ''s_as'' | Some ss \<Rightarrow> Some (site_list (cleaned_sites E meta ss)))
      else dget i2 k)" for k by (simp split: option.split)
  show ?thesis
  proof (intro exI conjI)
    show "splice_notes E e inner = Inr i1" by (rule i)
    show "(case ed_notes e of None \<Rightarrow> Inr i1 | Some n \<Rightarrow> put_text ''notes'' (strip_nl n) i1) = Inr i2" by (rule i)
  qed (use r s in \<open>auto simp: bindE_Inr_iff split: option.splits if_splits\<close>)
qed


subsection \<open>Titles, histories and new entries\<close>

lemma title_edit_exact:
  assumes "set_title E meta name now = Inr out"
    and "dget meta ''v_Data'' = Some (PL_data b)" and "pl_loads (d_plib E) b = Some (PL_dict inner)"
  shows "\<exists>inner'. out = with_inner E meta (PL_dict inner') now \<and> title_of inner' = squash name \<and>
    (\<forall>k. k = ''title'' \<or> dget inner' k = dget inner k)"
proof -
  obtain inner' where i: "put_text ''title'' (squash name) inner = Inr inner'" "out = with_inner E meta (PL_dict inner') now"
    using assms by (auto simp: set_title_def blob_of_def load_inner_def bindE_Inr_iff)
  then show ?thesis using put_title [OF i(1)] put_text_Inr [OF i(1), THEN conjunct1] by metis
qed

lemma new_details_read_back:
  assumes "new_inner E site title note sites totp stamp = Inr inner" and "lower_keeps_strip (d_db E)"
  shows "title_of inner = squash title \<and> notes_of E inner = (if strip note = [] then [] else strip_nl note) \<and>
    sites_of inner = Some (filter (\<lambda>s. s \<noteq> site) (clean_sites (d_db E) sites))"
proof -
  let ?ss = "site_list (filter (\<lambda>s. s \<noteq> site) (clean_sites (d_db E) sites))"
  let ?i0 = "[(''ctxt'', PL_dict [([], PL_dict [(''lUsed'', PL_date stamp)])]), (''s_as'', ?ss)]"
  obtain i1 i2 where i: "(if squash title = [] then Inr ?i0 else put_text ''title'' (squash title) ?i0) = Inr i1"
      "(if strip note = [] then Inr i1 else bindE (opt It_value (utf8_encode (strip_nl note))) (\<lambda>b. Inr (dset ''notes'' (PL_data b) i1))) = Inr i2"
      "(case totp of Some cfg \<Rightarrow> if cfg = [] then Inr i2 else bindE (totp_plist E cfg stamp) (\<lambda>t. Inr (dset ''totp'' (PL_dict t) i2))
        | None \<Rightarrow> Inr i2) = Inr inner"
    using assms(1) unfolding new_inner_def Let_def bindE_Inr_iff by blast
  have d0: "dget ?i0 ''s_as'' = Some ?ss" "dget ?i0 ''title'' = None" "dget ?i0 ''notes'' = None" by (simp_all add: dget_def)
  have t: "title_of i1 = squash title" "dget i1 ''s_as'' = Some ?ss" "dget i1 ''notes'' = None"
    using i(1) d0 put_title [of title ?i0 i1] put_text_Inr [of "''title''" "squash title" ?i0 i1, THEN conjunct1, THEN spec, of "''s_as''"]
      put_text_Inr [of "''title''" "squash title" ?i0 i1, THEN conjunct1, THEN spec, of "''notes''"]
    by (auto simp: title_of_def split: if_splits)
  have n: "notes_of E i2 = (if strip note = [] then [] else strip_nl note)" "dget i2 ''s_as'' = Some ?ss" "dget i2 ''title'' = dget i1 ''title''"
    using i(2) t by (auto simp: bindE_Inr_iff opt_def notes_of_def decode_replace_def utf8_roundtrip split: if_splits option.splits)
  have "k = ''totp'' \<or> dget inner k = dget i2 k" for k
    using i(3) by (auto simp: bindE_Inr_iff split: option.splits if_splits)
  from this [of "''title''"] this [of "''notes''"] this [of "''s_as''"]
  have "dget inner ''title'' = dget i2 ''title''" "dget inner ''notes'' = dget i2 ''notes''" "dget inner ''s_as'' = dget i2 ''s_as''"
    by simp_all
  then show ?thesis
    using t n sites_read [OF _ clean_list_filter [OF clean_sites_shape [OF assms(2)]], of inner]
    unfolding title_of_def notes_of_def by metis
qed

lemma history_entry_row: "history_entry E hist i new stamp = Inr p \<Longrightarrow> history_row E p = [(d_local E stamp, PL_str new)]"
  by (auto simp: history_entry_def bindE_Inr_iff history_row_def dget_def split: option.splits)

lemma history_rows:
  "password_history E m = Some rows \<longleftrightarrow> (\<exists>hs. py_list (or_else (dget m ''s_hi'') (PL_list [])) = Some hs \<and>
     rows = rev (sort_key fst (rev (concat (map (history_row E) hs)))))"
  by (auto simp: password_history_def)

lemma newest_first_sorted: "sorted_wrt (\<lambda>a b. fst b \<le> fst a) (rev (sort_key fst (xs :: (real \<times> plist) list)))"
proof -
  have "sorted_wrt (\<lambda>a b. fst a \<le> fst b) (sort_key fst xs)" using sorted_sort_key [of fst xs] by (simp add: sorted_map)
  then show ?thesis by (simp add: sorted_wrt_rev)
qed

text \<open>
  The history gains the new password. After a password change the details record shows the new password in its
  history, dated now, and every password it showed before, newest first; the rest of the blob and of
  the record stays.
\<close>

theorem history_gains_password:
  assumes "plib_bin (d_plib E)" and "set_password_history E meta new now newest_first i = Inr out"
    and "dget meta ''v_Data'' = Some (PL_data b)" and "pl_loads (d_plib E) b = Some (PL_dict inner)"
  shows "(\<forall>k. k \<in> {''v_Data'', ''mdat''} \<or> dget out k = dget meta k) \<and>
    (\<exists>inner' old rows. dget out ''v_Data'' = Some (PL_data (pl_dumps (d_plib E) (PL_dict inner'))) \<and>
      (plist_wf (PL_dict inner') \<longrightarrow> parse_meta E (dget out ''v_Data'') = Some inner') \<and>
      (\<forall>k. k = ''s_hi'' \<or> dget inner' k = dget inner k) \<and>
      password_history E inner = Some old \<and> password_history E inner' = Some rows \<and>
      mset rows = add_mset (d_local E now, PL_str new) (mset old) \<and> sorted_wrt (\<lambda>a b. fst b \<le> fst a) rows)"
proof -
  obtain hist entry inner' where h: "py_list (or_else (dget inner ''s_hi'') (PL_list [])) = Some hist"
      "history_entry E hist i new now = Inr entry"
      "inner' = dset ''s_hi'' (PL_list (if newest_first then entry # hist else hist @ [entry])) inner"
      "out = with_inner E meta (PL_dict inner') now"
    using assms(2)
    by (auto simp: set_password_history_def blob_of_def load_inner_def assms(3,4) history_inner_def bindE_Inr_iff opt_def split: option.splits)
  let ?rows = "\<lambda>hs. rev (sort_key fst (rev (concat (map (history_row E) hs))))"
  let ?new = "if newest_first then entry # hist else hist @ [entry]"
  have "py_list (or_else (dget inner' ''s_hi'') (PL_list [])) = Some ?new" by (simp add: h(3) or_else_def py_list_def)
  then have n: "password_history E inner' = Some (?rows ?new)" unfolding history_rows by blast
  have o: "password_history E inner = Some (?rows hist)" using h(1) unfolding history_rows by blast
  have m: "mset (?rows ?new) = add_mset (d_local E now, PL_str new) (mset (?rows hist))"
    by (simp add: history_entry_row [OF h(2)])
  show ?thesis
  proof (rule conjI, intro allI)
    show "k \<in> {''v_Data'', ''mdat''} \<or> dget out k = dget meta k" for k unfolding h(4) by (rule with_inner_get)
    show "\<exists>inner' old rows. dget out ''v_Data'' = Some (PL_data (pl_dumps (d_plib E) (PL_dict inner'))) \<and>
      (plist_wf (PL_dict inner') \<longrightarrow> parse_meta E (dget out ''v_Data'') = Some inner') \<and>
      (\<forall>k. k = ''s_hi'' \<or> dget inner' k = dget inner k) \<and>
      password_history E inner = Some old \<and> password_history E inner' = Some rows \<and>
      mset rows = add_mset (d_local E now, PL_str new) (mset old) \<and> sorted_wrt (\<lambda>a b. fst b \<le> fst a) rows"
      unfolding h(4) with_inner_get(1)
      by (intro exI [of _ inner'] exI [of _ "?rows hist"] exI [of _ "?rows ?new"] conjI impI allI;
          (rule refl | erule parse_meta_dumped [OF assms(1)] | rule n | rule o | rule m | rule newest_first_sorted | simp add: h(3)))
  qed
qed

subsection \<open>Concrete edits\<close>

definition magic_plib :: plib where
  "magic_plib = \<lparr>pl_loads = (\<lambda>b. pl_loads coded_plib (drop 8 b)), pl_dumps = (\<lambda>p. MAGIC @ pl_dumps coded_plib p)\<rparr>"

lemma length_magic [simp]: "length MAGIC = 8"
  by (simp add: MAGIC_def utf8_of_def ascii_def)

lemma magic_plib_loads: "pl_loads magic_plib (pl_dumps magic_plib p) = Some p"
  by (simp add: magic_plib_def coded_plib_loads)

lemma magic_plib_bin: "plib_bin magic_plib"
  by (simp add: plib_bin_def plib_ok_def magic_plib_loads) (simp add: magic_plib_def startswith_iff)

definition example_det :: det_env where
  "example_det = \<lparr>d_plib = magic_plib, d_db = ascii_db, d_replace = (\<lambda>b. []), d_str = (\<lambda>p. []), d_int = (\<lambda>p. None),
     d_upper = (\<lambda>s. s), d_local = (\<lambda>t. of_int t), d_real = (\<lambda>x. 0)\<rparr>"

lemma ascii_lower_strip: "lower_keeps_strip ascii_db"
proof -
  have sp: "py_isspace (ascii_lower_char c) = py_isspace c" for c
    by (auto simp: py_isspace_def ascii_lower_char_def)
  have "stripP py_isspace (map ascii_lower_char s) = map ascii_lower_char (stripP py_isspace s)" for s
    by (simp add: stripP_def lstripP_def rstripP_def dropWhile_map comp_def sp rev_map)
  then show ?thesis by (simp add: lower_keeps_strip_def ascii_db_def ascii_lower_def)
qed

definition example_inner :: pdict where
  "example_inner = [(''s_hi'', PL_list [PL_dict [(''p'', PL_str (ascii ''old''))]]), (''title'', PL_data [65])]"

definition example_details :: pdict where
  "example_details = [(''acct'', PL_str (ascii ''ann'')), (''v_Data'', PL_data (pl_dumps magic_plib (PL_dict example_inner)))]"

lemma example_blob:
  "dget example_details ''v_Data'' = Some (PL_data (pl_dumps magic_plib (PL_dict example_inner)))"
  "pl_loads (d_plib example_det) (pl_dumps magic_plib (PL_dict example_inner)) = Some (PL_dict example_inner)"
  by (simp_all add: example_details_def dget_def example_det_def magic_plib_loads)

lemma example_edit:
  "\<exists>out. edit_details example_det example_details \<lparr>ed_notes = Some (ascii ''hi''), ed_sites = None, ed_totp = None, ed_body = None, ed_tags = None\<rparr> 1 1 = Inr out"
  using example_blob
  by (simp add: edit_details_def blob_of_def opt_def edit_inner_def splice_notes_def put_text_def ascii_def stripP_def
      lstripP_def rstripP_def utf8_encode_def scalar_def)


lemma example_history:
  "\<exists>out. set_password_history example_det example_details (ascii ''new'') 1 True [97] = Inr out"
  using example_blob
  by (simp add: set_password_history_def blob_of_def load_inner_def history_inner_def example_inner_def dget_def or_else_def
      py_list_def opt_def history_entry_def history_id_def)

theorem history_gains_password_witness:
  "\<exists>out inner' rows. set_password_history example_det example_details (ascii ''new'') 1 True [97] = Inr out \<and>
    dget out ''v_Data'' = Some (PL_data (pl_dumps magic_plib (PL_dict inner'))) \<and> password_history example_det inner' = Some rows \<and>
    mset rows = {#(1, PL_str (ascii ''new'')), (0, PL_str (ascii ''old''))#}"
proof -
  obtain out where o: "set_password_history example_det example_details (ascii ''new'') 1 True [97] = Inr out"
    using example_history by blast
  have p: "plib_bin (d_plib example_det)" by (simp add: example_det_def magic_plib_bin)
  have old: "password_history example_det example_inner = Some [(0, PL_str (ascii ''old''))]"
    by (simp add: password_history_def example_inner_def dget_def or_else_def py_list_def history_row_def)
  obtain inner' rows where "dget out ''v_Data'' = Some (PL_data (pl_dumps (d_plib example_det) (PL_dict inner')))"
      "password_history example_det inner' = Some rows"
      "mset rows = add_mset (d_local example_det 1, PL_str (ascii ''new'')) (mset [(0, PL_str (ascii ''old''))])"
    using history_gains_password [OF p o example_blob] old by auto
  then show ?thesis using o by (intro exI [of _ out] exI [of _ inner'] exI [of _ rows]) (simp add: example_det_def)
qed

end
