(* ===== verification/Credentials.thy ===== *)
theory Credentials
  imports Details "HOL-Library.List_Lexorder" "HOL-Library.Product_Lexorder"
begin

text \<open>
  \<^verbatim>\<open>backend/icp/vault/host.py\<close>: what a decrypted keychain becomes. \<^verbatim>\<open>CredentialStore.from_items\<close> turns the property
  lists of the items into logins and passkey rows in three passes: the details records are indexed,
  the passwords become logins, and the passkeys mark a login or get a row of their own.
\<close>

record cred =
  cr_domain :: ustr
  cr_username :: ustr
  cr_password :: ustr
  cr_title :: ustr
  cr_mdat :: real
  cr_totp :: "totp_conf option"
  cr_notes :: ustr
  cr_history :: "(real \<times> plist) list"
  cr_apple_title :: ustr
  cr_aliases :: "ustr list"
  cr_sites :: "ustr list"
  cr_deleted :: bool
  cr_is_passkey :: bool
  cr_has_passkey :: bool

subsection \<open>Dates and hosts\<close>

definition APPLE_EPOCH :: int where
  "APPLE_EPOCH = 978307200"

text \<open>A number that is not finite counts as no date; \<open>d_real\<close> is the value of a double.\<close>

definition number_unix :: "real \<Rightarrow> real" where
  "number_unix x = (if x > 0 then (if x < 1000000000 then x + of_int APPLE_EPOCH else x) else 0)"

definition to_unix :: "det_env \<Rightarrow> plist option \<Rightarrow> real" where
  "to_unix E v = (case v of
      Some (PL_date t) \<Rightarrow> d_local E t
    | Some (PL_int n) \<Rightarrow> number_unix (of_int n)
    | Some (PL_bool b) \<Rightarrow> number_unix (if b then 1 else 0)
    | Some (PL_real x) \<Rightarrow> number_unix (d_real E x)
    | _ \<Rightarrow> 0)"

definition before_char :: "nat \<Rightarrow> ustr \<Rightarrow> ustr" where
  "before_char c s = takeWhile (\<lambda>x. x \<noteq> c) s"

definition drop_www :: "ustr \<Rightarrow> ustr" where
  "drop_www s = (if startswith s (ascii ''www.'') then drop 4 s else s)"

definition normalize_host :: "unidb \<Rightarrow> ustr \<Rightarrow> ustr" where
  "normalize_host db value =
     (let v = ulower db (strip value);
          v1 = (if contains v (ascii ''://'') then after_scheme v else v) in
      drop_www (before_char 58 (last (split_on 64 (before_char 63 (before_char 47 v1))))))"

definition domains_match :: "unidb \<Rightarrow> ustr \<Rightarrow> ustr \<Rightarrow> bool" where
  "domains_match db page stored =
     (let p = normalize_host db page; s = normalize_host db stored in
      if p = [] \<or> s = [] then False else p = s \<or> endswith p (46 # s) \<or> endswith s (46 # p))"

text \<open>The aliases that have a domain, with it.\<close>

definition match_aliases :: "unidb \<Rightarrow> ustr \<Rightarrow> ('a \<Rightarrow> ustr) \<Rightarrow> 'a list \<Rightarrow> 'a list" where
  "match_aliases db page host_of xs = filter (\<lambda>a. host_of a \<noteq> [] \<and> domains_match db page (host_of a)) xs"

definition is_credential :: "unidb \<Rightarrow> ustr \<Rightarrow> ustr \<Rightarrow> bool" where
  "is_credential db domain title \<longleftrightarrow> list_all (\<lambda>tag. let t = ulower db (strip tag) in
     \<not> startswith t (ascii ''pcs '') \<and> \<not> startswith t (ascii ''pcs-'') \<and> \<not> startswith t (ascii ''website metadata'') \<and>
     \<not> contains t (ascii ''com.apple.'')) [domain, title]"

definition GENERIC_NAME_TOKENS :: "string list" where
  "GENERIC_NAME_TOKENS = [''account'', ''accounts'', ''admin'', ''app'', ''dashboard'', ''login'', ''password'', ''passwords'',
     ''signin'', ''sign'', ''web'', ''www'']"

definition token_char :: "nat \<Rightarrow> bool" where
  "token_char c \<longleftrightarrow> 97 \<le> c \<and> c \<le> 122 \<or> 48 \<le> c \<and> c \<le> 57"

text \<open>\<^verbatim>\<open>re.findall\<close> of the maximal runs of token characters.\<close>

definition name_tokens :: "ustr \<Rightarrow> ustr list" where
  "name_tokens s = filter (\<lambda>t. t \<noteq> []) (split_on 32 (map (\<lambda>c. if token_char c then c else 32) s))"

definition name_matches_host :: "unidb \<Rightarrow> ustr \<Rightarrow> ustr \<Rightarrow> bool" where
  "name_matches_host db page name =
     (let labels = filter (\<lambda>l. l \<noteq> []) (split_on 46 (normalize_host db page));
          tokens = filter (\<lambda>t. length t \<ge> 4 \<and> t \<notin> ascii ` set GENERIC_NAME_TOKENS) (name_tokens (ulower db name)) in
      labels \<noteq> [] \<and> list_ex (\<lambda>l. l \<in> set tokens) labels)"

subsection \<open>The kinds of item\<close>

definition RECENTLY_DELETED_SUFFIX :: string where "RECENTLY_DELETED_SUFFIX = ''-recently-deleted''"
definition WEBAUTHN_AGRP :: string where "WEBAUTHN_AGRP = ''com.apple.webkit.webauthn''"

definition text_at :: "det_env \<Rightarrow> pdict \<Rightarrow> string \<Rightarrow> ustr" where
  "text_at E it k = py_str E (or_else (dget it k) (PL_str []))"

definition agrp_of :: "det_env \<Rightarrow> pdict \<Rightarrow> ustr" where
  "agrp_of E it = text_at E it ''agrp''"

definition is_recently_deleted :: "det_env \<Rightarrow> pdict \<Rightarrow> bool" where
  "is_recently_deleted E it \<longleftrightarrow> endswith (agrp_of E it) (ascii RECENTLY_DELETED_SUFFIX)"

definition remove_suffix :: "ustr \<Rightarrow> ustr \<Rightarrow> ustr" where
  "remove_suffix s t = (if endswith s t then take (length s - length t) s else s)"

definition is_key :: "det_env \<Rightarrow> pdict \<Rightarrow> bool" where
  "is_key E it \<longleftrightarrow> text_at E it ''class'' = ascii ''keys''"

definition is_passkey :: "det_env \<Rightarrow> pdict \<Rightarrow> bool" where
  "is_passkey E it \<longleftrightarrow> is_key E it \<and>
     ulower (d_db E) (remove_suffix (agrp_of E it) (ascii RECENTLY_DELETED_SUFFIX)) = ascii WEBAUTHN_AGRP"

subsection \<open>The shape of the items\<close>

definition name_char :: "nat \<Rightarrow> bool" where
  "name_char c \<longleftrightarrow> token_char c \<or> 65 \<le> c \<and> c \<le> 90 \<or> c \<in> {95, 46, 45}"

text \<open>The pattern ends in \<^verbatim>\<open>$\<close>, which also stands before a final newline.\<close>

definition safe_name :: "ustr \<Rightarrow> ustr" where
  "safe_name s =
     (let t = (if s \<noteq> [] \<and> last s = 10 then butlast s else s) in
      if 1 \<le> length t \<and> length t \<le> 128 \<and> list_all name_char t then s else ascii ''?'')"

record shape_slot =
  sh_count :: nat
  sh_keys :: "ustr set"
  sh_inner :: "ustr set"

definition strip_item :: "det_env \<Rightarrow> pdict \<Rightarrow> pdict" where
  "strip_item E it = (if is_key E it then ddel ''v_Data'' it else it)"

definition dict_names :: "pdict \<Rightarrow> ustr set" where
  "dict_names it = (\<lambda>(k, _). safe_name (key_str k)) ` set it"

definition or_question :: "ustr \<Rightarrow> ustr" where
  "or_question s = (if s = [] then [] else safe_name s)"

definition shape_step :: "det_env \<Rightarrow> ((ustr \<times> ustr) \<times> shape_slot) list \<Rightarrow> pdict \<Rightarrow> ((ustr \<times> ustr) \<times> shape_slot) list" where
  "shape_step E shape it =
     (let key = (or_question (text_at E it ''class''), or_question (agrp_of E it));
          slot = (case dget shape key of None \<Rightarrow> \<lparr>sh_count = 0, sh_keys = {}, sh_inner = {}\<rparr> | Some s \<Rightarrow> s);
          inner = (case parse_meta E (dget (strip_item E it) ''v_Data'') of None \<Rightarrow> {} | Some m \<Rightarrow> dict_names m) in
      dset key \<lparr>sh_count = sh_count slot + 1, sh_keys = sh_keys slot \<union> dict_names it, sh_inner = sh_inner slot \<union> inner\<rparr> shape)"

definition dicts_of :: "plist list \<Rightarrow> pdict list" where
  "dicts_of items = List.map_filter (\<lambda>p. case p of PL_dict d \<Rightarrow> Some d | _ \<Rightarrow> None) items"

definition strip_and_shape :: "det_env \<Rightarrow> plist list \<Rightarrow> pdict list \<times> ((ustr \<times> ustr) \<times> shape_slot) list" where
  "strip_and_shape E items = (map (strip_item E) (dicts_of items), foldl (shape_step E) [] (dicts_of items))"

text \<open>Whether a blob holds a passkey's identifier, five levels deep.\<close>

fun holds :: "nat \<Rightarrow> bytes \<Rightarrow> plist \<Rightarrow> bool" where
  "holds d needle (PL_data b) = (d \<le> 4 \<and> b = needle)"
| "holds d needle (PL_dict kv) = (d \<le> 4 \<and> list_ex (\<lambda>(k, v). holds (d + 1) needle v) kv)"
| "holds d needle (PL_list xs) = (d \<le> 4 \<and> list_ex (holds (d + 1) needle) xs)"
| "holds d needle _ = False"

subsection \<open>The details records\<close>

definition item_domain :: "pdict \<Rightarrow> plist" where
  "item_domain it = or_else (dget it ''srvr'') (or_else (dget it ''server'') (or_else (dget it ''domain'')
     (or_else (dget it ''url'') (or_else (dget it ''svce'') (PL_str [])))))"

definition item_user :: "pdict \<Rightarrow> plist" where
  "item_user it = or_else (dget it ''acct'') (or_else (dget it ''username'') (or_else (dget it ''user'') (PL_str [])))"

type_synonym rkey = "bool \<times> ustr \<times> ustr"

definition rkey_of :: "det_env \<Rightarrow> pdict \<Rightarrow> rkey" where
  "rkey_of E it = (is_recently_deleted E it, py_str E (item_domain it), py_str E (item_user it))"

record extra =
  x_sites :: "ustr list"
  x_title :: ustr
  x_totp :: "totp_conf option"
  x_notes :: ustr
  x_history :: "(real \<times> plist) list"

definition no_extra :: extra where
  "no_extra = \<lparr>x_sites = [], x_title = [], x_totp = None, x_notes = [], x_history = []\<rparr>"

record index =
  ix_extras :: "(rkey \<times> extra) list"
  ix_stubs :: "((bool \<times> ustr) \<times> ustr list) list"
  ix_sidecars :: "(bool \<times> ustr \<times> ustr \<times> pdict) list"

definition no_index :: index where
  "no_index = \<lparr>ix_extras = [], ix_stubs = [], ix_sidecars = []\<rparr>"

definition extra_at :: "index \<Rightarrow> rkey \<Rightarrow> extra" where
  "extra_at ix k = (case dget (ix_extras ix) k of None \<Rightarrow> no_extra | Some x \<Rightarrow> x)"

definition stubs_at :: "index \<Rightarrow> bool \<times> ustr \<Rightarrow> ustr list" where
  "stubs_at ix k = (case dget (ix_stubs ix) k of None \<Rightarrow> [] | Some ds \<Rightarrow> ds)"

text \<open>What is already known of an account is not replaced.\<close>

definition first_of :: "'a list \<Rightarrow> 'a list \<Rightarrow> 'a list" where
  "first_of old new = (if old = [] then new else old)"

definition merge_extra :: "extra \<Rightarrow> extra \<Rightarrow> extra" where
  "merge_extra old new = \<lparr>x_sites = first_of (x_sites old) (x_sites new), x_title = first_of (x_title old) (x_title new),
     x_totp = (case x_totp old of None \<Rightarrow> x_totp new | Some t \<Rightarrow> Some t), x_notes = first_of (x_notes old) (x_notes new),
     x_history = first_of (x_history old) (x_history new)\<rparr>"

definition read_extra :: "det_env \<Rightarrow> pdict \<Rightarrow> extra option" where
  "read_extra E m = Option.bind (totp_config E m) (\<lambda>cfg. Option.bind (password_history E m) (\<lambda>h.
     map_option (\<lambda>ss. \<lparr>x_sites = ss, x_title = title_of m, x_totp = cfg, x_notes = notes_of E m, x_history = h\<rparr>) (sites_of m)))"

definition add_stub :: "det_env \<Rightarrow> rkey list \<Rightarrow> rkey \<Rightarrow> pdict \<Rightarrow> ((bool \<times> ustr) \<times> ustr list) list \<Rightarrow> ((bool \<times> ustr) \<times> ustr list) list" where
  "add_stub E taken rk it stubs = (case rk of (del, domain, user) \<Rightarrow>
     if rk \<notin> set taken \<and> domain \<noteq> [] \<and> user \<noteq> [] \<and> is_credential (d_db E) domain (text_at E it ''labl'')
     then dset (del, user) (List.insert domain (case dget stubs (del, user) of None \<Rightarrow> [] | Some ds \<Rightarrow> ds)) stubs
     else stubs)"

definition index_item :: "det_env \<Rightarrow> rkey list \<Rightarrow> pdict \<Rightarrow> index \<Rightarrow> index option" where
  "index_item E taken it ix = (case parse_meta E (dget it ''v_Data'') of
      None \<Rightarrow> Some ix
    | Some m \<Rightarrow> (let rk = rkey_of E it in map_option (\<lambda>x. ix\<lparr>
        ix_extras := (if x = no_extra then ix_extras ix else dset rk (merge_extra (extra_at ix rk) x) (ix_extras ix)),
        ix_stubs := add_stub E taken rk it (ix_stubs ix),
        ix_sidecars := ix_sidecars ix @ [(fst rk, fst (snd rk), snd (snd rk), m)]\<rparr>) (read_extra E m)))"

fun index_items :: "det_env \<Rightarrow> rkey list \<Rightarrow> pdict list \<Rightarrow> index \<Rightarrow> index option" where
  "index_items E taken [] ix = Some ix"
| "index_items E taken (it # its) ix = Option.bind (index_item E taken it ix) (index_items E taken its)"

definition password_keys :: "det_env \<Rightarrow> pdict list \<Rightarrow> rkey list" where
  "password_keys E rest = map (rkey_of E) (filter (\<lambda>it. \<not> is_metadata (dget it ''v_Data'')) rest)"

subsection \<open>Logins\<close>

definition item_password :: "det_env \<Rightarrow> pdict \<Rightarrow> ustr" where
  "item_password E it = (case or_else (dget it ''v_Data'') (or_else (dget it ''password'') (PL_data [])) of
      PL_data b \<Rightarrow> decode_replace E b | p \<Rightarrow> py_str E p)"

definition item_mdat :: "det_env \<Rightarrow> pdict \<Rightarrow> real" where
  "item_mdat E it = to_unix E (case dget it ''mdat'' of Some v \<Rightarrow> if pl_truthy v then Some v else dget it ''cdat''
     | None \<Rightarrow> dget it ''cdat'')"

definition login_of :: "det_env \<Rightarrow> index \<Rightarrow> pdict \<Rightarrow> cred option" where
  "login_of E ix it =
     (if is_metadata (dget it ''v_Data'') \<or> is_key E it then None
      else (let del = is_recently_deleted E it; dom = item_domain it; user = item_user it; pw = item_password E it;
            title = py_str E (or_else (dget it ''labl'') dom) in
        if \<not> is_credential (d_db E) (py_str E dom) title then None
        else if \<not> pl_truthy dom \<and> \<not> pl_truthy user \<or> \<not> pl_truthy user \<and> pw = [] then None
        else (let x = extra_at ix (rkey_of E it) in
          Some \<lparr>cr_domain = py_str E dom, cr_username = py_str E user, cr_password = pw, cr_title = title,
            cr_mdat = item_mdat E it, cr_totp = x_totp x, cr_notes = x_notes x, cr_history = x_history x,
            cr_apple_title = x_title x,
            cr_aliases = sort (filter (\<lambda>d. \<not> domains_match (d_db E) d (py_str E dom)) (stubs_at ix (del, py_str E user))),
            cr_sites = x_sites x, cr_deleted = del, cr_is_passkey = False, cr_has_passkey = False\<rparr>)))"

subsection \<open>Passkeys\<close>

definition same_host :: "det_env \<Rightarrow> ustr \<Rightarrow> ustr \<Rightarrow> bool" where
  "same_host E a b \<longleftrightarrow> normalize_host (d_db E) a = normalize_host (d_db E) b"

text \<open>The relying party, the account and the key of the details record that names it.\<close>

definition passkey_account ::
  "det_env \<Rightarrow> pdict \<Rightarrow> (bool \<times> ustr \<times> ustr \<times> pdict) list \<Rightarrow> bool \<Rightarrow> ustr \<times> ustr \<times> (ustr \<times> ustr) option" where
  "passkey_account E it sidecars del =
     (let rp = py_str E (or_else (dget it ''labl'') (or_else (dget it ''srvr'') (PL_str [])));
          user = text_at E it ''acct''; same = map snd (filter (\<lambda>sc. fst sc = del) sidecars);
          held = (case dget it ''klbl'' of
            Some (PL_data cid) \<Rightarrow> if length cid \<ge> 16
              then find (\<lambda>(d, u, m). (rp = [] \<or> same_host E d rp) \<and> holds 0 cid (PL_dict m)) same else None
          | _ \<Rightarrow> None) in
      case held of
        Some (d, u, m) \<Rightarrow> (if rp = [] then d else rp, if user = [] then u else user, Some (d, u))
      | None \<Rightarrow>
          if rp = [] then ([], [], None)
          else (let near = filter (\<lambda>(d, u, m). u \<noteq> [] \<and> same_host E d rp) same in
            if user \<noteq> [] then (rp, user, map_option (\<lambda>(d, u, m). (d, user)) (find (\<lambda>(d, u, m). u = user) near))
            else (case remdups (map (\<lambda>(d, u, m). u) near) of
                [u] \<Rightarrow> (rp, u, Some (fst (hd near), u)) | _ \<Rightarrow> (rp, [], None))))"

definition passkey_hit :: "det_env \<Rightarrow> bool \<Rightarrow> ustr \<Rightarrow> ustr \<Rightarrow> cred \<Rightarrow> bool" where
  "passkey_hit E del rp user c \<longleftrightarrow> \<not> cr_is_passkey c \<and> cr_deleted c = del \<and> cr_username c = user \<and> same_host E (cr_domain c) rp"

definition passkey_row :: "det_env \<Rightarrow> pdict \<Rightarrow> extra \<Rightarrow> bool \<Rightarrow> ustr \<Rightarrow> ustr \<Rightarrow> cred" where
  "passkey_row E it x del rp user =
     \<lparr>cr_domain = rp, cr_username = user, cr_password = [], cr_title = rp, cr_mdat = item_mdat E it, cr_totp = None,
       cr_notes = x_notes x, cr_history = [], cr_apple_title = x_title x, cr_aliases = [], cr_sites = x_sites x,
       cr_deleted = del, cr_is_passkey = True, cr_has_passkey = True\<rparr>"

definition add_passkey :: "det_env \<Rightarrow> index \<Rightarrow> cred list \<Rightarrow> pdict \<Rightarrow> cred list" where
  "add_passkey E ix creds it =
     (let del = is_recently_deleted E it; (rp, user, sidecar) = passkey_account E it (ix_sidecars ix) del in
      if rp = [] \<or> \<not> is_credential (d_db E) rp rp then creds
      else if list_ex (passkey_hit E del rp user) creds
      then map (\<lambda>c. if passkey_hit E del rp user c then c\<lparr>cr_has_passkey := True\<rparr> else c) creds
      else creds @ [passkey_row E it (case sidecar of None \<Rightarrow> no_extra | Some (d, u) \<Rightarrow> extra_at ix (del, d, u)) del rp user])"

text \<open>\<^verbatim>\<open>from_items\<close>; the outer option is an exception of one of the readers of a details blob.\<close>

definition credentials_of :: "det_env \<Rightarrow> pdict list \<Rightarrow> cred list option" where
  "credentials_of E its =
     (let rest = filter (\<lambda>it. \<not> is_passkey E it) its in
      map_option (\<lambda>ix. foldl (add_passkey E ix) (List.map_filter (login_of E ix) rest) (filter (is_passkey E) its))
        (index_items E (password_keys E rest) rest no_index))"

definition from_items :: "det_env \<Rightarrow> plist list \<Rightarrow> (cred list \<times> ((ustr \<times> ustr) \<times> shape_slot) list) option" where
  "from_items E items = (let (its, shape) = strip_and_shape E items in map_option (\<lambda>cs. (cs, shape)) (credentials_of E its))"

subsection \<open>Matching a page\<close>

definition match_rank_of :: "unidb \<Rightarrow> ustr \<Rightarrow> cred \<Rightarrow> nat option" where
  "match_rank_of db page c =
     (if \<not> is_credential db (cr_domain c) (cr_title c) then None
      else if domains_match db page (cr_domain c)
      then Some (if normalize_host db page = normalize_host db (cr_domain c) then 0 else 1)
      else if 46 \<notin> set (normalize_host db (cr_domain c)) \<and>
          name_matches_host db page (if cr_title c = [] then cr_domain c else cr_title c) then Some 2
      else if list_ex (domains_match db page) (cr_aliases c) then Some 3 else None)"

definition match_creds :: "unidb \<Rightarrow> ustr \<Rightarrow> cred list \<Rightarrow> cred list" where
  "match_creds db page cs =
     map snd (sort_key (\<lambda>(r, c). (r, - cr_mdat c, cr_title c, cr_username c))
       (List.map_filter (\<lambda>c. if cr_deleted c \<or> cr_is_passkey c then None else map_option (\<lambda>r. (r, c)) (match_rank_of db page c)) cs))"

text \<open>\<^verbatim>\<open>find\<close>: the newest live login of an account, the first among equally new ones.\<close>

definition find_login :: "cred list \<Rightarrow> ustr \<Rightarrow> ustr \<Rightarrow> cred option" where
  "find_login cs domain user =
     (case filter (\<lambda>c. cr_domain c = domain \<and> cr_username c = user \<and> \<not> cr_deleted c \<and> \<not> cr_is_passkey c) cs of
        [] \<Rightarrow> None
      | h # hs \<Rightarrow> Some (foldl (\<lambda>best c. if cr_mdat best < cr_mdat c then c else best) h hs))"

subsection \<open>A passkey's private key is never read\<close>

text \<open>Two lists of items that differ only in the \<^verbatim>\<open>v_Data\<close> of items of class \<^verbatim>\<open>keys\<close>.\<close>

definition same_but_key :: "det_env \<Rightarrow> plist \<Rightarrow> plist \<Rightarrow> bool" where
  "same_but_key E a b \<longleftrightarrow> a = b \<or>
     (\<exists>d x. a = PL_dict d \<and> is_key E d \<and> dget d ''v_Data'' \<noteq> None \<and> b = PL_dict (dset ''v_Data'' x d))"

lemma text_at_dset: "j \<noteq> k \<Longrightarrow> text_at E (dset k x d) j = text_at E d j"
  by (simp add: text_at_def)

lemma key_item_same:
  assumes "is_key E d" and "dget d ''v_Data'' \<noteq> None"
  shows "strip_item E (dset ''v_Data'' x d) = strip_item E d" and "shape_step E sh (dset ''v_Data'' x d) = shape_step E sh d"
proof -
  have k: "is_key E (dset ''v_Data'' x d)" using assms(1) by (simp add: is_key_def text_at_dset)
  show s: "strip_item E (dset ''v_Data'' x d) = strip_item E d"
    using assms(1) k by (simp add: strip_item_def dset_def ddel_def AList.delete_update_same)
  have "''v_Data'' \<in> fst ` set d" using assms(2) by (simp add: dkeys_dget)
  then have "fst ` set (dset ''v_Data'' x d) = fst ` set d" by (simp add: dkeys_dset insert_absorb)
  then have "dict_names (dset ''v_Data'' x d) = dict_names d"
    unfolding dict_names_def by (simp add: case_prod_unfold image_image [symmetric, where f = "\<lambda>k. safe_name (key_str k)" and g = fst])
  then show "shape_step E sh (dset ''v_Data'' x d) = shape_step E sh d"
    using s by (simp add: shape_step_def agrp_of_def text_at_dset)
qed

lemma strip_and_shape_same:
  "list_all2 (same_but_key E) items items' \<Longrightarrow>
   map (strip_item E) (dicts_of items) = map (strip_item E) (dicts_of items') \<and>
   (\<forall>sh. foldl (shape_step E) sh (dicts_of items) = foldl (shape_step E) sh (dicts_of items'))"
proof (induction rule: list_all2_induct)
  case (Cons a as b bs)
  show ?case
  proof (cases "a = b")
    case True
    then show ?thesis using Cons by (cases b) (simp_all add: dicts_of_def map_filter_simps)
  next
    case False
    then obtain d x where d: "a = PL_dict d" "is_key E d" "dget d ''v_Data'' \<noteq> None" "b = PL_dict (dset ''v_Data'' x d)"
      using Cons(1) by (auto simp: same_but_key_def)
    show ?thesis using Cons(3) key_item_same [OF d(2,3)] unfolding d(1,4) by (simp add: dicts_of_def map_filter_simps)
  qed
qed (simp add: dicts_of_def map_filter_simps)

text \<open>
  C22 (private keys of passkeys are never read). Whatever the \<^verbatim>\<open>v_Data\<close> of the key items holds, the
  credentials and the shape are the same.
\<close>

theorem passkey_secret_never_read:
  assumes "list_all2 (same_but_key E) items items'"
  shows "from_items E items = from_items E items'"
  using strip_and_shape_same [OF assms] by (simp add: from_items_def strip_and_shape_def)

subsection \<open>Recently Deleted lends nothing\<close>

definition live_view :: "index \<Rightarrow> (rkey \<Rightarrow> extra option) \<times> (bool \<times> ustr \<Rightarrow> ustr list option) \<times> (bool \<times> ustr \<times> ustr \<times> pdict) list" where
  "live_view ix = (\<lambda>k. if fst k then None else dget (ix_extras ix) k, \<lambda>k. if fst k then None else dget (ix_stubs ix) k,
     filter (\<lambda>sc. \<not> fst sc) (ix_sidecars ix))"

definition live_index :: "index \<Rightarrow> index \<Rightarrow> bool" where
  "live_index ix jx \<longleftrightarrow> live_view ix = live_view jx"

lemma live_indexI:
  assumes "\<And>k. \<not> fst k \<Longrightarrow> dget (ix_extras ix) k = dget (ix_extras jx) k"
    and "\<And>k. \<not> fst k \<Longrightarrow> dget (ix_stubs ix) k = dget (ix_stubs jx) k"
    and "filter (\<lambda>sc. \<not> fst sc) (ix_sidecars ix) = filter (\<lambda>sc. \<not> fst sc) (ix_sidecars jx)"
  shows "live_index ix jx"
  using assms by (simp add: live_index_def live_view_def fun_eq_iff)

lemma live_indexD:
  assumes "live_index ix jx"
  shows "\<not> fst k \<Longrightarrow> dget (ix_extras ix) k = dget (ix_extras jx) k" and "\<not> fst l \<Longrightarrow> dget (ix_stubs ix) l = dget (ix_stubs jx) l"
    and "filter (\<lambda>sc. \<not> fst sc) (ix_sidecars ix) = filter (\<lambda>sc. \<not> fst sc) (ix_sidecars jx)"
proof -
  have e: "(\<lambda>k. if fst k then None else dget (ix_extras ix) k) = (\<lambda>k. if fst k then None else dget (ix_extras jx) k)"
      "(\<lambda>k. if fst k then None else dget (ix_stubs ix) k) = (\<lambda>k. if fst k then None else dget (ix_stubs jx) k)"
    and s: "filter (\<lambda>sc. \<not> fst sc) (ix_sidecars ix) = filter (\<lambda>sc. \<not> fst sc) (ix_sidecars jx)"
    using assms unfolding live_index_def live_view_def by simp_all
  show "filter (\<lambda>sc. \<not> fst sc) (ix_sidecars ix) = filter (\<lambda>sc. \<not> fst sc) (ix_sidecars jx)" by (rule s)
  show "dget (ix_extras ix) k = dget (ix_extras jx) k" if "\<not> fst k" using fun_cong [OF e(1), of k] that by simp
  show "dget (ix_stubs ix) l = dget (ix_stubs jx) l" if "\<not> fst l" using fun_cong [OF e(2), of l] that by simp
qed

lemma live_extra: "live_index ix jx \<Longrightarrow> \<not> fst k \<Longrightarrow> extra_at ix k = extra_at jx k"
  by (simp add: live_indexD extra_at_def)

lemma live_stubs: "live_index ix jx \<Longrightarrow> \<not> fst k \<Longrightarrow> stubs_at ix k = stubs_at jx k"
  by (simp add: live_indexD stubs_at_def)

lemma fst_rkey: "fst (rkey_of E it) = is_recently_deleted E it"
  by (simp add: rkey_of_def)

lemma rkey_parts: "rkey_of E it = (is_recently_deleted E it, snd (rkey_of E it))"
  by (simp add: rkey_of_def)

lemma add_stub_other: "fst k \<noteq> fst rk \<Longrightarrow> dget (add_stub E taken rk it stubs) k = dget stubs k"
  by (cases rk) (auto simp: add_stub_def)

lemma index_deleted:
  assumes "index_item E taken it ix = Some jx" and "is_recently_deleted E it"
  shows "live_index ix jx"
proof (cases "parse_meta E (dget it ''v_Data'')")
  case None
  then show ?thesis using assms(1) by (simp add: index_item_def live_index_def)
next
  case (Some m)
  then obtain x where j: "jx = ix\<lparr>
      ix_extras := (if x = no_extra then ix_extras ix else dset (rkey_of E it) (merge_extra (extra_at ix (rkey_of E it)) x) (ix_extras ix)),
      ix_stubs := add_stub E taken (rkey_of E it) it (ix_stubs ix),
      ix_sidecars := ix_sidecars ix @ [(fst (rkey_of E it), fst (snd (rkey_of E it)), snd (snd (rkey_of E it)), m)]\<rparr>"
    using assms(1) by (auto simp: index_item_def Let_def)
  have d: "fst (rkey_of E it)" using assms(2) by (simp add: fst_rkey)
  show ?thesis
  proof (rule live_indexI)
    show "dget (ix_extras ix) k = dget (ix_extras jx) k" if "\<not> fst k" for k using that d by (auto simp: j)
    show "dget (ix_stubs ix) k = dget (ix_stubs jx) k" if "\<not> fst k" for k using that d by (simp add: j add_stub_other)
    show "filter (\<lambda>sc. \<not> fst sc) (ix_sidecars ix) = filter (\<lambda>sc. \<not> fst sc) (ix_sidecars jx)" using d by (simp add: j)
  qed
qed

lemma add_stub_cong:
  assumes "rk \<in> set taken \<longleftrightarrow> rk \<in> set taken'" and "\<And>k. \<not> fst k \<Longrightarrow> dget stubs k = dget stubs' k" and "\<not> fst rk" and "\<not> fst k"
  shows "dget (add_stub E taken rk it stubs) k = dget (add_stub E taken' rk it stubs') k"
  using assms by (cases rk) (simp add: add_stub_def)

lemma index_live:
  assumes "index_item E taken it ix = Some jx" and "live_index ix ix'" and "\<not> is_recently_deleted E it"
    and "\<And>rk. \<not> fst rk \<Longrightarrow> rk \<in> set taken \<longleftrightarrow> rk \<in> set taken'"
  shows "\<exists>jx'. index_item E taken' it ix' = Some jx' \<and> live_index jx jx'"
proof (cases "parse_meta E (dget it ''v_Data'')")
  case None
  then show ?thesis using assms(1,2) by (simp add: index_item_def)
next
  case (Some m)
  let ?rk = "rkey_of E it"
  let ?upd = "\<lambda>tk ix x. ix\<lparr>
      ix_extras := (if x = no_extra then ix_extras ix else dset ?rk (merge_extra (extra_at ix ?rk) x) (ix_extras ix)),
      ix_stubs := add_stub E tk ?rk it (ix_stubs ix), ix_sidecars := ix_sidecars ix @ [(fst ?rk, fst (snd ?rk), snd (snd ?rk), m)]\<rparr>"
  obtain x where x: "read_extra E m = Some x" "jx = ?upd taken ix x"
    using assms(1) Some by (auto simp: index_item_def Let_def)
  have l: "\<not> fst ?rk" using assms(3) by (simp add: fst_rkey)
  have e: "extra_at ix ?rk = extra_at ix' ?rk" by (rule live_extra [OF assms(2) l])
  have "live_index jx (?upd taken' ix' x)"
  proof (rule live_indexI)
    show "dget (ix_extras jx) k = dget (ix_extras (?upd taken' ix' x)) k" if "\<not> fst k" for k
      using live_indexD(1) [OF assms(2) that] by (simp add: x(2) e)
    show "dget (ix_stubs jx) k = dget (ix_stubs (?upd taken' ix' x)) k" if "\<not> fst k" for k
      using add_stub_cong [OF assms(4) [OF l] live_indexD(2) [OF assms(2)] l that] by (simp add: x(2))
    show "filter (\<lambda>sc. \<not> fst sc) (ix_sidecars jx) = filter (\<lambda>sc. \<not> fst sc) (ix_sidecars (?upd taken' ix' x))"
      using live_indexD(3) [OF assms(2)] by (simp add: x(2))
  qed
  then show ?thesis using Some x(1) by (simp add: index_item_def Let_def)
qed

lemma live_index_trans: "live_index a b \<Longrightarrow> live_index b c \<Longrightarrow> live_index a c"
  and live_index_sym: "live_index a b \<Longrightarrow> live_index b a"
  by (simp_all add: live_index_def)

abbreviation live_items :: "det_env \<Rightarrow> pdict list \<Rightarrow> pdict list" where
  "live_items E its \<equiv> filter (\<lambda>it. \<not> is_recently_deleted E it) its"

lemma index_items_live:
  assumes "\<And>rk. \<not> fst rk \<Longrightarrow> rk \<in> set taken \<longleftrightarrow> rk \<in> set taken'"
  shows "index_items E taken its ix = Some jx \<Longrightarrow> live_index ix ix' \<Longrightarrow>
    \<exists>jx'. index_items E taken' (live_items E its) ix' = Some jx' \<and> live_index jx jx'"
proof (induction its arbitrary: ix ix')
  case (Cons it its)
  then obtain kx where k: "index_item E taken it ix = Some kx" "index_items E taken its kx = Some jx"
    by (auto simp: bind_eq_Some_conv)
  show ?case
  proof (cases "is_recently_deleted E it")
    case True
    have "live_index kx ix'" using live_index_trans [OF live_index_sym [OF index_deleted [OF k(1) True]] Cons.prems(2)] .
    from Cons.IH [OF k(2) this] show ?thesis using True by simp
  next
    case False
    obtain kx' where "index_item E taken' it ix' = Some kx'" "live_index kx kx'"
      using index_live [OF k(1) Cons.prems(2) False assms] by blast
    with Cons.IH [OF k(2)] show ?thesis using False by auto
  qed
qed simp

lemma login_deleted: "login_of E ix it = Some c \<Longrightarrow> cr_deleted c = is_recently_deleted E it"
  by (auto simp: login_of_def Let_def split: if_splits)

lemma login_live: "live_index ix jx \<Longrightarrow> \<not> is_recently_deleted E it \<Longrightarrow> login_of E ix it = login_of E jx it"
  using live_extra [of ix jx "rkey_of E it"] live_stubs [of ix jx "(False, _)"]
  by (simp add: login_of_def Let_def fst_rkey)

lemma logins_live:
  "live_index ix jx \<Longrightarrow>
   filter (\<lambda>c. \<not> cr_deleted c) (List.map_filter (login_of E ix) its) = List.map_filter (login_of E jx) (live_items E its)"
proof (induction its)
  case (Cons it its)
  then show ?case
    using login_deleted [of E ix it] login_live [of ix jx E it] by (auto simp: map_filter_simps split: option.splits)
qed (simp add: map_filter_simps)

lemma account_live:
  "live_index ix jx \<Longrightarrow> passkey_account E it (ix_sidecars ix) False = passkey_account E it (ix_sidecars jx) False"
  using live_indexD(3) [of ix jx] by (simp add: passkey_account_def)

lemma add_passkey_live:
  assumes "live_index ix jx"
  shows "filter (\<lambda>c. \<not> cr_deleted c) (add_passkey E ix cs it) =
    (if is_recently_deleted E it then filter (\<lambda>c. \<not> cr_deleted c) cs
     else add_passkey E jx (filter (\<lambda>c. \<not> cr_deleted c) cs) it)"
proof -
  let ?del = "is_recently_deleted E it"
  obtain rp user sc where a: "passkey_account E it (ix_sidecars ix) ?del = (rp, user, sc)" using prod_cases3 by blast
  have h: "passkey_hit E ?del rp user c \<Longrightarrow> cr_deleted c = ?del" for c by (simp add: passkey_hit_def)
  have m: "filter (\<lambda>c. \<not> cr_deleted c) (map (\<lambda>c. if passkey_hit E ?del rp user c then c\<lparr>cr_has_passkey := True\<rparr> else c) cs) =
      map (\<lambda>c. if passkey_hit E ?del rp user c then c\<lparr>cr_has_passkey := True\<rparr> else c) (filter (\<lambda>c. \<not> cr_deleted c) cs)"
    by (induction cs) auto
  show ?thesis
  proof (cases ?del)
    case True
    have "map (\<lambda>c. if passkey_hit E ?del rp user c then c\<lparr>cr_has_passkey := True\<rparr> else c) (filter (\<lambda>c. \<not> cr_deleted c) cs) =
        filter (\<lambda>c. \<not> cr_deleted c) cs"
      using True h by (intro map_idI) auto
    then show ?thesis using True m a by (simp add: add_passkey_def passkey_row_def Let_def)
  next
    case False
    have a': "passkey_account E it (ix_sidecars jx) ?del = (rp, user, sc)" using account_live [OF assms, of E it] a False by simp
    have e: "list_ex (passkey_hit E ?del rp user) cs = list_ex (passkey_hit E ?del rp user) (filter (\<lambda>c. \<not> cr_deleted c) cs)"
      using h False by (auto simp: list_ex_iff)
    have x: "(case sc of None \<Rightarrow> no_extra | Some (d, u) \<Rightarrow> extra_at ix (False, d, u)) =
        (case sc of None \<Rightarrow> no_extra | Some (d, u) \<Rightarrow> extra_at jx (False, d, u))"
      using live_extra [OF assms, of "(False, _)"] by (simp split: option.split)
    show ?thesis using False m a a' e by (simp add: add_passkey_def x) (simp add: passkey_row_def)
  qed
qed

lemma passkeys_live:
  "live_index ix jx \<Longrightarrow>
   filter (\<lambda>c. \<not> cr_deleted c) (foldl (add_passkey E ix) cs its) = foldl (add_passkey E jx) (filter (\<lambda>c. \<not> cr_deleted c) cs) (live_items E its)"
  by (induction its arbitrary: cs) (simp_all add: add_passkey_live)

lemma credentials_live:
  assumes "credentials_of E its = Some cs"
  shows "credentials_of E (live_items E its) = Some (filter (\<lambda>c. \<not> cr_deleted c) cs)"
proof -
  let ?rest = "filter (\<lambda>it. \<not> is_passkey E it) its"
  have r: "filter (\<lambda>it. \<not> is_passkey E it) (live_items E its) = live_items E ?rest"
      "filter (is_passkey E) (live_items E its) = live_items E (filter (is_passkey E) its)"
    by (simp_all add: conj_commute)
  obtain ix where ix: "index_items E (password_keys E ?rest) ?rest no_index = Some ix"
      "cs = foldl (add_passkey E ix) (List.map_filter (login_of E ix) ?rest) (filter (is_passkey E) its)"
    using assms unfolding credentials_of_def Let_def map_option_eq_Some by blast
  have "rk \<in> set (password_keys E ?rest) \<longleftrightarrow> rk \<in> set (password_keys E (live_items E ?rest))" if "\<not> fst rk" for rk
    using that by (auto simp: password_keys_def fst_rkey)
  from index_items_live [OF this ix(1), of no_index]
  obtain jx where "index_items E (password_keys E (live_items E ?rest)) (live_items E ?rest) no_index = Some jx" "live_index ix jx"
    by (auto simp: live_index_def)
  then show ?thesis unfolding credentials_of_def r Let_def ix(2) by (simp add: passkeys_live logins_live)
qed

definition live_plist :: "det_env \<Rightarrow> plist \<Rightarrow> bool" where
  "live_plist E p = (case p of PL_dict d \<Rightarrow> \<not> is_recently_deleted E d | _ \<Rightarrow> True)"

lemma strip_keeps_group: "is_recently_deleted E (strip_item E d) = is_recently_deleted E d"
  by (simp add: is_recently_deleted_def agrp_of_def text_at_def strip_item_def)

lemma live_dicts: "map (strip_item E) (dicts_of (filter (live_plist E) items)) = live_items E (map (strip_item E) (dicts_of items))"
proof (induction items)
  case (Cons p items)
  then show ?case
    by (cases p) (simp_all add: dicts_of_def map_filter_simps live_plist_def strip_keeps_group)
qed (simp add: dicts_of_def map_filter_simps)

text \<open>
  C23 (Recently Deleted lends nothing). The live credentials of a keychain are those it would have without
  the items in Recently Deleted: a deleted copy gives no live entry a note, a code, an alias or a passkey mark.
\<close>

theorem deleted_lends_nothing:
  assumes "from_items E items = Some (cs, shape)"
  shows "map_option fst (from_items E (filter (live_plist E) items)) = Some (filter (\<lambda>c. \<not> cr_deleted c) cs)"
proof -
  have "credentials_of E (map (strip_item E) (dicts_of items)) = Some cs"
    using assms by (auto simp: from_items_def strip_and_shape_def)
  from credentials_live [OF this] show ?thesis
    by (simp add: from_items_def strip_and_shape_def live_dicts option.map_comp comp_def)
qed

subsection \<open>A small keychain\<close>

definition example_login_item :: "string \<Rightarrow> string \<Rightarrow> plist" where
  "example_login_item user grp = PL_dict [(''class'', lit ''inet''), (''agrp'', lit grp), (''srvr'', lit ''a.com''),
     (''acct'', lit user), (''v_Data'', PL_data [104, 105])]"

definition example_keychain :: "plist list" where
  "example_keychain = [example_login_item ''ann'' ''com.apple.cfnetwork'',
     example_login_item ''bob'' ''com.apple.cfnetwork-recently-deleted'']"

definition example_key_item :: "8 word \<Rightarrow> plist" where
  "example_key_item x = PL_dict [(''class'', lit ''keys''), (''agrp'', lit WEBAUTHN_AGRP), (''labl'', lit ''a.com''),
     (''v_Data'', PL_data [x])]"

abbreviation example_user :: "string \<Rightarrow> string \<Rightarrow> pdict" where
  "example_user user grp \<equiv> [(''class'', lit ''inet''), (''agrp'', lit grp), (''srvr'', lit ''a.com''),
     (''acct'', lit user), (''v_Data'', PL_data [104, 105])]"

lemma text_at_str: "dget it k = Some (PL_str t) \<Longrightarrow> text_at E it k = t"
  by (simp add: text_at_def or_else_def py_str_def)

lemma example_fields:
  "text_at E (example_user user grp) ''class'' = ascii ''inet''" "text_at E (example_user user grp) ''agrp'' = ascii grp"
  "text_at E (example_user user grp) ''labl'' = []" "dget (example_user user grp) ''v_Data'' = Some (PL_data [104, 105])"
  "item_domain (example_user user grp) = lit ''a.com''" "dget (example_user user grp) ''labl'' = None"
  "user \<noteq> [] \<Longrightarrow> item_user (example_user user grp) = lit user"
  by (simp_all add: text_at_def or_else_def py_str_def dget_def item_domain_def item_user_def ascii_def)

lemma example_suffix:
  "endswith (ascii ''com.apple.cfnetwork'') (ascii RECENTLY_DELETED_SUFFIX) = False"
  "endswith (ascii ''com.apple.cfnetwork-recently-deleted'') (ascii RECENTLY_DELETED_SUFFIX) = True"
  by code_simp+

lemma example_inet: "(ascii ''inet'' = ascii ''keys'') = False"
  by simp

lemma example_credential: "is_credential ascii_db (ascii ''a.com'') (ascii ''a.com'') = True"
  by (simp add: is_credential_def ascii_db_def ascii_lower_def ascii_lower_char_def ascii_def stripP_def lstripP_def rstripP_def
      py_isspace_def Let_def)

lemma example_item_parts:
  "is_key E (example_user user grp) = False" "is_metadata (Some (PL_data [104, 105])) = False"
  unfolding is_key_def example_fields(1) example_inet by (simp_all add: is_metadata_def MAGIC_def utf8_of_def ascii_def)

lemma example_login_of:
  "user \<noteq> [] \<Longrightarrow> \<exists>c. login_of example_det no_index (example_user user grp) = Some c \<and> cr_username c = ascii user \<and>
     cr_deleted c = is_recently_deleted example_det (example_user user grp)"
  unfolding login_of_def example_fields(4) example_item_parts Let_def
  by (simp add: example_fields or_else_def py_str_def example_det_def example_credential)

lemma example_index: "index_items E taken [example_user a g, example_user b h] no_index = Some no_index"
  by (simp add: index_item_def parse_meta_def example_fields(4) example_item_parts)

lemma example_keychain_reads:
  "\<exists>cs shape. from_items example_det example_keychain = Some (cs, shape) \<and>
     map (\<lambda>c. (cr_username c, cr_deleted c)) cs = [(ascii ''ann'', False), (ascii ''bob'', True)]"
proof -
  let ?a = "example_user ''ann'' ''com.apple.cfnetwork''" and ?b = "example_user ''bob'' ''com.apple.cfnetwork-recently-deleted''"
  have d: "dicts_of example_keychain = [?a, ?b]"
    by (simp add: dicts_of_def example_keychain_def example_login_item_def map_filter_simps)
  have k: "strip_item example_det (example_user u g) = example_user u g" "is_passkey example_det (example_user u g) = False" for u g
    unfolding strip_item_def is_passkey_def example_item_parts by simp_all
  have r: "is_recently_deleted example_det ?a = False" "is_recently_deleted example_det ?b = True"
    unfolding is_recently_deleted_def agrp_of_def example_fields(2) by (rule example_suffix)+
  obtain c where c: "login_of example_det no_index ?a = Some c" "cr_username c = ascii ''ann''" "cr_deleted c = False"
    using example_login_of [of "''ann''" "''com.apple.cfnetwork''"] r(1) by auto
  obtain e where e: "login_of example_det no_index ?b = Some e" "cr_username e = ascii ''bob''" "cr_deleted e = True"
    using example_login_of [of "''bob''" "''com.apple.cfnetwork-recently-deleted''"] r(2) by auto
  have "from_items example_det example_keychain = Some ([c, e], snd (strip_and_shape example_det example_keychain))"
    unfolding from_items_def strip_and_shape_def d credentials_of_def Let_def
    by (simp only: k list.map filter.simps if_False if_True simp_thms foldl_Nil prod.case example_index map_filter_simps c(1) e(1)
        option.map option.case snd_conv)
  then show ?thesis using c e by simp
qed

theorem deleted_lends_nothing_witness:
  "map_option (\<lambda>r. map cr_username (fst r)) (from_items example_det (filter (live_plist example_det) example_keychain)) = Some [ascii ''ann'']"
proof -
  obtain cs shape where f: "from_items example_det example_keychain = Some (cs, shape)"
      "map (\<lambda>c. (cr_username c, cr_deleted c)) cs = [(ascii ''ann'', False), (ascii ''bob'', True)]"
    using example_keychain_reads by (elim exE conjE) (rule that; assumption)
  then have "map cr_username (filter (\<lambda>c. \<not> cr_deleted c) cs) = [ascii ''ann'']" by auto
  then show ?thesis using deleted_lends_nothing [OF f(1)] by (auto simp: option.map_comp comp_def)
qed

theorem passkey_secret_never_read_witness:
  "from_items example_det [example_key_item 1] = from_items example_det [example_key_item 2]"
proof (rule passkey_secret_never_read)
  have "is_key example_det [(''class'', lit ''keys''), (''agrp'', lit WEBAUTHN_AGRP), (''labl'', lit ''a.com''), (''v_Data'', PL_data [1])]"
    by (simp add: is_key_def text_at_def dget_def or_else_def py_str_def)
  then show "list_all2 (same_but_key example_det) [example_key_item 1] [example_key_item 2]"
    by (auto simp: same_but_key_def example_key_item_def dget_def dset_def intro!: exI [of _ "PL_data [2]"])
qed

end
