(* ===== verification/Pipeline.thy ===== *)
theory Pipeline
  imports Credentials
begin

text \<open>
  \<^verbatim>\<open>backend/icp/keychain/pipeline.py\<close> and \<^verbatim>\<open>nska.py\<close>: the chain of keys from the shares addressed to this
  computer to the property lists of the items. The archived object graph of a share is expanded with
  the interpreter's recursion limit; a graph with a cycle runs into it.
\<close>

record pipe_env =
  p_items :: item_env
  p_det :: det_env
  p_b64 :: "ustr \<Rightarrow> bytes option"
  p_ecies :: ecies
  p_depth :: nat

datatype pipe_error = Pe_pipeline | Pe_other

subsection \<open>NSKeyedArchiver: nska.py\<close>

datatype expanded = X_none | X_leaf plist | X_list "expanded list" | X_dict "(string \<times> expanded) list"

fun allS :: "('a \<Rightarrow> 'b option) \<Rightarrow> 'a list \<Rightarrow> 'b list option" where
  "allS f [] = Some []"
| "allS f (x # xs) = Option.bind (f x) (\<lambda>y. map_option (\<lambda>ys. y # ys) (allS f xs))"

lemma allS_cong [fundef_cong]: "xs = ys \<Longrightarrow> (\<And>x. x \<in> set ys \<Longrightarrow> f x = g x) \<Longrightarrow> allS f xs = allS g ys"
  by (induction ys arbitrary: xs) auto

text \<open>The payload of the Foundation containers.\<close>

definition unwrap_object :: "bool \<Rightarrow> (string \<times> expanded) list \<Rightarrow> expanded" where
  "unwrap_object is_object out = (if \<not> is_object then X_dict out
     else (case dget out ''NS.data'' of Some v \<Rightarrow> v | None \<Rightarrow>
       (case dget out ''NS.string'' of Some v \<Rightarrow> v | None \<Rightarrow>
         (case dget out ''NS.objects'' of Some v \<Rightarrow> v | None \<Rightarrow> X_dict out))))"

fun resolve_node :: "nat \<Rightarrow> plist list \<Rightarrow> plist \<Rightarrow> expanded option" where
  "resolve_node 0 objects node = None"
| "resolve_node (Suc n) objects node = (case node of
      PL_uid i \<Rightarrow> if i < length objects then resolve_node n objects (objects ! i) else None
    | PL_str s \<Rightarrow> Some (if s = ascii ''$null'' then X_none else X_leaf node)
    | PL_dict kv \<Rightarrow> map_option (unwrap_object (dget kv ''$class'' \<noteq> None))
        (allS (\<lambda>(k, v). map_option (Pair k) (resolve_node n objects v)) (filter (\<lambda>(k, v). \<not> startswith k ''$'') kv))
    | PL_list xs \<Rightarrow> map_option X_list (allS (resolve_node n objects) xs)
    | _ \<Rightarrow> Some (X_leaf node))"

definition expand :: "pipe_env \<Rightarrow> bytes \<Rightarrow> expanded option" where
  "expand V data = (case pl_loads (d_plib (p_det V)) data of
      Some (PL_dict p) \<Rightarrow> (case (dget p ''$objects'', dget p ''$top'') of
          (Some (PL_list objects), Some start) \<Rightarrow> resolve_node (p_depth V) objects
            (case start of PL_dict t \<Rightarrow> (case dget t ''root'' of Some r \<Rightarrow> r | None \<Rightarrow> start) | _ \<Rightarrow> start)
        | _ \<Rightarrow> None)
    | _ \<Rightarrow> None)"

subsection \<open>Shares\<close>

text \<open>\<^verbatim>\<open>bytes(\<dots>)\<close> of a member of the expanded share.\<close>

definition member_bytes :: "expanded \<Rightarrow> string \<Rightarrow> bytes option" where
  "member_bytes x k = (case x of X_dict kv \<Rightarrow> (case dget kv k of Some (X_leaf (PL_data b)) \<Rightarrow> Some b | _ \<Rightarrow> None) | _ \<Rightarrow> None)"

definition open_share :: "pipe_env \<Rightarrow> ustr \<Rightarrow> bytes option" where
  "open_share V wrapped = Option.bind (p_b64 V wrapped) (\<lambda>b. Option.bind (expand V b) (\<lambda>ies.
     Option.bind (member_bytes ies ''SFEphemeralSenderPublicKeyExternaRepresentation'') (\<lambda>eph.
     Option.bind (member_bytes ies ''SFCiphertext'') (\<lambda>ct.
     Option.bind (member_bytes ies ''SFIESAuthenticationCode'') (\<lambda>tag.
     (case ecies_decrypt_sf (p_ecies V) eph ct tag of Inl e \<Rightarrow> None | Inr p \<Rightarrow> Some p))))))"

definition share_key :: "bytes \<Rightarrow> pipe_error + (ustr \<times> pval)" where
  "share_key serialized = (case decode_fields serialized of
      Inl e \<Rightarrow> Inl Pe_other
    | Inr f \<Rightarrow> (case first_str f 1 of
        None \<Rightarrow> Inl Pe_other
      | Some key_id \<Rightarrow> (case (key_id, first f 4 None) of
          (Some i, Some tlk) \<Rightarrow> if i = [] \<or> tlk = PBytes [] \<or> tlk = PInt 0 then Inl Pe_pipeline else Inr (i, tlk)
        | _ \<Rightarrow> Inl Pe_pipeline)))"

fun unwrap_tlkshares :: "pipe_env \<Rightarrow> ustr \<Rightarrow> ckrec list \<Rightarrow> (ustr \<times> pval) list \<Rightarrow> pipe_error + (ustr \<times> pval) list" where
  "unwrap_tlkshares V me [] tlks = Inr tlks"
| "unwrap_tlkshares V me (share # shares) tlks =
     (if get_str share (ascii ''receiver'') \<noteq> Some me then unwrap_tlkshares V me shares tlks
      else (case get_str share (ascii ''wrappedkey'') of
          None \<Rightarrow> Inl Pe_pipeline
        | Some wrapped \<Rightarrow> if wrapped = [] then Inl Pe_pipeline
            else (case open_share V wrapped of
                None \<Rightarrow> Inl Pe_pipeline
              | Some serialized \<Rightarrow> bindE (share_key serialized) (\<lambda>(i, tlk). unwrap_tlkshares V me shares (dset i tlk tlks)))))"

subsection \<open>Class keys and items\<close>

text \<open>A key that is a number fails in the library.\<close>

definition pval_bytes :: "pval \<Rightarrow> bytes option" where
  "pval_bytes v = (case v of PBytes b \<Rightarrow> Some b | PInt n \<Rightarrow> None)"

fun unwrap_class_keys :: "pipe_env \<Rightarrow> ckrec list \<Rightarrow> (ustr \<times> pval) list \<Rightarrow> (ustr \<times> bytes) list \<Rightarrow> pipe_error + (ustr \<times> bytes) list" where
  "unwrap_class_keys V [] tlks ks = Inr ks"
| "unwrap_class_keys V (sk # sks) tlks ks =
     (case Option.bind (get_str sk (ascii ''parentkeyref'')) (dget tlks) of
        None \<Rightarrow> unwrap_class_keys V sks tlks ks
      | Some tlk \<Rightarrow> (case get_str sk (ascii ''wrappedkey'') of
          None \<Rightarrow> unwrap_class_keys V sks tlks ks
        | Some wrapped \<Rightarrow> if wrapped = [] then unwrap_class_keys V sks tlks ks
            else (case (pval_bytes tlk, k_b64 (p_items V) wrapped) of
                (Some t, Some w) \<Rightarrow> (case siv_unwrap (k_siv (p_items V)) t w [] of
                    Inl e \<Rightarrow> Inl Pe_other
                  | Inr key \<Rightarrow> unwrap_class_keys V sks tlks (dset (rec_name sk) key ks))
              | _ \<Rightarrow> Inl Pe_other)))"

definition class_key_of :: "(ustr \<times> bytes) list \<Rightarrow> ckrec \<Rightarrow> bytes option" where
  "class_key_of ks r = Option.bind (get_str r (ascii ''parentkeyref'')) (dget ks)"

definition decrypt_one :: "pipe_env \<Rightarrow> (ustr \<times> bytes) list \<Rightarrow> ckrec \<Rightarrow> pipe_error + pdict" where
  "decrypt_one V ks it = (case (class_key_of ks it, get_bytes it (ascii ''data''), get_str it (ascii ''wrappedkey''),
        get_str it (ascii ''parentkeyref'')) of
      (Some ck, Some data, Some wrapped, Some parent) \<Rightarrow>
        if wrapped = [] then Inl Pe_pipeline
        else (case p_b64 V wrapped of
            None \<Rightarrow> Inl Pe_other
          | Some w \<Rightarrow> (case siv_unwrap (k_siv (p_items V)) ck w [] of
              Inl e \<Rightarrow> Inl Pe_other
            | Inr item_key \<Rightarrow> (case record_aad (p_items V) it parent of
                None \<Rightarrow> Inl Pe_other
              | Some aad \<Rightarrow> (case decrypt_item (k_siv (p_items V)) item_key data aad of
                  Inl e \<Rightarrow> Inl Pe_pipeline
                | Inr pl \<Rightarrow> (case pl_loads (d_plib (p_det V)) pl of Some (PL_dict d) \<Rightarrow> Inr d | _ \<Rightarrow> Inl Pe_pipeline)))))
    | _ \<Rightarrow> Inl Pe_pipeline)"

definition decrypt_items :: "pipe_env \<Rightarrow> ckrec list \<Rightarrow> (ustr \<times> bytes) list \<Rightarrow> pipe_error + pdict list" where
  "decrypt_items V items ks = mapE (decrypt_one V ks) items"

text \<open>The records by type, and the keys fetched beforehand, which win.\<close>

definition merge_tlks :: "(ustr \<times> pval) list \<Rightarrow> (ustr \<times> pval) list \<Rightarrow> (ustr \<times> pval) list" where
  "merge_tlks plain fetched = foldl (\<lambda>d (k, v). dset k v d) plain fetched"

definition build_credential_store ::
  "pipe_env \<Rightarrow> (string \<Rightarrow> ckrec list) \<Rightarrow> ustr \<Rightarrow> (ustr \<times> pval) list \<Rightarrow>
   pipe_error + (cred list \<times> ((ustr \<times> ustr) \<times> shape_slot) list)" where
  "build_credential_store V by_type me tlks =
     bindE (unwrap_tlkshares V me (by_type ''tlkshare'') []) (\<lambda>plain.
     bindE (unwrap_class_keys V (by_type ''synckey'') (merge_tlks plain tlks) []) (\<lambda>ks.
     bindE (decrypt_items V (by_type ''item'') ks) (\<lambda>its.
       case from_items (p_det V) (map PL_dict its) of None \<Rightarrow> Inl Pe_other | Some r \<Rightarrow> Inr r)))"

subsection \<open>What was sealed under the chain of keys opens\<close>

definition pipe_ok :: "pipe_env \<Rightarrow> bool" where
  "pipe_ok V \<longleftrightarrow> item_env_ok (p_items V) \<and> k_plib (p_items V) = d_plib (p_det V) \<and> (\<forall>b. p_b64 V (b64_text b) = Some b)"

lemma mapE_all2: "mapE f xs = Inr ys \<longleftrightarrow> list_all2 (\<lambda>x y. f x = Inr y) xs ys"
proof (induction xs arbitrary: ys)
  case Nil
  show ?case by auto
next
  case (Cons x xs)
  then show ?case by (cases ys) (auto simp: bindE_Inr_iff list_all2_Cons1)
qed

lemma sealed_item_opens:
  assumes "pipe_ok V" and "encrypt_item_record (p_items V) r ck (PL_dict p) iv key pad_to = Inr c" and "plist_wf (PL_dict p)"
    and "class_key_of ks r = Some ck"
  shows "decrypt_one V ks (r\<lparr>rec_fields := with_ciphertext c (rec_fields r)\<rparr>) = Inr p"
proof -
  let ?I = "p_items V" and ?r = "r\<lparr>rec_fields := with_ciphertext c (rec_fields r)\<rparr>"
  have S: "siv_ok (k_siv ?I)" "plib_ok (d_plib (p_det V))" "p_b64 V (b64_text b) = Some b" for b
    using assms(1) by (auto simp: pipe_ok_def item_env_ok_def)
  obtain parent aad data w where e: "get_str r (ascii ''parentkeyref'') = Some parent" "record_aad ?I r parent = Some aad"
      "encrypt_item (k_siv ?I) key (pl_dumps (k_plib ?I) (PL_dict p)) aad iv pad_to = Inr data"
      "siv_wrap (k_siv ?I) ck key [] = Inr w" "c = (CK_bytes data, CK_str (b64_text w))"
    using assms(2) by (auto simp: encrypt_item_record_def bindE_Inr_iff opt_def kc_def split: option.splits if_splits sum.splits)
  have g: "class_key_of ks ?r = Some ck" "get_bytes ?r (ascii ''data'') = Some data" "get_str ?r (ascii ''wrappedkey'') = Some (b64_text w)"
      "get_str ?r (ascii ''parentkeyref'') = Some parent"
    using e(1) assms(4) by (simp_all add: class_key_of_def get_bytes_def get_str_def with_ciphertext_def e(5))
  have u: "siv_unwrap (k_siv ?I) ck w [] = Inr key" using siv_unwrap_wrap [OF S(1)] e(4) by simp
  have d: "decrypt_item (k_siv ?I) key data aad = Inr (pl_dumps (d_plib (p_det V)) (PL_dict p))"
    using encrypted_item_opens [OF S(1) e(3)] assms(1) by (simp add: pipe_ok_def)
  have "pl_loads (d_plib (p_det V)) (pl_dumps (d_plib (p_det V)) (PL_dict p)) = Some (PL_dict p)"
    using S(2) assms(3) by (simp add: plib_ok_def)
  then show ?thesis
    unfolding decrypt_one_def g record_aad_own using b64_wrapped_ne [OF S(1) e(4)] by (simp add: S(3) u e(2) d)
qed

text \<open>An item sealed under a class key as a client writes it.\<close>

definition sealed_under :: "pipe_env \<Rightarrow> ustr \<Rightarrow> bytes \<Rightarrow> ckrec \<Rightarrow> pdict \<Rightarrow> bool" where
  "sealed_under V kid ck it p \<longleftrightarrow> plist_wf (PL_dict p) \<and> get_str it (ascii ''parentkeyref'') = Some kid \<and>
     (\<exists>r iv key pad c. encrypt_item_record (p_items V) r ck (PL_dict p) iv key pad = Inr c \<and>
        it = r\<lparr>rec_fields := with_ciphertext c (rec_fields r)\<rparr>)"

text \<open>
  C21 (the chain of keys opens what was sealed under it). With the key of the view, the class key wrapped by it
  unwraps, and every item sealed under that class key comes back as the property list it was made of:
  all of them, in order.
\<close>

theorem key_chain_opens:
  assumes "pipe_ok V" and "dget tlks tid = Some (PBytes tlk)" and "siv_wrap (k_siv (p_items V)) tlk ck [] = Inr w"
    and "get_str sk (ascii ''parentkeyref'') = Some tid" and "get_str sk (ascii ''wrappedkey'') = Some (b64_text w)"
    and "list_all2 (sealed_under V (rec_name sk) ck) items ps"
  shows "bindE (unwrap_class_keys V [sk] tlks []) (\<lambda>ks. decrypt_items V items ks) = Inr ps"
proof -
  have S: "siv_ok (k_siv (p_items V))" "k_b64 (p_items V) (b64_text w) = Some w"
    using assms(1) by (auto simp: pipe_ok_def item_env_ok_def)
  have u: "siv_unwrap (k_siv (p_items V)) tlk w [] = Inr ck" using siv_unwrap_wrap [OF S(1)] assms(3) by simp
  have k: "unwrap_class_keys V [sk] tlks [] = Inr (dset (rec_name sk) ck [])"
    using b64_wrapped_ne [OF S(1) assms(3)] by (simp add: assms(2,4,5) pval_bytes_def S(2) u)
  have "decrypt_one V (dset (rec_name sk) ck []) it = Inr p" if sealed: "sealed_under V (rec_name sk) ck it p" for it p
  proof -
    obtain r iv key pad c where c: "encrypt_item_record (p_items V) r ck (PL_dict p) iv key pad = Inr c"
        "it = r\<lparr>rec_fields := with_ciphertext c (rec_fields r)\<rparr>" "plist_wf (PL_dict p)" "get_str it (ascii ''parentkeyref'') = Some (rec_name sk)"
      using sealed by (auto simp: sealed_under_def)
    have "class_key_of (dset (rec_name sk) ck []) r = Some ck"
      using c(4) by (simp add: class_key_of_def c(2) get_str_def with_ciphertext_def)
    then show ?thesis unfolding c(2) by (rule sealed_item_opens [OF assms(1) c(1,3)])
  qed
  then have "decrypt_items V items (dset (rec_name sk) ck []) = Inr ps"
    using assms(6) unfolding decrypt_items_def mapE_all2 by (simp add: list.rel_mono_strong)
  then show ?thesis unfolding k bindE.simps .
qed

definition example_pipe :: pipe_env where
  "example_pipe = \<lparr>p_items = example_items, p_det = example_det\<lparr>d_plib := coded_plib\<rparr>, p_b64 = k_b64 example_items,
     p_ecies = \<lparr>ec_exchange = (\<lambda>b. None), ec_gcm = (\<lambda>k iv c. None), ec_hash = (\<lambda>b. [])\<rparr>, p_depth = 1000\<rparr>"

lemma example_pipe_ok: "pipe_ok example_pipe"
  using example_items_ok by (simp add: pipe_ok_def example_pipe_def item_env_ok_def) (simp add: example_items_def)

theorem key_chain_opens_witness:
  "\<exists>w it. bindE (unwrap_class_keys example_pipe
     [\<lparr>rec_name = ascii ''P'', rec_type = ascii ''synckey'', rec_fields =
        [(ascii ''parentkeyref'', CK_str (ascii ''T'')), (ascii ''wrappedkey'', CK_str (b64_text w))], rec_etag = None\<rparr>]
     [(ascii ''T'', PBytes [9])] []) (\<lambda>ks. decrypt_items example_pipe [it] ks) = Inr [example_login]"
proof -
  obtain c where c: "encrypt_item_record example_items example_stub [1] (PL_dict example_login) (replicate 16 2) (replicate 64 3) None = Inr c"
    using example_encrypts by blast
  have k: "key_ok ''acct''" "key_ok ''v_Data''" "key_ok ''mdat''"
    by (simp_all add: key_ok_def utf8_of_def utf8_decode_def decode_loop8.simps ascii_def Let_def)
  have wf: "plist_wf (PL_dict example_login)" by (simp add: example_login_def dict_ok_def k scalar_def ascii_def)
  let ?it = "example_stub\<lparr>rec_fields := with_ciphertext c (rec_fields example_stub)\<rparr>"
  have "get_str ?it (ascii ''parentkeyref'') = Some (ascii ''P'')"
    by (simp add: get_str_def with_ciphertext_def example_stub_def) (simp add: dget_def)
  then have "sealed_under example_pipe (ascii ''P'') [1] ?it example_login"
    unfolding sealed_under_def
    by (intro conjI exI [of _ example_stub] exI [of _ "replicate 16 2"] exI [of _ "replicate 64 3"] exI [of _ None] exI [of _ c] wf refl)
      (simp_all add: example_pipe_def c)
  moreover obtain w where w: "siv_wrap (k_siv (p_items example_pipe)) [9] [1] [] = Inr w"
    by (simp add: example_pipe_def example_items_def siv_wrap_def tag_siv_def)
  let ?sk = "\<lparr>rec_name = ascii ''P'', rec_type = ascii ''synckey'', rec_fields =
        [(ascii ''parentkeyref'', CK_str (ascii ''T'')), (ascii ''wrappedkey'', CK_str (b64_text w))], rec_etag = None\<rparr>"
  have "dget [(ascii ''T'', PBytes [9])] (ascii ''T'') = Some (PBytes [9])"
      "get_str ?sk (ascii ''parentkeyref'') = Some (ascii ''T'')" "get_str ?sk (ascii ''wrappedkey'') = Some (b64_text w)"
    by (simp_all add: dget_def get_str_def)
  ultimately have "bindE (unwrap_class_keys example_pipe [?sk] [(ascii ''T'', PBytes [9])] []) (\<lambda>ks. decrypt_items example_pipe [?it] ks) = Inr [example_login]"
    by (intro key_chain_opens [OF example_pipe_ok _ w]) simp_all
  then show ?thesis by blast
qed

text \<open>Nothing is dropped: an item that does not open refuses the whole fetch.\<close>

lemma snapshot_whole: "decrypt_items V items ks = Inr ps \<Longrightarrow> length ps = length items \<and> (\<forall>i < length items. decrypt_one V ks (items ! i) = Inr (ps ! i))"
  by (auto simp: decrypt_items_def mapE_all2 list_all2_conv_all_nth)

end
