(* ===== verification/ZoneSync.thy ===== *)
theory ZoneSync
  imports Pipeline
begin

text \<open>
  Fetching the zones: \<^verbatim>\<open>OctagonClient.sync_keychain\<close> of \<^verbatim>\<open>backend/icp/octagon/client.py\<close> and \<^verbatim>\<open>refetch\<close> of
  \<^verbatim>\<open>backend/icp/cli/push.py\<close>. The service's answer may depend on every request sent so far. A loop over
  pages need not end, so it is a partial function: \<open>None\<close> is a fetch that never returns.
\<close>

datatype fetch_reply = F_page bytes | F_cloudkit "int option" "ustr list" | F_other

type_synonym zone_server = "bytes list \<Rightarrow> fetch_reply"

definition KEYCHAIN_ZONES :: "string list" where
  "KEYCHAIN_ZONES = [''Passwords'', ''Manatee'', ''Engram'', ''SecureObjectSync'', ''ProtectedCloudStorage'', ''CreditCards'',
     ''ApplePay'', ''WiFi'', ''Home'', ''Groups'', ''Contacts'', ''Mail'', ''LimitedPeersAllowed'', ''SE-PTC'', ''Photos'']"

definition CREDENTIAL_ZONES :: "string list" where
  "CREDENTIAL_ZONES = [''Passwords'', ''Manatee'']"

definition ABSENT_ZONE_CODES :: "int list" where
  "ABSENT_ZONE_CODES = [26, 28]"

definition is_absent_optional_zone :: "unidb \<Rightarrow> int option \<Rightarrow> ustr list \<Rightarrow> bool" where
  "is_absent_optional_zone db code texts \<longleftrightarrow>
     (case code of Some c \<Rightarrow> c \<in> set ABSENT_ZONE_CODES | None \<Rightarrow> False) \<or>
     (let t = concat (words (filter (\<lambda>c. c \<noteq> 95 \<and> c \<noteq> 45) (ulower db (join [32] texts)))) in
      list_ex (\<lambda>tok. contains t (ascii tok)) [''zonenotfound'', ''zonedoesnotexist'', ''unknownzone'', ''userdeletedzone''])"

subsection \<open>One zone\<close>

datatype zone_end = Z_done "ckrec list" | Z_octagon | Z_cloudkit "int option" "ustr list" bool | Z_other

definition token_of :: "pval option \<Rightarrow> bytes option option" where
  "token_of tk = (case tk of None \<Rightarrow> Some None | Some (PBytes b) \<Rightarrow> Some (Some b) | Some (PInt n) \<Rightarrow> None)"

definition no_token :: "pval option \<Rightarrow> bool" where
  "no_token t \<longleftrightarrow> t = None \<or> t = Some (PBytes []) \<or> t = Some (PInt 0)"

definition page_request :: "bytes \<Rightarrow> bytes option \<Rightarrow> bytes" where
  "page_request zid tok = build_retrieve_changes_request zid tok 500"

partial_function (option) fetch_zone ::
  "zone_server \<Rightarrow> bytes \<Rightarrow> pval option \<Rightarrow> pval option list \<Rightarrow> ckrec list \<Rightarrow> bool \<Rightarrow> bytes list \<Rightarrow> (zone_end \<times> bytes list) option" where
  "fetch_zone srv zid tk seen recs accepted tr =
     (case token_of tk of
        None \<Rightarrow> Some (Z_other, tr)
      | Some tok \<Rightarrow> (let tr1 = tr @ [page_request zid tok] in
          case srv tr1 of
            F_cloudkit c t \<Rightarrow> Some (Z_cloudkit c t accepted, tr1)
          | F_other \<Rightarrow> Some (Z_other, tr1)
          | F_page raw \<Rightarrow> (case parse_retrieve_changes_response raw of
              None \<Rightarrow> Some (Z_other, tr1)
            | Some (rs, token, status) \<Rightarrow>
                if status = Some (PInt 1)
                then (if no_token token \<or> token \<in> set seen then Some (Z_octagon, tr1)
                  else fetch_zone srv zid token (token # seen) (recs @ rs) True tr1)
                else if status \<noteq> Some (PInt 3) then Some (Z_octagon, tr1)
                else Some (Z_done (recs @ rs), tr1))))"

subsection \<open>Every zone\<close>

definition group_records :: "(ustr \<times> ckrec list) list \<Rightarrow> ckrec list \<Rightarrow> (ustr \<times> ckrec list) list" where
  "group_records grouped rs =
     foldl (\<lambda>g r. dset (rec_type r) ((case dget g (rec_type r) of None \<Rightarrow> [] | Some l \<Rightarrow> l) @ [r]) g) grouped rs"

text \<open>The zones that failed are counted; a failure of any ends the sync with \<^verbatim>\<open>OctagonError\<close>.\<close>

definition zone_absent :: "unidb \<Rightarrow> string \<Rightarrow> int option \<Rightarrow> ustr list \<Rightarrow> bool \<Rightarrow> bool" where
  "zone_absent db zone c t accepted \<longleftrightarrow> zone \<notin> set CREDENTIAL_ZONES \<and> \<not> accepted \<and> is_absent_optional_zone db c t"

fun sync_zones ::
  "unidb \<Rightarrow> zone_server \<Rightarrow> ustr \<Rightarrow> string list \<Rightarrow> (ustr \<times> ckrec list) list \<Rightarrow> nat \<Rightarrow> bytes list \<Rightarrow>
   ((pipe_error + (ustr \<times> ckrec list) list) \<times> bytes list) option" where
  "sync_zones db srv user [] grouped failures tr = Some (if failures > 0 then Inl Pe_pipeline else Inr grouped, tr)"
| "sync_zones db srv user (zone # zones) grouped failures tr =
     (case record_zone_identifier (ascii zone) user of
        None \<Rightarrow> Some (Inl Pe_other, tr)
      | Some zid \<Rightarrow> Option.bind (fetch_zone srv zid None [] [] False tr) (\<lambda>(e, tr1). case e of
          Z_octagon \<Rightarrow> Some (Inl Pe_pipeline, tr1)
        | Z_done rs \<Rightarrow> sync_zones db srv user zones (group_records grouped rs) failures tr1
        | Z_cloudkit c t accepted \<Rightarrow> sync_zones db srv user zones grouped
            (if zone_absent db zone c t accepted then failures else failures + 1) tr1
        | Z_other \<Rightarrow> sync_zones db srv user zones grouped (failures + 1) tr1))"

definition sync_keychain :: "unidb \<Rightarrow> zone_server \<Rightarrow> ustr \<Rightarrow> bytes list \<Rightarrow>
    ((pipe_error + (ustr \<times> ckrec list) list) \<times> bytes list) option" where
  "sync_keychain db srv user tr = sync_zones db srv user KEYCHAIN_ZONES [] 0 tr"

subsection \<open>Reading one zone back\<close>

partial_function (option) fetch_items ::
  "zone_server \<Rightarrow> bytes \<Rightarrow> pval option \<Rightarrow> ckrec list \<Rightarrow> bytes list \<Rightarrow> ((pipe_error + ckrec list) \<times> bytes list) option" where
  "fetch_items srv zid tk items tr =
     (case token_of tk of
        None \<Rightarrow> Some (Inl Pe_other, tr)
      | Some tok \<Rightarrow> (let tr1 = tr @ [page_request zid tok] in
          case srv tr1 of
            F_page raw \<Rightarrow> (case parse_retrieve_changes_response raw of
                None \<Rightarrow> Some (Inl Pe_other, tr1)
              | Some (rs, token, status) \<Rightarrow>
                  (let items1 = items @ filter (\<lambda>r. rec_type r = ascii ''item'') rs in
                   if status \<noteq> Some (PInt 1) \<or> no_token token then Some (Inr items1, tr1)
                   else fetch_items srv zid token items1 tr1))
          | _ \<Rightarrow> Some (Inl Pe_other, tr1)))"

definition refetch ::
  "pipe_env \<Rightarrow> zone_server \<Rightarrow> ustr \<Rightarrow> (ustr \<times> bytes) list \<Rightarrow> string \<Rightarrow> bytes list \<Rightarrow> ((pipe_error + cred list) \<times> bytes list) option" where
  "refetch V srv user ks zone tr = (case record_zone_identifier (ascii zone) user of
      None \<Rightarrow> Some (Inl Pe_other, tr)
    | Some zid \<Rightarrow> map_option (\<lambda>(r, tr1). (bindE r (\<lambda>items. bindE (decrypt_items V items ks) (\<lambda>its.
        case from_items (p_det V) (map PL_dict its) of None \<Rightarrow> Inl Pe_other | Some (cs, _) \<Rightarrow> Inr cs)), tr1))
        (fetch_items srv zid None [] tr))"

lemma group_records_Nil [simp]: "group_records g [] = g"
  by (simp add: group_records_def)

subsection \<open>A fetched zone is whole\<close>

text \<open>
  The pages of a zone from a token on: each answered, each but the last announcing the next, the last
  final. The records are those of all of them.
\<close>

inductive zone_pages :: "zone_server \<Rightarrow> bytes \<Rightarrow> pval option \<Rightarrow> bytes list \<Rightarrow> ckrec list \<Rightarrow> bytes list \<Rightarrow> bool" for srv zid where
  last_page: "token_of tk = Some tok \<Longrightarrow> srv (tr @ [page_request zid tok]) = F_page raw \<Longrightarrow>
    parse_retrieve_changes_response raw = Some (rs, t, Some (PInt 3)) \<Longrightarrow>
    zone_pages srv zid tk tr rs (tr @ [page_request zid tok])"
| next_page: "token_of tk = Some tok \<Longrightarrow> srv (tr @ [page_request zid tok]) = F_page raw \<Longrightarrow>
    parse_retrieve_changes_response raw = Some (rs, t, Some (PInt 1)) \<Longrightarrow>
    zone_pages srv zid t (tr @ [page_request zid tok]) rs' tr' \<Longrightarrow>
    zone_pages srv zid tk tr (rs @ rs') tr'"

lemma fetch_zone_pages:
  assumes "fetch_zone srv zid tk seen recs accepted tr = Some y"
  shows "\<forall>all. fst y = Z_done all \<longrightarrow> (\<exists>rs. all = recs @ rs \<and> zone_pages srv zid tk tr rs (snd y))"
  using assms
proof (rule fetch_zone.raw_induct [rotated])
  fix f srv zid tk seen recs accepted tr y
  assume IH: "\<And>srv zid tk seen recs accepted tr y. f srv zid tk seen recs accepted tr = Some y \<Longrightarrow>
      \<forall>all. fst y = Z_done all \<longrightarrow> (\<exists>rs. all = recs @ rs \<and> zone_pages srv zid tk tr rs (snd y))"
    and body: "(case token_of tk of
        None \<Rightarrow> Some (Z_other, tr)
      | Some tok \<Rightarrow> (let tr1 = tr @ [page_request zid tok] in
          case srv tr1 of
            F_page raw \<Rightarrow> (case parse_retrieve_changes_response raw of
              None \<Rightarrow> Some (Z_other, tr1)
            | Some (rs, token, status) \<Rightarrow>
                if status = Some (PInt 1)
                then (if no_token token \<or> token \<in> set seen then Some (Z_octagon, tr1)
                  else f srv zid token (token # seen) (recs @ rs) True tr1)
                else if status \<noteq> Some (PInt 3) then Some (Z_octagon, tr1)
                else Some (Z_done (recs @ rs), tr1))
          | F_cloudkit c t \<Rightarrow> Some (Z_cloudkit c t accepted, tr1)
          | F_other \<Rightarrow> Some (Z_other, tr1))) = Some y"
  show "\<forall>all. fst y = Z_done all \<longrightarrow> (\<exists>rs. all = recs @ rs \<and> zone_pages srv zid tk tr rs (snd y))"
  proof (intro allI impI)
    fix all
    assume fin: "fst y = Z_done all"
    obtain tok where tok: "token_of tk = Some tok" using body fin by (auto split: option.splits)
    let ?tr1 = "tr @ [page_request zid tok]"
    obtain raw where raw: "srv ?tr1 = F_page raw" using body fin by (auto simp: tok Let_def split: fetch_reply.splits)
    obtain rs token status where page: "parse_retrieve_changes_response raw = Some (rs, token, status)"
      using body fin by (auto simp: tok raw Let_def split: option.splits)
    show "\<exists>rs. all = recs @ rs \<and> zone_pages srv zid tk tr rs (snd y)"
    proof (cases "status = Some (PInt 1)")
      case True
      then have "f srv zid token (token # seen) (recs @ rs) True ?tr1 = Some y"
        using body fin by (auto simp: tok raw page Let_def split: if_splits)
      from IH [OF this] fin obtain rs' where "all = (recs @ rs) @ rs'" "zone_pages srv zid token ?tr1 rs' (snd y)" by blast
      moreover have "parse_retrieve_changes_response raw = Some (rs, token, Some (PInt 1))" using page True by simp
      ultimately have "zone_pages srv zid tk tr (rs @ rs') (snd y)" using tok raw by (blast intro: next_page)
      then show ?thesis using \<open>all = (recs @ rs) @ rs'\<close> by (intro exI [of _ "rs @ rs'"]) simp
    next
      case False
      then have s: "status = Some (PInt 3)" "y = (Z_done (recs @ rs), ?tr1)"
        using body fin by (auto simp: tok raw page Let_def split: if_splits)
      moreover have "parse_retrieve_changes_response raw = Some (rs, token, Some (PInt 3))" using page s by simp
      ultimately have "zone_pages srv zid tk tr rs ?tr1" using tok raw by (blast intro: last_page)
      then show ?thesis using s(2) fin by auto
    qed
  qed
qed

text \<open>A zone that was left out was not there: the service said so to the first request.\<close>

definition zone_fetched :: "unidb \<Rightarrow> zone_server \<Rightarrow> ustr \<Rightarrow> string \<Rightarrow> ckrec list \<Rightarrow> bool" where
  "zone_fetched db srv user zone rs \<longleftrightarrow> (\<exists>zid tr. record_zone_identifier (ascii zone) user = Some zid \<and>
     ((\<exists>tr'. zone_pages srv zid None tr rs tr') \<or>
      (rs = [] \<and> zone \<notin> set CREDENTIAL_ZONES \<and>
       (\<exists>c t. srv (tr @ [page_request zid None]) = F_cloudkit c t \<and> is_absent_optional_zone db c t))))"

lemma fetch_zone_cloudkit:
  assumes "fetch_zone srv zid tk seen recs accepted tr = Some y"
  shows "\<forall>c t a. fst y = Z_cloudkit c t a \<longrightarrow> a \<or> \<not> accepted \<and>
      (\<exists>tok. token_of tk = Some tok \<and> snd y = tr @ [page_request zid tok] \<and> srv (snd y) = F_cloudkit c t)"
  using assms
proof (rule fetch_zone.raw_induct [rotated])
  fix f srv zid tk seen recs accepted tr y
  assume IH: "\<And>srv zid tk seen recs accepted tr y. f srv zid tk seen recs accepted tr = Some y \<Longrightarrow>
      \<forall>c t a. fst y = Z_cloudkit c t a \<longrightarrow> a \<or> \<not> accepted \<and>
      (\<exists>tok. token_of tk = Some tok \<and> snd y = tr @ [page_request zid tok] \<and> srv (snd y) = F_cloudkit c t)"
    and body: "(case token_of tk of
        None \<Rightarrow> Some (Z_other, tr)
      | Some tok \<Rightarrow> (let tr1 = tr @ [page_request zid tok] in
          case srv tr1 of
            F_page raw \<Rightarrow> (case parse_retrieve_changes_response raw of
              None \<Rightarrow> Some (Z_other, tr1)
            | Some (rs, token, status) \<Rightarrow>
                if status = Some (PInt 1)
                then (if no_token token \<or> token \<in> set seen then Some (Z_octagon, tr1)
                  else f srv zid token (token # seen) (recs @ rs) True tr1)
                else if status \<noteq> Some (PInt 3) then Some (Z_octagon, tr1)
                else Some (Z_done (recs @ rs), tr1))
          | F_cloudkit c t \<Rightarrow> Some (Z_cloudkit c t accepted, tr1)
          | F_other \<Rightarrow> Some (Z_other, tr1))) = Some y"
  have later: "f srv zid tk seen recs True tr = Some y \<Longrightarrow> fst y = Z_cloudkit c t a \<Longrightarrow> a" for srv zid tk seen recs tr c t a
    using IH [of srv zid tk seen recs True tr y] by blast
  show "\<forall>c t a. fst y = Z_cloudkit c t a \<longrightarrow> a \<or> \<not> accepted \<and>
      (\<exists>tok. token_of tk = Some tok \<and> snd y = tr @ [page_request zid tok] \<and> srv (snd y) = F_cloudkit c t)"
    using body by (auto simp: Let_def split: option.splits fetch_reply.splits if_splits dest: later)
qed

lemma sync_zones_fetched:
  "sync_zones db srv user zones grouped failures tr = Some (Inr g, tr') \<Longrightarrow>
   failures = 0 \<and> (\<exists>rss. list_all2 (zone_fetched db srv user) zones rss \<and> g = foldl group_records grouped rss)"
proof (induction zones arbitrary: grouped failures tr)
  case Nil
  then show ?case by (auto split: if_splits)
next
  case (Cons zone zones)
  obtain zid e tr1 where z: "record_zone_identifier (ascii zone) user = Some zid" "fetch_zone srv zid None [] [] False tr = Some (e, tr1)"
    using Cons.prems by (auto simp: bind_eq_Some_conv split: option.splits)
  have "e \<noteq> Z_octagon" using Cons.prems z by auto
  then consider (page) rs where "e = Z_done rs" | (absent) c t a where "e = Z_cloudkit c t a" "zone_absent db zone c t a" |
      (failed) "sync_zones db srv user zones grouped (failures + 1) tr1 = Some (Inr g, tr')"
    using Cons.prems z by (cases e) (auto split: if_splits)
  then show ?case
  proof cases
    case page
    have "sync_zones db srv user zones (group_records grouped rs) failures tr1 = Some (Inr g, tr')"
      using Cons.prems z page by simp
    from Cons.IH [OF this] obtain rss where r: "failures = 0" "list_all2 (zone_fetched db srv user) zones rss"
        "g = foldl group_records (group_records grouped rs) rss" by blast
    have "zone_pages srv zid None tr rs tr1" using fetch_zone_pages [OF z(2)] page by auto
    then have "zone_fetched db srv user zone rs" using z(1) unfolding zone_fetched_def by blast
    then show ?thesis using r by (intro conjI exI [of _ "rs # rss"]) simp_all
  next
    case absent
    have "sync_zones db srv user zones grouped failures tr1 = Some (Inr g, tr')" using Cons.prems z absent by simp
    from Cons.IH [OF this] obtain rss where r: "failures = 0" "list_all2 (zone_fetched db srv user) zones rss"
        "g = foldl group_records grouped rss" by blast
    have "srv (tr @ [page_request zid None]) = F_cloudkit c t"
      using fetch_zone_cloudkit [OF z(2)] absent by (auto simp: token_of_def zone_absent_def)
    then have "zone_fetched db srv user zone []" using z(1) absent(2) unfolding zone_fetched_def zone_absent_def by blast
    then show ?thesis using r by (intro conjI exI [of _ "[] # rss"]) simp_all
  next
    case failed
    from Cons.IH [OF this] show ?thesis by simp
  qed
qed

text \<open>
  C24 (no partial snapshot). A sync that returns its records has fetched every zone to its final page, and the zones that
  hold credentials among them; the only zone it may lack is an optional one of which the service said that it
  does not exist.
\<close>

theorem sync_snapshot_whole:
  assumes "sync_keychain db srv user tr = Some (Inr grouped, tr')"
  shows "\<exists>rss. list_all2 (zone_fetched db srv user) KEYCHAIN_ZONES rss \<and> grouped = foldl group_records [] rss"
  using sync_zones_fetched assms unfolding sync_keychain_def by blast

subsection \<open>A fetch ends\<close>

lemma fetch_zone_ends:
  assumes "finite T" and "\<And>tr raw rs t s. srv tr = F_page raw \<Longrightarrow> parse_retrieve_changes_response raw = Some (rs, t, s) \<Longrightarrow> t \<in> T"
    and "set seen \<subseteq> T"
  shows "fetch_zone srv zid tk seen recs accepted tr \<noteq> None"
  using assms(3)
proof (induction "card (T - set seen)" arbitrary: seen tk recs accepted tr rule: less_induct)
  case less
  show ?case
  proof (cases "\<exists>tok raw rs t. token_of tk = Some tok \<and> srv (tr @ [page_request zid tok]) = F_page raw \<and>
      parse_retrieve_changes_response raw = Some (rs, t, Some (PInt 1)) \<and> \<not> no_token t \<and> t \<notin> set seen")
    case True
    then obtain tok raw rs t where p: "token_of tk = Some tok" "srv (tr @ [page_request zid tok]) = F_page raw"
      "parse_retrieve_changes_response raw = Some (rs, t, Some (PInt 1))" "\<not> no_token t" "t \<notin> set seen" by blast
    have t: "t \<in> T" by (rule assms(2) [OF p(2,3)])
    then have "card (T - set (t # seen)) < card (T - set seen)"
      using assms(1) p(5) by (intro psubset_card_mono) auto
    from less.hyps [OF this, of t "recs @ rs" True "tr @ [page_request zid tok]"] t less.prems
    show ?thesis by (subst fetch_zone.simps) (simp add: p Let_def)
  next
    case False
    then show ?thesis
      by (subst fetch_zone.simps) (auto simp: Let_def split: option.splits fetch_reply.splits if_splits)
  qed
qed

text \<open>
  C40 (a server that repeats itself cannot keep the fetch going). If the continuation tokens a service ever sends are
  finitely many, the fetch of a zone returns.
\<close>

theorem zone_fetch_returns:
  assumes "finite T" and "\<And>tr raw rs t s. srv tr = F_page raw \<Longrightarrow> parse_retrieve_changes_response raw = Some (rs, t, s) \<Longrightarrow> t \<in> T"
  shows "\<exists>e tr'. fetch_zone srv zid None [] [] False tr = Some (e, tr')"
  using fetch_zone_ends [where seen = "[]", OF assms] by auto

subsection \<open>A server that has nothing, and one that repeats itself\<close>

definition final_page :: bytes where "final_page = [0x20, 3]"
definition same_page :: bytes where "same_page = [0x12, 1, 7, 0x20, 1]"

lemma example_pages:
  "parse_retrieve_changes_response final_page = Some ([], None, Some (PInt 3))"
  "parse_retrieve_changes_response same_page = Some ([], Some (PBytes [7]), Some (PInt 1))"
  by code_simp+

lemma example_zone: "fetch_zone (\<lambda>tr. F_page final_page) zid None [] [] False tr = Some (Z_done [], tr @ [page_request zid None])"
  by (subst fetch_zone.simps) (simp add: token_of_def example_pages)

lemma example_zones:
  "(\<And>z. z \<in> set zones \<Longrightarrow> record_zone_identifier (ascii z) user \<noteq> None) \<Longrightarrow>
   \<exists>tr'. sync_zones db (\<lambda>tr. F_page final_page) user zones g 0 tr = Some (Inr g, tr')"
proof (induction zones arbitrary: tr)
  case (Cons z zones)
  then obtain zid where "record_zone_identifier (ascii z) user = Some zid" by fastforce
  then show ?case using Cons by (simp add: example_zone)
qed simp

theorem sync_snapshot_whole_witness:
  "\<exists>rss. list_all2 (zone_fetched ascii_db (\<lambda>tr. F_page final_page) (ascii ''me'')) KEYCHAIN_ZONES rss \<and> [] = foldl group_records [] rss"
proof -
  have "record_zone_identifier (ascii z) (ascii ''me'') \<noteq> None" if "z \<in> set KEYCHAIN_ZONES" for z
    using that unfolding KEYCHAIN_ZONES_def
    by (auto simp: record_zone_identifier_def ck_identifier_def w_string_def ascii_def utf8_encode_def scalar_def)
  from example_zones [OF this] obtain tr' where
    "sync_keychain ascii_db (\<lambda>tr. F_page final_page) (ascii ''me'') [] = Some (Inr [], tr')" unfolding sync_keychain_def by blast
  then show ?thesis by (rule sync_snapshot_whole)
qed

theorem zone_fetch_returns_witness: "\<exists>e tr'. fetch_zone (\<lambda>tr. F_page same_page) [1] None [] [] False [] = Some (e, tr')"
  by (rule zone_fetch_returns [of "{Some (PBytes [7])}"]) (auto simp: example_pages)

end
