(* ===== verification/Push.thy ===== *)
theory Push
  imports ZoneSync "HOL-Library.Char_ord"
begin

text \<open>
  \<^verbatim>\<open>backend/icp/cli/push.py\<close>: one change pushed to the keychain - a password, an entry's details, a rename, a
  new entry, a network, a deletion. The state is the list of requests sent; whether the service accepts one may
  depend on all of them. Random bytes, identifiers and clock readings are numbered by where the code draws them.
\<close>

datatype push_req = Save bytes | Delete bytes

datatype push_error = Pu_push | Pu_item item_error | Pu_value | Pu_transport

record push_env =
  u_pipe :: pipe_env
  u_iv :: "nat \<Rightarrow> bytes"
  u_key :: "nat \<Rightarrow> bytes"
  u_uuid :: "nat \<Rightarrow> ustr"
  u_now :: "nat \<Rightarrow> int"
  u_uploadver :: ustr
  u_reply :: "push_req list \<Rightarrow> bool"

record zone_view =
  z_items :: "ckrec list"
  z_keys :: "(ustr \<times> bytes) list"
  z_user :: ustr

type_synonym 'a push = "push_req list \<Rightarrow> (push_error + 'a) \<times> push_req list"

definition bindP :: "'a push \<Rightarrow> ('a \<Rightarrow> 'b push) \<Rightarrow> 'b push" where
  "bindP m k tr = (case m tr of (Inl e, tr1) \<Rightarrow> (Inl e, tr1) | (Inr x, tr1) \<Rightarrow> k x tr1)"

definition liftP :: "push_error + 'a \<Rightarrow> 'a push" where
  "liftP r tr = (r, tr)"

abbreviation retP :: "'a \<Rightarrow> 'a push" where "retP x \<equiv> liftP (Inr x)"
abbreviation errP :: "push_error \<Rightarrow> 'a push" where "errP e \<equiv> liftP (Inl e)"

definition itemP :: "item_error + 'a \<Rightarrow> 'a push" where
  "itemP r = liftP (case r of Inl e \<Rightarrow> Inl (Pu_item e) | Inr x \<Rightarrow> Inr x)"

abbreviation items_of :: "push_env \<Rightarrow> item_env" where "items_of V \<equiv> p_items (u_pipe V)"
abbreviation det_of :: "push_env \<Rightarrow> det_env" where "det_of V \<equiv> p_det (u_pipe V)"

definition ZONE_PASSWORDS :: string where "ZONE_PASSWORDS = ''Passwords''"
definition ZONE_WIFI :: string where "ZONE_WIFI = ''WiFi''"
definition RECORD_DELETE_VERIFIED :: bool where "RECORD_DELETE_VERIFIED = True"
definition SAVE_SEMANTICS_CREATE :: int where "SAVE_SEMANTICS_CREATE = 2"

subsection \<open>What changed between two property lists\<close>

text \<open>Python's equality of values; numbers compare by value.\<close>

definition num_value :: "det_env \<Rightarrow> plist \<Rightarrow> real option" where
  "num_value E p = (case p of PL_int n \<Rightarrow> Some (of_int n) | PL_bool b \<Rightarrow> Some (if b then 1 else 0)
     | PL_real x \<Rightarrow> Some (d_real E x) | _ \<Rightarrow> None)"

function pl_eq :: "det_env \<Rightarrow> plist \<Rightarrow> plist \<Rightarrow> bool" where
  "pl_eq E (PL_str a) q = (q = PL_str a)"
| "pl_eq E (PL_data a) q = (q = PL_data a)"
| "pl_eq E (PL_date a) q = (q = PL_date a)"
| "pl_eq E (PL_uid a) q = (q = PL_uid a)"
| "pl_eq E (PL_int n) q = (num_value E q = Some (of_int n))"
| "pl_eq E (PL_bool b) q = (num_value E q = Some (if b then 1 else 0))"
| "pl_eq E (PL_real x) q = (num_value E q = Some (d_real E x))"
| "pl_eq E (PL_list a) q = (case q of
      PL_list b \<Rightarrow> length a = length b \<and> list_all (\<lambda>(x, y). pl_eq E x y) (zip a b) | _ \<Rightarrow> False)"
| "pl_eq E (PL_dict a) q = (case q of
      PL_dict b \<Rightarrow> length a = length b \<and> list_all (\<lambda>(k, x). case dget b k of None \<Rightarrow> False | Some y \<Rightarrow> pl_eq E x y) a | _ \<Rightarrow> False)"
  by pat_completeness auto
termination
proof (relation "measure (\<lambda>(E, p, q). size p)", simp)
  fix E :: det_env and a b :: "plist list" and q x xa y
  assume "q = PL_list b" "x \<in> set (zip a b)" "(xa, y) = x"
  then have "xa \<in> set a" by (auto dest: set_zip_leftD)
  then show "((E, xa, y), E, PL_list a, q) \<in> measure (\<lambda>(E, p, q). size p)"
    using size_list_estimation' [of xa a "size xa" size] by simp
next
  fix E :: det_env and a b :: pdict and q z k x y
  assume "q = PL_dict b" "z \<in> set a" "(k, x) = z"
  then have "size x < size (PL_dict a)"
    using size_list_estimation' [of "(k, x)" a "size x" "size_prod (\<lambda>_. 0) size"] by (auto simp: size_list_conv_sum_list)
  then show "((E, x, y), E, PL_dict a, q) \<in> measure (\<lambda>(E, p, q). size p)" by simp
qed

datatype change = Added | Removed | Changed

definition diff_key :: "det_env \<Rightarrow> pdict \<Rightarrow> pdict \<Rightarrow> string \<Rightarrow> (string \<times> change) option" where
  "diff_key E before after k = (case (dget before k, dget after k) of
      (None, None) \<Rightarrow> None
    | (None, Some _) \<Rightarrow> Some (k, Added)
    | (Some _, None) \<Rightarrow> Some (k, Removed)
    | (Some a, Some b) \<Rightarrow> if pl_eq E a b then None else Some (k, Changed))"

definition diff_plists :: "det_env \<Rightarrow> pdict \<Rightarrow> pdict \<Rightarrow> (string \<times> change) list" where
  "diff_plists E before after =
     List.map_filter (diff_key E before after) (sort (remdups (map fst before @ map fst after)))"

definition only_value :: "det_env \<Rightarrow> pdict \<Rightarrow> pdict \<Rightarrow> bool" where
  "only_value E before after \<longleftrightarrow> diff_plists E before after = [(''mdat'', Changed), (''v_Data'', Changed)]"

definition unexpected :: "det_env \<Rightarrow> pdict \<Rightarrow> pdict \<Rightarrow> bool" where
  "unexpected E before after \<longleftrightarrow> \<not> fst ` set (diff_plists E before after) \<subseteq> {''mdat'', ''v_Data''}"

subsection \<open>The records of one account\<close>

type_synonym target = "ckrec \<times> bytes \<times> pdict"

record targets =
  t_password :: "target option"
  t_details :: "target option"

definition names_account :: "det_env \<Rightarrow> pdict \<Rightarrow> ustr \<Rightarrow> ustr \<Rightarrow> bool" where
  "names_account E p domain user \<longleftrightarrow> dget p ''acct'' = Some (PL_str user) \<and> text_at E p ''srvr'' = domain"

definition put_target :: "target \<Rightarrow> targets \<Rightarrow> targets" where
  "put_target t ts = (case dget (snd (snd t)) ''agrp'' of
      Some (PL_str g) \<Rightarrow> if g = ascii AGRP_PASSWORD then ts\<lparr>t_password := Some t\<rparr>
        else if g = ascii AGRP_METADATA then ts\<lparr>t_details := Some t\<rparr> else ts
    | _ \<Rightarrow> ts)"

fun pair_loop :: "push_env \<Rightarrow> zone_view \<Rightarrow> ustr \<Rightarrow> ustr \<Rightarrow> ckrec list \<Rightarrow> targets \<Rightarrow> push_error + targets" where
  "pair_loop V z domain user [] ts = Inr ts"
| "pair_loop V z domain user (r # rs) ts =
     (case class_key_of (z_keys z) r of
        None \<Rightarrow> pair_loop V z domain user rs ts
      | Some ck \<Rightarrow> if get_bytes r (ascii ''data'') = None then pair_loop V z domain user rs ts
          else (case decrypt_item_record (items_of V) r ck of
              Inl e \<Rightarrow> pair_loop V z domain user rs ts
            | Inr (PL_dict p) \<Rightarrow> pair_loop V z domain user rs (if names_account (det_of V) p domain user then put_target (r, ck, p) ts else ts)
            | Inr _ \<Rightarrow> Inl Pu_value))"

definition pair :: "push_env \<Rightarrow> zone_view \<Rightarrow> ustr \<Rightarrow> ustr \<Rightarrow> push_error + targets" where
  "pair V z domain user = pair_loop V z domain user (z_items z) \<lparr>t_password = None, t_details = None\<rparr>"

subsection \<open>Sending\<close>

definition save_request :: "zone_view \<Rightarrow> ustr \<Rightarrow> ustr \<Rightarrow> (ustr \<times> ckval) list \<Rightarrow> bool \<Rightarrow> string \<Rightarrow> bytes option" where
  "save_request z name ty flds create zone = map_option
     (\<lambda>blob. build_record_save_request blob (\<not> create) (if create then SAVE_SEMANTICS_CREATE else SAVE_SEMANTICS_UPDATE))
     (serialize_record name ty flds (z_user z) (ascii zone) [ascii ''parentkeyref''])"

definition send :: "push_env \<Rightarrow> push_req \<Rightarrow> unit push" where
  "send V req tr = (if u_reply V (tr @ [req]) then Inr () else Inl Pu_transport, tr @ [req])"

definition save :: "push_env \<Rightarrow> zone_view \<Rightarrow> ckrec \<Rightarrow> (ustr \<times> ckval) list \<Rightarrow> bool \<Rightarrow> string \<Rightarrow> unit push" where
  "save V z r flds create zone = (case save_request z (rec_name r) (rec_type r) flds create zone of
      None \<Rightarrow> errP Pu_value | Some req \<Rightarrow> send V (Save req))"

text \<open>A new record; \<open>n\<close> numbers what it draws at random.\<close>

definition create_record :: "push_env \<Rightarrow> zone_view \<Rightarrow> nat \<Rightarrow> bytes \<Rightarrow> ustr \<Rightarrow> pdict \<Rightarrow> string \<Rightarrow> unit push" where
  "create_record V z n ck parent p zone =
     (let name = d_upper (det_of V) (u_uuid V n) in
      bindP (itemP (new_item_fields (items_of V) ck parent (PL_dict p) name (u_uploadver V) (u_iv V n) (u_key V n))) (\<lambda>flds.
        save V z \<lparr>rec_name = name, rec_type = ascii ''item'', rec_fields = flds, rec_etag = None\<rparr> flds True zone))"

text \<open>The record of a target with a new property list.\<close>

definition rewrite_record :: "push_env \<Rightarrow> zone_view \<Rightarrow> nat \<Rightarrow> target \<Rightarrow> pdict \<Rightarrow> unit push" where
  "rewrite_record V z n t p = (case t of (r, ck, _) \<Rightarrow>
     bindP (itemP (encrypt_item_record (items_of V) r ck (PL_dict p) (u_iv V n) (u_key V n) None)) (\<lambda>c.
       save V z r (with_ciphertext c (rec_fields r)) False ZONE_PASSWORDS))"

subsection \<open>A password\<close>

definition push_history :: "push_env \<Rightarrow> zone_view \<Rightarrow> target \<Rightarrow> ustr \<Rightarrow> bool \<Rightarrow> unit push" where
  "push_history V z t new newest_first =
     bindP (itemP (set_password_history (det_of V) (snd (snd t)) new (u_now V 1) newest_first (u_uuid V 0))) (\<lambda>p.
       if \<not> only_value (det_of V) (snd (snd t)) p then errP Pu_push else rewrite_record V z 1 t p)"

text \<open>A history that could not be written is only logged: the password is already live.\<close>

definition tolerate :: "unit push \<Rightarrow> nat \<Rightarrow> nat push" where
  "tolerate m n tr = (case m tr of (Inl e, tr1) \<Rightarrow> (Inr n, tr1) | (Inr _, tr1) \<Rightarrow> (Inr (n + 1), tr1))"

definition push_password :: "push_env \<Rightarrow> zone_view \<Rightarrow> ustr \<Rightarrow> ustr \<Rightarrow> ustr \<Rightarrow> bool \<Rightarrow> nat push" where
  "push_password V z domain user new newest_first =
     bindP (liftP (pair V z domain user)) (\<lambda>ts. case t_password ts of
       None \<Rightarrow> errP Pu_push
     | Some (r, ck, _) \<Rightarrow>
         bindP (itemP (set_password (items_of V) r ck new (u_now V 0) (u_iv V 0) (u_key V 0))) (\<lambda>(flds, before, after).
           if \<not> only_value (det_of V) before after then errP Pu_push
           else bindP (save V z r flds False ZONE_PASSWORDS) (\<lambda>_. case t_details ts of
               None \<Rightarrow> retP 1
             | Some t \<Rightarrow> tolerate (push_history V z t new newest_first) 1)))"

subsection \<open>Details and names\<close>

definition landed_text :: "push_env \<Rightarrow> pdict \<Rightarrow> ustr" where
  "landed_text V p = (case parse_meta (det_of V) (dget p ''v_Data'') of None \<Rightarrow> [] | Some m \<Rightarrow> notes_of (det_of V) m)"

definition new_details :: "push_env \<Rightarrow> pdict \<Rightarrow> ustr \<Rightarrow> ustr \<Rightarrow> edits \<Rightarrow> item_error + pdict" where
  "new_details V p domain user e =
     (let t0 = (case ed_notes e of None \<Rightarrow> [] | Some n \<Rightarrow> n);
          t1 = (case ed_tags e of None \<Rightarrow> t0 | Some ts \<Rightarrow> replace_tags (d_db (det_of V)) t0 ts);
          t2 = (case ed_body e of None \<Rightarrow> t1 | Some b \<Rightarrow> replace_body (d_db (det_of V)) t1 (strip_nl b)) in
      new_metadata_plist (det_of V) domain user [] t2 (case ed_sites e of None \<Rightarrow> [] | Some ss \<Rightarrow> ss) (ed_totp e)
        (py_str (det_of V) (or_else (dget p ''ptcl'') (lit ''htps''))) (u_now V 0))"

text \<open>It returns the text \<^verbatim>\<open>details_landed\<close> compares.\<close>

definition push_details :: "push_env \<Rightarrow> zone_view \<Rightarrow> ustr \<Rightarrow> ustr \<Rightarrow> edits \<Rightarrow> ustr push" where
  "push_details V z domain user e =
     bindP (liftP (pair V z domain user)) (\<lambda>ts. case t_password ts of
       None \<Rightarrow> errP Pu_push
     | Some (r, ck, p) \<Rightarrow> (case t_details ts of
           Some t \<Rightarrow> bindP (itemP (edit_details (det_of V) (snd (snd t)) e (u_now V 0) (u_now V 1))) (\<lambda>edited.
             if unexpected (det_of V) (snd (snd t)) edited then errP Pu_push
             else bindP (rewrite_record V z 0 t edited) (\<lambda>_. retP (landed_text V edited)))
         | None \<Rightarrow> bindP (itemP (new_details V p domain user e)) (\<lambda>edited.
             bindP (create_record V z 0 ck (case get_str r (ascii ''parentkeyref'') of None \<Rightarrow> [] | Some k \<Rightarrow> k) edited ZONE_PASSWORDS)
               (\<lambda>_. retP (landed_text V edited)))))"

definition notes_editable :: "push_env \<Rightarrow> zone_view \<Rightarrow> ustr \<Rightarrow> ustr \<Rightarrow> push_error + bool" where
  "notes_editable V z domain user = bindE (pair V z domain user) (\<lambda>ts. Inr (case t_details ts of
      None \<Rightarrow> True
    | Some (_, _, p) \<Rightarrow> (case blob_of p of
        Inr b \<Rightarrow> (case pl_loads (d_plib (det_of V)) b of
            Some (PL_dict m) \<Rightarrow> stored_notes (det_of V) m True \<noteq> Inl It_notes | _ \<Rightarrow> True)
      | Inl _ \<Rightarrow> True)))"

definition details_landed :: "unidb \<Rightarrow> cred \<Rightarrow> ustr \<Rightarrow> edits \<Rightarrow> ustr option \<Rightarrow> bool" where
  "details_landed db c domain e raw \<longleftrightarrow>
     (case ed_notes e of None \<Rightarrow> True | Some n \<Rightarrow> cr_notes c = strip_nl n) \<and>
     (case raw of None \<Rightarrow> True | Some t \<Rightarrow> cr_notes c = t) \<and>
     (case ed_sites e of None \<Rightarrow> True | Some ss \<Rightarrow> cr_sites c = filter (\<lambda>s. s \<noteq> domain) (clean_sites db ss)) \<and>
     (case ed_totp e of None \<Rightarrow> True | Some cfg \<Rightarrow> (cr_totp c \<noteq> None) = (cfg \<noteq> []))"

definition push_nickname :: "push_env \<Rightarrow> zone_view \<Rightarrow> ustr \<Rightarrow> ustr \<Rightarrow> ustr \<Rightarrow> bool push" where
  "push_nickname V z domain user name =
     bindP (liftP (pair V z domain user)) (\<lambda>ts. case t_details ts of
       None \<Rightarrow> retP False
     | Some t \<Rightarrow> bindP (itemP (set_title (det_of V) (snd (snd t)) name (u_now V 0))) (\<lambda>renamed.
         if unexpected (det_of V) (snd (snd t)) renamed then errP Pu_push
         else bindP (rewrite_record V z 0 t renamed) (\<lambda>_. retP True)))"

subsection \<open>New entries and networks\<close>

definition entry_site :: "push_env \<Rightarrow> ustr \<Rightarrow> ustr \<Rightarrow> push_error + ustr" where
  "entry_site V site title = (case clean_sites (d_db (det_of V)) [site] of
      s # _ \<Rightarrow> Inr s
    | [] \<Rightarrow> if squash title \<noteq> [] then Inr (d_upper (det_of V) (u_uuid V 0)) else Inl Pu_push)"

text \<open>How many records of a kind hang off each class key, in the order first seen.\<close>

definition count_parent :: "ustr \<Rightarrow> (ustr \<times> nat) list \<Rightarrow> (ustr \<times> nat) list" where
  "count_parent k ps = dset k ((case dget ps k of None \<Rightarrow> 0 | Some n \<Rightarrow> n) + 1) ps"

definition opened :: "push_env \<Rightarrow> zone_view \<Rightarrow> ckrec \<Rightarrow> plist option" where
  "opened V z r = (case class_key_of (z_keys z) r of None \<Rightarrow> None
     | Some ck \<Rightarrow> (case decrypt_item_record (items_of V) r ck of Inl _ \<Rightarrow> None | Inr p \<Rightarrow> Some p))"

definition password_parents :: "push_env \<Rightarrow> zone_view \<Rightarrow> (ustr \<times> nat) list" where
  "password_parents V z = foldl (\<lambda>ps r. case (opened V z r, get_str r (ascii ''parentkeyref'')) of
      (Some (PL_dict p), Some k) \<Rightarrow> if dget p ''agrp'' = Some (lit AGRP_PASSWORD) then count_parent k ps else ps
    | _ \<Rightarrow> ps) [] (z_items z)"

definition most_used :: "(ustr \<times> nat) list \<Rightarrow> ustr" where
  "most_used ps = fst (foldl (\<lambda>best p. if snd best < snd p then p else best) (hd ps) (tl ps))"

definition class_key_named :: "zone_view \<Rightarrow> ustr \<Rightarrow> push_error + bytes" where
  "class_key_named z k = (case dget (z_keys z) k of None \<Rightarrow> Inl Pu_value | Some ck \<Rightarrow> Inr ck)"

definition create_entry ::
  "push_env \<Rightarrow> zone_view \<Rightarrow> ustr \<Rightarrow> ustr \<Rightarrow> ustr \<Rightarrow> ustr \<Rightarrow> ustr \<Rightarrow> ustr list \<Rightarrow> pdict option \<Rightarrow> nat push" where
  "create_entry V z site user password title notes_text sites totp =
     (if site = [] \<or> password = [] then errP Pu_push
      else bindP (liftP (pair V z site user)) (\<lambda>ts.
        if t_password ts \<noteq> None \<or> t_details ts \<noteq> None then errP Pu_push
        else (let ps = password_parents V z in
          if ps = [] then errP Pu_push
          else (let parent = most_used ps in
            bindP (liftP (class_key_named z parent)) (\<lambda>ck.
            bindP (itemP (new_password_plist site user password (u_now V 0))) (\<lambda>p.
            bindP (create_record V z 0 ck parent p ZONE_PASSWORDS) (\<lambda>_.
            bindP (itemP (new_metadata_plist (det_of V) site user title notes_text sites totp (ascii ''htps'') (u_now V 1))) (\<lambda>m.
            bindP (create_record V z 1 ck parent m ZONE_PASSWORDS) (\<lambda>_. retP 2)))))))))"

text \<open>The networks already there; one with the same name refuses the new one.\<close>

fun wifi_parents :: "push_env \<Rightarrow> zone_view \<Rightarrow> ustr \<Rightarrow> ckrec list \<Rightarrow> (ustr \<times> nat) list \<Rightarrow> push_error + (ustr \<times> nat) list" where
  "wifi_parents V z ssid [] ps = Inr ps"
| "wifi_parents V z ssid (r # rs) ps = (case (opened V z r, get_str r (ascii ''parentkeyref'')) of
      (Some (PL_dict p), Some k) \<Rightarrow>
        if dget p ''svce'' = Some (lit ''AirPort'')
        then (if dget p ''acct'' = Some (PL_str ssid) then Inl Pu_push else wifi_parents V z ssid rs (count_parent k ps))
        else wifi_parents V z ssid rs ps
    | (Some _, Some _) \<Rightarrow> Inl Pu_value
    | _ \<Rightarrow> wifi_parents V z ssid rs ps)"

definition create_wifi :: "push_env \<Rightarrow> zone_view \<Rightarrow> ustr \<Rightarrow> ustr \<Rightarrow> nat push" where
  "create_wifi V z ssid0 password =
     (let ssid = strip ssid0 in
      if ssid = [] \<or> password = [] then errP Pu_push
      else bindP (liftP (wifi_parents V z ssid (z_items z) [])) (\<lambda>ps.
        if ps = [] then errP Pu_push
        else bindP (liftP (class_key_named z (most_used ps))) (\<lambda>ck.
          bindP (itemP (new_wifi_plist ssid password (u_now V 0))) (\<lambda>p.
          bindP (create_record V z 0 ck (most_used ps) p ZONE_WIFI) (\<lambda>_. retP 1)))))"

subsection \<open>Deleting\<close>

definition build_record_delete_request :: "ustr \<Rightarrow> ustr \<Rightarrow> ustr \<Rightarrow> bytes option" where
  "build_record_delete_request name user zone = map_option (\<lambda>i. w_message 1 (Some i) []) (record_identifier name user zone)"

definition delete_record :: "push_env \<Rightarrow> zone_view \<Rightarrow> target \<Rightarrow> unit push" where
  "delete_record V z t = (case build_record_delete_request (rec_name (fst t)) (z_user z) (ascii ZONE_PASSWORDS) of
      None \<Rightarrow> errP Pu_value | Some req \<Rightarrow> send V (Delete req))"

definition delete_entry :: "push_env \<Rightarrow> zone_view \<Rightarrow> ustr \<Rightarrow> ustr \<Rightarrow> nat push" where
  "delete_entry V z domain user =
     (if \<not> RECORD_DELETE_VERIFIED then errP Pu_push
      else bindP (liftP (pair V z domain user)) (\<lambda>ts. case t_password ts of
        None \<Rightarrow> errP Pu_push
      | Some t \<Rightarrow> (case t_details ts of
          None \<Rightarrow> bindP (delete_record V z t) (\<lambda>_. retP 1)
        | Some d \<Rightarrow> bindP (delete_record V z d) (\<lambda>_. bindP (delete_record V z t) (\<lambda>_. retP 2)))))"

subsection \<open>An edit stays in its account\<close>

text \<open>A record of the account, opened with its class key.\<close>

definition account_item :: "push_env \<Rightarrow> zone_view \<Rightarrow> ustr \<Rightarrow> ustr \<Rightarrow> string \<Rightarrow> target \<Rightarrow> bool" where
  "account_item V z domain user g t \<longleftrightarrow> (case t of (r, ck, p) \<Rightarrow> r \<in> set (z_items z) \<and> class_key_of (z_keys z) r = Some ck \<and>
     decrypt_item_record (items_of V) r ck = Inr (PL_dict p) \<and> dget p ''acct'' = Some (PL_str user) \<and>
     text_at (det_of V) p ''srvr'' = domain \<and>
     dget p ''agrp'' = Some (lit g))"

definition targets_ok :: "push_env \<Rightarrow> zone_view \<Rightarrow> ustr \<Rightarrow> ustr \<Rightarrow> targets \<Rightarrow> bool" where
  "targets_ok V z domain user ts \<longleftrightarrow>
     (\<forall>t. t_password ts = Some t \<longrightarrow> account_item V z domain user AGRP_PASSWORD t) \<and>
     (\<forall>t. t_details ts = Some t \<longrightarrow> account_item V z domain user AGRP_METADATA t)"

lemma put_target_ok:
  assumes "targets_ok V z d u ts" and "r \<in> set (z_items z)" and "class_key_of (z_keys z) r = Some ck"
    and "decrypt_item_record (items_of V) r ck = Inr (PL_dict p)" and "names_account (det_of V) p d u"
  shows "targets_ok V z d u (put_target (r, ck, p) ts)"
  using assms by (auto simp: put_target_def targets_ok_def account_item_def names_account_def split: option.splits plist.splits)

lemma pair_loop_ok:
  "pair_loop V z d u rs ts = Inr ts' \<Longrightarrow> set rs \<subseteq> set (z_items z) \<Longrightarrow> targets_ok V z d u ts \<Longrightarrow> targets_ok V z d u ts'"
proof (induction rs arbitrary: ts)
  case (Cons r rs)
  then show ?case by (auto split: option.splits sum.splits plist.splits if_splits intro: put_target_ok)
qed simp

lemma pair_ok: "pair V z d u = Inr ts \<Longrightarrow> targets_ok V z d u ts"
  unfolding pair_def by (rule pair_loop_ok) (auto simp: targets_ok_def)

text \<open>Every request a computation sends has a property.\<close>

definition sends :: "(push_req \<Rightarrow> bool) \<Rightarrow> 'a push \<Rightarrow> bool" where
  "sends P m \<longleftrightarrow> (\<forall>tr r tr'. m tr = (r, tr') \<longrightarrow> (\<exists>reqs. tr' = tr @ reqs \<and> list_all P reqs))"

named_theorems sends_intros \<open>what a computation may send\<close>

lemma sends_lift [sends_intros]: "sends P (liftP r)"
  by (simp add: sends_def liftP_def)

lemma sends_item [sends_intros]: "sends P (itemP r)"
  by (simp add: itemP_def sends_lift)

lemma sends_bind [sends_intros]: "sends P m \<Longrightarrow> (\<And>x. sends P (k x)) \<Longrightarrow> sends P (bindP m k)"
  unfolding sends_def bindP_def by (fastforce split: prod.splits sum.splits)

lemma sends_bind_lift: "(\<And>x. r = Inr x \<Longrightarrow> sends P (k x)) \<Longrightarrow> sends P (bindP (liftP r) k)"
  by (cases r) (simp_all add: sends_def bindP_def liftP_def)

lemma sends_bind_item: "(\<And>x. r = Inr x \<Longrightarrow> sends P (k x)) \<Longrightarrow> sends P (bindP (itemP r) k)"
  unfolding itemP_def by (rule sends_bind_lift) (auto split: sum.splits)

lemma sends_send: "P req \<Longrightarrow> sends P (send V req)"
  by (auto simp: sends_def send_def)

lemma sends_save: "(\<And>req. save_request z (rec_name r) (rec_type r) flds create zone = Some req \<Longrightarrow> P (Save req)) \<Longrightarrow> sends P (save V z r flds create zone)"
  by (auto simp: save_def sends_lift sends_send split: option.split)

lemma sends_tolerate: "sends P m \<Longrightarrow> sends P (tolerate m n)"
  unfolding sends_def tolerate_def by (fastforce split: prod.splits sum.splits)

lemma sends_mono: "sends P m \<Longrightarrow> (\<And>q. P q \<Longrightarrow> Q q) \<Longrightarrow> sends Q m"
  unfolding sends_def by (meson list.pred_mono_strong)

text \<open>Nothing but the value and the date.\<close>

definition value_only :: "pdict \<Rightarrow> pdict \<Rightarrow> bool" where
  "value_only p p' \<longleftrightarrow> (\<forall>k. k \<in> {''v_Data'', ''mdat''} \<or> dget p' k = dget p k)"

text \<open>A save of a record of the account that changes nothing but its value and its date.\<close>

definition resaves :: "push_env \<Rightarrow> zone_view \<Rightarrow> ustr \<Rightarrow> ustr \<Rightarrow> string \<Rightarrow> pdict \<Rightarrow> push_req \<Rightarrow> bool" where
  "resaves V z domain user g p' q \<longleftrightarrow> (\<exists>r ck p c req. account_item V z domain user g (r, ck, p) \<and> q = Save req \<and>
     save_request z (rec_name r) (rec_type r) (with_ciphertext c (rec_fields r)) False ZONE_PASSWORDS = Some req \<and>
     (plist_wf (PL_dict p') \<longrightarrow> decrypt_item_record (items_of V) (r\<lparr>rec_fields := with_ciphertext c (rec_fields r)\<rparr>) ck = Inr (PL_dict p')) \<and>
     value_only p p')"

definition creates_details :: "push_env \<Rightarrow> zone_view \<Rightarrow> ustr \<Rightarrow> ustr \<Rightarrow> push_req \<Rightarrow> bool" where
  "creates_details V z domain user q \<longleftrightarrow> (\<exists>p ck parent name iv key flds req. q = Save req \<and>
     new_item_fields (items_of V) ck parent (PL_dict p) name (u_uploadver V) iv key = Inr flds \<and>
     save_request z name (ascii ''item'') flds True ZONE_PASSWORDS = Some req \<and>
     dget p ''acct'' = Some (PL_str user) \<and> dget p ''srvr'' = Some (PL_str domain) \<and> dget p ''agrp'' = Some (lit AGRP_METADATA))"

definition deletes :: "push_env \<Rightarrow> zone_view \<Rightarrow> ustr \<Rightarrow> ustr \<Rightarrow> string \<Rightarrow> push_req \<Rightarrow> bool" where
  "deletes V z domain user g q \<longleftrightarrow> (\<exists>t req. account_item V z domain user g t \<and> q = Delete req \<and>
     build_record_delete_request (rec_name (fst t)) (z_user z) (ascii ZONE_PASSWORDS) = Some req)"

lemma with_inner_frame: "value_only meta (with_inner E meta p stamp)"
  unfolding value_only_def by (intro allI with_inner_get)

lemma details_frame: "edit_details E meta e now later = Inr out \<Longrightarrow> value_only meta out"
  by (auto simp: edit_details_def bindE_Inr_iff opt_def with_inner_frame split: if_splits plist.splits option.splits)

lemma history_frame: "set_password_history E meta new now nf i = Inr out \<Longrightarrow> value_only meta out"
  by (auto simp: set_password_history_def bindE_Inr_iff with_inner_frame)

lemma title_frame: "set_title E meta name now = Inr out \<Longrightarrow> value_only meta out"
  by (auto simp: set_title_def bindE_Inr_iff with_inner_frame)

lemma edit_frames:
  "edit_details E (snd (snd t)) e now later = Inr out \<Longrightarrow> value_only (snd (snd t)) out"
  "set_title E (snd (snd t)) name now = Inr out \<Longrightarrow> value_only (snd (snd t)) out"
  "set_password_history E (snd (snd t)) new now nf i = Inr out \<Longrightarrow> value_only (snd (snd t)) out"
  by (rule details_frame title_frame history_frame, assumption)+

lemma resavesI:
  assumes "item_env_ok (items_of V)" and "account_item V z d u g (r, ck, p)" and "value_only p p'"
    and "encrypt_item_record (items_of V) r ck (PL_dict p') iv key None = Inr c"
    and "save_request z (rec_name r) (rec_type r) (with_ciphertext c (rec_fields r)) False ZONE_PASSWORDS = Some req"
  shows "resaves V z d u g p' (Save req)"
  unfolding resaves_def
  by (intro exI conjI impI, rule assms(2), rule refl, rule assms(5), erule encrypted_record_opens [OF assms(1,4)], rule assms(3))

lemma sends_rewrite:
  assumes "item_env_ok (items_of V)" and "account_item V z d u g t" and "value_only (snd (snd t)) p'"
  shows "sends (\<lambda>q. \<exists>p'. resaves V z d u g p' q) (rewrite_record V z n t p')"
proof -
  obtain r ck p where t: "t = (r, ck, p)" by (rule prod_cases3)
  have "resaves V z d u g p' (Save req)"
    if c: "encrypt_item_record (items_of V) r ck (PL_dict p') (u_iv V n) (u_key V n) None = Inr c"
      "save_request z (rec_name r) (rec_type r) (with_ciphertext c (rec_fields r)) False ZONE_PASSWORDS = Some req" for c req
    using resavesI [OF assms(1) _ _ c] assms(2,3) unfolding t snd_conv by blast
  then show ?thesis by (auto simp: rewrite_record_def t intro!: sends_bind_item sends_save)
qed

lemma sends_password:
  assumes "item_env_ok (items_of V)"
  shows "sends (\<lambda>q. \<exists>p'. resaves V z d u AGRP_PASSWORD p' q \<or> resaves V z d u AGRP_METADATA p' q) (push_password V z d u new nf)"
  unfolding push_password_def
proof (rule sends_bind_lift)
  fix ts
  assume "pair V z d u = Inr ts"
  then have ok: "targets_ok V z d u ts" by (rule pair_ok)
  show "sends (\<lambda>q. \<exists>p'. resaves V z d u AGRP_PASSWORD p' q \<or> resaves V z d u AGRP_METADATA p' q) (case t_password ts of
       None \<Rightarrow> errP Pu_push
     | Some (r, ck, _) \<Rightarrow>
         bindP (itemP (set_password (items_of V) r ck new (u_now V 0) (u_iv V 0) (u_key V 0))) (\<lambda>(flds, before, after).
           if \<not> only_value (det_of V) before after then errP Pu_push
           else bindP (save V z r flds False ZONE_PASSWORDS) (\<lambda>_. case t_details ts of
               None \<Rightarrow> retP 1
             | Some t \<Rightarrow> tolerate (push_history V z t new nf) 1)))" (is "sends ?P _")
  proof (cases "t_password ts")
    case (Some t)
    obtain r ck p where t: "t = (r, ck, p)" by (rule prod_cases3)
    have a: "account_item V z d u AGRP_PASSWORD (r, ck, p)" using ok Some unfolding targets_ok_def t by blast
    have pw: "?P (Save req)" if s: "set_password (items_of V) r ck new (u_now V 0) (u_iv V 0) (u_key V 0) = Inr (flds, before, after)"
      and req: "save_request z (rec_name r) (rec_type r) flds False ZONE_PASSWORDS = Some req" for flds before after req
    proof -
      have p: "decrypt_item_record (items_of V) r ck = Inr (PL_dict p)" using a by (simp add: account_item_def)
      obtain pw c where c: "after = dset ''mdat'' (PL_date (u_now V 0)) (dset ''v_Data'' (PL_data pw) p)"
          "encrypt_item_record (items_of V) r ck (PL_dict after) (u_iv V 0) (u_key V 0) None = Inr c" "flds = with_ciphertext c (rec_fields r)"
        using s by (auto simp: set_password_def p bindE_Inr_iff Let_def split: if_splits)
      have "resaves V z d u AGRP_PASSWORD after (Save req)"
        using req c(1) unfolding c(3) by (intro resavesI [OF assms a _ c(2)]) (auto simp: value_only_def)
      then show ?thesis by blast
    qed
    have hist: "sends ?P (push_history V z t' new nf)" if t': "t_details ts = Some t'" for t'
    proof -
      have a': "account_item V z d u AGRP_METADATA t'" using ok t' unfolding targets_ok_def by blast
      show ?thesis
        unfolding push_history_def
        by (intro sends_bind_item) (auto intro!: sends_lift sends_mono [OF sends_rewrite [OF assms a' edit_frames(3)]])
    qed
    show ?thesis
      unfolding Some t
      by (auto intro!: sends_bind_item sends_bind sends_lift sends_save sends_tolerate pw hist split: option.split)
  qed (simp add: sends_lift)
qed

lemma sends_create:
  assumes "new_details V p d u e = Inr m"
  shows "sends (creates_details V z d u) (create_record V z n ck parent m ZONE_PASSWORDS)"
proof -
  have m: "dget m ''acct'' = Some (PL_str u)" "dget m ''srvr'' = Some (PL_str d)" "dget m ''agrp'' = Some (lit AGRP_METADATA)"
    using assms by (auto simp: new_details_def new_metadata_plist_def base_plist_def bindE_Inr_iff Let_def dget_def)
  show ?thesis
    unfolding create_record_def Let_def
    by (intro sends_bind_item sends_save) (simp add: creates_details_def, intro exI conjI, assumption+, rule m, rule m, rule m)
qed

lemma sends_details:
  assumes "item_env_ok (items_of V)"
  shows "sends (\<lambda>q. (\<exists>p'. resaves V z d u AGRP_METADATA p' q) \<or> creates_details V z d u q) (push_details V z d u e)" (is "sends ?P _")
  unfolding push_details_def
proof (rule sends_bind_lift)
  fix ts
  assume p: "pair V z d u = Inr ts"
  have meta: "sends ?P (bindP (itemP (edit_details (det_of V) (snd (snd t)) e (u_now V 0) (u_now V 1))) (\<lambda>edited.
      if unexpected (det_of V) (snd (snd t)) edited then errP Pu_push
      else bindP (rewrite_record V z 0 t edited) (\<lambda>_. retP (landed_text V edited))))" if t: "t_details ts = Some t" for t
  proof (rule sends_bind_item)
    fix edited
    assume ed: "edit_details (det_of V) (snd (snd t)) e (u_now V 0) (u_now V 1) = Inr edited"
    have "account_item V z d u AGRP_METADATA t" using pair_ok [OF p] t unfolding targets_ok_def by blast
    from sends_rewrite [OF assms this edit_frames(1) [OF ed], of 0] have "sends ?P (rewrite_record V z 0 t edited)"
      by (rule sends_mono) blast
    then show "sends ?P (if unexpected (det_of V) (snd (snd t)) edited then errP Pu_push
      else bindP (rewrite_record V z 0 t edited) (\<lambda>_. retP (landed_text V edited)))" by (simp add: sends_lift sends_bind)
  qed
  have new: "sends ?P (bindP (itemP (new_details V p d u e)) (\<lambda>edited.
      bindP (create_record V z 0 ck par edited ZONE_PASSWORDS) (\<lambda>_. retP (landed_text V edited))))" for p ck par
    by (intro sends_bind_item sends_bind sends_lift sends_mono [OF sends_create]) auto
  show "sends ?P (case t_password ts of
       None \<Rightarrow> errP Pu_push
     | Some (r, ck, p) \<Rightarrow> (case t_details ts of
           Some t \<Rightarrow> bindP (itemP (edit_details (det_of V) (snd (snd t)) e (u_now V 0) (u_now V 1))) (\<lambda>edited.
             if unexpected (det_of V) (snd (snd t)) edited then errP Pu_push
             else bindP (rewrite_record V z 0 t edited) (\<lambda>_. retP (landed_text V edited)))
         | None \<Rightarrow> bindP (itemP (new_details V p d u e)) (\<lambda>edited.
             bindP (create_record V z 0 ck (case get_str r (ascii ''parentkeyref'') of None \<Rightarrow> [] | Some k \<Rightarrow> k) edited ZONE_PASSWORDS)
               (\<lambda>_. retP (landed_text V edited)))))"
    using meta new by (auto simp: sends_lift split: option.split)
qed

lemma sends_nickname:
  assumes "item_env_ok (items_of V)"
  shows "sends (\<lambda>q. \<exists>p'. resaves V z d u AGRP_METADATA p' q) (push_nickname V z d u name)" (is "sends ?P _")
  unfolding push_nickname_def
proof (rule sends_bind_lift)
  fix ts
  assume p: "pair V z d u = Inr ts"
  have "sends ?P (bindP (itemP (set_title (det_of V) (snd (snd t)) name (u_now V 0))) (\<lambda>renamed.
      if unexpected (det_of V) (snd (snd t)) renamed then errP Pu_push
      else bindP (rewrite_record V z 0 t renamed) (\<lambda>_. retP True)))" if t: "t_details ts = Some t" for t
  proof (rule sends_bind_item)
    fix renamed
    assume re: "set_title (det_of V) (snd (snd t)) name (u_now V 0) = Inr renamed"
    have "account_item V z d u AGRP_METADATA t" using pair_ok [OF p] t unfolding targets_ok_def by blast
    from sends_rewrite [OF assms this edit_frames(2) [OF re], of 0]
    show "sends ?P (if unexpected (det_of V) (snd (snd t)) renamed then errP Pu_push
      else bindP (rewrite_record V z 0 t renamed) (\<lambda>_. retP True))" by (simp add: sends_lift sends_bind)
  qed
  then show "sends ?P (case t_details ts of
       None \<Rightarrow> retP False
     | Some t \<Rightarrow> bindP (itemP (set_title (det_of V) (snd (snd t)) name (u_now V 0))) (\<lambda>renamed.
         if unexpected (det_of V) (snd (snd t)) renamed then errP Pu_push
         else bindP (rewrite_record V z 0 t renamed) (\<lambda>_. retP True)))"
    by (simp add: sends_lift split: option.split)
qed

lemma sends_delete_record: "account_item V z d u g t \<Longrightarrow> sends (deletes V z d u g) (delete_record V z t)"
  unfolding delete_record_def deletes_def
  by (cases "build_record_delete_request (rec_name (fst t)) (z_user z) (ascii ZONE_PASSWORDS)")
    (simp_all only: option.case sends_lift, rule sends_send, blast)

lemma sends_delete:
  "sends (\<lambda>q. deletes V z d u AGRP_METADATA q \<or> deletes V z d u AGRP_PASSWORD q) (delete_entry V z d u)" (is "sends ?P _")
  unfolding delete_entry_def RECORD_DELETE_VERIFIED_def if_False not_True_eq_False
proof (rule sends_bind_lift)
  fix ts
  assume p: "pair V z d u = Inr ts"
  have a: "account_item V z d u AGRP_METADATA t" if "t_details ts = Some t" for t
    using pair_ok [OF p] that unfolding targets_ok_def by blast
  have b: "account_item V z d u AGRP_PASSWORD t" if "t_password ts = Some t" for t
    using pair_ok [OF p] that unfolding targets_ok_def by blast
  have d: "sends ?P (delete_record V z t)" if "t_details ts = Some t \<or> t_password ts = Some t" for t
    using that sends_mono [OF sends_delete_record [OF a], of t ?P] sends_mono [OF sends_delete_record [OF b], of t ?P] by blast
  show "sends ?P (case t_password ts of
        None \<Rightarrow> errP Pu_push
      | Some t \<Rightarrow> (case t_details ts of
          None \<Rightarrow> bindP (delete_record V z t) (\<lambda>_. retP 1)
        | Some d \<Rightarrow> bindP (delete_record V z d) (\<lambda>_. bindP (delete_record V z t) (\<lambda>_. retP 2))))"
    using d by (simp add: sends_lift sends_bind split: option.split)
qed


subsection \<open>What a password change reports\<close>

lemma save_outcome: "save V z r flds create zone tr = (res, tr') \<Longrightarrow>
   (tr' = tr \<and> isl res) \<or> (\<exists>req. save_request z (rec_name r) (rec_type r) flds create zone = Some req \<and>
      tr' = tr @ [Save req] \<and> (isl res \<longleftrightarrow> \<not> u_reply V tr'))"
  by (auto simp: save_def send_def liftP_def split: option.splits if_splits)

lemma itemP_bind: "bindP (itemP r) k tr = (case r of Inl e \<Rightarrow> (Inl (Pu_item e), tr) | Inr x \<Rightarrow> k x tr)"
  by (simp add: bindP_def itemP_def liftP_def split: sum.splits)

lemma history_outcome: "push_history V z t new nf tr = (res, tr') \<Longrightarrow>
   (tr' = tr \<and> isl res) \<or> (\<exists>q. tr' = tr @ [q] \<and> (isl res \<longleftrightarrow> \<not> u_reply V tr'))"
  by (cases t) (auto simp: push_history_def rewrite_record_def itemP_bind liftP_def split: sum.splits if_splits dest!: save_outcome)

lemma pair_bind: "bindP (liftP r) k tr = (case r of Inl e \<Rightarrow> (Inl e, tr) | Inr x \<Rightarrow> k x tr)"
  by (simp add: bindP_def liftP_def split: sum.splits)

lemma tolerate_outcome: "tolerate (push_history V z t new nf) n tr = (res, tr') \<Longrightarrow>
   \<exists>m. res = Inr m \<and> (m = n \<or> m = n + 1 \<and> (\<exists>q. tr' = tr @ [q] \<and> u_reply V tr')) \<and> (tr' = tr \<or> (\<exists>q. tr' = tr @ [q]))"
  by (auto simp: tolerate_def split: prod.splits sum.splits dest!: history_outcome)

text \<open>The first request of a password change, when the service took it.\<close>

definition password_saved :: "push_env \<Rightarrow> zone_view \<Rightarrow> ustr \<Rightarrow> ustr \<Rightarrow> ustr \<Rightarrow> push_req \<Rightarrow> bool" where
  "password_saved V z domain user new q \<longleftrightarrow> (\<exists>p' pw. resaves V z domain user AGRP_PASSWORD p' q \<and> utf8_encode new = Some pw \<and>
     dget p' ''v_Data'' = Some (PL_data pw))"

lemma password_save_saved:
  assumes "item_env_ok (items_of V)" and a: "account_item V z d u AGRP_PASSWORD (r, ck, p)"
    and s: "set_password (items_of V) r ck new now iv key = Inr (flds, before, after)"
    and req: "save_request z (rec_name r) (rec_type r) flds False ZONE_PASSWORDS = Some req"
  shows "password_saved V z d u new (Save req)"
proof -
  have p: "decrypt_item_record (items_of V) r ck = Inr (PL_dict p)" using a by (simp add: account_item_def)
  obtain pw c where c: "after = dset ''mdat'' (PL_date now) (dset ''v_Data'' (PL_data pw) p)" "utf8_encode new = Some pw"
      "encrypt_item_record (items_of V) r ck (PL_dict after) iv key None = Inr c" "flds = with_ciphertext c (rec_fields r)"
    using s by (auto simp: set_password_def p bindE_Inr_iff Let_def opt_def split: if_splits option.splits)
  have "value_only p after" unfolding c(1) value_only_def by simp
  then have "resaves V z d u AGRP_PASSWORD after (Save req)" using req unfolding c(4) by (rule resavesI [OF assms(1) a _ c(3)])
  then show ?thesis using c(1,2) unfolding password_saved_def by (intro exI [of _ after] exI [of _ pw] conjI) (simp_all)
qed

lemma push_password_run:
  assumes "pair V z d u = Inr ts" and "t_password ts = Some (r, ck, p)"
    and "set_password (items_of V) r ck new (u_now V 0) (u_iv V 0) (u_key V 0) = Inr (flds, before, after)"
    and "only_value (det_of V) before after" and "save V z r flds False ZONE_PASSWORDS [] = (sres, tr1)"
  shows "push_password V z d u new nf [] = (case sres of Inl e \<Rightarrow> (Inl e, tr1) | Inr _ \<Rightarrow> (case t_details ts of
            None \<Rightarrow> (Inr 1, tr1) | Some t \<Rightarrow> tolerate (push_history V z t new nf) 1 tr1))"
  using assms by (auto simp: push_password_def pair_bind itemP_def bindP_def liftP_def split: sum.splits option.splits)


subsection \<open>One push\<close>

definition field_ok :: "ustr list \<Rightarrow> ustr \<times> ckval \<Rightarrow> bool" where
  "field_ok refs f \<longleftrightarrow> (case f of (n, v) \<Rightarrow> list_all scalar n \<and> (case v of CK_str s \<Rightarrow> list_all scalar s | _ \<Rightarrow> n \<notin> set refs))"

lemma w_string_ok: "list_all scalar s \<Longrightarrow> \<exists>b. w_string k (Some s) w = Some b"
  by (simp add: w_string_def utf8_encode_def)

lemma write_fields_ok:
  "list_all (field_ok refs) fs \<Longrightarrow> list_all scalar user \<Longrightarrow> list_all scalar zone \<Longrightarrow> \<exists>b. write_fields refs user zone fs w = Some b"
proof (induction refs user zone fs w rule: write_fields.induct)
  case (2 refs user zone name v fs w)
  have z: "\<exists>b. record_identifier s user zone = Some b" if "list_all scalar s" for s
    using that "2.prems"(2,3) by (simp add: record_identifier_def record_zone_identifier_def ck_identifier_def w_string_def utf8_encode_def)
  have v: "v = CK_null \<or> (\<exists>b. (if name \<in> set refs then serialize_reference v user zone else serialize_value v) = Some b)"
    using "2.prems"(1) by (cases v) (auto simp: field_ok_def serialize_reference_def serialize_value_def w_string_def utf8_encode_def dest: z)
  have "\<exists>b. w_string 1 (Some name) [] = Some b" using "2.prems"(1) by (intro w_string_ok) (simp add: field_ok_def)
  then show ?case using 2 v by auto
qed simp

lemma field_ok_dset: "list_all (field_ok refs) d \<Longrightarrow> field_ok refs (k, v) \<Longrightarrow> list_all (field_ok refs) (dset k v d)"
  by (induction d) (auto simp: dset_def field_ok_def)

lemma b64_text_scalar: "list_all scalar (b64_text b)"
proof -
  have "scalar (b64_char v)" if "v < 64" for v using that by (auto simp: b64_char_def scalar_def)
  moreover have "list_all (\<lambda>v. v < 64) (b64_groups (map unat b))"
    using unsigned_less [of "_ :: 8 word"] by (intro b64_groups_small) (auto simp: list_all_iff)
  ultimately show ?thesis by (auto simp: b64_text_def b64encode_def list_all_iff scalar_def)
qed

definition example_push :: push_env where
  "example_push = \<lparr>u_pipe = example_pipe, u_iv = (\<lambda>n. replicate 16 2), u_key = (\<lambda>n. replicate 64 3), u_uuid = (\<lambda>n. []),
     u_now = (\<lambda>n. 9), u_uploadver = [], u_reply = (\<lambda>tr. True)\<rparr>"

definition example_account :: pdict where
  "example_account = [(''acct'', PL_str (ascii ''ann'')), (''srvr'', PL_str (ascii ''a.com'')), (''agrp'', lit AGRP_PASSWORD),
     (''v_Data'', PL_data [104, 105]), (''mdat'', PL_date 5)]"

definition example_changed :: pdict where
  "example_changed = dset ''mdat'' (PL_date 9) (dset ''v_Data'' (PL_data [110, 101, 119]) example_account)"

definition example_view :: "ckval \<times> ckval \<Rightarrow> zone_view" where
  "example_view c = \<lparr>z_items = [example_record c], z_keys = [(ascii ''P'', [1])], z_user = ascii ''u''\<rparr>"

lemma example_only_value: "only_value E example_account example_changed"
  by (simp add: only_value_def diff_plists_def diff_key_def example_account_def example_changed_def dset_def dget_def)

lemma example_sealed:
  obtains c c' where "decrypt_item_record example_items (example_record c) [1] = Inr (PL_dict example_account)"
    and "set_password example_items (example_record c) [1] (ascii ''new'') 9 (replicate 16 2) (replicate 64 3) =
      Inr (with_ciphertext c' (rec_fields (example_record c)), example_account, example_changed)"
    and "\<exists>w x. c = (CK_bytes x, CK_str (b64_text w))" and "\<exists>w x. c' = (CK_bytes x, CK_str (b64_text w))"
proof -
  have shape: "\<exists>w x. c = (CK_bytes x, CK_str (b64_text w))" if "encrypt_item_record E r ck p iv key pt = Inr c" for E r ck p iv key pt c
    using that by (auto simp: encrypt_item_record_def bindE_Inr_iff split: option.splits if_splits)
  obtain c where c: "encrypt_item_record example_items example_stub [1] (PL_dict example_account) (replicate 16 2) (replicate 64 3) None = Inr c"
    using example_encrypts by blast
  obtain c' where c': "encrypt_item_record example_items (example_record c) [1] (PL_dict example_changed) (replicate 16 2) (replicate 64 3) None = Inr c'"
    using example_encrypts [of example_changed] unfolding example_record_def encrypt_own by blast
  have "key_ok ''acct''" "key_ok ''v_Data''" "key_ok ''mdat''" "key_ok ''srvr''" "key_ok ''agrp''"
    by (simp_all add: key_ok_def utf8_of_def utf8_decode_def decode_loop8.simps ascii_def Let_def)
  then have wf: "plist_wf (PL_dict example_account)"
    by (simp add: example_account_def dict_ok_def scalar_def ascii_def AGRP_PASSWORD_def)
  have d: "decrypt_item_record example_items (example_record c) [1] = Inr (PL_dict example_account)"
    unfolding example_record_def by (rule encrypted_record_opens [OF example_items_ok c wf])
  have n: "utf8_encode (ascii ''new'') = Some [110, 101, 119]" by (simp add: ascii_def utf8_encode_def scalar_def char_bytes_def)
  have v: "dget example_account ''v_Data'' \<noteq> None" by (simp add: example_account_def dget_def)
  have "set_password example_items (example_record c) [1] (ascii ''new'') 9 (replicate 16 2) (replicate 64 3) =
      Inr (with_ciphertext c' (rec_fields (example_record c)), example_account, example_changed)"
    using v c' by (simp add: set_password_def d n opt_def Let_def example_changed_def)
  then show ?thesis by (rule that [OF d _ shape [OF c] shape [OF c']])
qed

lemma example_record_fields:
  "\<exists>w x. c = (CK_bytes x, CK_str (b64_text w)) \<Longrightarrow> list_all (field_ok [ascii ''parentkeyref'']) (rec_fields (example_record c))"
  by (auto simp: example_record_def example_stub_def with_ciphertext_def field_ok_def scalar_def ascii_def b64_text_scalar
      intro!: field_ok_dset)

lemma example_request:
  assumes "\<exists>w x. c = (CK_bytes x, CK_str (b64_text w))" and "\<exists>w x. c' = (CK_bytes x, CK_str (b64_text w))"
  shows "\<exists>req. save_request (example_view c) (rec_name (example_record c)) (rec_type (example_record c))
     (with_ciphertext c' (rec_fields (example_record c))) False ZONE_PASSWORDS = Some req"
proof -
  have "list_all (field_ok [ascii ''parentkeyref'']) (with_ciphertext c' (rec_fields (example_record c)))"
    using assms(2) example_record_fields [OF assms(1)]
    by (auto simp: with_ciphertext_def field_ok_def scalar_def ascii_def b64_text_scalar intro!: field_ok_dset)
  then have "list_all (field_ok [ascii ''parentkeyref'']) (sort_key fst (with_ciphertext c' (rec_fields (example_record c))))"
    by (simp add: list_all_iff)
  moreover have "list_all scalar (ascii ''u'')" "list_all scalar (ascii ZONE_PASSWORDS)"
    by (simp_all add: ascii_def scalar_def ZONE_PASSWORDS_def)
  ultimately have "\<exists>b. write_fields [ascii ''parentkeyref''] (ascii ''u'') (ascii ZONE_PASSWORDS)
      (sort_key fst (with_ciphertext c' (rec_fields (example_record c)))) w = Some b" for w
    by (rule write_fields_ok)
  moreover have "\<exists>i. record_identifier (ascii ''R'') (ascii ''u'') (ascii ZONE_PASSWORDS) = Some i"
    by (simp add: record_identifier_def record_zone_identifier_def ck_identifier_def w_string_def utf8_encode_def ascii_def scalar_def ZONE_PASSWORDS_def)
  moreover have "\<exists>t. w_string 1 (Some (ascii ''item'')) [] = Some t" by (rule w_string_ok) (simp add: ascii_def scalar_def)
  ultimately show ?thesis
    by (auto simp: save_request_def serialize_record_def example_view_def example_record_def example_stub_def)
qed

lemma example_pair:
  assumes "decrypt_item_record example_items (example_record c) [1] = Inr (PL_dict example_account)"
    and "\<exists>w x. c = (CK_bytes x, CK_str (b64_text w))"
  shows "pair example_push (example_view c) (ascii ''a.com'') (ascii ''ann'') =
    Inr \<lparr>t_password = Some (example_record c, [1], example_account), t_details = None\<rparr>"
proof -
  have "get_str (example_record c) (ascii ''parentkeyref'') = Some (ascii ''P'')"
    by (simp add: get_str_def with_ciphertext_def example_stub_def example_record_def) (simp add: dget_def)
  then have "class_key_of (z_keys (example_view c)) (example_record c) = Some [1]"
    by (simp add: class_key_of_def example_view_def dget_def)
  moreover have "get_bytes (example_record c) (ascii ''data'') \<noteq> None"
    using assms(2) by (auto simp: get_bytes_def with_ciphertext_def example_record_def)
  moreover have "names_account E example_account (ascii ''a.com'') (ascii ''ann'')" for E
    by (simp add: names_account_def text_at_def example_account_def dget_def or_else_def py_str_def ascii_def)
  moreover have "dget example_account ''agrp'' = Some (lit AGRP_PASSWORD)" by (simp add: example_account_def dget_def)
  ultimately show ?thesis
    using assms(1) by (simp add: pair_def example_view_def put_target_def example_push_def example_pipe_def)
qed

lemma example_run:
  "\<exists>c req. push_password example_push (example_view c) (ascii ''a.com'') (ascii ''ann'') (ascii ''new'') False [] = (Inr 1, [Save req])"
proof -
  obtain c c' where c: "decrypt_item_record example_items (example_record c) [1] = Inr (PL_dict example_account)"
      "set_password example_items (example_record c) [1] (ascii ''new'') 9 (replicate 16 2) (replicate 64 3) =
      Inr (with_ciphertext c' (rec_fields (example_record c)), example_account, example_changed)"
      "\<exists>w x. c = (CK_bytes x, CK_str (b64_text w))" "\<exists>w x. c' = (CK_bytes x, CK_str (b64_text w))" by (rule example_sealed)
  obtain req where req: "save_request (example_view c) (rec_name (example_record c)) (rec_type (example_record c))
     (with_ciphertext c' (rec_fields (example_record c))) False ZONE_PASSWORDS = Some req" using example_request [OF c(3,4)] by blast
  have "save example_push (example_view c) (example_record c) (with_ciphertext c' (rec_fields (example_record c))) False ZONE_PASSWORDS []
      = (Inr (), [Save req])" by (simp add: save_def send_def example_push_def req)
  moreover have "set_password (items_of example_push) (example_record c) [1] (ascii ''new'') (u_now example_push 0) (u_iv example_push 0)
      (u_key example_push 0) = Inr (with_ciphertext c' (rec_fields (example_record c)), example_account, example_changed)"
    using c(2) by (simp add: example_push_def example_pipe_def)
  ultimately have "push_password example_push (example_view c) (ascii ''a.com'') (ascii ''ann'') (ascii ''new'') False [] = (Inr 1, [Save req])"
    using push_password_run [OF example_pair [OF c(1,3)] _ _ example_only_value] by simp
  then show ?thesis by blast
qed

lemma example_push_ok: "item_env_ok (items_of example_push)"
  using example_items_ok by (simp add: example_push_def example_pipe_def)



end
