(* ===== verification/Legacy.thy ===== *)
theory Legacy
  imports VaultSafe Credentials Totp
begin

text \<open>
  From a credential to what the store keeps: \<^verbatim>\<open>Credential.storage_dict\<close> of \<^verbatim>\<open>backend/icp/vault/host.py\<close>, the conversion of
  \<^verbatim>\<open>backend/icp/vstore/legacy.py\<close> that both the sync and the import of a 1.x vault use, and
  \<^verbatim>\<open>backend/icp/octagon/items.py\<close>.
\<close>

subsection \<open>Values\<close>

text \<open>What a 1.x credential's dict holds: JSON, or the values of a property list not stored yet.\<close>

datatype dval =
    V_null
  | V_bool bool
  | V_int int
  | V_num real
  | V_str ustr
  | V_bytes "nat list"
  | V_list "dval list"
  | V_dict "(ustr \<times> dval) list"
  | V_odd plist

type_synonym vdict = "(ustr \<times> dval) list"

datatype legacy_error = Lg_mismatch | Lg_other

text \<open>\<open>l_str\<close>, \<open>l_int\<close>, \<open>l_float\<close>: \<^verbatim>\<open>str\<close>, \<^verbatim>\<open>int\<close>, \<^verbatim>\<open>float\<close> where they need more than the value itself; \<open>l_date\<close>: \<^verbatim>\<open>strftime\<close>.\<close>

record legacy_env =
  l_det :: det_env
  l_std :: stdlib
  l_sha :: "nat list \<Rightarrow> string"
  l_str :: "dval \<Rightarrow> ustr"
  l_int :: "dval \<Rightarrow> int option"
  l_float :: "dval \<Rightarrow> real option"
  l_date :: "real \<Rightarrow> ustr option"

abbreviation db_of :: "legacy_env \<Rightarrow> unidb" where "db_of L \<equiv> d_db (l_det L)"

function of_plist :: "det_env \<Rightarrow> plist \<Rightarrow> dval" where
  "of_plist E (PL_str s) = V_str s"
| "of_plist E (PL_data b) = V_bytes (map unat b)"
| "of_plist E (PL_int n) = V_int n"
| "of_plist E (PL_bool b) = V_bool b"
| "of_plist E (PL_real x) = V_num (d_real E x)"
| "of_plist E (PL_date t) = V_odd (PL_date t)"
| "of_plist E (PL_uid n) = V_odd (PL_uid n)"
| "of_plist E (PL_list xs) = V_list (map (of_plist E) xs)"
| "of_plist E (PL_dict kv) = V_dict (map (\<lambda>(k, v). (key_str k, of_plist E v)) kv)"
  by pat_completeness auto
termination
proof (relation "measure (\<lambda>(E, p). size p)", simp)
  fix E :: det_env and xs :: "plist list" and x
  assume "x \<in> set xs"
  then show "((E, x), E, PL_list xs) \<in> measure (\<lambda>(E, p). size p)"
    using size_list_estimation' [of x xs "size x" size] by simp
next
  fix E :: det_env and kv :: pdict and z k v
  assume "z \<in> set kv" "(k, v) = z"
  then show "((E, v), E, PL_dict kv) \<in> measure (\<lambda>(E, p). size p)"
    using size_list_estimation' [of "(k, v)" kv "size v" "size_prod (\<lambda>_. 0) size"] by (auto simp: size_list_conv_sum_list)
qed

text \<open>Python's truth, and \<^verbatim>\<open>d.get(k) or x\<close>.\<close>

fun v_true :: "dval \<Rightarrow> bool" where
  "v_true V_null = False"
| "v_true (V_bool b) = b"
| "v_true (V_int n) = (n \<noteq> 0)"
| "v_true (V_num x) = (x \<noteq> 0)"
| "v_true (V_str s) = (s \<noteq> [])"
| "v_true (V_bytes b) = (b \<noteq> [])"
| "v_true (V_list xs) = (xs \<noteq> [])"
| "v_true (V_dict kv) = (kv \<noteq> [])"
| "v_true (V_odd p) = True"

definition vget :: "vdict \<Rightarrow> string \<Rightarrow> dval option" where
  "vget d k = dget d (ascii k)"

definition vor :: "dval option \<Rightarrow> dval \<Rightarrow> dval" where
  "vor v x = (case v of None \<Rightarrow> x | Some y \<Rightarrow> if v_true y then y else x)"

definition v_text :: "legacy_env \<Rightarrow> dval \<Rightarrow> ustr" where
  "v_text L v = (case v of V_str s \<Rightarrow> s | _ \<Rightarrow> l_str L v)"

definition v_int :: "legacy_env \<Rightarrow> dval \<Rightarrow> legacy_error + int" where
  "v_int L v = (case v of V_int n \<Rightarrow> Inr n | V_bool b \<Rightarrow> Inr (if b then 1 else 0)
     | _ \<Rightarrow> (case l_int L v of None \<Rightarrow> Inl Lg_other | Some n \<Rightarrow> Inr n))"

definition v_float :: "legacy_env \<Rightarrow> dval \<Rightarrow> real option" where
  "v_float L v = (case v of V_null \<Rightarrow> None | V_num x \<Rightarrow> Some x | V_int n \<Rightarrow> Some (of_int n) | V_bool b \<Rightarrow> Some (if b then 1 else 0)
     | _ \<Rightarrow> l_float L v)"

text \<open>\<^verbatim>\<open>for x in v\<close>.\<close>

definition v_iter :: "dval \<Rightarrow> legacy_error + dval list" where
  "v_iter v = (case v of V_list xs \<Rightarrow> Inr xs | V_str s \<Rightarrow> Inr (map (\<lambda>c. V_str [c]) s)
     | V_bytes b \<Rightarrow> Inr (map (\<lambda>n. V_int (int n)) b) | V_dict kv \<Rightarrow> Inr (map (\<lambda>(k, _). V_str k) kv) | _ \<Rightarrow> Inl Lg_other)"

definition text_field :: "legacy_env \<Rightarrow> vdict \<Rightarrow> string \<Rightarrow> ustr" where
  "text_field L c k = v_text L (vor (vget c k) (V_str []))"

definition text_list :: "legacy_env \<Rightarrow> vdict \<Rightarrow> string \<Rightarrow> legacy_error + ustr list" where
  "text_list L c k = bindE (v_iter (vor (vget c k) (V_list []))) (\<lambda>xs. Inr (map (v_text L) xs))"

definition vflag :: "vdict \<Rightarrow> string \<Rightarrow> bool" where
  "vflag c k \<longleftrightarrow> vget c k = Some (V_bool True)"

subsection \<open>Hexadecimal and base 32\<close>

definition hex_of :: "nat list \<Rightarrow> ustr" where
  "hex_of bs = concat (map (\<lambda>b. [hexd (b div 16), hexd (b mod 16)]) bs)"

definition hex_value :: "nat \<Rightarrow> nat option" where
  "hex_value c = (if 48 \<le> c \<and> c \<le> 57 then Some (c - 48) else if 97 \<le> c \<and> c \<le> 102 then Some (c - 87)
     else if 65 \<le> c \<and> c \<le> 70 then Some (c - 55) else None)"

text \<open>\<^verbatim>\<open>bytes.fromhex\<close>: white space may stand between two bytes.\<close>

fun from_hex :: "ustr \<Rightarrow> nat list option" where
  "from_hex [] = Some []"
| "from_hex (c # s) = (if c = 32 \<or> 9 \<le> c \<and> c \<le> 13 then from_hex s else (case s of
      [] \<Rightarrow> None
    | d # r \<Rightarrow> (case (hex_value c, hex_value d) of
          (Some a, Some b) \<Rightarrow> map_option (Cons (16 * a + b)) (from_hex r) | _ \<Rightarrow> None)))"

definition b32_letter :: "nat \<Rightarrow> nat" where
  "b32_letter v = (if v < 26 then v + 65 else v + 24)"

text \<open>\<^verbatim>\<open>base64.b32encode\<close> without the padding the caller strips: eight letters for five bytes.\<close>

definition b32_group :: "nat list \<Rightarrow> ustr" where
  "b32_group g = (let v = foldl (\<lambda>a b. a * 256 + b) 0 (g @ replicate (5 - length g) 0) in
     map (\<lambda>i. b32_letter (v div 32 ^ (7 - i) mod 32)) [0..<(length g * 8 + 4) div 5])"

function b32encode_stripped :: "nat list \<Rightarrow> ustr" where
  "b32encode_stripped bs = (if bs = [] then [] else b32_group (take 5 bs) @ b32encode_stripped (drop 5 bs))"
  by pat_completeness auto
termination by (relation "measure length") auto

declare b32encode_stripped.simps [simp del]

definition int_text :: "int \<Rightarrow> ustr" where
  "int_text n = (if n < 0 then 45 # dec (nat (- n)) else dec (nat n))"

subsection \<open>A credential as a dict\<close>

definition storage_totp :: "det_env \<Rightarrow> totp_conf \<Rightarrow> vdict" where
  "storage_totp E t =
     [(ascii ''secret'', case tc_secret t of PL_data b \<Rightarrow> V_str (hex_of (map unat b)) | p \<Rightarrow> of_plist E p),
      (ascii ''digits'', V_int (tc_digits t)), (ascii ''period'', V_int (tc_period t)),
      (ascii ''algorithm'', V_int (tc_algorithm t)), (ascii ''issuer'', V_str (tc_issuer t))] @
     (case tc_secret t of PL_data b \<Rightarrow> [(ascii ''secret_hex'', V_bool True)] | _ \<Rightarrow> [])"

definition storage_dict :: "det_env \<Rightarrow> cred \<Rightarrow> vdict" where
  "storage_dict E c =
     [(ascii ''domain'', V_str (cr_domain c)), (ascii ''username'', V_str (cr_username c)),
      (ascii ''password'', V_str (cr_password c)), (ascii ''title'', V_str (cr_title c)), (ascii ''mdat'', V_num (cr_mdat c)),
      (ascii ''notes'', V_str (cr_notes c)), (ascii ''aliases'', V_list (map V_str (cr_aliases c))),
      (ascii ''apple_history'', V_list (map (\<lambda>(tm, p). V_dict [(ascii ''at'', V_num tm), (ascii ''password'', of_plist E p)]) (cr_history c))),
      (ascii ''apple_title'', V_str (cr_apple_title c)), (ascii ''sites'', V_list (map V_str (cr_sites c)))] @
     (if cr_deleted c then [(ascii ''recently_deleted'', V_bool True)] else []) @
     (if cr_is_passkey c then [(ascii ''kind'', V_str (ascii ''passkey''))] else []) @
     (if cr_has_passkey c then [(ascii ''has_passkey'', V_bool True)] else []) @
     (case cr_totp c of None \<Rightarrow> [] | Some t \<Rightarrow> [(ascii ''totp'', V_dict (storage_totp E t))])"

subsection \<open>One dict as an entry\<close>

definition iso :: "legacy_env \<Rightarrow> dval \<Rightarrow> ustr" where
  "iso L v = (case Option.bind (v_float L v) (l_date L) of Some t \<Rightarrow> t | None \<Rightarrow> ascii ''1970-01-01T00:00:00Z'')"

definition num_of :: "legacy_env \<Rightarrow> dval option \<Rightarrow> legacy_error + real" where
  "num_of L v = (case v of None \<Rightarrow> Inr 0 | Some V_null \<Rightarrow> Inr 0 | Some (V_bool b) \<Rightarrow> Inr 0
     | Some x \<Rightarrow> (case v_float L x of None \<Rightarrow> Inl Lg_mismatch | Some r \<Rightarrow> Inr r))"

definition legacy_seed :: "legacy_env \<Rightarrow> vdict \<Rightarrow> dval \<Rightarrow> legacy_error + nat list" where
  "legacy_seed L t s = (case (v_true (vor (vget t ''secret_hex'') V_null), s) of
      (True, V_str x) \<Rightarrow> (case from_hex x of None \<Rightarrow> Inl Lg_mismatch | Some b \<Rightarrow> Inr b)
    | (_, V_bytes b) \<Rightarrow> Inr b
    | _ \<Rightarrow> Inr (map unat (key_bytes (l_std L) (Key_text (v_text L s)))))"

definition totp_parts :: "legacy_env \<Rightarrow> dval option \<Rightarrow> legacy_error + nat list option \<times> (string \<times> json) list" where
  "totp_parts L v = (case v of
      Some (V_dict t) \<Rightarrow> (case vor (vget t ''secret'') V_null of
          V_null \<Rightarrow> Inr (None, [])
        | s \<Rightarrow> bindE (legacy_seed L t s) (\<lambda>seed.
            bindE (v_int L (vor (vget t ''digits'') (V_int 6))) (\<lambda>d.
            bindE (v_int L (vor (vget t ''period'') (V_int 30))) (\<lambda>p.
            bindE (v_int L (vor (vget t ''algorithm'') (V_int 0))) (\<lambda>a.
            Inr (Some seed, [(''digits'', JInt d), (''period'', JInt p), (''algorithm'', JInt a)] @
              (case vor (vget t ''issuer'') V_null of V_null \<Rightarrow> [] | i \<Rightarrow> [(''issuer'', JStr (v_text L i))])))))))
    | _ \<Rightarrow> Inr (None, []))"

definition history_json :: "legacy_env \<Rightarrow> dval \<Rightarrow> json list" where
  "history_json L h = (case h of
      V_dict d \<Rightarrow> (case vget d ''password'' of
          None \<Rightarrow> [] | Some V_null \<Rightarrow> []
        | Some p \<Rightarrow> [JObj [(''date'', JStr (iso L (case vget d ''at'' of None \<Rightarrow> V_null | Some a \<Rightarrow> a))), (''value'', JStr (v_text L p))]])
    | _ \<Rightarrow> [])"

definition note_flags :: "unidb \<Rightarrow> ustr \<Rightarrow> meta \<Rightarrow> meta" where
  "note_flags u nts m = (case split u nts of (body, ts) \<Rightarrow> m\<lparr>has_notes := strip body \<noteq> [], tags := ts\<rparr>)"

definition credential_parts :: "legacy_env \<Rightarrow> vdict \<Rightarrow> legacy_error + meta \<times> sdata" where
  "credential_parts L c =
     bindE (totp_parts L (vget c ''totp'')) (\<lambda>(seed, params).
     bindE (v_iter (vor (vget c ''apple_history'') (V_list []))) (\<lambda>hist.
     bindE (text_list L c ''sites'') (\<lambda>ss.
     bindE (num_of L (vget c ''mdat'')) (\<lambda>md.
     bindE (text_list L c ''aliases'') (\<lambda>als.
       let nts = text_field L c ''notes''; pk = (vget c ''kind'' = Some (V_str (ascii ''passkey''))) in
       Inr (note_flags (db_of L) nts
           \<lparr>m_id = [], title = text_field L c ''title'', domain = text_field L c ''domain'', sites = ss,
            username = text_field L c ''username'', nickname = [], has_totp = (seed \<noteq> None), has_notes = False,
            mdat = md, history_count = 0, apple_title = text_field L c ''apple_title'', aliases = als, tags = [],
            has_passkey = vflag c ''has_passkey'', m_kind = (if pk then ''passkey'' else ''login''),
            has_password = (\<not> pk), recently_deleted = vflag c ''recently_deleted''\<rparr>,
         \<lparr>sd_password = text_field L c ''password'', sd_notes = nts, sd_totp = seed,
          sd_apple = concat (map (history_json L) hist), sd_params = params\<rparr>))))))"

subsection \<open>Two items of one account\<close>

definition add_text :: "ustr \<Rightarrow> ustr \<Rightarrow> ustr" where
  "add_text nts x = (if nts \<noteq> [] then nts @ [10, 10] @ x else x)"

definition param_text :: "(string \<times> json) list \<Rightarrow> string \<Rightarrow> ustr" where
  "param_text ps k = (case jget ps k of Some (JInt n) \<Rightarrow> if n \<noteq> 0 then [38] @ ascii k @ [61] @ int_text n else [] | _ \<Rightarrow> [])"

definition second_code :: "nat list \<Rightarrow> (string \<times> json) list \<Rightarrow> ustr" where
  "second_code seed ps = ascii ''Second verification code (from a duplicate item): otpauth://totp/?secret='' @
     b32encode_stripped seed @ param_text ps ''digits'' @ param_text ps ''period''"

definition merge_notes :: "legacy_env \<Rightarrow> sdata \<Rightarrow> sdata \<Rightarrow> ustr" where
  "merge_notes L ks s =
     (let nts = fst (split (db_of L) (sd_notes ks)); other = fst (split (db_of L) (sd_notes s));
          n1 = (if other \<noteq> [] \<and> other \<noteq> nts \<and> \<not> contains nts other then add_text nts other else nts) in
      if has_seed s \<and> has_seed ks \<and> sd_totp s \<noteq> sd_totp ks
      then (let l = second_code (the (sd_totp s)) (sd_params s) in if contains n1 l then n1 else add_text n1 l)
      else n1)"

fun more_tags :: "unidb \<Rightarrow> ustr list \<Rightarrow> ustr set \<Rightarrow> ustr list \<Rightarrow> ustr list" where
  "more_tags u [] sn out = out"
| "more_tags u (t # ts) sn out =
     (if fold_tag u t \<notin> sn \<and> length out < MAX_TAGS then more_tags u ts (insert (fold_tag u t) sn) (out @ [t])
      else more_tags u ts sn out)"

definition merge_tags :: "legacy_env \<Rightarrow> sdata \<Rightarrow> sdata \<Rightarrow> ustr list" where
  "merge_tags L ks s = (let ts = snd (split (db_of L) (sd_notes ks)) in
     more_tags (db_of L) (snd (split (db_of L) (sd_notes s))) (fold_tag (db_of L) ` set ts) ts)"

definition add_new :: "'a list \<Rightarrow> 'a \<Rightarrow> 'a list" where
  "add_new xs x = (if x \<in> set xs then xs else xs @ [x])"

definition spliced :: "unidb \<Rightarrow> ustr \<Rightarrow> ustr list \<Rightarrow> ustr \<Rightarrow> ustr" where
  "spliced u raw merged nts =
     (let r1 = (if merged \<noteq> snd (split u raw) then replace_tags u raw merged else raw) in
      if nts \<noteq> fst (split u r1) then replace_body u r1 nts else r1)"

definition merge_duplicate :: "legacy_env \<Rightarrow> meta \<times> sdata \<Rightarrow> meta \<times> sdata \<Rightarrow> meta \<times> sdata" where
  "merge_duplicate L k d = (case (k, d) of ((km, ks), (m, s)) \<Rightarrow>
     (let nts = spliced (db_of L) (sd_notes ks) (merge_tags L ks s) (merge_notes L ks s);
          takes = has_seed s \<and> \<not> has_seed ks;
          seed = (if takes then sd_totp s else sd_totp ks);
          ks2 = \<lparr>sd_password = sd_password ks, sd_notes = nts, sd_totp = seed,
                 sd_apple = foldl add_new (sd_apple ks) (sd_apple s),
                 sd_params = (if takes then sd_params s else sd_params ks)\<rparr> in
      (note_flags (db_of L) nts (km\<lparr>sites := sites km @ filter (\<lambda>x. x \<notin> set (sites km) \<and> x \<noteq> domain km) (sites m),
         has_totp := has_seed ks2\<rparr>), ks2)))"

subsection \<open>The items of a sync\<close>

definition credential_id :: "legacy_env \<Rightarrow> cred \<Rightarrow> string" where
  "credential_id L c = entry_id (l_sha L) (cr_domain c) (cr_username c) (if cr_deleted c then RECENTLY_DELETED else [])"

definition to_sync_item :: "legacy_env \<Rightarrow> (string \<times> ustr) list \<Rightarrow> cred \<Rightarrow> legacy_error + sync_item" where
  "to_sync_item L nicks c = bindE (credential_parts L (storage_dict (l_det L) c)) (\<lambda>(m, s).
     let i = credential_id L c in
     Inr \<lparr>it_id = i, it_meta = m\<lparr>m_id := i, nickname := (case dget nicks i of None \<Rightarrow> [] | Some t \<Rightarrow> t),
        history_count := int (length (sd_apple s))\<rparr>, it_secrets = s\<rparr>)"

definition fold_item :: "legacy_env \<Rightarrow> (string \<times> sync_item) list \<Rightarrow> string \<times> sync_item \<Rightarrow> (string \<times> sync_item) list" where
  "fold_item L kept d = (case d of (i, it) \<Rightarrow>
     let k = the (dget kept i) in
     case merge_duplicate L (it_meta k, it_secrets k) (it_meta it, it_secrets it) of
       (m, s) \<Rightarrow> dset i \<lparr>it_id = i, it_meta = m, it_secrets = s\<rparr> kept)"

definition to_sync_items :: "legacy_env \<Rightarrow> (string \<times> ustr) list \<Rightarrow> cred list \<Rightarrow> legacy_error + sync_item list" where
  "to_sync_items L nicks cs = bindE (mapE (to_sync_item L nicks) cs) (\<lambda>its.
     case collapse it_id (\<lambda>it. mdat (it_meta it)) its of (kept, dropped) \<Rightarrow>
       Inr (map snd (foldl (fold_item L) kept (sort_key (\<lambda>d. - mdat (it_meta (snd d))) dropped))))"

subsection \<open>One credential\<close>

lemma hex_digit: "n < 16 \<Longrightarrow> hex_value (hexd n) = Some n \<and> 48 \<le> hexd n"
  by (auto simp: hex_value_def hexd_def)

lemma from_hex_of: "list_all (\<lambda>b. b < 256) bs \<Longrightarrow> from_hex (hex_of bs) = Some bs"
proof (induction bs)
  case (Cons b bs)
  have "b div 16 < 16" "b mod 16 < 16" using Cons.prems by auto
  then show ?case using Cons hex_digit [of "b div 16"] hex_digit [of "b mod 16"] by (simp add: hex_of_def)
qed (simp add: hex_of_def)

lemma bytes_small: "list_all (\<lambda>b. b < 256) (map unat (bs :: bytes))"
  using unsigned_less [of "_ :: 8 word"] by (auto simp: list_all_iff)

lemma vget_simps [simp]: "vget [] k = None" "vget ((x, v) # d) k = (if x = ascii k then Some v else vget d k)"
  by (simp_all add: vget_def dget_def)

lemma vget_append: "vget (a @ b) k = (case vget a k of None \<Rightarrow> vget b k | Some v \<Rightarrow> Some v)"
  by (simp add: vget_def dget_def map_add_def split: option.split)

lemmas storage_get = storage_dict_def vget_append

lemma storage_gets:
  "vget (storage_dict E c) ''domain'' = Some (V_str (cr_domain c))"
  "vget (storage_dict E c) ''username'' = Some (V_str (cr_username c))"
  "vget (storage_dict E c) ''password'' = Some (V_str (cr_password c))"
  "vget (storage_dict E c) ''title'' = Some (V_str (cr_title c))"
  "vget (storage_dict E c) ''mdat'' = Some (V_num (cr_mdat c))"
  "vget (storage_dict E c) ''notes'' = Some (V_str (cr_notes c))"
  "vget (storage_dict E c) ''aliases'' = Some (V_list (map V_str (cr_aliases c)))"
  "vget (storage_dict E c) ''apple_title'' = Some (V_str (cr_apple_title c))"
  "vget (storage_dict E c) ''sites'' = Some (V_list (map V_str (cr_sites c)))"
  "vget (storage_dict E c) ''recently_deleted'' = (if cr_deleted c then Some (V_bool True) else None)"
  "vget (storage_dict E c) ''kind'' = (if cr_is_passkey c then Some (V_str (ascii ''passkey'')) else None)"
  "vget (storage_dict E c) ''has_passkey'' = (if cr_has_passkey c then Some (V_bool True) else None)"
  "vget (storage_dict E c) ''totp'' = map_option (\<lambda>t. V_dict (storage_totp E t)) (cr_totp c)"
  "vget (storage_dict E c) ''apple_history'' =
     Some (V_list (map (\<lambda>(tm, p). V_dict [(ascii ''at'', V_num tm), (ascii ''password'', of_plist E p)]) (cr_history c)))"
  by (simp_all add: storage_get split: option.split)

lemma of_plist_ne [simp]: "of_plist E p \<noteq> V_null" by (cases p) simp_all

lemma vor_str [simp]: "v_text L (vor (Some (V_str s)) (V_str [])) = s" by (simp add: vor_def v_text_def)

lemma iter_list [simp]: "v_iter (vor (Some (V_list xs)) (V_list [])) = Inr xs" by (simp add: vor_def v_iter_def)

definition conf_params :: "totp_conf \<Rightarrow> (string \<times> json) list" where
  "conf_params t = [(''digits'', JInt (if tc_digits t = 0 then 6 else tc_digits t)),
     (''period'', JInt (if tc_period t = 0 then 30 else tc_period t)), (''algorithm'', JInt (tc_algorithm t))] @
     (if tc_issuer t = [] then [] else [(''issuer'', JStr (tc_issuer t))])"

text \<open>The code's secret is bytes that are not empty, as Apple writes it.\<close>

definition bytes_code :: "cred \<Rightarrow> bool" where
  "bytes_code c \<longleftrightarrow> (case cr_totp c of None \<Rightarrow> True | Some t \<Rightarrow> (case tc_secret t of PL_data b \<Rightarrow> b \<noteq> [] | _ \<Rightarrow> False))"

lemma storage_totp_parts:
  assumes "tc_secret t = PL_data b" and "b \<noteq> []"
  shows "totp_parts L (Some (V_dict (storage_totp E t))) = Inr (Some (map unat b), conf_params t)"
proof -
  have "hex_of (map unat b) \<noteq> []" using assms(2) by (cases b) (simp_all add: hex_of_def)
  then show ?thesis
    using from_hex_of [OF bytes_small, of b] assms(1)
    by (simp add: totp_parts_def storage_totp_def vor_def legacy_seed_def v_int_def conf_params_def v_text_def)
qed

definition item_of_cred :: "legacy_env \<Rightarrow> (string \<times> ustr) list \<Rightarrow> cred \<Rightarrow> sync_item" where
  "item_of_cred L nicks c = (let i = credential_id L c in
     \<lparr>it_id = i,
      it_meta = note_flags (db_of L) (cr_notes c)
       \<lparr>m_id = i, title = cr_title c, domain = cr_domain c, sites = cr_sites c, username = cr_username c,
        nickname = (case dget nicks i of None \<Rightarrow> [] | Some t \<Rightarrow> t), has_totp = (cr_totp c \<noteq> None), has_notes = False,
        mdat = cr_mdat c, history_count = int (length (cr_history c)), apple_title = cr_apple_title c, aliases = cr_aliases c,
        tags = [], has_passkey = cr_has_passkey c, m_kind = (if cr_is_passkey c then ''passkey'' else ''login''),
        has_password = (\<not> cr_is_passkey c), recently_deleted = cr_deleted c\<rparr>,
      it_secrets = \<lparr>sd_password = cr_password c, sd_notes = cr_notes c,
        sd_totp = (case cr_totp c of None \<Rightarrow> None | Some t \<Rightarrow> (case tc_secret t of PL_data b \<Rightarrow> Some (map unat b) | _ \<Rightarrow> None)),
        sd_apple = map (\<lambda>(tm, p). JObj [(''date'', JStr (iso L (V_num tm))), (''value'', JStr (v_text L (of_plist (l_det L) p)))]) (cr_history c),
        sd_params = (case cr_totp c of None \<Rightarrow> [] | Some t \<Rightarrow> conf_params t)\<rparr>\<rparr>)"

lemma stored_history_rows:
  "concat (map (\<lambda>x. history_json L (case x of (tm, p) \<Rightarrow> V_dict [(ascii ''at'', V_num tm), (ascii ''password'', of_plist E p)])) hs) =
   map (\<lambda>(tm, p). JObj [(''date'', JStr (iso L (V_num tm))), (''value'', JStr (v_text L (of_plist E p)))]) hs"
  by (induction hs) (auto simp: history_json_def split: dval.splits)

lemma note_flags_upd:
  "(note_flags u nts m)\<lparr>m_id := i, nickname := n, history_count := h\<rparr> = note_flags u nts (m\<lparr>m_id := i, nickname := n, history_count := h\<rparr>)"
  by (simp add: note_flags_def split: prod.split)

lemma to_sync_item_of_cred: "bytes_code c \<Longrightarrow> to_sync_item L nicks c = Inr (item_of_cred L nicks c)"
proof -
  assume b: "bytes_code c"
  have t: "totp_parts L (map_option (\<lambda>t. V_dict (storage_totp (l_det L) t)) (cr_totp c)) =
     Inr (case cr_totp c of None \<Rightarrow> None | Some t \<Rightarrow> (case tc_secret t of PL_data b \<Rightarrow> Some (map unat b) | _ \<Rightarrow> None),
          case cr_totp c of None \<Rightarrow> [] | Some t \<Rightarrow> conf_params t)"
    using b storage_totp_parts [of _ _ L "l_det L"]
    by (auto simp: bytes_code_def totp_parts_def split: option.splits plist.splits)
  have "(case cr_totp c of None \<Rightarrow> None | Some t \<Rightarrow> (case tc_secret t of PL_data b \<Rightarrow> Some (map unat b) | _ \<Rightarrow> None)) \<noteq> None \<longleftrightarrow> cr_totp c \<noteq> None"
    using b by (auto simp: bytes_code_def split: option.splits plist.splits)
  then show ?thesis
    by (simp add: to_sync_item_def credential_parts_def t storage_gets text_field_def text_list_def num_of_def v_float_def vflag_def
        stored_history_rows note_flags_upd item_of_cred_def Let_def comp_def v_text_def [where v = "V_str _"])
qed

end
