(* ===== verification/SyncItems.thy ===== *)
theory SyncItems
  imports Legacy Pipeline
begin

text \<open>
  What a sync hands to the store: \<^verbatim>\<open>to_sync_items\<close> of \<^verbatim>\<open>backend/icp/octagon/items.py\<close> proved to give one item per account,
  and the way from the fetched records to an entry that opens: \<^verbatim>\<open>decrypt_to_sync_items\<close> of
  \<^verbatim>\<open>backend/icp/octagon/client.py\<close> followed by \<^verbatim>\<open>apply_sync\<close>.
\<close>

subsection \<open>Folding an older item in\<close>

lemma merge_keeps:
  assumes "merge_duplicate L (km, ks) (m, s) = (m', s')"
  shows "sd_password s' = sd_password ks" "m_id m' = m_id km" "mdat m' = mdat km" "recently_deleted m' = recently_deleted km"
    "title m' = title km" "domain m' = domain km" "username m' = username km" "m_kind m' = m_kind km"
    "set (sites m') = set (sites km) \<union> (set (sites m) - {domain km})"
    "set (sd_apple s') = set (sd_apple ks) \<union> set (sd_apple s)"
    "has_seed s' \<longleftrightarrow> has_seed ks \<or> has_seed s" "has_seed ks \<Longrightarrow> sd_totp s' = sd_totp ks"
proof -
  have "set (foldl add_new xs ys) = set xs \<union> set ys" for xs ys :: "json list"
    by (induction ys arbitrary: xs) (auto simp: add_new_def)
  then show "sd_password s' = sd_password ks" "m_id m' = m_id km" "mdat m' = mdat km" "recently_deleted m' = recently_deleted km"
      "title m' = title km" "domain m' = domain km" "username m' = username km" "m_kind m' = m_kind km"
      "set (sites m') = set (sites km) \<union> (set (sites m) - {domain km})"
      "set (sd_apple s') = set (sd_apple ks) \<union> set (sd_apple s)"
      "has_seed s' \<longleftrightarrow> has_seed ks \<or> has_seed s" "has_seed ks \<Longrightarrow> sd_totp s' = sd_totp ks"
    using assms by (auto simp: merge_duplicate_def Let_def note_flags_def has_seed_def split: prod.splits)
qed

text \<open>What an item must be for the store to take it, whatever its account.\<close>

definition item_wf :: "sync_item \<Rightarrow> bool" where
  "item_wf it \<longleftrightarrow> m_id (it_meta it) = it_id it \<and> secrets_wf (it_secrets it)"

lemma merge_wf: "secrets_wf ks \<Longrightarrow> secrets_wf s \<Longrightarrow> merge_duplicate L (km, ks) (m, s) = (m', s') \<Longrightarrow> secrets_wf s'"
proof -
  assume w: "secrets_wf ks" "secrets_wf s" and "merge_duplicate L (km, ks) (m, s) = (m', s')"
  then have s': "sd_totp s' = (if has_seed s \<and> \<not> has_seed ks then sd_totp s else sd_totp ks)"
      "sd_params s' = (if has_seed s \<and> \<not> has_seed ks then sd_params s else sd_params ks)"
      "set (sd_apple s') = set (sd_apple ks) \<union> set (sd_apple s)"
    using merge_keeps(10) by (auto simp: merge_duplicate_def Let_def note_flags_def split: prod.splits)
  then show ?thesis using w by (auto simp: secrets_wf_def check_secrets_def list_all_iff)
qed

subsection \<open>One item per account\<close>

text \<open>The item an account's newest credential gives, whatever was folded into it.\<close>

definition stands_for :: "sync_item \<Rightarrow> sync_item \<Rightarrow> bool" where
  "stands_for x it \<longleftrightarrow> it_id x = it_id it \<and> sd_password (it_secrets x) = sd_password (it_secrets it) \<and>
     mdat (it_meta x) = mdat (it_meta it) \<and> recently_deleted (it_meta x) = recently_deleted (it_meta it) \<and>
     m_kind (it_meta x) = m_kind (it_meta it) \<and> title (it_meta x) = title (it_meta it) \<and>
     domain (it_meta x) = domain (it_meta it) \<and> username (it_meta x) = username (it_meta it)"

definition folded :: "(string \<times> sync_item) list \<Rightarrow> (string \<times> sync_item) list \<Rightarrow> bool" where
  "folded kept0 kept \<longleftrightarrow> list_all2 (\<lambda>(i, x) (j, y). i = j \<and> stands_for y x \<and> it_id y = i \<and> item_wf y) kept0 kept"

lemma dset_list_all2:
  "list_all2 (\<lambda>(i, x) (j, y). i = j \<and> Q i x y) a b \<Longrightarrow> distinct (map fst b) \<Longrightarrow> dget b k = Some y \<Longrightarrow>
   (\<And>x. dget a k = Some x \<Longrightarrow> Q k x y \<Longrightarrow> Q k x z) \<Longrightarrow> list_all2 (\<lambda>(i, x) (j, y). i = j \<and> Q i x y) a (dset k z b)"
proof (induction a b rule: list_all2_induct)
  case (Cons p a q b)
  obtain i x j y' where pq: "p = (i, x)" "q = (j, y')" by (cases p, cases q)
  show ?case
  proof (cases "k = i")
    case True
    then have "dset k z ((j, y') # b) = (k, z) # b" using Cons.hyps pq by (simp add: dset_def)
    then show ?thesis using Cons True by (auto simp: pq dget_def)
  next
    case False
    then have "dset k z ((j, y') # b) = (j, y') # dset k z b" using Cons.hyps pq by (simp add: dset_def)
    then show ?thesis using Cons False by (auto simp: pq dget_def)
  qed
qed simp

lemma folded_mem: "folded a b \<Longrightarrow> (i, y) \<in> set b \<Longrightarrow> \<exists>x. (i, x) \<in> set a \<and> stands_for y x"
  unfolding folded_def by (induction rule: list_all2_induct) auto

lemma folded_step:
  assumes "folded kept0 kept" and "distinct (map fst kept0)" and "dget kept0 i \<noteq> None" and "item_wf it"
  shows "folded kept0 (fold_item L kept (i, it))"
proof -
  have l: "list_all2 (\<lambda>(i, x) (j, y). i = j \<and> (stands_for y x \<and> it_id y = i \<and> item_wf y)) kept0 kept"
    using assms(1) by (simp add: folded_def)
  then have "map fst kept = map fst kept0" by (induction rule: list_all2_induct) auto
  then obtain k where k: "dget kept i = Some k" using assms(3) by (metis dkeys_dget set_map not_None_eq)
  obtain m s where m: "merge_duplicate L (it_meta k, it_secrets k) (it_meta it, it_secrets it) = (m, s)" by fastforce
  have "list_all2 (\<lambda>(i, x) (j, y). i = j \<and> (stands_for y x \<and> it_id y = i \<and> item_wf y)) kept0
      (dset i \<lparr>it_id = i, it_meta = m, it_secrets = s\<rparr> kept)"
  proof (rule dset_list_all2 [OF l _ k])
    show "distinct (map fst kept)" using \<open>map fst kept = map fst kept0\<close> assms(2) by simp
  next
    fix x
    assume "stands_for k x \<and> it_id k = i \<and> item_wf k"
    then show "stands_for \<lparr>it_id = i, it_meta = m, it_secrets = s\<rparr> x \<and> it_id \<lparr>it_id = i, it_meta = m, it_secrets = s\<rparr> = i \<and>
        item_wf \<lparr>it_id = i, it_meta = m, it_secrets = s\<rparr>"
      using merge_keeps [OF m] merge_wf [OF _ _ m] assms(4) by (auto simp: stands_for_def item_wf_def)
  qed
  then show ?thesis using k m by (simp add: fold_item_def folded_def)
qed

lemma folded_all:
  "folded kept0 kept \<Longrightarrow> distinct (map fst kept0) \<Longrightarrow> \<forall>(i, it) \<in> set ds. dget kept0 i \<noteq> None \<and> item_wf it \<Longrightarrow>
   folded kept0 (foldl (fold_item L) kept ds)"
proof (induction ds arbitrary: kept)
  case (Cons d ds)
  then show ?case using folded_step [of kept0 kept "fst d" "snd d" L] by (cases d) auto
qed simp

lemma item_of_cred_simps:
  "m_id (it_meta (item_of_cred L nicks c)) = credential_id L c"
  "it_id (item_of_cred L nicks c) = credential_id L c" "mdat (it_meta (item_of_cred L nicks c)) = cr_mdat c"
  "sd_password (it_secrets (item_of_cred L nicks c)) = cr_password c"
  "recently_deleted (it_meta (item_of_cred L nicks c)) = cr_deleted c"
  "title (it_meta (item_of_cred L nicks c)) = cr_title c" "domain (it_meta (item_of_cred L nicks c)) = cr_domain c"
  "username (it_meta (item_of_cred L nicks c)) = cr_username c"
  "m_kind (it_meta (item_of_cred L nicks c)) = (if cr_is_passkey c then ''passkey'' else ''login'')"
  by (auto simp: item_of_cred_def note_flags_def Let_def split: prod.splits)

lemma conf_params_wf: "json_wf (JObj (conf_params t))"
  by (simp add: conf_params_def)

lemma item_of_cred_wf: "bytes_code c \<Longrightarrow> item_wf (item_of_cred L nicks c)"
proof -
  assume b: "bytes_code c"
  let ?s = "it_secrets (item_of_cred L nicks c)"
  have "json_wf (JObj (sd_params ?s))"
    by (cases "cr_totp c") (simp_all add: item_of_cred_def Let_def conf_params_wf del: json_wf.simps(2), simp)
  moreover have "check_secrets ?s" "list_all json_wf (sd_apple ?s)"
    by (auto simp: item_of_cred_def Let_def check_secrets_def list_all_iff)
  moreover have "case sd_totp ?s of None \<Rightarrow> True | Some bs \<Rightarrow> list_all (\<lambda>b. b < 256) bs"
    by (simp add: item_of_cred_def Let_def bytes_small split: option.split plist.split)
  ultimately show ?thesis by (simp add: item_wf_def secrets_wf_def item_of_cred_simps)
qed

lemma to_sync_item_map: "list_all bytes_code cs \<Longrightarrow> mapE (to_sync_item L nicks) cs = Inr (map (item_of_cred L nicks) cs)"
  by (induction cs) (simp_all add: to_sync_item_of_cred)

text \<open>The newest credential of an account.\<close>

definition newest :: "legacy_env \<Rightarrow> cred list \<Rightarrow> cred \<Rightarrow> bool" where
  "newest L cs c \<longleftrightarrow> c \<in> set cs \<and> list_all (\<lambda>c'. credential_id L c' = credential_id L c \<longrightarrow> cr_mdat c' \<le> cr_mdat c) cs"

lemma sync_items_spec:
  assumes "list_all bytes_code cs"
  shows "\<exists>its. to_sync_items L nicks cs = Inr its \<and> distinct (map it_id its) \<and> list_all item_wf its \<and>
    it_id ` set its = credential_id L ` set cs \<and>
    list_all (\<lambda>it. \<exists>c. newest L cs c \<and> stands_for it (item_of_cred L nicks c)) its"
proof -
  let ?its = "map (item_of_cred L nicks) cs"
  obtain kept dropped where c: "collapse it_id (\<lambda>it. mdat (it_meta it)) ?its = (kept, dropped)" by fastforce
  have p: "mset kept + mset dropped = mset (map (\<lambda>x. (it_id x, x)) ?its)" "distinct (map fst kept)"
      "list_all (\<lambda>(k, y). case dget kept k of None \<Rightarrow> False | Some x \<Rightarrow> mdat (it_meta y) \<le> mdat (it_meta x)) dropped"
    using collapse_partition [of it_id "\<lambda>it. mdat (it_meta it)" ?its] by (simp_all add: c)
  have s: "set kept \<union> set dropped = (\<lambda>x. (it_id x, x)) ` item_of_cred L nicks ` set cs"
    using arg_cong [OF p(1), of set_mset] by (simp add: image_image)
  let ?ds = "sort_key (\<lambda>d. - mdat (it_meta (snd d))) dropped"
  let ?out = "foldl (fold_item L) kept ?ds"
  have wf: "item_wf x \<and> it_id x = i \<and> x \<in> item_of_cred L nicks ` set cs" if "(i, x) \<in> set kept \<union> set dropped" for i x
    using that item_of_cred_wf assms unfolding s by (auto simp: list_all_iff)
  have "folded kept kept" unfolding folded_def using wf by (auto simp: list_all2_same stands_for_def)
  then have f: "folded kept ?out"
    using p(2,3) wf by (intro folded_all) (fastforce simp: list_all_iff split: option.splits)+
  have keys: "map fst ?out = map it_id (map snd ?out)" "map fst ?out = map fst kept"
    using f unfolding folded_def by (induction rule: list_all2_induct) auto
  have best: "\<exists>c. newest L cs c \<and> stands_for y (item_of_cred L nicks c)" if y: "(i, y) \<in> set ?out" for i y
  proof -
    obtain x where x: "(i, x) \<in> set kept" "stands_for y x" using folded_mem [OF f y] by blast
    obtain c where c: "c \<in> set cs" "x = item_of_cred L nicks c" "it_id x = i" using wf [of i x] x(1) by auto
    have "cr_mdat c' \<le> cr_mdat c" if "c' \<in> set cs" "credential_id L c' = credential_id L c" for c'
    proof -
      have "(i, item_of_cred L nicks c') \<in> set kept \<union> set dropped" unfolding s image_image
        using that(1) by (rule rev_image_eqI) (use that c in \<open>simp add: item_of_cred_simps\<close>)
      moreover have "dget kept i = Some x" using x(1) p(2) by (simp add: dget_def)
      moreover have "x' = x" if "(i, x') \<in> set kept" for x' using that x(1) p(2) by (metis eq_key_imp_eq_value)
      ultimately have "mdat (it_meta (item_of_cred L nicks c')) \<le> mdat (it_meta x)" using p(3) by (auto simp: list_all_iff)
      then show ?thesis using c(2) by (simp add: item_of_cred_simps)
    qed
    then have "newest L cs c" using c(1) by (simp add: newest_def list_all_iff)
    then show ?thesis using x(2) c(2) by blast
  qed
  have "fst ` set kept = credential_id L ` set cs"
  proof -
    have "fst ` set dropped \<subseteq> fst ` set kept"
      using p(3) by (fastforce simp: list_all_iff dkeys_dget split: option.splits)
    then have "fst ` set kept = fst ` (set kept \<union> set dropped)" by (auto simp: image_Un)
    then show ?thesis unfolding s by (simp add: image_image item_of_cred_simps)
  qed
  then have "it_id ` set (map snd ?out) = credential_id L ` set cs" using keys by (metis list.set_map)
  moreover have "list_all item_wf (map snd ?out)"
    using f unfolding folded_def by (induction rule: list_all2_induct) auto
  moreover have "to_sync_items L nicks cs = Inr (map snd ?out)"
    using c by (simp add: to_sync_items_def to_sync_item_map [OF assms])
  moreover have "distinct (map it_id (map snd ?out))" using keys p(2) by metis
  ultimately show ?thesis using best by (intro exI [of _ "map snd ?out"]) (auto simp: list_all_iff)
qed

subsection \<open>From the keychain to an entry that opens\<close>

definition decrypt_to_sync_items ::
  "pipe_env \<Rightarrow> legacy_env \<Rightarrow> (ustr \<times> ckrec list) list \<Rightarrow> ustr \<Rightarrow> (ustr \<times> pval) list \<Rightarrow> (string \<times> ustr) list \<Rightarrow>
   pipe_error + sync_item list \<times> ((ustr \<times> ustr) \<times> shape_slot) list" where
  "decrypt_to_sync_items V L records peer tlks nicks =
     bindE (build_credential_store V (\<lambda>k. case dget records (ascii k) of None \<Rightarrow> [] | Some rs \<Rightarrow> rs) peer tlks) (\<lambda>(cs, shape).
       case to_sync_items L nicks cs of Inl e \<Rightarrow> Inl Pe_other | Inr its \<Rightarrow> Inr (its, shape))"

definition sha_ok :: "legacy_env \<Rightarrow> bool" where
  "sha_ok L \<longleftrightarrow> (\<forall>b. set (l_sha L b) \<subseteq> set ''0123456789abcdef'' \<and> length (l_sha L b) = 64)"

lemma id_chars_chop: "list_all id_char x \<Longrightarrow> chop_newline x = x"
proof (rule ccontr)
  assume "list_all id_char x" "chop_newline x \<noteq> x"
  then have "id_char 10" by (auto simp: chop_newline_def list_all_iff split: if_splits dest!: last_in_set)
  then show False by (simp add: id_char_def)
qed

lemma credential_id_ok:
  assumes "sha_ok L"
  shows "store_valid_id (JStr (ascii (credential_id L c)))"
proof -
  obtain h where h: "credential_id L c = ''k1-'' @ take 40 h" "set h \<subseteq> set ''0123456789abcdef''" "length h = 64"
    using assms by (auto simp: credential_id_def entry_id_def ID_PREFIX_def HEX_CHARS_def sha_ok_def)
  have "list_all id_char (ascii (take 40 h))"
    using h(2) set_take_subset [of 40 h] by (fastforce simp: list_all_iff ascii_def id_char_def)
  then have "list_all id_char (ascii (credential_id L c))"
    by (simp add: h(1) ascii_append) (simp add: ascii_def id_char_def)
  then show ?thesis
    using h(3) by (simp add: store_valid_id_def valid_id_def id_chars_chop Let_def) (simp add: h(1) ascii_def)
qed

lemma synced_meta:
  assumes "entry_of st i = Some rec" and "synced C u ks it rec" and "us_keys st = Some ks"
  shows "\<exists>m. get_meta i st = (Inr m, st) \<and> title m = title (it_meta it) \<and> domain m = domain (it_meta it) \<and> username m = username (it_meta it)"
  using assms
  by (auto simp: get_meta_def with_keys_def with_live_def live_record_def entry_of_def [symmetric] synced_def to_meta_def Let_def
      item_fields_def fields_from_def notes_fields_def split: prod.splits)

text \<open>
  C25 (a sync reaches the store). Every account of the keychain becomes one entry. After the sync the account's newest credential
  is the entry that opens under its identifier: to a password with the MAC of that credential's, and listed under its
  title, site and user name - however many older duplicates were folded into it.
\<close>

theorem keychain_reaches_store:
  assumes "store_ok C ks st" and "boxlib_ok C" and "p_public C sk = ks_pk ks" and "sha_ok L"
    and "list_all bytes_code cs" and "c \<in> set cs" and "credential_id L c \<notin> set gone"
    and "list_all (\<lambda>c'. credential_id L c' = credential_id L c \<longrightarrow> c' = c \<or> cr_mdat c' < cr_mdat c) cs"
  shows "\<exists>its n st' s m. to_sync_items L nicks cs = Inr its \<and> apply_sync C u its gone now st = (Inr n, st') \<and>
    fst (open_entry C (Some (Inr sk)) (credential_id L c) st') = Inr s \<and>
    pwmac C (ks_pwmac ks) (sd_password s) = pwmac C (ks_pwmac ks) (cr_password c) \<and>
    get_meta (credential_id L c) st' = (Inr m, st') \<and> title m = cr_title c \<and> domain m = cr_domain c \<and> username m = cr_username c"
proof -
  obtain its where its: "to_sync_items L nicks cs = Inr its" "distinct (map it_id its)" "list_all item_wf its"
      "it_id ` set its = credential_id L ` set cs" "list_all (\<lambda>it. \<exists>c. newest L cs c \<and> stands_for it (item_of_cred L nicks c)) its"
    using sync_items_spec [OF assms(5), of L nicks] by blast
  obtain it where it: "it \<in> set its" "it_id it = credential_id L c" using its(4) assms(6) by (metis imageE imageI)
  obtain c' where c': "newest L cs c'" "stands_for it (item_of_cred L nicks c')" using its(5) it(1) by (auto simp: list_all_iff)
  have "c' = c"
  proof -
    have "credential_id L c' = credential_id L c" using c'(2) it(2) by (simp add: stands_for_def item_of_cred_simps)
    moreover have "c' \<in> set cs" "\<forall>d\<in>set cs. credential_id L d = credential_id L c' \<longrightarrow> cr_mdat d \<le> cr_mdat c'"
      using c'(1) by (simp_all add: newest_def list_all_iff)
    moreover have "\<forall>d\<in>set cs. credential_id L d = credential_id L c \<longrightarrow> d = c \<or> cr_mdat d < cr_mdat c"
      using assms(8) by (simp add: list_all_iff)
    ultimately have "cr_mdat c \<le> cr_mdat c'" "c' = c \<or> cr_mdat c' < cr_mdat c" using assms(6) by simp_all
    then show ?thesis by (elim disjE) simp_all
  qed
  have ok: "list_all item_ok its"
    unfolding list_all_iff
  proof
    fix x assume x: "x \<in> set its"
    then obtain d where "it_id x = credential_id L d" using its(4) by blast
    then show "item_ok x" using x its(3) credential_id_ok [OF assms(4)] by (simp add: list_all_iff item_ok_def item_wf_def secrets_wf_def)
  qed
  have wf: "list_all (\<lambda>it. secrets_wf (it_secrets it)) its" using its(3) by (simp add: list_all_iff item_wf_def)
  obtain n st' where sy: "apply_sync C u its gone now st = (Inr n, st')" "store_ok C ks st'"
      "list_all (\<lambda>it. \<exists>rec. entry_of st' (it_id it) = Some rec \<and> (if it_id it \<in> set gone then r_deleted rec else synced C u ks it rec)) its"
    using apply_sync_spec [OF assms(1) ok wf its(2)] by blast
  then obtain rec where rec: "entry_of st' (credential_id L c) = Some rec" "synced C u ks it rec"
    using it assms(7) by (fastforce simp: list_all_iff)
  obtain s where s: "open_entry C (Some (Inr sk)) (credential_id L c) st' = (Inr (norm_secrets s), st'\<lparr>us_unseals := Suc (us_unseals st')\<rparr>)"
      "unchanged_secrets C ks rec s"
    using entry_reads [OF sy(2) assms(2,3) rec(1)] rec(2) by (auto simp: synced_def)
  have mac: "pwmac C (ks_pwmac ks) (sd_password (norm_secrets s)) = pwmac C (ks_pwmac ks) (cr_password c)"
    using s(2) rec(2) c'(2) \<open>c' = c\<close>
    by (auto simp: unchanged_secrets_def synced_def stands_for_def item_of_cred_simps norm_secrets_def)
  obtain m where "get_meta (credential_id L c) st' = (Inr m, st')" "title m = title (it_meta it)" "domain m = domain (it_meta it)"
      "username m = username (it_meta it)"
    using synced_meta [OF rec store_okD(1) [OF sy(2)]] by blast
  then show ?thesis
    using its(1) sy(1) s(1) mac c'(2) \<open>c' = c\<close>
    by (intro exI conjI) (assumption | simp add: stands_for_def item_of_cred_simps)+
qed

definition example_legacy :: legacy_env where
  "example_legacy = \<lparr>l_det = example_det, l_std = \<lparr>upper = (\<lambda>s. s), to_int = (\<lambda>s. None), utf8_encode = (\<lambda>s. []), url_netloc = (\<lambda>s. []),
       url_label = (\<lambda>s. []), url_query = (\<lambda>s. []), py_lower = (\<lambda>s. s)\<rparr>,
     l_sha = (\<lambda>b. replicate 64 (CHR ''a'')), l_str = (\<lambda>v. []), l_int = (\<lambda>v. None), l_float = (\<lambda>v. None), l_date = (\<lambda>t. None)\<rparr>"

definition example_cred :: "string \<Rightarrow> real \<Rightarrow> cred" where
  "example_cred pw t = \<lparr>cr_domain = ascii ''a.com'', cr_username = ascii ''ann'', cr_password = ascii pw, cr_title = ascii ''A'', cr_mdat = t,
     cr_totp = None, cr_notes = [], cr_history = [], cr_apple_title = [], cr_aliases = [], cr_sites = [], cr_deleted = False,
     cr_is_passkey = False, cr_has_passkey = False\<rparr>"

text \<open>Two items of one account: the store opens to the newer one's password.\<close>

theorem keychain_reaches_store_witness:
  "\<exists>its n st' s. to_sync_items example_legacy [] [example_cred ''old'' 1, example_cred ''hunter2'' 2] = Inr its \<and>
    apply_sync sym_lib ascii_db its [] 100 empty_store = (Inr n, st') \<and>
    fst (open_entry sym_lib (Some (Inr (T_name 3))) (credential_id example_legacy (example_cred ''hunter2'' 2)) st') = Inr s \<and>
    sd_password s = ascii ''hunter2''"
proof -
  have "sha_ok example_legacy" by (auto simp: sha_ok_def example_legacy_def)
  moreover have "p_public sym_lib (T_name 3) = ks_pk example_keys" by (simp add: sym_lib_def example_keys_def)
  moreover have "list_all bytes_code [example_cred ''old'' 1, example_cred ''hunter2'' 2]" by (simp add: bytes_code_def example_cred_def)
  moreover have "list_all (\<lambda>c'. credential_id example_legacy c' = credential_id example_legacy (example_cred ''hunter2'' 2) \<longrightarrow>
      c' = example_cred ''hunter2'' 2 \<or> cr_mdat c' < cr_mdat (example_cred ''hunter2'' 2)) [example_cred ''old'' 1, example_cred ''hunter2'' 2]"
    by (simp add: example_cred_def)
  ultimately obtain its n st' s where r: "to_sync_items example_legacy [] [example_cred ''old'' 1, example_cred ''hunter2'' 2] = Inr its"
      "apply_sync sym_lib ascii_db its [] 100 empty_store = (Inr n, st')"
      "fst (open_entry sym_lib (Some (Inr (T_name 3))) (credential_id example_legacy (example_cred ''hunter2'' 2)) st') = Inr s"
      "pwmac sym_lib (ks_pwmac example_keys) (sd_password s) = pwmac sym_lib (ks_pwmac example_keys) (cr_password (example_cred ''hunter2'' 2))"
    using keychain_reaches_store [OF empty_store_ok sym_lib_ok, of "T_name 3" example_legacy
        "[example_cred ''old'' 1, example_cred ''hunter2'' 2]" "example_cred ''hunter2'' 2" "[]" "[]" ascii_db 100] by auto
  have "sd_password s = ascii ''hunter2''" using r(4) by (simp add: pwmac_def sym_lib_def example_cred_def)
  then show ?thesis using r(1-3) by blast
qed

end
