(* ===== verification/Watchers.thy ===== *)
theory Watchers
  imports Peer
begin

text \<open>
  Who reads the clipboard: \<^verbatim>\<open>backend/icp/client/watchers.py\<close> and the identification of a pipe's readers in
  \<^verbatim>\<open>backend/icp/client/clip.py\<close>. What \<^verbatim>\<open>/proc\<close> shows is a parameter.
\<close>

definition OMARCHY_CAPTURE :: string where
  "OMARCHY_CAPTURE = ''/usr/share/omarchy/shell/plugins/clipboard/capture.sh''"

definition CLIPBOARD_READERS :: "string list" where
  "CLIPBOARD_READERS = [''fcitx5'', ''copyq'', ''clipse'', ''gpaste-daemon'', ''elephant'', ''klipper'', ''diodon'',
     ''parcellite'', ''clipit'', ''greenclip'', ''xfce4-clipman'', ''clipcatd'', ''cliphist'', ''clipman'',
     ''wl-clip-persist'', ''kdeconnectd'', ''barrier'', ''barriers'', ''input-leap'', ''input-leaps'', ''synergy-core'',
     ''synergys'']"

definition MAX_ANCESTRY :: nat where "MAX_ANCESTRY = 4"

record proc_info =
  pi_ppid :: int
  pi_argv :: "ustr list"

definition basename :: "ustr \<Rightarrow> ustr" where
  "basename s = last (split_on 47 s)"

text \<open>\<^verbatim>\<open>x in list\<close> with the index.\<close>

fun find_index :: "ustr \<Rightarrow> ustr list \<Rightarrow> nat option" where
  "find_index x [] = None"
| "find_index x (y # ys) = (if y = x then Some 0 else map_option Suc (find_index x ys))"

fun type_options :: "ustr list \<Rightarrow> bool" where
  "type_options [] = True"
| "type_options (a # rest) =
     (if (a = ascii ''--type'' \<or> a = ascii ''-t'') \<and> rest \<noteq> [] then type_options (tl rest)
      else if startswith a (ascii ''--type='') then type_options rest else False)"

definition history_command :: "ustr list \<Rightarrow> bool" where
  "history_command cmd \<longleftrightarrow> (cmd \<noteq> [] \<and> hd cmd = ascii OMARCHY_CAPTURE) \<or>
     (length cmd = 2 \<and> basename (cmd ! 0) = ascii ''cliphist'' \<and> cmd ! 1 = ascii ''store'') \<or>
     (length cmd \<ge> 2 \<and> basename (cmd ! 0) = ascii ''clipman'' \<and> cmd ! 1 = ascii ''store'' \<and>
       list_all (\<lambda>a. startswith a (ascii ''--'')) (drop 2 cmd))"

definition is_watcher_argv :: "ustr list \<Rightarrow> bool" where
  "is_watcher_argv argv \<longleftrightarrow>
     (if argv \<noteq> [] \<and> basename (hd argv) \<in> ascii ` set CLIPBOARD_READERS then True
      else if argv = [] \<or> basename (hd argv) \<noteq> ascii ''wl-paste'' then False
      else (case (case find_index (ascii ''--watch'') argv of Some i \<Rightarrow> Some i | None \<Rightarrow> find_index (ascii ''-w'') argv) of
          None \<Rightarrow> False
        | Some i \<Rightarrow> type_options (tl (take i argv)) \<and> history_command (drop (i + 1) argv)))"

text \<open>The hops left, the processes seen, the process at hand.\<close>

fun watcher_hops :: "nat \<Rightarrow> (int \<Rightarrow> proc_info option) \<Rightarrow> int set \<Rightarrow> int \<Rightarrow> bool" where
  "watcher_hops 0 describe sn pid = False"
| "watcher_hops (Suc n) describe sn pid =
     (if pid \<le> 1 \<or> pid \<in> sn then False
      else (case describe pid of
          None \<Rightarrow> False
        | Some info \<Rightarrow> is_watcher_argv (pi_argv info) \<or> watcher_hops n describe (insert pid sn) (pi_ppid info)))"

definition is_watcher :: "int \<Rightarrow> (int \<Rightarrow> proc_info option) \<Rightarrow> bool" where
  "is_watcher pid describe = watcher_hops (MAX_ANCESTRY + 1) describe {} pid"

text \<open>The parent's number in a status text.\<close>

fun ppid_line :: "stdlib \<Rightarrow> ustr list \<Rightarrow> int" where
  "ppid_line L [] = 0"
| "ppid_line L (l # ls) = (if startswith l (ascii ''PPid:'')
     then (case words l of a # b # _ \<Rightarrow> (case to_int L b of None \<Rightarrow> 0 | Some n \<Rightarrow> n) | _ \<Rightarrow> 0)
     else ppid_line L ls)"

text \<open>\<open>decode\<close> is \<^verbatim>\<open>decode("utf-8", "replace")\<close> of one argument; the files are the first bytes of the two.\<close>

definition describe_proc :: "stdlib \<Rightarrow> (nat list \<Rightarrow> ustr) \<Rightarrow> (int \<Rightarrow> (nat list \<times> ustr) option) \<Rightarrow> int \<Rightarrow> proc_info option" where
  "describe_proc L decode files pid = (case files pid of
      None \<Rightarrow> None
    | Some (raw, status) \<Rightarrow> Some \<lparr>pi_ppid = ppid_line L (splitlines status),
        pi_argv = map decode (filter (\<lambda>a. a \<noteq> []) (split_on 0 raw))\<rparr>)"

subsection \<open>Who holds the pipe\<close>

text \<open>
  What \<^verbatim>\<open>/proc\<close> shows: the owner of a process, and its open files - the pipe each links to, if it does, and the access
  mode of its flags (0: read, 1: write, 2: both). \<open>None\<close> is a file that cannot be read.
\<close>

record proc_view =
  pv_pids :: "int list"
  pv_uid :: "int \<Rightarrow> int option"
  pv_fds :: "int \<Rightarrow> (nat option \<times> nat option) list option"

definition pipe_holders :: "proc_view \<Rightarrow> int \<Rightarrow> nat \<Rightarrow> int set \<Rightarrow> int set" where
  "pipe_holders P uid pipe exclude = set (filter (\<lambda>pid. pid \<notin> exclude \<and> pv_uid P pid = Some uid \<and>
     (case pv_fds P pid of None \<Rightarrow> False | Some fds \<Rightarrow> list_ex (\<lambda>(link, _). link = Some pipe) fds)) (pv_pids P))"

definition holds_read_end :: "proc_view \<Rightarrow> int \<Rightarrow> nat \<Rightarrow> int option \<Rightarrow> bool" where
  "holds_read_end P uid pipe pid = (case pid of
      None \<Rightarrow> False
    | Some p \<Rightarrow> p > 0 \<and> pv_uid P p = Some uid \<and>
        (case pv_fds P p of None \<Rightarrow> False
         | Some fds \<Rightarrow> list_ex (\<lambda>(link, mode). link = Some pipe \<and> (mode = Some 0 \<or> mode = Some 2)) fds))"

record readers =
  rd_pids :: "int set"
  rd_watchers :: "int set"

definition only_watchers :: "readers \<Rightarrow> bool" where
  "only_watchers r \<longleftrightarrow> rd_pids r \<noteq> {} \<and> rd_pids r = rd_watchers r"

text \<open>The identifier of the policy \<^verbatim>\<open>"proc"\<close>.\<close>

definition identify :: "(int \<Rightarrow> proc_info option) \<Rightarrow> int set \<Rightarrow> int option \<Rightarrow> int \<Rightarrow> proc_view \<Rightarrow> nat \<Rightarrow> readers" where
  "identify describe exclude compositor uid P pipe =
     (let pids0 = {p \<in> pipe_holders P uid pipe exclude. describe p \<noteq> None};
          pids = (case compositor of Some c \<Rightarrow> if c \<noteq> 0 \<and> holds_read_end P uid pipe (Some c) then insert c pids0 else pids0
                  | None \<Rightarrow> pids0) in
      \<lparr>rd_pids = pids, rd_watchers = {p \<in> pids. Some p \<noteq> compositor \<and> is_watcher p describe}\<rparr>)"

definition identify_nobody :: readers where
  "identify_nobody = \<lparr>rd_pids = {}, rd_watchers = {}\<rparr>"

lemma identify_mine: "p \<in> rd_pids (identify describe exclude compositor uid P pipe) \<Longrightarrow> pv_uid P p = Some uid"
  by (auto simp: identify_def Let_def pipe_holders_def holds_read_end_def split: option.splits if_splits)

lemma excluded_never_reads:
  "p \<in> exclude \<Longrightarrow> Some p \<noteq> compositor \<Longrightarrow> p \<notin> rd_pids (identify describe exclude compositor uid P pipe)"
  by (auto simp: identify_def Let_def pipe_holders_def split: option.splits if_splits)

text \<open>A child of a watcher, up to four processes away, is one.\<close>

lemma watcher_child:
  assumes "describe pid = Some info" and "pid > 1" and "watcher_hops n describe {pid} (pi_ppid info)"
  shows "watcher_hops (Suc n) describe {} pid"
  using assms by simp

end
