(* ===== verification/Clip.thy ===== *)
theory Clip
  imports Watchers
begin

text \<open>
  One value on the clipboard for one paste: \<^verbatim>\<open>backend/icp/client/clip.py\<close>. The state is the record \<open>clip_offer\<close>, the fields of
  \<^verbatim>\<open>Offer\<close>; each of its methods is a function, and what the outside answers - who holds the pipe, what the
  clock shows, how much the pipe takes - is the argument.
\<close>

definition HINT_MIME :: ustr where "HINT_MIME = ascii ''x-kde-passwordManagerHint''"

definition TEXT_MIMES :: "ustr list" where
  "TEXT_MIMES = map ascii [''text/plain;charset=utf-8'', ''text/plain'', ''UTF8_STRING'', ''TEXT'', ''STRING'']"

definition CLIP_REREQUEST_GRACE_S :: real where "CLIP_REREQUEST_GRACE_S = 1.5"
definition WRITE_DEADLINE_S :: real where "WRITE_DEADLINE_S = 2"
definition OFFER_CONFIRM_S :: real where "OFFER_CONFIRM_S = 5"
definition WATCHER_WINDOW_S :: real where "WATCHER_WINDOW_S = 1 / 4"

datatype clip_outcome = Pasted | Replaced | Withdrawn | Expired | Failed

datatype verdict = V_hint | V_refused | V_gone | V_unidentified | V_reserved | V_undelivered | V_watcher | V_pasted | V_partly

record clip_offer =
  of_value :: "nat list"
  of_sensitive :: bool
  of_timeout :: real
  of_grace :: real
  of_window :: real
  of_bridge :: "int option"
  of_started :: real
  of_pasted_at :: "real option"
  of_holders :: "int set option"
  of_outcome :: "clip_outcome option"
  of_served :: nat
  of_refused_watchers :: nat
  of_refused_others :: nat
  of_refused_unknown :: nat
  of_offered :: bool
  of_log :: "(ustr option \<times> verdict) list"

definition new_offer :: "nat list \<Rightarrow> bool \<Rightarrow> real \<Rightarrow> real \<Rightarrow> int option \<Rightarrow> clip_offer" where
  "new_offer value sensitive timeout window bridge =
     \<lparr>of_value = value, of_sensitive = sensitive, of_timeout = timeout, of_grace = CLIP_REREQUEST_GRACE_S, of_window = window,
      of_bridge = bridge, of_started = 0, of_pasted_at = None, of_holders = None, of_outcome = None, of_served = 0,
      of_refused_watchers = 0, of_refused_others = 0, of_refused_unknown = 0, of_offered = False, of_log = []\<rparr>"

definition mimes :: "clip_offer \<Rightarrow> ustr list" where
  "mimes f = TEXT_MIMES @ (if of_sensitive f then [HINT_MIME] else [])"

definition start_offer :: "real \<Rightarrow> clip_offer \<Rightarrow> clip_offer" where
  "start_offer t f = f\<lparr>of_started := t\<rparr>"

subsection \<open>Writing into the pipe\<close>

text \<open>What each \<^verbatim>\<open>os.write\<close> answers; \<open>W_block t\<close>: it would block, and \<open>t\<close> is the time then.\<close>

datatype wres = W_took int | W_block real | W_gone | W_error

text \<open>\<open>None\<close>: the exception of another error. A script that is used up is a pipe that stays full past the deadline.\<close>

fun write_loop :: "real \<Rightarrow> nat \<Rightarrow> nat \<Rightarrow> wres list \<Rightarrow> nat option" where
  "write_loop deadline left sent [] = Some sent"
| "write_loop deadline left sent (w # ws) =
     (if left = 0 then Some sent
      else (case w of
          W_took n \<Rightarrow> if n \<le> 0 then Some sent else write_loop deadline (left - nat n) (sent + nat n) ws
        | W_block t \<Rightarrow> if deadline - t \<le> 0 then Some sent else write_loop deadline left sent ws
        | W_gone \<Rightarrow> Some sent
        | W_error \<Rightarrow> None))"

definition write_bytes :: "nat list \<Rightarrow> real \<Rightarrow> wres list \<Rightarrow> nat option" where
  "write_bytes data now ws = write_loop (now + WRITE_DEADLINE_S) (length data) 0 ws"

text \<open>No call of \<^verbatim>\<open>os.write\<close> takes more than it was given.\<close>

fun writes_fit :: "nat \<Rightarrow> wres list \<Rightarrow> bool" where
  "writes_fit left [] = True"
| "writes_fit left (w # ws) = (case w of W_took n \<Rightarrow> n \<le> int left \<and> writes_fit (left - nat n) ws | _ \<Rightarrow> writes_fit left ws)"

subsection \<open>A request for the value\<close>

text \<open>
  What the code asks while it serves one request: the readers found, those found on the second look, whether the
  pipe has no reader left, the clock at the check and at the paste, and the pipe's answers with the time the write began.
\<close>

record clip_request =
  rq_mime :: "ustr option"
  rq_readers :: readers
  rq_again :: readers
  rq_gone :: bool
  rq_now :: real
  rq_pasted :: real
  rq_write :: real
  rq_pipe :: "wres list"

text \<open>The readers the request is judged by; \<open>None\<close>: nobody was found twice.\<close>

definition seen_readers :: "clip_offer \<Rightarrow> clip_request \<Rightarrow> readers option" where
  "seen_readers f q = (if rd_pids (rq_readers q) = {} \<and> of_window f = 0
     then (if rd_pids (rq_again q) = {} then None else Some (rq_again q)) else Some (rq_readers q))"

definition note_verdict :: "clip_request \<Rightarrow> verdict \<Rightarrow> clip_offer \<Rightarrow> clip_offer" where
  "note_verdict q v f = f\<lparr>of_log := of_log f @ [(rq_mime q, v)]\<rparr>"

text \<open>The number of the value's bytes that left, and the offer after it. The pipe is closed in every case.\<close>

definition serve_again :: "clip_offer \<Rightarrow> clip_request \<Rightarrow> readers \<Rightarrow> (nat \<times> clip_offer) option" where
  "serve_again f q rd =
     (if Some (rd_pids rd) = of_holders f \<and> \<not> (case of_bridge f of None \<Rightarrow> False | Some b \<Rightarrow> b \<noteq> 0 \<and> b \<in> rd_pids rd) \<and>
         rq_now q - the (of_pasted_at f) \<le> of_grace f
      then map_option (\<lambda>n. if n > 0 then (n, note_verdict q V_reserved (f\<lparr>of_served := Suc (of_served f)\<rparr>))
             else (0, note_verdict q V_undelivered f)) (write_bytes (of_value f) (rq_write q) (rq_pipe q))
      else Some (0, note_verdict q V_refused (f\<lparr>of_refused_others := Suc (of_refused_others f)\<rparr>)))"

definition serve_first :: "clip_offer \<Rightarrow> clip_request \<Rightarrow> readers \<Rightarrow> (nat \<times> clip_offer) option" where
  "serve_first f q rd =
     (if only_watchers rd \<or> rq_now q - of_started f < of_window f
      then Some (0, note_verdict q V_watcher (f\<lparr>of_refused_watchers := Suc (of_refused_watchers f)\<rparr>))
      else map_option (\<lambda>n. if n = 0 then (0, note_verdict q V_undelivered f)
             else (n, note_verdict q (if n = length (of_value f) then V_pasted else V_partly)
               (f\<lparr>of_served := Suc (of_served f), of_pasted_at := Some (rq_pasted q), of_holders := Some (rd_pids rd)\<rparr>)))
           (write_bytes (of_value f) (rq_write q) (rq_pipe q)))"

definition on_send :: "clip_offer \<Rightarrow> clip_request \<Rightarrow> (nat \<times> clip_offer) option" where
  "on_send f q =
     (if rq_mime q = Some HINT_MIME \<and> of_sensitive f
      then map_option (\<lambda>n. (0, note_verdict q V_hint f)) (write_bytes (ascii ''secret'') (rq_write q) (rq_pipe q))
      else if rq_mime q \<notin> Some ` set TEXT_MIMES \<or> of_outcome f \<noteq> None then Some (0, note_verdict q V_refused f)
      else (case seen_readers f q of
          None \<Rightarrow> Some (0, if rq_gone q then note_verdict q V_gone (f\<lparr>of_refused_watchers := Suc (of_refused_watchers f)\<rparr>)
            else note_verdict q V_unidentified (f\<lparr>of_refused_unknown := Suc (of_refused_unknown f)\<rparr>))
        | Some rd \<Rightarrow> if of_pasted_at f \<noteq> None then serve_again f q rd else serve_first f q rd))"

subsection \<open>The end of an offer\<close>

definition end_as :: "clip_outcome \<Rightarrow> clip_offer \<Rightarrow> clip_offer" where
  "end_as x f = (if of_outcome f = None then f\<lparr>of_outcome := Some (if of_pasted_at f \<noteq> None then Pasted else x)\<rparr> else f)"

definition on_cancelled :: "clip_offer \<Rightarrow> clip_offer" where "on_cancelled f = end_as Replaced f"
definition on_withdraw :: "clip_offer \<Rightarrow> clip_offer" where "on_withdraw f = end_as Withdrawn f"

definition tick_offer :: "real \<Rightarrow> clip_offer \<Rightarrow> clip_offer" where
  "tick_offer t f = (if of_outcome f \<noteq> None then f
     else (case of_pasted_at f of
         Some p \<Rightarrow> if t - p > of_grace f then f\<lparr>of_outcome := Some Pasted\<rparr> else f
       | None \<Rightarrow> if t - of_started f \<ge> of_timeout f then f\<lparr>of_outcome := Some Expired\<rparr> else f))"

definition next_wakeup :: "real \<Rightarrow> clip_offer \<Rightarrow> real" where
  "next_wakeup t f = (case of_pasted_at f of
      Some p \<Rightarrow> max 0 (p + of_grace f - t) + 1 / 100
    | None \<Rightarrow> max 0 (of_started f + of_timeout f - t) + 1 / 100)"

definition wipe_offer :: "clip_offer \<Rightarrow> clip_offer" where
  "wipe_offer f = f\<lparr>of_value := map (\<lambda>_. 0) (of_value f)\<rparr>"

subsection \<open>The loop\<close>

text \<open>A paste: the readers it was judged by, when, and how many bytes of the value left.\<close>

type_synonym paste = "readers \<times> real \<times> nat"

definition taken :: "clip_offer \<Rightarrow> clip_request \<Rightarrow> paste list" where
  "taken f q = (case on_send f q of
      Some (n, f1) \<Rightarrow> (if n > 0 then [(the (seen_readers f q), if of_pasted_at f = None then rq_pasted q else rq_now q, n)] else [])
    | None \<Rightarrow> [])"

text \<open>
  One event of the compositor: the answer to the sync sent after the offer, a request, the end of the source, another event
  of the source, or one of the device with whether it was handled.
\<close>

datatype wl_event = Wl_confirm | Wl_send clip_request | Wl_cancelled | Wl_source | Wl_device bool

text \<open>
  One pass of the loop: the compositor's events, whether reading them then failed, the clock at the check of the answer, the
  daemon's messages that say withdraw (\<open>None\<close>: its connection is gone), and the clock at the tick.
\<close>

record turn =
  tn_events :: "wl_event list"
  tn_broken :: bool
  tn_check :: real
  tn_withdraws :: "nat option"
  tn_tick :: real

definition dispatch_event :: "clip_offer \<Rightarrow> wl_event \<Rightarrow> (paste list \<times> clip_offer) option" where
  "dispatch_event f ev = (case ev of
      Wl_send q \<Rightarrow> map_option (\<lambda>r. (taken f q, snd r)) (on_send f q)
    | Wl_cancelled \<Rightarrow> Some ([], on_cancelled f)
    | Wl_source \<Rightarrow> Some ([], f)
    | Wl_device handled \<Rightarrow> Some ([], if handled \<or> of_outcome f \<noteq> None then f else f\<lparr>of_outcome := Some Failed\<rparr>)
    | Wl_confirm \<Rightarrow> Some ([], if of_outcome f = None \<and> \<not> of_offered f then f\<lparr>of_offered := True\<rparr> else f))"

text \<open>The events in order; the flag says that one of them raised, and then nothing more is read.\<close>

fun dispatch_all :: "clip_offer \<Rightarrow> wl_event list \<Rightarrow> bool \<times> paste list \<times> clip_offer" where
  "dispatch_all f [] = (False, [], f)"
| "dispatch_all f (ev # evs) = (case dispatch_event f ev of
      None \<Rightarrow> (True, [], f)
    | Some (d, f1) \<Rightarrow> (case dispatch_all f1 evs of (bad, ds, f2) \<Rightarrow> (bad, d @ ds, f2)))"

datatype serve_end = S_blocked | S_raised | S_ended

definition daemon_step :: "bool \<Rightarrow> nat option \<Rightarrow> clip_offer \<Rightarrow> bool \<times> clip_offer" where
  "daemon_step gone w f = (if gone then (gone, f)
     else (case w of None \<Rightarrow> (True, on_withdraw f) | Some n \<Rightarrow> (False, if n > 0 then on_withdraw f else f)))"

text \<open>\<open>confirm_by\<close> is the time by which the compositor must have answered, \<open>gone\<close> whether the daemon left.\<close>

fun serve_loop :: "real \<Rightarrow> bool \<Rightarrow> clip_offer \<Rightarrow> turn list \<Rightarrow> serve_end \<times> paste list \<times> clip_offer" where
  "serve_loop confirm_by gone f [] = (if of_outcome f \<noteq> None then S_ended else S_blocked, [], f)"
| "serve_loop confirm_by gone f (tn # tns) =
     (if of_outcome f \<noteq> None then (S_ended, [], f)
      else (case dispatch_all f (tn_events tn) of (bad, d, f1) \<Rightarrow>
         if bad then (S_raised, d, f1)
         else if tn_broken tn then (S_ended, d, end_as Failed f1)
         else if \<not> of_offered f1 \<and> of_outcome f1 = None \<and> tn_check tn \<ge> confirm_by
         then (S_ended, d, f1\<lparr>of_outcome := Some Failed\<rparr>)
         else (case daemon_step gone (tn_withdraws tn) f1 of
             (gone2, f2) \<Rightarrow> (case serve_loop confirm_by gone2 (tick_offer (tn_tick tn) f2) tns of
                 (e, ds, g) \<Rightarrow> (e, d @ ds, g)))))"

text \<open>\<open>None\<close> as the first argument: the compositor refused the clip_offer.\<close>

definition serve :: "real option \<Rightarrow> real \<Rightarrow> clip_offer \<Rightarrow> turn list \<Rightarrow> serve_end \<times> paste list \<times> clip_offer" where
  "serve started confirmed f tns = (case started of
      None \<Rightarrow> (S_ended, [], f\<lparr>of_outcome := Some Failed\<rparr>)
    | Some t \<Rightarrow> serve_loop (confirmed + OFFER_CONFIRM_S) False (start_offer t f) tns)"

subsection \<open>The process\<close>

datatype redeem_reply = Rd_lost | Rd_refused | Rd_value "nat list" bool "real option"

datatype clip_report = Rp_offered | Rp_error | Rp_done clip_outcome

text \<open>\<^verbatim>\<open>TICKET_RE.match\<close>: 43 characters, and \<^verbatim>\<open>$\<close> lets a newline follow.\<close>

definition ticket_char :: "nat \<Rightarrow> bool" where
  "ticket_char c \<longleftrightarrow> (65 \<le> c \<and> c \<le> 90) \<or> (97 \<le> c \<and> c \<le> 122) \<or> (48 \<le> c \<and> c \<le> 57) \<or> c = 95 \<or> c = 45"

definition ticket_ok :: "ustr option \<Rightarrow> bool" where
  "ticket_ok t \<longleftrightarrow> (case t of None \<Rightarrow> False | Some s \<Rightarrow> length (chop_newline s) = 43 \<and> list_all ticket_char (chop_newline s))"

definition clip_timeout :: "real option \<Rightarrow> real" where
  "clip_timeout t = (case t of None \<Rightarrow> of_int CLIP_TIMEOUT_S_DEFAULT
     | Some x \<Rightarrow> if of_int (fst CLIP_TIMEOUT_S_RANGE) \<le> x \<and> x \<le> of_int (snd CLIP_TIMEOUT_S_RANGE) then x else of_int CLIP_TIMEOUT_S_DEFAULT)"

text \<open>
  The policy \<^verbatim>\<open>"proc"\<close>. The last argument is what the connection to the compositor and the loop over it met. The result: the exit
  code (1: an exception), the lines for the window, and the value's buffer at the end; \<open>None\<close>: still on clip_offer.
\<close>

definition run_clip ::
  "ustr option \<Rightarrow> redeem_reply \<Rightarrow> (int option \<times> real option \<times> real \<times> turn list) option \<Rightarrow> (int \<times> clip_report list \<times> nat list) option" where
  "run_clip ticket reply wl =
     (if \<not> ticket_ok ticket then Some (2, [Rp_error], [])
      else (case reply of
          Rd_lost \<Rightarrow> Some (3, [Rp_error], [])
        | Rd_refused \<Rightarrow> Some (3, [Rp_error], [])
        | Rd_value v sensitive timeout \<Rightarrow> (case wl of
              None \<Rightarrow> Some (0, [Rp_error, Rp_done Failed], map (\<lambda>_. 0) v)
            | Some (bridge, started, confirmed, tns) \<Rightarrow>
                (case serve started confirmed (new_offer v sensitive (clip_timeout timeout) 0 bridge) tns of
                    (S_ended, _, f) \<Rightarrow> Some (0, (if of_offered f then [Rp_offered] else [Rp_error]) @
                      [Rp_done (case of_outcome f of None \<Rightarrow> Failed | Some x \<Rightarrow> x)], map (\<lambda>_. 0) v)
                  | (S_raised, _, f) \<Rightarrow> Some (1, (if of_offered f then [Rp_offered] else []), map (\<lambda>_. 0) v)
                  | (S_blocked, _, f) \<Rightarrow> None))))"

subsection \<open>One paste\<close>

definition same_terms :: "clip_offer \<Rightarrow> clip_offer \<Rightarrow> bool" where
  "same_terms f g \<longleftrightarrow> of_value g = of_value f \<and> of_grace g = of_grace f \<and> of_window g = of_window f \<and> of_bridge g = of_bridge f \<and>
     of_timeout g = of_timeout f \<and> of_started g = of_started f \<and> of_sensitive g = of_sensitive f"

text \<open>The three ways a request can change the offer: not at all but for the counts and the log, or by being the paste.\<close>

lemma note_verdict_simps [simp]:
  "of_outcome (note_verdict q v f) = of_outcome f" "of_pasted_at (note_verdict q v f) = of_pasted_at f"
  "of_holders (note_verdict q v f) = of_holders f" "same_terms h (note_verdict q v f) = same_terms h f"
  "of_offered (note_verdict q v f) = of_offered f"
  by (simp_all add: note_verdict_def same_terms_def)

lemma same_terms_simps [simp]:
  "same_terms f f" "same_terms h (f\<lparr>of_served := x\<rparr>) = same_terms h f" "same_terms h (f\<lparr>of_refused_others := x\<rparr>) = same_terms h f"
  "same_terms h (f\<lparr>of_refused_watchers := x\<rparr>) = same_terms h f" "same_terms h (f\<lparr>of_refused_unknown := x\<rparr>) = same_terms h f"
  "same_terms h (f\<lparr>of_outcome := y\<rparr>) = same_terms h f" "same_terms h (f\<lparr>of_offered := b\<rparr>) = same_terms h f"
  "same_terms h (f\<lparr>of_served := x, of_pasted_at := p, of_holders := r\<rparr>) = same_terms h f"
  by (simp_all add: same_terms_def)

definition may_again :: "clip_offer \<Rightarrow> clip_request \<Rightarrow> readers \<Rightarrow> bool" where
  "may_again f q rd \<longleftrightarrow> Some (rd_pids rd) = of_holders f \<and> \<not> (case of_bridge f of None \<Rightarrow> False | Some b \<Rightarrow> b \<noteq> 0 \<and> b \<in> rd_pids rd) \<and>
     rq_now q - the (of_pasted_at f) \<le> of_grace f"

lemma serve_again_cases:
  assumes "serve_again f q rd = Some (n, g)"
  shows "same_terms f g \<and> of_outcome g = of_outcome f \<and> of_pasted_at g = of_pasted_at f \<and> of_holders g = of_holders f \<and>
    of_offered g = of_offered f \<and> (n > 0 \<longrightarrow> may_again f q rd)"
proof (cases "may_again f q rd")
  case True
  then obtain m where m: "(if m > 0 then (m, note_verdict q V_reserved (f\<lparr>of_served := Suc (of_served f)\<rparr>))
      else (0, note_verdict q V_undelivered f)) = (n, g)" and w: "write_bytes (of_value f) (rq_write q) (rq_pipe q) = Some m"
    using assms unfolding serve_again_def may_again_def [symmetric] by (cases "write_bytes (of_value f) (rq_write q) (rq_pipe q)") auto
  then show ?thesis using True by (cases "m > 0") auto
next
  case False
  then have "g = note_verdict q V_refused (f\<lparr>of_refused_others := Suc (of_refused_others f)\<rparr>)" "n = 0"
    using assms unfolding serve_again_def may_again_def [symmetric] by simp_all
  then show ?thesis by simp
qed

lemma serve_first_cases:
  assumes "serve_first f q rd = Some (n, g)"
  shows "same_terms f g \<and> of_outcome g = of_outcome f \<and> of_offered g = of_offered f \<and>
    (if n > 0 then of_pasted_at g = Some (rq_pasted q) \<and> of_holders g = Some (rd_pids rd) \<and>
       \<not> only_watchers rd \<and> rq_now q - of_started f \<ge> of_window f
     else of_pasted_at g = of_pasted_at f \<and> of_holders g = of_holders f)"
proof (cases "only_watchers rd \<or> rq_now q - of_started f < of_window f")
  case True
  then have "g = note_verdict q V_watcher (f\<lparr>of_refused_watchers := Suc (of_refused_watchers f)\<rparr>)" "n = 0"
    using assms unfolding serve_first_def by simp_all
  then show ?thesis by simp
next
  case False
  then obtain m where m: "(if m = 0 then (0, note_verdict q V_undelivered f)
      else (m, note_verdict q (if m = length (of_value f) then V_pasted else V_partly)
        (f\<lparr>of_served := Suc (of_served f), of_pasted_at := Some (rq_pasted q), of_holders := Some (rd_pids rd)\<rparr>))) = (n, g)"
      and w: "write_bytes (of_value f) (rq_write q) (rq_pipe q) = Some m"
    using assms unfolding serve_first_def by (cases "write_bytes (of_value f) (rq_write q) (rq_pipe q)") auto
  then show ?thesis using False by (cases "m = 0") auto
qed

lemma on_send_cases:
  assumes "on_send f q = Some (n, g)"
  obtains (nobody) "n = 0" "same_terms f g" "of_outcome g = of_outcome f" "of_pasted_at g = of_pasted_at f" "of_holders g = of_holders f"
  | (again) rd where "rq_mime q \<in> Some ` set TEXT_MIMES" "of_outcome f = None" "seen_readers f q = Some rd" "of_pasted_at f \<noteq> None"
      "serve_again f q rd = Some (n, g)"
  | (first) rd where "rq_mime q \<in> Some ` set TEXT_MIMES" "of_outcome f = None" "seen_readers f q = Some rd" "of_pasted_at f = None"
      "serve_first f q rd = Some (n, g)"
proof (cases "rq_mime q = Some HINT_MIME \<and> of_sensitive f")
  case True
  then show thesis using assms by (intro nobody) (auto simp: on_send_def note_verdict_def same_terms_def)
next
  case not_hint: False
  show thesis
  proof (cases "rq_mime q \<notin> Some ` set TEXT_MIMES \<or> of_outcome f \<noteq> None")
    case True
    then show thesis using assms not_hint by (intro nobody) (auto simp: on_send_def note_verdict_def same_terms_def)
  next
    case ours: False
    show thesis
    proof (cases "seen_readers f q")
      case None
      then show thesis using assms not_hint ours
        by (intro nobody) (auto simp: on_send_def note_verdict_def same_terms_def split: if_split_asm)
    next
      case (Some rd)
      then show thesis using assms not_hint ours
        by (cases "of_pasted_at f") (auto simp: on_send_def intro: again first)
    qed
  qed
qed

text \<open>
  What holds of the pastes so far: the first was not only watchers, and under the policy \<^verbatim>\<open>"proc"\<close> somebody was seen; the
  others are the same readers within the grace, and there are none when the first was the X11 bridge.
\<close>

definition one_paste :: "clip_offer \<Rightarrow> paste list \<Rightarrow> bool" where
  "one_paste f ds \<longleftrightarrow> (case ds of
      [] \<Rightarrow> of_pasted_at f = None
    | (rd, t, n) # rest \<Rightarrow> of_pasted_at f = Some t \<and> of_holders f = Some (rd_pids rd) \<and>
        \<not> only_watchers rd \<and> (of_window f = 0 \<longrightarrow> rd_pids rd \<noteq> {}) \<and>
        (\<forall>(rd', t', n') \<in> set rest. rd_pids rd' = rd_pids rd \<and> t' \<le> t + of_grace f) \<and>
        ((\<exists>b. of_bridge f = Some b \<and> b \<noteq> 0 \<and> b \<in> rd_pids rd) \<longrightarrow> rest = []))"

lemma one_paste_cong:
  assumes "same_terms f g" "of_pasted_at g = of_pasted_at f" "of_holders g = of_holders f"
  shows "one_paste g ds = one_paste f ds"
  using assms by (cases ds) (simp_all add: one_paste_def same_terms_def split: prod.split)

lemma seen_not_empty: "seen_readers f q = Some rd \<Longrightarrow> of_window f = 0 \<Longrightarrow> rd_pids rd \<noteq> {}"
  by (auto simp: seen_readers_def split: if_split_asm)

lemma on_send_one_paste:
  assumes inv: "one_paste f ds" and q: "on_send f q = Some (n, g)"
  shows "one_paste g (ds @ taken f q)"
  using q
proof (cases rule: on_send_cases)
  case nobody
  then show ?thesis using inv q one_paste_cong [of f g ds] by (simp add: taken_def)
next
  case (again rd)
  then have g: "one_paste g ds = one_paste f ds" and may: "n > 0 \<longrightarrow> may_again f q rd"
    using serve_again_cases [of f q rd n g] by (simp_all add: one_paste_cong)
  obtain rd0 t0 n0 rest where ds: "ds = (rd0, t0, n0) # rest"
    using again inv by (cases ds) (auto simp: one_paste_def)
  show ?thesis
  proof (cases "n > 0")
    case False
    then show ?thesis using q inv g by (simp add: taken_def)
  next
    case True
    have t: "taken f q = [(rd, rq_now q, n)]" using again True q by (auto simp: taken_def)
    have "rd_pids rd = rd_pids rd0" "rq_now q \<le> t0 + of_grace f" "\<forall>b. of_bridge f = Some b \<longrightarrow> \<not> (b \<noteq> 0 \<and> b \<in> rd_pids rd)"
      using may True inv ds by (auto simp: may_again_def one_paste_def)
    moreover have "of_grace g = of_grace f" "of_bridge g = of_bridge f"
      using serve_again_cases [OF again(5)] by (simp_all add: same_terms_def)
    ultimately show ?thesis using inv [folded g] ds t by (auto simp: one_paste_def)
  qed
next
  case (first rd)
  note c = serve_first_cases [OF first(5)]
  have ds: "ds = []" using first inv by (cases ds) (auto simp: one_paste_def)
  show ?thesis
  proof (cases "n > 0")
    case False
    then show ?thesis using q inv c one_paste_cong [of f g ds] by (simp add: taken_def)
  next
    case True
    have "taken f q = [(rd, rq_pasted q, n)]" using first True q by (simp add: taken_def)
    moreover have "of_window g = of_window f" using c by (simp add: same_terms_def)
    ultimately show ?thesis using c True ds seen_not_empty [OF first(3)] by (simp add: one_paste_def)
  qed
qed

lemma on_send_terms:
  assumes "on_send f q = Some (n, g)" shows "same_terms f g \<and> of_outcome g = of_outcome f \<and> (of_pasted_at f \<noteq> None \<longrightarrow> of_pasted_at g = of_pasted_at f)"
  using assms
proof (cases rule: on_send_cases)
  case nobody then show ?thesis by simp
next
  case (again rd) then show ?thesis using serve_again_cases [OF again(5)] by simp
next
  case (first rd) then show ?thesis using serve_first_cases [OF first(5)] by simp
qed

text \<open>What the end of an offer leaves alone.\<close>

definition only_ended :: "clip_offer \<Rightarrow> clip_offer \<Rightarrow> bool" where
  "only_ended f g \<longleftrightarrow> same_terms f g \<and> of_pasted_at g = of_pasted_at f \<and> of_holders g = of_holders f"

lemma only_ended_simps [simp]:
  "only_ended f (end_as x f)" "only_ended f (on_cancelled f)" "only_ended f (on_withdraw f)"
  "only_ended f (tick_offer t f)" "only_ended f (f\<lparr>of_outcome := y\<rparr>)" "only_ended f (f\<lparr>of_offered := b\<rparr>)"
  by (simp_all add: only_ended_def end_as_def on_cancelled_def on_withdraw_def tick_offer_def split: option.split)

lemma only_ended_one_paste: "only_ended f g \<Longrightarrow> one_paste g ds = one_paste f ds"
  by (simp add: only_ended_def one_paste_cong)

lemma only_ended_refl [simp]: "only_ended f f"
  by (simp add: only_ended_def)

lemmas ended_one_paste [simp] = only_ended_simps [THEN only_ended_one_paste]

lemma only_ended_trans: "only_ended f g \<Longrightarrow> only_ended g h \<Longrightarrow> only_ended f h"
  by (simp add: only_ended_def same_terms_def)

lemma daemon_step_ended [simp]: "only_ended f (snd (daemon_step gone w f))"
  by (simp add: daemon_step_def split: option.split)

text \<open>What was offered, and to whom, never changes; nor does an outcome.\<close>

definition goes_on :: "clip_offer \<Rightarrow> clip_offer \<Rightarrow> bool" where
  "goes_on f g \<longleftrightarrow> same_terms f g \<and> (of_outcome f \<noteq> None \<longrightarrow> of_outcome g = of_outcome f)"

lemma goes_on_trans: "goes_on f g \<Longrightarrow> goes_on g h \<Longrightarrow> goes_on f h"
  by (auto simp: goes_on_def same_terms_def)

lemma goes_on_simps [simp]:
  "goes_on f f" "goes_on f (end_as x f)" "goes_on f (on_cancelled f)" "goes_on f (on_withdraw f)" "goes_on f (tick_offer t f)"
  "goes_on f (f\<lparr>of_offered := b\<rparr>)" "of_outcome f = None \<Longrightarrow> goes_on f (f\<lparr>of_outcome := y\<rparr>)"
  by (simp_all add: goes_on_def end_as_def on_cancelled_def on_withdraw_def tick_offer_def split: option.split)

lemma daemon_step_on [simp]: "goes_on f (snd (daemon_step gone w f))"
  by (simp add: daemon_step_def split: option.split)

lemma goes_on_sent: "on_send f q = Some (n, g) \<Longrightarrow> goes_on f g"
  using on_send_terms by (auto simp: goes_on_def)

lemma dispatch_event_on: "dispatch_event f ev = Some (d, g) \<Longrightarrow> goes_on f g"
  by (cases ev) (auto simp: dispatch_event_def intro: goes_on_sent split: if_split_asm)

lemma dispatch_all_on: "dispatch_all f evs = (bad, d, g) \<Longrightarrow> goes_on f g"
proof (induction f evs arbitrary: d rule: dispatch_all.induct)
  case (2 f ev evs)
  then show ?case by (auto split: option.split_asm prod.split_asm dest: dispatch_event_on intro: goes_on_trans)
qed simp

lemma dispatch_event_one_paste:
  assumes "one_paste f ds" "dispatch_event f ev = Some (d, g)"
  shows "one_paste g (ds @ d)"
proof (cases ev)
  case (Wl_send q)
  then show ?thesis using assms on_send_one_paste [OF assms(1)] by (auto simp: dispatch_event_def)
qed (use assms in \<open>auto simp: dispatch_event_def only_ended_one_paste\<close>)

lemma dispatch_all_one_paste:
  "one_paste f ds \<Longrightarrow> dispatch_all f evs = (bad, d, g) \<Longrightarrow> one_paste g (ds @ d)"
proof (induction f evs arbitrary: ds d rule: dispatch_all.induct)
  case (2 f ev evs)
  then show ?case
    by (auto simp del: append_assoc simp: append_assoc [symmetric] split: option.split_asm prod.split_asm dest: dispatch_event_one_paste)
qed simp

lemma serve_loop_one_paste:
  "one_paste f ds \<Longrightarrow> serve_loop c gone f tns = (e, d, g) \<Longrightarrow> one_paste g (ds @ d)"
proof (induction c gone f tns arbitrary: ds d rule: serve_loop.induct)
  case (2 c gone f tn tns)
  show ?case
  proof (cases "of_outcome f = None")
    case True
    obtain bad d1 f1 where d1: "dispatch_all f (tn_events tn) = (bad, d1, f1)" by (metis prod_cases3)
    obtain gone2 f2 where f2: "daemon_step gone (tn_withdraws tn) f1 = (gone2, f2)" by fastforce
    have i1: "one_paste f1 (ds @ d1)" by (rule dispatch_all_one_paste [OF "2.prems"(1) d1])
    have "only_ended f1 (tick_offer (tn_tick tn) f2)"
      using daemon_step_ended [of f1 gone "tn_withdraws tn"] f2 only_ended_trans [OF _ only_ended_simps(4)] by simp
    then have i2: "one_paste (tick_offer (tn_tick tn) f2) (ds @ d1)" using i1 by (rule only_ended_one_paste [THEN iffD2])
    show ?thesis
      using True d1 f2 i1 "2.prems"(2) "2.IH" [OF _ d1 [symmetric] refl _ _ _ f2 [symmetric] i2]
      by (auto simp: only_ended_one_paste split: if_split_asm prod.split_asm)
  qed (use "2.prems" in simp)
qed (auto split: if_split_asm)


lemma serve_loop_on: "serve_loop c gone f tns = (e, d, g) \<Longrightarrow> goes_on f g"
proof (induction c gone f tns arbitrary: d rule: serve_loop.induct)
  case (2 c gone f tn tns)
  show ?case
  proof (cases "of_outcome f = None")
    case True
    obtain bad d1 f1 where d1: "dispatch_all f (tn_events tn) = (bad, d1, f1)" by (metis prod_cases3)
    obtain gone2 f2 where f2: "daemon_step gone (tn_withdraws tn) f1 = (gone2, f2)" by fastforce
    have i1: "goes_on f f1" by (rule dispatch_all_on [OF d1])
    have "goes_on f1 (tick_offer (tn_tick tn) f2)"
      using daemon_step_on [of f1 gone "tn_withdraws tn"] f2 goes_on_trans [OF _ goes_on_simps(5)] by simp
    then have i2: "goes_on f (tick_offer (tn_tick tn) f2)" by (rule goes_on_trans [OF i1])
    show ?thesis
      using True d1 f2 i1 "2.prems" "2.IH" [OF _ d1 [symmetric] refl _ _ _ f2 [symmetric]] i2
      by (auto intro: goes_on_trans [OF i1] goes_on_trans [OF i2] split: if_split_asm prod.split_asm)
  qed (use "2.prems" in simp)
qed (auto split: if_split_asm)

lemmas serve_loop_terms = serve_loop_on [unfolded goes_on_def, THEN conjunct1]

text \<open>An offer that is still up after a tick has time left.\<close>

definition time_left :: "real \<Rightarrow> clip_offer \<Rightarrow> bool" where
  "time_left t f \<longleftrightarrow> (case of_pasted_at f of None \<Rightarrow> t < of_started f + of_timeout f | Some p \<Rightarrow> t \<le> p + of_grace f)"

lemma tick_time_left: "of_outcome (tick_offer t f) = None \<Longrightarrow> time_left t (tick_offer t f)"
  by (auto simp: tick_offer_def time_left_def split: if_split_asm option.split_asm option.split)

lemma wakeup_ends: "t + next_wakeup t f \<le> t' \<Longrightarrow> of_outcome (tick_offer t' f) \<noteq> None"
  by (auto simp: tick_offer_def next_wakeup_def split: option.split)

lemma serve_loop_time_left:
  "serve_loop c gone f tns = (S_blocked, d, g) \<Longrightarrow> tns \<noteq> [] \<Longrightarrow> time_left (tn_tick (last tns)) g"
proof (induction c gone f tns arbitrary: d rule: serve_loop.induct)
  case (2 c gone f tn tns)
  have None: "of_outcome f = None" using "2.prems"(1) by (auto split: if_split_asm)
  obtain bad d1 f1 where d1: "dispatch_all f (tn_events tn) = (bad, d1, f1)" by (metis prod_cases3)
  obtain gone2 f2 where f2: "daemon_step gone (tn_withdraws tn) f1 = (gone2, f2)" by fastforce
  obtain e ds g' where r: "serve_loop c gone2 (tick_offer (tn_tick tn) f2) tns = (e, ds, g')" by (metis prod_cases3)
  have blocked: "\<not> bad" "\<not> tn_broken tn" "\<not> (\<not> of_offered f1 \<and> of_outcome f1 = None \<and> tn_check tn \<ge> c)" "e = S_blocked" "g' = g"
    using "2.prems"(1) None d1 f2 r by (auto split: if_split_asm)
  show ?case
  proof (cases "tns = []")
    case True
    then show ?thesis using r blocked tick_time_left by (auto split: if_split_asm)
  next
    case False
    then show ?thesis
      using "2.IH" [OF _ d1 [symmetric] refl blocked(1-3) f2 [symmetric] r [unfolded blocked(4,5)]] None by simp
  qed
qed simp

text \<open>No request takes more bytes than the value has.\<close>

lemma write_loop_le: "write_loop deadline left sent ws = Some n \<Longrightarrow> writes_fit left ws \<Longrightarrow> n \<le> sent + left"
proof (induction deadline left sent ws arbitrary: n rule: write_loop.induct)
  case (2 deadline left sent w ws)
  then show ?case by (cases w) (fastforce split: if_split_asm)+
qed simp

definition event_fits :: "nat \<Rightarrow> wl_event \<Rightarrow> bool" where
  "event_fits k ev \<longleftrightarrow> (case ev of Wl_send q \<Rightarrow> rq_mime q \<in> Some ` set TEXT_MIMES \<longrightarrow> writes_fit k (rq_pipe q) | _ \<Rightarrow> True)"

lemma write_bytes_le: "write_bytes data now ws = Some n \<Longrightarrow> writes_fit (length data) ws \<Longrightarrow> n \<le> length data"
  using write_loop_le [of _ _ 0] by (fastforce simp: write_bytes_def)

lemma serve_again_le: "serve_again f q rd = Some (n, g) \<Longrightarrow> writes_fit (length (of_value f)) (rq_pipe q) \<Longrightarrow> n \<le> length (of_value f)"
  by (cases "write_bytes (of_value f) (rq_write q) (rq_pipe q)") (auto simp: serve_again_def dest: write_bytes_le split: if_split_asm)

lemma serve_first_le: "serve_first f q rd = Some (n, g) \<Longrightarrow> writes_fit (length (of_value f)) (rq_pipe q) \<Longrightarrow> n \<le> length (of_value f)"
  by (cases "write_bytes (of_value f) (rq_write q) (rq_pipe q)") (auto simp: serve_first_def dest: write_bytes_le split: if_split_asm)

lemma taken_le:
  assumes "on_send f q = Some r" "event_fits (length (of_value f)) (Wl_send q)" "(rd, t, n) \<in> set (taken f q)"
  shows "0 < n \<and> n \<le> length (of_value f)"
proof -
  obtain m g where r: "on_send f q = Some (m, g)" using assms(1) by (cases r) auto
  have n: "n = m" "0 < m" using assms(3) r by (auto simp: taken_def split: if_split_asm)
  show ?thesis using r
  proof (cases rule: on_send_cases)
    case nobody then show ?thesis using n by simp
  next
    case (again rd) then show ?thesis using assms(2) n serve_again_le [OF again(5)] by (simp add: event_fits_def)
  next
    case (first rd) then show ?thesis using assms(2) n serve_first_le [OF first(5)] by (simp add: event_fits_def)
  qed
qed

definition at_most :: "nat \<Rightarrow> paste list \<Rightarrow> bool" where "at_most k ds \<longleftrightarrow> (\<forall>(rd, t, n) \<in> set ds. 0 < n \<and> n \<le> k)"

lemma at_most_append [simp]: "at_most k (ds @ d) \<longleftrightarrow> at_most k ds \<and> at_most k d"
  by (simp add: at_most_def ball_Un)

lemma at_most_Nil [simp]: "at_most k []"
  by (simp add: at_most_def)

lemma goes_on_value: "goes_on f g \<Longrightarrow> of_value g = of_value f"
  by (simp add: goes_on_def same_terms_def)

lemma dispatch_event_le:
  "dispatch_event f ev = Some (d, g) \<Longrightarrow> event_fits (length (of_value f)) ev \<Longrightarrow> at_most (length (of_value f)) d"
  by (cases ev) (auto simp: dispatch_event_def at_most_def dest: taken_le)

lemma dispatch_all_le:
  "dispatch_all f evs = (bad, d, g) \<Longrightarrow> list_all (event_fits (length (of_value f))) evs \<Longrightarrow> at_most (length (of_value f)) d"
proof (induction f evs arbitrary: bad d g rule: dispatch_all.induct)
  case (2 f ev evs)
  show ?case
  proof (cases "dispatch_event f ev")
    case None
    then show ?thesis using "2.prems"(1) by simp
  next
    case (Some r)
    obtain d1 f1 where r: "r = (d1, f1)" by fastforce
    obtain bad' ds h where rest: "dispatch_all f1 evs = (bad', ds, h)" by (metis prod_cases3)
    have "of_value f1 = of_value f" by (rule goes_on_value [OF dispatch_event_on [OF Some [unfolded r]]])
    moreover have "at_most (length (of_value f)) d1" using dispatch_event_le [OF Some [unfolded r]] "2.prems"(2) by simp
    ultimately show ?thesis using "2.IH" [OF Some r [symmetric] rest] "2.prems" Some r rest by auto
  qed
qed simp

lemma serve_loop_le:
  "serve_loop c gone f tns = (e, d, g) \<Longrightarrow> list_all (\<lambda>tn. list_all (event_fits (length (of_value f))) (tn_events tn)) tns \<Longrightarrow>
   at_most (length (of_value f)) d"
proof (induction c gone f tns arbitrary: e d g rule: serve_loop.induct)
  case (2 c gone f tn tns)
  show ?case
  proof (cases "of_outcome f = None")
    case True
    obtain bad d1 f1 where d1: "dispatch_all f (tn_events tn) = (bad, d1, f1)" by (metis prod_cases3)
    obtain gone2 f2 where f2: "daemon_step gone (tn_withdraws tn) f1 = (gone2, f2)" by fastforce
    obtain e' ds g' where r: "serve_loop c gone2 (tick_offer (tn_tick tn) f2) tns = (e', ds, g')" by (metis prod_cases3)
    have le: "at_most (length (of_value f)) d1" using dispatch_all_le [OF d1] "2.prems"(2) by simp
    have "goes_on f1 (tick_offer (tn_tick tn) f2)"
      using daemon_step_on [of f1 gone "tn_withdraws tn"] f2 goes_on_trans [OF _ goes_on_simps(5)] by simp
    then have v: "of_value (tick_offer (tn_tick tn) f2) = of_value f" using goes_on_value dispatch_all_on [OF d1] by metis
    show ?thesis
    proof (cases "bad \<or> tn_broken tn \<or> (\<not> of_offered f1 \<and> of_outcome f1 = None \<and> tn_check tn \<ge> c)")
      case stop: True
      then have "d = d1" using True d1 f2 "2.prems"(1) by (auto split: if_split_asm)
      then show ?thesis using le by simp
    next
      case False
      then have "d = d1 @ ds" using True d1 f2 r "2.prems"(1) by (auto split: if_split_asm)
      moreover have "at_most (length (of_value f)) ds"
        using "2.IH" [OF _ d1 [symmetric] refl _ _ _ f2 [symmetric] r] True False "2.prems"(2) v by simp
      ultimately show ?thesis using le by simp
    qed
  qed (use "2.prems" in simp)
qed (auto split: if_split_asm)

text \<open>C29. The value reaches one paste: its readers are the only ones that get it, they are not watchers alone, under the
  policy of the code somebody was seen to read, they get it again only for a moment, and an X11 app behind the bridge gets it once.\<close>

theorem value_goes_to_one_paste:
  assumes "serve (Some t0) c (new_offer v sensitive timeout w bridge) tns = (e, (rd, t, n) # rest, g)"
  shows "\<not> only_watchers rd \<and> (w = 0 \<longrightarrow> rd_pids rd \<noteq> {}) \<and>
    (\<forall>(rd', t', n') \<in> set rest. rd_pids rd' = rd_pids rd \<and> t' \<le> t + CLIP_REREQUEST_GRACE_S) \<and>
    (\<forall>b. bridge = Some b \<longrightarrow> b \<noteq> 0 \<longrightarrow> b \<in> rd_pids rd \<longrightarrow> rest = [])"
proof -
  let ?f = "start_offer t0 (new_offer v sensitive timeout w bridge)"
  have run: "serve_loop (c + OFFER_CONFIRM_S) False ?f tns = (e, (rd, t, n) # rest, g)" using assms by (simp add: serve_def)
  have "one_paste ?f []" by (simp add: one_paste_def start_offer_def new_offer_def)
  then have "one_paste g ((rd, t, n) # rest)" using serve_loop_one_paste [OF _ run] by force
  moreover have "same_terms ?f g" by (rule serve_loop_terms [OF run])
  ultimately show ?thesis by (auto simp: one_paste_def same_terms_def start_offer_def new_offer_def)
qed

text \<open>A run to apply it to: a reader asks, asks again, and another one asks.\<close>

definition ex_readers :: "int \<Rightarrow> readers" where "ex_readers p = \<lparr>rd_pids = {p}, rd_watchers = {}\<rparr>"

definition ex_request :: "int \<Rightarrow> real \<Rightarrow> clip_request" where
  "ex_request p t = \<lparr>rq_mime = Some (ascii ''text/plain''), rq_readers = ex_readers p, rq_again = ex_readers p, rq_gone = False,
     rq_now = t, rq_pasted = t, rq_write = t, rq_pipe = [W_took 2]\<rparr>"

definition ex_turns :: "turn list" where
  "ex_turns = [\<lparr>tn_events = [Wl_confirm, Wl_send (ex_request 7 1), Wl_send (ex_request 7 2), Wl_send (ex_request 8 2)], tn_broken = False,
     tn_check = 2, tn_withdraws = Some 0, tn_tick = 2\<rparr>]"

lemma ex_serve:
  "\<exists>g. serve (Some 0) 0 (new_offer [104, 105] True 30 0 None) ex_turns =
     (S_blocked, [(ex_readers 7, 1, 2), (ex_readers 7, 2, 2)], g) \<and> of_pasted_at g = Some 1"
  by (simp add: serve_def ex_turns_def ex_request_def ex_readers_def new_offer_def start_offer_def dispatch_event_def on_send_def
      serve_first_def serve_again_def taken_def seen_readers_def write_bytes_def daemon_step_def tick_offer_def note_verdict_def
      only_watchers_def TEXT_MIMES_def HINT_MIME_def ascii_def WRITE_DEADLINE_S_def OFFER_CONFIRM_S_def CLIP_REREQUEST_GRACE_S_def)

lemma value_goes_to_one_paste_witness:
  "\<not> only_watchers (ex_readers 7) \<and> rd_pids (ex_readers 7) \<noteq> {} \<and> (2 :: real) \<le> 1 + CLIP_REREQUEST_GRACE_S"
proof -
  obtain g where g: "serve (Some 0) 0 (new_offer [104, 105] True 30 0 None) ex_turns =
     (S_blocked, [(ex_readers 7, 1, 2), (ex_readers 7, 2, 2)], g)" using ex_serve by blast
  from value_goes_to_one_paste [OF g] show ?thesis by simp
qed

text \<open>C31. A copy ends in time: one that is still on offer after a pass of the loop has neither outlived its timeout nor, once
  pasted, the moment for asking again; and the wake-up the loop sets is late enough for the tick that follows to end it.\<close>

theorem offer_ends_in_time:
  assumes "serve (Some t0) c (new_offer v sensitive timeout w bridge) tns = (S_blocked, ds, g)" "tns \<noteq> []"
  shows "(case of_pasted_at g of None \<Rightarrow> tn_tick (last tns) < t0 + timeout | Some p \<Rightarrow> tn_tick (last tns) \<le> p + CLIP_REREQUEST_GRACE_S) \<and>
    (\<forall>t. tn_tick (last tns) + next_wakeup (tn_tick (last tns)) g \<le> t \<longrightarrow> of_outcome (tick_offer t g) \<noteq> None)"
proof -
  let ?f = "start_offer t0 (new_offer v sensitive timeout w bridge)"
  have run: "serve_loop (c + OFFER_CONFIRM_S) False ?f tns = (S_blocked, ds, g)" using assms(1) by (simp add: serve_def)
  have "same_terms ?f g" by (rule serve_loop_terms [OF run])
  then show ?thesis using serve_loop_time_left [OF run assms(2)] wakeup_ends
    by (auto simp: time_left_def same_terms_def start_offer_def new_offer_def split: option.split_asm option.split)
qed

lemma offer_ends_in_time_witness: "tn_tick (last ex_turns) \<le> (1 :: real) + CLIP_REREQUEST_GRACE_S"
proof -
  obtain g where g: "serve (Some 0) 0 (new_offer [104, 105] True 30 0 None) ex_turns =
     (S_blocked, [(ex_readers 7, 1, 2), (ex_readers 7, 2, 2)], g)" and p: "of_pasted_at g = Some 1" using ex_serve by blast
  have "ex_turns \<noteq> []" by (simp add: ex_turns_def)
  from offer_ends_in_time [OF g this] p show ?thesis by simp
qed

text \<open>C32. Every paste gets at least a byte and at most the value, when the pipe never takes more than it was given.\<close>

theorem paste_bounds:
  assumes "serve (Some t0) c (new_offer v sensitive timeout w bridge) tns = (e, ds, g)"
    and "list_all (\<lambda>tn. list_all (event_fits (length v)) (tn_events tn)) tns"
  shows "\<forall>(rd, t, n) \<in> set ds. 0 < n \<and> n \<le> length v"
proof -
  let ?f = "start_offer t0 (new_offer v sensitive timeout w bridge)"
  have run: "serve_loop (c + OFFER_CONFIRM_S) False ?f tns = (e, ds, g)" using assms(1) by (simp add: serve_def)
  have "length (of_value ?f) = length v" by (simp add: start_offer_def new_offer_def)
  then show ?thesis using serve_loop_le [OF run] assms(2) by (simp add: at_most_def)
qed

lemma paste_bounds_witness:
  "list_all (\<lambda>(rd, t, n). 0 < n \<and> n \<le> 2) (fst (snd (serve (Some 0) 0 (new_offer [104, 105] True 30 0 None) ex_turns)))"
proof -
  obtain g where g: "serve (Some 0) 0 (new_offer [104, 105] True 30 0 None) ex_turns =
     (S_blocked, [(ex_readers 7, 1, 2), (ex_readers 7, 2, 2)], g)" using ex_serve by blast
  have "list_all (\<lambda>tn. list_all (event_fits (length [104 :: nat, 105])) (tn_events tn)) ex_turns"
    by (simp add: ex_turns_def event_fits_def ex_request_def)
  from paste_bounds [OF g this] show ?thesis by (simp add: g)
qed

text \<open>Clipboard histories get nothing: while nothing was pasted yet, a pipe that only watchers hold - every process found
  holding it, both times, is one or descends from one, and the compositor does not read it itself - is given no byte of the value.\<close>

lemma no_watcher_taken:
  assumes "of_pasted_at f = None" "of_window f = 0" "rd_pids (rq_readers q) = rd_watchers (rq_readers q)"
    "rd_pids (rq_again q) = rd_watchers (rq_again q)"
  shows "taken f q = []"
proof (cases "on_send f q")
  case (Some r)
  then obtain n g where r: "on_send f q = Some (n, g)" by (cases r) auto
  then have "n = 0"
  proof (cases rule: on_send_cases)
    case (again rd) then show ?thesis using assms by simp
  next
    case (first rd)
    then have "only_watchers rd" using assms by (auto simp: seen_readers_def only_watchers_def split: if_split_asm)
    then show ?thesis using serve_first_cases [OF first(5)] by (simp split: if_split_asm)
  qed
  then show ?thesis using r by (simp add: taken_def)
qed (simp add: taken_def)

lemma identify_all_watchers:
  assumes "\<forall>p \<in> pipe_holders P uid pipe X. describe p \<noteq> None \<longrightarrow> is_watcher p describe \<and> Some p \<noteq> bridge"
    "\<not> holds_read_end P uid pipe bridge"
  shows "rd_pids (identify describe X bridge uid P pipe) = rd_watchers (identify describe X bridge uid P pipe)"
  using assms by (cases bridge) (auto simp: identify_def Let_def)

theorem histories_get_nothing:
  assumes "of_pasted_at f = None" "of_window f = 0"
    and "rq_readers q = identify describe X bridge uid P pipe" "rq_again q = identify describe2 X bridge uid P2 pipe"
    and "\<forall>p \<in> pipe_holders P uid pipe X. describe p \<noteq> None \<longrightarrow> is_watcher p describe \<and> Some p \<noteq> bridge"
    and "\<forall>p \<in> pipe_holders P2 uid pipe X. describe2 p \<noteq> None \<longrightarrow> is_watcher p describe2 \<and> Some p \<noteq> bridge"
    and "\<not> holds_read_end P uid pipe bridge" "\<not> holds_read_end P2 uid pipe bridge"
  shows "taken f q = []"
  using assms by (intro no_watcher_taken) (simp_all add: identify_all_watchers)

definition ex_proc :: proc_view where
  "ex_proc = \<lparr>pv_pids = [5, 7], pv_uid = (\<lambda>p. Some 1000), pv_fds = (\<lambda>p. if p = 7 then Some [(Some 3, Some 0)] else Some [])\<rparr>"

definition ex_describe :: "int \<Rightarrow> proc_info option" where
  "ex_describe p = (if p = 7 then Some \<lparr>pi_ppid = 1, pi_argv = [ascii ''/usr/bin/fcitx5'']\<rparr> else None)"

lemma histories_get_nothing_witness:
  "rd_pids (identify ex_describe {9} None 1000 ex_proc 3) = {7} \<and>
   taken (new_offer [104, 105] True 30 0 None) ((ex_request 7 1)\<lparr>rq_readers := identify ex_describe {9} None 1000 ex_proc 3,
     rq_again := identify ex_describe {9} None 1000 ex_proc 3\<rparr>) = []"
proof -
  have holders: "pipe_holders ex_proc 1000 3 {9} = {7}" by (auto simp: pipe_holders_def ex_proc_def)
  have watcher: "is_watcher 7 ex_describe"
    by (simp add: is_watcher_def ex_describe_def is_watcher_argv_def basename_def CLIPBOARD_READERS_def ascii_def)
  have "rd_pids (identify ex_describe {9} None 1000 ex_proc 3) = {7}"
    by (auto simp: identify_def holders ex_describe_def)
  moreover have "taken (new_offer [104, 105] True 30 0 None) ((ex_request 7 1)\<lparr>rq_readers := identify ex_describe {9} None 1000 ex_proc 3,
     rq_again := identify ex_describe {9} None 1000 ex_proc 3\<rparr>) = []"
    by (rule histories_get_nothing [where P = ex_proc and ?P2.0 = ex_proc and uid = 1000 and pipe = 3 and X = "{9}" and bridge = None and
        describe = ex_describe and ?describe2.0 = ex_describe])
      (simp_all add: new_offer_def holders watcher holds_read_end_def)
  ultimately show ?thesis by blast
qed

end
