(* ===== verification/Sealing.thy ===== *)
theory Sealing
  imports Legacy
begin

text \<open>
  Sealing the two key blobs to the machine: \<^verbatim>\<open>backend/icp/vstore/seal.py\<close>. What a subprocess, the seal service's socket and
  the file system answer are arguments; the decisions about them are the definitions. Byte strings are lists of numbers.
\<close>

type_synonym octets = "nat list"

subsection \<open>Credential key types\<close>

definition hexbytes :: "string \<Rightarrow> octets" where
  "hexbytes s = (case from_hex (ascii s) of None \<Rightarrow> [] | Some b \<Rightarrow> b)"

definition CRED_BY_HOST :: octets where "CRED_BY_HOST = hexbytes ''5a1c6a86df9d4096b1d5a65e0862f19a''"
definition CRED_BY_HOST_SCOPED :: octets where "CRED_BY_HOST_SCOPED = hexbytes ''55b9ed1d38594d43a8319d2ebb332ac6''"
definition CRED_BY_HOST_AND_TPM2 :: octets where "CRED_BY_HOST_AND_TPM2 = hexbytes ''93a894094874449090caf2fc93cab553''"
definition CRED_BY_HOST_AND_TPM2_262 :: octets where "CRED_BY_HOST_AND_TPM2_262 = hexbytes ''1414258818a240cd900bce862db5c7b9''"
definition CRED_BY_HOST_SCOPED_AND_TPM2 :: octets where "CRED_BY_HOST_SCOPED_AND_TPM2 = hexbytes ''ef4ac13679a9480ea7db68897f9f165d''"
definition CRED_BY_HOST_SCOPED_AND_TPM2_262 :: octets where
  "CRED_BY_HOST_SCOPED_AND_TPM2_262 = hexbytes ''2a1f877a4275431ab3f9ed1f5d8f6601''"
definition CRED_BY_TPM2_WITH_PK :: octets where "CRED_BY_TPM2_WITH_PK = hexbytes ''faf7eb9341e3412ca1a436f95a29362f''"
definition CRED_BY_TPM2_WITH_PK_262 :: octets where "CRED_BY_TPM2_WITH_PK_262 = hexbytes ''5e2d5c7603724eaf843c6fb5f64098f5''"
definition CRED_BY_HOST_AND_TPM2_WITH_PK :: octets where
  "CRED_BY_HOST_AND_TPM2_WITH_PK = hexbytes ''af4950a849134eb1a73846304ff30c05''"
definition CRED_BY_HOST_AND_TPM2_WITH_PK_262 :: octets where
  "CRED_BY_HOST_AND_TPM2_WITH_PK_262 = hexbytes ''afbfeaaceb6a4a3795419d135c47f37b''"
definition CRED_BY_HOST_SCOPED_AND_TPM2_WITH_PK :: octets where
  "CRED_BY_HOST_SCOPED_AND_TPM2_WITH_PK = hexbytes ''adbc4ca3efb64201ba881b6f2e4095ea''"
definition CRED_BY_HOST_SCOPED_AND_TPM2_WITH_PK_262 :: octets where
  "CRED_BY_HOST_SCOPED_AND_TPM2_WITH_PK_262 = hexbytes ''16e492949f94400286758f94b7c52bc7''"

datatype key_kind = Key_host | Key_host_tpm2

definition USER_ALLOWED :: "(octets \<times> key_kind) list" where
  "USER_ALLOWED = [(CRED_BY_HOST_SCOPED, Key_host), (CRED_BY_HOST_SCOPED_AND_TPM2, Key_host_tpm2),
     (CRED_BY_HOST_SCOPED_AND_TPM2_262, Key_host_tpm2)]"

definition SYSTEM_ALLOWED :: "(octets \<times> key_kind) list" where
  "SYSTEM_ALLOWED = [(CRED_BY_HOST, Key_host), (CRED_BY_HOST_AND_TPM2, Key_host_tpm2), (CRED_BY_HOST_AND_TPM2_262, Key_host_tpm2)]"

definition PK_BOUND :: "octets list" where
  "PK_BOUND = [CRED_BY_TPM2_WITH_PK, CRED_BY_TPM2_WITH_PK_262, CRED_BY_HOST_AND_TPM2_WITH_PK, CRED_BY_HOST_AND_TPM2_WITH_PK_262,
     CRED_BY_HOST_SCOPED_AND_TPM2_WITH_PK, CRED_BY_HOST_SCOPED_AND_TPM2_WITH_PK_262]"

text \<open>\<^verbatim>\<open>SealUnavailable\<close>, \<^verbatim>\<open>SealRefused\<close> with its two reasons, and for a decryption \<^verbatim>\<open>UnsealRefused\<close>.\<close>

datatype seal_fail = Sf_unavailable | Sf_pcr_policy | Sf_key_type
datatype unseal_fail = Uf_refused | Uf_fail seal_fail

text \<open>White space of byte strings: tab to carriage return, and space.\<close>

definition byte_space :: "nat \<Rightarrow> bool" where "byte_space c \<longleftrightarrow> c = 32 \<or> (9 \<le> c \<and> c \<le> 13)"

definition credential_header :: "octets \<Rightarrow> octets" where
  "credential_header blob = take 16 (case b64decode (filter (\<lambda>c. \<not> byte_space c) blob) of None \<Rightarrow> blob | Some raw \<Rightarrow> raw)"

definition allowed_key_type :: "octets \<Rightarrow> (octets \<times> key_kind) list \<Rightarrow> seal_fail + key_kind" where
  "allowed_key_type blob allowed = (let h = credential_header blob in
     case (if length h = 16 then dget allowed h else None) of
       Some k \<Rightarrow> Inr k
     | None \<Rightarrow> if h \<in> set PK_BOUND then Inl Sf_pcr_policy else Inl Sf_key_type)"

subsection \<open>The machine\<close>

text \<open>The TPM's device is there; the exit report_status of \<^verbatim>\<open>systemd-analyze has-tpm2\<close> (\<open>None\<close>: it did not run); which paths exist;
  the PEM of the storage root key.\<close>

record machine =
  mc_device :: bool
  mc_has_tpm2 :: "int option"
  mc_exists :: "string \<Rightarrow> bool"
  mc_srk_pem :: "octets option"

definition PCR_PUBLIC_KEY_PATHS :: "string list" where
  "PCR_PUBLIC_KEY_PATHS = [''/etc/systemd/tpm2-pcr-public-key.pem'', ''/run/systemd/tpm2-pcr-public-key.pem'',
     ''/usr/local/lib/systemd/tpm2-pcr-public-key.pem'', ''/usr/lib/systemd/tpm2-pcr-public-key.pem'']"

definition tpm_present :: "machine \<Rightarrow> bool" where
  "tpm_present m \<longleftrightarrow> mc_device m \<and> mc_has_tpm2 m = Some 0"

definition pcr_public_key_present :: "machine \<Rightarrow> string option" where
  "pcr_public_key_present m = List.find (mc_exists m) PCR_PUBLIC_KEY_PATHS"

text \<open>\<^verbatim>\<open>bytes.splitlines\<close>.\<close>

fun byte_lines :: "octets \<Rightarrow> octets \<Rightarrow> octets list" where
  "byte_lines acc [] = (if acc = [] then [] else [rev acc])"
| "byte_lines acc (c # s) =
     (if c = 10 then rev acc # byte_lines [] s
      else if c = 13 then (case s of d # s' \<Rightarrow> if d = 10 then rev acc # byte_lines [] s' else rev acc # byte_lines [] s | [] \<Rightarrow> [rev acc])
      else byte_lines (c # acc) s)"

definition srk_fingerprint :: "(octets \<Rightarrow> string) \<Rightarrow> machine \<Rightarrow> string option" where
  "srk_fingerprint sha m = (case mc_srk_pem m of
      None \<Rightarrow> None
    | Some pem \<Rightarrow> (case b64decode (concat (filter (\<lambda>l. l \<noteq> [] \<and> \<not> startswith l (replicate 5 45))
          (map (stripP byte_space) (byte_lines [] pem)))) of
        None \<Rightarrow> None
      | Some der \<Rightarrow> if der = [] then None else Some (sha der)))"

subsection \<open>systemd-creds as the daemon's user\<close>

text \<open>A run of the tool: it did not run or timed out, or its exit report_status, output and error text (lower case).\<close>

datatype tool_run = Run_failed | Run_exit int octets ustr

definition TRANSIENT :: "string list" where
  "TRANSIENT = [''failed to connect to io.systemd.credentials'', ''varlink'', ''connection refused'', ''connection reset'',
     ''transport endpoint'', ''timed out'', ''timer expired'', ''resource temporarily unavailable'', ''cannot allocate memory'',
     ''try again'', ''dictionarylockout'', ''dictionary lockout'', ''rc_retry'', ''rc_yielded'', ''rc_testing'',
     ''device or resource busy'', ''too many'']"

definition SYSTEMD_CREDS :: string where "SYSTEMD_CREDS = ''/usr/bin/systemd-creds''"
definition CANARY_NAME :: string where "CANARY_NAME = ''pear.canary''"

definition encrypt_argv :: "string \<Rightarrow> string list" where
  "encrypt_argv name = [SYSTEMD_CREDS, ''--user'', ''encrypt'', ''--name='' @ name, ''-'', ''-'']"

definition decrypt_argv :: "string \<Rightarrow> string list" where
  "decrypt_argv name = [SYSTEMD_CREDS, ''--user'', ''decrypt'', ''--name='' @ name, ''-'', ''-'']"

text \<open>The first argument is the tool: its answer to the \<open>k\<close>-th call of a method, by arguments and input.\<close>

type_synonym creds_tool = "nat \<Rightarrow> string list \<Rightarrow> octets \<Rightarrow> tool_run"

definition user_key_type :: "octets \<Rightarrow> seal_fail + key_kind" where
  "user_key_type blob = allowed_key_type blob USER_ALLOWED"

definition user_encrypt :: "creds_tool \<Rightarrow> machine \<Rightarrow> string \<Rightarrow> octets \<Rightarrow> seal_fail + octets" where
  "user_encrypt run m name pt =
     (if tpm_present m \<and> pcr_public_key_present m \<noteq> None then Inl Sf_pcr_policy
      else (case run 0 (encrypt_argv name) pt of
          Run_failed \<Rightarrow> Inl Sf_unavailable
        | Run_exit ec out err \<Rightarrow> if ec \<noteq> 0 \<or> out = [] then Inl Sf_unavailable else bindE (user_key_type out) (\<lambda>_. Inr out)))"

definition tool_works :: "creds_tool \<Rightarrow> octets \<Rightarrow> bool" where
  "tool_works run canary = (case run 1 (encrypt_argv CANARY_NAME) canary of
      Run_failed \<Rightarrow> False
    | Run_exit ec out err \<Rightarrow> if ec \<noteq> 0 \<or> out = [] then False
        else (case run 2 (decrypt_argv CANARY_NAME) out of Run_failed \<Rightarrow> False | Run_exit ec2 out2 err2 \<Rightarrow> ec2 = 0 \<and> out2 = canary))"

definition user_decrypt :: "creds_tool \<Rightarrow> octets \<Rightarrow> string \<Rightarrow> octets \<Rightarrow> unseal_fail + octets" where
  "user_decrypt run canary name blob = (case run 0 (decrypt_argv name) blob of
      Run_failed \<Rightarrow> Inl (Uf_fail Sf_unavailable)
    | Run_exit ec out err \<Rightarrow>
        if ec < 0 then Inl (Uf_fail Sf_unavailable)
        else if ec \<noteq> 0 then
          (if list_ex (\<lambda>m. contains err (ascii m)) TRANSIENT then Inl (Uf_fail Sf_unavailable)
           else if \<not> tool_works run canary then Inl (Uf_fail Sf_unavailable) else Inl Uf_refused)
        else Inr out)"

subsection \<open>The root seal service\<close>

text \<open>The service: the bytes it sends for a request (\<open>None\<close>: a socket error), and \<^verbatim>\<open>json.loads\<close>.\<close>

type_synonym seal_socket = "json \<Rightarrow> octets option"

definition service_request :: "string \<Rightarrow> string \<Rightarrow> octets \<Rightarrow> string option \<Rightarrow> json" where
  "service_request op name data with_key = JObj ([(''op'', JStr (ascii op)), (''name'', JStr (ascii name)), (''b64'', JStr (b64encode data))] @
     (case with_key of None \<Rightarrow> [] | Some w \<Rightarrow> [(''with'', JStr (ascii w))]))"

definition service_call :: "seal_socket \<Rightarrow> (octets \<Rightarrow> json option) \<Rightarrow> string \<Rightarrow> string \<Rightarrow> octets \<Rightarrow> string option \<Rightarrow> unseal_fail + octets" where
  "service_call sock loads op name data with_key = (case sock (service_request op name data with_key) of
      None \<Rightarrow> Inl (Uf_fail Sf_unavailable)
    | Some buf \<Rightarrow> (case loads (takeWhile (\<lambda>c. c \<noteq> 10) buf) of
        Some (JObj r) \<Rightarrow> (case jget r ''b64'' of
            Some (JStr s) \<Rightarrow> (case b64decode s of None \<Rightarrow> Inl (Uf_fail Sf_unavailable) | Some b \<Rightarrow> Inr b)
          | Some j \<Rightarrow> Inl (Uf_fail Sf_unavailable)
          | None \<Rightarrow> if jget r ''error'' = Some (JStr (ascii ''refused'')) \<and> op = ''decrypt'' then Inl Uf_refused
              else Inl (Uf_fail Sf_unavailable))
      | _ \<Rightarrow> Inl (Uf_fail Sf_unavailable)))"

definition kind_name :: "key_kind \<Rightarrow> string" where
  "kind_name k = (case k of Key_host \<Rightarrow> ''host'' | Key_host_tpm2 \<Rightarrow> ''host+tpm2'')"

definition service_key_type :: "octets \<Rightarrow> seal_fail + key_kind" where
  "service_key_type blob = allowed_key_type blob SYSTEM_ALLOWED"

definition service_encrypt :: "seal_socket \<Rightarrow> (octets \<Rightarrow> json option) \<Rightarrow> machine \<Rightarrow> string \<Rightarrow> octets \<Rightarrow> seal_fail + octets" where
  "service_encrypt sock loads m name pt =
     (let want = (if tpm_present m then Key_host_tpm2 else Key_host) in
      case service_call sock loads ''encrypt'' name pt (Some (kind_name want)) of
        Inl (Uf_fail e) \<Rightarrow> Inl e
      | Inl Uf_refused \<Rightarrow> Inl Sf_unavailable
      | Inr blob \<Rightarrow> bindE (service_key_type blob) (\<lambda>k. if k \<noteq> want then Inl Sf_unavailable else Inr blob))"

definition service_decrypt :: "seal_socket \<Rightarrow> (octets \<Rightarrow> json option) \<Rightarrow> string \<Rightarrow> octets \<Rightarrow> unseal_fail + octets" where
  "service_decrypt sock loads name blob = service_call sock loads ''decrypt'' name blob None"

subsection \<open>The interface the store uses\<close>

text \<open>
  The methods of \<^verbatim>\<open>SealBackend\<close>; the number is the moment of the call, since the tool and the machine may answer differently
  each time. \<open>bk_user\<close>: the backend is \<^verbatim>\<open>SystemdCredsBackend\<close>.
\<close>

record 'b backend =
  bk_user :: bool
  bk_encrypt :: "nat \<Rightarrow> string \<Rightarrow> 'b \<Rightarrow> seal_fail + 'b"
  bk_decrypt :: "nat \<Rightarrow> string \<Rightarrow> 'b \<Rightarrow> unseal_fail + 'b"
  bk_key_type :: "'b \<Rightarrow> seal_fail + key_kind"
  bk_machine :: "nat \<Rightarrow> machine"

definition systemd_backend :: "(nat \<Rightarrow> creds_tool) \<Rightarrow> (nat \<Rightarrow> machine) \<Rightarrow> (nat \<Rightarrow> octets) \<Rightarrow> octets backend" where
  "systemd_backend runs ms canaries = \<lparr>bk_user = True, bk_encrypt = (\<lambda>n. user_encrypt (runs n) (ms n)),
     bk_decrypt = (\<lambda>n. user_decrypt (runs n) (canaries n)), bk_key_type = user_key_type, bk_machine = ms\<rparr>"

definition service_backend :: "(nat \<Rightarrow> seal_socket) \<Rightarrow> (octets \<Rightarrow> json option) \<Rightarrow> (nat \<Rightarrow> machine) \<Rightarrow> octets backend" where
  "service_backend socks loads ms = \<lparr>bk_user = False, bk_encrypt = (\<lambda>n. service_encrypt (socks n) loads (ms n)),
     bk_decrypt = (\<lambda>n. service_decrypt (socks n) loads), bk_key_type = service_key_type, bk_machine = ms\<rparr>"

text \<open>\<^verbatim>\<open>PEAR_SEAL_BACKEND\<close>: \<open>None\<close> when it is unset.\<close>

datatype backend_choice = Use_user_creds | Use_seal_service

definition get_backend :: "string option \<Rightarrow> backend_choice option" where
  "get_backend choice = (let c = (case choice of None \<Rightarrow> ''user-creds'' | Some x \<Rightarrow> x) in
     if c = ''seal-service'' then Some Use_seal_service else if c = ''user-creds'' then Some Use_user_creds else None)"

definition tpm_sealing_blocked :: "'b backend \<Rightarrow> machine \<Rightarrow> bool" where
  "tpm_sealing_blocked B m \<longleftrightarrow> bk_user B \<and> pcr_public_key_present m \<noteq> None"

datatype seal_kind = Tpm_missing | Tpm_cleared | Damaged

definition classify_refusal :: "(octets \<Rightarrow> string) \<Rightarrow> machine \<Rightarrow> ustr option \<Rightarrow> ustr option \<Rightarrow> seal_kind" where
  "classify_refusal sha m sealed_with recorded =
     (if sealed_with = Some (ascii ''host+tpm2'') then
        (if \<not> tpm_present m then Tpm_missing
         else (case (recorded, srk_fingerprint sha m) of
             (Some r, Some now) \<Rightarrow> if r = [] \<or> r \<noteq> ascii now then Tpm_cleared else Damaged
           | _ \<Rightarrow> Tpm_cleared))
      else Damaged)"

subsection \<open>What is stored is bound to this machine\<close>

text \<open>
  What a store relies on of a backend: a blob it hands out is of an accepted type, and when a TPM is there it never comes with a
  signed PCR policy of the user's own sealing.
\<close>

locale seal_backend =
  fixes encrypt :: "nat \<Rightarrow> string \<Rightarrow> octets \<Rightarrow> seal_fail + octets"
    and key_type :: "octets \<Rightarrow> seal_fail + key_kind"
    and allowed :: "(octets \<times> key_kind) list"
  assumes key_type_allowed: "key_type blob = Inr k \<Longrightarrow> length (credential_header blob) = 16 \<and> dget allowed (credential_header blob) = Some k"
    and encrypt_typed: "encrypt n name pt = Inr blob \<Longrightarrow> \<exists>k. key_type blob = Inr k"
    and allowed_unbound: "dget allowed h \<noteq> None \<Longrightarrow> h \<notin> set PK_BOUND"
begin

lemma sealed_allowed:
  assumes "encrypt n name pt = Inr blob"
  shows "\<exists>k. key_type blob = Inr k \<and> dget allowed (credential_header blob) = Some k \<and> credential_header blob \<notin> set PK_BOUND"
proof -
  obtain k where k: "key_type blob = Inr k" using encrypt_typed [OF assms] by blast
  then have a: "dget allowed (credential_header blob) = Some k" using key_type_allowed by simp
  then have "credential_header blob \<notin> set PK_BOUND" by (intro allowed_unbound) simp
  then show ?thesis using k a by blast
qed

end

lemma allowed_key_type_Inr:
  "allowed_key_type blob allowed = Inr k \<Longrightarrow> length (credential_header blob) = 16 \<and> dget allowed (credential_header blob) = Some k"
  by (auto simp: allowed_key_type_def Let_def split: if_split_asm option.split_asm)

lemma tables_listed: "list_all (\<lambda>(h, k). h \<notin> set PK_BOUND) (USER_ALLOWED @ SYSTEM_ALLOWED)"
  by code_simp

lemma tables_unbound: "dget USER_ALLOWED h \<noteq> None \<Longrightarrow> h \<notin> set PK_BOUND" "dget SYSTEM_ALLOWED h \<noteq> None \<Longrightarrow> h \<notin> set PK_BOUND"
  using tables_listed by (auto simp: dget_def list_all_iff dest!: map_of_SomeD)

lemma user_encrypt_typed: "user_encrypt run m name pt = Inr blob \<Longrightarrow> user_key_type blob \<in> range Inr"
  by (auto simp: user_encrypt_def split: if_split_asm tool_run.split_asm elim!: bindE_Inr_iff [THEN iffD1, elim_format])

lemma service_encrypt_typed:
  assumes "service_encrypt sock loads m name pt = Inr blob"
  shows "service_key_type blob = Inr (if tpm_present m then Key_host_tpm2 else Key_host)"
  using assms by (auto simp: service_encrypt_def Let_def bindE_Inr_iff split: sum.split_asm unseal_fail.split_asm if_split_asm)

interpretation user_creds: seal_backend "bk_encrypt (systemd_backend runs ms canaries)" user_key_type USER_ALLOWED
  for runs ms canaries
proof unfold_locales
  fix blob k assume "user_key_type blob = Inr k"
  then show "length (credential_header blob) = 16 \<and> dget USER_ALLOWED (credential_header blob) = Some k"
    unfolding user_key_type_def by (rule allowed_key_type_Inr)
next
  fix n name pt blob assume "bk_encrypt (systemd_backend runs ms canaries) n name pt = Inr blob"
  then show "\<exists>k. user_key_type blob = Inr k" using user_encrypt_typed [of "runs n" "ms n" name pt blob] by (auto simp: systemd_backend_def)
qed (rule tables_unbound)

interpretation seal_service: seal_backend "bk_encrypt (service_backend socks loads ms)" service_key_type SYSTEM_ALLOWED
  for socks loads ms
proof unfold_locales
  fix blob k assume "service_key_type blob = Inr k"
  then show "length (credential_header blob) = 16 \<and> dget SYSTEM_ALLOWED (credential_header blob) = Some k"
    unfolding service_key_type_def by (rule allowed_key_type_Inr)
next
  fix n name pt blob assume "bk_encrypt (service_backend socks loads ms) n name pt = Inr blob"
  then show "\<exists>k. service_key_type blob = Inr k" using service_encrypt_typed by (auto simp: service_backend_def)
qed (rule tables_unbound)

text \<open>
  A refusal is about the blob: the user's own sealing says that it was refused only when the tool had just sealed and opened a
  throwaway value, so a mechanism that is down is never taken for a broken store.
\<close>

theorem refusal_means_tool_works:
  assumes "user_decrypt run canary name blob = Inl Uf_refused"
  shows "\<exists>sealed err. run 1 (encrypt_argv CANARY_NAME) canary = Run_exit 0 sealed err \<and>
    (\<exists>err2. run 2 (decrypt_argv CANARY_NAME) sealed = Run_exit 0 canary err2)"
  using assms by (auto simp: user_decrypt_def tool_works_def split: tool_run.split_asm if_split_asm)

definition ex_blob :: octets where "ex_blob = b64encode (CRED_BY_HOST_SCOPED @ [1, 2, 3])"

text \<open>A tool that seals and opens its throwaway value, and refuses the blob asked about.\<close>

definition ex_tool :: creds_tool where
  "ex_tool k argv d = (if k = 0 then Run_exit 1 [] (ascii ''no such secret'') else if k = 1 then Run_exit 0 ex_blob [] else Run_exit 0 [9] [])"

lemma refusal_means_tool_works_witness:
  "\<exists>sealed err. ex_tool 1 (encrypt_argv CANARY_NAME) [9] = Run_exit 0 sealed err \<and>
    (\<exists>err2. ex_tool 2 (decrypt_argv CANARY_NAME) sealed = Run_exit 0 [9] err2)"
proof -
  have "user_decrypt ex_tool [9] ''pear.list.u1000'' [1] = Inl Uf_refused" by code_simp
  from refusal_means_tool_works [OF this] show ?thesis .
qed

text \<open>
  C15. What the user's own sealing hands out is bound to the host key or to host key and TPM, never to a signed PCR policy, and when a
  TPM is there no policy key was installed.
\<close>

theorem seals_never_policy_bound:
  assumes "bk_encrypt (systemd_backend runs ms canaries) n name pt = Inr blob"
  shows "credential_header blob \<notin> set PK_BOUND \<and> (\<exists>k. user_key_type blob = Inr k) \<and>
    (tpm_present (ms n) \<longrightarrow> pcr_public_key_present (ms n) = None)"
proof -
  have "tpm_present (ms n) \<longrightarrow> pcr_public_key_present (ms n) = None"
    using assms by (auto simp: systemd_backend_def user_encrypt_def split: if_split_asm)
  then show ?thesis using user_creds.sealed_allowed [OF assms] by blast
qed

definition ex_machine :: machine where
  "ex_machine = \<lparr>mc_device = False, mc_has_tpm2 = None, mc_exists = (\<lambda>p. False), mc_srk_pem = None\<rparr>"

lemma seals_never_policy_bound_witness: "credential_header ex_blob \<notin> set PK_BOUND \<and> (\<exists>k. user_key_type ex_blob = Inr k)"
proof -
  have t: "user_key_type ex_blob = Inr Key_host" by code_simp
  have "ex_blob \<noteq> []" by code_simp
  then have "bk_encrypt (systemd_backend (\<lambda>_ _ _ _. Run_exit 0 ex_blob []) (\<lambda>_. ex_machine) (\<lambda>_. [9])) 0 ''pear.list.u1000'' [5] = Inr ex_blob"
    by (simp add: systemd_backend_def user_encrypt_def tpm_present_def ex_machine_def t)
  from seals_never_policy_bound [OF this] show ?thesis by blast
qed

end
