(* ===== verification/SealService.thy ===== *)
theory SealService
  imports Sealing
begin

text \<open>
  The root service behind the second backend: \<^verbatim>\<open>backend/icp/vstore/seal_service.py\<close>, and that backend talking to it. The tool is an argument;
  \<open>why\<close> is the line of its error text that is logged, \<open>loads\<close> and \<open>dumps\<close> are \<^verbatim>\<open>json\<close>.
\<close>

subsection \<open>Requests\<close>

definition MAX_REQUEST :: nat where "MAX_REQUEST = 256 * 1024"
definition WITH_KEYS :: "string list" where "WITH_KEYS = [''host'', ''host+tpm2'']"

text \<open>\<^verbatim>\<open>NAME_RE\<close>, matched in full.\<close>

definition cred_tail_ok :: "ustr \<Rightarrow> bool" where
  "cred_tail_ok s \<longleftrightarrow> 1 \<le> length s \<and> length s \<le> 10 \<and> list_all (\<lambda>c. 48 \<le> c \<and> c \<le> 57) s"

definition cred_name_ok :: "ustr \<Rightarrow> bool" where
  "cred_name_ok s \<longleftrightarrow> (take 11 s = ascii ''pear.list.u'' \<and> cred_tail_ok (drop 11 s)) \<or>
     (take 13 s = ascii ''pear.secret.u'' \<and> cred_tail_ok (drop 13 s))"

definition plain_string :: "ustr \<Rightarrow> string" where "plain_string s = map char_of s"

definition system_encrypt_argv :: "string \<Rightarrow> string \<Rightarrow> string list" where
  "system_encrypt_argv name w = [SYSTEMD_CREDS, ''encrypt'', ''--with-key='' @ w, ''--tpm2-pcrs='', ''--tpm2-public-key='', ''--name='' @ name, ''-'', ''-'']"

definition system_decrypt_argv :: "string \<Rightarrow> string list" where
  "system_decrypt_argv name = [SYSTEMD_CREDS, ''decrypt'', ''--name='' @ name, ''-'', ''-'']"

datatype system_run = Sv_missing | Sv_timeout | Sv_os ustr | Sv_exit int octets ustr

type_synonym runner = "string list \<Rightarrow> octets \<Rightarrow> system_run"

definition fault_reply :: "string \<Rightarrow> ustr \<Rightarrow> json" where
  "fault_reply kind detail = JObj [(''error'', JStr (ascii kind)), (''detail'', JStr detail)]"

definition bad_ask :: "string \<Rightarrow> json" where "bad_ask detail = fault_reply ''bad-request'' (ascii detail)"

datatype seal_request = Ask_encrypt string string octets | Ask_decrypt string octets

text \<open>The checks before anything runs; the reply if one fails.\<close>

definition parse_request :: "json option \<Rightarrow> json + seal_request" where
  "parse_request j = (case j of
      None \<Rightarrow> Inl (bad_ask ''not JSON'')
    | Some (JObj r) \<Rightarrow>
        if \<not> list_all (\<lambda>k. jget r k \<noteq> None) [''op'', ''name'', ''b64''] \<or> \<not> list_all (\<lambda>k. k \<in> set [''op'', ''name'', ''b64'', ''with'']) (map fst r)
        then Inl (bad_ask ''expected op, name and b64'')
        else if jget r ''op'' \<notin> {Some (JStr (ascii ''encrypt'')), Some (JStr (ascii ''decrypt''))} then Inl (bad_ask ''op'')
        else if (case jget r ''with'' of None \<Rightarrow> False | Some w \<Rightarrow> w \<notin> set (map (\<lambda>x. JStr (ascii x)) WITH_KEYS) \<or> jget r ''op'' = Some (JStr (ascii ''decrypt'')))
        then Inl (bad_ask ''with'')
        else (case jget r ''name'' of
            Some (JStr name) \<Rightarrow>
              if \<not> cred_name_ok name then Inl (bad_ask ''name'')
              else (case jget r ''b64'' of
                  Some (JStr b) \<Rightarrow> (case b64decode b of
                      Some (c # d) \<Rightarrow> Inr (if jget r ''op'' = Some (JStr (ascii ''encrypt''))
                        then Ask_encrypt (plain_string name) (if jget r ''with'' = Some (JStr (ascii ''host+tpm2'')) then ''host+tpm2'' else ''host'') (c # d)
                        else Ask_decrypt (plain_string name) (c # d))
                    | _ \<Rightarrow> Inl (bad_ask ''b64''))
                | _ \<Rightarrow> Inl (bad_ask ''b64''))
          | _ \<Rightarrow> Inl (bad_ask ''name''))
    | _ \<Rightarrow> Inl (bad_ask ''expected op, name and b64''))"

definition request_argv :: "seal_request \<Rightarrow> string list \<times> octets" where
  "request_argv q = (case q of Ask_encrypt n w d \<Rightarrow> (system_encrypt_argv n w, d) | Ask_decrypt n d \<Rightarrow> (system_decrypt_argv n, d))"

definition internal :: "ustr \<Rightarrow> json" where "internal detail = fault_reply ''internal'' detail"

text \<open>The texts of \<^verbatim>\<open>SealRefused\<close> are cut to 200 characters; the reason stands for them.\<close>

definition run_reply :: "seal_request \<Rightarrow> system_run \<Rightarrow> json" where
  "run_reply q res = (case res of
      Sv_missing \<Rightarrow> internal (ascii ''systemd-creds is not installed'')
    | Sv_timeout \<Rightarrow> internal (ascii ''systemd-creds timed out'')
    | Sv_os t \<Rightarrow> internal (ascii ''systemd-creds could not run ('' @ t @ ascii '')'')
    | Sv_exit ec out why \<Rightarrow>
        if ec < 0 then internal (ascii ''systemd-creds killed by signal '' @ dec (nat (- ec)))
        else (case q of
          Ask_decrypt n d \<Rightarrow>
            if ec \<noteq> 0 then fault_reply ''refused'' why
            else if out = [] then internal (ascii ''systemd-creds decrypt failed ('' @ why @ ascii '')'')
            else JObj [(''b64'', JStr (b64encode out))]
        | Ask_encrypt n w d \<Rightarrow>
            if ec \<noteq> 0 \<or> out = [] then internal (ascii ''systemd-creds encrypt failed ('' @ why @ ascii '')'')
            else (case allowed_key_type out SYSTEM_ALLOWED of
                Inl e \<Rightarrow> internal (ascii (if e = Sf_pcr_policy then ''pcr-policy'' else ''key-type''))
              | Inr k \<Rightarrow> if kind_name k \<noteq> w then internal (ascii ''sealed as '' @ ascii (kind_name k) @ ascii '', not the '' @ ascii w @ ascii '' that was asked for'')
                  else JObj [(''b64'', JStr (b64encode out))])))"

definition handle :: "json option \<Rightarrow> runner \<Rightarrow> json" where
  "handle req run = (case parse_request req of Inl reply \<Rightarrow> reply | Inr q \<Rightarrow> run_reply q (run (fst (request_argv q)) (snd (request_argv q))))"

text \<open>The bytes of a connection, chunk by chunk, until a line is there or they are too many; an empty chunk is its end.\<close>

fun read_request :: "octets list \<Rightarrow> octets \<Rightarrow> octets" where
  "read_request cs buf = (if 10 \<in> set buf \<or> length buf > MAX_REQUEST then buf
     else case cs of [] \<Rightarrow> buf | [] # cs \<Rightarrow> buf | c # cs \<Rightarrow> read_request cs (buf @ c))"

declare read_request.simps [simp del]

text \<open>\<open>None\<close>: the peer is not the daemon.\<close>

definition serve_request :: "nat \<Rightarrow> nat \<Rightarrow> octets list \<Rightarrow> (octets \<Rightarrow> json option) \<Rightarrow> (json \<Rightarrow> octets) \<Rightarrow> runner \<Rightarrow> octets option" where
  "serve_request peer expected chunks loads dumps run =
     (if peer \<noteq> expected then None
      else (let buf = read_request chunks [] in
        Some (dumps (if length buf > MAX_REQUEST then bad_ask ''too large'' else handle (loads (takeWhile (\<lambda>c. c \<noteq> 10) buf)) run) @ [10])))"

subsection \<open>What the tool is asked\<close>

lemma parsed_argv:
  assumes "parse_request j = Inr q"
  shows "(\<exists>n w d. cred_name_ok n \<and> w \<in> set WITH_KEYS \<and> d \<noteq> [] \<and> q = Ask_encrypt (plain_string n) w d) \<or>
    (\<exists>n d. cred_name_ok n \<and> d \<noteq> [] \<and> q = Ask_decrypt (plain_string n) d)"
  using assms unfolding parse_request_def
  by (auto simp: WITH_KEYS_def split: option.split_asm json.split_asm if_split_asm list.split_asm)

text \<open>
  The root service runs nothing but the tool on a key of the store: two tools that agree on sealing to the host or to host and TPM and on
  opening, for the names \<^verbatim>\<open>pear.list.u<n>\<close> and \<^verbatim>\<open>pear.secret.u<n>\<close>, cannot be told apart through it, whatever is sent to it.
\<close>

theorem service_runs_only_its_tool:
  assumes "\<And>n w d. cred_name_ok n \<Longrightarrow> w \<in> set WITH_KEYS \<Longrightarrow> run (system_encrypt_argv (plain_string n) w) d = run' (system_encrypt_argv (plain_string n) w) d"
    and "\<And>n d. cred_name_ok n \<Longrightarrow> run (system_decrypt_argv (plain_string n)) d = run' (system_decrypt_argv (plain_string n)) d"
  shows "handle j run = handle j run'"
proof (cases "parse_request j")
  case (Inr q)
  then show ?thesis using parsed_argv [OF Inr] assms by (auto simp: handle_def request_argv_def)
qed (simp add: handle_def)

subsection \<open>The backend and the service\<close>

text \<open>What both sides rely on: \<^verbatim>\<open>json\<close> gives a message of texts back, on one line.\<close>

definition wire_ok :: "(octets \<Rightarrow> json option) \<Rightarrow> (json \<Rightarrow> octets) \<Rightarrow> bool" where
  "wire_ok loads dumps \<longleftrightarrow> (\<forall>kv. distinct (map fst kv) \<and> list_all (\<lambda>x. case snd x of JStr t \<Rightarrow> True | _ \<Rightarrow> False) kv \<longrightarrow>
     loads (dumps (JObj kv)) = Some (JObj kv) \<and> 10 \<notin> set (dumps (JObj kv)))"

definition service_line :: "(octets \<Rightarrow> json option) \<Rightarrow> (json \<Rightarrow> octets) \<Rightarrow> runner \<Rightarrow> seal_socket" where
  "service_line loads dumps run req = serve_request 0 0 [dumps req @ [10]] loads dumps run"

lemma read_one_line: "length b < MAX_REQUEST \<Longrightarrow> read_request [b @ [10]] [] = b @ [10]"
  by (cases b) (simp_all add: read_request.simps MAX_REQUEST_def)

lemma line_of: "10 \<notin> set b \<Longrightarrow> takeWhile (\<lambda>c. c \<noteq> 10) (b @ [10]) = b"
  by (induction b) auto

lemma name_chars:
  assumes "cred_name_ok (ascii n)"
  shows "plain_string (ascii n) = n"
  by (simp add: plain_string_def ascii_def comp_def)

lemma line_reply:
  assumes "wire_ok loads dumps" "distinct (map fst kv)" "list_all (\<lambda>x. case snd x of JStr t \<Rightarrow> True | _ \<Rightarrow> False) kv" "length (dumps (JObj kv)) < MAX_REQUEST"
  shows "service_line loads dumps run (JObj kv) = Some (dumps (handle (Some (JObj kv)) run) @ [10])"
proof -
  have "loads (dumps (JObj kv)) = Some (JObj kv)" "10 \<notin> set (dumps (JObj kv))" using assms(1-3) by (auto simp: wire_ok_def)
  then show ?thesis using assms(4) by (simp add: service_line_def serve_request_def Let_def read_one_line line_of)
qed

text \<open>A request the backend makes, as the service takes it.\<close>

lemma parse_backend:
  assumes "cred_name_ok (ascii n)" "list_all (\<lambda>b. b < 256) d" "d \<noteq> []"
  shows "parse_request (Some (service_request ''encrypt'' n d (Some (kind_name k)))) = Inr (Ask_encrypt n (kind_name k) d)"
    "parse_request (Some (service_request ''decrypt'' n d None)) = Inr (Ask_decrypt n d)"
proof -
  obtain c e where "d = c # e" using assms(3) by (cases d) auto
  then show "parse_request (Some (service_request ''encrypt'' n d (Some (kind_name k)))) = Inr (Ask_encrypt n (kind_name k) d)"
    "parse_request (Some (service_request ''decrypt'' n d None)) = Inr (Ask_decrypt n d)"
    using b64_roundtrip [OF assms(2)] name_chars [OF assms(1)] assms(1)
    by (cases k; simp add: parse_request_def service_request_def jget_def WITH_KEYS_def kind_name_def ascii_def)+
qed

text \<open>The reply, as the backend reads it.\<close>

definition b64_of :: "json \<Rightarrow> json option" where
  "b64_of j = (case j of JObj r \<Rightarrow> jget r ''b64'' | _ \<Rightarrow> None)"

lemma reply_shape:
  "\<exists>kv. run_reply q res = JObj kv \<and> distinct (map fst kv) \<and> list_all (\<lambda>x. case snd x of JStr t \<Rightarrow> True | _ \<Rightarrow> False) kv"
  by (auto simp: run_reply_def internal_def fault_reply_def split: system_run.split seal_request.split sum.split)

lemma service_call_reply:
  assumes "wire_ok loads dumps" "length (dumps (service_request x n d w)) < MAX_REQUEST" "parse_request (Some (service_request x n d w)) = Inr q"
  shows "service_call (service_line loads dumps run) loads x n d w = (case run_reply q (run (fst (request_argv q)) (snd (request_argv q))) of
      JObj r \<Rightarrow> (case jget r ''b64'' of
            Some (JStr s) \<Rightarrow> (case b64decode s of None \<Rightarrow> Inl (Uf_fail Sf_unavailable) | Some b \<Rightarrow> Inr b)
          | Some j \<Rightarrow> Inl (Uf_fail Sf_unavailable)
          | None \<Rightarrow> if jget r ''error'' = Some (JStr (ascii ''refused'')) \<and> x = ''decrypt'' then Inl Uf_refused else Inl (Uf_fail Sf_unavailable))
    | _ \<Rightarrow> Inl (Uf_fail Sf_unavailable))"
proof -
  obtain kv where kv: "run_reply q (run (fst (request_argv q)) (snd (request_argv q))) = JObj kv" "distinct (map fst kv)"
      "list_all (\<lambda>x. case snd x of JStr t \<Rightarrow> True | _ \<Rightarrow> False) kv" using reply_shape by blast
  have req: "service_request x n d w = JObj (case service_request x n d w of JObj kv \<Rightarrow> kv | _ \<Rightarrow> [])" by (simp add: service_request_def)
  have "service_line loads dumps run (service_request x n d w) = Some (dumps (handle (Some (service_request x n d w)) run) @ [10])"
    by (subst (1 2) req, rule line_reply [OF assms(1)]) (use assms(2) in \<open>auto simp: service_request_def split: option.split\<close>)
  then have sock: "service_line loads dumps run (service_request x n d w) = Some (dumps (JObj kv) @ [10])"
    using assms(3) kv(1) by (simp add: handle_def)
  have "loads (dumps (JObj kv)) = Some (JObj kv)" "10 \<notin> set (dumps (JObj kv))" using assms(1) kv(2,3) by (auto simp: wire_ok_def)
  then show ?thesis unfolding service_call_def sock by (simp add: line_of kv(1))
qed

lemma service_encrypt_run:
  assumes "wire_ok loads dumps" "cred_name_ok (ascii n)" "list_all (\<lambda>b. b < 256) d" "d \<noteq> []"
    and "want = (if tpm_present m then Key_host_tpm2 else Key_host)"
    and "length (dumps (service_request ''encrypt'' n d (Some (kind_name want)))) < MAX_REQUEST"
    and "\<And>ec out why. run (system_encrypt_argv n (kind_name want)) d = Sv_exit ec out why \<Longrightarrow> list_all (\<lambda>b. b < 256) out"
  shows "service_encrypt (service_line loads dumps run) loads m n d = (case run (system_encrypt_argv n (kind_name want)) d of
      Sv_exit ec out why \<Rightarrow> if ec = 0 \<and> out \<noteq> [] \<and> allowed_key_type out SYSTEM_ALLOWED = Inr want then Inr out else Inl Sf_unavailable
    | _ \<Rightarrow> Inl Sf_unavailable)"
proof -
  note call = service_call_reply [OF assms(1,6) parse_backend(1) [OF assms(2-4)]]
  have names: "kind_name a = kind_name b \<longleftrightarrow> a = b" for a b by (cases a; cases b) (simp_all add: kind_name_def)
  show ?thesis
  proof (cases "run (system_encrypt_argv n (kind_name want)) d")
    case (Sv_exit ec out why)
    have rt: "b64decode (b64encode out) = Some out" by (rule b64_roundtrip [OF assms(7) [OF Sv_exit]])
    show ?thesis
      unfolding service_encrypt_def Let_def assms(5) [symmetric] call
      using rt Sv_exit by (auto simp: request_argv_def run_reply_def internal_def fault_reply_def jget_def names service_key_type_def split: sum.split)
  qed (unfold service_encrypt_def Let_def assms(5) [symmetric] call, simp_all add: request_argv_def run_reply_def internal_def fault_reply_def jget_def)
qed

lemma service_decrypt_run:
  assumes "wire_ok loads dumps" "cred_name_ok (ascii n)" "list_all (\<lambda>b. b < 256) d" "d \<noteq> []"
    and "length (dumps (service_request ''decrypt'' n d None)) < MAX_REQUEST"
    and "\<And>ec out why. run (system_decrypt_argv n) d = Sv_exit ec out why \<Longrightarrow> list_all (\<lambda>b. b < 256) out"
  shows "service_decrypt (service_line loads dumps run) loads n d = (case run (system_decrypt_argv n) d of
      Sv_exit ec out why \<Rightarrow> if ec > 0 then Inl Uf_refused else if ec = 0 \<and> out \<noteq> [] then Inr out else Inl (Uf_fail Sf_unavailable)
    | _ \<Rightarrow> Inl (Uf_fail Sf_unavailable))"
proof -
  note call = service_call_reply [OF assms(1,5) parse_backend(2) [OF assms(2-4)]]
  show ?thesis
  proof (cases "run (system_decrypt_argv n) d")
    case (Sv_exit ec out why)
    have rt: "b64decode (b64encode out) = Some out" by (rule b64_roundtrip [OF assms(6) [OF Sv_exit]])
    show ?thesis
      unfolding service_decrypt_def call
      using rt Sv_exit by (auto simp: request_argv_def run_reply_def internal_def fault_reply_def jget_def ascii_def)
  qed (unfold service_decrypt_def call, simp_all add: request_argv_def run_reply_def internal_def fault_reply_def jget_def ascii_def)
qed

text \<open>
  C16. What the backend gets through the service is exactly what the tool gave the service, and only a blob bound to what was asked for; anything else
  is "unavailable".
\<close>

theorem seal_service_exact:
  assumes "wire_ok loads dumps" "cred_name_ok (ascii n)" "list_all (\<lambda>b. b < 256) d" "d \<noteq> []"
    and "want = (if tpm_present m then Key_host_tpm2 else Key_host)"
    and "length (dumps (service_request ''encrypt'' n d (Some (kind_name want)))) < MAX_REQUEST"
    and "\<And>ec out why. run (system_encrypt_argv n (kind_name want)) d = Sv_exit ec out why \<Longrightarrow> list_all (\<lambda>b. b < 256) out"
  shows "service_encrypt (service_line loads dumps run) loads m n d = Inr blob \<longleftrightarrow>
    (\<exists>why. run (system_encrypt_argv n (kind_name want)) d = Sv_exit 0 blob why \<and> blob \<noteq> [] \<and> allowed_key_type blob SYSTEM_ALLOWED = Inr want)"
proof -
  have "service_encrypt (service_line loads dumps run) loads m n d = (case run (system_encrypt_argv n (kind_name want)) d of
      Sv_exit ec out why \<Rightarrow> if ec = 0 \<and> out \<noteq> [] \<and> allowed_key_type out SYSTEM_ALLOWED = Inr want then Inr out else Inl Sf_unavailable
    | _ \<Rightarrow> Inl Sf_unavailable)"
    by (rule service_encrypt_run [OF assms(1-6)]) (rule assms(7))
  then show ?thesis by (auto split: system_run.split if_split_asm)
qed

text \<open>
  The service reports every failed run as a refusal, so a TPM that is only busy looks like a key that is lost: the same run makes the first
  backend say "unavailable".
\<close>

theorem service_takes_busy_for_refused:
  assumes "wire_ok loads dumps" "cred_name_ok (ascii n)" "list_all (\<lambda>b. b < 256) d" "d \<noteq> []"
    and "length (dumps (service_request ''decrypt'' n d None)) < MAX_REQUEST"
    and "run (system_decrypt_argv n) d = Sv_exit ec [] why" "ec > 0"
    and "tool 0 (decrypt_argv n) d = Run_exit ec [] err" "list_ex (\<lambda>m. contains err (ascii m)) TRANSIENT"
  shows "service_decrypt (service_line loads dumps run) loads n d = Inl Uf_refused \<and> user_decrypt tool canary n d = Inl (Uf_fail Sf_unavailable)"
  using service_decrypt_run [where run = run, OF assms(1-5)] assms(6-9) by (auto simp: user_decrypt_def)

subsection \<open>A concrete line\<close>

text \<open>Texts with their lengths, all numbers above that of the newline.\<close>

definition sample_text :: "octets \<Rightarrow> octets" where "sample_text t = (length t + 11) # map (\<lambda>c. c + 11) t"

definition sample_dumps :: "json \<Rightarrow> octets" where
  "sample_dumps j = (case j of JObj kv \<Rightarrow> concat (map (\<lambda>x. sample_text (ascii (fst x)) @ sample_text (case snd x of JStr t \<Rightarrow> t | _ \<Rightarrow> [])) kv) | _ \<Rightarrow> [])"

definition sample_split :: "octets \<Rightarrow> octets \<times> octets" where
  "sample_split b = (map (\<lambda>c. c - 11) (take (hd b - 11) (tl b)), drop (hd b - 11) (tl b))"

fun sample_pairs :: "nat \<Rightarrow> octets \<Rightarrow> (string \<times> json) list" where
  "sample_pairs 0 b = []"
| "sample_pairs (Suc n) b = (if b = [] then [] else
     case sample_split b of (k, r) \<Rightarrow> case sample_split r of (t, q) \<Rightarrow> (plain_string k, JStr t) # sample_pairs n q)"

definition sample_loads :: "octets \<Rightarrow> json option" where "sample_loads b = Some (JObj (sample_pairs (length b) b))"

lemma sample_split_text: "sample_split (sample_text t @ r) = (t, r)"
  by (simp add: sample_split_def sample_text_def comp_def)

lemma sample_pairs_dumps:
  assumes "list_all (\<lambda>x. case snd x of JStr t \<Rightarrow> True | _ \<Rightarrow> False) kv" "length kv \<le> n"
  shows "sample_pairs n (sample_dumps (JObj kv)) = kv"
  using assms
proof (induction kv arbitrary: n)
  case Nil
  then show ?case by (cases n) (simp_all add: sample_dumps_def)
next
  case (Cons x kv)
  obtain k t where x: "x = (k, JStr t)" using Cons.prems(1) by (cases x; cases "snd x") auto
  obtain m where n: "n = Suc m" using Cons.prems(2) by (cases n) auto
  have d: "sample_dumps (JObj ((k, JStr t) # kv)) = sample_text (ascii k) @ sample_text t @ sample_dumps (JObj kv)" by (simp add: sample_dumps_def)
  have "sample_text (ascii k) @ sample_text t @ sample_dumps (JObj kv) \<noteq> []" by (simp add: sample_text_def)
  then show ?case using Cons x n by (simp add: d sample_split_text plain_string_def ascii_def comp_def)
qed

lemma sample_wire_ok: "wire_ok sample_loads sample_dumps"
proof -
  have "length kv \<le> length (sample_dumps (JObj kv))" for kv
    by (induction kv) (simp_all add: sample_dumps_def sample_text_def)
  then have "sample_loads (sample_dumps (JObj kv)) = Some (JObj kv)" if "list_all (\<lambda>x. case snd x of JStr t \<Rightarrow> True | _ \<Rightarrow> False) kv" for kv
    using sample_pairs_dumps [OF that] by (simp add: sample_loads_def)
  moreover have "10 \<notin> set (sample_dumps (JObj kv))" for kv
    by (induction kv) (auto simp: sample_dumps_def sample_text_def)
  ultimately show ?thesis by (simp add: wire_ok_def)
qed

definition system_blob :: octets where "system_blob = b64encode (CRED_BY_HOST @ [1, 2, 3])"

definition sample_run :: runner where
  "sample_run argv d = (if argv = system_encrypt_argv ''pear.list.u1000'' ''host'' then Sv_exit 0 system_blob [] else Sv_exit 1 [] [])"

lemma service_runs_only_its_tool_witness:
  "handle None sample_run = handle None (\<lambda>argv d. if argv = [''/bin/sh''] then Sv_exit 0 [115] [] else sample_run argv d)"
  by (rule service_runs_only_its_tool) (simp_all add: system_encrypt_argv_def system_decrypt_argv_def)

lemma list_u1000: "cred_name_ok (ascii ''pear.list.u1000'')"
  by (simp add: cred_name_ok_def cred_tail_ok_def ascii_def)

lemma sample_argv: "system_decrypt_argv n \<noteq> system_encrypt_argv n' w"
  by (simp add: system_encrypt_argv_def system_decrypt_argv_def)

lemma seal_service_exact_witness:
  "service_encrypt (service_line sample_loads sample_dumps sample_run) sample_loads ex_machine ''pear.list.u1000'' [7] = Inr system_blob"
proof -
  have kt: "allowed_key_type system_blob SYSTEM_ALLOWED = Inr Key_host" by code_simp
  have "\<not> tpm_present ex_machine" by (simp add: tpm_present_def ex_machine_def)
  moreover have "length (b64encode [7]) = 4" by code_simp
  then have "length (sample_dumps (service_request ''encrypt'' ''pear.list.u1000'' [7] (Some (kind_name Key_host)))) < MAX_REQUEST"
    by (simp add: sample_dumps_def sample_text_def service_request_def MAX_REQUEST_def kind_name_def ascii_def)
  moreover have "sample_run (system_encrypt_argv ''pear.list.u1000'' (kind_name Key_host)) [7] = Sv_exit 0 system_blob []"
    by (simp add: sample_run_def kind_name_def)
  moreover have "list_all (\<lambda>b. b < 256) system_blob" "system_blob \<noteq> []" by code_simp+
  ultimately show ?thesis
    using seal_service_exact [OF sample_wire_ok list_u1000, of "[7]" Key_host ex_machine sample_run system_blob] kt by auto
qed

lemma service_takes_busy_for_refused_witness:
  "service_decrypt (service_line sample_loads sample_dumps sample_run) sample_loads ''pear.list.u1000'' [7] = Inl Uf_refused \<and>
   user_decrypt (\<lambda>n argv d. Run_exit 1 [] (ascii ''varlink'')) [1] ''pear.list.u1000'' [7] = Inl (Uf_fail Sf_unavailable)"
proof -
  have "length (b64encode [7]) = 4" by code_simp
  then have "length (sample_dumps (service_request ''decrypt'' ''pear.list.u1000'' [7] None)) < MAX_REQUEST"
    by (simp add: sample_dumps_def sample_text_def service_request_def MAX_REQUEST_def ascii_def)
  moreover have "sample_run (system_decrypt_argv ''pear.list.u1000'') [7] = Sv_exit 1 [] []" by (simp add: sample_run_def sample_argv)
  moreover have "list_ex (\<lambda>m. contains (ascii ''varlink'') (ascii m)) TRANSIENT" by code_simp
  ultimately show ?thesis
    using service_takes_busy_for_refused [OF sample_wire_ok list_u1000, of "[7]" sample_run 1 "[]" "\<lambda>n argv d. Run_exit 1 [] (ascii ''varlink'')" "ascii ''varlink''" "[1]"]
    by simp
qed

end
