(* ===== verification/StoreFiles.thy ===== *)
theory StoreFiles
  imports Boxes Records Protocol
begin

text \<open>
  The files of a store: \<^verbatim>\<open>backend/icp/vstore/format.py\<close> (the sealed file), \<^verbatim>\<open>keys.py\<close> (what is derived from \<^verbatim>\<open>RK_list\<close>) and
  \<^verbatim>\<open>session_store.py\<close> (what the small files hold). A file is a list of letters, which are bytes for the program; XChaCha20-Poly1305,
  HKDF, HMAC, SHA-256 and \<^verbatim>\<open>json\<close> are parameters on such lists.
\<close>

subsection \<open>What is called\<close>

text \<open>
  \<open>fl_byte\<close> is the letter of a byte value. \<open>fl_enc key aad nonce plain\<close> and \<open>fl_dec key aad nonce cipher\<close> are the AEAD, \<open>fl_hkdf key info\<close>
  the derivation, \<open>fl_hmac key msg\<close> the raw digest. \<open>fl_doc_text\<close> is the JSON text of the document of \<^verbatim>\<open>meta.v2\<close> and \<open>fl_doc_read\<close>
  the reading of one with \<^verbatim>\<open>meta.check\<close>, whose shape tests are the types of the document here.
\<close>

record 'a flib =
  fl_box :: "'a list boxlib"
  fl_byte :: "nat \<Rightarrow> 'a"
  fl_enc :: "'a list \<Rightarrow> 'a list \<Rightarrow> 'a list \<Rightarrow> 'a list \<Rightarrow> 'a list"
  fl_dec :: "'a list \<Rightarrow> 'a list \<Rightarrow> 'a list \<Rightarrow> 'a list \<Rightarrow> 'a list option"
  fl_hkdf :: "'a list \<Rightarrow> string \<Rightarrow> 'a list"
  fl_hmac :: "'a list \<Rightarrow> 'a list \<Rightarrow> 'a list"
  fl_sha :: "'a list \<Rightarrow> 'a list"
  fl_doc_text :: "'a list doc \<Rightarrow> 'a list"
  fl_doc_read :: "'a list \<Rightarrow> 'a list doc option"

definition KEY_BYTES :: nat where "KEY_BYTES = 32"
definition NONCE_BYTES :: nat where "NONCE_BYTES = 24"
definition MAC_BYTES :: nat where "MAC_BYTES = 16"

text \<open>What the code relies on: decryption undoes encryption and accepts nothing else, and the lengths of the outputs.\<close>

definition flib_ok :: "'a flib \<Rightarrow> bool" where
  "flib_ok L \<longleftrightarrow> boxlib_ok (fl_box L) \<and> inj (fl_byte L) \<and>
     (\<forall>k a n p. fl_dec L k a n (fl_enc L k a n p) = Some p \<and> length (fl_enc L k a n p) \<ge> MAC_BYTES) \<and>
     (\<forall>k a n p k' a' n' q. fl_dec L k' a' n' (fl_enc L k a n p) = Some q \<longrightarrow> k' = k \<and> a' = a \<and> n' = n) \<and>
     (\<forall>k i. length (fl_hkdf L k i) = KEY_BYTES) \<and> (\<forall>k m. length (fl_hmac L k m) = 32) \<and>
     (\<forall>sk. length sk = KEY_BYTES \<longrightarrow> length (p_public (fl_box L) sk) = KEY_BYTES) \<and>
     fl_doc_read L (fl_doc_text L empty_doc) = Some empty_doc"

subsection \<open>The sealed file\<close>

definition FILE_MAGIC :: "'a flib \<Rightarrow> 'a list" where "FILE_MAGIC L = map (fl_byte L) [80, 80, 87, 50]"

definition HEADER_BYTES :: nat where "HEADER_BYTES = 4 + 1 + NONCE_BYTES"

definition KIND_META :: nat where "KIND_META = 1"
definition KIND_SESSION :: nat where "KIND_SESSION = 2"
definition KIND_ALIASES :: nat where "KIND_ALIASES = 3"
definition KIND_NICKNAMES :: nat where "KIND_NICKNAMES = 4"
definition KINDS :: "nat list" where "KINDS = [KIND_META, KIND_SESSION, KIND_ALIASES, KIND_NICKNAMES]"

definition uid_bytes :: "nat \<Rightarrow> nat list" where
  "uid_bytes uid = [uid div 2 ^ 24 mod 256, uid div 2 ^ 16 mod 256, uid div 2 ^ 8 mod 256, uid mod 256]"

text \<open>\<open>None\<close>: an exception of the caller's making, a kind, name or uid that cannot be. No file the store writes has one.\<close>

definition aad :: "'a flib \<Rightarrow> nat \<Rightarrow> nat \<Rightarrow> string \<Rightarrow> 'a list option" where
  "aad L kind uid name =
     (if kind \<notin> set KINDS then None
      else if CHR ''/'' \<in> set name \<or> name = [] then None
      else if uid \<ge> 2 ^ 32 then None
      else Some (FILE_MAGIC L @ [fl_byte L kind] @ map (fl_byte L) (uid_bytes uid) @ map (fl_byte L) (ascii name)))"

definition encrypt :: "'a flib \<Rightarrow> 'a list \<Rightarrow> nat \<Rightarrow> nat \<Rightarrow> string \<Rightarrow> 'a list \<Rightarrow> 'a list \<Rightarrow> 'a list option" where
  "encrypt L key kind uid name nonce plain =
     map_option (\<lambda>a. FILE_MAGIC L @ [fl_byte L kind] @ nonce @ fl_enc L key a nonce plain) (aad L kind uid name)"

text \<open>\<open>None\<close>: the file is damaged.\<close>

definition decrypt :: "'a flib \<Rightarrow> 'a list \<Rightarrow> nat \<Rightarrow> nat \<Rightarrow> string \<Rightarrow> 'a list \<Rightarrow> 'a list option" where
  "decrypt L key kind uid name blob =
     (if length blob < HEADER_BYTES + 16 \<or> take 4 blob \<noteq> FILE_MAGIC L \<or> blob ! 4 \<noteq> fl_byte L kind then None
      else (case aad L kind uid name of
          None \<Rightarrow> None
        | Some a \<Rightarrow> fl_dec L key a (drop 5 (take HEADER_BYTES blob)) (drop HEADER_BYTES blob)))"

lemma kinds_small: "kind \<in> set KINDS \<Longrightarrow> kind < 256"
  by (auto simp: KINDS_def KIND_META_def KIND_SESSION_def KIND_ALIASES_def KIND_NICKNAMES_def)

lemma base_256: "x = 256 * y + d \<Longrightarrow> y = 256 * z + c \<Longrightarrow> z = 256 * w + b \<Longrightarrow> x = 2 ^ 24 * w + 2 ^ 16 * b + 2 ^ 8 * c + (d :: nat)"
  by simp

lemma uid_bytes_value:
  fixes x :: nat
  assumes "x < 2 ^ 32"
  shows "x = 2 ^ 24 * (x div 2 ^ 24 mod 256) + 2 ^ 16 * (x div 2 ^ 16 mod 256) + 2 ^ 8 * (x div 2 ^ 8 mod 256) + x mod 256"
proof -
  have d: "x div 2 ^ 16 = x div 256 div 256" "x div 2 ^ 24 = x div 256 div 256 div 256" "x div 2 ^ 8 = x div 256"
    by (simp_all add: div_mult2_eq [symmetric])
  have "x div 2 ^ 24 mod 256 = x div 256 div 256 div 256" using assms by (simp add: d(2) [symmetric] less_mult_imp_div_less)
  then show ?thesis unfolding d by (simp only: base_256 [of x "x div 256" "x mod 256" "x div 256 div 256" "x div 256 mod 256"
        "x div 256 div 256 div 256" "x div 256 div 256 mod 256", symmetric] mult_div_mod_eq)
qed

lemma uid_bytes_inj: "uid_bytes a = uid_bytes b \<Longrightarrow> a < 2 ^ 32 \<Longrightarrow> b < 2 ^ 32 \<Longrightarrow> a = b"
  using uid_bytes_value [of a] uid_bytes_value [of b] unfolding uid_bytes_def by simp

lemma aad_inj:
  assumes "inj (fl_byte L)" "aad L k u n = Some a" "aad L k' u' n' = Some a"
  shows "k = k' \<and> u = u' \<and> n = n'"
proof -
  have m: "map (fl_byte L) xs = map (fl_byte L) ys \<Longrightarrow> xs = ys" for xs ys
    using assms(1) by (metis map_injective)
  have eq: "[fl_byte L k] @ map (fl_byte L) (uid_bytes u) @ map (fl_byte L) (ascii n) =
      [fl_byte L k'] @ map (fl_byte L) (uid_bytes u') @ map (fl_byte L) (ascii n')"
    using assms(2,3) by (auto simp: aad_def split: if_split_asm)
  then have "k = k'" using assms(1) by (simp add: inj_eq)
  moreover have "uid_bytes u = uid_bytes u'" "ascii n = ascii n'"
    using eq m [of "ascii n" "ascii n'"] by (auto simp: uid_bytes_def inj_eq [OF assms(1)])
  moreover have "u < 2 ^ 32" "u' < 2 ^ 32" using assms(2,3) by (simp_all add: aad_def split: if_split_asm)
  ultimately show ?thesis using uid_bytes_inj ascii_inj by metis
qed

lemma decrypt_encrypted:
  assumes "flib_ok L" "length nonce = NONCE_BYTES" "encrypt L key kind uid name nonce plain = Some blob"
  shows "decrypt L key' kind' uid' name' blob = Some q \<longleftrightarrow>
    key' = key \<and> kind' = kind \<and> uid' = uid \<and> name' = name \<and> q = plain"
proof -
  obtain a where a: "aad L kind uid name = Some a" "blob = FILE_MAGIC L @ [fl_byte L kind] @ nonce @ fl_enc L key a nonce plain"
    using assms(3) by (auto simp: encrypt_def)
  have inj: "inj (fl_byte L)" and enc: "fl_dec L key a nonce (fl_enc L key a nonce plain) = Some plain"
      "length (fl_enc L key a nonce plain) \<ge> 16"
      "\<forall>k' a' n' q. fl_dec L k' a' n' (fl_enc L key a nonce plain) = Some q \<longrightarrow> k' = key \<and> a' = a \<and> n' = nonce"
    using assms(1) by (simp_all add: flib_ok_def MAC_BYTES_def)
  have parts: "take 4 blob = FILE_MAGIC L" "blob ! 4 = fl_byte L kind" "drop 5 (take HEADER_BYTES blob) = nonce"
      "drop HEADER_BYTES blob = fl_enc L key a nonce plain" "\<not> length blob < HEADER_BYTES + 16"
    using a(2) assms(2) enc(2) by (simp_all add: FILE_MAGIC_def HEADER_BYTES_def NONCE_BYTES_def)
  show ?thesis
  proof
    assume d: "decrypt L key' kind' uid' name' blob = Some q"
    then obtain a' where a': "aad L kind' uid' name' = Some a'" "fl_dec L key' a' nonce (fl_enc L key a nonce plain) = Some q"
      using parts by (auto simp: decrypt_def split: if_split_asm option.split_asm)
    then have "key' = key" "a' = a" using enc(3) by blast+
    then show "key' = key \<and> kind' = kind \<and> uid' = uid \<and> name' = name \<and> q = plain"
      using a a' enc(1) aad_inj [OF inj] by (metis option.inject)
  next
    assume "key' = key \<and> kind' = kind \<and> uid' = uid \<and> name' = name \<and> q = plain"
    then show "decrypt L key' kind' uid' name' blob = Some q" using parts a(1) enc(1) by (simp add: decrypt_def)
  qed
qed

text \<open>
  C14. A sealed file serves only as itself: what was written for one kind, user and name under a key reads back under exactly these, and as
  nothing but what was written; under any other it is damaged.
\<close>

theorem sealed_file_is_its_own:
  assumes "flib_ok L" "length nonce = NONCE_BYTES" "encrypt L key kind uid name nonce plain = Some blob"
  shows "decrypt L key' kind' uid' name' blob =
    (if key' = key \<and> kind' = kind \<and> uid' = uid \<and> name' = name then Some plain else None)"
  using decrypt_encrypted [OF assms] by (auto intro: option_eqI)

subsection \<open>Keys\<close>

record 'a subkeys =
  sk_meta :: "'a list"
  sk_session :: "'a list"
  sk_aliases :: "'a list"
  sk_nicknames :: "'a list"
  sk_pwmac :: "'a list"

text \<open>\<open>None\<close> is \<^verbatim>\<open>SealError("damaged")\<close>.\<close>

definition derive :: "'a flib \<Rightarrow> 'a list \<Rightarrow> 'a subkeys option" where
  "derive L rk = (if length rk \<noteq> KEY_BYTES then None
     else Some \<lparr>sk_meta = fl_hkdf L rk ''pear/v2/meta'', sk_session = fl_hkdf L rk ''pear/v2/session'',
       sk_aliases = fl_hkdf L rk ''pear/v2/aliases'', sk_nicknames = fl_hkdf L rk ''pear/v2/nicknames'',
       sk_pwmac = fl_hkdf L rk ''pear/v2/pwmac''\<rparr>)"

definition pk_mac :: "'a flib \<Rightarrow> 'a list \<Rightarrow> 'a list \<Rightarrow> 'a list" where
  "pk_mac L k_meta pk = fl_hmac L k_meta (map (fl_byte L) (ascii ''pk'') @ pk)"

definition pk_record :: "'a flib \<Rightarrow> 'a list \<Rightarrow> 'a list \<Rightarrow> 'a list" where
  "pk_record L k_meta pk = pk @ pk_mac L k_meta pk"

definition pk_from_record :: "'a flib \<Rightarrow> 'a list \<Rightarrow> 'a list option \<Rightarrow> 'a list option" where
  "pk_from_record L k_meta r = (case r of
      None \<Rightarrow> None
    | Some r \<Rightarrow> if length r \<noteq> KEY_BYTES + 32 then None
        else if drop KEY_BYTES r \<noteq> pk_mac L k_meta (take KEY_BYTES r) then None else Some (take KEY_BYTES r))"

lemma pk_from_pk_record:
  assumes "flib_ok L" "length pk = KEY_BYTES"
  shows "pk_from_record L k (Some (pk_record L k pk)) = Some pk"
  using assms by (simp add: pk_from_record_def pk_record_def pk_mac_def flib_ok_def)

subsection \<open>The small files\<close>

text \<open>A sealed file as its text; \<open>None\<close> on the outside: there is no such file.\<close>

definition read_text :: "'a flib \<Rightarrow> 'a list \<Rightarrow> nat \<Rightarrow> nat \<Rightarrow> string \<Rightarrow> 'a list option \<Rightarrow> store_exn + 'a list option" where
  "read_text L key kind uid name blob = (case blob of
      None \<Rightarrow> Inr None
    | Some b \<Rightarrow> (case decrypt L key kind uid name b of None \<Rightarrow> Inl St_damaged | Some t \<Rightarrow> Inr (Some t)))"

definition read_field ::
  "'a flib \<Rightarrow> 'a list \<Rightarrow> nat \<Rightarrow> nat \<Rightarrow> string \<Rightarrow> string \<Rightarrow> 'a list option \<Rightarrow> store_exn + json option" where
  "read_field L key kind uid name field blob = bindE (read_text L key kind uid name blob) (\<lambda>t. case t of
      None \<Rightarrow> Inr None
    | Some text \<Rightarrow> (case p_loads (fl_box L) text of
        Some (JObj d) \<Rightarrow> (case jget d field of None \<Rightarrow> Inl St_damaged | Some j \<Rightarrow> Inr (Some j))
      | _ \<Rightarrow> Inl St_damaged))"

definition field_text :: "'a flib \<Rightarrow> string \<Rightarrow> json \<Rightarrow> 'a list" where
  "field_text L field j = p_dumps (fl_box L) (JObj [(field, j)])"

definition load_session :: "'a flib \<Rightarrow> 'a list \<Rightarrow> nat \<Rightarrow> 'a list option \<Rightarrow> store_exn + (string \<times> json) list" where
  "load_session L key uid blob = bindE (read_field L key KIND_SESSION uid ''session.v2'' ''session'' blob) (\<lambda>v. case v of
      None \<Rightarrow> Inr [] | Some (JObj d) \<Rightarrow> Inr d | Some j \<Rightarrow> Inl St_damaged)"

definition is_obj :: "json \<Rightarrow> bool" where "is_obj j = (case j of JObj d \<Rightarrow> True | _ \<Rightarrow> False)"

definition load_aliases :: "'a flib \<Rightarrow> 'a list \<Rightarrow> nat \<Rightarrow> 'a list option \<Rightarrow> store_exn + json list" where
  "load_aliases L key uid blob = bindE (read_field L key KIND_ALIASES uid ''aliases.v2'' ''aliases'' blob) (\<lambda>v. case v of
      None \<Rightarrow> Inr [] | Some (JList xs) \<Rightarrow> if list_all is_obj xs then Inr xs else Inl St_damaged | Some j \<Rightarrow> Inl St_damaged)"

definition text_value :: "string \<times> json \<Rightarrow> store_exn + string \<times> ustr" where
  "text_value kv = (case snd kv of JStr t \<Rightarrow> Inr (fst kv, t) | _ \<Rightarrow> Inl St_damaged)"

definition load_nicknames :: "'a flib \<Rightarrow> 'a list \<Rightarrow> nat \<Rightarrow> 'a list option \<Rightarrow> store_exn + (string \<times> ustr) list" where
  "load_nicknames L key uid blob = bindE (read_field L key KIND_NICKNAMES uid ''nicknames.v2'' ''names'' blob) (\<lambda>v. case v of
      None \<Rightarrow> Inr [] | Some (JObj d) \<Rightarrow> mapE text_value d | Some j \<Rightarrow> Inl St_damaged)"

definition nicknames_text :: "'a flib \<Rightarrow> (string \<times> ustr) list \<Rightarrow> 'a list" where
  "nicknames_text L names = field_text L ''names'' (JObj (map (\<lambda>(k, t). (k, JStr t)) names))"

subsection \<open>Plain settings\<close>

definition settings_dict :: "settings \<Rightarrow> (string \<times> json) list" where
  "settings_dict s = [(''grant_s'', JInt (grant_s s)), (''idle_lock_s'', JInt (idle_lock_s s)),
     (''clip_timeout_s'', JInt (clip_timeout_s s)), (''window_mode'', JStr (window_mode s))]"

text \<open>\<^verbatim>\<open>_state_keys\<close>: the daemon's own notes beside the settings.\<close>

definition state_keys :: "(string \<times> json) list \<Rightarrow> (string \<times> json) list" where
  "state_keys src =
     (case jget src ''old_copy'' of Some (JObj d) \<Rightarrow> [(''old_copy'', JObj d)] | _ \<Rightarrow> []) @
     (if jget src ''migration_pending'' = Some (JBool True) then [(''migration_pending'', JBool True)] else []) @
     (if jget src ''autofill_enabled'' = Some (JBool True) then [(''autofill_enabled'', JBool True)] else []) @
     (case jget src ''features'' of
        Some (JObj d) \<Rightarrow> [(''features'', JObj (map (\<lambda>k. (k, JBool (jget d k = Some (JBool True)))) FEATURES))] | _ \<Rightarrow> [])"

definition overlay_setting :: "(string \<times> json) list \<Rightarrow> string \<times> json \<Rightarrow> string \<times> json" where
  "overlay_setting stored kd = (case (snd kd, jget stored (fst kd)) of
      (JStr t, Some (JStr v)) \<Rightarrow> (fst kd, if fst kd \<noteq> ''window_mode'' \<or> v \<in> set WINDOW_MODES then JStr v else JStr t)
    | (JInt n, Some (JInt v)) \<Rightarrow> (fst kd, JInt v)
    | _ \<Rightarrow> kd)"

definition load_settings :: "'a flib \<Rightarrow> 'a list option \<Rightarrow> (string \<times> json) list" where
  "load_settings L content = (case Option.bind content (p_loads (fl_box L)) of
      Some (JObj stored) \<Rightarrow> map (overlay_setting stored) (settings_dict DEFAULT_SETTINGS) @ state_keys stored
    | _ \<Rightarrow> settings_dict DEFAULT_SETTINGS)"

definition save_settings :: "'a flib \<Rightarrow> (string \<times> json) list \<Rightarrow> 'a list" where
  "save_settings L d = p_dumps (fl_box L) (JObj
     (concat (map (\<lambda>k. case jget d k of None \<Rightarrow> [] | Some v \<Rightarrow> [(k, v)]) SETTINGS_KEYS) @ state_keys d))"

text \<open>Settings survive: what the daemon saves and reads back when it starts again is what it held.\<close>

theorem settings_survive:
  assumes "flib_ok L" "settings_ok s"
  shows "validate_settings (load_settings L (Some (save_settings L (settings_dict s)))) = s"
proof -
  have saved: "save_settings L (settings_dict s) = p_dumps (fl_box L) (JObj (settings_dict s))"
    by (simp add: save_settings_def settings_dict_def SETTINGS_KEYS_def jget_def state_keys_def)
  have wf: "json_wf (JObj (settings_dict s))" by (simp add: settings_dict_def)
  let ?d = "sort_key fst (map (\<lambda>(k, v). (k, sort_json v)) (settings_dict s))"
  have loaded: "p_loads (fl_box L) (save_settings L (settings_dict s)) = Some (JObj ?d)"
    using assms(1) wf by (simp add: saved flib_ok_def boxlib_ok_def del: json_wf.simps)
  have get: "jget ?d k = map_option sort_json (jget (settings_dict s) k)" for k
    by (rule jget_sort_key) (simp add: settings_dict_def)
  have state: "state_keys ?d = []" unfolding state_keys_def get by (simp add: settings_dict_def jget_def)
  have "load_settings L (Some (save_settings L (settings_dict s))) = map (overlay_setting ?d) (settings_dict DEFAULT_SETTINGS)"
    unfolding load_settings_def by (simp add: loaded state)
  also have "\<dots> = settings_dict s"
    using assms(2) by (simp add: overlay_setting_def get settings_ok_def) (simp add: settings_dict_def DEFAULT_SETTINGS_def overlay_setting_def get jget_def)
  finally have l: "load_settings L (Some (save_settings L (settings_dict s))) = settings_dict s" .
  show ?thesis
    using assms(2) unfolding l by (simp add: settings_dict_def jget_def validate_settings_def SETTINGS_KEYS_def setting_ok_def put_setting_def settings_ok_def)
qed

end
