(* ===== verification/Life.thy ===== *)
theory Life
  imports StoreFiles Sealing Vault
begin

text \<open>
  The life of a store: \<^verbatim>\<open>UserStore\<close> of \<^verbatim>\<open>backend/icp/vstore/__init__.py\<close> from \<^verbatim>\<open>create\<close> to \<^verbatim>\<open>status\<close>, with the files of
  its directory. Every change of the disk is one atomic step of a log, so a crash is a prefix of it; any write may fail. The
  entries of an unlocked store are the theory of the vault. Limits on the size of a file read are left out.
\<close>

subsection \<open>The directories\<close>

datatype kfile = Cred_list | Cred_secret | Keys_json

datatype fname = Key kfile | Prev kfile | New kfile | Pub | Meta_v2 | Session_v2 | Aliases_v2 | Nicknames_v2
  | Device_json | State_json | Entry_box string | History_box string nat

type_synonym 'a tree = "(fname \<times> 'a list) list"

text \<open>\<^verbatim>\<open>u<uid>\<close>, \<^verbatim>\<open>u<uid>.rotate\<close> and the copies set aside; \<open>None\<close>: no such directory.\<close>

datatype place = Home | Rot

record 'a root =
  rt_home :: "'a tree option"
  rt_rot :: "'a tree option"
  rt_aside :: "'a tree list"

definition tree_at :: "place \<Rightarrow> 'a root \<Rightarrow> 'a tree option" where
  "tree_at p r = (case p of Home \<Rightarrow> rt_home r | Rot \<Rightarrow> rt_rot r)"

definition set_tree :: "place \<Rightarrow> 'a tree option \<Rightarrow> 'a root \<Rightarrow> 'a root" where
  "set_tree p t r = (case p of Home \<Rightarrow> r\<lparr>rt_home := t\<rparr> | Rot \<Rightarrow> r\<lparr>rt_rot := t\<rparr>)"

text \<open>The atomic changes: a write is a rename over its target, a rename moves one file, \<open>Swap\<close> is \<^verbatim>\<open>RENAME_EXCHANGE\<close>.\<close>

datatype 'a lop = Mk_dir place | Put place fname "'a list" | Del place fname | Rename place fname fname | Rm_tree place
  | Swap | Move_aside | Drop_aside

fun do_lop :: "'a lop \<Rightarrow> 'a root \<Rightarrow> 'a root" where
  "do_lop (Mk_dir p) r = (if tree_at p r = None then set_tree p (Some []) r else r)"
| "do_lop (Put p f b) r = set_tree p (map_option (dset f b) (tree_at p r)) r"
| "do_lop (Del p f) r = set_tree p (map_option (ddel f) (tree_at p r)) r"
| "do_lop (Rename p f g) r = set_tree p (map_option (\<lambda>t. case dget t f of None \<Rightarrow> t | Some b \<Rightarrow> dset g b (ddel f t)) (tree_at p r)) r"
| "do_lop (Rm_tree p) r = set_tree p None r"
| "do_lop Swap r = r\<lparr>rt_home := rt_rot r, rt_rot := rt_home r\<rparr>"
| "do_lop Move_aside r = (case rt_home r of None \<Rightarrow> r | Some t \<Rightarrow> r\<lparr>rt_home := None, rt_aside := rt_aside r @ [t]\<rparr>)"
| "do_lop Drop_aside r = r\<lparr>rt_aside := butlast (rt_aside r)\<rparr>"

subsection \<open>The object\<close>

record 'a loaded =
  ld_rk :: "'a list"
  ld_sub :: "'a subkeys"
  ld_pk :: "'a list"
  ld_doc :: "'a list doc"
  ld_nick :: "(string \<times> ustr) list"

record 'a life =
  li_root :: "'a root"
  li_log :: "'a lop list"
  li_keys :: "'a loaded option"
  li_fail :: "seal_kind option"
  li_unseals :: nat
  li_draws :: nat
  li_calls :: nat

text \<open>
  The surroundings: the backend, the uid, what is drawn (keys of 32 bytes, nonces of 24), the time, the hash of the key
  fingerprint, and whether the \<open>n\<close>-th change of the disk fails - before it happened, or after (the directory's \<^verbatim>\<open>fsync\<close>).
\<close>

datatype fault = No_fault | Fails_before | Fails_after

record 'a lenv =
  le_lib :: "'a flib"
  le_bk :: "'a list backend"
  le_uid :: nat
  le_key :: "nat \<Rightarrow> 'a list"
  le_nonce :: "nat \<Rightarrow> 'a list"
  le_now :: real
  le_fpr :: "nat list \<Rightarrow> string"
  le_fault :: "nat \<Rightarrow> fault"

abbreviation box_lib :: "'a lenv \<Rightarrow> 'a list boxlib" where "box_lib E \<equiv> fl_box (le_lib E)"

datatype life_exn = Le_store | Le_locked | Le_seal seal_kind | Le_unavailable seal_fail | Le_refused | Le_os | Le_value

text \<open>A method: its result or exception, and the state after it.\<close>

type_synonym ('a, 'r) lact = "'a life \<Rightarrow> (life_exn + 'r) \<times> 'a life"

definition retL :: "'r \<Rightarrow> ('a, 'r) lact" where "retL x s = (Inr x, s)"
definition raiseL :: "life_exn \<Rightarrow> ('a, 'r) lact" where "raiseL e s = (Inl e, s)"
definition liftL :: "life_exn + 'r \<Rightarrow> ('a, 'r) lact" where "liftL x s = (x, s)"

definition bindL :: "('a, 'r) lact \<Rightarrow> ('r \<Rightarrow> ('a, 'q) lact) \<Rightarrow> ('a, 'q) lact" where
  "bindL f g s = (case f s of (Inl e, s1) \<Rightarrow> (Inl e, s1) | (Inr x, s1) \<Rightarrow> g x s1)"

definition damaged :: "'r option \<Rightarrow> life_exn + 'r" where
  "damaged x = (case x of None \<Rightarrow> Inl (Le_seal Damaged) | Some y \<Rightarrow> Inr y)"

text \<open>What the methods on files and boxes raise, as exceptions of the store.\<close>

definition from_store :: "store_exn + 'r \<Rightarrow> life_exn + 'r" where
  "from_store x = (case x of Inr y \<Rightarrow> Inr y | Inl St_locked \<Rightarrow> Inl Le_locked | Inl St_not_found \<Rightarrow> Inl Le_store
     | Inl St_value \<Rightarrow> Inl Le_value | Inl St_damaged \<Rightarrow> Inl (Le_seal Damaged) | Inl St_exists \<Rightarrow> Inl Le_os)"

definition fileL :: "place \<Rightarrow> fname \<Rightarrow> 'a life \<Rightarrow> 'a list option" where
  "fileL p f s = Option.bind (tree_at p (li_root s)) (\<lambda>t. dget t f)"

definition emitL :: "'a lop \<Rightarrow> 'a life \<Rightarrow> 'a life" where
  "emitL op s = s\<lparr>li_root := do_lop op (li_root s), li_log := li_log s @ [op]\<rparr>"

definition doL :: "'a lop \<Rightarrow> ('a, unit) lact" where "doL op s = (Inr (), emitL op s)"

definition putL :: "'a lenv \<Rightarrow> place \<Rightarrow> fname \<Rightarrow> 'a list \<Rightarrow> ('a, unit) lact" where
  "putL E p f b s = (case le_fault E (length (li_log s)) of
      No_fault \<Rightarrow> (Inr (), emitL (Put p f b) s)
    | Fails_before \<Rightarrow> (Inl Le_os, s)
    | Fails_after \<Rightarrow> (Inl Le_os, emitL (Put p f b) s))"

text \<open>\<^verbatim>\<open>_remove_tree\<close>: one file after another, then the directory.\<close>

definition remove_tree :: "place \<Rightarrow> 'a life \<Rightarrow> 'a life" where
  "remove_tree p s = (case tree_at p (li_root s) of
      None \<Rightarrow> s
    | Some t \<Rightarrow> emitL (Rm_tree p) (foldl (\<lambda>s f. emitL (Del p f) s) s (map fst t)))"

definition draw_key :: "'a lenv \<Rightarrow> ('a, 'a list) lact" where
  "draw_key E s = (Inr (le_key E (li_draws s)), s\<lparr>li_draws := Suc (li_draws s)\<rparr>)"

definition draw_nonce :: "'a lenv \<Rightarrow> ('a, 'a list) lact" where
  "draw_nonce E s = (Inr (le_nonce E (li_draws s)), s\<lparr>li_draws := Suc (li_draws s)\<rparr>)"

definition draw_seed :: "('a, nat) lact" where
  "draw_seed s = (Inr (li_draws s), s\<lparr>li_draws := Suc (li_draws s)\<rparr>)"

text \<open>The machine at this moment; asking is a call too.\<close>

definition look :: "'a lenv \<Rightarrow> ('a, machine) lact" where
  "look E s = (Inr (bk_machine (le_bk E) (li_calls s)), s\<lparr>li_calls := Suc (li_calls s)\<rparr>)"

subsection \<open>Sealing and unsealing the two keys\<close>

definition cred_name :: "'a lenv \<Rightarrow> kfile \<Rightarrow> string" where
  "cred_name E k = ''pear.'' @ (if k = Cred_secret then ''secret'' else ''list'') @ ''.u'' @ map char_of (dec (le_uid E))"

definition seal_key :: "'a lenv \<Rightarrow> kfile \<Rightarrow> 'a list \<Rightarrow> ('a, 'a list) lact" where
  "seal_key E k key s = ((case bk_encrypt (le_bk E) (li_calls s) (cred_name E k) key of Inl e \<Rightarrow> Inl (Le_unavailable e) | Inr b \<Rightarrow> Inr b),
     s\<lparr>li_calls := Suc (li_calls s)\<rparr>)"

definition open_cred :: "'a lenv \<Rightarrow> kfile \<Rightarrow> 'a list \<Rightarrow> ('a, 'a list) lact" where
  "open_cred E k blob s = ((case bk_decrypt (le_bk E) (li_calls s) (cred_name E k) blob of
      Inl Uf_refused \<Rightarrow> Inl Le_refused | Inl (Uf_fail e) \<Rightarrow> Inl (Le_unavailable e) | Inr b \<Rightarrow> Inr b),
     s\<lparr>li_calls := Suc (li_calls s)\<rparr>)"

definition verify_blob :: "'a lenv \<Rightarrow> kfile \<Rightarrow> 'a list \<Rightarrow> 'a list \<Rightarrow> ('a, unit) lact" where
  "verify_blob E k blob want s = (case open_cred E k blob s of
      (Inl Le_refused, s1) \<Rightarrow> (Inl (Le_seal Damaged), s1)
    | (Inl e, s1) \<Rightarrow> (Inl e, s1)
    | (Inr got, s1) \<Rightarrow> (if got \<noteq> want then Inl (Le_seal Damaged) else Inr (), s1))"

definition unseal :: "'a lenv \<Rightarrow> kfile \<Rightarrow> 'a list \<Rightarrow> ('a, 'a list) lact" where
  "unseal E k blob = (bindL (open_cred E k blob)
    (\<lambda>key. if length key \<noteq> KEY_BYTES then raiseL (Le_seal Damaged) else retL key))"

text \<open>The fresh blobs of \<^verbatim>\<open>create\<close> and of a rotation, read back before anything depends on them.\<close>

definition seal_both :: "'a lenv \<Rightarrow> 'a list \<Rightarrow> 'a list \<Rightarrow> ('a, 'a list \<times> 'a list) lact" where
  "seal_both E rk sk = (bindL (seal_key E Cred_list rk)
    (\<lambda>bl. bindL (seal_key E Cred_secret sk)
    (\<lambda>bs. bindL (verify_blob E Cred_list bl rk)
    (\<lambda>_. bindL (verify_blob E Cred_secret bs sk)
    (\<lambda>_. retL (bl, bs))))))"

definition key_type_of :: "'a lenv \<Rightarrow> 'a list \<Rightarrow> ('a, key_kind) lact" where
  "key_type_of E blob = liftL (case bk_key_type (le_bk E) blob of Inl e \<Rightarrow> Inl (Le_unavailable e) | Inr k \<Rightarrow> Inr k)"

definition fingerprint :: "'a lenv \<Rightarrow> ('a, string option) lact" where
  "fingerprint E = (bindL (look E)
    (\<lambda>m. retL (srk_fingerprint (le_fpr E) m)))"

subsection \<open>Reading the small files\<close>

definition keys_json :: "'a lenv \<Rightarrow> place \<Rightarrow> 'a life \<Rightarrow> life_exn + (string \<times> json) list option" where
  "keys_json E p s = (case fileL p (Key Keys_json) s of
      None \<Rightarrow> Inr None
    | Some b \<Rightarrow> (case p_loads (box_lib E) b of Some (JObj d) \<Rightarrow> Inr (Some d) | _ \<Rightarrow> Inl (Le_seal Damaged)))"

definition has_keys :: "'a life \<Rightarrow> bool" where
  "has_keys s \<longleftrightarrow> fileL Home (Key Keys_json) s \<noteq> None \<or> fileL Home (Key Cred_list) s \<noteq> None"

definition text_of :: "json option \<Rightarrow> ustr option" where
  "text_of j = (case j of Some (JStr t) \<Rightarrow> Some t | _ \<Rightarrow> None)"

definition why_refused :: "'a lenv \<Rightarrow> (string \<times> json) list \<Rightarrow> ('a, seal_kind) lact" where
  "why_refused E kj = (bindL (look E)
    (\<lambda>m. retL (classify_refusal (le_fpr E) m (text_of (jget kj ''sealed_with'')) (text_of (jget kj ''tpm_srk_fp'')))))"

subsection \<open>Unlocking\<close>

definition KFILES :: "kfile list" where "KFILES = [Cred_list, Cred_secret, Keys_json]"

text \<open>Going back to the blobs of before an old re-seal; \<open>None\<close>: there is nothing to go back to.\<close>

definition rollback :: "'a lenv \<Rightarrow> place \<Rightarrow> ('a, 'a list option) lact" where
  "rollback E p s =
     (if list_ex (\<lambda>k. fileL p (Prev k) s = None) KFILES then (Inr None, s)
      else (case unseal E Cred_list (the (fileL p (Prev Cred_list) s)) s of
          (Inl Le_refused, s1) \<Rightarrow> (Inr None, s1)
        | (Inl (Le_seal k), s1) \<Rightarrow> (Inr None, s1)
        | (Inl e, s1) \<Rightarrow> (Inl e, s1)
        | (Inr rk, s1) \<Rightarrow> (Inr (Some rk), foldl (\<lambda>s k. emitL (Rename p (Prev k) (Key k)) s) s1 KFILES)))"

definition unseal_list :: "'a lenv \<Rightarrow> place \<Rightarrow> ('a, 'a list) lact" where
  "unseal_list E p s = (case keys_json E p s of
      Inl e \<Rightarrow> (Inl e, s)
    | Inr kj \<Rightarrow>
        (let blob = fileL p (Key Cred_list) s;
             back = (\<lambda>s1. case rollback E p s1 of
               (Inl e, s2) \<Rightarrow> (Inl e, s2)
             | (Inr (Some rk), s2) \<Rightarrow> (Inr rk, s2)
             | (Inr None, s2) \<Rightarrow> (case (kj, blob) of
                 (Some d, Some b) \<Rightarrow> bindL (why_refused E d) (\<lambda>k. raiseL (Le_seal k)) s2
               | _ \<Rightarrow> (Inl (Le_seal Damaged), s2))) in
         case (kj, blob) of
           (Some d, Some b) \<Rightarrow> (case unseal E Cred_list b s of (Inl Le_refused, s1) \<Rightarrow> back s1 | r \<Rightarrow> r)
         | _ \<Rightarrow> back s))"

text \<open>What an unlock reads once the list key is there.\<close>

definition read_loaded :: "'a lenv \<Rightarrow> place \<Rightarrow> 'a list \<Rightarrow> 'a life \<Rightarrow> life_exn + 'a loaded" where
  "read_loaded E p rk s =
     bindE (damaged (derive (le_lib E) rk)) (\<lambda>sub.
     bindE (damaged (pk_from_record (le_lib E) (sk_meta sub) (fileL p Pub s))) (\<lambda>pk.
     bindE (from_store (read_text (le_lib E) (sk_meta sub) KIND_META (le_uid E) ''meta.v2'' (fileL p Meta_v2 s))) (\<lambda>text.
     bindE (damaged (Option.bind text (fl_doc_read (le_lib E)))) (\<lambda>d.
     bindE (from_store (load_nicknames (le_lib E) (sk_nicknames sub) (le_uid E) (fileL p Nicknames_v2 s))) (\<lambda>nick.
     Inr \<lparr>ld_rk = rk, ld_sub = sub, ld_pk = pk, ld_doc = d, ld_nick = nick\<rparr>)))))"

definition load_keys :: "'a lenv \<Rightarrow> place \<Rightarrow> ('a, 'a loaded) lact" where
  "load_keys E p = (bindL (unseal_list E p)
    (\<lambda>rk. (\<lambda>s. (read_loaded E p rk s, s))))"

definition drop_prev :: "place \<Rightarrow> 'a life \<Rightarrow> 'a life" where
  "drop_prev p s = (if list_ex (\<lambda>k. fileL p (Key k) s = None \<or> fileL p (New k) s \<noteq> None) KFILES then s
     else foldl (\<lambda>s k. if fileL p (Prev k) s = None then s else emitL (Del p (Prev k)) s) s KFILES)"

definition unlock :: "'a lenv \<Rightarrow> ('a, unit) lact" where
  "unlock E s =
     (if li_keys s \<noteq> None then (Inr (), s)
      else if \<not> has_keys s then (Inl Le_store, s)
      else (case load_keys E Home (remove_tree Rot s) of
          (Inl (Le_seal k), s1) \<Rightarrow> (Inl (Le_seal k), s1\<lparr>li_fail := Some k\<rparr>)
        | (Inl e, s1) \<Rightarrow> (Inl e, s1)
        | (Inr ld, s1) \<Rightarrow> (Inr (), drop_prev Home (s1\<lparr>li_keys := Some ld, li_fail := None\<rparr>))))"

definition lock_keys :: "'a life \<Rightarrow> 'a life" where "lock_keys s = s\<lparr>li_keys := None\<rparr>"

subsection \<open>Writing\<close>

definition sealed_bytes :: "'a lenv \<Rightarrow> 'a list \<Rightarrow> nat \<Rightarrow> string \<Rightarrow> 'a list \<Rightarrow> ('a, 'a list) lact" where
  "sealed_bytes E key kind name text = (bindL (draw_nonce E)
    (\<lambda>nonce. liftL (case encrypt (le_lib E) key kind (le_uid E) name nonce text of None \<Rightarrow> Inl Le_value | Some b \<Rightarrow> Inr b)))"

definition write_doc :: "'a lenv \<Rightarrow> place \<Rightarrow> 'a subkeys \<Rightarrow> 'a list doc \<Rightarrow> ('a, unit) lact" where
  "write_doc E p sub d = (bindL (sealed_bytes E (sk_meta sub) KIND_META ''meta.v2'' (fl_doc_text (le_lib E) d))
    (\<lambda>b. putL E p Meta_v2 b))"

definition keys_doc :: "key_kind \<Rightarrow> string option \<Rightarrow> (string \<times> json) list" where
  "keys_doc k srk = [(''format'', JInt 2), (''sealed_with'', JStr (ascii (kind_name k)))] @
     (case srk of None \<Rightarrow> [] | Some f \<Rightarrow> if f = [] then [] else [(''tpm_srk_fp'', JStr (ascii f))])"

subsection \<open>A new store\<close>

text \<open>The files written before \<^verbatim>\<open>keys.json\<close>, with the exception if one of the writes failed and the names tried so far.\<close>

fun put_files :: "'a lenv \<Rightarrow> (fname \<times> 'a list) list \<Rightarrow> fname list \<Rightarrow> 'a life \<Rightarrow> (life_exn option \<times> fname list) \<times> 'a life" where
  "put_files E [] tried s = ((None, tried), s)"
| "put_files E ((f, b) # fs) tried s = (case putL E Home f b s of
     (Inl e, s1) \<Rightarrow> ((Some e, f # tried), s1) | (Inr _, s1) \<Rightarrow> put_files E fs (f # tried) s1)"

definition sealed_with :: "'a lenv \<Rightarrow> 'a list \<Rightarrow> 'a list \<Rightarrow> ('a, key_kind \<times> string option) lact" where
  "sealed_with E bl bs = (bindL (key_type_of E bl)
    (\<lambda>k. bindL (key_type_of E bs)
    (\<lambda>k2. if k2 \<noteq> k then raiseL (Le_unavailable Sf_unavailable)
     else if k = Key_host_tpm2 then bindL (fingerprint E) (\<lambda>f. retL (k, f)) else retL (k, None))))"

text \<open>All that comes before the first write: the blobs, what they are bound to, the keys derived, and the bytes of \<^verbatim>\<open>meta.v2\<close>.\<close>

definition prepare_store :: "'a lenv \<Rightarrow> 'a list \<Rightarrow> 'a list \<Rightarrow> ('a, ('a list \<times> 'a list) \<times> (key_kind \<times> string option) \<times> 'a subkeys) lact" where
  "prepare_store E rk sk = (bindL (seal_both E rk sk)
    (\<lambda>blobs. bindL (sealed_with E (fst blobs) (snd blobs))
    (\<lambda>bound. bindL (liftL (damaged (derive (le_lib E) rk)))
    (\<lambda>sub. retL (blobs, bound, sub)))))"

definition finish_store :: "'a lenv \<Rightarrow> 'a loaded \<Rightarrow> key_kind \<times> string option \<Rightarrow> fname list \<Rightarrow> 'a life \<Rightarrow> (life_exn option \<times> fname list) \<times> 'a life" where
  "finish_store E ld bound tried s0 =
     (let s = s0\<lparr>li_keys := Some ld\<rparr> in
      case write_doc E Home (ld_sub ld) (ld_doc ld) s of
        (Inl e, s1) \<Rightarrow> ((Some e, Meta_v2 # tried), s1)
      | (Inr _, s1) \<Rightarrow> (case putL E Home (Key Keys_json)
            (p_dumps (box_lib E) (JObj (keys_doc (fst bound) (snd bound) @ [(''created'', JFloat (le_now E))]))) s1 of
          (Inl e, s2) \<Rightarrow> ((Some e, Meta_v2 # tried), s2) | (Inr _, s2) \<Rightarrow> ((None, Meta_v2 # tried), s2)))"

definition create_body :: "'a lenv \<Rightarrow> 'a list \<Rightarrow> 'a list \<Rightarrow> 'a life \<Rightarrow> (life_exn option \<times> fname list) \<times> 'a life" where
  "create_body E rk sk s = (case prepare_store E rk sk s of
      (Inl e, s1) \<Rightarrow> ((Some e, []), s1)
    | (Inr (blobs, bound, sub), s1) \<Rightarrow>
        (let pk = p_public (box_lib E) sk in
         case put_files E [(Key Cred_list, fst blobs), (Key Cred_secret, snd blobs), (Pub, pk_record (le_lib E) (sk_meta sub) pk)] [] s1 of
           ((Some e, tried), s2) \<Rightarrow> ((Some e, tried), s2)
         | ((None, tried), s2) \<Rightarrow>
             finish_store E \<lparr>ld_rk = rk, ld_sub = sub, ld_pk = pk, ld_doc = empty_doc, ld_nick = []\<rparr> bound tried s2))"

text \<open>Nothing that was written stays, and a directory made for it goes if it is empty.\<close>

definition create_undo :: "bool \<Rightarrow> fname list \<Rightarrow> 'a life \<Rightarrow> 'a life" where
  "create_undo fresh tried s =
     (let s1 = foldl (\<lambda>s f. if fileL Home f s = None then s else emitL (Del Home f) s) (lock_keys s) (rev tried) in
      if fresh \<and> rt_home (li_root s1) = Some [] then emitL (Rm_tree Home) s1 else s1)"

definition create :: "'a lenv \<Rightarrow> ('a, unit) lact" where
  "create E s =
     (if has_keys s then (Inl Le_store, s)
      else (let fresh = (rt_home (li_root s) = None); s1 = emitL (Mk_dir Home) (s\<lparr>li_keys := None, li_fail := None, li_unseals := 0\<rparr>); rk = le_key E (li_draws s); sk = le_key E (Suc (li_draws s)) in
        case create_body E rk sk (s1\<lparr>li_draws := li_draws s1 + 2\<rparr>) of
          ((None, _), s2) \<Rightarrow> (Inr (), s2)
        | ((Some e, tried), s2) \<Rightarrow> (Inl e, create_undo fresh tried s2)))"

definition create_blocked :: "'a lenv \<Rightarrow> machine \<Rightarrow> bool" where
  "create_blocked E m \<longleftrightarrow> tpm_sealing_blocked (le_bk E) m \<and> tpm_present m"

subsection \<open>What can be told without a key\<close>

datatype store_state = Ss_empty | Ss_locked | Ss_unlocked | Ss_failed seal_kind

definition state_of :: "'a life \<Rightarrow> store_state" where
  "state_of s = (if li_keys s \<noteq> None then Ss_unlocked
     else case li_fail s of Some k \<Rightarrow> Ss_failed k | None \<Rightarrow> if has_keys s then Ss_locked else Ss_empty)"

text \<open>\<^verbatim>\<open>_keeps_nothing\<close>: a directory of history boxes stands for its boxes.\<close>

fun keeps_data :: "fname \<Rightarrow> bool" where
  "keeps_data Session_v2 = True" | "keeps_data Aliases_v2 = True" | "keeps_data Nicknames_v2 = True"
| "keeps_data (Entry_box i) = True" | "keeps_data (History_box i n) = True" | "keeps_data f = False"

definition keeps_nothing :: "'a tree \<Rightarrow> bool" where
  "keeps_nothing t \<longleftrightarrow> list_all (\<lambda>(f, b). \<not> keeps_data f) t"

definition keeps_no_data :: "'a life \<Rightarrow> bool" where
  "keeps_no_data s \<longleftrightarrow> \<not> has_keys s \<or> (case rt_home (li_root s) of None \<Rightarrow> True | Some t \<Rightarrow> keeps_nothing t)"

record store_report =
  ss_state :: store_state
  ss_signed_in :: bool
  ss_sealed_with :: "ustr option"
  ss_synced_at :: "real option option"
  ss_needs_login :: "bool option"

definition report_status :: "'a lenv \<Rightarrow> 'a life \<Rightarrow> store_report" where
  "report_status E s = (let st = state_of s;
       w = (case keys_json E Home s of Inr (Some d) \<Rightarrow> text_of (jget d ''sealed_with'') | _ \<Rightarrow> None) in
     \<lparr>ss_state = st, ss_signed_in = (st \<noteq> Ss_empty \<and> fileL Home Session_v2 s \<noteq> None),
      ss_sealed_with = (if w = Some (ascii ''host'') \<or> w = Some (ascii ''host+tpm2'') then w else None),
      ss_synced_at = (if st = Ss_unlocked then map_option (\<lambda>ld. d_synced_at (ld_doc ld)) (li_keys s) else None),
      ss_needs_login = (if st = Ss_unlocked then map_option (\<lambda>ld. d_needs_login (ld_doc ld)) (li_keys s) else None)\<rparr>)"

subsection \<open>Starting over\<close>

text \<open>The new object has nothing loaded; the copy set aside goes only when it held nothing and the caller allows it.\<close>

definition reset :: "'a lenv \<Rightarrow> bool \<Rightarrow> ('a, unit) lact" where
  "reset E discard_empty s =
     (let s0 = s\<lparr>li_keys := None, li_fail := None, li_unseals := 0\<rparr>;
          s1 = (case rt_home (li_root s) of
              None \<Rightarrow> s0
            | Some t \<Rightarrow> (let a = emitL Move_aside s0 in if discard_empty \<and> keeps_nothing t then emitL Drop_aside a else a)) in
      create E s1)"

datatype move_state = Mv_sealed | Mv_no_tpm | Mv_policy | Mv_available

definition tpm_move_state :: "'a lenv \<Rightarrow> ('a, move_state) lact" where
  "tpm_move_state E = (bindL ((\<lambda>s. (keys_json E Home s, s)))
    (\<lambda>kj. if (case kj of None \<Rightarrow> False | Some d \<Rightarrow> jget d ''sealed_with'' = Some (JStr (ascii ''host+tpm2''))) then retL Mv_sealed
     else bindL (look E) (\<lambda>m. retL (if \<not> tpm_present m then Mv_no_tpm
         else if tpm_sealing_blocked (le_bk E) m then Mv_policy else Mv_available))))"

subsection \<open>Rules\<close>

lemma bindL_Inr [simp]: "f s = (Inr x, s1) \<Longrightarrow> bindL f g s = g x s1"
  by (simp add: bindL_def)

lemma bindL_Inl [simp]: "f s = (Inl e, s1) \<Longrightarrow> bindL f g s = (Inl e, s1)"
  by (simp add: bindL_def)

lemma bindL_done: "bindL f g s = (Inr y, s2) \<longleftrightarrow> (\<exists>x s1. f s = (Inr x, s1) \<and> g x s1 = (Inr y, s2))"
  by (auto simp: bindL_def split: prod.splits sum.splits)

lemma act_simps [simp]:
  "retL x s = (Inr x, s)" "raiseL e s = (Inl e, s)" "liftL v s = (v, s)"
  by (simp_all add: retL_def raiseL_def liftL_def)

lemma tree_set [simp]:
  "tree_at p (set_tree p t r) = t" "p \<noteq> q \<Longrightarrow> tree_at p (set_tree q t r) = tree_at p r" "rt_aside (set_tree p t r) = rt_aside r"
  by (cases p; cases q; simp add: tree_at_def set_tree_def)+

lemma emitL_simps [simp]:
  "li_root (emitL op s) = do_lop op (li_root s)" "li_log (emitL op s) = li_log s @ [op]" "li_keys (emitL op s) = li_keys s"
  "li_fail (emitL op s) = li_fail s" "li_unseals (emitL op s) = li_unseals s" "li_draws (emitL op s) = li_draws s"
  "li_calls (emitL op s) = li_calls s"
  by (simp_all add: emitL_def)

lemma putL_done: "putL E p f b s = (Inr u, s1) \<longleftrightarrow> le_fault E (length (li_log s)) = No_fault \<and> s1 = emitL (Put p f b) s"
  by (auto simp: putL_def split: fault.splits)

lemma file_put: "tree_at p (li_root s) \<noteq> None \<Longrightarrow> fileL p g (emitL (Put p f b) s) = (if g = f then Some b else fileL p g s)"
  by (auto simp: fileL_def)

text \<open>Calls that leave the disk and the object alone.\<close>

definition same_disk :: "'a life \<Rightarrow> 'a life \<Rightarrow> bool" where
  "same_disk s s' \<longleftrightarrow> li_root s' = li_root s \<and> li_log s' = li_log s \<and> li_keys s' = li_keys s \<and> li_fail s' = li_fail s"

lemma same_disk_refl [simp]: "same_disk s s"
  by (simp add: same_disk_def)

lemma same_disk_trans: "same_disk s s1 \<Longrightarrow> same_disk s1 s2 \<Longrightarrow> same_disk s s2"
  by (simp add: same_disk_def)

text \<open>Every outcome of a method is related to where it started.\<close>

definition runs_in :: "('a life \<Rightarrow> 'a life \<Rightarrow> bool) \<Rightarrow> ('a, 'r) lact \<Rightarrow> bool" where
  "runs_in R f \<longleftrightarrow> (\<forall>s r s'. f s = (r, s') \<longrightarrow> R s s')"

lemma runs_inI: "(\<And>s r s'. f s = (r, s') \<Longrightarrow> R s s') \<Longrightarrow> runs_in R f"
  by (simp add: runs_in_def)

lemma runs_inD: "runs_in R f \<Longrightarrow> f s = (r, s') \<Longrightarrow> R s s'"
  by (simp add: runs_in_def)

lemma runs_in_mono: "runs_in R f \<Longrightarrow> (\<And>s s'. R s s' \<Longrightarrow> Q s s') \<Longrightarrow> runs_in Q f"
  by (auto simp: runs_in_def)

lemma runs_in_bind:
  assumes "\<And>a b c. R a b \<Longrightarrow> R b c \<Longrightarrow> R a c" and f: "runs_in R f" and g: "\<And>x. runs_in R (g x)"
  shows "runs_in R (bindL f g)"
proof (rule runs_inI)
  fix s r s' assume b: "bindL f g s = (r, s')"
  obtain x s1 where x: "f s = (x, s1)" by fastforce
  show "R s s'"
  proof (cases x)
    case (Inl e)
    then show ?thesis using b x runs_inD [OF f x] by simp
  next
    case (Inr y)
    then have "g y s1 = (r, s')" using b x by simp
    then show ?thesis using assms(1) runs_inD [OF f x] runs_inD [OF g] by blast
  qed
qed

abbreviation reads :: "('a, 'r) lact \<Rightarrow> bool" where "reads \<equiv> runs_in same_disk"

lemmas readsD = runs_inD [where R = same_disk]

lemma reads_bind: "reads f \<Longrightarrow> (\<And>x. reads (g x)) \<Longrightarrow> reads (bindL f g)"
  by (rule runs_in_bind [OF same_disk_trans])

lemma reads_simple: "reads (retL x)" "reads (raiseL e)" "reads (liftL v)" "reads (look E)" "reads (seal_key E k b)" "reads (open_cred E k b)"
    "reads (draw_nonce E)" "reads (draw_key E)" "reads draw_seed" "reads (\<lambda>s. (h s, s))"
  by (auto simp: runs_in_def same_disk_def look_def seal_key_def open_cred_def draw_nonce_def draw_key_def draw_seed_def)

lemma reads_if: "reads f \<Longrightarrow> reads g \<Longrightarrow> reads (if c then f else g)"
  by simp

lemma reads_verify: "reads (verify_blob E k b w)"
proof (rule runs_inI)
  fix s r s' assume v: "verify_blob E k b w s = (r, s')"
  obtain x s1 where x: "open_cred E k b s = (x, s1)" by fastforce
  have "s' = s1" using v x by (auto simp: verify_blob_def split: sum.split_asm life_exn.split_asm)
  then show "same_disk s s'" using x readsD [OF reads_simple(6)] by blast
qed

lemmas reads_rules = reads_bind reads_simple reads_if reads_verify

lemma reads_prepare: "reads (prepare_store E rk sk)"
  unfolding prepare_store_def seal_both_def sealed_with_def key_type_of_def fingerprint_def by (intro reads_rules)

lemma reads_unseal: "reads (unseal E k b)"
  unfolding unseal_def by (intro reads_rules)

lemma reads_sealed: "reads (sealed_bytes E key kind name t)"
  unfolding sealed_bytes_def by (intro reads_rules)

lemma sealed_bytes_done:
  assumes "sealed_bytes E key kind name t s = (Inr b, s1)"
  shows "encrypt (le_lib E) key kind (le_uid E) name (le_nonce E (li_draws s)) t = Some b \<and> same_disk s s1"
  using assms readsD [OF reads_sealed assms] by (auto simp: sealed_bytes_def draw_nonce_def bindL_def split: option.split_asm)

lemma read_sealed_bytes:
  assumes "flib_ok (le_lib E)" "\<forall>n. length (le_nonce E n) = NONCE_BYTES" "sealed_bytes E key kind name t s = (Inr b, s1)"
  shows "read_text (le_lib E) key kind (le_uid E) name (Some b) = Inr (Some t)"
  using decrypt_encrypted [OF assms(1) _ conjunct1 [OF sealed_bytes_done [OF assms(3)]], THEN iffD2] assms(2) by (simp add: read_text_def)

subsection \<open>A store that was made can be unlocked\<close>

text \<open>What \<^verbatim>\<open>create\<close> leaves when it succeeds: six changes, and blobs the backend has opened.\<close>

lemma verify_done:
  assumes "verify_blob E k b w s = (Inr u, s1)"
  shows "\<exists>n. bk_decrypt (le_bk E) n (cred_name E k) b = Inr w"
  using assms by (auto simp: verify_blob_def open_cred_def split: sum.split_asm unseal_fail.split_asm life_exn.split_asm if_split_asm)

lemma seal_both_done:
  assumes "seal_both E rk sk s = (Inr (bl, bs), s1)"
  shows "(\<exists>n. bk_decrypt (le_bk E) n (cred_name E Cred_list) bl = Inr rk) \<and> (\<exists>n. bk_decrypt (le_bk E) n (cred_name E Cred_secret) bs = Inr sk)"
  using assms by (auto simp: seal_both_def bindL_done dest: verify_done)

lemma prepare_done:
  assumes "prepare_store E rk sk s = (Inr (blobs, bound, sub), s1)"
  shows "(\<exists>n. bk_decrypt (le_bk E) n (cred_name E Cred_list) (fst blobs) = Inr rk) \<and> derive (le_lib E) rk = Some sub \<and> same_disk s s1"
  using assms readsD [OF reads_prepare assms] seal_both_done [of E rk sk s "fst blobs" "snd blobs"]
  by (auto simp: prepare_store_def bindL_done damaged_def split: option.split_asm)

lemma put_files_done:
  assumes "put_files E fs tried s = ((None, tried'), s')"
  shows "s' = foldl (\<lambda>s (f, b). emitL (Put Home f b) s) s fs"
  using assms by (induction fs arbitrary: tried s) (auto simp: putL_def split: fault.split_asm)

lemma finish_done:
  assumes "finish_store E ld bound tried s = ((None, tried'), s')"
  shows "\<exists>b js t. encrypt (le_lib E) (sk_meta (ld_sub ld)) KIND_META (le_uid E) ''meta.v2'' (le_nonce E t) (fl_doc_text (le_lib E) (ld_doc ld)) = Some b \<and>
    li_log s' = li_log s @ [Put Home Meta_v2 b, Put Home (Key Keys_json) (p_dumps (box_lib E) (JObj js))] \<and>
    li_root s' = do_lop (Put Home (Key Keys_json) (p_dumps (box_lib E) (JObj js))) (do_lop (Put Home Meta_v2 b) (li_root s)) \<and>
    li_keys s' = Some ld \<and> json_wf (JObj js) \<and> li_fail s' = li_fail s"
proof -
  let ?s = "s\<lparr>li_keys := Some ld\<rparr>" and ?js = "keys_doc (fst bound) (snd bound) @ [(''created'', JFloat (le_now E))]"
  obtain s1 where w: "write_doc E Home (ld_sub ld) (ld_doc ld) ?s = (Inr (), s1)"
      and k: "putL E Home (Key Keys_json) (p_dumps (box_lib E) (JObj ?js)) s1 = (Inr (), s')"
    using assms by (auto simp: finish_store_def Let_def split: prod.split_asm sum.split_asm)
  obtain b s2 where b: "sealed_bytes E (sk_meta (ld_sub ld)) KIND_META ''meta.v2'' (fl_doc_text (le_lib E) (ld_doc ld)) ?s = (Inr b, s2)"
      and m: "putL E Home Meta_v2 b s2 = (Inr (), s1)"
    using w by (auto simp: write_doc_def bindL_done)
  have d: "same_disk ?s s2" and e: "encrypt (le_lib E) (sk_meta (ld_sub ld)) KIND_META (le_uid E) ''meta.v2'' (le_nonce E (li_draws ?s))
      (fl_doc_text (le_lib E) (ld_doc ld)) = Some b" using sealed_bytes_done [OF b] by blast+
  have wf: "json_wf (JObj ?js)" by (auto simp: keys_doc_def split: option.split)
  show ?thesis
    using m k d e wf by (intro exI [of _ b] exI [of _ ?js] exI [of _ "li_draws ?s"]) (simp add: putL_done same_disk_def)
qed

lemma create_done:
  assumes "create E s = (Inr (), s')"
  shows "\<exists>bl bs sub b js t. let rk = le_key E (li_draws s); sk = le_key E (Suc (li_draws s)); pk = p_public (box_lib E) sk;
       ops = [Mk_dir Home, Put Home (Key Cred_list) bl, Put Home (Key Cred_secret) bs, Put Home Pub (pk_record (le_lib E) (sk_meta sub) pk),
         Put Home Meta_v2 b, Put Home (Key Keys_json) (p_dumps (box_lib E) (JObj js))] in
     (\<exists>n. bk_decrypt (le_bk E) n (cred_name E Cred_list) bl = Inr rk) \<and> derive (le_lib E) rk = Some sub \<and>
     encrypt (le_lib E) (sk_meta sub) KIND_META (le_uid E) ''meta.v2'' (le_nonce E t) (fl_doc_text (le_lib E) empty_doc) = Some b \<and>
     li_log s' = li_log s @ ops \<and> li_root s' = foldl (\<lambda>r op. do_lop op r) (li_root s) ops \<and>
     li_keys s' = Some \<lparr>ld_rk = rk, ld_sub = sub, ld_pk = pk, ld_doc = empty_doc, ld_nick = []\<rparr> \<and> json_wf (JObj js) \<and> \<not> has_keys s \<and> li_fail s' = None"
proof -
  let ?rk = "le_key E (li_draws s)" and ?sk = "le_key E (Suc (li_draws s))"
  let ?s1 = "(emitL (Mk_dir Home) (s\<lparr>li_keys := None, li_fail := None, li_unseals := 0\<rparr>))\<lparr>li_draws := li_draws s + 2\<rparr>"
  obtain tried where body: "create_body E ?rk ?sk ?s1 = ((None, tried), s')" and new: "\<not> has_keys s"
    using assms by (auto simp: create_def Let_def split: if_split_asm prod.split_asm option.split_asm)
  obtain bl bs bound sub s2 where prep: "prepare_store E ?rk ?sk ?s1 = (Inr ((bl, bs), bound, sub), s2)"
    using body by (auto simp: create_body_def split: prod.split_asm sum.split_asm)
  note p = prepare_done [OF prep]
  let ?pub = "pk_record (le_lib E) (sk_meta sub) (p_public (box_lib E) ?sk)"
  let ?ld = "\<lparr>ld_rk = ?rk, ld_sub = sub, ld_pk = p_public (box_lib E) ?sk, ld_doc = empty_doc, ld_nick = []\<rparr>"
  obtain tried2 s3 where puts: "put_files E [(Key Cred_list, bl), (Key Cred_secret, bs), (Pub, ?pub)] [] s2 = ((None, tried2), s3)"
      and fin: "finish_store E ?ld bound tried2 s3 = ((None, tried), s')"
    using body prep by (auto simp: create_body_def Let_def simp del: put_files.simps split: prod.split_asm option.split_asm)
  have s3: "s3 = emitL (Put Home Pub ?pub) (emitL (Put Home (Key Cred_secret) bs) (emitL (Put Home (Key Cred_list) bl) s2))"
    using put_files_done [OF puts] by simp
  obtain b js t where f: "encrypt (le_lib E) (sk_meta sub) KIND_META (le_uid E) ''meta.v2'' (le_nonce E t) (fl_doc_text (le_lib E) empty_doc) = Some b"
    "li_log s' = li_log s3 @ [Put Home Meta_v2 b, Put Home (Key Keys_json) (p_dumps (box_lib E) (JObj js))]"
    "li_root s' = do_lop (Put Home (Key Keys_json) (p_dumps (box_lib E) (JObj js))) (do_lop (Put Home Meta_v2 b) (li_root s3))"
    "li_keys s' = Some ?ld" "json_wf (JObj js)" "li_fail s' = li_fail s3"
    using finish_done [OF fin] by auto
  have s2: "li_root s2 = do_lop (Mk_dir Home) (li_root s)" "li_log s2 = li_log s @ [Mk_dir Home]"
    using p by (simp_all add: same_disk_def)
  have root: "li_root s' = foldl (\<lambda>r op. do_lop op r) (li_root s) [Mk_dir Home, Put Home (Key Cred_list) bl, Put Home (Key Cred_secret) bs,
      Put Home Pub ?pub, Put Home Meta_v2 b, Put Home (Key Keys_json) (p_dumps (box_lib E) (JObj js))]"
    unfolding f(3) s3 emitL_simps s2 by simp
  have lg: "li_log s' = li_log s @ [Mk_dir Home, Put Home (Key Cred_list) bl, Put Home (Key Cred_secret) bs,
      Put Home Pub ?pub, Put Home Meta_v2 b, Put Home (Key Keys_json) (p_dumps (box_lib E) (JObj js))]"
    unfolding f(2) s3 emitL_simps s2 by simp
  have fail: "li_fail s' = None" using p f(6) s3 by (simp add: same_disk_def)
  show ?thesis unfolding Let_def
    by (rule exI [of _ bl], rule exI [of _ bs], rule exI [of _ sub], rule exI [of _ b], rule exI [of _ js], rule exI [of _ t])
      (intro conjI p [THEN conjunct1, unfolded fst_conv] p [THEN conjunct2, THEN conjunct1] f(1) lg root f(4) f(5) new fail)
qed

lemma foldl_keeps: "(\<And>s x. h (g s x) = h s) \<Longrightarrow> h (foldl g s xs) = h s"
  by (induction xs arbitrary: s) auto

lemma remove_tree_keeps [simp]:
  "li_keys (remove_tree p s) = li_keys s" "li_fail (remove_tree p s) = li_fail s" "li_calls (remove_tree p s) = li_calls s"
  "li_draws (remove_tree p s) = li_draws s" "li_unseals (remove_tree p s) = li_unseals s"
  unfolding remove_tree_def by (auto split: option.split intro!: foldl_keeps)

lemma remove_tree_other: "p \<noteq> q \<Longrightarrow> tree_at q (li_root (remove_tree p s)) = tree_at q (li_root s)"
  unfolding remove_tree_def by (auto split: option.split intro: foldl_keeps [where h = "\<lambda>s. tree_at q (li_root s)"])

lemma remove_tree_file: "p \<noteq> q \<Longrightarrow> fileL q f (remove_tree p s) = fileL q f s"
  by (simp add: fileL_def remove_tree_other)

lemma drop_prev_keeps [simp]: "li_keys (drop_prev p s) = li_keys s" "li_fail (drop_prev p s) = li_fail s" "li_calls (drop_prev p s) = li_calls s"
  unfolding drop_prev_def by (auto intro!: foldl_keeps)

lemma read_loaded_cong: "(\<And>f. fileL p f s = fileL p f s') \<Longrightarrow> read_loaded E p rk s = read_loaded E p rk s'"
  by (simp add: read_loaded_def)

lemma unseal_stable:
  assumes "\<forall>n m name b. bk_decrypt (le_bk E) n name b = bk_decrypt (le_bk E) m name b"
    and "bk_decrypt (le_bk E) n (cred_name E k) b = Inr key" "length key = KEY_BYTES"
  shows "unseal E k b s = (Inr key, s\<lparr>li_calls := Suc (li_calls s)\<rparr>)"
proof -
  have "bk_decrypt (le_bk E) (li_calls s) (cred_name E k) b = Inr key" using assms(1,2) by metis
  then show ?thesis using assms(3) by (simp add: unseal_def open_cred_def)
qed

lemma unlock_works:
  assumes "li_keys s = None" "p_loads (box_lib E) js = Some (JObj kj)"
    and "fileL Home (Key Keys_json) s = Some js" "fileL Home (Key Cred_list) s = Some bl"
    and "\<forall>n m name b. bk_decrypt (le_bk E) n name b = bk_decrypt (le_bk E) m name b"
    and "bk_decrypt (le_bk E) n (cred_name E Cred_list) bl = Inr rk" "length rk = KEY_BYTES"
    and "read_loaded E Home rk s = Inr ld"
  shows "\<exists>s2. unlock E s = (Inr (), s2) \<and> li_keys s2 = Some ld \<and> li_fail s2 = None"
proof -
  let ?s = "remove_tree Rot s"
  have files: "fileL Home f ?s = fileL Home f s" for f by (rule remove_tree_file) simp
  have u: "unseal E Cred_list bl ?s = (Inr rk, ?s\<lparr>li_calls := Suc (li_calls ?s)\<rparr>)" by (rule unseal_stable [OF assms(5,6,7)])
  have l: "unseal_list E Home ?s = (Inr rk, ?s\<lparr>li_calls := Suc (li_calls ?s)\<rparr>)"
    using assms(2-4) files u by (simp add: unseal_list_def keys_json_def)
  have "read_loaded E Home rk (?s\<lparr>li_calls := Suc (li_calls ?s)\<rparr>) = Inr ld"
    using read_loaded_cong [of Home "?s\<lparr>li_calls := Suc (li_calls ?s)\<rparr>" s E rk] assms(8) files by (simp add: fileL_def)
  then have "load_keys E Home ?s = (Inr ld, ?s\<lparr>li_calls := Suc (li_calls ?s)\<rparr>)" using l by (simp add: load_keys_def)
  then show ?thesis using assms(1,3) by (simp add: unlock_def has_keys_def)
qed


subsection \<open>A store that could not be made\<close>

definition home_names :: "'a life \<Rightarrow> fname set" where
  "home_names s = (case rt_home (li_root s) of None \<Rightarrow> {} | Some t \<Rightarrow> fst ` set t)"

text \<open>The other directories stay; in this one only the names listed.\<close>

definition only_names :: "'a life \<Rightarrow> fname list \<Rightarrow> 'a life \<Rightarrow> bool" where
  "only_names s fs s' \<longleftrightarrow> rt_home (li_root s') \<noteq> None \<and> home_names s' \<subseteq> set fs \<and>
     rt_rot (li_root s') = rt_rot (li_root s) \<and> rt_aside (li_root s') = rt_aside (li_root s) \<and> li_fail s' = None"

lemma names_dset: "fst ` set (dset f b t) = insert f (fst ` set t)"
  by (induction t) (auto simp: dset_def)

lemma names_ddel: "fst ` set (ddel f t) = fst ` set t - {f}"
  by (auto simp: ddel_def AList.delete_eq)

lemma only_names_put: "only_names s fs s' \<Longrightarrow> only_names s (f # fs) (emitL (Put Home f b) s')"
  by (auto simp: only_names_def home_names_def set_tree_def tree_at_def names_dset split: option.split_asm)

lemma only_names_more: "only_names s fs s' \<Longrightarrow> only_names s (f # fs) s'"
  by (auto simp: only_names_def)

lemma only_names_same: "same_disk s1 s2 \<Longrightarrow> only_names s fs s1 \<Longrightarrow> only_names s fs s2"
  by (simp add: only_names_def same_disk_def home_names_def)

lemma only_names_try:
  assumes "putL E Home f b s1 = (r, s2)" "only_names s fs s1"
  shows "only_names s (f # fs) s2"
  using assms by (auto simp: putL_def intro: only_names_put only_names_more split: fault.split_asm)

lemma put_files_names:
  assumes "put_files E fs tried s1 = ((r, tried'), s2)" "only_names s tried s1"
  shows "only_names s tried' s2"
  using assms
proof (induction fs arbitrary: tried s1)
  case (Cons fb fs)
  obtain f b where fb: "fb = (f, b)" by fastforce
  obtain x s3 where x: "putL E Home f b s1 = (x, s3)" by fastforce
  have "only_names s (f # tried) s3" by (rule only_names_try [OF x Cons.prems(2)])
  then show ?case using Cons.prems(1) Cons.IH x fb by (cases x) auto
qed simp

lemma finish_names:
  assumes "finish_store E ld bound tried s1 = ((Some e, tried'), s2)" "only_names s tried s1" "\<forall>n. le_fault E n \<noteq> Fails_after"
  shows "only_names s tried' s2"
proof -
  let ?s = "s1\<lparr>li_keys := Some ld\<rparr>"
  have start: "only_names s tried ?s" using assms(2) by (simp add: only_names_def home_names_def)
  obtain x s3 where w: "write_doc E Home (ld_sub ld) (ld_doc ld) ?s = (x, s3)" by fastforce
  have w3: "only_names s (Meta_v2 # tried) s3"
  proof -
    obtain y s4 where y: "sealed_bytes E (sk_meta (ld_sub ld)) KIND_META ''meta.v2'' (fl_doc_text (le_lib E) (ld_doc ld)) ?s = (y, s4)" by fastforce
    have s4: "only_names s tried s4" by (rule only_names_same [OF readsD [OF reads_sealed y] start])
    show ?thesis
    proof (cases y)
      case (Inl e)
      then show ?thesis using w y s4 by (simp add: write_doc_def only_names_more)
    next
      case (Inr b)
      then have "putL E Home Meta_v2 b s4 = (x, s3)" using w y by (simp add: write_doc_def)
      then show ?thesis using s4 by (rule only_names_try)
    qed
  qed
  show ?thesis
  proof (cases x)
    case (Inl e)
    then show ?thesis using assms(1) w w3 by (simp add: finish_store_def)
  next
    case (Inr u)
    then have "tried' = Meta_v2 # tried \<and> s2 = s3"
      using assms(1,3) w by (auto simp: finish_store_def putL_def split: fault.split_asm)
    then show ?thesis using w3 by simp
  qed
qed

lemma create_body_names:
  assumes body: "create_body E rk sk s1 = ((Some e, tried), s2)" and start: "only_names s [] s1" and ok: "\<forall>n. le_fault E n \<noteq> Fails_after"
  shows "only_names s tried s2"
proof -
  obtain x s3 where x: "prepare_store E rk sk s1 = (x, s3)" by fastforce
  have s3: "only_names s [] s3" by (rule only_names_same [OF readsD [OF reads_prepare x] start])
  show ?thesis
  proof (cases x)
    case (Inl e')
    then show ?thesis using body x s3 by (simp add: create_body_def)
  next
    case (Inr y)
    obtain bl bs bound sub where y: "y = ((bl, bs), bound, sub)" by (metis surj_pair)
    let ?pk = "p_public (box_lib E) sk"
    obtain o' tried2 s4 where puts: "put_files E [(Key Cred_list, bl), (Key Cred_secret, bs), (Pub, pk_record (le_lib E) (sk_meta sub) ?pk)] [] s3 =
        ((o', tried2), s4)" by (metis prod.exhaust)
    have s4: "only_names s tried2 s4" by (rule put_files_names [OF puts s3])
    show ?thesis
    proof (cases o')
      case None
      then have "finish_store E \<lparr>ld_rk = rk, ld_sub = sub, ld_pk = ?pk, ld_doc = empty_doc, ld_nick = []\<rparr> bound tried2 s4 = ((Some e, tried), s2)"
        using body x Inr y puts by (simp add: create_body_def Let_def del: put_files.simps)
      then show ?thesis using s4 ok by (rule finish_names)
    next
      case (Some e')
      then show ?thesis using body x Inr y puts s4 by (simp add: create_body_def Let_def del: put_files.simps)
    qed
  qed
qed

lemma undo_fold:
  assumes "rt_home (li_root s) = Some t"
  shows "\<exists>t'. rt_home (li_root (foldl (\<lambda>s f. if fileL Home f s = None then s else emitL (Del Home f) s) s fs)) = Some t' \<and>
    fst ` set t' = fst ` set t - set fs \<and> rt_rot (li_root (foldl (\<lambda>s f. if fileL Home f s = None then s else emitL (Del Home f) s) s fs)) = rt_rot (li_root s) \<and>
    rt_aside (li_root (foldl (\<lambda>s f. if fileL Home f s = None then s else emitL (Del Home f) s) s fs)) = rt_aside (li_root s)"
  using assms
proof (induction fs arbitrary: s t)
  case (Cons f fs)
  show ?case
  proof (cases "fileL Home f s = None")
    case True
    then have "f \<notin> fst ` set t" using Cons.prems by (auto simp: fileL_def tree_at_def dget_def map_of_eq_None_iff)
    then show ?thesis using Cons.IH [OF Cons.prems] True by auto
  next
    case False
    then show ?thesis using Cons.IH [of "emitL (Del Home f) s" "ddel f t"] Cons.prems
      by (auto simp: set_tree_def tree_at_def names_ddel)
  qed
qed simp


subsection \<open>A machine that stops while a store is made\<close>

text \<open>The state a new process finds after the first \<open>k\<close> changes of a log that began on an empty place.\<close>

definition after_stop :: "'a life \<Rightarrow> 'a lop list \<Rightarrow> nat \<Rightarrow> 'a life" where
  "after_stop s ops k = s\<lparr>li_root := foldl (\<lambda>r op. do_lop op r) (li_root s) (take k ops), li_keys := None, li_fail := None, li_unseals := 0\<rparr>"

text \<open>
  \<^verbatim>\<open>keys.json\<close> comes last so that nobody relies on a directory without it; but a store of which only the list key was written already
  counts as one. When the machine stops after \<^verbatim>\<open>list.cred\<close> and before \<^verbatim>\<open>keys.json\<close>, the directory is "locked", never opens ("damaged"),
  and a new store is refused.
\<close>

theorem interrupted_create_is_no_store:
  fixes E :: "'a lenv"
  assumes "rt_home (li_root s) = None" "create E s = (Inr (), s1)" "2 \<le> k" "k \<le> 5"
    and ops: "li_log s1 = li_log s @ ops"
  shows "state_of (after_stop s ops k) = Ss_locked \<and> fst (unlock E (after_stop s ops k)) = Inl (Le_seal Damaged) \<and>
    fst (create E (after_stop s ops k)) = Inl Le_store"
proof -
  obtain bl bs b js and sub :: "'a subkeys" where lg: "li_log s1 = li_log s @ [Mk_dir Home, Put Home (Key Cred_list) bl, Put Home (Key Cred_secret) bs,
       Put Home Pub (pk_record (le_lib E) (sk_meta sub) (p_public (box_lib E) (le_key E (Suc (li_draws s))))),
       Put Home Meta_v2 b, Put Home (Key Keys_json) (p_dumps (box_lib E) (JObj js))]"
    using create_done [OF assms(2)] unfolding Let_def by (elim exE conjE) (rule that; assumption)
  note c = trans [OF ops [symmetric] lg, unfolded same_append_eq]
  let ?c = "after_stop s ops k"
  have home: "tree_at Home (li_root s) = None" using assms(1) by (simp add: tree_at_def)
  have k: "k = 2 \<or> k = 3 \<or> k = 4 \<or> k = 5" using assms(3,4) by auto
  have list: "fileL Home (Key Cred_list) ?c = Some bl"
    using k by (auto simp: fileL_def after_stop_def c home)
  have json: "fileL Home (Key Keys_json) ?c = None" and prev: "fileL Home (Prev q) ?c = None" for q
    using k by (auto simp: fileL_def after_stop_def c home)
  have has: "has_keys ?c" using list by (simp add: has_keys_def)
  let ?r = "remove_tree Rot ?c"
  have "fileL Home f ?r = fileL Home f ?c" for f by (rule remove_tree_file) simp
  then have "load_keys E Home ?r = (Inl (Le_seal Damaged), ?r)"
    using json prev list by (simp add: load_keys_def unseal_list_def keys_json_def rollback_def KFILES_def)
  then have "fst (unlock E ?c) = Inl (Le_seal Damaged)" using has by (simp add: unlock_def after_stop_def)
  then show ?thesis using has by (simp add: state_of_def create_def after_stop_def)
qed

subsection \<open>A model of what is called\<close>

text \<open>Letters that say what they came from; a byte string of a length the code checks is padded to it.\<close>

datatype atom = A_byte nat | A_pad | A_rand nat | A_kdf "atom list" string | A_mac "atom list" "atom list"
  | A_hex "atom list" string "atom list" | A_aead "atom list" "atom list" "atom list" "atom list" | A_json json | A_doc
  | A_text ustr | A_box "atom list" "atom list" nat | A_public "atom list" | A_sha "atom list" | A_cred string "atom list"

definition atom_box :: "atom list boxlib" where
  "atom_box = \<lparr>p_dumps = (\<lambda>j. [A_json j]), p_loads = (\<lambda>b. case b of [A_json j] \<Rightarrow> Some (sort_json j) | _ \<Rightarrow> None),
     p_pad = (\<lambda>d. A_pad # d), p_unpad = (\<lambda>b. case b of A_pad # d \<Rightarrow> Some d | _ \<Rightarrow> None), p_seal = (\<lambda>pk d r. [A_box pk d r]),
     p_open = (\<lambda>sk b. case b of [A_box pk d r] \<Rightarrow> if pk = A_public sk # replicate 31 A_pad then Some d else None | _ \<Rightarrow> None),
     p_public = (\<lambda>sk. A_public sk # replicate 31 A_pad), p_hmac = (\<lambda>k l m. [A_hex k l m]), p_utf8 = (\<lambda>t. [A_text t]),
     p_str = (\<lambda>j. []), p_dict = (\<lambda>j. None)\<rparr>"

definition atom_lib :: "atom flib" where
  "atom_lib = \<lparr>fl_box = atom_box, fl_byte = A_byte, fl_enc = (\<lambda>k a n p. A_aead k a n p # replicate 15 A_pad),
     fl_dec = (\<lambda>k a n c. case c of A_aead k' a' n' p # _ \<Rightarrow> if k' = k \<and> a' = a \<and> n' = n then Some p else None | _ \<Rightarrow> None),
     fl_hkdf = (\<lambda>k i. A_kdf k i # replicate 31 A_pad), fl_hmac = (\<lambda>k m. A_mac k m # replicate 31 A_pad), fl_sha = (\<lambda>x. [A_sha x]),
     fl_doc_text = (\<lambda>d. [A_doc]), fl_doc_read = (\<lambda>t. if t = [A_doc] then Some empty_doc else None)\<rparr>"

lemma atom_lib_ok: "flib_ok atom_lib"
  by (auto simp: flib_ok_def boxlib_ok_def atom_lib_def atom_box_def inj_def MAC_BYTES_def KEY_BYTES_def)

definition atom_backend :: "key_kind \<Rightarrow> bool \<Rightarrow> atom list backend" where
  "atom_backend k tpm = \<lparr>bk_user = True, bk_encrypt = (\<lambda>n name pt. Inr [A_cred name pt]),
     bk_decrypt = (\<lambda>n name b. case b of [A_cred nm pt] \<Rightarrow> if nm = name then Inr pt else Inl Uf_refused | _ \<Rightarrow> Inl Uf_refused),
     bk_key_type = (\<lambda>b. Inr k),
     bk_machine = (\<lambda>n. \<lparr>mc_device = tpm, mc_has_tpm2 = Some 0, mc_exists = (\<lambda>p. False), mc_srk_pem = None\<rparr>)\<rparr>"

definition seal_env :: "key_kind \<Rightarrow> bool \<Rightarrow> atom lenv" where
  "seal_env k tpm = \<lparr>le_lib = atom_lib, le_bk = atom_backend k tpm, le_uid = 1000, le_key = (\<lambda>n. A_rand n # replicate 31 A_pad),
     le_nonce = (\<lambda>n. A_rand n # replicate 23 A_pad), le_now = 0, le_fpr = (\<lambda>b. []), le_fault = (\<lambda>n. No_fault)\<rparr>"

definition nobody :: "atom life" where
  "nobody = \<lparr>li_root = \<lparr>rt_home = None, rt_rot = None, rt_aside = []\<rparr>, li_log = [], li_keys = None, li_fail = None, li_unseals = 0,
     li_draws = 0, li_calls = 0\<rparr>"

lemma example_env_simps [simp]:
  "le_lib (seal_env k t) = atom_lib" "le_bk (seal_env k t) = atom_backend k t" "le_uid (seal_env k t) = 1000"
  "le_key (seal_env k t) n = A_rand n # replicate 31 A_pad" "le_nonce (seal_env k t) n = A_rand n # replicate 23 A_pad"
  "le_now (seal_env k t) = 0" "le_fault (seal_env k t) n = No_fault"
  "bk_encrypt (atom_backend k t) n name pt = Inr [A_cred name pt]" "bk_key_type (atom_backend k t) b = Inr k"
  "bk_decrypt (atom_backend k t) n name [A_cred nm pt] = (if nm = name then Inr pt else Inl Uf_refused)"
  by (simp_all add: seal_env_def atom_backend_def)

lemma example_opens [simp]: "open_cred (seal_env k t) q [A_cred (cred_name (seal_env k t) q) key] s = (Inr key, s\<lparr>li_calls := Suc (li_calls s)\<rparr>)"
  by (simp add: open_cred_def)

lemma example_seals [simp]: "seal_key (seal_env k t) q key s = (Inr [A_cred (cred_name (seal_env k t) q) key], s\<lparr>li_calls := Suc (li_calls s)\<rparr>)"
  by (simp add: seal_key_def)

lemma example_verifies [simp]: "verify_blob (seal_env k t) q [A_cred (cred_name (seal_env k t) q) key] key s = (Inr (), s\<lparr>li_calls := Suc (li_calls s)\<rparr>)"
  by (simp add: verify_blob_def)

lemma example_writes [simp]: "putL (seal_env k t) p f b s = (Inr (), emitL (Put p f b) s)"
  by (simp add: putL_def)

lemma example_derives [simp]: "length rk = KEY_BYTES \<Longrightarrow> derive atom_lib rk = Some \<lparr>sk_meta = fl_hkdf atom_lib rk ''pear/v2/meta'',
    sk_session = fl_hkdf atom_lib rk ''pear/v2/session'', sk_aliases = fl_hkdf atom_lib rk ''pear/v2/aliases'',
    sk_nicknames = fl_hkdf atom_lib rk ''pear/v2/nicknames'', sk_pwmac = fl_hkdf atom_lib rk ''pear/v2/pwmac''\<rparr>"
  by (simp add: derive_def)

lemma example_aad: "kind \<in> set KINDS \<Longrightarrow> CHR ''/'' \<notin> set name \<Longrightarrow> name \<noteq> [] \<Longrightarrow> \<exists>a. aad atom_lib kind 1000 name = Some a"
  by (simp add: aad_def)

lemma example_seals_file [simp]:
  "kind \<in> set KINDS \<Longrightarrow> CHR ''/'' \<notin> set name \<Longrightarrow> name \<noteq> [] \<Longrightarrow> sealed_bytes (seal_env k t) key kind name tx s =
   (Inr (the (encrypt atom_lib key kind 1000 name (A_rand (li_draws s) # replicate 23 A_pad) tx)), s\<lparr>li_draws := Suc (li_draws s)\<rparr>)"
  using example_aad [of kind name] by (auto simp: sealed_bytes_def draw_nonce_def encrypt_def)

lemma example_created: "fst (create (seal_env Key_host False) nobody) = Inr ()"
  by (simp add: create_def has_keys_def fileL_def nobody_def tree_at_def create_body_def prepare_store_def seal_both_def sealed_with_def key_type_of_def KEY_BYTES_def damaged_def
    Let_def finish_store_def write_doc_def KINDS_def)


lemma interrupted_create_is_no_store_witness:
  "\<exists>s1 ops. create (seal_env Key_host False) nobody = (Inr (), s1) \<and> li_log s1 = ops \<and>
    state_of (after_stop nobody ops 3) = Ss_locked \<and> fst (unlock (seal_env Key_host False) (after_stop nobody ops 3)) = Inl (Le_seal Damaged)"
proof -
  obtain s1 where made: "create (seal_env Key_host False) nobody = (Inr (), s1)" using example_created by (metis prod.collapse)
  have "li_log s1 = li_log nobody @ li_log s1" by (simp add: nobody_def)
  from interrupted_create_is_no_store [OF _ made _ _ this, of 3] show ?thesis using made by (auto simp: nobody_def)
qed


text \<open>
  The last write is the one that is not undone: when the directory's \<^verbatim>\<open>fsync\<close> fails after \<^verbatim>\<open>keys.json\<close> was renamed into place, the other
  files go and it stays, so what is left counts as a store and a new one is refused.
\<close>

definition fsync_env :: "atom lenv" where
  "fsync_env = (seal_env Key_host False)\<lparr>le_fault := (\<lambda>n. if n = 5 then Fails_after else No_fault)\<rparr>"

lemma keys_json_left_behind:
  "fst (create fsync_env nobody) = Inl Le_os \<and> state_of (snd (create fsync_env nobody)) = Ss_locked \<and>
   map_option (map fst) (rt_home (li_root (snd (create fsync_env nobody)))) = Some [Key Keys_json]"
proof -
  have lib: "le_lib fsync_env = atom_lib" "le_bk fsync_env = atom_backend Key_host False" "le_uid fsync_env = 1000"
      "le_key fsync_env n = A_rand n # replicate 31 A_pad" "le_nonce fsync_env n = A_rand n # replicate 23 A_pad"
      "le_fault fsync_env n = (if n = 5 then Fails_after else No_fault)" for n by (simp_all add: fsync_env_def)
  have sealed: "sealed_bytes fsync_env key KIND_META ''meta.v2'' tx s =
      (Inr (the (encrypt atom_lib key KIND_META 1000 ''meta.v2'' (A_rand (li_draws s) # replicate 23 A_pad) tx)), s\<lparr>li_draws := Suc (li_draws s)\<rparr>)" for key tx s
    using example_aad [of KIND_META "''meta.v2''"] by (auto simp: sealed_bytes_def draw_nonce_def encrypt_def KINDS_def lib)
  show ?thesis
    by (simp add: create_def has_keys_def fileL_def nobody_def tree_at_def create_body_def prepare_store_def seal_both_def sealed_with_def key_type_of_def
        Let_def seal_key_def verify_blob_def open_cred_def finish_store_def write_doc_def KEY_BYTES_def damaged_def putL_def sealed set_tree_def lib
        create_undo_def lock_keys_def state_of_def dset_def ddel_def dget_def)
qed

text \<open>The files of the store and the settings, with the same model.\<close>

lemma sealed_file_is_its_own_witness:
  "\<exists>blob. encrypt atom_lib [A_byte 7] KIND_META 1000 ''meta.v2'' (replicate 24 A_pad) [A_doc] = Some blob \<and>
     decrypt atom_lib [A_byte 7] KIND_META 1000 ''meta.v2'' blob = Some [A_doc] \<and>
     decrypt atom_lib [A_byte 7] KIND_SESSION 1000 ''session.v2'' blob = None \<and> decrypt atom_lib [A_byte 7] KIND_META 1001 ''meta.v2'' blob = None"
proof -
  obtain blob where b: "encrypt atom_lib [A_byte 7] KIND_META 1000 ''meta.v2'' (replicate 24 A_pad) [A_doc] = Some blob"
    using example_aad [of KIND_META "''meta.v2''"] by (auto simp: encrypt_def KINDS_def)
  show ?thesis
    using b sealed_file_is_its_own [OF atom_lib_ok _ b] by (simp add: NONCE_BYTES_def KIND_META_def KIND_SESSION_def)
qed

lemma settings_survive_witness:
  "validate_settings (load_settings atom_lib (Some (save_settings atom_lib (settings_dict (DEFAULT_SETTINGS\<lparr>idle_lock_s := 1800\<rparr>))))) =
     DEFAULT_SETTINGS\<lparr>idle_lock_s := 1800\<rparr>"
  by (rule settings_survive [OF atom_lib_ok]) (use default_settings_ok in \<open>simp add: settings_ok_def IDLE_LOCK_S_CHOICES_def\<close>)

end
