(* ===== verification/Rotation.thy ===== *)
theory Rotation
  imports Life
begin

text \<open>
  Moving a store to the TPM: \<^verbatim>\<open>reseal_if_tpm_available\<close> and \<^verbatim>\<open>_build_rotated\<close> of \<^verbatim>\<open>backend/icp/vstore/__init__.py\<close>. The whole store is
  written again under new keys beside the old one, read back through a second store object, and swapped in with one rename. The digests,
  the document, the session and the nicknames are compared as the code does; a directory of no boxes has no name in the model.
\<close>

subsection \<open>What is on the disk\<close>

text \<open>Names as \<^verbatim>\<open>os.listdir\<close> gives them, sorted with their ending.\<close>

definition entry_ids :: "'a tree \<Rightarrow> string list" where
  "entry_ids t = sort_key (\<lambda>i. i @ ''.box'') (concat (map (\<lambda>(f, b). case f of Entry_box i \<Rightarrow> [i] | _ \<Rightarrow> []) t))"

definition history_numbers :: "'a tree \<Rightarrow> string \<Rightarrow> nat list" where
  "history_numbers t i = sort (concat (map (\<lambda>(f, b). case f of History_box j n \<Rightarrow> if j = i then [n] else [] | _ \<Rightarrow> []) t))"

definition history_ids :: "'a tree \<Rightarrow> string list" where
  "history_ids t = sort (remdups (concat (map (\<lambda>(f, b). case f of History_box j n \<Rightarrow> [j] | _ \<Rightarrow> []) t)))"

definition history_names :: "'a tree \<Rightarrow> (string \<times> nat) list" where
  "history_names t = concat (map (\<lambda>i. map (Pair i) (history_numbers t i)) (history_ids t))"

definition home_tree :: "'a life \<Rightarrow> 'a tree" where
  "home_tree s = (case rt_home (li_root s) of None \<Rightarrow> [] | Some t \<Rightarrow> t)"

subsection \<open>The secret key\<close>

text \<open>\<^verbatim>\<open>_unseal_sk\<close>, for the store at either place; the counter is that of the daemon's own object.\<close>

definition release_sk :: "'a lenv \<Rightarrow> place \<Rightarrow> 'a list \<Rightarrow> ('a, 'a list) lact" where
  "release_sk E p pk s = (case fileL p (Key Cred_secret) s of
      None \<Rightarrow> (Inl (Le_seal Damaged), s)
    | Some blob \<Rightarrow> (case unseal E Cred_secret blob (if p = Home then s\<lparr>li_unseals := Suc (li_unseals s)\<rparr> else s) of
        (Inl Le_refused, s1) \<Rightarrow> (case keys_json E p s1 of
            Inl e \<Rightarrow> (Inl e, s1)
          | Inr kj \<Rightarrow> bindL (why_refused E (case kj of None \<Rightarrow> [] | Some d \<Rightarrow> d)) (\<lambda>k. raiseL (Le_seal k)) s1)
      | (Inl e, s1) \<Rightarrow> (Inl e, s1)
      | (Inr sk, s1) \<Rightarrow> (if p_public (box_lib E) sk \<noteq> pk then Inl (Le_seal Damaged) else Inr sk, s1)))"

subsection \<open>Copying the boxes\<close>

definition open_at :: "'a lenv \<Rightarrow> 'a list \<Rightarrow> place \<Rightarrow> fname \<Rightarrow> string \<Rightarrow> ('a, (string \<times> json) list) lact" where
  "open_at E sk p f i s = ((if \<not> store_valid_id (JStr (ascii i)) then Inl Le_value
     else case fileL p f s of None \<Rightarrow> Inl (Le_seal Damaged) | Some b \<Rightarrow> from_store (open_box (box_lib E) sk b i None)), s)"

definition digest :: "'a lenv \<Rightarrow> (string \<times> json) list \<Rightarrow> 'a list" where
  "digest E payload = fl_sha (le_lib E) (p_dumps (box_lib E) (JObj payload))"

definition copy_box :: "'a lenv \<Rightarrow> 'a list \<Rightarrow> 'a list \<Rightarrow> fname \<Rightarrow> string \<Rightarrow> ('a, (string \<times> json) list) lact" where
  "copy_box E sk_old pk f i = (bindL (open_at E sk_old Home f i)
    (\<lambda>payload. bindL draw_seed
    (\<lambda>r. bindL (putL E Rot f (seal (box_lib E) pk payload r))
    (\<lambda>_. retL payload))))"

definition new_macs :: "'a lenv \<Rightarrow> 'a subkeys \<Rightarrow> sdata \<Rightarrow> 'a list mrec \<Rightarrow> 'a list mrec" where
  "new_macs E sub x rec = rec\<lparr>r_pwmac := Some (pwmac (box_lib E) (sk_pwmac sub) (sd_password x)),
     r_smac := Some (smac (box_lib E) (sk_pwmac sub) (rest_canonical (box_lib E) x))\<rparr>"

type_synonym 'a wanted = "((fname \<times> string) \<times> 'a list) list"

definition copy_entry ::
  "'a lenv \<Rightarrow> 'a list \<Rightarrow> 'a list \<Rightarrow> 'a subkeys \<Rightarrow> string \<Rightarrow> 'a list doc \<times> 'a wanted \<Rightarrow> ('a, 'a list doc \<times> 'a wanted) lact" where
  "copy_entry E sk_old pk sub i dw = (bindL (copy_box E sk_old pk (Entry_box i) i)
    (\<lambda>payload. bindL ((case dget (d_entries (fst dw)) i of
        None \<Rightarrow> retL (fst dw)
      | Some rec \<Rightarrow> bindL (liftL (from_store (from_payload (box_lib E) payload)))
          (\<lambda>x. retL ((fst dw)\<lparr>d_entries := dset i (new_macs E sub x rec) (d_entries (fst dw))\<rparr>))))
    (\<lambda>d. retL (d, snd dw @ [((Entry_box i, i), digest E payload)]))))"

definition copy_old :: "'a lenv \<Rightarrow> 'a list \<Rightarrow> 'a list \<Rightarrow> string \<times> nat \<Rightarrow> 'a wanted \<Rightarrow> ('a, 'a wanted) lact" where
  "copy_old E sk_old pk i w = (bindL (copy_box E sk_old pk (History_box (fst i) (snd i)) (fst i))
    (\<lambda>payload. retL (w @ [((History_box (fst i) (snd i), fst i), digest E payload)])))"

fun each :: "('x \<Rightarrow> 'w \<Rightarrow> ('a, 'w) lact) \<Rightarrow> 'x list \<Rightarrow> 'w \<Rightarrow> ('a, 'w) lact" where
  "each f [] w = retL w"
| "each f (x # xs) w = bindL (f x w) (each f xs)"

text \<open>A MAC under the old key means nothing now.\<close>

definition forget_macs :: "'a wanted \<Rightarrow> 'a list doc \<Rightarrow> 'a list doc" where
  "forget_macs w d = d\<lparr>d_entries := map (\<lambda>(i, rec). (i, if (Entry_box i, i) \<in> set (map fst w) then rec
     else rec\<lparr>r_pwmac := None, r_smac := None\<rparr>)) (d_entries d)\<rparr>"

subsection \<open>The new store\<close>

definition new_blobs :: "'a lenv \<Rightarrow> 'a list \<Rightarrow> 'a list \<Rightarrow> ('a, ('a list \<times> 'a list) \<times> string option) lact" where
  "new_blobs E rk sk = (bindL (seal_both E rk sk)
    (\<lambda>blobs. bindL (key_type_of E (fst blobs))
    (\<lambda>k. bindL ((if k \<noteq> Key_host_tpm2 then raiseL (Le_unavailable Sf_unavailable) else retL ()))
    (\<lambda>_. bindL (key_type_of E (snd blobs))
    (\<lambda>k2. bindL ((if k2 \<noteq> Key_host_tpm2 then raiseL (Le_unavailable Sf_unavailable) else retL ()))
    (\<lambda>_. bindL (fingerprint E)
    (\<lambda>srk. retL (blobs, srk))))))))"

definition write_session :: "'a lenv \<Rightarrow> 'a subkeys \<Rightarrow> (string \<times> json) list \<Rightarrow> ('a, unit) lact" where
  "write_session E sub d = (if d = [] then retL () else (bindL (sealed_bytes E (sk_session sub) KIND_SESSION ''session.v2'' (field_text (le_lib E) ''session'' (JObj d)))
    (\<lambda>b. putL E Rot Session_v2 b)))"

definition session_at :: "'a lenv \<Rightarrow> place \<Rightarrow> 'a subkeys \<Rightarrow> ('a, (string \<times> json) list) lact" where
  "session_at E p sub s = (from_store (load_session (le_lib E) (sk_session sub) (le_uid E) (fileL p Session_v2 s)), s)"

definition move_aliases :: "'a lenv \<Rightarrow> 'a subkeys \<Rightarrow> 'a subkeys \<Rightarrow> ('a, unit) lact" where
  "move_aliases E old sub s = (case fileL Home Aliases_v2 s of
      None \<Rightarrow> (Inr (), s)
    | Some b \<Rightarrow> bindL (liftL (from_store (load_aliases (le_lib E) (sk_aliases old) (le_uid E) (Some b)))) (\<lambda>xs.
        bindL (sealed_bytes E (sk_aliases sub) KIND_ALIASES ''aliases.v2'' (field_text (le_lib E) ''aliases'' (JList xs)))
          (putL E Rot Aliases_v2)) s)"

definition move_nicknames :: "'a lenv \<Rightarrow> 'a subkeys \<Rightarrow> (string \<times> ustr) list \<Rightarrow> ('a, unit) lact" where
  "move_nicknames E sub nick s = (if fileL Home Nicknames_v2 s = None then (Inr (), s)
     else bindL (sealed_bytes E (sk_nicknames sub) KIND_NICKNAMES ''nicknames.v2'' (nicknames_text (le_lib E) nick)) (putL E Rot Nicknames_v2) s)"

definition move_plain :: "'a lenv \<Rightarrow> fname \<Rightarrow> ('a, unit) lact" where
  "move_plain E f s = (case fileL Home f s of None \<Rightarrow> (Inr (), s) | Some b \<Rightarrow> putL E Rot f b s)"

definition rotated_keys :: "'a lenv \<Rightarrow> (string \<times> json) list \<Rightarrow> string option \<Rightarrow> (string \<times> json) list" where
  "rotated_keys E kj srk =
     (let d = dset ''sealed_with'' (JStr (ascii ''host+tpm2'')) (dset ''format'' (JInt 2) (ddel ''tpm_srk_fp'' kj));
          d2 = (case srk of None \<Rightarrow> d | Some f \<Rightarrow> if f = [] then d else dset ''tpm_srk_fp'' (JStr (ascii f)) d) in
      dset ''rotated'' (JFloat (le_now E)) d2)"

definition write_rotated ::
  "'a lenv \<Rightarrow> 'a loaded \<Rightarrow> (string \<times> json) list \<Rightarrow> 'a list \<Rightarrow> 'a list \<Rightarrow> 'a list \<Rightarrow> 'a subkeys \<Rightarrow>
   ('a, ('a list doc \<times> 'a wanted) \<times> (string \<times> json) list) lact" where
  "write_rotated E ld kj sk_old rk sk sub = (bindL (doL (Mk_dir Rot))
    (\<lambda>_. bindL (new_blobs E rk sk)
    (\<lambda>new. bindL (putL E Rot (Key Cred_list) (fst (fst new)))
    (\<lambda>_. bindL (putL E Rot (Key Cred_secret) (snd (fst new)))
    (\<lambda>_. bindL (putL E Rot Pub (pk_record (le_lib E) (sk_meta sub) (p_public (box_lib E) sk)))
    (\<lambda>_. bindL ((\<lambda>s. (Inr (home_tree s), s)))
    (\<lambda>t. bindL (each (copy_entry E sk_old (p_public (box_lib E) sk) sub) (entry_ids t) (ld_doc ld, []))
    (\<lambda>dw. bindL (each (copy_old E sk_old (p_public (box_lib E) sk)) (history_names t) (snd dw))
    (\<lambda>w. bindL (write_doc E Rot sub (forget_macs (snd dw) (fst dw)))
    (\<lambda>_. bindL (session_at E Home (ld_sub ld))
    (\<lambda>sess. bindL (write_session E sub sess)
    (\<lambda>_. bindL (move_aliases E (ld_sub ld) sub)
    (\<lambda>_. bindL (move_nicknames E sub (ld_nick ld))
    (\<lambda>_. bindL (move_plain E Device_json)
    (\<lambda>_. bindL (move_plain E State_json)
    (\<lambda>_. bindL (putL E Rot (Key Keys_json) (p_dumps (box_lib E) (JObj (rotated_keys E kj (snd new)))))
    (\<lambda>_. retL ((forget_macs (snd dw) (fst dw), w), sess))))))))))))))))))"

subsection \<open>Reading it back\<close>

text \<open>Equality of Python's dicts.\<close>

definition same_dict :: "('k \<times> 'v) list \<Rightarrow> ('k \<times> 'v) list \<Rightarrow> bool" where
  "same_dict a b \<longleftrightarrow> list_all (\<lambda>k. dget a k = dget b k) (map fst a @ map fst b)"

definition same_doc :: "'b doc \<Rightarrow> 'b doc \<Rightarrow> bool" where
  "same_doc a b \<longleftrightarrow> d_synced_at a = d_synced_at b \<and> d_needs_login a = d_needs_login b \<and> same_dict (d_entries a) (d_entries b)"

definition same_json :: "(string \<times> json) list \<Rightarrow> (string \<times> json) list \<Rightarrow> bool" where
  "same_json a b \<longleftrightarrow> sort_json (JObj a) = sort_json (JObj b)"

definition digest_back :: "'a lenv \<Rightarrow> 'a list \<Rightarrow> fname \<times> string \<Rightarrow> 'a list list \<Rightarrow> ('a, 'a list list) lact" where
  "digest_back E sk fi got = bindL (open_at E sk Rot (fst fi) (snd fi)) (\<lambda>payload. retL (got @ [digest E payload]))"

definition read_rotated :: "'a lenv \<Rightarrow> 'a loaded \<Rightarrow> ('a list doc \<times> 'a wanted) \<times> (string \<times> json) list \<Rightarrow> ('a, unit) lact" where
  "read_rotated E ld made = (bindL ((\<lambda>s. (if fileL Rot (Key Keys_json) s = None \<and> fileL Rot (Key Cred_list) s = None then Inl Le_store else Inr (), s)))
    (\<lambda>_. bindL (load_keys E Rot)
    (\<lambda>new. bindL ((\<lambda>s. (Inr (), drop_prev Rot s)))
    (\<lambda>_. bindL (release_sk E Rot (ld_pk new))
    (\<lambda>sk. bindL (each (digest_back E sk) (map fst (snd (fst made))) [])
    (\<lambda>got. bindL (session_at E Rot (ld_sub new))
    (\<lambda>sess. if got = map snd (snd (fst made)) \<and> same_doc (ld_doc new) (fst (fst made)) \<and> same_json sess (snd made) \<and>
         same_dict (ld_nick new) (ld_nick ld) then retL () else raiseL Le_store)))))))"

definition build_rotated ::
  "'a lenv \<Rightarrow> 'a loaded \<Rightarrow> (string \<times> json) list \<Rightarrow> 'a list \<Rightarrow> 'a list \<Rightarrow> 'a list \<Rightarrow> 'a subkeys \<Rightarrow> ('a, 'a list doc) lact" where
  "build_rotated E ld kj sk_old rk sk sub = (bindL (write_rotated E ld kj sk_old rk sk sub)
    (\<lambda>made. bindL (read_rotated E ld made)
    (\<lambda>_. retL (fst (fst made)))))"

subsection \<open>The move\<close>

text \<open>What the two \<^verbatim>\<open>except\<close> clauses catch.\<close>

definition store_failure :: "life_exn \<Rightarrow> bool" where
  "store_failure e \<longleftrightarrow> e \<noteq> Le_refused \<and> e \<noteq> Le_value"

definition finish_rotation :: "'a lenv \<Rightarrow> 'a loaded \<Rightarrow> 'a loaded \<Rightarrow> ('a, bool) lact" where
  "finish_rotation E ld new s = (case le_fault E (length (li_log s)) of
      Fails_before \<Rightarrow> (Inr False, remove_tree Rot s)
    | Fails_after \<Rightarrow> (Inl Le_os, emitL Swap s)
    | No_fault \<Rightarrow> (Inr True, (remove_tree Rot (emitL Swap s))\<lparr>li_keys := Some new\<rparr>))"

definition rotate_store :: "'a lenv \<Rightarrow> 'a loaded \<Rightarrow> (string \<times> json) list \<Rightarrow> ('a, bool) lact" where
  "rotate_store E ld kj s = (case release_sk E Home (ld_pk ld) (remove_tree Rot s) of
      (Inl e, s1) \<Rightarrow> (if store_failure e then Inr False else Inl e, s1)
    | (Inr sk_old, s1) \<Rightarrow>
       (let rk = le_key E (li_draws s1); sk = le_key E (Suc (li_draws s1)); s2 = s1\<lparr>li_draws := li_draws s1 + 2\<rparr> in
        case derive (le_lib E) rk of
          None \<Rightarrow> (Inl (Le_seal Damaged), s2)
        | Some sub \<Rightarrow> (case build_rotated E ld kj sk_old rk sk sub s2 of
            (Inl e, s3) \<Rightarrow> (if store_failure e \<or> e = Le_value then (Inr False, remove_tree Rot s3) else (Inl e, s3))
          | (Inr d, s3) \<Rightarrow> finish_rotation E ld
              \<lparr>ld_rk = rk, ld_sub = sub, ld_pk = p_public (box_lib E) sk, ld_doc = d, ld_nick = ld_nick ld\<rparr> s3)))"

definition reseal_if_tpm_available :: "'a lenv \<Rightarrow> ('a, bool) lact" where
  "reseal_if_tpm_available E s = (case li_keys s of
      None \<Rightarrow> (Inl Le_locked, s)
    | Some ld \<Rightarrow> (case keys_json E Home s of
        Inl e \<Rightarrow> (Inl e, s)
      | Inr kjo \<Rightarrow> (let kj = (case kjo of None \<Rightarrow> [] | Some d \<Rightarrow> d) in
          if jget kj ''sealed_with'' = Some (JStr (ascii ''host+tpm2'')) then (Inr False, s)
          else bindL (look E) (\<lambda>m. if \<not> tpm_present m then retL False else rotate_store E ld kj) s)))"

subsection \<open>Nothing but the copy is written\<close>

fun rot_op :: "'a lop \<Rightarrow> bool" where
  "rot_op (Mk_dir p) = (p = Rot)" | "rot_op (Put p f b) = (p = Rot)" | "rot_op (Del p f) = (p = Rot)"
| "rot_op (Rename p f g) = (p = Rot)" | "rot_op (Rm_tree p) = (p = Rot)" | "rot_op op = False"

abbreviation run_ops :: "'a lop list \<Rightarrow> 'a root \<Rightarrow> 'a root" where "run_ops ops r \<equiv> foldl (\<lambda>r op. do_lop op r) r ops"

lemma rot_op_home [simp]: "rot_op op \<Longrightarrow> rt_home (do_lop op r) = rt_home r \<and> rt_aside (do_lop op r) = rt_aside r"
  by (cases op) (auto simp: set_tree_def)

lemma rot_ops_home: "list_all rot_op ops \<Longrightarrow> rt_home (run_ops ops r) = rt_home r \<and> rt_aside (run_ops ops r) = rt_aside r"
  by (induction ops arbitrary: r) auto

text \<open>Every change made since is in the log, and of one kind.\<close>

definition changes :: "('a lop \<Rightarrow> bool) \<Rightarrow> 'a life \<Rightarrow> 'a life \<Rightarrow> bool" where
  "changes P s s' \<longleftrightarrow> li_keys s' = li_keys s \<and> li_fail s' = li_fail s \<and>
     (\<exists>ops. li_log s' = li_log s @ ops \<and> li_root s' = run_ops ops (li_root s) \<and> list_all P ops)"

lemma changes_refl [simp]: "changes P s s"
  by (simp add: changes_def)

lemma changes_trans:
  assumes "changes P s s1" "changes P s1 s2"
  shows "changes P s s2"
proof -
  obtain o1 where a: "li_log s1 = li_log s @ o1" "li_root s1 = run_ops o1 (li_root s)" "list_all P o1"
    using assms(1) by (auto simp: changes_def)
  obtain o2 where b: "li_log s2 = li_log s1 @ o2" "li_root s2 = run_ops o2 (li_root s1)" "list_all P o2"
    using assms(2) by (auto simp: changes_def)
  have "li_log s2 = li_log s @ (o1 @ o2) \<and> li_root s2 = run_ops (o1 @ o2) (li_root s) \<and> list_all P (o1 @ o2)"
    using a b by simp
  then show ?thesis using assms unfolding changes_def by metis
qed

lemma changes_same: "same_disk s s' \<Longrightarrow> changes P s s'"
  by (simp add: changes_def same_disk_def)

lemma changes_emit: "P op \<Longrightarrow> changes P s (emitL op s)"
  by (simp add: changes_def)

lemma changes_foldl: "(\<And>s x. changes P s (g s x)) \<Longrightarrow> changes P s (foldl g s xs)"
  by (induction xs arbitrary: s) (auto intro: changes_trans)

abbreviation rots :: "('a lop \<Rightarrow> bool) \<Rightarrow> ('a, 'r) lact \<Rightarrow> bool" where "rots P \<equiv> runs_in (changes P)"

lemma rots_reads: "reads f \<Longrightarrow> rots P f"
  by (rule runs_in_mono [where R = same_disk]) (auto intro: changes_same)

lemma rots_bind: "rots P f \<Longrightarrow> (\<And>x. rots P (g x)) \<Longrightarrow> rots P (bindL f g)"
  by (rule runs_in_bind [OF changes_trans])

lemma rots_bind_known: "rots P f \<Longrightarrow> (\<And>x s s1. f s = (Inr x, s1) \<Longrightarrow> rots P (g x)) \<Longrightarrow> rots P (bindL f g)"
  unfolding runs_in_def bindL_def by (auto split: prod.split_asm sum.split_asm) (metis changes_trans)

lemma rots_if: "rots P f \<Longrightarrow> rots P g \<Longrightarrow> rots P (if c then f else g)"
  by simp

lemma rots_option: "rots P f \<Longrightarrow> (\<And>x. rots P (g x)) \<Longrightarrow> rots P (case v of None \<Rightarrow> f | Some x \<Rightarrow> g x)"
  by (cases v) auto

lemma rots_each: "(\<And>x w. rots P (f x w)) \<Longrightarrow> rots P (each f xs w)"
  by (induction xs arbitrary: w) (auto intro: rots_bind rots_reads reads_simple)

lemma rots_why: "rots P (bindL (why_refused E d) (\<lambda>k. raiseL (Le_seal k)))"
  unfolding why_refused_def by (intro rots_reads reads_rules)

lemma reads_release: "reads (release_sk E p pk)"
proof (rule runs_inI)
  fix s r s' assume rel: "release_sk E p pk s = (r, s')"
  show "same_disk s s'"
  proof (cases "fileL p (Key Cred_secret) s")
    case None
    then show ?thesis using rel by (simp add: release_sk_def)
  next
    case (Some blob)
    let ?s = "if p = Home then s\<lparr>li_unseals := Suc (li_unseals s)\<rparr> else s"
    obtain x s1 where u: "unseal E Cred_secret blob ?s = (x, s1)" by fastforce
    have "same_disk s ?s" by (simp add: same_disk_def)
    then have s1: "same_disk s s1" using readsD [OF reads_unseal u] same_disk_trans by blast
    have why: "reads (bindL (why_refused E kj) (\<lambda>k. raiseL (Le_seal k)))" for kj
      unfolding why_refused_def by (intro reads_rules)
    show ?thesis
    proof (cases "x = Inl Le_refused")
      case False
      then have "s' = s1" using rel Some u by (cases x) (auto simp: release_sk_def split: life_exn.split_asm)
      then show ?thesis using s1 by simp
    next
      case True
      then show ?thesis using rel Some u s1
        by (auto simp: release_sk_def split: sum.split_asm intro: same_disk_trans dest!: readsD [OF why])
    qed
  qed
qed

lemma reads_open_at: "reads (open_at E sk p f i)" and reads_session: "reads (session_at E p sub)" and reads_macs: "reads (\<lambda>s. (h s, s))"
  by (auto simp: runs_in_def open_at_def session_at_def)

text \<open>What a backend seals the two keys to.\<close>

definition tpm_bound :: "'a lenv \<Rightarrow> 'a list \<Rightarrow> bool" where
  "tpm_bound E b \<longleftrightarrow> bk_key_type (le_bk E) b = Inr Key_host_tpm2"

lemma key_type_done: "key_type_of E b s = (Inr k, s1) \<longleftrightarrow> bk_key_type (le_bk E) b = Inr k \<and> s1 = s"
  by (auto simp: key_type_of_def split: sum.split)

lemma check_done: "(if c then raiseL e else retL ()) s = (Inr u, s1) \<longleftrightarrow> \<not> c \<and> s1 = s"
  by auto

lemma new_blobs_bound:
  assumes "new_blobs E rk sk s = (Inr ((bl, bs), srk), s1)"
  shows "tpm_bound E bl \<and> tpm_bound E bs"
  using assms by (auto simp: new_blobs_def bindL_done key_type_done check_done tpm_bound_def)

definition back_to :: "'a lenv \<Rightarrow> (string \<times> json) list option \<Rightarrow> 'a list option \<Rightarrow> ('a, 'a list) lact" where
  "back_to E kj blob s = (case rollback E Rot s of
      (Inl e, s2) \<Rightarrow> (Inl e, s2)
    | (Inr (Some rk), s2) \<Rightarrow> (Inr rk, s2)
    | (Inr None, s2) \<Rightarrow> (case (kj, blob) of
        (Some d, Some b) \<Rightarrow> bindL (why_refused E d) (\<lambda>k. raiseL (Le_seal k)) s2
      | _ \<Rightarrow> (Inl (Le_seal Damaged), s2)))"

lemma unseal_list_back: "unseal_list E Rot s = (case keys_json E Rot s of
      Inl e \<Rightarrow> (Inl e, s)
    | Inr kj \<Rightarrow> (case (kj, fileL Rot (Key Cred_list) s) of
         (Some d, Some b) \<Rightarrow> (case unseal E Cred_list b s of
            (Inl Le_refused, s1) \<Rightarrow> back_to E kj (fileL Rot (Key Cred_list) s) s1 | r \<Rightarrow> r)
       | _ \<Rightarrow> back_to E kj (fileL Rot (Key Cred_list) s) s))"
  unfolding unseal_list_def back_to_def Let_def ..

fun plain_name :: "fname \<Rightarrow> bool" where
  "plain_name (Key k) = (k = Keys_json)" | "plain_name (Prev k) = False" | "plain_name (New k) = False" | "plain_name f = True"

text \<open>The changes a move makes to its copy, each of a kind \<open>P\<close>.\<close>

locale rot_steps =
  fixes E :: "'a lenv" and P :: "'a lop \<Rightarrow> bool"
  assumes put: "plain_name f \<Longrightarrow> P (Put Rot f b)"
    and put_cred: "tpm_bound E b \<Longrightarrow> P (Put Rot (Key k) b)"
    and other: "P (Mk_dir Rot)" "P (Del Rot f)" "P (Rename Rot (Prev k) (Key k))" "P (Rm_tree Rot)"
begin

lemma remove_tree_rot: "changes P s (remove_tree Rot s)"
  unfolding remove_tree_def
  by (auto split: option.split intro!: changes_trans [OF changes_foldl changes_emit] changes_emit other)

lemma drop_prev_rot: "changes P s (drop_prev Rot s)"
  unfolding drop_prev_def by (auto intro!: changes_foldl changes_emit other)

lemma rots_op: "P (Put Rot f b) \<Longrightarrow> rots P (putL E Rot f b)"
  by (rule runs_inI) (auto simp: putL_def intro: changes_emit split: fault.split_asm)

lemma rots_put: "plain_name f \<Longrightarrow> rots P (putL E Rot f b)"
  by (intro rots_op put)

lemma rots_mkdir: "rots P (doL (Mk_dir Rot))"
  by (rule runs_inI) (auto simp: doL_def intro: changes_emit other)

lemma rollback_rot: "rots P (rollback E Rot)"
proof (rule runs_inI)
  fix s r s' assume rb: "rollback E Rot s = (r, s')"
  show "changes P s s'"
  proof (cases "list_ex (\<lambda>k. fileL Rot (Prev k) s = None) KFILES")
    case False
    obtain x s1 where u: "unseal E Cred_list (the (fileL Rot (Prev Cred_list) s)) s = (x, s1)" by fastforce
    have s1: "changes P s s1" by (rule changes_same [OF readsD [OF reads_unseal u]])
    show ?thesis
    proof (cases x)
      case (Inl e)
      then have "s' = s1" using rb False u by (auto simp: rollback_def split: life_exn.split_asm)
      then show ?thesis using s1 by simp
    next
      case (Inr rk)
      then have "s' = foldl (\<lambda>s k. emitL (Rename Rot (Prev k) (Key k)) s) s1 KFILES" using rb False u by (simp add: rollback_def)
      moreover have "changes P s1 (foldl (\<lambda>s k. emitL (Rename Rot (Prev k) (Key k)) s) s1 KFILES)"
        by (rule changes_foldl) (auto intro: changes_emit other)
      ultimately show ?thesis using s1 changes_trans by blast
    qed
  qed (use rb in \<open>simp add: rollback_def\<close>)
qed

lemma rots_back_to: "rots P (back_to E kj blob)"
proof (rule runs_inI)
  fix s r s' assume b: "back_to E kj blob s = (r, s')"
  obtain y s3 where y: "rollback E Rot s = (y, s3)" by fastforce
  have "changes P s3 s'"
  proof (cases y)
    case (Inr v)
    then show ?thesis using b y
      by (cases v; cases kj; cases blob) (auto simp: back_to_def dest: runs_inD [OF rots_why])
  qed (use b y in \<open>simp add: back_to_def\<close>)
  then show "changes P s s'" using runs_inD [OF rollback_rot y] changes_trans by blast
qed

lemma rots_unseal_list: "rots P (unseal_list E Rot)"
proof (rule runs_inI)
  fix s r s' assume ul: "unseal_list E Rot s = (r, s')"
  let ?blob = "fileL Rot (Key Cred_list) s"
  show "changes P s s'"
  proof (cases "keys_json E Rot s")
    case (Inl e)
    then show ?thesis using ul by (simp add: unseal_list_def)
  next
    case (Inr kj)
    show ?thesis
    proof (cases "kj \<noteq> None \<and> ?blob \<noteq> None")
      case True
      then obtain d b where db: "kj = Some d" "?blob = Some b" by auto
      obtain x s1 where u: "unseal E Cred_list b s = (x, s1)" by fastforce
      have s1: "changes P s s1" by (rule changes_same [OF readsD [OF reads_unseal u]])
      show ?thesis
      proof (cases "x = Inl Le_refused")
        case True
        then have "back_to E kj ?blob s1 = (r, s')" using ul Inr db u by (simp add: unseal_list_back)
        then show ?thesis using s1 changes_trans runs_inD [OF rots_back_to] by blast
      next
        case False
        then have "s' = s1" using ul Inr db u by (cases x) (auto simp: unseal_list_back split: life_exn.split_asm)
        then show ?thesis using s1 by simp
      qed
    next
      case False
      then have "back_to E kj ?blob s = (r, s')" using ul Inr by (cases kj; cases ?blob) (auto simp: unseal_list_back)
      then show ?thesis by (rule runs_inD [OF rots_back_to])
    qed
  qed
qed

lemma rots_load: "rots P (load_keys E Rot)"
  unfolding load_keys_def by (intro rots_bind rots_unseal_list rots_reads reads_simple)

lemma rots_copy_box: "plain_name f \<Longrightarrow> rots P (copy_box E sk pk f i)"
  unfolding copy_box_def by (intro rots_bind rots_put rots_reads reads_open_at reads_simple)

lemma rots_copy_entry: "rots P (copy_entry E sk pk sub i dw)"
  unfolding copy_entry_def by (intro rots_bind rots_copy_box rots_option) (simp_all add: rots_reads reads_rules)

lemma rots_copy_old: "rots P (copy_old E sk pk i w)"
  unfolding copy_old_def by (intro rots_bind rots_copy_box rots_reads reads_simple) simp_all

lemma rots_new_blobs: "rots P (new_blobs E rk sk)"
  unfolding new_blobs_def seal_both_def key_type_of_def fingerprint_def by (intro rots_reads reads_rules)

lemma rots_sealed: "plain_name f \<Longrightarrow> rots P (bindL (sealed_bytes E key kind name t) (putL E Rot f))"
  by (intro rots_bind rots_put rots_reads reads_sealed)

lemma rots_moves:
  "rots P (write_session E sub d)" "rots P (move_aliases E old sub)" "rots P (move_nicknames E sub nick)" "rots P (write_doc E Rot sub doc)"
proof -
  show "rots P (write_session E sub d)" "rots P (write_doc E Rot sub doc)"
    unfolding write_session_def write_doc_def by (intro rots_if rots_sealed rots_reads reads_simple; simp)+
  show "rots P (move_nicknames E sub nick)"
    using runs_inD [OF rots_sealed [of Nicknames_v2]] by (auto simp: move_nicknames_def split: if_split_asm intro!: runs_inI)
  have "rots P (bindL (liftL v) (\<lambda>xs. bindL (sealed_bytes E key kind name (t xs)) (putL E Rot Aliases_v2)))" for v key kind name t
    by (intro rots_bind [OF rots_reads [OF reads_simple(3)]] rots_sealed) simp_all
  from runs_inD [OF this] show "rots P (move_aliases E old sub)"
    by (auto simp: move_aliases_def split: option.split_asm intro!: runs_inI)
qed

lemma rots_move_plain: "plain_name f \<Longrightarrow> rots P (move_plain E f)"
  using runs_inD [OF rots_put [of f]] by (auto simp: move_plain_def split: option.split_asm intro!: runs_inI)

lemma rots_write: "rots P (write_rotated E ld kj sk_old rk sk sub)"
proof -
  have blobs: "rots P (bindL (new_blobs E rk sk) g)" if "\<And>new. tpm_bound E (fst (fst new)) \<Longrightarrow> tpm_bound E (snd (fst new)) \<Longrightarrow> rots P (g new)"
    for g :: "('a list \<times> 'a list) \<times> string option \<Rightarrow> ('a, ('a list doc \<times> 'a wanted) \<times> (string \<times> json) list) lact"
    by (rule rots_bind_known [OF rots_new_blobs]) (use new_blobs_bound that in \<open>metis prod.collapse\<close>)
  show ?thesis
    unfolding write_rotated_def
    by (intro rots_bind [OF rots_mkdir] blobs rots_bind [OF rots_op] put_cred; (intro rots_bind rots_put rots_each rots_copy_entry rots_copy_old
        rots_moves rots_move_plain rots_reads reads_session reads_macs reads_simple)?)
      (simp_all add: rots_reads reads_session put)
qed

lemma rots_read_back: "rots P (read_rotated E ld made)"
proof -
  have "rots P (\<lambda>s. (Inr (), drop_prev Rot s))" by (rule runs_inI) (auto intro: drop_prev_rot)
  moreover have "rots P (digest_back E sk fi got)" for sk fi got
    unfolding digest_back_def by (intro rots_reads reads_bind reads_open_at reads_simple)
  ultimately show ?thesis unfolding read_rotated_def
    by (intro rots_bind rots_load rots_each rots_if rots_reads [OF reads_release] rots_reads [OF reads_session] rots_reads [OF reads_macs]
        rots_reads [OF reads_simple(1)] rots_reads [OF reads_simple(2)]) auto
qed

lemma rots_build: "rots P (build_rotated E ld kj sk_old rk sk sub)"
  unfolding build_rotated_def by (intro rots_bind rots_write rots_read_back rots_reads reads_simple)

lemma rots_release: "release_sk E Home pk (remove_tree Rot s) = (x, s1) \<Longrightarrow> changes P s s1"
  using remove_tree_rot readsD [OF reads_release] changes_same changes_trans by metis

end

text \<open>Three kinds: on the copy only, no key but one bound to the TPM, and no old key beside the new one.\<close>

definition tpm_only :: "'a lenv \<Rightarrow> 'a lop \<Rightarrow> bool" where
  "tpm_only E op = (case op of Put p (Key k) b \<Rightarrow> k = Keys_json \<or> tpm_bound E b | _ \<Rightarrow> True)"

definition no_prev :: "'a lop \<Rightarrow> bool" where
  "no_prev op \<longleftrightarrow> rot_op op \<and> (case op of Put p (Prev k) b \<Rightarrow> False | Rename p f (Prev k) \<Rightarrow> False | _ \<Rightarrow> True)"

interpretation copied: rot_steps E rot_op for E :: "'a lenv"
  by unfold_locales simp_all

interpretation bound: rot_steps E "tpm_only E" for E :: "'a lenv"
  by unfold_locales (auto simp: tpm_only_def split: fname.split elim: plain_name.elims)

interpretation fresh: rot_steps E no_prev for E :: "'a lenv"
  by unfold_locales (auto simp: no_prev_def split: fname.split)

lemma changes_home: "changes rot_op s s' \<Longrightarrow> fileL Home f s' = fileL Home f s"
  by (auto simp: changes_def fileL_def tree_at_def rot_ops_home)

lemma changes_home_tree: "changes rot_op s s' \<Longrightarrow> rt_home (li_root s') = rt_home (li_root s)"
  by (auto simp: changes_def rot_ops_home)

subsection \<open>How a move can end\<close>

lemma reseal_ends:
  assumes "reseal_if_tpm_available E s = (r, s1)"
  shows "(r \<noteq> Inr True \<and> (\<forall>P. rot_steps E P \<longrightarrow> changes P s s1)) \<or>
    (\<exists>ld kj sk_old rk sk sub s0 s2 s3 d. li_keys s = Some ld \<and> same_disk s s0 \<and>
       (\<exists>s'. release_sk E Home (ld_pk ld) (remove_tree Rot s0) = (Inr sk_old, s') \<and> same_disk s' s2) \<and>
       build_rotated E ld kj sk_old rk sk sub s2 = (Inr d, s3) \<and>
       (r = Inr True \<and> s1 = (remove_tree Rot (emitL Swap s3))\<lparr>li_keys := Some \<lparr>ld_rk = rk, ld_sub = sub, ld_pk = p_public (box_lib E) sk,
          ld_doc = d, ld_nick = ld_nick ld\<rparr>\<rparr> \<or> r = Inl Le_os \<and> s1 = emitL Swap s3))"
    (is "?quiet s s1 \<or> ?swapped s")
proof (cases "li_keys s")
  case None
  then show ?thesis using assms by (auto simp: reseal_if_tpm_available_def)
next
  case (Some ld)
  show ?thesis
  proof (cases "(\<exists>s0 kj. same_disk s s0 \<and> rotate_store E ld kj s0 = (r, s1))")
    case False
    have "same_disk s s1 \<and> r \<noteq> Inr True"
      using assms Some False by (auto simp: reseal_if_tpm_available_def Let_def bindL_def look_def same_disk_def split: sum.split_asm if_split_asm)
    then show ?thesis using changes_same by blast
  next
    case True
    then obtain s0 kj where s0: "same_disk s s0" and rot: "rotate_store E ld kj s0 = (r, s1)" by blast
    obtain x s' where rel: "release_sk E Home (ld_pk ld) (remove_tree Rot s0) = (x, s')" by fastforce
    have s': "changes P s s'" if "rot_steps E P" for P
      using rot_steps.rots_release [OF that rel] changes_same [OF s0] changes_trans by blast
    show ?thesis
    proof (cases x)
      case (Inl e)
      then show ?thesis using rot rel s' by (auto simp: rotate_store_def split: if_split_asm)
    next
      case (Inr sk_old)
      let ?rk = "le_key E (li_draws s')" and ?sk = "le_key E (Suc (li_draws s'))" and ?s2 = "s'\<lparr>li_draws := li_draws s' + 2\<rparr>"
      have s2: "same_disk s' ?s2" by (simp add: same_disk_def)
      have c2: "changes P s ?s2" if "rot_steps E P" for P using s' [OF that] changes_same [OF s2] changes_trans by blast
      show ?thesis
      proof (cases "derive (le_lib E) ?rk")
        case None
        then show ?thesis using rot rel Inr c2 by (auto simp: rotate_store_def Let_def)
      next
        case (Some sub)
        obtain y s3 where build: "build_rotated E ld kj sk_old ?rk ?sk sub ?s2 = (y, s3)" by fastforce
        have s3: "changes P s s3" if "rot_steps E P" for P
          using rot_steps.rots_build [OF that, THEN runs_inD, OF build] c2 [OF that] changes_trans by blast
        have s4: "changes P s (remove_tree Rot s3)" if "rot_steps E P" for P
          using rot_steps.remove_tree_rot [OF that] s3 [OF that] changes_trans by blast
        show ?thesis
        proof (cases y)
          case (Inl e)
          then show ?thesis using rot rel Inr Some build s3 s4 by (auto simp: rotate_store_def Let_def split: if_split_asm)
        next
          case (Inr d)
          let ?new = "\<lparr>ld_rk = ?rk, ld_sub = sub, ld_pk = p_public (box_lib E) ?sk, ld_doc = d, ld_nick = ld_nick ld\<rparr>"
          have fin: "finish_rotation E ld ?new s3 = (r, s1)" using rot rel \<open>x = Inr sk_old\<close> Some build Inr by (simp add: rotate_store_def Let_def)
          show ?thesis
          proof (cases "le_fault E (length (li_log s3)) = Fails_before")
            case True
            then show ?thesis using fin s4 by (auto simp: finish_rotation_def)
          next
            case False
            then have "r = Inr True \<and> s1 = (remove_tree Rot (emitL Swap s3))\<lparr>li_keys := Some ?new\<rparr> \<or> r = Inl Le_os \<and> s1 = emitL Swap s3"
              using fin by (auto simp: finish_rotation_def split: fault.split_asm)
            then show ?thesis using \<open>li_keys s = Some ld\<close> s0 rel \<open>x = Inr sk_old\<close> s2 build Inr by blast
          qed
        qed
      qed
    qed
  qed
qed

lemma run_swap: "rt_home (do_lop Swap r) = rt_rot r" "rt_rot (do_lop Swap r) = rt_home r" "rt_aside (do_lop Swap r) = rt_aside r"
  by simp_all

lemma reseal_cases [consumes 1, case_names quiet swapped]:
  assumes "reseal_if_tpm_available E s = (r, s1)"
  obtains (quiet) "r \<noteq> Inr True" "\<forall>P. rot_steps E P \<longrightarrow> changes P s s1"
    | (swapped) ld kj sk_old rk sk sub s0 s' s2 s3 d where "li_keys s = Some ld" "same_disk s s0"
       "release_sk E Home (ld_pk ld) (remove_tree Rot s0) = (Inr sk_old, s')" "same_disk s' s2"
       "build_rotated E ld kj sk_old rk sk sub s2 = (Inr d, s3)"
       "r = Inr True \<and> s1 = (remove_tree Rot (emitL Swap s3))\<lparr>li_keys := Some \<lparr>ld_rk = rk, ld_sub = sub, ld_pk = p_public (box_lib E) sk,
          ld_doc = d, ld_nick = ld_nick ld\<rparr>\<rparr> \<or> r = Inl Le_os \<and> s1 = emitL Swap s3"
  using reseal_ends [OF assms] that by blast

text \<open>
  C7. A move is safe against a machine that stops: after any number of its changes the user's directory is the old store, untouched, or the
  new one, complete; it is the new one only when the move succeeded, or when the last \<^verbatim>\<open>fsync\<close> failed. Every key it writes is bound to the TPM.
\<close>

theorem rotation_crash_safe:
  assumes res: "reseal_if_tpm_available E s = (r, s1)" and ops: "li_log s1 = li_log s @ ops"
  shows "(rt_home (run_ops (take k ops) (li_root s)) = rt_home (li_root s) \<or>
      rt_home (run_ops (take k ops) (li_root s)) = rt_home (li_root s1) \<and> r \<in> {Inr True, Inl Le_os}) \<and>
    (r = Inr False \<longrightarrow> rt_home (li_root s1) = rt_home (li_root s) \<and> li_keys s1 = li_keys s) \<and>
    list_all (tpm_only E) ops"
  using res
proof (cases rule: reseal_cases)
  case quiet
  have rot: "changes rot_op s s1" and tpm: "changes (tpm_only E) s s1"
    using quiet(2) copied.rot_steps_axioms bound.rot_steps_axioms by blast+
  have r: "list_all rot_op ops" "list_all (tpm_only E) ops" using rot tpm ops by (auto simp: changes_def)
  then have "list_all rot_op (take k ops)" by (metis append_take_drop_id list_all_append)
  then show ?thesis using r(2) rot rot_ops_home changes_home_tree by (auto simp: changes_def)
next
  case (swapped ld kj sk_old rk sk sub s0 s' s2 s3 d)
  note s0 = swapped(2) and rel = swapped(3) and s2 = swapped(4) and build = swapped(5) and swapped = swapped(6)
  have to3: "changes P s s3" if "rot_steps E P" for P
    using changes_same [OF s0] rot_steps.rots_release [OF that rel] changes_same [OF s2] rot_steps.rots_build [OF that, THEN runs_inD, OF build]
      changes_trans by metis
  obtain o1 where o1: "li_log s3 = li_log s @ o1" "li_root s3 = run_ops o1 (li_root s)" "list_all rot_op o1"
    using to3 [OF copied.rot_steps_axioms] by (auto simp: changes_def)
  have t1: "list_all (tpm_only E) o1" using to3 [OF bound.rot_steps_axioms] o1(1) by (auto simp: changes_def)
  have "changes P (emitL Swap s3) (remove_tree Rot (emitL Swap s3))" if "rot_steps E P" for P by (rule rot_steps.remove_tree_rot [OF that])
  from this [OF copied.rot_steps_axioms] this [OF bound.rot_steps_axioms]
  obtain o2 where o2: "li_log s1 = li_log s @ o1 @ [Swap] @ o2" "li_root s1 = run_ops o2 (do_lop Swap (li_root s3))" "list_all rot_op o2"
      "list_all (tpm_only E) o2"
    using swapped o1(1) by (auto simp: changes_def)
  have split: "ops = o1 @ [Swap] @ o2" using ops o2(1) by simp
  have t: "list_all (tpm_only E) ops" using t1 o2(4) by (simp add: split tpm_only_def)
  have home: "rt_home (run_ops (take k ops) (li_root s)) = rt_home (li_root s) \<or> rt_home (run_ops (take k ops) (li_root s)) = rt_home (li_root s1)"
  proof (cases "k \<le> length o1")
    case True
    then have "list_all rot_op (take k ops)" using o1(3) by (simp add: split) (metis append_take_drop_id list_all_append)
    then show ?thesis using rot_ops_home by blast
  next
    case False
    then obtain j where j: "k = length o1 + Suc j" by (metis add_Suc_right less_imp_Suc_add not_le)
    have "take k ops = o1 @ [Swap] @ take j o2" by (simp add: split j)
    then have r: "run_ops (take k ops) (li_root s) = run_ops (take j o2) (do_lop Swap (li_root s3))" using o1(2) by (simp del: do_lop.simps)
    have "list_all rot_op (take j o2)" using o2(3) by (metis append_take_drop_id list_all_append)
    then show ?thesis using rot_ops_home o2(2,3) unfolding r by metis
  qed
  then show ?thesis using t swapped by auto
qed

subsection \<open>What a move has verified\<close>

lemma each_collects:
  assumes step: "\<And>x w w' s s'. x \<in> set xs \<Longrightarrow> f x w s = (Inr w', s') \<Longrightarrow> I s \<Longrightarrow> I s' \<and> h w \<subseteq> h w' \<and> (\<exists>z\<in>h w'. G x z)"
    and run: "each f xs w s = (Inr w', s')" and start: "I s"
  shows "I s' \<and> h w \<subseteq> h w' \<and> (\<forall>x\<in>set xs. \<exists>z\<in>h w'. G x z)"
  using assms
proof (induction xs arbitrary: w s)
  case (Cons x xs)
  obtain w1 s1 where 1: "f x w s = (Inr w1, s1)" and 2: "each f xs w1 s1 = (Inr w', s')"
    using Cons.prems(2) by (auto simp: bindL_done)
  have a: "I s1" "h w \<subseteq> h w1" "\<exists>z\<in>h w1. G x z" using Cons.prems(1) [OF _ 1 Cons.prems(3)] by auto
  have "I s' \<and> h w1 \<subseteq> h w' \<and> (\<forall>x\<in>set xs. \<exists>z\<in>h w'. G x z)"
  proof (rule Cons.IH [OF _ 2 a(1)])
    fix y v v' t t' assume y: "y \<in> set xs" "f y v t = (Inr v', t')" "I t"
    show "I t' \<and> h v \<subseteq> h v' \<and> (\<exists>z\<in>h v'. G y z)" by (rule Cons.prems(1) [OF _ y(2,3)]) (use y(1) in simp)
  qed
  then show ?case using a by auto
qed simp

definition opens_at :: "'a lenv \<Rightarrow> 'a list \<Rightarrow> place \<Rightarrow> 'a life \<Rightarrow> fname \<times> string \<Rightarrow> 'a list \<Rightarrow> bool" where
  "opens_at E sk p s fi h \<longleftrightarrow> (\<exists>b q. fileL p (fst fi) s = Some b \<and> open_box (box_lib E) sk b (snd fi) None = Inr q \<and> h = digest E q)"

lemma open_at_done:
  assumes "open_at E sk p f i s = (Inr q, s')"
  shows "opens_at E sk p s (f, i) (digest E q) \<and> s' = s"
proof -
  have x: "from_store x = Inr q \<Longrightarrow> x = Inr q" for x :: "store_exn + (string \<times> json) list"
    by (auto simp: from_store_def split: sum.split_asm store_exn.split_asm)
  show ?thesis using assms by (auto simp: open_at_def opens_at_def dest: x split: if_split_asm option.split_asm)
qed

lemma copy_box_done:
  assumes "copy_box E sk pk f i s = (Inr q, s')"
  shows "opens_at E sk Home s (f, i) (digest E q)"
  using assms open_at_done by (auto simp: copy_box_def bindL_done) blast

lemma copy_entry_done:
  assumes "copy_entry E sk pk sub i dw s = (Inr dw', s')"
  shows "\<exists>h. opens_at E sk Home s (Entry_box i, i) h \<and> snd dw' = snd dw @ [((Entry_box i, i), h)]"
  using assms by (auto simp: copy_entry_def bindL_done dest!: copy_box_done)

lemma copy_old_done:
  assumes "copy_old E sk pk x w s = (Inr w', s')"
  shows "\<exists>h. opens_at E sk Home s (History_box (fst x) (snd x), fst x) h \<and> w' = w @ [((History_box (fst x) (snd x), fst x), h)]"
  using assms by (auto simp: copy_old_def bindL_done dest!: copy_box_done)

lemma opens_at_cong: "(\<And>f. fileL p f s = fileL p f s') \<Longrightarrow> opens_at E sk p s = opens_at E sk p s'"
  by (intro ext) (simp add: opens_at_def)

lemma digest_back_done: "digest_back E sk fi got s = (Inr got', s') \<Longrightarrow> \<exists>q. open_at E sk Rot (fst fi) (snd fi) s = (Inr q, s') \<and> got' = got @ [digest E q]"
  by (auto simp: digest_back_def bindL_done)

lemma digests_back:
  assumes "each (digest_back E sk) fis got s = (Inr got', s')"
  shows "s' = s \<and> (\<exists>hs. got' = got @ hs \<and> list_all2 (opens_at E sk Rot s) fis hs)"
  using assms
proof (induction fis arbitrary: got s)
  case (Cons fi fis)
  obtain got1 s1 where "digest_back E sk fi got s = (Inr got1, s1)" and 3: "each (digest_back E sk) fis got1 s1 = (Inr got', s')"
    using Cons.prems by (auto simp: bindL_done)
  then obtain q where 1: "open_at E sk Rot (fst fi) (snd fi) s = (Inr q, s1)" and got1: "got1 = got @ [digest E q]"
    using digest_back_done by blast
  note 2 = 3 [unfolded got1]
  have a: "opens_at E sk Rot s fi (digest E q)" "s1 = s" using open_at_done [OF 1] by simp_all
  obtain hs where "s' = s" "got' = got @ [digest E q] @ hs" "list_all2 (opens_at E sk Rot s) fis hs"
    using Cons.IH [OF 2] a(2) by auto
  then show ?case using a(1) by (intro conjI exI [of _ "digest E q # hs"]) auto
qed simp

lemma in_entry_ids: "i \<in> set (entry_ids t) \<longleftrightarrow> dget t (Entry_box i) \<noteq> None"
proof -
  have "i \<in> set (entry_ids t) \<longleftrightarrow> Entry_box i \<in> fst ` set t"
    unfolding entry_ids_def by (induction t) (auto split: fname.splits)
  then show ?thesis by (simp add: dget_def map_of_eq_None_iff)
qed

lemma in_history_names: "(i, n) \<in> set (history_names t) \<longleftrightarrow> dget t (History_box i n) \<noteq> None"
proof -
  have "n \<in> set (history_numbers t i) \<longleftrightarrow> History_box i n \<in> fst ` set t"
    unfolding history_numbers_def by (induction t) (auto split: fname.splits)
  moreover have "History_box i n \<in> fst ` set t \<Longrightarrow> i \<in> set (history_ids t)"
    unfolding history_ids_def by (induction t) (auto split: fname.splits)
  ultimately have "(i, n) \<in> set (history_names t) \<longleftrightarrow> History_box i n \<in> fst ` set t"
    unfolding history_names_def by auto
  then show ?thesis by (simp add: dget_def map_of_eq_None_iff)
qed

text \<open>The writing, up to the copies of the boxes.\<close>

lemma write_rotated_parts:
  fixes E :: "'a lenv"
  assumes "write_rotated E ld kj sk_old rk sk sub s = (Inr ((d, w), sess), s')"
  shows "\<exists>dw s5 s6 s7. changes rot_op s s5 \<and>
    each (copy_entry E sk_old (p_public (box_lib E) sk) sub) (entry_ids (home_tree s)) (ld_doc ld, []) s5 = (Inr dw, s6) \<and>
    each (copy_old E sk_old (p_public (box_lib E) sk)) (history_names (home_tree s)) (snd dw) s6 = (Inr w, s7) \<and>
    d = forget_macs (snd dw) (fst dw)"
proof -
  obtain s1 new s2 s3 s4 s5 t0 s5' dw s6 w' s7 sess' s8 u1 u2 u3 u4 where
    st: "doL (Mk_dir Rot) s = (Inr u1, s1)" "new_blobs E rk sk s1 = (Inr new, s2)"
      "putL E Rot (Key Cred_list) (fst (fst new)) s2 = (Inr u2, s3)" "putL E Rot (Key Cred_secret) (snd (fst new)) s3 = (Inr u3, s4)"
      "putL E Rot Pub (pk_record (le_lib E) (sk_meta sub) (p_public (box_lib E) sk)) s4 = (Inr u4, s5)"
    and t0: "(Inr (home_tree s5) :: life_exn + 'a tree, s5) = (Inr t0, s5')"
    and e0: "each (copy_entry E sk_old (p_public (box_lib E) sk) sub) (entry_ids t0) (ld_doc ld, []) s5' = (Inr dw, s6)"
    and o0: "each (copy_old E sk_old (p_public (box_lib E) sk)) (history_names t0) (snd dw) s6 = (Inr w', s7)"
    and last: "retL ((forget_macs (snd dw) (fst dw), w'), sess') s8 = (Inr ((d, w), sess), s')"
    using assms(1) unfolding write_rotated_def bindL_done by (elim exE conjE) (rule that; assumption)
  have same: "t0 = home_tree s5" "s5' = s5" "w' = w" "d = forget_macs (snd dw) (fst dw)" using t0 last by auto
  note e = e0 [unfolded same(1-3)] and o = o0 [unfolded same(1-3)]
  have put: "changes rot_op t t'" if "putL E Rot g b t = (Inr u, t')" for g b t t' u
    using that by (auto simp: putL_def intro: changes_emit split: fault.split_asm)
  have ch: "changes rot_op s s5"
    using runs_inD [OF copied.rots_mkdir st(1)] runs_inD [OF copied.rots_new_blobs st(2)] put [OF st(3)] put [OF st(4)] put [OF st(5)] changes_trans
    by metis
  have t5: "home_tree s5 = home_tree s" using changes_home_tree [OF ch] by (simp add: home_tree_def)
  show ?thesis using ch e o unfolding t5 same(4) by blast
qed

text \<open>What was wanted of each box that was copied, in the state the copying began in.\<close>

lemma write_rotated_done:
  assumes "write_rotated E ld kj sk_old rk sk sub s = (Inr ((d, w), sess), s')" "dget (home_tree s) f \<noteq> None" "f = Entry_box i \<or> f = History_box i n"
  shows "\<exists>h. opens_at E sk_old Home s (f, i) h \<and> ((f, i), h) \<in> set w"
proof -
  let ?I = "\<lambda>t :: 'a life. rt_home (li_root t) = rt_home (li_root s)"
  have cong: "opens_at E sk_old Home t = opens_at E sk_old Home s" if "?I t" for t
    by (rule opens_at_cong) (use that in \<open>simp add: fileL_def tree_at_def\<close>)
  obtain dw s5 s6 s7 where s5: "?I s5" and e: "each (copy_entry E sk_old (p_public (box_lib E) sk) sub) (entry_ids (home_tree s)) (ld_doc ld, []) s5 = (Inr dw, s6)"
    and o: "each (copy_old E sk_old (p_public (box_lib E) sk)) (history_names (home_tree s)) (snd dw) s6 = (Inr w, s7)"
    using write_rotated_parts [OF assms(1)] changes_home_tree by blast
  have A: "?I s6 \<and> set (snd (ld_doc ld, [])) \<subseteq> set (snd dw) \<and>
      (\<forall>j\<in>set (entry_ids (home_tree s)). \<exists>z\<in>set (snd dw). fst z = (Entry_box j, j) \<and> opens_at E sk_old Home s (Entry_box j, j) (snd z))"
  proof (rule each_collects [where h = "\<lambda>dw. set (snd dw)" and I = ?I, OF _ e s5])
    fix j dw1 dw2 t t' assume c: "copy_entry E sk_old (p_public (box_lib E) sk) sub j dw1 t = (Inr dw2, t')" and t: "?I t"
    obtain h where "opens_at E sk_old Home s (Entry_box j, j) h" "snd dw2 = snd dw1 @ [((Entry_box j, j), h)]"
      using copy_entry_done [OF c] cong [OF t] by metis
    moreover have "?I t'" using changes_home_tree [OF runs_inD [OF copied.rots_copy_entry c]] t by simp
    ultimately show "?I t' \<and> set (snd dw1) \<subseteq> set (snd dw2) \<and>
        (\<exists>z\<in>set (snd dw2). fst z = (Entry_box j, j) \<and> opens_at E sk_old Home s (Entry_box j, j) (snd z))" by auto
  qed
  have B: "?I s7 \<and> set (snd dw) \<subseteq> set w \<and>
      (\<forall>x\<in>set (history_names (home_tree s)). \<exists>z\<in>set w. fst z = (History_box (fst x) (snd x), fst x) \<and>
         opens_at E sk_old Home s (History_box (fst x) (snd x), fst x) (snd z))"
  proof (rule each_collects [where h = set and I = ?I, OF _ o A [THEN conjunct1]])
    fix x w1 w2 t t' assume c: "copy_old E sk_old (p_public (box_lib E) sk) x w1 t = (Inr w2, t')" and t: "?I t"
    obtain h where "opens_at E sk_old Home s (History_box (fst x) (snd x), fst x) h" "w2 = w1 @ [((History_box (fst x) (snd x), fst x), h)]"
      using copy_old_done [OF c] cong [OF t] by metis
    moreover have "?I t'" using changes_home_tree [OF runs_inD [OF copied.rots_copy_old c]] t by simp
    ultimately show "?I t' \<and> set w1 \<subseteq> set w2 \<and> (\<exists>z\<in>set w2. fst z = (History_box (fst x) (snd x), fst x) \<and>
        opens_at E sk_old Home s (History_box (fst x) (snd x), fst x) (snd z))" by auto
  qed
  show ?thesis
  proof (cases "f = Entry_box i")
    case True
    then have "i \<in> set (entry_ids (home_tree s))" using assms(2) by (simp add: in_entry_ids)
    then obtain z where z: "z \<in> set (snd dw)" "fst z = (Entry_box i, i)" "opens_at E sk_old Home s (Entry_box i, i) (snd z)" using A by blast
    have "z \<in> set w" using B z(1) by blast
    then have "((Entry_box i, i), snd z) \<in> set w" using z(2) by (metis prod.collapse)
    with z(3) have "\<exists>h. opens_at E sk_old Home s (Entry_box i, i) h \<and> ((Entry_box i, i), h) \<in> set w" by blast
    then show ?thesis using True by simp
  next
    case False
    then have f: "f = History_box i n" "(i, n) \<in> set (history_names (home_tree s))" using assms(2,3) by (simp_all add: in_history_names)
    then obtain z where z: "z \<in> set w" "fst z = (History_box i n, i)" "opens_at E sk_old Home s (History_box i n, i) (snd z)" using B by fastforce
    then have "((History_box i n, i), snd z) \<in> set w" by (metis prod.collapse)
    with z(3) show ?thesis using f(1) by blast
  qed
qed

lemma unseal_done:
  assumes "unseal E k b s = (Inr key, s1)"
  shows "\<exists>n. bk_decrypt (le_bk E) n (cred_name E k) b = Inr key"
  using assms by (auto simp: unseal_def bindL_done open_cred_def split: sum.split_asm unseal_fail.split_asm if_split_asm)

lemma release_done:
  assumes "release_sk E p pk s = (Inr sk, s1)"
  shows "\<exists>bs n. fileL p (Key Cred_secret) s = Some bs \<and> bk_decrypt (le_bk E) n (cred_name E Cred_secret) bs = Inr sk \<and> p_public (box_lib E) sk = pk"
proof (cases "fileL p (Key Cred_secret) s")
  case None
  then show ?thesis using assms by (simp add: release_sk_def)
next
  case (Some bs)
  obtain x s2 where x: "unseal E Cred_secret bs (if p = Home then s\<lparr>li_unseals := Suc (li_unseals s)\<rparr> else s) = (x, s2)" by fastforce
  have raise: "bindL f (\<lambda>k. raiseL (Le_seal k)) t \<noteq> (Inr y, t')" for f :: "('a, seal_kind) lact" and y :: "'a list" and t t'
    by (simp add: bindL_done)
  show ?thesis
  proof (cases x)
    case (Inl e)
    then show ?thesis using assms Some x raise by (cases e) (auto simp: release_sk_def split: sum.split_asm)
  next
    case (Inr y)
    then have "y = sk \<and> p_public (box_lib E) sk = pk" using assms Some x by (auto simp: release_sk_def split: if_split_asm)
    then show ?thesis using Some unseal_done [OF x [unfolded Inr]] by blast
  qed
qed

definition no_old_keys :: "'a life \<Rightarrow> bool" where
  "no_old_keys s \<longleftrightarrow> (\<forall>k. fileL Rot (Prev k) s = None)"

lemma no_prev_op:
  assumes "no_prev op" "\<forall>k. Option.bind (tree_at Rot r) (\<lambda>t. dget t (Prev k)) = None"
  shows "Option.bind (tree_at Rot (do_lop op r)) (\<lambda>t. dget t (Prev k)) = None"
proof -
  have g: "dget (dset f b t) x = (if x = f then Some b else dget t x)" "dget (ddel f t) x = (if x = f then None else dget t x)" for f b t x
    by simp_all
  show ?thesis using assms
    by (cases op) (auto simp: no_prev_def g split: option.split bind_splits if_split_asm fname.split_asm)
qed

lemma no_prev_changes:
  assumes "changes no_prev s s'" "no_old_keys s"
  shows "no_old_keys s'"
proof -
  have "list_all no_prev ops \<Longrightarrow> \<forall>k. Option.bind (tree_at Rot r) (\<lambda>t. dget t (Prev k)) = None \<Longrightarrow>
      \<forall>k. Option.bind (tree_at Rot (run_ops ops r)) (\<lambda>t. dget t (Prev k)) = None" for ops r
    by (induction ops arbitrary: r) (simp, simp add: no_prev_op del: do_lop.simps)
  moreover obtain ops where "list_all no_prev ops" "li_root s' = run_ops ops (li_root s)" using assms(1) by (auto simp: changes_def)
  ultimately show ?thesis using assms(2) unfolding no_old_keys_def fileL_def by simp
qed

lemma remove_tree_gone: "rt_rot (li_root (remove_tree Rot s)) = None"
  by (simp add: remove_tree_def tree_at_def set_tree_def split: option.split)

lemma load_keys_done:
  assumes "load_keys E Rot s = (Inr new, s1)" "no_old_keys s"
  shows "same_disk s s1 \<and> (\<exists>bl n. fileL Rot (Key Cred_list) s = Some bl \<and> bk_decrypt (le_bk E) n (cred_name E Cred_list) bl = Inr (ld_rk new)) \<and>
    read_loaded E Rot (ld_rk new) s1 = Inr new"
proof -
  obtain rk where ul: "unseal_list E Rot s = (Inr rk, s1)" and rl: "read_loaded E Rot rk s1 = Inr new"
    using assms(1) by (auto simp: load_keys_def bindL_done)
  have rk: "ld_rk new = rk" using rl by (auto simp: read_loaded_def err_simps)
  have prev: "list_ex (\<lambda>k. fileL Rot (Prev k) t = None) KFILES" if "same_disk s t" for t
    using that assms(2) by (simp add: no_old_keys_def fileL_def same_disk_def KFILES_def)
  have rd: "back_to E kj blob t \<noteq> (Inr rk, s1)" if "same_disk s t" for kj blob t
    using prev [OF that] by (auto simp: back_to_def rollback_def bindL_def split: prod.splits sum.splits option.splits)
  obtain bl where bl: "fileL Rot (Key Cred_list) s = Some bl" and un: "unseal E Cred_list bl s = (Inr rk, s1)"
  proof (cases "fileL Rot (Key Cred_list) s")
    case None
    then show thesis using ul rd [OF same_disk_refl] by (auto simp: unseal_list_back split: sum.split_asm option.split_asm)
  next
    case (Some bl)
    obtain x t where x: "unseal E Cred_list bl s = (x, t)" by fastforce
    have t: "same_disk s t" by (rule readsD [OF reads_unseal x])
    show thesis
    proof (rule that [OF Some])
      show "unseal E Cred_list bl s = (Inr rk, s1)"
        using ul Some x rd [OF t] rd [OF same_disk_refl]
        by (auto simp: unseal_list_back split: sum.split_asm option.split_asm life_exn.split_asm)
    qed
  qed
  have "\<exists>n. bk_decrypt (le_bk E) n (cred_name E Cred_list) bl = Inr rk"
    by (rule unseal_done [OF un])
  then show ?thesis using bl readsD [OF reads_unseal un] rl rk by auto
qed

lemma drop_prev_none: "no_old_keys s \<Longrightarrow> drop_prev Rot s = s"
  by (simp add: drop_prev_def KFILES_def no_old_keys_def)

lemma same_disk_files: "same_disk s s' \<Longrightarrow> fileL p f s' = fileL p f s"
  by (simp add: same_disk_def fileL_def)

lemma read_loaded_files: "(\<And>f. fileL p f s = fileL q f s') \<Longrightarrow> read_loaded E p rk s = read_loaded E q rk s'"
  by (simp add: read_loaded_def)

lemma read_back_done:
  assumes "read_rotated E ld made s = (Inr u, s')" "no_old_keys s"
  shows "\<exists>new sk bl bs m n. same_disk s s' \<and>
    fileL Rot (Key Cred_list) s' = Some bl \<and> bk_decrypt (le_bk E) m (cred_name E Cred_list) bl = Inr (ld_rk new) \<and>
    read_loaded E Rot (ld_rk new) s' = Inr new \<and> same_doc (ld_doc new) (fst (fst made)) \<and> same_dict (ld_nick new) (ld_nick ld) \<and>
    fileL Rot (Key Cred_secret) s' = Some bs \<and> bk_decrypt (le_bk E) n (cred_name E Cred_secret) bs = Inr sk \<and>
    list_all (\<lambda>z. opens_at E sk Rot s' (fst z) (snd z)) (snd (fst made))"
proof -
  obtain s0 u0 new s1 u1 s2 sk s3 got s4 sess s5 where
    c: "((if fileL Rot (Key Keys_json) s = None \<and> fileL Rot (Key Cred_list) s = None then Inl Le_store else Inr ()) :: life_exn + unit, s) = (Inr u0, s0)"
    and l: "load_keys E Rot s0 = (Inr new, s1)" and d: "(Inr () :: life_exn + unit, drop_prev Rot s1) = (Inr u1, s2)"
    and k: "release_sk E Rot (ld_pk new) s2 = (Inr sk, s3)" and g: "each (digest_back E sk) (map fst (snd (fst made))) [] s3 = (Inr got, s4)"
    and e: "session_at E Rot (ld_sub new) s4 = (Inr sess, s5)"
    and f: "(if got = map snd (snd (fst made)) \<and> same_doc (ld_doc new) (fst (fst made)) \<and> same_json sess (snd made) \<and>
         same_dict (ld_nick new) (ld_nick ld) then retL () else raiseL Le_store) s5 = (Inr u, s')"
    using assms(1) unfolding read_rotated_def bindL_done by (elim exE conjE) (rule that; assumption)
  have s0: "s0 = s" using c by auto
  note l = load_keys_done [OF l [unfolded s0] assms(2)]
  have n1: "no_old_keys s1" using l assms(2) by (simp add: no_old_keys_def same_disk_def fileL_def)
  have s2: "s2 = s1" using d drop_prev_none [OF n1] by simp
  have s3: "same_disk s1 s3" using readsD [OF reads_release k] s2 by simp
  obtain hs where s4: "s4 = s3" "got = hs" "list_all2 (opens_at E sk Rot s3) (map fst (snd (fst made))) hs" using digests_back [OF g] by auto
  have s5: "s' = s5" "s5 = s4" and ok: "got = map snd (snd (fst made))" "same_doc (ld_doc new) (fst (fst made))" "same_dict (ld_nick new) (ld_nick ld)"
    using f e by (auto simp: session_at_def split: if_split_asm)
  have all: "same_disk s s'" using l s3 s4(1) s5 same_disk_trans by auto
  obtain bl m where bl: "fileL Rot (Key Cred_list) s = Some bl" "bk_decrypt (le_bk E) m (cred_name E Cred_list) bl = Inr (ld_rk new)" using l by blast
  obtain bs n where bs: "fileL Rot (Key Cred_secret) s2 = Some bs" "bk_decrypt (le_bk E) n (cred_name E Cred_secret) bs = Inr sk"
    using release_done [OF k] by blast
  have rl: "read_loaded E Rot (ld_rk new) s' = Inr new"
    using read_loaded_files [of Rot s1 Rot s' E "ld_rk new"] l same_disk_files [OF s3] s4(1) s5 by simp
  have "list_all (\<lambda>z. opens_at E sk Rot s' (fst z) (snd z)) (snd (fst made))"
    using s4(3) ok(1) unfolding s4(2) [symmetric] s5 s4(1) by (simp add: list_all2_map1 list_all2_map2 list_all2_same list_all_iff)
  then show ?thesis
    using all bl bs rl ok same_disk_files [OF all] same_disk_files [OF s3] s2 s4(1) s5
    by (intro exI [of _ new] exI [of _ sk] exI [of _ bl] exI [of _ bs] exI [of _ m] exI [of _ n]) simp
qed

text \<open>Nothing but the MACs of a record changes.\<close>

definition without_macs :: "'b doc \<Rightarrow> 'b doc" where
  "without_macs d = d\<lparr>d_entries := map (\<lambda>(i, rec). (i, rec\<lparr>r_pwmac := None, r_smac := None\<rparr>)) (d_entries d)\<rparr>"

lemma each_same:
  assumes "\<And>x w w' s s'. f x w s = (Inr w', s') \<Longrightarrow> g w' = g w" "each f xs w s = (Inr w', s')"
  shows "g w' = g w"
  using assms(2)
proof (induction xs arbitrary: w s)
  case (Cons x xs)
  obtain w1 s1 where 1: "f x w s = (Inr w1, s1)" and 2: "each f xs w1 s1 = (Inr w', s')" using Cons.prems by (auto simp: bindL_done)
  show ?case using assms(1) [OF 1] Cons.IH [OF 2] by simp
qed simp

lemma map_dset_same: "dget xs i = Some r \<Longrightarrow> h (i, r') = h (i, r) \<Longrightarrow> map h (dset i r' xs) = map h xs"
  by (induction xs) (auto simp: dget_def dset_def split: if_split_asm)

lemma copy_entry_macs:
  assumes "copy_entry E sk pk sub i dw s = (Inr dw', s')"
  shows "without_macs (fst dw') = without_macs (fst dw)"
proof (cases "dget (d_entries (fst dw)) i")
  case None
  then show ?thesis using assms by (auto simp: copy_entry_def bindL_done)
next
  case (Some rec)
  then obtain x where "fst dw' = (fst dw)\<lparr>d_entries := dset i (new_macs E sub x rec) (d_entries (fst dw))\<rparr>"
    using assms by (auto simp: copy_entry_def bindL_done)
  moreover have "map (\<lambda>(i, rec). (i, rec\<lparr>r_pwmac := None, r_smac := None\<rparr>)) (dset i (new_macs E sub x rec) (d_entries (fst dw))) =
      map (\<lambda>(i, rec). (i, rec\<lparr>r_pwmac := None, r_smac := None\<rparr>)) (d_entries (fst dw))"
    by (rule map_dset_same [OF Some]) (simp add: new_macs_def)
  ultimately show ?thesis by (simp add: without_macs_def)
qed

lemma write_rotated_macs:
  assumes "write_rotated E ld kj sk_old rk sk sub s = (Inr ((d, w), sess), s')"
  shows "without_macs d = without_macs (ld_doc ld)"
proof -
  obtain dw s5 s6 where e: "each (copy_entry E sk_old (p_public (box_lib E) sk) sub) (entry_ids (home_tree s)) (ld_doc ld, []) s5 = (Inr dw, s6)"
      and d: "d = forget_macs (snd dw) (fst dw)"
    using write_rotated_parts [OF assms] by blast
  have "without_macs (fst dw) = without_macs (ld_doc ld)"
    using each_same [OF _ e, where g = "\<lambda>dw. without_macs (fst dw)"] copy_entry_macs by fastforce
  moreover have "without_macs d = without_macs (fst dw)" unfolding d without_macs_def forget_macs_def
    by (simp, intro arg_cong [where f = "\<lambda>x. d_entries_update (\<lambda>_. x) (fst dw)"] map_cong refl) auto
  ultimately show ?thesis by simp
qed

lemma write_rotated_keeps: "write_rotated E ld kj sk_old rk sk sub s = (x, s') \<Longrightarrow> no_old_keys s \<Longrightarrow> no_old_keys s'"
  using no_prev_changes [OF runs_inD [OF fresh.rots_write]] .

text \<open>
  C8. A move that succeeds has lost nothing: the key the backend gives for the new \<^verbatim>\<open>list.cred\<close> opens the new document, which is the one held,
  the old one but for its MACs, and the nicknames; and every box of the old store, current and history, is in the new one and opens under the key of the new
  \<^verbatim>\<open>secret.cred\<close> to the same contents, by their digest. The old tree is gone.
\<close>

theorem rotation_verified:
  assumes "reseal_if_tpm_available E s = (Inr True, s1)"
  shows "\<exists>ld now new sk_old sk bl bs bo l m n. li_keys s = Some ld \<and> li_keys s1 = Some now \<and>
    fileL Home (Key Cred_list) s1 = Some bl \<and> bk_decrypt (le_bk E) l (cred_name E Cred_list) bl = Inr (ld_rk new) \<and>
    read_loaded E Home (ld_rk new) s1 = Inr new \<and> same_doc (ld_doc new) (ld_doc now) \<and> without_macs (ld_doc now) = without_macs (ld_doc ld) \<and>
    same_dict (ld_nick new) (ld_nick ld) \<and>
    fileL Home (Key Cred_secret) s1 = Some bs \<and> bk_decrypt (le_bk E) m (cred_name E Cred_secret) bs = Inr sk \<and>
    fileL Home (Key Cred_secret) s = Some bo \<and> bk_decrypt (le_bk E) n (cred_name E Cred_secret) bo = Inr sk_old \<and>
    (\<forall>f i k. fileL Home f s \<noteq> None \<and> (f = Entry_box i \<or> f = History_box i k) \<longrightarrow>
      (\<exists>h. opens_at E sk_old Home s (f, i) h \<and> opens_at E sk Home s1 (f, i) h)) \<and>
    rt_rot (li_root s1) = None"
  using assms
proof (cases rule: reseal_cases)
  case (swapped ld kj sk_old rk sk sub s0 s' s2 s3 d)
  let ?now = "\<lparr>ld_rk = rk, ld_sub = sub, ld_pk = p_public (box_lib E) sk, ld_doc = d, ld_nick = ld_nick ld\<rparr>"
  have s1: "s1 = (remove_tree Rot (emitL Swap s3))\<lparr>li_keys := Some ?now\<rparr>" using swapped(6) by simp
  have cleared: "changes rot_op s s2"
    using changes_same [OF swapped(2)] copied.rots_release [OF swapped(3)] changes_same [OF swapped(4)] changes_trans by metis
  have "no_old_keys (remove_tree Rot s0)" by (simp add: no_old_keys_def fileL_def tree_at_def remove_tree_gone)
  then have old2: "no_old_keys s2"
    using same_disk_files [OF readsD [OF reads_release swapped(3)]] same_disk_files [OF swapped(4)] by (simp add: no_old_keys_def)
  obtain w sess s4 where wr: "write_rotated E ld kj sk_old rk sk sub s2 = (Inr ((d, w), sess), s4)" and rb: "\<exists>u. read_rotated E ld ((d, w), sess) s4 = (Inr u, s3)"
    using swapped(5) by (auto simp: build_rotated_def bindL_done)
  obtain new skn bl bs l m where rd: "same_disk s4 s3" "fileL Rot (Key Cred_list) s3 = Some bl"
      "bk_decrypt (le_bk E) l (cred_name E Cred_list) bl = Inr (ld_rk new)" "read_loaded E Rot (ld_rk new) s3 = Inr new"
      "same_doc (ld_doc new) d" "same_dict (ld_nick new) (ld_nick ld)" "fileL Rot (Key Cred_secret) s3 = Some bs"
      "bk_decrypt (le_bk E) m (cred_name E Cred_secret) bs = Inr skn" "list_all (\<lambda>z. opens_at E skn Rot s3 (fst z) (snd z)) w"
    using rb read_back_done [OF _ write_rotated_keeps [OF wr old2]] by fastforce
  have files: "fileL Home f s1 = fileL Rot f s3" for f
    using remove_tree_file [of Rot Home f "emitL Swap s3"] by (simp add: s1 fileL_def tree_at_def)
  have home: "fileL Home f s2 = fileL Home f s" for f by (rule changes_home [OF cleared])
  obtain bo n where bo: "fileL Home (Key Cred_secret) s = Some bo" "bk_decrypt (le_bk E) n (cred_name E Cred_secret) bo = Inr sk_old"
    using release_done [OF swapped(3)] remove_tree_file [of Rot Home _ s0] same_disk_files [OF swapped(2)] by auto
  have boxes: "\<exists>h. opens_at E sk_old Home s (f, i) h \<and> opens_at E skn Home s1 (f, i) h"
    if old: "fileL Home f s \<noteq> None" and name: "f = Entry_box i \<or> f = History_box i k" for f i k
  proof -
    have "dget (home_tree s2) f \<noteq> None" using old home [of f] by (auto simp: fileL_def home_tree_def tree_at_def split: option.split bind_splits)
    then obtain h where h: "opens_at E sk_old Home s2 (f, i) h" "((f, i), h) \<in> set w" using write_rotated_done [OF wr _ name] by blast
    have "opens_at E skn Rot s3 (f, i) h" using rd(9) h(2) by (auto simp: list_all_iff)
    then show ?thesis using h(1) opens_at_cong [of Home s2 s, OF home] files by (auto simp: opens_at_def)
  qed
  have read: "read_loaded E Home (ld_rk new) s1 = Inr new" using read_loaded_files [of Home s1 Rot s3] files rd(4) by simp
  have macs: "without_macs (ld_doc ?now) = without_macs (ld_doc ld)" using write_rotated_macs [OF wr] by simp
  have gone: "rt_rot (li_root s1) = None" by (simp add: s1 remove_tree_gone)
  have now: "li_keys s1 = Some ?now" by (simp add: s1)
  show ?thesis
    by (rule exI [of _ ld], rule exI [of _ ?now], rule exI [of _ new], rule exI [of _ sk_old], rule exI [of _ skn], rule exI [of _ bl],
        rule exI [of _ bs], rule exI [of _ bo], rule exI [of _ l], rule exI [of _ m], rule exI [of _ n])
      (intro conjI swapped(1) now macs read rd(3,6,8) bo gone; (use files rd boxes in auto)?)
qed simp

subsection \<open>A last step that is not caught\<close>

text \<open>
  The directory's \<^verbatim>\<open>fsync\<close> after the swap is outside the \<^verbatim>\<open>try\<close>. When it fails the new store is in place while the object goes on with the keys of the
  old one, and the next write of \<^verbatim>\<open>meta.v2\<close> makes the store unreadable for the key that is sealed in it.
\<close>

lemma fsync_after_swap_strands_keys:
  fixes E :: "'a lenv"
  assumes lib: "flib_ok (le_lib E)" "\<forall>n. length (le_nonce E n) = NONCE_BYTES"
    and fault: "le_fault E (length (li_log s)) = Fails_after" "finish_rotation E ld new s = (r, s1)" "li_keys s = Some ld" "rt_rot (li_root s) \<noteq> None"
    and wr: "write_doc E Home (ld_sub ld) d s1 = (Inr u, s2)"
    and key: "derive (le_lib E) rk = Some sub" "sk_meta sub \<noteq> sk_meta (ld_sub ld)"
  shows "r = Inl Le_os \<and> li_keys s1 = Some ld \<and> rt_home (li_root s1) = rt_rot (li_root s) \<and> read_loaded E Home rk s2 = Inl (Le_seal Damaged)"
proof -
  have s1: "s1 = emitL Swap s" "r = Inl Le_os" using fault(1,2) by (simp_all add: finish_rotation_def)
  obtain b s3 where b: "sealed_bytes E (sk_meta (ld_sub ld)) KIND_META ''meta.v2'' (fl_doc_text (le_lib E) d) s1 = (Inr b, s3)"
      and p: "putL E Home Meta_v2 b s3 = (Inr u, s2)"
    using wr by (auto simp: write_doc_def bindL_done)
  have "li_root s3 = li_root s1" using sealed_bytes_done [OF b] by (simp add: same_disk_def)
  then have "fileL Home Meta_v2 s2 = Some b" using p fault(4) s1 by (auto simp: putL_done fileL_def tree_at_def set_tree_def)
  moreover have "decrypt (le_lib E) (sk_meta sub) KIND_META (le_uid E) ''meta.v2'' b = None"
  proof (cases "decrypt (le_lib E) (sk_meta sub) KIND_META (le_uid E) ''meta.v2'' b")
    case (Some q)
    then have "sk_meta sub = sk_meta (ld_sub ld)"
      using decrypt_encrypted [OF lib(1) lib(2) [rule_format] conjunct1 [OF sealed_bytes_done [OF b]]] by blast
    then show ?thesis using key(2) by simp
  qed
  moreover have "pk_from_record (le_lib E) (sk_meta sub) x = None \<or> (\<exists>pk. pk_from_record (le_lib E) (sk_meta sub) x = Some pk)" for x
    by (cases "pk_from_record (le_lib E) (sk_meta sub) x") auto
  ultimately have "read_loaded E Home rk s2 = Inl (Le_seal Damaged)"
    using key(1) by (auto simp: read_loaded_def damaged_def read_text_def from_store_def split: option.split)
  then show ?thesis using s1 fault(3) by simp
qed

subsection \<open>A move that succeeds\<close>

abbreviation tpm_env :: "atom lenv" where "tpm_env \<equiv> seal_env Key_host_tpm2 True"

definition old_sk :: "atom list" where "old_sk = A_rand 100 # replicate 31 A_pad"
definition one_payload :: "(string \<times> json) list" where "one_payload = [(''id'', JStr (ascii ''e1''))]"

definition host_keys :: "atom loaded" where
  "host_keys = \<lparr>ld_rk = [], ld_sub = \<lparr>sk_meta = [], sk_session = [], sk_aliases = [], sk_nicknames = [], sk_pwmac = []\<rparr>,
     ld_pk = p_public atom_box old_sk, ld_doc = empty_doc, ld_nick = []\<rparr>"

definition host_store :: "atom life" where
  "host_store = nobody\<lparr>
     li_root := \<lparr>rt_home = Some [(Key Keys_json, [A_json (JObj [(''sealed_with'', JStr (ascii ''host''))])]),
        (Key Cred_secret, [A_cred (cred_name tpm_env Cred_secret) old_sk]),
        (Entry_box ''e1'', seal atom_box (p_public atom_box old_sk) one_payload 7)], rt_rot = None, rt_aside = []\<rparr>,
     li_keys := Some host_keys\<rparr>"

lemma atom_box_lib [simp]: "fl_box atom_lib = atom_box"
  by (simp add: atom_lib_def)

lemma example_machine: "bk_machine (atom_backend k t) n = \<lparr>mc_device = t, mc_has_tpm2 = Some 0, mc_exists = (\<lambda>p. False), mc_srk_pem = None\<rparr>"
  by (simp add: atom_backend_def)

lemma example_releases:
  assumes "fileL p (Key Cred_secret) s = Some [A_cred (cred_name (seal_env k t) Cred_secret) sk]" "length sk = KEY_BYTES"
  shows "\<exists>s1. release_sk (seal_env k t) p (p_public atom_box sk) s = (Inr sk, s1) \<and> li_root s1 = li_root s \<and> li_log s1 = li_log s \<and> li_draws s1 = li_draws s"
  using assms by (simp add: release_sk_def unseal_def)

lemma example_new_blobs: "\<exists>s1. new_blobs tpm_env rk sk s =
    (Inr (([A_cred (cred_name tpm_env Cred_list) rk], [A_cred (cred_name tpm_env Cred_secret) sk]), None), s1) \<and> li_root s1 = li_root s \<and> li_log s1 = li_log s \<and>
    li_draws s1 = li_draws s"
  by (simp add: new_blobs_def seal_both_def key_type_of_def fingerprint_def look_def srk_fingerprint_def example_machine)

lemma open_one: "open_box atom_box sk (seal atom_box (p_public atom_box sk) one_payload r) ''e1'' None = Inr one_payload"
  by (simp add: open_box_def seal_def atom_box_def one_payload_def jget_def new_enough_def)

lemma e1_valid: "store_valid_id (JStr (ascii ''e1''))"
  by (simp add: store_valid_id_def valid_id_def ascii_def Let_def chop_newline_def id_char_def)

lemma host_store_file: "fileL Home f host_store = (if f = Key Keys_json then Some [A_json (JObj [(''sealed_with'', JStr (ascii ''host''))])]
    else if f = Key Cred_secret then Some [A_cred (cred_name tpm_env Cred_secret) old_sk]
    else if f = Entry_box ''e1'' then Some (seal atom_box (p_public atom_box old_sk) one_payload 7) else None)"
  by (simp add: host_store_def fileL_def tree_at_def dget_def)

lemma example_copies:
  assumes "rt_home (li_root s) = rt_home (li_root host_store)"
  shows "copy_entry tpm_env old_sk pk sub ''e1'' (empty_doc, []) s =
    (Inr (empty_doc, [((Entry_box ''e1'', ''e1''), digest tpm_env one_payload)]),
     emitL (Put Rot (Entry_box ''e1'') (seal atom_box pk one_payload (li_draws s))) (s\<lparr>li_draws := Suc (li_draws s)\<rparr>))"
proof -
  have "fileL Home f s = fileL Home f host_store" for f using assms by (simp add: fileL_def tree_at_def)
  then show ?thesis
    by (simp add: copy_entry_def copy_box_def open_at_def e1_valid host_store_file open_one from_store_def draw_seed_def empty_doc_def dget_def)
qed

lemma example_sessions [simp]: "fileL p Session_v2 s = None \<Longrightarrow> session_at E p sub s = (Inr [], s)"
  by (simp add: session_at_def load_session_def read_field_def read_text_def from_store_def)

definition one_wanted :: "atom wanted" where "one_wanted = [((Entry_box ''e1'', ''e1''), digest tpm_env one_payload)]"

lemma example_written:
  assumes "rt_home (li_root s) = rt_home (li_root host_store)" "rt_rot (li_root s) = None" "sk = A_rand j # replicate 31 A_pad"
  shows "\<exists>s' b r q js. write_rotated tpm_env host_keys kj old_sk rk sk sub s = (Inr ((empty_doc, one_wanted), []), s') \<and>
    encrypt atom_lib (sk_meta sub) KIND_META 1000 ''meta.v2'' (A_rand q # replicate 23 A_pad) [A_doc] = Some b \<and>
    fileL Rot (Key Cred_list) s' = Some [A_cred (cred_name tpm_env Cred_list) rk] \<and>
    fileL Rot (Key Cred_secret) s' = Some [A_cred (cred_name tpm_env Cred_secret) sk] \<and>
    fileL Rot Pub s' = Some (pk_record atom_lib (sk_meta sub) (p_public atom_box sk)) \<and>
    fileL Rot (Entry_box ''e1'') s' = Some (seal atom_box (p_public atom_box sk) one_payload r) \<and>
    fileL Rot Meta_v2 s' = Some b \<and> fileL Rot (Key Keys_json) s' = Some [A_json (JObj js)] \<and>
    fileL Rot Nicknames_v2 s' = None \<and> fileL Rot Session_v2 s' = None \<and> (\<forall>k. fileL Rot (Prev k) s' = None)"
proof -
  have home: "fileL Home f t = fileL Home f host_store" if "rt_home (li_root t) = rt_home (li_root host_store)" for t f
    using that by (simp add: fileL_def tree_at_def)
  have ids: "entry_ids (home_tree t) = [''e1'']" "history_names (home_tree t) = []" if "rt_home (li_root t) = rt_home (li_root host_store)" for t
    using that by (simp_all add: home_tree_def host_store_def entry_ids_def history_names_def history_ids_def)
  have set: "rt_home (set_tree Rot t r) = rt_home r" for t r by (simp add: set_tree_def)
  obtain s1 where blobs: "new_blobs tpm_env rk sk (emitL (Mk_dir Rot) s) =
      (Inr (([A_cred (cred_name tpm_env Cred_list) rk], [A_cred (cred_name tpm_env Cred_secret) sk]), None), s1)"
      "li_root s1 = do_lop (Mk_dir Rot) (li_root s)" "li_log s1 = li_log s @ [Mk_dir Rot]"
    using example_new_blobs [of rk sk "emitL (Mk_dir Rot) s"] by auto
  obtain b where b: "encrypt atom_lib (sk_meta sub) KIND_META 1000 ''meta.v2'' (A_rand (Suc (li_draws s1)) # replicate 23 A_pad) [A_doc] = Some b"
    using example_aad [of KIND_META "''meta.v2''"] by (auto simp: encrypt_def KINDS_def)
  have small: "forget_macs w empty_doc = empty_doc" "fl_doc_text atom_lib e = [A_doc]" "p_dumps atom_box (JObj j) = [A_json (JObj j)]" for w e j
    by (simp_all add: forget_macs_def empty_doc_def atom_lib_def atom_box_def)
  show ?thesis
    by (simp add: assms(1,2) write_rotated_def doL_def blobs ids host_keys_def example_copies set write_doc_def home host_store_file KINDS_def
       write_session_def move_aliases_def move_nicknames_def move_plain_def one_wanted_def small b,
      simp add: assms(2) fileL_def blobs(2) tree_at_def [of Rot], intro conjI exI, rule b, rule refl)
qed

lemma example_reads:
  assumes "derive atom_lib rk = Some sub" "length sk = KEY_BYTES"
    and "encrypt atom_lib (sk_meta sub) KIND_META 1000 ''meta.v2'' (A_rand q # replicate 23 A_pad) [A_doc] = Some b"
    and "fileL Rot Pub s = Some (pk_record atom_lib (sk_meta sub) (p_public atom_box sk))" "fileL Rot Meta_v2 s = Some b" "fileL Rot Nicknames_v2 s = None"
  shows "read_loaded tpm_env Rot rk s = Inr \<lparr>ld_rk = rk, ld_sub = sub, ld_pk = p_public atom_box sk, ld_doc = empty_doc, ld_nick = []\<rparr>"
proof -
  have pk: "pk_from_record atom_lib (sk_meta sub) (Some (pk_record atom_lib (sk_meta sub) (p_public atom_box sk))) = Some (p_public atom_box sk)"
    by (rule pk_from_pk_record [OF atom_lib_ok]) (simp add: atom_box_def KEY_BYTES_def)
  have meta: "read_text atom_lib (sk_meta sub) KIND_META 1000 ''meta.v2'' (Some b) = Inr (Some [A_doc])"
    using decrypt_encrypted [OF atom_lib_ok _ assms(3), THEN iffD2] by (simp add: read_text_def NONCE_BYTES_def)
  have "fl_doc_read atom_lib [A_doc] = Some empty_doc" by (simp add: atom_lib_def)
  then show ?thesis
    using assms(1,4-6) by (simp add: read_loaded_def damaged_def pk meta from_store_def load_nicknames_def read_field_def read_text_def [of _ _ KIND_NICKNAMES])
qed

lemma example_read_back:
  assumes "derive atom_lib rk = Some sub" "sk = A_rand j # replicate 31 A_pad" "length rk = KEY_BYTES"
    and "encrypt atom_lib (sk_meta sub) KIND_META 1000 ''meta.v2'' (A_rand q # replicate 23 A_pad) [A_doc] = Some b"
    and files: "fileL Rot (Key Cred_list) s = Some [A_cred (cred_name tpm_env Cred_list) rk]"
      "fileL Rot (Key Cred_secret) s = Some [A_cred (cred_name tpm_env Cred_secret) sk]"
      "fileL Rot Pub s = Some (pk_record atom_lib (sk_meta sub) (p_public atom_box sk))"
      "fileL Rot (Entry_box ''e1'') s = Some (seal atom_box (p_public atom_box sk) one_payload r)" "fileL Rot Meta_v2 s = Some b"
      "fileL Rot (Key Keys_json) s = Some [A_json (JObj js)]" "fileL Rot Nicknames_v2 s = None" "fileL Rot Session_v2 s = None" "\<forall>k. fileL Rot (Prev k) s = None"
  shows "\<exists>s'. read_rotated tpm_env host_keys ((empty_doc, one_wanted), []) s = (Inr (), s')"
proof -
  let ?s = "s\<lparr>li_calls := Suc (li_calls s)\<rparr>"
  have calls: "fileL p f (t\<lparr>li_calls := n\<rparr>) = fileL p f t" for p f n and t :: "atom life" by (simp add: fileL_def)
  have len: "length sk = KEY_BYTES" by (simp add: assms(2) KEY_BYTES_def)
  have "p_loads atom_box [A_json (JObj js)] = Some (JObj (sort_key fst (map (\<lambda>(k, v). (k, sort_json v)) js)))" by (simp add: atom_box_def)
  then have ul: "unseal_list tpm_env Rot s = (Inr rk, ?s)"
    using files(1,6) assms(3) by (simp add: unseal_list_def keys_json_def unseal_def)
  let ?ld = "\<lparr>ld_rk = rk, ld_sub = sub, ld_pk = p_public atom_box sk, ld_doc = empty_doc, ld_nick = []\<rparr>"
  have "read_loaded tpm_env Rot rk ?s = Inr ?ld"
    by (rule example_reads [OF assms(1) len assms(4)]) (use files in \<open>simp_all add: calls\<close>)
  then have load: "load_keys tpm_env Rot s = (Inr ?ld, ?s)" using ul by (simp add: load_keys_def)
  have drop: "drop_prev Rot ?s = ?s" by (rule drop_prev_none) (use files(9) in \<open>simp add: no_old_keys_def calls\<close>)
  obtain s1 where rel: "release_sk tpm_env Rot (p_public atom_box sk) ?s = (Inr sk, s1)" "li_root s1 = li_root ?s"
    using example_releases [of Rot ?s Key_host_tpm2 True sk] files(2) len by (auto simp: calls)
  have f1: "fileL p f s1 = fileL p f s" for p f using rel(2) by (simp add: fileL_def)
  have dg: "digest_back tpm_env sk (Entry_box ''e1'', ''e1'') [] s1 = (Inr [digest tpm_env one_payload], s1)"
    by (simp add: digest_back_def open_at_def e1_valid f1 files(4) open_one from_store_def)
  show ?thesis
    by (simp add: read_rotated_def files(6) load drop rel(1) one_wanted_def dg f1 files(8) same_doc_def same_dict_def same_json_def host_keys_def empty_doc_def)
qed

lemma host_store_moves: "fst (reseal_if_tpm_available tpm_env host_store) = Inr True"
proof -
  let ?s0 = "remove_tree Rot (host_store\<lparr>li_calls := 1\<rparr>)"
  have r0: "li_root ?s0 = li_root host_store" "li_log ?s0 = []" by (simp_all add: remove_tree_def tree_at_def host_store_def nobody_def)
  have "fileL Home f ?s0 = fileL Home f host_store" for f using r0 by (simp add: fileL_def)
  then obtain s1 where rel: "release_sk tpm_env Home (p_public atom_box old_sk) ?s0 = (Inr old_sk, s1)" "li_root s1 = li_root host_store" "li_log s1 = []"
    using example_releases [of Home ?s0 Key_host_tpm2 True old_sk] r0 by (auto simp: host_store_file old_sk_def KEY_BYTES_def)
  let ?rk = "A_rand (li_draws s1) # replicate 31 A_pad" and ?sk = "A_rand (Suc (li_draws s1)) # replicate 31 A_pad"
  have len: "length ?rk = KEY_BYTES" by (simp add: KEY_BYTES_def)
  obtain sub where sub: "derive atom_lib ?rk = Some sub" using example_derives [OF len] by blast
  let ?kj = "sort_key fst (map (\<lambda>(k, v). (k, sort_json v)) [(''sealed_with'', JStr (ascii ''host''))])" and ?s2 = "s1\<lparr>li_draws := li_draws s1 + 2\<rparr>"
  have rot: "rt_home (li_root ?s2) = rt_home (li_root host_store)" "rt_rot (li_root ?s2) = None" using rel(2) by (simp_all add: host_store_def)
  obtain s3 s4 where wr: "write_rotated tpm_env host_keys ?kj old_sk ?rk ?sk sub ?s2 = (Inr ((empty_doc, one_wanted), []), s3)"
      and rb: "read_rotated tpm_env host_keys ((empty_doc, one_wanted), []) s3 = (Inr (), s4)"
    using example_written [OF rot refl, where kj = ?kj and rk = ?rk and sub = sub] example_read_back [OF sub refl len] by metis
  have "build_rotated tpm_env host_keys ?kj old_sk ?rk ?sk sub ?s2 = (Inr empty_doc, s4)" using wr rb by (simp add: build_rotated_def)
  then have "fst (rotate_store tpm_env host_keys ?kj (host_store\<lparr>li_calls := 1\<rparr>)) = Inr True"
    using rel(1) sub by (simp add: rotate_store_def host_keys_def finish_rotation_def)
  moreover have "p_loads atom_box [A_json (JObj [(''sealed_with'', JStr (ascii ''host''))])] = Some (JObj ?kj)" by (simp add: atom_box_def)
  moreover have "li_keys host_store = Some host_keys" "li_calls host_store = 0" by (simp_all add: host_store_def nobody_def)
  ultimately show ?thesis
    by (simp add: reseal_if_tpm_available_def keys_json_def host_store_file jget_def look_def example_machine tpm_present_def)
qed

lemma rotation_crash_safe_witness:
  "\<exists>s1 ops. reseal_if_tpm_available tpm_env host_store = (Inr True, s1) \<and> li_log s1 = ops \<and>
     (rt_home (run_ops (take 4 ops) (li_root host_store)) = rt_home (li_root host_store) \<or>
      rt_home (run_ops (take 4 ops) (li_root host_store)) = rt_home (li_root s1)) \<and> list_all (tpm_only tpm_env) ops"
proof -
  obtain s1 where r: "reseal_if_tpm_available tpm_env host_store = (Inr True, s1)" using host_store_moves by (metis prod.collapse)
  have "li_log s1 = li_log host_store @ li_log s1" by (simp add: host_store_def nobody_def)
  from rotation_crash_safe [OF r this, of 4] r show ?thesis by blast
qed

lemma rotation_verified_witness:
  "\<exists>s1 h sk_old sk. reseal_if_tpm_available tpm_env host_store = (Inr True, s1) \<and>
     opens_at tpm_env sk_old Home host_store (Entry_box ''e1'', ''e1'') h \<and> opens_at tpm_env sk Home s1 (Entry_box ''e1'', ''e1'') h"
proof -
  obtain s1 where r: "reseal_if_tpm_available tpm_env host_store = (Inr True, s1)" using host_store_moves by (metis prod.collapse)
  have "fileL Home (Entry_box ''e1'') host_store \<noteq> None" by (simp add: host_store_file)
  then show ?thesis using rotation_verified [OF r] r by blast
qed

end
